(* ===== verification/Prelude.thy ===== *)
theory Prelude
  imports Main "HOL-Library.Word"
begin

text \<open>
  Shared vocabulary of the development: the machine integers and byte strings of the
  program, the byte-order conversions of Rust's \<open>to_be_bytes\<close> / \<open>from_be_bytes\<close> family with
  their round-trip laws, the most recent \<open>n\<close> elements of a list (what every bounded
  \<open>VecDeque\<close> of the program keeps), and the rewrite collections that the components use.

  A Rust \<open>Result<T, E>\<close> is a sum \<open>'e + 'a\<close> with \<open>Inl\<close> for \<open>Err\<close> and \<open>Inr\<close> for \<open>Ok\<close>;
  \<open>Option<T>\<close> is \<open>'a option\<close>. Signed machine integers are words read through \<open>sint\<close>, or
  \<open>int\<close> where the component shows that they stay in range.
\<close>

unbundle bit_operations_syntax

type_synonym u8 = "8 word"
type_synonym u16 = "16 word"
type_synonym u32 = "32 word"
type_synonym u64 = "64 word"
type_synonym bytes = "u8 list"
type_synonym ('e, 'a) result = "'e + 'a"

text \<open>\<open>std::net::SocketAddr\<close>.\<close>

datatype socket_addr = SocketV4 u32 u16 | SocketV6 "u16 list" u16 u32

named_theorems wire "rewrite rules that evaluate a wire format field by field"

section \<open>Results\<close>

fun result_bind :: "('e, 'a) result \<Rightarrow> ('a \<Rightarrow> ('e, 'b) result) \<Rightarrow> ('e, 'b) result" where
  "result_bind (Inl e) f = Inl e"
| "result_bind (Inr x) f = f x"

fun ok_or :: "'a option \<Rightarrow> 'e \<Rightarrow> ('e, 'a) result" where
  "ok_or None e = Inl e"
| "ok_or (Some x) e = Inr x"

text \<open>The \<open>?\<close> operator in a method that updates its receiver: on an error the state stays as it is there.\<close>

fun attempt :: "'s \<Rightarrow> ('e, 'a) result \<Rightarrow> ('a \<Rightarrow> 's \<times> ('e, 'b) result) \<Rightarrow> 's \<times> ('e, 'b) result" where
  "attempt s (Inl e) f = (s, Inl e)"
| "attempt s (Inr x) f = f x"

fun map_err :: "('e \<Rightarrow> 'f) \<Rightarrow> ('e, 'a) result \<Rightarrow> ('f, 'a) result" where
  "map_err f (Inl e) = Inl (f e)"
| "map_err f (Inr x) = Inr x"

lemma attempt_Inr_iff [simp]:
  "attempt s r f = (s', Inr y) \<longleftrightarrow> (\<exists>x. r = Inr x \<and> f x = (s', Inr y))"
  by (cases r) auto

lemma attempt_cases:
  assumes "attempt s r f = z"
  obtains e where "r = Inl e" "z = (s, Inl e)" | x where "r = Inr x" "f x = z"
  using assms by (cases r) auto

lemma map_err_Inr_iff [simp]: "map_err f r = Inr y \<longleftrightarrow> r = Inr y"
  by (cases r) auto

lemma result_bind_Inr_iff [simp]:
  "result_bind r f = Inr y \<longleftrightarrow> (\<exists>x. r = Inr x \<and> f x = Inr y)"
  by (cases r) auto

lemma ok_or_Inr_iff [simp]: "ok_or x e = Inr y \<longleftrightarrow> x = Some y"
  by (cases x) auto

lemma ok_or_Inl_iff [simp]: "ok_or x e = Inl e' \<longleftrightarrow> x = None \<and> e' = e"
  by (cases x) auto

section \<open>Checked machine arithmetic\<close>

text \<open>
  An addition, subtraction or multiplication on a Rust integer that leaves the range of its
  type panics when overflow checks are on and wraps otherwise. Where a component computes
  with such operators the model is the checked one: \<open>None\<close> is the panic, so a proof of
  \<open>Some\<close> shows that both build profiles compute the same value.
\<close>

definition i64_chk :: "int \<Rightarrow> int option" where
  "i64_chk x = (if - (2 ^ 63) \<le> x \<and> x < 2 ^ 63 then Some x else None)"

definition u64_chk :: "int \<Rightarrow> int option" where
  "u64_chk x = (if 0 \<le> x \<and> x < 2 ^ 64 then Some x else None)"

lemma i64_chk_Some_iff [simp]: "i64_chk x = Some y \<longleftrightarrow> y = x \<and> - (2 ^ 63) \<le> x \<and> x < 2 ^ 63"
  by (auto simp: i64_chk_def)

lemma u64_chk_Some_iff [simp]: "u64_chk x = Some y \<longleftrightarrow> y = x \<and> 0 \<le> x \<and> x < 2 ^ 64"
  by (auto simp: u64_chk_def)

lemma unat_less_u8: "unat (w :: u8) < 256"
  by (rule order_less_le_trans [OF unsigned_less]) simp

lemma unat_less_u16: "unat (w :: u16) < 65536"
  by (rule order_less_le_trans [OF unsigned_less]) simp

lemma bit_15_u16: "bit (uint (w :: u16)) 15 \<longleftrightarrow> 32768 \<le> unat w"
proof -
  have "unat w < 65536" using unat_less_u16 [of w] by simp
  then have d: "unat w div 32768 = (if unat w < 32768 then 0 else 1)"
    using div_nat_eqI [of 32768 1 "unat w"] by simp
  have "bit (unat w) 15 \<longleftrightarrow> odd (unat w div 32768)" by (simp add: bit_iff_odd)
  moreover have "bit (uint w) 15 \<longleftrightarrow> bit (unat w) 15" by (simp add: bit_unsigned_iff)
  ultimately show ?thesis using d by (simp split: if_splits)
qed

lemma sint_u16: "sint (w :: u16) = (if unat w < 32768 then int (unat w) else int (unat w) - 65536)"
proof -
  have "sint w = signed_take_bit 15 (uint w)" by (simp add: sint_uint)
  also have "\<dots> = take_bit 16 (uint w) - 65536 * of_bool (bit (uint w) 15)"
    unfolding signed_take_bit_eq_take_bit_minus by simp
  also have "take_bit 16 (uint w) = uint w" using uint_bounded [of w] by (simp add: take_bit_int_eq_self)
  finally show ?thesis unfolding bit_15_u16 by (simp add: not_less)
qed

lemma unat_less_u32: "unat (w :: u32) < 4294967296"
  by (rule order_less_le_trans [OF unsigned_less]) simp

lemma unat_less_u64: "unat (w :: u64) < 18446744073709551616"
  by (rule order_less_le_trans [OF unsigned_less]) simp

lemma unat_ucast_up:
  "LENGTH('a) \<le> LENGTH('b) \<Longrightarrow> unat (ucast (w :: 'a::len word) :: 'b::len word) = unat w"
  unfolding unsigned_ucast_eq
  by (rule take_bit_nat_eq_self, rule order_less_le_trans [OF unsigned_less]) simp

lemma unat_of_nat_small: "n < 2 ^ LENGTH('a) \<Longrightarrow> unat (of_nat n :: 'a::len word) = n"
  by (simp add: unat_of_nat)

lemmas unat_less_word = unat_less_u8 unat_less_u16 unat_less_u32 unat_less_u64

lemma i64_chk_small: "\<bar>x\<bar> < 2 ^ 63 \<Longrightarrow> i64_chk x = Some x"
  by (auto simp: i64_chk_def)

lemma u64_chk_small: "0 \<le> x \<Longrightarrow> x < 2 ^ 64 \<Longrightarrow> u64_chk x = Some x"
  by (auto simp: u64_chk_def)

section \<open>Byte order\<close>

text \<open>
  \<open>be_bytes n w\<close> is the big-endian rendering of the low \<open>n\<close> bytes of \<open>w\<close>; at the width of
  the type it is Rust's \<open>to_be_bytes\<close>. \<open>from_be\<close> is \<open>from_be_bytes\<close>. The little-endian
  conversions are their reversals.
\<close>

primrec be_bytes :: "nat \<Rightarrow> 'a::len word \<Rightarrow> bytes" where
  "be_bytes 0 w = []"
| "be_bytes (Suc n) w = ucast (drop_bit (8 * n) w) # be_bytes n w"

primrec from_be :: "bytes \<Rightarrow> 'a::len word" where
  "from_be [] = 0"
| "from_be (b # bs) = push_bit (8 * length bs) (ucast b) OR from_be bs"

definition le_bytes :: "nat \<Rightarrow> 'a::len word \<Rightarrow> bytes" where
  "le_bytes n w = rev (be_bytes n w)"

definition from_le :: "bytes \<Rightarrow> 'a::len word" where
  "from_le bs = from_be (rev bs)"

lemma length_be_bytes [simp]: "length (be_bytes n w) = n"
  by (induction n) auto

lemma length_le_bytes [simp]: "length (le_bytes n w) = n"
  by (simp add: le_bytes_def)

lemma from_be_be_bytes: "from_be (be_bytes n w) = take_bit (8 * n) w"
proof (induction n)
  case 0
  then show ?case by simp
next
  case (Suc n)
  have "from_be (be_bytes (Suc n) w) =
      push_bit (8 * n) (ucast (ucast (drop_bit (8 * n) w) :: u8)) OR take_bit (8 * n) w"
    by (simp add: Suc)
  also have "\<dots> = take_bit (8 * Suc n) w"
    by (rule bit_eqI) (auto simp: bit_simps)
  finally show ?case .
qed

lemma from_be_be_bytes_full:
  "LENGTH('a) \<le> 8 * n \<Longrightarrow> from_be (be_bytes n (w :: 'a::len word)) = w"
  by (simp add: from_be_be_bytes take_bit_word_eq_self)

lemma from_le_le_bytes_full:
  "LENGTH('a) \<le> 8 * n \<Longrightarrow> from_le (le_bytes n (w :: 'a::len word)) = w"
  by (simp add: from_le_def le_bytes_def from_be_be_bytes_full)

lemma not_bit_from_be: "8 * length bs \<le> i \<Longrightarrow> \<not> bit (from_be bs :: 'a::len word) i"
proof (induction bs)
  case Nil
  then show ?case by simp
next
  case (Cons b bs)
  then have "\<not> bit (from_be bs :: 'a word) i" and "\<not> bit b (i - 8 * length bs)"
    by (auto dest: bit_imp_le_length)
  then show ?case by (auto simp: bit_simps)
qed

lemma from_be_less: "unat (from_be bs :: 'a::len word) < 2 ^ (8 * length bs)"
proof -
  have "take_bit (8 * length bs) (from_be bs :: 'a word) = from_be bs"
  proof (rule bit_word_eqI)
    fix n :: nat
    show "bit (take_bit (8 * length bs) (from_be bs :: 'a word)) n = bit (from_be bs :: 'a word) n"
      using not_bit_from_be [of bs n, where 'a = 'a] by (cases "n < 8 * length bs") (simp_all add: bit_take_bit_iff)
  qed
  then have "take_bit (8 * length bs) (unat (from_be bs :: 'a word)) = unat (from_be bs :: 'a word)"
    by (simp flip: unsigned_take_bit_eq)
  then show ?thesis by (simp only: take_bit_nat_eq_self_iff)
qed

lemma be_bytes_OR_high:
  "8 * n \<le> k \<Longrightarrow> be_bytes n (push_bit k v OR w) = be_bytes n (w :: 'a::len word)"
proof (induction n)
  case 0
  then show ?case by simp
next
  case (Suc n)
  have "(ucast (drop_bit (8 * n) (push_bit k v OR w)) :: u8) = ucast (drop_bit (8 * n) w)"
    using Suc.prems by (intro bit_eqI) (auto simp: bit_simps)
  with Suc show ?case by simp
qed

lemma be_bytes_from_be:
  "8 * length bs \<le> LENGTH('a) \<Longrightarrow> be_bytes (length bs) (from_be bs :: 'a::len word) = bs"
proof (induction bs)
  case Nil
  then show ?case by simp
next
  case (Cons b bs)
  let ?n = "8 * length bs"
  have "ucast (drop_bit ?n (push_bit ?n (ucast b) OR from_be bs :: 'a word)) = b"
    using Cons.prems by (intro bit_eqI) (auto simp: bit_simps not_bit_from_be)
  with Cons show ?case by (simp add: be_bytes_OR_high)
qed

text \<open>The instances at the widths of the program, as lists of single bytes.\<close>

lemma be_bytes_2 [wire]: "be_bytes 2 w = [ucast (drop_bit 8 w), ucast w]"
  by (simp add: numeral_eq_Suc)

lemma be_bytes_4 [wire]:
  "be_bytes 4 w = [ucast (drop_bit 24 w), ucast (drop_bit 16 w), ucast (drop_bit 8 w), ucast w]"
  by (simp add: numeral_eq_Suc)

lemma be_bytes_8 [wire]:
  "be_bytes 8 w = [ucast (drop_bit 56 w), ucast (drop_bit 48 w), ucast (drop_bit 40 w),
     ucast (drop_bit 32 w), ucast (drop_bit 24 w), ucast (drop_bit 16 w), ucast (drop_bit 8 w),
     ucast w]"
  by (simp add: numeral_eq_Suc)

lemma replicate_4 [wire]: "replicate 4 x = [x, x, x, x]"
  by (simp add: numeral_eq_Suc)

lemma from_be_u16 [wire]: "from_be [ucast (drop_bit 8 w), ucast w] = (w :: u16)"
  using from_be_be_bytes_full [of 2 w] by (simp add: be_bytes_2 del: from_be.simps)

lemma from_be_u32 [wire]:
  "from_be [ucast (drop_bit 24 w), ucast (drop_bit 16 w), ucast (drop_bit 8 w), ucast w] = (w :: u32)"
  using from_be_be_bytes_full [of 4 w] by (simp add: be_bytes_4 del: from_be.simps)

lemma from_be_u64 [wire]:
  "from_be [ucast (drop_bit 56 w), ucast (drop_bit 48 w), ucast (drop_bit 40 w),
     ucast (drop_bit 32 w), ucast (drop_bit 24 w), ucast (drop_bit 16 w), ucast (drop_bit 8 w),
     ucast w] = (w :: u64)"
  using from_be_be_bytes_full [of 8 w] by (simp add: be_bytes_8 del: from_be.simps)

lemma be_bytes_from_be_u16 [wire]: "be_bytes 2 (from_be [a, b] :: u16) = [a, b]"
  using be_bytes_from_be [where 'a = 16, of "[a, b]"] by (simp add: numeral_2_eq_2)

lemma be_bytes_from_be_u32 [wire]: "be_bytes 4 (from_be [a, b, c, d] :: u32) = [a, b, c, d]"
  using be_bytes_from_be [where 'a = 32, of "[a, b, c, d]"] by (simp add: numeral_eq_Suc)

lemma be_bytes_from_be_u64 [wire]:
  "be_bytes 8 (from_be [a, b, c, d, e, f, g, h] :: u64) = [a, b, c, d, e, f, g, h]"
  using be_bytes_from_be [where 'a = 64, of "[a, b, c, d, e, f, g, h]"]
  by (simp add: numeral_eq_Suc)

text \<open>Two bytes are equal when their eight bits are; a masked shift reads one bit.\<close>

lemma byte_eqI:
  fixes a b :: u8
  assumes "bit a 0 = bit b 0" "bit a 1 = bit b 1" "bit a 2 = bit b 2" "bit a 3 = bit b 3"
    "bit a 4 = bit b 4" "bit a 5 = bit b 5" "bit a 6 = bit b 6" "bit a 7 = bit b 7"
  shows "a = b"
proof (rule bit_word_eqI)
  fix n :: nat assume "n < LENGTH(8)"
  then consider "n = 0" | "n = 1" | "n = 2" | "n = 3" | "n = 4" | "n = 5" | "n = 6" | "n = 7"
    by fastforce
  then show "bit a n = bit b n" using assms by cases simp_all
qed

lemma shifted_bit: "drop_bit k (w :: 'a::len word) AND 1 \<noteq> 0 \<longleftrightarrow> bit w k"
  by (simp add: and_one_eq mod_2_eq_odd bit_iff_odd_drop_bit)

lemma low_nibble: "(c :: u8) < 16 \<Longrightarrow> c AND 0x0F = c"
  using less_mask_eq [of c 4] by (simp add: mask_numeral)

lemma low_nibble_less: "(c :: u8) AND 0x0F < 16"
  using and_mask_less' [where n = 4 and 'a = 8] by (simp add: mask_numeral)

section \<open>Reading a byte string\<close>

text \<open>A byte string of at least \<open>n\<close> bytes, split into its first bytes and the rest.\<close>

lemma bytes_split:
  assumes "n \<le> length b"
  obtains xs ys where "b = xs @ ys" and "length xs = n"
  using assms by (metis append_take_drop_id length_take min.absorb2)

lemma length_Suc_convD: "length xs = Suc n \<Longrightarrow> \<exists>y ys. xs = y # ys \<and> length ys = n"
  by (cases xs) auto

section \<open>The most recent elements of a list\<close>

definition last_n :: "nat \<Rightarrow> 'a list \<Rightarrow> 'a list" where
  "last_n n xs = drop (length xs - n) xs"

lemma last_n_short [simp]: "length xs \<le> n \<Longrightarrow> last_n n xs = xs"
  by (simp add: last_n_def)

lemma length_last_n [simp]: "length (last_n n xs) = min n (length xs)"
  by (simp add: last_n_def)

lemma last_n_append: "last_n n (last_n n xs @ ys) = last_n n (xs @ ys)"
  by (cases "n \<le> length xs") (simp_all add: last_n_def add.commute)

lemma set_last_n: "set (last_n n xs) \<subseteq> set xs"
  by (simp add: last_n_def set_drop_subset)

lemma last_n_snoc:
  "0 < n \<Longrightarrow> last_n n (xs @ [x]) = (if length xs < n then xs else tl (last_n n xs)) @ [x]"
  by (auto simp: last_n_def Suc_diff_le drop_Suc tl_drop)

section \<open>Chunks of a slice\<close>

text \<open>\<open>slice::chunks(n)\<close>, for a positive \<open>n\<close>.\<close>

function chunks :: "nat \<Rightarrow> 'a list \<Rightarrow> 'a list list" where
  "chunks n xs = (if n = 0 \<or> xs = [] then [] else take n xs # chunks n (drop n xs))"
  by pat_completeness auto
termination
  by (relation "measure (\<lambda>(n, xs). length xs)") auto

declare chunks.simps [simp del]

lemma concat_chunks: "0 < n \<Longrightarrow> concat (chunks n xs) = xs"
  by (induction n xs rule: chunks.induct) (subst chunks.simps, simp)

lemma chunks_bounds: "c \<in> set (chunks n xs) \<Longrightarrow> c \<noteq> [] \<and> length c \<le> n"
  by (induction n xs rule: chunks.induct) (subst (asm) (2) chunks.simps, auto split: if_splits)

text \<open>Two ways to cut a list at a front part.\<close>

lemma append_prefix_split: "a @ b = p @ q \<Longrightarrow> length a \<le> length p \<Longrightarrow> \<exists>c. p = a @ c \<and> b = c @ q"
  by (auto simp: append_eq_append_conv2)

lemma list_all_butlast_last: "list_all P xs \<Longrightarrow> xs \<noteq> [] \<Longrightarrow> list_all P (butlast xs) \<and> P (last xs)"
  by (auto simp: list_all_iff dest: in_set_butlastD)

end
