(* ===== verification/Interfaces.thy ===== *)
theory Interfaces
  imports Prelude "HOL-Library.Sublist"
begin

text \<open>
  The contracts that the components share, as locales. Each is interpreted on the
  definitions of every component that provides it, in that component's theory.
  \<^item> \<open>wire_codec\<close>: an encoder and a decoder that reads the encoding back and ignores the
    bytes after it; \<open>exact_codec\<close> adds that every accepted byte string is an encoding.
  \<^item> \<open>recent_window\<close>: a bounded buffer that keeps the most recent elements pushed.
  \<^item> \<open>byte_fifo\<close>: a bounded byte queue with partial writes and reads.
  \<^item> \<open>guarded_machine\<close>: a state machine with an invariant; \<open>staged_machine\<close>: a transition
    table in which every state requires a list of earlier stages, a \<open>guarded_machine\<close> on
    traces.
\<close>

section \<open>Wire formats\<close>

locale wire_codec =
  fixes enc :: "'a \<Rightarrow> bytes"
    and dec :: "bytes \<Rightarrow> ('e, 'a) result"
    and valid :: "'a \<Rightarrow> bool"
  assumes dec_enc: "valid x \<Longrightarrow> dec (enc x @ rest) = Inr x"
begin

lemma dec_enc_exact: "valid x \<Longrightarrow> dec (enc x) = Inr x"
  using dec_enc [of x "[]"] by simp

text \<open>No encoding is a prefix of another one: a stream of encodings splits in one way.\<close>

lemma enc_prefix_free:
  assumes "valid x" and "valid y" and "enc x @ r = enc y @ s"
  shows "x = y \<and> r = s"
proof -
  have "Inr x = (Inr y :: ('e, 'a) result)"
    using dec_enc [OF assms(1), of r] dec_enc [OF assms(2), of s] assms(3) by simp
  then have "x = y" by simp
  with assms(3) show ?thesis by simp
qed

end

locale exact_codec = wire_codec +
  assumes dec_valid: "dec b = Inr x \<Longrightarrow> valid x"
    and enc_dec: "dec b = Inr x \<Longrightarrow> \<exists>rest. b = enc x @ rest"
begin

lemma dec_iff: "dec b = Inr x \<longleftrightarrow> valid x \<and> (\<exists>rest. b = enc x @ rest)"
  using dec_enc dec_valid enc_dec by blast

end

section \<open>Bounded buffers of recent elements\<close>

locale recent_window =
  fixes push :: "'q \<Rightarrow> 'x \<Rightarrow> 'q"
    and held :: "'q \<Rightarrow> 'x list"
    and bound :: "'q \<Rightarrow> nat"
    and ok :: "'q \<Rightarrow> bool"
  assumes held_push: "ok q \<Longrightarrow> held (push q x) = last_n (bound q) (held q @ [x])"
    and bound_push: "bound (push q x) = bound q"
    and ok_push: "ok q \<Longrightarrow> ok (push q x)"
    and ok_bound: "ok q \<Longrightarrow> length (held q) \<le> bound q"
begin

lemma run_ok: "ok q \<Longrightarrow> ok (foldl push q xs) \<and> bound (foldl push q xs) = bound q"
  by (induction xs arbitrary: q) (auto simp: ok_push bound_push)

text \<open>After any number of pushes the buffer holds exactly the most recent elements.\<close>

lemma run_held: "ok q \<Longrightarrow> held (foldl push q xs) = last_n (bound q) (held q @ xs)"
proof (induction xs rule: rev_induct)
  case Nil
  then show ?case using ok_bound [of q] by simp
next
  case (snoc x xs)
  have "held (foldl push q (xs @ [x])) = last_n (bound q) (held (foldl push q xs) @ [x])"
    using run_ok [OF snoc.prems] by (simp add: held_push)
  with snoc show ?case by (simp add: last_n_append)
qed

lemma run_length: "ok q \<Longrightarrow> length (held (foldl push q xs)) \<le> bound q"
  by (simp add: run_held)

lemma run_recent:
  assumes "ok q" and "x \<in> set (last_n (bound q) xs)"
  shows "x \<in> set (held (foldl push q xs))"
proof -
  have "last_n (bound q) (held q @ xs) =
      drop (length (held q) - (bound q - length xs)) (held q) @ last_n (bound q) xs"
    by (cases "length xs \<le> bound q") (simp_all add: last_n_def)
  with assms show ?thesis by (simp add: run_held)
qed

end

section \<open>Bounded byte queues\<close>

text \<open>
  A client that writes (\<open>Inl\<close>) and reads (\<open>Inr\<close>) in any order: the queue after a script of
  operations, the bytes the writes accepted and the bytes the reads returned.
\<close>

primrec fifo_script ::
    "('q \<Rightarrow> bytes \<Rightarrow> 'q \<times> nat) \<Rightarrow> ('q \<Rightarrow> nat \<Rightarrow> 'q \<times> bytes) \<Rightarrow> 'q \<Rightarrow> (bytes + nat) list \<Rightarrow>
     'q \<times> bytes \<times> bytes" where
  "fifo_script put get q [] = (q, [], [])"
| "fifo_script put get q (c # cs) =
     (case c of
        Inl d \<Rightarrow> (let (q1, n) = put q d; (q2, i, r) = fifo_script put get q1 cs
                   in (q2, take n d @ i, r))
      | Inr n \<Rightarrow> (let (q1, out) = get q n; (q2, i, r) = fifo_script put get q1 cs
                   in (q2, i, out @ r)))"

locale byte_fifo =
  fixes put :: "'q \<Rightarrow> bytes \<Rightarrow> 'q \<times> nat"
    and get :: "'q \<Rightarrow> nat \<Rightarrow> 'q \<times> bytes"
    and cont :: "'q \<Rightarrow> bytes"
    and room :: "'q \<Rightarrow> nat"
    and size :: "'q \<Rightarrow> nat"
    and ok :: "'q \<Rightarrow> bool"
  assumes put_ok: "ok q \<Longrightarrow> ok (fst (put q d))"
    and put_cont: "ok q \<Longrightarrow> cont (fst (put q d)) = cont q @ take (room q) d"
    and put_count: "ok q \<Longrightarrow> snd (put q d) = min (length d) (room q)"
    and get_ok: "ok q \<Longrightarrow> ok (fst (get q n))"
    and get_cont: "ok q \<Longrightarrow> cont (fst (get q n)) = drop n (cont q)"
    and get_out: "ok q \<Longrightarrow> snd (get q n) = take n (cont q)"
    and room_cont: "ok q \<Longrightarrow> length (cont q) + room q = size q"
    and put_size: "ok q \<Longrightarrow> size (fst (put q d)) = size q"
    and get_size: "ok q \<Longrightarrow> size (fst (get q n)) = size q"
begin

text \<open>
  Nothing is lost, duplicated or reordered: what was in the queue and was accepted is what
  was read followed by what is still in the queue.
\<close>

lemma script_stream:
  "ok q \<Longrightarrow> fifo_script put get q cs = (q', i, r) \<Longrightarrow>
   ok q' \<and> size q' = size q \<and> cont q @ i = r @ cont q'"
proof (induction cs arbitrary: q q' i r)
  case Nil
  then show ?case by simp
next
  case (Cons c cs)
  show ?case
  proof (cases c)
    case (Inl d)
    obtain q1 n where put: "put q d = (q1, n)" by force
    obtain q2 i2 r2 where rec: "fifo_script put get q1 cs = (q2, i2, r2)" by (cases "fifo_script put get q1 cs") auto
    have q1: "q1 = fst (put q d)" and n: "n = min (length d) (room q)"
      using put put_count [OF Cons.prems(1), of d] by simp_all
    have res: "q' = q2" "i = take n d @ i2" "r = r2"
      using Cons.prems(2) Inl put rec by auto
    have ok1: "ok q1" using put_ok [OF Cons.prems(1)] q1 by simp
    have "take (room q) d = take n d" using n by (simp add: min_def)
    then have "cont q1 = cont q @ take n d"
      using put_cont [OF Cons.prems(1), of d] q1 by simp
    with Cons.IH [OF ok1 rec] res q1 put_size [OF Cons.prems(1), of d] show ?thesis by simp
  next
    case (Inr n)
    obtain q1 out where get: "get q n = (q1, out)" by force
    obtain q2 i2 r2 where rec: "fifo_script put get q1 cs = (q2, i2, r2)" by (cases "fifo_script put get q1 cs") auto
    have q1: "q1 = fst (get q n)" and out: "out = take n (cont q)"
      using get get_out [OF Cons.prems(1), of n] by simp_all
    have res: "q' = q2" "i = i2" "r = out @ r2"
      using Cons.prems(2) Inr get rec by auto
    have ok1: "ok q1" using get_ok [OF Cons.prems(1)] q1 by simp
    have "out @ cont q1 = cont q"
      using get_cont [OF Cons.prems(1), of n] q1 out by simp
    with Cons.IH [OF ok1 rec] res q1 get_size [OF Cons.prems(1), of n] show ?thesis
      by (metis append.assoc)
  qed
qed

end

section \<open>Receivers of a framed stream\<close>

text \<open>
  A receiver that is fed the chunks of a byte stream. After each chunk it decodes as long as
  there is a whole message: \<open>drain\<close> is this loop, with a bound on its rounds.
\<close>

fun drain :: "('s \<Rightarrow> 's \<times> ('e, 'y option) result) \<Rightarrow> nat \<Rightarrow> 's \<Rightarrow> 's \<times> ('e, 'y list) result" where
  "drain dec 0 s = (s, Inr [])"
| "drain dec (Suc n) s =
     (case dec s of
        (s', Inl e) \<Rightarrow> (s', Inl e)
      | (s', Inr None) \<Rightarrow> (s', Inr [])
      | (s', Inr (Some y)) \<Rightarrow> (case drain dec n s' of (s'', r) \<Rightarrow> (s'', map_sum (\<lambda>e. e) ((#) y) r)))"

locale framed_receiver =
  fixes dec :: "'s \<Rightarrow> 's \<times> ('e, 'y option) result"
    and frame :: "'x \<Rightarrow> bytes"
    and seen :: "'x \<Rightarrow> 'y"
    and valid :: "'x \<Rightarrow> bool"
    and holds :: "'s \<Rightarrow> bytes \<Rightarrow> bool"
    and size :: "'s \<Rightarrow> nat"
  assumes dec_none: "holds s [] \<Longrightarrow> \<exists>s'. dec s = (s', Inr None) \<and> holds s' []"
    and dec_whole: "valid x \<Longrightarrow> holds s (frame x @ rest) \<Longrightarrow> 
      \<exists>s'. dec s = (s', Inr (Some (seen x))) \<and> holds s' rest \<and> size s' < size s"
    and dec_part: "valid x \<Longrightarrow> holds s p \<Longrightarrow> frame x = p @ q \<Longrightarrow> q \<noteq> [] \<Longrightarrow>
      \<exists>s'. dec s = (s', Inr None) \<and> holds s' p"
begin

text \<open>
  What a receiver holds is the front of the messages still to come: it returns those that
  are complete and keeps the rest, which is shorter than the next message.
\<close>

lemma drain_prefix:
  "list_all valid xs \<Longrightarrow> holds s p \<Longrightarrow> p @ q = concat (map frame xs) \<Longrightarrow> size s < n \<Longrightarrow>
   \<exists>s' p' k. drain dec n s = (s', Inr (map seen (take k xs))) \<and> holds s' p'
     \<and> p' @ q = concat (map frame (drop k xs)) \<and> (drop k xs \<noteq> [] \<longrightarrow> length p' < length (frame (hd (drop k xs))))
     \<and> (q = [] \<longrightarrow> drop k xs = [])"
proof (induction n arbitrary: xs s p)
  case (Suc n)
  show ?case
  proof (cases xs)
    case Nil
    then have "p = []" using Suc.prems(3) by simp
    with dec_none [of s] Suc.prems(2) obtain s' where "dec s = (s', Inr None)" "holds s' []" by blast
    with Nil Suc.prems(3) show ?thesis by (intro exI [of _ s'] exI [of _ "[]"] exI [of _ 0]) simp
  next
    case (Cons x ys)
    then have x: "valid x" and ys: "list_all valid ys" and eq: "p @ q = frame x @ concat (map frame ys)"
      using Suc.prems by simp_all
    consider (whole) p1 where "p = frame x @ p1" "p1 @ q = concat (map frame ys)"
      | (part) r where "frame x = p @ r" "r \<noteq> []"
      using eq by (auto simp: append_eq_append_conv2) (metis append.right_neutral)
    then show ?thesis
    proof cases
      case whole
      then obtain s1 where s1: "dec s = (s1, Inr (Some (seen x)))" "holds s1 p1" "size s1 < size s"
        using dec_whole [OF x, of s p1] Suc.prems(2) by auto
      then have "size s1 < n" using Suc.prems(4) by simp
      then obtain s' p' k where "drain dec n s1 = (s', Inr (map seen (take k ys)))" "holds s' p'"
          "p' @ q = concat (map frame (drop k ys))" "drop k ys \<noteq> [] \<longrightarrow> length p' < length (frame (hd (drop k ys)))"
          "q = [] \<longrightarrow> drop k ys = []"
        using Suc.IH [OF ys s1(2) whole(2)] by blast
      then show ?thesis
        using s1(1) Cons by (intro exI [of _ s'] exI [of _ p'] exI [of _ "Suc k"]) simp
    next
      case part
      then obtain s' where "dec s = (s', Inr None)" "holds s' p" using dec_part [OF x Suc.prems(2)] by blast
      moreover have "q \<noteq> []" using eq part by auto
      ultimately show ?thesis
        using part Cons Suc.prems(3) by (intro exI [of _ s'] exI [of _ p] exI [of _ 0]) (simp flip: length_greater_0_conv)
    qed
  qed
qed simp

end

text \<open>
  The receiver with its feeding operation, which may refuse a chunk that makes it hold more
  than \<open>limit\<close> bytes.
\<close>

fun receive_chunks ::
    "('s \<Rightarrow> 's \<times> ('e, 'y option) result) \<Rightarrow> ('s \<Rightarrow> bytes \<Rightarrow> ('e, 's) result) \<Rightarrow> ('s \<Rightarrow> nat) \<Rightarrow>
     's \<Rightarrow> bytes list \<Rightarrow> 's \<times> ('e, 'y list) result" where
  "receive_chunks dec feed rounds s [] = (s, Inr [])"
| "receive_chunks dec feed rounds s (c # cs) =
     (case feed s c of
        Inl e \<Rightarrow> (s, Inl e)
      | Inr s1 \<Rightarrow>
          (case drain dec (rounds s1) s1 of
             (s2, Inl e) \<Rightarrow> (s2, Inl e)
           | (s2, Inr ys) \<Rightarrow>
               (case receive_chunks dec feed rounds s2 cs of (s3, r) \<Rightarrow> (s3, map_sum (\<lambda>e. e) ((@) ys) r))))"

locale chunk_receiver = framed_receiver dec frame seen valid holds size
  for dec :: "'s \<Rightarrow> 's \<times> ('e, 'y option) result" and frame :: "'x \<Rightarrow> bytes" and seen :: "'x \<Rightarrow> 'y"
    and valid :: "'x \<Rightarrow> bool" and holds :: "'s \<Rightarrow> bytes \<Rightarrow> bool" and size :: "'s \<Rightarrow> nat" +
  fixes feed :: "'s \<Rightarrow> bytes \<Rightarrow> ('e, 's) result"
    and limit :: "nat \<Rightarrow> bool"
  assumes feed_holds: "holds s p \<Longrightarrow> limit (length p + length c) \<Longrightarrow> \<exists>s'. feed s c = Inr s' \<and> holds s' (p @ c)"
    and limit_0: "limit 0"
    and limit_mono: "limit m \<Longrightarrow> n \<le> m \<Longrightarrow> limit n"
begin

text \<open>
  However the messages are cut into chunks, exactly they are received, in order, as long as a
  message and a chunk fit into the receiver together.
\<close>

lemma receive_all:
  assumes "list_all valid xs" and "holds s p" and "p @ concat cs = concat (map frame xs)" and "p = [] \<or> cs \<noteq> []"
    and "xs \<noteq> [] \<longrightarrow> length p < length (frame (hd xs))"
    and "\<forall>x\<in>set xs. \<forall>c\<in>set cs. limit (length (frame x) + length c)"
    and "\<forall>s. size s < rounds s"
  shows "\<exists>s'. receive_chunks dec feed rounds s cs = (s', Inr (map seen xs)) \<and> holds s' []"
  using assms(1-6)
proof (induction cs arbitrary: xs s p)
  case Nil
  then have "p = []" and "xs = []" by auto
  with Nil show ?case by simp
next
  case (Cons c cs)
  have "limit (length p + length c)"
  proof (cases xs)
    case Nil
    then show ?thesis using Cons.prems(3) limit_0 by simp
  next
    case (Cons x ys)
    then have "limit (length (frame x) + length c)" and "length p \<le> length (frame x)"
      using Cons.prems(5,6) by simp_all
    then show ?thesis using limit_mono [of "length (frame x) + length c" "length p + length c"] by simp
  qed
  then obtain s1 where s1: "feed s c = Inr s1" "holds s1 (p @ c)" using feed_holds Cons.prems(2) by blast
  obtain s2 p' k where d: "drain dec (rounds s1) s1 = (s2, Inr (map seen (take k xs)))" "holds s2 p'"
      "p' @ concat cs = concat (map frame (drop k xs))"
      "drop k xs \<noteq> [] \<longrightarrow> length p' < length (frame (hd (drop k xs)))" "concat cs = [] \<longrightarrow> drop k xs = []"
    using drain_prefix [OF Cons.prems(1) s1(2), of "concat cs" "rounds s1"] Cons.prems(3) assms(7) by auto
  have "p' = [] \<or> cs \<noteq> []" using d(3,5) by auto
  moreover have "list_all valid (drop k xs)" using Cons.prems(1) by (auto simp: list_all_iff dest: in_set_dropD)
  moreover have "\<forall>x\<in>set (drop k xs). \<forall>c\<in>set cs. limit (length (frame x) + length c)"
    using Cons.prems(6) by (auto dest: in_set_dropD)
  ultimately obtain s3 where "receive_chunks dec feed rounds s2 cs = (s3, Inr (map seen (drop k xs)))" "holds s3 []"
    using Cons.IH [of "drop k xs" s2 p'] d(2,3,4) by blast
  with s1 d(1) show ?case by (simp flip: map_append)
qed

end

section \<open>State machines\<close>

locale guarded_machine =
  fixes step :: "'s \<Rightarrow> 's \<Rightarrow> bool"
    and start :: "'s \<Rightarrow> bool"
    and safe :: "'s \<Rightarrow> bool"
  assumes start_safe: "start s \<Longrightarrow> safe s"
    and step_safe: "step s t \<Longrightarrow> safe s \<Longrightarrow> safe t"
begin

lemma steps_safe: "step\<^sup>*\<^sup>* s t \<Longrightarrow> safe s \<Longrightarrow> safe t"
  by (induction rule: rtranclp_induct) (auto intro: step_safe)

lemma reachable_safe: "start s \<Longrightarrow> step\<^sup>*\<^sup>* s t \<Longrightarrow> safe t"
  by (blast intro: start_safe steps_safe)

end

text \<open>
  A run of a transition table with the trace of the states it entered; the stages that each
  state requires occur in the trace in their order.
\<close>

inductive trace_step :: "('s \<Rightarrow> 's \<Rightarrow> bool) \<Rightarrow> 's list \<times> 's \<Rightarrow> 's list \<times> 's \<Rightarrow> bool" for can where
  "can s t \<Longrightarrow> trace_step can (trace, s) (trace @ [t], t)"

inductive_cases trace_stepE: "trace_step can x y"

lemma subseq_snoc: "subseq xs ys \<Longrightarrow> subseq (xs @ [x]) (ys @ [x])"
  by (simp add: list_emb_append_mono)

lemma subseq_extend: "subseq xs ys \<Longrightarrow> subseq xs (ys @ zs)"
  by (rule list_emb_prefix)

text \<open>The run along a list of states.\<close>

primrec follows :: "('s \<Rightarrow> 's \<Rightarrow> bool) \<Rightarrow> 's \<Rightarrow> 's list \<Rightarrow> bool" where
  "follows can s [] = True"
| "follows can s (n # ns) = (can s n \<and> follows can n ns)"

lemma follows_steps: "follows can s ns \<Longrightarrow> (trace_step can)\<^sup>*\<^sup>* (trace, s) (trace @ ns, last (s # ns))"
proof (induction ns arbitrary: s trace)
  case (Cons n ns)
  then have "trace_step can (trace, s) (trace @ [n], n)" by (auto intro: trace_step.intros)
  moreover have "(trace_step can)\<^sup>*\<^sup>* (trace @ [n], n) (trace @ n # ns, last (n # ns))"
    using Cons.IH [of n "trace @ [n]"] Cons.prems by simp
  ultimately show ?case by (auto intro: converse_rtranclp_into_rtranclp)
qed simp

locale staged_machine =
  fixes can :: "'s \<Rightarrow> 's \<Rightarrow> bool"
    and init :: 's
    and required :: "'s \<Rightarrow> 's list"
  assumes required_init: "required init = []"
    and required_step:
      "can s t \<Longrightarrow> prefix (required t) (required s) \<or> required t = required s @ [t]"

sublocale staged_machine \<subseteq> guarded_machine "trace_step can" "\<lambda>st. st = ([], init)"
  "\<lambda>(trace, s). subseq (required s) trace"
proof unfold_locales
  fix x y :: "'s list \<times> 's"
  assume "trace_step can x y" and safe: "case x of (trace, s) \<Rightarrow> subseq (required s) trace"
  then obtain trace s t where xy: "x = (trace, s)" "y = (trace @ [t], t)" "can s t"
    by (auto elim: trace_stepE)
  with safe have sub: "subseq (required s) trace" by simp
  from required_step [OF xy(3)] have "subseq (required t) (trace @ [t])"
  proof
    assume "prefix (required t) (required s)"
    with sub have "subseq (required t) trace" using prefix_imp_subseq subseq_order.trans by blast
    then show ?thesis by (rule subseq_extend)
  qed (use sub in \<open>simp add: subseq_snoc\<close>)
  with xy show "case y of (trace, s) \<Rightarrow> subseq (required s) trace" by simp
qed (auto simp: required_init)

context staged_machine
begin

lemma reachable_required: "(trace_step can)\<^sup>*\<^sup>* ([], init) (trace, s) \<Longrightarrow> subseq (required s) trace"
  using reachable_safe [of "([], init)" "(trace, s)"] by simp

end

end
