(* ===== verification/Rtp_Packet.thy ===== *)
theory Rtp_Packet
  imports Interfaces
begin

text \<open>
  RTP packets, \<open>src/protocol/rtp/packet.rs\<close>: payload types, the twelve-byte header with its
  bit fields, and packets. The header codec is an \<open>exact_codec\<close>: decoding reads back every
  encoding of a well-formed header, and accepts nothing else.
\<close>

section \<open>Data\<close>

datatype payload_type =
    TimingRequestPt
  | TimingResponsePt
  | AudioRealtime
  | AudioBuffered
  | AudioPcm
  | RetransmitRequestPt
  | RetransmitResponsePt

text \<open>The discriminants of the \<open>repr(u8)\<close> enum, as \<open>payload_type as u8\<close> reads them.\<close>

fun payload_type_byte :: "payload_type \<Rightarrow> u8" where
  "payload_type_byte TimingRequestPt = 0x52"
| "payload_type_byte TimingResponsePt = 0x53"
| "payload_type_byte AudioRealtime = 0x60"
| "payload_type_byte AudioBuffered = 0x61"
| "payload_type_byte AudioPcm = 0x64"
| "payload_type_byte RetransmitRequestPt = 0x55"
| "payload_type_byte RetransmitResponsePt = 0x56"

definition payload_type_from_byte :: "u8 \<Rightarrow> payload_type option" where
  "payload_type_from_byte b =
     (let k = b AND 0x7F in
      if k = 0x52 then Some TimingRequestPt
      else if k = 0x53 then Some TimingResponsePt
      else if k = 0x60 then Some AudioRealtime
      else if k = 0x61 then Some AudioBuffered
      else if k = 0x64 then Some AudioPcm
      else if k = 0x55 then Some RetransmitRequestPt
      else if k = 0x56 then Some RetransmitResponsePt
      else None)"

record rtp_header =
  rh_version :: u8
  rh_padding :: bool
  rh_extension :: bool
  rh_csrc_count :: u8
  rh_marker :: bool
  rh_payload_type :: payload_type
  rh_sequence :: u16
  rh_timestamp :: u32
  rh_ssrc :: u32

datatype rtp_decode_error =
    BufferTooSmall nat nat
  | InvalidVersion u8
  | UnknownPayloadType u8
  | DecryptionFailed string

record rtp_packet =
  rp_header :: rtp_header
  rp_payload :: bytes

section \<open>Operations\<close>

definition RTP_HEADER_SIZE :: nat where
  "RTP_HEADER_SIZE = 12"

definition rtp_header_new_audio :: "u16 \<Rightarrow> u32 \<Rightarrow> u32 \<Rightarrow> bool \<Rightarrow> rtp_header" where
  "rtp_header_new_audio sequence timestamp ssrc buffered =
     \<lparr>rh_version = 2, rh_padding = False, rh_extension = False, rh_csrc_count = 0,
      rh_marker = True,
      rh_payload_type = (if buffered then AudioBuffered else AudioRealtime),
      rh_sequence = sequence, rh_timestamp = timestamp, rh_ssrc = ssrc\<rparr>"

definition rtp_header_encode :: "rtp_header \<Rightarrow> bytes" where
  "rtp_header_encode h =
     [push_bit 6 (rh_version h) OR push_bit 5 (of_bool (rh_padding h))
        OR push_bit 4 (of_bool (rh_extension h)) OR (rh_csrc_count h AND 0x0F),
      push_bit 7 (of_bool (rh_marker h)) OR (payload_type_byte (rh_payload_type h) AND 0x7F)]
     @ be_bytes 2 (rh_sequence h) @ be_bytes 4 (rh_timestamp h) @ be_bytes 4 (rh_ssrc h)"

definition rtp_header_decode :: "bytes \<Rightarrow> (rtp_decode_error, rtp_header) result" where
  "rtp_header_decode b =
     (if length b < RTP_HEADER_SIZE then Inl (BufferTooSmall RTP_HEADER_SIZE (length b))
      else let version = drop_bit 6 (b ! 0) AND 0x03 in
      if version \<noteq> 2 then Inl (InvalidVersion version)
      else let payload_type_byte = b ! 1 AND 0x7F in
      result_bind (ok_or (payload_type_from_byte payload_type_byte)
                    (UnknownPayloadType payload_type_byte)) (\<lambda>payload_type.
      Inr \<lparr>rh_version = version,
           rh_padding = (drop_bit 5 (b ! 0) AND 0x01 \<noteq> 0),
           rh_extension = (drop_bit 4 (b ! 0) AND 0x01 \<noteq> 0),
           rh_csrc_count = b ! 0 AND 0x0F,
           rh_marker = (drop_bit 7 (b ! 1) AND 0x01 \<noteq> 0),
           rh_payload_type = payload_type,
           rh_sequence = from_be [b ! 2, b ! 3],
           rh_timestamp = from_be [b ! 4, b ! 5, b ! 6, b ! 7],
           rh_ssrc = from_be [b ! 8, b ! 9, b ! 10, b ! 11]\<rparr>))"

definition rtp_packet_audio :: "u16 \<Rightarrow> u32 \<Rightarrow> u32 \<Rightarrow> bytes \<Rightarrow> bool \<Rightarrow> rtp_packet" where
  "rtp_packet_audio sequence timestamp ssrc audio_data buffered =
     \<lparr>rp_header = rtp_header_new_audio sequence timestamp ssrc buffered,
      rp_payload = audio_data\<rparr>"

definition rtp_packet_encode :: "rtp_packet \<Rightarrow> bytes" where
  "rtp_packet_encode p = rtp_header_encode (rp_header p) @ rp_payload p"

definition rtp_packet_decode :: "bytes \<Rightarrow> (rtp_decode_error, rtp_packet) result" where
  "rtp_packet_decode b =
     result_bind (rtp_header_decode b)
       (\<lambda>h. Inr \<lparr>rp_header = h, rp_payload = drop RTP_HEADER_SIZE b\<rparr>)"

text \<open>\<open>payload.chunks_exact(4)\<close> with two little-endian samples each; a short tail is dropped.\<close>

fun sample_pairs :: "bytes \<Rightarrow> (u16 \<times> u16) list" where
  "sample_pairs (a # b # c # d # rest) = (from_le [a, b], from_le [c, d]) # sample_pairs rest"
| "sample_pairs _ = []"

definition rtp_packet_audio_samples :: "rtp_packet \<Rightarrow> (u16 \<times> u16) list" where
  "rtp_packet_audio_samples p = sample_pairs (rp_payload p)"

section \<open>Correctness\<close>

text \<open>A header the wire format can carry: version 2 and a four-bit CSRC count.\<close>

definition rtp_header_valid :: "rtp_header \<Rightarrow> bool" where
  "rtp_header_valid h \<longleftrightarrow> rh_version h = 2 \<and> rh_csrc_count h < 16"

lemma payload_type_from_to [simp]: "payload_type_from_byte (payload_type_byte t AND 0x7F) = Some t"
  by (cases t) (simp_all add: payload_type_from_byte_def)

lemma payload_type_to_from:
  "payload_type_from_byte b = Some t \<Longrightarrow> payload_type_byte t = b AND 0x7F"
  by (auto simp: payload_type_from_byte_def Let_def split: if_splits)

lemma first_byte_fields:
  fixes cc :: u8 and p x :: bool
  defines "v \<equiv> push_bit 6 (2 :: u8) OR push_bit 5 (of_bool p) OR push_bit 4 (of_bool x) OR (cc AND 0x0F)"
  shows "drop_bit 6 v AND 0x03 = 2" "(drop_bit 5 v AND 0x01 \<noteq> 0) = p"
    "(drop_bit 4 v AND 0x01 \<noteq> 0) = x" "v AND 0x0F = cc AND 0x0F"
  unfolding v_def by (cases p; cases x; simp add: bit.conj_disj_distrib2 and.assoc)+

lemma second_byte_fields:
  fixes t :: payload_type and m :: bool
  defines "v \<equiv> push_bit 7 (of_bool m :: u8) OR (payload_type_byte t AND 0x7F)"
  shows "v AND 0x7F = payload_type_byte t AND 0x7F" "(drop_bit 7 v AND 0x01 \<noteq> 0) = m"
  unfolding v_def by (cases m; cases t; simp)+

lemma first_byte_rebuild:
  fixes b :: u8
  assumes "drop_bit 6 b AND 0x03 = 2"
  shows "push_bit 6 2 OR push_bit 5 (of_bool (drop_bit 5 b AND 0x01 \<noteq> 0))
      OR push_bit 4 (of_bool (drop_bit 4 b AND 0x01 \<noteq> 0)) OR (b AND 0x0F) = b"
proof -
  have "bit (drop_bit 6 b AND 0x03 :: u8) 0 = bit (2 :: u8) 0"
    and "bit (drop_bit 6 b AND 0x03 :: u8) 1 = bit (2 :: u8) 1"
    using assms by simp_all
  then have "bit b 7" "\<not> bit b 6" by (simp_all add: bit_simps)
  then show ?thesis unfolding shifted_bit by (intro byte_eqI) (simp_all add: bit_simps)
qed

lemma second_byte_rebuild:
  fixes b :: u8
  shows "push_bit 7 (of_bool (drop_bit 7 b AND 0x01 \<noteq> 0)) OR (b AND 0x7F) = b"
  unfolding shifted_bit by (intro byte_eqI) (simp_all add: bit_simps)

lemma length_rtp_header_encode [simp]: "length (rtp_header_encode h) = RTP_HEADER_SIZE"
  by (simp add: rtp_header_encode_def RTP_HEADER_SIZE_def)

lemma rtp_header_encode_bytes:
  assumes "rtp_header_valid h"
  obtains v0 v1 where
    "rtp_header_encode h =
       [v0, v1] @ be_bytes 2 (rh_sequence h) @ be_bytes 4 (rh_timestamp h) @ be_bytes 4 (rh_ssrc h)"
    "drop_bit 6 v0 AND 0x03 = rh_version h" "rh_version h = 2"
    "(drop_bit 5 v0 AND 0x01 \<noteq> 0) = rh_padding h" "(drop_bit 4 v0 AND 0x01 \<noteq> 0) = rh_extension h"
    "v0 AND 0x0F = rh_csrc_count h" "(drop_bit 7 v1 AND 0x01 \<noteq> 0) = rh_marker h"
    "payload_type_from_byte (v1 AND 0x7F) = Some (rh_payload_type h)"
  using assms first_byte_fields [of "rh_padding h" "rh_extension h" "rh_csrc_count h"]
    second_byte_fields [of "rh_marker h" "rh_payload_type h"] low_nibble [of "rh_csrc_count h"]
  by (auto simp: rtp_header_encode_def rtp_header_valid_def simp del: drop_bit_or drop_bit_and)

lemma rtp_header_decode_encode:
  assumes "rtp_header_valid h"
  shows "rtp_header_decode (rtp_header_encode h @ rest) = Inr h"
  using assms
  by (elim rtp_header_encode_bytes)
    (simp add: rtp_header_decode_def RTP_HEADER_SIZE_def wire del: from_be.simps)

text \<open>The fields that the decoder reads from an accepted byte string.\<close>

lemma rtp_header_decode_fields:
  assumes "rtp_header_decode b = Inr h"
  obtains b0 b1 b2 b3 b4 b5 b6 b7 b8 b9 b10 b11 rest t where
    "b = b0 # b1 # b2 # b3 # b4 # b5 # b6 # b7 # b8 # b9 # b10 # b11 # rest"
    "drop_bit 6 b0 AND 0x03 = 2" "payload_type_byte t = b1 AND 0x7F AND 0x7F"
    "h = \<lparr>rh_version = 2, rh_padding = (drop_bit 5 b0 AND 0x01 \<noteq> 0),
       rh_extension = (drop_bit 4 b0 AND 0x01 \<noteq> 0), rh_csrc_count = b0 AND 0x0F,
       rh_marker = (drop_bit 7 b1 AND 0x01 \<noteq> 0), rh_payload_type = t,
       rh_sequence = from_be [b2, b3], rh_timestamp = from_be [b4, b5, b6, b7],
       rh_ssrc = from_be [b8, b9, b10, b11]\<rparr>"
proof -
  have "12 \<le> length b" using assms
    by (auto simp: rtp_header_decode_def RTP_HEADER_SIZE_def split: if_splits)
  then obtain b0 b1 b2 b3 b4 b5 b6 b7 b8 b9 b10 b11 rest where
    b: "b = b0 # b1 # b2 # b3 # b4 # b5 # b6 # b7 # b8 # b9 # b10 # b11 # rest"
    by (auto simp: numeral_eq_Suc Suc_le_length_iff)
  have "drop_bit 6 b0 AND 0x03 = 2" using assms
    by (simp add: b rtp_header_decode_def RTP_HEADER_SIZE_def Let_def split: if_splits)
  moreover obtain t where t: "payload_type_from_byte (b1 AND 0x7F) = Some t"
    using assms calculation
    by (auto simp add: b rtp_header_decode_def RTP_HEADER_SIZE_def Let_def)
  ultimately show ?thesis
    using assms payload_type_to_from [OF t]
    by (intro that [of b0 b1 b2 b3 b4 b5 b6 b7 b8 b9 b10 b11 rest t])
      (simp_all add: b rtp_header_decode_def RTP_HEADER_SIZE_def Let_def del: from_be.simps)
qed

lemma rtp_header_encode_decode:
  assumes "rtp_header_decode b = Inr h"
  shows "rtp_header_valid h \<and> b = rtp_header_encode h @ drop RTP_HEADER_SIZE b"
  using assms
proof (rule rtp_header_decode_fields)
  fix b0 b1 b2 b3 b4 b5 b6 b7 b8 b9 b10 b11 :: u8 and rest :: bytes and t
  assume b: "b = b0 # b1 # b2 # b3 # b4 # b5 # b6 # b7 # b8 # b9 # b10 # b11 # rest"
    and v: "drop_bit 6 b0 AND 0x03 = 2" and t: "payload_type_byte t = b1 AND 0x7F AND 0x7F"
    and h: "h = \<lparr>rh_version = 2, rh_padding = (drop_bit 5 b0 AND 0x01 \<noteq> 0),
       rh_extension = (drop_bit 4 b0 AND 0x01 \<noteq> 0), rh_csrc_count = b0 AND 0x0F,
       rh_marker = (drop_bit 7 b1 AND 0x01 \<noteq> 0), rh_payload_type = t,
       rh_sequence = from_be [b2, b3], rh_timestamp = from_be [b4, b5, b6, b7],
       rh_ssrc = from_be [b8, b9, b10, b11]\<rparr>"
  have "rtp_header_encode h = [b0, b1] @ [b2, b3] @ [b4, b5, b6, b7] @ [b8, b9, b10, b11]"
    unfolding rtp_header_encode_def h rtp_header.select_convs t
    by (simp only: first_byte_rebuild [OF v] second_byte_rebuild and.assoc and.idem
        be_bytes_from_be_u16 be_bytes_from_be_u32)
  then show ?thesis
    by (simp add: h b rtp_header_valid_def RTP_HEADER_SIZE_def low_nibble_less)
qed

interpretation rtp_hdr: exact_codec rtp_header_encode rtp_header_decode rtp_header_valid
proof unfold_locales
  fix b h assume "rtp_header_decode b = Inr h"
  from rtp_header_encode_decode [OF this]
  show "rtp_header_valid h" and "\<exists>rest. b = rtp_header_encode h @ rest" by auto
qed (rule rtp_header_decode_encode)

text \<open>The sample iterator reads the whole payload but for a tail of fewer than four bytes.\<close>

lemma le_bytes_from_le_u16: "le_bytes 2 (from_le [a, b] :: u16) = [a, b]"
  unfolding le_bytes_def from_le_def
  by (simp add: be_bytes_from_be_u16 del: from_be.simps)

lemma sample_pairs_bytes:
  "concat (map (\<lambda>(l, r). le_bytes 2 l @ le_bytes 2 r) (sample_pairs b)) = take (4 * (length b div 4)) b"
proof (induction b rule: sample_pairs.induct)
  case (1 a b c d rest)
  have "4 * (length (a # b # c # d # rest) div 4) = Suc (Suc (Suc (Suc (4 * (length rest div 4)))))"
    unfolding list.size(4) by presburger
  with "1" show ?case by (simp only: sample_pairs.simps list.map concat.simps prod.case
        le_bytes_from_le_u16 take_Suc_Cons append_Cons append_Nil)
qed simp_all

section \<open>Properties\<close>

text \<open>
  C12. The RTP packet codec is exact: \<open>RtpPacket::decode\<close> accepts precisely the encodings of
  packets whose header has version 2 and a four-bit CSRC count, and returns that packet.
\<close>

theorem rtp_packet_codec_exact:
  "rtp_packet_decode b = Inr p \<longleftrightarrow> rtp_header_valid (rp_header p) \<and> b = rtp_packet_encode p"
proof
  assume "rtp_packet_decode b = Inr p"
  then obtain h where h: "rtp_header_decode b = Inr h"
    and p: "p = \<lparr>rp_header = h, rp_payload = drop RTP_HEADER_SIZE b\<rparr>"
    by (auto simp: rtp_packet_decode_def)
  show "rtp_header_valid (rp_header p) \<and> b = rtp_packet_encode p"
    using rtp_header_encode_decode [OF h] by (simp add: p rtp_packet_encode_def)
next
  assume "rtp_header_valid (rp_header p) \<and> b = rtp_packet_encode p"
  then show "rtp_packet_decode b = Inr p"
    by (simp add: rtp_packet_decode_def rtp_packet_encode_def rtp_hdr.dec_enc)
qed

end
