(* ===== verification/Rtp_Timing.thy ===== *)
theory Rtp_Timing
  imports Complex_Main Rtp_Packet "HOL-Library.Signed_Division"
begin

text \<open>
  NTP-style timing: \<open>src/protocol/rtp/timing.rs\<close> (timestamps, timing requests and responses)
  and \<open>src/protocol/rtp/raop_timing.rs\<close> (the RAOP variant and the \<open>TimingSync\<close> manager with
  its smoothed offset and round-trip time). The current time is an argument of the model.
\<close>

section \<open>NTP timestamps\<close>

record ntp_timestamp =
  ntp_seconds :: u32
  ntp_fraction :: u32

definition NTP_UNIX_OFFSET :: u64 where
  "NTP_UNIX_OFFSET = 2208988800"

text \<open>
  \<open>NtpTimestamp::now()\<close>, with the duration since the Unix epoch (seconds and nanoseconds, or
  \<open>None\<close> when the clock is before the epoch) as its argument.
\<close>

definition ntp_now :: "(u64 \<times> u32) option \<Rightarrow> ntp_timestamp" where
  "ntp_now since_epoch =
     (let (secs, nanos) = (case since_epoch of None \<Rightarrow> (0, 0) | Some d \<Rightarrow> d);
          ntp_secs = secs + NTP_UNIX_OFFSET;
          fraction = push_bit 32 (ucast nanos :: u64) div 1000000000
      in \<lparr>ntp_seconds = ucast ntp_secs, ntp_fraction = ucast fraction\<rparr>)"

definition ntp_encode :: "ntp_timestamp \<Rightarrow> bytes" where
  "ntp_encode t = be_bytes 4 (ntp_seconds t) @ be_bytes 4 (ntp_fraction t)"

text \<open>Every caller passes a slice of eight bytes.\<close>

definition ntp_decode :: "bytes \<Rightarrow> ntp_timestamp" where
  "ntp_decode b =
     \<lparr>ntp_seconds = from_be [b ! 0, b ! 1, b ! 2, b ! 3],
      ntp_fraction = from_be [b ! 4, b ! 5, b ! 6, b ! 7]\<rparr>"

definition ntp_to_micros :: "ntp_timestamp \<Rightarrow> u64" where
  "ntp_to_micros t =
     (let secs = ucast (ntp_seconds t) :: u64;
          frac_micros = drop_bit 32 ((ucast (ntp_fraction t) :: u64) * 1000000)
      in secs * 1000000 + frac_micros)"

section \<open>Timing packets\<close>

record timing_request =
  treq_reference_time :: ntp_timestamp
  treq_receive_time :: ntp_timestamp
  treq_send_time :: ntp_timestamp

definition TIMING_REQUEST_SIZE :: nat where
  "TIMING_REQUEST_SIZE = 40"

definition timing_request_new :: "ntp_timestamp \<Rightarrow> timing_request" where
  "timing_request_new now =
     \<lparr>treq_reference_time = now, treq_receive_time = \<lparr>ntp_seconds = 0, ntp_fraction = 0\<rparr>,
      treq_send_time = now\<rparr>"

definition timing_request_encode :: "timing_request \<Rightarrow> u16 \<Rightarrow> u32 \<Rightarrow> bytes" where
  "timing_request_encode r sequence ssrc =
     [0x80, 0xD2] @ be_bytes 2 sequence @ replicate 4 0 @ be_bytes 4 ssrc
     @ replicate 4 0 @ ntp_encode (treq_reference_time r) @ ntp_encode (treq_receive_time r)
     @ ntp_encode (treq_send_time r)"

record timing_response =
  tr_reference_time :: ntp_timestamp
  tr_receive_time :: ntp_timestamp
  tr_send_time :: ntp_timestamp

definition timing_response_decode :: "bytes \<Rightarrow> (rtp_decode_error, timing_response) result" where
  "timing_response_decode b =
     (if length b < 24 then Inl (BufferTooSmall 24 (length b))
      else Inr \<lparr>tr_reference_time = ntp_decode (take 8 b),
                tr_receive_time = ntp_decode (take 8 (drop 8 b)),
                tr_send_time = ntp_decode (take 8 (drop 16 b))\<rparr>)"

text \<open>
  \<open>calculate_offset\<close> works in \<open>i64\<close> on the casts of the four \<open>u64\<close> readings;
  \<open>calculate_rtt\<close> subtracts in \<open>u64\<close> and only the outer subtraction saturates.
\<close>

definition timing_calculate_offset :: "timing_response \<Rightarrow> ntp_timestamp \<Rightarrow> int option" where
  "timing_calculate_offset r client_receive_time =
     (let t1 = sint (ntp_to_micros (tr_reference_time r));
          t2 = sint (ntp_to_micros (tr_receive_time r));
          t3 = sint (ntp_to_micros (tr_send_time r));
          t4 = sint (ntp_to_micros client_receive_time)
      in Option.bind (i64_chk (t2 - t1)) (\<lambda>a.
         Option.bind (i64_chk (t3 - t4)) (\<lambda>b.
         Option.bind (i64_chk (a + b)) (\<lambda>s. i64_chk (s sdiv 2)))))"

definition timing_calculate_rtt :: "timing_response \<Rightarrow> ntp_timestamp \<Rightarrow> int option" where
  "timing_calculate_rtt r client_receive_time =
     (let t1 = uint (ntp_to_micros (tr_reference_time r));
          t2 = uint (ntp_to_micros (tr_receive_time r));
          t3 = uint (ntp_to_micros (tr_send_time r));
          t4 = uint (ntp_to_micros client_receive_time)
      in Option.bind (u64_chk (t4 - t1)) (\<lambda>a.
         Option.bind (u64_chk (t3 - t2)) (\<lambda>b. Some (max 0 (a - b)))))"

section \<open>RAOP timing\<close>

definition raop_timing_request_encode :: "ntp_timestamp \<Rightarrow> u16 \<Rightarrow> bytes" where
  "raop_timing_request_encode reference_time sequence =
     [0x80, 0xD2] @ be_bytes 2 sequence @ be_bytes 4 (0 :: u32)
     @ ntp_encode reference_time @ replicate 8 0 @ ntp_encode reference_time"

definition raop_timing_response_decode :: "bytes \<Rightarrow> (rtp_decode_error, timing_response) result" where
  "raop_timing_response_decode b =
     (if length b < 32 then Inl (BufferTooSmall 32 (length b))
      else Inr \<lparr>tr_reference_time = ntp_decode (take 8 (drop 8 b)),
                tr_receive_time = ntp_decode (take 8 (drop 16 b)),
                tr_send_time = ntp_decode (take 8 (drop 24 b))\<rparr>)"

record timing_sync =
  ts_sequence :: u16
  ts_offset :: int
  ts_rtt :: int
  ts_sample_count :: u32
  ts_last_request :: "ntp_timestamp option"

definition timing_sync_new :: timing_sync where
  "timing_sync_new =
     \<lparr>ts_sequence = 0, ts_offset = 0, ts_rtt = 0, ts_sample_count = 0, ts_last_request = None\<rparr>"

definition timing_sync_create_request :: "timing_sync \<Rightarrow> ntp_timestamp \<Rightarrow> timing_sync \<times> bytes" where
  "timing_sync_create_request s now =
     (let data = raop_timing_request_encode now (ts_sequence s)
      in (s\<lparr>ts_sequence := ts_sequence s + 1, ts_last_request := Some now\<rparr>, data))"

text \<open>\<open>None\<close> is an arithmetic panic; \<open>Some (Inl e)\<close> a decode error.\<close>

definition timing_sync_process_response ::
    "timing_sync \<Rightarrow> bytes \<Rightarrow> ntp_timestamp \<Rightarrow> (rtp_decode_error, timing_sync) result option" where
  "timing_sync_process_response s data receive_time =
     (case raop_timing_response_decode data of
        Inl e \<Rightarrow> Some (Inl e)
      | Inr response \<Rightarrow>
          Option.bind (timing_calculate_offset response receive_time) (\<lambda>offset.
          Option.bind (timing_calculate_rtt response receive_time) (\<lambda>rtt.
          Option.bind
            (if ts_sample_count s = 0 then Some (offset, rtt)
             else Option.bind (i64_chk (offset - ts_offset s)) (\<lambda>d.
                  Option.bind (i64_chk (ts_offset s + d sdiv 8)) (\<lambda>o'.
                  Option.bind (u64_chk (ts_rtt s + max 0 (rtt - ts_rtt s) div 8)) (\<lambda>r'.
                  Some (o', r')))))
            (\<lambda>(o', r').
             if ts_sample_count s = - 1 then None
             else Some (Inr (s\<lparr>ts_offset := o', ts_rtt := r',
                              ts_sample_count := ts_sample_count s + 1\<rparr>))))))"

text \<open>The cast \<open>as i32\<close> of the \<open>i64\<close> quotient keeps its low 32 bits.\<close>

definition timing_sync_offset_samples :: "timing_sync \<Rightarrow> u32 option" where
  "timing_sync_offset_samples s =
     Option.bind (i64_chk (ts_offset s * 44100)) (\<lambda>p. Some (word_of_int (p sdiv 1000000)))"

definition timing_sync_local_to_remote :: "timing_sync \<Rightarrow> u32 \<Rightarrow> u32 option" where
  "timing_sync_local_to_remote s local_ts =
     map_option (\<lambda>k. local_ts + k) (timing_sync_offset_samples s)"

definition timing_sync_remote_to_local :: "timing_sync \<Rightarrow> u32 \<Rightarrow> u32 option" where
  "timing_sync_remote_to_local s remote_ts =
     map_option (\<lambda>k. remote_ts - k) (timing_sync_offset_samples s)"

section \<open>Correctness\<close>

lemma length_ntp_encode [simp]: "length (ntp_encode t) = 8"
  by (simp add: ntp_encode_def)

lemma ntp_decode_encode [wire]: "ntp_decode (ntp_encode t) = t"
  by (simp add: ntp_decode_def ntp_encode_def wire del: from_be.simps)

lemma ntp_encode_decode: "length b = 8 \<Longrightarrow> ntp_encode (ntp_decode b) = b"
proof -
  assume "length b = 8"
  then obtain b0 b1 b2 b3 b4 b5 b6 b7 where "b = [b0, b1, b2, b3, b4, b5, b6, b7]"
    by (auto simp: numeral_eq_Suc length_Suc_conv)
  then show ?thesis by (simp add: ntp_decode_def ntp_encode_def be_bytes_from_be_u32 del: from_be.simps)
qed

text \<open>Microseconds since 1900: no intermediate product or sum overflows, so the value is exact.\<close>

lemma unat_ntp_to_micros:
  "unat (ntp_to_micros t) =
     unat (ntp_seconds t) * 1000000 + unat (ntp_fraction t) * 1000000 div 2 ^ 32"
proof -
  let ?s = "unat (ntp_seconds t)" and ?f = "unat (ntp_fraction t)"
  have s: "?s < 4294967296" and f: "?f < 4294967296" by (rule unat_less_u32)+
  have f2: "unat ((ucast (ntp_fraction t) :: u64) * 1000000) = ?f * 1000000"
    using f by (simp add: unat_word_ariths unat_ucast_up)
  have s2: "unat ((ucast (ntp_seconds t) :: u64) * 1000000) = ?s * 1000000"
    using s by (simp add: unat_word_ariths unat_ucast_up)
  have f3: "unat (drop_bit 32 ((ucast (ntp_fraction t) :: u64) * 1000000)) = ?f * 1000000 div 2 ^ 32"
    unfolding unat_drop_bit_eq f2 by (rule drop_bit_eq_div)
  have "?f * 1000000 div 2 ^ 32 < 1000000" using f by simp
  then show ?thesis
    using s unfolding ntp_to_micros_def Let_def unat_word_ariths(1) s2 f3 by simp
qed

lemma ntp_to_micros_bound: "unat (ntp_to_micros t) < 2 ^ 32 * 1000000"
proof -
  have "unat (ntp_fraction t) * 1000000 div 2 ^ 32 < 1000000"
    using unat_less_u32 [of "ntp_fraction t"] by simp
  then show ?thesis
    unfolding unat_ntp_to_micros using unat_less_u32 [of "ntp_seconds t"] by simp
qed

text \<open>A reading in microseconds, as an integer; the casts to \<open>i64\<close> keep it.\<close>

definition micros :: "ntp_timestamp \<Rightarrow> int" where
  "micros t = uint (ntp_to_micros t)"

lemma micros_bounds: "0 \<le> micros t" "micros t < 2 ^ 32 * 1000000"
proof -
  have "int (unat (ntp_to_micros t)) < int (2 ^ 32 * 1000000)"
    unfolding of_nat_less_iff by (rule ntp_to_micros_bound)
  then show "micros t < 2 ^ 32 * 1000000" by (simp add: micros_def)
qed (simp add: micros_def)

lemma uint_ntp_to_micros: "uint (ntp_to_micros t) = micros t"
  by (simp add: micros_def)

lemma sint_ntp_to_micros: "sint (ntp_to_micros t) = micros t"
proof -
  have "uint (ntp_to_micros t) < 2 ^ 63"
    using micros_bounds [of t] by (simp add: uint_ntp_to_micros)
  then have "signed_take_bit 63 (uint (ntp_to_micros t)) = uint (ntp_to_micros t)"
    by (simp add: signed_take_bit_int_eq_self_iff uint_ntp_to_micros micros_bounds order_trans [OF _ micros_bounds(1)])
  then show ?thesis by (simp add: sint_uint uint_ntp_to_micros)
qed

lemma abs_sdiv_le: "\<bar>x sdiv k\<bar> \<le> \<bar>x :: int\<bar>"
proof -
  have "\<bar>x sdiv k\<bar> \<le> \<bar>x\<bar> div \<bar>k\<bar>"
    by (simp add: signed_divide_int_def abs_mult sgn_if pos_imp_zdiv_nonneg_iff)
  also have "\<dots> \<le> \<bar>x\<bar>" by (cases "k = 0") (simp_all add: zdiv_mono2 [of "\<bar>x\<bar>" 1 "\<bar>k\<bar>", simplified])
  finally show ?thesis .
qed

lemma i64_half_sum:
  assumes "\<bar>a\<bar> < 2 ^ 52" and "\<bar>b\<bar> < 2 ^ 52"
  shows "Option.bind (i64_chk a) (\<lambda>x. Option.bind (i64_chk b) (\<lambda>y.
           Option.bind (i64_chk (x + y)) (\<lambda>s. i64_chk (s sdiv 2)))) = Some ((a + b) sdiv 2)"
proof -
  have "\<bar>a\<bar> < 2 ^ 63" "\<bar>b\<bar> < 2 ^ 63" "\<bar>a + b\<bar> < 2 ^ 63" using assms by simp_all
  moreover from this have "\<bar>(a + b) sdiv 2\<bar> < 2 ^ 63"
    using abs_sdiv_le [of "a + b" 2] by linarith
  ultimately show ?thesis by (simp only: i64_chk_small Option.bind.simps)
qed

text \<open>
  No step of \<open>calculate_offset\<close> can overflow: the four readings are below \<open>2^32\<close> seconds.
\<close>

lemma timing_calculate_offset_exact:
  "timing_calculate_offset r t4 =
     Some (((micros (tr_receive_time r) - micros (tr_reference_time r))
            + (micros (tr_send_time r) - micros t4)) sdiv 2)"
  unfolding timing_calculate_offset_def sint_ntp_to_micros Let_def
  using micros_bounds [of "tr_receive_time r"] micros_bounds [of "tr_reference_time r"]
      micros_bounds [of "tr_send_time r"] micros_bounds [of t4]
  by (intro i64_half_sum) simp_all

lemma timing_calculate_rtt_exact:
  "timing_calculate_rtt r t4 =
     (if micros (tr_reference_time r) \<le> micros t4 \<and> micros (tr_receive_time r) \<le> micros (tr_send_time r)
      then Some (max 0 ((micros t4 - micros (tr_reference_time r))
                        - (micros (tr_send_time r) - micros (tr_receive_time r))))
      else None)"
  using micros_bounds [of "tr_receive_time r"] micros_bounds [of "tr_reference_time r"]
      micros_bounds [of "tr_send_time r"] micros_bounds [of t4]
  by (simp add: timing_calculate_rtt_def uint_ntp_to_micros Let_def u64_chk_def)

text \<open>Decoding a response that a server built from a request.\<close>

lemma raop_timing_response_decode_layout:
  assumes "length hdr = 8"
  shows "raop_timing_response_decode (hdr @ ntp_encode a @ ntp_encode b @ ntp_encode c @ rest) =
    Inr \<lparr>tr_reference_time = a, tr_receive_time = b, tr_send_time = c\<rparr>"
  using assms by (simp add: raop_timing_response_decode_def wire)

text \<open>The smoothed offset moves an eighth of the way towards the new sample, never past it.\<close>

lemma sdiv_towards:
  fixes d :: int
  shows "min 0 d \<le> d sdiv 8" "d sdiv 8 \<le> max 0 d"
  by (auto simp: signed_divide_int_def sgn_if min_def max_def)

lemma timing_sync_process_response_Inr:
  assumes p: "timing_sync_process_response s data now = Some (Inr s')" and c: "ts_sample_count s \<noteq> 0"
  obtains r offset rtt where
    "raop_timing_response_decode data = Inr r" "timing_calculate_offset r now = Some offset"
    "ts_offset s' = ts_offset s + (offset - ts_offset s) sdiv 8"
    "ts_rtt s' = ts_rtt s + max 0 (rtt - ts_rtt s) div 8"
proof (cases "raop_timing_response_decode data")
  case (Inl e)
  with p show ?thesis by (simp add: timing_sync_process_response_def)
next
  case (Inr r)
  show ?thesis
    using p c that [OF Inr]
    unfolding timing_sync_process_response_def Inr sum.case bind_eq_Some_conv if_not_P [OF c]
      i64_chk_Some_iff u64_chk_Some_iff
    by (clarsimp split: if_splits)
qed

section \<open>Rounding\<close>

text \<open>The time of a timestamp in microseconds, of which \<open>to_micros\<close> is the integral part.\<close>

definition ntp_time :: "ntp_timestamp \<Rightarrow> real" where
  "ntp_time t = (real (unat (ntp_seconds t)) + real (unat (ntp_fraction t)) / 2 ^ 32) * 1000000"

lemma ntp_time_floor: "micros t = \<lfloor>ntp_time t\<rfloor>"
proof -
  let ?s = "unat (ntp_seconds t)" and ?f = "unat (ntp_fraction t)"
  have "micros t = int (unat (ntp_to_micros t))" by (simp add: micros_def)
  also have "\<dots> = int (?s * 1000000) + int (?f * 1000000) div int (2 ^ 32)" unfolding unat_ntp_to_micros by (simp add: zdiv_int)
  also have "\<dots> = \<lfloor>real_of_int (int (?f * 1000000)) / real_of_int (int (2 ^ 32)) + real_of_int (int (?s * 1000000))\<rfloor>"
    by (subst floor_add_int [symmetric], subst floor_divide_of_int_eq, rule add.commute)
  also have "real_of_int (int (?f * 1000000)) / real_of_int (int (2 ^ 32)) + real_of_int (int (?s * 1000000)) = ntp_time t"
    by (simp add: ntp_time_def algebra_simps)
  finally show ?thesis .
qed

lemma ntp_time_rounded: "micros t \<le> ntp_time t" "ntp_time t < micros t + 1"
  unfolding ntp_time_floor by linarith+

lemma ntp_time_mono: "ntp_time t \<le> ntp_time u \<Longrightarrow> micros t \<le> micros u"
  unfolding ntp_time_floor by (rule floor_mono)

lemma sdiv_2_error: "\<bar>2 * (n sdiv 2) - n\<bar> \<le> (1 :: int)"
  by (simp add: signed_divide_int_def sgn_if) presburger

section \<open>Properties\<close>

text \<open>
  C26. The four-timestamp exchange: when the server's clock is \<open>theta\<close> microseconds ahead, the
  one-way delay is \<open>d\<close> in both directions and the server answers after \<open>p\<close>, where these are real numbers and the
  four timestamps are exact to their 32-bit fraction, then \<open>calculate_offset\<close> is within one and a half
  microseconds of \<open>theta\<close> and \<open>calculate_rtt\<close> within two of \<open>2 d\<close>, with no overflow on the way.
  The error is that of rounding four readings down to microseconds and of halving.
\<close>

theorem ntp_exchange_bound:
  assumes "ntp_time (tr_receive_time r) = ntp_time (tr_reference_time r) + theta + d"
    and "ntp_time (tr_send_time r) = ntp_time (tr_receive_time r) + p"
    and "ntp_time t4 = ntp_time (tr_send_time r) - theta + d"
    and "0 \<le> d" and "0 \<le> p"
  shows "\<exists>offset rtt. timing_calculate_offset r t4 = Some offset \<and> \<bar>of_int offset - theta\<bar> < 3 / 2
    \<and> timing_calculate_rtt r t4 = Some rtt \<and> \<bar>of_int rtt - 2 * d\<bar> < 2"
proof -
  let ?t1 = "tr_reference_time r" and ?t2 = "tr_receive_time r" and ?t3 = "tr_send_time r"
  let ?n = "(micros ?t2 - micros ?t1) + (micros ?t3 - micros t4)"
  let ?m = "(micros t4 - micros ?t1) - (micros ?t3 - micros ?t2)"
  note rounded = ntp_time_rounded [of ?t1] ntp_time_rounded [of ?t2] ntp_time_rounded [of ?t3] ntp_time_rounded [of t4]
  have "\<bar>of_int ?n - 2 * theta\<bar> < 2" using assms(1-3) rounded by linarith
  moreover have "\<bar>2 * of_int (?n sdiv 2) - of_int ?n\<bar> \<le> (1 :: real)" using sdiv_2_error [of ?n] by linarith
  ultimately have "\<bar>of_int (?n sdiv 2) - theta\<bar> < 3 / 2" by linarith
  moreover have order: "micros ?t1 \<le> micros t4" "micros ?t2 \<le> micros ?t3"
    using assms by (intro ntp_time_mono; linarith)+
  moreover have "\<bar>of_int (max 0 ?m) - 2 * d\<bar> < 2" using assms(1-4) rounded by (simp add: max_def) linarith
  ultimately show ?thesis
    using timing_calculate_offset_exact [of r t4] timing_calculate_rtt_exact [of r t4] by simp
qed

theorem ntp_exchange_bound_witness:
  "\<exists>offset rtt. timing_calculate_offset
     \<lparr>tr_reference_time = \<lparr>ntp_seconds = 100, ntp_fraction = 1\<rparr>,
      tr_receive_time = \<lparr>ntp_seconds = 107, ntp_fraction = 4\<rparr>,
      tr_send_time = \<lparr>ntp_seconds = 108, ntp_fraction = 6\<rparr>\<rparr>
     \<lparr>ntp_seconds = 105, ntp_fraction = 5\<rparr> = Some offset \<and> \<bar>of_int offset - 5000000 - 2 / 2 ^ 32 * 1000000\<bar> < (3 / 2 :: real)
   \<and> timing_calculate_rtt
     \<lparr>tr_reference_time = \<lparr>ntp_seconds = 100, ntp_fraction = 1\<rparr>,
      tr_receive_time = \<lparr>ntp_seconds = 107, ntp_fraction = 4\<rparr>,
      tr_send_time = \<lparr>ntp_seconds = 108, ntp_fraction = 6\<rparr>\<rparr>
     \<lparr>ntp_seconds = 105, ntp_fraction = 5\<rparr> = Some rtt \<and> \<bar>of_int rtt - 2 * (2000000 + 1 / 2 ^ 32 * 1000000)\<bar> < (2 :: real)"
proof -
  let ?r = "\<lparr>tr_reference_time = \<lparr>ntp_seconds = 100, ntp_fraction = 1\<rparr>,
      tr_receive_time = \<lparr>ntp_seconds = 107, ntp_fraction = 4\<rparr>, tr_send_time = \<lparr>ntp_seconds = 108, ntp_fraction = 6\<rparr>\<rparr>"
  have n: "unat (100 :: u32) = 100" "unat (107 :: u32) = 107" "unat (108 :: u32) = 108" "unat (105 :: u32) = 105"
    "unat (1 :: u32) = 1" "unat (4 :: u32) = 4" "unat (6 :: u32) = 6" "unat (5 :: u32) = 5"
    by simp_all
  have time: "ntp_time \<lparr>ntp_seconds = s, ntp_fraction = f\<rparr> = (real (unat s) + real (unat f) / 2 ^ 32) * 1000000" for s f
    by (simp add: ntp_time_def)
  show ?thesis
    using ntp_exchange_bound [of ?r "5000000 + 2 / 2 ^ 32 * 1000000" "2000000 + 1 / 2 ^ 32 * 1000000" "1000000 + 2 / 2 ^ 32 * 1000000"
        "\<lparr>ntp_seconds = 105, ntp_fraction = 5\<rparr>"]
    unfolding timing_response.select_convs time n by (simp add: diff_diff_eq)
qed

text \<open>
  Smoothing in \<open>TimingSync::process_response\<close> after the first sample: the offset stays
  between the old estimate and the new sample, but the round-trip time never decreases,
  because the difference saturates at zero before it is averaged in.
\<close>

theorem timing_sync_smoothing:
  assumes "timing_sync_process_response s data now = Some (Inr s')"
    and "ts_sample_count s \<noteq> 0"
    and "raop_timing_response_decode data = Inr r"
    and "timing_calculate_offset r now = Some offset"
  shows "min (ts_offset s) offset \<le> ts_offset s' \<and> ts_offset s' \<le> max (ts_offset s) offset
    \<and> ts_rtt s \<le> ts_rtt s'"
  using assms(1,2)
proof (rule timing_sync_process_response_Inr)
  fix r' offset' rtt
  assume *: "raop_timing_response_decode data = Inr r'" "timing_calculate_offset r' now = Some offset'"
    "ts_offset s' = ts_offset s + (offset' - ts_offset s) sdiv 8"
    "ts_rtt s' = ts_rtt s + max 0 (rtt - ts_rtt s) div 8"
  then have "offset' = offset" using assms(3,4) by simp
  moreover have "0 \<le> max 0 (rtt - ts_rtt s) div 8" by (simp add: pos_imp_zdiv_nonneg_iff)
  ultimately show ?thesis using * sdiv_towards [of "offset - ts_offset s"] by auto
qed

theorem timing_sync_smoothing_witness:
  "min 0 5000000 \<le> ts_offset (timing_sync_new\<lparr>ts_offset := 625000, ts_rtt := 500000, ts_sample_count := 2\<rparr>)
   \<and> ts_offset (timing_sync_new\<lparr>ts_offset := 625000, ts_rtt := 500000, ts_sample_count := 2\<rparr>) \<le> max 0 5000000
   \<and> ts_rtt (timing_sync_new\<lparr>ts_sample_count := 1\<rparr>)
       \<le> ts_rtt (timing_sync_new\<lparr>ts_offset := 625000, ts_rtt := 500000, ts_sample_count := 2\<rparr>)"
proof -
  let ?r = "\<lparr>tr_reference_time = \<lparr>ntp_seconds = 100, ntp_fraction = 0\<rparr>,
      tr_receive_time = \<lparr>ntp_seconds = 107, ntp_fraction = 0\<rparr>,
      tr_send_time = \<lparr>ntp_seconds = 108, ntp_fraction = 0\<rparr>\<rparr>"
  let ?now = "\<lparr>ntp_seconds = 105, ntp_fraction = 0\<rparr>"
  let ?data = "replicate 8 0 @ ntp_encode \<lparr>ntp_seconds = 100, ntp_fraction = 0\<rparr>
    @ ntp_encode \<lparr>ntp_seconds = 107, ntp_fraction = 0\<rparr>
    @ ntp_encode \<lparr>ntp_seconds = 108, ntp_fraction = 0\<rparr> @ []"
  let ?s = "timing_sync_new\<lparr>ts_sample_count := 1\<rparr>"
  let ?s' = "timing_sync_new\<lparr>ts_offset := 625000, ts_rtt := 500000, ts_sample_count := 2\<rparr>"
  have d: "raop_timing_response_decode ?data = Inr ?r"
    by (rule raop_timing_response_decode_layout) simp
  have o: "timing_calculate_offset ?r ?now = Some 5000000"
    and t: "timing_calculate_rtt ?r ?now = Some 4000000"
    by (simp_all add: timing_calculate_offset_exact timing_calculate_rtt_exact micros_def
        ntp_to_micros_def)
  have "timing_sync_process_response ?s ?data ?now = Some (Inr ?s')"
    unfolding timing_sync_process_response_def d sum.case o t
    by (simp add: timing_sync_new_def i64_chk_def u64_chk_def)
  from timing_sync_smoothing [OF this _ d o] show ?thesis by (simp add: timing_sync_new_def)
qed

text \<open>
  A response whose send time lies before its receive time makes \<open>process_response\<close>
  overflow in the unsigned subtraction of \<open>calculate_rtt\<close>, whatever the client's own clock:
  the outcome is decided by bytes of the peer.
\<close>

theorem timing_sync_inverted_response_panics:
  assumes "length hdr = 8" and "micros c < micros b"
  shows "timing_sync_process_response s (hdr @ ntp_encode a @ ntp_encode b @ ntp_encode c @ rest) now = None"
  unfolding timing_sync_process_response_def raop_timing_response_decode_layout [OF assms(1)] sum.case
  using assms(2) by (simp add: timing_calculate_offset_exact timing_calculate_rtt_exact)

theorem timing_sync_inverted_response_panics_witness:
  "timing_sync_process_response timing_sync_new
     (replicate 8 0 @ ntp_encode \<lparr>ntp_seconds = 1, ntp_fraction = 0\<rparr>
        @ ntp_encode \<lparr>ntp_seconds = 3, ntp_fraction = 0\<rparr>
        @ ntp_encode \<lparr>ntp_seconds = 2, ntp_fraction = 0\<rparr> @ [])
     \<lparr>ntp_seconds = 4, ntp_fraction = 0\<rparr> = None"
  by (rule timing_sync_inverted_response_panics) (simp_all add: micros_def ntp_to_micros_def)

text \<open>
  \<open>TimingSync::remote_to_local\<close> undoes \<open>local_to_remote\<close> on every RTP timestamp, also
  across the 32-bit wrap-around, whenever the scaled offset fits the signed 64-bit type.
\<close>

theorem timing_sync_local_remote_inverse:
  "timing_sync_local_to_remote s x = Some y \<longleftrightarrow> timing_sync_remote_to_local s y = Some x"
  by (auto simp: timing_sync_local_to_remote_def timing_sync_remote_to_local_def)

end
