(* ===== verification/Rtp_Control.thy ===== *)
theory Rtp_Control
  imports Rtp_Timing
begin

text \<open>
  The control channel: \<open>src/protocol/rtp/control.rs\<close> (control packets of the client),
  \<open>src/protocol/rtp/raop.rs\<close> (the RAOP packet formats) and the packet parser of
  \<open>src/receiver/control_receiver.rs\<close>. The three files define formats for the same channel;
  the properties relate them.
\<close>

section \<open>Control packets\<close>

record retransmit_request =
  rr_sequence_start :: u16
  rr_count :: u16

definition retransmit_request_encode :: "retransmit_request \<Rightarrow> u32 \<Rightarrow> bytes" where
  "retransmit_request_encode r ssrc =
     [0x80, 0xD5] @ be_bytes 2 (rr_sequence_start r) @ replicate 4 0 @ be_bytes 4 ssrc
     @ be_bytes 2 (rr_sequence_start r) @ be_bytes 2 (rr_count r)"

definition retransmit_request_decode :: "bytes \<Rightarrow> (rtp_decode_error, retransmit_request) result" where
  "retransmit_request_decode b =
     (if length b < 4 then Inl (BufferTooSmall 4 (length b))
      else Inr \<lparr>rr_sequence_start = from_be [b ! 0, b ! 1], rr_count = from_be [b ! 2, b ! 3]\<rparr>)"

datatype control_packet =
    RetransmitRequest retransmit_request
  | Sync (sync_rtp_timestamp: u32) (sync_ntp_timestamp: ntp_timestamp) (sync_next_timestamp: u32)
  | TimeAnnouncePtp (tap_rtp_timestamp: u32) (tap_ptp_timestamp: u64) (tap_rtp_timestamp_next: u32)
      (tap_clock_identity: u64)
  | TimeAnnounceNtp (tan_rtp_timestamp: u32) (tan_ntp_timestamp: u64) (tan_rtp_timestamp_next: u32)

fun control_packet_encode :: "control_packet \<Rightarrow> bytes" where
  "control_packet_encode (RetransmitRequest req) = retransmit_request_encode req 0"
| "control_packet_encode (Sync rtp ntp nxt) = []"
| "control_packet_encode (TimeAnnouncePtp rtp ptp nxt clock) =
     [0x80, 0xD7] @ be_bytes 2 (6 :: u16)
     @ be_bytes 4 rtp @ be_bytes 8 ptp @ be_bytes 4 nxt @ be_bytes 8 clock"
| "control_packet_encode (TimeAnnounceNtp rtp ntp nxt) =
     [0x80, 0xD4] @ be_bytes 2 (7 :: u16)
     @ be_bytes 4 rtp @ be_bytes 8 ntp @ be_bytes 4 nxt @ replicate 12 0"

definition control_packet_decode :: "bytes \<Rightarrow> (rtp_decode_error, control_packet) result" where
  "control_packet_decode b =
     (if length b < 4 then Inl (BufferTooSmall 4 (length b))
      else let payload_type_masked = b ! 1 AND 0x7F; payload_type_full = b ! 1 in
      if payload_type_full = 0xD7 then
        (if length b < 28 then Inl (BufferTooSmall 28 (length b))
         else Inr (TimeAnnouncePtp
           (from_be [b ! 4, b ! 5, b ! 6, b ! 7])
           (from_be [b ! 8, b ! 9, b ! 10, b ! 11, b ! 12, b ! 13, b ! 14, b ! 15])
           (from_be [b ! 16, b ! 17, b ! 18, b ! 19])
           (from_be [b ! 20, b ! 21, b ! 22, b ! 23, b ! 24, b ! 25, b ! 26, b ! 27])))
      else if payload_type_full = 0xD4 then
        (if length b < 20 then Inl (BufferTooSmall 20 (length b))
         else let plen = from_be [b ! 2, b ! 3] :: u16; expected_len = (unat plen + 1) * 4 in
         if length b < expected_len then Inl (BufferTooSmall expected_len (length b))
         else Inr (TimeAnnounceNtp
           (from_be [b ! 4, b ! 5, b ! 6, b ! 7])
           (from_be [b ! 8, b ! 9, b ! 10, b ! 11, b ! 12, b ! 13, b ! 14, b ! 15])
           (from_be [b ! 16, b ! 17, b ! 18, b ! 19])))
      else if payload_type_masked = 0x55 then
        (if length b < 12 then Inl (BufferTooSmall 12 (length b))
         else result_bind (retransmit_request_decode (drop 12 b)) (\<lambda>r. Inr (RetransmitRequest r)))
      else if payload_type_masked = 0x54 then
        (if length b < 20 then Inl (BufferTooSmall 20 (length b))
         else Inr (Sync
           (from_be [b ! 4, b ! 5, b ! 6, b ! 7])
           (ntp_decode (take 8 (drop 8 b)))
           (from_be [b ! 16, b ! 17, b ! 18, b ! 19])))
      else Inl (UnknownPayloadType payload_type_masked))"

section \<open>RAOP packets\<close>

datatype raop_payload_type =
    RaopTimingRequest | RaopTimingResponse | RaopSync | RaopRetransmitRequest
  | RaopRetransmitResponse | RaopAudioRealtime | RaopAudioBuffered

definition raop_payload_type_from_byte :: "u8 \<Rightarrow> raop_payload_type option" where
  "raop_payload_type_from_byte b =
     (let k = b AND 0x7F in
      if k = 0x52 then Some RaopTimingRequest
      else if k = 0x53 then Some RaopTimingResponse
      else if k = 0x54 then Some RaopSync
      else if k = 0x55 then Some RaopRetransmitRequest
      else if k = 0x56 then Some RaopRetransmitResponse
      else if k = 0x60 then Some RaopAudioRealtime
      else if k = 0x61 then Some RaopAudioBuffered
      else None)"

fun raop_payload_type_is_audio :: "raop_payload_type \<Rightarrow> bool" where
  "raop_payload_type_is_audio RaopAudioRealtime = True"
| "raop_payload_type_is_audio RaopAudioBuffered = True"
| "raop_payload_type_is_audio RaopRetransmitResponse = True"
| "raop_payload_type_is_audio _ = False"

record sync_packet =
  sp_extension :: bool
  sp_rtp_timestamp :: u32
  sp_ntp_time :: ntp_timestamp
  sp_next_timestamp :: u32

definition SYNC_PACKET_SIZE :: nat where
  "SYNC_PACKET_SIZE = 20"

definition sync_packet_encode :: "sync_packet \<Rightarrow> bytes" where
  "sync_packet_encode p =
     [0x80 OR (if sp_extension p then 0x10 else 0x00), 0xD4] @ be_bytes 2 (0x0007 :: u16)
     @ be_bytes 4 (sp_rtp_timestamp p) @ ntp_encode (sp_ntp_time p) @ be_bytes 4 (sp_next_timestamp p)"

definition sync_packet_decode :: "bytes \<Rightarrow> (rtp_decode_error, sync_packet) result" where
  "sync_packet_decode b =
     (if length b < SYNC_PACKET_SIZE then Inl (BufferTooSmall SYNC_PACKET_SIZE (length b))
      else Inr \<lparr>sp_extension = (b ! 0 AND 0x10 \<noteq> 0),
                sp_rtp_timestamp = from_be [b ! 4, b ! 5, b ! 6, b ! 7],
                sp_ntp_time = ntp_decode (take 8 (drop 8 b)),
                sp_next_timestamp = from_be [b ! 16, b ! 17, b ! 18, b ! 19]\<rparr>)"

record raop_retransmit_request =
  rrr_seq_start :: u16
  rrr_count :: u16

definition raop_retransmit_request_decode ::
    "bytes \<Rightarrow> (rtp_decode_error, raop_retransmit_request) result" where
  "raop_retransmit_request_decode b =
     (if length b < 4 then Inl (BufferTooSmall 4 (length b))
      else Inr \<lparr>rrr_seq_start = from_be [b ! 0, b ! 1], rrr_count = from_be [b ! 2, b ! 3]\<rparr>)"

record raop_audio_packet =
  rap_marker :: bool
  rap_sequence :: u16
  rap_timestamp :: u32
  rap_ssrc :: u32
  rap_payload :: bytes

definition raop_write_header :: "bool \<Rightarrow> u16 \<Rightarrow> u32 \<Rightarrow> u32 \<Rightarrow> bytes" where
  "raop_write_header marker sequence timestamp ssrc =
     [0x80, 0x60 OR (if marker then 0x80 else 0x00)]
     @ be_bytes 2 sequence @ be_bytes 4 timestamp @ be_bytes 4 ssrc"

definition raop_audio_packet_encode :: "raop_audio_packet \<Rightarrow> bytes" where
  "raop_audio_packet_encode p =
     raop_write_header (rap_marker p) (rap_sequence p) (rap_timestamp p) (rap_ssrc p) @ rap_payload p"

definition raop_audio_packet_decode :: "bytes \<Rightarrow> (rtp_decode_error, raop_audio_packet) result" where
  "raop_audio_packet_decode b =
     (if length b < 12 then Inl (BufferTooSmall 12 (length b))
      else Inr \<lparr>rap_marker = (b ! 1 AND 0x80 \<noteq> 0),
                rap_sequence = from_be [b ! 2, b ! 3],
                rap_timestamp = from_be [b ! 4, b ! 5, b ! 6, b ! 7],
                rap_ssrc = from_be [b ! 8, b ! 9, b ! 10, b ! 11],
                rap_payload = drop 12 b\<rparr>)"

section \<open>The receiver's control port\<close>

record rx_sync_packet =
  rxs_extension :: bool
  rxs_rtp_timestamp :: u32
  rxs_ntp_timestamp :: u64
  rxs_rtp_timestamp_at_ntp :: u32

datatype control_event =
    SyncEvent rx_sync_packet
  | RetransmitEvent (first_seq: u16) (rtx_count: u16)

definition parse_sync :: "bytes \<Rightarrow> control_event option" where
  "parse_sync data =
     (if length data < 20 then None
      else Some (SyncEvent
        \<lparr>rxs_extension = (data ! 0 AND 0x10 \<noteq> 0),
         rxs_rtp_timestamp = from_be [data ! 4, data ! 5, data ! 6, data ! 7],
         rxs_ntp_timestamp = from_be [data ! 8, data ! 9, data ! 10, data ! 11,
                                      data ! 12, data ! 13, data ! 14, data ! 15],
         rxs_rtp_timestamp_at_ntp = from_be [data ! 16, data ! 17, data ! 18, data ! 19]\<rparr>))"

definition parse_retransmit :: "bytes \<Rightarrow> control_event option" where
  "parse_retransmit data =
     (if length data < 8 then None
      else Some (RetransmitEvent (from_be [data ! 4, data ! 5]) (from_be [data ! 6, data ! 7])))"

definition parse_packet :: "bytes \<Rightarrow> control_event option" where
  "parse_packet data =
     (if length data < 8 then None
      else let packet_type = data ! 1 AND 0x7F in
      if packet_type = 0x54 then parse_sync data
      else if packet_type = 0x55 then parse_retransmit data
      else None)"

section \<open>Correctness\<close>

lemma length_retransmit_request_encode [simp]: "length (retransmit_request_encode r ssrc) = 16"
  by (simp add: retransmit_request_encode_def)

fun control_packet_encodable :: "control_packet \<Rightarrow> bool" where
  "control_packet_encodable (Sync _ _ _) = False"
| "control_packet_encodable _ = True"

lemma ntp_announce_length [wire]: "from_be [0, 7] = (7 :: u16)"
  by simp

lemma control_packet_decode_encode:
  "control_packet_encodable p \<Longrightarrow> control_packet_decode (control_packet_encode p @ rest) = Inr p"
  by (cases p)
    (simp_all add: control_packet_decode_def retransmit_request_encode_def
      retransmit_request_decode_def wire Let_def del: from_be.simps)

lemma sync_packet_decode_encode: "sync_packet_decode (sync_packet_encode p @ rest) = Inr p"
  by (cases p)
    (simp add: sync_packet_decode_def sync_packet_encode_def SYNC_PACKET_SIZE_def wire
      ntp_encode_def ntp_decode_def del: from_be.simps)

lemma raop_audio_packet_decode_encode: "raop_audio_packet_decode (raop_audio_packet_encode p) = Inr p"
  by (cases p)
    (simp add: raop_audio_packet_decode_def raop_audio_packet_encode_def raop_write_header_def wire
      del: from_be.simps)

interpretation ctl: wire_codec control_packet_encode control_packet_decode control_packet_encodable
  by unfold_locales (rule control_packet_decode_encode)

interpretation sync_pkt: wire_codec sync_packet_encode sync_packet_decode "\<lambda>_. True"
  by unfold_locales (rule sync_packet_decode_encode)

section \<open>Properties\<close>

text \<open>
  Every control packet except \<open>Sync\<close> survives encoding and decoding, also when more bytes
  follow it in the datagram, so no encoding is a prefix of another packet's encoding.
\<close>

theorem control_packet_roundtrip:
  assumes "control_packet_encodable p" and "control_packet_encodable q"
  shows "control_packet_decode (control_packet_encode p @ rest) = Inr p
    \<and> (control_packet_encode p @ rest = control_packet_encode q @ rest') = (p = q \<and> rest = rest')"
  using ctl.dec_enc [OF assms(1)] ctl.enc_prefix_free [OF assms] by blast

theorem control_packet_roundtrip_witness:
  "control_packet_encodable (TimeAnnouncePtp 1 2 3 4)
   \<and> control_packet_decode (control_packet_encode (TimeAnnouncePtp 1 2 3 4) @ [7]) = Inr (TimeAnnouncePtp 1 2 3 4)
   \<and> (control_packet_encode (TimeAnnouncePtp 1 2 3 4) @ [7]
        = control_packet_encode (RetransmitRequest \<lparr>rr_sequence_start = 5, rr_count = 6\<rparr>) @ []) = False"
  using control_packet_roundtrip [of "TimeAnnouncePtp 1 2 3 4"
      "RetransmitRequest \<lparr>rr_sequence_start = 5, rr_count = 6\<rparr>" "[7]" "[]"] by simp

text \<open>
  A sync packet of the RAOP sender reaches the receiver's control port unchanged: the
  receiver reads exactly the extension flag and the three timestamps that were encoded.
\<close>

theorem sync_packet_received:
  "parse_packet (sync_packet_encode p) =
     Some (SyncEvent \<lparr>rxs_extension = sp_extension p, rxs_rtp_timestamp = sp_rtp_timestamp p,
       rxs_ntp_timestamp = from_be (ntp_encode (sp_ntp_time p)),
       rxs_rtp_timestamp_at_ntp = sp_next_timestamp p\<rparr>)"
  by (cases p)
    (simp add: parse_packet_def parse_sync_def sync_packet_encode_def wire ntp_encode_def
      del: from_be.simps)

text \<open>
  The client's own control decoder rejects that packet: the second byte \<open>0xD4\<close> is taken
  for an NTP time announcement and the constant 7 in the sequence field for a length of 32
  bytes, so the 20-byte sync packet is reported as too small.
\<close>

theorem sync_packet_rejected_by_control_decode:
  "control_packet_decode (sync_packet_encode p) = Inl (BufferTooSmall 32 20)"
  by (cases p)
    (simp add: control_packet_decode_def sync_packet_encode_def wire ntp_encode_def
      del: from_be.simps)

text \<open>
  A retransmit request written by \<open>RetransmitRequest::encode\<close> is read by the receiver's
  control port as a request for no packets from sequence number 0, whatever was requested:
  the encoder places its fields after a twelve-byte header, the parser reads bytes 4 to 7.
\<close>

theorem retransmit_request_misread:
  "parse_packet (retransmit_request_encode r ssrc) = Some (RetransmitEvent 0 0)"
  by (simp add: parse_packet_def parse_retransmit_def retransmit_request_encode_def wire)

end
