(* ===== verification/Packet_Buffer.thy ===== *)
theory Packet_Buffer
  imports Interfaces
begin

text \<open>
  Retransmission support, \<open>src/protocol/rtp/packet_buffer.rs\<close>: the buffer of recently sent
  packets with its range query, and the loss detector of the receiving side. Sequence
  numbers are 16-bit words; their order is the one of the wrapping difference.
\<close>

section \<open>Data and operations\<close>

record buffered_packet =
  bp_sequence :: u16
  bp_timestamp :: u32
  bp_data :: bytes

record packet_buffer =
  pb_max_size :: nat
  pb_packets :: "buffered_packet list"

definition PACKET_BUFFER_DEFAULT_SIZE :: nat where
  "PACKET_BUFFER_DEFAULT_SIZE = 128"

definition packet_buffer_new :: "nat \<Rightarrow> packet_buffer" where
  "packet_buffer_new max_size = \<lparr>pb_max_size = max_size, pb_packets = []\<rparr>"

text \<open>\<open>pop_front\<close> on an empty deque does nothing, as \<open>tl\<close> on an empty list.\<close>

definition packet_buffer_push :: "packet_buffer \<Rightarrow> buffered_packet \<Rightarrow> packet_buffer" where
  "packet_buffer_push b p =
     (let ps = (if length (pb_packets b) \<ge> pb_max_size b then tl (pb_packets b) else pb_packets b)
      in b\<lparr>pb_packets := ps @ [p]\<rparr>)"

definition packet_buffer_get :: "packet_buffer \<Rightarrow> u16 \<Rightarrow> buffered_packet option" where
  "packet_buffer_get b sequence = find (\<lambda>p. bp_sequence p = sequence) (pb_packets b)"

text \<open>
  \<open>get_range\<close> walks the buffer once with a cursor into the requested sequence numbers: the
  \<open>while\<close> loop of the closure drops the requests that the current packet has passed.
\<close>

fun skip_passed :: "u16 \<Rightarrow> u16 list \<Rightarrow> u16 list" where
  "skip_passed s [] = []"
| "skip_passed s (q # qs) =
     (let diff = s - q in if diff > 0 \<and> diff < 0x8000 then skip_passed s qs else q # qs)"

fun range_filter :: "buffered_packet list \<Rightarrow> u16 list \<Rightarrow> buffered_packet list" where
  "range_filter [] qs = []"
| "range_filter (p # ps) qs =
     (case skip_passed (bp_sequence p) qs of
        [] \<Rightarrow> range_filter ps []
      | q # qs' \<Rightarrow> if bp_sequence p = q then p # range_filter ps qs' else range_filter ps (q # qs'))"

definition packet_buffer_get_range :: "packet_buffer \<Rightarrow> u16 \<Rightarrow> u16 \<Rightarrow> buffered_packet list" where
  "packet_buffer_get_range b start count =
     range_filter (pb_packets b) (map (\<lambda>i. start + word_of_nat i) [0..<unat count])"

definition packet_buffer_clear :: "packet_buffer \<Rightarrow> packet_buffer" where
  "packet_buffer_clear b = b\<lparr>pb_packets := []\<rparr>"

definition packet_buffer_len :: "packet_buffer \<Rightarrow> nat" where
  "packet_buffer_len b = length (pb_packets b)"

definition packet_buffer_is_empty :: "packet_buffer \<Rightarrow> bool" where
  "packet_buffer_is_empty b \<longleftrightarrow> pb_packets b = []"

definition packet_buffer_sequence_range :: "packet_buffer \<Rightarrow> (u16 \<times> u16) option" where
  "packet_buffer_sequence_range b =
     (if pb_packets b = [] then None
      else Some (bp_sequence (hd (pb_packets b)), bp_sequence (last (pb_packets b))))"

record packet_loss_detector =
  pld_expected_seq :: u16
  pld_first_received :: bool

definition packet_loss_detector_new :: packet_loss_detector where
  "packet_loss_detector_new = \<lparr>pld_expected_seq = 0, pld_first_received = False\<rparr>"

definition packet_loss_detector_process ::
    "packet_loss_detector \<Rightarrow> u16 \<Rightarrow> packet_loss_detector \<times> u16 list" where
  "packet_loss_detector_process d sequence =
     (if \<not> pld_first_received d
      then (d\<lparr>pld_first_received := True, pld_expected_seq := sequence + 1\<rparr>, [])
      else let diff = sequence - pld_expected_seq d in
      if diff \<ge> 0x8000 then (d, [])
      else let missing = (if diff > 0 \<and> diff < 100
                          then map (\<lambda>i. pld_expected_seq d + word_of_nat i) [0..<unat diff] else [])
      in (d\<lparr>pld_expected_seq := sequence + 1\<rparr>, missing))"

definition packet_loss_detector_reset :: "packet_loss_detector \<Rightarrow> packet_loss_detector" where
  "packet_loss_detector_reset d = d\<lparr>pld_first_received := False, pld_expected_seq := 0\<rparr>"

section \<open>The buffer keeps the most recent packets\<close>

definition packet_buffer_ok :: "packet_buffer \<Rightarrow> bool" where
  "packet_buffer_ok b \<longleftrightarrow> length (pb_packets b) \<le> max 1 (pb_max_size b)"

text \<open>A capacity of zero still holds one packet: the packet is pushed after the eviction.\<close>

interpretation pbuf: recent_window packet_buffer_push pb_packets "\<lambda>b. max 1 (pb_max_size b)" packet_buffer_ok
proof unfold_locales
  fix b p assume ok: "packet_buffer_ok b"
  show "pb_packets (packet_buffer_push b p) = last_n (max 1 (pb_max_size b)) (pb_packets b @ [p])"
    using ok by (auto simp: packet_buffer_ok_def packet_buffer_push_def last_n_snoc max_def)
  show "packet_buffer_ok (packet_buffer_push b p)"
    using ok by (auto simp: packet_buffer_ok_def packet_buffer_push_def max_def)
qed (simp_all add: packet_buffer_ok_def packet_buffer_push_def)

lemma packet_buffer_new_ok [simp]: "packet_buffer_ok (packet_buffer_new n)"
  by (simp add: packet_buffer_ok_def packet_buffer_new_def)

lemma find_SomeI:
  assumes "x \<in> set xs" and "P x" and "\<And>y. y \<in> set xs \<Longrightarrow> P y \<Longrightarrow> y = x"
  shows "find P xs = Some x"
proof (cases "find P xs")
  case None
  with assms(1,2) show ?thesis by (simp add: find_None_iff)
next
  case (Some y)
  then have "y \<in> set xs" and "P y" by (auto simp: find_Some_iff)
  with assms(3) Some show ?thesis by simp
qed

section \<open>Wrapping sequence numbers\<close>

text \<open>Words that are casts of integers closer than half the range compare as the integers do.\<close>

lemma u16_ahead_iff:
  fixes x :: int
  assumes "\<bar>x\<bar> < 32768"
  shows "(0 < (word_of_int x :: u16) \<and> (word_of_int x :: u16) < 0x8000) \<longleftrightarrow> 0 < x"
proof -
  have u: "uint (word_of_int x :: u16) = x mod 65536" by (simp add: uint_word_of_int)
  show ?thesis
  proof (cases "0 \<le> x")
    case True
    then have "x mod 65536 = x" using assms by simp
    then show ?thesis using True assms by (simp add: word_less_def u)
  next
    case False
    have "x mod 65536 = (x + 65536) mod 65536" by simp
    also have "\<dots> = x + 65536" using False assms by (intro mod_pos_pos_trivial) simp_all
    finally have "x mod 65536 = x + 65536" .
    then show ?thesis using False assms by (simp add: word_less_def u)
  qed
qed

lemma u16_eq_iff:
  fixes x y :: int
  assumes "\<bar>x - y\<bar> < 32768"
  shows "(word_of_int x :: u16) = word_of_int y \<longleftrightarrow> x = y"
proof
  assume "(word_of_int x :: u16) = word_of_int y"
  then have "take_bit 16 x = take_bit 16 y" by (simp add: word_of_int_eq_iff)
  then have "(x - y) mod 65536 = 0" by (simp add: take_bit_eq_mod mod_eq_dvd_iff)
  then obtain k where "x - y = 65536 * k" by (metis mod_0_imp_dvd dvd_def)
  then show "x = y" using assms by (cases "k = 0") (auto simp: abs_mult)
qed simp

text \<open>The requested numbers, as casts of consecutive integers.\<close>

definition seqs_from :: "int \<Rightarrow> nat \<Rightarrow> u16 list" where
  "seqs_from s c = map (\<lambda>i. word_of_int (s + int i)) [0..<c]"

lemma seqs_from_0 [simp]: "seqs_from s 0 = []"
  by (simp add: seqs_from_def)

lemma seqs_from_Suc [simp]: "seqs_from s (Suc c) = word_of_int s # seqs_from (s + 1) c"
  by (simp add: seqs_from_def upt_conv_Cons map_Suc_upt [symmetric] algebra_simps del: upt_Suc)

text \<open>The cursor skips exactly the requested numbers before the position of the packet.\<close>

lemma skip_passed_seqs:
  assumes "\<forall>i<c. \<bar>x - (s + int i)\<bar> < 32768"
  shows "skip_passed (word_of_int x) (seqs_from s c) =
    (if x \<le> s then seqs_from s c
     else if s + int c \<le> x then []
     else seqs_from x (nat (s + int c - x)))"
  using assms
proof (induction c arbitrary: s)
  case 0
  then show ?case by simp
next
  case (Suc c)
  have b: "\<bar>x - s\<bar> < 32768" using Suc.prems by force
  have "\<forall>i<c. \<bar>x - (s + 1 + int i)\<bar> < 32768"
  proof (intro allI impI)
    fix i assume "i < c"
    then show "\<bar>x - (s + 1 + int i)\<bar> < 32768" using Suc.prems [rule_format, of "Suc i"] by simp
  qed
  note IH = Suc.IH [OF this]
  have ahead: "(0 < (word_of_int x - word_of_int s :: u16) \<and> word_of_int x - word_of_int s < (0x8000 :: u16)) \<longleftrightarrow> 0 < x - s"
    unfolding wi_hom_sub using u16_ahead_iff [OF b] .
  have step: "skip_passed (word_of_int x) (seqs_from s (Suc c)) =
      (if 0 < x - s then skip_passed (word_of_int x) (seqs_from (s + 1) c) else seqs_from s (Suc c))"
    unfolding seqs_from_Suc skip_passed.simps Let_def ahead ..
  consider "x \<le> s" | "x = s + 1" | "s + 1 < x" by linarith
  then show ?case
  proof cases
    case 2
    then have "nat (s + int (Suc c) - x) = c" by simp
    with 2 show ?thesis unfolding step IH by auto
  next
    case 3
    then show ?thesis unfolding step IH by (simp add: algebra_simps)
  qed (simp only: step, simp)
qed

text \<open>
  The range query on packets whose sequence numbers are the casts of increasing positions
  \<open>pos p\<close>, none of them half the range away from a requested number.
\<close>

lemma range_filter_seqs:
  assumes "sorted_wrt (\<lambda>p q. pos p < pos q) ps"
    and "\<forall>p\<in>set ps. bp_sequence p = word_of_int (pos p) \<and> (\<forall>i<c. \<bar>pos p - (s + int i)\<bar> < 32768)"
  shows "range_filter ps (seqs_from s c) = filter (\<lambda>p. s \<le> pos p \<and> pos p < s + int c) ps"
  using assms
proof (induction ps arbitrary: s c)
  case Nil
  then show ?case by simp
next
  case (Cons p ps)
  let ?x = "pos p"
  have p: "bp_sequence p = word_of_int ?x" and b: "\<forall>i<c. \<bar>?x - (s + int i)\<bar> < 32768"
    using Cons.prems(2) by auto
  have later: "\<forall>q\<in>set ps. ?x < pos q" and srt: "sorted_wrt (\<lambda>p q. pos p < pos q) ps"
    using Cons.prems(1) by auto
  have IH: "range_filter ps (seqs_from s' c') = filter (\<lambda>p. s' \<le> pos p \<and> pos p < s' + int c') ps"
    if "s \<le> s'" "s' + int c' \<le> s + int c" for s' c'
  proof (rule Cons.IH [OF srt], intro ballI conjI allI impI)
    fix q i assume "q \<in> set ps"
    then show "bp_sequence q = word_of_int (pos q)" using Cons.prems(2) by simp
    assume "i < c'"
    then have "nat (s' - s) + i < c" using that by linarith
    then have "\<bar>pos q - (s + int (nat (s' - s) + i))\<bar> < 32768"
      using Cons.prems(2) \<open>q \<in> set ps\<close> by (meson list.set_intros(2))
    then show "\<bar>pos q - (s' + int i)\<bar> < 32768" using that by simp
  qed
  note skip = skip_passed_seqs [OF b]
  consider "c = 0" | "0 < c" "?x < s" | "s + int c \<le> ?x" "0 < c" | "s \<le> ?x" "?x < s + int c" by linarith
  then show ?case
  proof cases
    case 1
    then show ?thesis using IH [of s 0] by simp
  next
    case 2
    then obtain k where k: "c = Suc k" by (cases c) auto
    have "(word_of_int ?x :: u16) \<noteq> word_of_int s"
      using u16_eq_iff [of ?x s] b 2 by force
    then have "range_filter (p # ps) (seqs_from s c) = range_filter ps (seqs_from s c)"
      unfolding range_filter.simps p skip using 2 by (simp add: k)
    then show ?thesis using 2 IH [of s c] by simp
  next
    case 3
    have "range_filter (p # ps) (seqs_from s c) = range_filter ps (seqs_from s 0)"
      unfolding range_filter.simps p skip using 3 by simp
    moreover have "filter (\<lambda>p. s \<le> pos p \<and> pos p < s + int c) ps = []"
      using 3 later by (fastforce simp: filter_empty_conv)
    ultimately show ?thesis using 3 IH [of s 0] by simp
  next
    case 4
    define k where "k = nat (s + int c - ?x) - 1"
    have k: "nat (s + int c - ?x) = Suc k" and kc: "?x + 1 + int k = s + int c"
      using 4 by (simp_all add: k_def)
    have "skip_passed (word_of_int ?x) (seqs_from s c) = word_of_int ?x # seqs_from (?x + 1) k"
    proof -
      show ?thesis
      proof (cases "?x = s")
        case True
        then have "c = Suc k" using 4 k by simp
        with True show ?thesis unfolding skip by simp
      next
        case False
        then show ?thesis unfolding skip using 4 by (simp add: k)
      qed
    qed
    then have "range_filter (p # ps) (seqs_from s c) = p # range_filter ps (seqs_from (?x + 1) k)"
      by (simp add: p)
    also have "range_filter ps (seqs_from (?x + 1) k) = filter (\<lambda>q. ?x + 1 \<le> pos q \<and> pos q < s + int c) ps"
      using IH [of "?x + 1" k] 4 kc by simp
    also have "\<dots> = filter (\<lambda>q. s \<le> pos q \<and> pos q < s + int c) ps"
      using later 4 by (intro filter_cong) auto
    finally show ?thesis using 4 by simp
  qed
qed

section \<open>Loss detection\<close>

lemma word_of_nat_upt_less:
  "(\<lambda>i. e + word_of_nat i) ` {0..<unat d} = {x :: u16. x - e < d}"
proof
  show "(\<lambda>i. e + word_of_nat i) ` {0..<unat d} \<subseteq> {x. x - e < d}"
    by (auto simp: word_less_nat_alt unat_of_nat take_bit_nat_eq_self_iff
        intro: order_le_less_trans [OF mod_less_eq_dividend] simp flip: take_bit_eq_mod)
  show "{x. x - e < d} \<subseteq> (\<lambda>i. e + word_of_nat i) ` {0..<unat d}"
  proof
    fix x assume "x \<in> {x. x - e < d}"
    then have "unat (x - e) \<in> {0..<unat d}" and "x = e + word_of_nat (unat (x - e))"
      by (simp_all add: word_less_nat_alt)
    then show "x \<in> (\<lambda>i. e + word_of_nat i) ` {0..<unat d}" by blast
  qed
qed

section \<open>Properties\<close>

text \<open>
  However many packets are sent, the retransmission buffer holds exactly the most recent
  ones, in sending order: the last \<open>max_size\<close> of them (one, when the size is zero).
\<close>

theorem packet_buffer_keeps_recent:
  "pb_packets (foldl packet_buffer_push (packet_buffer_new n) ps) = last_n (max 1 n) ps"
  using pbuf.run_held [of "packet_buffer_new n" ps] packet_buffer_new_ok
  by (simp add: packet_buffer_new_def)

text \<open>
  C20. A retransmission range is answered exactly: for buffered packets whose sequence numbers
  are the 16-bit casts of increasing positions, the query for \<open>count\<close> numbers from position
  \<open>s\<close> returns precisely the buffered packets at these positions, in order, also across the
  wrap-around, as long as no buffered packet is half the number range away from a requested
  one.
\<close>

theorem packet_buffer_get_range_exact:
  assumes "sorted_wrt (\<lambda>p q. pos p < pos q) (pb_packets b)"
    and "\<forall>p\<in>set (pb_packets b). bp_sequence p = word_of_int (pos p)"
    and "\<forall>p\<in>set (pb_packets b). \<forall>i<unat count. \<bar>pos p - (s + int i)\<bar> < 32768"
  shows "packet_buffer_get_range b (word_of_int s) count =
    filter (\<lambda>p. s \<le> pos p \<and> pos p < s + int (unat count)) (pb_packets b)"
proof -
  have "map (\<lambda>i. word_of_int s + word_of_nat i) [0..<unat count] = seqs_from s (unat count)"
    by (simp add: seqs_from_def)
  moreover have "range_filter (pb_packets b) (seqs_from s (unat count)) =
      filter (\<lambda>p. s \<le> pos p \<and> pos p < s + int (unat count)) (pb_packets b)"
    using assms by (intro range_filter_seqs) auto
  ultimately show ?thesis by (simp add: packet_buffer_get_range_def)
qed

definition example_sent :: "u16 list \<Rightarrow> packet_buffer" where
  "example_sent ss = \<lparr>pb_max_size = 128,
     pb_packets = map (\<lambda>s. \<lparr>bp_sequence = s, bp_timestamp = 0, bp_data = []\<rparr>) ss\<rparr>"

definition example_pos :: "buffered_packet \<Rightarrow> int" where
  "example_pos p = (if bp_sequence p < 10 then uint (bp_sequence p) + 65536 else uint (bp_sequence p))"

theorem packet_buffer_get_range_exact_witness:
  "packet_buffer_get_range (example_sent [65534, 65535, 0, 1]) (word_of_int 65535) 2 =
     filter (\<lambda>p. 65535 \<le> example_pos p \<and> example_pos p < 65535 + int (unat (2 :: u16)))
       (pb_packets (example_sent [65534, 65535, 0, 1]))"
proof (rule packet_buffer_get_range_exact [where pos = example_pos])
  show "\<forall>p\<in>set (pb_packets (example_sent [65534, 65535, 0, 1])).
      \<forall>i<unat (2 :: u16). \<bar>example_pos p - (65535 + int i)\<bar> < 32768"
    by (auto simp: example_sent_def example_pos_def)
qed (simp_all add: example_sent_def example_pos_def)

text \<open>
  The loss detector reports exactly the sequence numbers between the expected one and the
  received one, each once, when fewer than 100 are missing, and then expects the successor.
  A packet from behind the expected number reports nothing and leaves the detector as it is.
\<close>

theorem packet_loss_detector_reports_gap:
  assumes "pld_first_received d"
  shows "(sequence - pld_expected_seq d < 100 \<longrightarrow>
      set (snd (packet_loss_detector_process d sequence)) = {x. x - pld_expected_seq d < sequence - pld_expected_seq d}
      \<and> length (snd (packet_loss_detector_process d sequence)) = unat (sequence - pld_expected_seq d)
      \<and> pld_expected_seq (fst (packet_loss_detector_process d sequence)) = sequence + 1)
    \<and> (0x8000 \<le> sequence - pld_expected_seq d \<longrightarrow> packet_loss_detector_process d sequence = (d, []))"
proof (intro conjI impI)
  let ?diff = "sequence - pld_expected_seq d"
  let ?ms = "map (\<lambda>i. pld_expected_seq d + word_of_nat i) [0..<unat ?diff]"
  assume diff: "?diff < 100"
  then have "\<not> 0x8000 \<le> ?diff" by (simp add: word_less_nat_alt word_le_nat_alt)
  moreover have "(if 0 < ?diff \<and> ?diff < 100 then ?ms else []) = ?ms"
    using diff by (auto simp: word_less_nat_alt)
  ultimately have "packet_loss_detector_process d sequence = (d\<lparr>pld_expected_seq := sequence + 1\<rparr>, ?ms)"
    using assms by (simp add: packet_loss_detector_process_def Let_def)
  then show "set (snd (packet_loss_detector_process d sequence)) = {x. x - pld_expected_seq d < ?diff}"
    and "length (snd (packet_loss_detector_process d sequence)) = unat ?diff"
    and "pld_expected_seq (fst (packet_loss_detector_process d sequence)) = sequence + 1"
    using word_of_nat_upt_less [of "pld_expected_seq d" ?diff] by simp_all
qed (use assms in \<open>simp add: packet_loss_detector_process_def\<close>)

theorem packet_loss_detector_reports_gap_witness:
  "snd (packet_loss_detector_process \<lparr>pld_expected_seq = 65535, pld_first_received = True\<rparr> 1) \<noteq> []
   \<and> set (snd (packet_loss_detector_process \<lparr>pld_expected_seq = 65535, pld_first_received = True\<rparr> 1))
       = {x. x - 65535 < 1 - 65535}"
  using packet_loss_detector_reports_gap
    [of "\<lparr>pld_expected_seq = 65535, pld_first_received = True\<rparr>" 1]
  by (auto simp: packet_loss_detector_process_def)

end
