(* ===== verification/Sequence_Tracker.thy ===== *)
theory Sequence_Tracker
  imports Packet_Buffer
begin

text \<open>
  Receiver-side loss statistics, \<open>src/receiver/sequence_tracker.rs\<close>: the expected sequence
  number, a bounded history of gaps and three counters. The counters are \<open>u64\<close> in the code,
  incremented once per packet, and natural numbers here. Instants are natural numbers; the
  floating-point loss ratio is left out.
\<close>

section \<open>Data and operations\<close>

record gap_info =
  gi_start :: u16
  gi_count :: u16
  gi_detected_at :: nat

record sequence_tracker =
  st_last_seq :: "u16 option"
  st_expected_seq :: "u16 option"
  st_recent_gaps :: "gap_info list"
  st_max_history :: nat
  st_packets_received :: nat
  st_total_gaps :: nat
  st_total_lost :: nat

definition sequence_tracker_new :: sequence_tracker where
  "sequence_tracker_new =
     \<lparr>st_last_seq = None, st_expected_seq = None, st_recent_gaps = [], st_max_history = 100,
      st_packets_received = 0, st_total_gaps = 0, st_total_lost = 0\<rparr>"

definition sequence_gap :: "u16 \<Rightarrow> u16 \<Rightarrow> u16" where
  "sequence_gap expected actual = actual - expected"

text \<open>The history update of \<open>record\<close>: drop the oldest gap when full, then append.\<close>

definition push_gap :: "sequence_tracker \<Rightarrow> gap_info \<Rightarrow> sequence_tracker" where
  "push_gap t g =
     (let gaps = (if length (st_recent_gaps t) \<ge> st_max_history t then tl (st_recent_gaps t)
                  else st_recent_gaps t)
      in t\<lparr>st_recent_gaps := gaps @ [g]\<rparr>)"

definition sequence_tracker_record ::
    "sequence_tracker \<Rightarrow> u16 \<Rightarrow> nat \<Rightarrow> sequence_tracker \<times> gap_info option" where
  "sequence_tracker_record t seq now =
     (let t1 = t\<lparr>st_packets_received := st_packets_received t + 1\<rparr>;
          (t2, gap) =
            (case st_expected_seq t1 of
               None \<Rightarrow> (t1, None)
             | Some expected \<Rightarrow>
                 let gap_size = sequence_gap expected seq in
                 if gap_size > 0 \<and> gap_size < 1000 then
                   let gap_info = \<lparr>gi_start = expected, gi_count = gap_size, gi_detected_at = now\<rparr>;
                       t' = t1\<lparr>st_total_gaps := st_total_gaps t1 + 1,
                               st_total_lost := st_total_lost t1 + unat gap_size\<rparr>
                   in (push_gap t' gap_info, Some gap_info)
                 else (t1, None))
      in (t2\<lparr>st_last_seq := Some seq, st_expected_seq := Some (seq + 1)\<rparr>, gap))"

definition sequence_tracker_is_expected :: "sequence_tracker \<Rightarrow> u16 \<Rightarrow> bool" where
  "sequence_tracker_is_expected t seq =
     (case st_expected_seq t of
        Some expected \<Rightarrow> (let diff = seq - expected in \<not> (1000 \<le> diff \<and> diff \<le> 65000))
      | None \<Rightarrow> True)"

definition sequence_tracker_reset :: "sequence_tracker \<Rightarrow> sequence_tracker" where
  "sequence_tracker_reset t =
     t\<lparr>st_last_seq := None, st_expected_seq := None, st_recent_gaps := [],
       st_packets_received := 0, st_total_gaps := 0, st_total_lost := 0\<rparr>"

section \<open>Correctness\<close>

definition sequence_tracker_ok :: "sequence_tracker \<Rightarrow> bool" where
  "sequence_tracker_ok t \<longleftrightarrow> length (st_recent_gaps t) \<le> max 1 (st_max_history t)"

interpretation gaps: recent_window push_gap st_recent_gaps "\<lambda>t. max 1 (st_max_history t)" sequence_tracker_ok
proof unfold_locales
  fix t g assume ok: "sequence_tracker_ok t"
  show "st_recent_gaps (push_gap t g) = last_n (max 1 (st_max_history t)) (st_recent_gaps t @ [g])"
    using ok by (auto simp: sequence_tracker_ok_def push_gap_def last_n_snoc max_def)
  show "sequence_tracker_ok (push_gap t g)"
    using ok by (auto simp: sequence_tracker_ok_def push_gap_def max_def)
qed (simp_all add: sequence_tracker_ok_def push_gap_def)

lemma sequence_tracker_ok_update [simp]:
  "sequence_tracker_ok (t\<lparr>st_packets_received := n\<rparr>) = sequence_tracker_ok t"
  "sequence_tracker_ok (t\<lparr>st_total_gaps := n\<rparr>) = sequence_tracker_ok t"
  "sequence_tracker_ok (t\<lparr>st_total_lost := n\<rparr>) = sequence_tracker_ok t"
  "sequence_tracker_ok (t\<lparr>st_last_seq := x\<rparr>) = sequence_tracker_ok t"
  "sequence_tracker_ok (t\<lparr>st_expected_seq := x\<rparr>) = sequence_tracker_ok t"
  by (simp_all add: sequence_tracker_ok_def)

lemma sequence_tracker_record_ok:
  "sequence_tracker_ok t \<Longrightarrow> sequence_tracker_ok (fst (sequence_tracker_record t seq now))"
  by (auto simp: sequence_tracker_record_def Let_def gaps.ok_push split: option.splits)

lemma push_gap_frame [simp]:
  "st_packets_received (push_gap t g) = st_packets_received t"
  "st_total_lost (push_gap t g) = st_total_lost t"
  "st_total_gaps (push_gap t g) = st_total_gaps t"
  by (simp_all add: push_gap_def)

lemma sequence_tracker_record_expected [simp]:
  "st_expected_seq (fst (sequence_tracker_record t seq now)) = Some (seq + 1)"
  by (simp add: sequence_tracker_record_def Let_def split: option.splits prod.splits)

lemma sequence_tracker_record_received [simp]:
  "st_packets_received (fst (sequence_tracker_record t seq now)) = st_packets_received t + 1"
  by (auto simp: sequence_tracker_record_def Let_def split: option.splits)

lemma sequence_tracker_record_lost:
  assumes "st_expected_seq t = Some e"
  shows "st_total_lost (fst (sequence_tracker_record t seq now)) =
    st_total_lost t + (if seq - e < 1000 then unat (seq - e) else 0)"
  using assms by (auto simp: sequence_tracker_record_def Let_def sequence_gap_def word_less_nat_alt)

text \<open>The tracker over a stream of sequence numbers.\<close>

definition tracker_run :: "sequence_tracker \<Rightarrow> u16 list \<Rightarrow> nat \<Rightarrow> sequence_tracker" where
  "tracker_run t seqs now = foldl (\<lambda>t s. fst (sequence_tracker_record t s now)) t seqs"

text \<open>Positions received in order, none more than 1000 ahead of the expected one.\<close>

fun in_order_from :: "int \<Rightarrow> int list \<Rightarrow> bool" where
  "in_order_from e [] = True"
| "in_order_from e (x # xs) \<longleftrightarrow> e \<le> x \<and> x - e < 1000 \<and> in_order_from (x + 1) xs"

lemma unat_small_diff:
  assumes "0 \<le> d" and "d < 1000"
  shows "unat (word_of_int d :: u16) = nat d"
proof -
  have "uint (word_of_int d :: u16) = d" using assms by (simp add: uint_word_of_int)
  then show ?thesis by (simp add: unat_eq_nat_uint)
qed

lemma tracker_run_in_order:
  assumes "st_expected_seq t = Some (word_of_int e)" and "in_order_from e xs"
  shows "int (st_total_lost (tracker_run t (map word_of_int xs) now))
      + int (st_packets_received (tracker_run t (map word_of_int xs) now))
    = int (st_total_lost t) + int (st_packets_received t) + ((if xs = [] then e else last xs + 1) - e)"
  using assms
proof (induction xs arbitrary: t e)
  case Nil
  then show ?case by (simp add: tracker_run_def)
next
  case (Cons x xs)
  let ?t = "fst (sequence_tracker_record t (word_of_int x) now)"
  have d: "0 \<le> x - e" "x - e < 1000" and io: "in_order_from (x + 1) xs" using Cons.prems(2) by auto
  have "unat (word_of_int x - word_of_int e :: u16) = nat (x - e)"
    unfolding wi_hom_sub using unat_small_diff [OF d] .
  then have lost: "st_total_lost ?t = st_total_lost t + nat (x - e)"
    using sequence_tracker_record_lost [OF Cons.prems(1)] d by (simp add: word_less_nat_alt)
  have "st_expected_seq ?t = Some (word_of_int (x + 1))" by simp
  from Cons.IH [OF this io] lost d show ?case by (simp add: tracker_run_def)
qed

section \<open>Properties\<close>

text \<open>
  On an in-order stream with gaps below 1000, starting from a fresh tracker, received and
  lost packets add up to the span of the stream: the loss counter is exactly the number of
  positions that did not arrive, also across the wrap-around of the 16-bit numbers.
\<close>

theorem sequence_tracker_counts_losses:
  assumes "in_order_from (x + 1) xs"
  shows "st_packets_received (tracker_run sequence_tracker_new (map word_of_int (x # xs)) now) = length (x # xs)
    \<and> int (st_total_lost (tracker_run sequence_tracker_new (map word_of_int (x # xs)) now))
        = last (x # xs) - x + 1 - int (length (x # xs))"
proof -
  let ?t = "fst (sequence_tracker_record sequence_tracker_new (word_of_int x) now)"
  have "st_packets_received (tracker_run t ss now) = st_packets_received t + length ss" for t ss
    by (induction ss arbitrary: t) (simp_all add: tracker_run_def)
  then have r: "st_packets_received (tracker_run ?t (map word_of_int xs) now) = 1 + length xs"
    by (simp add: sequence_tracker_new_def)
  have e: "st_expected_seq ?t = Some (word_of_int (x + 1))" by simp
  have run: "tracker_run sequence_tracker_new (map word_of_int (x # xs)) now = tracker_run ?t (map word_of_int xs) now"
    by (simp add: tracker_run_def)
  have l: "st_total_lost ?t = 0" by (simp add: sequence_tracker_record_def sequence_tracker_new_def)
  show ?thesis
    unfolding run using tracker_run_in_order [OF e assms, of now] r l
    by (cases "xs = []") (simp_all add: sequence_tracker_new_def)
qed

theorem sequence_tracker_counts_losses_witness:
  "st_packets_received (tracker_run sequence_tracker_new (map word_of_int [65534, 65537, 65538]) 0) = length [65534 :: int, 65537, 65538]
   \<and> int (st_total_lost (tracker_run sequence_tracker_new (map word_of_int [65534, 65537, 65538]) 0))
        = last [65534, 65537, 65538] - 65534 + 1 - int (length [65534 :: int, 65537, 65538])"
  by (rule sequence_tracker_counts_losses) simp

text \<open>
  Two packets that arrive in swapped order make the tracker count two losses although all
  four packets of the run arrived: the late packet moves the expected number backwards, so
  the packet after it is taken for a gap.
\<close>

theorem sequence_tracker_reordering_counts_losses:
  "st_packets_received (tracker_run sequence_tracker_new [n, n + 2, n + 1, n + 3] now) = 4
   \<and> st_total_lost (tracker_run sequence_tracker_new [n, n + 2, n + 1, n + 3] now) = 2"
proof -
  have d: "n + 2 - (n + 1) = (1 :: u16)" "n + 1 - (n + 2 + 1) = (- 2 :: u16)" "n + 3 - (n + 1 + 1) = (1 :: u16)"
    by (simp_all add: algebra_simps)
  show ?thesis
    by (simp add: tracker_run_def sequence_tracker_record_lost d)
      (simp add: sequence_tracker_record_def sequence_tracker_new_def)
qed

end
