(* ===== verification/Tlv8.thy ===== *)
theory Tlv8
  imports Prelude
begin

text \<open>
  The TLV8 encoding of the HomeKit pairing messages, \<open>src/protocol/pairing/tlv.rs\<close>: type
  codes, the encoder that splits long values into fragments of at most 255 bytes, and the
  decoder that joins the fragments of each type again.
\<close>

section \<open>Data\<close>

datatype tlv_type =
    Method | Identifier | Salt | PublicKey | Proof | EncryptedData | State | ErrorT
  | RetryDelay | Certificate | Signature | Permissions | FragmentData | FragmentLast
  | SessionID | Flags | Separator

fun tlv_type_byte :: "tlv_type \<Rightarrow> u8" where
  "tlv_type_byte Method = 0x00"
| "tlv_type_byte Identifier = 0x01"
| "tlv_type_byte Salt = 0x02"
| "tlv_type_byte PublicKey = 0x03"
| "tlv_type_byte Proof = 0x04"
| "tlv_type_byte EncryptedData = 0x05"
| "tlv_type_byte State = 0x06"
| "tlv_type_byte ErrorT = 0x07"
| "tlv_type_byte RetryDelay = 0x08"
| "tlv_type_byte Certificate = 0x09"
| "tlv_type_byte Signature = 0x0A"
| "tlv_type_byte Permissions = 0x0B"
| "tlv_type_byte FragmentData = 0x0C"
| "tlv_type_byte FragmentLast = 0x0D"
| "tlv_type_byte SessionID = 0x0E"
| "tlv_type_byte Flags = 0x13"
| "tlv_type_byte Separator = 0xFF"

definition tlv_type_from_byte :: "u8 \<Rightarrow> tlv_type option" where
  "tlv_type_from_byte b =
     (if b = 0x00 then Some Method
      else if b = 0x01 then Some Identifier
      else if b = 0x02 then Some Salt
      else if b = 0x03 then Some PublicKey
      else if b = 0x04 then Some Proof
      else if b = 0x05 then Some EncryptedData
      else if b = 0x06 then Some State
      else if b = 0x07 then Some ErrorT
      else if b = 0x08 then Some RetryDelay
      else if b = 0x09 then Some Certificate
      else if b = 0x0A then Some Signature
      else if b = 0x0B then Some Permissions
      else if b = 0x0C then Some FragmentData
      else if b = 0x0D then Some FragmentLast
      else if b = 0x0E then Some SessionID
      else if b = 0x13 then Some Flags
      else if b = 0xFF then Some Separator
      else None)"

datatype tlv_error =
    TlvBufferTooSmall
  | InvalidStructure
  | UnknownType u8
  | MissingField tlv_type
  | InvalidValue tlv_type

type_synonym tlv_items = "u8 \<rightharpoonup> bytes"

section \<open>Encoder\<close>

definition tlv_fragment :: "tlv_type \<Rightarrow> bytes \<Rightarrow> bytes" where
  "tlv_fragment t chunk = [tlv_type_byte t, word_of_nat (length chunk)] @ chunk"

definition tlv_encoder_add :: "bytes \<Rightarrow> tlv_type \<Rightarrow> bytes \<Rightarrow> bytes" where
  "tlv_encoder_add buffer t value =
     buffer @ concat (map (tlv_fragment t) (chunks 255 value))
     @ (if value = [] then [tlv_type_byte t, 0] else [])"

definition tlv_encoder_add_byte :: "bytes \<Rightarrow> tlv_type \<Rightarrow> u8 \<Rightarrow> bytes" where
  "tlv_encoder_add_byte buffer t value = tlv_encoder_add buffer t [value]"

definition tlv_encoder_add_state :: "bytes \<Rightarrow> u8 \<Rightarrow> bytes" where
  "tlv_encoder_add_state buffer state = tlv_encoder_add_byte buffer State state"

definition tlv_encoder_add_method :: "bytes \<Rightarrow> u8 \<Rightarrow> bytes" where
  "tlv_encoder_add_method buffer method = tlv_encoder_add_byte buffer Method method"

text \<open>A chain of \<open>add\<close> calls on a new encoder, and \<open>build\<close>.\<close>

definition tlv_encode :: "(tlv_type \<times> bytes) list \<Rightarrow> bytes" where
  "tlv_encode items = foldl (\<lambda>buffer (t, v). tlv_encoder_add buffer t v) [] items"

section \<open>Decoder\<close>

text \<open>
  The loop of \<open>TlvDecoder::decode\<close> over the bytes from \<open>pos\<close> on, with the map of items: the
  entry of the type is extended, or created empty and extended.
\<close>

fun tlv_decode_loop :: "bytes \<Rightarrow> tlv_items \<Rightarrow> (tlv_error, tlv_items) result" where
  "tlv_decode_loop [] items = Inr items"
| "tlv_decode_loop [t] items = Inl TlvBufferTooSmall"
| "tlv_decode_loop (t # l # rest) items =
     (if unat l > length rest then Inl TlvBufferTooSmall
      else tlv_decode_loop (drop (unat l) rest)
             (items(t \<mapsto> (case items t of None \<Rightarrow> [] | Some v \<Rightarrow> v) @ take (unat l) rest)))"

definition tlv_decode :: "bytes \<Rightarrow> (tlv_error, tlv_items) result" where
  "tlv_decode data = tlv_decode_loop data Map.empty"

definition tlv_get :: "tlv_items \<Rightarrow> tlv_type \<Rightarrow> bytes option" where
  "tlv_get items t = items (tlv_type_byte t)"

definition tlv_get_required :: "tlv_items \<Rightarrow> tlv_type \<Rightarrow> (tlv_error, bytes) result" where
  "tlv_get_required items t = ok_or (tlv_get items t) (MissingField t)"

definition tlv_get_state :: "tlv_items \<Rightarrow> (tlv_error, u8) result" where
  "tlv_get_state items =
     result_bind (tlv_get_required items State) (\<lambda>value.
       if length value \<noteq> 1 then Inl (InvalidValue State) else Inr (value ! 0))"

definition tlv_get_error :: "tlv_items \<Rightarrow> u8 option" where
  "tlv_get_error items =
     Option.bind (tlv_get items ErrorT) (\<lambda>v. case v of [] \<Rightarrow> None | b # _ \<Rightarrow> Some b)"

definition tlv_has_error :: "tlv_items \<Rightarrow> bool" where
  "tlv_has_error items \<longleftrightarrow> tlv_get items ErrorT \<noteq> None"

section \<open>Correctness\<close>

lemma tlv_type_from_to [simp]: "tlv_type_from_byte (tlv_type_byte t) = Some t"
  by (cases t) (simp_all add: tlv_type_from_byte_def)

lemma tlv_type_byte_inj [simp]: "tlv_type_byte s = tlv_type_byte t \<longleftrightarrow> s = t"
  by (metis tlv_type_from_to option.inject)

text \<open>What the items of a type hold after more bytes of that type.\<close>

definition extend :: "tlv_items \<Rightarrow> tlv_type \<Rightarrow> bytes \<Rightarrow> tlv_items" where
  "extend items t v =
     items(tlv_type_byte t \<mapsto> (case items (tlv_type_byte t) of None \<Rightarrow> [] | Some u \<Rightarrow> u) @ v)"

lemma extend_extend: "extend (extend items t u) t v = extend items t (u @ v)"
  by (simp add: extend_def)

lemma tlv_decode_fragment:
  "length c \<le> 255 \<Longrightarrow> tlv_decode_loop (tlv_fragment t c @ rest) items = tlv_decode_loop rest (extend items t c)"
  by (simp add: tlv_fragment_def extend_def unat_of_nat take_bit_nat_eq_self)

lemma tlv_decode_fragments:
  assumes "\<forall>c\<in>set cs. length c \<le> 255" and "cs \<noteq> []"
  shows "tlv_decode_loop (concat (map (tlv_fragment t) cs) @ rest) items =
    tlv_decode_loop rest (extend items t (concat cs))"
  using assms
proof (induction cs arbitrary: items)
  case (Cons c cs)
  then show ?case
    by (cases "cs = []") (simp_all add: tlv_decode_fragment extend_extend)
qed simp

lemma tlv_decode_add:
  "tlv_decode_loop (tlv_encoder_add [] t v @ rest) items = tlv_decode_loop rest (extend items t v)"
proof (cases "v = []")
  case True
  then show ?thesis
    by (simp add: tlv_encoder_add_def chunks.simps [of _ "[]"] extend_def)
next
  case False
  then have "chunks 255 v \<noteq> []" by (subst chunks.simps) simp
  with False show ?thesis
    using tlv_decode_fragments [of "chunks 255 v" t rest items] chunks_bounds [of _ 255 v]
    by (auto simp: tlv_encoder_add_def concat_chunks)
qed

lemma tlv_encoder_add_append: "tlv_encoder_add buffer t v = buffer @ tlv_encoder_add [] t v"
  by (simp add: tlv_encoder_add_def)

lemma tlv_encode_Cons: "tlv_encode ((t, v) # items) = tlv_encoder_add [] t v @ tlv_encode items"
proof -
  have "foldl (\<lambda>b (t, v). tlv_encoder_add b t v) buffer items =
      buffer @ foldl (\<lambda>b (t, v). tlv_encoder_add b t v) [] items" for buffer
  proof (induction items rule: rev_induct)
    case (snoc tv items)
    obtain t v where "tv = (t, v)" by force
    with snoc show ?case by (simp add: tlv_encoder_add_def)
  qed simp
  from this [of "tlv_encoder_add [] t v"] show ?thesis by (simp add: tlv_encode_def)
qed

fun extend_all :: "tlv_items \<Rightarrow> (tlv_type \<times> bytes) list \<Rightarrow> tlv_items" where
  "extend_all items [] = items"
| "extend_all items ((t, v) # tvs) = extend_all (extend items t v) tvs"

lemma tlv_decode_encode_all:
  "tlv_decode_loop (tlv_encode tvs) items = Inr (extend_all items tvs)"
proof (induction tvs arbitrary: items)
  case Nil
  then show ?case by (simp add: tlv_encode_def)
next
  case (Cons tv tvs)
  then show ?case by (cases tv) (simp add: tlv_encode_Cons tlv_decode_add)
qed

text \<open>The values of one type among the items, joined.\<close>

definition values_of :: "tlv_type \<Rightarrow> (tlv_type \<times> bytes) list \<Rightarrow> bytes" where
  "values_of t tvs = concat (map snd (filter (\<lambda>(s, _). s = t) tvs))"

lemma values_of_Cons [simp]:
  "values_of t [] = []"
  "values_of t ((s, v) # tvs) = (if s = t then v else []) @ values_of t tvs"
  by (simp_all add: values_of_def)

lemma tlv_get_extend:
  "tlv_get (extend items s v) t =
     (if s = t then Some ((case tlv_get items t of None \<Rightarrow> [] | Some u \<Rightarrow> u) @ v) else tlv_get items t)"
  by (simp add: tlv_get_def extend_def)

lemma values_of_absent: "t \<notin> fst ` set tvs \<Longrightarrow> values_of t tvs = []"
  by (induction tvs) auto

lemma extend_all_get:
  "tlv_get (extend_all items tvs) t =
     (if t \<in> fst ` set tvs
      then Some ((case tlv_get items t of None \<Rightarrow> [] | Some v \<Rightarrow> v) @ values_of t tvs)
      else tlv_get items t)"
proof (induction items tvs rule: extend_all.induct)
  case (1 items)
  then show ?case by simp
next
  case (2 items s v tvs)
  then show ?case
    using values_of_absent [of t tvs]
    by (cases "s = t") (simp_all add: tlv_get_extend)
qed

lemma tlv_encode_Nil [simp]: "tlv_encode [] = []"
  by (simp add: tlv_encode_def)

lemma chunks_short: "v \<noteq> [] \<Longrightarrow> length v \<le> n \<Longrightarrow> chunks n v = [v]"
  by (subst chunks.simps) (auto simp: chunks.simps [of _ "[]"] neq_Nil_conv)

lemma length_tlv_encode_Cons:
  "length v \<le> 255 \<Longrightarrow> length (tlv_encode ((t, v) # items)) = length v + 2 + length (tlv_encode items)"
  by (cases "v = []") (simp_all add: tlv_encode_Cons tlv_encoder_add_def chunks_short tlv_fragment_def chunks.simps [of _ "[]"])

lemma tlv_decode_encode: "tlv_decode (tlv_encode tvs) = Inr (extend_all Map.empty tvs)"
  by (simp add: tlv_decode_def tlv_decode_encode_all)

lemma tlv_get_encoded:
  "tlv_get (extend_all Map.empty tvs) t = (if t \<in> fst ` set tvs then Some (values_of t tvs) else None)"
  using extend_all_get [of Map.empty tvs t] by (simp add: tlv_get_def)

section \<open>Properties\<close>

text \<open>
  Pairing messages survive the TLV8 encoding: whatever items are added, with values of
  any length, decoding the built bytes succeeds, and looking a type up returns the values
  added under it, joined in order, or nothing when there was none.
\<close>

theorem tlv_roundtrip:
  "\<exists>items. tlv_decode (tlv_encode tvs) = Inr items
     \<and> (\<forall>t. tlv_get items t = (if t \<in> fst ` set tvs then Some (values_of t tvs) else None))"
  by (simp add: tlv_decode_encode tlv_get_encoded)

text \<open>
  Fragments respect the length byte: every fragment the encoder writes carries between 1
  and 255 bytes, so the length field is exact, and the encoding of a value of \<open>n\<close> bytes takes
  \<open>n\<close> bytes plus two per fragment (one empty fragment when the value is empty).
\<close>

theorem tlv_encoding_size:
  "length (tlv_encode [(t, v)]) = length v + 2 * max 1 ((length v + 254) div 255)
   \<and> list_all (\<lambda>c. 1 \<le> length c \<and> length c \<le> 255) (chunks 255 v)"
proof
  have len: "length (chunks 255 xs) = (length xs + 254) div 255" for xs :: bytes
  proof (induction "255 :: nat" xs rule: chunks.induct)
    case (1 xs)
    show ?case
    proof (cases "xs = []")
      case False
      then have "length (chunks 255 xs) = Suc ((length xs - 255 + 254) div 255)"
        using 1 by (subst chunks.simps) simp
      also have "\<dots> = (length xs + 254) div 255"
      proof (cases "length xs \<le> 255")
        case True
        have "(length xs + 254) div 255 = 1"
          using True False by (intro div_nat_eqI) (simp_all add: Suc_le_eq)
        with True show ?thesis by simp
      next
        case False
        then have "length xs + 254 = length xs - 255 + 254 + 255" by simp
        then show ?thesis by (simp only: div_add_self2 zero_neq_numeral)
      qed
      finally show ?thesis .
    qed (simp add: chunks.simps)
  qed
  have frag: "length (concat (map (tlv_fragment t) cs)) = length (concat cs) + 2 * length cs" for cs
    by (induction cs) (simp_all add: tlv_fragment_def)
  show "length (tlv_encode [(t, v)]) = length v + 2 * max 1 ((length v + 254) div 255)"
    by (cases v) (simp_all add: tlv_encode_def tlv_encoder_add_def frag len concat_chunks
        chunks.simps [of _ "[]"] max_def)
qed (use chunks_bounds in \<open>force simp: list_all_iff Suc_le_eq\<close>)

end
