(* ===== verification/Ring_Buffer.thy ===== *)
theory Ring_Buffer
  imports Interfaces
begin

text \<open>
  The audio ring buffer, \<open>src/audio/buffer.rs\<close>: a byte array with a read and a write
  position, one slot always left free. Operations whose arithmetic panics (an unsigned
  underflow or a remainder by zero, both only for a capacity of zero) return \<open>None\<close> there.
  The buffer refines a bounded byte queue (\<open>byte_fifo\<close>).
\<close>

section \<open>Data and operations\<close>

record ring_buffer =
  rb_data :: bytes
  rb_capacity :: nat
  rb_read_pos :: nat
  rb_write_pos :: nat
  rb_high_watermark :: nat
  rb_low_watermark :: nat

definition ring_new :: "nat \<Rightarrow> ring_buffer" where
  "ring_new capacity =
     \<lparr>rb_data = replicate capacity 0, rb_capacity = capacity, rb_read_pos = 0, rb_write_pos = 0,
      rb_high_watermark = capacity * 3 div 4, rb_low_watermark = capacity div 4\<rparr>"

definition ring_with_watermarks :: "nat \<Rightarrow> nat \<Rightarrow> nat \<Rightarrow> ring_buffer option" where
  "ring_with_watermarks capacity low high =
     (if low < high \<and> high \<le> capacity
      then Some \<lparr>rb_data = replicate capacity 0, rb_capacity = capacity, rb_read_pos = 0,
                 rb_write_pos = 0, rb_high_watermark = high, rb_low_watermark = low\<rparr>
      else None)"

definition ring_available :: "ring_buffer \<Rightarrow> nat" where
  "ring_available b =
     (if rb_write_pos b \<ge> rb_read_pos b then rb_write_pos b - rb_read_pos b
      else rb_capacity b - rb_read_pos b + rb_write_pos b)"

definition ring_free :: "ring_buffer \<Rightarrow> nat option" where
  "ring_free b =
     (if ring_available b + 1 \<le> rb_capacity b then Some (rb_capacity b - ring_available b - 1)
      else None)"

definition ring_is_empty :: "ring_buffer \<Rightarrow> bool" where
  "ring_is_empty b \<longleftrightarrow> ring_available b = 0"

definition ring_is_full :: "ring_buffer \<Rightarrow> bool option" where
  "ring_is_full b = map_option (\<lambda>f. f = 0) (ring_free b)"

definition ring_is_underrunning :: "ring_buffer \<Rightarrow> bool" where
  "ring_is_underrunning b \<longleftrightarrow> ring_available b < rb_low_watermark b"

definition ring_is_ready :: "ring_buffer \<Rightarrow> bool" where
  "ring_is_ready b \<longleftrightarrow> ring_available b \<ge> rb_high_watermark b"

text \<open>\<open>copy_nonoverlapping\<close> of \<open>src\<close> into the array at \<open>pos\<close>.\<close>

definition copy_into :: "bytes \<Rightarrow> nat \<Rightarrow> bytes \<Rightarrow> bytes" where
  "copy_into arr pos src = take pos arr @ src @ drop (pos + length src) arr"

definition ring_write :: "ring_buffer \<Rightarrow> bytes \<Rightarrow> (ring_buffer \<times> nat) option" where
  "ring_write b data =
     Option.bind (ring_free b) (\<lambda>available_space.
     let to_write = min (length data) available_space in
     if to_write = 0 then Some (b, 0)
     else let write_pos = rb_write_pos b;
              first_part = min (rb_capacity b - write_pos) to_write;
              second_part = to_write - first_part;
              arr1 = copy_into (rb_data b) write_pos (take first_part data);
              arr2 = (if second_part > 0
                      then copy_into arr1 0 (take second_part (drop first_part data)) else arr1)
          in Some (b\<lparr>rb_data := arr2, rb_write_pos := (write_pos + to_write) mod rb_capacity b\<rparr>,
                   to_write))"

text \<open>
  \<open>read\<close> and \<open>peek\<close> fill the front of an output slice of length \<open>n\<close>; the model returns the
  bytes copied, whose number is the return value.
\<close>

definition ring_copy_out :: "ring_buffer \<Rightarrow> nat \<Rightarrow> bytes" where
  "ring_copy_out b to_read =
     (let read_pos = rb_read_pos b;
          first_part = min (rb_capacity b - read_pos) to_read;
          second_part = to_read - first_part
      in take first_part (drop read_pos (rb_data b))
         @ (if second_part > 0 then take second_part (rb_data b) else []))"

definition ring_read :: "ring_buffer \<Rightarrow> nat \<Rightarrow> ring_buffer \<times> bytes" where
  "ring_read b n =
     (let to_read = min n (ring_available b) in
      if to_read = 0 then (b, [])
      else (b\<lparr>rb_read_pos := (rb_read_pos b + to_read) mod rb_capacity b\<rparr>, ring_copy_out b to_read))"

definition ring_peek :: "ring_buffer \<Rightarrow> nat \<Rightarrow> bytes" where
  "ring_peek b n =
     (let to_peek = min n (ring_available b) in if to_peek = 0 then [] else ring_copy_out b to_peek)"

definition ring_skip :: "ring_buffer \<Rightarrow> nat \<Rightarrow> (ring_buffer \<times> nat) option" where
  "ring_skip b count =
     (let to_skip = min count (ring_available b) in
      if rb_capacity b = 0 then None
      else Some (b\<lparr>rb_read_pos := (rb_read_pos b + to_skip) mod rb_capacity b\<rparr>, to_skip))"

definition ring_clear :: "ring_buffer \<Rightarrow> ring_buffer" where
  "ring_clear b = b\<lparr>rb_read_pos := 0, rb_write_pos := 0\<rparr>"

section \<open>Invariant and contents\<close>

definition ring_ok :: "ring_buffer \<Rightarrow> bool" where
  "ring_ok b \<longleftrightarrow> 0 < rb_capacity b \<and> length (rb_data b) = rb_capacity b
     \<and> rb_read_pos b < rb_capacity b \<and> rb_write_pos b < rb_capacity b"

definition ring_contents :: "ring_buffer \<Rightarrow> bytes" where
  "ring_contents b =
     map (\<lambda>i. rb_data b ! ((rb_read_pos b + i) mod rb_capacity b)) [0..<ring_available b]"

lemma length_ring_contents [simp]: "length (ring_contents b) = ring_available b"
  by (simp add: ring_contents_def)

lemma ring_available_less: "ring_ok b \<Longrightarrow> ring_available b < rb_capacity b"
  by (auto simp: ring_ok_def ring_available_def)

lemma ring_free_Some:
  "ring_ok b \<Longrightarrow> ring_free b = Some (rb_capacity b - 1 - ring_available b)"
  using ring_available_less [of b] by (simp add: ring_free_def)

lemma ring_write_pos_eq: "ring_ok b \<Longrightarrow> rb_write_pos b = (rb_read_pos b + ring_available b) mod rb_capacity b"
  by (auto simp: ring_ok_def ring_available_def)

text \<open>The slot at distance \<open>i\<close> from a position, without the remainder.\<close>

lemma wrap_add: "p < c \<Longrightarrow> i \<le> c \<Longrightarrow> (p + i) mod c = (if p + i < c then p + i else p + i - c)" for p c i :: nat
  by (auto simp: mod_if)

lemma ring_available_unique:
  assumes "ring_ok b" and "n < rb_capacity b"
    and "rb_write_pos b = (rb_read_pos b + n) mod rb_capacity b"
  shows "ring_available b = n"
  using assms wrap_add [of "rb_read_pos b" "rb_capacity b" n]
  by (simp add: ring_ok_def ring_available_def split: if_splits)

lemma ring_copy_out_eq:
  assumes "ring_ok b" and "n \<le> rb_capacity b"
  shows "ring_copy_out b n = map (\<lambda>i. rb_data b ! ((rb_read_pos b + i) mod rb_capacity b)) [0..<n]"
proof (rule nth_equalityI)
  show "length (ring_copy_out b n) =
      length (map (\<lambda>i. rb_data b ! ((rb_read_pos b + i) mod rb_capacity b)) [0..<n])"
    using assms by (auto simp: ring_copy_out_def ring_ok_def Let_def min_def)
  fix i assume "i < length (ring_copy_out b n)"
  then have "i < n" using assms by (auto simp: ring_copy_out_def ring_ok_def Let_def min_def split: if_splits)
  then show "ring_copy_out b n ! i =
      map (\<lambda>i. rb_data b ! ((rb_read_pos b + i) mod rb_capacity b)) [0..<n] ! i"
    using assms by (auto simp: ring_copy_out_def ring_ok_def Let_def nth_append wrap_add min_def add.commute)
qed

text \<open>Where a write of \<open>src\<close> at the write position lands, and what it leaves alone.\<close>

definition ring_store :: "bytes \<Rightarrow> nat \<Rightarrow> nat \<Rightarrow> bytes \<Rightarrow> bytes" where
  "ring_store arr cap pos src =
     (let first_part = min (cap - pos) (length src);
          arr1 = copy_into arr pos (take first_part src)
      in if length src - first_part > 0 then copy_into arr1 0 (drop first_part src) else arr1)"

lemma length_copy_into: "pos + length src \<le> length arr \<Longrightarrow> length (copy_into arr pos src) = length arr"
  by (simp add: copy_into_def)

lemma nth_copy_into:
  "pos + length src \<le> length arr \<Longrightarrow> j < length arr \<Longrightarrow>
   copy_into arr pos src ! j = (if pos \<le> j \<and> j < pos + length src then src ! (j - pos) else arr ! j)"
  by (auto simp: copy_into_def nth_append min_def)

lemma length_ring_store:
  "length arr = cap \<Longrightarrow> pos < cap \<Longrightarrow> length src \<le> cap \<Longrightarrow> length (ring_store arr cap pos src) = cap"
  by (auto simp: ring_store_def Let_def length_copy_into)

lemma nth_ring_store:
  assumes "length arr = cap" and "pos < cap" and "length src \<le> cap" and "i < cap"
  shows "ring_store arr cap pos src ! ((pos + i) mod cap) =
    (if i < length src then src ! i else arr ! ((pos + i) mod cap))"
proof (cases "cap - pos < length src")
  case True
  let ?f = "cap - pos"
  have "ring_store arr cap pos src = copy_into (copy_into arr pos (take ?f src)) 0 (drop ?f src)"
    using True by (simp add: ring_store_def Let_def)
  moreover have "length (copy_into arr pos (take ?f src)) = cap" using True assms by (simp add: length_copy_into)
  ultimately show ?thesis
    using True assms by (cases "pos + i < cap") (auto simp: nth_copy_into wrap_add add.commute)
next
  case False
  then have "ring_store arr cap pos src = copy_into arr pos src" by (simp add: ring_store_def Let_def)
  then show ?thesis using False assms by (cases "pos + i < cap") (auto simp: nth_copy_into wrap_add)
qed

lemma ring_write_eq:
  assumes "ring_ok b" and n: "n = min (length data) (rb_capacity b - 1 - ring_available b)"
  shows "ring_write b data =
    Some (b\<lparr>rb_data := ring_store (rb_data b) (rb_capacity b) (rb_write_pos b) (take n data),
            rb_write_pos := (rb_write_pos b + n) mod rb_capacity b\<rparr>, n)"
proof (cases "n = 0")
  case True
  with assms show ?thesis
    by (auto simp: ring_write_def ring_free_Some ring_store_def copy_into_def ring_ok_def)
next
  case False
  let ?f = "min (rb_capacity b - rb_write_pos b) n"
  have len: "length (take n data) = n" using n by simp
  have t: "take ?f (take n data) = take ?f data" by simp
  have d: "drop ?f (take n data) = take (n - ?f) (drop ?f data)" by (rule drop_take)
  show ?thesis
    unfolding ring_write_def ring_free_Some [OF assms(1)] Option.bind.simps Let_def ring_store_def len t d
      n [symmetric]
    using False by simp
qed

lemma ring_write_ok:
  assumes "ring_ok b" and "ring_write b data = Some (b', n)"
  shows "ring_ok b' \<and> rb_capacity b' = rb_capacity b
    \<and> n = min (length data) (rb_capacity b - 1 - ring_available b)
    \<and> ring_contents b' = ring_contents b @ take n data"
proof -
  define k where "k = min (length data) (rb_capacity b - 1 - ring_available b)"
  let ?c = "rb_capacity b" and ?r = "rb_read_pos b" and ?a = "ring_available b"
  have b': "b' = b\<lparr>rb_data := ring_store (rb_data b) ?c (rb_write_pos b) (take k data),
      rb_write_pos := (rb_write_pos b + k) mod ?c\<rparr>" and n: "n = k"
    using ring_write_eq [OF assms(1) k_def] assms(2) by simp_all
  have ok: "0 < ?c" "length (rb_data b) = ?c" "?r < ?c" "rb_write_pos b < ?c"
    using assms(1) by (auto simp: ring_ok_def)
  have ak: "?a + k < ?c" using ring_available_less [OF assms(1)] by (auto simp: k_def)
  have lk: "length (take k data) = k" by (simp add: k_def)
  have wp: "rb_write_pos b = (?r + ?a) mod ?c" by (rule ring_write_pos_eq [OF assms(1)])
  have ok': "ring_ok b'" using ok ak by (simp add: ring_ok_def b' length_ring_store k_def)
  have av: "ring_available b' = ?a + k"
    using ok' ak by (intro ring_available_unique) (simp_all add: b' wp mod_add_left_eq add.assoc)
  have cont: "rb_data b' ! ((?r + i) mod ?c) = (ring_contents b @ take n data) ! i" if i: "i < ?a + k" for i
  proof (cases "i < ?a")
    case True
    have "(?r + i) mod ?c = (rb_write_pos b + (?c + i - ?a)) mod ?c"
    proof -
      have "?r + ?a + (?c + i - ?a) = ?r + i + ?c" using True ak by simp
      then show ?thesis unfolding wp mod_add_left_eq by (simp only: mod_add_self2)
    qed
    moreover have "?c + i - ?a < ?c" and "\<not> ?c + i - ?a < k" using True ak by simp_all
    ultimately have "rb_data b' ! ((?r + i) mod ?c) = rb_data b ! ((?r + i) mod ?c)"
      using nth_ring_store [of "rb_data b" ?c "rb_write_pos b" "take k data" "?c + i - ?a"] ok ak lk
      by (simp add: b')
    with True show ?thesis by (simp add: nth_append) (simp add: ring_contents_def)
  next
    case False
    then have "?r + ?a + (i - ?a) = ?r + i" by simp
    then have "(?r + i) mod ?c = (rb_write_pos b + (i - ?a)) mod ?c"
      unfolding wp mod_add_left_eq by (simp only:)
    moreover have "i - ?a < k" "i - ?a < ?c" "length (take k data) \<le> ?c" using i False ak lk by simp_all
    ultimately have "rb_data b' ! ((?r + i) mod ?c) = data ! (i - ?a)"
      using nth_ring_store [OF ok(2) ok(4), of "take k data" "i - ?a"] unfolding lk b' by simp
    with False i show ?thesis by (simp add: nth_append n)
  qed
  have rc: "rb_read_pos b' = ?r" "rb_capacity b' = ?c" by (simp_all add: b')
  have "ring_contents b' = ring_contents b @ take n data"
    by (rule nth_equalityI) (use cont lk n in \<open>simp_all add: av rc ring_contents_def [of b']\<close>)
  with ok' n show ?thesis by (simp add: b' k_def)
qed

lemma ring_read_ok:
  assumes "ring_ok b" and "ring_read b n = (b', out)"
  shows "ring_ok b' \<and> rb_capacity b' = rb_capacity b \<and> out = take n (ring_contents b)
    \<and> ring_contents b' = drop n (ring_contents b)"
proof -
  define k where "k = min n (ring_available b)"
  let ?c = "rb_capacity b" and ?r = "rb_read_pos b" and ?a = "ring_available b"
  have ac: "?a < ?c" by (rule ring_available_less [OF assms(1)])
  have ok: "0 < ?c" "?r < ?c" using assms(1) by (auto simp: ring_ok_def)
  have b': "b' = b\<lparr>rb_read_pos := (?r + k) mod ?c\<rparr>" and out: "out = ring_copy_out b k"
    using assms ac by (auto simp: ring_read_def Let_def k_def ring_copy_out_def ring_ok_def split: if_splits)
  have ok': "ring_ok b'" using assms(1) ok by (simp add: ring_ok_def b')
  have "?r + k + (?a - k) = ?r + ?a" by (simp add: k_def)
  then have "rb_write_pos b = ((?r + k) mod ?c + (?a - k)) mod ?c"
    unfolding mod_add_left_eq by (simp only: ring_write_pos_eq [OF assms(1)])
  then have av: "ring_available b' = ?a - k"
    using ok' ac by (intro ring_available_unique) (simp_all add: b')
  have "out = take k (ring_contents b)"
    using ac by (simp add: out ring_copy_out_eq [OF assms(1)] k_def ring_contents_def take_map)
  then have "out = take n (ring_contents b)" by (simp add: k_def min_def)
  moreover have "ring_contents b' = drop k (ring_contents b)"
  proof (rule nth_equalityI)
    fix i assume "i < length (ring_contents b')"
    then have i: "i < ?a - k" by (simp add: av)
    then have "ring_contents b' ! i = rb_data b ! (((?r + k) mod ?c + i) mod ?c)"
      unfolding ring_contents_def av by (simp add: b')
    also have "\<dots> = rb_data b ! ((?r + (k + i)) mod ?c)" by (simp add: mod_add_left_eq add.assoc)
    also have "\<dots> = drop k (ring_contents b) ! i" 
      using i less_diff_conv [of i ?a k] by (simp add: ring_contents_def add.commute)
    finally show "ring_contents b' ! i = drop k (ring_contents b) ! i" .
  qed (simp add: av)
  then have "ring_contents b' = drop n (ring_contents b)" by (simp add: k_def min_def)
  ultimately show ?thesis using ok' by (simp add: b')
qed

lemma ring_peek_read: "ring_peek b n = snd (ring_read b n)"
  unfolding ring_peek_def ring_read_def Let_def by (simp only: if_distrib [of snd] snd_conv)

lemma ring_peek_eq: "ring_ok b \<Longrightarrow> ring_peek b n = take n (ring_contents b)"
  using ring_read_ok [of b n "fst (ring_read b n)" "snd (ring_read b n)"] by (simp add: ring_peek_read)

lemma ring_skip_eq:
  assumes "ring_ok b"
  shows "ring_skip b n = Some (fst (ring_read b n), min n (ring_available b))"
proof -
  have c: "rb_capacity b \<noteq> 0" and r: "rb_read_pos b mod rb_capacity b = rb_read_pos b"
    using assms by (simp_all add: ring_ok_def)
  show ?thesis
  proof (cases "min n (ring_available b) = 0")
    case True
    then show ?thesis unfolding ring_skip_def ring_read_def Let_def using c r by simp
  next
    case False
    then show ?thesis
      unfolding ring_skip_def ring_read_def Let_def by (simp only: c if_False fst_conv)
  qed
qed

section \<open>The bounded byte queue\<close>

text \<open>The write as a total operation: on a well-formed buffer it never panics.\<close>

definition ring_put :: "ring_buffer \<Rightarrow> bytes \<Rightarrow> ring_buffer \<times> nat" where
  "ring_put b data = (case ring_write b data of Some r \<Rightarrow> r | None \<Rightarrow> (b, 0))"

lemma ring_put_write: "ring_ok b \<Longrightarrow> ring_write b data = Some (ring_put b data)"
  by (simp add: ring_put_def ring_write_eq [OF _ refl])

interpretation ring: byte_fifo ring_put ring_read ring_contents
  "\<lambda>b. rb_capacity b - 1 - ring_available b" "\<lambda>b. rb_capacity b - 1" ring_ok
proof unfold_locales
  fix b d n assume ok: "ring_ok b"
  note w = ring_write_ok [OF ok, of d "fst (ring_put b d)" "snd (ring_put b d)"] ring_put_write [OF ok, of d]
  note r = ring_read_ok [OF ok, of n "fst (ring_read b n)" "snd (ring_read b n)"]
  show "ring_ok (fst (ring_put b d))" using w by simp
  show "ring_contents (fst (ring_put b d)) = ring_contents b @ take (rb_capacity b - 1 - ring_available b) d"
    using w by (simp add: min_def)
  show "snd (ring_put b d) = min (length d) (rb_capacity b - 1 - ring_available b)" using w by simp
  show "rb_capacity (fst (ring_put b d)) - 1 = rb_capacity b - 1" using w by simp
  show "ring_ok (fst (ring_read b n))" using r by simp
  show "ring_contents (fst (ring_read b n)) = drop n (ring_contents b)" using r by simp
  show "snd (ring_read b n) = take n (ring_contents b)" using r by simp
  show "rb_capacity (fst (ring_read b n)) - 1 = rb_capacity b - 1" using r by simp
  show "length (ring_contents b) + (rb_capacity b - 1 - ring_available b) = rb_capacity b - 1"
    using ring_available_less [OF ok] by simp
qed

lemma ring_new_ok: "0 < n \<Longrightarrow> ring_ok (ring_new n)"
  by (simp add: ring_ok_def ring_new_def)

lemma ring_new_contents: "ring_contents (ring_new n) = []"
  by (simp add: ring_contents_def ring_available_def ring_new_def)

section \<open>Properties\<close>

text \<open>
  C6. The ring buffer is a lossless bounded byte queue. For any interleaving of writes and
  reads on a new buffer of positive capacity, the bytes accepted by the writes are exactly
  the bytes returned by the reads followed by the bytes still in the buffer, in order, and
  the buffer never holds more than \<open>capacity - 1\<close> bytes.
\<close>

theorem ring_buffer_stream:
  assumes "0 < capacity"
    and "fifo_script ring_put ring_read (ring_new capacity) ops = (b, accepted, delivered)"
  shows "accepted = delivered @ ring_contents b \<and> ring_available b \<le> capacity - 1 \<and> ring_ok b"
proof -
  have "ring_ok b \<and> rb_capacity b - 1 = rb_capacity (ring_new capacity) - 1
      \<and> ring_contents (ring_new capacity) @ accepted = delivered @ ring_contents b"
    using ring.script_stream [OF ring_new_ok [OF assms(1)] assms(2)] .
  moreover have "rb_capacity (ring_new capacity) = capacity" by (simp add: ring_new_def)
  moreover from calculation have "ring_available b < rb_capacity b" by (simp add: ring_available_less)
  ultimately show ?thesis by (auto simp: ring_new_contents)
qed

theorem ring_buffer_stream_witness:
  "0 < (3 :: nat) \<and>
   (let (b, accepted, delivered) =
      fifo_script ring_put ring_read (ring_new 3) [Inl [1, 2, 3], Inr 1, Inl [4], Inr 2]
    in accepted = delivered @ ring_contents b \<and> ring_available b \<le> 3 - 1 \<and> ring_ok b)"
proof -
  obtain b i r where e:
      "fifo_script ring_put ring_read (ring_new 3) [Inl [1, 2, 3], Inr 1, Inl [4], Inr 2] = (b, i, r)"
    by (rule prod_cases3)
  have "0 < (3 :: nat)" by simp
  from ring_buffer_stream [OF this e] show ?thesis unfolding e Let_def prod.case by simp
qed

text \<open>
  On a well-formed buffer \<open>write\<close> never panics: it accepts as many bytes as there are free
  slots, from the front of the slice, appends them to the contents, and keeps the buffer
  well-formed; \<open>peek\<close> returns what \<open>read\<close> would return, and \<open>skip\<close> leaves what \<open>read\<close> would
  leave.
\<close>

theorem ring_buffer_operations:
  assumes "ring_ok b"
  shows "(\<exists>b' n. ring_write b data = Some (b', n) \<and> ring_ok b'
      \<and> n = min (length data) (rb_capacity b - 1 - ring_available b)
      \<and> ring_contents b' = ring_contents b @ take n data)
    \<and> snd (ring_read b k) = take k (ring_contents b)
    \<and> ring_contents (fst (ring_read b k)) = drop k (ring_contents b)
    \<and> ring_peek b k = take k (ring_contents b)
    \<and> ring_skip b k = Some (fst (ring_read b k), min k (ring_available b))"
proof (intro conjI)
  show "\<exists>b' n. ring_write b data = Some (b', n) \<and> ring_ok b'
      \<and> n = min (length data) (rb_capacity b - 1 - ring_available b)
      \<and> ring_contents b' = ring_contents b @ take n data"
    using ring_put_write [OF assms, of data] ring_write_ok [OF assms, of data]
    by (cases "ring_put b data") auto
qed (simp_all only: ring.get_out [OF assms] ring.get_cont [OF assms] ring_peek_eq [OF assms]
      ring_skip_eq [OF assms])

theorem ring_buffer_operations_witness:
  "ring_ok (ring_new 4) \<and> ring_contents (ring_new 4) = []
   \<and> snd (ring_read (ring_new 4) 2) = []
   \<and> (\<exists>b' n. ring_write (ring_new 4) [7, 8, 9, 10] = Some (b', n) \<and> n = 3 \<and> ring_contents b' = [7, 8, 9])"
  using ring_buffer_operations [OF ring_new_ok [of 4], of "[7, 8, 9, 10]" 2]
  by (auto simp: ring_new_ok ring_new_contents ring_available_def)
    (auto simp: ring_new_def)

end
