(* ===== verification/Playback_Queue.thy ===== *)
theory Playback_Queue
  imports Interfaces "HOL-Library.Multiset"
begin

text \<open>
  The playback queue, \<open>src/control/queue.rs\<close>, with its items from \<open>src/types/track.rs\<close>.
  The process-wide counter behind \<open>QueueItemId::new\<close> is passed explicitly. Slice and index
  panics are \<open>None\<close>. The shuffle of the \<open>rand\<close> crate is the argument \<open>rng_shuffle\<close>, of which
  only that it permutes its list is used. A floating-point duration is stored and never
  computed with: it is kept as its bit pattern.
\<close>

section \<open>Data\<close>

record track_info =
  ti_url :: string
  ti_title :: string
  ti_artist :: string
  ti_album :: "string option"
  ti_artwork_url :: "string option"
  ti_duration_secs :: "u64 option"
  ti_track_number :: "u32 option"
  ti_disc_number :: "u32 option"
  ti_genre :: "string option"
  ti_content_id :: "string option"

definition track_info_new :: "string \<Rightarrow> string \<Rightarrow> string \<Rightarrow> track_info" where
  "track_info_new url title artist =
     \<lparr>ti_url = url, ti_title = title, ti_artist = artist, ti_album = None, ti_artwork_url = None,
      ti_duration_secs = None, ti_track_number = None, ti_disc_number = None, ti_genre = None,
      ti_content_id = None\<rparr>"

definition track_info_with_album :: "track_info \<Rightarrow> string \<Rightarrow> track_info" where
  "track_info_with_album t album = t\<lparr>ti_album := Some album\<rparr>"

definition track_info_with_artwork :: "track_info \<Rightarrow> string \<Rightarrow> track_info" where
  "track_info_with_artwork t artwork_url = t\<lparr>ti_artwork_url := Some artwork_url\<rparr>"

definition track_info_with_duration :: "track_info \<Rightarrow> u64 \<Rightarrow> track_info" where
  "track_info_with_duration t duration_secs = t\<lparr>ti_duration_secs := Some duration_secs\<rparr>"

type_synonym queue_item_id = u64

text \<open>\<open>fetch_add(1)\<close>: the identifier is the counter's old value; the counter wraps.\<close>

definition queue_item_id_new :: "u64 \<Rightarrow> queue_item_id \<times> u64" where
  "queue_item_id_new counter = (counter, counter + 1)"

record queue_item =
  qi_id :: queue_item_id
  qi_track :: track_info
  qi_original_position :: nat

definition queue_item_new :: "u64 \<Rightarrow> track_info \<Rightarrow> nat \<Rightarrow> queue_item \<times> u64" where
  "queue_item_new counter track position =
     (let (item_id, counter') = queue_item_id_new counter
      in (\<lparr>qi_id = item_id, qi_track = track, qi_original_position = position\<rparr>, counter'))"

record playback_queue =
  pq_items :: "queue_item list"
  pq_current_index :: "nat option"
  pq_history :: "queue_item_id list"
  pq_max_history :: nat
  pq_shuffle_order :: "nat list option"
  pq_shuffle_position :: nat

section \<open>Operations\<close>

text \<open>\<open>Vec::insert\<close>, \<open>Vec::remove\<close> and \<open>iter().position\<close>.\<close>

definition vec_insert :: "'a list \<Rightarrow> nat \<Rightarrow> 'a \<Rightarrow> 'a list" where
  "vec_insert xs i x = take i xs @ x # drop i xs"

definition vec_remove :: "'a list \<Rightarrow> nat \<Rightarrow> 'a list" where
  "vec_remove xs i = take i xs @ drop (Suc i) xs"

primrec position_of :: "('a \<Rightarrow> bool) \<Rightarrow> 'a list \<Rightarrow> nat option" where
  "position_of P [] = None"
| "position_of P (x # xs) = (if P x then Some 0 else map_option Suc (position_of P xs))"

definition queue_new :: playback_queue where
  "queue_new = \<lparr>pq_items = [], pq_current_index = None, pq_history = [], pq_max_history = 100,
                pq_shuffle_order = None, pq_shuffle_position = 0\<rparr>"

definition queue_add :: "u64 \<Rightarrow> playback_queue \<Rightarrow> track_info \<Rightarrow> playback_queue \<times> queue_item_id \<times> u64" where
  "queue_add counter q track =
     (let position = length (pq_items q);
          (item, counter') = queue_item_new counter track position
      in (q\<lparr>pq_items := pq_items q @ [item],
            pq_shuffle_order := map_option (\<lambda>order. order @ [position]) (pq_shuffle_order q)\<rparr>,
          qi_id item, counter'))"

text \<open>The loops that re-index the shuffle order after an insertion, a removal and a move.\<close>

definition insert_shift :: "nat \<Rightarrow> nat \<Rightarrow> nat" where
  "insert_shift insert_at idx = (if idx \<ge> insert_at then idx + 1 else idx)"

definition remove_shift :: "nat \<Rightarrow> nat \<Rightarrow> nat" where
  "remove_shift index i = (if i > index then i - 1 else i)"

definition move_shift :: "nat \<Rightarrow> nat \<Rightarrow> nat \<Rightarrow> nat" where
  "move_shift from_ix to_ix idx =
     (if idx = from_ix then to_ix
      else if from_ix < to_ix then (if idx > from_ix \<and> idx \<le> to_ix then idx - 1 else idx)
      else if idx \<ge> to_ix \<and> idx < from_ix then idx + 1
      else idx)"

definition queue_insert ::
    "u64 \<Rightarrow> playback_queue \<Rightarrow> nat \<Rightarrow> track_info \<Rightarrow> playback_queue \<times> queue_item_id \<times> u64" where
  "queue_insert counter q index track =
     (let position = length (pq_items q);
          (item, counter') = queue_item_new counter track position;
          insert_at = min index (length (pq_items q))
      in (q\<lparr>pq_items := vec_insert (pq_items q) insert_at item,
            pq_current_index :=
              map_option (\<lambda>current. if insert_at \<le> current then current + 1 else current) (pq_current_index q),
            pq_shuffle_order :=
              map_option (\<lambda>order. map (insert_shift insert_at) order @ [insert_at]) (pq_shuffle_order q)\<rparr>,
          qi_id item, counter'))"

definition queue_add_next ::
    "u64 \<Rightarrow> playback_queue \<Rightarrow> track_info \<Rightarrow> playback_queue \<times> queue_item_id \<times> u64" where
  "queue_add_next counter q track =
     queue_insert counter q (case pq_current_index q of None \<Rightarrow> 0 | Some i \<Rightarrow> i + 1) track"

definition queue_remove :: "playback_queue \<Rightarrow> queue_item_id \<Rightarrow> playback_queue \<times> queue_item option" where
  "queue_remove q item_id =
     (case position_of (\<lambda>item. qi_id item = item_id) (pq_items q) of
        None \<Rightarrow> (q, None)
      | Some index \<Rightarrow>
          (let items' = vec_remove (pq_items q) index
           in (q\<lparr>pq_items := items',
                 pq_current_index :=
                   (case pq_current_index q of
                      None \<Rightarrow> None
                    | Some current \<Rightarrow>
                        if index < current then Some (current - 1)
                        else if index = current
                        then (if items' = [] then None else Some (min current (length items' - 1)))
                        else Some current),
                 pq_shuffle_order :=
                   map_option (\<lambda>order. map (remove_shift index) (filter (\<lambda>i. i \<noteq> index) order))
                     (pq_shuffle_order q)\<rparr>,
               Some (pq_items q ! index))))"

definition queue_move_track :: "playback_queue \<Rightarrow> nat \<Rightarrow> nat \<Rightarrow> playback_queue" where
  "queue_move_track q from_ix to_ix =
     (if from_ix \<ge> length (pq_items q) \<or> to_ix \<ge> length (pq_items q) then q
      else q\<lparr>pq_items := vec_insert (vec_remove (pq_items q) from_ix) to_ix (pq_items q ! from_ix),
             pq_current_index :=
               map_option (\<lambda>current.
                 if current = from_ix then to_ix
                 else if from_ix < current \<and> to_ix \<ge> current then current - 1
                 else if from_ix > current \<and> to_ix \<le> current then current + 1
                 else current) (pq_current_index q),
             pq_shuffle_order :=
               map_option (map (move_shift from_ix to_ix)) (pq_shuffle_order q)\<rparr>)"

definition queue_clear :: "playback_queue \<Rightarrow> playback_queue" where
  "queue_clear q = q\<lparr>pq_items := [], pq_current_index := None, pq_shuffle_order := None,
                     pq_shuffle_position := 0\<rparr>"

definition queue_get :: "playback_queue \<Rightarrow> nat \<Rightarrow> queue_item option" where
  "queue_get q index = (if index < length (pq_items q) then Some (pq_items q ! index) else None)"

definition queue_get_by_id :: "playback_queue \<Rightarrow> queue_item_id \<Rightarrow> queue_item option" where
  "queue_get_by_id q item_id = find (\<lambda>item. qi_id item = item_id) (pq_items q)"

definition queue_current :: "playback_queue \<Rightarrow> queue_item option" where
  "queue_current q = Option.bind (pq_current_index q) (queue_get q)"

text \<open>The \<open>while\<close> loop drops from the front until the history fits.\<close>

definition queue_add_to_history :: "playback_queue \<Rightarrow> queue_item_id \<Rightarrow> playback_queue" where
  "queue_add_to_history q item_id =
     (let h = pq_history q @ [item_id] in q\<lparr>pq_history := drop (length h - pq_max_history q) h\<rparr>)"

definition queue_set_current :: "playback_queue \<Rightarrow> nat \<Rightarrow> playback_queue \<times> bool" where
  "queue_set_current q index =
     (if index < length (pq_items q)
      then let q1 = (case queue_current q of
                       None \<Rightarrow> q
                     | Some current \<Rightarrow> queue_add_to_history q (qi_id current))
           in (q1\<lparr>pq_current_index := Some index\<rparr>, True)
      else (q, False))"

definition queue_skip_to :: "playback_queue \<Rightarrow> queue_item_id \<Rightarrow> playback_queue \<times> bool" where
  "queue_skip_to q item_id =
     (case position_of (\<lambda>item. qi_id item = item_id) (pq_items q) of
        None \<Rightarrow> (q, False)
      | Some index \<Rightarrow> queue_set_current q index)"

definition queue_advance :: "playback_queue \<Rightarrow> playback_queue \<times> queue_item option" where
  "queue_advance q =
     (let (q1, next_index) =
        (case pq_shuffle_order q of
           Some order \<Rightarrow>
             if pq_shuffle_position q + 1 < length order
             then (q\<lparr>pq_shuffle_position := pq_shuffle_position q + 1\<rparr>,
                   Some (order ! (pq_shuffle_position q + 1)))
             else (q, None)
         | None \<Rightarrow>
             (q, case pq_current_index q of
                   None \<Rightarrow> None
                 | Some i \<Rightarrow> if i + 1 < length (pq_items q) then Some (i + 1) else None))
      in case next_index of
           None \<Rightarrow> (q1, None)
         | Some index \<Rightarrow> (let q2 = fst (queue_set_current q1 index) in (q2, queue_current q2)))"

text \<open>The part of \<open>previous\<close> after the history: \<open>order[position]\<close> panics out of range.\<close>

definition queue_previous_in_order :: "playback_queue \<Rightarrow> (playback_queue \<times> queue_item option) option" where
  "queue_previous_in_order q =
     (case pq_shuffle_order q of
        Some order \<Rightarrow>
          if pq_shuffle_position q > 0
          then let p = pq_shuffle_position q - 1
               in if p < length order
                  then let q1 = q\<lparr>pq_shuffle_position := p, pq_current_index := Some (order ! p)\<rparr>
                       in Some (q1, queue_current q1)
                  else None
          else Some (q, None)
      | None \<Rightarrow>
          (case pq_current_index q of
             None \<Rightarrow> Some (q, None)
           | Some i \<Rightarrow>
               if i \<ge> 1 then let q1 = q\<lparr>pq_current_index := Some (i - 1)\<rparr> in Some (q1, queue_current q1)
               else Some (q, None)))"

definition queue_previous :: "playback_queue \<Rightarrow> (playback_queue \<times> queue_item option) option" where
  "queue_previous q =
     (if pq_history q = [] then queue_previous_in_order q
      else let item_id = last (pq_history q); q1 = q\<lparr>pq_history := butlast (pq_history q)\<rparr>
           in case position_of (\<lambda>item. qi_id item = item_id) (pq_items q) of
                Some index \<Rightarrow>
                  (let q2 = q1\<lparr>pq_current_index := Some index\<rparr> in Some (q2, queue_current q2))
              | None \<Rightarrow> queue_previous_in_order q1)"

definition queue_shuffle :: "(nat list \<Rightarrow> nat list) \<Rightarrow> playback_queue \<Rightarrow> playback_queue" where
  "queue_shuffle rng_shuffle q =
     (let order = [0..<length (pq_items q)]
      in case pq_current_index q of
           Some current \<Rightarrow>
             q\<lparr>pq_shuffle_position := 0,
               pq_shuffle_order := Some (current # rng_shuffle (filter (\<lambda>i. i \<noteq> current) order))\<rparr>
         | None \<Rightarrow> q\<lparr>pq_shuffle_order := Some (rng_shuffle order)\<rparr>)"

definition queue_unshuffle :: "playback_queue \<Rightarrow> playback_queue" where
  "queue_unshuffle q = q\<lparr>pq_shuffle_order := None\<rparr>"

definition queue_is_shuffled :: "playback_queue \<Rightarrow> bool" where
  "queue_is_shuffled q \<longleftrightarrow> pq_shuffle_order q \<noteq> None"

definition queue_len :: "playback_queue \<Rightarrow> nat" where
  "queue_len q = length (pq_items q)"

definition queue_is_empty :: "playback_queue \<Rightarrow> bool" where
  "queue_is_empty q \<longleftrightarrow> pq_items q = []"

text \<open>The slices \<open>order[position + 1..]\<close> and \<open>items[start..]\<close> panic when they start past the end.\<close>

definition queue_upcoming :: "playback_queue \<Rightarrow> nat \<Rightarrow> queue_item list option" where
  "queue_upcoming q limit =
     (let start = (case pq_current_index q of None \<Rightarrow> 0 | Some i \<Rightarrow> i + 1)
      in case pq_shuffle_order q of
           Some order \<Rightarrow>
             if pq_shuffle_position q + 1 \<le> length order
             then Some (List.map_filter (queue_get q) (take limit (drop (pq_shuffle_position q + 1) order)))
             else None
         | None \<Rightarrow>
             if start \<le> length (pq_items q) then Some (take limit (drop start (pq_items q))) else None)"

section \<open>Re-indexing\<close>

lemma length_vec_insert [simp]: "i \<le> length xs \<Longrightarrow> length (vec_insert xs i x) = Suc (length xs)"
  by (simp add: vec_insert_def)

lemma length_vec_remove [simp]: "i < length xs \<Longrightarrow> length (vec_remove xs i) = length xs - 1"
  by (simp add: vec_remove_def)

lemma vec_insert_at: "i \<le> length xs \<Longrightarrow> vec_insert xs i x ! i = x"
  by (simp add: vec_insert_def nth_append)

lemma vec_insert_shift:
  "i \<le> length xs \<Longrightarrow> j < length xs \<Longrightarrow> vec_insert xs i x ! insert_shift i j = xs ! j"
  by (auto simp: vec_insert_def nth_append insert_shift_def)

lemma vec_remove_shift:
  "i < length xs \<Longrightarrow> j < length xs \<Longrightarrow> j \<noteq> i \<Longrightarrow> vec_remove xs i ! remove_shift i j = xs ! j"
  by (auto simp: vec_remove_def nth_append remove_shift_def)

lemma move_shift_split:
  "move_shift f t j = (if j = f then t else insert_shift t (remove_shift f j))"
  by (auto simp: move_shift_def insert_shift_def remove_shift_def)

lemma vec_move_shift:
  assumes "f < length xs" and "t < length xs" and "j < length xs"
  shows "vec_insert (vec_remove xs f) t (xs ! f) ! move_shift f t j = xs ! j"
proof (cases "j = f")
  case False
  then have "remove_shift f j < length (vec_remove xs f)" using assms by (auto simp: remove_shift_def)
  with False assms show ?thesis by (simp add: move_shift_split vec_insert_shift vec_remove_shift)
qed (use assms in \<open>simp add: move_shift_split vec_insert_at\<close>)

text \<open>A play order over \<open>n\<close> items: every index exactly once.\<close>

definition is_order :: "nat list \<Rightarrow> nat \<Rightarrow> bool" where
  "is_order order n \<longleftrightarrow> distinct order \<and> set order = {..<n}"

lemma is_order_mset: "is_order order n \<longleftrightarrow> mset order = mset [0..<n]"
proof
  assume "is_order order n"
  then have d: "distinct order" and s: "set order = set [0..<n]"
    unfolding is_order_def set_upt lessThan_atLeast0 by blast+
  show "mset order = mset [0..<n]"
    by (rule set_eq_iff_mset_eq_distinct [OF d distinct_upt, THEN iffD1, OF s])
next
  assume m: "mset order = mset [0..<n]"
  from mset_eq_setD [OF m] mset_eq_imp_distinct_iff [OF m] show "is_order order n"
    unfolding is_order_def set_upt lessThan_atLeast0 by (simp only: distinct_upt simp_thms)
qed

lemma is_order_length: "is_order order n \<Longrightarrow> length order = n"
  by (metis is_order_mset diff_zero length_upt size_mset)

lemma is_order_nth: "is_order order n \<Longrightarrow> p < length order \<Longrightarrow> order ! p < n"
  unfolding is_order_def using nth_mem by fastforce

lemma is_order_add: "is_order order n \<Longrightarrow> is_order (order @ [n]) (Suc n)"
  by (simp add: is_order_mset)

lemma is_order_insert:
  assumes "is_order order n" and "i \<le> n"
  shows "is_order (map (insert_shift i) order @ [i]) (Suc n)"
proof -
  have inj: "inj_on (insert_shift i) S" for S by (auto simp: inj_on_def insert_shift_def split: if_splits)
  have "insert_shift i ` {..<n} = {..<Suc n} - {i}"
  proof
    show "{..<Suc n} - {i} \<subseteq> insert_shift i ` {..<n}"
    proof
      fix j assume "j \<in> {..<Suc n} - {i}"
      then have "j = insert_shift i (remove_shift i j)" and "remove_shift i j < n"
        using assms(2) by (auto simp: insert_shift_def remove_shift_def)
      then show "j \<in> insert_shift i ` {..<n}" by blast
    qed
  qed (auto simp: insert_shift_def)
  with assms inj show ?thesis by (auto simp: is_order_def distinct_map)
qed

lemma is_order_remove:
  assumes "is_order order n" and "i < n"
  shows "is_order (map (remove_shift i) (filter (\<lambda>j. j \<noteq> i) order)) (n - 1)"
proof -
  have inj: "inj_on (remove_shift i) (S - {i})" for S
    by (auto simp: inj_on_def remove_shift_def split: if_splits)
  have "remove_shift i ` ({..<n} - {i}) = {..<n - 1}"
  proof
    show "{..<n - 1} \<subseteq> remove_shift i ` ({..<n} - {i})"
    proof
      fix j assume "j \<in> {..<n - 1}"
      then have "j = remove_shift i (insert_shift i j)" and "insert_shift i j \<in> {..<n} - {i}"
        by (auto simp: insert_shift_def remove_shift_def)
      then show "j \<in> remove_shift i ` ({..<n} - {i})" by blast
    qed
  qed (use assms in \<open>auto simp: remove_shift_def\<close>)
  moreover have "set (filter (\<lambda>j. j \<noteq> i) order) = {..<n} - {i}" using assms by (auto simp: is_order_def)
  ultimately show ?thesis using assms inj by (auto simp: is_order_def distinct_map)
qed

lemma is_order_move:
  assumes "is_order order n" and "f < n" and "t < n"
  shows "is_order (map (move_shift f t) order) n"
proof -
  have inj: "inj_on (move_shift f t) {..<n}" by (auto simp: inj_on_def move_shift_def split: if_splits)
  have "move_shift f t ` {..<n} \<subseteq> {..<n}" using assms by (auto simp: move_shift_def)
  then have "move_shift f t ` {..<n} = {..<n}" by (rule endo_inj_surj [OF finite_lessThan _ inj])
  with assms inj show ?thesis by (auto simp: is_order_def distinct_map)
qed

section \<open>Invariant\<close>

definition queue_ok :: "playback_queue \<Rightarrow> bool" where
  "queue_ok q \<longleftrightarrow>
     (case pq_current_index q of None \<Rightarrow> True | Some i \<Rightarrow> i < length (pq_items q))
     \<and> (case pq_shuffle_order q of None \<Rightarrow> True | Some order \<Rightarrow> is_order order (length (pq_items q)))
     \<and> length (pq_history q) \<le> pq_max_history q"

lemma position_of_Some:
  "position_of P xs = Some i \<Longrightarrow> i < length xs \<and> P (xs ! i) \<and> (\<forall>j<i. \<not> P (xs ! j))"
proof (induction xs arbitrary: i)
  case (Cons x xs)
  then show ?case by (auto simp: less_Suc_eq_0_disj split: if_splits)
qed simp

lemma position_of_None: "position_of P xs = None \<longleftrightarrow> (\<forall>x\<in>set xs. \<not> P x)"
  by (induction xs) auto

lemma position_of_id:
  assumes "distinct (map qi_id items)" and "i < length items"
  shows "position_of (\<lambda>item. qi_id item = qi_id (items ! i)) items = Some i"
proof (cases "position_of (\<lambda>item. qi_id item = qi_id (items ! i)) items")
  case None
  then show ?thesis using assms(2) nth_mem unfolding position_of_None by blast
next
  case (Some j)
  from position_of_Some [OF this] assms have "j = i" by (auto simp: distinct_conv_nth)
  with Some show ?thesis by simp
qed

lemma queue_new_ok: "queue_ok queue_new"
  by (simp add: queue_ok_def queue_new_def)

lemma queue_add_ok: "queue_ok q \<Longrightarrow> queue_ok (fst (queue_add c q t))"
  by (auto simp: queue_ok_def queue_add_def Let_def is_order_add split: option.splits prod.splits)

lemma queue_insert_ok: "queue_ok q \<Longrightarrow> queue_ok (fst (queue_insert c q i t))"
  by (auto simp: queue_ok_def queue_insert_def Let_def is_order_insert split: option.splits prod.splits)

lemma queue_remove_ok:
  assumes "queue_ok q"
  shows "queue_ok (fst (queue_remove q k))"
proof (cases "position_of (\<lambda>item. qi_id item = k) (pq_items q)")
  case (Some i)
  let ?q = "fst (queue_remove q k)"
  have i: "i < length (pq_items q)" using position_of_Some [OF Some] by simp
  have items: "pq_items ?q = vec_remove (pq_items q) i" by (simp add: queue_remove_def Some Let_def)
  have "case pq_current_index ?q of None \<Rightarrow> True | Some c \<Rightarrow> c < length (pq_items ?q)"
  proof (cases "pq_current_index q")
    case (Some c)
    have "c < length (pq_items q)" using assms Some by (simp add: queue_ok_def)
    then show ?thesis
      using i Some \<open>position_of _ _ = Some i\<close> length_vec_remove [OF i]
      by (cases "vec_remove (pq_items q) i") (auto simp: queue_remove_def Let_def)
  qed (simp add: queue_remove_def Some Let_def)
  moreover have "case pq_shuffle_order ?q of None \<Rightarrow> True | Some order \<Rightarrow> is_order order (length (pq_items ?q))"
    using assms i is_order_remove [of _ "length (pq_items q)" i] unfolding items length_vec_remove [OF i]
    by (auto simp: queue_remove_def Some Let_def queue_ok_def split: option.splits)
  moreover have "length (pq_history ?q) \<le> pq_max_history ?q"
    using assms by (simp add: queue_remove_def Some Let_def queue_ok_def)
  ultimately show ?thesis by (simp add: queue_ok_def)
qed (use assms in \<open>simp add: queue_remove_def\<close>)

text \<open>The current index is re-indexed the way the shuffle order is.\<close>

lemma queue_move_track_eq:
  assumes "f < length (pq_items q)" and "t < length (pq_items q)"
  shows "queue_move_track q f t =
    q\<lparr>pq_items := vec_insert (vec_remove (pq_items q) f) t (pq_items q ! f),
      pq_current_index := map_option (move_shift f t) (pq_current_index q),
      pq_shuffle_order := map_option (map (move_shift f t)) (pq_shuffle_order q)\<rparr>"
proof -
  have "(\<lambda>c. if c = f then t else if f < c \<and> t \<ge> c then c - 1
             else if f > c \<and> t \<le> c then c + 1 else c) = move_shift f t"
    by (auto simp: move_shift_def fun_eq_iff)
  with assms show ?thesis by (simp add: queue_move_track_def)
qed

lemma queue_move_track_out:
  "\<not> (f < length (pq_items q) \<and> t < length (pq_items q)) \<Longrightarrow> queue_move_track q f t = q"
  by (auto simp: queue_move_track_def)

lemma queue_move_ok:
  assumes "queue_ok q"
  shows "queue_ok (queue_move_track q f t)"
proof (cases "f < length (pq_items q) \<and> t < length (pq_items q)")
  case True
  then have len: "length (vec_insert (vec_remove (pq_items q) f) t (pq_items q ! f)) = length (pq_items q)"
    by (subst length_vec_insert) auto
  have "move_shift f t i < length (pq_items q)" if "i < length (pq_items q)" for i
    using that True by (auto simp: move_shift_def)
  with True assms show ?thesis
    unfolding queue_ok_def queue_move_track_eq [OF True [THEN conjunct1] True [THEN conjunct2]]
    by (simp add: len is_order_move split: option.splits)
qed (use assms in \<open>simp add: queue_move_track_out\<close>)

lemma queue_clear_ok: "queue_ok q \<Longrightarrow> queue_ok (queue_clear q)"
  by (simp add: queue_ok_def queue_clear_def)

lemma queue_add_to_history_ok: "queue_ok q \<Longrightarrow> queue_ok (queue_add_to_history q k)"
  by (auto simp: queue_ok_def queue_add_to_history_def Let_def split: option.splits)

lemma queue_add_to_history_simps [simp]:
  "pq_items (queue_add_to_history q k) = pq_items q"
  "pq_current_index (queue_add_to_history q k) = pq_current_index q"
  "pq_shuffle_order (queue_add_to_history q k) = pq_shuffle_order q"
  "pq_shuffle_position (queue_add_to_history q k) = pq_shuffle_position q"
  "pq_max_history (queue_add_to_history q k) = pq_max_history q"
  by (simp_all add: queue_add_to_history_def Let_def)

lemma queue_ok_current: "queue_ok q \<Longrightarrow> i < length (pq_items q) \<Longrightarrow> queue_ok (q\<lparr>pq_current_index := Some i\<rparr>)"
  by (simp add: queue_ok_def split: option.splits)

lemma queue_ok_position: "queue_ok (q\<lparr>pq_shuffle_position := p\<rparr>) = queue_ok q"
  by (simp add: queue_ok_def split: option.splits)

lemma queue_ok_history: "queue_ok q \<Longrightarrow> queue_ok (q\<lparr>pq_history := butlast (pq_history q)\<rparr>)"
  by (auto simp: queue_ok_def split: option.splits)

lemma queue_ok_order:
  "queue_ok q \<Longrightarrow> pq_shuffle_order q = Some order \<Longrightarrow> p < length order \<Longrightarrow> order ! p < length (pq_items q)"
  by (auto simp: queue_ok_def is_order_nth)

lemma queue_set_current_ok: "queue_ok q \<Longrightarrow> queue_ok (fst (queue_set_current q i))"
  by (auto simp: queue_set_current_def Let_def queue_ok_current queue_add_to_history_ok split: option.splits)

lemma queue_skip_to_ok: "queue_ok q \<Longrightarrow> queue_ok (fst (queue_skip_to q k))"
  by (auto simp: queue_skip_to_def queue_set_current_ok split: option.splits)

lemma queue_advance_ok: "queue_ok q \<Longrightarrow> queue_ok (fst (queue_advance q))"
  by (auto simp: queue_advance_def Let_def queue_ok_position intro!: queue_set_current_ok split: option.splits)

lemma queue_previous_in_order_ok:
  assumes "queue_ok q" and "queue_previous_in_order q = Some (q', x)"
  shows "queue_ok q'"
proof (cases "pq_shuffle_order q")
  case None
  with assms show ?thesis
    by (auto simp: queue_previous_in_order_def Let_def queue_ok_def split: option.splits if_splits)
next
  case (Some order)
  let ?p = "pq_shuffle_position q - 1"
  from Some assms(2) consider "q' = q"
    | "?p < length order" "q' = q\<lparr>pq_shuffle_position := ?p, pq_current_index := Some (order ! ?p)\<rparr>"
    by (auto simp: queue_previous_in_order_def Let_def split: if_splits)
  then show ?thesis
  proof cases
    case 2
    with assms Some queue_ok_order [of q order ?p] show ?thesis by (simp add: queue_ok_def)
  qed (use assms in simp)
qed

lemma queue_previous_ok:
  assumes "queue_ok q" and "queue_previous q = Some (q', x)"
  shows "queue_ok q'"
proof -
  let ?q1 = "q\<lparr>pq_history := butlast (pq_history q)\<rparr>"
  have ok1: "queue_ok ?q1" using assms(1) by (rule queue_ok_history)
  from assms(2) consider "queue_previous_in_order q = Some (q', x)"
    | "queue_previous_in_order ?q1 = Some (q', x)"
    | i where "i < length (pq_items q)" "q' = ?q1\<lparr>pq_current_index := Some i\<rparr>"
    by (auto simp: queue_previous_def Let_def dest: position_of_Some split: if_splits option.splits)
  then show ?thesis
    by cases (use ok1 assms(1) queue_previous_in_order_ok queue_ok_current [of ?q1] in \<open>simp_all\<close>)
qed

lemma is_order_shuffle:
  assumes "\<And>xs. mset (rng_shuffle xs) = mset xs"
  shows "is_order (rng_shuffle [0..<n]) n"
    and "i < n \<Longrightarrow> is_order (i # rng_shuffle (filter (\<lambda>j. j \<noteq> i) [0..<n])) n"
proof -
  show "is_order (rng_shuffle [0..<n]) n" by (simp add: is_order_mset assms)
  have s: "set (rng_shuffle xs) = set xs" and d: "distinct (rng_shuffle xs) = distinct xs" for xs
    using assms [of xs] mset_eq_setD mset_eq_imp_distinct_iff by blast+
  show "i < n \<Longrightarrow> is_order (i # rng_shuffle (filter (\<lambda>j. j \<noteq> i) [0..<n])) n"
    by (auto simp: is_order_def s d)
qed

lemma queue_shuffle_ok:
  "queue_ok q \<Longrightarrow> (\<And>xs. mset (rng_shuffle xs) = mset xs) \<Longrightarrow> queue_ok (queue_shuffle rng_shuffle q)"
  by (auto simp: queue_ok_def queue_shuffle_def Let_def is_order_shuffle split: option.splits)

lemma queue_unshuffle_ok: "queue_ok q \<Longrightarrow> queue_ok (queue_unshuffle q)"
  by (simp add: queue_ok_def queue_unshuffle_def split: option.splits)

lemmas queue_ops_ok = queue_add_ok queue_insert_ok queue_remove_ok queue_move_ok queue_clear_ok
  queue_set_current_ok queue_skip_to_ok queue_advance_ok queue_shuffle_ok queue_unshuffle_ok

section \<open>The machine of queue operations\<close>

text \<open>
  Any sequence of queue operations, with the identifier counter; \<open>previous\<close> steps where it does
  not panic, and every shuffle is by some permutation.
\<close>

inductive queue_step :: "u64 \<times> playback_queue \<Rightarrow> u64 \<times> playback_queue \<Rightarrow> bool" where
  "queue_add c q t = (q', k, c') \<Longrightarrow> queue_step (c, q) (c', q')"
| "queue_insert c q i t = (q', k, c') \<Longrightarrow> queue_step (c, q) (c', q')"
| "queue_add_next c q t = (q', k, c') \<Longrightarrow> queue_step (c, q) (c', q')"
| "queue_remove q k = (q', x) \<Longrightarrow> queue_step (c, q) (c, q')"
| "queue_step (c, q) (c, queue_move_track q f t)"
| "queue_step (c, q) (c, queue_clear q)"
| "queue_set_current q i = (q', r) \<Longrightarrow> queue_step (c, q) (c, q')"
| "queue_skip_to q k = (q', r) \<Longrightarrow> queue_step (c, q) (c, q')"
| "queue_advance q = (q', x) \<Longrightarrow> queue_step (c, q) (c, q')"
| "queue_previous q = Some (q', x) \<Longrightarrow> queue_step (c, q) (c, q')"
| "(\<And>xs. mset (rng_shuffle xs) = mset xs) \<Longrightarrow> queue_step (c, q) (c, queue_shuffle rng_shuffle q)"
| "queue_step (c, q) (c, queue_unshuffle q)"

lemma queue_step_ok: "queue_step s s' \<Longrightarrow> queue_ok (snd s) \<Longrightarrow> queue_ok (snd s')"
proof (induction rule: queue_step.induct)
  case (1 c q t q' k c')
  then show ?case using queue_add_ok [of q c t] by simp
next
  case (2 c q i t q' k c')
  then show ?case using queue_insert_ok [of q c i t] by simp
next
  case (3 c q t q' k c')
  then show ?case using queue_insert_ok [of q c _ t] by (metis fst_conv queue_add_next_def snd_conv)
next
  case (10 q q' x c)
  then show ?case using queue_previous_ok [of q q' x] by simp
next
  case (4 q k q' x c)
  then show ?case using queue_remove_ok [of q k] by simp
next
  case (7 q i q' r c)
  then show ?case using queue_set_current_ok [of q i] by simp
next
  case (8 q k q' r c)
  then show ?case using queue_skip_to_ok [of q k] by simp
next
  case (9 q q' x c)
  then show ?case using queue_advance_ok [of q] by simp
qed (simp_all add: queue_ops_ok)

interpretation queue: guarded_machine queue_step "\<lambda>s. snd s = queue_new" "\<lambda>s. queue_ok (snd s)"
  by unfold_locales (auto simp: queue_new_ok intro: queue_step_ok)

interpretation history: recent_window queue_add_to_history pq_history pq_max_history
  "\<lambda>q. length (pq_history q) \<le> pq_max_history q"
  by unfold_locales (auto simp: queue_add_to_history_def Let_def last_n_def)

section \<open>Play lists\<close>

text \<open>The tracks in the order in which the queue would play them from the start.\<close>

definition play_list :: "playback_queue \<Rightarrow> queue_item list" where
  "play_list q = (case pq_shuffle_order q of
                    None \<Rightarrow> pq_items q
                  | Some order \<Rightarrow> map (\<lambda>i. pq_items q ! i) order)"

lemma queue_ok_order_set:
  "queue_ok q \<Longrightarrow> pq_shuffle_order q = Some order \<Longrightarrow> j \<in> set order \<Longrightarrow> j < length (pq_items q)"
  by (auto simp: queue_ok_def is_order_def)

lemma play_list_insert:
  assumes "queue_ok q" and "queue_is_shuffled q" and "queue_item_new c t (length (pq_items q)) = (item, c')"
  shows "play_list (fst (queue_insert c q i t)) = play_list q @ [item]"
  using assms
  by (auto simp: queue_is_shuffled_def play_list_def queue_insert_def Let_def vec_insert_at vec_insert_shift
      queue_ok_order_set)

lemma current_insert:
  assumes "queue_ok q"
  shows "queue_current (fst (queue_insert c q i t)) = queue_current q"
proof (cases "pq_current_index q")
  case (Some k)
  then have k: "k < length (pq_items q)" using assms by (simp add: queue_ok_def)
  let ?j = "min i (length (pq_items q))"
  have "(if ?j \<le> k then k + 1 else k) = insert_shift ?j k" by (simp add: insert_shift_def)
  moreover have "insert_shift ?j k < Suc (length (pq_items q))" using k by (simp add: insert_shift_def)
  ultimately show ?thesis
    using Some k vec_insert_shift [of ?j "pq_items q" k]
    by (simp add: queue_current_def queue_insert_def Let_def queue_get_def del: min_less_iff_conj split: prod.splits)
qed (simp add: queue_current_def queue_insert_def Let_def split: prod.splits)

lemma play_list_move:
  assumes "queue_ok q" and "queue_is_shuffled q"
  shows "play_list (queue_move_track q f t) = play_list q"
proof (cases "f < length (pq_items q) \<and> t < length (pq_items q)")
  case True
  then show ?thesis using assms
    by (auto simp: queue_is_shuffled_def play_list_def queue_move_track_eq vec_move_shift queue_ok_order_set)
qed (simp add: queue_move_track_out)

lemma current_move:
  assumes "queue_ok q"
  shows "queue_current (queue_move_track q f t) = queue_current q"
proof (cases "f < length (pq_items q) \<and> t < length (pq_items q)")
  case True
  then have len: "length (vec_insert (vec_remove (pq_items q) f) t (pq_items q ! f)) = length (pq_items q)"
    by (subst length_vec_insert) auto
  have "move_shift f t i < length (pq_items q)" if "i < length (pq_items q)" for i
    using that True by (auto simp: move_shift_def)
  with True assms show ?thesis
    by (auto simp: queue_current_def queue_move_track_eq queue_get_def len vec_move_shift queue_ok_def
        split: option.splits)
qed (simp add: queue_move_track_out)

lemma play_list_remove:
  assumes ok: "queue_ok q" and d: "distinct (map qi_id (pq_items q))" and s: "queue_is_shuffled q"
  shows "play_list (fst (queue_remove q k)) = filter (\<lambda>x. qi_id x \<noteq> k) (play_list q)"
proof -
  obtain order where o: "pq_shuffle_order q = Some order" using s by (auto simp: queue_is_shuffled_def)
  note lt = queue_ok_order_set [OF ok o]
  show ?thesis
  proof (cases "position_of (\<lambda>item. qi_id item = k) (pq_items q)")
    case None
    then have "qi_id (pq_items q ! j) \<noteq> k" if "j \<in> set order" for j
      using lt [OF that] by (auto simp: position_of_None)
    then show ?thesis by (auto simp: queue_remove_def None play_list_def o filter_id_conv)
  next
    case (Some i)
    then have i: "i < length (pq_items q)" and k: "qi_id (pq_items q ! i) = k"
      using position_of_Some [OF Some] by simp_all
    have "qi_id (pq_items q ! j) \<noteq> k \<longleftrightarrow> j \<noteq> i" if "j \<in> set order" for j
      using d i k lt [OF that] by (auto simp: distinct_conv_nth)
    then have "filter (\<lambda>x. qi_id x \<noteq> k) (play_list q) = map (\<lambda>j. pq_items q ! j) (filter (\<lambda>j. j \<noteq> i) order)"
      by (auto simp: play_list_def o filter_map comp_def intro!: arg_cong [where f = "map _"] filter_cong)
    then show ?thesis using i lt by (simp add: queue_remove_def Some Let_def play_list_def o vec_remove_shift)
  qed
qed

lemma current_remove:
  assumes ok: "queue_ok q" and d: "distinct (map qi_id (pq_items q))"
    and x: "queue_current q = Some x" and k: "qi_id x \<noteq> k"
  shows "queue_current (fst (queue_remove q k)) = Some x"
proof (cases "position_of (\<lambda>item. qi_id item = k) (pq_items q)")
  case (Some i)
  then have i: "i < length (pq_items q)" "qi_id (pq_items q ! i) = k"
    using position_of_Some [OF Some] by simp_all
  obtain c where c: "pq_current_index q = Some c" "c < length (pq_items q)" "pq_items q ! c = x"
    using x by (auto simp: queue_current_def queue_get_def bind_eq_Some_conv split: if_splits)
  have ci: "c \<noteq> i" using c i k by auto
  then have "pq_current_index (fst (queue_remove q k)) = Some (remove_shift i c)"
    by (auto simp: queue_remove_def Some Let_def c remove_shift_def)
  moreover have "remove_shift i c < length (vec_remove (pq_items q) i)"
    using i c ci by (auto simp: remove_shift_def)
  ultimately show ?thesis
    using i c ci vec_remove_shift [of i "pq_items q" c]
    by (simp add: queue_current_def queue_get_def) (simp add: queue_remove_def Some Let_def)
qed (use x in \<open>simp add: queue_remove_def\<close>)

section \<open>Playing through\<close>

text \<open>The items that repeated calls of \<open>advance\<close> return, until one returns nothing.\<close>

primrec queue_advances :: "nat \<Rightarrow> playback_queue \<Rightarrow> queue_item list" where
  "queue_advances 0 q = []"
| "queue_advances (Suc n) q =
     (case queue_advance q of (q', None) \<Rightarrow> [] | (q', Some x) \<Rightarrow> x # queue_advances n q')"

lemma queue_set_current_simps:
  assumes "i < length (pq_items q)"
  shows "pq_items (fst (queue_set_current q i)) = pq_items q"
    and "pq_current_index (fst (queue_set_current q i)) = Some i"
    and "pq_shuffle_order (fst (queue_set_current q i)) = pq_shuffle_order q"
    and "pq_shuffle_position (fst (queue_set_current q i)) = pq_shuffle_position q"
    and "queue_current (fst (queue_set_current q i)) = Some (pq_items q ! i)"
  using assms by (simp_all add: queue_set_current_def queue_current_def queue_get_def Let_def split: option.splits)

lemma queue_advance_shuffled:
  assumes "queue_ok q" and "pq_shuffle_order q = Some order" and "pq_shuffle_position q + 1 < length order"
  shows "\<exists>q'. queue_advance q = (q', Some (pq_items q ! (order ! (pq_shuffle_position q + 1)))) \<and> queue_ok q'
    \<and> pq_items q' = pq_items q \<and> pq_shuffle_order q' = Some order
    \<and> pq_shuffle_position q' = pq_shuffle_position q + 1"
proof -
  let ?q1 = "q\<lparr>pq_shuffle_position := pq_shuffle_position q + 1\<rparr>"
  let ?i = "order ! (pq_shuffle_position q + 1)"
  have i: "?i < length (pq_items ?q1)" using queue_ok_order [OF assms] by simp
  have "queue_advance q = (fst (queue_set_current ?q1 ?i), Some (pq_items q ! ?i))"
    using assms i by (simp add: queue_advance_def Let_def queue_set_current_simps)
  moreover from this have "queue_ok (fst (queue_set_current ?q1 ?i))" using queue_advance_ok [OF assms(1)] by simp
  ultimately show ?thesis using i assms by (auto simp: queue_set_current_simps)
qed

lemma queue_advances_shuffled:
  "queue_ok q \<Longrightarrow> pq_shuffle_order q = Some order \<Longrightarrow>
   queue_advances n q = take n (drop (pq_shuffle_position q + 1) (play_list q))"
proof (induction n arbitrary: q)
  case (Suc n)
  show ?case
  proof (cases "pq_shuffle_position q + 1 < length order")
    case True
    obtain q' where q': "queue_advance q = (q', Some (pq_items q ! (order ! (pq_shuffle_position q + 1))))"
      "queue_ok q'" "pq_items q' = pq_items q" "pq_shuffle_order q' = Some order"
      "pq_shuffle_position q' = pq_shuffle_position q + 1"
      using queue_advance_shuffled [OF Suc.prems True] by blast
    have pl: "play_list q' = play_list q" using q' Suc.prems by (simp add: play_list_def)
    have "drop (pq_shuffle_position q + 1) (play_list q) =
        pq_items q ! (order ! (pq_shuffle_position q + 1)) # drop (pq_shuffle_position q + 2) (play_list q)"
      using True Suc.prems by (simp add: play_list_def drop_map Cons_nth_drop_Suc [symmetric])
    then show ?thesis using Suc.IH [OF q'(2,4)] pl q' by simp
  next
    case False
    with Suc.prems show ?thesis by (simp add: queue_advance_def play_list_def)
  qed
qed simp

lemma queue_advances_plain:
  "pq_shuffle_order q = None \<Longrightarrow> pq_current_index q = Some i \<Longrightarrow>
   queue_advances n q = take n (drop (i + 1) (pq_items q))"
proof (induction n arbitrary: q i)
  case (Suc n)
  show ?case
  proof (cases "i + 1 < length (pq_items q)")
    case True
    let ?q = "fst (queue_set_current q (i + 1))"
    have "queue_advance q = (?q, Some (pq_items q ! (i + 1)))"
      using True Suc.prems by (simp add: queue_advance_def Let_def queue_set_current_simps)
    moreover have "queue_advances n ?q = take n (drop (i + 2) (pq_items q))"
      using Suc.IH [of ?q "i + 1"] True Suc.prems by (simp add: queue_set_current_simps)
    moreover have "drop (i + 1) (pq_items q) = pq_items q ! (i + 1) # drop (i + 2) (pq_items q)"
      using True by (simp add: Cons_nth_drop_Suc [symmetric])
    ultimately show ?thesis by simp
  next
    case False
    with Suc.prems show ?thesis by (simp add: queue_advance_def)
  qed
qed simp

lemma map_filter_get:
  "\<forall>i\<in>set xs. i < length (pq_items q) \<Longrightarrow> List.map_filter (queue_get q) xs = map (\<lambda>i. pq_items q ! i) xs"
  by (induction xs) (simp_all add: List.map_filter_def queue_get_def)

lemma queue_upcoming_shuffled:
  assumes "queue_ok q" and "pq_shuffle_order q = Some order" and "queue_upcoming q n = Some xs"
  shows "xs = take n (drop (pq_shuffle_position q + 1) (play_list q))"
proof -
  have "\<forall>i\<in>set (take n (drop (pq_shuffle_position q + 1) order)). i < length (pq_items q)"
    using queue_ok_order_set [OF assms(1,2)] by (auto dest: in_set_takeD in_set_dropD)
  with assms(2,3) show ?thesis
    by (simp add: queue_upcoming_def map_filter_get play_list_def drop_map take_map Let_def split: if_splits)
qed

lemma mset_play_list: "queue_ok q \<Longrightarrow> mset (play_list q) = mset (pq_items q)"
proof (cases "pq_shuffle_order q")
  case (Some order)
  assume "queue_ok q"
  with Some have "mset order = mset [0..<length (pq_items q)]" by (simp only: queue_ok_def is_order_mset option.case)
  then have "mset (map (\<lambda>i. pq_items q ! i) order) = mset (map (\<lambda>i. pq_items q ! i) [0..<length (pq_items q)])"
    by (simp only: mset_map)
  with Some show ?thesis by (simp only: play_list_def option.case map_nth)
qed (simp add: play_list_def)

section \<open>Properties\<close>

text \<open>
  Whatever sequence of operations is applied to a new queue, the current index points
  into the items, the shuffle order holds every item index exactly once, and the history
  never exceeds its bound of one hundred entries.
\<close>

theorem queue_reachable_ok:
  assumes "queue_step\<^sup>*\<^sup>* (c, queue_new) (c', q)"
  shows "queue_ok q"
  using queue.reachable_safe [OF _ assms] by simp

definition queue_demo :: playback_queue where
  "queue_demo =
     (let t = track_info_new ''u'' ''t'' ''a'';
          (q1, _, c1) = queue_add 1 queue_new t; (q2, _, c2) = queue_add c1 q1 t; (q3, _, c3) = queue_add c2 q2 t;
          q4 = fst (queue_set_current q3 0); q5 = queue_shuffle rev q4
      in fst (queue_advance q5))"

lemma queue_demo_eq:
  "queue_demo =
     \<lparr>pq_items = map (\<lambda>n. \<lparr>qi_id = of_nat (n + 1), qi_track = track_info_new ''u'' ''t'' ''a'',
                              qi_original_position = n\<rparr>) [0, 1, 2],
      pq_current_index = Some 2, pq_history = [1], pq_max_history = 100,
      pq_shuffle_order = Some [0, 2, 1], pq_shuffle_position = 1\<rparr>"
  unfolding queue_demo_def by code_simp

lemma queue_demo_ok: "queue_ok queue_demo"
  by (auto simp: queue_demo_eq queue_ok_def is_order_def)

lemma queue_demo_play_list:
  "play_list queue_demo =
     map (\<lambda>n. \<lparr>qi_id = of_nat (n + 1), qi_track = track_info_new ''u'' ''t'' ''a'', qi_original_position = n\<rparr>)
       [0, 2, 1]"
  by (simp add: queue_demo_eq play_list_def)

lemma queue_demo_reachable: "queue_step\<^sup>*\<^sup>* (1, queue_new) (4, queue_demo)"
proof -
  let ?t = "track_info_new ''u'' ''t'' ''a''"
  obtain q1 k1 c1 where a1: "queue_add 1 queue_new ?t = (q1, k1, c1)" by (rule prod_cases3)
  obtain q2 k2 c2 where a2: "queue_add c1 q1 ?t = (q2, k2, c2)" by (rule prod_cases3)
  obtain q3 k3 c3 where a3: "queue_add c2 q2 ?t = (q3, k3, c3)" by (rule prod_cases3)
  have c3: "c3 = 4" using a1 a2 a3 by (auto simp: queue_add_def queue_item_new_def queue_item_id_new_def Let_def)
  obtain q4 r4 where a4: "queue_set_current q3 0 = (q4, r4)" by (rule prod.exhaust)
  obtain q6 x6 where a6: "queue_advance (queue_shuffle rev q4) = (q6, x6)" by (rule prod.exhaust)
  have "queue_demo = q6" by (simp add: queue_demo_def a1 a2 a3 a4 a6 Let_def)
  moreover have "queue_step\<^sup>*\<^sup>* (1, queue_new) (c1, q1)" using queue_step.intros(1) [OF a1] by blast
  moreover have "queue_step\<^sup>*\<^sup>* (c1, q1) (c2, q2)" using queue_step.intros(1) [OF a2] by blast
  moreover have "queue_step\<^sup>*\<^sup>* (c2, q2) (c3, q3)" using queue_step.intros(1) [OF a3] by blast
  moreover have "queue_step\<^sup>*\<^sup>* (c3, q3) (c3, q4)" using queue_step.intros(7) [OF a4] by blast
  moreover have "queue_step\<^sup>*\<^sup>* (c3, q4) (c3, queue_shuffle rev q4)" using queue_step.intros(11) [of rev] by fastforce
  moreover have "queue_step\<^sup>*\<^sup>* (c3, queue_shuffle rev q4) (c3, q6)" using queue_step.intros(9) [OF a6] by blast
  ultimately show ?thesis unfolding c3 by (meson rtranclp_trans)
qed

theorem queue_reachable_ok_witness: "queue_step\<^sup>*\<^sup>* (1, queue_new) (4, queue_demo) \<and> queue_ok queue_demo"
  using queue_demo_reachable queue_reachable_ok [OF queue_demo_reachable] by simp

text \<open>
  Editing a shuffled queue never disturbs the play order: an inserted item is appended to
  the shuffled play list, a removed one disappears from it, a move within the queue leaves it
  as it is, and the current item stays the current item unless it is the one removed.
\<close>

theorem queue_edits_keep_play_list:
  assumes "queue_ok q" and "queue_is_shuffled q" and "distinct (map qi_id (pq_items q))"
    and "queue_item_new c t (length (pq_items q)) = (item, c')"
    and "queue_current q = Some x" and "qi_id x \<noteq> k"
  shows "play_list (fst (queue_insert c q i t)) = play_list q @ [item]
    \<and> play_list (fst (queue_remove q k)) = filter (\<lambda>y. qi_id y \<noteq> k) (play_list q)
    \<and> play_list (queue_move_track q m n) = play_list q
    \<and> queue_current (fst (queue_insert c q i t)) = Some x
    \<and> queue_current (fst (queue_remove q k)) = Some x
    \<and> queue_current (queue_move_track q m n) = Some x"
  using assms
  by (simp add: play_list_insert play_list_remove play_list_move current_insert current_remove current_move)

theorem queue_edits_keep_play_list_witness:
  "map qi_id (play_list (fst (queue_remove queue_demo 1))) = [3, 2]
   \<and> map qi_id (play_list (queue_move_track queue_demo 2 0)) = [1, 3, 2]
   \<and> map_option qi_id (queue_current (queue_move_track queue_demo 2 0)) = Some 3"
proof -
  obtain item c where i: "queue_item_new 4 (track_info_new [] [] []) (length (pq_items queue_demo)) = (item, c)"
    by (rule prod.exhaust)
  obtain x where x: "queue_current queue_demo = Some x" "qi_id x = 3"
    by (simp add: queue_demo_eq queue_current_def queue_get_def)
  have "queue_ok queue_demo" "queue_is_shuffled queue_demo" "distinct (map qi_id (pq_items queue_demo))" "qi_id x \<noteq> 1"
    using x by (simp_all add: queue_demo_ok) (simp_all add: queue_demo_eq queue_is_shuffled_def)
  from queue_edits_keep_play_list [OF this(1-3) i x(1) this(4), of 0 2 0] x(2) show ?thesis
    by (simp add: queue_demo_play_list)
qed

text \<open>
  C35. Shuffled playback is fair: after \<open>shuffle\<close> with a current track, whatever permutation
  the random generator picks, the current track followed by the tracks that \<open>advance\<close> returns
  are exactly the items of the queue, each once.
\<close>

theorem queue_shuffle_plays_all:
  assumes "queue_ok q" and "queue_current q = Some x" and "\<And>xs. mset (rng_shuffle xs) = mset xs"
  shows "mset (x # queue_advances (queue_len q) (queue_shuffle rng_shuffle q)) = mset (pq_items q)"
proof -
  let ?q = "queue_shuffle rng_shuffle q"
  obtain i where i: "pq_current_index q = Some i" "i < length (pq_items q)" "pq_items q ! i = x"
    using assms(2) by (auto simp: queue_current_def queue_get_def bind_eq_Some_conv split: if_splits)
  define rest where "rest = rng_shuffle (filter (\<lambda>j. j \<noteq> i) [0..<length (pq_items q)])"
  have o: "pq_shuffle_order ?q = Some (i # rest)" and p: "pq_shuffle_position ?q = 0" and it: "pq_items ?q = pq_items q"
    using i by (simp_all add: queue_shuffle_def rest_def Let_def)
  have ok: "queue_ok ?q" by (rule queue_shuffle_ok [OF assms(1,3)])
  have pl: "play_list ?q = x # map (\<lambda>j. pq_items q ! j) rest" using i by (simp add: play_list_def o it)
  have len: "length (play_list ?q) = queue_len q"
    using mset_play_list [OF ok] it by (metis queue_len_def size_mset)
  have "queue_advances (queue_len q) ?q = map (\<lambda>j. pq_items q ! j) rest"
    using queue_advances_shuffled [OF ok o, of "queue_len q"] len by (simp add: p pl)
  with mset_play_list [OF ok] show ?thesis by (simp add: pl it)
qed

theorem queue_shuffle_plays_all_witness:
  "mset (pq_items queue_demo ! 2 # queue_advances (queue_len queue_demo) (queue_shuffle rev queue_demo)) =
   mset (pq_items queue_demo)"
proof (rule queue_shuffle_plays_all)
  show "queue_ok queue_demo" by (rule queue_demo_ok)
  show "queue_current queue_demo = Some (pq_items queue_demo ! 2)"
    by (simp add: queue_demo_eq queue_current_def queue_get_def)
qed simp

text \<open>
  \<open>upcoming\<close> predicts playback: when it does not panic, the items it lists are the items
  that the next calls of \<open>advance\<close> return, shuffled or not, given a current track or a shuffle.
\<close>

theorem queue_upcoming_is_advance:
  assumes "queue_ok q" and "queue_is_shuffled q \<or> pq_current_index q \<noteq> None"
    and "queue_upcoming q n = Some xs"
  shows "queue_advances n q = xs"
proof (cases "pq_shuffle_order q")
  case None
  with assms obtain i where "pq_current_index q = Some i" by (auto simp: queue_is_shuffled_def)
  with None assms(3) show ?thesis
    by (simp add: queue_advances_plain queue_upcoming_def Let_def split: if_splits)
next
  case (Some order)
  then show ?thesis using queue_upcoming_shuffled [OF assms(1) Some assms(3)] queue_advances_shuffled [OF assms(1) Some]
    by simp
qed

theorem queue_upcoming_is_advance_witness:
  "map qi_id (queue_advances 5 queue_demo) = [2]"
proof -
  have "queue_upcoming queue_demo 5 = Some [pq_items queue_demo ! 1]"
    by (simp add: queue_upcoming_def queue_demo_eq List.map_filter_def queue_get_def)
  from queue_upcoming_is_advance [OF queue_demo_ok _ this]
  have "queue_advances 5 queue_demo = [pq_items queue_demo ! 1]" by (simp add: queue_is_shuffled_def queue_demo_eq)
  then show ?thesis by (simp add: queue_demo_eq)
qed

lemma queue_advance_history:
  assumes "queue_advance q = (q', Some y)" and "queue_current q = Some x" and "0 < pq_max_history q"
    and "queue_ok q"
  shows "pq_items q' = pq_items q \<and> pq_history q' \<noteq> [] \<and> last (pq_history q') = qi_id x"
proof -
  have set: "pq_items (fst (queue_set_current q1 i)) = pq_items q1
      \<and> pq_history (fst (queue_set_current q1 i)) \<noteq> []
      \<and> last (pq_history (fst (queue_set_current q1 i))) = qi_id x"
    if "i < length (pq_items q1)" "queue_current q1 = Some x" "0 < pq_max_history q1" for q1 i
    using that by (auto simp: queue_set_current_def Let_def queue_add_to_history_def)
  show ?thesis
  proof (cases "pq_shuffle_order q")
    case None
    with assms(1) obtain i where "i < length (pq_items q)" "q' = fst (queue_set_current q i)"
      by (auto simp: queue_advance_def Let_def split: option.splits if_splits)
    with set [of i q] assms show ?thesis by simp
  next
    case (Some order)
    let ?q1 = "q\<lparr>pq_shuffle_position := pq_shuffle_position q + 1\<rparr>"
    have cur: "queue_current ?q1 = Some x" using assms(2) 
      by (auto simp: queue_current_def queue_get_def bind_eq_Some_conv split: if_splits)
    from assms(1) Some obtain "pq_shuffle_position q + 1 < length order"
      and q': "q' = fst (queue_set_current ?q1 (order ! (pq_shuffle_position q + 1)))"
      by (auto simp: queue_advance_def Let_def split: if_splits)
    with queue_ok_order [OF assms(4) Some] have "order ! (pq_shuffle_position q + 1) < length (pq_items ?q1)" by simp
    from set [OF this cur] assms(3) show ?thesis unfolding q' by simp
  qed
qed

text \<open>
  \<open>previous\<close> undoes \<open>advance\<close>: when \<open>advance\<close> left a current track for another one, the
  next \<open>previous\<close> does not panic, returns that track and makes it current again.
\<close>

theorem queue_previous_undoes_advance:
  assumes "queue_ok q" and "distinct (map qi_id (pq_items q))" and "0 < pq_max_history q"
    and "queue_current q = Some x" and "queue_advance q = (q', Some y)"
  shows "\<exists>q''. queue_previous q' = Some (q'', Some x) \<and> pq_current_index q'' = pq_current_index q
    \<and> pq_items q'' = pq_items q"
proof -
  obtain i where i: "pq_current_index q = Some i" "i < length (pq_items q)" "pq_items q ! i = x"
    using assms(4) by (auto simp: queue_current_def queue_get_def bind_eq_Some_conv split: if_splits)
  have h: "pq_items q' = pq_items q" "pq_history q' \<noteq> []" "last (pq_history q') = qi_id x"
    using queue_advance_history [OF assms(5,4,3,1)] by simp_all
  have "position_of (\<lambda>item. qi_id item = qi_id x) (pq_items q) = Some i"
    using position_of_id [OF assms(2) i(2)] i(3) by simp
  with h i show ?thesis by (simp add: queue_previous_def Let_def queue_current_def queue_get_def)
qed

theorem queue_previous_undoes_advance_witness:
  "\<exists>q''. queue_previous (fst (queue_advance queue_demo)) = Some (q'', Some (pq_items queue_demo ! 2))
     \<and> pq_current_index q'' = Some 2"
proof -
  have "queue_current queue_demo = Some (pq_items queue_demo ! 2)"
    by (simp add: queue_demo_eq queue_current_def queue_get_def)
  moreover have "\<exists>q'. queue_advance queue_demo = (q', Some (pq_items queue_demo ! 1))"
    using queue_advance_shuffled [OF queue_demo_ok, of "[0, 2, 1]"] by (auto simp: queue_demo_eq)
  then obtain q' where a: "queue_advance queue_demo = (q', Some (pq_items queue_demo ! 1))" ..
  moreover have "distinct (map qi_id (pq_items queue_demo))" "0 < pq_max_history queue_demo"
      "pq_current_index queue_demo = Some 2"
    by (simp_all add: queue_demo_eq)
  ultimately show ?thesis using queue_previous_undoes_advance [OF queue_demo_ok] by (metis fst_conv)
qed

text \<open>
  The shuffle position is not kept in step with the shuffle order. After adding three
  tracks, shuffling, advancing and removing two tracks, the reachable queue has a position
  past the end of the order, and \<open>upcoming\<close> panics on its slice; and in shuffle mode \<open>previous\<close>
  restores the track from the history but not the position, so that the \<open>advance\<close> after it
  passes over the track that the first \<open>advance\<close> returned.
\<close>

theorem queue_stale_shuffle_position:
  "(\<exists>c q. queue_step\<^sup>*\<^sup>* (1, queue_new) (c, q) \<and> queue_ok q \<and> queue_upcoming q 1 = None)
   \<and> (\<exists>c q. queue_step\<^sup>*\<^sup>* (1, queue_new) (c, q)
        \<and> map_option qi_id (snd (queue_advance q)) = Some 2
        \<and> Option.bind (queue_previous (fst (queue_advance q)))
            (\<lambda>(q', _). map_option qi_id (snd (queue_advance q'))) = None)"
proof (intro conjI exI)
  let ?r1 = "fst (queue_remove queue_demo 1)" and ?r2 = "fst (queue_remove (fst (queue_remove queue_demo 1)) 2)"
  have s1: "queue_step (4, queue_demo) (4, ?r1)" by (rule queue_step.intros(4)) (rule prod.collapse [symmetric])
  have s2: "queue_step (4, ?r1) (4, ?r2)" by (rule queue_step.intros(4)) (rule prod.collapse [symmetric])
  show "queue_step\<^sup>*\<^sup>* (1, queue_new) (4, ?r2)"
    using queue_demo_reachable s1 s2 by (meson rtranclp.rtrancl_into_rtrancl)
  show "queue_ok ?r2" by (intro queue_remove_ok queue_demo_ok)
  show "queue_upcoming ?r2 1 = None"
    unfolding queue_demo_eq by code_simp
  show "queue_step\<^sup>*\<^sup>* (1, queue_new) (4, queue_demo)" by (rule queue_demo_reachable)
  show "map_option qi_id (snd (queue_advance queue_demo)) = Some 2"
    by (simp add: queue_demo_eq queue_advance_def Let_def queue_set_current_def queue_current_def queue_get_def
        queue_add_to_history_def)
  show "Option.bind (queue_previous (fst (queue_advance queue_demo)))
          (\<lambda>(q', _). map_option qi_id (snd (queue_advance q'))) = None"
    by (simp add: queue_demo_eq queue_advance_def queue_previous_def Let_def queue_set_current_def
        queue_current_def queue_get_def queue_add_to_history_def)
qed

end
