(* ===== verification/Ap2_Session.thy ===== *)
theory Ap2_Session
  imports Interfaces
begin

text \<open>
  The AirPlay 2 receiver session states, \<open>src/receiver/ap2/session_state.rs\<close>. A rejected
  transition carries the two states (the code carries their debug rendering). Sessions are
  runs of accepted transitions with the trace of the states entered; the table is an
  instance of \<open>staged_machine\<close>.
\<close>

section \<open>States and transitions\<close>

datatype ap2_session_state =
    Ap2_Connected
  | Ap2_InfoExchanged
  | Ap2_PairingSetup u8
  | Ap2_PairingVerify u8
  | Ap2_Paired
  | Ap2_SetupPhase1
  | Ap2_SetupPhase2
  | Ap2_Streaming
  | Ap2_Paused
  | Ap2_Teardown
  | Ap2_Error u32 string

datatype ap2_state_error = Ap2_InvalidTransition ap2_session_state ap2_session_state

fun ap2_allows_method :: "ap2_session_state \<Rightarrow> string \<Rightarrow> bool" where
  "ap2_allows_method Ap2_Connected m = (m \<in> {''OPTIONS'', ''GET'', ''POST''})"
| "ap2_allows_method Ap2_InfoExchanged m = (m \<in> {''OPTIONS'', ''GET'', ''POST''})"
| "ap2_allows_method (Ap2_PairingSetup _) m = (m \<in> {''OPTIONS'', ''POST''})"
| "ap2_allows_method (Ap2_PairingVerify _) m = (m \<in> {''OPTIONS'', ''POST''})"
| "ap2_allows_method Ap2_Paired m =
     (m \<in> {''OPTIONS'', ''GET'', ''POST'', ''SETUP'', ''GET_PARAMETER'', ''SET_PARAMETER''})"
| "ap2_allows_method Ap2_SetupPhase1 m =
     (m \<in> {''OPTIONS'', ''SETUP'', ''GET_PARAMETER'', ''SET_PARAMETER'', ''TEARDOWN''})"
| "ap2_allows_method Ap2_SetupPhase2 m =
     (m \<in> {''OPTIONS'', ''RECORD'', ''GET_PARAMETER'', ''SET_PARAMETER'', ''TEARDOWN''})"
| "ap2_allows_method Ap2_Streaming m =
     (m \<in> {''OPTIONS'', ''GET_PARAMETER'', ''SET_PARAMETER'', ''FLUSH'', ''TEARDOWN'', ''POST''})"
| "ap2_allows_method Ap2_Paused m =
     (m \<in> {''OPTIONS'', ''RECORD'', ''GET_PARAMETER'', ''SET_PARAMETER'', ''TEARDOWN''})"
| "ap2_allows_method Ap2_Teardown m = (m \<in> {''OPTIONS''})"
| "ap2_allows_method (Ap2_Error _ _) m = False"

definition ap2_is_authenticated :: "ap2_session_state \<Rightarrow> bool" where
  "ap2_is_authenticated s \<longleftrightarrow>
     s \<in> {Ap2_Paired, Ap2_SetupPhase1, Ap2_SetupPhase2, Ap2_Streaming, Ap2_Paused}"

definition ap2_is_streaming :: "ap2_session_state \<Rightarrow> bool" where
  "ap2_is_streaming s \<longleftrightarrow> s = Ap2_Streaming"

definition ap2_requires_encryption :: "ap2_session_state \<Rightarrow> bool" where
  "ap2_requires_encryption s \<longleftrightarrow> ap2_is_authenticated s"

text \<open>The transition table of \<open>transition_to\<close>.\<close>

fun ap2_transition_valid :: "ap2_session_state \<Rightarrow> ap2_session_state \<Rightarrow> bool" where
  "ap2_transition_valid Ap2_Connected n = (n = Ap2_InfoExchanged \<or> n = Ap2_PairingSetup 1)"
| "ap2_transition_valid Ap2_InfoExchanged n = (n = Ap2_PairingSetup 1)"
| "ap2_transition_valid (Ap2_PairingSetup j) n =
     (j = 1 \<and> n = Ap2_PairingSetup 2 \<or> j = 2 \<and> n = Ap2_PairingSetup 3
      \<or> j = 3 \<and> n = Ap2_PairingSetup 4 \<or> j = 4 \<and> n = Ap2_PairingVerify 1)"
| "ap2_transition_valid (Ap2_PairingVerify j) n =
     (j = 1 \<and> n = Ap2_PairingVerify 2 \<or> j = 2 \<and> n = Ap2_PairingVerify 3
      \<or> j = 3 \<and> n = Ap2_PairingVerify 4 \<or> j = 4 \<and> n = Ap2_Paired)"
| "ap2_transition_valid Ap2_Paired n = (n = Ap2_SetupPhase1)"
| "ap2_transition_valid Ap2_SetupPhase1 n = (n = Ap2_SetupPhase2)"
| "ap2_transition_valid Ap2_SetupPhase2 n = (n = Ap2_Streaming)"
| "ap2_transition_valid Ap2_Streaming n = (n = Ap2_Paused)"
| "ap2_transition_valid Ap2_Paused n = (n = Ap2_Streaming)"
| "ap2_transition_valid Ap2_Teardown n = False"
| "ap2_transition_valid (Ap2_Error _ _) n = False"

definition is_ap2_error :: "ap2_session_state \<Rightarrow> bool" where
  "is_ap2_error s = (case s of Ap2_Error _ _ \<Rightarrow> True | _ \<Rightarrow> False)"

definition ap2_transition_to ::
    "ap2_session_state \<Rightarrow> ap2_session_state \<Rightarrow> (ap2_state_error, ap2_session_state) result" where
  "ap2_transition_to s new_state =
     (if is_ap2_error new_state then Inr new_state
      else if new_state = Ap2_Teardown \<and> \<not> (s = Ap2_Connected \<or> is_ap2_error s) then Inr new_state
      else if ap2_transition_valid s new_state then Inr new_state
      else Inl (Ap2_InvalidTransition s new_state))"

section \<open>Session runs\<close>

definition ap2_trans :: "ap2_session_state \<Rightarrow> ap2_session_state \<Rightarrow> bool" where
  "ap2_trans s n \<longleftrightarrow> ap2_transition_to s n = Inr n"

abbreviation ap2_step where "ap2_step \<equiv> trace_step ap2_trans"

text \<open>The states a session must have entered, in order, before it is in a given state.\<close>

definition ap2_pairing :: "ap2_session_state list" where
  "ap2_pairing = map Ap2_PairingSetup [1, 2, 3, 4] @ map Ap2_PairingVerify [1, 2, 3, 4] @ [Ap2_Paired]"

fun ap2_required :: "ap2_session_state \<Rightarrow> ap2_session_state list" where
  "ap2_required (Ap2_PairingSetup k) = map Ap2_PairingSetup (take (unat k) [1, 2, 3, 4])"
| "ap2_required (Ap2_PairingVerify k) =
     map Ap2_PairingSetup [1, 2, 3, 4] @ map Ap2_PairingVerify (take (unat k) [1, 2, 3, 4])"
| "ap2_required Ap2_Paired = ap2_pairing"
| "ap2_required Ap2_SetupPhase1 = ap2_pairing @ [Ap2_SetupPhase1]"
| "ap2_required Ap2_SetupPhase2 = ap2_pairing @ [Ap2_SetupPhase1, Ap2_SetupPhase2]"
| "ap2_required Ap2_Streaming = ap2_pairing @ [Ap2_SetupPhase1, Ap2_SetupPhase2, Ap2_Streaming]"
| "ap2_required Ap2_Paused = ap2_pairing @ [Ap2_SetupPhase1, Ap2_SetupPhase2, Ap2_Streaming]"
| "ap2_required _ = []"

lemma ap2_transition_to_cases:
  assumes "ap2_transition_to s n = Inr t"
  obtains "t = n" "is_ap2_error n" | "t = n" "n = Ap2_Teardown" "s \<noteq> Ap2_Connected" "\<not> is_ap2_error s"
    | "t = n" "ap2_transition_valid s n"
  using assms by (auto simp: ap2_transition_to_def split: if_splits)

lemma ap2_required_valid:
  "ap2_transition_valid s n \<Longrightarrow>
   ap2_required n = [] \<or> ap2_required n = ap2_required s \<or> ap2_required n = ap2_required s @ [n]"
  by (cases s) (auto simp: ap2_pairing_def)

lemma ap2_required_step:
  assumes "ap2_transition_to s n = Inr t"
  shows "t = n \<and> (ap2_required t = [] \<or> ap2_required t = ap2_required s \<or> ap2_required t = ap2_required s @ [t])"
  using assms
proof (cases rule: ap2_transition_to_cases)
  case 1
  then show ?thesis by (cases n) (simp_all add: is_ap2_error_def)
next
  case 3
  then show ?thesis using ap2_required_valid by simp
qed simp

interpretation ap2: staged_machine ap2_trans Ap2_Connected ap2_required
  by unfold_locales (use ap2_required_step in \<open>fastforce simp: ap2_trans_def\<close>)+

lemma ap2_required_authenticated:
  "ap2_is_authenticated s \<Longrightarrow> \<exists>rest. ap2_required s = ap2_pairing @ rest"
  by (auto simp: ap2_is_authenticated_def)

section \<open>Properties\<close>

text \<open>
  A session streams (or is paused) only after the whole set-up protocol: its trace holds,
  in this order, the four pair-setup steps, the four pair-verify steps, \<open>Paired\<close>, both SETUP
  phases and \<open>Streaming\<close>. No sequence of accepted transitions skips a step.
\<close>

theorem ap2_streaming_after_setup:
  assumes "ap2_step\<^sup>*\<^sup>* ([], Ap2_Connected) (trace, s)" and "s = Ap2_Streaming \<or> s = Ap2_Paused"
  shows "subseq (map Ap2_PairingSetup [1, 2, 3, 4] @ map Ap2_PairingVerify [1, 2, 3, 4]
           @ [Ap2_Paired, Ap2_SetupPhase1, Ap2_SetupPhase2, Ap2_Streaming]) trace"
  using ap2.reachable_required [OF assms(1)] assms(2) by (auto simp: ap2_pairing_def)

definition ap2_demo :: "ap2_session_state list" where
  "ap2_demo = [Ap2_InfoExchanged] @ ap2_pairing @ [Ap2_SetupPhase1, Ap2_SetupPhase2, Ap2_Streaming]"

lemma ap2_demo_reachable: "ap2_step\<^sup>*\<^sup>* ([], Ap2_Connected) (ap2_demo, Ap2_Streaming)"
  using follows_steps [of ap2_trans Ap2_Connected ap2_demo "[]"]
  by (simp add: ap2_demo_def ap2_pairing_def ap2_trans_def ap2_transition_to_def is_ap2_error_def)

theorem ap2_streaming_after_setup_witness:
  "ap2_step\<^sup>*\<^sup>* ([], Ap2_Connected) (ap2_demo, Ap2_Streaming)
   \<and> subseq (map Ap2_PairingSetup [1, 2, 3, 4] @ map Ap2_PairingVerify [1, 2, 3, 4]
        @ [Ap2_Paired, Ap2_SetupPhase1, Ap2_SetupPhase2, Ap2_Streaming]) ap2_demo"
  using ap2_demo_reachable ap2_streaming_after_setup [OF ap2_demo_reachable] by simp

text \<open>
  The methods that act on a stream are available only to a paired sender: in a session
  reached from the start, a method other than \<open>OPTIONS\<close>, \<open>GET\<close> and \<open>POST\<close> is allowed only
  in an authenticated state whose trace holds the completed pair-setup and pair-verify, and
  that state requires encryption.
\<close>

theorem ap2_methods_need_pairing:
  assumes "ap2_step\<^sup>*\<^sup>* ([], Ap2_Connected) (trace, s)" and "ap2_allows_method s m"
    and "m \<notin> {''OPTIONS'', ''GET'', ''POST''}"
  shows "ap2_requires_encryption s \<and> subseq ap2_pairing trace"
proof -
  have auth: "ap2_is_authenticated s" using assms(2,3) by (cases s) (auto simp: ap2_is_authenticated_def)
  then obtain rest where "ap2_required s = ap2_pairing @ rest" using ap2_required_authenticated by blast
  with ap2.reachable_required [OF assms(1)] have "subseq (ap2_pairing @ rest) trace" by simp
  then have "subseq ap2_pairing trace" by (rule subseq_order.trans [OF list_emb_prefix [OF subseq_order.refl]])
  with auth show ?thesis by (simp add: ap2_requires_encryption_def)
qed

theorem ap2_methods_need_pairing_witness:
  "ap2_allows_method Ap2_Streaming ''FLUSH'' \<and> ap2_requires_encryption Ap2_Streaming
   \<and> subseq ap2_pairing ap2_demo"
  using ap2_methods_need_pairing [OF ap2_demo_reachable, of "''FLUSH''"] by simp

end
