(* ===== verification/Secure_Channel.thy ===== *)
theory Secure_Channel
  imports Prelude
begin

text \<open>
  The encrypted control channels: the cipher wrapper of \<open>src/protocol/crypto/chacha.rs\<close>, the
  client's HAP session of \<open>src/net/secure.rs\<close>, the receiver's channel of
  \<open>src/receiver/ap2/encrypted_channel.rs\<close> and the pairing channel of
  \<open>src/protocol/pairing/mod.rs\<close>.

  The AEAD of the \<open>chacha20poly1305\<close> crate is a pair of arguments: \<open>aead_enc key nonce aad
  plaintext\<close> is the ciphertext with the 16-byte tag after it, \<open>aead_dec key nonce aad
  ciphertext\<close> the plaintext, \<open>None\<close> a failure; the crate's detached interface splits the
  tag off. What the code relies on are the two named hypotheses \<open>aead_correct\<close> (decryption
  undoes encryption, the tag has 16 bytes) and \<open>aead_rejects_missing_aad\<close> (a ciphertext made
  with an associated datum is rejected without it). A nonce counter that would leave its 64 bits panics: \<open>None\<close>.
\<close>

type_synonym aead = "bytes \<Rightarrow> bytes \<Rightarrow> bytes \<Rightarrow> bytes \<Rightarrow> bytes option"

definition aead_correct :: "aead \<Rightarrow> aead \<Rightarrow> bool" where
  "aead_correct aead_enc aead_dec \<longleftrightarrow>
     (\<forall>k n a p. length k = 32 \<longrightarrow> length n = 12 \<longrightarrow> length p \<le> 65535 \<longrightarrow>
        (\<exists>c. aead_enc k n a p = Some c \<and> length c = length p + 16 \<and> aead_dec k n a c = Some p))"

definition aead_rejects_missing_aad :: "aead \<Rightarrow> aead \<Rightarrow> bool" where
  "aead_rejects_missing_aad aead_enc aead_dec \<longleftrightarrow>
     (\<forall>k n a p c. a \<noteq> [] \<longrightarrow> aead_enc k n a p = Some c \<longrightarrow> aead_dec k n [] c = None)"

section \<open>Nonces and the cipher wrapper\<close>

datatype crypto_error =
    InvalidKeyLength nat nat
  | InvalidSignature
  | VerificationFailed
  | DecryptionFailed
  | EncryptionFailed
  | KeyDerivationFailed
  | SrpError string
  | InvalidPublicKey
  | RngError

definition nonce_from_bytes :: "bytes \<Rightarrow> (crypto_error, bytes) result" where
  "nonce_from_bytes b = (if length b \<noteq> 12 then Inl (InvalidKeyLength 12 (length b)) else Inr b)"

definition nonce_from_counter :: "u64 \<Rightarrow> bytes" where
  "nonce_from_counter counter = replicate 4 0 @ le_bytes 8 counter"

definition cipher_new :: "bytes \<Rightarrow> (crypto_error, bytes) result" where
  "cipher_new key = (if length key \<noteq> 32 then Inl (InvalidKeyLength 32 (length key)) else Inr key)"

definition cipher_encrypt :: "aead \<Rightarrow> bytes \<Rightarrow> bytes \<Rightarrow> bytes \<Rightarrow> (crypto_error, bytes) result" where
  "cipher_encrypt aead_enc cipher nonce plaintext =
     ok_or (aead_enc cipher nonce [] plaintext) EncryptionFailed"

definition cipher_encrypt_with_aad ::
    "aead \<Rightarrow> bytes \<Rightarrow> bytes \<Rightarrow> bytes \<Rightarrow> bytes \<Rightarrow> (crypto_error, bytes) result" where
  "cipher_encrypt_with_aad aead_enc cipher nonce aad plaintext =
     ok_or (aead_enc cipher nonce aad plaintext) EncryptionFailed"

definition cipher_decrypt :: "aead \<Rightarrow> bytes \<Rightarrow> bytes \<Rightarrow> bytes \<Rightarrow> (crypto_error, bytes) result" where
  "cipher_decrypt aead_dec cipher nonce ciphertext =
     ok_or (aead_dec cipher nonce [] ciphertext) DecryptionFailed"

definition cipher_decrypt_with_aad ::
    "aead \<Rightarrow> bytes \<Rightarrow> bytes \<Rightarrow> bytes \<Rightarrow> bytes \<Rightarrow> (crypto_error, bytes) result" where
  "cipher_decrypt_with_aad aead_dec cipher nonce aad ciphertext =
     ok_or (aead_dec cipher nonce aad ciphertext) DecryptionFailed"

section \<open>The receiver's channel\<close>

definition MAX_FRAME_SIZE :: nat where "MAX_FRAME_SIZE = 65535"
definition TAG_SIZE :: nat where "TAG_SIZE = 16"
definition LENGTH_SIZE :: nat where "LENGTH_SIZE = 2"

record encrypted_channel =
  ec_encrypt_key :: bytes
  ec_decrypt_key :: bytes
  ec_encrypt_nonce :: u64
  ec_decrypt_nonce :: u64
  ec_input_buffer :: bytes
  ec_enabled :: bool

datatype encryption_error =
    MessageTooLarge nat nat
  | InvalidFrameLength nat
  | ChannelEncryptionFailed
  | ChannelDecryptionFailed

definition channel_new :: "bytes \<Rightarrow> bytes \<Rightarrow> encrypted_channel" where
  "channel_new encrypt_key decrypt_key =
     \<lparr>ec_encrypt_key = encrypt_key, ec_decrypt_key = decrypt_key, ec_encrypt_nonce = 0,
      ec_decrypt_nonce = 0, ec_input_buffer = [], ec_enabled = True\<rparr>"

definition channel_disabled :: encrypted_channel where
  "channel_disabled =
     \<lparr>ec_encrypt_key = replicate 32 0, ec_decrypt_key = replicate 32 0, ec_encrypt_nonce = 0,
      ec_decrypt_nonce = 0, ec_input_buffer = [], ec_enabled = False\<rparr>"

definition channel_enable :: "encrypted_channel \<Rightarrow> bytes \<Rightarrow> bytes \<Rightarrow> encrypted_channel" where
  "channel_enable c encrypt_key decrypt_key =
     c\<lparr>ec_encrypt_key := encrypt_key, ec_decrypt_key := decrypt_key, ec_encrypt_nonce := 0,
       ec_decrypt_nonce := 0, ec_input_buffer := [], ec_enabled := True\<rparr>"

definition channel_disable :: "encrypted_channel \<Rightarrow> encrypted_channel" where
  "channel_disable c = c\<lparr>ec_enabled := False, ec_input_buffer := []\<rparr>"

definition channel_clear :: "encrypted_channel \<Rightarrow> encrypted_channel" where
  "channel_clear c = c\<lparr>ec_input_buffer := []\<rparr>"

definition channel_feed :: "encrypted_channel \<Rightarrow> bytes \<Rightarrow> encrypted_channel" where
  "channel_feed c data = c\<lparr>ec_input_buffer := ec_input_buffer c @ data\<rparr>"

text \<open>\<open>counter += 1\<close> on 64 bits.\<close>

definition counter_succ :: "u64 \<Rightarrow> u64 option" where
  "counter_succ n = (if n + 1 = 0 then None else Some (n + 1))"

definition channel_encrypt ::
    "aead \<Rightarrow> encrypted_channel \<Rightarrow> bytes \<Rightarrow> (encrypted_channel \<times> (encryption_error, bytes) result) option" where
  "channel_encrypt aead_enc c plaintext =
     (if \<not> ec_enabled c then Some (c, Inr plaintext)
      else if length plaintext > MAX_FRAME_SIZE
      then Some (c, Inl (MessageTooLarge (length plaintext) MAX_FRAME_SIZE))
      else Option.bind (counter_succ (ec_encrypt_nonce c)) (\<lambda>n'.
        let nonce = nonce_from_counter (ec_encrypt_nonce c); c' = c\<lparr>ec_encrypt_nonce := n'\<rparr>
        in case cipher_new (ec_encrypt_key c) of
             Inl _ \<Rightarrow> Some (c', Inl ChannelEncryptionFailed)
           | Inr cipher \<Rightarrow>
               (case cipher_encrypt aead_enc cipher nonce plaintext of
                  Inl _ \<Rightarrow> Some (c', Inl ChannelEncryptionFailed)
                | Inr ciphertext \<Rightarrow>
                    Some (c', Inr (le_bytes 2 (of_nat (length plaintext) :: u16) @ ciphertext)))))"

definition channel_decrypt ::
    "aead \<Rightarrow> encrypted_channel \<Rightarrow>
     (encrypted_channel \<times> (encryption_error, bytes option) result) option" where
  "channel_decrypt aead_dec c =
     (let buf = ec_input_buffer c in
      if \<not> ec_enabled c
      then (if buf = [] then Some (c, Inr None)
            else Some (c\<lparr>ec_input_buffer := []\<rparr>, Inr (Some buf)))
      else if length buf < LENGTH_SIZE then Some (c, Inr None)
      else let plaintext_len = unat (from_le [buf ! 0, buf ! 1] :: u16) in
        if plaintext_len > MAX_FRAME_SIZE then Some (c, Inl (InvalidFrameLength plaintext_len))
        else if length buf < LENGTH_SIZE + plaintext_len + TAG_SIZE then Some (c, Inr None)
        else let ciphertext = take (plaintext_len + TAG_SIZE) (drop 2 buf);
                 c1 = c\<lparr>ec_input_buffer := drop (2 + (plaintext_len + TAG_SIZE)) buf\<rparr>
             in Option.bind (counter_succ (ec_decrypt_nonce c)) (\<lambda>n'.
               let nonce = nonce_from_counter (ec_decrypt_nonce c); c2 = c1\<lparr>ec_decrypt_nonce := n'\<rparr>
               in case cipher_new (ec_decrypt_key c) of
                    Inl _ \<Rightarrow> Some (c2, Inl ChannelDecryptionFailed)
                  | Inr cipher \<Rightarrow>
                      (case cipher_decrypt aead_dec cipher nonce ciphertext of
                         Inl _ \<Rightarrow> Some (c2, Inl ChannelDecryptionFailed)
                       | Inr plaintext \<Rightarrow> Some (c2, Inr (Some plaintext)))))"

text \<open>A frame taken off the buffer makes it shorter: the loop of \<open>decrypt_all\<close> ends.\<close>

lemma channel_decrypt_shrinks:
  "channel_decrypt aead_dec c = Some (c', Inr (Some f)) \<Longrightarrow>
   length (ec_input_buffer c') < length (ec_input_buffer c)"
  by (auto simp: channel_decrypt_def Let_def LENGTH_SIZE_def split: if_splits sum.splits bind_splits)

function channel_decrypt_all ::
    "aead \<Rightarrow> encrypted_channel \<Rightarrow>
     (encrypted_channel \<times> (encryption_error, bytes list) result) option" where
  "channel_decrypt_all aead_dec c =
     (case channel_decrypt aead_dec c of
        None \<Rightarrow> None
      | Some (c', Inl e) \<Rightarrow> Some (c', Inl e)
      | Some (c', Inr None) \<Rightarrow> Some (c', Inr [])
      | Some (c', Inr (Some frame)) \<Rightarrow>
          map_option (map_prod (\<lambda>c. c) (map_sum (\<lambda>e. e) ((#) frame))) (channel_decrypt_all aead_dec c'))"
  by pat_completeness auto

termination
  by (relation "measure (\<lambda>(aead_dec, c). length (ec_input_buffer c))") (auto dest: channel_decrypt_shrinks)

declare channel_decrypt_all.simps [simp del]

lemma channel_decrypt_all_stop:
  "channel_decrypt aead_dec c = Some (c', Inr None) \<Longrightarrow> channel_decrypt_all aead_dec c = Some (c', Inr [])"
  by (subst channel_decrypt_all.simps) simp

lemma channel_decrypt_all_frame:
  "channel_decrypt aead_dec c = Some (c', Inr (Some f)) \<Longrightarrow>
   channel_decrypt_all aead_dec c =
     map_option (map_prod (\<lambda>c. c) (map_sum (\<lambda>e. e) ((#) f))) (channel_decrypt_all aead_dec c')"
  by (subst channel_decrypt_all.simps) simp

section \<open>Frames on the wire\<close>

definition channel_frame :: "aead \<Rightarrow> bytes \<Rightarrow> u64 \<Rightarrow> bytes \<Rightarrow> bytes" where
  "channel_frame aead_enc k n m =
     le_bytes 2 (of_nat (length m) :: u16) @ the (aead_enc k (nonce_from_counter n) [] m)"

primrec channel_wire :: "aead \<Rightarrow> bytes \<Rightarrow> u64 \<Rightarrow> bytes list \<Rightarrow> bytes" where
  "channel_wire aead_enc k n [] = []"
| "channel_wire aead_enc k n (m # ms) = channel_frame aead_enc k n m @ channel_wire aead_enc k (n + 1) ms"

text \<open>A sender that encrypts a list of messages, and a receiver that is fed the chunks of a
  byte stream and takes all available frames after each.\<close>

primrec channel_send_all ::
    "aead \<Rightarrow> encrypted_channel \<Rightarrow> bytes list \<Rightarrow> (encrypted_channel \<times> (encryption_error, bytes) result) option" where
  "channel_send_all aead_enc c [] = Some (c, Inr [])"
| "channel_send_all aead_enc c (m # ms) =
     (case channel_encrypt aead_enc c m of
        None \<Rightarrow> None
      | Some (c', Inl e) \<Rightarrow> Some (c', Inl e)
      | Some (c', Inr f) \<Rightarrow>
          map_option (map_prod (\<lambda>c. c) (map_sum (\<lambda>e. e) ((@) f))) (channel_send_all aead_enc c' ms))"

primrec channel_receive_all ::
    "aead \<Rightarrow> encrypted_channel \<Rightarrow> bytes list \<Rightarrow>
     (encrypted_channel \<times> (encryption_error, bytes list) result) option" where
  "channel_receive_all aead_dec c [] = Some (c, Inr [])"
| "channel_receive_all aead_dec c (chunk # later) =
     (case channel_decrypt_all aead_dec (channel_feed c chunk) of
        None \<Rightarrow> None
      | Some (c', Inl e) \<Rightarrow> Some (c', Inl e)
      | Some (c', Inr fs) \<Rightarrow>
          map_option (map_prod (\<lambda>c. c) (map_sum (\<lambda>e. e) ((@) fs))) (channel_receive_all aead_dec c' later))"

lemma length_nonce [simp]: "length (nonce_from_counter n) = 12"
  by (simp add: nonce_from_counter_def)

lemma counter_succ_below: "unat n + 1 < 2 ^ 64 \<Longrightarrow> counter_succ n = Some (n + 1) \<and> unat (n + 1) = unat n + 1"
proof -
  assume "unat n + 1 < 2 ^ 64"
  then have u: "unat (n + 1) = unat n + 1" using unat_add_lem [of n 1] by simp
  then have "n + 1 \<noteq> 0" by (metis Suc_eq_plus1 nat.distinct(1) unsigned_0)
  with u show ?thesis by (simp add: counter_succ_def)
qed

lemma unat_add_of_nat_le: "unat ((x :: u64) + of_nat j) \<le> unat x + j"
proof -
  have "x + of_nat j = of_nat (unat x + j)" by simp
  then show ?thesis by (simp only: unat_of_nat mod_less_eq_dividend)
qed

lemma le_bytes_2: "le_bytes 2 (w :: u16) = [ucast w, ucast (drop_bit 8 w)]"
  by (simp add: le_bytes_def be_bytes_2)

lemma from_le_2: "from_le [ucast w, ucast (drop_bit 8 w)] = (w :: u16)"
  by (simp add: from_le_def wire del: from_be.simps)

lemma aead_correctD:
  assumes "aead_correct aead_enc aead_dec" and "length k = 32" and "length n = 12" and "length p \<le> 65535"
  obtains c where "aead_enc k n a p = Some c" and "length c = length p + 16" and "aead_dec k n a c = Some p"
  using assms unfolding aead_correct_def by blast

lemma channel_frame_length:
  assumes "aead_correct aead_enc aead_dec" and "length k = 32" and "length m \<le> 65535"
  shows "length (channel_frame aead_enc k n m) = length m + 18"
  by (rule aead_correctD [OF assms(1,2) length_nonce [of n] assms(3), of "[]"]) (simp add: channel_frame_def)

lemma channel_encrypt_ok:
  assumes "aead_correct aead_enc aead_dec" and "ec_enabled c" and "length (ec_encrypt_key c) = 32"
    and "length m \<le> 65535" and "unat (ec_encrypt_nonce c) + 1 < 2 ^ 64"
  shows "channel_encrypt aead_enc c m =
    Some (c\<lparr>ec_encrypt_nonce := ec_encrypt_nonce c + 1\<rparr>,
          Inr (channel_frame aead_enc (ec_encrypt_key c) (ec_encrypt_nonce c) m))"
proof -
  obtain ct where "aead_enc (ec_encrypt_key c) (nonce_from_counter (ec_encrypt_nonce c)) [] m = Some ct"
    using aead_correctD [OF assms(1,3) length_nonce assms(4)] by metis
  then show ?thesis
    using assms counter_succ_below [OF assms(5)]
    by (simp add: channel_encrypt_def MAX_FRAME_SIZE_def cipher_new_def cipher_encrypt_def channel_frame_def)
qed

lemma channel_send_all_ok:
  assumes "aead_correct aead_enc aead_dec"
  shows "ec_enabled c \<Longrightarrow> length (ec_encrypt_key c) = 32 \<Longrightarrow> \<forall>m\<in>set ms. length m \<le> 65535 \<Longrightarrow>
    unat (ec_encrypt_nonce c) + length ms < 2 ^ 64 \<Longrightarrow>
    channel_send_all aead_enc c ms =
      Some (c\<lparr>ec_encrypt_nonce := ec_encrypt_nonce c + of_nat (length ms)\<rparr>,
            Inr (channel_wire aead_enc (ec_encrypt_key c) (ec_encrypt_nonce c) ms))"
proof (induction ms arbitrary: c)
  case (Cons m ms)
  let ?c = "c\<lparr>ec_encrypt_nonce := ec_encrypt_nonce c + 1\<rparr>"
  have n: "unat (ec_encrypt_nonce c) + 1 < 2 ^ 64" using Cons.prems by simp
  have "channel_send_all aead_enc ?c ms =
      Some (?c\<lparr>ec_encrypt_nonce := ec_encrypt_nonce ?c + of_nat (length ms)\<rparr>,
            Inr (channel_wire aead_enc (ec_encrypt_key ?c) (ec_encrypt_nonce ?c) ms))"
    using Cons.prems counter_succ_below [OF n] by (intro Cons.IH) auto
  then show ?case
    using channel_encrypt_ok [OF assms Cons.prems(1,2) _ n, of m] Cons.prems(3) by (simp add: add.assoc)
qed simp

text \<open>Decrypting a buffer that starts with a frame, and one that holds only part of it.\<close>

lemma channel_decrypt_frame:
  assumes "aead_correct aead_enc aead_dec" and "ec_enabled c" and "length (ec_decrypt_key c) = 32"
    and "length m \<le> 65535" and "unat (ec_decrypt_nonce c) + 1 < 2 ^ 64"
    and "ec_input_buffer c = channel_frame aead_enc (ec_decrypt_key c) (ec_decrypt_nonce c) m @ rest"
  shows "channel_decrypt aead_dec c =
    Some (c\<lparr>ec_input_buffer := rest, ec_decrypt_nonce := ec_decrypt_nonce c + 1\<rparr>, Inr (Some m))"
proof -
  obtain ct where ct: "aead_enc (ec_decrypt_key c) (nonce_from_counter (ec_decrypt_nonce c)) [] m = Some ct"
    "length ct = length m + 16" "aead_dec (ec_decrypt_key c) (nonce_from_counter (ec_decrypt_nonce c)) [] ct = Some m"
    using aead_correctD [OF assms(1,3) length_nonce assms(4)] by metis
  define w where "w = (of_nat (length m) :: u16)"
  have buf: "ec_input_buffer c = ucast w # ucast (drop_bit 8 w) # ct @ rest"
    by (simp add: assms(6) channel_frame_def ct le_bytes_2 w_def)
  have len: "unat (from_le [ucast w, ucast (drop_bit 8 w)] :: u16) = length m"
    using assms(4) by (simp add: from_le_2 w_def unat_of_nat take_bit_nat_eq_self)
  have "drop (18 + length m) (ucast w # ucast (drop_bit 8 w) # ct @ rest) = rest"
    using ct(2) by (simp add: drop_Cons')
  then show ?thesis
    using assms(2,3,4) ct counter_succ_below [OF assms(5)]
    by (simp add: channel_decrypt_def buf len Let_def LENGTH_SIZE_def TAG_SIZE_def MAX_FRAME_SIZE_def
        cipher_new_def cipher_decrypt_def)
qed

lemma channel_decrypt_partial:
  assumes "aead_correct aead_enc aead_dec" and "ec_enabled c" and "length k = 32" and "length m \<le> 65535"
    and "channel_frame aead_enc k n m = ec_input_buffer c @ rest" and "rest \<noteq> []"
  shows "channel_decrypt aead_dec c = Some (c, Inr None)"
proof (cases "length (ec_input_buffer c) < 2")
  case False
  then obtain a b bs where buf: "ec_input_buffer c = a # b # bs"
    by (metis One_nat_def Suc_1 length_0_conv length_Suc_conv less_2_cases_iff list.exhaust not_less_eq zero_less_Suc)
  have "[a, b] = le_bytes 2 (of_nat (length m) :: u16)"
    using arg_cong [OF assms(5), of "take 2"] by (simp add: buf channel_frame_def)
  then have "unat (from_le [a, b] :: u16) = length m"
    using assms(4) by (simp add: le_bytes_2 from_le_2 unat_of_nat take_bit_nat_eq_self)
  moreover have "length (ec_input_buffer c) < length m + 18"
    using channel_frame_length [OF assms(1,3,4), of n] arg_cong [OF assms(5), of length] assms(6)
    by (simp flip: length_greater_0_conv)
  ultimately show ?thesis
    using assms(2,4) by (simp add: channel_decrypt_def buf Let_def LENGTH_SIZE_def TAG_SIZE_def MAX_FRAME_SIZE_def)
qed (use assms(2) in \<open>simp add: channel_decrypt_def Let_def LENGTH_SIZE_def\<close>)

lemma channel_decrypt_all_prefix:
  assumes ok: "aead_correct aead_enc aead_dec"
  shows "ec_enabled c \<Longrightarrow> length (ec_decrypt_key c) = 32 \<Longrightarrow> \<forall>m\<in>set ms. length m \<le> 65535 \<Longrightarrow>
    unat (ec_decrypt_nonce c) + length ms < 2 ^ 64 \<Longrightarrow>
    ec_input_buffer c @ rest = channel_wire aead_enc (ec_decrypt_key c) (ec_decrypt_nonce c) ms \<Longrightarrow>
    \<exists>j b. j \<le> length ms
      \<and> channel_decrypt_all aead_dec c =
          Some (c\<lparr>ec_input_buffer := b, ec_decrypt_nonce := ec_decrypt_nonce c + of_nat j\<rparr>, Inr (take j ms))
      \<and> b @ rest = channel_wire aead_enc (ec_decrypt_key c) (ec_decrypt_nonce c + of_nat j) (drop j ms)
      \<and> (rest = [] \<longrightarrow> j = length ms)"
proof (induction ms arbitrary: c)
  case Nil
  then have "channel_decrypt aead_dec c = Some (c, Inr None)"
    by (simp add: channel_decrypt_def Let_def LENGTH_SIZE_def)
  then have "channel_decrypt_all aead_dec c = Some (c, Inr [])" by (rule channel_decrypt_all_stop)
  with Nil show ?case by simp
next
  case (Cons m ms)
  let ?k = "ec_decrypt_key c" and ?n = "ec_decrypt_nonce c"
  let ?f = "channel_frame aead_enc ?k ?n m"
  have m: "length m \<le> 65535" and n: "unat ?n + 1 < 2 ^ 64" using Cons.prems by simp_all
  from Cons.prems(5) obtain us where "ec_input_buffer c = ?f @ us \<and> us @ rest = channel_wire aead_enc ?k (?n + 1) ms
      \<or> ec_input_buffer c @ us = ?f \<and> rest = us @ channel_wire aead_enc ?k (?n + 1) ms"
    unfolding channel_wire.simps append_eq_append_conv2 by blast
  then consider (whole) b where "ec_input_buffer c = ?f @ b" "b @ rest = channel_wire aead_enc ?k (?n + 1) ms"
    | (part) r where "?f = ec_input_buffer c @ r" "r \<noteq> []" "rest = r @ channel_wire aead_enc ?k (?n + 1) ms"
    by (cases "us = []") (force, metis)
  then show ?case
  proof cases
    case whole
    let ?c = "c\<lparr>ec_input_buffer := b, ec_decrypt_nonce := ?n + 1\<rparr>"
    have "channel_decrypt aead_dec c = Some (?c, Inr (Some m))"
      by (rule channel_decrypt_frame [OF ok Cons.prems(1,2) m n whole(1)])
    moreover obtain j b' where j: "j \<le> length ms" "channel_decrypt_all aead_dec ?c =
          Some (?c\<lparr>ec_input_buffer := b', ec_decrypt_nonce := ec_decrypt_nonce ?c + of_nat j\<rparr>, Inr (take j ms))"
        "b' @ rest = channel_wire aead_enc (ec_decrypt_key ?c) (ec_decrypt_nonce ?c + of_nat j) (drop j ms)"
        "rest = [] \<longrightarrow> j = length ms"
      using Cons.IH [of ?c] Cons.prems(1-4) whole(2) counter_succ_below [OF n] by auto
    ultimately show ?thesis
      by (intro exI [of _ "Suc j"] exI [of _ b']) (simp add: channel_decrypt_all_frame add.assoc)
  next
    case part
    have "channel_decrypt aead_dec c = Some (c, Inr None)"
      by (rule channel_decrypt_partial [OF ok Cons.prems(1,2) m part(1,2)])
    then have "channel_decrypt_all aead_dec c = Some (c, Inr [])" by (rule channel_decrypt_all_stop)
    with part Cons.prems(5) show ?thesis by (intro exI [of _ 0] exI [of _ "ec_input_buffer c"]) simp
  qed
qed

lemma channel_receive_all_ok:
  assumes ok: "aead_correct aead_enc aead_dec"
  shows "ec_enabled c \<Longrightarrow> length (ec_decrypt_key c) = 32 \<Longrightarrow> \<forall>m\<in>set ms. length m \<le> 65535 \<Longrightarrow>
    unat (ec_decrypt_nonce c) + length ms < 2 ^ 64 \<Longrightarrow>
    ec_input_buffer c @ concat cs = channel_wire aead_enc (ec_decrypt_key c) (ec_decrypt_nonce c) ms \<Longrightarrow>
    cs \<noteq> [] \<Longrightarrow>
    channel_receive_all aead_dec c cs =
      Some (c\<lparr>ec_input_buffer := [], ec_decrypt_nonce := ec_decrypt_nonce c + of_nat (length ms)\<rparr>, Inr ms)"
proof (induction cs arbitrary: c ms)
  case (Cons ch cs)
  let ?c = "channel_feed c ch"
  have "ec_input_buffer ?c @ concat cs = channel_wire aead_enc (ec_decrypt_key ?c) (ec_decrypt_nonce ?c) ms"
    using Cons.prems(5) by (simp add: channel_feed_def)
  from channel_decrypt_all_prefix [OF ok _ _ _ _ this] Cons.prems(1-4) obtain j b where j: "j \<le> length ms"
    "channel_decrypt_all aead_dec ?c =
       Some (?c\<lparr>ec_input_buffer := b, ec_decrypt_nonce := ec_decrypt_nonce ?c + of_nat j\<rparr>, Inr (take j ms))"
    "b @ concat cs = channel_wire aead_enc (ec_decrypt_key c) (ec_decrypt_nonce c + of_nat j) (drop j ms)"
    "concat cs = [] \<longrightarrow> j = length ms"
    by (auto simp: channel_feed_def)
  define d where "d = ?c\<lparr>ec_input_buffer := b, ec_decrypt_nonce := ec_decrypt_nonce ?c + of_nat j\<rparr>"
  have d: "channel_decrypt_all aead_dec ?c = Some (d, Inr (take j ms))" using j(2) by (simp add: d_def)
  show ?case
  proof (cases "cs = []")
    case True
    then show ?thesis using d j by (simp add: d_def channel_feed_def)
  next
    case False
    have "unat (ec_decrypt_nonce d) \<le> unat (ec_decrypt_nonce c) + j"
      by (simp add: d_def channel_feed_def unat_add_of_nat_le)
    then have "channel_receive_all aead_dec d cs =
      Some (d\<lparr>ec_input_buffer := [], ec_decrypt_nonce := ec_decrypt_nonce d + of_nat (length (drop j ms))\<rparr>, Inr (drop j ms))"
      using Cons.prems(1-4) j(1,3) False
      by (intro Cons.IH) (auto simp: d_def channel_feed_def dest: in_set_dropD)
    moreover have "of_nat j + of_nat (length ms - j) = (of_nat (length ms) :: u64)"
      using j(1) by (simp flip: of_nat_add)
    ultimately show ?thesis using d by (simp add: d_def channel_feed_def add.assoc)
  qed
qed simp

section \<open>The client's HAP session\<close>

record hap_session =
  hap_encrypt_key :: bytes
  hap_decrypt_key :: bytes
  hap_encrypt_count :: u64
  hap_decrypt_count :: u64

datatype airplay_error =
    RtspError string
  | AuthenticationFailed string

definition hap_new :: "bytes \<Rightarrow> bytes \<Rightarrow> hap_session" where
  "hap_new encrypt_key decrypt_key =
     \<lparr>hap_encrypt_key = encrypt_key, hap_decrypt_key = decrypt_key, hap_encrypt_count = 0,
      hap_decrypt_count = 0\<rparr>"

text \<open>The loop over the chunks of at most 1024 bytes: length, ciphertext and tag of each.\<close>

primrec hap_encrypt_chunks ::
    "aead \<Rightarrow> hap_session \<Rightarrow> bytes list \<Rightarrow> (hap_session \<times> (airplay_error, bytes) result) option" where
  "hap_encrypt_chunks aead_enc s [] = Some (s, Inr [])"
| "hap_encrypt_chunks aead_enc s (chunk # rest) =
     (if length chunk > 65535 then Some (s, Inl (RtspError ''Chunk size exceeds u16''))
      else let len_bytes = le_bytes 2 (of_nat (length chunk) :: u16);
               nonce = replicate 4 0 @ le_bytes 8 (hap_encrypt_count s)
           in case aead_enc (hap_encrypt_key s) nonce len_bytes chunk of
                None \<Rightarrow> Some (s, Inl (AuthenticationFailed ''Encryption failed''))
              | Some ct \<Rightarrow>
                  Option.bind (counter_succ (hap_encrypt_count s)) (\<lambda>n'.
                    map_option (map_prod (\<lambda>s. s) (map_sum (\<lambda>e. e) (\<lambda>out. len_bytes @ ct @ out)))
                      (hap_encrypt_chunks aead_enc (s\<lparr>hap_encrypt_count := n'\<rparr>) rest)))"

definition hap_encrypt :: "aead \<Rightarrow> hap_session \<Rightarrow> bytes \<Rightarrow> (hap_session \<times> (airplay_error, bytes) result) option" where
  "hap_encrypt aead_enc s data = hap_encrypt_chunks aead_enc s (chunks 1024 data)"

definition hap_decrypt_block ::
    "aead \<Rightarrow> hap_session \<Rightarrow> bytes \<Rightarrow> (hap_session \<times> (airplay_error, bytes \<times> bytes) result) option" where
  "hap_decrypt_block aead_dec s data =
     (if length data < 18 then Some (s, Inl (RtspError ''Buffer too small for HAP block''))
      else let len = unat (from_le [data ! 0, data ! 1] :: u16) in
        if length data < 2 + len + 16 then Some (s, Inl (RtspError ''Incomplete HAP block''))
        else let nonce = replicate 4 0 @ le_bytes 8 (hap_decrypt_count s)
             in case aead_dec (hap_decrypt_key s) nonce (take 2 data) (take (len + 16) (drop 2 data)) of
                  None \<Rightarrow> Some (s, Inl (AuthenticationFailed ''Decryption failed''))
                | Some buffer \<Rightarrow>
                    Option.bind (counter_succ (hap_decrypt_count s)) (\<lambda>n'.
                      Some (s\<lparr>hap_decrypt_count := n'\<rparr>, Inr (buffer, drop (2 + len + 16) data))))"

text \<open>The reader that takes one block after the other until the input is used up.\<close>

fun hap_decrypt_blocks ::
    "nat \<Rightarrow> aead \<Rightarrow> hap_session \<Rightarrow> bytes \<Rightarrow> (hap_session \<times> (airplay_error, bytes) result) option" where
  "hap_decrypt_blocks fuel aead_dec s [] = Some (s, Inr [])"
| "hap_decrypt_blocks 0 aead_dec s data = None"
| "hap_decrypt_blocks (Suc fuel) aead_dec s data =
     (case hap_decrypt_block aead_dec s data of
        None \<Rightarrow> None
      | Some (s', Inl e) \<Rightarrow> Some (s', Inl e)
      | Some (s', Inr (out, rest)) \<Rightarrow>
          map_option (map_prod (\<lambda>s. s) (map_sum (\<lambda>e. e) ((@) out))) (hap_decrypt_blocks fuel aead_dec s' rest))"

definition hap_block :: "aead \<Rightarrow> bytes \<Rightarrow> u64 \<Rightarrow> bytes \<Rightarrow> bytes" where
  "hap_block aead_enc k n chunk =
     le_bytes 2 (of_nat (length chunk) :: u16)
     @ the (aead_enc k (nonce_from_counter n) (le_bytes 2 (of_nat (length chunk) :: u16)) chunk)"

primrec hap_wire :: "aead \<Rightarrow> bytes \<Rightarrow> u64 \<Rightarrow> bytes list \<Rightarrow> bytes" where
  "hap_wire aead_enc k n [] = []"
| "hap_wire aead_enc k n (m # ms) = hap_block aead_enc k n m @ hap_wire aead_enc k (n + 1) ms"

lemma hap_encrypt_chunks_ok:
  assumes "aead_correct aead_enc aead_dec"
  shows "length (hap_encrypt_key s) = 32 \<Longrightarrow> \<forall>m\<in>set ms. length m \<le> 65535 \<Longrightarrow>
    unat (hap_encrypt_count s) + length ms < 2 ^ 64 \<Longrightarrow>
    hap_encrypt_chunks aead_enc s ms =
      Some (s\<lparr>hap_encrypt_count := hap_encrypt_count s + of_nat (length ms)\<rparr>,
            Inr (hap_wire aead_enc (hap_encrypt_key s) (hap_encrypt_count s) ms))"
proof (induction ms arbitrary: s)
  case (Cons m ms)
  let ?s = "s\<lparr>hap_encrypt_count := hap_encrypt_count s + 1\<rparr>"
  have n: "unat (hap_encrypt_count s) + 1 < 2 ^ 64" and m: "length m \<le> 65535" using Cons.prems by simp_all
  obtain ct where ct: "aead_enc (hap_encrypt_key s) (nonce_from_counter (hap_encrypt_count s))
      (le_bytes 2 (of_nat (length m) :: u16)) m = Some ct"
    using aead_correctD [OF assms Cons.prems(1) length_nonce m] by metis
  have "hap_encrypt_chunks aead_enc ?s ms =
      Some (?s\<lparr>hap_encrypt_count := hap_encrypt_count ?s + of_nat (length ms)\<rparr>,
            Inr (hap_wire aead_enc (hap_encrypt_key ?s) (hap_encrypt_count ?s) ms))"
    using Cons.prems counter_succ_below [OF n] by (intro Cons.IH) auto
  then show ?case
    using ct m counter_succ_below [OF n]
    by (simp add: hap_block_def Let_def add.assoc nonce_from_counter_def [symmetric])
qed simp

lemma hap_decrypt_block_ok:
  assumes "aead_correct aead_enc aead_dec" and "length (hap_decrypt_key s) = 32" and "length m \<le> 65535"
    and "unat (hap_decrypt_count s) + 1 < 2 ^ 64"
  shows "hap_decrypt_block aead_dec s (hap_block aead_enc (hap_decrypt_key s) (hap_decrypt_count s) m @ rest) =
    Some (s\<lparr>hap_decrypt_count := hap_decrypt_count s + 1\<rparr>, Inr (m, rest))"
proof -
  define w where "w = (of_nat (length m) :: u16)"
  obtain ct where ct: "aead_enc (hap_decrypt_key s) (nonce_from_counter (hap_decrypt_count s)) (le_bytes 2 w) m = Some ct"
    "length ct = length m + 16"
    "aead_dec (hap_decrypt_key s) (nonce_from_counter (hap_decrypt_count s)) (le_bytes 2 w) ct = Some m"
    using aead_correctD [OF assms(1,2) length_nonce assms(3)] by metis
  have b: "hap_block aead_enc (hap_decrypt_key s) (hap_decrypt_count s) m @ rest = ucast w # ucast (drop_bit 8 w) # ct @ rest"
    by (simp add: hap_block_def ct w_def [symmetric]) (simp add: le_bytes_2)
  have len: "unat (from_le [ucast w, ucast (drop_bit 8 w)] :: u16) = length m"
    using assms(3) by (simp add: from_le_2 w_def unat_of_nat take_bit_nat_eq_self)
  have d: "drop (18 + length m) (ucast w # ucast (drop_bit 8 w) # ct @ rest) = rest"
    using ct(2) by (simp add: drop_Cons')
  have a: "take 2 (ucast w # ucast (drop_bit 8 w) # ct @ rest) = le_bytes 2 w" by (simp add: le_bytes_2)
  show ?thesis
    unfolding hap_decrypt_block_def b a
    using ct counter_succ_below [OF assms(4)]
    by (simp add: len d Let_def nonce_from_counter_def [symmetric])
qed

lemma hap_decrypt_blocks_ok:
  assumes "aead_correct aead_enc aead_dec"
  shows "length (hap_decrypt_key s) = 32 \<Longrightarrow> \<forall>m\<in>set ms. length m \<le> 65535 \<Longrightarrow>
    unat (hap_decrypt_count s) + length ms < 2 ^ 64 \<Longrightarrow> length ms \<le> fuel \<Longrightarrow>
    hap_decrypt_blocks fuel aead_dec s (hap_wire aead_enc (hap_decrypt_key s) (hap_decrypt_count s) ms) =
      Some (s\<lparr>hap_decrypt_count := hap_decrypt_count s + of_nat (length ms)\<rparr>, Inr (concat ms))"
proof (induction ms arbitrary: s fuel)
  case (Cons m ms)
  let ?s = "s\<lparr>hap_decrypt_count := hap_decrypt_count s + 1\<rparr>"
  obtain f where f: "fuel = Suc f" "length ms \<le> f" using Cons.prems(4) by (cases fuel) auto
  have n: "unat (hap_decrypt_count s) + 1 < 2 ^ 64" and m: "length m \<le> 65535" using Cons.prems by simp_all
  let ?w = "hap_wire aead_enc (hap_decrypt_key s) (hap_decrypt_count s) (m # ms)"
  have "?w \<noteq> []" by (simp add: hap_block_def le_bytes_2)
  then obtain x xs where w: "?w = x # xs" by (cases ?w) auto
  have "hap_decrypt_block aead_dec s (x # xs) = Some (?s, Inr (m, hap_wire aead_enc (hap_decrypt_key s) (hap_decrypt_count s + 1) ms))"
    using hap_decrypt_block_ok [OF assms Cons.prems(1) m n] by (simp flip: w)
  moreover have "hap_decrypt_blocks f aead_dec ?s (hap_wire aead_enc (hap_decrypt_key ?s) (hap_decrypt_count ?s) ms) =
      Some (?s\<lparr>hap_decrypt_count := hap_decrypt_count ?s + of_nat (length ms)\<rparr>, Inr (concat ms))"
    using Cons.prems f counter_succ_below [OF n] by (intro Cons.IH) auto
  ultimately show ?case unfolding w f(1) by (simp add: add.assoc)
qed simp

section \<open>The pairing channel\<close>

record pairing_channel =
  pch_cipher :: bytes
  pch_nonce_counter :: u64
  pch_is_sender :: bool

definition pairing_channel_new :: "bytes \<Rightarrow> u64 \<Rightarrow> bool \<Rightarrow> (crypto_error, pairing_channel) result" where
  "pairing_channel_new key initial_nonce is_sender =
     result_bind (cipher_new key) (\<lambda>cipher.
       Inr \<lparr>pch_cipher = cipher, pch_nonce_counter = initial_nonce, pch_is_sender = is_sender\<rparr>)"

definition pairing_channel_encrypt ::
    "aead \<Rightarrow> pairing_channel \<Rightarrow> bytes \<Rightarrow> (pairing_channel \<times> (crypto_error, bytes) result) option" where
  "pairing_channel_encrypt aead_enc c plaintext =
     Option.bind (counter_succ (pch_nonce_counter c)) (\<lambda>n'.
       Some (c\<lparr>pch_nonce_counter := n'\<rparr>,
             cipher_encrypt aead_enc (pch_cipher c) (nonce_from_counter (pch_nonce_counter c)) plaintext))"

definition pairing_channel_decrypt ::
    "aead \<Rightarrow> pairing_channel \<Rightarrow> bytes \<Rightarrow> (pairing_channel \<times> (crypto_error, bytes) result) option" where
  "pairing_channel_decrypt aead_dec c ciphertext =
     Option.bind (counter_succ (pch_nonce_counter c)) (\<lambda>n'.
       Some (c\<lparr>pch_nonce_counter := n'\<rparr>,
             cipher_decrypt aead_dec (pch_cipher c) (nonce_from_counter (pch_nonce_counter c)) ciphertext))"

definition pairing_channel_encrypt_framed ::
    "aead \<Rightarrow> pairing_channel \<Rightarrow> bytes \<Rightarrow> (pairing_channel \<times> (crypto_error, bytes) result) option" where
  "pairing_channel_encrypt_framed aead_enc c plaintext =
     map_option (map_prod (\<lambda>c. c) (\<lambda>r. result_bind r (\<lambda>encrypted.
         if length encrypted > 65535 then Inl EncryptionFailed
         else Inr (le_bytes 2 (of_nat (length encrypted) :: u16) @ encrypted))))
       (pairing_channel_encrypt aead_enc c plaintext)"

section \<open>Properties\<close>

lemma map_sum_eq_Inr: "map_sum f g r = Inr y \<longleftrightarrow> (\<exists>x. r = Inr x \<and> y = g x)"
  by (cases r) auto

lemma length_chunks_le: "0 < n \<Longrightarrow> length (chunks n xs) \<le> length xs"
proof (induction n xs rule: chunks.induct)
  case (1 n xs)
  then show ?case
  proof (cases "xs = []")
    case False
    then have "length (chunks n (drop n xs)) \<le> length xs - n" using 1 by simp
    moreover have "1 \<le> length xs" using False by (simp add: Suc_le_eq)
    ultimately have "Suc (length (chunks n (drop n xs))) \<le> length xs" using 1(2) by arith
    then show ?thesis using 1(2) False by (subst chunks.simps) simp
  qed (simp add: chunks.simps)
qed

text \<open>
  C9. Messages arrive intact and in order over the receiver's encrypted channel. Whatever
  messages of up to 65535 bytes are encrypted, and however the resulting bytes are cut into
  chunks on the way, the peer with the matching key decrypts exactly these messages, keeps no
  leftover bytes, and its nonce counter is again equal to the sender's.
\<close>

theorem encrypted_channel_stream:
  assumes "aead_correct aead_enc aead_dec" and "length k = 32"
    and "list_all (\<lambda>m. length m \<le> 65535) msgs" and "length msgs < 2 ^ 64"
  shows "\<exists>s' w. channel_send_all aead_enc (channel_new k k') msgs = Some (s', Inr w)
    \<and> (\<forall>cs. concat cs = w \<longrightarrow> (\<exists>r'. channel_receive_all aead_dec (channel_new k'' k) cs = Some (r', Inr msgs)
         \<and> ec_input_buffer r' = [] \<and> ec_decrypt_nonce r' = ec_encrypt_nonce s'))"
proof -
  let ?s = "channel_new k k'" and ?r = "channel_new k'' k"
  let ?w = "channel_wire aead_enc k 0 msgs"
  have small: "\<forall>m\<in>set msgs. length m \<le> 65535" using assms(3) by (simp add: list_all_iff)
  have send: "channel_send_all aead_enc ?s msgs = Some (?s\<lparr>ec_encrypt_nonce := of_nat (length msgs)\<rparr>, Inr ?w)"
    using channel_send_all_ok [OF assms(1), of ?s msgs] small assms(2,4) by (simp add: channel_new_def)
  have recv: "\<exists>r'. channel_receive_all aead_dec ?r cs = Some (r', Inr msgs)
      \<and> ec_input_buffer r' = [] \<and> ec_decrypt_nonce r' = of_nat (length msgs)" if cs: "concat cs = ?w" for cs
  proof (cases "cs = []")
    case True
    with cs have "msgs = []" by (cases msgs) (simp_all add: channel_frame_def le_bytes_2)
    with True show ?thesis by (simp add: channel_new_def)
  next
    case False
    then show ?thesis
      using channel_receive_all_ok [OF assms(1), of ?r msgs cs] cs small assms(2,4) by (simp add: channel_new_def)
  qed
  with send show ?thesis by simp
qed

text \<open>An AEAD for the examples: the tag tells whether there was an associated datum.\<close>

definition demo_enc :: aead where
  "demo_enc k n a p = Some (p @ (if a = [] then 0 else 1) # replicate 15 0)"

definition demo_dec :: aead where
  "demo_dec k n a c =
     (if length c < 16 then None
      else if drop (length c - 16) c = (if a = [] then 0 else 1) # replicate 15 0
      then Some (take (length c - 16) c) else None)"

lemma demo_aead: "aead_correct demo_enc demo_dec" "aead_rejects_missing_aad demo_enc demo_dec"
  by (auto simp: aead_correct_def aead_rejects_missing_aad_def demo_enc_def demo_dec_def)

theorem encrypted_channel_stream_witness:
  "\<exists>s' w. channel_send_all demo_enc (channel_new (replicate 32 7) []) [[1, 2], [], [3]] = Some (s', Inr w)
    \<and> (\<exists>r'. channel_receive_all demo_dec (channel_new [] (replicate 32 7)) [take 1 w, drop 1 w] =
          Some (r', Inr [[1, 2], [], [3]]) \<and> ec_input_buffer r' = [])"
proof -
  obtain s' w where w: "channel_send_all demo_enc (channel_new (replicate 32 7) []) [[1, 2], [], [3]] = Some (s', Inr w)"
    and r: "\<And>cs. concat cs = w \<Longrightarrow> \<exists>r'. channel_receive_all demo_dec (channel_new [] (replicate 32 7)) cs =
          Some (r', Inr [[1, 2], [], [3]]) \<and> ec_input_buffer r' = [] \<and> ec_decrypt_nonce r' = ec_encrypt_nonce s'"
    using encrypted_channel_stream [OF demo_aead(1), of "replicate 32 7" "[[1, 2], [], [3]]" "[]" "[]"] by auto
  from r [of "[take 1 w, drop 1 w]"] w show ?thesis by (simp del: channel_receive_all.simps) blast
qed

text \<open>
  The client's HAP session: whatever data is encrypted, decrypting the produced blocks one
  after the other with the matching key returns the data, and both counters stay in step.
\<close>

theorem hap_session_roundtrip:
  assumes "aead_correct aead_enc aead_dec" and "length k = 32" and "length data < 2 ^ 64"
  shows "\<exists>s' r' w. hap_encrypt aead_enc (hap_new k k') data = Some (s', Inr w)
    \<and> hap_decrypt_blocks (length data) aead_dec (hap_new k'' k) w = Some (r', Inr data)
    \<and> hap_decrypt_count r' = hap_encrypt_count s'"
proof -
  let ?ms = "chunks 1024 data"
  have small: "\<forall>m\<in>set ?ms. length m \<le> 65535" using chunks_bounds [of _ 1024 data] by force
  have len: "length ?ms \<le> length data" by (rule length_chunks_le) simp
  have "hap_encrypt aead_enc (hap_new k k') data =
      Some ((hap_new k k')\<lparr>hap_encrypt_count := of_nat (length ?ms)\<rparr>, Inr (hap_wire aead_enc k 0 ?ms))"
    using hap_encrypt_chunks_ok [OF assms(1), of "hap_new k k'" ?ms] small len assms(2,3)
    by (simp add: hap_encrypt_def hap_new_def)
  moreover have "hap_decrypt_blocks (length data) aead_dec (hap_new k'' k) (hap_wire aead_enc k 0 ?ms) =
      Some ((hap_new k'' k)\<lparr>hap_decrypt_count := of_nat (length ?ms)\<rparr>, Inr data)"
    using hap_decrypt_blocks_ok [OF assms(1), of "hap_new k'' k" ?ms "length data"] small len assms(2,3)
      concat_chunks [of 1024 data]
    by (simp add: hap_new_def)
  ultimately show ?thesis by simp
qed

theorem hap_session_roundtrip_witness:
  "\<exists>s' r' w. hap_encrypt demo_enc (hap_new (replicate 32 7) []) (replicate 1500 9) = Some (s', Inr w)
    \<and> hap_decrypt_blocks 1500 demo_dec (hap_new [] (replicate 32 7)) w = Some (r', Inr (replicate 1500 9))"
  using hap_session_roundtrip [OF demo_aead(1), of "replicate 32 7" "replicate 1500 9" "[]" "[]"] by auto

text \<open>
  The client's and the receiver's framings do not fit each other. The client authenticates
  the length prefix as associated data, the receiver decrypts without associated data; with
  an AEAD that rejects a missing datum, the receiver fails on the first block of every
  message of the client, although both hold the same key and counter.
\<close>

theorem hap_blocks_rejected_by_receiver:
  assumes "aead_correct aead_enc aead_dec" and "aead_rejects_missing_aad aead_enc aead_dec"
    and "length k = 32" and "data \<noteq> []"
    and "hap_encrypt aead_enc (hap_new k k') data = Some (s', Inr w)"
  shows "\<exists>c. channel_decrypt aead_dec (channel_feed (channel_new k'' k) w) = Some (c, Inl ChannelDecryptionFailed)"
proof -
  obtain m ms where ms: "chunks 1024 data = m # ms" using assms(4) by (subst (asm) chunks.simps) (simp add: chunks.simps)
  have m: "length m \<le> 1024" using chunks_bounds [of m 1024 data] ms by simp
  define l where "l = (of_nat (length m) :: u16)"
  obtain ct out where ct: "aead_enc k (nonce_from_counter 0) (le_bytes 2 l) m = Some ct" "w = le_bytes 2 l @ ct @ out"
    using assms(5) m
    by (auto simp: hap_encrypt_def hap_new_def ms Let_def l_def nonce_from_counter_def bind_eq_Some_conv
        map_sum_eq_Inr split: option.splits)
  have "length ct = length m + 16"
    using aead_correctD [OF assms(1,3) length_nonce, of m 0 "le_bytes 2 l"] ct(1) m by force
  moreover have "aead_dec k (nonce_from_counter 0) [] ct = None"
    using assms(2) ct(1) unfolding aead_rejects_missing_aad_def by (fastforce simp: le_bytes_2)
  moreover have "unat (from_le [ucast l, ucast (drop_bit 8 l)] :: u16) = length m"
    using m by (simp add: from_le_2 l_def unat_of_nat take_bit_nat_eq_self)
  moreover have "w = ucast l # ucast (drop_bit 8 l) # ct @ out" using ct(2) by (simp add: le_bytes_2)
  ultimately show ?thesis
    using assms(3) m
    by (simp add: channel_decrypt_def channel_feed_def channel_new_def Let_def LENGTH_SIZE_def TAG_SIZE_def
        MAX_FRAME_SIZE_def counter_succ_def cipher_new_def cipher_decrypt_def)
qed

theorem hap_blocks_rejected_by_receiver_witness:
  "\<exists>s' w c. hap_encrypt demo_enc (hap_new (replicate 32 7) []) [1, 2, 3] = Some (s', Inr w)
    \<and> channel_decrypt demo_dec (channel_feed (channel_new [] (replicate 32 7)) w) = Some (c, Inl ChannelDecryptionFailed)"
proof -
  obtain s' w where w: "hap_encrypt demo_enc (hap_new (replicate 32 7) []) [1, 2, 3] = Some (s', Inr w)"
    by (simp add: hap_encrypt_def hap_new_def chunks.simps demo_enc_def Let_def counter_succ_def)
  from hap_blocks_rejected_by_receiver [OF demo_aead _ _ w, of "[]"] w show ?thesis by auto
qed

end
