(* ===== verification/Ptp_Timestamp.thy ===== *)
theory Ptp_Timestamp
  imports Interfaces
begin

text \<open>
  PTP timestamps, \<open>src/protocol/ptp/timestamp.rs\<close>: 48-bit seconds with nanoseconds, the
  ten-byte IEEE 1588 rendering and the 48.16 fixed-point form of AirPlay. Arithmetic on
  128-bit integers cannot overflow here and is on \<open>int\<close>; where a 64-bit operation can
  overflow, or the code panics, the result is \<open>None\<close>. A \<open>Duration\<close> is its seconds and
  sub-second nanoseconds.
\<close>

section \<open>Definitions\<close>

record ptp_timestamp =
  ts_seconds :: u64
  ts_nanoseconds :: u32

definition NANOS_PER_SEC :: nat where "NANOS_PER_SEC = 1000000000"

definition MAX_SECONDS_48BIT :: u64 where "MAX_SECONDS_48BIT = push_bit 48 1 - 1"

definition ptp_ts_new :: "u64 \<Rightarrow> u32 \<Rightarrow> ptp_timestamp" where
  "ptp_ts_new seconds nanoseconds =
     \<lparr>ts_seconds = seconds, ts_nanoseconds = min nanoseconds (of_nat NANOS_PER_SEC - 1)\<rparr>"

text \<open>The system clock since the Unix epoch, \<open>None\<close> when it is before the epoch.\<close>

definition ptp_ts_now :: "(u64 \<times> u32) option \<Rightarrow> ptp_timestamp" where
  "ptp_ts_now clock =
     (case clock of None \<Rightarrow> \<lparr>ts_seconds = 0, ts_nanoseconds = 0\<rparr>
      | Some (secs, nanos) \<Rightarrow> \<lparr>ts_seconds = secs, ts_nanoseconds = nanos\<rparr>)"

definition ptp_ts_zero :: ptp_timestamp where
  "ptp_ts_zero = \<lparr>ts_seconds = 0, ts_nanoseconds = 0\<rparr>"

definition ptp_to_nanos :: "ptp_timestamp \<Rightarrow> int" where
  "ptp_to_nanos t = uint (ts_seconds t) * int NANOS_PER_SEC + uint (ts_nanoseconds t)"

definition ptp_from_nanos :: "int \<Rightarrow> ptp_timestamp option" where
  "ptp_from_nanos nanos =
     (if nanos < 0 then None
      else if nanos div int NANOS_PER_SEC \<ge> 2 ^ 64 then None
      else Some \<lparr>ts_seconds = of_int (nanos div int NANOS_PER_SEC),
                 ts_nanoseconds = of_int (nanos mod int NANOS_PER_SEC)\<rparr>)"

definition ptp_to_micros :: "ptp_timestamp \<Rightarrow> int option" where
  "ptp_to_micros t =
     Option.bind (i64_chk (sint (ts_seconds t) * 1000000)) (\<lambda>us.
       i64_chk (us + uint (ts_nanoseconds t) div 1000))"

definition ptp_diff_nanos :: "ptp_timestamp \<Rightarrow> ptp_timestamp \<Rightarrow> int" where
  "ptp_diff_nanos t u = ptp_to_nanos t - ptp_to_nanos u"

definition ptp_diff_micros :: "ptp_timestamp \<Rightarrow> ptp_timestamp \<Rightarrow> int option" where
  "ptp_diff_micros t u =
     Option.bind (ptp_to_micros t) (\<lambda>a. Option.bind (ptp_to_micros u) (\<lambda>b. i64_chk (a - b)))"

definition ptp_encode_ieee1588 :: "ptp_timestamp \<Rightarrow> bytes" where
  "ptp_encode_ieee1588 t = drop 2 (be_bytes 8 (ts_seconds t)) @ be_bytes 4 (ts_nanoseconds t)"

definition ptp_decode_ieee1588 :: "bytes \<Rightarrow> ptp_timestamp option" where
  "ptp_decode_ieee1588 data =
     (if length data < 10 then None
      else Some \<lparr>ts_seconds = from_be [0, 0, data ! 0, data ! 1, data ! 2, data ! 3, data ! 4, data ! 5],
                 ts_nanoseconds = from_be [data ! 6, data ! 7, data ! 8, data ! 9]\<rparr>)"

definition ptp_to_airplay_compact :: "ptp_timestamp \<Rightarrow> u64" where
  "ptp_to_airplay_compact t =
     (let fraction = (of_nat (unat (ts_nanoseconds t) * 65536 div NANOS_PER_SEC) :: u16);
          seconds_48 = ts_seconds t AND MAX_SECONDS_48BIT
      in push_bit 16 seconds_48 OR ucast fraction)"

definition ptp_from_airplay_compact :: "u64 \<Rightarrow> ptp_timestamp" where
  "ptp_from_airplay_compact v =
     (let fraction = unat (v AND 0xFFFF)
      in \<lparr>ts_seconds = drop_bit 16 v,
          ts_nanoseconds = of_nat (min (fraction * NANOS_PER_SEC div 65536) (NANOS_PER_SEC - 1))\<rparr>)"

definition ptp_to_duration :: "ptp_timestamp \<Rightarrow> (u64 \<times> u32) option" where
  "ptp_to_duration t =
     (let carry = unat (ts_nanoseconds t) div NANOS_PER_SEC; secs = unat (ts_seconds t) + carry
      in if secs < 2 ^ 64 then Some (of_nat secs, of_nat (unat (ts_nanoseconds t) mod NANOS_PER_SEC)) else None)"

definition ptp_from_duration :: "u64 \<times> u32 \<Rightarrow> ptp_timestamp" where
  "ptp_from_duration d = \<lparr>ts_seconds = fst d, ts_nanoseconds = snd d\<rparr>"

definition ptp_add_duration :: "ptp_timestamp \<Rightarrow> u64 \<times> u32 \<Rightarrow> ptp_timestamp option" where
  "ptp_add_duration t d =
     (let total_nanos = unat (ts_nanoseconds t) + unat (snd d);
          carry = total_nanos div NANOS_PER_SEC;
          secs = unat (ts_seconds t) + unat (fst d) + carry
      in if secs < 2 ^ 64
         then Some \<lparr>ts_seconds = of_nat secs, ts_nanoseconds = of_nat (total_nanos mod NANOS_PER_SEC)\<rparr>
         else None)"

section \<open>Validity and the nanosecond scale\<close>

definition ptp_ts_valid :: "ptp_timestamp \<Rightarrow> bool" where
  "ptp_ts_valid t \<longleftrightarrow> unat (ts_nanoseconds t) < NANOS_PER_SEC"

definition ptp_ts_48 :: "ptp_timestamp \<Rightarrow> bool" where
  "ptp_ts_48 t \<longleftrightarrow> unat (ts_seconds t) < 2 ^ 48"

lemma ptp_to_nanos_nat: "ptp_to_nanos t = int (unat (ts_seconds t) * NANOS_PER_SEC + unat (ts_nanoseconds t))"
  by (simp add: ptp_to_nanos_def)

lemma ptp_from_to_nanos: "ptp_ts_valid t \<Longrightarrow> ptp_from_nanos (ptp_to_nanos t) = Some t"
proof -
  assume v: "ptp_ts_valid t"
  let ?s = "unat (ts_seconds t)" and ?n = "unat (ts_nanoseconds t)"
  have n: "?n < NANOS_PER_SEC" using v by (simp add: ptp_ts_valid_def)
  then have "(?s * NANOS_PER_SEC + ?n) div NANOS_PER_SEC = ?s" and "(?s * NANOS_PER_SEC + ?n) mod NANOS_PER_SEC = ?n"
    by simp_all
  then have "ptp_to_nanos t div int NANOS_PER_SEC = int ?s" and "ptp_to_nanos t mod int NANOS_PER_SEC = int ?n"
    unfolding ptp_to_nanos_nat zdiv_int [symmetric] zmod_int [symmetric] by (simp_all only:)
  moreover have "int ?s < 2 ^ 64" using uint_bounded [of "ts_seconds t"] by simp
  moreover have "\<not> ptp_to_nanos t < 0" 
    unfolding ptp_to_nanos_nat by (simp only: of_nat_less_0_iff not_False_eq_True)
  ultimately show ?thesis by (simp add: ptp_from_nanos_def)
qed

lemma ptp_to_from_nanos:
  assumes "ptp_from_nanos n = Some t"
  shows "ptp_to_nanos t = n \<and> ptp_ts_valid t"
proof -
  have n: "0 \<le> n" "n div int NANOS_PER_SEC < 2 ^ 64"
    and t: "t = \<lparr>ts_seconds = of_int (n div int NANOS_PER_SEC), ts_nanoseconds = of_int (n mod int NANOS_PER_SEC)\<rparr>"
    using assms by (auto simp: ptp_from_nanos_def split: if_splits)
  have "0 \<le> n div int NANOS_PER_SEC" using n by (simp add: NANOS_PER_SEC_def pos_imp_zdiv_nonneg_iff)
  then have s: "uint (ts_seconds t) = n div int NANOS_PER_SEC"
    using n by (simp add: t uint_word_of_int_eq take_bit_int_eq_self)
  have m: "0 \<le> n mod int NANOS_PER_SEC" "n mod int NANOS_PER_SEC < 1000000000"
    by (simp_all add: NANOS_PER_SEC_def)
  then have u: "uint (ts_nanoseconds t) = n mod int NANOS_PER_SEC"
    by (simp add: t uint_word_of_int_eq take_bit_int_eq_self)
  have "ptp_to_nanos t = n" unfolding ptp_to_nanos_def s u by (rule div_mult_mod_eq)
  moreover have "unat (ts_nanoseconds t) < 1000000000" using m(2) u by (simp add: unat_eq_nat_uint nat_less_iff)
  ultimately show ?thesis by (simp add: ptp_ts_valid_def NANOS_PER_SEC_def)
qed

section \<open>Wire formats\<close>

lemma six_bytes_u64:
  assumes "unat (w :: u64) < 2 ^ 48"
  shows "drop_bit 56 w = 0" and "drop_bit 48 w = 0"
proof -
  have "drop_bit 48 w = 0" using assms by (simp add: word_unat_eq_iff drop_bit_eq_div unat_div)
  then show "drop_bit 48 w = 0" .
  have "drop_bit 56 w = drop_bit 8 (drop_bit 48 w)" by simp
  with \<open>drop_bit 48 w = 0\<close> show "drop_bit 56 w = 0" by (simp del: drop_bit_drop_bit)
qed

lemma length_ptp_encode [simp]: "length (ptp_encode_ieee1588 t) = 10"
  by (simp add: ptp_encode_ieee1588_def)

lemma ptp_decode_encode:
  assumes "ptp_ts_48 t"
  shows "ptp_decode_ieee1588 (ptp_encode_ieee1588 t @ rest) = Some t"
proof -
  let ?w = "ts_seconds t"
  have z: "ucast (drop_bit 56 ?w) = (0 :: u8)" "ucast (drop_bit 48 ?w) = (0 :: u8)"
    using six_bytes_u64 [of ?w] assms by (simp_all add: ptp_ts_48_def)
  have "from_be [0, 0, ucast (drop_bit 40 ?w), ucast (drop_bit 32 ?w), ucast (drop_bit 24 ?w),
      ucast (drop_bit 16 ?w), ucast (drop_bit 8 ?w), ucast ?w] = ?w"
    using from_be_u64 [of ?w] unfolding z .
  then show ?thesis
    by (simp add: ptp_decode_ieee1588_def ptp_encode_ieee1588_def wire del: from_be.simps)
qed

lemma from_be_6_bytes: "unat (from_be [0, 0, a, b, c, d, e, f] :: u64) < 2 ^ 48"
  using from_be_less [of "[a, b, c, d, e, f]", where 'a = 64] by simp

lemma ptp_encode_decode:
  assumes "ptp_decode_ieee1588 b = Some t"
  shows "ptp_ts_48 t \<and> (\<exists>rest. b = ptp_encode_ieee1588 t @ rest)"
proof -
  have "10 \<le> length b" using assms by (auto simp: ptp_decode_ieee1588_def split: if_splits)
  then obtain xs rest where b: "b = xs @ rest" and l: "length xs = 10" by (rule bytes_split)
  from l obtain x0 x1 x2 x3 x4 x5 x6 x7 x8 x9 where xs: "xs = [x0, x1, x2, x3, x4, x5, x6, x7, x8, x9]"
    by (auto simp: numeral_eq_Suc length_Suc_conv)
  have t: "t = \<lparr>ts_seconds = from_be [0, 0, x0, x1, x2, x3, x4, x5], ts_nanoseconds = from_be [x6, x7, x8, x9]\<rparr>"
    using assms by (simp add: ptp_decode_ieee1588_def b xs del: from_be.simps)
  have "be_bytes 8 (from_be [0, 0, x0, x1, x2, x3, x4, x5] :: u64) = [0, 0, x0, x1, x2, x3, x4, x5]"
    by (rule be_bytes_from_be_u64)
  moreover have "be_bytes 4 (from_be [x6, x7, x8, x9] :: u32) = [x6, x7, x8, x9]" by (rule be_bytes_from_be_u32)
  ultimately have "ptp_encode_ieee1588 t = xs" by (simp only: ptp_encode_ieee1588_def t xs ptp_timestamp.simps) simp
  moreover have "ptp_ts_48 t" 
    using from_be_6_bytes [of x0 x1 x2 x3 x4 x5] by (simp add: t ptp_ts_48_def del: from_be.simps)
  ultimately show ?thesis using b by blast
qed

interpretation ptp_ts: exact_codec ptp_encode_ieee1588 "\<lambda>b. ok_or (ptp_decode_ieee1588 b) ()" ptp_ts_48
  by unfold_locales (simp_all add: ptp_decode_encode ptp_encode_decode)

section \<open>The compact format\<close>

lemma MAX_SECONDS_48BIT_mask: "MAX_SECONDS_48BIT = mask 48"
  by (simp add: MAX_SECONDS_48BIT_def mask_eq_exp_minus_1 push_bit_eq_mult)

lemma compact_seconds: "drop_bit 16 (ptp_to_airplay_compact t) = take_bit 48 (ts_seconds t)"
  unfolding ptp_to_airplay_compact_def Let_def MAX_SECONDS_48BIT_mask
  by (rule bit_word_eqI) (auto simp: bit_simps dest: bit_imp_le_length)

lemma compact_fraction:
  "ptp_to_airplay_compact t AND 0xFFFF = ucast (of_nat (unat (ts_nanoseconds t) * 65536 div NANOS_PER_SEC) :: u16)"
proof -
  have "ptp_to_airplay_compact t AND mask 16 =
      ucast (of_nat (unat (ts_nanoseconds t) * 65536 div NANOS_PER_SEC) :: u16)"
    unfolding ptp_to_airplay_compact_def Let_def MAX_SECONDS_48BIT_mask
    by (rule bit_word_eqI) (auto simp: bit_simps dest: bit_imp_le_length)
  then show ?thesis by (simp add: mask_numeral)
qed

lemma fraction_loss:
  fixes n :: nat
  defines "f \<equiv> n * 65536 div 1000000000"
  shows "f * 1000000000 div 65536 \<le> n" and "n \<le> f * 1000000000 div 65536 + 15259"
proof -
  have a: "f * 1000000000 \<le> n * 65536" "n * 65536 < f * 1000000000 + 1000000000"
    unfolding f_def using div_times_less_eq_dividend [of "n * 65536" 1000000000]
      dividend_less_div_times [of 1000000000 "n * 65536"] by simp_all
  define q where "q = f * 1000000000 div 65536"
  have b: "q * 65536 \<le> f * 1000000000" "f * 1000000000 < q * 65536 + 65536"
    unfolding q_def using div_times_less_eq_dividend [of "f * 1000000000" 65536]
      dividend_less_div_times [of 65536 "f * 1000000000"] by simp_all
  have "q \<le> n" and "n \<le> q + 15259" using a b by linarith+
  then show "f * 1000000000 div 65536 \<le> n" and "n \<le> f * 1000000000 div 65536 + 15259"
    by (simp_all add: q_def)
qed

lemma compact_nanoseconds:
  assumes "ptp_ts_valid t"
  shows "unat (ts_nanoseconds (ptp_from_airplay_compact (ptp_to_airplay_compact t))) =
    unat (ts_nanoseconds t) * 65536 div 1000000000 * 1000000000 div 65536"
proof -
  let ?n = "unat (ts_nanoseconds t)"
  let ?f = "?n * 65536 div 1000000000"
  have n: "?n < 1000000000" using assms by (simp add: ptp_ts_valid_def NANOS_PER_SEC_def)
  then have "?f < 65536" by (simp add: div_less_iff_less_mult)
  then have "unat (ptp_to_airplay_compact t AND 0xFFFF) = ?f"
    unfolding compact_fraction by (simp add: NANOS_PER_SEC_def unat_ucast_up unat_of_nat take_bit_nat_eq_self)
  moreover have "?f * 1000000000 div 65536 \<le> ?n" by (rule fraction_loss)
  ultimately show ?thesis using n
    by (simp add: ptp_from_airplay_compact_def NANOS_PER_SEC_def unat_of_nat take_bit_nat_eq_self min_def)
qed

lemma ptp_add_duration_nanos:
  assumes "ptp_add_duration t (secs, nanos) = Some u"
  shows "ptp_to_nanos u = ptp_to_nanos t + uint secs * 1000000000 + uint nanos \<and> ptp_ts_valid u"
proof -
  let ?tot = "unat (ts_nanoseconds t) + unat nanos"
  let ?s = "unat (ts_seconds t) + unat secs + ?tot div NANOS_PER_SEC"
  have lt: "?s < 2 ^ 64" and u: "u = \<lparr>ts_seconds = of_nat ?s, ts_nanoseconds = of_nat (?tot mod NANOS_PER_SEC)\<rparr>"
    using assms by (auto simp: ptp_add_duration_def Let_def split: if_splits)
  have m: "?tot mod NANOS_PER_SEC < 1000000000" by (simp add: NANOS_PER_SEC_def)
  have us: "unat (ts_seconds u) = ?s" and un: "unat (ts_nanoseconds u) = ?tot mod NANOS_PER_SEC"
    unfolding u ptp_timestamp.simps using lt m by (intro unat_of_nat_small, simp)+
  have "?s * NANOS_PER_SEC + ?tot mod NANOS_PER_SEC =
      unat (ts_seconds t) * NANOS_PER_SEC + unat (ts_nanoseconds t) + unat secs * NANOS_PER_SEC + unat nanos"
    using div_mult_mod_eq [of ?tot NANOS_PER_SEC] by (simp add: algebra_simps)
  then have "ptp_to_nanos u = int (unat (ts_seconds t) * NANOS_PER_SEC + unat (ts_nanoseconds t)
      + unat secs * NANOS_PER_SEC + unat nanos)"
    unfolding ptp_to_nanos_nat us un by (simp only:)
  also have "\<dots> = ptp_to_nanos t + uint secs * 1000000000 + uint nanos"
    by (simp add: ptp_to_nanos_def NANOS_PER_SEC_def)
  finally show ?thesis using m un by (simp add: ptp_ts_valid_def NANOS_PER_SEC_def)
qed

section \<open>Properties\<close>

text \<open>
  The IEEE 1588 form of a timestamp is exact: a byte string decodes to a timestamp if and
  only if that timestamp has seconds of at most 48 bits and its encoding starts the string.
\<close>

theorem ptp_ieee1588_exact:
  "ptp_decode_ieee1588 b = Some t \<longleftrightarrow> ptp_ts_48 t \<and> (\<exists>rest. b = ptp_encode_ieee1588 t @ rest)"
  using ptp_ts.dec_iff [of b t] by simp

text \<open>
  The compact 48.16 form keeps the seconds of a valid timestamp and loses at most 15259
  nanoseconds, always downwards.
\<close>

theorem ptp_compact_loss_bound:
  assumes "ptp_ts_valid t" and "ptp_ts_48 t"
  shows "ts_seconds (ptp_from_airplay_compact (ptp_to_airplay_compact t)) = ts_seconds t
    \<and> unat (ts_nanoseconds (ptp_from_airplay_compact (ptp_to_airplay_compact t))) \<le> unat (ts_nanoseconds t)
    \<and> unat (ts_nanoseconds t) \<le> unat (ts_nanoseconds (ptp_from_airplay_compact (ptp_to_airplay_compact t))) + 15259"
proof -
  have "take_bit 48 (ts_seconds t) = ts_seconds t"
    using assms(2) by (simp add: ptp_ts_48_def word_unat_eq_iff unsigned_take_bit_eq take_bit_nat_eq_self)
  then have "ts_seconds (ptp_from_airplay_compact (ptp_to_airplay_compact t)) = ts_seconds t"
    by (simp add: ptp_from_airplay_compact_def Let_def compact_seconds)
  then show ?thesis unfolding compact_nanoseconds [OF assms(1)] using fraction_loss by blast
qed

theorem ptp_compact_loss_bound_witness:
  "ptp_ts_valid \<lparr>ts_seconds = 5, ts_nanoseconds = 15258\<rparr> \<and> ptp_ts_48 \<lparr>ts_seconds = 5, ts_nanoseconds = 15258\<rparr>
   \<and> ts_seconds (ptp_from_airplay_compact (ptp_to_airplay_compact \<lparr>ts_seconds = 5, ts_nanoseconds = 15258\<rparr>)) = 5"
  using ptp_compact_loss_bound [of "\<lparr>ts_seconds = 5, ts_nanoseconds = 15258\<rparr>"]
  by (simp add: ptp_ts_valid_def ptp_ts_48_def NANOS_PER_SEC_def)

text \<open>
  The conversions between the two forms are not inverse to each other: a whole 65536th of
  a second is read as 15258 nanoseconds and written back as zero.
\<close>

theorem ptp_compact_not_lossless:
  "ptp_from_airplay_compact 1 = \<lparr>ts_seconds = 0, ts_nanoseconds = 15258\<rparr>
   \<and> ptp_to_airplay_compact (ptp_from_airplay_compact 1) = 0"
  by (simp add: ptp_from_airplay_compact_def ptp_to_airplay_compact_def NANOS_PER_SEC_def Let_def)

end
