(* ===== verification/Ptp_Message.thy ===== *)
theory Ptp_Message
  imports Ptp_Timestamp
begin

text \<open>
  PTP messages, \<open>src/protocol/ptp/message.rs\<close>: the 34-byte header, the message bodies and the
  compact AirPlay timing packet. The signed correction field and log interval are kept as
  the words of their bit patterns. The message codec interprets \<open>wire_codec\<close>.
\<close>

section \<open>Message types\<close>

datatype ptp_message_type = Sync_t | DelayReq_t | FollowUp_t | DelayResp_t | Announce_t | Signaling_t

datatype ptp_parse_error = PtpTooShort nat nat | UnknownMessageType u8

fun ptp_type_byte :: "ptp_message_type \<Rightarrow> u8" where
  "ptp_type_byte Sync_t = 0x00"
| "ptp_type_byte DelayReq_t = 0x01"
| "ptp_type_byte FollowUp_t = 0x08"
| "ptp_type_byte DelayResp_t = 0x09"
| "ptp_type_byte Announce_t = 0x0B"
| "ptp_type_byte Signaling_t = 0x0C"

definition ptp_type_from_nibble :: "u8 \<Rightarrow> (ptp_parse_error, ptp_message_type) result" where
  "ptp_type_from_nibble v =
     (let n = v AND 0x0F in
      if n = 0x00 then Inr Sync_t
      else if n = 0x01 then Inr DelayReq_t
      else if n = 0x08 then Inr FollowUp_t
      else if n = 0x09 then Inr DelayResp_t
      else if n = 0x0B then Inr Announce_t
      else if n = 0x0C then Inr Signaling_t
      else Inl (UnknownMessageType n))"

definition ptp_type_is_event :: "ptp_message_type \<Rightarrow> bool" where
  "ptp_type_is_event t \<longleftrightarrow> t = Sync_t \<or> t = DelayReq_t"

definition ptp_type_is_ignorable :: "ptp_message_type \<Rightarrow> bool" where
  "ptp_type_is_ignorable t \<longleftrightarrow> t = Signaling_t"

definition ptp_type_is_general :: "ptp_message_type \<Rightarrow> bool" where
  "ptp_type_is_general t \<longleftrightarrow> \<not> ptp_type_is_event t"

section \<open>Port identities and headers\<close>

record ptp_port_identity =
  pi_clock_identity :: u64
  pi_port_number :: u16

definition ptp_port_encode :: "ptp_port_identity \<Rightarrow> bytes" where
  "ptp_port_encode p = be_bytes 8 (pi_clock_identity p) @ be_bytes 2 (pi_port_number p)"

definition ptp_port_decode :: "bytes \<Rightarrow> ptp_port_identity option" where
  "ptp_port_decode data =
     (if length data < 10 then None
      else Some \<lparr>pi_clock_identity = from_be [data ! 0, data ! 1, data ! 2, data ! 3, data ! 4, data ! 5,
                                              data ! 6, data ! 7],
                 pi_port_number = from_be [data ! 8, data ! 9]\<rparr>)"

record ptp_header =
  ph_transport_specific :: u8
  ph_message_type :: ptp_message_type
  ph_version :: u8
  ph_message_length :: u16
  ph_domain_number :: u8
  ph_flags :: u16
  ph_correction_field :: u64
  ph_source_port_identity :: ptp_port_identity
  ph_sequence_id :: u16
  ph_control_field :: u8
  ph_log_message_interval :: u8

definition PTP_HEADER_SIZE :: nat where "PTP_HEADER_SIZE = 34"

fun ptp_control_field :: "ptp_message_type \<Rightarrow> u8" where
  "ptp_control_field Sync_t = 0x00"
| "ptp_control_field DelayReq_t = 0x01"
| "ptp_control_field FollowUp_t = 0x02"
| "ptp_control_field DelayResp_t = 0x03"
| "ptp_control_field Announce_t = 0x05"
| "ptp_control_field Signaling_t = 0x05"

definition ptp_header_new :: "ptp_message_type \<Rightarrow> ptp_port_identity \<Rightarrow> u16 \<Rightarrow> ptp_header" where
  "ptp_header_new message_type source sequence_id =
     \<lparr>ph_transport_specific = 1, ph_message_type = message_type, ph_version = 2, ph_message_length = 0,
      ph_domain_number = 0, ph_flags = 0, ph_correction_field = 0, ph_source_port_identity = source,
      ph_sequence_id = sequence_id, ph_control_field = ptp_control_field message_type,
      ph_log_message_interval =
        (case message_type of Sync_t \<Rightarrow> - 3 | Announce_t \<Rightarrow> - 2 | _ \<Rightarrow> 0x7F)\<rparr>"

text \<open>\<open>u16::try_from(n).unwrap_or(u16::MAX)\<close>.\<close>

definition u16_saturate :: "nat \<Rightarrow> u16" where
  "u16_saturate n = (if n < 2 ^ 16 then of_nat n else - 1)"

definition ptp_header_encode :: "ptp_header \<Rightarrow> nat \<Rightarrow> bytes" where
  "ptp_header_encode h body_length =
     [push_bit 4 (ph_transport_specific h) OR (ptp_type_byte (ph_message_type h) AND 0x0F),
      ph_version h AND 0x0F]
     @ be_bytes 2 (u16_saturate (PTP_HEADER_SIZE + body_length))
     @ [ph_domain_number h, 0]
     @ be_bytes 2 (ph_flags h)
     @ be_bytes 8 (ph_correction_field h)
     @ replicate 4 0
     @ ptp_port_encode (ph_source_port_identity h)
     @ be_bytes 2 (ph_sequence_id h)
     @ [ph_control_field h, ph_log_message_interval h]"

definition ptp_header_decode :: "bytes \<Rightarrow> (ptp_parse_error, ptp_header) result" where
  "ptp_header_decode data =
     (if length data < PTP_HEADER_SIZE then Inl (PtpTooShort PTP_HEADER_SIZE (length data))
      else result_bind (ptp_type_from_nibble (data ! 0)) (\<lambda>message_type.
        result_bind (ok_or (ptp_port_decode (take 10 (drop 20 data))) (PtpTooShort 30 (length data)))
          (\<lambda>source_port_identity.
            Inr \<lparr>ph_transport_specific = drop_bit 4 (data ! 0), ph_message_type = message_type,
                 ph_version = data ! 1 AND 0x0F, ph_message_length = from_be [data ! 2, data ! 3],
                 ph_domain_number = data ! 4, ph_flags = from_be [data ! 6, data ! 7],
                 ph_correction_field = from_be [data ! 8, data ! 9, data ! 10, data ! 11, data ! 12,
                                                data ! 13, data ! 14, data ! 15],
                 ph_source_port_identity = source_port_identity,
                 ph_sequence_id = from_be [data ! 30, data ! 31], ph_control_field = data ! 32,
                 ph_log_message_interval = data ! 33\<rparr>)))"

section \<open>Messages\<close>

datatype ptp_message_body =
    Sync ptp_timestamp
  | FollowUp ptp_timestamp
  | DelayReq ptp_timestamp
  | DelayResp ptp_timestamp ptp_port_identity
  | Announce ptp_timestamp u64 u8 u8
  | Signaling

record ptp_message =
  pm_header :: ptp_header
  pm_body :: ptp_message_body

definition TIMESTAMP_BODY_SIZE :: nat where "TIMESTAMP_BODY_SIZE = 10"
definition DELAY_RESP_BODY_SIZE :: nat where "DELAY_RESP_BODY_SIZE = 20"
definition ANNOUNCE_BODY_SIZE :: nat where "ANNOUNCE_BODY_SIZE = 30"

definition ptp_body_decode ::
    "ptp_message_type \<Rightarrow> bytes \<Rightarrow> nat \<Rightarrow> (ptp_parse_error, ptp_message_body) result" where
  "ptp_body_decode message_type body_data have_len =
     (let ts = (\<lambda>needed. ok_or (ptp_decode_ieee1588 body_data) (PtpTooShort (PTP_HEADER_SIZE + needed) have_len))
      in case message_type of
        Sync_t \<Rightarrow> result_bind (ts TIMESTAMP_BODY_SIZE) (\<lambda>t. Inr (Sync t))
      | FollowUp_t \<Rightarrow> result_bind (ts TIMESTAMP_BODY_SIZE) (\<lambda>t. Inr (FollowUp t))
      | DelayReq_t \<Rightarrow> result_bind (ts TIMESTAMP_BODY_SIZE) (\<lambda>t. Inr (DelayReq t))
      | DelayResp_t \<Rightarrow>
          (if length body_data < DELAY_RESP_BODY_SIZE
           then Inl (PtpTooShort (PTP_HEADER_SIZE + DELAY_RESP_BODY_SIZE) have_len)
           else result_bind (ts DELAY_RESP_BODY_SIZE) (\<lambda>t.
             result_bind (ok_or (ptp_port_decode (take 10 (drop 10 body_data)))
                            (PtpTooShort (PTP_HEADER_SIZE + DELAY_RESP_BODY_SIZE) have_len))
               (\<lambda>port_id. Inr (DelayResp t port_id))))
      | Announce_t \<Rightarrow>
          (if length body_data < 10 then Inl (PtpTooShort (PTP_HEADER_SIZE + 10) have_len)
           else result_bind (ts 10) (\<lambda>t.
             if length body_data \<ge> ANNOUNCE_BODY_SIZE
             then Inr (Announce t
                    (from_be [body_data ! 19, body_data ! 20, body_data ! 21, body_data ! 22, body_data ! 23,
                              body_data ! 24, body_data ! 25, body_data ! 26])
                    (body_data ! 13) (body_data ! 18))
             else Inr (Announce t 0 128 128)))
      | Signaling_t \<Rightarrow> Inr Signaling)"

definition ptp_message_decode :: "bytes \<Rightarrow> (ptp_parse_error, ptp_message) result" where
  "ptp_message_decode data =
     result_bind (ptp_header_decode data) (\<lambda>header.
       result_bind (ptp_body_decode (ph_message_type header) (drop PTP_HEADER_SIZE data) (length data))
         (\<lambda>body. Inr \<lparr>pm_header = header, pm_body = body\<rparr>))"

fun ptp_body_encode :: "ptp_message_body \<Rightarrow> bytes" where
  "ptp_body_encode (Sync t) = ptp_encode_ieee1588 t"
| "ptp_body_encode (FollowUp t) = ptp_encode_ieee1588 t"
| "ptp_body_encode (DelayReq t) = ptp_encode_ieee1588 t"
| "ptp_body_encode (DelayResp t port) = ptp_encode_ieee1588 t @ ptp_port_encode port"
| "ptp_body_encode (Announce t gm p1 p2) =
     ptp_encode_ieee1588 t @ be_bytes 2 (37 :: u16) @ [0, p1] @ [248, 0xFE, 0xFF, 0xFF] @ [p2]
     @ be_bytes 8 gm @ be_bytes 2 (0 :: u16) @ [0xA0]"
| "ptp_body_encode Signaling = []"

definition ptp_message_encode :: "ptp_message \<Rightarrow> bytes" where
  "ptp_message_encode m =
     (let body_bytes = ptp_body_encode (pm_body m)
      in ptp_header_encode (pm_header m) (length body_bytes) @ body_bytes)"

definition ptp_sync :: "ptp_port_identity \<Rightarrow> u16 \<Rightarrow> ptp_timestamp \<Rightarrow> ptp_message" where
  "ptp_sync source sequence_id t = \<lparr>pm_header = ptp_header_new Sync_t source sequence_id, pm_body = Sync t\<rparr>"

definition ptp_follow_up :: "ptp_port_identity \<Rightarrow> u16 \<Rightarrow> ptp_timestamp \<Rightarrow> ptp_message" where
  "ptp_follow_up source sequence_id t =
     \<lparr>pm_header = ptp_header_new FollowUp_t source sequence_id, pm_body = FollowUp t\<rparr>"

definition ptp_delay_req :: "ptp_port_identity \<Rightarrow> u16 \<Rightarrow> ptp_timestamp \<Rightarrow> ptp_message" where
  "ptp_delay_req source sequence_id t =
     \<lparr>pm_header = ptp_header_new DelayReq_t source sequence_id, pm_body = DelayReq t\<rparr>"

definition ptp_delay_resp ::
    "ptp_port_identity \<Rightarrow> u16 \<Rightarrow> ptp_timestamp \<Rightarrow> ptp_port_identity \<Rightarrow> ptp_message" where
  "ptp_delay_resp source sequence_id t port =
     \<lparr>pm_header = ptp_header_new DelayResp_t source sequence_id, pm_body = DelayResp t port\<rparr>"

definition ptp_announce ::
    "(u64 \<times> u32) option \<Rightarrow> ptp_port_identity \<Rightarrow> u16 \<Rightarrow> u64 \<Rightarrow> u8 \<Rightarrow> u8 \<Rightarrow> ptp_message" where
  "ptp_announce clock source sequence_id gm p1 p2 =
     \<lparr>pm_header = ptp_header_new Announce_t source sequence_id,
      pm_body = Announce (ptp_ts_now clock) gm p1 p2\<rparr>"

section \<open>The compact timing packet\<close>

record airplay_timing_packet =
  atp_message_type :: ptp_message_type
  atp_sequence_id :: u16
  atp_timestamp :: ptp_timestamp
  atp_clock_id :: u64

definition AIRPLAY_TIMING_SIZE :: nat where "AIRPLAY_TIMING_SIZE = 24"

definition airplay_timing_decode :: "bytes \<Rightarrow> (ptp_parse_error, airplay_timing_packet) result" where
  "airplay_timing_decode data =
     (if length data < 22 then Inl (PtpTooShort 22 (length data))
      else result_bind (ptp_type_from_nibble (data ! 0)) (\<lambda>message_type.
        let compact_ts = from_be [0, 0, data ! 8, data ! 9, data ! 10, data ! 11, data ! 12, data ! 13]
        in Inr \<lparr>atp_message_type = message_type, atp_sequence_id = from_be [data ! 2, data ! 3],
                atp_timestamp = ptp_from_airplay_compact compact_ts,
                atp_clock_id = (if length data \<ge> 22
                  then from_be [data ! 14, data ! 15, data ! 16, data ! 17, data ! 18, data ! 19, data ! 20,
                                data ! 21]
                  else 0)\<rparr>))"

definition airplay_timing_encode :: "airplay_timing_packet \<Rightarrow> bytes" where
  "airplay_timing_encode p =
     [ptp_type_byte (atp_message_type p), 0] @ be_bytes 2 (atp_sequence_id p) @ replicate 4 0
     @ drop 2 (be_bytes 8 (ptp_to_airplay_compact (atp_timestamp p)))
     @ be_bytes 8 (atp_clock_id p) @ [0, 0]"

section \<open>Round trips\<close>

lemma nibble_low: "(push_bit 4 x OR (c AND 0x0F)) AND 0x0F = (c AND 0x0F :: u8)"
proof -
  have "(push_bit 4 x OR (c AND mask 4)) AND mask 4 = (c AND mask 4 :: u8)"
    by (rule bit_word_eqI) (auto simp: bit_simps)
  then show ?thesis by (simp add: mask_numeral)
qed

lemma nibble_high: "x < 16 \<Longrightarrow> drop_bit 4 (push_bit 4 x OR (c AND 0x0F)) = (x :: u8)"
proof -
  assume "x < 16"
  then have x: "take_bit 4 x = x" using less_mask_eq [of x 4] by (simp add: take_bit_eq_mask)
  have "drop_bit 4 (push_bit 4 x OR (c AND mask 4)) = take_bit 4 (x :: u8)"
    by (rule bit_word_eqI) (auto simp: bit_simps)
  with x show ?thesis by (simp add: mask_numeral)
qed

lemma ptp_type_roundtrip: "ptp_type_from_nibble (push_bit 4 x OR (ptp_type_byte t AND 0x0F)) = Inr t"
  unfolding ptp_type_from_nibble_def Let_def nibble_low by (cases t) simp_all

lemma length_ptp_port_encode [simp]: "length (ptp_port_encode p) = 10"
  by (simp add: ptp_port_encode_def)

lemma ptp_port_roundtrip: "ptp_port_decode (ptp_port_encode p @ rest) = Some p"
  by (simp add: ptp_port_decode_def ptp_port_encode_def wire del: from_be.simps)

interpretation ptp_port: wire_codec ptp_port_encode "\<lambda>b. ok_or (ptp_port_decode b) ()" "\<lambda>p. True"
  by unfold_locales (simp add: ptp_port_roundtrip)

definition ptp_header_ok :: "ptp_header \<Rightarrow> bool" where
  "ptp_header_ok h \<longleftrightarrow> ph_transport_specific h < 16 \<and> ph_version h < 16"

lemma length_ptp_header_encode [simp]: "length (ptp_header_encode h n) = 34"
  by (simp add: ptp_header_encode_def)

lemma ptp_header_roundtrip:
  assumes "ptp_header_ok h"
  shows "ptp_header_decode (ptp_header_encode h n @ rest) =
    Inr (h\<lparr>ph_message_length := u16_saturate (34 + n)\<rparr>)"
proof -
  let ?d = "ptp_header_encode h n @ rest"
  have v: "ph_version h AND 0x0F = ph_version h" and t: "ph_transport_specific h < 16"
    using assms low_nibble by (auto simp: ptp_header_ok_def)
  have b0: "?d ! 0 = push_bit 4 (ph_transport_specific h) OR (ptp_type_byte (ph_message_type h) AND 0x0F)"
    by (simp add: ptp_header_encode_def)
  have port: "ptp_port_decode (take 10 (drop 20 ?d)) = Some (ph_source_port_identity h)"
    using ptp_port_roundtrip [of "ph_source_port_identity h" "[]"] by (simp add: ptp_header_encode_def)
  have fields: "?d ! 1 = ph_version h" "from_be [?d ! 2, ?d ! 3] = u16_saturate (34 + n)" "?d ! 4 = ph_domain_number h"
    "from_be [?d ! 6, ?d ! 7] = ph_flags h"
    "from_be [?d ! 8, ?d ! 9, ?d ! 10, ?d ! 11, ?d ! 12, ?d ! 13, ?d ! 14, ?d ! 15] = ph_correction_field h"
    "from_be [?d ! 30, ?d ! 31] = ph_sequence_id h" "?d ! 32 = ph_control_field h" "?d ! 33 = ph_log_message_interval h"
    by (simp_all add: ptp_header_encode_def ptp_port_encode_def v wire PTP_HEADER_SIZE_def del: from_be.simps)
  show ?thesis
    unfolding ptp_header_decode_def port fields b0 ptp_type_roundtrip nibble_high [OF t]
    by (simp add: PTP_HEADER_SIZE_def v)
qed

text \<open>The messages whose fields fit their places and whose header describes the body.\<close>

fun ptp_body_type :: "ptp_message_body \<Rightarrow> ptp_message_type" where
  "ptp_body_type (Sync _) = Sync_t"
| "ptp_body_type (FollowUp _) = FollowUp_t"
| "ptp_body_type (DelayReq _) = DelayReq_t"
| "ptp_body_type (DelayResp _ _) = DelayResp_t"
| "ptp_body_type (Announce _ _ _ _) = Announce_t"
| "ptp_body_type Signaling = Signaling_t"

fun ptp_body_ok :: "ptp_message_body \<Rightarrow> bool" where
  "ptp_body_ok (Sync t) = ptp_ts_48 t"
| "ptp_body_ok (FollowUp t) = ptp_ts_48 t"
| "ptp_body_ok (DelayReq t) = ptp_ts_48 t"
| "ptp_body_ok (DelayResp t _) = ptp_ts_48 t"
| "ptp_body_ok (Announce t _ _ _) = ptp_ts_48 t"
| "ptp_body_ok Signaling = True"

lemma ptp_body_roundtrip:
  assumes "ptp_body_ok b"
  shows "ptp_body_decode (ptp_body_type b) (ptp_body_encode b @ rest) k = Inr b"
proof (cases b)
  case (DelayResp t p)
  have "ptp_port_decode (take 10 (drop 10 (ptp_encode_ieee1588 t @ ptp_port_encode p @ rest))) = Some p"
    using ptp_port_roundtrip [of p "[]"] by simp
  with DelayResp assms show ?thesis
    by (simp add: ptp_body_decode_def ptp_decode_encode DELAY_RESP_BODY_SIZE_def)
next
  case (Announce t gm p1 p2)
  let ?d = "ptp_body_encode (Announce t gm p1 p2) @ rest"
  have "from_be [?d ! 19, ?d ! 20, ?d ! 21, ?d ! 22, ?d ! 23, ?d ! 24, ?d ! 25, ?d ! 26] = gm" "?d ! 13 = p1" "?d ! 18 = p2"
    by (simp_all add: nth_append wire del: from_be.simps)
  moreover have "ptp_decode_ieee1588 ?d = Some t" using assms Announce by (simp add: ptp_decode_encode)
  moreover have "length ?d = 30 + length rest" by simp
  ultimately show ?thesis unfolding Announce ptp_body_type.simps ptp_body_decode_def Let_def
    by (simp del: ptp_body_encode.simps from_be.simps add: ANNOUNCE_BODY_SIZE_def)
qed (use assms in \<open>simp_all add: ptp_body_decode_def ptp_decode_encode\<close>)

definition ptp_message_ok :: "ptp_message \<Rightarrow> bool" where
  "ptp_message_ok m \<longleftrightarrow> ptp_header_ok (pm_header m) \<and> ptp_body_ok (pm_body m)
     \<and> ph_message_type (pm_header m) = ptp_body_type (pm_body m)"

text \<open>A message as it arrives: with the length field that the encoder fills in.\<close>

definition ptp_message_sent :: "ptp_message \<Rightarrow> ptp_message" where
  "ptp_message_sent m =
     m\<lparr>pm_header := (pm_header m)\<lparr>ph_message_length := of_nat (length (ptp_message_encode m))\<rparr>\<rparr>"

lemma length_ptp_body_encode: "length (ptp_body_encode b) \<le> 30"
  by (cases b) simp_all

lemma ptp_message_roundtrip:
  assumes "ptp_message_ok m"
  shows "ptp_message_decode (ptp_message_encode m @ rest) = Inr (ptp_message_sent m)"
proof -
  let ?b = "ptp_body_encode (pm_body m)"
  have "u16_saturate (34 + length ?b) = of_nat (length (ptp_message_encode m))"
    using length_ptp_body_encode [of "pm_body m"] by (simp add: u16_saturate_def ptp_message_encode_def Let_def)
  then have "ptp_header_decode (ptp_message_encode m @ rest) = Inr (pm_header (ptp_message_sent m))"
    using assms ptp_header_roundtrip [of "pm_header m" "length ?b" "?b @ rest"]
    by (simp add: ptp_message_ok_def ptp_message_encode_def ptp_message_sent_def Let_def)
  moreover have "drop PTP_HEADER_SIZE (ptp_message_encode m @ rest) = ?b @ rest"
    by (simp add: ptp_message_encode_def Let_def PTP_HEADER_SIZE_def)
  ultimately show ?thesis
    using assms ptp_body_roundtrip [of "pm_body m" rest]
    by (simp add: ptp_message_decode_def ptp_message_ok_def ptp_message_sent_def)
qed

interpretation ptp_msg: wire_codec ptp_message_encode ptp_message_decode
  "\<lambda>m. ptp_message_ok m \<and> ptp_message_sent m = m"
  by unfold_locales (simp add: ptp_message_roundtrip)

lemma six_low_bytes:
  "from_be [0, 0, ucast (drop_bit 40 w), ucast (drop_bit 32 w), ucast (drop_bit 24 w), ucast (drop_bit 16 w),
     ucast (drop_bit 8 w), ucast w] = take_bit 48 (w :: u64)"
proof -
  have "from_be (be_bytes 6 w) = take_bit 48 w" using from_be_be_bytes [of 6 w] by simp
  moreover have "be_bytes 6 w = [ucast (drop_bit 40 w), ucast (drop_bit 32 w), ucast (drop_bit 24 w),
      ucast (drop_bit 16 w), ucast (drop_bit 8 w), ucast w]"
    by (simp add: numeral_eq_Suc)
  ultimately show ?thesis by (simp add: from_be.simps(2) [of 0])
qed

lemma compact_48:
  "ptp_from_airplay_compact (take_bit 48 v) =
     (ptp_from_airplay_compact v)\<lparr>ts_seconds := take_bit 32 (ts_seconds (ptp_from_airplay_compact v))\<rparr>"
proof -
  have "take_bit 48 v AND mask 16 = v AND mask 16" and d: "drop_bit 16 (take_bit 48 v) = take_bit 32 (drop_bit 16 v)"
    by (rule bit_word_eqI, auto simp: bit_simps)+
  then have "take_bit 48 v AND 0xFFFF = v AND 0xFFFF" by (simp add: mask_numeral)
  with d show ?thesis by (simp add: ptp_from_airplay_compact_def Let_def)
qed

lemma airplay_timing_roundtrip:
  "airplay_timing_decode (airplay_timing_encode p @ rest) =
     Inr (p\<lparr>atp_timestamp := ptp_from_airplay_compact (take_bit 48 (ptp_to_airplay_compact (atp_timestamp p)))\<rparr>)"
proof -
  have "ptp_type_from_nibble (ptp_type_byte (atp_message_type p)) = Inr (atp_message_type p)"
    by (cases "atp_message_type p") (simp_all add: ptp_type_from_nibble_def)
  then show ?thesis
    by (simp add: airplay_timing_decode_def airplay_timing_encode_def wire six_low_bytes Let_def del: from_be.simps)
qed

section \<open>Properties\<close>

text \<open>
  PTP messages survive the wire: a message whose header describes its body, with 4-bit
  transport and version fields and 48-bit seconds, is decoded from its encoding, also with
  bytes after it, as the same message with the length field filled in; every message that
  the constructors build is of this kind when its timestamp is.
\<close>

theorem ptp_message_codec:
  assumes "ptp_message_ok m" and "ptp_ts_48 t"
  shows "ptp_message_decode (ptp_message_encode m @ rest) = Inr (ptp_message_sent m)
    \<and> ptp_message_ok (ptp_sync src n t) \<and> ptp_message_ok (ptp_follow_up src n t)
    \<and> ptp_message_ok (ptp_delay_req src n t) \<and> ptp_message_ok (ptp_delay_resp src n t port)"
  using assms ptp_message_roundtrip
  by (simp add: ptp_message_ok_def ptp_sync_def ptp_follow_up_def ptp_delay_req_def ptp_delay_resp_def
      ptp_header_ok_def ptp_header_new_def)

theorem ptp_message_codec_witness:
  "ptp_message_ok (ptp_sync \<lparr>pi_clock_identity = 7, pi_port_number = 1\<rparr> 9 \<lparr>ts_seconds = 3, ts_nanoseconds = 4\<rparr>)
   \<and> ptp_message_decode (ptp_message_encode
        (ptp_sync \<lparr>pi_clock_identity = 7, pi_port_number = 1\<rparr> 9 \<lparr>ts_seconds = 3, ts_nanoseconds = 4\<rparr>) @ [1, 2]) =
      Inr (ptp_message_sent (ptp_sync \<lparr>pi_clock_identity = 7, pi_port_number = 1\<rparr> 9 \<lparr>ts_seconds = 3, ts_nanoseconds = 4\<rparr>))"
proof -
  let ?m = "ptp_sync \<lparr>pi_clock_identity = 7, pi_port_number = 1\<rparr> 9 \<lparr>ts_seconds = 3, ts_nanoseconds = 4\<rparr>"
  have "ptp_message_ok ?m"
    by (simp add: ptp_message_ok_def ptp_sync_def ptp_header_ok_def ptp_header_new_def ptp_ts_48_def)
  moreover have "ptp_ts_48 ptp_ts_zero" by (simp add: ptp_ts_48_def ptp_ts_zero_def)
  ultimately show ?thesis using ptp_message_codec [of ?m ptp_ts_zero "[1, 2]"] by blast
qed

text \<open>
  The compact AirPlay timing packet keeps type, sequence number, clock identity and the
  time to within 15259 nanoseconds, but only 32 of the 48 bits of the seconds: a timestamp
  whose seconds exceed 32 bits arrives reduced modulo \<open>2 ^ 32\<close>.
\<close>

theorem airplay_timing_packet_truncates:
  assumes "ptp_ts_valid (atp_timestamp p)"
  shows "\<exists>t. airplay_timing_decode (airplay_timing_encode p @ rest) = Inr (p\<lparr>atp_timestamp := t\<rparr>)
    \<and> unat (ts_seconds t) = unat (ts_seconds (atp_timestamp p)) mod 2 ^ 32
    \<and> unat (ts_nanoseconds t) \<le> unat (ts_nanoseconds (atp_timestamp p))
    \<and> unat (ts_nanoseconds (atp_timestamp p)) \<le> unat (ts_nanoseconds t) + 15259"
proof -
  let ?t = "atp_timestamp p"
  let ?c = "ptp_from_airplay_compact (ptp_to_airplay_compact ?t)"
  let ?u = "ptp_from_airplay_compact (take_bit 48 (ptp_to_airplay_compact ?t))"
  have "ts_seconds ?u = take_bit 32 (take_bit 48 (ts_seconds ?t))"
    by (simp add: compact_48) (simp add: ptp_from_airplay_compact_def Let_def compact_seconds)
  then have "ts_seconds ?u = take_bit 32 (ts_seconds ?t)" by (simp add: min_def)
  then have "unat (ts_seconds ?u) = unat (ts_seconds ?t) mod 2 ^ 32"
    by (simp only: unsigned_take_bit_eq) (simp add: take_bit_eq_mod)
  moreover have "ts_nanoseconds ?u = ts_nanoseconds ?c" by (simp add: compact_48)
  then have n: "unat (ts_nanoseconds ?u) = unat (ts_nanoseconds ?t) * 65536 div 1000000000 * 1000000000 div 65536"
    using compact_nanoseconds [OF assms] by simp
  ultimately show ?thesis
    using fraction_loss [of "unat (ts_nanoseconds ?t)"]
    by (intro exI [of _ ?u]) (simp add: airplay_timing_roundtrip n)
qed

theorem airplay_timing_packet_truncates_witness:
  "\<exists>t. airplay_timing_decode (airplay_timing_encode
      \<lparr>atp_message_type = Sync_t, atp_sequence_id = 1, atp_timestamp = \<lparr>ts_seconds = 4294967301, ts_nanoseconds = 0\<rparr>,
       atp_clock_id = 9\<rparr>) =
      Inr \<lparr>atp_message_type = Sync_t, atp_sequence_id = 1, atp_timestamp = t, atp_clock_id = 9\<rparr>
    \<and> unat (ts_seconds t) = 5"
  using airplay_timing_packet_truncates [of "\<lparr>atp_message_type = Sync_t, atp_sequence_id = 1,
      atp_timestamp = \<lparr>ts_seconds = 4294967301, ts_nanoseconds = 0\<rparr>, atp_clock_id = 9\<rparr>" "[]"]
  by (auto simp: ptp_ts_valid_def NANOS_PER_SEC_def)

end
