(* ===== verification/Ptp_Clock.thy ===== *)
theory Ptp_Clock
  imports Ptp_Timestamp "HOL-Library.Signed_Division" "HOL-Library.Multiset"
begin

text \<open>
  The PTP clock, \<open>src/protocol/ptp/clock.rs\<close>: measurements of delay exchanges, the median
  offset over a window, epoch calibration and conversion between the clock domains.
  Monotonic instants and durations are nanoseconds on \<open>nat\<close>, readings of the clocks are
  arguments; 128-bit integers do not overflow here and are on \<open>int\<close>. The drift rate is a
  floating-point value: its computation from the offset and time differences is the argument
  \<open>f64_drift\<close> and its bit pattern is stored. A panic is \<open>None\<close>.
\<close>

section \<open>Measurements\<close>

datatype ptp_role = Master | Slave

record timing_measurement =
  tm_t1 :: ptp_timestamp
  tm_t2 :: ptp_timestamp
  tm_t3 :: ptp_timestamp
  tm_t4 :: ptp_timestamp
  tm_local_time :: nat
  tm_offset_ns :: int
  tm_rtt :: nat

definition timing_measurement_calculate ::
    "ptp_timestamp \<Rightarrow> ptp_timestamp \<Rightarrow> ptp_timestamp \<Rightarrow> ptp_timestamp \<Rightarrow> nat \<Rightarrow> timing_measurement" where
  "timing_measurement_calculate t1 t2 t3 t4 local_time =
     (let t2_minus_t1 = ptp_diff_nanos t2 t1;
          t3_minus_t4 = ptp_diff_nanos t3 t4;
          offset_ns = (t2_minus_t1 + t3_minus_t4) sdiv 2;
          rtt_nanos = max (ptp_diff_nanos t4 t1 - ptp_diff_nanos t3 t2) 0;
          rtt = (if rtt_nanos < 2 ^ 64 then nat rtt_nanos else 2 ^ 64 - 1)
      in \<lparr>tm_t1 = t1, tm_t2 = t2, tm_t3 = t3, tm_t4 = t4, tm_local_time = local_time,
          tm_offset_ns = offset_ns, tm_rtt = rtt\<rparr>)"

section \<open>The clock\<close>

record ptp_clock =
  pc_clock_id :: u64
  pc_role :: ptp_role
  pc_measurements :: "timing_measurement list"
  pc_max_measurements :: nat
  pc_offset_ns :: int
  pc_drift_ppm :: u64
  pc_synchronized :: bool
  pc_min_sync_measurements :: nat
  pc_max_rtt :: nat
  pc_remote_master_clock_id :: "u64 option"
  pc_epoch_offset_ns :: "int option"
  pc_epoch_anchor :: nat
  pc_epoch_anchor_master_ns :: int

definition ptp_clock_new :: "nat \<Rightarrow> u64 \<Rightarrow> ptp_role \<Rightarrow> ptp_clock" where
  "ptp_clock_new instant_now clock_id role =
     \<lparr>pc_clock_id = clock_id, pc_role = role, pc_measurements = [], pc_max_measurements = 8,
      pc_offset_ns = 0, pc_drift_ppm = 0, pc_synchronized = False, pc_min_sync_measurements = 1,
      pc_max_rtt = 100000000, pc_remote_master_clock_id = None, pc_epoch_offset_ns = None,
      pc_epoch_anchor = instant_now, pc_epoch_anchor_master_ns = 0\<rparr>"

definition ptp_clock_set_max_measurements :: "ptp_clock \<Rightarrow> nat \<Rightarrow> ptp_clock" where
  "ptp_clock_set_max_measurements c n = c\<lparr>pc_max_measurements := max n 1\<rparr>"

definition ptp_clock_set_min_sync :: "ptp_clock \<Rightarrow> nat \<Rightarrow> ptp_clock" where
  "ptp_clock_set_min_sync c n = c\<lparr>pc_min_sync_measurements := max n 1\<rparr>"

definition ptp_clock_set_max_rtt :: "ptp_clock \<Rightarrow> nat \<Rightarrow> ptp_clock" where
  "ptp_clock_set_max_rtt c d = c\<lparr>pc_max_rtt := d\<rparr>"

text \<open>\<open>push_back\<close> and the loop that drops the oldest measurements.\<close>

definition ptp_clock_push :: "ptp_clock \<Rightarrow> timing_measurement \<Rightarrow> ptp_clock" where
  "ptp_clock_push c m =
     (let ms = pc_measurements c @ [m]
      in c\<lparr>pc_measurements := drop (length ms - pc_max_measurements c) ms\<rparr>)"

definition ptp_clock_update_offset :: "ptp_clock \<Rightarrow> ptp_clock" where
  "ptp_clock_update_offset c =
     (if pc_measurements c = [] then c
      else let offsets = sort (map tm_offset_ns (pc_measurements c))
           in c\<lparr>pc_offset_ns := offsets ! (length offsets div 2)\<rparr>)"

text \<open>\<open>duration_since\<close> saturates at zero; 0.1 seconds are \<open>10 ^ 8\<close> nanoseconds.\<close>

definition ptp_clock_update_drift :: "(int \<Rightarrow> nat \<Rightarrow> u64) \<Rightarrow> ptp_clock \<Rightarrow> ptp_clock" where
  "ptp_clock_update_drift f64_drift c =
     (if length (pc_measurements c) < 2 then c
      else let first = hd (pc_measurements c); latest = last (pc_measurements c);
               time_diff = tm_local_time latest - tm_local_time first
           in if time_diff < 100000000 then c
              else c\<lparr>pc_drift_ppm := f64_drift (tm_offset_ns latest - tm_offset_ns first) time_diff\<rparr>)"

definition ptp_clock_record :: "(int \<Rightarrow> nat \<Rightarrow> u64) \<Rightarrow> ptp_clock \<Rightarrow> timing_measurement \<Rightarrow> ptp_clock" where
  "ptp_clock_record f64_drift c m =
     (let c3 = ptp_clock_update_drift f64_drift (ptp_clock_update_offset (ptp_clock_push c m))
      in if length (pc_measurements c3) \<ge> pc_min_sync_measurements c3
         then c3\<lparr>pc_synchronized := True\<rparr> else c3)"

definition ptp_clock_process_timing ::
    "(int \<Rightarrow> nat \<Rightarrow> u64) \<Rightarrow> nat \<Rightarrow> ptp_clock \<Rightarrow> ptp_timestamp \<Rightarrow> ptp_timestamp \<Rightarrow> ptp_timestamp \<Rightarrow>
     ptp_timestamp \<Rightarrow> ptp_clock \<times> bool" where
  "ptp_clock_process_timing f64_drift instant_now c t1 t2 t3 t4 =
     (let measurement = timing_measurement_calculate t1 t2 t3 t4 instant_now
      in if tm_rtt measurement > pc_max_rtt c then (c, False)
         else (ptp_clock_record f64_drift c measurement, True))"

definition ptp_clock_process_one_way ::
    "(int \<Rightarrow> nat \<Rightarrow> u64) \<Rightarrow> nat \<Rightarrow> ptp_clock \<Rightarrow> ptp_timestamp \<Rightarrow> ptp_timestamp \<Rightarrow> ptp_clock" where
  "ptp_clock_process_one_way f64_drift instant_now c t1 t2 =
     ptp_clock_record f64_drift c
       \<lparr>tm_t1 = t1, tm_t2 = t2, tm_t3 = t2, tm_t4 = t1, tm_local_time = instant_now,
        tm_offset_ns = ptp_diff_nanos t2 t1, tm_rtt = 0\<rparr>"

definition ptp_clock_calibrate_epoch :: "nat \<Rightarrow> (u64 \<times> u32) option \<Rightarrow> ptp_clock \<Rightarrow> int \<Rightarrow> ptp_clock" where
  "ptp_clock_calibrate_epoch instant_now system_clock c raw_offset_ns =
     (if pc_epoch_offset_ns c \<noteq> None then c
      else c\<lparr>pc_epoch_offset_ns := Some raw_offset_ns, pc_epoch_anchor := instant_now,
             pc_epoch_anchor_master_ns := ptp_to_nanos (ptp_ts_now system_clock) - raw_offset_ns\<rparr>)"

text \<open>\<open>from_nanos\<close> with negative values replaced by zero, as the callers do.\<close>

definition ptp_from_nanos_or_zero :: "int \<Rightarrow> ptp_timestamp option" where
  "ptp_from_nanos_or_zero n = (if n < 0 then Some ptp_ts_zero else ptp_from_nanos n)"

definition ptp_clock_master_now :: "nat \<Rightarrow> ptp_clock \<Rightarrow> ptp_timestamp option option" where
  "ptp_clock_master_now instant_now c =
     (if pc_epoch_offset_ns c = None then Some None
      else let elapsed = instant_now - pc_epoch_anchor c;
               elapsed_ns = (if int elapsed < 2 ^ 127 then int elapsed else 0)
           in map_option Some (ptp_from_nanos_or_zero (pc_epoch_anchor_master_ns c + elapsed_ns)))"

definition ptp_clock_remote_to_local :: "ptp_clock \<Rightarrow> ptp_timestamp \<Rightarrow> ptp_timestamp option" where
  "ptp_clock_remote_to_local c remote = ptp_from_nanos_or_zero (ptp_to_nanos remote + pc_offset_ns c)"

definition ptp_clock_local_to_remote :: "ptp_clock \<Rightarrow> ptp_timestamp \<Rightarrow> ptp_timestamp option" where
  "ptp_clock_local_to_remote c local = ptp_from_nanos_or_zero (ptp_to_nanos local - pc_offset_ns c)"

definition ptp_clock_offset_micros :: "ptp_clock \<Rightarrow> int" where
  "ptp_clock_offset_micros c =
     (let us = pc_offset_ns c sdiv 1000 in if - (2 ^ 63) \<le> us \<and> us < 2 ^ 63 then us else 2 ^ 63 - 1)"

definition ptp_clock_set_remote_master :: "ptp_clock \<Rightarrow> u64 \<Rightarrow> ptp_clock" where
  "ptp_clock_set_remote_master c k = c\<lparr>pc_remote_master_clock_id := Some k\<rparr>"

definition ptp_clock_last_rtt :: "ptp_clock \<Rightarrow> nat option" where
  "ptp_clock_last_rtt c =
     (if pc_measurements c = [] then None else Some (tm_rtt (last (pc_measurements c))))"

definition ptp_clock_median_rtt :: "ptp_clock \<Rightarrow> nat option" where
  "ptp_clock_median_rtt c =
     (if pc_measurements c = [] then None
      else let rtts = sort (map tm_rtt (pc_measurements c)) in Some (rtts ! (length rtts div 2)))"

definition ptp_clock_reset :: "ptp_clock \<Rightarrow> ptp_clock" where
  "ptp_clock_reset c =
     c\<lparr>pc_measurements := [], pc_offset_ns := 0, pc_drift_ppm := 0, pc_synchronized := False,
       pc_remote_master_clock_id := None\<rparr>"

definition ptp_clock_rtp_to_local ::
    "ptp_clock \<Rightarrow> u32 \<Rightarrow> u32 \<Rightarrow> u32 \<Rightarrow> ptp_timestamp \<Rightarrow> ptp_timestamp option" where
  "ptp_clock_rtp_to_local c rtp_timestamp sample_rate rtp_anchor ptp_anchor =
     (if sample_rate = 0 then None
      else let sample_diff = sint (rtp_timestamp - rtp_anchor);
               nanos_diff = (sample_diff * 1000000000) sdiv uint sample_rate
           in Option.bind (ptp_from_nanos_or_zero (ptp_to_nanos ptp_anchor + nanos_diff))
                (ptp_clock_remote_to_local c))"

section \<open>Exchanges\<close>

lemma sdiv_2_bounds: "\<bar>2 * (x sdiv 2) - x\<bar> \<le> 1" for x :: int
  by (auto simp: signed_divide_int_def sgn_if abs_if)

lemma measurement_error:
  assumes "ptp_to_nanos t2 = ptp_to_nanos t1 + d1 + theta" and "ptp_to_nanos t4 = ptp_to_nanos t3 + d2 - theta"
  shows "\<bar>2 * (tm_offset_ns (timing_measurement_calculate t1 t2 t3 t4 now) - theta) - (d1 - d2)\<bar> \<le> 1"
proof -
  have "ptp_diff_nanos t2 t1 + ptp_diff_nanos t3 t4 = 2 * theta + (d1 - d2)"
    using assms by (simp add: ptp_diff_nanos_def)
  then show ?thesis
    using sdiv_2_bounds [of "2 * theta + (d1 - d2)"] by (simp add: timing_measurement_calculate_def Let_def)
qed

lemma measurement_rtt:
  assumes "ptp_to_nanos t2 = ptp_to_nanos t1 + d1 + theta" and "ptp_to_nanos t4 = ptp_to_nanos t3 + d2 - theta"
    and "0 \<le> d1 + d2" and "d1 + d2 < 2 ^ 64"
  shows "int (tm_rtt (timing_measurement_calculate t1 t2 t3 t4 now)) = d1 + d2"
proof -
  have "ptp_diff_nanos t4 t1 - ptp_diff_nanos t3 t2 = d1 + d2" using assms by (simp add: ptp_diff_nanos_def)
  with assms show ?thesis by (simp add: timing_measurement_calculate_def Let_def)
qed

section \<open>The median of the window\<close>

definition median :: "int list \<Rightarrow> int" where
  "median xs = sort xs ! (length xs div 2)"

lemma filter_length_le: "\<forall>x\<in>set xs. \<not> P x \<Longrightarrow> length (filter P (xs @ ys)) \<le> length ys"
  by simp

lemma filter_length_le': "\<forall>x\<in>set ys. \<not> P x \<Longrightarrow> length (filter P (xs @ ys)) \<le> length xs"
  by simp

text \<open>A majority in an interval forces the median into it.\<close>

lemma median_majority:
  assumes "2 * length (filter (\<lambda>x. lo \<le> x \<and> x \<le> hi) xs) > length xs"
  shows "lo \<le> median xs \<and> median xs \<le> hi"
proof -
  let ?P = "\<lambda>x. lo \<le> x \<and> x \<le> hi" and ?s = "sort xs" and ?k = "length xs div 2"
  have len: "length (filter ?P ?s) = length (filter ?P xs)"
    by (metis mset_filter mset_sort size_mset)
  have k: "?k < length ?s" using assms by (cases xs) auto
  have mono: "?s ! i \<le> ?s ! j" if "i \<le> j" "j < length ?s" for i j
    using sorted_sort [of xs] that by (rule sorted_nth_mono)
  show ?thesis
  proof (rule ccontr)
    assume "\<not> ?thesis"
    then consider "median xs < lo" | "hi < median xs" by linarith
    then have "2 * length (filter ?P ?s) \<le> length xs"
    proof cases
      case 1
      have "\<not> ?P x" if "x \<in> set (take (Suc ?k) ?s)" for x
      proof -
        from that obtain i where "i \<le> ?k" "x = ?s ! i" using k by (auto simp: in_set_conv_nth less_Suc_eq_le)
        then show ?thesis using mono [of i ?k] k 1 by (simp add: median_def)
      qed
      then have "length (filter ?P ?s) \<le> length (drop (Suc ?k) ?s)"
        using filter_length_le [of "take (Suc ?k) ?s" ?P "drop (Suc ?k) ?s"] by simp
      then show ?thesis by simp
    next
      case 2
      have "\<not> ?P x" if "x \<in> set (drop ?k ?s)" for x
      proof -
        from that obtain i where "?k + i < length ?s" "x = ?s ! (?k + i)"
          using k by (auto simp: in_set_conv_nth less_diff_conv add.commute)
        then have "?s ! ?k \<le> x" using mono [of ?k "?k + i"] by simp
        then show ?thesis using 2 by (simp add: median_def)
      qed
      then have "length (filter ?P ?s) \<le> length (take ?k ?s)"
        using filter_length_le' [of "drop ?k ?s" ?P "take ?k ?s"] by simp
      then show ?thesis by simp
    qed
    with assms len show False by simp
  qed
qed

definition ptp_clock_ok :: "ptp_clock \<Rightarrow> bool" where
  "ptp_clock_ok c \<longleftrightarrow> 1 \<le> pc_max_measurements c \<and> length (pc_measurements c) \<le> pc_max_measurements c"

lemma ptp_clock_update_simps [simp]:
  "pc_measurements (ptp_clock_update_offset c) = pc_measurements c"
  "pc_max_measurements (ptp_clock_update_offset c) = pc_max_measurements c"
  "pc_measurements (ptp_clock_update_drift f c) = pc_measurements c"
  "pc_max_measurements (ptp_clock_update_drift f c) = pc_max_measurements c"
  "pc_offset_ns (ptp_clock_update_drift f c) = pc_offset_ns c"
  by (simp_all add: ptp_clock_update_offset_def ptp_clock_update_drift_def Let_def)

lemma ptp_clock_push_simps:
  "pc_measurements (ptp_clock_push c m) = last_n (pc_max_measurements c) (pc_measurements c @ [m])"
  "pc_max_measurements (ptp_clock_push c m) = pc_max_measurements c"
  by (simp_all add: ptp_clock_push_def last_n_def Let_def)

lemma ptp_clock_record_simps:
  "pc_measurements (ptp_clock_record f c m) = last_n (pc_max_measurements c) (pc_measurements c @ [m])"
  "pc_max_measurements (ptp_clock_record f c m) = pc_max_measurements c"
  "pc_offset_ns (ptp_clock_record f c m) = pc_offset_ns (ptp_clock_update_offset (ptp_clock_push c m))"
  by (simp_all add: ptp_clock_record_def Let_def ptp_clock_push_simps)

interpretation clk: recent_window "ptp_clock_record f" pc_measurements pc_max_measurements ptp_clock_ok for f
  by unfold_locales (auto simp: ptp_clock_record_simps ptp_clock_ok_def)

lemma ptp_clock_record_median:
  assumes "ptp_clock_ok c"
  shows "pc_offset_ns (ptp_clock_record f c m) = median (map tm_offset_ns (pc_measurements (ptp_clock_record f c m)))"
proof -
  have "pc_measurements (ptp_clock_push c m) \<noteq> []"
    using assms by (auto simp: ptp_clock_push_simps ptp_clock_ok_def simp flip: length_0_conv)
  then show ?thesis
    by (simp add: ptp_clock_record_simps ptp_clock_update_offset_def median_def Let_def)
      (simp add: ptp_clock_push_simps)
qed

lemma ptp_clock_run_median:
  assumes "ptp_clock_ok c" and "ms \<noteq> []"
  shows "pc_offset_ns (foldl (ptp_clock_record f) c ms) =
    median (map tm_offset_ns (last_n (pc_max_measurements c) (pc_measurements c @ ms)))"
proof -
  obtain ns m where ms: "ms = ns @ [m]" using assms(2) by (cases ms rule: rev_cases) auto
  have "ptp_clock_ok (foldl (ptp_clock_record f) c ns)" using clk.run_ok [OF assms(1), of f ns] by simp
  from ptp_clock_record_median [OF this, of f m] show ?thesis
    using clk.run_held [OF assms(1), of f ms] by (simp add: ms)
qed

section \<open>Properties\<close>

text \<open>
  The delay exchange measures the clock offset to within half the difference of the two
  path delays: with delays \<open>d1\<close> and \<open>d2\<close> and a slave \<open>theta\<close> nanoseconds ahead, twice the
  error of the offset is \<open>d1 - d2\<close> up to the rounding of one division, and the round-trip
  time is exactly \<open>d1 + d2\<close>.
\<close>

theorem ptp_exchange_error:
  assumes "ptp_to_nanos t2 = ptp_to_nanos t1 + d1 + theta" and "ptp_to_nanos t4 = ptp_to_nanos t3 + d2 - theta"
    and "0 \<le> d1 + d2" and "d1 + d2 < 2 ^ 64"
  shows "\<bar>2 * (tm_offset_ns (timing_measurement_calculate t1 t2 t3 t4 now) - theta) - (d1 - d2)\<bar> \<le> 1
    \<and> int (tm_rtt (timing_measurement_calculate t1 t2 t3 t4 now)) = d1 + d2"
  using measurement_error [OF assms(1,2)] measurement_rtt [OF assms] by blast

theorem ptp_exchange_error_witness:
  "tm_offset_ns (timing_measurement_calculate \<lparr>ts_seconds = 10, ts_nanoseconds = 0\<rparr>
     \<lparr>ts_seconds = 12, ts_nanoseconds = 500\<rparr> \<lparr>ts_seconds = 12, ts_nanoseconds = 1000\<rparr>
     \<lparr>ts_seconds = 10, ts_nanoseconds = 1500\<rparr> 0) = 2000000000"
proof -
  have "\<bar>2 * (tm_offset_ns (timing_measurement_calculate \<lparr>ts_seconds = 10, ts_nanoseconds = 0\<rparr>
     \<lparr>ts_seconds = 12, ts_nanoseconds = 500\<rparr> \<lparr>ts_seconds = 12, ts_nanoseconds = 1000\<rparr>
     \<lparr>ts_seconds = 10, ts_nanoseconds = 1500\<rparr> 0) - 2000000000) - (500 - 500)\<bar> \<le> 1"
    by (rule ptp_exchange_error [THEN conjunct1]) (simp_all add: ptp_to_nanos_def NANOS_PER_SEC_def)
  then show ?thesis unfolding abs_le_iff by presburger
qed

text \<open>
  The offset estimate is robust against outliers. After any sequence of accepted
  measurements, if more than half of the measurements in the current window lie in an
  interval then so does the estimate, whatever the others are.
\<close>

theorem ptp_clock_median_robust:
  assumes "ptp_clock_ok c" and "ms \<noteq> []"
    and "w = map tm_offset_ns (last_n (pc_max_measurements c) (pc_measurements c @ ms))"
    and "2 * length (filter (\<lambda>x. lo \<le> x \<and> x \<le> hi) w) > length w"
  shows "lo \<le> pc_offset_ns (foldl (ptp_clock_record f) c ms) \<and> pc_offset_ns (foldl (ptp_clock_record f) c ms) \<le> hi"
  using median_majority [OF assms(4)] ptp_clock_run_median [OF assms(1,2), of f] assms(3) by simp

definition demo_measurement :: "int \<Rightarrow> timing_measurement" where
  "demo_measurement k = \<lparr>tm_t1 = ptp_ts_zero, tm_t2 = ptp_ts_zero, tm_t3 = ptp_ts_zero, tm_t4 = ptp_ts_zero,
     tm_local_time = 0, tm_offset_ns = k, tm_rtt = 0\<rparr>"

theorem ptp_clock_median_robust_witness:
  "pc_offset_ns (foldl (ptp_clock_record (\<lambda>_ _. 0)) (ptp_clock_new 0 1 Slave)
     (map demo_measurement [5, 900000, 7])) \<le> 7"
  using ptp_clock_median_robust [of "ptp_clock_new 0 1 Slave" "map demo_measurement [5, 900000, 7]"
      "[5, 900000, 7]" 5 7 "\<lambda>_ _. 0"]
  by (simp add: ptp_clock_ok_def ptp_clock_new_def demo_measurement_def)

text \<open>
  The conversions between the master's and the slave's time are inverse: whenever a valid
  local timestamp has a remote counterpart that is not before the epoch, converting it back
  gives the same timestamp.
\<close>

theorem ptp_clock_domains_inverse:
  assumes "ptp_ts_valid t" and "0 \<le> ptp_to_nanos t - pc_offset_ns c"
    and "ptp_clock_local_to_remote c t = Some r"
  shows "ptp_clock_remote_to_local c r = Some t"
proof -
  have "ptp_from_nanos (ptp_to_nanos t - pc_offset_ns c) = Some r"
    using assms(2,3) by (simp add: ptp_clock_local_to_remote_def ptp_from_nanos_or_zero_def)
  then have "ptp_to_nanos r + pc_offset_ns c = ptp_to_nanos t" using ptp_to_from_nanos by simp
  moreover have "\<not> ptp_to_nanos t < 0" by (simp add: ptp_to_nanos_def NANOS_PER_SEC_def not_less)
  ultimately show ?thesis
    using ptp_from_to_nanos [OF assms(1)] by (simp add: ptp_clock_remote_to_local_def ptp_from_nanos_or_zero_def)
qed

theorem ptp_clock_domains_inverse_witness:
  "ptp_clock_remote_to_local ((ptp_clock_new 0 1 Slave)\<lparr>pc_offset_ns := 1000000500\<rparr>)
     \<lparr>ts_seconds = 3, ts_nanoseconds = 999999500\<rparr> = Some \<lparr>ts_seconds = 5, ts_nanoseconds = 0\<rparr>"
proof -
  let ?c = "(ptp_clock_new 0 1 Slave)\<lparr>pc_offset_ns := 1000000500\<rparr>"
  have "ptp_clock_local_to_remote ?c \<lparr>ts_seconds = 5, ts_nanoseconds = 0\<rparr> =
      Some \<lparr>ts_seconds = 3, ts_nanoseconds = 999999500\<rparr>"
    by (simp add: ptp_clock_local_to_remote_def ptp_from_nanos_or_zero_def ptp_from_nanos_def ptp_to_nanos_def
        NANOS_PER_SEC_def)
  from ptp_clock_domains_inverse [OF _ _ this] show ?thesis
    by (simp add: ptp_ts_valid_def ptp_to_nanos_def NANOS_PER_SEC_def)
qed

end
