(* ===== verification/Jitter_Buffer.thy ===== *)
theory Jitter_Buffer
  imports Interfaces
begin

text \<open>
  The jitter buffer, \<open>src/audio/jitter.rs\<close>. The \<open>BTreeMap\<close> from sequence numbers to packets
  is the list of its packets in ascending key order: the key of every entry is the sequence
  number of its packet. Instants are nanoseconds on \<open>nat\<close>. The statistics counters are
  kept as numbers without a bound; the reports in floating point (\<open>fill_ratio\<close>,
  \<open>estimated_latency\<close>, \<open>loss_rate\<close>, \<open>health\<close>) only read the state and are left out.
\<close>

section \<open>Data\<close>

record audio_packet =
  ap_sequence :: u16
  ap_timestamp :: u32
  ap_ssrc :: u32
  ap_audio_data :: bytes
  ap_received_at :: nat

record jitter_config =
  jc_target_depth :: nat
  jc_min_depth :: nat
  jc_max_depth :: nat
  jc_max_age :: nat

definition jitter_config_default :: jitter_config where
  "jitter_config_default =
     \<lparr>jc_target_depth = 50, jc_min_depth = 10, jc_max_depth = 200, jc_max_age = 3000000000\<rparr>"

datatype buffer_state = Buffering | Playing | Underrun

record jitter_stats =
  js_received :: nat
  js_played :: nat
  js_dropped_late :: nat
  js_dropped_overflow :: nat
  js_concealed :: nat
  js_underruns :: nat
  js_current_depth :: nat
  js_max_depth_seen :: nat

record jitter_buffer =
  jb_config :: jitter_config
  jb_packets :: "audio_packet list"
  jb_next_play_seq :: "u16 option"
  jb_state :: buffer_state
  jb_stats :: jitter_stats
  jb_last_receive :: "nat option"

section \<open>The ordered map\<close>

primrec bt_insert :: "audio_packet \<Rightarrow> audio_packet list \<Rightarrow> audio_packet list" where
  "bt_insert p [] = [p]"
| "bt_insert p (x # xs) =
     (if ap_sequence p < ap_sequence x then p # x # xs
      else if ap_sequence p = ap_sequence x then p # xs
      else x # bt_insert p xs)"

definition bt_get :: "u16 \<Rightarrow> audio_packet list \<Rightarrow> audio_packet option" where
  "bt_get k ps = find (\<lambda>p. ap_sequence p = k) ps"

definition bt_remove :: "u16 \<Rightarrow> audio_packet list \<Rightarrow> audio_packet list" where
  "bt_remove k ps = filter (\<lambda>p. ap_sequence p \<noteq> k) ps"

definition bt_first_key :: "audio_packet list \<Rightarrow> u16 option" where
  "bt_first_key ps = (case ps of [] \<Rightarrow> None | p # _ \<Rightarrow> Some (ap_sequence p))"

text \<open>\<open>if let Some(oldest) = packets.keys().next() { packets.remove(oldest) }\<close>.\<close>

definition bt_drop_oldest :: "audio_packet list \<Rightarrow> audio_packet list" where
  "bt_drop_oldest ps = (case bt_first_key ps of None \<Rightarrow> ps | Some oldest \<Rightarrow> bt_remove oldest ps)"

section \<open>Operations\<close>

definition jitter_new :: "jitter_config \<Rightarrow> jitter_buffer" where
  "jitter_new config =
     \<lparr>jb_config = config, jb_packets = [], jb_next_play_seq = None, jb_state = Buffering,
      jb_stats = \<lparr>js_received = 0, js_played = 0, js_dropped_late = 0, js_dropped_overflow = 0,
        js_concealed = 0, js_underruns = 0, js_current_depth = 0, js_max_depth_seen = 0\<rparr>,
      jb_last_receive = None\<rparr>"

text \<open>The loop that looks for the largest gap between neighbouring keys.\<close>

definition max_gap_scan :: "nat list \<Rightarrow> nat \<Rightarrow> nat \<times> nat" where
  "max_gap_scan keys n =
     foldl (\<lambda>(max_gap, max_gap_index) i.
         let diff = keys ! (i + 1) - keys ! i
         in if diff > max_gap then (diff, i) else (max_gap, max_gap_index))
       (0, 0) [0..<n]"

definition jitter_determine_start :: "audio_packet list \<Rightarrow> u16 option" where
  "jitter_determine_start ps =
     (let keys = map (\<lambda>p. unat (ap_sequence p)) ps in
      if ps = [] then None
      else if length keys = 1 then Some (ap_sequence (ps ! 0))
      else let (max_gap, max_gap_index) = max_gap_scan keys (length keys - 1);
               wrap_gap = keys ! 0 + 65536 - last keys
           in if max_gap > wrap_gap then Some (ap_sequence (ps ! (max_gap_index + 1)))
              else Some (ap_sequence (ps ! 0)))"

definition jitter_update_state :: "jitter_buffer \<Rightarrow> jitter_buffer" where
  "jitter_update_state b =
     (let depth = length (jb_packets b);
          b1 = (case jb_state b of
                  Buffering \<Rightarrow>
                    if depth \<ge> jc_min_depth (jb_config b)
                    then b\<lparr>jb_state := Playing,
                           jb_next_play_seq := (if jb_next_play_seq b = None
                             then jitter_determine_start (jb_packets b) else jb_next_play_seq b)\<rparr>
                    else b
                | Playing \<Rightarrow>
                    if depth = 0
                    then b\<lparr>jb_state := Underrun,
                           jb_stats := (jb_stats b)\<lparr>js_underruns := js_underruns (jb_stats b) + 1\<rparr>\<rparr>
                    else b
                | Underrun \<Rightarrow>
                    if depth \<ge> jc_min_depth (jb_config b) then b\<lparr>jb_state := Playing\<rparr> else b)
      in b1\<lparr>jb_stats := (jb_stats b1)\<lparr>js_current_depth := depth\<rparr>\<rparr>)"

definition jitter_insert :: "nat \<Rightarrow> jitter_buffer \<Rightarrow> audio_packet \<Rightarrow> jitter_buffer" where
  "jitter_insert now b packet =
     (let seq = ap_sequence packet;
          b0 = b\<lparr>jb_stats := (jb_stats b)\<lparr>js_received := js_received (jb_stats b) + 1\<rparr>,
                 jb_last_receive := Some now\<rparr>
      in if (case jb_next_play_seq b0 of None \<Rightarrow> False | Some next_seq \<Rightarrow> sint (seq - next_seq) < 0)
         then b0\<lparr>jb_stats := (jb_stats b0)\<lparr>js_dropped_late := js_dropped_late (jb_stats b0) + 1\<rparr>\<rparr>
         else let b1 = (if length (jb_packets b0) \<ge> jc_max_depth (jb_config b0)
                        then b0\<lparr>jb_stats := (jb_stats b0)
                                  \<lparr>js_dropped_overflow := js_dropped_overflow (jb_stats b0) + 1\<rparr>,
                                jb_packets := bt_drop_oldest (jb_packets b0)\<rparr>
                        else b0);
                  b2 = b1\<lparr>jb_packets := bt_insert packet (jb_packets b1)\<rparr>;
                  b3 = (if length (jb_packets b2) > js_max_depth_seen (jb_stats b2)
                        then b2\<lparr>jb_stats := (jb_stats b2)\<lparr>js_max_depth_seen := length (jb_packets b2)\<rparr>\<rparr>
                        else b2)
              in jitter_update_state b3)"

definition jitter_played :: "jitter_buffer \<Rightarrow> jitter_buffer" where
  "jitter_played b =
     jitter_update_state (b\<lparr>jb_stats := (jb_stats b)\<lparr>js_played := js_played (jb_stats b) + 1\<rparr>\<rparr>)"

definition jitter_handle_missing :: "jitter_buffer \<Rightarrow> u16 \<Rightarrow> jitter_buffer \<times> audio_packet option" where
  "jitter_handle_missing b missing_seq =
     (let b0 = b\<lparr>jb_stats := (jb_stats b)\<lparr>js_concealed := js_concealed (jb_stats b) + 1\<rparr>\<rparr>
      in case bt_first_key (jb_packets b0) of
           Some avail_seq \<Rightarrow>
             if unat (avail_seq - missing_seq) < 10
             then let b1 = b0\<lparr>jb_next_play_seq := Some (avail_seq + 1)\<rparr>;
                      packet = bt_get avail_seq (jb_packets b1);
                      b2 = b1\<lparr>jb_packets := bt_remove avail_seq (jb_packets b1)\<rparr>
                  in (if packet \<noteq> None then jitter_played b2 else b2, packet)
             else (b0\<lparr>jb_next_play_seq := Some (missing_seq + 1)\<rparr>, None)
         | None \<Rightarrow> (b0\<lparr>jb_next_play_seq := Some (missing_seq + 1)\<rparr>, None))"

definition jitter_pop :: "jitter_buffer \<Rightarrow> jitter_buffer \<times> audio_packet option" where
  "jitter_pop b =
     (if jb_state b = Buffering then (b, None)
      else case jb_next_play_seq b of
             None \<Rightarrow> (b, None)
           | Some next_seq \<Rightarrow>
               (case bt_get next_seq (jb_packets b) of
                  Some packet \<Rightarrow>
                    (jitter_played (b\<lparr>jb_packets := bt_remove next_seq (jb_packets b),
                                      jb_next_play_seq := Some (next_seq + 1)\<rparr>), Some packet)
                | None \<Rightarrow> jitter_handle_missing b next_seq))"

definition jitter_is_ready :: "jitter_buffer \<Rightarrow> bool" where
  "jitter_is_ready b \<longleftrightarrow> jb_state b = Playing"

definition jitter_flush :: "jitter_buffer \<Rightarrow> jitter_buffer" where
  "jitter_flush b = b\<lparr>jb_packets := [], jb_state := Buffering, jb_next_play_seq := None\<rparr>"

definition jitter_flush_from_timestamp :: "jitter_buffer \<Rightarrow> u32 \<Rightarrow> jitter_buffer" where
  "jitter_flush_from_timestamp b rtp_time =
     (let b1 = b\<lparr>jb_packets := filter (\<lambda>p. ap_timestamp p < rtp_time) (jb_packets b)\<rparr>
      in if jb_packets b1 = [] then b1\<lparr>jb_state := Buffering, jb_next_play_seq := None\<rparr> else b1)"

definition jitter_prune_old :: "nat \<Rightarrow> jitter_buffer \<Rightarrow> jitter_buffer" where
  "jitter_prune_old now b =
     b\<lparr>jb_packets := filter (\<lambda>p. now - ap_received_at p < jc_max_age (jb_config b)) (jb_packets b)\<rparr>"

definition jitter_is_healthy :: "jitter_buffer \<Rightarrow> bool" where
  "jitter_is_healthy b \<longleftrightarrow>
     jc_min_depth (jb_config b) div 2 \<le> length (jb_packets b)
     \<and> length (jb_packets b) \<le> jc_max_depth (jb_config b)"

section \<open>The order of the packets\<close>

definition bt_sorted :: "audio_packet list \<Rightarrow> bool" where
  "bt_sorted ps \<longleftrightarrow> sorted_wrt (\<lambda>p q. ap_sequence p < ap_sequence q) ps"

lemma bt_sorted_simps [simp]:
  "bt_sorted []"
  "bt_sorted (p # ps) \<longleftrightarrow> (\<forall>q\<in>set ps. ap_sequence p < ap_sequence q) \<and> bt_sorted ps"
  by (simp_all add: bt_sorted_def)

lemma bt_sorted_filter: "bt_sorted ps \<Longrightarrow> bt_sorted (filter P ps)"
  by (simp add: bt_sorted_def sorted_wrt_filter)

lemma set_bt_insert: "set (bt_insert p ps) \<subseteq> insert p (set ps)"
  by (induction ps) auto

lemma bt_sorted_insert: "bt_sorted ps \<Longrightarrow> bt_sorted (bt_insert p ps)"
proof (induction ps)
  case (Cons x xs)
  then show ?case using set_bt_insert [of p xs] by (auto simp: not_less_iff_gr_or_eq)
qed simp

lemma length_bt_insert: "length (bt_insert p ps) \<le> Suc (length ps)"
  by (induction ps) auto

lemma bt_remove_first: "bt_sorted (p # ps) \<Longrightarrow> bt_remove (ap_sequence p) (p # ps) = ps"
  by (auto simp: bt_remove_def filter_id_conv)

lemma bt_get_first: "bt_get (ap_sequence p) (p # ps) = Some p"
  by (simp add: bt_get_def)

lemma bt_get_below: "bt_sorted (p # ps) \<Longrightarrow> n < ap_sequence p \<Longrightarrow> bt_get n (p # ps) = None"
  by (auto simp: bt_get_def find_None_iff)

lemma jitter_update_simps [simp]:
  "jb_packets (jitter_update_state b) = jb_packets b"
  "jb_config (jitter_update_state b) = jb_config b"
  "jb_state b \<noteq> Buffering \<Longrightarrow> jb_state (jitter_update_state b) \<noteq> Buffering"
  "jb_state b \<noteq> Buffering \<Longrightarrow> jb_next_play_seq (jitter_update_state b) = jb_next_play_seq b"
  by (auto simp: jitter_update_state_def Let_def split: buffer_state.splits)

lemma jitter_played_simps [simp]:
  "jb_packets (jitter_played b) = jb_packets b"
  "jb_config (jitter_played b) = jb_config b"
  "jb_state b \<noteq> Buffering \<Longrightarrow> jb_state (jitter_played b) \<noteq> Buffering"
  "jb_state b \<noteq> Buffering \<Longrightarrow> jb_next_play_seq (jitter_played b) = jb_next_play_seq b"
  by (simp_all add: jitter_played_def)

section \<open>Invariant\<close>

definition jitter_ok :: "jitter_buffer \<Rightarrow> bool" where
  "jitter_ok b \<longleftrightarrow> bt_sorted (jb_packets b) \<and> length (jb_packets b) \<le> max 1 (jc_max_depth (jb_config b))"

lemma jitter_ok_fewer:
  "jitter_ok b \<Longrightarrow> jb_packets b' = filter P (jb_packets b) \<Longrightarrow> jb_config b' = jb_config b \<Longrightarrow> jitter_ok b'"
  using le_trans [OF length_filter_le [of P "jb_packets b"]] by (auto simp: jitter_ok_def bt_sorted_filter)

lemma bt_drop_oldest_tl: "bt_sorted ps \<Longrightarrow> bt_drop_oldest ps = tl ps"
  using bt_remove_first by (cases ps) (auto simp: bt_drop_oldest_def bt_first_key_def)

lemma jitter_insert_packets:
  assumes "bt_sorted (jb_packets b)"
  shows "jb_config (jitter_insert now b p) = jb_config b \<and>
    (jb_packets (jitter_insert now b p) = jb_packets b
     \<or> jb_packets (jitter_insert now b p) =
        bt_insert p (if length (jb_packets b) \<ge> jc_max_depth (jb_config b) then tl (jb_packets b) else jb_packets b))"
  by (simp add: jitter_insert_def Let_def bt_drop_oldest_tl [OF assms])

lemma jitter_insert_ok:
  assumes "jitter_ok b"
  shows "jitter_ok (jitter_insert now b p)"
proof -
  let ?ps = "if length (jb_packets b) \<ge> jc_max_depth (jb_config b) then tl (jb_packets b) else jb_packets b"
  have s: "bt_sorted (jb_packets b)" using assms by (simp add: jitter_ok_def)
  then have "bt_sorted ?ps" by (cases "jb_packets b") auto
  moreover have "Suc (length ?ps) \<le> max 1 (jc_max_depth (jb_config b))"
    using assms by (cases "jb_packets b") (auto simp: jitter_ok_def)
  then have "length (bt_insert p ?ps) \<le> max 1 (jc_max_depth (jb_config b))"
    using length_bt_insert [of p ?ps] by linarith
  ultimately show ?thesis
    using jitter_insert_packets [OF s, of now p] assms by (auto simp: jitter_ok_def bt_sorted_insert)
qed

lemma jitter_pop_packets:
  "jb_config (fst (jitter_pop b)) = jb_config b \<and> (\<exists>P. jb_packets (fst (jitter_pop b)) = filter P (jb_packets b))"
proof -
  have same: "\<exists>P. xs = filter P xs" for xs :: "audio_packet list" by (rule exI [of _ "\<lambda>_. True"]) simp
  show ?thesis
    by (auto simp: jitter_pop_def jitter_handle_missing_def Let_def bt_remove_def same split: option.splits)
qed

text \<open>Any sequence of buffer operations.\<close>

inductive jitter_step :: "jitter_buffer \<Rightarrow> jitter_buffer \<Rightarrow> bool" where
  "jitter_step b (jitter_insert now b p)"
| "jitter_pop b = (b', r) \<Longrightarrow> jitter_step b b'"
| "jitter_step b (jitter_flush b)"
| "jitter_step b (jitter_flush_from_timestamp b t)"
| "jitter_step b (jitter_prune_old now b)"

lemma jitter_step_ok: "jitter_step b b' \<Longrightarrow> jitter_ok b \<Longrightarrow> jitter_ok b' \<and> jb_config b' = jb_config b"
proof (induction rule: jitter_step.induct)
  case (1 b now p)
  then show ?case using jitter_insert_ok jitter_insert_packets by (simp add: jitter_ok_def)
next
  case (2 b b' r)
  then show ?case using jitter_pop_packets [of b] jitter_ok_fewer [of b b'] by fastforce
next
  case (3 b)
  then show ?case by (simp add: jitter_ok_def jitter_flush_def)
next
  case (4 b t)
  then show ?case
    using jitter_ok_fewer [of b "jitter_flush_from_timestamp b t" "\<lambda>p. ap_timestamp p < t"]
    by (simp add: jitter_flush_from_timestamp_def Let_def)
next
  case (5 b now)
  then show ?case
    using jitter_ok_fewer [of b "jitter_prune_old now b"] by (simp add: jitter_prune_old_def)
qed

interpretation jitter: guarded_machine jitter_step "\<lambda>b. b = jitter_new config"
  "\<lambda>b. jitter_ok b \<and> jb_config b = config" for config
  using jitter_step_ok by unfold_locales (auto simp: jitter_ok_def jitter_new_def)

section \<open>Playing\<close>

text \<open>The packets that repeated calls of \<open>pop\<close> return.\<close>

primrec jitter_pops :: "nat \<Rightarrow> jitter_buffer \<Rightarrow> audio_packet list" where
  "jitter_pops 0 b = []"
| "jitter_pops (Suc k) b =
     (case jitter_pop b of (b', None) \<Rightarrow> jitter_pops k b' | (b', Some p) \<Rightarrow> p # jitter_pops k b')"

lemma jitter_pop_empty:
  assumes "jb_state b \<noteq> Buffering" and "jb_next_play_seq b = Some n" and "jb_packets b = []"
  shows "\<exists>b'. jitter_pop b = (b', None) \<and> jb_state b' \<noteq> Buffering \<and> jb_next_play_seq b' = Some (n + 1)
    \<and> jb_packets b' = []"
  using assms by (simp add: jitter_pop_def jitter_handle_missing_def bt_get_def bt_first_key_def Let_def)

lemma jitter_pop_near:
  assumes "jb_state b \<noteq> Buffering" and "jb_next_play_seq b = Some n" and "jb_packets b = p # ps"
    and "bt_sorted (p # ps)" and "n \<le> ap_sequence p" and "unat (ap_sequence p) < unat n + 10"
  shows "\<exists>b'. jitter_pop b = (b', Some p) \<and> jb_state b' \<noteq> Buffering
    \<and> jb_next_play_seq b' = Some (ap_sequence p + 1) \<and> jb_packets b' = ps"
proof (cases "n = ap_sequence p")
  case True
  then show ?thesis using assms by (simp add: jitter_pop_def bt_get_first bt_remove_first)
next
  case False
  then have "bt_get n (p # ps) = None" using assms(4,5) by (intro bt_get_below) auto
  moreover have "unat (ap_sequence p - n) < 10" using assms(5,6) by (simp add: unat_sub)
  ultimately show ?thesis using assms
    by (simp add: jitter_pop_def jitter_handle_missing_def bt_first_key_def Let_def bt_get_first bt_remove_first)
qed

lemma jitter_pop_far:
  assumes "jb_state b \<noteq> Buffering" and "jb_next_play_seq b = Some n" and "jb_packets b = p # ps"
    and "bt_sorted (p # ps)" and "n \<le> ap_sequence p" and "unat n + 10 \<le> unat (ap_sequence p)"
  shows "\<exists>b'. jitter_pop b = (b', None) \<and> jb_state b' \<noteq> Buffering
    \<and> jb_next_play_seq b' = Some (n + 1) \<and> jb_packets b' = p # ps"
proof -
  have "n \<noteq> ap_sequence p" using assms(6) by auto
  then have "bt_get n (p # ps) = None" using assms(4,5) by (intro bt_get_below) auto
  moreover have "\<not> unat (ap_sequence p - n) < 10" using assms(5,6) by (simp add: unat_sub)
  ultimately show ?thesis using assms
    by (simp add: jitter_pop_def jitter_handle_missing_def bt_first_key_def Let_def)
qed

lemma word_succ_facts:
  fixes a b :: u16
  assumes "a < b"
  shows "a + 1 \<le> b" and "unat (a + 1) = unat a + 1"
proof -
  have "unat a + 1 \<le> unat b" using assms by (simp add: word_less_nat_alt)
  moreover from this have "unat a + 1 < 65536" using unat_less_u16 [of b] by simp
  ultimately show u: "unat (a + 1) = unat a + 1" using unat_add_lem [of a 1] by simp
  with \<open>unat a + 1 \<le> unat b\<close> show "a + 1 \<le> b" by (simp add: word_le_nat_alt)
qed

lemma jitter_pops_all:
  "jb_state b \<noteq> Buffering \<Longrightarrow> jb_next_play_seq b = Some n \<Longrightarrow> bt_sorted (jb_packets b) \<Longrightarrow>
   \<forall>p\<in>set (jb_packets b). n \<le> ap_sequence p \<and> unat (ap_sequence p) < unat n + k \<Longrightarrow>
   jitter_pops k b = jb_packets b"
proof (induction k arbitrary: b n)
  case 0
  then show ?case by (cases "jb_packets b") (auto simp: word_le_nat_alt)
next
  case (Suc k)
  show ?case
  proof (cases "jb_packets b")
    case Nil
    from jitter_pop_empty [OF Suc.prems(1,2) Nil] obtain b' where b': "jitter_pop b = (b', None)"
      "jb_state b' \<noteq> Buffering" "jb_next_play_seq b' = Some (n + 1)" "jb_packets b' = []" by blast
    then show ?thesis using Suc.IH [OF b'(2,3)] Nil by simp
  next
    case (Cons p ps)
    have s: "bt_sorted (p # ps)" and n: "n \<le> ap_sequence p" using Suc.prems Cons by auto
    show ?thesis
    proof (cases "unat (ap_sequence p) < unat n + 10")
      case True
      from jitter_pop_near [OF Suc.prems(1,2) Cons s n True] obtain b' where b': "jitter_pop b = (b', Some p)"
        "jb_state b' \<noteq> Buffering" "jb_next_play_seq b' = Some (ap_sequence p + 1)" "jb_packets b' = ps" by blast
      have "ap_sequence p + 1 \<le> ap_sequence q \<and> unat (ap_sequence q) < unat (ap_sequence p + 1) + k"
        if "q \<in> set ps" for q
      proof -
        have "ap_sequence p < ap_sequence q" and "unat (ap_sequence q) < unat n + Suc k"
          using s that Suc.prems(4) Cons by auto
        then show ?thesis using word_succ_facts [of "ap_sequence p" "ap_sequence q"] n by (auto simp: word_le_nat_alt)
      qed
      then have "jitter_pops k b' = ps" using Suc.IH [OF b'(2,3)] b'(4) s by simp
      then show ?thesis using b'(1) Cons by simp
    next
      case False
      from jitter_pop_far [OF Suc.prems(1,2) Cons s n] False obtain b' where b': "jitter_pop b = (b', None)"
        "jb_state b' \<noteq> Buffering" "jb_next_play_seq b' = Some (n + 1)" "jb_packets b' = p # ps" by force
      have "n + 1 \<le> ap_sequence q \<and> unat (ap_sequence q) < unat (n + 1) + k" if "q \<in> set (p # ps)" for q
      proof -
        have "n < ap_sequence q" and "unat (ap_sequence q) < unat n + Suc k"
          using s that Suc.prems(4) Cons False by (auto simp: word_less_nat_alt)
        then show ?thesis using word_succ_facts [of n "ap_sequence q"] by simp
      qed
      then have "jitter_pops k b' = p # ps" using Suc.IH [OF b'(2,3)] b'(4) s by simp
      then show ?thesis using b'(1) Cons by simp
    qed
  qed
qed

section \<open>The start of playback\<close>

lemma max_gap_scan_spec:
  "n < length keys \<Longrightarrow> max_gap_scan keys n = (g, ix) \<Longrightarrow>
   (\<forall>i<n. keys ! (i + 1) - keys ! i \<le> g) \<and> (g = 0 \<or> ix < n \<and> keys ! (ix + 1) - keys ! ix = g)"
proof (induction n arbitrary: g ix)
  case 0
  then show ?case by (simp add: max_gap_scan_def)
next
  case (Suc n)
  obtain g' ix' where r: "max_gap_scan keys n = (g', ix')" by (rule prod.exhaust)
  have IH: "(\<forall>i<n. keys ! (i + 1) - keys ! i \<le> g') \<and> (g' = 0 \<or> ix' < n \<and> keys ! (ix' + 1) - keys ! ix' = g')"
    using Suc.IH [OF _ r] Suc.prems(1) by simp
  have "(g, ix) = (if keys ! (n + 1) - keys ! n > g' then (keys ! (n + 1) - keys ! n, n) else (g', ix'))"
    using Suc.prems(2) r by (auto simp: max_gap_scan_def Let_def)
  then show ?case using IH by (auto simp: less_Suc_eq split: if_splits)
qed

text \<open>
  The keys of a stream that starts at \<open>s\<close> and spans less than half the sequence space, in
  ascending order: the first of them in stream order is found, wrapped or not.
\<close>

lemma start_unwrapped:
  assumes "sorted_wrt (<) keys" and "max_gap_scan keys (length keys - 1) = (g, ix)" and "keys \<noteq> []"
    and "\<forall>k\<in>set keys. keys ! 0 \<le> k \<and> k < keys ! 0 + 32768" and "\<forall>k\<in>set keys. k < (65536 :: nat)"
  shows "\<not> g > keys ! 0 + 65536 - last keys"
proof -
  have spec: "g = 0 \<or> ix < length keys - 1 \<and> keys ! (ix + 1) - keys ! ix = g"
    using max_gap_scan_spec [OF _ assms(2)] assms(3) by simp
  have "g < 32768"
  proof (cases "g = 0")
    case False
    with spec have i: "ix + 1 < length keys" and g: "keys ! (ix + 1) - keys ! ix = g" by auto
    from i have "keys ! (ix + 1) \<in> set keys" and "keys ! ix \<in> set keys" by simp_all
    with assms(4) have "keys ! (ix + 1) < keys ! 0 + 32768" and "keys ! 0 \<le> keys ! ix" by blast+
    with g show ?thesis by arith
  qed simp
  moreover have "last keys < keys ! 0 + 32768" using assms(3,4) by simp
  ultimately show ?thesis by simp
qed

lemma start_wrapped:
  assumes sorted: "sorted_wrt (<) keys" and scan: "max_gap_scan keys (length keys - 1) = (g, ix)"
    and s: "s \<in> set keys" "keys ! 0 < s"
    and wrap: "\<forall>k\<in>set keys. s \<le> k \<or> k + 65536 < s + 32768" and small: "\<forall>k\<in>set keys. k < (65536 :: nat)"
  shows "g > keys ! 0 + 65536 - last keys \<and> ix + 1 < length keys \<and> keys ! (ix + 1) = s"
proof -
  have ne: "keys \<noteq> []" using s by auto
  obtain j where j: "j < length keys" "keys ! j = s" using s(1) by (auto simp: in_set_conv_nth)
  then have j0: "0 < j" using s(2) by (cases j) auto
  define l where "l = keys ! (j - 1)"
  have "l \<in> set keys" "l < s"
    using j j0 sorted_wrt_nth_less [OF sorted, of "j - 1" j] by (auto simp: l_def)
  then have l: "l + 65536 < s + 32768" using wrap by auto
  have scanned: "(\<forall>i<length keys - 1. keys ! (i + 1) - keys ! i \<le> g)
      \<and> (g = 0 \<or> ix < length keys - 1 \<and> keys ! (ix + 1) - keys ! ix = g)"
    using max_gap_scan_spec [OF _ scan] ne by simp
  then have spec: "keys ! (i + 1) - keys ! i \<le> g" if "i < length keys - 1" for i using that by blast
  have "j - 1 < length keys - 1" using j(1) j0 by simp
  from spec [OF this] have "s - l \<le> g" using j j0 by (simp add: l_def)
  with l have g: "32768 < g" by arith
  with scanned have ix: "ix + 1 < length keys" "keys ! (ix + 1) - keys ! ix = g" by auto
  have "keys ! 0 \<in> set keys" using ne by simp
  with wrap s(2) have "keys ! 0 + 65536 < s + 32768" by (metis not_less)
  moreover have "s \<le> last keys"
  proof (cases "j = length keys - 1")
    case True
    then show ?thesis using j ne by (simp add: last_conv_nth)
  next
    case False
    with j(1) have "j < length keys - 1" "length keys - 1 < length keys" by simp_all
    from sorted_wrt_nth_less [OF sorted this] j(2) ne show ?thesis by (simp add: last_conv_nth)
  qed
  ultimately have w: "keys ! 0 + 65536 - last keys < g" using g by arith
  have in_set: "keys ! ix \<in> set keys" "keys ! (ix + 1) \<in> set keys" using ix by simp_all
  with small have lt: "keys ! (ix + 1) < 65536" by blast
  have a: "keys ! ix < s" using ix(2) g lt l by arith
  then have "ix < j" using j sorted_wrt_nth_less [OF sorted, of j ix] ix(1) by (metis less_asym' linorder_neqE_nat add_lessD1)
  then have "keys ! (ix + 1) \<le> s"
    using sorted_wrt_nth_less [OF sorted, of "ix + 1" j] j by (cases "ix + 1 = j") auto
  moreover have "\<not> keys ! (ix + 1) + 65536 < s + 32768" using ix(2) g a lt l small s(1) by force
  then have "s \<le> keys ! (ix + 1)" using wrap in_set(2) by blast
  ultimately show ?thesis using w ix(1) by simp
qed

lemma unat_diff_u16: "unat (a - b :: u16) = (if unat b \<le> unat a then unat a - unat b else unat a + 65536 - unat b)"
  by (simp add: unat_sub_if')

lemma jitter_start:
  assumes "bt_sorted ps" and "p \<in> set ps" and "\<forall>q\<in>set ps. unat (ap_sequence q - ap_sequence p) < 32768"
  shows "jitter_determine_start ps = Some (ap_sequence p)"
proof -
  define keys where "keys = map (\<lambda>q. unat (ap_sequence q)) ps"
  obtain g ix where scan: "max_gap_scan keys (length keys - 1) = (g, ix)" by (rule prod.exhaust)
  have sorted: "sorted_wrt (<) keys"
    using assms(1) by (simp add: keys_def bt_sorted_def sorted_wrt_map word_less_nat_alt)
  have ne: "ps \<noteq> []" using assms(2) by auto
  have small: "\<forall>k\<in>set keys. k < 65536" by (auto simp: keys_def unat_less_u16)
  have win: "unat (ap_sequence p) \<le> k \<and> k < unat (ap_sequence p) + 32768 \<or> k + 65536 < unat (ap_sequence p) + 32768"
    if "k \<in> set keys" for k
    using that assms(3) by (auto simp: keys_def unat_diff_u16 split: if_splits)
  have k0: "keys ! 0 = unat (ap_sequence (ps ! 0))" using ne by (simp add: keys_def)
  show ?thesis
  proof (cases "ps ! 0 = p")
    case True
    have first: "keys ! 0 \<le> k" if "k \<in> set keys" for k
    proof -
      from that obtain i where "i < length keys" "k = keys ! i" by (auto simp: in_set_conv_nth)
      then show ?thesis using sorted_wrt_nth_less [OF sorted, of 0 i] by (cases i) auto
    qed
    have "k < keys ! 0 + 32768" if "k \<in> set keys" for k using win [OF that] first [OF that] k0 True by auto
    with first have "\<not> g > keys ! 0 + 65536 - last keys"
      using start_unwrapped [OF sorted scan _ _ small] ne by (simp add: keys_def)
    then show ?thesis using ne True scan by (simp add: jitter_determine_start_def Let_def keys_def)
  next
    case False
    have "ps ! 0 \<in> set ps" using ne by simp
    have "ap_sequence (ps ! 0) < ap_sequence p"
    proof -
      from assms(2) obtain i where "i < length ps" "p = ps ! i" by (auto simp: in_set_conv_nth)
      then show ?thesis
        using False assms(1) sorted_wrt_nth_less [of "\<lambda>p q. ap_sequence p < ap_sequence q" ps 0 i]
        by (cases i) (auto simp: bt_sorted_def)
    qed
    then have s0: "keys ! 0 < unat (ap_sequence p)" by (simp add: k0 word_less_nat_alt)
    have "\<forall>k\<in>set keys. unat (ap_sequence p) \<le> k \<or> k + 65536 < unat (ap_sequence p) + 32768" using win by blast
    from start_wrapped [OF sorted scan _ s0 this small] assms(2)
    have w: "g > keys ! 0 + 65536 - last keys" "ix + 1 < length keys" "keys ! (ix + 1) = unat (ap_sequence p)"
      by (auto simp: keys_def)
    have "ap_sequence (ps ! (ix + 1)) = ap_sequence p" using w(2,3) by (simp add: keys_def word_unat_eq_iff)
    moreover have "length ps \<noteq> 1" using w(2) by (simp add: keys_def)
    ultimately show ?thesis using ne w(1) scan by (simp add: jitter_determine_start_def Let_def keys_def)
  qed
qed

section \<open>Insertions between the calls of \<open>pop\<close>\<close>

text \<open>
  A run of both sides: packets that arrive, each with the time of its insertion, and calls of
  \<open>pop\<close>, in any order; with the packets played.
\<close>

datatype jitter_call = Call_Insert nat audio_packet | Call_Pop

fun jitter_serve :: "jitter_buffer \<Rightarrow> jitter_call \<Rightarrow> jitter_buffer \<times> audio_packet list" where
  "jitter_serve b (Call_Insert now p) = (jitter_insert now b p, [])"
| "jitter_serve b Call_Pop = map_prod id (case_option [] (\<lambda>p. [p])) (jitter_pop b)"

primrec jitter_run :: "jitter_buffer \<Rightarrow> jitter_call list \<Rightarrow> jitter_buffer \<times> audio_packet list" where
  "jitter_run b [] = (b, [])"
| "jitter_run b (c # cs) =
     (case jitter_serve b c of (b1, ps) \<Rightarrow> map_prod id ((@) ps) (jitter_run b1 cs))"

fun jitter_inserted :: "jitter_call list \<Rightarrow> audio_packet list" where
  "jitter_inserted [] = []"
| "jitter_inserted (Call_Insert _ p # cs) = p # jitter_inserted cs"
| "jitter_inserted (Call_Pop # cs) = jitter_inserted cs"

definition jitter_dropped :: "jitter_buffer \<Rightarrow> nat" where
  "jitter_dropped b = js_dropped_late (jb_stats b) + js_dropped_overflow (jb_stats b)"

text \<open>Playback has started at \<open>n\<close>, and no packet in the buffer has a smaller number.\<close>

definition on_course :: "jitter_buffer \<Rightarrow> u16 \<Rightarrow> bool" where
  "on_course b n \<longleftrightarrow> jb_state b \<noteq> Buffering \<and> jb_next_play_seq b = Some n \<and> bt_sorted (jb_packets b)
     \<and> list_all (\<lambda>p. n \<le> ap_sequence p) (jb_packets b)"

lemma late_is_below:
  fixes s n :: u16
  assumes "unat s < hi" "lo \<le> unat s" and "lo \<le> unat n" "unat n \<le> hi" and "hi \<le> lo + 32768"
  shows "sint (s - n) < 0 \<longleftrightarrow> s < n"
proof -
  have "unat (s - n) < 32768 \<longleftrightarrow> n \<le> s"
    using assms unat_less_u16 [of s] unat_less_u16 [of n] by (auto simp: unat_sub_if' word_le_nat_alt)
  moreover have "sint (s - n) < 0 \<longleftrightarrow> \<not> unat (s - n) < 32768"
    using unat_less_u16 [of "s - n"] unfolding sint_u16 by (simp del: of_nat_unat)
  ultimately show ?thesis by auto
qed

lemma jitter_dropped_update [simp]:
  "jitter_dropped (jitter_update_state b) = jitter_dropped b"
  "jitter_dropped (jitter_played b) = jitter_dropped b"
  by (auto simp: jitter_dropped_def jitter_played_def jitter_update_state_def Let_def split: buffer_state.splits)

lemma jitter_dropped_pop: "jitter_dropped (fst (jitter_pop b)) = jitter_dropped b"
  by (auto simp: jitter_pop_def jitter_handle_missing_def Let_def split: option.splits)
    (simp_all add: jitter_dropped_def)

lemma bt_sorted_distinct: "bt_sorted ps \<Longrightarrow> distinct (map ap_sequence ps)"
  by (induction ps) auto

lemma set_bt_insert_new: "\<forall>q\<in>set ps. ap_sequence q \<noteq> ap_sequence p \<Longrightarrow> set (bt_insert p ps) = insert p (set ps)"
  by (induction ps) auto

lemma insert_on_course:
  assumes "on_course b n" and "sint (ap_sequence p - n) < 0 \<longleftrightarrow> ap_sequence p < n"
  shows "on_course (jitter_insert now b p) n"
    and "set (jb_packets (jitter_insert now b p)) \<subseteq> insert p (set (jb_packets b))"
    and "jitter_dropped b \<le> jitter_dropped (jitter_insert now b p)"
    and "jitter_dropped (jitter_insert now b p) = jitter_dropped b \<Longrightarrow>
      \<forall>q\<in>set (jb_packets b). ap_sequence q \<noteq> ap_sequence p \<Longrightarrow>
      set (jb_packets (jitter_insert now b p)) = insert p (set (jb_packets b))"
proof -
  let ?full = "jc_max_depth (jb_config b) \<le> length (jb_packets b)"
  let ?ps = "if ?full then tl (jb_packets b) else jb_packets b"
  have b: "jb_state b \<noteq> Buffering" "jb_next_play_seq b = Some n" "bt_sorted (jb_packets b)"
    "list_all (\<lambda>p. n \<le> ap_sequence p) (jb_packets b)" using assms(1) by (simp_all add: on_course_def)
  have ps: "bt_sorted ?ps" "set ?ps \<subseteq> set (jb_packets b)" using b(3) by (cases "jb_packets b"; auto)+
  have late: "jb_packets (jitter_insert now b p) = jb_packets b \<and> jb_state (jitter_insert now b p) = jb_state b
      \<and> jb_next_play_seq (jitter_insert now b p) = Some n \<and> jitter_dropped (jitter_insert now b p) = Suc (jitter_dropped b)"
    if "ap_sequence p < n" using that b(2) assms(2) by (simp add: jitter_insert_def jitter_dropped_def Let_def)
  have kept: "jb_packets (jitter_insert now b p) = bt_insert p ?ps \<and> jb_state (jitter_insert now b p) \<noteq> Buffering
      \<and> jb_next_play_seq (jitter_insert now b p) = Some n
      \<and> jitter_dropped (jitter_insert now b p) = jitter_dropped b + (if ?full then 1 else 0)"
    if "\<not> ap_sequence p < n"
    using that b assms(2)
    by (simp add: jitter_insert_def Let_def bt_drop_oldest_tl) (simp add: jitter_dropped_def)
  note cases = late kept
  show "on_course (jitter_insert now b p) n"
    using cases b ps set_bt_insert [of p ?ps] bt_sorted_insert [OF ps(1), of p]
    by (cases "ap_sequence p < n") (fastforce simp: on_course_def list_all_iff not_less)+
  show "set (jb_packets (jitter_insert now b p)) \<subseteq> insert p (set (jb_packets b))"
    using cases ps(2) set_bt_insert [of p ?ps] by (cases "ap_sequence p < n") auto
  show "jitter_dropped b \<le> jitter_dropped (jitter_insert now b p)"
    using cases by (cases "ap_sequence p < n") auto
  show "set (jb_packets (jitter_insert now b p)) = insert p (set (jb_packets b))"
    if "jitter_dropped (jitter_insert now b p) = jitter_dropped b"
      "\<forall>q\<in>set (jb_packets b). ap_sequence q \<noteq> ap_sequence p"
    using cases that set_bt_insert_new [of "jb_packets b" p] by (cases "ap_sequence p < n") (auto split: if_splits)
qed

lemma pop_on_course:
  assumes "on_course b n" and "unat n < 65535" and "\<forall>p\<in>set (jb_packets b). unat (ap_sequence p) < 65535"
  obtains (none) b' where "jitter_pop b = (b', None)" "on_course b' (n + 1)" "jb_packets b' = jb_packets b"
  | (some) b' p where "jitter_pop b = (b', Some p)" "on_course b' (ap_sequence p + 1)"
      "jb_packets b = p # jb_packets b'" "n \<le> ap_sequence p"
proof -
  have b: "jb_state b \<noteq> Buffering" "jb_next_play_seq b = Some n" "bt_sorted (jb_packets b)"
    "\<forall>p\<in>set (jb_packets b). n \<le> ap_sequence p" using assms(1) by (simp_all add: on_course_def list_all_iff)
  show thesis
  proof (cases "jb_packets b")
    case Nil
    with jitter_pop_empty [OF b(1,2)] none show ?thesis by (force simp: on_course_def)
  next
    case (Cons p ps)
    have s: "bt_sorted (p # ps)" and n: "n \<le> ap_sequence p" using b(3,4) Cons by auto
    show ?thesis
    proof (cases "unat (ap_sequence p) < unat n + 10")
      case True
      from jitter_pop_near [OF b(1,2) Cons s n True] obtain b' where b': "jitter_pop b = (b', Some p)"
        "jb_state b' \<noteq> Buffering" "jb_next_play_seq b' = Some (ap_sequence p + 1)" "jb_packets b' = ps" by blast
      have "on_course b' (ap_sequence p + 1)"
        using b' s word_succ_facts(1) by (simp add: on_course_def list_all_iff)
      with b' Cons n show ?thesis by (intro some [of b' p]) simp_all
    next
      case False
      from jitter_pop_far [OF b(1,2) Cons s n] False obtain b' where b': "jitter_pop b = (b', None)"
        "jb_state b' \<noteq> Buffering" "jb_next_play_seq b' = Some (n + 1)" "jb_packets b' = p # ps" by force
      have "n < ap_sequence q" if "q \<in> set (p # ps)" for q
        using that s False by (auto simp: word_less_nat_alt)
      then have "on_course b' (n + 1)" using b' s word_succ_facts(1) by (simp add: on_course_def list_all_iff)
      with b' Cons show ?thesis by (intro none) simp_all
    qed
  qed
qed

text \<open>
  The window: every number in play is in \<open>[lo, hi)\<close> and the next number in \<open>[lo, hi]\<close>. A call
  of \<open>pop\<close> with nothing to play moves the next number on by one, so a run of \<open>k\<close> calls stays
  comparable as long as \<open>hi + k\<close> is less than half the number space above \<open>lo\<close>.
\<close>

definition in_window :: "nat \<Rightarrow> nat \<Rightarrow> audio_packet \<Rightarrow> bool" where
  "in_window lo hi p \<longleftrightarrow> lo \<le> unat (ap_sequence p) \<and> unat (ap_sequence p) < hi"

lemma in_window_Suc: "in_window lo hi p \<Longrightarrow> in_window lo (Suc hi) p"
  by (simp add: in_window_def)


text \<open>
  What a run from a buffer on course at \<open>n\<close> to one on course at \<open>n'\<close> has done: it has played
  numbers from \<open>n\<close> up to \<open>n'\<close> in ascending order, has made up nothing, and has lost nothing
  but what the counters of dropped packets show.
\<close>

definition ran_in_order ::
  "jitter_buffer \<Rightarrow> u16 \<Rightarrow> audio_packet list \<Rightarrow> jitter_buffer \<Rightarrow> u16 \<Rightarrow> audio_packet list \<Rightarrow> bool" where
  "ran_in_order b n arrived b' n' played \<longleftrightarrow>
     list_all (\<lambda>p. n \<le> ap_sequence p \<and> ap_sequence p < n') played \<and> bt_sorted played
     \<and> set played \<union> set (jb_packets b') \<subseteq> set (jb_packets b) \<union> set arrived
     \<and> jitter_dropped b \<le> jitter_dropped b'
     \<and> (jitter_dropped b' = jitter_dropped b \<and> distinct (map ap_sequence (jb_packets b @ arrived)) \<longrightarrow>
        set played \<union> set (jb_packets b') = set (jb_packets b) \<union> set arrived)"

lemma ran_insert:
  assumes "on_course b n" and "sint (ap_sequence p - n) < 0 \<longleftrightarrow> ap_sequence p < n"
    and "ran_in_order (jitter_insert now b p) n arrived b' n' played"
  shows "ran_in_order b n (p # arrived) b' n' played"
proof -
  let ?b1 = "jitter_insert now b p"
  note ins = insert_on_course [OF assms(1,2), of now]
  have d: "distinct (map ap_sequence (jb_packets ?b1))" using ins(1) by (simp add: on_course_def bt_sorted_distinct)
  have r: "list_all (\<lambda>p. n \<le> ap_sequence p \<and> ap_sequence p < n') played" "bt_sorted played"
    "set played \<union> set (jb_packets b') \<subseteq> set (jb_packets ?b1) \<union> set arrived"
    "jitter_dropped ?b1 \<le> jitter_dropped b'"
    "jitter_dropped b' = jitter_dropped ?b1 \<Longrightarrow> distinct (map ap_sequence (jb_packets ?b1 @ arrived)) \<Longrightarrow>
      set played \<union> set (jb_packets b') = set (jb_packets ?b1) \<union> set arrived"
    using assms(3) by (simp_all add: ran_in_order_def)
  have "set played \<union> set (jb_packets b') = set (jb_packets b) \<union> set (p # arrived)"
    if "jitter_dropped b' = jitter_dropped b" and "distinct (map ap_sequence (jb_packets b @ p # arrived))"
  proof -
    have same: "jitter_dropped ?b1 = jitter_dropped b" using that(1) ins(3) r(4) by simp
    have *: "set (jb_packets ?b1) = insert p (set (jb_packets b))"
      using that(2) by (intro ins(4) [OF same]) (auto dest: sym)
    then have "distinct (map ap_sequence (jb_packets ?b1 @ arrived))" using that(2) d by auto
    with r(5) same that(1) have "set played \<union> set (jb_packets b') = set (jb_packets ?b1) \<union> set arrived" by simp
    with * show ?thesis by simp
  qed
  moreover have "set played \<union> set (jb_packets b') \<subseteq> set (jb_packets b) \<union> set (p # arrived)"
    using r(3) ins(2) by auto
  ultimately show ?thesis using r(1,2,4) ins(3) by (simp add: ran_in_order_def)
qed

lemma ran_pop_none:
  assumes "ran_in_order b1 n1 arrived b' n' played" and "jb_packets b1 = jb_packets b"
    and "jitter_dropped b1 = jitter_dropped b" and "n \<le> n1"
  shows "ran_in_order b n arrived b' n' played"
proof -
  have "list_all (\<lambda>p. n \<le> ap_sequence p \<and> ap_sequence p < n') played"
    using assms(1,4) by (auto simp: ran_in_order_def list_all_iff intro: order_trans)
  with assms(1-3) show ?thesis by (simp add: ran_in_order_def)
qed

lemma ran_pop_some:
  assumes "ran_in_order b1 n1 arrived b' n' played" and "jb_packets b = p # jb_packets b1"
    and "jitter_dropped b1 = jitter_dropped b" and "n \<le> ap_sequence p" "ap_sequence p < n1" "n1 \<le> n'"
  shows "ran_in_order b n arrived b' n' (p # played)"
proof -
  have "n \<le> ap_sequence q \<and> ap_sequence p < ap_sequence q \<and> ap_sequence q < n'" if "q \<in> set played" for q
  proof -
    have "n1 \<le> ap_sequence q" "ap_sequence q < n'" using assms(1) that by (auto simp: ran_in_order_def list_all_iff)
    with assms(4,5) show ?thesis by (meson order_trans less_le_trans less_imp_le)
  qed
  then show ?thesis using assms by (auto simp: ran_in_order_def list_all_iff)
qed

lemma run_on_course:
  assumes "on_course b n" and "lo \<le> unat n" "unat n \<le> hi" and "hi + length cs \<le> min 65535 (lo + 32768)"
    and "list_all (in_window lo hi) (jb_packets b @ jitter_inserted cs)" and "jitter_run b cs = (b', played)"
  shows "\<exists>n'. on_course b' n' \<and> n \<le> n' \<and> ran_in_order b n (jitter_inserted cs) b' n' played"
  using assms
proof (induction cs arbitrary: b n hi played)
  case Nil
  then show ?case by (auto simp: ran_in_order_def)
next
  case (Cons c cs)
  have hi: "Suc hi + length cs \<le> min 65535 (lo + 32768)" and nhi: "unat n \<le> Suc hi" using Cons.prems(3,4) by simp_all
  have "hi \<le> 65535" and "\<forall>p\<in>set (jb_packets b). unat (ap_sequence p) < hi"
    using Cons.prems(4,5) by (simp_all add: list_all_iff in_window_def)
  then have small: "\<forall>p\<in>set (jb_packets b). unat (ap_sequence p) < 65535" by (meson less_le_trans)
  show ?case
  proof (cases c)
    case (Call_Insert now p)
    have run: "jitter_run (jitter_insert now b p) cs = (b', played)"
      using Cons.prems(6) Call_Insert by (simp add: map_prod_def split: prod.splits)
    have late: "sint (ap_sequence p - n) < 0 \<longleftrightarrow> ap_sequence p < n"
      using Cons.prems(2-5) Call_Insert by (intro late_is_below [of _ hi lo]) (auto simp: in_window_def)
    note ins = insert_on_course [OF Cons.prems(1) late, of now]
    have "list_all (in_window lo (Suc hi)) (jb_packets (jitter_insert now b p) @ jitter_inserted cs)"
      using Cons.prems(5) Call_Insert ins(2) in_window_Suc by (auto simp: list_all_iff)
    from Cons.IH [OF ins(1) Cons.prems(2) nhi hi this run] ran_insert [OF Cons.prems(1) late]
    show ?thesis using Call_Insert by auto
  next
    case Call_Pop
    have win: "list_all (in_window lo (Suc hi)) (jb_packets b @ jitter_inserted cs)"
      using Cons.prems(5) Call_Pop in_window_Suc by (auto simp: list_all_iff)
    have "unat n < 65535" using Cons.prems(3,4) by simp
    from Cons.prems(1) this small show ?thesis
    proof (cases rule: pop_on_course)
      case (none b1)
      have run: "jitter_run b1 cs = (b', played)"
        using Cons.prems(6) Call_Pop none(1) by (simp add: map_prod_def split: prod.splits)
      have n1: "unat (n + 1) = unat n + 1" "n \<le> n + 1"
        using word_succ_facts [of n "0xFFFF"] \<open>unat n < 65535\<close> by (auto simp: word_less_nat_alt word_le_nat_alt)
      have "jitter_dropped b1 = jitter_dropped b" using jitter_dropped_pop [of b] none(1) by simp
      with Cons.IH [OF none(2) _ _ hi _ run] n1 Cons.prems(2,3) win none(3)
      show ?thesis using Call_Pop ran_pop_none [of b1 "n + 1" _ b' _ played b n] by (fastforce dest: order_trans)
    next
      case (some b1 p)
      obtain played' where run: "jitter_run b1 cs = (b', played')" and played: "played = p # played'"
        using Cons.prems(6) Call_Pop some(1) by (auto simp: map_prod_def split: prod.splits)
      have n1: "unat (ap_sequence p + 1) = unat (ap_sequence p) + 1" "ap_sequence p < ap_sequence p + 1"
        using word_succ_facts [of "ap_sequence p" "0xFFFF"] small some(3) by (auto simp: word_less_nat_alt)
      have p: "lo \<le> unat (ap_sequence p) + 1" "unat (ap_sequence p) + 1 \<le> Suc hi"
        using Cons.prems(5) some(3) by (auto simp: in_window_def)
      have "jitter_dropped b1 = jitter_dropped b" using jitter_dropped_pop [of b] some(1) by simp
      moreover obtain n' where n': "on_course b' n'" "ap_sequence p + 1 \<le> n'"
        "ran_in_order b1 (ap_sequence p + 1) (jitter_inserted cs) b' n' played'"
        using Cons.IH [OF some(2) _ _ hi _ run] n1(1) p win some(3) by auto
      ultimately have "ran_in_order b n (jitter_inserted cs) b' n' played"
        unfolding played using ran_pop_some [OF n'(3) some(3)] some(4) n1(2) n'(2) by simp
      moreover have "n \<le> n'" using some(4) n1(2) n'(2) by (meson order_trans less_imp_le)
      ultimately show ?thesis using n'(1) Call_Pop by auto
    qed
  qed
qed

section \<open>Properties\<close>

text \<open>
  C34. The buffer plays in sequence order what it holds and what arrives between the calls of
  \<open>pop\<close>. From a buffer that has started to play at \<open>n\<close>, take any order of insertions and calls
  of \<open>pop\<close> whose sequence numbers lie in a window \<open>[lo, hi)\<close> around \<open>n\<close> that neither wraps nor,
  with the calls added, reaches half the number space: the packets played, followed by those
  that further calls of \<open>pop\<close> return, are in strictly ascending order and were all in the
  buffer or inserted. When no number occurs twice and the statistics count no late or
  overflowing packet, every packet that was there or arrived is played, whatever the gaps.
\<close>

theorem jitter_plays_in_order:
  assumes "on_course b n" and "lo \<le> unat n" "unat n \<le> hi" and "hi + length cs \<le> min 65535 (lo + 32768)"
    and "list_all (in_window lo hi) (jb_packets b @ jitter_inserted cs)" and "jitter_run b cs = (b', played)"
  shows "bt_sorted (played @ jitter_pops hi b')
    \<and> set (played @ jitter_pops hi b') \<subseteq> set (jb_packets b) \<union> set (jitter_inserted cs)
    \<and> (jitter_dropped b' = jitter_dropped b \<and> distinct (map ap_sequence (jb_packets b @ jitter_inserted cs)) \<longrightarrow>
       set (played @ jitter_pops hi b') = set (jb_packets b) \<union> set (jitter_inserted cs))"
proof -
  from run_on_course [OF assms] obtain n' where n': "on_course b' n'" "n \<le> n'"
    "ran_in_order b n (jitter_inserted cs) b' n' played" by blast
  have "\<forall>p\<in>set (jb_packets b'). n' \<le> ap_sequence p \<and> unat (ap_sequence p) < unat n' + hi"
    using n'(1,3) assms(5) by (auto simp: on_course_def ran_in_order_def list_all_iff in_window_def trans_less_add2)
  then have pops: "jitter_pops hi b' = jb_packets b'"
    using n'(1) jitter_pops_all [of b' n' hi] by (simp add: on_course_def)
  have "bt_sorted (played @ jb_packets b')"
    using n'(1,3) by (auto simp: on_course_def ran_in_order_def list_all_iff bt_sorted_def sorted_wrt_append
        intro: less_le_trans)
  with n'(3) show ?thesis by (simp add: pops ran_in_order_def)
qed

definition demo_packet :: "u16 \<Rightarrow> audio_packet" where
  "demo_packet n = \<lparr>ap_sequence = n, ap_timestamp = 0, ap_ssrc = 0, ap_audio_data = [], ap_received_at = 0\<rparr>"

definition demo_buffer :: "u16 \<Rightarrow> u16 list \<Rightarrow> jitter_buffer" where
  "demo_buffer n ks = (jitter_new jitter_config_default)
     \<lparr>jb_packets := map demo_packet ks, jb_next_play_seq := Some n, jb_state := Playing\<rparr>"

definition demo_calls :: "jitter_call list" where
  "demo_calls = [Call_Pop, Call_Insert 5 (demo_packet 20), Call_Insert 6 (demo_packet 15), Call_Pop]"

lemma demo_calls_run:
  "map ap_sequence (snd (jitter_run (demo_buffer 10 [12]) demo_calls)) = [12, 15]
   \<and> jitter_dropped (fst (jitter_run (demo_buffer 10 [12]) demo_calls)) = 0"
  by (simp add: demo_calls_def demo_buffer_def demo_packet_def jitter_pop_def jitter_insert_def jitter_handle_missing_def
      jitter_played_def jitter_update_state_def bt_first_key_def bt_get_def bt_remove_def Let_def jitter_dropped_def
      jitter_new_def jitter_config_default_def)

theorem jitter_plays_in_order_witness:
  "\<exists>b' played. jitter_run (demo_buffer 10 [12]) demo_calls = (b', played) \<and> map ap_sequence played = [12, 15]
     \<and> bt_sorted (played @ jitter_pops 21 b')
     \<and> set (played @ jitter_pops 21 b') = set (map demo_packet [20, 15, 12])"
proof -
  obtain b' played where run: "jitter_run (demo_buffer 10 [12]) demo_calls = (b', played)" by (rule prod.exhaust)
  have b: "jb_packets (demo_buffer 10 [12]) = [demo_packet 12]" "jitter_dropped (demo_buffer 10 [12]) = 0"
    "on_course (demo_buffer 10 [12]) 10"
    by (simp_all add: demo_buffer_def jitter_dropped_def on_course_def jitter_new_def demo_packet_def)
  have c: "jitter_inserted demo_calls = [demo_packet 20, demo_packet 15]" "length demo_calls = 4"
    by (simp_all add: demo_calls_def)
  have "list_all (in_window 10 21) (jb_packets (demo_buffer 10 [12]) @ jitter_inserted demo_calls)"
    by (simp add: b c in_window_def demo_packet_def)
  from jitter_plays_in_order [OF b(3) _ _ _ this run] show ?thesis
    using demo_calls_run run by (simp add: b c demo_packet_def)
qed

text \<open>
  Playback starts at the right packet across wrap-around: when the buffered packets span
  less than half the sequence space starting at some packet, that packet's number is the
  start sequence, although the map orders the keys numerically.
\<close>

theorem jitter_start_sequence:
  assumes "jitter_ok b" and "p \<in> set (jb_packets b)"
    and "list_all (\<lambda>q. unat (ap_sequence q - ap_sequence p) < 32768) (jb_packets b)"
  shows "jitter_determine_start (jb_packets b) = Some (ap_sequence p)"
  using jitter_start [OF _ assms(2)] assms(1,3) by (simp add: jitter_ok_def list_all_iff)

theorem jitter_start_sequence_witness:
  "jitter_determine_start (jb_packets (demo_buffer 0 [1, 3, 65530, 65535])) = Some 65530"
  using jitter_start_sequence [of "demo_buffer 0 [1, 3, 65530, 65535]" "demo_packet 65530"]
  by (simp add: demo_buffer_def demo_packet_def jitter_ok_def jitter_new_def jitter_config_default_def)

text \<open>
  Whatever is inserted, popped, flushed or pruned, the packets stay in strictly ascending
  sequence order, and their number never exceeds the configured maximum (or one).
\<close>

theorem jitter_reachable_ok:
  assumes "jitter_step\<^sup>*\<^sup>* (jitter_new config) b"
  shows "bt_sorted (jb_packets b) \<and> length (jb_packets b) \<le> max 1 (jc_max_depth config)"
  using jitter.reachable_safe [OF refl assms] by (auto simp: jitter_ok_def)

theorem jitter_reachable_ok_witness:
  "length (jb_packets (jitter_insert 5 (jitter_insert 4 (jitter_new jitter_config_default) (demo_packet 7))
     (demo_packet 3))) \<le> 200"
proof -
  have "jitter_step\<^sup>*\<^sup>* (jitter_new jitter_config_default)
      (jitter_insert 5 (jitter_insert 4 (jitter_new jitter_config_default) (demo_packet 7)) (demo_packet 3))"
    by (meson jitter_step.intros(1) r_into_rtranclp rtranclp_trans)
  from jitter_reachable_ok [OF this] show ?thesis by (simp add: jitter_config_default_def)
qed

text \<open>
  Across the wrap of the sequence numbers a missing packet breaks the order. With packets
  65534 and 1 in the buffer and 65533 missing, \<open>pop\<close> takes the numerically smallest key: it
  plays packet 1, moves on to 2, and packet 65534, which is next in the stream, is passed over.
\<close>

theorem jitter_wrap_misorders:
  "map_option ap_sequence (snd (jitter_pop (demo_buffer 65533 [1, 65534]))) = Some 1
   \<and> jb_next_play_seq (fst (jitter_pop (demo_buffer 65533 [1, 65534]))) = Some 2
   \<and> snd (jitter_pop (fst (jitter_pop (demo_buffer 65533 [1, 65534])))) = None"
proof -
  let ?b = "demo_buffer 65533 [1, 65534]"
  have step: "snd (jitter_pop ?b) = Some (demo_packet 1)
      \<and> jb_next_play_seq (fst (jitter_pop ?b)) = Some 2 \<and> jb_packets (fst (jitter_pop ?b)) = [demo_packet 65534]"
    by (simp add: demo_buffer_def demo_packet_def jitter_pop_def jitter_handle_missing_def bt_get_def bt_remove_def
        bt_first_key_def Let_def)
  have "jb_state (fst (jitter_pop ?b)) \<noteq> Buffering"
    by (simp add: demo_buffer_def demo_packet_def jitter_pop_def jitter_handle_missing_def bt_get_def
        bt_first_key_def Let_def)
  with step have "snd (jitter_pop (fst (jitter_pop ?b))) = None"
    by (simp add: jitter_pop_def [of "fst (jitter_pop ?b)"] jitter_handle_missing_def bt_get_def bt_first_key_def
        Let_def demo_packet_def)
  with step show ?thesis by (simp add: demo_packet_def)
qed

end
