(* ===== verification/Receiver_Session.thy ===== *)
theory Receiver_Session
  imports Complex_Main Interfaces "HOL-Library.Multiset"
begin

text \<open>
  The receiver's sessions, \<open>src/receiver/session.rs\<close>, and their manager,
  \<open>src/receiver/session_manager.rs\<close>. Instants and durations are nanoseconds on \<open>nat\<close> and
  every reading of the clock is an argument, as are the random number behind a session
  identifier and the operating system's answers to \<open>bind\<close>. A 32-bit float is a finite
  rational, an infinity or not a number. The events sent to the subscribers are kept as a
  list. \<open>start_session\<close> takes the session lock twice: its parts between lock operations are
  separate definitions, and other operations can run between them.
\<close>

section \<open>Sessions\<close>

datatype session_state =
    Connected | Announced | Setup | Streaming | Paused | Teardown | Closed

fun can_transition_to :: "session_state \<Rightarrow> session_state \<Rightarrow> bool" where
  "can_transition_to Connected n = (n = Announced \<or> n = Teardown)"
| "can_transition_to Announced n = (n = Announced \<or> n = Setup \<or> n = Teardown)"
| "can_transition_to Setup n = (n = Announced \<or> n = Setup \<or> n = Streaming \<or> n = Teardown)"
| "can_transition_to Streaming n = (n = Paused \<or> n = Teardown)"
| "can_transition_to Paused n = (n = Streaming \<or> n = Teardown)"
| "can_transition_to Teardown n = (n = Closed)"
| "can_transition_to Closed n = False"

definition session_state_is_active :: "session_state \<Rightarrow> bool" where
  "session_state_is_active s \<longleftrightarrow> s = Streaming \<or> s = Paused"

definition session_state_is_valid :: "session_state \<Rightarrow> bool" where
  "session_state_is_valid s \<longleftrightarrow> \<not> (s = Teardown \<or> s = Closed)"

datatype audio_codec = Pcm | Alac | AacLc | AacEld

record stream_parameters =
  sp_codec :: audio_codec
  sp_sample_rate :: u32
  sp_bits_per_sample :: u8
  sp_channels :: u8
  sp_frames_per_packet :: u32
  sp_aes_key :: "bytes option"
  sp_aes_iv :: "bytes option"
  sp_min_latency :: "u32 option"

definition stream_parameters_default :: stream_parameters where
  "stream_parameters_default =
     \<lparr>sp_codec = Alac, sp_sample_rate = 44100, sp_bits_per_sample = 16, sp_channels = 2,
      sp_frames_per_packet = 352, sp_aes_key = None, sp_aes_iv = None, sp_min_latency = None\<rparr>"

record session_sockets =
  ss_audio_port :: u16
  ss_control_port :: u16
  ss_timing_port :: u16
  ss_client_control_port :: "u16 option"
  ss_client_timing_port :: "u16 option"
  ss_client_addr :: "socket_addr option"

datatype f32 = F32 rat | F32_inf bool | F32_nan

text \<open>\<open>f32::clamp(-144.0, 0.0)\<close>: not a number stays not a number.\<close>

fun volume_clamp :: "f32 \<Rightarrow> f32" where
  "volume_clamp (F32 v) = F32 (if v < - 144 then - 144 else if v > 0 then 0 else v)"
| "volume_clamp (F32_inf negative) = F32 (if negative then - 144 else 0)"
| "volume_clamp F32_nan = F32_nan"

record receiver_session =
  rs_id :: string
  rs_state :: session_state
  rs_client_addr :: socket_addr
  rs_stream_params :: "stream_parameters option"
  rs_sockets :: "session_sockets option"
  rs_volume :: f32
  rs_last_activity :: nat
  rs_created_at :: nat
  rs_rtsp_session_id :: "string option"
  rs_initial_seq :: "u16 option"
  rs_initial_rtptime :: "u32 option"

datatype session_error =
    InvalidTransition session_state session_state
  | NotFound string
  | Busy
  | Timeout

text \<open>\<open>format!("{id:016X}")\<close>.\<close>

definition hex_digit :: "nat \<Rightarrow> char" where
  "hex_digit n = ''0123456789ABCDEF'' ! n"

definition generate_session_id :: "u64 \<Rightarrow> string" where
  "generate_session_id r = map (\<lambda>i. hex_digit (unat (drop_bit (4 * i) r AND 0xF))) (rev [0..<16])"

definition session_new :: "u64 \<Rightarrow> nat \<Rightarrow> socket_addr \<Rightarrow> receiver_session" where
  "session_new random now client_addr =
     \<lparr>rs_id = generate_session_id random, rs_state = Connected, rs_client_addr = client_addr,
      rs_stream_params = None, rs_sockets = None, rs_volume = F32 0, rs_last_activity = now,
      rs_created_at = now, rs_rtsp_session_id = None, rs_initial_seq = None, rs_initial_rtptime = None\<rparr>"

definition session_touch :: "nat \<Rightarrow> receiver_session \<Rightarrow> receiver_session" where
  "session_touch now s = s\<lparr>rs_last_activity := now\<rparr>"

definition session_set_state ::
    "nat \<Rightarrow> receiver_session \<Rightarrow> session_state \<Rightarrow> (session_error, receiver_session) result" where
  "session_set_state now s new_state =
     (if \<not> can_transition_to (rs_state s) new_state
      then Inl (InvalidTransition (rs_state s) new_state)
      else Inr (session_touch now (s\<lparr>rs_state := new_state\<rparr>)))"

definition session_set_volume :: "nat \<Rightarrow> receiver_session \<Rightarrow> f32 \<Rightarrow> receiver_session" where
  "session_set_volume now s volume = session_touch now (s\<lparr>rs_volume := volume_clamp volume\<rparr>)"

definition session_set_stream_params :: "nat \<Rightarrow> receiver_session \<Rightarrow> stream_parameters \<Rightarrow> receiver_session" where
  "session_set_stream_params now s params = session_touch now (s\<lparr>rs_stream_params := Some params\<rparr>)"

definition session_set_sockets :: "nat \<Rightarrow> receiver_session \<Rightarrow> session_sockets \<Rightarrow> receiver_session" where
  "session_set_sockets now s sockets = session_touch now (s\<lparr>rs_sockets := Some sockets\<rparr>)"

definition session_set_rtsp_session_id :: "receiver_session \<Rightarrow> string \<Rightarrow> receiver_session" where
  "session_set_rtsp_session_id s i = s\<lparr>rs_rtsp_session_id := Some i\<rparr>"

definition session_set_rtp_info :: "nat \<Rightarrow> receiver_session \<Rightarrow> u16 \<Rightarrow> u32 \<Rightarrow> receiver_session" where
  "session_set_rtp_info now s seq rtptime =
     session_touch now (s\<lparr>rs_initial_seq := Some seq, rs_initial_rtptime := Some rtptime\<rparr>)"

definition session_idle_time :: "nat \<Rightarrow> receiver_session \<Rightarrow> nat" where
  "session_idle_time now s = now - rs_last_activity s"

definition session_age :: "nat \<Rightarrow> receiver_session \<Rightarrow> nat" where
  "session_age now s = now - rs_created_at s"

definition session_is_timed_out :: "nat \<Rightarrow> receiver_session \<Rightarrow> nat \<Rightarrow> bool" where
  "session_is_timed_out now s timeout \<longleftrightarrow> session_idle_time now s > timeout"

section \<open>The session manager\<close>

datatype preemption_policy = Reject | AllowPreempt | Queue

record session_manager_config =
  smc_idle_timeout :: nat
  smc_max_duration :: nat
  smc_preemption_policy :: preemption_policy
  smc_udp_base_port :: u16
  smc_udp_port_range :: u16

definition session_manager_config_default :: session_manager_config where
  "session_manager_config_default =
     \<lparr>smc_idle_timeout = 60 * 10 ^ 9, smc_max_duration = 0, smc_preemption_policy = AllowPreempt,
      smc_udp_base_port = 6000, smc_udp_port_range = 100\<rparr>"

datatype session_event =
    SessionStarted string socket_addr
  | StateChanged string session_state
  | SessionEnded string string
  | VolumeChanged string f32

record port_allocator =
  pal_base :: u16
  pal_range :: u16
  pal_next :: u16

type_synonym ports = "u16 \<times> u16 \<times> u16"

record session_manager =
  sm_config :: session_manager_config
  sm_active_session :: "receiver_session option"
  sm_sockets :: "ports option"
  sm_port_allocator :: port_allocator
  sm_events :: "session_event list"

text \<open>16-bit additions are checked: \<open>None\<close> is the overflow panic.\<close>

definition u16_add :: "u16 \<Rightarrow> nat \<Rightarrow> u16 option" where
  "u16_add w n = (if unat w + n < 65536 then Some (of_nat (unat w + n)) else None)"

definition allocate_trio :: "port_allocator \<Rightarrow> (port_allocator \<times> ports) option" where
  "allocate_trio p =
     Option.bind (u16_add (pal_next p) 3) (\<lambda>sum.
       let offset = (if sum > pal_range p then 0 else pal_next p)
       in Option.bind (u16_add offset 3) (\<lambda>next'.
          Option.bind (u16_add (pal_base p) (unat offset)) (\<lambda>p0.
          Option.bind (u16_add p0 1) (\<lambda>p1.
          Option.bind (u16_add p0 2) (\<lambda>p2.
            Some (p\<lparr>pal_next := next'\<rparr>, (p0, p1, p2)))))))"

definition manager_new :: "session_manager_config \<Rightarrow> session_manager" where
  "manager_new config =
     \<lparr>sm_config = config, sm_active_session = None, sm_sockets = None,
      sm_port_allocator = \<lparr>pal_base = smc_udp_base_port config, pal_range = smc_udp_port_range config,
                           pal_next = 0\<rparr>,
      sm_events = []\<rparr>"

definition manager_has_active_session :: "session_manager \<Rightarrow> bool" where
  "manager_has_active_session m \<longleftrightarrow> sm_active_session m \<noteq> None"

definition manager_current_session_id :: "session_manager \<Rightarrow> string option" where
  "manager_current_session_id m = map_option rs_id (sm_active_session m)"

definition manager_send :: "session_manager \<Rightarrow> session_event \<Rightarrow> session_manager" where
  "manager_send m e = m\<lparr>sm_events := sm_events m @ [e]\<rparr>"

definition manager_cleanup_sockets :: "session_manager \<Rightarrow> session_manager" where
  "manager_cleanup_sockets m = m\<lparr>sm_sockets := None\<rparr>"

text \<open>\<open>start_session\<close>: the first critical section takes the old session or refuses.\<close>

definition start_session_take ::
    "session_manager \<Rightarrow> session_manager \<times> (session_error, receiver_session option) result" where
  "start_session_take m =
     (case sm_active_session m of
        Some old \<Rightarrow>
          (if smc_preemption_policy (sm_config m) = AllowPreempt
           then (m\<lparr>sm_active_session := None\<rparr>, Inr (Some old))
           else (m, Inl Busy))
      | None \<Rightarrow> (m, Inr None))"

text \<open>
  Without the session lock, the sockets of a session that was taken are dropped and its end is
  reported: the common tail of \<open>start_session\<close>, \<open>end_session\<close> and \<open>enforce_timeouts\<close>.
\<close>

definition manager_report_end :: "session_manager \<Rightarrow> receiver_session \<Rightarrow> string \<Rightarrow> session_manager" where
  "manager_report_end m session reason = manager_send m (SessionEnded (rs_id session) reason)"

definition start_session_cleanup :: "session_manager \<Rightarrow> receiver_session option \<Rightarrow> session_manager" where
  "start_session_cleanup m preempted =
     (case preempted of
        None \<Rightarrow> m
      | Some old \<Rightarrow> manager_report_end (manager_cleanup_sockets m) old ''Preempted by new connection'')"

text \<open>The second critical section installs the new session.\<close>

definition start_session_install ::
    "u64 \<Rightarrow> nat \<Rightarrow> session_manager \<Rightarrow> socket_addr \<Rightarrow> session_manager \<times> (session_error, string) result" where
  "start_session_install random now m client_addr =
     (let install = (\<lambda>m. let session = session_new random now client_addr
            in ((manager_send m (SessionStarted (rs_id session) client_addr))
                  \<lparr>sm_active_session := Some session\<rparr>, Inr (rs_id session)))
      in case sm_active_session m of
           None \<Rightarrow> install m
         | Some existing \<Rightarrow>
             (if smc_preemption_policy (sm_config m) = AllowPreempt
              then install (manager_send m
                     (SessionEnded (rs_id existing) ''Preempted by new connection (race)''))
              else (m, Inl Busy)))"

definition manager_start_session ::
    "u64 \<Rightarrow> nat \<Rightarrow> session_manager \<Rightarrow> socket_addr \<Rightarrow> session_manager \<times> (session_error, string) result" where
  "manager_start_session random now m client_addr =
     (case start_session_take m of
        (m1, Inl e) \<Rightarrow> (m1, Inl e)
      | (m1, Inr preempted) \<Rightarrow>
          start_session_install random now (start_session_cleanup m1 preempted) client_addr)"

text \<open>
  \<open>try_bind_sockets\<close>: the port that each of the three binds got. \<open>os_bind k p\<close> is the
  system's answer to the \<open>k\<close>-th bind, of port \<open>p\<close>; two binds of port 0 may get two ports.
\<close>

definition try_bind_sockets :: "(nat \<Rightarrow> u16 \<Rightarrow> u16 option) \<Rightarrow> ports \<Rightarrow> ports option" where
  "try_bind_sockets os_bind ps =
     (case ps of (ap, cp, tp) \<Rightarrow>
        Option.bind (os_bind 0 ap) (\<lambda>a. Option.bind (os_bind 1 cp) (\<lambda>c.
        Option.bind (os_bind 2 tp) (\<lambda>t. Some (a, c, t)))))"

text \<open>
  The loop of \<open>allocate_sockets\<close>, with \<open>os_bind i\<close> the system's answers in attempt \<open>i\<close>. The
  inner result is \<open>Some ports\<close> when a bind succeeded and \<open>None\<close> when the loop ended without.
\<close>

fun allocate_loop ::
    "(nat \<Rightarrow> nat \<Rightarrow> u16 \<Rightarrow> u16 option) \<Rightarrow> nat \<Rightarrow> ports \<Rightarrow> port_allocator \<Rightarrow>
     (port_allocator \<times> ports option) option" where
  "allocate_loop os_bind 0 ps al = Some (al, None)"
| "allocate_loop os_bind (Suc n) ps al =
     (case try_bind_sockets (os_bind (5 - Suc n)) ps of
        Some bound \<Rightarrow> Some (al, Some bound)
      | None \<Rightarrow>
          Option.bind (allocate_trio al) (\<lambda>(al', (na, _, _)).
            if na = fst ps then Some (al', None) else allocate_loop os_bind n ps al'))"

definition manager_allocate_sockets ::
    "(nat \<Rightarrow> nat \<Rightarrow> u16 \<Rightarrow> u16 option) \<Rightarrow> session_manager \<Rightarrow> (session_manager \<times> ports option) option" where
  "manager_allocate_sockets os_bind m =
     Option.bind (allocate_trio (sm_port_allocator m)) (\<lambda>(al, ps).
       map_option (\<lambda>(al', bound).
         let m1 = m\<lparr>sm_port_allocator := al'\<rparr>
         in case bound of
              Some b \<Rightarrow> (m1\<lparr>sm_sockets := Some b\<rparr>, Some b)
            | None \<Rightarrow>
                (case try_bind_sockets (os_bind 5) (0, 0, 0) of
                   Some b \<Rightarrow> (m1\<lparr>sm_sockets := Some b\<rparr>, Some b)
                 | None \<Rightarrow> (m1, None)))
         (allocate_loop os_bind 5 ps al))"

definition manager_update_state ::
    "nat \<Rightarrow> session_manager \<Rightarrow> session_state \<Rightarrow> session_manager \<times> (session_error, unit) result" where
  "manager_update_state now m new_state =
     (case sm_active_session m of
        None \<Rightarrow> (m, Inl (NotFound ''No active session''))
      | Some session \<Rightarrow>
          (case session_set_state now session new_state of
             Inl e \<Rightarrow> (m, Inl e)
           | Inr session' \<Rightarrow>
               (manager_send (m\<lparr>sm_active_session := Some session'\<rparr>)
                  (StateChanged (rs_id session') new_state), Inr ())))"

definition manager_set_volume :: "nat \<Rightarrow> session_manager \<Rightarrow> f32 \<Rightarrow> session_manager" where
  "manager_set_volume now m volume =
     (case sm_active_session m of
        None \<Rightarrow> m
      | Some session \<Rightarrow>
          (let session' = session_set_volume now session volume
           in manager_send (m\<lparr>sm_active_session := Some session'\<rparr>) (VolumeChanged (rs_id session') volume)))"

text \<open>\<open>end_session\<close>: the critical section takes the session.\<close>

definition end_session_take :: "session_manager \<Rightarrow> session_manager \<times> receiver_session option" where
  "end_session_take m = (m\<lparr>sm_active_session := None\<rparr>, sm_active_session m)"

definition manager_end_session :: "session_manager \<Rightarrow> string \<Rightarrow> session_manager" where
  "manager_end_session m reason =
     (case end_session_take m of
        (m1, None) \<Rightarrow> m1
      | (m1, Some session) \<Rightarrow> manager_report_end (manager_cleanup_sockets m1) session reason)"

definition manager_check_timeout :: "nat \<Rightarrow> session_manager \<Rightarrow> bool" where
  "manager_check_timeout now m =
     (case sm_active_session m of
        None \<Rightarrow> False
      | Some session \<Rightarrow> session_is_timed_out now session (smc_idle_timeout (sm_config m)))"

definition manager_touch_session :: "nat \<Rightarrow> session_manager \<Rightarrow> session_manager" where
  "manager_touch_session now m =
     m\<lparr>sm_active_session := map_option (session_touch now) (sm_active_session m)\<rparr>"

definition manager_with_session ::
    "(receiver_session \<Rightarrow> receiver_session \<times> 'r) \<Rightarrow> session_manager \<Rightarrow>
     session_manager \<times> (session_error, 'r) result" where
  "manager_with_session f m =
     (case sm_active_session m of
        None \<Rightarrow> (m, Inl (NotFound ''No active session''))
      | Some session \<Rightarrow> (case f session of (session', r) \<Rightarrow>
          (m\<lparr>sm_active_session := Some session'\<rparr>, Inr r)))"

text \<open>\<open>enforce_timeouts\<close>: the critical section takes the session and the reason when one is due.\<close>

definition enforce_timeouts_take ::
    "nat \<Rightarrow> session_manager \<Rightarrow> session_manager \<times> (receiver_session \<times> string) option" where
  "enforce_timeouts_take now m =
     (case sm_active_session m of
        None \<Rightarrow> (m, None)
      | Some session \<Rightarrow>
          if session_is_timed_out now session (smc_idle_timeout (sm_config m))
          then (m\<lparr>sm_active_session := None\<rparr>, Some (session, ''Idle timeout''))
          else if smc_max_duration (sm_config m) > 0
                  \<and> session_age now session > smc_max_duration (sm_config m)
          then (m\<lparr>sm_active_session := None\<rparr>, Some (session, ''Maximum duration exceeded''))
          else (m, None))"

definition manager_enforce_timeouts :: "nat \<Rightarrow> session_manager \<Rightarrow> session_manager" where
  "manager_enforce_timeouts now m =
     (case enforce_timeouts_take now m of
        (m1, None) \<Rightarrow> m1
      | (m1, Some (session, reason)) \<Rightarrow>
          manager_report_end (manager_cleanup_sockets m1) session reason)"

section \<open>Concurrent calls\<close>

text \<open>
  The calls run as tasks on one manager and are interleaved between their lock operations: a
  task is what is left to do of a call. \<open>manager_step\<close> is one critical section, one clean-up
  or one report of some task. A closure given to \<open>with_session\<close> uses the methods of the
  session, none of which changes its identifier.
\<close>

datatype manager_task =
    Preempting receiver_session socket_addr
  | Preempt_Reporting receiver_session socket_addr
  | Installing socket_addr
  | Ending receiver_session string
  | End_Reporting receiver_session string

type_synonym manager_world = "session_manager \<times> manager_task multiset"

inductive manager_step :: "manager_world \<Rightarrow> manager_world \<Rightarrow> bool" where
  start_busy: "start_session_take m = (m', Inl e) \<Longrightarrow> manager_step (m, ts) (m', ts)"
| start_preempt: "start_session_take m = (m', Inr (Some old)) \<Longrightarrow>
    manager_step (m, ts) (m', add_mset (Preempting old client) ts)"
| start_free: "start_session_take m = (m', Inr None) \<Longrightarrow>
    manager_step (m, ts) (m', add_mset (Installing client) ts)"
| preempt_cleanup: "manager_step (m, add_mset (Preempting old client) ts)
    (manager_cleanup_sockets m, add_mset (Preempt_Reporting old client) ts)"
| preempt_report: "manager_step (m, add_mset (Preempt_Reporting old client) ts)
    (manager_report_end m old ''Preempted by new connection'', add_mset (Installing client) ts)"
| start_install: "manager_step (m, add_mset (Installing client) ts)
    (fst (start_session_install random now m client), ts)"
| end_none: "end_session_take m = (m', None) \<Longrightarrow> manager_step (m, ts) (m', ts)"
| end_take: "end_session_take m = (m', Some session) \<Longrightarrow>
    manager_step (m, ts) (m', add_mset (Ending session reason) ts)"
| timeout_none: "enforce_timeouts_take now m = (m', None) \<Longrightarrow> manager_step (m, ts) (m', ts)"
| timeout_take: "enforce_timeouts_take now m = (m', Some (session, reason)) \<Longrightarrow>
    manager_step (m, ts) (m', add_mset (Ending session reason) ts)"
| end_cleanup: "manager_step (m, add_mset (Ending session reason) ts)
    (manager_cleanup_sockets m, add_mset (End_Reporting session reason) ts)"
| end_report: "manager_step (m, add_mset (End_Reporting session reason) ts)
    (manager_report_end m session reason, ts)"
| allocate: "manager_allocate_sockets os_bind m = Some (m', r) \<Longrightarrow> manager_step (m, ts) (m', ts)"
| update_state: "manager_step (m, ts) (fst (manager_update_state now m new_state), ts)"
| set_volume: "manager_step (m, ts) (manager_set_volume now m volume, ts)"
| touch: "manager_step (m, ts) (manager_touch_session now m, ts)"
| with_session: "\<forall>s. rs_id (fst (f s)) = rs_id s \<Longrightarrow>
    manager_step (m, ts)
      (fst (manager_with_session (f :: receiver_session \<Rightarrow> receiver_session \<times> unit) m), ts)"

inductive_cases manager_stepE: "manager_step w w'"

text \<open>The sessions that were reported as started, as ended, and that a task is about to report.\<close>

definition started_ids :: "session_event list \<Rightarrow> string list" where
  "started_ids es = concat (map (\<lambda>e. case e of SessionStarted i c \<Rightarrow> [i] | _ \<Rightarrow> []) es)"

definition ended_ids :: "session_event list \<Rightarrow> string list" where
  "ended_ids es = concat (map (\<lambda>e. case e of SessionEnded i r \<Rightarrow> [i] | _ \<Rightarrow> []) es)"

fun task_owes :: "manager_task \<Rightarrow> string multiset" where
  "task_owes (Preempting s c) = {#rs_id s#}"
| "task_owes (Preempt_Reporting s c) = {#rs_id s#}"
| "task_owes (Installing c) = {#}"
| "task_owes (Ending s r) = {#rs_id s#}"
| "task_owes (End_Reporting s r) = {#rs_id s#}"

definition events_balanced :: "manager_world \<Rightarrow> bool" where
  "events_balanced w =
     (case w of (m, ts) \<Rightarrow>
        mset (started_ids (sm_events m)) =
          mset (ended_ids (sm_events m)) + mset (map rs_id (case sm_active_session m of None \<Rightarrow> [] | Some s \<Rightarrow> [s]))
          + \<Sum>\<^sub># (image_mset task_owes ts))"

section \<open>Lemmas\<close>

lemma started_ids_simps [simp]:
  "started_ids [] = []"
  "started_ids (es @ es') = started_ids es @ started_ids es'"
  "started_ids (SessionStarted i c # es) = i # started_ids es"
  "started_ids (SessionEnded i r # es) = started_ids es"
  "started_ids (StateChanged i st # es) = started_ids es"
  "started_ids (VolumeChanged i v # es) = started_ids es"
  by (simp_all add: started_ids_def)

lemma ended_ids_simps [simp]:
  "ended_ids [] = []"
  "ended_ids (es @ es') = ended_ids es @ ended_ids es'"
  "ended_ids (SessionStarted i c # es) = ended_ids es"
  "ended_ids (SessionEnded i r # es) = i # ended_ids es"
  "ended_ids (StateChanged i st # es) = ended_ids es"
  "ended_ids (VolumeChanged i v # es) = ended_ids es"
  by (simp_all add: ended_ids_def)

lemmas session_defs = session_new_def session_touch_def session_set_state_def session_set_volume_def

lemmas manager_defs = manager_send_def manager_report_end_def manager_cleanup_sockets_def
  manager_update_state_def manager_set_volume_def manager_touch_session_def manager_with_session_def

lemma allocate_keeps:
  assumes "manager_allocate_sockets os_bind m = Some (m', r)"
  shows "sm_active_session m' = sm_active_session m \<and> sm_events m' = sm_events m"
  using assms by (auto simp: manager_allocate_sockets_def Let_def bind_eq_Some_conv split: option.splits)

lemma install_balanced:
  "events_balanced (m, ts) \<Longrightarrow> events_balanced (fst (start_session_install random now m client), ts)"
  by (auto simp: start_session_install_def events_balanced_def manager_defs session_new_def split: option.splits)

lemma manager_step_balanced: "manager_step w w' \<Longrightarrow> events_balanced w \<Longrightarrow> events_balanced w'"
proof (induction rule: manager_step.induct)
  case (start_install m client ts random now)
  then have "events_balanced (m, ts)" by (simp add: events_balanced_def)
  then show ?case by (rule install_balanced)
next
  case (allocate os_bind m m' r ts)
  then show ?case using allocate_keeps by (simp add: events_balanced_def)
next
  case (update_state m ts now new_state)
  then show ?case
    by (auto simp: events_balanced_def manager_defs session_defs split: option.splits)
next
  case (with_session f m ts)
  then show ?case
    by (auto simp: events_balanced_def manager_defs split: option.splits prod.splits) (metis fst_conv)
qed (auto simp: start_session_take_def end_session_take_def enforce_timeouts_take_def events_balanced_def
      manager_defs session_defs split: option.splits if_splits)

interpretation sessions: guarded_machine manager_step "\<lambda>w. \<exists>config. w = (manager_new config, {#})" events_balanced
proof unfold_locales
  fix w :: manager_world
  assume "\<exists>config. w = (manager_new config, {#})"
  then show "events_balanced w" by (auto simp: events_balanced_def manager_new_def)
qed (rule manager_step_balanced)

text \<open>Every call that is under way can finish.\<close>

lemma task_finishes: "\<exists>m'. manager_step\<^sup>*\<^sup>* (m, add_mset t ts) (m', ts)"
proof (cases t)
  case (Preempting old client)
  then show ?thesis
    by (meson converse_rtranclp_into_rtranclp preempt_cleanup preempt_report start_install rtranclp.rtrancl_refl)
next
  case (Preempt_Reporting old client)
  then show ?thesis
    by (meson converse_rtranclp_into_rtranclp preempt_report start_install rtranclp.rtrancl_refl)
next
  case (Ending session reason)
  then show ?thesis
    by (meson converse_rtranclp_into_rtranclp end_cleanup end_report rtranclp.rtrancl_refl)
qed (meson r_into_rtranclp start_install end_report)+

lemma tasks_finish: "\<exists>m'. manager_step\<^sup>*\<^sup>* (m, ts) (m', {#})"
proof (induction ts arbitrary: m)
  case (add t ts)
  then show ?case using task_finishes rtranclp_trans by metis
qed auto

subsection \<open>States\<close>

text \<open>The transitions that \<open>set_state\<close> accepts.\<close>

definition session_trans :: "session_state \<Rightarrow> session_state \<Rightarrow> bool" where
  "session_trans s n \<longleftrightarrow>
     (\<exists>session session' now. rs_state session = s \<and> session_set_state now session n = Inr session'
        \<and> rs_state session' = n)"

abbreviation session_step where "session_step \<equiv> trace_step session_trans"

lemma session_trans_iff: "session_trans s n \<longleftrightarrow> can_transition_to s n"
proof
  assume "can_transition_to s n"
  define session where "session = (session_new 0 0 (SocketV4 0 0))\<lparr>rs_state := s\<rparr>"
  have "session_set_state 0 session n = Inr (session_touch 0 (session\<lparr>rs_state := n\<rparr>))"
    using \<open>can_transition_to s n\<close> by (simp add: session_def session_set_state_def)
  moreover have "rs_state session = s" and "rs_state (session_touch 0 (session\<lparr>rs_state := n\<rparr>)) = n"
    by (simp_all add: session_def session_touch_def)
  ultimately show "session_trans s n" unfolding session_trans_def by blast
qed (auto simp: session_trans_def session_defs split: if_splits)

fun session_required :: "session_state \<Rightarrow> session_state list" where
  "session_required Announced = [Announced]"
| "session_required Setup = [Announced, Setup]"
| "session_required Streaming = [Announced, Setup, Streaming]"
| "session_required Paused = [Announced, Setup, Streaming]"
| "session_required _ = []"

interpretation session_stages: staged_machine session_trans Connected session_required
proof unfold_locales
  fix s t assume "session_trans s t"
  then have "can_transition_to s t" by (simp add: session_trans_iff)
  then show "prefix (session_required t) (session_required s) \<or> session_required t = session_required s @ [t]"
    by (cases s) auto
qed simp

lemma session_torn_down:
  "session_step\<^sup>*\<^sup>* ([], Connected) (trace, s) \<Longrightarrow> Teardown \<in> set trace \<Longrightarrow> \<not> session_state_is_valid s"
proof (induction "(trace, s)" arbitrary: trace s rule: rtranclp_induct)
  case (step y)
  then obtain tr u where "y = (tr, u)" "trace = tr @ [s]" "can_transition_to u s"
    by (auto elim!: trace_stepE simp: session_trans_iff)
  with step show ?case by (cases u) (auto simp: session_state_is_valid_def)
qed simp

subsection \<open>Ports\<close>

primrec allocator_after :: "port_allocator \<Rightarrow> nat \<Rightarrow> port_allocator option" where
  "allocator_after p 0 = Some p"
| "allocator_after p (Suc n) = Option.bind (allocator_after p n) (\<lambda>q. map_option fst (allocate_trio q))"

lemma u16_add_eq: "unat w + n < 65536 \<Longrightarrow> u16_add w n = Some (of_nat (unat w + n))"
  by (simp add: u16_add_def)

lemma unat_u16: "n < 65536 \<Longrightarrow> unat (of_nat n :: u16) = n"
  by (rule unat_of_nat_small) simp

lemma allocate_trio_eq:
  assumes "unat (pal_next p) \<le> unat (pal_range p)" and "3 \<le> unat (pal_range p)"
    and "unat (pal_range p) \<le> 65532" and "unat (pal_base p) + unat (pal_range p) \<le> 65536"
  defines "off \<equiv> if unat (pal_next p) + 3 > unat (pal_range p) then 0 else unat (pal_next p)"
  shows "allocate_trio p = Some (p\<lparr>pal_next := of_nat (off + 3)\<rparr>,
           (of_nat (unat (pal_base p) + off), of_nat (unat (pal_base p) + off + 1),
            of_nat (unat (pal_base p) + off + 2)))"
proof -
  have next3: "unat (pal_next p) + 3 < 65536" using assms by linarith
  have "(of_nat (unat (pal_next p) + 3) :: u16) > pal_range p
        \<longleftrightarrow> unat (pal_next p) + 3 > unat (pal_range p)"
    by (simp only: word_less_nat_alt unat_u16 [OF next3])
  then have off: "(if (of_nat (unat (pal_next p) + 3) :: u16) > pal_range p then 0 else pal_next p) = of_nat off"
    by (simp add: off_def)
  have bounds: "off + 3 \<le> unat (pal_range p)" using assms by (auto simp: off_def)
  then have small: "off + 3 < 65536" "unat (pal_base p) + off + 2 < 65536" "off < 65536"
    using assms(3,4) by linarith+
  note add = u16_add_eq unat_u16 small
  have "u16_add (pal_next p) 3 = Some (of_nat (unat (pal_next p) + 3))" by (rule u16_add_eq [OF next3])
  moreover have "u16_add (of_nat off) 3 = Some (of_nat (off + 3))"
    by (metis add(1,2,3,5))
  moreover have "u16_add (pal_base p) (unat (of_nat off :: u16)) = Some (of_nat (unat (pal_base p) + off))"
    using small by (simp add: unat_u16 u16_add_eq del: of_nat_add)
  moreover have "u16_add (of_nat (unat (pal_base p) + off)) k = Some (of_nat (unat (pal_base p) + off + k))"
    if "k \<le> 2" for k
    using small that by (simp add: unat_u16 u16_add_eq del: of_nat_add)
  ultimately show ?thesis
    unfolding allocate_trio_def Let_def off_def [symmetric]
    by (simp only: off Option.bind.simps)
qed

lemma slot_bounds:
  fixes x r :: nat
  assumes "x < r div 3"
  shows "3 * x + 3 \<le> r" and "3 * x + 3 + 3 > r \<longleftrightarrow> Suc x = r div 3"
  using assms by presburger+

definition trio_offset :: "port_allocator \<Rightarrow> nat" where
  "trio_offset p = (if unat (pal_next p) + 3 > unat (pal_range p) then 0 else unat (pal_next p))"

definition allocator_ok :: "port_allocator \<Rightarrow> bool" where
  "allocator_ok p \<longleftrightarrow> unat (pal_next p) \<le> unat (pal_range p) \<and> 3 \<le> unat (pal_range p)
     \<and> unat (pal_range p) \<le> 65532 \<and> unat (pal_base p) + unat (pal_range p) \<le> 65536"

lemma allocate_trio_offset:
  "allocator_ok p \<Longrightarrow> allocate_trio p = Some (p\<lparr>pal_next := of_nat (trio_offset p + 3)\<rparr>,
     (of_nat (unat (pal_base p) + trio_offset p), of_nat (unat (pal_base p) + trio_offset p + 1),
      of_nat (unat (pal_base p) + trio_offset p + 2)))"
  unfolding allocator_ok_def trio_offset_def by (rule allocate_trio_eq) simp_all

lemma trio_offset_next:
  assumes "unat (pal_next q) = 3 * (k mod (unat (pal_range q) div 3)) + 3" and "3 \<le> unat (pal_range q)"
  shows "trio_offset q = 3 * (Suc k mod (unat (pal_range q) div 3))"
proof -
  let ?n = "unat (pal_range q) div 3"
  have "0 < ?n" using assms(2) by simp
  then have lt: "k mod ?n < ?n" by simp
  from slot_bounds(2) [OF lt] show ?thesis using assms(1) by (auto simp: trio_offset_def mod_Suc)
qed

lemma allocator_after_eq:
  assumes "pal_next p = 0" and "3 \<le> unat (pal_range p)" and "unat (pal_range p) \<le> 65532"
    and "unat (pal_base p) + unat (pal_range p) \<le> 65536"
  shows "\<exists>q. allocator_after p k = Some q \<and> pal_range q = pal_range p \<and> pal_base q = pal_base p
           \<and> unat (pal_next q) \<le> unat (pal_range p)
           \<and> trio_offset q = 3 * (k mod (unat (pal_range p) div 3))"
proof (induction k)
  case 0
  then show ?case using assms by (simp add: trio_offset_def)
next
  case (Suc k)
  let ?r = "unat (pal_range p)"
  let ?o = "3 * (k mod (?r div 3))"
  obtain q where q: "allocator_after p k = Some q" "pal_range q = pal_range p" "pal_base q = pal_base p"
      "unat (pal_next q) \<le> ?r" "trio_offset q = ?o"
    using Suc by blast
  have "0 < ?r div 3" using assms(2) by simp
  then have "k mod (?r div 3) < ?r div 3" by simp
  then have le: "?o + 3 \<le> ?r" by (rule slot_bounds)
  let ?q = "q\<lparr>pal_next := of_nat (?o + 3)\<rparr>"
  have "unat (pal_next ?q) = ?o + 3" using le assms(3) unat_u16 [of "?o + 3"] by simp
  moreover from this have "trio_offset ?q = 3 * (Suc k mod (?r div 3))"
    using trio_offset_next [of ?q k] assms(2) q by simp
  moreover have "allocator_after p (Suc k) = Some ?q"
    using allocate_trio_offset [of q] q assms by (simp add: allocator_ok_def)
  ultimately show ?case using le q by (intro exI [of _ ?q]) simp
qed

lemma allocate_trio_ok: "allocator_ok p \<Longrightarrow> \<exists>q ps. allocate_trio p = Some (q, ps) \<and> allocator_ok q"
  using allocate_trio_eq [of p] by (auto simp: allocator_ok_def unat_u16 simp del: of_nat_add)

lemma allocate_loop_total: "allocator_ok al \<Longrightarrow> \<exists>al' b. allocate_loop os_bind n ps al = Some (al', b)"
proof (induction n arbitrary: al)
  case (Suc n)
  then obtain q qs where "allocate_trio al = Some (q, qs)" "allocator_ok q" using allocate_trio_ok by blast
  with Suc.IH [of q] show ?case by (cases qs) (auto split: option.splits)
qed simp

lemma allocate_loop_refused:
  assumes "\<forall>i. os_bind i 0 (fst ps) = None" and "allocate_loop os_bind n ps al = Some (al', b)"
  shows "b = None"
  using assms(2)
proof (induction n arbitrary: al)
  case (Suc n)
  have "try_bind_sockets (os_bind (5 - Suc n)) ps = None"
    using assms(1) by (auto simp: try_bind_sockets_def split: prod.splits)
  with Suc show ?case by (auto simp: bind_eq_Some_conv split: if_splits)
qed simp

section \<open>Properties\<close>

text \<open>
  C25. Whatever the interleaving of starts, preemptions, ends, timeouts and other calls: every
  call under way can finish, and once all have, the sessions that were reported as started are
  exactly those reported as ended, each once, and the active one.
\<close>

theorem manager_reports_every_session:
  assumes "manager_step\<^sup>*\<^sup>* (manager_new config, {#}) (m, ts)"
  shows "\<exists>m'. manager_step\<^sup>*\<^sup>* (m, ts) (m', {#})
           \<and> mset (started_ids (sm_events m')) =
               mset (ended_ids (sm_events m'))
               + (case manager_current_session_id m' of None \<Rightarrow> {#} | Some i \<Rightarrow> {#i#})"
proof -
  obtain m' where m': "manager_step\<^sup>*\<^sup>* (m, ts) (m', {#})" using tasks_finish by blast
  then have "manager_step\<^sup>*\<^sup>* (manager_new config, {#}) (m', {#})" using assms by (rule rtranclp_trans [rotated])
  then have "events_balanced (m', {#})" by (blast intro: sessions.reachable_safe)
  with m' show ?thesis
    by (auto simp: events_balanced_def manager_current_session_id_def split: option.splits)
qed

text \<open>A first connection that is preempted by a second one.\<close>

definition demo_client :: "u16 \<Rightarrow> socket_addr" where
  "demo_client port = SocketV4 0x7F000001 port"

definition demo_first :: session_manager where
  "demo_first = fst (manager_start_session 1 0 (manager_new session_manager_config_default) (demo_client 1))"

lemma start_free_steps:
  assumes "sm_active_session m = None"
  shows "manager_step\<^sup>*\<^sup>* (m, ts) (fst (start_session_install random now m client), ts)"
  using assms start_free [of m m ts client] start_install [of m client ts random now]
  by (auto simp: start_session_take_def)

lemma demo_first_reachable:
  "manager_step\<^sup>*\<^sup>* (manager_new session_manager_config_default, {#}) (demo_first, {#})"
  using start_free_steps [of "manager_new session_manager_config_default" "{#}" 1 0 "demo_client 1"]
  by (simp add: demo_first_def manager_start_session_def start_session_take_def start_session_cleanup_def manager_new_def)

theorem manager_reports_every_session_witness:
  "\<exists>m'. manager_step\<^sup>*\<^sup>* (demo_first, {#}) (m', {#})
      \<and> mset (started_ids (sm_events m')) =
          mset (ended_ids (sm_events m'))
          + (case manager_current_session_id m' of None \<Rightarrow> {#} | Some i \<Rightarrow> {#i#})"
  using manager_reports_every_session [OF demo_first_reachable] .

text \<open>
  An allocator with room for at least one trio hands out disjoint trios in turn: the
  \<open>k\<close>-th call returns the three consecutive ports from \<open>base + 3 * (k mod (range div 3))\<close>,
  all inside the range, and never overflows.
\<close>

theorem allocator_trios:
  assumes "pal_next p = 0" and "3 \<le> unat (pal_range p)" and "unat (pal_range p) \<le> 65532"
    and "unat (pal_base p) + unat (pal_range p) \<le> 65536"
  defines "first \<equiv> \<lambda>k. unat (pal_base p) + 3 * (k mod (unat (pal_range p) div 3))"
  shows "\<exists>q q'. allocator_after p k = Some q
           \<and> allocate_trio q = Some (q', (of_nat (first k), of_nat (first k + 1), of_nat (first k + 2)))
           \<and> first k + 3 \<le> unat (pal_base p) + unat (pal_range p)"
proof -
  obtain q where q: "allocator_after p k = Some q" "pal_range q = pal_range p" "pal_base q = pal_base p"
      "unat (pal_next q) \<le> unat (pal_range p)" "trio_offset q = 3 * (k mod (unat (pal_range p) div 3))"
    using allocator_after_eq [OF assms(1-4)] by blast
  have "0 < unat (pal_range p) div 3" using assms(2) by simp
  then have "k mod (unat (pal_range p) div 3) < unat (pal_range p) div 3" by simp
  then have "3 * (k mod (unat (pal_range p) div 3)) + 3 \<le> unat (pal_range p)" by (rule slot_bounds)
  then show ?thesis
    using allocate_trio_offset [of q] q assms(2-4) by (simp add: first_def allocator_ok_def del: of_nat_add)
qed

theorem allocator_trios_witness:
  "\<exists>q q'. allocator_after \<lparr>pal_base = 6000, pal_range = 100, pal_next = 0\<rparr> 34 = Some q
     \<and> allocate_trio q = Some (q', (6003, 6004, 6005))"
  using allocator_trios [of "\<lparr>pal_base = 6000, pal_range = 100, pal_next = 0\<rparr>" 34] by auto

text \<open>
  \<open>allocate_sockets\<close> never panics on a valid allocator, but its retries do not use the
  ports they allocate: when the system refuses the audio port of the first trio, the result is
  that of the fallback to ports chosen by the system, whatever other port of the range is free.
\<close>

theorem allocate_retries_same_ports:
  assumes "allocator_ok (sm_port_allocator m)" and "allocate_trio (sm_port_allocator m) = Some (al, ps)"
    and "\<forall>i. os_bind i 0 (fst ps) = None"
  shows "\<exists>m'. manager_allocate_sockets os_bind m = Some (m', try_bind_sockets (os_bind 5) (0, 0, 0))"
proof -
  have "allocator_ok al" using allocate_trio_ok [OF assms(1)] assms(2) by auto
  then obtain al' b where loop: "allocate_loop os_bind 5 ps al = Some (al', b)"
    using allocate_loop_total by blast
  moreover have "b = None" by (rule allocate_loop_refused [of os_bind ps, OF assms(3) loop])
  ultimately show ?thesis
    using assms(2) by (auto simp: manager_allocate_sockets_def Let_def split: option.splits)
qed

definition demo_bind :: "nat \<Rightarrow> nat \<Rightarrow> u16 \<Rightarrow> u16 option" where
  "demo_bind i k p = (if p = 6000 then None else if p = 0 then Some (50000 + of_nat k) else Some p)"

lemma demo_trio:
  "\<exists>al. allocate_trio (sm_port_allocator (manager_new session_manager_config_default)) = Some (al, (6000, 6001, 6002))"
  "allocator_ok (sm_port_allocator (manager_new session_manager_config_default))"
  by (simp_all add: manager_new_def session_manager_config_default_def allocate_trio_def u16_add_def allocator_ok_def)

theorem allocate_retries_same_ports_witness:
  "\<exists>m'. manager_allocate_sockets demo_bind (manager_new session_manager_config_default)
     = Some (m', Some (50000, 50001, 50002))"
proof -
  obtain al where "allocate_trio (sm_port_allocator (manager_new session_manager_config_default))
      = Some (al, (6000, 6001, 6002))"
    using demo_trio(1) by blast
  from allocate_retries_same_ports [OF demo_trio(2) this, of demo_bind] show ?thesis
    by (simp add: demo_bind_def try_bind_sockets_def)
qed

lemmas demo_defs = demo_first_def manager_start_session_def start_session_take_def start_session_cleanup_def
  start_session_install_def end_session_take_def manager_new_def manager_send_def session_manager_config_default_def
  Let_def

lemma last_session_id: "last (generate_session_id r) = hex_digit (unat (r AND 0xF))"
  by (simp add: generate_session_id_def last_map last_rev)

lemma demo_ids: "generate_session_id 1 \<noteq> generate_session_id 2"
proof
  assume "generate_session_id 1 = generate_session_id 2"
  then have "hex_digit (unat ((1 :: u64) AND 0xF)) = hex_digit (unat ((2 :: u64) AND 0xF))"
    using last_session_id by metis
  then show False by (simp add: hex_digit_def)
qed

lemma allocate_free:
  assumes "allocator_ok (sm_port_allocator m)"
  shows "\<exists>m' r. manager_allocate_sockets (\<lambda>i k p. Some p) m = Some (m', Some r) \<and> sm_sockets m' = Some r"
  using allocate_trio_ok [OF assms]
  by (auto simp: manager_allocate_sockets_def try_bind_sockets_def numeral_eq_Suc split: prod.splits)

text \<open>
  The sockets of a session can be dropped by the end of an earlier one: \<open>end_session\<close>
  takes the first session, a second one starts and allocates its sockets, and then the
  clean-up of the first call runs. The second session is still active, all calls have
  finished, and it has no sockets.
\<close>

theorem late_cleanup_drops_sockets:
  "\<exists>m m' old reason s ps.
     manager_step\<^sup>*\<^sup>* (manager_new session_manager_config_default, {#}) (m, {#Ending old reason#})
     \<and> sm_active_session m = Some s \<and> rs_id old \<noteq> rs_id s \<and> sm_sockets m = Some ps
     \<and> manager_step\<^sup>*\<^sup>* (m, {#Ending old reason#}) (m', {#})
     \<and> sm_active_session m' = Some s \<and> sm_sockets m' = None"
proof -
  let ?old = "session_new 1 0 (demo_client 1)"
  let ?ts = "{#Ending ?old ''bye''#}"
  let ?m1 = "fst (end_session_take demo_first)"
  let ?m2 = "fst (start_session_install 2 0 ?m1 (demo_client 2))"
  have active: "sm_active_session demo_first = Some ?old" by (simp add: demo_defs)
  have "manager_step (demo_first, {#}) (?m1, ?ts)"
    using end_take [of demo_first ?m1 ?old "{#}" "''bye''"] active by (simp add: end_session_take_def)
  moreover have "manager_step\<^sup>*\<^sup>* (?m1, ?ts) (?m2, ?ts)"
    by (rule start_free_steps) (simp add: end_session_take_def)
  ultimately have two: "manager_step\<^sup>*\<^sup>* (manager_new session_manager_config_default, {#}) (?m2, ?ts)"
    using demo_first_reachable by (meson rtranclp.rtrancl_into_rtrancl rtranclp_trans)
  have s2: "sm_active_session ?m2 = Some (session_new 2 0 (demo_client 2))" by (simp add: demo_defs)
  have "allocator_ok (sm_port_allocator ?m2)" by (simp add: demo_defs allocator_ok_def)
  then obtain m3 r where m3: "manager_allocate_sockets (\<lambda>i k p. Some p) ?m2 = Some (m3, Some r)"
      "sm_sockets m3 = Some r"
    using allocate_free by blast
  have keep: "sm_active_session m3 = sm_active_session ?m2" using allocate_keeps [OF m3(1)] by simp
  let ?m4 = "manager_report_end (manager_cleanup_sockets m3) ?old ''bye''"
  have "manager_step\<^sup>*\<^sup>* (m3, ?ts) (?m4, {#})"
    by (meson converse_rtranclp_into_rtranclp end_cleanup end_report rtranclp.rtrancl_refl)
  moreover have "manager_step\<^sup>*\<^sup>* (manager_new session_manager_config_default, {#}) (m3, ?ts)"
    using two allocate [OF m3(1), of ?ts] by (rule rtranclp.rtrancl_into_rtrancl)
  moreover have "rs_id ?old \<noteq> rs_id (session_new 2 0 (demo_client 2))"
    by (simp add: session_new_def demo_ids)
  moreover have "sm_active_session ?m4 = sm_active_session m3" and "sm_sockets ?m4 = None"
    by (simp_all add: manager_defs)
  ultimately show ?thesis using m3(2) keep s2 by metis
qed

text \<open>
  A session streams or is paused only after it was announced and set up, and a session
  that was torn down stays so: the trace of the states that \<open>set_state\<close> accepted holds
  \<open>Announced\<close>, \<open>Setup\<close> and \<open>Streaming\<close> in this order; with \<open>Teardown\<close> in the trace the
  session is in \<open>Teardown\<close> or \<open>Closed\<close>.
\<close>

theorem session_streams_after_setup:
  assumes "session_step\<^sup>*\<^sup>* ([], Connected) (trace, s)"
  shows "(session_state_is_active s \<longrightarrow> subseq [Announced, Setup, Streaming] trace)
    \<and> (Teardown \<in> set trace \<longrightarrow> \<not> session_state_is_valid s)"
  using session_stages.reachable_required [OF assms] session_torn_down [OF assms]
  by (auto simp: session_state_is_active_def)

lemma demo_session_reachable:
  "session_step\<^sup>*\<^sup>* ([], Connected) ([Announced, Setup, Streaming, Paused], Paused)"
  using follows_steps [of session_trans Connected "[Announced, Setup, Streaming, Paused]" "[]"]
  by (simp add: session_trans_iff)

lemma demo_session_torn:
  "session_step\<^sup>*\<^sup>* ([], Connected) ([Announced, Teardown], Teardown)"
  using follows_steps [of session_trans Connected "[Announced, Teardown]" "[]"]
  by (simp add: session_trans_iff)

theorem session_streams_after_setup_witness:
  "subseq [Announced, Setup, Streaming] [Announced, Setup, Streaming, Paused]
   \<and> \<not> session_state_is_valid Teardown"
  using session_streams_after_setup [OF demo_session_reachable]
    session_streams_after_setup [OF demo_session_torn]
  by (simp add: session_state_is_active_def)

end
