(* ===== verification/Rust_Text.thy ===== *)
theory Rust_Text
  imports Prelude
begin

text \<open>
  The string functions of Rust's standard library that the text protocols of the program
  use. A \<open>String\<close> is the list of its UTF-8 bytes, as in Rust: \<open>as_bytes\<close> is the identity and
  \<open>from_utf8\<close> a check. White space is Unicode white space, recognised on the bytes; upper
  case is exact on every character whose upper case has an ASCII letter, which is all that
  a comparison with ASCII names can see.
\<close>

type_synonym str = bytes

definition ascii :: "string \<Rightarrow> str" where
  "ascii s = map (\<lambda>c. of_char c) s"

lemma ascii_eq_Nil [simp]: "ascii s = [] \<longleftrightarrow> s = []"
  by (simp add: ascii_def)

section \<open>UTF-8\<close>

definition utf8_cont :: "bytes \<Rightarrow> nat \<Rightarrow> bool" where
  "utf8_cont bs i \<longleftrightarrow> i < length bs \<and> 0x80 \<le> bs ! i \<and> bs ! i \<le> 0xBF"

definition utf8_second :: "bytes \<Rightarrow> bool" where
  "utf8_second bs \<longleftrightarrow>
     1 < length bs
     \<and> (if hd bs = 0xE0 then 0xA0 else if hd bs = 0xF0 then 0x90 else 0x80) \<le> bs ! 1
     \<and> bs ! 1 \<le> (if hd bs = 0xED then 0x9F else if hd bs = 0xF4 then 0x8F else 0xBF)"

text \<open>
  The first character: \<open>(True, n)\<close> when \<open>n\<close> bytes are a valid one, \<open>(False, n)\<close> when \<open>n\<close> bytes
  are the part that \<open>from_utf8_lossy\<close> replaces.
\<close>

definition utf8_step :: "bytes \<Rightarrow> bool \<times> nat" where
  "utf8_step bs =
     (let b = hd bs in
      if b < 0x80 then (True, 1)
      else if 0xC2 \<le> b \<and> b \<le> 0xDF then (if utf8_cont bs 1 then (True, 2) else (False, 1))
      else if 0xE0 \<le> b \<and> b \<le> 0xEF
      then (if utf8_second bs
            then (if utf8_cont bs 2 then (True, 3) else (False, 2)) else (False, 1))
      else if 0xF0 \<le> b \<and> b \<le> 0xF4
      then (if utf8_second bs
            then (if utf8_cont bs 2 then (if utf8_cont bs 3 then (True, 4) else (False, 3)) else (False, 2))
            else (False, 1))
      else (False, 1))"

lemma utf8_step_pos: "0 < snd (utf8_step bs)"
  by (simp add: utf8_step_def Let_def)

function utf8_valid :: "bytes \<Rightarrow> bool" where
  "utf8_valid bs =
     (if bs = [] then True else case utf8_step bs of (ok, n) \<Rightarrow> ok \<and> utf8_valid (drop n bs))"
  by pat_completeness auto

termination
proof (relation "measure length")
  fix bs :: bytes and x y
  assume "bs \<noteq> []" and "(x, y) = utf8_step bs"
  then show "(drop y bs, bs) \<in> measure length"
    using utf8_step_pos [of bs] by (metis diff_less in_measure length_drop length_greater_0_conv snd_conv)
qed simp

function from_utf8_lossy :: "bytes \<Rightarrow> str" where
  "from_utf8_lossy bs =
     (if bs = [] then []
      else case utf8_step bs of (ok, n) \<Rightarrow>
        (if ok then take n bs else [0xEF, 0xBF, 0xBD]) @ from_utf8_lossy (drop n bs))"
  by pat_completeness auto

termination
proof (relation "measure length")
  fix bs :: bytes and x y
  assume "bs \<noteq> []" and "(x, y) = utf8_step bs"
  then show "(drop y bs, bs) \<in> measure length"
    using utf8_step_pos [of bs] by (metis diff_less in_measure length_drop length_greater_0_conv snd_conv)
qed simp

declare utf8_valid.simps [simp del] from_utf8_lossy.simps [simp del]

lemma utf8_valid_Nil [simp]: "utf8_valid []"
  by (simp add: utf8_valid.simps)

lemma from_utf8_lossy_valid: "utf8_valid bs \<Longrightarrow> from_utf8_lossy bs = bs"
proof (induction bs rule: utf8_valid.induct)
  case (1 bs)
  show ?case
  proof (cases "bs = []")
    case False
    obtain n where n: "utf8_step bs = (True, n)" "utf8_valid (drop n bs)"
      using 1(2) False by (auto simp: utf8_valid.simps [of bs] split: prod.splits)
    with 1(1) [OF False n(1) [symmetric]] False show ?thesis by (subst from_utf8_lossy.simps) simp
  qed (simp add: from_utf8_lossy.simps)
qed

text \<open>A valid character is recognised whatever bytes follow, so valid strings can be joined.\<close>

lemma utf8_cont_append: "utf8_cont bs i \<Longrightarrow> utf8_cont (bs @ cs) i \<and> Suc i \<le> length bs"
  by (auto simp: utf8_cont_def nth_append)

lemma utf8_second_append: "utf8_second bs \<Longrightarrow> utf8_second (bs @ cs)"
  by (cases bs) (auto simp: utf8_second_def nth_append split: if_splits)

lemma utf8_step_append:
  assumes "bs \<noteq> []" and "utf8_step bs = (True, n)"
  shows "n \<le> length bs \<and> utf8_step (bs @ cs) = (True, n)"
proof -
  have "hd (bs @ cs) = hd bs" and "1 \<le> length bs" using assms(1) by (simp_all add: Suc_le_eq)
  then show ?thesis
    using assms(2) utf8_cont_append [of bs 1 cs] utf8_cont_append [of bs 2 cs] utf8_cont_append [of bs 3 cs]
      utf8_second_append [of bs cs]
    unfolding utf8_step_def Let_def by (simp split: if_split_asm)
qed

lemma utf8_valid_append: "utf8_valid bs \<Longrightarrow> utf8_valid cs \<Longrightarrow> utf8_valid (bs @ cs)"
proof (induction bs rule: utf8_valid.induct)
  case (1 bs)
  show ?case
  proof (cases "bs = []")
    case False
    obtain n where n: "utf8_step bs = (True, n)" "utf8_valid (drop n bs)"
      using 1(2) False by (auto simp: utf8_valid.simps [of bs] split: prod.splits)
    have "utf8_valid (drop n bs @ cs)" using 1(1) [OF False n(1) [symmetric]] n 1(3) by simp
    with utf8_step_append [OF False n(1), of cs] False show ?thesis
      by (simp add: utf8_valid.simps [of "bs @ cs"])
  qed (use 1 in simp)
qed


lemma utf8_valid_Cons [simp]: "b < 0x80 \<Longrightarrow> utf8_valid (b # bs) \<longleftrightarrow> utf8_valid bs"
proof -
  assume "b < 0x80"
  then have "utf8_step (b # bs) = (True, 1)" by (simp add: utf8_step_def)
  then show ?thesis by (simp add: utf8_valid.simps [of "b # bs"])
qed

lemma utf8_valid_ascii: "list_all (\<lambda>b. b < 0x80) bs \<Longrightarrow> utf8_valid bs"
  by (induction bs) simp_all

section \<open>White space\<close>

text \<open>The number of bytes of the white-space character at the front; 0 when there is none.\<close>

definition ws_ascii :: "u8 \<Rightarrow> bool" where
  "ws_ascii b \<longleftrightarrow> b = 32 \<or> 9 \<le> b \<and> b \<le> 13"

definition ws_wide2 :: "bytes list" where
  "ws_wide2 = [[0xC2, 0x85], [0xC2, 0xA0]]"

definition ws_wide3 :: "bytes list" where
  "ws_wide3 = [[0xE1, 0x9A, 0x80], [0xE2, 0x80, 0xA8], [0xE2, 0x80, 0xA9], [0xE2, 0x80, 0xAF],
     [0xE2, 0x81, 0x9F], [0xE3, 0x80, 0x80], [0xE2, 0x80, 0x80], [0xE2, 0x80, 0x81], [0xE2, 0x80, 0x82],
     [0xE2, 0x80, 0x83], [0xE2, 0x80, 0x84], [0xE2, 0x80, 0x85], [0xE2, 0x80, 0x86], [0xE2, 0x80, 0x87],
     [0xE2, 0x80, 0x88], [0xE2, 0x80, 0x89], [0xE2, 0x80, 0x8A]]"

definition ws_len :: "bytes \<Rightarrow> nat" where
  "ws_len bs =
     (if bs = [] then 0 else if ws_ascii (hd bs) then 1
      else if take 2 bs \<in> set ws_wide2 then 2
      else if take 3 bs \<in> set ws_wide3 then 3 else 0)"

text \<open>The same at the end, on the reversed bytes.\<close>

definition ws_rev_len :: "bytes \<Rightarrow> nat" where
  "ws_rev_len bs =
     (if bs = [] then 0 else if ws_ascii (hd bs) then 1
      else if rev (take 2 bs) \<in> set ws_wide2 then 2
      else if rev (take 3 bs) \<in> set ws_wide3 then 3 else 0)"

function strip :: "(bytes \<Rightarrow> nat) \<Rightarrow> bytes \<Rightarrow> bytes" where
  "strip f bs = (if bs = [] \<or> f bs = 0 then bs else strip f (drop (f bs) bs))"
  by pat_completeness auto

termination
  by (relation "measure (\<lambda>(f, bs). length bs)") (auto simp: neq_Nil_conv)

declare strip.simps [simp del]

definition trim :: "str \<Rightarrow> str" where
  "trim s = rev (strip ws_rev_len (rev (strip ws_len s)))"

fun next_word :: "bytes \<Rightarrow> bytes \<times> bytes" where
  "next_word [] = ([], [])"
| "next_word (b # bs) =
     (if ws_len (b # bs) > 0 then ([], b # bs) else (case next_word bs of (w, r) \<Rightarrow> (b # w, r)))"

lemma next_word_append: "next_word bs = (w, r) \<Longrightarrow> bs = w @ r"
  by (induction bs arbitrary: w r) (auto split: if_splits prod.splits)

lemma next_word_progress: "bs \<noteq> [] \<Longrightarrow> ws_len bs = 0 \<Longrightarrow> length (snd (next_word bs)) < length bs"
  by (cases bs) (auto split: prod.splits dest!: next_word_append)

function split_whitespace :: "str \<Rightarrow> str list" where
  "split_whitespace bs =
     (if bs = [] then []
      else if ws_len bs > 0 then split_whitespace (drop (ws_len bs) bs)
      else fst (next_word bs) # split_whitespace (snd (next_word bs)))"
  by pat_completeness auto

termination
  by (relation "measure length") (auto simp: neq_Nil_conv next_word_progress)

declare split_whitespace.simps [simp del]

text \<open>A string without white space at any position, a space behind it included.\<close>

definition no_ws :: "str \<Rightarrow> bool" where
  "no_ws s \<longleftrightarrow> next_word (s @ [32]) = (s, [32])"

definition trimmed :: "str \<Rightarrow> bool" where
  "trimmed s \<longleftrightarrow> ws_len s = 0 \<and> ws_rev_len (rev s) = 0"

lemma ws_len_Nil [simp]: "ws_len [] = 0" "ws_rev_len [] = 0"
  by (simp_all add: ws_len_def ws_rev_len_def)

lemma ws_len_32 [simp]: "ws_len (32 # r) = 1"
  by (simp add: ws_len_def ws_ascii_def)

lemma ws_wide_no_32: "w \<in> set ws_wide2 \<Longrightarrow> 32 \<notin> set w" "w \<in> set ws_wide3 \<Longrightarrow> 32 \<notin> set w"
  by (auto simp: ws_wide2_def ws_wide3_def)

lemma ws_wide_length: "w \<in> set ws_wide2 \<Longrightarrow> length w = 2" "w \<in> set ws_wide3 \<Longrightarrow> length w = 3"
  by (auto simp: ws_wide2_def ws_wide3_def)

lemma ws_wide_take:
  "take 2 (s @ 32 # r) \<in> set ws_wide2 \<longleftrightarrow> take 2 s \<in> set ws_wide2"
  "take 3 (s @ 32 # r) \<in> set ws_wide3 \<longleftrightarrow> take 3 s \<in> set ws_wide3"
proof -
  have gen: "take n (s @ 32 # r) \<in> S \<longleftrightarrow> take n s \<in> S"
    if "\<And>w. w \<in> S \<Longrightarrow> length w = n \<and> 32 \<notin> set w" for n :: nat and S :: "bytes set"
  proof (cases "n \<le> length s")
    case False
    then have "32 \<in> set (take n (s @ 32 # r))" and "length (take n s) \<noteq> n"
      by (auto simp: take_Cons' )
    then show ?thesis using that by blast
  qed simp
  show "take 2 (s @ 32 # r) \<in> set ws_wide2 \<longleftrightarrow> take 2 s \<in> set ws_wide2"
    by (rule gen) (simp add: ws_wide_no_32 ws_wide_length)
  show "take 3 (s @ 32 # r) \<in> set ws_wide3 \<longleftrightarrow> take 3 s \<in> set ws_wide3"
    by (rule gen) (simp add: ws_wide_no_32 ws_wide_length)
qed

lemma ws_len_append_32: "s \<noteq> [] \<Longrightarrow> ws_len (s @ 32 # r) = ws_len s"
  unfolding ws_len_def ws_wide_take by simp

lemma next_word_append_32: "next_word (s @ 32 # r) = (fst (next_word s), snd (next_word s) @ 32 # r)"
proof (induction s)
  case (Cons a s)
  then show ?case using ws_len_append_32 [of "a # s" r] by (cases "next_word s") auto
qed simp

lemma no_ws_split: "no_ws s \<Longrightarrow> next_word (s @ 32 # r) = (s, 32 # r)"
  by (simp add: no_ws_def next_word_append_32)

lemma no_ws_word: "no_ws s \<Longrightarrow> next_word s = (s, [])"
  by (cases "next_word s") (simp add: no_ws_def next_word_append_32)

lemma no_ws_front:
  assumes "no_ws s" and "s \<noteq> []"
  shows "ws_len s = 0"
proof -
  obtain b bs where "s = b # bs" using assms(2) by (auto simp: neq_Nil_conv)
  with no_ws_word [OF assms(1)] show ?thesis by (auto split: if_splits)
qed

lemma split_whitespace_Nil [simp]: "split_whitespace [] = []"
  by (simp add: split_whitespace.simps)

lemma split_whitespace_word: "no_ws s \<Longrightarrow> s \<noteq> [] \<Longrightarrow> split_whitespace s = [s]"
  using no_ws_front [of s] no_ws_word [of s] by (subst split_whitespace.simps) simp

lemma split_whitespace_words:
  assumes "no_ws s" and "s \<noteq> []"
  shows "split_whitespace (s @ 32 # r) = s # split_whitespace r"
proof -
  have "split_whitespace (s @ 32 # r) = s # split_whitespace (32 # r)"
    using no_ws_front [OF assms] no_ws_split [OF assms(1), of r] assms(2) ws_len_append_32 [of s r]
    by (subst split_whitespace.simps) simp
  then show ?thesis by (simp add: split_whitespace.simps [of "32 # r"])
qed

lemma strip_front: "f bs = 0 \<Longrightarrow> strip f bs = bs"
  by (simp add: strip.simps)

lemma trim_trimmed: "trimmed s \<Longrightarrow> trim s = s"
  by (simp add: trim_def trimmed_def strip_front)

lemma trim_space: "trimmed s \<Longrightarrow> trim (32 # s) = s"
  by (simp add: trim_def trimmed_def strip.simps [of ws_len "32 # s"] strip_front)

text \<open>Visible ASCII characters.\<close>

definition graphic :: "str \<Rightarrow> bool" where
  "graphic s \<longleftrightarrow> list_all (\<lambda>b. 33 \<le> b \<and> b \<le> 126) s"

lemma ws_wide_ends:
  "w \<in> set ws_wide2 \<union> set ws_wide3 \<Longrightarrow> 127 < hd w \<and> 127 < hd (rev w)"
  by (auto simp: ws_wide2_def ws_wide3_def)

lemma ws_len_graphic:
  assumes "33 \<le> b" and "b \<le> 126"
  shows "ws_len (b # s) = 0" and "ws_rev_len (b # s) = 0"
proof -
  have b: "\<not> 127 < b" "\<not> ws_ascii b" using assms by (auto simp: ws_ascii_def word_less_nat_alt word_le_nat_alt)
  have hd: "hd (take 2 (b # s)) = b" "hd (take 3 (b # s)) = b" by simp_all
  have "take 2 (b # s) \<notin> set ws_wide2" "take 3 (b # s) \<notin> set ws_wide3"
    using ws_wide_ends [of "take 2 (b # s)"] ws_wide_ends [of "take 3 (b # s)"] b(1) hd by auto
  then show "ws_len (b # s) = 0" using b by (simp add: ws_len_def)
  have "rev (take 2 (b # s)) \<notin> set ws_wide2" "rev (take 3 (b # s)) \<notin> set ws_wide3"
    using ws_wide_ends [of "rev (take 2 (b # s))"] ws_wide_ends [of "rev (take 3 (b # s))"] b(1) hd by auto
  then show "ws_rev_len (b # s) = 0" using b by (simp add: ws_rev_len_def)
qed

lemma graphic_no_ws: "graphic s \<Longrightarrow> no_ws s"
  unfolding no_ws_def by (induction s) (auto simp: graphic_def ws_len_graphic)

lemma graphic_trimmed:
  assumes "graphic s"
  shows "trimmed s"
proof -
  have "ws_len s = 0" using assms by (cases s) (simp_all add: graphic_def ws_len_graphic)
  moreover have "graphic (rev s)" using assms by (simp add: graphic_def)
  then have "ws_rev_len (rev s) = 0"
    by (cases "rev s") (simp_all add: graphic_def ws_len_graphic)
  ultimately show ?thesis by (simp add: trimmed_def)
qed

lemma graphic_utf8: "graphic s \<Longrightarrow> utf8_valid s"
  by (rule utf8_valid_ascii) (auto simp: graphic_def list_all_iff word_less_nat_alt word_le_nat_alt)

lemma graphic_bytes: "graphic s \<Longrightarrow> b \<in> set s \<Longrightarrow> 33 \<le> b \<and> b \<le> 126"
  by (auto simp: graphic_def list_all_iff)

lemma no_ws_bytes: "no_ws s \<Longrightarrow> b \<in> set s \<Longrightarrow> \<not> ws_ascii b"
  unfolding no_ws_def by (induction s) (auto simp: ws_len_def split: if_splits prod.splits)

lemma no_ws_line: "no_ws s \<Longrightarrow> 13 \<notin> set s \<and> 10 \<notin> set s"
  using no_ws_bytes [of s 13] no_ws_bytes [of s 10] by (auto simp: ws_ascii_def)

section \<open>Lines and substrings\<close>

text \<open>\<open>windows(n).position(|w| w == needle)\<close> for a needle that is not empty.\<close>

fun find_sub :: "bytes \<Rightarrow> bytes \<Rightarrow> nat option" where
  "find_sub needle [] = None"
| "find_sub needle (b # bs) =
     (if take (length needle) (b # bs) = needle then Some 0 else map_option Suc (find_sub needle bs))"

text \<open>\<open>str::lines\<close>: a line feed ends a line, with one carriage return before it.\<close>

definition strip_cr :: "bytes \<Rightarrow> bytes" where
  "strip_cr l = (if l \<noteq> [] \<and> last l = 13 then butlast l else l)"

function rust_lines :: "str \<Rightarrow> str list" where
  "rust_lines bs =
     (if bs = [] then []
      else let l = takeWhile (\<lambda>b. b \<noteq> 10) bs; rest = dropWhile (\<lambda>b. b \<noteq> 10) bs
           in if rest = [] then [l] else strip_cr l # rust_lines (tl rest))"
  by pat_completeness auto

termination
proof (relation "measure length")
  fix bs rest :: bytes
  assume "bs \<noteq> []" and r: "rest = dropWhile (\<lambda>b. b \<noteq> 10) bs" and "rest \<noteq> []"
  then have "length (tl rest) < length rest" by simp
  also have "\<dots> \<le> length bs" by (simp add: r length_dropWhile_le)
  finally show "(tl rest, bs) \<in> measure length" by simp
qed simp

declare rust_lines.simps [simp del]

text \<open>Lines with their ends.\<close>

definition crlf :: bytes where
  "crlf = [13, 10]"

definition line_block :: "bytes list \<Rightarrow> bytes" where
  "line_block ls = concat (map (\<lambda>l. l @ crlf) ls)"

definition plain_line :: "bytes \<Rightarrow> bool" where
  "plain_line l \<longleftrightarrow> l \<noteq> [] \<and> 13 \<notin> set l \<and> 10 \<notin> set l"

lemma find_sub_bound: "find_sub needle bs = Some i \<Longrightarrow> i + length needle \<le> length bs"
proof (induction bs arbitrary: i)
  case (Cons b bs)
  show ?case
  proof (cases "take (length needle) (b # bs) = needle")
    case True
    then have "length needle \<le> length (b # bs)" by (metis length_take min.cobounded1)
    then show ?thesis using Cons.prems True by simp
  qed (use Cons in auto)
qed simp

lemma find_sub_mono: "find_sub needle bs = Some i \<Longrightarrow> find_sub needle (bs @ cs) = Some i"
proof (induction bs arbitrary: i)
  case (Cons b bs)
  have "length needle \<le> length (b # bs)" using find_sub_bound [OF Cons.prems] by simp
  then have "take (length needle) ((b # bs) @ cs) = take (length needle) (b # bs)" by (simp only: take_append) simp
  then show ?case using Cons by (auto split: if_splits)
qed simp

lemma find_sub_skip:
  "13 \<notin> set l \<Longrightarrow> find_sub (13 # n) (l @ s) = map_option ((+) (length l)) (find_sub (13 # n) s)"
  by (induction l; cases "find_sub (13 # n) s") auto

lemma find_sub_crlf: "13 \<notin> set l \<Longrightarrow> find_sub crlf (l @ crlf @ s) = Some (length l)"
  by (simp add: crlf_def find_sub_skip)

text \<open>The first empty line of a block of lines is the one behind them.\<close>

lemma find_sub_block:
  assumes "ls \<noteq> []" and "list_all plain_line ls"
  shows "find_sub (crlf @ crlf) (line_block ls @ crlf @ rest) = Some (length (line_block ls) - 2)"
  using assms
proof (induction ls)
  case (Cons l ls)
  have l: "l \<noteq> []" "13 \<notin> set l" using Cons.prems by (simp_all add: plain_line_def)
  show ?case
  proof (cases ls)
    case Nil
    then show ?thesis using l by (simp add: line_block_def crlf_def find_sub_skip)
  next
    case (Cons l' ls')
    then have "plain_line l'" using \<open>list_all plain_line (l # ls)\<close> by simp
    then obtain b bs where b: "l' = b # bs" "b \<noteq> 13" by (cases l') (auto simp: plain_line_def)
    have "length (line_block ls) \<ge> 2" using Cons by (simp add: line_block_def crlf_def)
    moreover have "find_sub (crlf @ crlf) (line_block ls @ crlf @ rest) = Some (length (line_block ls) - 2)"
      using Cons.IH Cons.prems Cons by simp
    ultimately show ?thesis
      using l b Cons by (simp add: line_block_def crlf_def find_sub_skip)
  qed
qed simp

lemma rust_lines_last: "10 \<notin> set l \<Longrightarrow> l \<noteq> [] \<Longrightarrow> rust_lines l = [l]"
proof -
  assume l: "10 \<notin> set l" "l \<noteq> []"
  then have "takeWhile (\<lambda>b. b \<noteq> 10) l = l" and "dropWhile (\<lambda>b. b \<noteq> 10) l = []"
    by auto
  with l show ?thesis by (subst rust_lines.simps) simp
qed

lemma rust_lines_line:
  assumes "10 \<notin> set l"
  shows "rust_lines (l @ 13 # 10 # rest) = l # rust_lines rest"
proof -
  have "takeWhile (\<lambda>b. b \<noteq> 10) (l @ 13 # 10 # rest) = l @ [13]"
    and "dropWhile (\<lambda>b. b \<noteq> 10) (l @ 13 # 10 # rest) = 10 # rest"
    using assms by (auto simp: takeWhile_append dropWhile_append)
  then show ?thesis by (subst rust_lines.simps) (simp add: strip_cr_def)
qed

lemma rust_lines_block:
  assumes "list_all plain_line ls" and "plain_line l"
  shows "rust_lines (line_block ls @ l) = ls @ [l]"
  using assms
proof (induction ls)
  case Nil
  then show ?case by (simp add: line_block_def plain_line_def rust_lines_last)
next
  case (Cons k ls)
  then show ?case by (simp add: line_block_def plain_line_def crlf_def rust_lines_line)
qed

lemma line_block_snoc: "line_block (ls @ [l]) = line_block ls @ l @ crlf"
  by (simp add: line_block_def)

lemma take_block:
  assumes "ls \<noteq> []"
  shows "take (length (line_block ls) - 2) (line_block ls @ r) = line_block (butlast ls) @ last ls"
proof -
  have "line_block ls = line_block (butlast ls) @ last ls @ crlf"
    using assms line_block_snoc [of "butlast ls" "last ls"] by simp
  then show ?thesis by (simp add: crlf_def)
qed

section \<open>Decimal numbers\<close>

fun dec_string :: "nat \<Rightarrow> str" where
  "dec_string n = (if n < 10 then [48 + of_nat n] else dec_string (n div 10) @ [48 + of_nat (n mod 10)])"

declare dec_string.simps [simp del]

definition is_digit :: "u8 \<Rightarrow> bool" where
  "is_digit b \<longleftrightarrow> 48 \<le> b \<and> b \<le> 57"

definition dec_value :: "str \<Rightarrow> nat" where
  "dec_value s = foldl (\<lambda>acc b. 10 * acc + unat (b - 48)) 0 s"

text \<open>\<open>str::parse\<close> to an unsigned integer below \<open>bound\<close>: an optional plus sign, then digits.\<close>

definition parse_unsigned :: "nat \<Rightarrow> str \<Rightarrow> nat option" where
  "parse_unsigned bound s =
     (let d = (if length s > 1 \<and> hd s = 43 then tl s else s)
      in if d = [] \<or> \<not> list_all is_digit d then None
         else if dec_value d < bound then Some (dec_value d) else None)"

lemma digit_byte: "n < 10 \<Longrightarrow> is_digit (48 + of_nat n) \<and> unat ((48 + of_nat n :: u8) - 48) = n"
proof -
  assume n: "n < 10"
  then have u: "unat (48 + of_nat n :: u8) = 48 + n" by (simp add: unat_word_ariths unat_of_nat)
  have "unat ((48 + of_nat n :: u8) - 48) = n" using n by (simp add: unat_of_nat)
  with u n show ?thesis by (simp add: is_digit_def word_le_nat_alt)
qed

lemma dec_string_digits: "list_all is_digit (dec_string n) \<and> dec_string n \<noteq> []"
proof (induction n rule: dec_string.induct)
  case (1 n)
  then show ?case using digit_byte [of n] digit_byte [of "n mod 10"] by (subst (1 2) dec_string.simps) simp
qed

lemma dec_string_graphic: "graphic (dec_string n)"
  using dec_string_digits [of n]
  by (auto simp: graphic_def list_all_iff is_digit_def word_le_nat_alt)

lemma dec_value_string: "dec_value (dec_string n) = n"
proof (induction n rule: dec_string.induct)
  case (1 n)
  then show ?case using digit_byte [of n] digit_byte [of "n mod 10"]
    by (subst dec_string.simps) (simp add: dec_value_def)
qed

lemma parse_dec_string: "n < bound \<Longrightarrow> parse_unsigned bound (dec_string n) = Some n"
proof -
  have "hd (dec_string n) \<noteq> 43"
    using dec_string_digits [of n] by (cases "dec_string n") (auto simp: is_digit_def)
  moreover assume "n < bound"
  ultimately show ?thesis
    using dec_string_digits [of n] by (simp add: parse_unsigned_def Let_def dec_value_string)
qed

section \<open>Case\<close>

definition ascii_lower :: "str \<Rightarrow> str" where
  "ascii_lower s = map (\<lambda>b. if 65 \<le> b \<and> b \<le> 90 then b + 32 else b) s"

definition eq_ignore_ascii_case :: "str \<Rightarrow> str \<Rightarrow> bool" where
  "eq_ignore_ascii_case a b \<longleftrightarrow> ascii_lower a = ascii_lower b"

text \<open>
  \<open>to_uppercase\<close>: besides the ASCII letters, the characters whose upper case is ASCII are the
  dotless i, the long s, the sharp s and the Latin ligatures.
\<close>

definition upper_wide :: "(bytes \<times> str) list" where
  "upper_wide = [([0xC4, 0xB1], ascii ''I''), ([0xC5, 0xBF], ascii ''S''), ([0xC3, 0x9F], ascii ''SS''),
     ([0xEF, 0xAC, 0x80], ascii ''FF''), ([0xEF, 0xAC, 0x81], ascii ''FI''), ([0xEF, 0xAC, 0x82], ascii ''FL''),
     ([0xEF, 0xAC, 0x83], ascii ''FFI''), ([0xEF, 0xAC, 0x84], ascii ''FFL''), ([0xEF, 0xAC, 0x85], ascii ''ST''),
     ([0xEF, 0xAC, 0x86], ascii ''ST'')]"

function to_uppercase :: "str \<Rightarrow> str" where
  "to_uppercase bs =
     (if bs = [] then []
      else if hd bs < 0x80
      then (if 97 \<le> hd bs \<and> hd bs \<le> 122 then hd bs - 32 else hd bs) # to_uppercase (tl bs)
      else case find (\<lambda>(w, u). take (length w) bs = w) upper_wide of
             Some (w, u) \<Rightarrow> u @ to_uppercase (drop (max 1 (length w)) bs)
           | None \<Rightarrow> hd bs # to_uppercase (tl bs))"
  by pat_completeness auto

termination
  by (relation "measure length") (auto simp: neq_Nil_conv)

declare to_uppercase.simps [simp del]

lemma to_uppercase_plain: "list_all (\<lambda>b. b < 97) bs \<Longrightarrow> to_uppercase bs = bs"
proof (induction bs)
  case (Cons b bs)
  then have "b < 0x80" and "\<not> 97 \<le> b" by (auto simp: word_less_nat_alt word_le_nat_alt)
  with Cons show ?case by (subst to_uppercase.simps) simp
qed (simp add: to_uppercase.simps)

end
