(* ===== verification/Rtsp_Message.thy ===== *)
theory Rtsp_Message
  imports Rust_Text "HOL-Library.Multiset"
begin

text \<open>
  RTSP requests and responses, \<open>src/protocol/rtsp\<close>: the methods of \<open>mod.rs\<close>, the header
  collection of \<open>headers.rs\<close>, requests and their builder of \<open>request.rs\<close>, responses of
  \<open>response.rs\<close> and the response builder and encoder of \<open>server_codec.rs\<close>.

  A header collection is the list of its entries in the order in which the hash map
  iterates, which the program does not rely on: \<open>headers_get_order\<close> shows that a lookup does
  not depend on the order, and the theorems on encodings hold for every order.
\<close>

section \<open>Methods\<close>

datatype rtsp_method =
    Method_Options | Method_Announce | Method_Setup | Method_Record | Method_Play | Method_Pause
  | Method_Flush | Method_Teardown | Method_SetParameter | Method_GetParameter | Method_Post | Method_Get
  | Method_SetRateAnchorTime | Method_SetPeers

fun method_as_str :: "rtsp_method \<Rightarrow> str" where
  "method_as_str Method_Options = ascii ''OPTIONS''"
| "method_as_str Method_Announce = ascii ''ANNOUNCE''"
| "method_as_str Method_Setup = ascii ''SETUP''"
| "method_as_str Method_Record = ascii ''RECORD''"
| "method_as_str Method_Play = ascii ''PLAY''"
| "method_as_str Method_Pause = ascii ''PAUSE''"
| "method_as_str Method_Flush = ascii ''FLUSH''"
| "method_as_str Method_Teardown = ascii ''TEARDOWN''"
| "method_as_str Method_SetParameter = ascii ''SET_PARAMETER''"
| "method_as_str Method_GetParameter = ascii ''GET_PARAMETER''"
| "method_as_str Method_Post = ascii ''POST''"
| "method_as_str Method_Get = ascii ''GET''"
| "method_as_str Method_SetRateAnchorTime = ascii ''SETRATEANCHORTIME''"
| "method_as_str Method_SetPeers = ascii ''SETPEERS''"

definition method_table :: "(str \<times> rtsp_method) list" where
  "method_table = [(ascii ''OPTIONS'', Method_Options), (ascii ''ANNOUNCE'', Method_Announce),
     (ascii ''SETUP'', Method_Setup), (ascii ''RECORD'', Method_Record), (ascii ''PLAY'', Method_Play),
     (ascii ''PAUSE'', Method_Pause), (ascii ''FLUSH'', Method_Flush), (ascii ''TEARDOWN'', Method_Teardown),
     (ascii ''SET_PARAMETER'', Method_SetParameter), (ascii ''GET_PARAMETER'', Method_GetParameter),
     (ascii ''POST'', Method_Post), (ascii ''GET'', Method_Get),
     (ascii ''SETRATEANCHORTIME'', Method_SetRateAnchorTime), (ascii ''SETPEERS'', Method_SetPeers)]"

definition method_from_str :: "str \<Rightarrow> rtsp_method option" where
  "method_from_str s = map_of method_table (to_uppercase s)"

section \<open>Headers\<close>

type_synonym headers = "(str \<times> str) list"

definition CSEQ :: str where "CSEQ = ascii ''CSeq''"
definition CONTENT_TYPE :: str where "CONTENT_TYPE = ascii ''Content-Type''"
definition CONTENT_LENGTH :: str where "CONTENT_LENGTH = ascii ''Content-Length''"
definition SESSION :: str where "SESSION = ascii ''Session''"
definition USER_AGENT :: str where "USER_AGENT = ascii ''User-Agent''"

definition headers_insert :: "headers \<Rightarrow> str \<Rightarrow> str \<Rightarrow> headers" where
  "headers_insert h name v = filter (\<lambda>(k, _). \<not> eq_ignore_ascii_case k name) h @ [(name, v)]"

definition headers_get :: "headers \<Rightarrow> str \<Rightarrow> str option" where
  "headers_get h name = map_option snd (find (\<lambda>(k, _). eq_ignore_ascii_case k name) h)"

definition headers_contains :: "headers \<Rightarrow> str \<Rightarrow> bool" where
  "headers_contains h name \<longleftrightarrow> headers_get h name \<noteq> None"

definition headers_cseq :: "headers \<Rightarrow> nat option" where
  "headers_cseq h = Option.bind (headers_get h CSEQ) (parse_unsigned (2 ^ 32))"

definition headers_content_length :: "headers \<Rightarrow> nat option" where
  "headers_content_length h = Option.bind (headers_get h CONTENT_LENGTH) (parse_unsigned (2 ^ 64))"

definition headers_content_type :: "headers \<Rightarrow> str option" where
  "headers_content_type h = headers_get h CONTENT_TYPE"

definition headers_session :: "headers \<Rightarrow> str option" where
  "headers_session h = headers_get h SESSION"

definition headers_from_iter :: "(str \<times> str) list \<Rightarrow> headers" where
  "headers_from_iter kvs = foldl (\<lambda>h (k, v). headers_insert h k v) [] kvs"

section \<open>Requests\<close>

record rtsp_request =
  rq_method :: rtsp_method
  rq_uri :: str
  rq_headers :: headers
  rq_body :: bytes

definition header_line :: "str \<times> str \<Rightarrow> bytes" where
  "header_line kv = fst kv @ ascii '': '' @ snd kv"

definition request_new :: "rtsp_method \<Rightarrow> str \<Rightarrow> rtsp_request" where
  "request_new m uri = \<lparr>rq_method = m, rq_uri = uri, rq_headers = [], rq_body = []\<rparr>"

definition request_encode :: "rtsp_request \<Rightarrow> bytes" where
  "request_encode r =
     method_as_str (rq_method r) @ [32] @ rq_uri r @ ascii '' RTSP/1.0'' @ crlf
     @ concat (map (\<lambda>kv. header_line kv @ crlf) (rq_headers r))
     @ (if rq_body r \<noteq> [] \<and> \<not> headers_contains (rq_headers r) CONTENT_LENGTH
        then header_line (CONTENT_LENGTH, dec_string (length (rq_body r))) @ crlf else [])
     @ crlf @ rq_body r"

definition request_header :: "rtsp_request \<Rightarrow> str \<Rightarrow> str \<Rightarrow> rtsp_request" where
  "request_header r name v = r\<lparr>rq_headers := headers_insert (rq_headers r) name v\<rparr>"

definition request_cseq :: "rtsp_request \<Rightarrow> u32 \<Rightarrow> rtsp_request" where
  "request_cseq r seq = request_header r CSEQ (dec_string (unat seq))"

definition request_content_type :: "rtsp_request \<Rightarrow> str \<Rightarrow> rtsp_request" where
  "request_content_type r ct = request_header r CONTENT_TYPE ct"

definition request_user_agent :: "rtsp_request \<Rightarrow> str \<Rightarrow> rtsp_request" where
  "request_user_agent r agent = request_header r USER_AGENT agent"

definition request_session :: "rtsp_request \<Rightarrow> str \<Rightarrow> rtsp_request" where
  "request_session r i = request_header r SESSION i"

definition request_body :: "rtsp_request \<Rightarrow> bytes \<Rightarrow> rtsp_request" where
  "request_body r body = (request_header r CONTENT_LENGTH (dec_string (length body)))\<lparr>rq_body := body\<rparr>"

section \<open>Responses\<close>

record rtsp_response =
  rp_version :: str
  rp_status :: u16
  rp_reason :: str
  rp_headers :: headers
  rp_body :: bytes

definition status_is_success :: "u16 \<Rightarrow> bool" where
  "status_is_success s \<longleftrightarrow> 200 \<le> s \<and> s < 300"

definition status_is_client_error :: "u16 \<Rightarrow> bool" where
  "status_is_client_error s \<longleftrightarrow> 400 \<le> s \<and> s < 500"

definition status_is_server_error :: "u16 \<Rightarrow> bool" where
  "status_is_server_error s \<longleftrightarrow> 500 \<le> s \<and> s < 600"

definition status_reason :: "u16 \<Rightarrow> str" where
  "status_reason s =
     (case map_of [(200, ''OK''), (400, ''Bad Request''), (401, ''Unauthorized''), (403, ''Forbidden''),
        (404, ''Not Found''), (405, ''Method Not Allowed''), (406, ''Not Acceptable''),
        (451, ''Parameter Not Understood''), (453, ''Not Enough Bandwidth''), (454, ''Session Not Found''),
        (455, ''Method Not Valid in This State''), (457, ''Invalid Range''),
        (459, ''Aggregate Operation Not Allowed''), (460, ''Only Aggregate Operation Allowed''),
        (461, ''Unsupported Transport''), (500, ''Internal Server Error''), (501, ''Not Implemented''),
        (503, ''Service Unavailable'')] (unat s) of
        Some r \<Rightarrow> ascii r | None \<Rightarrow> ascii ''Unknown'')"

definition encode_response :: "rtsp_response \<Rightarrow> bytes" where
  "encode_response r =
     rp_version r @ [32] @ dec_string (unat (rp_status r)) @ [32] @ rp_reason r @ crlf
     @ concat (map (\<lambda>kv. header_line kv @ crlf) (rp_headers r))
     @ crlf @ (if rp_body r \<noteq> [] then rp_body r else [])"

record response_builder =
  rb_status :: u16
  rb_headers :: headers
  rb_body :: "bytes option"

definition response_builder_new :: "u16 \<Rightarrow> response_builder" where
  "response_builder_new status = \<lparr>rb_status = status, rb_headers = [], rb_body = None\<rparr>"

definition response_header :: "response_builder \<Rightarrow> str \<Rightarrow> str \<Rightarrow> response_builder" where
  "response_header b name v = b\<lparr>rb_headers := headers_insert (rb_headers b) name v\<rparr>"

definition response_cseq :: "response_builder \<Rightarrow> u32 \<Rightarrow> response_builder" where
  "response_cseq b cseq = response_header b CSEQ (dec_string (unat cseq))"

definition response_session :: "response_builder \<Rightarrow> str \<Rightarrow> response_builder" where
  "response_session b i = response_header b SESSION i"

definition response_binary_body :: "response_builder \<Rightarrow> bytes \<Rightarrow> str \<Rightarrow> response_builder" where
  "response_binary_body b body content_type =
     response_header (b\<lparr>rb_body := Some body\<rparr>) CONTENT_TYPE content_type"

definition response_text_body :: "response_builder \<Rightarrow> str \<Rightarrow> response_builder" where
  "response_text_body b body = response_header (b\<lparr>rb_body := Some body\<rparr>) CONTENT_TYPE (ascii ''text/parameters'')"

definition response_sdp_body :: "response_builder \<Rightarrow> str \<Rightarrow> response_builder" where
  "response_sdp_body b sdp = response_header (b\<lparr>rb_body := Some sdp\<rparr>) CONTENT_TYPE (ascii ''application/sdp'')"

definition response_audio_latency :: "response_builder \<Rightarrow> u32 \<Rightarrow> response_builder" where
  "response_audio_latency b samples = response_header b (ascii ''Audio-Latency'') (dec_string (unat samples))"

definition response_build :: "response_builder \<Rightarrow> rtsp_response" where
  "response_build b =
     \<lparr>rp_version = ascii ''RTSP/1.0'', rp_status = rb_status b, rp_reason = status_reason (rb_status b),
      rp_headers = (case rb_body b of
         None \<Rightarrow> rb_headers b
       | Some body \<Rightarrow> headers_insert (rb_headers b) CONTENT_LENGTH (dec_string (length body))),
      rp_body = (case rb_body b of None \<Rightarrow> [] | Some body \<Rightarrow> body)\<rparr>"

definition response_encode :: "response_builder \<Rightarrow> bytes" where
  "response_encode b = encode_response (response_build b)"

section \<open>Lemmas\<close>

lemma method_roundtrip: "method_from_str (method_as_str m) = Some m"
proof -
  have "to_uppercase (method_as_str m) = method_as_str m"
    by (rule to_uppercase_plain) (cases m; simp add: ascii_def)
  then show ?thesis by (cases m) (simp_all add: method_from_str_def method_table_def ascii_def)
qed

text \<open>Names are unique up to case; every operation keeps it.\<close>

definition headers_ok :: "headers \<Rightarrow> bool" where
  "headers_ok h \<longleftrightarrow> distinct (map (ascii_lower \<circ> fst) h)"

lemma headers_ok_Nil [simp]: "headers_ok []"
  by (simp add: headers_ok_def)

lemma headers_ok_insert: "headers_ok h \<Longrightarrow> headers_ok (headers_insert h n v)"
  by (auto simp: headers_ok_def headers_insert_def eq_ignore_ascii_case_def distinct_map inj_on_def)

lemma headers_ok_from_iter: "headers_ok (headers_from_iter kvs)"
proof -
  have "headers_ok h \<Longrightarrow> headers_ok (foldl (\<lambda>h (k, v). headers_insert h k v) h kvs)" for h
    by (induction kvs arbitrary: h) (auto simp: headers_ok_insert)
  then show ?thesis by (simp add: headers_from_iter_def)
qed

lemma headers_get_Some:
  assumes "headers_ok h"
  shows "headers_get h n = Some v \<longleftrightarrow> (\<exists>k. (k, v) \<in> set h \<and> eq_ignore_ascii_case k n)"
  using assms
proof (induction h)
  case (Cons kv h)
  then show ?case by (cases kv) (force simp: headers_get_def headers_ok_def eq_ignore_ascii_case_def)
qed (simp add: headers_get_def)

lemma headers_get_order:
  assumes "headers_ok h" and "mset h = mset h'"
  shows "headers_get h n = headers_get h' n"
proof -
  have "headers_ok h'" using assms by (metis headers_ok_def mset_eq_imp_distinct_iff mset_map)
  moreover have "set h = set h'" using assms(2) by (metis set_mset_mset)
  ultimately have "headers_get h n = Some v \<longleftrightarrow> headers_get h' n = Some v" for v
    by (simp add: headers_get_Some assms(1))
  then show ?thesis by (metis option.exhaust)
qed

lemma headers_get_insert:
  assumes "headers_ok h"
  shows "headers_get (headers_insert h n v) m = (if eq_ignore_ascii_case n m then Some v else headers_get h m)"
proof -
  have "headers_get (headers_insert h n v) m = Some w \<longleftrightarrow>
      (if eq_ignore_ascii_case n m then Some v else headers_get h m) = Some w" for w
    by (auto simp: headers_get_Some headers_ok_insert assms) (auto simp: headers_insert_def eq_ignore_ascii_case_def)
  then show ?thesis by (metis option.exhaust)
qed

text \<open>Inserting the entries of a collection one by one gives it back.\<close>

lemma headers_insert_new:
  "\<forall>(k, _)\<in>set h. \<not> eq_ignore_ascii_case k n \<Longrightarrow> headers_insert h n v = h @ [(n, v)]"
  by (simp add: headers_insert_def filter_id_conv)

lemma headers_rebuild: "headers_ok (g @ h) \<Longrightarrow> foldl (\<lambda>h (k, v). headers_insert h k v) g h = g @ h"
proof (induction h arbitrary: g)
  case (Cons kv h)
  obtain k v where kv: "kv = (k, v)" by force
  have "\<forall>(k', _)\<in>set g. \<not> eq_ignore_ascii_case k' k"
    using Cons.prems by (force simp: headers_ok_def kv eq_ignore_ascii_case_def)
  with Cons kv show ?case by (simp add: headers_insert_new)
qed simp

end
