(* ===== verification/Rtsp_Codec.thy ===== *)
theory Rtsp_Codec
  imports Rtsp_Message Interfaces
begin

text \<open>
  The two sans-I/O codecs of \<open>src/protocol/rtsp\<close>: the server's request parser of
  \<open>server_codec.rs\<close>, which works on a byte buffer, and the client's response parser of
  \<open>codec.rs\<close>, which keeps a parse state and bounds its buffer. A decoder returns its new
  state, also with an error, since the buffer may have been consumed in part.
\<close>

section \<open>The server's request parser\<close>

datatype parse_error =
    Incomplete
  | InvalidRequestLine str
  | InvalidMethod str
  | InvalidHeader str
  | InvalidContentLength str
  | BodyTooLarge nat nat
  | InvalidUtf8

definition MAX_BODY_SIZE :: nat where "MAX_BODY_SIZE = 16 * 1024 * 1024"
definition MAX_HEADER_SIZE :: nat where "MAX_HEADER_SIZE = 64 * 1024"

definition split_header :: "str \<Rightarrow> (str \<times> str) option" where
  "split_header line =
     map_option (\<lambda>pos. (trim (take pos line), trim (drop (pos + 1) line))) (find_sub [58] line)"

text \<open>The loop over the header lines, which stops at an empty line.\<close>

fun parse_header_lines :: "str list \<Rightarrow> headers \<Rightarrow> (parse_error, headers) result" where
  "parse_header_lines [] h = Inr h"
| "parse_header_lines (line # lines) h =
     (if line = [] then Inr h
      else case split_header line of
             Some (name, v) \<Rightarrow> parse_header_lines lines (headers_insert h name v)
           | None \<Rightarrow> Inl (InvalidHeader line))"

definition server_parse_headers :: "str \<Rightarrow> (parse_error, rtsp_method \<times> str \<times> headers) result" where
  "server_parse_headers header_str =
     (case rust_lines header_str of
        [] \<Rightarrow> Inl (InvalidRequestLine (ascii ''Empty request''))
      | request_line # lines \<Rightarrow>
          (let parts = split_whitespace request_line in
           if length parts < 3 then Inl (InvalidRequestLine request_line)
           else case method_from_str (parts ! 0) of
                  None \<Rightarrow> Inl (InvalidMethod (parts ! 0))
                | Some m \<Rightarrow>
                    if take 5 (parts ! 2) \<noteq> ascii ''RTSP/''
                    then Inl (InvalidRequestLine (ascii ''Invalid protocol: '' @ parts ! 2))
                    else result_bind (parse_header_lines lines []) (\<lambda>h. Inr (m, parts ! 1, h))))"

definition find_header_end :: "bytes \<Rightarrow> nat option" where
  "find_header_end b = find_sub (crlf @ crlf) b"

definition server_content_length :: "headers \<Rightarrow> (parse_error, nat) result" where
  "server_content_length h =
     (case (case headers_get h CONTENT_LENGTH of
              Some v \<Rightarrow> Some v | None \<Rightarrow> headers_get h (ascii ''content-length'')) of
        None \<Rightarrow> Inr 0
      | Some v \<Rightarrow> (case parse_unsigned (2 ^ 64) v of
          Some n \<Rightarrow> Inr n | None \<Rightarrow> Inl (InvalidContentLength (ascii ''Not a number''))))"

definition server_codec_feed :: "bytes \<Rightarrow> bytes \<Rightarrow> bytes" where
  "server_codec_feed b data = b @ data"

definition server_codec_decode :: "bytes \<Rightarrow> bytes \<times> (parse_error, rtsp_request option) result" where
  "server_codec_decode b =
     (case find_header_end b of
        None \<Rightarrow>
          (if length b > MAX_HEADER_SIZE then (b, Inl (InvalidHeader (ascii ''Headers too large'')))
           else (b, Inr None))
      | Some header_end \<Rightarrow>
          if \<not> utf8_valid (take header_end b) then (b, Inl InvalidUtf8)
          else (case server_parse_headers (take header_end b) of
                 Inl e \<Rightarrow> (b, Inl e)
               | Inr (m, uri, h) \<Rightarrow>
                   (case server_content_length h of
                      Inl e \<Rightarrow> (b, Inl e)
                    | Inr content_length \<Rightarrow>
                        if content_length > MAX_BODY_SIZE then (b, Inl (BodyTooLarge content_length MAX_BODY_SIZE))
                        else if length b < header_end + 4 + content_length then (b, Inr None)
                        else (drop (header_end + 4 + content_length) b,
                              Inr (Some \<lparr>rq_method = m, rq_uri = uri, rq_headers = h,
                                         rq_body = take content_length (drop (header_end + 4) b)\<rparr>)))))"

section \<open>Requests on the wire\<close>

text \<open>The headers as they are sent: with the length of a body that the request does not declare.\<close>

definition sent_headers :: "rtsp_request \<Rightarrow> headers" where
  "sent_headers r =
     (if rq_body r \<noteq> [] \<and> \<not> headers_contains (rq_headers r) CONTENT_LENGTH
      then rq_headers r @ [(CONTENT_LENGTH, dec_string (length (rq_body r)))] else rq_headers r)"

definition request_line_of :: "rtsp_request \<Rightarrow> bytes" where
  "request_line_of r = method_as_str (rq_method r) @ [32] @ rq_uri r @ ascii '' RTSP/1.0''"

definition request_lines :: "rtsp_request \<Rightarrow> bytes list" where
  "request_lines r = request_line_of r # map header_line (sent_headers r)"

definition request_seen :: "rtsp_request \<Rightarrow> rtsp_request" where
  "request_seen r = r\<lparr>rq_headers := sent_headers r\<rparr>"

text \<open>A header that can be written as one line and read back.\<close>

definition header_ok :: "str \<times> str \<Rightarrow> bool" where
  "header_ok kv =
     (case kv of (k, v) \<Rightarrow> utf8_valid k \<and> utf8_valid v \<and> trimmed k \<and> trimmed v \<and> 58 \<notin> set k
        \<and> 13 \<notin> set k \<and> 10 \<notin> set k \<and> 13 \<notin> set v \<and> 10 \<notin> set v)"

definition header_size :: "rtsp_request \<Rightarrow> nat" where
  "header_size r = length (line_block (request_lines r)) - 2"

definition request_ok :: "rtsp_request \<Rightarrow> bool" where
  "request_ok r \<longleftrightarrow>
     rq_uri r \<noteq> [] \<and> no_ws (rq_uri r) \<and> utf8_valid (rq_uri r)
     \<and> headers_ok (rq_headers r) \<and> list_all header_ok (rq_headers r)
     \<and> server_content_length (sent_headers r) = Inr (length (rq_body r))
     \<and> length (rq_body r) \<le> MAX_BODY_SIZE \<and> header_size r + 4 \<le> MAX_HEADER_SIZE"

lemma request_encode_lines: "request_encode r = line_block (request_lines r) @ crlf @ rq_body r"
  by (simp add: request_encode_def request_lines_def request_line_of_def sent_headers_def line_block_def
      comp_def)

lemma find_colon: "58 \<notin> set k \<Longrightarrow> find_sub [58] (k @ 58 # s) = Some (length k)"
  by (induction k) auto

lemma split_header_line: "header_ok kv \<Longrightarrow> split_header (header_line kv) = Some kv"
  by (cases kv) (simp add: header_ok_def split_header_def header_line_def ascii_def find_colon trim_trimmed trim_space)

lemma parse_header_lines_ok:
  assumes "list_all header_ok hs"
  shows "parse_header_lines (map header_line hs) h = Inr (foldl (\<lambda>h (k, v). headers_insert h k v) h hs)"
  using assms
proof (induction hs arbitrary: h)
  case (Cons kv hs)
  have "header_line kv \<noteq> []" by (simp add: header_line_def ascii_def)
  with Cons show ?case by (simp add: split_header_line split: prod.splits)
qed simp

lemma method_graphic: "graphic (method_as_str m) \<and> method_as_str m \<noteq> []"
  by (cases m) (simp_all add: graphic_def ascii_def)

lemma content_length_header_ok: "header_ok (CONTENT_LENGTH, dec_string n)"
proof -
  have "graphic CONTENT_LENGTH" and "58 \<notin> set CONTENT_LENGTH" by (simp_all add: graphic_def CONTENT_LENGTH_def ascii_def)
  then show ?thesis
    using dec_string_graphic [of n] graphic_bytes [of CONTENT_LENGTH] graphic_bytes [of "dec_string n"]
    by (fastforce simp: header_ok_def graphic_utf8 graphic_trimmed)
qed

lemma sent_headers_ok:
  assumes "list_all header_ok (rq_headers r)"
  shows "list_all header_ok (sent_headers r)"
  using assms content_length_header_ok by (simp add: sent_headers_def)

lemma headers_contains_iff: "headers_contains h n \<longleftrightarrow> (\<exists>(k, v)\<in>set h. eq_ignore_ascii_case k n)"
  by (auto simp: headers_contains_def headers_get_def find_None_iff split: prod.splits)

lemma sent_headers_distinct: "headers_ok (rq_headers r) \<Longrightarrow> headers_ok (sent_headers r)"
  by (force simp: sent_headers_def headers_ok_def headers_contains_iff eq_ignore_ascii_case_def)

lemma sent_length:
  assumes "\<not> headers_contains (rq_headers r) CONTENT_LENGTH" and "length (rq_body r) < 2 ^ 64"
  shows "server_content_length (sent_headers r) = Inr (length (rq_body r))"
proof -
  let ?h = "rq_headers r"
  have none: "headers_get ?h CONTENT_LENGTH = None" using assms(1) by (simp add: headers_contains_def)
  then have find: "find (\<lambda>(k, _). eq_ignore_ascii_case k CONTENT_LENGTH) ?h = None"
    by (simp only: headers_get_def map_option_is_None)
  have lower: "headers_get h (ascii ''content-length'') = headers_get h CONTENT_LENGTH" for h
    by (simp add: headers_get_def eq_ignore_ascii_case_def ascii_lower_def ascii_def CONTENT_LENGTH_def)
  have "find P (xs @ [y]) = Some y" if "find P xs = None" "P y" for P and xs :: headers and y
    using that by (induction xs) (auto split: if_splits)
  with find have "headers_get (?h @ [(CONTENT_LENGTH, v)]) CONTENT_LENGTH = Some v" for v
    by (simp add: headers_get_def eq_ignore_ascii_case_def)
  then show ?thesis
    using none assms parse_dec_string [OF assms(2)]
    by (cases "rq_body r = []") (simp_all add: server_content_length_def sent_headers_def lower)
qed

lemma header_line_plain: "header_ok kv \<Longrightarrow> plain_line (header_line kv) \<and> utf8_valid (header_line kv)"
  by (cases kv)
    (auto simp: header_ok_def plain_line_def header_line_def ascii_def utf8_valid_ascii intro!: utf8_valid_append)

lemma request_line_plain:
  assumes "request_ok r"
  shows "plain_line (request_line_of r) \<and> utf8_valid (request_line_of r)"
proof -
  have "13 \<notin> set (method_as_str (rq_method r)) \<and> 10 \<notin> set (method_as_str (rq_method r))"
    using method_graphic graphic_no_ws no_ws_line by blast
  moreover have "utf8_valid (method_as_str (rq_method r))" using method_graphic graphic_utf8 by blast
  moreover have "utf8_valid (rq_uri r @ ascii '' RTSP/1.0'')"
    using assms by (auto simp: request_ok_def ascii_def intro: utf8_valid_append)
  ultimately show ?thesis
    using assms no_ws_line [of "rq_uri r"] utf8_valid_append [of "method_as_str (rq_method r)"]
    by (simp add: request_line_of_def request_ok_def plain_line_def ascii_def)
qed

lemma request_lines_plain:
  assumes "request_ok r"
  shows "list_all plain_line (request_lines r)" and "list_all utf8_valid (request_lines r)"
  using request_line_plain [OF assms] sent_headers_ok [of r] assms header_line_plain
  by (auto simp: request_lines_def request_ok_def list_all_iff)

lemma utf8_valid_block: "list_all utf8_valid ls \<Longrightarrow> utf8_valid (line_block ls)"
  by (induction ls) (auto simp: line_block_def crlf_def utf8_valid_ascii intro!: utf8_valid_append)

lemma split_request_line:
  assumes "request_ok r"
  shows "split_whitespace (request_line_of r) = [method_as_str (rq_method r), rq_uri r, ascii ''RTSP/1.0'']"
proof -
  have v: "no_ws (ascii ''RTSP/1.0'')" by (rule graphic_no_ws) (simp add: graphic_def ascii_def)
  have "request_line_of r = method_as_str (rq_method r) @ 32 # rq_uri r @ 32 # ascii ''RTSP/1.0''"
    by (simp add: request_line_of_def ascii_def)
  then show ?thesis
    using method_graphic [of "rq_method r"] assms split_whitespace_word [OF v]
    by (simp add: split_whitespace_words graphic_no_ws request_ok_def ascii_def)
qed

lemma server_parse_request:
  assumes "request_ok r" and "ls = request_lines r"
  shows "server_parse_headers (line_block (butlast ls) @ last ls) = Inr (rq_method r, rq_uri r, sent_headers r)"
proof -
  have ne: "ls \<noteq> []" by (simp add: assms(2) request_lines_def)
  have "list_all plain_line (butlast ls)" "plain_line (last ls)"
    using request_lines_plain(1) [OF assms(1)] ne list_all_butlast_last assms(2) by blast+
  then have "rust_lines (line_block (butlast ls) @ last ls) = ls"
    using rust_lines_block [of "butlast ls" "last ls"] ne by simp
  moreover have "parse_header_lines (map header_line (sent_headers r)) [] = Inr (sent_headers r)"
    using parse_header_lines_ok [of "sent_headers r" "[]"] headers_rebuild [of "[]" "sent_headers r"]
      sent_headers_ok sent_headers_distinct assms(1) by (simp add: request_ok_def)
  ultimately show ?thesis
    using split_request_line [OF assms(1)]
    by (simp add: server_parse_headers_def assms(2) request_lines_def method_roundtrip ascii_def)
qed

text \<open>The header section of a request, however much follows its separator.\<close>

lemma server_header_section:
  assumes "request_ok r"
  shows "find_header_end (line_block (request_lines r) @ crlf @ rest) = Some (header_size r)"
    and "utf8_valid (take (header_size r) (line_block (request_lines r) @ crlf @ rest))"
    and "server_parse_headers (take (header_size r) (line_block (request_lines r) @ crlf @ rest)) =
      Inr (rq_method r, rq_uri r, sent_headers r)"
proof -
  let ?ls = "request_lines r"
  have ne: "?ls \<noteq> []" by (simp add: request_lines_def)
  show "find_header_end (line_block ?ls @ crlf @ rest) = Some (header_size r)"
    using find_sub_block [OF ne request_lines_plain(1) [OF assms]] by (simp add: find_header_end_def header_size_def)
  have take: "take (header_size r) (line_block ?ls @ crlf @ rest) = line_block (butlast ?ls) @ last ?ls"
    using take_block [OF ne] by (simp add: header_size_def)
  have "list_all utf8_valid (butlast ?ls)" "utf8_valid (last ?ls)"
    using request_lines_plain(2) [OF assms] ne list_all_butlast_last by blast+
  then show "utf8_valid (take (header_size r) (line_block ?ls @ crlf @ rest))"
    unfolding take by (blast intro: utf8_valid_append utf8_valid_block)
  show "server_parse_headers (take (header_size r) (line_block ?ls @ crlf @ rest)) =
      Inr (rq_method r, rq_uri r, sent_headers r)"
    unfolding take by (rule server_parse_request [OF assms refl])
qed

lemma header_size_block: "length (line_block (request_lines r)) = header_size r + 2"
  by (simp add: header_size_def request_lines_def line_block_def crlf_def)

lemma server_decode_whole:
  assumes "request_ok r"
  shows "server_codec_decode (request_encode r @ rest) = (rest, Inr (Some (request_seen r)))"
proof -
  let ?b = "line_block (request_lines r) @ crlf @ rq_body r @ rest"
  have b: "request_encode r @ rest = ?b" by (simp add: request_encode_lines)
  have h4: "header_size r + 4 = length (line_block (request_lines r) @ crlf)"
    by (simp add: header_size_block crlf_def)
  have "take (length (rq_body r)) (drop (header_size r + 4) ?b) = rq_body r"
    and "drop (header_size r + 4 + length (rq_body r)) ?b = rest"
    unfolding h4 by simp_all
  moreover have "\<not> length ?b < header_size r + 4 + length (rq_body r)" unfolding h4 by simp
  ultimately show ?thesis
    unfolding b server_codec_decode_def server_header_section(1) [OF assms]
    using server_header_section(2,3) [OF assms, of "rq_body r @ rest"] assms
    by (simp add: request_ok_def request_seen_def)
qed

lemma server_decode_part:
  assumes "request_ok r" and "request_encode r = p @ q" and "q \<noteq> []"
  shows "server_codec_decode p = (p, Inr None)"
proof (cases "header_size r + 4 \<le> length p")
  case False
  have "find_header_end p = None"
  proof (rule ccontr)
    assume "find_header_end p \<noteq> None"
    then obtain i where i: "find_header_end p = Some i" by blast
    then have "find_header_end (p @ q) = Some i" unfolding find_header_end_def by (rule find_sub_mono)
    moreover have "i + 4 \<le> length p" using find_sub_bound i by (fastforce simp: find_header_end_def crlf_def)
    ultimately show False
      using server_header_section(1) [OF assms(1), of "rq_body r"] False assms(2) by (simp add: request_encode_lines)
  qed
  then show ?thesis using False assms(1) by (simp add: server_codec_decode_def request_ok_def)
next
  case True
  let ?b = "line_block (request_lines r) @ crlf"
  have eq: "?b @ rq_body r = p @ q" using assms(2) by (simp add: request_encode_lines)
  have "length ?b = header_size r + 4" by (simp add: header_size_block crlf_def)
  then obtain c where p: "p = ?b @ c" and "rq_body r = c @ q"
    using True eq append_prefix_split [of ?b "rq_body r" p q] by auto
  with assms(3) have "length p < header_size r + 4 + length (rq_body r)"
    using \<open>length ?b = header_size r + 4\<close> by (simp flip: length_greater_0_conv)
  then show ?thesis
    using server_header_section [OF assms(1), of c] assms(1) p
    by (simp add: server_codec_decode_def request_ok_def)
qed

section \<open>The client's response parser\<close>

datatype rtsp_codec_error =
    Codec_Incomplete
  | Codec_InvalidStatusLine str
  | Codec_InvalidHeader str
  | Codec_InvalidContentLength
  | Codec_ResponseTooLarge nat

datatype parse_state =
    PS_StatusLine
  | PS_Headers str u16 str
  | PS_Body str u16 str headers nat

record rtsp_codec =
  rc_buffer :: bytes
  rc_max_size :: nat
  rc_state :: parse_state

definition codec_new :: rtsp_codec where
  "codec_new = \<lparr>rc_buffer = [], rc_max_size = 1024 * 1024, rc_state = PS_StatusLine\<rparr>"

definition codec_with_max_size :: "rtsp_codec \<Rightarrow> nat \<Rightarrow> rtsp_codec" where
  "codec_with_max_size c n = c\<lparr>rc_max_size := n\<rparr>"

definition codec_feed :: "rtsp_codec \<Rightarrow> bytes \<Rightarrow> (rtsp_codec_error, rtsp_codec) result" where
  "codec_feed c bs =
     (if length (rc_buffer c) + length bs > rc_max_size c
      then Inl (Codec_ResponseTooLarge (length (rc_buffer c) + length bs))
      else Inr (c\<lparr>rc_buffer := rc_buffer c @ bs\<rparr>))"

definition codec_reset :: "rtsp_codec \<Rightarrow> rtsp_codec" where
  "codec_reset c = c\<lparr>rc_buffer := [], rc_state := PS_StatusLine\<rparr>"

text \<open>\<open>join(" ")\<close>.\<close>

fun join_sp :: "str list \<Rightarrow> str" where
  "join_sp [] = []"
| "join_sp [w] = w"
| "join_sp (w # ws) = w @ [32] @ join_sp ws"

definition parse_status_line :: "str \<Rightarrow> (rtsp_codec_error, str \<times> u16 \<times> str) result" where
  "parse_status_line line =
     (case split_whitespace line of
        version # status # rest \<Rightarrow>
          (case parse_unsigned (2 ^ 16) status of
             Some n \<Rightarrow> Inr (version, of_nat n, join_sp rest)
           | None \<Rightarrow> Inl (Codec_InvalidStatusLine line))
      | _ \<Rightarrow> Inl (Codec_InvalidStatusLine line))"

text \<open>\<open>split("\r\n")\<close>.\<close>

function split_crlf :: "str \<Rightarrow> str list" where
  "split_crlf s =
     (case find_sub crlf s of
        None \<Rightarrow> [s]
      | Some i \<Rightarrow> take i s # split_crlf (drop (i + 2) s))"
  by pat_completeness auto

termination
proof (relation "measure length")
  fix s :: str and i
  assume "find_sub crlf s = Some i"
  then have "i + 2 \<le> length s" using find_sub_bound [of crlf s i] by (simp add: crlf_def)
  then show "(drop (i + 2) s, s) \<in> measure length" by simp
qed simp

declare split_crlf.simps [simp del]

fun codec_header_lines :: "str list \<Rightarrow> headers \<Rightarrow> (rtsp_codec_error, headers) result" where
  "codec_header_lines [] h = Inr h"
| "codec_header_lines (line # lines) h =
     (if line = [] then codec_header_lines lines h
      else case split_header line of
             Some (name, v) \<Rightarrow> codec_header_lines lines (headers_insert h name v)
           | None \<Rightarrow> Inl (Codec_InvalidHeader line))"

definition codec_parse_headers :: "bytes \<Rightarrow> (rtsp_codec_error, (headers \<times> nat) option) result" where
  "codec_parse_headers b =
     (if take 2 b = crlf then Inr (Some ([], 2))
      else case find_sub (crlf @ crlf) b of
             None \<Rightarrow> Inr None
           | Some header_end \<Rightarrow>
               result_bind (codec_header_lines (split_crlf (from_utf8_lossy (take header_end b))) [])
                 (\<lambda>h. Inr (Some (h, header_end + 4))))"

text \<open>The loop of \<open>decode\<close> goes through the states in order; one definition per state.\<close>

definition codec_body ::
    "rtsp_codec \<Rightarrow> str \<Rightarrow> u16 \<Rightarrow> str \<Rightarrow> headers \<Rightarrow> nat \<Rightarrow>
     rtsp_codec \<times> (rtsp_codec_error, rtsp_response option) result" where
  "codec_body c version status reason h content_length =
     (if length (rc_buffer c) \<ge> content_length
      then (c\<lparr>rc_buffer := drop content_length (rc_buffer c), rc_state := PS_StatusLine\<rparr>,
            Inr (Some \<lparr>rp_version = version, rp_status = status, rp_reason = reason, rp_headers = h,
                       rp_body = take content_length (rc_buffer c)\<rparr>))
      else (c, Inr None))"

definition codec_headers ::
    "rtsp_codec \<Rightarrow> str \<Rightarrow> u16 \<Rightarrow> str \<Rightarrow>
     rtsp_codec \<times> (rtsp_codec_error, rtsp_response option) result" where
  "codec_headers c version status reason =
     (case codec_parse_headers (rc_buffer c) of
        Inl e \<Rightarrow> (c, Inl e)
      | Inr None \<Rightarrow> (c, Inr None)
      | Inr (Some (h, body_start)) \<Rightarrow>
          (let content_length = (case headers_content_length h of Some n \<Rightarrow> n | None \<Rightarrow> 0);
               c' = c\<lparr>rc_buffer := drop body_start (rc_buffer c)\<rparr>
           in if content_length = 0
              then (c'\<lparr>rc_state := PS_StatusLine\<rparr>,
                    Inr (Some \<lparr>rp_version = version, rp_status = status, rp_reason = reason,
                               rp_headers = h, rp_body = []\<rparr>))
              else codec_body (c'\<lparr>rc_state := PS_Body version status reason h content_length\<rparr>)
                     version status reason h content_length))"

definition codec_status_line ::
    "rtsp_codec \<Rightarrow> rtsp_codec \<times> (rtsp_codec_error, rtsp_response option) result" where
  "codec_status_line c =
     (case find_sub crlf (rc_buffer c) of
        None \<Rightarrow> (c, Inr None)
      | Some line_end \<Rightarrow>
          (case parse_status_line (from_utf8_lossy (take line_end (rc_buffer c))) of
             Inl e \<Rightarrow> (c, Inl e)
           | Inr (version, status, reason) \<Rightarrow>
               codec_headers (c\<lparr>rc_buffer := drop (line_end + 2) (rc_buffer c),
                                rc_state := PS_Headers version status reason\<rparr>)
                 version status reason))"

definition codec_decode ::
    "rtsp_codec \<Rightarrow> rtsp_codec \<times> (rtsp_codec_error, rtsp_response option) result" where
  "codec_decode c =
     (case rc_state c of
        PS_StatusLine \<Rightarrow> codec_status_line c
      | PS_Headers version status reason \<Rightarrow> codec_headers c version status reason
      | PS_Body version status reason h n \<Rightarrow> codec_body c version status reason h n)"

subsection \<open>Incremental parsing\<close>

text \<open>
  A decoder that has waited continues where a decoder would be that sees all bytes at once.
\<close>

definition codec_more :: "rtsp_codec \<Rightarrow> bytes \<Rightarrow> rtsp_codec" where
  "codec_more c q = c\<lparr>rc_buffer := rc_buffer c @ q\<rparr>"

definition codec_size :: "rtsp_codec \<Rightarrow> nat" where
  "codec_size c = length (rc_buffer c) + (if rc_state c = PS_StatusLine then 0 else 1)"

lemma take_crlf: "take 2 b = crlf \<Longrightarrow> 2 \<le> length b"
  by (drule arg_cong [of _ _ length]) (simp add: crlf_def)

lemma codec_parse_headers_stable:
  assumes "codec_parse_headers b \<noteq> Inr None"
  shows "codec_parse_headers (b @ q) = codec_parse_headers b"
proof (cases "take 2 b = crlf")
  case True
  with take_crlf [OF True] show ?thesis by (simp add: codec_parse_headers_def)
next
  case False
  then obtain i where i: "find_sub (crlf @ crlf) b = Some i"
    using assms by (auto simp: codec_parse_headers_def split: option.splits)
  then have "i + 4 \<le> length b" using find_sub_bound [OF i] by (simp add: crlf_def)
  with False i find_sub_mono [OF i, of q] show ?thesis by (simp add: codec_parse_headers_def)
qed

lemma codec_parse_headers_bound:
  assumes "codec_parse_headers b = Inr (Some (h, n))"
  shows "n \<le> length b"
proof (cases "take 2 b = crlf")
  case True
  with take_crlf [OF True] assms show ?thesis by (auto simp: codec_parse_headers_def)
next
  case False
  then show ?thesis
    using assms find_sub_bound [of "crlf @ crlf" b] by (fastforce simp: codec_parse_headers_def crlf_def split: option.splits)
qed

text \<open>A result, be it a response or an error, does not change when more bytes are there.\<close>

lemma codec_body_stable:
  assumes "codec_body c v s r h n = (c', res)" and "res \<noteq> Inr None"
  shows "codec_body (codec_more c q) v s r h n = (codec_more c' q, res)"
  using assms by (cases c) (auto simp: codec_body_def codec_more_def split: if_splits)

lemma codec_headers_stable:
  assumes "codec_headers c v s r = (c', res)" and "res \<noteq> Inr None"
  shows "codec_headers (codec_more c q) v s r = (codec_more c' q, res)"
proof (cases "\<exists>h n. codec_parse_headers (rc_buffer c) = Inr (Some (h, n))")
  case True
  then obtain h n where hn: "codec_parse_headers (rc_buffer c) = Inr (Some (h, n))" by blast
  define l where "l = (case headers_content_length h of Some n \<Rightarrow> n | None \<Rightarrow> 0)"
  define d where "d = c\<lparr>rc_buffer := drop n (rc_buffer c), rc_state := PS_Body v s r h l\<rparr>"
  have more: "codec_parse_headers (rc_buffer c @ q) = Inr (Some (h, n))"
    using codec_parse_headers_stable [of "rc_buffer c" q] hn by simp
  have n: "n \<le> length (rc_buffer c)" by (rule codec_parse_headers_bound [OF hn])
  show ?thesis
  proof (cases "l = 0")
    case True
    then show ?thesis
      using assms hn more n by (cases c) (auto simp: codec_headers_def l_def [symmetric] codec_more_def)
  next
    case False
    have "codec_body d v s r h l = (c', res)"
      using False assms hn by (simp add: codec_headers_def l_def [symmetric] d_def)
    then have "codec_body (codec_more d q) v s r h l = (codec_more c' q, res)"
      using assms(2) by (rule codec_body_stable)
    with False more n show ?thesis
      by (cases c) (simp add: codec_headers_def l_def [symmetric] codec_more_def d_def)
  qed
next
  case False
  then obtain e where "codec_parse_headers (rc_buffer c) = Inl e"
    using assms by (auto simp: codec_headers_def split: sum.splits option.splits)
  with assms codec_parse_headers_stable [of "rc_buffer c" q] show ?thesis
    by (auto simp: codec_headers_def codec_more_def)
qed

lemma codec_stable:
  assumes "codec_decode c = (c', res)" and "res \<noteq> Inr None"
  shows "codec_decode (codec_more c q) = (codec_more c' q, res)"
proof (cases "rc_state c")
  case PS_StatusLine
  then obtain i where i: "find_sub crlf (rc_buffer c) = Some i"
    using assms by (auto simp: codec_decode_def codec_status_line_def split: option.splits)
  have le: "i + 2 \<le> length (rc_buffer c)" using find_sub_bound [OF i] by (simp add: crlf_def)
  show ?thesis
  proof (cases "parse_status_line (from_utf8_lossy (take i (rc_buffer c)))")
    case (Inl e)
    with PS_StatusLine i le find_sub_mono [OF i, of q] assms show ?thesis
      by (auto simp: codec_decode_def codec_status_line_def codec_more_def)
  next
    case (Inr vsr)
    obtain v s r where vsr: "vsr = (v, s, r)" by (cases vsr)
    define d where "d = c\<lparr>rc_buffer := drop (i + 2) (rc_buffer c), rc_state := PS_Headers v s r\<rparr>"
    have "codec_headers d v s r = (c', res)"
      using assms PS_StatusLine i Inr vsr by (simp add: codec_decode_def codec_status_line_def d_def)
    then have "codec_headers (codec_more d q) v s r = (codec_more c' q, res)"
      using assms(2) by (rule codec_headers_stable)
    with PS_StatusLine Inr vsr i le find_sub_mono [OF i, of q] show ?thesis
      by (cases c) (simp add: codec_decode_def codec_status_line_def codec_more_def d_def)
  qed
next
  case (PS_Headers v s r)
  then show ?thesis
    using assms codec_headers_stable [of c v s r c' res q] by (simp add: codec_decode_def) (simp add: codec_more_def)
next
  case (PS_Body v s r h n)
  then show ?thesis
    using assms codec_body_stable [of c v s r h n c' res q] by (simp add: codec_decode_def) (simp add: codec_more_def)
qed

lemma codec_headers_incremental:
  assumes "codec_headers c v s r = (c', Inr None)" and "rc_state c = PS_Headers v s r"
  shows "codec_headers (codec_more c q) v s r = codec_decode (codec_more c' q)"
proof (cases "codec_parse_headers (rc_buffer c) = Inr None")
  case True
  then have "c' = c" using assms(1) by (simp add: codec_headers_def)
  then show ?thesis using assms(2) by (simp add: codec_decode_def codec_more_def)
next
  case False
  then obtain h n where hn: "codec_parse_headers (rc_buffer c) = Inr (Some (h, n))"
    using assms(1) by (auto simp: codec_headers_def split: sum.splits option.splits)
  have more: "codec_parse_headers (rc_buffer c @ q) = Inr (Some (h, n))" "n \<le> length (rc_buffer c)"
    using codec_parse_headers_stable [of "rc_buffer c" q] codec_parse_headers_bound [OF hn] hn by simp_all
  obtain l where l: "headers_content_length h = Some l" "l \<noteq> 0" "length (rc_buffer c) - n < l"
      "c' = c\<lparr>rc_buffer := drop n (rc_buffer c), rc_state := PS_Body v s r h l\<rparr>"
    using assms(1) hn by (auto simp: codec_headers_def codec_body_def Let_def split: option.splits if_splits)
  with more show ?thesis by (cases c) (simp add: codec_headers_def codec_decode_def codec_more_def)
qed

lemma codec_status_line_incremental:
  assumes "codec_status_line c = (c', Inr None)" and "rc_state c = PS_StatusLine"
  shows "codec_status_line (codec_more c q) = codec_decode (codec_more c' q)"
proof (cases "find_sub crlf (rc_buffer c)")
  case None
  then have "c' = c" using assms(1) by (simp add: codec_status_line_def)
  then show ?thesis using assms(2) by (simp add: codec_decode_def codec_more_def)
next
  case (Some i)
  have le: "i + 2 \<le> length (rc_buffer c)" using find_sub_bound [OF Some] by (simp add: crlf_def)
  obtain v s r where p: "parse_status_line (from_utf8_lossy (take i (rc_buffer c))) = Inr (v, s, r)"
    using assms(1) Some by (auto simp: codec_status_line_def split: sum.splits)
  define d where "d = c\<lparr>rc_buffer := drop (i + 2) (rc_buffer c), rc_state := PS_Headers v s r\<rparr>"
  have "codec_headers d v s r = (c', Inr None)"
    using assms(1) Some p by (simp add: codec_status_line_def d_def)
  then have "codec_headers (codec_more d q) v s r = codec_decode (codec_more c' q)"
    by (rule codec_headers_incremental) (simp add: d_def)
  moreover have "codec_status_line (codec_more c q) = codec_headers (codec_more d q) v s r"
    using find_sub_mono [OF Some, of q] le p by (cases c) (simp add: codec_status_line_def codec_more_def d_def)
  ultimately show ?thesis by simp
qed

lemma codec_incremental:
  assumes "codec_decode c = (c', Inr None)"
  shows "codec_decode (codec_more c q) = codec_decode (codec_more c' q)"
proof (cases "rc_state c")
  case PS_StatusLine
  then show ?thesis
    using assms codec_status_line_incremental [of c c' q] by (simp add: codec_decode_def [of c] codec_decode_def [of "codec_more c q"])
      (simp add: codec_more_def)
next
  case (PS_Headers v s r)
  then show ?thesis
    using assms codec_headers_incremental [of c v s r c' q] by (simp add: codec_decode_def [of c] codec_decode_def [of "codec_more c q"])
      (simp add: codec_more_def)
next
  case (PS_Body v s r h n)
  then have "c' = c" using assms by (simp add: codec_decode_def codec_body_def split: if_splits)
  then show ?thesis by simp
qed

text \<open>Decoding never adds to the buffer, and a response takes something away.\<close>

lemma codec_body_shrinks:
  assumes "codec_body c v s r h n = (c', res)" and "rc_state c \<noteq> PS_StatusLine"
  shows "length (rc_buffer c') \<le> length (rc_buffer c) \<and> rc_max_size c' = rc_max_size c
    \<and> (res = Inr (Some y) \<longrightarrow> codec_size c' < codec_size c)"
  using assms by (auto simp: codec_body_def codec_size_def split: if_splits)

lemma codec_headers_shrinks:
  assumes "codec_headers c v s r = (c', res)" and "rc_state c \<noteq> PS_StatusLine"
  shows "length (rc_buffer c') \<le> length (rc_buffer c) \<and> rc_max_size c' = rc_max_size c
    \<and> (res = Inr (Some y) \<longrightarrow> codec_size c' < codec_size c)"
proof (cases "\<exists>h n. codec_parse_headers (rc_buffer c) = Inr (Some (h, n))")
  case True
  then obtain h n where hn: "codec_parse_headers (rc_buffer c) = Inr (Some (h, n))" by blast
  define l where "l = (case headers_content_length h of Some n \<Rightarrow> n | None \<Rightarrow> 0)"
  define d where "d = c\<lparr>rc_buffer := drop n (rc_buffer c), rc_state := PS_Body v s r h l\<rparr>"
  have d: "length (rc_buffer d) \<le> length (rc_buffer c)" "codec_size d \<le> codec_size c"
      "rc_max_size d = rc_max_size c" "rc_state d \<noteq> PS_StatusLine"
    using assms(2) by (simp_all add: d_def codec_size_def)
  show ?thesis
  proof (cases "l = 0")
    case True
    then have "c' = c\<lparr>rc_buffer := drop n (rc_buffer c), rc_state := PS_StatusLine\<rparr>"
      using assms(1) hn by (simp add: codec_headers_def l_def [symmetric])
    then show ?thesis using assms(2) by (simp add: codec_size_def less_Suc_eq_le)
  next
    case False
    then have "codec_body d v s r h l = (c', res)"
      using assms(1) hn by (simp add: codec_headers_def l_def [symmetric] d_def)
    from codec_body_shrinks [OF this d(4), of y] show ?thesis using d by auto
  qed
next
  case False
  then have "c' = c" and "res \<noteq> Inr (Some y)"
    using assms(1) by (auto simp: codec_headers_def split: sum.splits option.splits)
  then show ?thesis by simp
qed

lemma codec_decode_shrinks:
  assumes "codec_decode c = (c', res)"
  shows "length (rc_buffer c') \<le> length (rc_buffer c) \<and> rc_max_size c' = rc_max_size c
    \<and> (res = Inr (Some y) \<longrightarrow> codec_size c' < codec_size c)"
proof (cases "rc_state c")
  case PS_StatusLine
  show ?thesis
  proof (cases "\<exists>i v s r. find_sub crlf (rc_buffer c) = Some i
      \<and> parse_status_line (from_utf8_lossy (take i (rc_buffer c))) = Inr (v, s, r)")
    case True
    then obtain i v s r where i: "find_sub crlf (rc_buffer c) = Some i"
        "parse_status_line (from_utf8_lossy (take i (rc_buffer c))) = Inr (v, s, r)" by blast
    define d where "d = c\<lparr>rc_buffer := drop (i + 2) (rc_buffer c), rc_state := PS_Headers v s r\<rparr>"
    have "i + 2 \<le> length (rc_buffer c)" using find_sub_bound [OF i(1)] by (simp add: crlf_def)
    then have "codec_size d < codec_size c" using PS_StatusLine by (simp add: d_def codec_size_def)
    moreover have "codec_headers d v s r = (c', res)"
      using assms i PS_StatusLine by (simp add: codec_decode_def codec_status_line_def d_def)
    from codec_headers_shrinks [OF this, of y] have "length (rc_buffer c') \<le> length (rc_buffer d)
        \<and> rc_max_size c' = rc_max_size d \<and> (res = Inr (Some y) \<longrightarrow> codec_size c' < codec_size d)"
      by (simp add: d_def)
    ultimately show ?thesis by (auto simp: d_def)
  next
    case False
    then have "c' = c" and "res \<noteq> Inr (Some y)"
      using assms PS_StatusLine by (auto simp: codec_decode_def codec_status_line_def split: option.splits sum.splits)
    then show ?thesis by simp
  qed
qed (use assms codec_headers_shrinks codec_body_shrinks in \<open>auto simp: codec_decode_def\<close>)

subsection \<open>Responses on the wire\<close>

definition status_line_of :: "rtsp_response \<Rightarrow> bytes" where
  "status_line_of r = rp_version r @ [32] @ dec_string (unat (rp_status r)) @ [32] @ rp_reason r"

definition reason_ok :: "str \<Rightarrow> bool" where
  "reason_ok s \<longleftrightarrow> join_sp (split_whitespace s) = s \<and> utf8_valid s \<and> 13 \<notin> set s \<and> 10 \<notin> set s"

definition response_ok :: "rtsp_response \<Rightarrow> bool" where
  "response_ok r \<longleftrightarrow>
     rp_version r \<noteq> [] \<and> no_ws (rp_version r) \<and> utf8_valid (rp_version r) \<and> reason_ok (rp_reason r)
     \<and> headers_ok (rp_headers r) \<and> list_all header_ok (rp_headers r)
     \<and> (case headers_content_length (rp_headers r) of Some n \<Rightarrow> n | None \<Rightarrow> 0) = length (rp_body r)"

lemma encode_response_lines:
  "encode_response r = line_block (status_line_of r # map header_line (rp_headers r)) @ crlf @ rp_body r"
  by (simp add: encode_response_def status_line_of_def line_block_def comp_def)

lemma status_line_plain:
  assumes "response_ok r"
  shows "plain_line (status_line_of r) \<and> utf8_valid (status_line_of r)"
proof -
  have d: "graphic (dec_string (unat (rp_status r)))" by (rule dec_string_graphic)
  then have "13 \<notin> set (dec_string (unat (rp_status r))) \<and> 10 \<notin> set (dec_string (unat (rp_status r)))"
    using graphic_no_ws no_ws_line by blast
  moreover have "utf8_valid (dec_string (unat (rp_status r)) @ 32 # rp_reason r)"
    using assms d by (auto simp: response_ok_def reason_ok_def graphic_utf8 intro: utf8_valid_append)
  ultimately show ?thesis
    using assms no_ws_line [of "rp_version r"] utf8_valid_append [of "rp_version r"]
    by (simp add: status_line_of_def plain_line_def response_ok_def reason_ok_def)
qed

lemma parse_status_line_of:
  assumes "response_ok r"
  shows "parse_status_line (status_line_of r) = Inr (rp_version r, rp_status r, rp_reason r)"
proof -
  let ?d = "dec_string (unat (rp_status r))"
  have "no_ws ?d" "?d \<noteq> []" using dec_string_graphic dec_string_digits by (auto intro: graphic_no_ws)
  then have "split_whitespace (status_line_of r) = rp_version r # ?d # split_whitespace (rp_reason r)"
    using assms by (simp add: status_line_of_def response_ok_def split_whitespace_words)
  moreover have "parse_unsigned (2 ^ 16) ?d = Some (unat (rp_status r))"
    by (rule parse_dec_string) (use unat_less_u16 in simp)
  ultimately show ?thesis using assms by (simp add: parse_status_line_def response_ok_def reason_ok_def)
qed

lemma split_crlf_block:
  assumes "list_all plain_line ls" and "plain_line l"
  shows "split_crlf (line_block ls @ l) = ls @ [l]"
  using assms
proof (induction ls)
  case Nil
  then have "find_sub crlf l = None"
    using find_sub_skip [of l "[10]" "[]"] by (simp add: plain_line_def crlf_def)
  then show ?case by (simp add: line_block_def split_crlf.simps [of l])
next
  case (Cons k ls)
  have "find_sub crlf (k @ crlf @ line_block ls @ l) = Some (length k)"
    using Cons.prems by (intro find_sub_crlf) (simp add: plain_line_def)
  then have "split_crlf (k @ crlf @ line_block ls @ l) = k # split_crlf (line_block ls @ l)"
    by (subst split_crlf.simps) (simp add: crlf_def)
  with Cons show ?case by (simp add: line_block_def)
qed

lemma codec_header_lines_ok:
  assumes "list_all header_ok hs"
  shows "codec_header_lines (map header_line hs) h = Inr (foldl (\<lambda>h (k, v). headers_insert h k v) h hs)"
  using assms
proof (induction hs arbitrary: h)
  case (Cons kv hs)
  have "header_line kv \<noteq> []" by (simp add: header_line_def ascii_def)
  with Cons show ?case by (simp add: split_header_line split: prod.splits)
qed simp

lemma codec_parse_headers_ok:
  assumes "headers_ok hs" and "list_all header_ok hs"
  shows "codec_parse_headers (line_block (map header_line hs) @ crlf @ rest) =
    Inr (Some (hs, length (line_block (map header_line hs) @ crlf)))"
proof (cases "hs = []")
  case True
  then show ?thesis by (simp add: codec_parse_headers_def line_block_def crlf_def)
next
  case False
  let ?ls = "map header_line hs"
  have ls: "?ls \<noteq> []" "list_all plain_line ?ls" "list_all utf8_valid ?ls"
    using False assms(2) header_line_plain by (auto simp: list_all_iff)
  then obtain b bs ks where b: "?ls = (b # bs) # ks" "b \<noteq> 13"
    by (cases ?ls; cases "hd ?ls") (auto simp: plain_line_def)
  then have "take 2 (line_block ?ls @ crlf @ rest) \<noteq> crlf" by (simp add: line_block_def crlf_def)
  moreover have "find_sub (crlf @ crlf) (line_block ?ls @ crlf @ rest) = Some (length (line_block ?ls) - 2)"
    by (rule find_sub_block [OF ls(1,2)])
  moreover have take: "take (length (line_block ?ls) - 2) (line_block ?ls @ crlf @ rest) = line_block (butlast ?ls) @ last ?ls"
    by (rule take_block [OF ls(1)])
  moreover have "list_all plain_line (butlast ?ls)" "plain_line (last ?ls)"
      "list_all utf8_valid (butlast ?ls)" "utf8_valid (last ?ls)"
    using ls list_all_butlast_last by blast+
  then have "from_utf8_lossy (line_block (butlast ?ls) @ last ?ls) = line_block (butlast ?ls) @ last ?ls"
      "split_crlf (line_block (butlast ?ls) @ last ?ls) = ?ls"
    using split_crlf_block [of "butlast ?ls" "last ?ls"] ls(1)
    by (simp_all add: from_utf8_lossy_valid utf8_valid_append utf8_valid_block)
  moreover have "codec_header_lines ?ls [] = Inr hs"
    using codec_header_lines_ok [OF assms(2)] headers_rebuild [of "[]" hs] assms(1) by simp
  moreover have "length (line_block ?ls) \<ge> 2" using b(1) by (simp add: line_block_def crlf_def)
  ultimately show ?thesis by (simp add: codec_parse_headers_def crlf_def)
qed

lemma codec_decode_whole:
  assumes "response_ok r" and "rc_state c = PS_StatusLine" and "rc_buffer c = encode_response r @ rest"
  shows "codec_decode c = (c\<lparr>rc_buffer := rest\<rparr>, Inr (Some r))"
proof -
  let ?l = "status_line_of r" and ?hs = "rp_headers r"
  let ?b = "line_block (map header_line ?hs) @ crlf @ rp_body r @ rest"
  have b: "rc_buffer c = ?l @ crlf @ ?b" by (simp add: assms(3) encode_response_lines line_block_def)
  have l: "find_sub crlf (rc_buffer c) = Some (length ?l)"
    unfolding b by (rule find_sub_crlf) (use status_line_plain [OF assms(1)] in \<open>simp add: plain_line_def\<close>)
  have h: "codec_parse_headers ?b = Inr (Some (?hs, length (line_block (map header_line ?hs) @ crlf)))"
    using codec_parse_headers_ok [of ?hs] assms(1) by (simp add: response_ok_def)
  have drop: "drop (length ?l + 2) (rc_buffer c) = ?b" by (simp add: b crlf_def)
  have p: "parse_status_line (from_utf8_lossy (take (length ?l) (rc_buffer c))) =
      Inr (rp_version r, rp_status r, rp_reason r)"
    using status_line_plain [OF assms(1)] parse_status_line_of [OF assms(1)] by (simp add: b from_utf8_lossy_valid)
  have body: "(case headers_content_length ?hs of Some n \<Rightarrow> n | None \<Rightarrow> 0) = length (rp_body r)"
    using assms(1) by (simp add: response_ok_def)
  have "codec_decode c = codec_headers (c\<lparr>rc_buffer := ?b, rc_state := PS_Headers (rp_version r) (rp_status r) (rp_reason r)\<rparr>)
      (rp_version r) (rp_status r) (rp_reason r)"
    using assms(2) by (simp add: codec_decode_def codec_status_line_def l p drop [unfolded add_2_eq_Suc'])
  also have "\<dots> = (c\<lparr>rc_buffer := rest\<rparr>, Inr (Some r))"
    using assms(2) h body by (cases c; cases r) (simp add: codec_headers_def codec_body_def Let_def)
  finally show ?thesis .
qed

lemma codec_decode_part:
  assumes "response_ok r" and "rc_state c = PS_StatusLine" and "encode_response r = rc_buffer c @ q" and "q \<noteq> []"
  shows "\<exists>c'. codec_decode c = (c', Inr None)"
proof (rule ccontr)
  assume no: "\<not> (\<exists>c'. codec_decode c = (c', Inr None))"
  obtain c' res where dec: "codec_decode c = (c', res)" by force
  with no have "codec_decode (codec_more c q) = (codec_more c' q, res)" by (intro codec_stable) auto
  moreover have "codec_decode (codec_more c q) = ((codec_more c q)\<lparr>rc_buffer := []\<rparr>, Inr (Some r))"
    using codec_decode_whole [OF assms(1), of "codec_more c q" "[]"] assms(2,3) by (simp add: codec_more_def)
  ultimately have "codec_more c' q = (codec_more c q)\<lparr>rc_buffer := []\<rparr>" by simp
  then have "rc_buffer (codec_more c' q) = []" by (simp only:) simp
  with assms(4) show False by (simp add: codec_more_def)
qed

section \<open>The codecs as receivers of a stream\<close>

lemma server_decode_empty: "server_codec_decode [] = ([], Inr None)"
  by (simp add: server_codec_decode_def find_header_end_def)

interpretation server: chunk_receiver server_codec_decode request_encode request_seen request_ok
  "\<lambda>b p. b = p" length "\<lambda>b c. Inr (server_codec_feed b c)" "\<lambda>_. True"
proof unfold_locales
  fix x s rest
  assume "request_ok x" and "s = request_encode x @ rest"
  moreover have "request_encode x \<noteq> []" by (simp add: request_encode_def crlf_def)
  ultimately show "\<exists>s'. server_codec_decode s = (s', Inr (Some (request_seen x))) \<and> s' = rest \<and> length s' < length s"
    by (simp add: server_decode_whole flip: length_greater_0_conv)
qed (simp_all add: server_decode_part server_decode_empty server_codec_feed_def)

definition codec_holds :: "nat \<Rightarrow> rtsp_codec \<Rightarrow> bytes \<Rightarrow> bool" where
  "codec_holds m c p \<longleftrightarrow>
     rc_max_size c = m \<and> length (rc_buffer c) \<le> length p
     \<and> (\<forall>q. codec_decode (codec_more c q) =
          codec_decode \<lparr>rc_buffer = p @ q, rc_max_size = m, rc_state = PS_StatusLine\<rparr>)"

lemma codec_holds_fresh:
  "codec_holds m \<lparr>rc_buffer = p, rc_max_size = m, rc_state = PS_StatusLine\<rparr> p"
  by (simp add: codec_holds_def codec_more_def)

lemma codec_holds_decode:
  "codec_holds m c p \<Longrightarrow> codec_decode c = codec_decode \<lparr>rc_buffer = p, rc_max_size = m, rc_state = PS_StatusLine\<rparr>"
  unfolding codec_holds_def by (metis append.right_neutral codec_more_def rtsp_codec.surjective rtsp_codec.update_convs(1))

lemma codec_holds_wait:
  assumes "codec_holds m c p"
    and "codec_decode \<lparr>rc_buffer = p, rc_max_size = m, rc_state = PS_StatusLine\<rparr> = (d, Inr None)"
  shows "\<exists>c'. codec_decode c = (c', Inr None) \<and> codec_holds m c' p"
proof -
  have c: "codec_decode c = (d, Inr None)" using codec_holds_decode [OF assms(1)] assms(2) by simp
  have "length (rc_buffer d) \<le> length p \<and> rc_max_size d = m"
    using codec_decode_shrinks [OF assms(2)] by simp
  moreover have "codec_decode (codec_more d q) =
      codec_decode \<lparr>rc_buffer = p @ q, rc_max_size = m, rc_state = PS_StatusLine\<rparr>" for q
    using codec_incremental [OF assms(2), of q] by (simp add: codec_more_def)
  ultimately have "codec_holds m d p" by (simp add: codec_holds_def)
  with c show ?thesis by blast
qed

interpretation client: chunk_receiver codec_decode encode_response "\<lambda>r. r" response_ok
  "codec_holds m" codec_size codec_feed "\<lambda>n. n \<le> m" for m
proof unfold_locales
  fix s
  assume "codec_holds m s []"
  then show "\<exists>s'. codec_decode s = (s', Inr None) \<and> codec_holds m s' []"
    by (rule codec_holds_wait [where d = "\<lparr>rc_buffer = [], rc_max_size = m, rc_state = PS_StatusLine\<rparr>"])
      (simp add: codec_decode_def codec_status_line_def)
next
  fix x s rest
  assume "response_ok x" and h: "codec_holds m s (encode_response x @ rest)"
  then have "codec_decode s = (\<lparr>rc_buffer = rest, rc_max_size = m, rc_state = PS_StatusLine\<rparr>, Inr (Some x))"
    using codec_holds_decode [OF h] codec_decode_whole [of x _ rest] by simp
  then show "\<exists>s'. codec_decode s = (s', Inr (Some x)) \<and> codec_holds m s' rest \<and> codec_size s' < codec_size s"
    using codec_holds_fresh codec_decode_shrinks by blast
next
  fix x s p q
  assume "response_ok x" and h: "codec_holds m s p" and "encode_response x = p @ q" and "q \<noteq> []"
  then obtain d where "codec_decode \<lparr>rc_buffer = p, rc_max_size = m, rc_state = PS_StatusLine\<rparr> = (d, Inr None)"
    using codec_decode_part [of x "\<lparr>rc_buffer = p, rc_max_size = m, rc_state = PS_StatusLine\<rparr>" q] by auto
  then show "\<exists>s'. codec_decode s = (s', Inr None) \<and> codec_holds m s' p" by (rule codec_holds_wait [OF h])
next
  fix s p and c :: bytes
  assume h: "codec_holds m s p" and "length p + length c \<le> m"
  then have "codec_feed s c = Inr (codec_more s c)" by (simp add: codec_feed_def codec_holds_def codec_more_def)
  moreover have "codec_more (codec_more s c) q = codec_more s (c @ q)" for q by (simp add: codec_more_def)
  then have "codec_holds m (codec_more s c) (p @ c)"
    using h unfolding codec_holds_def by (auto simp: codec_more_def)
  ultimately show "\<exists>s'. codec_feed s c = Inr s' \<and> codec_holds m s' (p @ c)" by blast
qed simp_all

section \<open>Properties\<close>

text \<open>
  C10. Whatever requests a client encodes and however their bytes are cut into chunks, the
  server's parser returns exactly these requests, in order, and keeps no byte; the header
  \<open>Content-Length\<close> is there when the request has a body.
\<close>

theorem rtsp_requests_received:
  assumes "list_all request_ok rs" and "concat cs = concat (map request_encode rs)"
  shows "receive_chunks server_codec_decode (\<lambda>b c. Inr (server_codec_feed b c)) (\<lambda>b. Suc (length b)) [] cs =
    ([], Inr (map request_seen rs))"
proof -
  have "request_encode r \<noteq> []" for r by (simp add: request_encode_def crlf_def)
  then show ?thesis
    using server.receive_all [OF assms(1), where s = "[]" and p = "[]" and cs = cs and rounds = "\<lambda>b. Suc (length b)"] assms(2)
    by simp
qed

definition demo_request :: rtsp_request where
  "demo_request = \<lparr>rq_method = Method_SetParameter, rq_uri = ascii ''rtsp://10.0.0.2/1'',
     rq_headers = [(CSEQ, ascii ''3''), (CONTENT_TYPE, ascii ''text/parameters'')], rq_body = ascii ''volume: -20''\<rparr>"

lemma demo_request_len: "length (rq_body demo_request) = 11"
  by (simp add: demo_request_def ascii_def)

lemma demo_request_ok: "request_ok demo_request"
proof -
  have h: "header_ok (CSEQ, ascii ''3'')" "header_ok (CONTENT_TYPE, ascii ''text/parameters'')"
    by (simp_all add: header_ok_def graphic_utf8 graphic_trimmed graphic_def ascii_def CSEQ_def CONTENT_TYPE_def)
  have no: "\<not> headers_contains (rq_headers demo_request) CONTENT_LENGTH"
    by (simp add: demo_request_def headers_contains_def headers_get_def eq_ignore_ascii_case_def ascii_lower_def
        ascii_def CSEQ_def CONTENT_TYPE_def CONTENT_LENGTH_def)
  note len = demo_request_len
  have sent: "sent_headers demo_request =
      [(CSEQ, ascii ''3''), (CONTENT_TYPE, ascii ''text/parameters''), (CONTENT_LENGTH, dec_string 11)]"
    using no len by (auto simp: sent_headers_def) (simp add: demo_request_def)
  have d: "length (dec_string 11) = 2" by (simp add: dec_string.simps)
  have "server_content_length (sent_headers demo_request) = Inr (length (rq_body demo_request))"
    by (rule sent_length [OF no]) (simp add: len)
  moreover have "header_size demo_request + 4 \<le> MAX_HEADER_SIZE"
    by (simp add: header_size_def request_lines_def sent line_block_def header_line_def d MAX_HEADER_SIZE_def)
      (simp add: request_line_of_def demo_request_def ascii_def CSEQ_def CONTENT_TYPE_def CONTENT_LENGTH_def crlf_def)
  moreover have "graphic (ascii ''rtsp://10.0.0.2/1'')" by (simp add: graphic_def ascii_def)
  moreover have "headers_ok (rq_headers demo_request)"
    by (simp add: headers_ok_def demo_request_def ascii_lower_def ascii_def CSEQ_def CONTENT_TYPE_def)
  ultimately show ?thesis
    using h len unfolding request_ok_def
    by (simp add: MAX_BODY_SIZE_def) (simp add: demo_request_def graphic_no_ws graphic_utf8)
qed

theorem rtsp_requests_received_witness:
  "receive_chunks server_codec_decode (\<lambda>b c. Inr (server_codec_feed b c)) (\<lambda>b. Suc (length b)) []
     [take 7 (request_encode demo_request), drop 7 (request_encode demo_request) @ request_encode demo_request] =
   ([], Inr [request_seen demo_request, request_seen demo_request])"
  using rtsp_requests_received [of "[demo_request, demo_request]"
      "[take 7 (request_encode demo_request), drop 7 (request_encode demo_request) @ request_encode demo_request]"]
    demo_request_ok by (simp del: receive_chunks.simps)

text \<open>
  C13. Whatever responses a server encodes and however their bytes are cut into chunks, the
  client's parser returns exactly these responses, in order, as long as a response and a
  chunk together fit into its bounded buffer.
\<close>

theorem rtsp_responses_received:
  assumes "list_all response_ok rs" and "concat cs = concat (map encode_response rs)"
    and "\<forall>r\<in>set rs. \<forall>c\<in>set cs. length (encode_response r) + length c \<le> m"
  shows "\<exists>c'. receive_chunks codec_decode codec_feed (\<lambda>c. Suc (codec_size c)) (codec_with_max_size codec_new m) cs =
    (c', Inr rs)"
proof -
  have "encode_response r \<noteq> []" for r by (simp add: encode_response_def crlf_def)
  moreover have "codec_holds m (codec_with_max_size codec_new m) []"
    using codec_holds_fresh [of m "[]"] by (simp add: codec_with_max_size_def codec_new_def)
  ultimately show ?thesis
    using client.receive_all [OF assms(1), where p = "[]" and cs = cs and m = m
        and s = "codec_with_max_size codec_new m" and rounds = "\<lambda>c. Suc (codec_size c)"] assms(2,3)
    by auto
qed

definition demo_response :: rtsp_response where
  "demo_response = response_build (response_text_body (response_cseq (response_builder_new 200) 3) (ascii ''volume: -20''))"

lemma response_build_ok:
  assumes "headers_ok (rb_headers b)" and "list_all header_ok (rb_headers b)"
    and "reason_ok (status_reason (rb_status b))"
    and "case rb_body b of None \<Rightarrow> headers_content_length (rb_headers b) = None | Some body \<Rightarrow> length body < 2 ^ 64"
  shows "response_ok (response_build b)"
proof (cases "rb_body b")
  case None
  then show ?thesis
    using assms
    by (simp add: response_ok_def response_build_def graphic_no_ws graphic_utf8 graphic_def ascii_def)
next
  case (Some body)
  let ?h = "headers_insert (rb_headers b) CONTENT_LENGTH (dec_string (length body))"
  have "headers_get ?h CONTENT_LENGTH = Some (dec_string (length body))"
    by (simp add: headers_get_insert assms(1) eq_ignore_ascii_case_def)
  then have "headers_content_length ?h = Some (length body)"
    using assms(4) Some by (simp add: headers_content_length_def parse_dec_string)
  moreover have "list_all header_ok ?h"
    using assms(2) content_length_header_ok by (auto simp: headers_insert_def list_all_iff)
  ultimately show ?thesis
    using assms(1,3) Some
    by (simp add: response_ok_def response_build_def headers_ok_insert graphic_no_ws graphic_utf8 graphic_def ascii_def)
qed

lemma demo_response_ok: "response_ok demo_response"
  unfolding demo_response_def
proof (rule response_build_ok)
  let ?b = "response_text_body (response_cseq (response_builder_new 200) 3) (ascii ''volume: -20'')"
  have d: "header_ok (CSEQ, dec_string 3)" "header_ok (CONTENT_TYPE, ascii ''text/parameters'')"
    by (simp_all add: header_ok_def graphic_utf8 graphic_trimmed graphic_def ascii_def CSEQ_def CONTENT_TYPE_def
        dec_string.simps)
  show "headers_ok (rb_headers ?b)"
    by (simp add: response_text_body_def response_cseq_def response_header_def response_builder_new_def headers_ok_insert)
  show "list_all header_ok (rb_headers ?b)"
    using d
    by (simp add: response_text_body_def response_cseq_def response_header_def response_builder_new_def headers_insert_def)
  have "graphic (ascii ''OK'')" "no_ws (ascii ''OK'')" by (simp_all add: graphic_no_ws graphic_def ascii_def)
  then show "reason_ok (status_reason (rb_status ?b))"
    by (simp add: response_text_body_def response_cseq_def response_header_def response_builder_new_def status_reason_def
        reason_ok_def split_whitespace_word graphic_utf8, simp add: ascii_def split_whitespace_word)
  show "case rb_body ?b of None \<Rightarrow> headers_content_length (rb_headers ?b) = None | Some body \<Rightarrow> length body < 2 ^ 64"
    by (simp add: response_text_body_def response_header_def ascii_def)
qed

theorem rtsp_responses_received_witness:
  "\<exists>c'. receive_chunks codec_decode codec_feed (\<lambda>c. Suc (codec_size c))
     (codec_with_max_size codec_new (3 * length (encode_response demo_response)))
     [take 7 (encode_response demo_response), drop 7 (encode_response demo_response) @ encode_response demo_response] =
   (c', Inr [demo_response, demo_response])"
  by (rule rtsp_responses_received) (simp_all add: demo_response_ok)

text \<open>
  C17. The client's parser works incrementally: with more bytes it gives what it would give on
  all bytes at once. Where it waits, it continues from its saved parse state; where it has a
  response or an error, later bytes do not change it and stay in the buffer.
\<close>

theorem rtsp_codec_incremental:
  "codec_decode (codec_more c q) =
     (case codec_decode c of
        (c', Inr None) \<Rightarrow> codec_decode (codec_more c' q)
      | (c', res) \<Rightarrow> (codec_more c' q, res))"
proof -
  obtain c' res where dec: "codec_decode c = (c', res)" by force
  show ?thesis
  proof (cases "res = Inr None")
    case True
    then show ?thesis using dec codec_incremental [of c c' q] by simp
  next
    case False
    with dec codec_stable [OF dec False, of q] show ?thesis by (auto split: sum.splits option.splits)
  qed
qed

text \<open>
  A malformed request blocks its connection for good: an error of the server's parser on
  a complete header section consumes nothing, so every later call on the same connection
  gives the same error, whatever bytes arrive.
\<close>

theorem server_codec_error_sticky:
  assumes "server_codec_decode b = (b', Inl e)" and "find_header_end b \<noteq> None"
  shows "b' = b \<and> server_codec_decode (b @ q) = (b @ q, Inl e)"
proof -
  obtain i where i: "find_header_end b = Some i" using assms(2) by blast
  then have "find_header_end (b @ q) = Some i" unfolding find_header_end_def by (rule find_sub_mono)
  moreover have "i \<le> length b" using find_sub_bound i unfolding find_header_end_def by fastforce
  ultimately show ?thesis
    using assms(1) i unfolding server_codec_decode_def by (auto split: sum.splits if_splits)
qed

definition demo_bad_line :: bytes where
  "demo_bad_line = ascii ''BREW'' @ [32] @ ascii ''/'' @ [32] @ ascii ''RTSP/1.0''"

lemma demo_bad_decode:
  "find_header_end (line_block [demo_bad_line] @ crlf) = Some (length demo_bad_line)"
  "server_codec_decode (line_block [demo_bad_line] @ crlf) =
     (line_block [demo_bad_line] @ crlf, Inl (InvalidMethod (ascii ''BREW'')))"
proof -
  have g: "graphic (ascii ''BREW'')" "graphic (ascii ''/'')" "graphic (ascii ''RTSP/1.0'')"
    by (simp_all add: graphic_def ascii_def)
  have plain: "plain_line demo_bad_line" by (simp add: plain_line_def demo_bad_line_def ascii_def)
  show e: "find_header_end (line_block [demo_bad_line] @ crlf) = Some (length demo_bad_line)"
    using find_sub_block [of "[demo_bad_line]" "[]"] plain
    by (simp add: find_header_end_def) (simp add: line_block_def crlf_def)
  have take: "take (length demo_bad_line) (line_block [demo_bad_line] @ crlf) = demo_bad_line"
    by (simp add: line_block_def)
  have "rust_lines demo_bad_line = [demo_bad_line]" using plain by (simp add: plain_line_def rust_lines_last)
  moreover have "split_whitespace demo_bad_line = [ascii ''BREW'', ascii ''/'', ascii ''RTSP/1.0'']"
    using g by (simp add: demo_bad_line_def split_whitespace_words split_whitespace_word graphic_no_ws)
  moreover have "method_from_str (ascii ''BREW'') = None"
  proof -
    have "to_uppercase (ascii ''BREW'') = ascii ''BREW''" by (rule to_uppercase_plain) (simp add: ascii_def)
    then show ?thesis by (simp add: method_from_str_def method_table_def) (simp add: ascii_def)
  qed
  ultimately have "server_parse_headers demo_bad_line = Inl (InvalidMethod (ascii ''BREW''))"
    by (simp add: server_parse_headers_def)
  moreover have "utf8_valid demo_bad_line" by (simp add: demo_bad_line_def ascii_def)
  ultimately show "server_codec_decode (line_block [demo_bad_line] @ crlf) =
     (line_block [demo_bad_line] @ crlf, Inl (InvalidMethod (ascii ''BREW'')))"
    by (simp add: server_codec_decode_def e take del: take_append)
qed

theorem server_codec_error_sticky_witness:
  "server_codec_decode ((line_block [demo_bad_line] @ crlf) @ request_encode demo_request) =
     ((line_block [demo_bad_line] @ crlf) @ request_encode demo_request, Inl (InvalidMethod (ascii ''BREW'')))"
  using server_codec_error_sticky [OF demo_bad_decode(2)] demo_bad_decode(1) by simp

end
