(* ===== verification/Encrypted_Rtsp.thy ===== *)
theory Encrypted_Rtsp
  imports Secure_Channel Rtsp_Codec
begin

text \<open>
  The control connection of the receiver, \<open>src/receiver/ap2/encrypted_rtsp.rs\<close>: the encrypted
  channel in front of the RTSP parser, and the connection that returns all requests of a
  chunk. \<open>None\<close> is the panic of a nonce counter that overflows.
\<close>

record encrypted_rtsp_codec =
  er_rtsp :: bytes
  er_channel :: encrypted_channel
  er_decrypted :: bytes

datatype codec_error = Codec_Encryption encryption_error | Codec_Parse parse_error

definition er_new :: encrypted_rtsp_codec where
  "er_new = \<lparr>er_rtsp = [], er_channel = channel_disabled, er_decrypted = []\<rparr>"

definition er_enable_encryption :: "encrypted_rtsp_codec \<Rightarrow> bytes \<Rightarrow> bytes \<Rightarrow> encrypted_rtsp_codec" where
  "er_enable_encryption c encrypt_key decrypt_key =
     c\<lparr>er_channel := channel_enable (er_channel c) encrypt_key decrypt_key\<rparr>"

definition er_disable_encryption :: "encrypted_rtsp_codec \<Rightarrow> encrypted_rtsp_codec" where
  "er_disable_encryption c = c\<lparr>er_channel := channel_disable (er_channel c)\<rparr>"

definition er_feed :: "encrypted_rtsp_codec \<Rightarrow> bytes \<Rightarrow> encrypted_rtsp_codec" where
  "er_feed c data = c\<lparr>er_channel := channel_feed (er_channel c) data\<rparr>"

definition er_decode ::
    "aead \<Rightarrow> encrypted_rtsp_codec \<Rightarrow>
     (encrypted_rtsp_codec \<times> (codec_error, rtsp_request option) result) option" where
  "er_decode aead_dec c =
     (case channel_decrypt_all aead_dec (er_channel c) of
        None \<Rightarrow> None
      | Some (ch, Inl e) \<Rightarrow> Some (c\<lparr>er_channel := ch\<rparr>, Inl (Codec_Encryption e))
      | Some (ch, Inr frames) \<Rightarrow>
          (let decrypted = er_decrypted c @ concat frames;
               rtsp = (if decrypted \<noteq> [] then server_codec_feed (er_rtsp c) decrypted else er_rtsp c)
           in case server_codec_decode rtsp of (rtsp', res) \<Rightarrow>
                Some (\<lparr>er_rtsp = rtsp', er_channel = ch, er_decrypted = []\<rparr>, map_sum Codec_Parse (\<lambda>r. r) res)))"

definition er_encode_response ::
    "aead \<Rightarrow> encrypted_rtsp_codec \<Rightarrow> bytes \<Rightarrow> (encrypted_rtsp_codec \<times> (codec_error, bytes) result) option" where
  "er_encode_response aead_enc c response =
     map_option (\<lambda>(ch, r). (c\<lparr>er_channel := ch\<rparr>, map_sum Codec_Encryption (\<lambda>b. b) r))
       (channel_encrypt aead_enc (er_channel c) response)"

definition er_clear :: "encrypted_rtsp_codec \<Rightarrow> encrypted_rtsp_codec" where
  "er_clear c = \<lparr>er_rtsp = [], er_channel = channel_clear (er_channel c), er_decrypted = []\<rparr>"

datatype connection_state = Conn_Plaintext | Conn_Encrypted | Conn_Error

record encrypted_connection =
  ecn_codec :: encrypted_rtsp_codec
  ecn_peer_addr :: socket_addr
  ecn_state :: connection_state

definition ecn_new :: "socket_addr \<Rightarrow> encrypted_connection" where
  "ecn_new peer_addr = \<lparr>ecn_codec = er_new, ecn_peer_addr = peer_addr, ecn_state = Conn_Plaintext\<rparr>"

definition ecn_enable_encryption :: "encrypted_connection \<Rightarrow> bytes \<Rightarrow> bytes \<Rightarrow> encrypted_connection" where
  "ecn_enable_encryption c encrypt_key decrypt_key =
     c\<lparr>ecn_codec := er_enable_encryption (ecn_codec c) encrypt_key decrypt_key, ecn_state := Conn_Encrypted\<rparr>"

section \<open>The loop of \<open>on_data\<close>\<close>

lemma channel_decrypt_none:
  "channel_decrypt aead_dec c = Some (c', Inr None) \<Longrightarrow> c' = c"
  by (auto simp: channel_decrypt_def Let_def split: if_splits sum.splits bind_splits)

lemma channel_decrypt_all_cases:
  assumes "channel_decrypt_all aead_dec c = Some (c', Inr fs)"
  obtains "channel_decrypt aead_dec c = Some (c, Inr None)" "c' = c" "fs = []"
    | d f gs where "channel_decrypt aead_dec c = Some (d, Inr (Some f))" "fs = f # gs"
        "channel_decrypt_all aead_dec d = Some (c', Inr gs)"
  using assms channel_decrypt_none
  by (subst (asm) channel_decrypt_all.simps)
    (fastforce split: option.splits prod.splits sum.splits simp: map_sum_eq_Inr)

text \<open>After \<open>decrypt_all\<close> no whole frame is left; with a frame the input got shorter.\<close>

lemma channel_decrypt_all_rest:
  "channel_decrypt_all aead_dec c = Some (c', Inr fs) \<Longrightarrow>
   channel_decrypt aead_dec c' = Some (c', Inr None)
   \<and> (if fs = [] then c' = c else length (ec_input_buffer c') < length (ec_input_buffer c))"
proof (induction fs arbitrary: c)
  case Nil
  then show ?case by (auto elim: channel_decrypt_all_cases)
next
  case (Cons f fs)
  from Cons.prems obtain d where d: "channel_decrypt aead_dec c = Some (d, Inr (Some f))"
      "channel_decrypt_all aead_dec d = Some (c', Inr fs)"
    by (auto elim: channel_decrypt_all_cases)
  with Cons.IH [of d] channel_decrypt_shrinks [OF d(1)] show ?case by (auto split: if_splits)
qed

lemma server_decode_shrinks:
  "server_codec_decode b = (b', Inr (Some r)) \<Longrightarrow> length b' < length b"
  unfolding server_codec_decode_def find_header_end_def
  by (auto split: option.splits if_splits sum.splits dest!: find_sub_bound simp: crlf_def)

lemma er_decode_frames:
  assumes "channel_decrypt_all aead_dec (er_channel c) = Some (ch, Inr fs)"
  shows "er_decode aead_dec c =
    (case server_codec_decode (er_rtsp c @ er_decrypted c @ concat fs) of (b, res) \<Rightarrow>
       Some (\<lparr>er_rtsp = b, er_channel = ch, er_decrypted = []\<rparr>, map_sum Codec_Parse (\<lambda>r. r) res))"
proof -
  define d where "d = er_decrypted c @ concat fs"
  have rtsp: "(if d \<noteq> [] then server_codec_feed (er_rtsp c) d else er_rtsp c) = er_rtsp c @ d"
    by (simp add: server_codec_feed_def)
  show ?thesis
    unfolding er_decode_def assms d_def [symmetric]
    by (simp only: option.case prod.case sum.case Let_def rtsp flip: d_def)
qed

lemma er_decode_shrinks:
  assumes "er_decode aead_dec c = Some (c', Inr (Some r))"
  shows "(c', c) \<in> measures [\<lambda>c. length (ec_input_buffer (er_channel c)), \<lambda>c. length (er_rtsp c) + length (er_decrypted c)]"
proof -
  obtain ch fs where ch: "channel_decrypt_all aead_dec (er_channel c) = Some (ch, Inr fs)"
    using assms by (auto simp: er_decode_def split: option.splits prod.splits sum.splits)
  obtain b where b: "server_codec_decode (er_rtsp c @ er_decrypted c @ concat fs) = (b, Inr (Some r))"
      "c' = \<lparr>er_rtsp = b, er_channel = ch, er_decrypted = []\<rparr>"
    using assms unfolding er_decode_frames [OF ch] by (auto simp: map_sum_eq_Inr split: prod.splits)
  show ?thesis
    using channel_decrypt_all_rest [OF ch] server_decode_shrinks [OF b(1)] b(2)
    by (auto split: if_splits)
qed

function er_decode_requests ::
    "aead \<Rightarrow> encrypted_rtsp_codec \<Rightarrow>
     (encrypted_rtsp_codec \<times> (codec_error, rtsp_request list) result) option" where
  "er_decode_requests aead_dec c =
     (case er_decode aead_dec c of
        None \<Rightarrow> None
      | Some (c', Inl e) \<Rightarrow> Some (c', Inl e)
      | Some (c', Inr None) \<Rightarrow> Some (c', Inr [])
      | Some (c', Inr (Some r)) \<Rightarrow>
          map_option (map_prod (\<lambda>c. c) (map_sum (\<lambda>e. e) ((#) r))) (er_decode_requests aead_dec c'))"
  by pat_completeness auto

termination
  by (relation "inv_image (measures [\<lambda>c. length (ec_input_buffer (er_channel c)),
        \<lambda>c. length (er_rtsp c) + length (er_decrypted c)]) snd") (auto dest: er_decode_shrinks)

declare er_decode_requests.simps [simp del]

definition ecn_on_data ::
    "aead \<Rightarrow> encrypted_connection \<Rightarrow> bytes \<Rightarrow>
     (encrypted_connection \<times> (codec_error, rtsp_request list) result) option" where
  "ecn_on_data aead_dec c data =
     map_option (map_prod (\<lambda>codec. c\<lparr>ecn_codec := codec\<rparr>) (\<lambda>r. r))
       (er_decode_requests aead_dec (er_feed (ecn_codec c) data))"

definition ecn_encode ::
    "aead \<Rightarrow> encrypted_connection \<Rightarrow> bytes \<Rightarrow> (encrypted_connection \<times> (codec_error, bytes) result) option" where
  "ecn_encode aead_enc c response =
     map_option (map_prod (\<lambda>codec. c\<lparr>ecn_codec := codec\<rparr>) (\<lambda>r. r))
       (er_encode_response aead_enc (ecn_codec c) response)"

section \<open>Lemmas\<close>

lemma er_decode_requests_step:
  "er_decode aead_dec c = Some (c', Inr (Some r)) \<Longrightarrow>
   er_decode_requests aead_dec c =
     map_option (map_prod (\<lambda>c. c) (map_sum (\<lambda>e. e) ((#) r))) (er_decode_requests aead_dec c')"
  "er_decode aead_dec c = Some (c', Inr None) \<Longrightarrow> er_decode_requests aead_dec c = Some (c', Inr [])"
  "er_decode aead_dec c = Some (c', Inl e) \<Longrightarrow> er_decode_requests aead_dec c = Some (c', Inl e)"
  by (subst er_decode_requests.simps; simp)+

text \<open>With no whole frame in the channel the loop is the loop of the RTSP parser.\<close>

lemma er_loop_drain:
  assumes "channel_decrypt aead_dec ch = Some (ch, Inr None)"
  shows "length b < n \<Longrightarrow>
    er_decode_requests aead_dec \<lparr>er_rtsp = b, er_channel = ch, er_decrypted = []\<rparr> =
      (case drain server_codec_decode n b of (b', r) \<Rightarrow>
         Some (\<lparr>er_rtsp = b', er_channel = ch, er_decrypted = []\<rparr>, map_sum Codec_Parse (\<lambda>r. r) r))"
proof (induction n arbitrary: b)
  case (Suc n)
  let ?c = "\<lambda>b. \<lparr>er_rtsp = b, er_channel = ch, er_decrypted = []\<rparr>"
  obtain b' res where dec: "server_codec_decode b = (b', res)" by force
  have er: "er_decode aead_dec (?c b) = Some (?c b', map_sum Codec_Parse (\<lambda>r. r) res)"
    using er_decode_frames [of aead_dec "?c b" ch "[]"] channel_decrypt_all_stop [OF assms] dec by simp
  show ?case
  proof (cases "\<exists>r. res = Inr (Some r)")
    case True
    then obtain r where r: "res = Inr (Some r)" by blast
    have "length b' < n" using server_decode_shrinks [of b b' r] dec r Suc.prems by simp
    from Suc.IH [OF this] show ?thesis
      using er r dec er_decode_requests_step(1) [of aead_dec "?c b" "?c b'" r]
      by (cases "drain server_codec_decode n b'"; cases "snd (drain server_codec_decode n b')") simp_all
  next
    case False
    then show ?thesis
      using er dec er_decode_requests_step(2,3) [of aead_dec "?c b" "?c b'"]
      by (cases res) (auto split: option.splits)
  qed
qed simp

text \<open>The loop after a decryption that gave whole frames.\<close>

lemma er_loop_frames:
  assumes "channel_decrypt_all aead_dec (er_channel c) = Some (ch, Inr fs)" and "er_decrypted c = []"
  shows "er_decode_requests aead_dec c =
    er_decode_requests aead_dec \<lparr>er_rtsp = er_rtsp c @ concat fs, er_channel = ch, er_decrypted = []\<rparr>"
    (is "_ = er_decode_requests aead_dec ?d")
proof -
  have "channel_decrypt aead_dec ch = Some (ch, Inr None)" using channel_decrypt_all_rest [OF assms(1)] by simp
  then have "channel_decrypt_all aead_dec (er_channel ?d) = Some (ch, Inr [])" by (simp add: channel_decrypt_all_stop)
  from er_decode_frames [OF this] er_decode_frames [OF assms(1)] assms(2)
  have "er_decode aead_dec c = er_decode aead_dec ?d" by simp
  then show ?thesis by (simp add: er_decode_requests.simps [of aead_dec c] er_decode_requests.simps [of aead_dec ?d])
qed

text \<open>A connection that gets the chunks of its stream one after the other.\<close>

primrec ecn_receive ::
    "aead \<Rightarrow> encrypted_connection \<Rightarrow> bytes list \<Rightarrow>
     (encrypted_connection \<times> (codec_error, rtsp_request list) result) option" where
  "ecn_receive aead_dec c [] = Some (c, Inr [])"
| "ecn_receive aead_dec c (chunk # later) =
     (case ecn_on_data aead_dec c chunk of
        None \<Rightarrow> None
      | Some (c', Inl e) \<Rightarrow> Some (c', Inl e)
      | Some (c', Inr rs) \<Rightarrow>
          map_option (map_prod (\<lambda>c. c) (map_sum (\<lambda>e. e) ((@) rs))) (ecn_receive aead_dec c' later))"

text \<open>
  Where a connection stands in its streams: \<open>ms\<close> are the messages whose bytes have not been
  decrypted yet, \<open>xs\<close> the requests that have not been returned, and \<open>later\<close> the bytes to come.
\<close>

definition ecn_at ::
    "aead \<Rightarrow> encrypted_connection \<Rightarrow> bytes list \<Rightarrow> rtsp_request list \<Rightarrow> bytes \<Rightarrow> bool" where
  "ecn_at aead_enc c ms xs later \<longleftrightarrow>
     (let ch = er_channel (ecn_codec c) in
      ec_enabled ch \<and> length (ec_decrypt_key ch) = 32 \<and> (\<forall>m\<in>set ms. length m \<le> 65535)
      \<and> unat (ec_decrypt_nonce ch) + length ms < 2 ^ 64
      \<and> ec_input_buffer ch @ later = channel_wire aead_enc (ec_decrypt_key ch) (ec_decrypt_nonce ch) ms
      \<and> er_decrypted (ecn_codec c) = []
      \<and> list_all request_ok xs \<and> er_rtsp (ecn_codec c) @ concat ms = concat (map request_encode xs))"

lemma ecn_on_data_step:
  assumes ok: "aead_correct aead_enc aead_dec" and at: "ecn_at aead_enc c ms xs (chunk @ later)"
  shows "\<exists>c' ms' ys zs. ecn_on_data aead_dec c chunk = Some (c', Inr (map request_seen ys))
    \<and> xs = ys @ zs \<and> ecn_at aead_enc c' ms' zs later \<and> (later = [] \<longrightarrow> zs = [])"
proof -
  let ?ch = "channel_feed (er_channel (ecn_codec c)) chunk" and ?p0 = "er_rtsp (ecn_codec c)"
  from at obtain j b where j: "j \<le> length ms" "channel_decrypt_all aead_dec ?ch =
        Some (?ch\<lparr>ec_input_buffer := b, ec_decrypt_nonce := ec_decrypt_nonce ?ch + of_nat j\<rparr>, Inr (take j ms))"
      "b @ later = channel_wire aead_enc (ec_decrypt_key ?ch) (ec_decrypt_nonce ?ch + of_nat j) (drop j ms)"
      "later = [] \<longrightarrow> j = length ms"
    using channel_decrypt_all_prefix [OF ok, of ?ch ms later] by (auto simp: ecn_at_def Let_def channel_feed_def)
  define ch' where "ch' = ?ch\<lparr>ec_input_buffer := b, ec_decrypt_nonce := ec_decrypt_nonce ?ch + of_nat j\<rparr>"
  define p where "p = ?p0 @ concat (take j ms)"
  have all: "channel_decrypt_all aead_dec (er_channel (er_feed (ecn_codec c) chunk)) = Some (ch', Inr (take j ms))"
    using j(2) by (simp add: er_feed_def ch'_def)
  have stop: "channel_decrypt aead_dec ch' = Some (ch', Inr None)" using channel_decrypt_all_rest [OF all] by simp
  have xs: "list_all request_ok xs" and eq: "p @ concat (drop j ms) = concat (map request_encode xs)"
    using at by (simp_all add: ecn_at_def Let_def p_def flip: concat_append)
  from server.drain_prefix [OF xs refl eq, of "Suc (length p)"] obtain p' k where
      k: "drain server_codec_decode (Suc (length p)) p = (p', Inr (map request_seen (take k xs)))"
      "p' @ concat (drop j ms) = concat (map request_encode (drop k xs))" "concat (drop j ms) = [] \<longrightarrow> drop k xs = []"
    by auto
  let ?codec = "\<lparr>er_rtsp = p', er_channel = ch', er_decrypted = []\<rparr>"
  have "er_decode_requests aead_dec (er_feed (ecn_codec c) chunk) = Some (?codec, Inr (map request_seen (take k xs)))"
    using er_loop_frames [OF all] er_loop_drain [OF stop, of p "Suc (length p)"] at k(1)
    by (simp add: er_feed_def ecn_at_def Let_def p_def)
  then have "ecn_on_data aead_dec c chunk = Some (c\<lparr>ecn_codec := ?codec\<rparr>, Inr (map request_seen (take k xs)))"
    by (simp add: ecn_on_data_def)
  moreover have "unat (ec_decrypt_nonce ?ch + of_nat j) \<le> unat (ec_decrypt_nonce ?ch) + j" by (rule unat_add_of_nat_le)
  then have "ecn_at aead_enc (c\<lparr>ecn_codec := ?codec\<rparr>) (drop j ms) (drop k xs) later"
    using at j k(2) by (auto simp: ecn_at_def Let_def ch'_def channel_feed_def list_all_iff dest: in_set_dropD)
  moreover have "later = [] \<longrightarrow> drop k xs = []" using j(4) k(3) by auto
  ultimately show ?thesis by (metis append_take_drop_id)
qed

lemma ecn_receive_ok:
  assumes "aead_correct aead_enc aead_dec"
  shows "ecn_at aead_enc c ms xs (concat cs) \<Longrightarrow> cs = [] \<longrightarrow> xs = [] \<Longrightarrow>
    \<exists>c'. ecn_receive aead_dec c cs = Some (c', Inr (map request_seen xs))"
proof (induction cs arbitrary: c ms xs)
  case (Cons chunk cs)
  have "ecn_at aead_enc c ms xs (chunk @ concat cs)" using Cons.prems(1) by simp
  from ecn_on_data_step [OF assms this] obtain c' ms' ys zs where
      s: "ecn_on_data aead_dec c chunk = Some (c', Inr (map request_seen ys))" "xs = ys @ zs"
      "ecn_at aead_enc c' ms' zs (concat cs)" "concat cs = [] \<longrightarrow> zs = []"
    by blast
  then obtain c2 where "ecn_receive aead_dec c' cs = Some (c2, Inr (map request_seen zs))"
    using Cons.IH [OF s(3)] by auto
  with s show ?case by simp
qed simp

section \<open>Properties\<close>

text \<open>
  C7. The encrypted control connection end to end. A sender encodes requests, cuts the text in
  any way into messages of up to 65535 bytes and encrypts them with the key that the
  connection was given; however the ciphertext is cut into chunks, the connection returns
  exactly the requests, in order.
\<close>

theorem encrypted_control_connection:
  assumes "aead_correct aead_enc aead_dec" and "length k = 32"
    and "list_all request_ok rs" and "concat msgs = concat (map request_encode rs)"
    and "list_all (\<lambda>m. length m \<le> 65535) msgs" and "length msgs < 2 ^ 64"
    and "channel_send_all aead_enc (channel_new k k') msgs = Some (s', Inr w)" and "concat cs = w"
  shows "\<exists>c'. ecn_receive aead_dec (ecn_enable_encryption (ecn_new addr) k'' k) cs =
    Some (c', Inr (map request_seen rs))"
proof -
  have small: "\<forall>m\<in>set msgs. length m \<le> 65535" using assms(5) by (simp add: list_all_iff)
  have w: "w = channel_wire aead_enc k 0 msgs"
    using channel_send_all_ok [OF assms(1), of "channel_new k k'" msgs] small assms(2,6,7) by (simp add: channel_new_def)
  have "ecn_at aead_enc (ecn_enable_encryption (ecn_new addr) k'' k) msgs rs (concat cs)"
    using assms(2,3,4,6,8) small w
    by (simp add: ecn_at_def ecn_enable_encryption_def ecn_new_def er_enable_encryption_def er_new_def
        channel_enable_def Let_def)
  moreover have "cs = [] \<longrightarrow> rs = []"
  proof
    assume "cs = []"
    with assms(8) w have "msgs = []" by (cases msgs) (simp_all add: channel_frame_def le_bytes_2)
    with assms(4) show "rs = []" by (cases rs) (simp_all add: request_encode_def crlf_def)
  qed
  ultimately show ?thesis using ecn_receive_ok [OF assms(1)] by blast
qed

theorem encrypted_control_connection_witness:
  "\<exists>s' w c'. channel_send_all demo_enc (channel_new (replicate 32 7) []) [take 20 (request_encode demo_request), drop 20 (request_encode demo_request)]
       = Some (s', Inr w)
     \<and> ecn_receive demo_dec (ecn_enable_encryption (ecn_new (SocketV4 0 7000)) [] (replicate 32 7)) [take 5 w, drop 5 w] =
         Some (c', Inr [request_seen demo_request])"
proof -
  let ?ms = "[take 20 (request_encode demo_request), drop 20 (request_encode demo_request)]"
  have small: "length (request_encode demo_request) \<le> 65550"
    using demo_request_ok header_size_block [of demo_request]
    by (simp add: request_encode_lines request_ok_def MAX_HEADER_SIZE_def crlf_def demo_request_len)
  have list: "list_all (\<lambda>m. length m \<le> 65535) ?ms" using small by (simp add: min_def) linarith
  obtain s' w where w: "channel_send_all demo_enc (channel_new (replicate 32 7) []) ?ms = Some (s', Inr w)"
    using channel_send_all_ok [OF demo_aead(1), of "channel_new (replicate 32 7) []" ?ms] list
    by (auto simp: channel_new_def simp del: channel_send_all.simps)
  have "\<exists>c'. ecn_receive demo_dec (ecn_enable_encryption (ecn_new (SocketV4 0 7000)) [] (replicate 32 7)) [take 5 w, drop 5 w] =
      Some (c', Inr (map request_seen [demo_request]))"
    by (rule encrypted_control_connection [OF demo_aead(1) _ _ _ list _ w]) (simp_all add: demo_request_ok)
  with w show ?thesis by auto
qed

end
