(* ===== verification/Crypto_Lib.thy ===== *)
theory Crypto_Lib
  imports Secure_Channel Rust_Text
begin

text \<open>
  The wrappers of \<open>src/protocol/crypto\<close> around the hash, key derivation, signature and
  key-agreement crates: \<open>hkdf.rs\<close>, \<open>ed25519.rs\<close>, \<open>x25519.rs\<close> and the AES-GCM half of \<open>aes.rs\<close>.
  The crates are one argument, the record \<open>crypto_lib\<close> of their functions; \<open>crypto_correct\<close>
  names what their documentation promises. A key pair is its secret key, from which the
  crates compute the public key; the random secret of \<open>generate\<close> is an argument.
\<close>

record crypto_lib =
  sha512 :: "bytes \<Rightarrow> bytes"
  hkdf_fn :: "bytes option \<Rightarrow> bytes \<Rightarrow> bytes \<Rightarrow> nat \<Rightarrow> bytes option"
  seal :: aead
  open_sealed :: aead
  gcm_seal :: aead
  gcm_open :: aead
  ed_public :: "bytes \<Rightarrow> bytes"
  ed_sign_fn :: "bytes \<Rightarrow> bytes \<Rightarrow> bytes"
  ed_key_ok :: "bytes \<Rightarrow> bool"
  ed_signature_ok :: "bytes \<Rightarrow> bool"
  ed_check :: "bytes \<Rightarrow> bytes \<Rightarrow> bytes \<Rightarrow> bool"
  x_public :: "bytes \<Rightarrow> bytes"
  x_shared :: "bytes \<Rightarrow> bytes \<Rightarrow> bytes"

definition crypto_correct :: "crypto_lib \<Rightarrow> bool" where
  "crypto_correct L \<longleftrightarrow>
     (\<forall>m. length (sha512 L m) = 64)
     \<and> (\<forall>salt ikm info n. n \<le> 255 * 64 \<longrightarrow> (\<exists>okm. hkdf_fn L salt ikm info n = Some okm \<and> length okm = n))
     \<and> aead_correct (seal L) (open_sealed L)
     \<and> (\<forall>sk. length (ed_public L sk) = 32 \<and> ed_key_ok L (ed_public L sk))
     \<and> (\<forall>sk m. length (ed_sign_fn L sk m) = 64 \<and> ed_signature_ok L (ed_sign_fn L sk m)
          \<and> ed_check L (ed_public L sk) m (ed_sign_fn L sk m))
     \<and> (\<forall>sk. length (x_public L sk) = 32)
     \<and> (\<forall>sk pk. length (x_shared L sk pk) = 32)
     \<and> (\<forall>sk sk'. x_shared L sk (x_public L sk') = x_shared L sk' (x_public L sk))"

definition aead_rejects_other_nonce :: "aead \<Rightarrow> aead \<Rightarrow> bool" where
  "aead_rejects_other_nonce aead_enc aead_dec \<longleftrightarrow>
     (\<forall>k n n' a p c. length n = 12 \<longrightarrow> length n' = 12 \<longrightarrow> n \<noteq> n' \<longrightarrow>
        aead_enc k n a p = Some c \<longrightarrow> aead_dec k n' a c = None)"

section \<open>Key derivation\<close>

definition hkdf_expand :: "crypto_lib \<Rightarrow> bytes option \<Rightarrow> bytes \<Rightarrow> bytes \<Rightarrow> nat \<Rightarrow> (crypto_error, bytes) result" where
  "hkdf_expand L salt ikm info len = ok_or (hkdf_fn L salt ikm info len) KeyDerivationFailed"

definition derive_key :: "crypto_lib \<Rightarrow> bytes option \<Rightarrow> bytes \<Rightarrow> bytes \<Rightarrow> nat \<Rightarrow> (crypto_error, bytes) result" where
  "derive_key L salt ikm info len = hkdf_expand L salt ikm info len"

record airplay_keys =
  apk_output_key :: bytes
  apk_input_key :: bytes

definition airplay_keys_derive :: "crypto_lib \<Rightarrow> bytes \<Rightarrow> bytes \<Rightarrow> (crypto_error, airplay_keys) result" where
  "airplay_keys_derive L shared_secret salt =
     result_bind (hkdf_expand L (Some salt) shared_secret (ascii ''ServerEncrypt-main'') 32) (\<lambda>output_key.
     result_bind (hkdf_expand L (Some salt) shared_secret (ascii ''ClientEncrypt-main'') 32) (\<lambda>input_key.
       Inr \<lparr>apk_output_key = output_key, apk_input_key = input_key\<rparr>))"

section \<open>Signatures\<close>

definition ed25519_keypair_from_bytes :: "bytes \<Rightarrow> (crypto_error, bytes) result" where
  "ed25519_keypair_from_bytes b = (if length b \<noteq> 32 then Inl (InvalidKeyLength 32 (length b)) else Inr b)"

definition ed25519_sign :: "crypto_lib \<Rightarrow> bytes \<Rightarrow> bytes \<Rightarrow> bytes" where
  "ed25519_sign L keypair message = ed_sign_fn L keypair message"

definition ed25519_public_key_from_bytes :: "crypto_lib \<Rightarrow> bytes \<Rightarrow> (crypto_error, bytes) result" where
  "ed25519_public_key_from_bytes L b =
     (if length b \<noteq> 32 then Inl (InvalidKeyLength 32 (length b))
      else if ed_key_ok L b then Inr b else Inl InvalidPublicKey)"

definition ed25519_verify :: "crypto_lib \<Rightarrow> bytes \<Rightarrow> bytes \<Rightarrow> bytes \<Rightarrow> (crypto_error, unit) result" where
  "ed25519_verify L public_key message signature =
     (if ed_check L public_key message signature then Inr () else Inl InvalidSignature)"

definition ed25519_signature_from_bytes :: "crypto_lib \<Rightarrow> bytes \<Rightarrow> (crypto_error, bytes) result" where
  "ed25519_signature_from_bytes L b =
     (if length b \<noteq> 64 then Inl (InvalidKeyLength 64 (length b))
      else if ed_signature_ok L b then Inr b else Inl InvalidSignature)"

section \<open>Key agreement\<close>

definition x25519_keypair_from_bytes :: "bytes \<Rightarrow> (crypto_error, bytes) result" where
  "x25519_keypair_from_bytes b = (if length b \<noteq> 32 then Inl (InvalidKeyLength 32 (length b)) else Inr b)"

definition x25519_public_key_from_bytes :: "bytes \<Rightarrow> (crypto_error, bytes) result" where
  "x25519_public_key_from_bytes b = (if length b \<noteq> 32 then Inl (InvalidKeyLength 32 (length b)) else Inr b)"

definition x25519_diffie_hellman :: "crypto_lib \<Rightarrow> bytes \<Rightarrow> bytes \<Rightarrow> bytes" where
  "x25519_diffie_hellman L keypair their_public = x_shared L keypair their_public"

section \<open>AES-GCM\<close>

definition aes_gcm_new :: "bytes \<Rightarrow> (crypto_error, bytes) result" where
  "aes_gcm_new key = (if length key \<noteq> 16 then Inl (InvalidKeyLength 16 (length key)) else Inr key)"

definition aes_gcm_encrypt :: "crypto_lib \<Rightarrow> bytes \<Rightarrow> bytes \<Rightarrow> bytes \<Rightarrow> (crypto_error, bytes) result" where
  "aes_gcm_encrypt L cipher nonce plaintext =
     (if length nonce \<noteq> 12 then Inl (InvalidKeyLength 12 (length nonce))
      else ok_or (gcm_seal L cipher nonce [] plaintext) EncryptionFailed)"

definition aes_gcm_decrypt :: "crypto_lib \<Rightarrow> bytes \<Rightarrow> bytes \<Rightarrow> bytes \<Rightarrow> (crypto_error, bytes) result" where
  "aes_gcm_decrypt L cipher nonce ciphertext =
     (if length nonce \<noteq> 12 then Inl (InvalidKeyLength 12 (length nonce))
      else ok_or (gcm_open L cipher nonce [] ciphertext) DecryptionFailed)"

section \<open>Consequences of the crates' promises\<close>

lemma sha512_length: "crypto_correct L \<Longrightarrow> length (sha512 L m) = 64"
  by (simp add: crypto_correct_def)

lemma hkdf_expand_ok:
  "crypto_correct L \<Longrightarrow> n \<le> 255 * 64 \<Longrightarrow> \<exists>okm. hkdf_expand L salt ikm info n = Inr okm \<and> length okm = n"
  by (simp add: crypto_correct_def hkdf_expand_def)

lemma cipher_new_ok: "length k = 32 \<Longrightarrow> cipher_new k = Inr k"
  by (simp add: cipher_new_def)

lemma cipher_roundtrip:
  assumes "crypto_correct L" and "length k = 32" and "length n = 12" and "length p \<le> 65535"
  shows "\<exists>c. cipher_encrypt (seal L) k n p = Inr c \<and> length c = length p + 16
    \<and> cipher_decrypt (open_sealed L) k n c = Inr p"
proof -
  have "aead_correct (seal L) (open_sealed L)" using assms(1) by (simp add: crypto_correct_def)
  with assms show ?thesis unfolding aead_correct_def cipher_encrypt_def cipher_decrypt_def by fastforce
qed

lemma ed25519_public_key_ok:
  "crypto_correct L \<Longrightarrow> ed25519_public_key_from_bytes L (ed_public L sk) = Inr (ed_public L sk)"
  by (simp add: crypto_correct_def ed25519_public_key_from_bytes_def)

lemma ed25519_signature_ok:
  "crypto_correct L \<Longrightarrow>
   ed25519_signature_from_bytes L (ed25519_sign L sk m) = Inr (ed25519_sign L sk m)
   \<and> ed25519_verify L (ed_public L sk) m (ed25519_sign L sk m) = Inr ()"
  by (simp add: crypto_correct_def ed25519_signature_from_bytes_def ed25519_verify_def ed25519_sign_def)

lemma x25519_agree:
  "crypto_correct L \<Longrightarrow>
   x25519_diffie_hellman L sk (x_public L sk') = x25519_diffie_hellman L sk' (x_public L sk)"
  by (simp add: crypto_correct_def x25519_diffie_hellman_def)

lemma x25519_public_key_ok:
  "crypto_correct L \<Longrightarrow> x25519_public_key_from_bytes (x_public L sk) = Inr (x_public L sk)"
  by (simp add: crypto_correct_def x25519_public_key_from_bytes_def)

section \<open>A library that keeps the promises\<close>

text \<open>
  Functions simple enough to evaluate, which show that the hypotheses above can hold: a
  cipher whose tag is the padded nonce, signatures that everyone can make, one shared
  key, and derived keys that depend on the length of the info string.
\<close>

definition demo_lib :: crypto_lib where
  "demo_lib =
     \<lparr>sha512 = (\<lambda>m. replicate 64 0), hkdf_fn = (\<lambda>salt ikm info n. Some (replicate n (of_nat (length info)))),
      seal = (\<lambda>k n a p. Some (p @ take 16 (n @ replicate 16 0))),
      open_sealed = (\<lambda>k n a c.
        if 16 \<le> length c \<and> drop (length c - 16) c = take 16 (n @ replicate 16 0)
        then Some (take (length c - 16) c) else None),
      gcm_seal = (\<lambda>k n a p. Some p), gcm_open = (\<lambda>k n a c. Some c),
      ed_public = (\<lambda>sk. replicate 32 0), ed_sign_fn = (\<lambda>sk m. replicate 64 0),
      ed_key_ok = (\<lambda>b. True), ed_signature_ok = (\<lambda>b. True), ed_check = (\<lambda>pk m s. True),
      x_public = (\<lambda>sk. replicate 32 0), x_shared = (\<lambda>sk pk. replicate 32 0)\<rparr>"

lemma demo_lib_correct: "crypto_correct demo_lib"
  by (simp add: crypto_correct_def demo_lib_def aead_correct_def)

lemma demo_lib_nonces: "aead_rejects_other_nonce (seal demo_lib) (open_sealed demo_lib)"
  by (simp add: aead_rejects_other_nonce_def demo_lib_def)

end
