(* ===== verification/Aes_Ctr.thy ===== *)
theory Aes_Ctr
  imports Crypto_Lib
begin

text \<open>
  The AES-128-CTR stream cipher of \<open>src/protocol/crypto/aes.rs\<close>. The block cipher of the \<open>aes\<close>
  crate is the argument \<open>aes\<close>, of the key and a block. Data is transformed in three phases (what
  is left of the keystream buffer, batches of eight blocks, single blocks) and the position
  can be sought; the reference is one expression, the data combined byte by byte with the
  encrypted counters from a position on.
\<close>

section \<open>The cipher\<close>

record aes_ctr =
  ctr_key :: bytes
  ctr_base_counter_block :: bytes
  ctr_counter_block :: bytes
  ctr_keystream_buffer :: bytes
  ctr_keystream_pos :: nat

definition aes_ctr_new_internal :: "bytes \<Rightarrow> bytes \<Rightarrow> aes_ctr" where
  "aes_ctr_new_internal key iv =
     \<lparr>ctr_key = key, ctr_base_counter_block = iv, ctr_counter_block = iv,
      ctr_keystream_buffer = replicate 16 0, ctr_keystream_pos = 16\<rparr>"

definition aes_ctr_new :: "bytes \<Rightarrow> bytes \<Rightarrow> (crypto_error, aes_ctr) result" where
  "aes_ctr_new key iv =
     (if length key \<noteq> 16 then Inl (InvalidKeyLength 16 (length key))
      else if length iv \<noteq> 16 then Inl (InvalidKeyLength 16 (length iv))
      else Inr (aes_ctr_new_internal key iv))"

definition increment_counter :: "aes_ctr \<Rightarrow> aes_ctr" where
  "increment_counter c =
     (let ctr = from_be (take 8 (drop 8 (ctr_counter_block c))) + 1 :: u64
      in c\<lparr>ctr_counter_block := take 8 (ctr_counter_block c) @ be_bytes 8 ctr\<rparr>)"

definition xor_bytes :: "bytes \<Rightarrow> bytes \<Rightarrow> bytes" where
  "xor_bytes data key = map2 (XOR) data key"

text \<open>Phase 1: the bytes left in the buffer.\<close>

definition apply_buffered :: "aes_ctr \<Rightarrow> bytes \<Rightarrow> aes_ctr \<times> bytes \<times> bytes" where
  "apply_buffered c data =
     (if ctr_keystream_pos c < 16
      then let available = 16 - ctr_keystream_pos c; n = min (length data) available
           in (c\<lparr>ctr_keystream_pos := ctr_keystream_pos c + n\<rparr>,
               xor_bytes (take n data) (drop (ctr_keystream_pos c) (ctr_keystream_buffer c)), drop n data)
      else (c, [], data))"

text \<open>Phase 2: batches of eight blocks, which bypass the buffer.\<close>

definition CTR_PAR_BLOCKS :: nat where "CTR_PAR_BLOCKS = 8"
definition CTR_CHUNK_SIZE :: nat where "CTR_CHUNK_SIZE = CTR_PAR_BLOCKS * 16"

primrec fill_blocks :: "nat \<Rightarrow> aes_ctr \<Rightarrow> aes_ctr \<times> bytes list" where
  "fill_blocks 0 c = (c, [])"
| "fill_blocks (Suc n) c =
     (case fill_blocks n (increment_counter c) of (c', blocks) \<Rightarrow> (c', ctr_counter_block c # blocks))"

function apply_batches :: "(bytes \<Rightarrow> bytes \<Rightarrow> bytes) \<Rightarrow> aes_ctr \<Rightarrow> bytes \<Rightarrow> aes_ctr \<times> bytes \<times> bytes" where
  "apply_batches aes c data =
     (if CTR_CHUNK_SIZE \<le> length data
      then case fill_blocks CTR_PAR_BLOCKS c of (c', blocks) \<Rightarrow>
        (case apply_batches aes c' (drop CTR_CHUNK_SIZE data) of (c'', out, rest) \<Rightarrow>
           (c'', xor_bytes (take CTR_CHUNK_SIZE data) (concat (map (aes (ctr_key c)) blocks)) @ out, rest))
      else (c, [], data))"
  by pat_completeness auto

termination
  by (relation "measure (\<lambda>(aes, c, data). length data)") (auto simp: CTR_CHUNK_SIZE_def CTR_PAR_BLOCKS_def)

declare apply_batches.simps [simp del]

text \<open>Phase 3: single blocks through the buffer.\<close>

definition refill :: "(bytes \<Rightarrow> bytes \<Rightarrow> bytes) \<Rightarrow> aes_ctr \<Rightarrow> aes_ctr" where
  "refill aes c = increment_counter (c\<lparr>ctr_keystream_buffer := aes (ctr_key c) (ctr_counter_block c)\<rparr>)"

function apply_blocks :: "(bytes \<Rightarrow> bytes \<Rightarrow> bytes) \<Rightarrow> aes_ctr \<Rightarrow> bytes \<Rightarrow> aes_ctr \<times> bytes" where
  "apply_blocks aes c data =
     (if data = [] then (c, [])
      else let c1 = refill aes c; n = min (length data) 16
           in case apply_blocks aes (c1\<lparr>ctr_keystream_pos := n\<rparr>) (drop n data) of (c', out) \<Rightarrow>
                (c', xor_bytes (take n data) (ctr_keystream_buffer c1) @ out))"
  by pat_completeness auto

termination
  by (relation "measure (\<lambda>(aes, c, data). length data)") auto

declare apply_blocks.simps [simp del]

definition apply_keystream :: "(bytes \<Rightarrow> bytes \<Rightarrow> bytes) \<Rightarrow> aes_ctr \<Rightarrow> bytes \<Rightarrow> aes_ctr \<times> bytes" where
  "apply_keystream aes c data =
     (case apply_buffered c data of (c1, out1, data1) \<Rightarrow>
      case apply_batches aes c1 data1 of (c2, out2, data2) \<Rightarrow>
      case apply_blocks aes c2 data2 of (c3, out3) \<Rightarrow> (c3, out1 @ out2 @ out3))"

definition aes_ctr_process :: "(bytes \<Rightarrow> bytes \<Rightarrow> bytes) \<Rightarrow> aes_ctr \<Rightarrow> bytes \<Rightarrow> aes_ctr \<times> bytes" where
  "aes_ctr_process aes c data = apply_keystream aes c data"

definition aes_ctr_seek :: "(bytes \<Rightarrow> bytes \<Rightarrow> bytes) \<Rightarrow> aes_ctr \<Rightarrow> u64 \<Rightarrow> aes_ctr" where
  "aes_ctr_seek aes c position =
     (let block_offset = position div 16; byte_offset = unat (position mod 16);
          ctr = from_be (take 8 (drop 8 (ctr_base_counter_block c))) + block_offset :: u64;
          c1 = c\<lparr>ctr_counter_block := take 8 (ctr_base_counter_block c) @ be_bytes 8 ctr, ctr_keystream_pos := 16\<rparr>
      in if byte_offset > 0 then (refill aes c1)\<lparr>ctr_keystream_pos := byte_offset\<rparr> else c1)"

section \<open>The reference\<close>

definition counter_at :: "bytes \<Rightarrow> nat \<Rightarrow> bytes" where
  "counter_at iv q = take 8 iv @ be_bytes 8 (from_be (drop 8 iv) + of_nat q :: u64)"

definition keystream_byte :: "(bytes \<Rightarrow> bytes) \<Rightarrow> bytes \<Rightarrow> nat \<Rightarrow> u8" where
  "keystream_byte enc iv i = enc (counter_at iv (i div 16)) ! (i mod 16)"

definition ctr_reference :: "(bytes \<Rightarrow> bytes) \<Rightarrow> bytes \<Rightarrow> nat \<Rightarrow> bytes \<Rightarrow> bytes" where
  "ctr_reference enc iv p data = map (\<lambda>i. data ! i XOR keystream_byte enc iv (p + i)) [0..<length data]"

text \<open>The state at stream position \<open>p\<close>: \<open>q\<close> counters have been used, the last of them may
  still be in the buffer.\<close>

definition ctr_at :: "(bytes \<Rightarrow> bytes \<Rightarrow> bytes) \<Rightarrow> bytes \<Rightarrow> bytes \<Rightarrow> nat \<Rightarrow> aes_ctr \<Rightarrow> bool" where
  "ctr_at aes key iv p c \<longleftrightarrow>
     ctr_key c = key \<and> ctr_base_counter_block c = iv \<and> ctr_keystream_pos c \<le> 16
     \<and> (\<exists>q. ctr_counter_block c = counter_at iv q \<and> p + 16 = 16 * q + ctr_keystream_pos c
          \<and> (ctr_keystream_pos c < 16 \<longrightarrow> ctr_keystream_buffer c = aes key (counter_at iv (q - 1))))"

section \<open>The phases follow the reference\<close>

lemma ctr_reference_Nil [simp]: "ctr_reference enc iv p [] = []"
  by (simp add: ctr_reference_def)

lemma length_ctr_reference [simp]: "length (ctr_reference enc iv p data) = length data"
  by (simp add: ctr_reference_def)

lemma ctr_reference_append:
  "ctr_reference enc iv p (xs @ ys) = ctr_reference enc iv p xs @ ctr_reference enc iv (p + length xs) ys"
  by (rule nth_equalityI) (auto simp: ctr_reference_def nth_append)

lemma ctr_reference_block:
  assumes "length (enc (counter_at iv q)) = 16" and "j + length data \<le> 16"
  shows "xor_bytes data (drop j (enc (counter_at iv q))) = ctr_reference enc iv (16 * q + j) data"
  using assms by (intro nth_equalityI) (auto simp: xor_bytes_def ctr_reference_def keystream_byte_def add.assoc)

lemma ctr_at_split:
  "length xs = n \<Longrightarrow> ctr_reference enc iv p (xs @ ys) = ctr_reference enc iv p xs @ ctr_reference enc iv (p + n) ys"
  by (simp add: ctr_reference_append)

lemma counter_block_next:
  assumes "length iv = 16"
  shows "take 8 (counter_at iv q) @ be_bytes 8 (from_be (take 8 (drop 8 (counter_at iv q))) + 1 :: u64)
    = counter_at iv (Suc q)"
  using assms by (simp add: counter_at_def from_be_be_bytes take_bit_word_eq_self add.assoc add.commute)

lemma increment_counter_at:
  assumes "length iv = 16" and "ctr_counter_block c = counter_at iv q"
  shows "increment_counter c = c\<lparr>ctr_counter_block := counter_at iv (Suc q)\<rparr>"
  using counter_block_next [OF assms(1)] assms(2) by (simp add: increment_counter_def Let_def)

lemma refill_at:
  assumes "length iv = 16" and "ctr_counter_block c = counter_at iv q"
  shows "refill aes c =
    c\<lparr>ctr_counter_block := counter_at iv (Suc q), ctr_keystream_buffer := aes (ctr_key c) (counter_at iv q)\<rparr>"
  using increment_counter_at [OF assms(1)] assms(2) by (cases c) (simp add: refill_def)

lemma fill_blocks_at:
  assumes "length iv = 16" and "ctr_counter_block c = counter_at iv q"
  shows "fill_blocks n c = (c\<lparr>ctr_counter_block := counter_at iv (q + n)\<rparr>, map (counter_at iv) [q..<q + n])"
  using assms(2)
proof (induction n arbitrary: c q)
  case 0
  then show ?case by (cases c) simp
next
  case (Suc n)
  show ?case using Suc.IH [of "c\<lparr>ctr_counter_block := counter_at iv (Suc q)\<rparr>" "Suc q"] Suc.prems
    by (simp add: increment_counter_at [OF assms(1)] upt_conv_Cons del: upt_Suc)
qed

lemma ctr_reference_blocks:
  assumes "\<And>b. length (enc b) = 16" and "length data = 16 * n"
  shows "xor_bytes data (concat (map (\<lambda>q. enc (counter_at iv q)) [q..<q + n])) = ctr_reference enc iv (16 * q) data"
  using assms(2)
proof (induction n arbitrary: data q)
  case 0
  then show ?case by (simp add: xor_bytes_def)
next
  case (Suc n)
  let ?ks = "concat (map (\<lambda>q. enc (counter_at iv q)) [Suc q..<Suc q + n])"
  have "xor_bytes (take 16 data @ drop 16 data) (enc (counter_at iv q) @ ?ks) =
      xor_bytes (take 16 data) (enc (counter_at iv q)) @ xor_bytes (drop 16 data) ?ks"
    using Suc.prems assms(1) by (simp add: xor_bytes_def del: append_take_drop_id)
  also have "\<dots> = ctr_reference enc iv (16 * q) (take 16 data) @ ctr_reference enc iv (16 * Suc q) (drop 16 data)"
    using ctr_reference_block [of enc iv q 0 "take 16 data"] Suc.IH [of "drop 16 data" "Suc q"] Suc.prems assms(1)
    by (simp del: upt_Suc)
  also have "\<dots> = ctr_reference enc iv (16 * q) (take 16 data @ drop 16 data)"
    using Suc.prems by (simp add: ctr_reference_append add.commute del: append_take_drop_id)
  finally show ?case by (simp add: upt_conv_Cons del: upt_Suc)
qed

lemma apply_buffered_at:
  assumes "\<And>b. length (aes key b) = 16" and "ctr_at aes key iv p c"
    and "apply_buffered c data = (c', out, rest)"
  shows "\<exists>pre. data = pre @ rest \<and> out = ctr_reference (aes key) iv p pre
    \<and> ctr_at aes key iv (p + length pre) c' \<and> (rest = [] \<or> ctr_keystream_pos c' = 16)"
proof -
  obtain q where q: "ctr_counter_block c = counter_at iv q" "p + 16 = 16 * q + ctr_keystream_pos c"
      "ctr_keystream_pos c < 16 \<longrightarrow> ctr_keystream_buffer c = aes key (counter_at iv (q - 1))"
    using assms(2) by (auto simp: ctr_at_def)
  show ?thesis
  proof (cases "ctr_keystream_pos c < 16")
    case True
    let ?n = "min (length data) (16 - ctr_keystream_pos c)"
    have p: "p = 16 * (q - 1) + ctr_keystream_pos c" using q(2) True by (cases q) auto
    have r: "c' = c\<lparr>ctr_keystream_pos := ctr_keystream_pos c + ?n\<rparr>" "rest = drop ?n data"
        "out = ctr_reference (aes key) iv p (take ?n data)"
      using assms(3) True q(3) ctr_reference_block [of "aes key" iv "q - 1" "ctr_keystream_pos c" "take ?n data"]
        assms(1) p by (auto simp: apply_buffered_def Let_def)
    have "ctr_at aes key iv (p + length (take ?n data)) c'"
      using assms(2) q True by (auto simp: r ctr_at_def intro!: exI [of _ q])
    then show ?thesis
      using r True by (intro exI [of _ "take ?n data"]) (auto simp: min_def)
  next
    case False
    then show ?thesis using assms(2, 3) by (auto simp: apply_buffered_def ctr_at_def)
  qed
qed

lemma apply_batches_at:
  assumes "\<And>b. length (aes key b) = 16" and "length iv = 16" and "ctr_at aes key iv p c"
    and "ctr_keystream_pos c = 16" and "apply_batches aes c data = (c', out, rest)"
  shows "\<exists>pre. data = pre @ rest \<and> out = ctr_reference (aes key) iv p pre
    \<and> ctr_at aes key iv (p + length pre) c' \<and> ctr_keystream_pos c' = 16"
  using assms(3-5)
proof (induction "length data" arbitrary: c p data out rule: less_induct)
  case less
  obtain q where q: "ctr_counter_block c = counter_at iv q" "p = 16 * q"
    using less.prems by (auto simp: ctr_at_def)
  have key: "ctr_key c = key" "ctr_base_counter_block c = iv" using less.prems by (simp_all add: ctr_at_def)
  show ?case
  proof (cases "128 \<le> length data")
    case True
    let ?c = "c\<lparr>ctr_counter_block := counter_at iv (q + 8)\<rparr>"
    obtain out' where rec: "apply_batches aes ?c (drop 128 data) = (c', out', rest)"
      and out: "out = xor_bytes (take 128 data) (concat (map (\<lambda>q. aes key (counter_at iv q)) [q..<q + 8])) @ out'"
      using less.prems(3) True fill_blocks_at [OF assms(2) q(1), of 8] key
      by (subst (asm) apply_batches.simps)
         (auto simp: comp_def CTR_CHUNK_SIZE_def CTR_PAR_BLOCKS_def split: prod.splits)
    have "ctr_at aes key iv (p + 128) ?c"
      using key q less.prems(2) by (auto simp: ctr_at_def intro!: exI [of _ "q + 8"])
    then obtain pre where "drop 128 data = pre @ rest" "out' = ctr_reference (aes key) iv (p + 128) pre"
        "ctr_at aes key iv (p + 128 + length pre) c'" "ctr_keystream_pos c' = 16"
      using less.hyps [of "drop 128 data" "p + 128" ?c out'] True less.prems(2) rec by force
    moreover have "data = take 128 data @ drop 128 data" by simp
    moreover have "out = ctr_reference (aes key) iv p (take 128 data) @ out'"
      using ctr_reference_blocks [of "aes key" "take 128 data" 8 iv q] assms(1) True out q(2) by simp
    ultimately show ?thesis using True
      by (intro exI [of _ "take 128 data @ pre"])
         (simp add: ctr_reference_append min_def add.assoc)
  next
    case False
    then have "apply_batches aes c data = (c, [], data)"
      by (subst apply_batches.simps) (simp add: CTR_CHUNK_SIZE_def CTR_PAR_BLOCKS_def)
    then show ?thesis using less.prems by auto
  qed
qed

lemma apply_blocks_at:
  assumes "\<And>b. length (aes key b) = 16" and "length iv = 16" and "ctr_at aes key iv p c"
    and "data = [] \<or> ctr_keystream_pos c = 16" and "apply_blocks aes c data = (c', out)"
  shows "out = ctr_reference (aes key) iv p data \<and> ctr_at aes key iv (p + length data) c'"
  using assms(3-5)
proof (induction "length data" arbitrary: c p data out rule: less_induct)
  case less
  show ?case
  proof (cases "data = []")
    case True
    then show ?thesis using less.prems apply_blocks.simps [of aes c data] by simp
  next
    case False
    obtain q where q: "ctr_counter_block c = counter_at iv q" "p = 16 * q"
      using less.prems False by (auto simp: ctr_at_def)
    have key: "ctr_key c = key" "ctr_base_counter_block c = iv" using less.prems by (simp_all add: ctr_at_def)
    let ?n = "min (length data) 16"
    let ?c = "(refill aes c)\<lparr>ctr_keystream_pos := ?n\<rparr>"
    obtain out' where rec: "apply_blocks aes ?c (drop ?n data) = (c', out')"
      and out: "out = xor_bytes (take ?n data) (aes key (counter_at iv q)) @ out'"
      using less.prems(3) False refill_at [OF assms(2) q(1), of aes] key
      by (subst (asm) apply_blocks.simps) (auto simp: Let_def split: prod.splits)
    have "ctr_at aes key iv (p + ?n) ?c"
      using key q refill_at [OF assms(2) q(1), of aes] by (auto simp: ctr_at_def intro!: exI [of _ "Suc q"])
    then have "out' = ctr_reference (aes key) iv (p + ?n) (drop ?n data)
        \<and> ctr_at aes key iv (p + ?n + length (drop ?n data)) c'"
      using less.hyps [of "drop ?n data" "p + ?n" ?c out'] False rec by (auto simp: min_def)
    moreover have "xor_bytes (take ?n data) (aes key (counter_at iv q)) = ctr_reference (aes key) iv p (take ?n data)"
      using ctr_reference_block [of "aes key" iv q 0 "take ?n data"] assms(1) q(2) by simp
    ultimately show ?thesis
      using ctr_reference_append [of "aes key" iv p "take ?n data" "drop ?n data"] out
      by (simp add: min_def split: if_splits)
  qed
qed

lemma apply_keystream_at:
  assumes "\<And>b. length (aes key b) = 16" and "length iv = 16" and "ctr_at aes key iv p c"
    and "apply_keystream aes c data = (c', out)"
  shows "out = ctr_reference (aes key) iv p data \<and> ctr_at aes key iv (p + length data) c'"
proof -
  obtain c1 out1 data1 where s1: "apply_buffered c data = (c1, out1, data1)" by (metis prod_cases3)
  obtain c2 out2 data2 where s2: "apply_batches aes c1 data1 = (c2, out2, data2)" by (metis prod_cases3)
  obtain c3 out3 where s3: "apply_blocks aes c2 data2 = (c3, out3)" by force
  have r: "c' = c3" "out = out1 @ out2 @ out3" using assms(4) s1 s2 s3 by (simp_all add: apply_keystream_def)
  obtain pre where pre: "data = pre @ data1" "out1 = ctr_reference (aes key) iv p pre"
      "ctr_at aes key iv (p + length pre) c1" "data1 = [] \<or> ctr_keystream_pos c1 = 16"
    using apply_buffered_at [OF assms(1, 3) s1] by blast
  have "\<exists>pre2. data1 = pre2 @ data2 \<and> out2 = ctr_reference (aes key) iv (p + length pre) pre2
      \<and> ctr_at aes key iv (p + length pre + length pre2) c2 \<and> (data2 = [] \<or> ctr_keystream_pos c2 = 16)"
  proof (cases "data1 = []")
    case True
    then have "apply_batches aes c1 data1 = (c1, [], [])"
      by (subst apply_batches.simps) (simp add: CTR_CHUNK_SIZE_def CTR_PAR_BLOCKS_def)
    then show ?thesis using True s2 pre(3) by simp
  next
    case False
    then show ?thesis using apply_batches_at [OF assms(1, 2) pre(3) _ s2] pre(4) by blast
  qed
  then obtain pre2 where pre2: "data1 = pre2 @ data2" "out2 = ctr_reference (aes key) iv (p + length pre) pre2"
      "ctr_at aes key iv (p + length pre + length pre2) c2" "data2 = [] \<or> ctr_keystream_pos c2 = 16" by blast
  show ?thesis using apply_blocks_at [OF assms(1, 2) pre2(3, 4) s3] pre(1, 2) pre2(1, 2) r
    by (simp add: ctr_reference_append add.assoc)
qed

lemma aes_ctr_seek_at:
  assumes "length iv = 16" and "ctr_at aes key iv p c"
  shows "ctr_at aes key iv (unat position) (aes_ctr_seek aes c position)"
proof -
  let ?q = "unat position div 16" and ?j = "unat position mod 16"
  let ?c1 = "c\<lparr>ctr_counter_block := counter_at iv ?q, ctr_keystream_pos := 16\<rparr>"
  have key: "ctr_key c = key" "ctr_base_counter_block c = iv" using assms(2) by (simp_all add: ctr_at_def)
  have d: "position div 16 = of_nat ?q" "unat (position mod 16) = ?j"
    by (simp_all add: unat_div [of position 16, simplified, symmetric] unat_mod [of position 16, simplified])
  have seek: "aes_ctr_seek aes c position = (if ?j > 0 then (refill aes ?c1)\<lparr>ctr_keystream_pos := ?j\<rparr> else ?c1)"
    using assms(1) unfolding aes_ctr_seek_def d Let_def key(2) by (simp add: counter_at_def)
  have pos: "unat position = 16 * ?q + ?j" by simp
  show ?thesis
  proof (cases "?j > 0")
    case True
    then show ?thesis using key seek pos refill_at [OF assms(1), of ?c1 ?q aes]
      by (auto simp: ctr_at_def intro!: exI [of _ "Suc ?q"])
  next
    case False
    then show ?thesis using key seek pos by (auto simp: ctr_at_def intro!: exI [of _ ?q])
  qed
qed

section \<open>Properties\<close>

text \<open>The calls of a user of the cipher and the outputs of its \<open>process\<close> calls; the reference
  keeps nothing but the position.\<close>

datatype ctr_call = Ctr_Process bytes | Ctr_Seek u64

primrec ctr_run :: "(bytes \<Rightarrow> bytes \<Rightarrow> bytes) \<Rightarrow> aes_ctr \<Rightarrow> ctr_call list \<Rightarrow> bytes list" where
  "ctr_run aes c [] = []"
| "ctr_run aes c (call # calls) =
     (case call of
        Ctr_Process data \<Rightarrow> (case aes_ctr_process aes c data of (c', out) \<Rightarrow> out # ctr_run aes c' calls)
      | Ctr_Seek position \<Rightarrow> ctr_run aes (aes_ctr_seek aes c position) calls)"

primrec ctr_spec :: "(bytes \<Rightarrow> bytes) \<Rightarrow> bytes \<Rightarrow> nat \<Rightarrow> ctr_call list \<Rightarrow> bytes list" where
  "ctr_spec enc iv p [] = []"
| "ctr_spec enc iv p (call # calls) =
     (case call of
        Ctr_Process data \<Rightarrow> ctr_reference enc iv p data # ctr_spec enc iv (p + length data) calls
      | Ctr_Seek position \<Rightarrow> ctr_spec enc iv (unat position) calls)"

lemma ctr_run_spec:
  assumes "\<And>b. length (aes key b) = 16" and "length iv = 16" and "ctr_at aes key iv p c"
  shows "ctr_run aes c calls = ctr_spec (aes key) iv p calls"
  using assms(3)
proof (induction calls arbitrary: c p)
  case (Cons call calls)
  show ?case
  proof (cases call)
    case (Ctr_Process data)
    obtain c' out where "aes_ctr_process aes c data = (c', out)" by force
    then show ?thesis
      using Ctr_Process Cons apply_keystream_at [OF assms(1, 2) Cons.prems] by (simp add: aes_ctr_process_def)
  next
    case (Ctr_Seek position)
    then show ?thesis using Cons aes_ctr_seek_at [OF assms(2) Cons.prems] by simp
  qed
qed simp

text \<open>
  C4. The stream cipher computes the counter mode of its block cipher: whatever \<open>process\<close> and
  \<open>seek\<close> calls are made on a new cipher, each output is the data combined byte by byte with the
  encrypted counters from the current position on, where the position is the last one sought
  plus the bytes processed since. The buffered bytes, the batches of eight blocks and the
  single blocks cannot be told apart, however the data is cut, and the 64-bit counter wraps.
\<close>

theorem aes_ctr_refines_counter_mode:
  assumes "\<And>b. length (aes key b) = 16" and "aes_ctr_new key iv = Inr c"
  shows "ctr_run aes c calls = ctr_spec (aes key) iv 0 calls"
proof -
  have iv: "length iv = 16" and c: "c = aes_ctr_new_internal key iv"
    using assms(2) by (auto simp: aes_ctr_new_def split: if_splits)
  have "take 8 iv @ be_bytes 8 (from_be (drop 8 iv) :: u64) = iv"
    using iv be_bytes_from_be [of "drop 8 iv", where 'a = 64] by simp
  then have "ctr_at aes key iv 0 c"
    by (auto simp: c ctr_at_def aes_ctr_new_internal_def counter_at_def intro!: exI [of _ 0])
  then show ?thesis using ctr_run_spec [of aes key iv 0 c calls] assms(1) iv by simp
qed

theorem aes_ctr_refines_counter_mode_witness:
  "ctr_run (\<lambda>k b. take 16 (b @ replicate 16 0)) (aes_ctr_new_internal (replicate 16 1) (replicate 16 255))
     [Ctr_Process [1, 2], Ctr_Seek 31, Ctr_Process [7, 8]] = [[254, 253], [7, 247]]"
proof -
  have new: "aes_ctr_new (replicate 16 1) (replicate 16 255) =
      Inr (aes_ctr_new_internal (replicate 16 1) (replicate 16 255))"
    by (simp add: aes_ctr_new_def)
  show ?thesis
    by (subst aes_ctr_refines_counter_mode [OF _ new]) (simp, code_simp)
qed

end
