(* ===== verification/Unicode.thy ===== *)
theory Unicode
  imports Rust_Text
begin

text \<open>
  The conversions between UTF-8 and UTF-16 of Rust's standard library that property lists
  need: \<open>str::chars\<close>, \<open>encode_utf16\<close> and \<open>String::from_utf16\<close>. A \<open>char\<close> is its scalar value.
\<close>

definition utf8_char :: "bytes \<Rightarrow> nat" where
  "utf8_char bs =
     (let n = snd (utf8_step bs); b = (\<lambda>i. unat (bs ! i)) in
      if n = 1 then b 0
      else if n = 2 then (b 0 - 0xC0) * 64 + (b 1 - 0x80)
      else if n = 3 then ((b 0 - 0xE0) * 64 + (b 1 - 0x80)) * 64 + (b 2 - 0x80)
      else (((b 0 - 0xF0) * 64 + (b 1 - 0x80)) * 64 + (b 2 - 0x80)) * 64 + (b 3 - 0x80))"

function str_chars :: "str \<Rightarrow> nat list" where
  "str_chars bs = (if bs = [] then [] else utf8_char bs # str_chars (drop (snd (utf8_step bs)) bs))"
  by pat_completeness auto

termination
proof (relation "measure length")
  fix bs :: str
  assume "bs \<noteq> []"
  then show "(drop (snd (utf8_step bs)) bs, bs) \<in> measure length"
    using utf8_step_pos [of bs] by simp
qed simp

declare str_chars.simps [simp del]

definition char_utf8 :: "nat \<Rightarrow> str" where
  "char_utf8 c =
     (if c < 0x80 then [of_nat c]
      else if c < 0x800 then [of_nat (0xC0 + c div 64), of_nat (0x80 + c mod 64)]
      else if c < 0x10000
      then [of_nat (0xE0 + c div 4096), of_nat (0x80 + c div 64 mod 64), of_nat (0x80 + c mod 64)]
      else [of_nat (0xF0 + c div 262144), of_nat (0x80 + c div 4096 mod 64), of_nat (0x80 + c div 64 mod 64),
            of_nat (0x80 + c mod 64)])"

definition char_utf16 :: "nat \<Rightarrow> u16 list" where
  "char_utf16 c =
     (if c < 0x10000 then [of_nat c]
      else [of_nat (0xD800 + (c - 0x10000) div 1024), of_nat (0xDC00 + (c - 0x10000) mod 1024)])"

definition encode_utf16 :: "str \<Rightarrow> u16 list" where
  "encode_utf16 s = concat (map char_utf16 (str_chars s))"

fun utf16_chars :: "u16 list \<Rightarrow> nat list option" where
  "utf16_chars [] = Some []"
| "utf16_chars (u # us) =
     (if u < 0xD800 \<or> 0xDFFF < u then map_option ((#) (unat u)) (utf16_chars us)
      else if 0xDBFF < u then None
      else case us of
        [] \<Rightarrow> None
      | v # vs \<Rightarrow>
          if 0xDC00 \<le> v \<and> v \<le> 0xDFFF
          then map_option ((#) (0x10000 + (unat u - 0xD800) * 1024 + (unat v - 0xDC00))) (utf16_chars vs)
          else None)"

definition from_utf16 :: "u16 list \<Rightarrow> str option" where
  "from_utf16 us = map_option (\<lambda>cs. concat (map char_utf8 cs)) (utf16_chars us)"

section \<open>Round trip\<close>

definition is_scalar :: "nat \<Rightarrow> bool" where
  "is_scalar c \<longleftrightarrow> c < 0xD800 \<or> 0xDFFF < c \<and> c < 0x110000"

lemma utf16_char: "is_scalar c \<Longrightarrow> utf16_chars (char_utf16 c @ us) = map_option ((#) c) (utf16_chars us)"
proof (cases "c < 0x10000")
  case True
  assume "is_scalar c"
  then show ?thesis using True
    by (simp add: char_utf16_def is_scalar_def word_less_nat_alt unat_of_nat_small)
next
  case False
  assume sc: "is_scalar c"
  let ?d = "c - 0x10000"
  have lt: "?d div 1024 < 1024" "?d mod 1024 < 1024" using sc False by (auto simp: is_scalar_def)
  define u v :: u16 where "u = of_nat (0xD800 + ?d div 1024)" and "v = of_nat (0xDC00 + ?d mod 1024)"
  have u: "unat u = 0xD800 + ?d div 1024" and v: "unat v = 0xDC00 + ?d mod 1024"
    unfolding u_def v_def using lt by (intro unat_of_nat_small; simp)+
  have "0x10000 + (unat u - 0xD800) * 1024 + (unat v - 0xDC00) = c"
    using False by (simp add: u v div_mult_mod_eq)
  moreover have "\<not> u < 0xD800" "\<not> 0xDFFF < u" "\<not> 0xDBFF < u" "0xDC00 \<le> v" "v \<le> 0xDFFF"
    using lt u v by (simp_all add: word_less_nat_alt word_le_nat_alt)
  moreover have "char_utf16 c = [u, v]" using False by (simp add: char_utf16_def u_def v_def)
  ultimately show ?thesis by simp
qed

lemma utf16_roundtrip: "list_all is_scalar cs \<Longrightarrow> utf16_chars (concat (map char_utf16 cs)) = Some cs"
  by (induction cs) (simp_all add: utf16_char)

lemma of_nat_unat: "n = unat b \<Longrightarrow> of_nat n = (b :: u8)"
  by simp

text \<open>One line per length of the encoding, on the values of the bytes.\<close>

lemma base64_digit: "k < 64 \<Longrightarrow> (m * 64 + k) div 64 = m \<and> (m * 64 + k) mod 64 = (k :: nat)"
  by simp

lemma utf8_digits2:
  fixes x y :: nat
  assumes "0xC2 \<le> x" "x \<le> 0xDF" "0x80 \<le> y" "y \<le> 0xBF" and c: "c = (x - 0xC0) * 64 + (y - 0x80)"
  shows "0x80 \<le> c \<and> c < 0x800 \<and> 0xC0 + c div 64 = x \<and> 0x80 + c mod 64 = y"
proof -
  define i j where "i = x - 0xC0" and "j = y - 0x80"
  then have "x = 0xC0 + i" "y = 0x80 + j" "j < 64" "2 \<le> i" "i < 32" using assms by simp_all
  then show ?thesis by (simp add: c)
qed

lemma utf8_digits3:
  fixes x y z :: nat
  assumes "0xE0 \<le> x" "x \<le> 0xEF" "(if x = 0xE0 then 0xA0 else 0x80) \<le> y" "y \<le> (if x = 0xED then 0x9F else 0xBF)"
    "0x80 \<le> z" "z \<le> 0xBF" and c: "c = ((x - 0xE0) * 64 + (y - 0x80)) * 64 + (z - 0x80)"
  shows "0x800 \<le> c \<and> c < 0x10000 \<and> is_scalar c
    \<and> 0xE0 + c div 4096 = x \<and> 0x80 + c div 64 mod 64 = y \<and> 0x80 + c mod 64 = z"
proof -
  define i j k where "i = x - 0xE0" and "j = y - 0x80" and "k = z - 0x80"
  then have e: "x = 0xE0 + i" "y = 0x80 + j" "z = 0x80 + k" "j < 64" "k < 64" "i < 16"
      "i = 0 \<Longrightarrow> 32 \<le> j" "i = 13 \<Longrightarrow> j < 32"
    using assms by (auto split: if_splits)
  have c': "c = (i * 64 + j) * 64 + k" by (simp add: c e)
  have "c div 64 = i * 64 + j" "c mod 64 = k" using base64_digit [of k "i * 64 + j"] e by (simp_all only: c')
  moreover have "c div 4096 = i"
  proof -
    have "c div 4096 = c div 64 div 64" by (simp add: div_mult2_eq [symmetric])
    then show ?thesis using e \<open>c div 64 = i * 64 + j\<close> by simp
  qed
  moreover have "0x800 \<le> c" using e by (cases "i = 0") (auto simp: c')
  moreover have "c < 0x10000" using e by (simp add: c')
  moreover have "is_scalar c"
  proof (cases "i < 13")
    case True
    then show ?thesis using e by (simp add: c' is_scalar_def)
  next
    case False
    then show ?thesis using e \<open>c < 0x10000\<close> by (cases "i = 13") (auto simp: c' is_scalar_def)
  qed
  ultimately show ?thesis using e by simp
qed

lemma utf8_digits4:
  fixes x y z t :: nat
  assumes "0xF0 \<le> x" "x \<le> 0xF4" "(if x = 0xF0 then 0x90 else 0x80) \<le> y" "y \<le> (if x = 0xF4 then 0x8F else 0xBF)"
    "0x80 \<le> z" "z \<le> 0xBF" "0x80 \<le> t" "t \<le> 0xBF"
    and c: "c = (((x - 0xF0) * 64 + (y - 0x80)) * 64 + (z - 0x80)) * 64 + (t - 0x80)"
  shows "0x10000 \<le> c \<and> is_scalar c \<and> 0xF0 + c div 262144 = x \<and> 0x80 + c div 4096 mod 64 = y
    \<and> 0x80 + c div 64 mod 64 = z \<and> 0x80 + c mod 64 = t"
proof -
  define i j k l where "i = x - 0xF0" and "j = y - 0x80" and "k = z - 0x80" and "l = t - 0x80"
  then have e: "x = 0xF0 + i" "y = 0x80 + j" "z = 0x80 + k" "t = 0x80 + l" "j < 64" "k < 64" "l < 64" "i < 5"
      "i = 0 \<Longrightarrow> 16 \<le> j" "i = 4 \<Longrightarrow> j < 16"
    using assms by (auto split: if_splits)
  have c': "c = ((i * 64 + j) * 64 + k) * 64 + l" by (simp add: c e)
  have d1: "c div 64 = (i * 64 + j) * 64 + k" "c mod 64 = l"
    using base64_digit [of l "(i * 64 + j) * 64 + k"] e by (simp_all only: c')
  have d2: "c div 4096 = i * 64 + j"
  proof -
    have "c div 4096 = c div 64 div 64" by (simp add: div_mult2_eq [symmetric])
    then show ?thesis using e d1 by simp
  qed
  have d3: "c div 262144 = i"
  proof -
    have "c div 262144 = c div 4096 div 64" by (simp add: div_mult2_eq [symmetric])
    then show ?thesis using e d2 by simp
  qed
  have "0x10000 \<le> c" using e by (cases "i = 0") (auto simp: c')
  moreover have "c < 0x110000" using e by (cases "i = 4") (auto simp: c')
  moreover have "c div 64 mod 64 = k" using base64_digit [of k "i * 64 + j"] e(6) by (simp only: d1)
  moreover have "c div 4096 mod 64 = j" using base64_digit [of j i] e(5) by (simp only: d2)
  ultimately show ?thesis using e d1 d3 by (simp add: is_scalar_def)
qed

lemma utf8_cont_nat: "utf8_cont bs i \<longleftrightarrow> i < length bs \<and> 0x80 \<le> unat (bs ! i) \<and> unat (bs ! i) \<le> 0xBF"
  by (simp add: utf8_cont_def word_le_nat_alt)

lemma utf8_second_nat:
  assumes "bs \<noteq> []"
  shows "utf8_second bs \<longleftrightarrow> 1 < length bs
     \<and> (if unat (bs ! 0) = 0xE0 then 0xA0 else if unat (bs ! 0) = 0xF0 then 0x90 else 0x80) \<le> unat (bs ! 1)
     \<and> unat (bs ! 1) \<le> (if unat (bs ! 0) = 0xED then 0x9F else if unat (bs ! 0) = 0xF4 then 0x8F else 0xBF)"
proof -
  have "b = 0xE0 \<longleftrightarrow> unat b = 0xE0" "b = 0xF0 \<longleftrightarrow> unat b = 0xF0" "b = 0xED \<longleftrightarrow> unat b = 0xED"
      "b = 0xF4 \<longleftrightarrow> unat b = 0xF4" for b :: u8
    by (simp_all add: word_unat_eq_iff)
  then show ?thesis
    unfolding utf8_second_def by (simp add: assms hd_conv_nth word_le_nat_alt if_distrib [of unat])
qed

lemma utf8_step_cases:
  assumes "bs \<noteq> []" and "utf8_step bs = (True, n)"
  obtains "n = 1" "unat (bs ! 0) < 0x80"
  | "n = 2" "0xC2 \<le> unat (bs ! 0)" "unat (bs ! 0) \<le> 0xDF" "utf8_cont bs 1"
  | "n = 3" "0xE0 \<le> unat (bs ! 0)" "unat (bs ! 0) \<le> 0xEF" "utf8_second bs" "utf8_cont bs 2"
  | "n = 4" "0xF0 \<le> unat (bs ! 0)" "unat (bs ! 0) \<le> 0xF4" "utf8_second bs" "utf8_cont bs 2" "utf8_cont bs 3"
  using assms by (auto simp: utf8_step_def Let_def hd_conv_nth word_le_nat_alt word_less_nat_alt split: if_splits)

lemma nth4: "(b0 # b1 # b2 # b3 # r) ! 2 = b2" "(b0 # b1 # b2 # b3 # r) ! 3 = b3"
    "take 4 (b0 # b1 # b2 # b3 # r) = [b0, b1, b2, b3]"
  by (simp_all add: eval_nat_numeral)

lemma utf8_char_roundtrip:
  assumes "bs \<noteq> []" and "utf8_step bs = (True, n)"
  shows "is_scalar (utf8_char bs) \<and> char_utf8 (utf8_char bs) = take n bs"
  using assms
proof (cases rule: utf8_step_cases)
  case 1
  then show ?thesis using assms by (cases bs) (simp_all add: utf8_char_def char_utf8_def is_scalar_def)
next
  case 2
  have y: "0x80 \<le> unat (bs ! 1)" "unat (bs ! 1) \<le> 0xBF" using 2(4) by (simp_all add: utf8_cont_nat)
  define c where "c = (unat (bs ! 0) - 0xC0) * 64 + (unat (bs ! 1) - 0x80)"
  note d = utf8_digits2 [OF 2(2,3) y c_def]
  have b: "of_nat (0xC0 + c div 64) = bs ! 0" "of_nat (0x80 + c mod 64) = bs ! 1" using d by (intro of_nat_unat; simp)+
  have r: "\<not> c < 0x80" "c < 0x800" using d by simp_all
  have "utf8_char bs = c" using assms(2) 2(1) by (simp add: utf8_char_def c_def)
  moreover have "char_utf8 c = [bs ! 0, bs ! 1]" unfolding char_utf8_def b if_not_P [OF r(1)] if_P [OF r(2)] ..
  moreover obtain b0 b1 r where "bs = b0 # b1 # r"
    using 2(4) by (auto simp: utf8_cont_def dest!: Suc_leI simp: Suc_le_length_iff)
  ultimately show ?thesis using 2(1) r by (simp add: is_scalar_def numeral_2_eq_2)
next
  case 3
  have sec: "(if unat (bs ! 0) = 0xE0 then 0xA0 else 0x80) \<le> unat (bs ! 1)"
      "unat (bs ! 1) \<le> (if unat (bs ! 0) = 0xED then 0x9F else 0xBF)"
    using 3 utf8_second_nat [OF assms(1)] by (auto split: if_splits)
  have z: "0x80 \<le> unat (bs ! 2)" "unat (bs ! 2) \<le> 0xBF" using 3(5) by (simp_all add: utf8_cont_nat)
  define c where "c = ((unat (bs ! 0) - 0xE0) * 64 + (unat (bs ! 1) - 0x80)) * 64 + (unat (bs ! 2) - 0x80)"
  note d = utf8_digits3 [OF 3(2,3) sec z c_def]
  have b: "of_nat (0xE0 + c div 4096) = bs ! 0" "of_nat (0x80 + c div 64 mod 64) = bs ! 1"
      "of_nat (0x80 + c mod 64) = bs ! 2" using d by (intro of_nat_unat; simp)+
  have r: "\<not> c < 0x80" "\<not> c < 0x800" "c < 0x10000" using d by simp_all
  have "utf8_char bs = c" using assms(2) 3(1) by (simp add: utf8_char_def c_def)
  moreover have "char_utf8 c = [bs ! 0, bs ! 1, bs ! 2]"
    unfolding char_utf8_def b if_not_P [OF r(1)] if_not_P [OF r(2)] if_P [OF r(3)] ..
  moreover obtain b0 b1 b2 r where "bs = b0 # b1 # b2 # r"
    using 3(5) by (auto simp: utf8_cont_def numeral_2_eq_2 dest!: Suc_leI simp: Suc_le_length_iff)
  ultimately show ?thesis using 3(1) d by (simp add: numeral_2_eq_2 numeral_3_eq_3)
next
  case 4
  have sec: "(if unat (bs ! 0) = 0xF0 then 0x90 else 0x80) \<le> unat (bs ! 1)"
      "unat (bs ! 1) \<le> (if unat (bs ! 0) = 0xF4 then 0x8F else 0xBF)"
    using 4 utf8_second_nat [OF assms(1)] by (auto split: if_splits)
  have z: "0x80 \<le> unat (bs ! 2)" "unat (bs ! 2) \<le> 0xBF" "0x80 \<le> unat (bs ! 3)" "unat (bs ! 3) \<le> 0xBF"
    using 4(5,6) by (simp_all add: utf8_cont_nat)
  define c where "c = (((unat (bs ! 0) - 0xF0) * 64 + (unat (bs ! 1) - 0x80)) * 64 + (unat (bs ! 2) - 0x80)) * 64
      + (unat (bs ! 3) - 0x80)"
  note d = utf8_digits4 [OF 4(2,3) sec z c_def]
  have b: "of_nat (0xF0 + c div 262144) = bs ! 0" "of_nat (0x80 + c div 4096 mod 64) = bs ! 1"
      "of_nat (0x80 + c div 64 mod 64) = bs ! 2" "of_nat (0x80 + c mod 64) = bs ! 3"
    using d by (intro of_nat_unat; simp)+
  have r: "\<not> c < 0x80" "\<not> c < 0x800" "\<not> c < 0x10000" using d by simp_all
  have "utf8_char bs = c" using assms(2) 4(1) by (simp add: utf8_char_def c_def)
  moreover have "char_utf8 c = [bs ! 0, bs ! 1, bs ! 2, bs ! 3]"
    unfolding char_utf8_def b if_not_P [OF r(1)] if_not_P [OF r(2)] if_not_P [OF r(3)] ..
  moreover obtain b0 b1 b2 b3 r where "bs = b0 # b1 # b2 # b3 # r"
    using 4(6) by (auto simp: utf8_cont_def numeral_3_eq_3 dest!: Suc_leI simp: Suc_le_length_iff)
  ultimately show ?thesis using 4(1) d by (simp add: nth4)
qed

lemma str_chars_roundtrip: "utf8_valid s \<Longrightarrow> list_all is_scalar (str_chars s) \<and> concat (map char_utf8 (str_chars s)) = s"
proof (induction s rule: str_chars.induct)
  case (1 bs)
  show ?case
  proof (cases "bs = []")
    case True
    then show ?thesis by (simp add: str_chars.simps)
  next
    case False
    obtain n where n: "utf8_step bs = (True, n)" and v: "utf8_valid (drop n bs)"
      using "1.prems" False by (subst (asm) utf8_valid.simps) (auto split: prod.splits)
    have "list_all is_scalar (str_chars (drop n bs)) \<and> concat (map char_utf8 (str_chars (drop n bs))) = drop n bs"
      using "1.IH" [OF False] n v by simp
    then show ?thesis using utf8_char_roundtrip [OF False n] False n by (subst (1 2) str_chars.simps) simp
  qed
qed

text \<open>A valid string is recovered from its UTF-16 code units.\<close>

lemma utf16_string_roundtrip: "utf8_valid s \<Longrightarrow> from_utf16 (encode_utf16 s) = Some s"
  using str_chars_roundtrip [of s] by (simp add: from_utf16_def encode_utf16_def utf16_roundtrip)

end
