(* ===== verification/Plist.thy ===== *)
theory Plist
  imports Unicode "HOL-Library.List_Lexorder"
begin

text \<open>
  Binary property lists: the values of \<open>src/protocol/plist/mod.rs\<close>, the encoder of \<open>encode.rs\<close> with
  its cache of already written objects, and the decoder of \<open>decode.rs\<close>, which follows object
  references from the root. A dictionary, a \<open>HashMap\<close> in the code, is the list of its entries in
  key order; \<open>i64\<close> and \<open>u64\<close> are 64-bit words, a \<open>f64\<close> is its bit pattern. \<open>None\<close> is a panic: a
  failed \<open>unwrap\<close>, an overflow of \<open>usize\<close> arithmetic, or a capacity that cannot be allocated
  (the argument \<open>alloc\<close> says which numbers of elements can).
\<close>

section \<open>Values\<close>

type_synonym i64 = "64 word"

datatype plist =
    PBoolean bool
  | PInteger i64
  | PUnsignedInteger u64
  | PReal u64
  | PString str
  | PData bytes
  | PDate u64
  | PArray "plist list"
  | PDictionary "(str \<times> plist) list"
  | PUid u64

fun as_bool :: "plist \<Rightarrow> bool option" where
  "as_bool (PBoolean b) = Some b"
| "as_bool _ = None"

fun as_i64 :: "plist \<Rightarrow> i64 option" where
  "as_i64 (PInteger i) = Some i"
| "as_i64 (PUnsignedInteger u) = (if unat u < 2 ^ 63 then Some u else None)"
| "as_i64 _ = None"

fun as_u64 :: "plist \<Rightarrow> u64 option" where
  "as_u64 (PInteger i) = (if 0 \<le> sint i then Some i else None)"
| "as_u64 (PUnsignedInteger u) = Some u"
| "as_u64 _ = None"

fun as_str :: "plist \<Rightarrow> str option" where
  "as_str (PString s) = Some s"
| "as_str _ = None"

fun as_bytes :: "plist \<Rightarrow> bytes option" where
  "as_bytes (PData d) = Some d"
| "as_bytes _ = None"

fun as_array :: "plist \<Rightarrow> plist list option" where
  "as_array (PArray a) = Some a"
| "as_array _ = None"

fun as_dict :: "plist \<Rightarrow> (str \<times> plist) list option" where
  "as_dict (PDictionary d) = Some d"
| "as_dict _ = None"

text \<open>\<open>HashMap::insert\<close> and \<open>get\<close>, on entries in key order.\<close>

fun dict_insert :: "str \<Rightarrow> 'a \<Rightarrow> (str \<times> 'a) list \<Rightarrow> (str \<times> 'a) list" where
  "dict_insert k v [] = [(k, v)]"
| "dict_insert k v ((k', v') # d) =
     (if k < k' then (k, v) # (k', v') # d else if k = k' then (k, v) # d else (k', v') # dict_insert k v d)"

definition dict_get :: "(str \<times> 'a) list \<Rightarrow> str \<Rightarrow> 'a option" where
  "dict_get d k = map_of d k"

section \<open>Encoder\<close>

datatype plist_encode_error = ValueTooLarge | TooManyObjects nat | StringEncodingError

datatype object_key =
    Key_String str | Key_Data bytes | Key_Integer i64 | Key_Real u64 | Key_Uid u64 | Key_Date u64

record plist_encoder =
  enc_objects :: bytes
  enc_offsets :: "nat list"
  enc_cache :: "object_key \<rightharpoonup> nat"

definition encoder_new :: plist_encoder where
  "encoder_new = \<lparr>enc_objects = [], enc_offsets = [], enc_cache = Map.empty\<rparr>"

fun get_object_key :: "plist \<Rightarrow> object_key option" where
  "get_object_key (PString s) = Some (Key_String s)"
| "get_object_key (PData d) = Some (Key_Data d)"
| "get_object_key (PInteger i) = Some (Key_Integer i)"
| "get_object_key (PReal f) = Some (Key_Real f)"
| "get_object_key (PDate d) = Some (Key_Date d)"
| "get_object_key (PUid u) = Some (Key_Uid u)"
| "get_object_key _ = None"

definition write_int_to :: "nat \<Rightarrow> bytes" where
  "write_int_to v =
     (if v \<le> 0xFF then 0x10 # be_bytes 1 (of_nat v :: u64)
      else if v \<le> 0xFFFF then 0x11 # be_bytes 2 (of_nat v :: u64)
      else if v \<le> 0xFFFFFFFF then 0x12 # be_bytes 4 (of_nat v :: u64)
      else 0x13 # be_bytes 8 (of_nat v :: u64))"

definition write_header_to :: "u8 \<Rightarrow> nat \<Rightarrow> bytes" where
  "write_header_to kind len =
     (if len < 15 then [push_bit 4 kind OR of_nat len] else (push_bit 4 kind OR 0xF) # write_int_to len)"

definition encode_boolean :: "bool \<Rightarrow> bytes" where
  "encode_boolean b = (if b then [0x09] else [0x08])"

definition encode_integer :: "i64 \<Rightarrow> bytes" where
  "encode_integer v =
     (if 0 \<le> sint v
      then if sint v \<le> 127 then 0x10 # be_bytes 1 v
           else if sint v \<le> 32767 then 0x11 # be_bytes 2 v
           else if sint v \<le> 2147483647 then 0x12 # be_bytes 4 v
           else 0x13 # be_bytes 8 v
      else 0x13 # be_bytes 8 v)"

definition encode_unsigned :: "u64 \<Rightarrow> bytes" where
  "encode_unsigned v =
     (if unat v \<le> 2 ^ 63 - 1 then encode_integer v else 0x14 # replicate 8 0 @ be_bytes 8 v)"

definition encode_real :: "u64 \<Rightarrow> bytes" where
  "encode_real f = 0x23 # be_bytes 8 f"

definition encode_date :: "u64 \<Rightarrow> bytes" where
  "encode_date d = 0x33 # be_bytes 8 d"

definition is_ascii :: "str \<Rightarrow> bool" where
  "is_ascii s \<longleftrightarrow> list_all (\<lambda>b. b < 0x80) s"

definition encode_string :: "str \<Rightarrow> bytes" where
  "encode_string s =
     (if is_ascii s then write_header_to 0x5 (length s) @ s
      else let u16s = encode_utf16 s in write_header_to 0x6 (length u16s) @ concat (map (be_bytes 2) u16s))"

definition encode_data :: "bytes \<Rightarrow> bytes" where
  "encode_data d = write_header_to 0x4 (length d) @ d"

definition encode_uid :: "u64 \<Rightarrow> bytes" where
  "encode_uid v =
     (if unat v \<le> 0xFF then 0x80 # be_bytes 1 v
      else if unat v \<le> 0xFFFF then 0x81 # be_bytes 2 v
      else if unat v \<le> 0xFFFFFFFF then 0x83 # be_bytes 4 v
      else 0x87 # be_bytes 8 v)"

text \<open>The primitive cases of \<open>encode_value\<close>; the two containers are not primitive.\<close>

fun encode_primitive :: "plist \<Rightarrow> bytes" where
  "encode_primitive (PBoolean b) = encode_boolean b"
| "encode_primitive (PInteger i) = encode_integer i"
| "encode_primitive (PUnsignedInteger u) = encode_unsigned u"
| "encode_primitive (PReal f) = encode_real f"
| "encode_primitive (PString s) = encode_string s"
| "encode_primitive (PData d) = encode_data d"
| "encode_primitive (PDate d) = encode_date d"
| "encode_primitive (PUid u) = encode_uid u"
| "encode_primitive _ = []"

definition write_ref :: "nat \<Rightarrow> (plist_encode_error, bytes) result" where
  "write_ref index = (if index \<le> 0xFFFF then Inr (be_bytes 2 (of_nat index :: u16)) else Inl ValueTooLarge)"

primrec write_refs :: "nat list \<Rightarrow> (plist_encode_error, bytes) result" where
  "write_refs [] = Inr []"
| "write_refs (r # rs) = result_bind (write_ref r) (\<lambda>b. result_bind (write_refs rs) (\<lambda>bs. Inr (b @ bs)))"

definition create_array_body :: "nat list \<Rightarrow> (plist_encode_error, bytes) result" where
  "create_array_body refs = result_bind (write_refs refs) (\<lambda>b. Inr (write_header_to 0xA (length refs) @ b))"

definition create_dict_body :: "nat list \<Rightarrow> nat list \<Rightarrow> (plist_encode_error, bytes) result" where
  "create_dict_body key_refs val_refs =
     result_bind (write_refs key_refs) (\<lambda>k. result_bind (write_refs val_refs) (\<lambda>v.
       Inr (write_header_to 0xD (length key_refs) @ k @ v)))"

definition cached :: "plist_encoder \<Rightarrow> plist \<Rightarrow> nat option" where
  "cached e v = Option.bind (get_object_key v) (enc_cache e)"

definition push_object :: "plist_encoder \<Rightarrow> plist \<Rightarrow> bytes \<Rightarrow> plist_encoder \<times> nat" where
  "push_object e v body =
     (let index = length (enc_offsets e);
          cache = (case get_object_key v of None \<Rightarrow> enc_cache e | Some key \<Rightarrow> (enc_cache e)(key \<mapsto> index))
      in (\<lparr>enc_objects = enc_objects e @ body, enc_offsets = enc_offsets e @ [length (enc_objects e)],
           enc_cache = cache\<rparr>, index))"

definition encode_leaf :: "plist_encoder \<Rightarrow> plist \<Rightarrow> plist_encoder \<times> nat" where
  "encode_leaf e v =
     (case cached e v of Some index \<Rightarrow> (e, index) | None \<Rightarrow> push_object e v (encode_primitive v))"

fun encode_value :: "plist_encoder \<Rightarrow> plist \<Rightarrow> (plist_encode_error, plist_encoder \<times> nat) result"
and encode_items :: "plist_encoder \<Rightarrow> plist list \<Rightarrow> (plist_encode_error, plist_encoder \<times> nat list) result"
and encode_entries :: "plist_encoder \<Rightarrow> (str \<times> plist) list \<Rightarrow>
     (plist_encode_error, plist_encoder \<times> nat list \<times> nat list) result" where
  "encode_value e (PArray arr) =
     result_bind (encode_items e arr) (\<lambda>(e', refs).
     result_bind (create_array_body refs) (\<lambda>body. Inr (push_object e' (PArray arr) body)))"
| "encode_value e (PDictionary dict) =
     result_bind (encode_entries e dict) (\<lambda>(e', key_refs, val_refs).
     result_bind (create_dict_body key_refs val_refs) (\<lambda>body. Inr (push_object e' (PDictionary dict) body)))"
| "encode_value e v = Inr (encode_leaf e v)"
| "encode_items e [] = Inr (e, [])"
| "encode_items e (v # vs) =
     result_bind (encode_value e v) (\<lambda>(e', r).
     result_bind (encode_items e' vs) (\<lambda>(e'', rs). Inr (e'', r # rs)))"
| "encode_entries e [] = Inr (e, [], [])"
| "encode_entries e ((k, v) # kvs) =
     (case encode_leaf e (PString k) of (e1, kr) \<Rightarrow>
     result_bind (encode_value e1 v) (\<lambda>(e2, vr).
     result_bind (encode_entries e2 kvs) (\<lambda>(e3, krs, vrs). Inr (e3, kr # krs, vr # vrs))))"

definition calculate_offset_size :: "nat \<Rightarrow> nat" where
  "calculate_offset_size max_offset =
     (if max_offset \<le> 0xFF then 1 else if max_offset \<le> 0xFFFF then 2 else if max_offset \<le> 0xFFFFFFFF then 4 else 8)"

definition write_sized_int :: "nat \<Rightarrow> nat \<Rightarrow> bytes option" where
  "write_sized_int v sz = (if v < 256 ^ sz then Some (be_bytes sz (of_nat v :: u64)) else None)"

primrec write_offsets :: "nat \<Rightarrow> nat list \<Rightarrow> bytes option" where
  "write_offsets sz [] = Some []"
| "write_offsets sz (v # vs) =
     Option.bind (write_sized_int v sz) (\<lambda>b. Option.bind (write_offsets sz vs) (\<lambda>bs. Some (b @ bs)))"

definition write_trailer :: "nat \<Rightarrow> nat \<Rightarrow> nat \<Rightarrow> nat \<Rightarrow> bytes" where
  "write_trailer offset_size num_objects root offset_table_offset =
     replicate 5 0 @ [0, of_nat offset_size, 2] @ be_bytes 8 (of_nat num_objects :: u64)
     @ be_bytes 8 (of_nat root :: u64) @ be_bytes 8 (of_nat offset_table_offset :: u64)"

definition plist_magic :: bytes where
  "plist_magic = ascii ''bplist00''"

definition plist_encode :: "plist \<Rightarrow> (plist_encode_error, bytes) result option" where
  "plist_encode v =
     (case encode_value encoder_new v of
        Inl e \<Rightarrow> Some (Inl e)
      | Inr (e, root_index) \<Rightarrow>
          if length (enc_offsets e) > 65535 then Some (Inl (TooManyObjects (length (enc_offsets e))))
          else let objects_start = 8;
                   output = plist_magic @ enc_objects e;
                   offset_size = calculate_offset_size (objects_start + length (enc_objects e))
               in Option.bind (write_offsets offset_size (map ((+) objects_start) (enc_offsets e))) (\<lambda>table.
                    Some (Inr (output @ table
                      @ write_trailer offset_size (length (enc_offsets e)) root_index (length output)))))"

section \<open>Decoder\<close>

datatype plist_decode_error =
    InvalidMagic bytes
  | BufferTooSmall nat nat
  | InvalidTrailer
  | InvalidObjectMarker u8
  | InvalidOffset nat
  | InvalidUtf8
  | UnsupportedType string
  | CircularReference
  | IntegerOverflow

type_synonym 'a decoded = "(plist_decode_error, 'a) result option"

definition dbind :: "'a decoded \<Rightarrow> ('a \<Rightarrow> 'b decoded) \<Rightarrow> 'b decoded" where
  "dbind m f = (case m of None \<Rightarrow> None | Some (Inl e) \<Rightarrow> Some (Inl e) | Some (Inr x) \<Rightarrow> f x)"

abbreviation dok :: "'a \<Rightarrow> 'a decoded" where "dok x \<equiv> Some (Inr x)"
abbreviation derr :: "plist_decode_error \<Rightarrow> 'a decoded" where "derr e \<equiv> Some (Inl e)"

text \<open>A \<open>usize\<close> computation, and the slice of \<open>n\<close> bytes from \<open>pos\<close> with the check before it.\<close>

definition usize :: "nat \<Rightarrow> nat decoded" where
  "usize n = (if n < 2 ^ 64 then dok n else None)"

definition checked_slice :: "bytes \<Rightarrow> nat \<Rightarrow> nat \<Rightarrow> bytes decoded" where
  "checked_slice data pos n =
     dbind (usize (pos + n)) (\<lambda>end_pos.
       if end_pos > length data then derr (BufferTooSmall end_pos (length data))
       else dok (take n (drop pos data)))"

record plist_trailer =
  tr_offset_size :: nat
  tr_object_ref_size :: nat
  tr_num_objects :: nat
  tr_root_object_index :: nat
  tr_offset_table_offset :: nat

definition from_be_nat :: "bytes \<Rightarrow> nat" where
  "from_be_nat bs = unat (from_be bs :: u64)"

definition trailer_parse :: "bytes \<Rightarrow> (plist_decode_error, plist_trailer) result" where
  "trailer_parse data =
     (if length data < 32 then Inl (BufferTooSmall 32 (length data))
      else let trailer = drop (length data - 32) data
           in Inr \<lparr>tr_offset_size = unat (trailer ! 6), tr_object_ref_size = unat (trailer ! 7),
                   tr_num_objects = from_be_nat (take 8 (drop 8 trailer)),
                   tr_root_object_index = from_be_nat (take 8 (drop 16 trailer)),
                   tr_offset_table_offset = from_be_nat (take 8 (drop 24 trailer))\<rparr>)"

definition read_sized_int :: "bytes \<Rightarrow> nat \<Rightarrow> (plist_decode_error, nat) result" where
  "read_sized_int bs sz = (if sz \<in> {1, 2, 4, 8} then Inr (from_be_nat (take sz bs)) else Inl InvalidTrailer)"

primrec read_offsets :: "bytes \<Rightarrow> nat \<Rightarrow> nat \<Rightarrow> nat \<Rightarrow> (plist_decode_error, nat list) result" where
  "read_offsets data entry_size start 0 = Inr []"
| "read_offsets data entry_size start (Suc n) =
     result_bind (read_sized_int (take entry_size (drop start data)) entry_size) (\<lambda>offset.
     result_bind (read_offsets data entry_size (start + entry_size) n) (\<lambda>offsets. Inr (offset # offsets)))"

definition parse_offset_table :: "(nat \<Rightarrow> bool) \<Rightarrow> bytes \<Rightarrow> plist_trailer \<Rightarrow> nat list decoded" where
  "parse_offset_table alloc data tr =
     dbind (usize (tr_num_objects tr * tr_offset_size tr)) (\<lambda>table_size.
     dbind (usize (tr_offset_table_offset tr + table_size)) (\<lambda>end_pos.
     if end_pos > length data then derr (BufferTooSmall end_pos (length data))
     else if \<not> alloc (tr_num_objects tr) then None
     else Some (read_offsets data (tr_offset_size tr) (tr_offset_table_offset tr) (tr_num_objects tr))))"

record plist_decoder =
  dec_data :: bytes
  dec_offset_table :: "nat list"
  dec_object_ref_size :: nat

definition decode_singleton :: "u8 \<Rightarrow> plist decoded" where
  "decode_singleton nibble =
     (if nibble = 0x0 \<or> nibble = 0xF then dok (PData [])
      else if nibble = 0x8 then dok (PBoolean False)
      else if nibble = 0x9 then dok (PBoolean True)
      else derr (InvalidObjectMarker nibble))"

definition decode_integer :: "bytes \<Rightarrow> nat \<Rightarrow> u8 \<Rightarrow> plist decoded" where
  "decode_integer data pos size_exp =
     (let bytes_len = 2 ^ unat size_exp in
      dbind (checked_slice data pos bytes_len) (\<lambda>int_bytes.
      if bytes_len = 1 then dok (PInteger (scast (from_be int_bytes :: 8 word)))
      else if bytes_len = 2 then dok (PInteger (scast (from_be int_bytes :: 16 word)))
      else if bytes_len = 4 then dok (PInteger (scast (from_be int_bytes :: 32 word)))
      else if bytes_len = 8 then dok (PInteger (from_be int_bytes))
      else if bytes_len = 16
      then (if take 8 int_bytes = replicate 8 0 then dok (PUnsignedInteger (from_be (drop 8 int_bytes)))
            else derr IntegerOverflow)
      else derr IntegerOverflow))"

text \<open>
  \<open>f64::from(f32)\<close> on bit patterns: the exponent is rebiased and the fraction widened; a
  subnormal is normalised, infinities and NaNs keep the largest exponent (a NaN is quiet).
\<close>

definition f64_from_f32 :: "u32 \<Rightarrow> u64" where
  "f64_from_f32 w =
     (let sign = push_bit 63 (ucast (drop_bit 31 w)) :: u64; e = unat (drop_bit 23 w AND 0xFF); m = unat (w AND 0x7FFFFF) in
      if e = 255 then sign OR push_bit 52 0x7FF OR (if m = 0 then 0 else push_bit 51 1 OR push_bit 29 (of_nat m))
      else if e > 0 then sign OR push_bit 52 (of_nat (e + 896)) OR push_bit 29 (of_nat m)
      else if m = 0 then sign
      else let k = 23 - length (takeWhile (\<lambda>i. m < 2 ^ (22 - i)) [0..<23])
           in sign OR push_bit 52 (of_nat (873 + k)) OR of_nat ((m - 2 ^ (k - 1)) * 2 ^ (53 - k)))"

definition decode_real :: "bytes \<Rightarrow> nat \<Rightarrow> u8 \<Rightarrow> plist decoded" where
  "decode_real data pos size_exp =
     (let bytes_len = 2 ^ unat size_exp in
      dbind (checked_slice data pos bytes_len) (\<lambda>real_bytes.
      if bytes_len = 4 then dok (PReal (f64_from_f32 (from_be real_bytes)))
      else if bytes_len = 8 then dok (PReal (from_be real_bytes))
      else derr (UnsupportedType ''Real size not 4 or 8'')))"

definition decode_date :: "bytes \<Rightarrow> nat \<Rightarrow> plist decoded" where
  "decode_date data pos = dbind (checked_slice data pos 8) (\<lambda>date_bytes. dok (PDate (from_be date_bytes)))"

definition decode_size :: "bytes \<Rightarrow> nat \<Rightarrow> u8 \<Rightarrow> (nat \<times> nat) decoded" where
  "decode_size data pos nibble =
     (if nibble = 0xF
      then if pos \<ge> length data then derr (BufferTooSmall (pos + 1) (length data))
           else let marker = data ! pos; bytes_len = 2 ^ unat (marker AND 0x0F) in
             if drop_bit 4 marker \<noteq> 0x1 then derr (InvalidObjectMarker marker)
             else dbind (checked_slice data (pos + 1) bytes_len) (\<lambda>len_bytes.
               if bytes_len \<in> {1, 2, 4, 8} then dok (from_be_nat len_bytes, pos + 1 + bytes_len)
               else derr IntegerOverflow)
      else dok (unat nibble, pos))"

definition decode_data :: "bytes \<Rightarrow> nat \<Rightarrow> u8 \<Rightarrow> plist decoded" where
  "decode_data data pos nibble =
     dbind (decode_size data pos nibble) (\<lambda>(len, data_start).
     dbind (checked_slice data data_start len) (\<lambda>d. dok (PData d)))"

definition decode_ascii_string :: "bytes \<Rightarrow> nat \<Rightarrow> u8 \<Rightarrow> plist decoded" where
  "decode_ascii_string data pos nibble =
     dbind (decode_size data pos nibble) (\<lambda>(len, str_start).
     dbind (checked_slice data str_start len) (\<lambda>s. if utf8_valid s then dok (PString s) else derr InvalidUtf8))"

fun u16_units :: "bytes \<Rightarrow> u16 list" where
  "u16_units (a # b # bs) = from_be [a, b] # u16_units bs"
| "u16_units _ = []"

definition decode_utf16_string :: "bytes \<Rightarrow> nat \<Rightarrow> u8 \<Rightarrow> plist decoded" where
  "decode_utf16_string data pos nibble =
     dbind (decode_size data pos nibble) (\<lambda>(len, str_start).
     dbind (usize (len * 2)) (\<lambda>byte_len.
     dbind (checked_slice data str_start byte_len) (\<lambda>b.
       case from_utf16 (u16_units b) of None \<Rightarrow> derr InvalidUtf8 | Some s \<Rightarrow> dok (PString s))))"

definition decode_uid :: "bytes \<Rightarrow> nat \<Rightarrow> u8 \<Rightarrow> plist decoded" where
  "decode_uid data pos nibble =
     dbind (checked_slice data pos (unat nibble + 1)) (\<lambda>b.
       dok (PUid (foldl (\<lambda>val x. push_bit 8 val OR ucast x) 0 b)))"

text \<open>The cases of \<open>decode_value\<close> that do not follow references.\<close>

definition decode_scalar :: "bytes \<Rightarrow> u8 \<Rightarrow> nat \<Rightarrow> plist decoded" where
  "decode_scalar data marker pos =
     (let high_nibble = drop_bit 4 marker; low_nibble = marker AND 0x0F in
      if high_nibble = 0x0 then decode_singleton low_nibble
      else if high_nibble = 0x1 then decode_integer data pos low_nibble
      else if high_nibble = 0x2 then decode_real data pos low_nibble
      else if high_nibble = 0x3 then decode_date data pos
      else if high_nibble = 0x4 then decode_data data pos low_nibble
      else if high_nibble = 0x5 then decode_ascii_string data pos low_nibble
      else if high_nibble = 0x6 then decode_utf16_string data pos low_nibble
      else if high_nibble = 0x8 then decode_uid data pos low_nibble
      else derr (InvalidObjectMarker marker))"

definition read_ref :: "plist_decoder \<Rightarrow> nat \<Rightarrow> nat decoded" where
  "read_ref d pos =
     Some (read_sized_int (take (dec_object_ref_size d) (drop pos (dec_data d))) (dec_object_ref_size d))"

text \<open>The count and the references of a container: \<open>width\<close> is the number of references per entry.\<close>

definition container_refs :: "(nat \<Rightarrow> bool) \<Rightarrow> plist_decoder \<Rightarrow> nat \<Rightarrow> u8 \<Rightarrow> nat \<Rightarrow> (nat \<times> nat) decoded" where
  "container_refs alloc d pos nibble width =
     dbind (decode_size (dec_data d) pos nibble) (\<lambda>(n, refs_start).
     dbind (usize (n * width)) (\<lambda>refs.
     dbind (usize (refs * dec_object_ref_size d)) (\<lambda>refs_size.
     dbind (usize (refs_start + refs_size)) (\<lambda>end_pos.
       if end_pos > length (dec_data d) then derr (BufferTooSmall end_pos (length (dec_data d)))
       else if \<not> alloc n then None
       else dok (n, refs_start)))))"

function (sequential) decode_object :: "(nat \<Rightarrow> bool) \<Rightarrow> plist_decoder \<Rightarrow> nat \<Rightarrow> nat set \<Rightarrow> plist decoded"
and decode_items :: "(nat \<Rightarrow> bool) \<Rightarrow> plist_decoder \<Rightarrow> nat set \<Rightarrow> nat \<Rightarrow> nat \<Rightarrow> plist list decoded"
and decode_entries :: "(nat \<Rightarrow> bool) \<Rightarrow> plist_decoder \<Rightarrow> nat set \<Rightarrow> nat \<Rightarrow> nat \<Rightarrow> nat \<Rightarrow> (str \<times> plist) list decoded" where
  "decode_object alloc d index seen =
     (if index \<in> seen then derr CircularReference
      else if \<not> index < length (dec_offset_table d) then derr (InvalidOffset index)
      else let pos = dec_offset_table d ! index in
        if pos \<ge> length (dec_data d) then derr (InvalidOffset pos)
        else let marker = dec_data d ! pos; low_nibble = marker AND 0x0F in
          if drop_bit 4 marker = 0xA
          then (case container_refs alloc d (pos + 1) low_nibble 1 of
                  None \<Rightarrow> None | Some (Inl e) \<Rightarrow> derr e
                | Some (Inr (n, refs_start)) \<Rightarrow>
                    dbind (decode_items alloc d (insert index seen) refs_start n) (\<lambda>items. dok (PArray items)))
          else if drop_bit 4 marker = 0xD
          then (case container_refs alloc d (pos + 1) low_nibble 2 of
                  None \<Rightarrow> None | Some (Inl e) \<Rightarrow> derr e
                | Some (Inr (n, refs_start)) \<Rightarrow>
                    dbind (decode_entries alloc d (insert index seen) refs_start
                             (refs_start + n * dec_object_ref_size d) n) (\<lambda>entries.
                      dok (PDictionary (fold (\<lambda>(k, v). dict_insert k v) entries []))))
          else decode_scalar (dec_data d) marker (pos + 1))"
| "decode_items alloc d seen pos 0 = dok []"
| "decode_items alloc d seen pos (Suc n) =
     (case read_ref d pos of
        None \<Rightarrow> None | Some (Inl e) \<Rightarrow> derr e
      | Some (Inr index) \<Rightarrow>
          dbind (decode_object alloc d index seen) (\<lambda>v.
          dbind (decode_items alloc d seen (pos + dec_object_ref_size d) n) (\<lambda>vs. dok (v # vs))))"
| "decode_entries alloc d seen key_pos val_pos 0 = dok []"
| "decode_entries alloc d seen key_pos val_pos (Suc n) =
     (case read_ref d key_pos of
        None \<Rightarrow> None | Some (Inl e) \<Rightarrow> derr e
      | Some (Inr key_index) \<Rightarrow>
        (case read_ref d val_pos of
           None \<Rightarrow> None | Some (Inl e) \<Rightarrow> derr e
         | Some (Inr val_index) \<Rightarrow>
             dbind (decode_object alloc d key_index seen) (\<lambda>key_val.
             (case key_val of
                PString key_str \<Rightarrow>
                  dbind (decode_object alloc d val_index seen) (\<lambda>val_val.
                  dbind (decode_entries alloc d seen (key_pos + dec_object_ref_size d)
                           (val_pos + dec_object_ref_size d) n) (\<lambda>rest. dok ((key_str, val_val) # rest)))
              | _ \<Rightarrow> derr (UnsupportedType ''Dictionary key must be a string'')))))"
  by pat_completeness auto

termination
proof (relation "measures
    [\<lambda>x. case x of Inl (alloc, d, index, seen) \<Rightarrow> card ({..<length (dec_offset_table d)} - seen)
        | Inr (Inl (alloc, d, seen, pos, n)) \<Rightarrow> card ({..<length (dec_offset_table d)} - seen)
        | Inr (Inr (alloc, d, seen, kpos, vpos, n)) \<Rightarrow> card ({..<length (dec_offset_table d)} - seen),
     \<lambda>x. case x of Inl _ \<Rightarrow> 0 | Inr (Inl (alloc, d, seen, pos, n)) \<Rightarrow> n | Inr (Inr (alloc, d, seen, kpos, vpos, n)) \<Rightarrow> n]")
qed (auto simp: card_gt_0_iff intro!: diff_less)

declare decode_object.simps [simp del]

definition plist_decode :: "(nat \<Rightarrow> bool) \<Rightarrow> bytes \<Rightarrow> plist decoded" where
  "plist_decode alloc data =
     (if length data < 8 then derr (BufferTooSmall 8 (length data))
      else if take 8 data \<noteq> plist_magic then derr (InvalidMagic (take 8 data))
      else case trailer_parse data of
        Inl e \<Rightarrow> derr e
      | Inr tr \<Rightarrow>
          dbind (parse_offset_table alloc data tr) (\<lambda>offset_table.
            decode_object alloc
              \<lparr>dec_data = data, dec_offset_table = offset_table, dec_object_ref_size = tr_object_ref_size tr\<rparr>
              (tr_root_object_index tr) {}))"

end
