(* ===== verification/Plist_Roundtrip.thy ===== *)
theory Plist_Roundtrip
  imports Plist
begin

text \<open>
  What the property-list encoder writes is what the decoder reads. \<open>stored\<close> describes an object
  of the encoder's buffer with the objects it refers to, all of smaller index; encoding keeps
  every stored object and the meaning of its cache, and decoding follows the references back.
\<close>

section \<open>Bytes at a position\<close>

definition bytes_at :: "bytes \<Rightarrow> nat \<Rightarrow> bytes \<Rightarrow> bool" where
  "bytes_at data pos bs \<longleftrightarrow> pos + length bs \<le> length data \<and> take (length bs) (drop pos data) = bs"

lemma bytes_at_append:
  "bytes_at data pos (xs @ ys) \<longleftrightarrow> bytes_at data pos xs \<and> bytes_at data (pos + length xs) ys"
  by (auto simp: bytes_at_def take_add add.commute append_eq_conv_conj)

lemma bytes_at_Cons:
  "bytes_at data pos (x # xs) \<longleftrightarrow> pos < length data \<and> data ! pos = x \<and> bytes_at data (Suc pos) xs"
proof -
  have "bytes_at data pos [x] \<longleftrightarrow> pos < length data \<and> data ! pos = x"
    by (auto simp: bytes_at_def take_Suc hd_drop_conv_nth Suc_le_eq)
  then show ?thesis using bytes_at_append [of data pos "[x]" xs] by simp
qed

lemma bytes_at_mono: "bytes_at data pos bs \<Longrightarrow> bytes_at (data @ post) pos bs"
  by (simp add: bytes_at_def)

lemma bytes_at_shift: "bytes_at data pos bs \<Longrightarrow> bytes_at (pre @ data @ post) (length pre + pos) bs"
  by (simp add: bytes_at_def)

lemma checked_slice_at:
  "bytes_at data pos bs \<Longrightarrow> n = length bs \<Longrightarrow> length data < 2 ^ 63 \<Longrightarrow> checked_slice data pos n = dok bs"
  by (simp add: checked_slice_def usize_def dbind_def bytes_at_def)

lemma dbind_ok [simp]: "dbind (dok x) f = f x"
  by (simp add: dbind_def)

section \<open>Integers\<close>

lemma from_be_be_bytes_cast:
  "(from_be (be_bytes n (w :: 'a::len word)) :: 'b::len word) = ucast (take_bit (8 * n) w)"
proof (induction n)
  case (Suc n)
  have "(push_bit (8 * n) (ucast (ucast (drop_bit (8 * n) w) :: u8)) :: 'b word) OR ucast (take_bit (8 * n) w)
      = ucast (take_bit (8 * Suc n) w)"
    by (rule bit_word_eqI) (auto simp: bit_simps dest: bit_imp_le_length)
  then show ?case using Suc by simp
qed simp

lemma from_be_nat_bytes:
  assumes "v < 256 ^ n" and "n \<le> 8"
  shows "from_be_nat (be_bytes n (of_nat v :: u64)) = v"
proof -
  have "(256 :: nat) ^ n = 2 ^ (8 * n)" by (simp add: power_mult)
  moreover have "(2 :: nat) ^ (8 * n) \<le> 2 ^ 64" using assms(2) by (intro power_increasing) auto
  ultimately have v: "v < 2 ^ (8 * n)" "v < 2 ^ 64" using assms(1) by linarith+
  have "take_bit (8 * n) (of_nat v :: u64) = of_nat (take_bit (8 * n) v)" by (simp add: of_nat_take_bit)
  also have "\<dots> = of_nat v" using v by (simp add: take_bit_nat_eq_self)
  finally show ?thesis using v by (simp add: from_be_nat_def from_be_be_bytes_cast unat_of_nat_small)
qed

lemma scast_small:
  assumes "0 \<le> sint (v :: 64 word)" and "sint v < 2 ^ (LENGTH('b) - 1)" and "LENGTH('b::len) < 64"
  shows "scast (ucast v :: 'b word) = v"
proof -
  have "sint v < 2 ^ 63" using sint_lt [of v] by simp
  then have "take_bit 64 (sint v) = sint v" using assms(1) by (simp add: take_bit_int_eq_self)
  then have u: "uint v = sint v" by (simp add: uint_sint)
  have "sint (word_of_int (sint v) :: 'b word) = sint v"
    unfolding sint_sbintrunc' using assms by (intro signed_take_bit_int_eq_self) (auto intro: order_trans [of _ 0])
  moreover have "word_of_int (sint v) = v" by simp
  ultimately show ?thesis unfolding scast_eq ucast_eq u by (simp only:)
qed

section \<open>Headers\<close>

lemma nibble_bits: "(w :: u8) < 16 \<Longrightarrow> bit w i \<Longrightarrow> i < 4"
proof -
  assume "w < 16" "bit w i"
  then have "take_bit 4 w = w"
    by (simp add: word_unat_eq_iff unsigned_take_bit_eq take_bit_nat_eq_self word_less_nat_alt)
  with \<open>bit w i\<close> show "i < 4" by (metis bit_take_bit_iff)
qed

lemma marker_nibbles:
  assumes "kind < 16" and "n < 16"
  shows "drop_bit 4 (push_bit 4 kind OR n) = (kind :: u8)" "(push_bit 4 kind OR n) AND 0xF = n"
proof -
  have mask: "(0xF :: u8) = mask 4" by (simp add: mask_eq_exp_minus_1)
  show "drop_bit 4 (push_bit 4 kind OR n) = kind"
    using assms by (intro bit_word_eqI) (auto simp: bit_simps dest: nibble_bits)
  show "(push_bit 4 kind OR n) AND 0xF = n"
    unfolding mask using assms by (intro bit_word_eqI) (auto simp: bit_simps dest: nibble_bits)
qed

lemma write_int_at:
  assumes "bytes_at data pos (write_int_to len)" and "len < 2 ^ 64" and "length data < 2 ^ 63"
  shows "decode_size data pos 0xF = dok (len, pos + length (write_int_to len))"
proof -
  have "decode_size data pos 0xF = dok (len, pos + Suc sz)"
    if b: "bytes_at data pos (m # be_bytes sz (of_nat len :: u64))" and m: "drop_bit 4 m = 0x1" "2 ^ unat (m AND 0xF) = sz"
      and sz: "sz \<in> {1, 2, 4, 8}" "len < 256 ^ sz" for m sz
  proof -
    have "pos < length data" "data ! pos = m" "bytes_at data (Suc pos) (be_bytes sz (of_nat len :: u64))"
      using b by (simp_all add: bytes_at_Cons)
    moreover have "from_be_nat (be_bytes sz (of_nat len :: u64)) = len" using sz by (intro from_be_nat_bytes) auto
    ultimately show ?thesis using m sz(1) checked_slice_at [where data = data and pos = "Suc pos" and bs = "be_bytes sz (of_nat len :: u64)" and n = sz] assms(3)
      by (simp add: decode_size_def Let_def)
  qed
  note step = this
  show ?thesis
    using assms step [where m = "0x10" and sz = 1] step [where m = "0x11" and sz = 2] step [where m = "0x12" and sz = 4] step [where m = "0x13" and sz = 8]
    by (auto simp: write_int_to_def split: if_splits)
qed

lemma write_header_at:
  assumes "bytes_at data pos (write_header_to kind len)" and "kind < 16" and "len < 2 ^ 64" and "length data < 2 ^ 63"
  shows "pos < length data \<and> drop_bit 4 (data ! pos) = kind
    \<and> decode_size data (Suc pos) (data ! pos AND 0xF) = dok (len, pos + length (write_header_to kind len))"
proof (cases "len < 15")
  case True
  then have "(of_nat len :: u8) < 16" "unat (of_nat len :: u8) = len" "(of_nat len :: u8) \<noteq> 0xF"
    by (simp_all add: word_less_nat_alt unat_of_nat_small word_unat_eq_iff)
  then show ?thesis using assms True marker_nibbles [where kind = kind and n = "of_nat len"]
    by (simp add: write_header_to_def bytes_at_Cons decode_size_def)
next
  case False
  then show ?thesis using assms marker_nibbles [where kind = kind and n = "0xF"] write_int_at [where data = data and pos = "Suc pos" and len = len]
    by (simp add: write_header_to_def bytes_at_Cons)
qed

section \<open>Objects without references\<close>

text \<open>Small unsigned integers come back as integers; everything else as itself.\<close>

fun plist_normal :: "plist \<Rightarrow> plist" where
  "plist_normal (PUnsignedInteger u) = (if unat u < 2 ^ 63 then PInteger u else PUnsignedInteger u)"
| "plist_normal (PArray vs) = PArray (map plist_normal vs)"
| "plist_normal (PDictionary kvs) = PDictionary (map (map_prod (\<lambda>k. k) plist_normal) kvs)"
| "plist_normal v = v"

fun is_leaf :: "plist \<Rightarrow> bool" where
  "is_leaf (PArray _) = False"
| "is_leaf (PDictionary _) = False"
| "is_leaf _ = True"

text \<open>Values that Rust can hold: strings are valid, the keys of a dictionary distinct (and in order).\<close>

fun plist_ok :: "plist \<Rightarrow> bool" where
  "plist_ok (PString s) = utf8_valid s"
| "plist_ok (PArray vs) = (\<forall>v\<in>set vs. plist_ok v)"
| "plist_ok (PDictionary kvs) = (sorted_wrt (<) (map fst kvs) \<and> (\<forall>(k, v)\<in>set kvs. utf8_valid k \<and> plist_ok v))"
| "plist_ok _ = True"

lemma from_be_full: "8 * sz = LENGTH('b) \<Longrightarrow> (from_be (be_bytes sz (v :: 'a::len word)) :: 'b::len word) = ucast v"
  unfolding from_be_be_bytes_cast by (intro bit_word_eqI) (auto simp: bit_simps dest: bit_imp_le_length)

lemma decode_integer_at:
  assumes "bytes_at data (Suc pos) (be_bytes sz (v :: 64 word))" and "2 ^ unat k = sz" and "sz \<in> {1, 2, 4, 8}"
    and "sz < 8 \<longrightarrow> 0 \<le> sint v \<and> sint v < 2 ^ (8 * sz - 1)" and "length data < 2 ^ 63"
  shows "decode_integer data (Suc pos) k = dok (PInteger v)"
  using assms checked_slice_at [OF assms(1), of sz]
    scast_small [of v, where 'b = 8] scast_small [of v, where 'b = 16] scast_small [of v, where 'b = 32]
  by (auto simp: decode_integer_def Let_def from_be_full)

lemma integer_at:
  assumes "bytes_at data pos (encode_integer v)" and "length data < 2 ^ 63"
  shows "pos < length data \<and> decode_scalar data (data ! pos) (Suc pos) = dok (PInteger v) \<and> drop_bit 4 (data ! pos) = 0x1"
proof -
  have "pos < length data \<and> decode_scalar data (data ! pos) (Suc pos) = dok (PInteger v) \<and> drop_bit 4 (data ! pos) = 0x1"
    if "bytes_at data pos (m # be_bytes sz v)" "drop_bit 4 m = 0x1" "2 ^ unat (m AND 0xF) = sz" "sz \<in> {1, 2, 4, 8}"
      "sz < 8 \<longrightarrow> 0 \<le> sint v \<and> sint v < 2 ^ (8 * sz - 1)" for m sz
    using that decode_integer_at [of data pos sz v "m AND 0xF"] assms(2)
    by (simp add: bytes_at_Cons decode_scalar_def Let_def)
  note step = this
  show ?thesis
    using assms(1) step [where m = "0x10" and sz = 1] step [where m = "0x11" and sz = 2]
      step [where m = "0x12" and sz = 4] step [where m = "0x13" and sz = 8]
    by (auto simp: encode_integer_def split: if_splits)
qed

definition decodes_at :: "bytes \<Rightarrow> nat \<Rightarrow> plist \<Rightarrow> bool" where
  "decodes_at data pos v \<longleftrightarrow> pos < length data \<and> decode_scalar data (data ! pos) (Suc pos) = dok v
     \<and> drop_bit 4 (data ! pos) \<noteq> 0xA \<and> drop_bit 4 (data ! pos) \<noteq> 0xD"

lemma bytes_at_length: "bytes_at data pos bs \<Longrightarrow> length bs \<le> length data"
  by (simp add: bytes_at_def)

lemma unsigned_at:
  assumes "bytes_at data pos (encode_unsigned v)" and "length data < 2 ^ 63"
  shows "decodes_at data pos (plist_normal (PUnsignedInteger v))"
proof (cases "unat v \<le> 2 ^ 63 - 1")
  case True
  then show ?thesis using integer_at [OF _ assms(2)] assms(1) by (simp add: encode_unsigned_def decodes_at_def)
next
  case False
  then have b: "pos < length data" "data ! pos = 0x14" "bytes_at data (Suc pos) (replicate 8 0 @ be_bytes 8 v)"
    using assms(1) by (simp_all add: encode_unsigned_def bytes_at_Cons)
  have "decode_integer data (Suc pos) 4 = dok (PUnsignedInteger v)"
    using checked_slice_at [OF b(3) _ assms(2), of 16] by (simp add: decode_integer_def Let_def from_be_full)
  then show ?thesis using b False by (simp add: decodes_at_def decode_scalar_def Let_def)
qed

lemma fixed_at:
  assumes "length data < 2 ^ 63"
  shows "bytes_at data pos (encode_real f) \<Longrightarrow> decodes_at data pos (PReal f)"
    and "bytes_at data pos (encode_date f) \<Longrightarrow> decodes_at data pos (PDate f)"
    and "bytes_at data pos (encode_boolean b) \<Longrightarrow> decodes_at data pos (PBoolean b)"
  using assms checked_slice_at [of data "Suc pos" "be_bytes 8 f" 8]
  by (auto simp: encode_real_def encode_date_def encode_boolean_def bytes_at_Cons decodes_at_def decode_scalar_def
      decode_real_def decode_date_def decode_singleton_def Let_def from_be_full split: if_splits)

lemma foldl_shift_bytes:
  "foldl (\<lambda>val x. push_bit 8 val OR ucast x) (acc :: u64) bs = push_bit (8 * length bs) acc OR from_be bs"
proof (induction bs arbitrary: acc)
  case (Cons b bs)
  have "push_bit (8 * length bs) (push_bit 8 acc OR ucast b) = push_bit (8 * Suc (length bs)) acc OR push_bit (8 * length bs) (ucast b)"
    by (simp add: add.commute)
  then show ?case using Cons by (simp add: or.assoc)
qed simp

lemma uid_at:
  assumes "bytes_at data pos (encode_uid v)" and "length data < 2 ^ 63"
  shows "decodes_at data pos (PUid v)"
proof -
  have "decodes_at data pos (PUid v)"
    if "bytes_at data pos (m # be_bytes sz v)" "drop_bit 4 m = 0x8" "unat (m AND 0xF) + 1 = sz" "unat v < 256 ^ sz" "sz \<le> 8" for m sz
  proof -
    have "from_be (be_bytes sz v) = v"
      using from_be_nat_bytes [OF that(4,5)] by (simp add: from_be_nat_def word_unat_eq_iff)
    then show ?thesis using that checked_slice_at [of data "Suc pos" "be_bytes sz v" sz] assms(2)
      by (simp add: bytes_at_Cons decodes_at_def decode_scalar_def Let_def decode_uid_def foldl_shift_bytes)
  qed
  note step = this
  show ?thesis
    using assms(1) step [where m = "0x80" and sz = 1] step [where m = "0x81" and sz = 2]
      step [where m = "0x83" and sz = 4] step [where m = "0x87" and sz = 8] unat_less_u64 [of v]
    by (auto simp: encode_uid_def split: if_splits)
qed

lemma data_at:
  assumes "bytes_at data pos (encode_data d)" and "length data < 2 ^ 63"
  shows "decodes_at data pos (PData d)"
proof -
  have b: "bytes_at data pos (write_header_to 0x4 (length d))" "bytes_at data (pos + length (write_header_to 0x4 (length d))) d"
    using assms(1) by (simp_all add: encode_data_def bytes_at_append)
  have "length d < 2 ^ 64" using bytes_at_length [OF b(2)] assms(2) by simp
  then show ?thesis using write_header_at [OF b(1) _ _ assms(2)] checked_slice_at [OF b(2) refl assms(2)]
    by (simp add: decodes_at_def decode_scalar_def Let_def decode_data_def)
qed

lemma u16_units_bytes: "u16_units (concat (map (be_bytes 2) us)) = us"
proof (induction us)
  case (Cons u us)
  have "from_be [ucast (drop_bit 8 u), ucast u] = u"
    using from_be_be_bytes_full [of 2 u] by (simp add: numeral_2_eq_2 del: from_be.simps)
  with Cons show ?case by (simp add: numeral_2_eq_2 del: from_be.simps)
qed simp

lemma string_at:
  assumes "bytes_at data pos (encode_string s)" and "length data < 2 ^ 63" and "utf8_valid s"
  shows "decodes_at data pos (PString s)"
proof (cases "is_ascii s")
  case True
  have b: "bytes_at data pos (write_header_to 0x5 (length s))" "bytes_at data (pos + length (write_header_to 0x5 (length s))) s"
    using assms(1) True by (simp_all add: encode_string_def bytes_at_append)
  have "length s < 2 ^ 64" using bytes_at_length [OF b(2)] assms(2) by simp
  then show ?thesis using write_header_at [OF b(1) _ _ assms(2)] checked_slice_at [OF b(2) refl assms(2)] assms(3)
    by (simp add: decodes_at_def decode_scalar_def Let_def decode_ascii_string_def)
next
  case False
  let ?u = "encode_utf16 s"
  have b: "bytes_at data pos (write_header_to 0x6 (length ?u))"
      "bytes_at data (pos + length (write_header_to 0x6 (length ?u))) (concat (map (be_bytes 2) ?u))"
    using assms(1) False by (simp_all add: encode_string_def bytes_at_append Let_def)
  have len: "length (concat (map (be_bytes 2) ?u)) = length ?u * 2" by (simp add: length_concat comp_def sum_list_triv)
  then have "length ?u * 2 < 2 ^ 64" using bytes_at_length [OF b(2)] assms(2) by simp
  then show ?thesis
    using write_header_at [OF b(1) _ _ assms(2)] checked_slice_at [OF b(2) len [symmetric] assms(2)]
      utf16_string_roundtrip [OF assms(3)]
    by (simp add: decodes_at_def decode_scalar_def Let_def decode_utf16_string_def usize_def u16_units_bytes)
qed

lemma leaf_at:
  assumes "bytes_at data pos (encode_primitive v)" and "length data < 2 ^ 63" and "is_leaf v" and "plist_ok v"
  shows "decodes_at data pos (plist_normal v)"
proof (cases v)
  case (PInteger i)
  then show ?thesis using integer_at [OF _ assms(2)] assms(1) by (simp add: decodes_at_def)
next
  case (PUnsignedInteger u)
  then show ?thesis using unsigned_at [OF _ assms(2), of pos u] assms(1) by simp
qed (use assms fixed_at [OF assms(2)] uid_at data_at string_at in simp_all)

section \<open>The objects of an encoder\<close>

inductive stored :: "bytes \<Rightarrow> nat list \<Rightarrow> nat \<Rightarrow> plist \<Rightarrow> bool" for objs offs where
  stored_leaf: "i < length offs \<Longrightarrow> is_leaf v \<Longrightarrow> bytes_at objs (offs ! i) (encode_primitive v) \<Longrightarrow> stored objs offs i v"
| stored_array: "i < length offs \<Longrightarrow> create_array_body refs = Inr body \<Longrightarrow> bytes_at objs (offs ! i) body \<Longrightarrow>
    list_all2 (\<lambda>r v. r < i \<and> stored objs offs r v) refs vs \<Longrightarrow> stored objs offs i (PArray vs)"
| stored_dict: "i < length offs \<Longrightarrow> create_dict_body key_refs val_refs = Inr body \<Longrightarrow> bytes_at objs (offs ! i) body \<Longrightarrow>
    list_all2 (\<lambda>r kv. r < i \<and> stored objs offs r (PString (fst kv))) key_refs kvs \<Longrightarrow>
    list_all2 (\<lambda>r kv. r < i \<and> stored objs offs r (snd kv)) val_refs kvs \<Longrightarrow> stored objs offs i (PDictionary kvs)"

lemma stored_index: "stored objs offs i v \<Longrightarrow> i < length offs"
  by (cases rule: stored.cases) auto

lemma stored_mono: "stored objs offs i v \<Longrightarrow> stored (objs @ xs) (offs @ ys) i v"
proof (induction rule: stored.induct)
  case (stored_leaf i v)
  then show ?case by (intro stored.stored_leaf) (simp_all add: nth_append bytes_at_mono)
next
  case (stored_array i refs body vs)
  then show ?case
    by (intro stored.stored_array [where refs = refs and body = body])
       (auto simp: nth_append bytes_at_mono elim!: list_all2_mono)
next
  case (stored_dict i key_refs val_refs body kvs)
  then show ?case
    by (intro stored.stored_dict [where key_refs = key_refs and val_refs = val_refs and body = body])
       (auto simp: nth_append bytes_at_mono elim!: list_all2_mono)
qed

definition stored_in :: "plist_encoder \<Rightarrow> nat \<Rightarrow> plist \<Rightarrow> bool" where
  "stored_in e i v \<longleftrightarrow> stored (enc_objects e) (enc_offsets e) i v"

text \<open>The invariant of the cache, and the growth of an encoder.\<close>

definition encoder_inv :: "plist_encoder \<Rightarrow> bool" where
  "encoder_inv e \<longleftrightarrow> (\<forall>v i. cached e v = Some i \<longrightarrow> stored_in e i v)"

definition extends :: "plist_encoder \<Rightarrow> plist_encoder \<Rightarrow> bool" where
  "extends e e' \<longleftrightarrow> (\<exists>xs ys. enc_objects e' = enc_objects e @ xs \<and> enc_offsets e' = enc_offsets e @ ys)"

lemma extends_refl: "extends e e"
  by (simp add: extends_def)

lemma extends_trans: "extends e e' \<Longrightarrow> extends e' e'' \<Longrightarrow> extends e e''"
  by (auto simp: extends_def)

lemma stored_extends: "extends e e' \<Longrightarrow> stored_in e i v \<Longrightarrow> stored_in e' i v"
  by (auto simp: extends_def stored_in_def stored_mono)

lemma stored_in_index: "stored_in e i v \<Longrightarrow> i < length (enc_offsets e)"
  by (simp add: stored_in_def stored_index)

lemma object_key_inj: "get_object_key v = Some k \<Longrightarrow> get_object_key w = Some k \<Longrightarrow> v = w"
  by (cases v; cases w) auto

lemma push_object_inv:
  assumes "encoder_inv e" and "push_object e v body = (e', i)" and "stored_in e' i v"
  shows "encoder_inv e' \<and> extends e e'"
proof
  show ext: "extends e e'" using assms(2) by (auto simp: push_object_def extends_def Let_def)
  show "encoder_inv e'" unfolding encoder_inv_def
  proof (intro allI impI)
    fix w j
    assume c: "cached e' w = Some j"
    show "stored_in e' j w"
    proof (cases "get_object_key w = get_object_key v")
      case True
      then have "w = v" "j = i"
        using c assms(2) object_key_inj [of w _ v]
        by (auto simp: cached_def push_object_def Let_def bind_eq_Some_conv split: option.splits)
      then show ?thesis using assms(3) by simp
    next
      case False
      then have "cached e w = Some j"
        using c assms(2) by (auto simp: cached_def push_object_def Let_def bind_eq_Some_conv split: option.splits if_splits)
      then show ?thesis using assms(1) stored_extends [OF ext] by (simp add: encoder_inv_def)
    qed
  qed
qed

lemma push_object_at:
  assumes "push_object e v body = (e', i)"
  shows "i = length (enc_offsets e)" "i < length (enc_offsets e')" "bytes_at (enc_objects e') (enc_offsets e' ! i) body"
  using assms by (auto simp: push_object_def Let_def bytes_at_def)

lemma encode_leaf_ok:
  assumes "encoder_inv e" and "is_leaf v" and "encode_leaf e v = (e', i)"
  shows "encoder_inv e' \<and> extends e e' \<and> stored_in e' i v"
proof (cases "cached e v")
  case None
  then have p: "push_object e v (encode_primitive v) = (e', i)" using assms(3) by (simp add: encode_leaf_def)
  then have "stored_in e' i v" using push_object_at [OF p] assms(2) by (auto simp: stored_in_def intro: stored_leaf)
  then show ?thesis using push_object_inv [OF assms(1) p] by blast
next
  case (Some j)
  then show ?thesis using assms by (auto simp: encode_leaf_def encoder_inv_def extends_refl)
qed

lemma push_container:
  assumes "encoder_inv e" and "push_object e v body = (e', i)"
    and "(\<And>r w. stored_in e r w \<Longrightarrow> r < i \<and> stored_in e' r w) \<Longrightarrow> bytes_at (enc_objects e') (enc_offsets e' ! i) body \<Longrightarrow>
      i < length (enc_offsets e') \<Longrightarrow> stored_in e' i v"
  shows "encoder_inv e' \<and> extends e e' \<and> stored_in e' i v"
proof -
  have ext: "extends e e'" using assms(2) by (auto simp: push_object_def extends_def Let_def)
  have "stored_in e' i v"
    using assms(3) push_object_at [OF assms(2)] stored_in_index stored_extends [OF ext] by blast
  then show ?thesis using push_object_inv [OF assms(1, 2)] by blast
qed

lemma push_array_ok:
  assumes "encoder_inv e" and "create_array_body refs = Inr body" and "push_object e (PArray vs) body = (e', i)"
    and "list_all2 (stored_in e) refs vs"
  shows "encoder_inv e' \<and> extends e e' \<and> stored_in e' i (PArray vs)"
  using assms(1, 3)
proof (rule push_container)
  assume step: "\<And>r w. stored_in e r w \<Longrightarrow> r < i \<and> stored_in e' r w"
    and "bytes_at (enc_objects e') (enc_offsets e' ! i) body" "i < length (enc_offsets e')"
  then show "stored_in e' i (PArray vs)"
    using assms(2) list_all2_mono [OF assms(4) step] unfolding stored_in_def by (intro stored_array) auto
qed

lemma push_dict_ok:
  assumes "encoder_inv e" and "create_dict_body key_refs val_refs = Inr body" and "push_object e (PDictionary kvs) body = (e', i)"
    and "list_all2 (\<lambda>r kv. stored_in e r (PString (fst kv))) key_refs kvs"
    and "list_all2 (\<lambda>r kv. stored_in e r (snd kv)) val_refs kvs"
  shows "encoder_inv e' \<and> extends e e' \<and> stored_in e' i (PDictionary kvs)"
  using assms(1, 3)
proof (rule push_container)
  assume step: "\<And>r w. stored_in e r w \<Longrightarrow> r < i \<and> stored_in e' r w"
    and "bytes_at (enc_objects e') (enc_offsets e' ! i) body" "i < length (enc_offsets e')"
  then show "stored_in e' i (PDictionary kvs)"
    using assms(2) list_all2_mono [OF assms(4) step] list_all2_mono [OF assms(5) step]
    unfolding stored_in_def by (intro stored_dict) auto
qed

lemma encode_value_ok:
  "encode_value e v = Inr (e', i) \<Longrightarrow> encoder_inv e \<Longrightarrow> encoder_inv e' \<and> extends e e' \<and> stored_in e' i v"
  "encode_items e vs = Inr (e', refs) \<Longrightarrow> encoder_inv e \<Longrightarrow>
     encoder_inv e' \<and> extends e e' \<and> list_all2 (stored_in e') refs vs"
  "encode_entries e kvs = Inr (e', key_refs, val_refs) \<Longrightarrow> encoder_inv e \<Longrightarrow>
     encoder_inv e' \<and> extends e e' \<and> list_all2 (\<lambda>r kv. stored_in e' r (PString (fst kv))) key_refs kvs
     \<and> list_all2 (\<lambda>r kv. stored_in e' r (snd kv)) val_refs kvs"
proof (induction e v and e vs and e kvs arbitrary: e' i and e' refs and e' key_refs val_refs
    rule: encode_value_encode_items_encode_entries.induct)
  case (1 e arr)
  then obtain e1 refs body where items: "encode_items e arr = Inr (e1, refs)" and body: "create_array_body refs = Inr body"
    and push: "push_object e1 (PArray arr) body = (e', i)"
    by auto
  have "encoder_inv e1 \<and> extends e e1 \<and> list_all2 (stored_in e1) refs arr" using "1.IH" [OF items "1.prems"(2)] .
  then show ?case using push_array_ok [OF _ body push] extends_trans by blast
next
  case (2 e dict)
  then obtain e1 key_refs val_refs body where entries: "encode_entries e dict = Inr (e1, key_refs, val_refs)"
    and body: "create_dict_body key_refs val_refs = Inr body" and push: "push_object e1 (PDictionary dict) body = (e', i)"
    by auto
  have "encoder_inv e1 \<and> extends e e1 \<and> list_all2 (\<lambda>r kv. stored_in e1 r (PString (fst kv))) key_refs dict
     \<and> list_all2 (\<lambda>r kv. stored_in e1 r (snd kv)) val_refs dict"
    using "2.IH" [OF entries "2.prems"(2)] .
  then show ?case using push_dict_ok [OF _ body push] extends_trans by blast
next
  case (5 e v vs)
  then obtain e1 r rs where v: "encode_value e v = Inr (e1, r)" and vs: "encode_items e1 vs = Inr (e', rs)" and "refs = r # rs"
    by auto
  moreover have "encoder_inv e1 \<and> extends e e1 \<and> stored_in e1 r v" using "5.IH"(1) [OF v "5.prems"(2)] .
  moreover have "encoder_inv e' \<and> extends e1 e' \<and> list_all2 (stored_in e') rs vs"
    using "5.IH"(2) [OF vs] calculation by blast
  ultimately show ?case using extends_trans [of e e1 e'] stored_extends [of e1 e' r v] by simp
next
  case (7 e k v kvs)
  obtain e1 kr where k: "encode_leaf e (PString k) = (e1, kr)" by force
  obtain e2 vr krs vrs where v: "encode_value e1 v = Inr (e2, vr)" and kvs: "encode_entries e2 kvs = Inr (e', krs, vrs)"
    and refs: "key_refs = kr # krs" "val_refs = vr # vrs"
    using "7.prems"(1) k by auto
  have l: "encoder_inv e1 \<and> extends e e1 \<and> stored_in e1 kr (PString k)"
    using encode_leaf_ok [OF "7.prems"(2) _ k] by simp
  have m: "encoder_inv e2 \<and> extends e1 e2 \<and> stored_in e2 vr v" using "7.IH"(1) [OF k [symmetric] v] l by blast
  have "encoder_inv e' \<and> extends e2 e' \<and> list_all2 (\<lambda>r kv. stored_in e' r (PString (fst kv))) krs kvs
     \<and> list_all2 (\<lambda>r kv. stored_in e' r (snd kv)) vrs kvs"
    using "7.IH"(2) [OF k [symmetric] kvs] m by blast
  moreover from this have "extends e e'" "extends e1 e'" using l m extends_trans by blast+
  ultimately show ?case using l m refs stored_extends [of e1 e' kr "PString k"] stored_extends [of e2 e' vr v] by simp
qed (auto simp: extends_refl dest: encode_leaf_ok [rotated 2])

section \<open>Following the references\<close>

lemma write_refs_Cons:
  "write_refs (r # rs) = Inr b \<longleftrightarrow> r \<le> 0xFFFF \<and> (\<exists>bs. write_refs rs = Inr bs \<and> b = be_bytes 2 (of_nat r :: u16) @ bs)"
  by (auto simp: write_ref_def)

lemma length_write_refs: "write_refs refs = Inr b \<Longrightarrow> length b = 2 * length refs"
  by (induction refs arbitrary: b) (auto simp: write_refs_Cons simp del: write_refs.simps(2))

lemma read_ref_at:
  assumes "bytes_at (dec_data d) pos (be_bytes 2 (of_nat r :: u16))" and "r \<le> 0xFFFF" and "dec_object_ref_size d = 2"
  shows "read_ref d pos = dok r"
proof -
  have "unat (from_be (be_bytes 2 (of_nat r :: u16)) :: u64) = r"
    unfolding from_be_be_bytes_cast using assms(2) by (simp add: take_bit_word_eq_self unat_ucast_up unat_of_nat_small)
  then show ?thesis using assms by (simp add: read_ref_def read_sized_int_def from_be_nat_def bytes_at_def)
qed

lemma decode_items_at:
  assumes "write_refs refs = Inr b" and "bytes_at (dec_data d) pos b" and "dec_object_ref_size d = 2"
    and "list_all2 (\<lambda>r v. decode_object alloc d r seen = dok v) refs vs"
  shows "decode_items alloc d seen pos (length refs) = dok vs"
  using assms
proof (induction refs arbitrary: b pos vs)
  case (Cons r refs)
  then obtain bs v vs' where b: "write_refs refs = Inr bs" "b = be_bytes 2 (of_nat r :: u16) @ bs" "r \<le> 0xFFFF"
    and vs: "vs = v # vs'" "decode_object alloc d r seen = dok v" "list_all2 (\<lambda>r v. decode_object alloc d r seen = dok v) refs vs'"
    by (auto simp: write_refs_Cons list_all2_Cons1 simp del: write_refs.simps(2))
  then show ?case
    using Cons.IH [OF b(1) _ Cons.prems(3) vs(3), of "pos + 2"] Cons.prems(2,3) read_ref_at [of d pos r]
    by (simp add: bytes_at_append)
qed simp

lemma decode_entries_at:
  assumes "write_refs key_refs = Inr kb" and "bytes_at (dec_data d) kpos kb"
    and "write_refs val_refs = Inr vb" and "bytes_at (dec_data d) vpos vb" and "dec_object_ref_size d = 2"
    and "list_all2 (\<lambda>r kv. decode_object alloc d r seen = dok (PString (fst kv))) key_refs kvs"
    and "list_all2 (\<lambda>r kv. decode_object alloc d r seen = dok (snd kv)) val_refs kvs"
  shows "decode_entries alloc d seen kpos vpos (length key_refs) = dok kvs"
  using assms
proof (induction key_refs arbitrary: kb kpos val_refs vb vpos kvs)
  case (Cons r refs)
  then obtain bs k v kvs' q qs cs where b: "write_refs refs = Inr bs" "kb = be_bytes 2 (of_nat r :: u16) @ bs" "r \<le> 0xFFFF"
    and kvs: "kvs = (k, v) # kvs'" "decode_object alloc d r seen = dok (PString k)"
      "list_all2 (\<lambda>r kv. decode_object alloc d r seen = dok (PString (fst kv))) refs kvs'"
    and q: "val_refs = q # qs" "decode_object alloc d q seen = dok v"
      "list_all2 (\<lambda>r kv. decode_object alloc d r seen = dok (snd kv)) qs kvs'"
    and c: "write_refs qs = Inr cs" "vb = be_bytes 2 (of_nat q :: u16) @ cs" "q \<le> 0xFFFF"
    by (auto simp: write_refs_Cons list_all2_Cons1 list_all2_Cons2 simp del: write_refs.simps(2))
  then show ?case
    using Cons.IH [OF b(1) _ c(1) _ Cons.prems(5) kvs(3) q(3), of "kpos + 2" "vpos + 2"] Cons.prems(2,4,5)
      read_ref_at [of d kpos r] read_ref_at [of d vpos q]
    by (simp add: bytes_at_append)
qed simp

lemma container_at:
  assumes "bytes_at (dec_data d) pos (write_header_to kind n @ b)" and "kind < 16" and "length b = n * width * 2"
    and "0 < width" and "dec_object_ref_size d = 2" and "length (dec_data d) < 2 ^ 63" and "\<forall>n \<le> length (dec_data d). alloc n"
  shows "pos < length (dec_data d) \<and> drop_bit 4 (dec_data d ! pos) = kind
    \<and> container_refs alloc d (Suc pos) (dec_data d ! pos AND 0xF) width = dok (n, pos + length (write_header_to kind n))
    \<and> bytes_at (dec_data d) (pos + length (write_header_to kind n)) b"
proof -
  let ?p = "pos + length (write_header_to kind n)"
  have b: "bytes_at (dec_data d) pos (write_header_to kind n)" "bytes_at (dec_data d) ?p b"
    using assms(1) by (simp_all add: bytes_at_append)
  have len: "?p + n * width * 2 \<le> length (dec_data d)" using b(2) assms(3) by (simp add: bytes_at_def)
  moreover have "n \<le> n * width * 2" using assms(4) by (cases width) auto
  ultimately have "n \<le> length (dec_data d)" by linarith
  then have "n < 2 ^ 64" "alloc n" using assms(6,7) by auto
  then show ?thesis
    using write_header_at [OF b(1) assms(2) _ assms(6)] b(2) len assms(5,6)
    by (simp add: container_refs_def usize_def)
qed

lemma dict_insert_last: "\<forall>(k', v')\<in>set d. k' < k \<Longrightarrow> dict_insert k v d = d @ [(k, v)]"
  by (induction d) (auto dest: less_asym)

lemma fold_dict_insert:
  assumes "sorted_wrt (<) (map fst (acc @ kvs))"
  shows "fold (\<lambda>(k, v). dict_insert k v) kvs acc = acc @ kvs"
  using assms
proof (induction kvs arbitrary: acc)
  case (Cons kv kvs)
  obtain k v where kv: "kv = (k, v)" by force
  have "\<forall>(k', v')\<in>set acc. k' < k" using Cons.prems by (fastforce simp: kv sorted_wrt_append)
  then have "dict_insert k v acc = acc @ [(k, v)]" by (rule dict_insert_last)
  then show ?case using Cons.IH [of "acc @ [(k, v)]"] Cons.prems by (simp add: kv)
qed simp

lemma length_plist_magic [simp]: "length plist_magic = 8"
  by (simp add: plist_magic_def ascii_def)

text \<open>The induction hypothesis for one reference, with the set of ancestors extended.\<close>

lemma stored_at:
  fixes i :: nat
  assumes "list_all2 (\<lambda>r x. r < i \<and> S r x \<and> (P x \<longrightarrow> (\<forall>seen. (\<forall>s\<in>seen. r < s) \<longrightarrow> D r seen = N x))) refs xs"
    and "k < length refs" and "P (xs ! k)" and "\<forall>s\<in>seen. i < s"
  shows "D (refs ! k) (insert i seen) = N (xs ! k)"
proof -
  have r: "refs ! k < i" "\<And>seen. (\<forall>s\<in>seen. refs ! k < s) \<Longrightarrow> D (refs ! k) seen = N (xs ! k)"
    using list_all2_nthD [OF assms(1, 2)] assms(3) by auto
  then show ?thesis using assms(4) by (intro r(2)) (auto dest: less_trans)
qed

lemma stored_decodes:
  assumes data: "dec_data d = plist_magic @ objs @ post" and table: "dec_offset_table d = map ((+) 8) offs"
    and ref: "dec_object_ref_size d = 2" and len: "length (dec_data d) < 2 ^ 63" and alloc: "\<forall>n \<le> length (dec_data d). alloc n"
    and "stored objs offs i v" and "plist_ok v" and "\<forall>s\<in>seen. i < s"
  shows "decode_object alloc d i seen = dok (plist_normal v)"
  using assms(6-8)
proof (induction arbitrary: seen rule: stored.induct)
  case (stored_leaf i v)
  have "bytes_at (dec_data d) (8 + offs ! i) (encode_primitive v)"
    using bytes_at_shift [OF stored_leaf(3), of plist_magic post] by (simp add: data)
  from leaf_at [OF this len stored_leaf(2,4)] show ?case
    using stored_leaf by (subst decode_object.simps) (auto simp: table decodes_at_def Let_def)
next
  case (stored_array i refs body vs)
  let ?n = "length refs" and ?pos = "8 + offs ! i"
  obtain b where b: "write_refs refs = Inr b" "body = write_header_to 0xA ?n @ b"
    using stored_array(2) by (auto simp: create_array_body_def)
  have "bytes_at (dec_data d) ?pos (write_header_to 0xA ?n @ b)"
    using bytes_at_shift [OF stored_array(3), of plist_magic post] by (simp add: data b)
  from container_at [OF this _ _ _ ref len alloc, of 1] length_write_refs [OF b(1)]
  have c: "?pos < length (dec_data d)" "drop_bit 4 (dec_data d ! ?pos) = 0xA"
      "container_refs alloc d (Suc ?pos) (dec_data d ! ?pos AND 0xF) 1 = dok (?n, ?pos + length (write_header_to 0xA ?n))"
      "bytes_at (dec_data d) (?pos + length (write_header_to 0xA ?n)) b"
    by simp_all
  have "list_all2 (\<lambda>r v. decode_object alloc d r (insert i seen) = dok v) refs (map plist_normal vs)"
    unfolding list_all2_conv_all_nth
  proof (intro conjI allI impI)
    show len: "length refs = length (map plist_normal vs)" using stored_array(4) by (auto dest: list_all2_lengthD)
    fix k
    assume k: "k < length refs"
    then have "plist_ok (vs ! k)" using stored_array.prems(1) len by simp
    then show "decode_object alloc d (refs ! k) (insert i seen) = dok (map plist_normal vs ! k)"
      using stored_at [OF stored_array(4) k] stored_array.prems(2) k len by simp
  qed
  then have "decode_items alloc d (insert i seen) (?pos + length (write_header_to 0xA ?n)) ?n = dok (map plist_normal vs)"
    by (rule decode_items_at [OF b(1) c(4) ref])
  moreover have "i \<notin> seen" using stored_array.prems(2) by blast
  ultimately show ?case using c(1-3) stored_array(1)
    by (subst decode_object.simps) (simp add: table Let_def)
next
  case (stored_dict i key_refs val_refs body kvs)
  let ?n = "length key_refs" and ?pos = "8 + offs ! i" and ?kvs = "map (map_prod (\<lambda>k. k) plist_normal) kvs"
  obtain kb vb where b: "write_refs key_refs = Inr kb" "write_refs val_refs = Inr vb" "body = write_header_to 0xD ?n @ kb @ vb"
    using stored_dict(2) by (auto simp: create_dict_body_def)
  have n: "length key_refs = length kvs" "length val_refs = length kvs"
    using stored_dict(4,5) by (auto dest: list_all2_lengthD)
  have "bytes_at (dec_data d) ?pos (write_header_to 0xD ?n @ kb @ vb)"
    using bytes_at_shift [OF stored_dict(3), of plist_magic post] by (simp add: data b)
  from container_at [OF this _ _ _ ref len alloc, of 2] length_write_refs [OF b(1)] length_write_refs [OF b(2)] n
  have c: "?pos < length (dec_data d)" "drop_bit 4 (dec_data d ! ?pos) = 0xD"
      "container_refs alloc d (Suc ?pos) (dec_data d ! ?pos AND 0xF) 2 = dok (?n, ?pos + length (write_header_to 0xD ?n))"
      "bytes_at (dec_data d) (?pos + length (write_header_to 0xD ?n)) kb"
      "bytes_at (dec_data d) (?pos + length (write_header_to 0xD ?n) + ?n * 2) vb"
    by (simp_all add: bytes_at_append mult.commute)
  have ok: "utf8_valid (fst (kvs ! k))" "plist_ok (snd (kvs ! k))" if "k < length kvs" for k
    using stored_dict.prems(1) nth_mem [OF that] by (auto simp: case_prod_beta)
  have keys: "list_all2 (\<lambda>r kv. decode_object alloc d r (insert i seen) = dok (PString (fst kv))) key_refs ?kvs"
    unfolding list_all2_conv_all_nth
  proof (intro conjI allI impI)
    fix k
    assume k: "k < length key_refs"
    show "decode_object alloc d (key_refs ! k) (insert i seen) = dok (PString (fst (?kvs ! k)))"
      using stored_at [OF stored_dict(4) k] stored_dict.prems(2) ok(1) [of k] k n by simp
  qed (simp add: n)
  have vals: "list_all2 (\<lambda>r kv. decode_object alloc d r (insert i seen) = dok (snd kv)) val_refs ?kvs"
    unfolding list_all2_conv_all_nth
  proof (intro conjI allI impI)
    fix k
    assume k: "k < length val_refs"
    show "decode_object alloc d (val_refs ! k) (insert i seen) = dok (snd (?kvs ! k))"
      using stored_at [OF stored_dict(5) k] stored_dict.prems(2) ok(2) [of k] k n by simp
  qed (simp add: n)
  have "decode_entries alloc d (insert i seen) (?pos + length (write_header_to 0xD ?n))
      (?pos + length (write_header_to 0xD ?n) + ?n * 2) ?n = dok ?kvs"
    by (rule decode_entries_at [OF b(1) c(4) b(2) c(5) ref keys vals])
  moreover have "map fst ?kvs = map fst kvs" by (simp add: case_prod_beta)
  then have "fold (\<lambda>(k, v). dict_insert k v) ?kvs [] = ?kvs"
    using fold_dict_insert [of "[]" ?kvs] stored_dict.prems(1) by (simp add: comp_def)
  moreover have "i \<notin> seen" using stored_dict.prems(2) by blast
  ultimately show ?case using c(1-3) stored_dict(1) ref
    by (subst decode_object.simps) (simp add: table Let_def)
qed

section \<open>Encoding succeeds\<close>

text \<open>How many objects a value needs at most, without the cache.\<close>

fun plist_nodes :: "plist \<Rightarrow> nat" where
  "plist_nodes (PArray vs) = Suc (sum_list (map plist_nodes vs))"
| "plist_nodes (PDictionary kvs) = Suc (sum_list (map (\<lambda>kv. Suc (plist_nodes (snd kv))) kvs))"
| "plist_nodes _ = 1"

text \<open>The offsets lie in the buffer and the new indices are below the count.\<close>

definition offsets_ok :: "plist_encoder \<Rightarrow> bool" where
  "offsets_ok e \<longleftrightarrow> (\<forall>off\<in>set (enc_offsets e). off \<le> length (enc_objects e))
     \<and> (\<forall>v i. cached e v = Some i \<longrightarrow> i < length (enc_offsets e))"

lemma push_object_offsets:
  assumes "offsets_ok e" and "push_object e v body = (e', i)"
  shows "offsets_ok e' \<and> length (enc_offsets e') = Suc (length (enc_offsets e)) \<and> i < length (enc_offsets e')"
  using assms unfolding offsets_ok_def push_object_def Let_def cached_def
  by (auto simp: bind_eq_Some_conv split: option.splits if_splits) (fastforce intro: less_SucI)+

lemma encode_leaf_offsets:
  assumes "offsets_ok e" and "encode_leaf e v = (e', i)"
  shows "offsets_ok e' \<and> length (enc_offsets e') \<le> Suc (length (enc_offsets e)) \<and> i < length (enc_offsets e')
    \<and> length (enc_offsets e) \<le> length (enc_offsets e')"
  using assms push_object_offsets [OF assms(1)]
  by (auto simp: encode_leaf_def offsets_ok_def split: option.splits) metis+

lemma write_refs_ok: "\<forall>r\<in>set refs. r \<le> 0xFFFF \<Longrightarrow> \<exists>b. write_refs refs = Inr b"
  by (induction refs) (auto simp: write_ref_def)

definition grown :: "plist_encoder \<Rightarrow> plist_encoder \<Rightarrow> nat \<Rightarrow> bool" where
  "grown e e' n \<longleftrightarrow> offsets_ok e' \<and> length (enc_offsets e) \<le> length (enc_offsets e')
     \<and> length (enc_offsets e') \<le> length (enc_offsets e) + n"

lemma leaf_grown:
  "offsets_ok e \<Longrightarrow> \<exists>e' i. encode_leaf e v = (e', i) \<and> grown e e' 1 \<and> i < length (enc_offsets e')"
  using encode_leaf_offsets [of e v] by (cases "encode_leaf e v") (auto simp: grown_def)

lemma encode_value_succeeds:
  "offsets_ok e \<Longrightarrow> length (enc_offsets e) + plist_nodes v \<le> 65536 \<Longrightarrow>
     \<exists>e' i. encode_value e v = Inr (e', i) \<and> grown e e' (plist_nodes v) \<and> i < length (enc_offsets e')"
  "offsets_ok e \<Longrightarrow> length (enc_offsets e) + sum_list (map plist_nodes vs) \<le> 65536 \<Longrightarrow>
     \<exists>e' refs. encode_items e vs = Inr (e', refs) \<and> grown e e' (sum_list (map plist_nodes vs))
       \<and> (\<forall>r\<in>set refs. r < length (enc_offsets e'))"
  "offsets_ok e \<Longrightarrow> length (enc_offsets e) + sum_list (map (\<lambda>kv. Suc (plist_nodes (snd kv))) kvs) \<le> 65536 \<Longrightarrow>
     \<exists>e' key_refs val_refs. encode_entries e kvs = Inr (e', key_refs, val_refs)
       \<and> grown e e' (sum_list (map (\<lambda>kv. Suc (plist_nodes (snd kv))) kvs))
       \<and> (\<forall>r\<in>set key_refs \<union> set val_refs. r < length (enc_offsets e'))"
proof (induction e v and e vs and e kvs rule: encode_value_encode_items_encode_entries.induct)
  case (1 e arr)
  then obtain e1 refs where items: "encode_items e arr = Inr (e1, refs)" "grown e e1 (sum_list (map plist_nodes arr))"
      "\<forall>r\<in>set refs. r < length (enc_offsets e1)" by auto
  moreover have "length (enc_offsets e1) \<le> 65535" using items(2) "1.prems"(2) by (simp add: grown_def)
  moreover from calculation obtain b where "write_refs refs = Inr b"
    using write_refs_ok [of refs] by (metis less_imp_le_nat order.trans)
  moreover obtain e' i where p: "push_object e1 (PArray arr) (write_header_to 0xA (length refs) @ b) = (e', i)" by force
  ultimately show ?case using push_object_offsets [OF _ p] by (auto simp: create_array_body_def grown_def)
next
  case (2 e dict)
  then obtain e1 krs vrs where entries: "encode_entries e dict = Inr (e1, krs, vrs)"
      "grown e e1 (sum_list (map (\<lambda>kv. Suc (plist_nodes (snd kv))) dict))"
      "\<forall>r\<in>set krs \<union> set vrs. r < length (enc_offsets e1)" by auto
  moreover have "length (enc_offsets e1) \<le> 65535" using entries(2) "2.prems"(2) by (simp add: grown_def)
  moreover from calculation obtain kb vb where "write_refs krs = Inr kb" "write_refs vrs = Inr vb"
    using write_refs_ok [of krs] write_refs_ok [of vrs] by (metis UnCI less_imp_le_nat order.trans)
  moreover obtain e' i where p: "push_object e1 (PDictionary dict) (write_header_to 0xD (length krs) @ kb @ vb) = (e', i)" by force
  ultimately show ?case using push_object_offsets [OF _ p] by (auto simp: create_dict_body_def grown_def)
next
  case (5 e v vs)
  then obtain e1 r where v: "encode_value e v = Inr (e1, r)" "grown e e1 (plist_nodes v)" "r < length (enc_offsets e1)" by auto
  moreover from this 5 obtain e2 rs where "encode_items e1 vs = Inr (e2, rs)" "grown e1 e2 (sum_list (map plist_nodes vs))"
      "\<forall>r\<in>set rs. r < length (enc_offsets e2)" by (fastforce simp: grown_def)
  ultimately show ?case by (auto simp: grown_def)
next
  case (7 e k v kvs)
  obtain e1 kr where k: "encode_leaf e (PString k) = (e1, kr)" by force
  note l = encode_leaf_offsets [OF "7.prems"(1) k]
  obtain e2 vr where v: "encode_value e1 v = Inr (e2, vr)" "grown e1 e2 (plist_nodes v)" "vr < length (enc_offsets e2)"
    using "7.IH"(1) [OF k [symmetric]] l "7.prems"(2) by auto
  obtain e3 krs vrs where kvs: "encode_entries e2 kvs = Inr (e3, krs, vrs)"
      "grown e2 e3 (sum_list (map (\<lambda>kv. Suc (plist_nodes (snd kv))) kvs))"
      "\<forall>r\<in>set krs \<union> set vrs. r < length (enc_offsets e3)"
    using "7.IH"(2) [OF k [symmetric], of e2] v l "7.prems"(2) by (auto simp: grown_def)
  show ?case using k l v kvs by (auto simp: grown_def)
next
  case (4 e)
  then show ?case by (simp add: grown_def)
next
  case (6 e)
  then show ?case by (simp add: grown_def)
qed (use leaf_grown in simp_all)

section \<open>Files\<close>

lemma offset_size_cases: "calculate_offset_size n \<in> {1, 2, 4, 8}"
  by (simp add: calculate_offset_size_def)

lemma offset_size_fits: "n < 2 ^ 64 \<Longrightarrow> m \<le> n \<Longrightarrow> m < 256 ^ calculate_offset_size n"
  by (auto simp: calculate_offset_size_def)

lemma write_offsets_ok: "\<forall>v\<in>set vs. v < 256 ^ sz \<Longrightarrow> \<exists>b. write_offsets sz vs = Some b"
  by (induction vs) (auto simp: write_sized_int_def)

lemma length_write_offsets: "write_offsets sz vs = Some b \<Longrightarrow> length b = length vs * sz"
  by (induction vs arbitrary: b) (auto simp: write_sized_int_def bind_eq_Some_conv split: if_splits)

lemma read_offsets_at:
  assumes "write_offsets sz vs = Some b" and "bytes_at data start b" and "sz \<in> {1, 2, 4, 8}"
  shows "read_offsets data sz start (length vs) = Inr vs"
  using assms
proof (induction vs arbitrary: b start)
  case (Cons v vs)
  then obtain bs where b: "write_offsets sz vs = Some bs" "b = be_bytes sz (of_nat v :: u64) @ bs" "v < 256 ^ sz"
    by (auto simp: write_sized_int_def bind_eq_Some_conv split: if_splits)
  have at: "bytes_at data start (be_bytes sz (of_nat v :: u64))" "bytes_at data (start + sz) bs"
    using Cons.prems(2) by (simp_all add: b bytes_at_append)
  have "from_be_nat (be_bytes sz (of_nat v :: u64)) = v" using b(3) Cons.prems(3) by (intro from_be_nat_bytes) auto
  then have "read_sized_int (take sz (drop start data)) sz = Inr v"
    using at(1) Cons.prems(3) by (simp add: read_sized_int_def bytes_at_def)
  then show ?case using Cons.IH [OF b(1) at(2) Cons.prems(3)] by simp
qed simp

lemma trailer_at:
  assumes "sz < 256" and "n < 2 ^ 64" and "root < 2 ^ 64" and "off < 2 ^ 64"
  shows "trailer_parse (pre @ write_trailer sz n root off) =
    Inr \<lparr>tr_offset_size = sz, tr_object_ref_size = 2, tr_num_objects = n, tr_root_object_index = root,
         tr_offset_table_offset = off\<rparr>"
proof -
  have len: "length (write_trailer sz n root off) = 32" by (simp add: write_trailer_def)
  have v: "from_be_nat (be_bytes 8 (of_nat m :: u64)) = m" if "m < 2 ^ 64" for m
    using from_be_nat_bytes [of m 8] that by simp
  have "drop 8 (write_trailer sz n root off) = be_bytes 8 (of_nat n :: u64) @ be_bytes 8 (of_nat root :: u64) @ be_bytes 8 (of_nat off :: u64)"
      "drop 16 (write_trailer sz n root off) = be_bytes 8 (of_nat root :: u64) @ be_bytes 8 (of_nat off :: u64)"
      "drop 24 (write_trailer sz n root off) = be_bytes 8 (of_nat off :: u64)"
      "write_trailer sz n root off ! 6 = of_nat sz" "write_trailer sz n root off ! 7 = 2"
    by (simp_all add: write_trailer_def nth_append)
  then show ?thesis using assms v by (simp add: trailer_parse_def len Let_def unat_of_nat_small)
qed

lemma cached_new [simp]: "cached encoder_new v = None"
  by (cases "get_object_key v") (simp_all add: cached_def encoder_new_def)

text \<open>A bound on the bytes that a value adds to the file.\<close>

fun plist_size :: "plist \<Rightarrow> nat" where
  "plist_size (PArray vs) = 10 + 2 * length vs + sum_list (map plist_size vs)"
| "plist_size (PDictionary kvs) =
     10 + 4 * length kvs + sum_list (map (\<lambda>(k, v). length (encode_string k) + plist_size v) kvs)"
| "plist_size v = length (encode_primitive v)"

lemma length_write_header: "length (write_header_to k n) \<le> 10"
  by (simp add: write_header_to_def write_int_to_def)

lemma encode_leaf_size: "encode_leaf e v = (e', i) \<Longrightarrow> length (enc_objects e') \<le> length (enc_objects e) + length (encode_primitive v)"
  by (auto simp: encode_leaf_def push_object_def Let_def split: option.splits)

lemma encode_value_size:
  "encode_value e v = Inr (e', i) \<Longrightarrow> length (enc_objects e') \<le> length (enc_objects e) + plist_size v"
  "encode_items e vs = Inr (e', is) \<Longrightarrow>
     length (enc_objects e') \<le> length (enc_objects e) + sum_list (map plist_size vs) \<and> length is = length vs"
  "encode_entries e kvs = Inr (e', krs, vrs) \<Longrightarrow>
     length (enc_objects e') \<le> length (enc_objects e) + sum_list (map (\<lambda>(k, v). length (encode_string k) + plist_size v) kvs)
     \<and> length krs = length kvs \<and> length vrs = length kvs"
proof (induction e v and e vs and e kvs arbitrary: e' i and e' "is" and e' krs vrs
    rule: encode_value_encode_items_encode_entries.induct)
  case (1 e arr)
  then obtain e1 refs body where i: "encode_items e arr = Inr (e1, refs)" and "create_array_body refs = Inr body"
    "push_object e1 (PArray arr) body = (e', i)" by auto
  with 1(1) [OF i] length_write_header [of "0xA" "length refs"] show ?case
    by (auto simp: create_array_body_def push_object_def Let_def dest!: length_write_refs)
next
  case (2 e dict)
  then obtain e1 krs vrs body where i: "encode_entries e dict = Inr (e1, krs, vrs)" and "create_dict_body krs vrs = Inr body"
    "push_object e1 (PDictionary dict) body = (e', i)" by auto
  with 2(1) [OF i] length_write_header [of "0xD" "length krs"] show ?case
    by (auto simp: create_dict_body_def push_object_def Let_def dest!: length_write_refs)
next
  case (5 e v vs)
  then obtain e1 r rs where v: "encode_value e v = Inr (e1, r)" and vs: "encode_items e1 vs = Inr (e', rs)" and "is = r # rs"
    by auto
  then show ?case using 5(1) [OF v] 5(2) [OF vs] by simp
next
  case (7 e k v kvs)
  obtain e1 kr where k: "encode_leaf e (PString k) = (e1, kr)" by force
  from 7(3) k obtain e2 vr krs' vrs' where v: "encode_value e1 v = Inr (e2, vr)"
      and kvs: "encode_entries e2 kvs = Inr (e', krs', vrs')" and "krs = kr # krs'" "vrs = vr # vrs'"
    by auto
  then show ?case using encode_leaf_size [OF k] 7(1) [OF k [symmetric] v] 7(2) [OF k [symmetric] kvs] by simp
qed (use encode_leaf_size in fastforce)+

lemma plist_encode_decode:
  assumes "plist_ok v" and "plist_nodes v \<le> 65535"
    and "plist_size v < 2 ^ 61"
  shows "\<exists>bs. plist_encode v = Some (Inr bs)
    \<and> ((\<forall>n \<le> length bs. alloc n) \<longrightarrow> plist_decode alloc bs = dok (plist_normal v))"
proof -
  have new: "offsets_ok encoder_new" "encoder_inv encoder_new"
    using cached_new by (simp_all add: offsets_ok_def encoder_inv_def) (simp add: encoder_new_def)
  obtain e i where enc: "encode_value encoder_new v = Inr (e, i)" and g: "grown encoder_new e (plist_nodes v)"
      and i: "i < length (enc_offsets e)"
    using encode_value_succeeds(1) [OF new(1), of v] assms(2) by (auto simp: encoder_new_def)
  let ?objs = "enc_objects e" and ?offs = "enc_offsets e"
  let ?sz = "calculate_offset_size (8 + length ?objs)"
  have objs: "length ?objs < 2 ^ 61" using assms(3) encode_value_size(1) [OF enc] by (simp add: encoder_new_def)
  have offs: "length ?offs \<le> 65535" "\<forall>off\<in>set ?offs. off \<le> length ?objs"
    using g assms(2) by (auto simp: grown_def offsets_ok_def encoder_new_def)
  obtain table where table: "write_offsets ?sz (map ((+) 8) ?offs) = Some table"
    using write_offsets_ok [of "map ((+) 8) ?offs" ?sz] offset_size_fits [of "8 + length ?objs"] offs(2) objs by auto
  let ?tr = "write_trailer ?sz (length ?offs) i (8 + length ?objs)"
  let ?bs = "plist_magic @ ?objs @ table @ ?tr"
  have bs: "plist_encode v = Some (Inr ?bs)"
    using enc offs(1) table by (simp add: plist_encode_def Let_def)
  have sz: "?sz \<in> {1, 2, 4, 8}" "?sz \<le> 8" using offset_size_cases [of "8 + length ?objs"] by auto
  have tlen: "length table = length ?offs * ?sz" using length_write_offsets [OF table] by simp
  have small: "length ?offs * ?sz \<le> 65535 * 8" using offs(1) sz(2) by (intro mult_le_mono) auto
  have len: "length ?bs < 2 ^ 63" using objs small tlen by (simp add: write_trailer_def)
  have tr: "trailer_parse ?bs = Inr \<lparr>tr_offset_size = ?sz, tr_object_ref_size = 2, tr_num_objects = length ?offs,
      tr_root_object_index = i, tr_offset_table_offset = 8 + length ?objs\<rparr>"
    using trailer_at [of ?sz "length ?offs" i "8 + length ?objs" "plist_magic @ ?objs @ table"] sz(2) offs(1) i objs by simp
  have "plist_decode alloc ?bs = dok (plist_normal v)" if alloc: "\<forall>n \<le> length ?bs. alloc n"
  proof -
    have "bytes_at ?bs (8 + length ?objs) table" by (simp add: bytes_at_def)
    then have "read_offsets ?bs ?sz (8 + length ?objs) (length ?offs) = Inr (map ((+) 8) ?offs)"
      using read_offsets_at [OF table _ sz(1)] by simp
    moreover have "length ?offs \<le> length ?bs" using tlen sz(1) by auto
    ultimately have "parse_offset_table alloc ?bs \<lparr>tr_offset_size = ?sz, tr_object_ref_size = 2,
        tr_num_objects = length ?offs, tr_root_object_index = i, tr_offset_table_offset = 8 + length ?objs\<rparr> = dok (map ((+) 8) ?offs)"
      using alloc len small tlen objs by (simp add: parse_offset_table_def usize_def)
    moreover have "decode_object alloc \<lparr>dec_data = ?bs, dec_offset_table = map ((+) 8) ?offs, dec_object_ref_size = 2\<rparr> i {}
        = dok (plist_normal v)"
      using encode_value_ok(1) [OF enc new(2)] len alloc assms(1)
      by (intro stored_decodes [where objs = ?objs and offs = ?offs and post = "table @ ?tr"]) (auto simp: stored_in_def)
    ultimately show ?thesis using tr by (simp add: plist_decode_def plist_magic_def ascii_def)
  qed
  with bs show ?thesis by blast
qed

section \<open>Properties\<close>

text \<open>
  C5. Property lists survive encoding: every value whose strings are valid, whose dictionaries are
  listed by increasing key and that needs at most 65535 objects is encoded without error or panic, and
  decoding the bytes gives the value back, except that an unsigned integer below \<open>2\<^sup>6\<^sup>3\<close> comes
  back as an integer. Shared objects, references of all sizes, UTF-16 strings and nested
  containers are included; the bytes must fit in memory and their count can be allocated.
\<close>

theorem plist_roundtrip:
  assumes "plist_ok v" and "plist_nodes v \<le> 65535"
    and "plist_size v < 2 ^ 61"
  shows "\<exists>bs. plist_encode v = Some (Inr bs)
    \<and> ((\<forall>n \<le> length bs. alloc n) \<longrightarrow> plist_decode alloc bs = dok (plist_normal v))"
  using plist_encode_decode [OF assms] .

text \<open>A dictionary with a repeated string and an array, decoded from its own encoding.\<close>

theorem plist_roundtrip_witness:
  "\<exists>bs. plist_encode (PDictionary [([107], PArray [PUnsignedInteger 7, PString [107]])]) = Some (Inr bs)
     \<and> plist_decode (\<lambda>n. True) bs = dok (PDictionary [([107], PArray [PInteger 7, PString [107]])])"
proof -
  let ?v = "PDictionary [([107], PArray [PUnsignedInteger 7, PString [107]])]"
  have "plist_size ?v < 2 ^ 61"
    by (simp add: encode_string_def encode_unsigned_def encode_integer_def write_header_to_def is_ascii_def)
  moreover have "plist_ok ?v" "plist_nodes ?v \<le> 65535" by simp_all
  moreover have "plist_normal ?v = PDictionary [([107], PArray [PInteger 7, PString [107]])]" by simp
  ultimately show ?thesis using plist_roundtrip [of ?v "\<lambda>n. True"] by simp
qed

end
