(* ===== verification/Plist_Safety.thy ===== *)
theory Plist_Safety
  imports Plist_Roundtrip
begin

text \<open>
  What the property list decoder does on arbitrary bytes (\<open>src/protocol/plist/decode.rs\<close>): the
  nesting of a decoded value is bounded by the number of objects in the file, and the unchecked
  size computation for the offset table panics on a crafted trailer.
\<close>

section \<open>Nesting\<close>

fun plist_depth :: "plist \<Rightarrow> nat" where
  "plist_depth (PArray vs) = Suc (foldr (\<lambda>v m. max (plist_depth v) m) vs 0)"
| "plist_depth (PDictionary kvs) = Suc (foldr (\<lambda>(k, v) m. max (plist_depth v) m) kvs 0)"
| "plist_depth _ = 1"

lemma depth_array_le: "plist_depth (PArray vs) \<le> Suc n \<longleftrightarrow> (\<forall>v\<in>set vs. plist_depth v \<le> n)"
  by (induction vs) auto

lemma depth_dict_le: "plist_depth (PDictionary kvs) \<le> Suc n \<longleftrightarrow> (\<forall>v\<in>snd ` set kvs. plist_depth v \<le> n)"
  by (induction kvs) auto

lemma decode_scalar_leaf: "decode_scalar data m pos = dok v \<Longrightarrow> is_leaf v"
  by (auto simp: decode_scalar_def decode_singleton_def decode_integer_def decode_real_def decode_date_def
      decode_data_def decode_ascii_string_def decode_utf16_string_def decode_uid_def dbind_def Let_def
      split: if_splits option.splits sum.splits prod.splits)

lemma dbind_eq_ok: "dbind m f = dok v \<longleftrightarrow> (\<exists>x. m = dok x \<and> f x = dok v)"
  by (auto simp: dbind_def split: option.splits sum.splits)

lemma string_key_ok:
  "(case x of PString k \<Rightarrow> f k | _ \<Rightarrow> derr e) = dok v \<longleftrightarrow> (\<exists>k. x = PString k \<and> f k = dok v)"
  by (cases x) simp_all

lemma dict_insert_values: "snd ` set (dict_insert k v d) \<subseteq> insert v (snd ` set d)"
  by (induction d rule: dict_insert.induct [of _ k v]) auto

lemma dict_fold_values: "snd ` set (fold (\<lambda>(k, v). dict_insert k v) entries d) \<subseteq> snd ` set entries \<union> snd ` set d"
proof (induction entries arbitrary: d)
  case (Cons kv entries)
  obtain k v where kv: "kv = (k, v)" by (cases kv)
  show ?case using Cons.IH [of "dict_insert k v d"] dict_insert_values [of k v d] unfolding kv by (auto simp del: dict_insert.simps)
qed simp

text \<open>The objects on the path to the current one are all different, so each level uses up one object.\<close>

abbreviation unseen :: "plist_decoder \<Rightarrow> nat set \<Rightarrow> nat" where
  "unseen d seen \<equiv> card ({..<length (dec_offset_table d)} - seen)"

lemma unseen_insert:
  "index \<notin> seen \<Longrightarrow> index < length (dec_offset_table d) \<Longrightarrow> unseen d seen = Suc (unseen d (insert index seen))"
  unfolding Diff_insert [of _ index seen] by (rule card_Suc_Diff1 [symmetric]) simp_all

lemma decode_depth:
  "decode_object alloc d index seen = dok v \<Longrightarrow> plist_depth v \<le> unseen d seen"
  "decode_items alloc d seen pos n = dok vs \<Longrightarrow> \<forall>v\<in>set vs. plist_depth v \<le> unseen d seen"
  "decode_entries alloc d seen kpos vpos n = dok kvs \<Longrightarrow> \<forall>v\<in>snd ` set kvs. plist_depth v \<le> unseen d seen"
proof (induction alloc d index seen and alloc d seen pos n and alloc d seen kpos vpos n
    arbitrary: v and vs and kvs rule: decode_object_decode_items_decode_entries.induct)
  case (1 alloc d index seen)
  note res = 1(3)
  have new: "index \<notin> seen" "index < length (dec_offset_table d)"
    using res by (auto simp: decode_object.simps split: if_splits)
  have step: "unseen d seen = Suc (unseen d (insert index seen))" by (rule unseen_insert [OF new])
  let ?pos = "dec_offset_table d ! index"
  let ?marker = "dec_data d ! ?pos"
  have pos: "\<not> ?pos \<ge> length (dec_data d)" using res new by (auto simp: decode_object.simps Let_def split: if_splits)
  note eq = res [unfolded decode_object.simps [of alloc d index seen] Let_def if_not_P [OF new(1)] if_not_P [OF pos]]
  consider "drop_bit 4 ?marker = 0xA" | "drop_bit 4 ?marker = 0xD" | "drop_bit 4 ?marker \<noteq> 0xA" "drop_bit 4 ?marker \<noteq> 0xD"
    by blast
  then show ?case
  proof cases
    case a: 1
    from eq a new(2) obtain n rs items where c: "container_refs alloc d (?pos + 1) (?marker AND 0x0F) 1 = dok (n, rs)"
        and it: "decode_items alloc d (insert index seen) rs n = dok items" and v: "v = PArray items"
      by (auto simp: dbind_eq_ok split: option.splits sum.splits)
    show ?thesis unfolding v step depth_array_le
      by (rule 1(1) [OF new(1) _ refl pos refl refl a c refl refl it]) (simp add: new)
  next
    case a: 2
    from eq a new(2) obtain n rs kvs where c: "container_refs alloc d (?pos + 1) (?marker AND 0x0F) 2 = dok (n, rs)"
        and it: "decode_entries alloc d (insert index seen) rs (rs + n * dec_object_ref_size d) n = dok kvs"
        and v: "v = PDictionary (fold (\<lambda>(k, v). dict_insert k v) kvs [])"
      by (auto simp: dbind_eq_ok split: option.splits sum.splits)
    have "\<forall>v\<in>snd ` set kvs. plist_depth v \<le> unseen d (insert index seen)"
      by (rule 1(2) [OF new(1) _ refl pos refl refl _ a c refl refl it]) (simp_all add: new a)
    then show ?thesis unfolding v step depth_dict_le using dict_fold_values [of kvs "[]"] by (metis (no_types, lifting) image_empty list.set(1) subsetD sup_bot.right_neutral)
  next
    case 3
    then have "is_leaf v" using eq new(2) decode_scalar_leaf by simp
    then show ?thesis using step by (cases v) auto
  qed
next
  case (3 alloc d seen pos n)
  from 3(3) obtain index w ws where "read_ref d pos = dok index" "decode_object alloc d index seen = dok w"
      "decode_items alloc d seen (pos + dec_object_ref_size d) n = dok ws" "vs = w # ws"
    by (auto simp: dbind_eq_ok split: option.splits sum.splits)
  then show ?case using 3(1,2) by auto
next
  case (5 alloc d seen kpos vpos n)
  from 5(4) obtain ki vi k w rest where "read_ref d kpos = dok ki" "read_ref d vpos = dok vi"
      "decode_object alloc d ki seen = dok (PString k)" "decode_object alloc d vi seen = dok w"
      "decode_entries alloc d seen (kpos + dec_object_ref_size d) (vpos + dec_object_ref_size d) n = dok rest"
      "kvs = (k, w) # rest"
    by (auto simp: dbind_eq_ok string_key_ok split: option.splits sum.splits)
  then show ?case using 5(2,3) by auto
qed simp_all

section \<open>Properties\<close>

text \<open>
  C38. The nesting of a decoded value is at most the number of objects that the trailer announces, for
  every input: the set of the objects being decoded stops every cycle.
\<close>

theorem plist_decode_depth_bound:
  assumes "plist_decode alloc data = dok v" and "trailer_parse data = Inr tr"
  shows "plist_depth v \<le> tr_num_objects tr"
proof -
  have len: "length offs = n" if "read_offsets data sz st n = Inr offs" for sz st n offs
    using that by (induction n arbitrary: st offs) auto
  show ?thesis
    using assms len decode_depth(1) [where seen = "{}"]
    by (fastforce simp: plist_decode_def parse_offset_table_def dbind_eq_ok split: if_splits sum.splits)
qed

text \<open>A file of one object, decoded; its trailer announces one object.\<close>

theorem plist_decode_depth_bound_witness:
  "plist_decode (\<lambda>n. True) (plist_magic @ [0x09, 8] @ write_trailer 1 1 0 9) = dok (PBoolean True)
     \<and> plist_depth (PBoolean True) \<le> 1"
proof -
  let ?tr = "\<lparr>tr_offset_size = 1, tr_object_ref_size = 2, tr_num_objects = 1, tr_root_object_index = 0,
      tr_offset_table_offset = 9\<rparr>"
  have tr: "trailer_parse (plist_magic @ [0x09, 8] @ write_trailer 1 1 0 9) = Inr ?tr"
    using trailer_at [of 1 1 0 9 "plist_magic @ [0x09, 8]"] by simp
  have "plist_decode (\<lambda>n. True) (plist_magic @ [0x09, 8] @ write_trailer 1 1 0 9) = dok (PBoolean True)"
    using tr by (simp add: plist_decode_def plist_magic_def ascii_def parse_offset_table_def usize_def read_sized_int_def
        from_be_nat_def decode_object.simps decode_scalar_def decode_singleton_def Let_def)
  with plist_decode_depth_bound [OF this tr] show ?thesis by simp
qed

text \<open>
  The bounds check of the offset table overflows for a crafted trailer: the computation
  \<open>start + count * entry_size\<close> is not a \<open>usize\<close>, and decoding panics instead of returning an error,
  whatever precedes the trailer.
\<close>

theorem plist_crafted_trailer_panics:
  assumes "sz < 256" and "n < 2 ^ 64" and "root < 2 ^ 64" and "off < 2 ^ 64" and "2 ^ 64 \<le> off + n * sz"
  shows "plist_decode alloc (plist_magic @ body @ write_trailer sz n root off) = None"
  using assms trailer_at [OF assms(1-4), of "plist_magic @ body"]
  by (simp add: plist_decode_def plist_magic_def ascii_def parse_offset_table_def usize_def dbind_def)

theorem plist_crafted_trailer_panics_witness:
  "plist_decode (\<lambda>n. True) (plist_magic @ [] @ write_trailer 1 (2 ^ 64 - 1) 0 1) = None"
  by (rule plist_crafted_trailer_panics) simp_all

end
