(* ===== verification/Ap2_Body.thy ===== *)
theory Ap2_Body
  imports Plist Rtsp_Message
begin

text \<open>
  Request and response bodies of the AirPlay 2 receiver, \<open>src/receiver/ap2/body_handler.rs\<close>, and
  its response builder, \<open>src/receiver/ap2/response_builder.rs\<close>. Plist errors are values, where
  the code carries their text. A result type of the decoder has a third outcome, a panic.
\<close>

section \<open>Bodies\<close>

datatype body_parse_error =
    Body_InvalidMagic
  | Body_DecodeError plist_decode_error
  | Body_EncodeError plist_encode_error
  | Body_InvalidUtf8
  | Body_MissingField string
  | Body_InvalidType string string

definition BINARY_PLIST :: str where "BINARY_PLIST = ascii ''application/x-apple-binary-plist''"
definition OCTET_STREAM :: str where "OCTET_STREAM = ascii ''application/octet-stream''"

definition parse_bplist_body :: "(nat \<Rightarrow> bool) \<Rightarrow> bytes \<Rightarrow> (body_parse_error, plist) result option" where
  "parse_bplist_body alloc body =
     (if body = [] then Some (Inr (PDictionary []))
      else if length body < 8 \<or> take 6 body \<noteq> ascii ''bplist'' then Some (Inl Body_InvalidMagic)
      else map_option (map_err Body_DecodeError) (plist_decode alloc body))"

definition encode_bplist_body :: "plist \<Rightarrow> (body_parse_error, bytes) result option" where
  "encode_bplist_body v = map_option (map_err Body_EncodeError) (plist_encode v)"

text \<open>\<open>HashMap::insert\<close> in key order; \<open>text/parameters\<close> bodies.\<close>

definition text_parameter :: "str \<Rightarrow> (str \<times> str) option" where
  "text_parameter line =
     map_option (\<lambda>pos. (trim (take pos line), trim (drop (Suc pos) line))) (find_sub [58] line)"

definition parse_text_parameters :: "bytes \<Rightarrow> (body_parse_error, (str \<times> str) list) result" where
  "parse_text_parameters body =
     (if \<not> utf8_valid body then Inl Body_InvalidUtf8
      else Inr (fold (\<lambda>(k, v). dict_insert k v) (List.map_filter text_parameter (rust_lines body)) []))"

definition encode_text_parameters :: "(str \<times> str) list \<Rightarrow> bytes" where
  "encode_text_parameters params = concat (map (\<lambda>(k, v). k @ ascii '': '' @ v @ crlf) params)"

section \<open>Dictionary access\<close>

definition plist_get :: "plist \<Rightarrow> string \<Rightarrow> plist option" where
  "plist_get v key = (case v of PDictionary d \<Rightarrow> dict_get d (ascii key) | _ \<Rightarrow> None)"

definition get_string :: "plist \<Rightarrow> string \<Rightarrow> str option" where
  "get_string v key = (case plist_get v key of Some (PString s) \<Rightarrow> Some s | _ \<Rightarrow> None)"

definition get_int :: "plist \<Rightarrow> string \<Rightarrow> i64 option" where
  "get_int v key = (case plist_get v key of Some (PInteger i) \<Rightarrow> Some i | _ \<Rightarrow> None)"

definition get_bytes :: "plist \<Rightarrow> string \<Rightarrow> bytes option" where
  "get_bytes v key = (case plist_get v key of Some (PData d) \<Rightarrow> Some d | _ \<Rightarrow> None)"

definition get_bool :: "plist \<Rightarrow> string \<Rightarrow> bool option" where
  "get_bool v key = (case plist_get v key of Some (PBoolean b) \<Rightarrow> Some b | _ \<Rightarrow> None)"

definition get_dict :: "plist \<Rightarrow> string \<Rightarrow> (str \<times> plist) list option" where
  "get_dict v key = (case plist_get v key of Some (PDictionary d) \<Rightarrow> Some d | _ \<Rightarrow> None)"

definition get_array :: "plist \<Rightarrow> string \<Rightarrow> plist list option" where
  "get_array v key = (case plist_get v key of Some (PArray a) \<Rightarrow> Some a | _ \<Rightarrow> None)"

type_synonym plist_response_builder = "(str \<times> plist) list"

definition prb_string :: "plist_response_builder \<Rightarrow> string \<Rightarrow> str \<Rightarrow> plist_response_builder" where
  "prb_string b key v = dict_insert (ascii key) (PString v) b"

definition prb_int :: "plist_response_builder \<Rightarrow> string \<Rightarrow> i64 \<Rightarrow> plist_response_builder" where
  "prb_int b key v = dict_insert (ascii key) (PInteger v) b"

definition prb_bool :: "plist_response_builder \<Rightarrow> string \<Rightarrow> bool \<Rightarrow> plist_response_builder" where
  "prb_bool b key v = dict_insert (ascii key) (PBoolean v) b"

definition prb_data :: "plist_response_builder \<Rightarrow> string \<Rightarrow> bytes \<Rightarrow> plist_response_builder" where
  "prb_data b key v = dict_insert (ascii key) (PData v) b"

definition prb_dict :: "plist_response_builder \<Rightarrow> string \<Rightarrow> (str \<times> plist) list \<Rightarrow> plist_response_builder" where
  "prb_dict b key v = dict_insert (ascii key) (PDictionary v) b"

definition prb_encode :: "plist_response_builder \<Rightarrow> (body_parse_error, bytes) result option" where
  "prb_encode b = encode_bplist_body (PDictionary b)"

section \<open>Responses\<close>

definition ap2_ok :: response_builder where
  "ap2_ok = response_builder_new 200"

definition ap2_error :: "u16 \<Rightarrow> response_builder" where
  "ap2_error status = response_builder_new status"

definition ap2_bplist_body :: "response_builder \<Rightarrow> plist \<Rightarrow> (body_parse_error, response_builder) result option" where
  "ap2_bplist_body b v =
     map_option (\<lambda>r. result_bind r (\<lambda>body. Inr (response_binary_body b body BINARY_PLIST))) (encode_bplist_body v)"

definition ap2_binary_body :: "response_builder \<Rightarrow> bytes \<Rightarrow> response_builder" where
  "ap2_binary_body b body = response_binary_body b body OCTET_STREAM"

definition ap2_server :: "response_builder \<Rightarrow> string \<Rightarrow> response_builder" where
  "ap2_server b version = response_header b (ascii ''Server'') (ascii (''AirTunes/'' @ version))"

definition ap2_timing_port :: "response_builder \<Rightarrow> u16 \<Rightarrow> response_builder" where
  "ap2_timing_port b port = response_header b (ascii ''Timing-Port'') (dec_string (unat port))"

definition ap2_event_port :: "response_builder \<Rightarrow> u16 \<Rightarrow> response_builder" where
  "ap2_event_port b port = response_header b (ascii ''Event-Port'') (dec_string (unat port))"

definition pairing_response :: "u32 \<Rightarrow> bytes \<Rightarrow> response_builder" where
  "pairing_response cseq body = ap2_binary_body (response_cseq ap2_ok cseq) body"

definition auth_required :: "u32 \<Rightarrow> response_builder" where
  "auth_required cseq = response_cseq (ap2_error 470) cseq"

definition bad_request_with_error ::
    "u32 \<Rightarrow> i64 \<Rightarrow> str \<Rightarrow> (body_parse_error, response_builder) result option" where
  "bad_request_with_error cseq code message =
     ap2_bplist_body (response_cseq (ap2_error 400) cseq)
       (PDictionary (dict_insert (ascii ''message'') (PString message) (dict_insert (ascii ''code'') (PInteger code) [])))"

end
