(* ===== verification/Srp.thy ===== *)
theory Srp
  imports Crypto_Lib
begin

text \<open>
  The SRP-6a implementation of \<open>src/protocol/crypto/srp.rs\<close>, client and server. A \<open>BigUint\<close> is a
  natural number; \<open>from_bytes_be\<close>, \<open>to_bytes_be\<close> and \<open>modpow\<close> are written out. An incremental
  SHA-512 computation is the hash of the concatenation. The random exponents are arguments.
\<close>

section \<open>Big integers\<close>

definition from_bytes_be :: "bytes \<Rightarrow> nat" where
  "from_bytes_be bs = foldl (\<lambda>n b. 256 * n + unat b) 0 bs"

fun digits_be :: "nat \<Rightarrow> bytes" where
  "digits_be n = (if n = 0 then [] else digits_be (n div 256) @ [of_nat (n mod 256)])"

declare digits_be.simps [simp del]

definition to_bytes_be :: "nat \<Rightarrow> bytes" where
  "to_bytes_be n = (if n = 0 then [0] else digits_be n)"

definition modpow :: "nat \<Rightarrow> nat \<Rightarrow> nat \<Rightarrow> nat" where
  "modpow b e m = b ^ e mod m"

lemma from_bytes_be_snoc [simp]: "from_bytes_be (bs @ [b]) = 256 * from_bytes_be bs + unat b"
  by (simp add: from_bytes_be_def)

lemma from_bytes_be_Nil [simp]: "from_bytes_be [] = 0"
  by (simp add: from_bytes_be_def)

lemma from_digits_be: "from_bytes_be (digits_be n) = n"
proof (induction n rule: digits_be.induct)
  case (1 n)
  have "unat (of_nat (n mod 256) :: u8) = n mod 256" by (rule unat_of_nat_small) simp
  with 1 show ?case by (subst digits_be.simps) simp
qed

lemma from_to_bytes_be [simp]: "from_bytes_be (to_bytes_be n) = n"
  by (simp add: to_bytes_be_def from_digits_be) (simp add: from_bytes_be_def)

lemma from_bytes_be_zeros: "from_bytes_be (replicate k 0 @ bs) = from_bytes_be bs"
proof -
  have "foldl (\<lambda>n (b :: u8). 256 * n + unat b) 0 (replicate k 0) = 0" by (induction k) simp_all
  then show ?thesis by (simp add: from_bytes_be_def)
qed

section \<open>Parameters and helpers\<close>

record srp_params =
  srp_n :: nat
  srp_g :: nat
  srp_size :: nat

definition RFC5054_3072 :: srp_params where
  "RFC5054_3072 =
     \<lparr>srp_n = 0xFFFFFFFFFFFFFFFFC90FDAA22168C234C4C6628B80DC1CD129024E088A67CC74020BBEA63B139B22514A08798E3404DDEF9519B3CD3A431B302B0A6DF25F14374FE1356D6D51C245E485B576625E7EC6F44C42E9A637ED6B0BFF5CB6F406B7EDEE386BFB5A899FA5AE9F24117C4B1FE649286651ECE45B3DC2007CB8A163BF0598DA48361C55D39A69163FA8FD24CF5F83655D23DCA3AD961C62F356208552BB9ED529077096966D670C354E4ABC9804F1746C08CA18217C32905E462E36CE3BE39E772C180E86039B2783A2EC07A28FB5C55DF06F4C52C9DE2BCBF6955817183995497CEA956AE515D2261898FA051015728E5A8AAAC42DAD33170D04507A33A85521ABDF1CBA64ECFB850458DBEF0A8AEA71575D060C7DB3970F85A6E1E4C7ABF5AE8CDB0933D71E8C94E04A25619DCEE3D2261AD2EE6BF12FFA06D98A0864D87602733EC86A64521F2B18177B200CBBE117577A615D6C770988C0BAD946E208E24FA074E5AB3143DB5BFCE0FD108E4B82D120A93AD2CAFFFFFFFFFFFFFFFF, srp_g = 5, srp_size = 384\<rparr>"

definition pad_to_size :: "bytes \<Rightarrow> nat \<Rightarrow> bytes" where
  "pad_to_size bs sz = (if length bs \<ge> sz then bs else replicate (sz - length bs) 0 @ bs)"

definition compute_k :: "crypto_lib \<Rightarrow> srp_params \<Rightarrow> nat" where
  "compute_k L params =
     from_bytes_be (sha512 L (to_bytes_be (srp_n params) @ pad_to_size (to_bytes_be (srp_g params)) (srp_size params)))"

definition compute_x :: "crypto_lib \<Rightarrow> bytes \<Rightarrow> bytes \<Rightarrow> bytes \<Rightarrow> nat" where
  "compute_x L salt username password =
     from_bytes_be (sha512 L (salt @ sha512 L (username @ ascii '':'' @ password)))"

definition compute_u :: "crypto_lib \<Rightarrow> bytes \<Rightarrow> bytes \<Rightarrow> nat \<Rightarrow> nat" where
  "compute_u L a_pub b_pub sz = from_bytes_be (sha512 L (pad_to_size a_pub sz @ pad_to_size b_pub sz))"

definition compute_m1 :: "crypto_lib \<Rightarrow> srp_params \<Rightarrow> bytes \<Rightarrow> bytes \<Rightarrow> nat \<Rightarrow> nat \<Rightarrow> bytes \<Rightarrow> bytes" where
  "compute_m1 L params username salt a_pub b_pub k_session =
     (let hn = sha512 L (to_bytes_be (srp_n params)); hg = sha512 L (to_bytes_be (srp_g params));
          hn_xor_hg = map (\<lambda>i. hn ! i XOR hg ! i) [0..<64]; h_user = sha512 L username
      in sha512 L (hn_xor_hg @ h_user @ salt @ to_bytes_be a_pub @ to_bytes_be b_pub @ k_session))"

section \<open>Client\<close>

record srp_client =
  sc_params :: srp_params
  sc_k :: nat
  sc_a :: nat
  sc_public_key :: bytes

definition srp_client_with_params :: "crypto_lib \<Rightarrow> srp_params \<Rightarrow> nat \<Rightarrow> srp_client" where
  "srp_client_with_params L params random =
     (let k = compute_k L params; a = random mod srp_n params;
          a_pub = modpow (srp_g params) a (srp_n params)
      in \<lparr>sc_params = params, sc_k = k, sc_a = a, sc_public_key = pad_to_size (to_bytes_be a_pub) (srp_size params)\<rparr>)"

definition srp_client_new :: "crypto_lib \<Rightarrow> srp_params \<Rightarrow> nat \<Rightarrow> srp_client" where
  "srp_client_new L params random = srp_client_with_params L params random"

record srp_verifier =
  sv_a_pub :: nat
  sv_m1 :: bytes
  sv_k_session :: bytes

definition process_challenge ::
    "crypto_lib \<Rightarrow> srp_client \<Rightarrow> bytes \<Rightarrow> bytes \<Rightarrow> bytes \<Rightarrow> bytes \<Rightarrow> (crypto_error, srp_verifier) result" where
  "process_challenge L c username password salt server_public =
     (let n = srp_n (sc_params c); g = srp_g (sc_params c); b_pub = from_bytes_be server_public in
      if b_pub mod n = 0 then Inl (SrpError ''Invalid server public key'')
      else let a_pub = from_bytes_be (sc_public_key c);
               u = compute_u L (sc_public_key c) server_public (srp_size (sc_params c));
               x = compute_x L salt username password;
               g_x = modpow g x n;
               k_g_x = (sc_k c * g_x) mod n;
               base = (if b_pub \<ge> k_g_x then (b_pub - k_g_x) mod n else (n - (k_g_x - b_pub) mod n) mod n);
               e = sc_a c + u * x;
               s_shared = modpow base e n;
               k_session = sha512 L (to_bytes_be s_shared);
               m1 = compute_m1 L (sc_params c) username salt a_pub b_pub k_session
           in Inr \<lparr>sv_a_pub = a_pub, sv_m1 = m1, sv_k_session = k_session\<rparr>)"

definition verify_server :: "crypto_lib \<Rightarrow> srp_verifier \<Rightarrow> bytes \<Rightarrow> (crypto_error, bytes) result" where
  "verify_server L v server_proof =
     (let expected_m2 = sha512 L (to_bytes_be (sv_a_pub v) @ sv_m1 v @ sv_k_session v) in
      if expected_m2 \<noteq> server_proof then Inl (SrpError ''Server proof verification failed'')
      else Inr (sv_k_session v))"

section \<open>Server\<close>

record srp_server =
  ss_params :: srp_params
  ss_k :: nat
  ss_v :: nat
  ss_b :: nat
  ss_public_key :: bytes

definition srp_server_new :: "crypto_lib \<Rightarrow> bytes \<Rightarrow> srp_params \<Rightarrow> nat \<Rightarrow> srp_server" where
  "srp_server_new L verifier params random =
     (let k = compute_k L params; v = from_bytes_be verifier; b = random mod srp_n params;
          g_b = modpow (srp_g params) b (srp_n params);
          k_v = (k * v) mod srp_n params;
          b_pub = (k_v + g_b) mod srp_n params
      in \<lparr>ss_params = params, ss_k = k, ss_v = v, ss_b = b,
          ss_public_key = pad_to_size (to_bytes_be b_pub) (srp_size params)\<rparr>)"

definition compute_verifier :: "crypto_lib \<Rightarrow> bytes \<Rightarrow> bytes \<Rightarrow> bytes \<Rightarrow> srp_params \<Rightarrow> bytes" where
  "compute_verifier L username password salt params =
     (let x = compute_x L salt username password in to_bytes_be (modpow (srp_g params) x (srp_n params)))"

definition verify_client ::
    "crypto_lib \<Rightarrow> srp_server \<Rightarrow> bytes \<Rightarrow> bytes \<Rightarrow> bytes \<Rightarrow> bytes \<Rightarrow> (crypto_error, bytes \<times> bytes) result" where
  "verify_client L s username salt client_public client_proof =
     (let n = srp_n (ss_params s); a_pub = from_bytes_be client_public in
      if a_pub mod n = 0 then Inl (SrpError ''Invalid client public key'')
      else let u = compute_u L client_public (ss_public_key s) (srp_size (ss_params s));
               v_u = modpow (ss_v s) u n;
               base = (a_pub * v_u) mod n;
               s_shared = modpow base (ss_b s) n;
               k_session = sha512 L (to_bytes_be s_shared);
               b_pub = from_bytes_be (ss_public_key s);
               expected_m1 = compute_m1 L (ss_params s) username salt a_pub b_pub k_session
           in if expected_m1 \<noteq> client_proof then Inl (SrpError ''Client proof verification failed'')
              else Inr (k_session, sha512 L (to_bytes_be a_pub @ expected_m1 @ k_session)))"

section \<open>Agreement\<close>

lemma from_pad_to_size [simp]: "from_bytes_be (pad_to_size bs n) = from_bytes_be bs"
  by (simp add: pad_to_size_def from_bytes_be_zeros)

lemma modpow_mult: "modpow (a * b) e m = modpow a e m * modpow b e m mod m"
  by (simp add: modpow_def power_mult_distrib mod_mult_eq)

lemma modpow_mod [simp]: "modpow (a mod m) e m = modpow a e m"
  by (simp add: modpow_def power_mod)

lemma modpow_modpow [simp]: "modpow (modpow a d m) e m = modpow a (d * e) m"
  by (simp add: modpow_def power_mod power_mult)

lemma modpow_add: "modpow a d m * modpow a e m mod m = modpow a (d + e) m"
  by (simp add: modpow_def mod_mult_eq power_add)

text \<open>The client recovers \<open>g\<^sup>b\<close> from the server's public key, in both branches of the subtraction.\<close>

lemma subtract_mod:
  fixes n kv gb :: nat
  assumes "kv < n" and "gb < n"
  defines "b \<equiv> (kv + gb) mod n"
  shows "(if b \<ge> kv then (b - kv) mod n else (n - (kv - b) mod n) mod n) = gb"
proof (cases "kv + gb < n")
  case True
  then show ?thesis using assms by simp
next
  case False
  then have "b = kv + gb - n" using assms by (simp add: b_def mod_if)
  then show ?thesis using assms False by simp
qed

lemma srp_base:
  assumes "0 < n" and "b_pub = ((k * v) mod n + modpow g b n) mod n" and "kgx = k * v mod n"
  shows "(if b_pub \<ge> kgx then (b_pub - kgx) mod n else (n - (kgx - b_pub) mod n) mod n) = modpow g b n"
proof -
  have "k * v mod n < n" and "modpow g b n < n" using assms(1) by (simp_all add: modpow_def)
  from subtract_mod [OF this] show ?thesis by (simp only: assms(2, 3))
qed

text \<open>Both sides raise the generator to the same exponent.\<close>

lemma srp_shared:
  "modpow ((modpow g a n * modpow (modpow g x n) u n) mod n) b n = modpow (modpow g b n) (a + u * x) n"
  by (simp add: modpow_add algebra_simps)

lemma public_not_zero:
  assumes "coprime g n" and "1 < n"
  shows "modpow g a n mod n \<noteq> 0"
proof
  assume "modpow g a n mod n = 0"
  then have "n dvd g ^ a" by (simp add: modpow_def dvd_eq_mod_eq_0)
  moreover have "coprime (g ^ a) n" using assms(1) by simp
  ultimately have "is_unit n" by (metis coprime_absorb_right)
  with assms(2) show False by simp
qed

lemma srp_agreement:
  assumes "1 < srp_n params" and "coprime (srp_g params) (srp_n params)"
    and server: "server = srp_server_new L (compute_verifier L username password salt params) params b"
    and client: "client = srp_client_with_params L params a"
    and "from_bytes_be (ss_public_key server) mod srp_n params \<noteq> 0"
  shows "\<exists>v key m2.
      process_challenge L client username password salt (ss_public_key server) = Inr v
    \<and> verify_client L server username salt (sc_public_key client) (sv_m1 v) = Inr (key, m2)
    \<and> verify_server L v m2 = Inr key \<and> key = sv_k_session v \<and> (\<exists>m. key = sha512 L m)"
proof -
  let ?n = "srp_n params" and ?g = "srp_g params"
  let ?x = "compute_x L salt username password" and ?k = "compute_k L params"
  let ?a = "a mod ?n" and ?b = "b mod ?n"
  let ?bpub = "(?k * modpow ?g ?x ?n mod ?n + modpow ?g ?b ?n) mod ?n"
  let ?u = "compute_u L (sc_public_key client) (ss_public_key server) (srp_size params)"
  let ?S = "modpow (modpow ?g ?b ?n) (?a + ?u * ?x) ?n"
  have c: "sc_params client = params" "sc_k client = ?k" "sc_a client = ?a"
      "from_bytes_be (sc_public_key client) = modpow ?g ?a ?n"
    by (simp_all add: client srp_client_with_params_def Let_def)
  have s: "ss_params server = params" "ss_v server = modpow ?g ?x ?n" "ss_b server = ?b"
      "from_bytes_be (ss_public_key server) = ?bpub"
    by (simp_all add: server srp_server_new_def compute_verifier_def Let_def)
  let ?K = "sha512 L (to_bytes_be ?S)"
  let ?v = "\<lparr>sv_a_pub = modpow ?g ?a ?n,
      sv_m1 = compute_m1 L params username salt (modpow ?g ?a ?n) ?bpub ?K, sv_k_session = ?K\<rparr>"
  have "process_challenge L client username password salt (ss_public_key server) = Inr ?v"
    using assms(1, 5) srp_base [of ?n ?bpub ?k "modpow ?g ?x ?n" ?g ?b]
    by (simp add: process_challenge_def Let_def c s)
  moreover have "verify_client L server username salt (sc_public_key client) (sv_m1 ?v) =
      Inr (?K, sha512 L (to_bytes_be (modpow ?g ?a ?n) @ sv_m1 ?v @ ?K))"
    using public_not_zero [OF assms(2, 1), of ?a] srp_shared [of ?g ?a ?n ?x ?u ?b]
    by (simp add: verify_client_def Let_def c s)
  ultimately show ?thesis by (auto simp: verify_server_def Let_def)
qed

text \<open>The modulus is two more than five times the number below.\<close>

lemma rfc5054_modulus:
  "srp_n RFC5054_3072 =
     5 * 0x333333333333333328365EED39E1C070F427AD4F19C59F5D0833A934E87B28E40068BFBAD89D856D437534E51C70CDC5FCB76B8A5C3EDA38A33BCEE2CA13040B0FF9D77C49105A0DFA81244AE0794C8E30DC0D61EE0B2F7BCF33128AFD9AF195FC71AF32454EB98789530736B2756CC7A83B47A9FC2DABD926CCE5BE86AD8C9AB82BA80AD27790B87B6AD98832A0F6464D7AAC3A5F53EF846C13CA446CE776F252F76E9B1684847C47CF3DDC7558EB34304A7C01C204D37F3D5012DAD60AF60BFA52E4A26B361ACD856E4D86FC0186E98AC112C9AFDC108EC608C2648444D16B3EB77518FBB77BC76AC3A1381E9867699DE3B6121BBBC0D5EF709E35CDA9B20A54DDD388C638F2142F658100DE9263021BC87D11790135B2BD849CB454939427EF3122E8F89B70C49FB5B7600ED446B92960C3A13890961596A332015EB534E0F8179A170C8E7BADAA063BD19E4BD335BF2D04AB1879DF7C17CEB4F35891DAFA01C6DCB9B0FABBD6A72BDF329365D01C75809039BB722A289999999999999999 + 2"
  unfolding RFC5054_3072_def by simp

lemma rfc5054_coprime: "1 < srp_n RFC5054_3072" "coprime (srp_g RFC5054_3072) (srp_n RFC5054_3072)"
proof -
  show "1 < srp_n RFC5054_3072" unfolding RFC5054_3072_def by simp
  have "coprime 5 (srp_n RFC5054_3072)"
  proof (rule coprimeI)
    fix d :: nat
    assume "d dvd 5" and "d dvd srp_n RFC5054_3072"
    then have "d dvd 2" unfolding rfc5054_modulus by (meson dvd_add_right_iff dvd_mult2)
    with \<open>d dvd 5\<close> have "d dvd 5 - 2 * 2" by (meson dvd_diff_nat dvd_mult2)
    then show "is_unit d" by simp
  qed
  moreover have "srp_g RFC5054_3072 = 5" unfolding RFC5054_3072_def by simp
  ultimately show "coprime (srp_g RFC5054_3072) (srp_n RFC5054_3072)" by (simp only:)
qed

text \<open>A public key that is a multiple of the modulus would make the shared secret zero for everyone.\<close>

lemma verify_client_zero_key:
  "srp_n (ss_params server) dvd from_bytes_be client_public \<Longrightarrow>
   verify_client L server username salt client_public client_proof = Inl (SrpError ''Invalid client public key'')"
  by (simp add: verify_client_def Let_def)

lemma process_challenge_zero_key:
  "srp_n (sc_params client) dvd from_bytes_be server_public \<Longrightarrow>
   process_challenge L client username password salt server_public = Inl (SrpError ''Invalid server public key'')"
  by (simp add: process_challenge_def Let_def)

end
