(* ===== verification/Pairing_Client.thy ===== *)
theory Pairing_Client
  imports Srp Tlv8
begin

text \<open>
  The client's pairing protocols, \<open>src/protocol/pairing\<close>: PIN-based pair-setup (\<open>setup.rs\<close>),
  pair-verify with stored keys (\<open>verify.rs\<close>), transient pairing (\<open>transient.rs\<close>), the auth-setup
  handshake (\<open>auth_setup.rs\<close>) and the in-memory key store (\<open>storage.rs\<close>). A method that updates
  its session and may fail returns the new session with the result, since the code changes the
  state on some error paths; \<open>None\<close> around it is a panic. Random secrets are arguments.
\<close>

section \<open>Shared types\<close>

datatype pairing_state =
    PS_Init | PS_WaitingResponse | PS_SrpExchange | PS_KeyExchange | PS_Verifying | PS_Complete | PS_Failed

fun pairing_state_name :: "pairing_state \<Rightarrow> str" where
  "pairing_state_name PS_Init = ascii ''Init''"
| "pairing_state_name PS_WaitingResponse = ascii ''WaitingResponse''"
| "pairing_state_name PS_SrpExchange = ascii ''SrpExchange''"
| "pairing_state_name PS_KeyExchange = ascii ''KeyExchange''"
| "pairing_state_name PS_Verifying = ascii ''Verifying''"
| "pairing_state_name PS_Complete = ascii ''Complete''"
| "pairing_state_name PS_Failed = ascii ''Failed''"

datatype pairing_error =
    PE_InvalidState str str
  | PE_InvalidTlv str
  | PE_AuthenticationFailed str
  | PE_SrpVerificationFailed
  | PE_SignatureVerificationFailed
  | PE_Crypto crypto_error
  | PE_DeviceError u8
  | PE_NotSupported
  | PE_PairingRequired
  | PE_InvalidStoredKeys
  | PE_Tlv tlv_error

record session_keys =
  sk_encrypt_key :: bytes
  sk_decrypt_key :: bytes
  sk_encrypt_nonce :: u64
  sk_decrypt_nonce :: u64
  sk_raw_shared_secret :: bytes

datatype pairing_step_result =
    Step_SendData bytes
  | Step_NeedData
  | Step_Complete session_keys
  | Step_Failed pairing_error

definition session_encryptor :: "session_keys \<Rightarrow> (crypto_error, pairing_channel) result" where
  "session_encryptor k = pairing_channel_new (sk_encrypt_key k) (sk_encrypt_nonce k) True"

definition session_decryptor :: "session_keys \<Rightarrow> (crypto_error, pairing_channel) result" where
  "session_decryptor k = pairing_channel_new (sk_decrypt_key k) (sk_decrypt_nonce k) False"

type_synonym 's step_outcome = "'s \<times> (pairing_error, pairing_step_result) result"

abbreviation tlv_try :: "'s \<Rightarrow> (tlv_error, 'a) result \<Rightarrow> ('a \<Rightarrow> 's \<times> (pairing_error, 'b) result)
    \<Rightarrow> 's \<times> (pairing_error, 'b) result" where
  "tlv_try s r f \<equiv> attempt s (map_err PE_Tlv r) f"

abbreviation crypto_try :: "'s \<Rightarrow> (crypto_error, 'a) result \<Rightarrow> ('a \<Rightarrow> 's \<times> (pairing_error, 'b) result)
    \<Rightarrow> 's \<times> (pairing_error, 'b) result" where
  "crypto_try s r f \<equiv> attempt s (map_err PE_Crypto r) f"

definition wrong_message_state :: "u8 \<Rightarrow> u8 \<Rightarrow> pairing_error" where
  "wrong_message_state expected actual = PE_InvalidState (dec_string (unat expected)) (dec_string (unat actual))"

text \<open>The nonce of a pairing message: four zero bytes and its eight-byte label.\<close>

definition label_nonce :: "string \<Rightarrow> bytes" where
  "label_nonce label = replicate 4 0 @ ascii label"

text \<open>The session keys, derived from a secret; the audio key is the secret's first 32 bytes.\<close>

definition derive_session_keys ::
    "crypto_lib \<Rightarrow> bytes \<Rightarrow> bytes \<Rightarrow> (crypto_error, session_keys) result" where
  "derive_session_keys L secret raw_shared_secret =
     result_bind (hkdf_expand L (Some (ascii ''Control-Salt'')) secret (ascii ''Control-Write-Encryption-Key'') 32) (\<lambda>encrypt_key.
     result_bind (hkdf_expand L (Some (ascii ''Control-Salt'')) secret (ascii ''Control-Read-Encryption-Key'') 32) (\<lambda>decrypt_key.
       Inr \<lparr>sk_encrypt_key = encrypt_key, sk_decrypt_key = decrypt_key, sk_encrypt_nonce = 0,
            sk_decrypt_nonce = 0, sk_raw_shared_secret = raw_shared_secret\<rparr>))"

definition raw_secret :: "bytes \<Rightarrow> bytes" where
  "raw_secret session_key = take 32 session_key @ replicate (32 - length session_key) 0"

section \<open>Pair-setup\<close>

record pair_setup =
  pst_state :: pairing_state
  pst_pin :: "str option"
  pst_srp_client :: "srp_client option"
  pst_srp_verifier :: "srp_verifier option"
  pst_signing_keypair :: bytes
  pst_session_key :: "bytes option"
  pst_device_ltpk :: "bytes option"
  pst_transient :: bool
  pst_username :: str

definition pair_setup_new :: "bytes \<Rightarrow> pair_setup" where
  "pair_setup_new signing_keypair =
     \<lparr>pst_state = PS_Init, pst_pin = None, pst_srp_client = None, pst_srp_verifier = None,
      pst_signing_keypair = signing_keypair, pst_session_key = None, pst_device_ltpk = None,
      pst_transient = False, pst_username = ascii ''Pair-Setup''\<rparr>"

definition pair_setup_set_pin :: "pair_setup \<Rightarrow> str \<Rightarrow> pair_setup" where
  "pair_setup_set_pin s pin = s\<lparr>pst_pin := Some pin\<rparr>"

definition pair_setup_set_transient :: "pair_setup \<Rightarrow> bool \<Rightarrow> pair_setup" where
  "pair_setup_set_transient s transient = s\<lparr>pst_transient := transient\<rparr>"

definition pair_setup_set_username :: "pair_setup \<Rightarrow> str \<Rightarrow> pair_setup" where
  "pair_setup_set_username s username = s\<lparr>pst_username := username\<rparr>"

definition pair_setup_start :: "pair_setup \<Rightarrow> pair_setup \<times> (pairing_error, bytes) result" where
  "pair_setup_start s =
     (if pst_state s \<noteq> PS_Init then (s, Inl (PE_InvalidState (ascii ''Init'') (pairing_state_name (pst_state s))))
      else (s\<lparr>pst_state := PS_WaitingResponse\<rparr>,
            Inr (tlv_encode ([(State, [1]), (Method, [0])] @ (if pst_transient s then [(Flags, [0x10])] else [])))))"

definition pair_setup_process_m2 :: "crypto_lib \<Rightarrow> pair_setup \<Rightarrow> nat \<Rightarrow> bytes \<Rightarrow> pair_setup step_outcome" where
  "pair_setup_process_m2 L s random data =
     tlv_try s (tlv_decode data) (\<lambda>tlv.
     case tlv_get_error tlv of Some e \<Rightarrow> (s\<lparr>pst_state := PS_Failed\<rparr>, Inl (PE_DeviceError e)) | None \<Rightarrow>
     tlv_try s (tlv_get_state tlv) (\<lambda>state.
     if state \<noteq> 2 then (s, Inl (wrong_message_state 2 state)) else
     tlv_try s (tlv_get_required tlv Salt) (\<lambda>salt.
     tlv_try s (tlv_get_required tlv PublicKey) (\<lambda>server_public.
     attempt s (ok_or (pst_pin s) (PE_AuthenticationFailed (ascii ''PIN not set''))) (\<lambda>pin.
     let srp_client = srp_client_new L RFC5054_3072 random in
     crypto_try s (process_challenge L srp_client (pst_username s) pin salt server_public) (\<lambda>verifier.
       (s\<lparr>pst_srp_verifier := Some verifier, pst_srp_client := Some srp_client, pst_state := PS_SrpExchange\<rparr>,
        Inr (Step_SendData (tlv_encode
          [(State, [3]), (PublicKey, sc_public_key srp_client), (Proof, sv_m1 verifier)])))))))))"

text \<open>The last part of \<open>process_m4\<close> in the mode that stores keys: the encrypted message M5.\<close>

definition pair_setup_m5 :: "crypto_lib \<Rightarrow> pair_setup \<Rightarrow> bytes \<Rightarrow> pair_setup step_outcome" where
  "pair_setup_m5 L s session_key =
     crypto_try s (hkdf_expand L (Some (ascii ''Pair-Setup-Encrypt-Salt'')) session_key
       (ascii ''Pair-Setup-Encrypt-Info'') 32) (\<lambda>encrypt_key.
     crypto_try s (hkdf_expand L (Some (ascii ''Pair-Setup-Controller-Sign-Salt'')) session_key
       (ascii ''Pair-Setup-Controller-Sign-Info'') 32) (\<lambda>controller_x.
     let public = ed_public L (pst_signing_keypair s);
         sign_data = controller_x @ ascii ''airplay2-rs'' @ public;
         signature = ed25519_sign L (pst_signing_keypair s) sign_data;
         signed_tlv = tlv_encode [(Identifier, ascii ''airplay2-rs''), (PublicKey, public), (Signature, signature)]
     in crypto_try s (cipher_new encrypt_key) (\<lambda>cipher.
        crypto_try s (nonce_from_bytes (label_nonce ''PS-Msg05'')) (\<lambda>nonce.
        crypto_try s (cipher_encrypt (seal L) cipher nonce signed_tlv) (\<lambda>encrypted.
          (s\<lparr>pst_session_key := Some session_key, pst_state := PS_KeyExchange\<rparr>,
           Inr (Step_SendData (tlv_encode [(State, [5]), (EncryptedData, encrypted)]))))))))"

definition pair_setup_process_m4 :: "crypto_lib \<Rightarrow> pair_setup \<Rightarrow> bytes \<Rightarrow> pair_setup step_outcome" where
  "pair_setup_process_m4 L s data =
     tlv_try s (tlv_decode data) (\<lambda>tlv.
     case tlv_get_error tlv of
       Some e \<Rightarrow> (s\<lparr>pst_state := PS_Failed\<rparr>, Inl (if e = 2 then PE_SrpVerificationFailed else PE_DeviceError e))
     | None \<Rightarrow>
     tlv_try s (tlv_get_state tlv) (\<lambda>state.
     if state \<noteq> 4 then (s, Inl (wrong_message_state 4 state)) else
     tlv_try s (tlv_get_required tlv Proof) (\<lambda>server_proof.
     attempt s (ok_or (pst_srp_verifier s) (PE_InvalidState (ascii ''srp_verifier'') (ascii ''none''))) (\<lambda>verifier.
     attempt s (map_err (\<lambda>_. PE_SrpVerificationFailed) (verify_server L verifier server_proof)) (\<lambda>session_key.
     if pst_transient s
     then crypto_try s (derive_session_keys L session_key (raw_secret session_key)) (\<lambda>keys.
            (s\<lparr>pst_session_key := Some session_key, pst_state := PS_Complete\<rparr>, Inr (Step_Complete keys)))
     else pair_setup_m5 L s session_key)))))"

definition pair_setup_process_m6 :: "crypto_lib \<Rightarrow> pair_setup \<Rightarrow> bytes \<Rightarrow> pair_setup step_outcome" where
  "pair_setup_process_m6 L s data =
     tlv_try s (tlv_decode data) (\<lambda>tlv.
     case tlv_get_error tlv of Some e \<Rightarrow> (s\<lparr>pst_state := PS_Failed\<rparr>, Inl (PE_DeviceError e)) | None \<Rightarrow>
     tlv_try s (tlv_get_state tlv) (\<lambda>state.
     if state \<noteq> 6 then (s, Inl (wrong_message_state 6 state)) else
     tlv_try s (tlv_get_required tlv EncryptedData) (\<lambda>encrypted.
     attempt s (ok_or (pst_session_key s) (PE_InvalidState (ascii ''session_key'') (ascii ''none''))) (\<lambda>session_key.
     crypto_try s (hkdf_expand L (Some (ascii ''Pair-Setup-Encrypt-Salt'')) session_key
       (ascii ''Pair-Setup-Encrypt-Info'') 32) (\<lambda>decrypt_key.
     crypto_try s (cipher_new decrypt_key) (\<lambda>cipher.
     crypto_try s (nonce_from_bytes (label_nonce ''PS-Msg06'')) (\<lambda>nonce.
     crypto_try s (cipher_decrypt (open_sealed L) cipher nonce encrypted) (\<lambda>decrypted.
     tlv_try s (tlv_decode decrypted) (\<lambda>device_tlv.
     tlv_try s (tlv_get_required device_tlv PublicKey) (\<lambda>device_ltpk.
     tlv_try s (tlv_get_required device_tlv Identifier) (\<lambda>device_identifier.
     tlv_try s (tlv_get_required device_tlv Signature) (\<lambda>device_signature_bytes.
     crypto_try s (hkdf_expand L (Some (ascii ''Pair-Setup-Accessory-Sign-Salt'')) session_key
       (ascii ''Pair-Setup-Accessory-Sign-Info'') 32) (\<lambda>accessory_key.
     let signed_data = accessory_key @ device_identifier @ device_ltpk in
     attempt s (map_err (\<lambda>_. PE_InvalidTlv (ascii ''Invalid public key''))
       (ed25519_public_key_from_bytes L device_ltpk)) (\<lambda>public_key.
     attempt s (map_err (\<lambda>_. PE_InvalidTlv (ascii ''Invalid signature''))
       (ed25519_signature_from_bytes L device_signature_bytes)) (\<lambda>signature.
     attempt s (map_err (\<lambda>_. PE_SignatureVerificationFailed)
       (ed25519_verify L public_key signed_data signature)) (\<lambda>_.
     let s' = s\<lparr>pst_device_ltpk := Some device_ltpk, pst_state := PS_Complete\<rparr> in
     crypto_try s' (derive_session_keys L session_key (raw_secret session_key)) (\<lambda>keys.
       (s', Inr (Step_Complete keys)))))))))))))))))))"

definition need_data :: "bytes option \<Rightarrow> (pairing_error, bytes) result" where
  "need_data data = ok_or data (PE_InvalidState (ascii ''data'') (ascii ''none''))"

definition pair_setup_step :: "crypto_lib \<Rightarrow> pair_setup \<Rightarrow> nat \<Rightarrow> bytes option \<Rightarrow> pair_setup step_outcome" where
  "pair_setup_step L s random data =
     (case pst_state s of
        PS_Init \<Rightarrow> (case pair_setup_start s of (s', r) \<Rightarrow> attempt s' r (\<lambda>m1. (s', Inr (Step_SendData m1))))
      | PS_WaitingResponse \<Rightarrow> attempt s (need_data data) (pair_setup_process_m2 L s random)
      | PS_SrpExchange \<Rightarrow> attempt s (need_data data) (pair_setup_process_m4 L s)
      | PS_KeyExchange \<Rightarrow> attempt s (need_data data) (pair_setup_process_m6 L s)
      | PS_Complete \<Rightarrow> (s, Inl (PE_InvalidState (ascii ''not complete'') (ascii ''Complete'')))
      | PS_Failed \<Rightarrow> (s, Inl (PE_InvalidState (ascii ''not failed'') (ascii ''Failed'')))
      | PS_Verifying \<Rightarrow> (s, Inr Step_NeedData))"

section \<open>Pair-verify\<close>

record pairing_keys =
  pk_identifier :: bytes
  pk_secret_key :: bytes
  pk_public_key :: bytes
  pk_device_public_key :: bytes

record pair_verify =
  pvf_state :: pairing_state
  pvf_our_keys :: pairing_keys
  pvf_device_ltpk :: bytes
  pvf_ephemeral_keypair :: bytes
  pvf_device_ephemeral :: "bytes option"
  pvf_shared_secret :: "bytes option"
  pvf_session_key :: "bytes option"
  pvf_final_session_keys :: "session_keys option"

definition pair_verify_new :: "crypto_lib \<Rightarrow> pairing_keys \<Rightarrow> bytes \<Rightarrow> bytes \<Rightarrow> (pairing_error, pair_verify) result" where
  "pair_verify_new L our_keys device_ltpk ephemeral =
     result_bind (map_err PE_Crypto (ed25519_public_key_from_bytes L device_ltpk)) (\<lambda>ltpk.
       Inr \<lparr>pvf_state = PS_Init, pvf_our_keys = our_keys, pvf_device_ltpk = ltpk, pvf_ephemeral_keypair = ephemeral,
            pvf_device_ephemeral = None, pvf_shared_secret = None, pvf_session_key = None,
            pvf_final_session_keys = None\<rparr>)"

definition pair_verify_start :: "crypto_lib \<Rightarrow> pair_verify \<Rightarrow> pair_verify \<times> (pairing_error, bytes) result" where
  "pair_verify_start L s =
     (if pvf_state s \<noteq> PS_Init then (s, Inl (PE_InvalidState (ascii ''Init'') (pairing_state_name (pvf_state s))))
      else (s\<lparr>pvf_state := PS_WaitingResponse\<rparr>,
            Inr (tlv_encode [(State, [1]), (PublicKey, x_public L (pvf_ephemeral_keypair s))])))"

definition pair_verify_process_m2 :: "crypto_lib \<Rightarrow> pair_verify \<Rightarrow> bytes \<Rightarrow> pair_verify step_outcome" where
  "pair_verify_process_m2 L s data =
     tlv_try s (tlv_decode data) (\<lambda>tlv.
     case tlv_get_error tlv of Some e \<Rightarrow> (s\<lparr>pvf_state := PS_Failed\<rparr>, Inl (PE_DeviceError e)) | None \<Rightarrow>
     tlv_try s (tlv_get_state tlv) (\<lambda>state.
     if state \<noteq> 2 then (s, Inl (wrong_message_state 2 state)) else
     tlv_try s (tlv_get_required tlv PublicKey) (\<lambda>device_ephemeral_bytes.
     tlv_try s (tlv_get_required tlv EncryptedData) (\<lambda>encrypted_data.
     crypto_try s (x25519_public_key_from_bytes device_ephemeral_bytes) (\<lambda>device_ephemeral.
     let our_public = x_public L (pvf_ephemeral_keypair s);
         shared = x25519_diffie_hellman L (pvf_ephemeral_keypair s) device_ephemeral in
     crypto_try s (hkdf_expand L (Some (ascii ''Pair-Verify-Encrypt-Salt'')) shared
       (ascii ''Pair-Verify-Encrypt-Info'') 32) (\<lambda>session_key.
     crypto_try s (cipher_new session_key) (\<lambda>cipher.
     crypto_try s (nonce_from_bytes (label_nonce ''PV-Msg02'')) (\<lambda>nonce.
     crypto_try s (cipher_decrypt (open_sealed L) cipher nonce encrypted_data) (\<lambda>decrypted.
     tlv_try s (tlv_decode decrypted) (\<lambda>device_tlv.
     tlv_try s (tlv_get_required device_tlv Identifier) (\<lambda>_.
     tlv_try s (tlv_get_required device_tlv Signature) (\<lambda>device_signature.
     crypto_try s (ed25519_signature_from_bytes L device_signature) (\<lambda>signature.
     crypto_try s (ed25519_verify L (pvf_device_ltpk s) (device_ephemeral_bytes @ our_public) signature) (\<lambda>_.
     crypto_try s (ed25519_keypair_from_bytes (pk_secret_key (pvf_our_keys s))) (\<lambda>our_keypair.
     let our_signature = ed25519_sign L our_keypair (our_public @ device_ephemeral_bytes);
         inner_tlv = tlv_encode [(Identifier, pk_identifier (pvf_our_keys s)), (Signature, our_signature)] in
     crypto_try s (nonce_from_bytes (label_nonce ''PV-Msg03'')) (\<lambda>nonce.
     crypto_try s (cipher_encrypt (seal L) cipher nonce inner_tlv) (\<lambda>encrypted.
       (s\<lparr>pvf_device_ephemeral := Some device_ephemeral, pvf_shared_secret := Some shared,
          pvf_session_key := Some session_key, pvf_state := PS_Verifying\<rparr>,
        Inr (Step_SendData (tlv_encode [(State, [3]), (EncryptedData, encrypted)]))))))))))))))))))))"

definition pair_verify_process_m4 :: "crypto_lib \<Rightarrow> pair_verify \<Rightarrow> bytes \<Rightarrow> pair_verify step_outcome" where
  "pair_verify_process_m4 L s data =
     tlv_try s (tlv_decode data) (\<lambda>tlv.
     case tlv_get_error tlv of
       Some e \<Rightarrow> (s\<lparr>pvf_state := PS_Failed\<rparr>, Inl (if e = 2 then PE_SignatureVerificationFailed else PE_DeviceError e))
     | None \<Rightarrow>
     tlv_try s (tlv_get_state tlv) (\<lambda>state.
     if state \<noteq> 4 then (s, Inl (wrong_message_state 4 state)) else
     attempt s (ok_or (pvf_shared_secret s) (PE_InvalidState (ascii ''shared_secret'') (ascii ''none''))) (\<lambda>shared_secret.
     crypto_try s (derive_session_keys L shared_secret shared_secret) (\<lambda>keys.
       (s\<lparr>pvf_final_session_keys := Some keys, pvf_state := PS_Complete\<rparr>, Inr (Step_Complete keys))))))"

definition pair_verify_step :: "crypto_lib \<Rightarrow> pair_verify \<Rightarrow> bytes option \<Rightarrow> pair_verify step_outcome option" where
  "pair_verify_step L s data =
     (case pvf_state s of
        PS_Init \<Rightarrow> Some (case pair_verify_start L s of (s', r) \<Rightarrow> attempt s' r (\<lambda>m1. (s', Inr (Step_SendData m1))))
      | PS_WaitingResponse \<Rightarrow> Some (attempt s (need_data data) (pair_verify_process_m2 L s))
      | PS_Verifying \<Rightarrow> Some (attempt s (need_data data) (pair_verify_process_m4 L s))
      | PS_Complete \<Rightarrow> map_option (\<lambda>keys. (s, Inr (Step_Complete keys))) (pvf_final_session_keys s)
      | PS_Failed \<Rightarrow> Some (s, Inl (PE_InvalidState (ascii ''not failed'') (ascii ''Failed'')))
      | _ \<Rightarrow> Some (s, Inr Step_NeedData))"

section \<open>Transient pairing\<close>

record transient_pairing =
  tp_state :: pairing_state
  tp_our_keypair :: bytes
  tp_signing_keypair :: bytes
  tp_device_public :: "bytes option"
  tp_shared_secret :: "bytes option"
  tp_session_keys :: "session_keys option"

definition transient_new :: "bytes \<Rightarrow> bytes \<Rightarrow> transient_pairing" where
  "transient_new our_keypair signing_keypair =
     \<lparr>tp_state = PS_Init, tp_our_keypair = our_keypair, tp_signing_keypair = signing_keypair,
      tp_device_public = None, tp_shared_secret = None, tp_session_keys = None\<rparr>"

definition transient_wrong_state :: "pairing_state \<Rightarrow> pairing_state \<Rightarrow> pairing_error" where
  "transient_wrong_state expected actual = PE_InvalidState (pairing_state_name expected) (pairing_state_name actual)"

definition transient_start :: "crypto_lib \<Rightarrow> transient_pairing \<Rightarrow> transient_pairing \<times> (pairing_error, bytes) result" where
  "transient_start L s =
     (if tp_state s \<noteq> PS_Init then (s, Inl (transient_wrong_state PS_Init (tp_state s)))
      else (s\<lparr>tp_state := PS_WaitingResponse\<rparr>,
            Inr (tlv_encode [(State, [1]), (Method, [0]), (PublicKey, x_public L (tp_our_keypair s))])))"

definition transient_process_m2 :: "crypto_lib \<Rightarrow> transient_pairing \<Rightarrow> bytes \<Rightarrow> transient_pairing step_outcome" where
  "transient_process_m2 L s data =
     (if tp_state s \<noteq> PS_WaitingResponse then (s, Inl (transient_wrong_state PS_WaitingResponse (tp_state s))) else
     tlv_try s (tlv_decode data) (\<lambda>tlv.
     case tlv_get_error tlv of Some e \<Rightarrow> (s\<lparr>tp_state := PS_Failed\<rparr>, Inl (PE_DeviceError e)) | None \<Rightarrow>
     tlv_try s (tlv_get_state tlv) (\<lambda>state.
     if state \<noteq> 2 then (s, Inl (wrong_message_state 2 state)) else
     tlv_try s (tlv_get_required tlv PublicKey) (\<lambda>device_pub_bytes.
     crypto_try s (x25519_public_key_from_bytes device_pub_bytes) (\<lambda>device_public.
     let shared_secret = x25519_diffie_hellman L (tp_our_keypair s) device_public in
     crypto_try s (hkdf_expand L (Some (ascii ''Pair-Verify-Encrypt-Salt'')) shared_secret
       (ascii ''Pair-Verify-Encrypt-Info'') 32) (\<lambda>session_key.
     let proof_data = x_public L (tp_our_keypair s) @ device_pub_bytes;
         signature = ed25519_sign L (tp_signing_keypair s) proof_data;
         inner_tlv = tlv_encode [(Identifier, ascii ''airplay2-rs''), (Signature, signature)] in
     crypto_try s (cipher_new session_key) (\<lambda>cipher.
     crypto_try s (nonce_from_bytes (replicate 12 0)) (\<lambda>nonce.
     crypto_try s (cipher_encrypt (seal L) cipher nonce inner_tlv) (\<lambda>encrypted.
       (s\<lparr>tp_device_public := Some device_public, tp_shared_secret := Some shared_secret, tp_state := PS_Verifying\<rparr>,
        Inr (Step_SendData (tlv_encode [(State, [3]), (EncryptedData, encrypted)]))))))))))))"

definition transient_process_m4 :: "crypto_lib \<Rightarrow> transient_pairing \<Rightarrow> bytes \<Rightarrow> transient_pairing step_outcome" where
  "transient_process_m4 L s data =
     (if tp_state s \<noteq> PS_Verifying then (s, Inl (transient_wrong_state PS_Verifying (tp_state s))) else
     tlv_try s (tlv_decode data) (\<lambda>tlv.
     case tlv_get_error tlv of Some e \<Rightarrow> (s\<lparr>tp_state := PS_Failed\<rparr>, Inl (PE_DeviceError e)) | None \<Rightarrow>
     tlv_try s (tlv_get_state tlv) (\<lambda>state.
     if state \<noteq> 4 then (s, Inl (wrong_message_state 4 state)) else
     attempt s (ok_or (tp_shared_secret s) (PE_InvalidState (ascii ''shared_secret set'') (ascii ''none''))) (\<lambda>shared_secret.
     crypto_try s (derive_session_keys L shared_secret shared_secret) (\<lambda>keys.
       (s\<lparr>tp_session_keys := Some keys, tp_state := PS_Complete\<rparr>, Inr (Step_Complete keys)))))))"

definition transient_step :: "crypto_lib \<Rightarrow> transient_pairing \<Rightarrow> bytes option \<Rightarrow> transient_pairing step_outcome option" where
  "transient_step L s data =
     (case tp_state s of
        PS_Init \<Rightarrow> Some (case transient_start L s of (s', r) \<Rightarrow> attempt s' r (\<lambda>m1. (s', Inr (Step_SendData m1))))
      | PS_WaitingResponse \<Rightarrow> Some (attempt s (need_data data) (transient_process_m2 L s))
      | PS_Verifying \<Rightarrow> Some (attempt s (need_data data) (transient_process_m4 L s))
      | PS_Complete \<Rightarrow> map_option (\<lambda>keys. (s, Inr (Step_Complete keys))) (tp_session_keys s)
      | PS_Failed \<Rightarrow> Some (s, Inl (PE_InvalidState (ascii ''not failed'') (ascii ''Failed'')))
      | _ \<Rightarrow> Some (s, Inr Step_NeedData))"

section \<open>Auth-setup\<close>

definition auth_setup_start :: "crypto_lib \<Rightarrow> bytes \<Rightarrow> bytes" where
  "auth_setup_start L keypair = 0x01 # x_public L keypair"

definition auth_setup_process_response :: "bytes \<Rightarrow> (pairing_error, unit) result" where
  "auth_setup_process_response data =
     (if length data < 32 then Inl (PE_AuthenticationFailed (ascii ''Auth-Setup response too short''))
      else if length data < 36 then Inl (PE_AuthenticationFailed (ascii ''Auth-Setup response missing cert length''))
      else let cert_len = unat (from_be (take 4 (drop 32 data)) :: u32) in
      if length data < 36 + cert_len
      then Inl (PE_AuthenticationFailed (ascii ''Auth-Setup response missing certificate data''))
      else if length data < 36 + cert_len + 4
      then Inl (PE_AuthenticationFailed (ascii ''Auth-Setup response missing signature length''))
      else let sig_len = unat (from_be (take 4 (drop (36 + cert_len) data)) :: u32) in
      if length data < 36 + cert_len + 4 + sig_len
      then Inl (PE_AuthenticationFailed (ascii ''Auth-Setup response missing signature data''))
      else Inr ())"

section \<open>Key store\<close>

type_synonym memory_storage = "str \<rightharpoonup> pairing_keys"

definition storage_load :: "memory_storage \<Rightarrow> str \<Rightarrow> pairing_keys option" where
  "storage_load st device_id = st device_id"

definition storage_save :: "memory_storage \<Rightarrow> str \<Rightarrow> pairing_keys \<Rightarrow> memory_storage" where
  "storage_save st device_id keys = st(device_id \<mapsto> keys)"

definition storage_remove :: "memory_storage \<Rightarrow> str \<Rightarrow> memory_storage" where
  "storage_remove st device_id = st(device_id := None)"

section \<open>Sessions\<close>

text \<open>A session driven by \<open>step\<close> with arbitrary inputs, and what its state promises.\<close>

primrec transient_run :: "crypto_lib \<Rightarrow> transient_pairing \<Rightarrow> bytes option list \<Rightarrow> transient_pairing option" where
  "transient_run L s [] = Some s"
| "transient_run L s (d # ds) = Option.bind (transient_step L s d) (\<lambda>(s', _). transient_run L s' ds)"

primrec pair_verify_run :: "crypto_lib \<Rightarrow> pair_verify \<Rightarrow> bytes option list \<Rightarrow> pair_verify option" where
  "pair_verify_run L s [] = Some s"
| "pair_verify_run L s (d # ds) = Option.bind (pair_verify_step L s d) (\<lambda>(s', _). pair_verify_run L s' ds)"

definition transient_wf :: "transient_pairing \<Rightarrow> bool" where
  "transient_wf s \<longleftrightarrow>
     (tp_state s = PS_Verifying \<longrightarrow> tp_shared_secret s \<noteq> None)
     \<and> (tp_state s = PS_Complete \<longleftrightarrow> tp_session_keys s \<noteq> None)
     \<and> tp_state s \<noteq> PS_SrpExchange \<and> tp_state s \<noteq> PS_KeyExchange"

definition pair_verify_wf :: "pair_verify \<Rightarrow> bool" where
  "pair_verify_wf s \<longleftrightarrow>
     (pvf_state s = PS_Verifying \<longrightarrow> pvf_shared_secret s \<noteq> None \<and> pvf_session_key s \<noteq> None)
     \<and> (pvf_state s = PS_Complete \<longleftrightarrow> pvf_final_session_keys s \<noteq> None)
     \<and> pvf_state s \<noteq> PS_SrpExchange \<and> pvf_state s \<noteq> PS_KeyExchange"

lemma attempt_wf:
  assumes "P s" and "\<And>x. r = Inr x \<Longrightarrow> P (fst (f x))"
  shows "P (fst (attempt s r f))"
  using assms by (cases r) auto

lemma if_wf: "(c \<Longrightarrow> P (fst a)) \<Longrightarrow> (\<not> c \<Longrightarrow> P (fst b)) \<Longrightarrow> P (fst (if c then a else b))"
  by simp

lemma error_wf: "(\<And>e. x = Some e \<Longrightarrow> P (fst (f e))) \<Longrightarrow> (x = None \<Longrightarrow> P (fst a)) \<Longrightarrow> P (fst (case x of Some e \<Rightarrow> f e | None \<Rightarrow> a))"
  by (cases x) auto

lemma let_wf: "P (fst (f x)) \<Longrightarrow> P (fst (let y = x in f y))"
  by simp

lemmas wf_rules = attempt_wf if_wf error_wf let_wf

lemma transient_step_wf:
  assumes "transient_wf s"
  shows "\<exists>r. transient_step L s d = Some r \<and> transient_wf (fst r)"
proof -
  note rules = wf_rules [where P = transient_wf]
  have m2: "transient_wf (fst (transient_process_m2 L s x))" if "tp_state s = PS_WaitingResponse" for x
    unfolding transient_process_m2_def
    by (intro rules) (use assms that in \<open>auto simp: transient_wf_def\<close>)
  have m4: "transient_wf (fst (transient_process_m4 L s x))" if "tp_state s = PS_Verifying" for x
    unfolding transient_process_m4_def
    by (intro rules) (use assms that in \<open>auto simp: transient_wf_def\<close>)
  show ?thesis
  proof (cases "tp_state s")
    case PS_WaitingResponse
    then show ?thesis using m2 assms by (cases d) (simp_all add: transient_step_def need_data_def)
  next
    case PS_Verifying
    then show ?thesis using m4 assms by (cases d) (simp_all add: transient_step_def need_data_def)
  qed (use assms in \<open>auto simp: transient_step_def transient_start_def transient_wf_def\<close>)
qed

lemma pair_verify_step_wf:
  assumes "pair_verify_wf s"
  shows "\<exists>r. pair_verify_step L s d = Some r \<and> pair_verify_wf (fst r)"
proof -
  note rules = wf_rules [where P = pair_verify_wf]
  have m2: "pair_verify_wf (fst (pair_verify_process_m2 L s x))" if "pvf_state s = PS_WaitingResponse" for x
    unfolding pair_verify_process_m2_def
    by (intro rules) (use assms that in \<open>auto simp: pair_verify_wf_def\<close>)
  have m4: "pair_verify_wf (fst (pair_verify_process_m4 L s x))" if "pvf_state s = PS_Verifying" for x
    unfolding pair_verify_process_m4_def
    by (intro rules) (use assms that in \<open>auto simp: pair_verify_wf_def\<close>)
  show ?thesis
  proof (cases "pvf_state s")
    case PS_WaitingResponse
    then show ?thesis using m2 assms by (cases d) (simp_all add: pair_verify_step_def need_data_def)
  next
    case PS_Verifying
    then show ?thesis using m4 assms by (cases d) (simp_all add: pair_verify_step_def need_data_def)
  qed (use assms in \<open>auto simp: pair_verify_step_def pair_verify_start_def pair_verify_wf_def\<close>)
qed

section \<open>Properties\<close>

text \<open>
  C30. Client sessions stay well formed: whatever inputs \<open>step\<close> is given, in whatever number, a
  transient or pair-verify session is complete exactly when it holds session keys, is
  verifying only with a shared secret, and never panics, so the \<open>unwrap\<close> of the stored keys in
  the complete state cannot fail.
\<close>

theorem pairing_sessions_well_formed:
  assumes "pair_verify_new L our_keys device_ltpk ephemeral = Inr pv"
  shows "(\<exists>t. transient_run L (transient_new keypair signing) inputs = Some t \<and> transient_wf t)
    \<and> (\<exists>v. pair_verify_run L pv inputs = Some v \<and> pair_verify_wf v)"
proof
  have "transient_wf s \<Longrightarrow> \<exists>t. transient_run L s inputs = Some t \<and> transient_wf t" for s
  proof (induction inputs arbitrary: s)
    case (Cons d ds)
    obtain s' r where "transient_step L s d = Some (s', r)" "transient_wf s'"
      using transient_step_wf [OF Cons.prems, of L d] by auto
    then show ?case using Cons.IH by simp
  qed simp
  then show "\<exists>t. transient_run L (transient_new keypair signing) inputs = Some t \<and> transient_wf t"
    by (simp add: transient_wf_def transient_new_def)
  have "pair_verify_wf s \<Longrightarrow> \<exists>v. pair_verify_run L s inputs = Some v \<and> pair_verify_wf v" for s
  proof (induction inputs arbitrary: s)
    case (Cons d ds)
    obtain s' r where "pair_verify_step L s d = Some (s', r)" "pair_verify_wf s'"
      using pair_verify_step_wf [OF Cons.prems, of L d] by auto
    then show ?case using Cons.IH by simp
  qed simp
  moreover have "pair_verify_wf pv" using assms by (auto simp: pair_verify_wf_def pair_verify_new_def)
  ultimately show "\<exists>v. pair_verify_run L pv inputs = Some v \<and> pair_verify_wf v" by blast
qed

theorem pairing_sessions_well_formed_witness:
  "\<exists>v. pair_verify_run demo_lib
      \<lparr>pvf_state = PS_Init, pvf_our_keys = \<lparr>pk_identifier = [], pk_secret_key = [], pk_public_key = [], pk_device_public_key = []\<rparr>,
       pvf_device_ltpk = replicate 32 0, pvf_ephemeral_keypair = [1], pvf_device_ephemeral = None,
       pvf_shared_secret = None, pvf_session_key = None, pvf_final_session_keys = None\<rparr>
      [None, Some [6, 1, 2], None] = Some v \<and> pair_verify_wf v"
  by (rule conjunct2 [OF pairing_sessions_well_formed [where device_ltpk = "replicate 32 0"]])
     (simp add: pair_verify_new_def ed25519_public_key_from_bytes_def demo_lib_def)

end
