(* ===== verification/Pairing_Server.thy ===== *)
theory Pairing_Server
  imports Pairing_Client
begin

text \<open>
  The receiver's pairing server, \<open>src/receiver/ap2/pairing_server.rs\<close>, and its composition with
  the client protocols. A message handler returns the updated server with the result to
  send; \<open>None\<close> is a panic (a failed \<open>expect\<close>). The salt, the SRP exponent and the ephemeral
  X25519 secret, which the code draws at random, are arguments.
\<close>

section \<open>State\<close>

datatype pairing_server_state =
    Srv_Idle | Srv_WaitingForM3 | Srv_PairSetupComplete | Srv_VerifyWaitingForM3 | Srv_Complete | Srv_Error

datatype server_pairing_error =
    SE_TlvDecode
  | SE_UnexpectedState u8
  | SE_InvalidState
  | SE_UnsupportedMethod u8
  | SE_NoPassword
  | SE_MissingField string
  | SE_AuthenticationFailed
  | SE_DecryptionFailed
  | SE_SignatureVerificationFailed

record encryption_keys =
  ek_encrypt_key :: bytes
  ek_decrypt_key :: bytes
  ek_encrypt_nonce :: u64
  ek_decrypt_nonce :: u64

record pairing_server =
  srv_identity :: bytes
  srv_srp_verifier :: "bytes option"
  srv_srp_salt :: bytes
  srv_state :: pairing_server_state
  srv_srp_server :: "srp_server option"
  srv_srp_session_key :: "bytes option"
  srv_verify_keypair :: "bytes option"
  srv_shared_secret :: "bytes option"
  srv_encryption_keys :: "encryption_keys option"
  srv_client_public_key :: "bytes option"
  srv_client_curve_public :: "bytes option"

record pairing_result =
  pr_response :: bytes
  pr_new_state :: pairing_server_state
  pr_error :: "server_pairing_error option"
  pr_complete :: bool

definition pairing_server_new :: "bytes \<Rightarrow> bytes \<Rightarrow> pairing_server" where
  "pairing_server_new identity srp_salt =
     \<lparr>srv_identity = identity, srv_srp_verifier = None, srv_srp_salt = srp_salt, srv_state = Srv_Idle,
      srv_srp_server = None, srv_srp_session_key = None, srv_verify_keypair = None,
      srv_shared_secret = None, srv_encryption_keys = None, srv_client_public_key = None,
      srv_client_curve_public = None\<rparr>"

definition pairing_server_set_password :: "crypto_lib \<Rightarrow> pairing_server \<Rightarrow> str \<Rightarrow> pairing_server" where
  "pairing_server_set_password L s password =
     s\<lparr>srv_srp_verifier := Some (compute_verifier L (ascii ''Pair-Setup'') password (srv_srp_salt s) RFC5054_3072)\<rparr>"

definition pairing_server_reset :: "pairing_server \<Rightarrow> pairing_server" where
  "pairing_server_reset s =
     s\<lparr>srv_state := Srv_Idle, srv_srp_server := None, srv_srp_session_key := None, srv_verify_keypair := None,
       srv_shared_secret := None, srv_encryption_keys := None, srv_client_public_key := None,
       srv_client_curve_public := None\<rparr>"

definition error_result :: "pairing_server \<Rightarrow> server_pairing_error \<Rightarrow> pairing_server \<times> pairing_result" where
  "error_result s e =
     (let error_code = (case e of SE_AuthenticationFailed \<Rightarrow> 2 | SE_InvalidState \<Rightarrow> 6 | _ \<Rightarrow> 1)
      in (s\<lparr>srv_state := Srv_Error\<rparr>,
          \<lparr>pr_response = tlv_encode [(State, [0]), (ErrorT, [error_code])], pr_new_state = Srv_Error,
           pr_error = Some e, pr_complete = False\<rparr>))"

type_synonym server_outcome = "(pairing_server \<times> pairing_result) option"

text \<open>\<open>let Some(x) = ... else { return self.error_result(e) }\<close>, for options and results.\<close>

definition or_error :: "pairing_server \<Rightarrow> server_pairing_error \<Rightarrow> 'a option \<Rightarrow> ('a \<Rightarrow> server_outcome) \<Rightarrow> server_outcome" where
  "or_error s e x f = (case x of None \<Rightarrow> Some (error_result s e) | Some y \<Rightarrow> f y)"

definition ok :: "('e, 'a) result \<Rightarrow> 'a option" where
  "ok r = (case r of Inl _ \<Rightarrow> None | Inr x \<Rightarrow> Some x)"

section \<open>Helpers\<close>

definition build_accessory_info :: "crypto_lib \<Rightarrow> pairing_server \<Rightarrow> bytes \<Rightarrow> bytes" where
  "build_accessory_info L s session_key = sha512 L session_key @ ed_public L (srv_identity s)"

definition prefix_nonce :: "bytes \<Rightarrow> bytes" where
  "prefix_nonce nonce_prefix = take 12 nonce_prefix @ replicate (12 - length nonce_prefix) 0"

definition encrypt_with_key :: "crypto_lib \<Rightarrow> bytes \<Rightarrow> bytes \<Rightarrow> bytes \<Rightarrow> bytes option" where
  "encrypt_with_key L data key nonce_prefix =
     Option.bind (ok (nonce_from_bytes (prefix_nonce nonce_prefix))) (\<lambda>nonce.
     Option.bind (ok (cipher_new key)) (\<lambda>cipher. ok (cipher_encrypt (seal L) cipher nonce data)))"

definition decrypt_with_key ::
    "crypto_lib \<Rightarrow> bytes \<Rightarrow> bytes \<Rightarrow> bytes \<Rightarrow> (server_pairing_error, bytes) result option" where
  "decrypt_with_key L data key nonce_prefix =
     Option.bind (ok (nonce_from_bytes (prefix_nonce nonce_prefix))) (\<lambda>nonce.
       Some (map_err (\<lambda>_. SE_DecryptionFailed)
         (result_bind (cipher_new key) (\<lambda>cipher. cipher_decrypt (open_sealed L) cipher nonce data))))"

definition encrypt_accessory_data :: "crypto_lib \<Rightarrow> bytes \<Rightarrow> bytes \<Rightarrow> bytes \<Rightarrow> bytes option" where
  "encrypt_accessory_data L identity info key =
     (let signature = ed25519_sign L identity info;
          sub_tlv = tlv_encode [(Identifier, ed_public L identity), (Signature, signature)]
      in encrypt_with_key L sub_tlv key (ascii ''PS-Msg04''))"

definition derive_session_keys_from_srp :: "crypto_lib \<Rightarrow> bytes \<Rightarrow> encryption_keys option" where
  "derive_session_keys_from_srp L secret =
     Option.bind (ok (derive_key L (Some (ascii ''Control-Salt'')) secret (ascii ''Control-Write-Encryption-Key'') 32)) (\<lambda>encrypt_key.
     Option.bind (ok (derive_key L (Some (ascii ''Control-Salt'')) secret (ascii ''Control-Read-Encryption-Key'') 32)) (\<lambda>decrypt_key.
     if length encrypt_key \<noteq> 32 \<or> length decrypt_key \<noteq> 32 then None
     else Some \<lparr>ek_encrypt_key = encrypt_key, ek_decrypt_key = decrypt_key, ek_encrypt_nonce = 0, ek_decrypt_nonce = 0\<rparr>))"

section \<open>Pair-setup\<close>

definition handle_pair_setup_m1 :: "crypto_lib \<Rightarrow> pairing_server \<Rightarrow> nat \<Rightarrow> tlv_items \<Rightarrow> server_outcome" where
  "handle_pair_setup_m1 L s0 random tlv =
     (let s = (if srv_state s0 \<noteq> Srv_Idle then pairing_server_reset s0 else s0) in
      or_error s (SE_UnsupportedMethod 0) (tlv_get tlv Method) (\<lambda>method_bytes.
      let method = (case method_bytes of [] \<Rightarrow> 0 | b # _ \<Rightarrow> b) in
      if method \<noteq> 0 then Some (error_result s (SE_UnsupportedMethod method)) else
      or_error s SE_NoPassword (srv_srp_verifier s) (\<lambda>verifier.
      let srp_server = srp_server_new L verifier RFC5054_3072 random;
          response = tlv_encode [(State, [2]), (Salt, srv_srp_salt s), (PublicKey, ss_public_key srp_server)];
          s' = s\<lparr>srv_srp_server := Some srp_server, srv_state := Srv_WaitingForM3\<rparr>
      in Some (s', \<lparr>pr_response = response, pr_new_state = srv_state s', pr_error = None, pr_complete = False\<rparr>))))"

definition handle_pair_setup_m3 :: "crypto_lib \<Rightarrow> pairing_server \<Rightarrow> tlv_items \<Rightarrow> server_outcome" where
  "handle_pair_setup_m3 L s0 tlv =
     (if srv_state s0 \<noteq> Srv_WaitingForM3 then Some (error_result s0 SE_InvalidState)
      else let s = s0\<lparr>srv_srp_server := None\<rparr> in
      or_error s SE_InvalidState (srv_srp_server s0) (\<lambda>srp_server.
      or_error s (SE_MissingField ''PublicKey'') (tlv_get tlv PublicKey) (\<lambda>client_public.
      or_error s (SE_MissingField ''Proof'') (tlv_get tlv Proof) (\<lambda>client_proof.
      or_error s SE_AuthenticationFailed
        (ok (verify_client L srp_server (ascii ''Pair-Setup'') (srv_srp_salt s) client_public client_proof))
        (\<lambda>(session_key, server_proof).
      or_error s SE_DecryptionFailed
        (ok (derive_key L (Some (ascii ''Pair-Setup-Encrypt-Salt'')) session_key (ascii ''Pair-Setup-Encrypt-Info'') 32)) (\<lambda>enc_key.
      let accessory_info = build_accessory_info L s session_key in
      Option.bind (encrypt_accessory_data L (srv_identity s) accessory_info enc_key) (\<lambda>encrypted_data.
      let response = tlv_encode [(State, [4]), (Proof, server_proof), (EncryptedData, encrypted_data)] in
      if length session_key \<noteq> 64 then None else
      let s' = s\<lparr>srv_srp_session_key := Some session_key, srv_state := Srv_PairSetupComplete\<rparr> in
      Option.bind (derive_session_keys_from_srp L session_key) (\<lambda>enc_keys.
      Some (s'\<lparr>srv_encryption_keys := Some enc_keys\<rparr>,
            \<lparr>pr_response = response, pr_new_state = srv_state s', pr_error = None, pr_complete = True\<rparr>)))))))))"

definition process_pair_setup :: "crypto_lib \<Rightarrow> pairing_server \<Rightarrow> nat \<Rightarrow> bytes \<Rightarrow> server_outcome" where
  "process_pair_setup L s random data =
     (case tlv_decode data of
        Inl _ \<Rightarrow> Some (error_result s SE_TlvDecode)
      | Inr tlv \<Rightarrow>
          (let state = (case tlv_get_state tlv of Inl _ \<Rightarrow> 0 | Inr st \<Rightarrow> st) in
           if state = 1 then handle_pair_setup_m1 L s random tlv
           else if state = 3 then handle_pair_setup_m3 L s tlv
           else Some (error_result s (SE_UnexpectedState state))))"

section \<open>Pair-verify\<close>

definition handle_pair_verify_m1 :: "crypto_lib \<Rightarrow> pairing_server \<Rightarrow> bytes \<Rightarrow> tlv_items \<Rightarrow> server_outcome" where
  "handle_pair_verify_m1 L s0 keypair tlv =
     (let s = (if srv_state s0 \<noteq> Srv_PairSetupComplete \<and> srv_state s0 \<noteq> Srv_Idle then pairing_server_reset s0 else s0) in
      or_error s (SE_MissingField ''PublicKey'') (tlv_get tlv PublicKey) (\<lambda>client_public_bytes.
      if length client_public_bytes \<noteq> 32 then Some (error_result s (SE_MissingField ''PublicKey'')) else
      or_error s SE_InvalidState (ok (x25519_public_key_from_bytes client_public_bytes)) (\<lambda>client_public.
      let s1 = s\<lparr>srv_client_curve_public := Some client_public_bytes\<rparr>;
          public = x_public L keypair;
          shared_secret = x25519_diffie_hellman L keypair client_public in
      or_error s1 SE_DecryptionFailed
        (ok (derive_key L (Some (ascii ''Pair-Verify-Encrypt-Salt'')) shared_secret (ascii ''Pair-Verify-Encrypt-Info'') 32)) (\<lambda>session_key.
      let accessory_info = public @ ed_public L (srv_identity s1) @ client_public;
          signature = ed25519_sign L (srv_identity s1) accessory_info;
          sub_tlv = tlv_encode [(Identifier, ed_public L (srv_identity s1)), (Signature, signature)] in
      Option.bind (encrypt_with_key L sub_tlv session_key (ascii ''PV-Msg02'')) (\<lambda>encrypted.
      let response = tlv_encode [(State, [2]), (PublicKey, public), (EncryptedData, encrypted)];
          s2 = s1\<lparr>srv_verify_keypair := Some keypair, srv_shared_secret := Some shared_secret,
                  srv_state := Srv_VerifyWaitingForM3\<rparr>
      in Some (s2, \<lparr>pr_response = response, pr_new_state = srv_state s2, pr_error = None, pr_complete = False\<rparr>))))))"

definition handle_pair_verify_m3 :: "crypto_lib \<Rightarrow> pairing_server \<Rightarrow> tlv_items \<Rightarrow> server_outcome" where
  "handle_pair_verify_m3 L s tlv =
     (if srv_state s \<noteq> Srv_VerifyWaitingForM3 then Some (error_result s SE_InvalidState) else
      or_error s SE_InvalidState (srv_shared_secret s) (\<lambda>shared_secret.
      or_error s (SE_MissingField ''EncryptedData'') (tlv_get tlv EncryptedData) (\<lambda>encrypted_data.
      or_error s SE_DecryptionFailed
        (ok (derive_key L (Some (ascii ''Pair-Verify-Encrypt-Salt'')) shared_secret (ascii ''Pair-Verify-Encrypt-Info'') 32)) (\<lambda>session_key.
      Option.bind (decrypt_with_key L encrypted_data session_key (ascii ''PV-Msg03'')) (\<lambda>decryption.
      or_error s SE_DecryptionFailed (ok decryption) (\<lambda>decrypted.
      or_error s SE_TlvDecode (ok (tlv_decode decrypted)) (\<lambda>sub_tlv.
      or_error s (SE_MissingField ''Identifier'') (tlv_get sub_tlv Identifier) (\<lambda>client_id.
      if length client_id \<noteq> 32 then Some (error_result s (SE_MissingField ''Identifier'')) else
      or_error s (SE_MissingField ''Signature'') (tlv_get sub_tlv Signature) (\<lambda>client_signature.
      or_error s SE_InvalidState (srv_client_curve_public s) (\<lambda>client_curve_public.
      or_error s SE_InvalidState (srv_verify_keypair s) (\<lambda>verify_keypair.
      let verify_info = client_curve_public @ client_id @ x_public L verify_keypair in
      or_error s SE_AuthenticationFailed (ok (ed25519_public_key_from_bytes L client_id)) (\<lambda>client_identity.
      or_error s SE_SignatureVerificationFailed (ok (ed25519_signature_from_bytes L client_signature)) (\<lambda>signature.
      or_error s SE_SignatureVerificationFailed (ok (ed25519_verify L client_identity verify_info signature)) (\<lambda>_.
      Option.bind (derive_session_keys_from_srp L shared_secret) (\<lambda>enc_keys.
      let s' = s\<lparr>srv_client_public_key := Some client_id, srv_encryption_keys := Some enc_keys, srv_state := Srv_Complete\<rparr>
      in Some (s', \<lparr>pr_response = tlv_encode [(State, [4])], pr_new_state = srv_state s', pr_error = None,
                    pr_complete = True\<rparr>))))))))))))))))"

definition process_pair_verify :: "crypto_lib \<Rightarrow> pairing_server \<Rightarrow> bytes \<Rightarrow> bytes \<Rightarrow> server_outcome" where
  "process_pair_verify L s keypair data =
     (case tlv_decode data of
        Inl _ \<Rightarrow> Some (error_result s SE_TlvDecode)
      | Inr tlv \<Rightarrow>
          (let state = (case tlv_get_state tlv of Inl _ \<Rightarrow> 0 | Inr st \<Rightarrow> st) in
           if state = 1 then handle_pair_verify_m1 L s keypair tlv
           else if state = 3 then handle_pair_verify_m3 L s tlv
           else Some (error_result s (SE_UnexpectedState state))))"

section \<open>Runs of the server\<close>

text \<open>What a receiver does with its pairing server, with the random values drawn by each call.\<close>

datatype server_call =
    Call_PairSetup nat bytes
  | Call_PairVerify bytes bytes
  | Call_SetPassword str
  | Call_Reset

fun server_do :: "crypto_lib \<Rightarrow> pairing_server \<Rightarrow> server_call \<Rightarrow> pairing_server option" where
  "server_do L s (Call_PairSetup random data) = map_option fst (process_pair_setup L s random data)"
| "server_do L s (Call_PairVerify keypair data) = map_option fst (process_pair_verify L s keypair data)"
| "server_do L s (Call_SetPassword password) = Some (pairing_server_set_password L s password)"
| "server_do L s Call_Reset = Some (pairing_server_reset s)"

primrec server_run :: "crypto_lib \<Rightarrow> pairing_server \<Rightarrow> server_call list \<Rightarrow> pairing_server option" where
  "server_run L s [] = Some s"
| "server_run L s (call # calls) = Option.bind (server_do L s call) (\<lambda>s'. server_run L s' calls)"

text \<open>What each state promises about the data of the session.\<close>

definition server_inv :: "crypto_lib \<Rightarrow> pairing_server \<Rightarrow> bool" where
  "server_inv L s \<longleftrightarrow>
     (case srv_state s of
        Srv_WaitingForM3 \<Rightarrow> \<exists>v r. srv_srp_server s = Some (srp_server_new L v RFC5054_3072 r)
      | Srv_PairSetupComplete \<Rightarrow>
          \<exists>key. length key = 64 \<and> srv_srp_session_key s = Some key \<and> srv_encryption_keys s = derive_session_keys_from_srp L key
      | Srv_VerifyWaitingForM3 \<Rightarrow>
          \<exists>kp pk. srv_verify_keypair s = Some kp \<and> srv_client_curve_public s = Some pk
            \<and> srv_shared_secret s = Some (x25519_diffie_hellman L kp pk)
      | Srv_Complete \<Rightarrow>
          \<exists>kp pk client_id signature. srv_verify_keypair s = Some kp \<and> srv_client_curve_public s = Some pk
            \<and> srv_client_public_key s = Some client_id \<and> ed_check L client_id (pk @ client_id @ x_public L kp) signature
            \<and> srv_encryption_keys s = derive_session_keys_from_srp L (x25519_diffie_hellman L kp pk)
      | _ \<Rightarrow> True)
     \<and> (\<forall>keys. srv_encryption_keys s = Some keys \<longrightarrow> length (ek_encrypt_key keys) = 32 \<and> length (ek_decrypt_key keys) = 32)"

definition good_outcome :: "crypto_lib \<Rightarrow> server_outcome \<Rightarrow> bool" where
  "good_outcome L out \<longleftrightarrow>
     (\<exists>s r. out = Some (s, r) \<and> server_inv L s \<and> pr_new_state r = srv_state s
        \<and> (pr_error r \<noteq> None \<longleftrightarrow> srv_state s = Srv_Error) \<and> (pr_complete r \<longrightarrow> srv_encryption_keys s \<noteq> None))"

abbreviation keys_sized :: "pairing_server \<Rightarrow> bool" where
  "keys_sized s \<equiv> \<forall>keys. srv_encryption_keys s = Some keys \<longrightarrow> length (ek_encrypt_key keys) = 32 \<and> length (ek_decrypt_key keys) = 32"

lemma good_error [intro!]: "keys_sized s \<Longrightarrow> good_outcome L (Some (error_result s e))"
  by (simp add: good_outcome_def error_result_def server_inv_def Let_def)

lemma good_or_error [intro!]:
  "keys_sized s \<Longrightarrow> (\<And>y. x = Some y \<Longrightarrow> good_outcome L (f y)) \<Longrightarrow> good_outcome L (or_error s e x f)"
  by (auto simp: or_error_def split: option.splits)

lemma good_if [intro!]:
  "(c \<Longrightarrow> good_outcome L a) \<Longrightarrow> (\<not> c \<Longrightarrow> good_outcome L b) \<Longrightarrow> good_outcome L (if c then a else b)"
  by simp

lemma good_result:
  assumes "server_inv L s" and "pr_new_state r = srv_state s" and "srv_state s \<noteq> Srv_Error" and "pr_error r = None"
    and "pr_complete r \<Longrightarrow> srv_encryption_keys s \<noteq> None"
  shows "good_outcome L (Some (s, r))"
  using assms by (simp add: good_outcome_def)

lemma good_bind:
  "\<exists>y. x = Some y \<Longrightarrow> (\<And>y. x = Some y \<Longrightarrow> good_outcome L (f y)) \<Longrightarrow> good_outcome L (Option.bind x f)"
  by auto

lemmas good_rules = good_or_error good_if good_error good_bind

lemma ok_Some [simp]: "ok r = Some x \<longleftrightarrow> r = Inr x" "ok r = None \<longleftrightarrow> (\<exists>e. r = Inl e)"
  by (auto simp: ok_def split: sum.splits)

lemma ascii_length [simp]: "length (ascii s) = length s"
  by (simp add: ascii_def)

lemma prefix_nonce_length [simp]: "length (prefix_nonce n) = 12"
  by (simp add: prefix_nonce_def)

lemma nonce_from_prefix [simp]: "nonce_from_bytes (prefix_nonce n) = Inr (prefix_nonce n)"
  by (simp add: nonce_from_bytes_def)

lemma derive_key_length:
  "crypto_correct L \<Longrightarrow> n \<le> 255 * 64 \<Longrightarrow> derive_key L salt ikm info n = Inr k \<Longrightarrow> length k = n"
  using hkdf_expand_ok [of L n salt ikm info] by (auto simp: derive_key_def)

lemma session_keys_exist: "crypto_correct L \<Longrightarrow> \<exists>keys. derive_session_keys_from_srp L secret = Some keys"
  using hkdf_expand_ok [of L 32 "Some (ascii ''Control-Salt'')" secret "ascii ''Control-Write-Encryption-Key''"]
    hkdf_expand_ok [of L 32 "Some (ascii ''Control-Salt'')" secret "ascii ''Control-Read-Encryption-Key''"]
  by (auto simp: derive_session_keys_from_srp_def derive_key_def ok_def)

lemma session_keys_sized:
  "derive_session_keys_from_srp L secret = Some keys \<Longrightarrow>
   length (ek_encrypt_key keys) = 32 \<and> length (ek_decrypt_key keys) = 32"
  by (auto simp: derive_session_keys_from_srp_def bind_eq_Some_conv split: if_splits)

lemma srp_session_key_length:
  "crypto_correct L \<Longrightarrow> verify_client L srv u salt a p = Inr kp \<Longrightarrow> length (fst kp) = 64"
  by (auto simp: verify_client_def Let_def sha512_length split: if_splits)

lemma encrypt_with_key_ok:
  assumes "crypto_correct L" and "length key = 32" and "length data \<le> 65535"
  shows "\<exists>c. encrypt_with_key L data key np = Some c \<and> length c = length data + 16
    \<and> cipher_decrypt (open_sealed L) key (prefix_nonce np) c = Inr data"
  using cipher_roundtrip [OF assms(1, 2) prefix_nonce_length [of np] assms(3)]
  by (auto simp: encrypt_with_key_def cipher_new_ok assms(2) ok_def)

lemma identity_tlv_length:
  "crypto_correct L \<Longrightarrow>
   length (tlv_encode [(Identifier, ed_public L sk), (Signature, ed25519_sign L sk m)]) = 100"
  by (simp add: length_tlv_encode_Cons crypto_correct_def ed25519_sign_def)

lemma encrypt_identity_ok:
  assumes "crypto_correct L" and "length key = 32"
  shows "\<exists>c. encrypt_with_key L (tlv_encode [(Identifier, ed_public L sk), (Signature, ed25519_sign L sk m)]) key np = Some c"
proof -
  have "length (tlv_encode [(Identifier, ed_public L sk), (Signature, ed25519_sign L sk m)]) \<le> 65535"
    using identity_tlv_length [OF assms(1)] by simp
  from encrypt_with_key_ok [OF assms this] show ?thesis by blast
qed

lemma reset_inv: "server_inv L (pairing_server_reset s)"
  by (simp add: server_inv_def pairing_server_reset_def)

lemma reset_sized [simp]: "keys_sized (pairing_server_reset s)"
  by (simp add: pairing_server_reset_def)

lemma handle_pair_setup_m1_good:
  assumes "server_inv L s"
  shows "good_outcome L (handle_pair_setup_m1 L s random tlv)"
proof -
  let ?s = "if srv_state s \<noteq> Srv_Idle then pairing_server_reset s else s"
  have "keys_sized ?s" using assms by (simp add: server_inv_def)
  then show ?thesis unfolding handle_pair_setup_m1_def Let_def
    by (intro good_or_error good_if good_error good_result) (auto simp: server_inv_def)
qed

lemma handle_pair_setup_m3_good:
  assumes "crypto_correct L" and "server_inv L s"
  shows "good_outcome L (handle_pair_setup_m3 L s tlv)"
proof -
  have sized: "keys_sized s" using assms(2) by (simp add: server_inv_def)
  have acc: "\<exists>d. encrypt_accessory_data L identity info key = Some d"
    if "derive_key L salt ikm inf 32 = Inr key" for identity info key salt ikm inf
    using encrypt_identity_ok [OF assms(1)] derive_key_length [OF assms(1) _ that]
    unfolding encrypt_accessory_data_def Let_def by simp
  show ?thesis unfolding handle_pair_setup_m3_def Let_def case_prod_beta
    by (intro good_rules good_result)
       (use sized acc srp_session_key_length [OF assms(1)] session_keys_exist [OF assms(1)] session_keys_sized
        in \<open>auto simp: server_inv_def\<close>)
qed

lemma handle_pair_verify_m1_good:
  assumes "crypto_correct L" and "server_inv L s"
  shows "good_outcome L (handle_pair_verify_m1 L s keypair tlv)"
proof -
  let ?s = "if srv_state s \<noteq> Srv_PairSetupComplete \<and> srv_state s \<noteq> Srv_Idle then pairing_server_reset s else s"
  have sized: "keys_sized ?s" using assms(2) by (simp add: server_inv_def)
  have enc: "\<exists>c. encrypt_with_key L (tlv_encode [(Identifier, ed_public L sk), (Signature, ed25519_sign L sk m)]) key np = Some c"
    if "derive_key L salt ikm info 32 = Inr key" for salt ikm info key sk m np
    using encrypt_identity_ok [OF assms(1)] derive_key_length [OF assms(1) _ that] by simp
  have pk: "x25519_public_key_from_bytes b = Inr y \<Longrightarrow> y = b" for b y
    by (simp add: x25519_public_key_from_bytes_def split: if_splits)
  show ?thesis unfolding handle_pair_verify_m1_def Let_def
    by (intro good_rules good_result) (use sized enc in \<open>auto simp: server_inv_def dest!: pk\<close>)
qed

lemma handle_pair_verify_m3_good:
  assumes "crypto_correct L" and "server_inv L s"
  shows "good_outcome L (handle_pair_verify_m3 L s tlv)"
proof -
  have sized: "keys_sized s" using assms(2) by (simp add: server_inv_def)
  have pk: "ed25519_public_key_from_bytes L b = Inr y \<Longrightarrow> y = b" for b y
    by (simp add: ed25519_public_key_from_bytes_def split: if_splits)
  have dec: "\<exists>d. decrypt_with_key L data key np = Some d" for data key np
    by (simp add: decrypt_with_key_def ok_def)
  have ver: "ed25519_verify L k m sg = Inr () \<Longrightarrow> ed_check L k m sg" for k m sg
    by (simp add: ed25519_verify_def split: if_splits)
  show ?thesis unfolding handle_pair_verify_m3_def Let_def
    by (intro good_rules good_result)
       (use sized pk dec assms(2) session_keys_exist [OF assms(1)] session_keys_sized
        in \<open>auto simp: server_inv_def dest!: ver\<close>)
qed

lemma process_good:
  assumes "crypto_correct L" and "server_inv L s"
  shows "good_outcome L (process_pair_setup L s random data)" "good_outcome L (process_pair_verify L s keypair data)"
proof -
  have sized: "keys_sized s" using assms(2) by (simp add: server_inv_def)
  show "good_outcome L (process_pair_setup L s random data)"
    using handle_pair_setup_m1_good handle_pair_setup_m3_good assms sized
    by (auto simp: process_pair_setup_def Let_def split: sum.split)
  show "good_outcome L (process_pair_verify L s keypair data)"
    using handle_pair_verify_m1_good handle_pair_verify_m3_good assms sized
    by (auto simp: process_pair_verify_def Let_def split: sum.split)
qed

lemma server_do_good:
  assumes "crypto_correct L" and "server_inv L s"
  shows "\<exists>s'. server_do L s call = Some s' \<and> server_inv L s'"
proof (cases call)
  case (Call_PairSetup random data)
  then show ?thesis using process_good(1) [OF assms, of random data] by (auto simp: good_outcome_def)
next
  case (Call_PairVerify keypair data)
  then show ?thesis using process_good(2) [OF assms, of keypair data] by (auto simp: good_outcome_def)
next
  case (Call_SetPassword password)
  then show ?thesis
    using assms(2) by (auto simp: server_inv_def pairing_server_set_password_def split: pairing_server_state.splits)
qed (simp add: reset_inv)

lemma error_result_state: "error_result s e = (s', r) \<Longrightarrow> srv_state s' = Srv_Error"
  by (auto simp: error_result_def Let_def)

lemma or_error_ok:
  "srv_state s' \<noteq> Srv_Error \<Longrightarrow>
   or_error s e x f = Some (s', r) \<longleftrightarrow> (\<exists>y. x = Some y \<and> f y = Some (s', r))"
  by (auto simp: or_error_def error_result_state split: option.splits)

lemma pair_setup_m1_state:
  "handle_pair_setup_m1 L s random tlv = Some (s', r) \<Longrightarrow> srv_state s' = Srv_WaitingForM3 \<or> srv_state s' = Srv_Error"
  by (cases "srv_state s' = Srv_Error")
     (auto simp: handle_pair_setup_m1_def Let_def or_error_ok dest: error_result_state split: if_splits)

lemma pair_setup_m3_state:
  assumes "handle_pair_setup_m3 L s tlv = Some (s', r)" and "srv_state s' \<noteq> Srv_Error"
  shows "srv_state s' = Srv_PairSetupComplete \<and> srv_state s = Srv_WaitingForM3
    \<and> (\<exists>srp a p key m2. srv_srp_server s = Some srp \<and> tlv_get tlv PublicKey = Some a \<and> tlv_get tlv Proof = Some p
         \<and> verify_client L srp (ascii ''Pair-Setup'') (srv_srp_salt s) a p = Inr (key, m2)
         \<and> srv_encryption_keys s' = derive_session_keys_from_srp L key)"
  using assms
  by (auto simp: handle_pair_setup_m3_def Let_def or_error_ok bind_eq_Some_conv dest: error_result_state split: if_splits)

lemma pair_verify_m1_state:
  "handle_pair_verify_m1 L s kp tlv = Some (s', r) \<Longrightarrow> srv_state s' = Srv_VerifyWaitingForM3 \<or> srv_state s' = Srv_Error"
  by (cases "srv_state s' = Srv_Error")
     (auto simp: handle_pair_verify_m1_def Let_def or_error_ok bind_eq_Some_conv dest: error_result_state split: if_splits)

lemma pair_verify_m3_state:
  assumes "handle_pair_verify_m3 L s tlv = Some (s', r)" and "srv_state s' \<noteq> Srv_Error"
  shows "srv_state s' = Srv_Complete \<and> srv_state s = Srv_VerifyWaitingForM3
    \<and> (\<exists>pk kp client_id signature. srv_client_curve_public s = Some pk \<and> srv_verify_keypair s = Some kp
         \<and> srv_client_public_key s' = Some client_id
         \<and> ed_check L client_id (pk @ client_id @ x_public L kp) signature)"
  using assms
  by (auto simp: handle_pair_verify_m3_def Let_def or_error_ok bind_eq_Some_conv ed25519_verify_def
      ed25519_public_key_from_bytes_def dest: error_result_state split: if_splits)

section \<open>Client and server together\<close>

text \<open>
  A pair-setup dialogue: the client's messages go to the server, the server's answers to the
  client, until the client does not send. Each side draws one random value per step, the
  same for all steps here since a side uses only one of them.
\<close>

primrec pair_setup_dialogue ::
    "nat \<Rightarrow> crypto_lib \<Rightarrow> nat \<Rightarrow> nat \<Rightarrow> pair_setup \<Rightarrow> pairing_server \<Rightarrow> bytes option \<Rightarrow>
     (pair_setup \<times> pairing_server \<times> (pairing_error, pairing_step_result) result) option" where
  "pair_setup_dialogue 0 L a b c s data = None"
| "pair_setup_dialogue (Suc n) L a b c s data =
     (case pair_setup_step L c a data of (c', out) \<Rightarrow>
        (case out of
           Inr (Step_SendData m) \<Rightarrow>
             Option.bind (process_pair_setup L s b m) (\<lambda>(s', r). pair_setup_dialogue n L a b c' s' (Some (pr_response r)))
         | _ \<Rightarrow> Some (c', s, out)))"

text \<open>A client with a PIN and a server with a password, before the first message.\<close>

definition setup_client :: "bytes \<Rightarrow> str \<Rightarrow> bool \<Rightarrow> pair_setup" where
  "setup_client signing_keypair pin transient =
     pair_setup_set_transient (pair_setup_set_pin (pair_setup_new signing_keypair) pin) transient"

definition setup_server :: "crypto_lib \<Rightarrow> bytes \<Rightarrow> bytes \<Rightarrow> str \<Rightarrow> pairing_server" where
  "setup_server L identity salt password = pairing_server_set_password L (pairing_server_new identity salt) password"

declare extend_all.simps [simp del]

lemmas tlv_eval = tlv_decode_encode tlv_get_encoded tlv_get_state_def tlv_get_required_def tlv_get_error_def

lemma dialogue_m1:
  assumes "v = compute_verifier L (ascii ''Pair-Setup'') pin salt RFC5054_3072"
  shows "pair_setup_dialogue (Suc n) L a b (setup_client sk pin transient) (setup_server L identity salt pin) None =
    pair_setup_dialogue n L a b ((setup_client sk pin transient)\<lparr>pst_state := PS_WaitingResponse\<rparr>)
      ((setup_server L identity salt pin)\<lparr>srv_srp_server := Some (srp_server_new L v RFC5054_3072 b), srv_state := Srv_WaitingForM3\<rparr>)
      (Some (tlv_encode [(State, [2]), (Salt, salt), (PublicKey, ss_public_key (srp_server_new L v RFC5054_3072 b))]))"
  by (simp add: pair_setup_step_def pair_setup_start_def setup_client_def setup_server_def pair_setup_set_transient_def
      pair_setup_set_pin_def pair_setup_new_def process_pair_setup_def handle_pair_setup_m1_def tlv_eval
      pairing_server_set_password_def pairing_server_new_def or_error_def Let_def assms)

text \<open>The next two messages, when the SRP computations of both sides fit together.\<close>

lemma dialogue_m3:
  assumes "crypto_correct L" and client: "pst_state c = PS_WaitingResponse" "pst_pin c = Some pin"
    and server: "srv_state s = Srv_WaitingForM3" "srv_srp_server s = Some srp"
    and srp: "process_challenge L (srp_client_new L RFC5054_3072 a) (pst_username c) pin salt (ss_public_key srp) = Inr v"
      "verify_client L srp (ascii ''Pair-Setup'') (srv_srp_salt s) (sc_public_key (srp_client_new L RFC5054_3072 a)) (sv_m1 v)
       = Inr (key, m2)"
  obtains enc keys where "derive_session_keys_from_srp L key = Some keys"
    "\<And>n. pair_setup_dialogue (Suc n) L a b c s
       (Some (tlv_encode [(State, [2]), (Salt, salt), (PublicKey, ss_public_key srp)])) =
     pair_setup_dialogue n L a b
       (c\<lparr>pst_srp_verifier := Some v, pst_srp_client := Some (srp_client_new L RFC5054_3072 a), pst_state := PS_SrpExchange\<rparr>)
       (s\<lparr>srv_srp_server := None, srv_srp_session_key := Some key, srv_state := Srv_PairSetupComplete,
          srv_encryption_keys := Some keys\<rparr>)
       (Some (tlv_encode [(State, [4]), (Proof, m2), (EncryptedData, enc)]))"
proof -
  obtain keys where keys: "derive_session_keys_from_srp L key = Some keys"
    using session_keys_exist [OF assms(1)] by blast
  have len: "length key = 64" using srp_session_key_length [OF assms(1) srp(2)] by simp
  obtain enc_key where ek: "derive_key L (Some (ascii ''Pair-Setup-Encrypt-Salt'')) key (ascii ''Pair-Setup-Encrypt-Info'') 32 = Inr enc_key"
      "length enc_key = 32"
    using hkdf_expand_ok [OF assms(1), of 32] unfolding derive_key_def by fastforce
  obtain enc where enc: "encrypt_accessory_data L (srv_identity s)
      (build_accessory_info L (s\<lparr>srv_srp_server := None\<rparr>) key) enc_key = Some enc"
    using encrypt_identity_ok [OF assms(1) ek(2)] unfolding encrypt_accessory_data_def Let_def by blast
  have "pair_setup_step L c a (Some (tlv_encode [(State, [2]), (Salt, salt), (PublicKey, ss_public_key srp)])) =
      (c\<lparr>pst_srp_verifier := Some v, pst_srp_client := Some (srp_client_new L RFC5054_3072 a), pst_state := PS_SrpExchange\<rparr>,
       Inr (Step_SendData (tlv_encode [(State, [3]), (PublicKey, sc_public_key (srp_client_new L RFC5054_3072 a)), (Proof, sv_m1 v)])))"
    using client srp(1) by (simp add: pair_setup_step_def need_data_def pair_setup_process_m2_def tlv_eval Let_def)
  moreover have "process_pair_setup L s b
      (tlv_encode [(State, [3]), (PublicKey, sc_public_key (srp_client_new L RFC5054_3072 a)), (Proof, sv_m1 v)]) =
      Some (s\<lparr>srv_srp_server := None, srv_srp_session_key := Some key, srv_state := Srv_PairSetupComplete,
          srv_encryption_keys := Some keys\<rparr>,
        \<lparr>pr_response = tlv_encode [(State, [4]), (Proof, m2), (EncryptedData, enc)], pr_new_state = Srv_PairSetupComplete,
         pr_error = None, pr_complete = True\<rparr>)"
    using server srp(2) ek(1) enc keys len
    by (simp add: process_pair_setup_def handle_pair_setup_m3_def tlv_eval or_error_def ok_def Let_def)
  ultimately show ?thesis using that keys by simp
qed

lemma dialogue_until_m4:
  assumes "crypto_correct L"
    and "from_bytes_be (ss_public_key (srp_server_new L
          (compute_verifier L (ascii ''Pair-Setup'') pin salt RFC5054_3072) RFC5054_3072 b)) mod srp_n RFC5054_3072 \<noteq> 0"
  obtains c s v m2 enc key ek where
    "\<forall>n. pair_setup_dialogue (Suc (Suc n)) L a b (setup_client sk pin transient) (setup_server L identity salt pin) None
       = pair_setup_dialogue n L a b c s (Some (tlv_encode [(State, [4]), (Proof, m2), (EncryptedData, enc)]))"
    "pst_state c = PS_SrpExchange" "pst_srp_verifier c = Some v" "verify_server L v m2 = Inr key"
    "pst_transient c = transient" "length key = 64"
    "srv_state s = Srv_PairSetupComplete" "srv_srp_session_key s = Some key" "srv_encryption_keys s = Some ek"
    "derive_session_keys_from_srp L key = Some ek"
proof -
  let ?v = "compute_verifier L (ascii ''Pair-Setup'') pin salt RFC5054_3072"
  let ?srp = "srp_server_new L ?v RFC5054_3072 b" and ?cl = "srp_client_new L RFC5054_3072 a"
  let ?c = "(setup_client sk pin transient)\<lparr>pst_state := PS_WaitingResponse\<rparr>"
  let ?s = "(setup_server L identity salt pin)\<lparr>srv_srp_server := Some ?srp, srv_state := Srv_WaitingForM3\<rparr>"
  obtain v key m2 where srp: "process_challenge L ?cl (ascii ''Pair-Setup'') pin salt (ss_public_key ?srp) = Inr v"
      "verify_client L ?srp (ascii ''Pair-Setup'') salt (sc_public_key ?cl) (sv_m1 v) = Inr (key, m2)"
      "verify_server L v m2 = Inr key"
    using srp_agreement [OF rfc5054_coprime refl refl assms(2), of a] unfolding srp_client_new_def by blast
  have c: "pst_pin ?c = Some pin" "pst_username ?c = ascii ''Pair-Setup''" "pst_transient ?c = transient"
    by (simp_all add: setup_client_def pair_setup_set_transient_def pair_setup_set_pin_def pair_setup_new_def)
  have s: "srv_srp_salt ?s = salt"
    by (simp add: setup_server_def pairing_server_set_password_def pairing_server_new_def)
  obtain enc ek where ek: "derive_session_keys_from_srp L key = Some ek"
    and d: "\<And>n. pair_setup_dialogue (Suc n) L a b ?c ?s (Some (tlv_encode [(State, [2]), (Salt, salt), (PublicKey, ss_public_key ?srp)])) =
     pair_setup_dialogue n L a b
       (?c\<lparr>pst_srp_verifier := Some v, pst_srp_client := Some ?cl, pst_state := PS_SrpExchange\<rparr>)
       (?s\<lparr>srv_srp_server := None, srv_srp_session_key := Some key, srv_state := Srv_PairSetupComplete,
          srv_encryption_keys := Some ek\<rparr>)
       (Some (tlv_encode [(State, [4]), (Proof, m2), (EncryptedData, enc)]))"
    by (rule dialogue_m3 [OF assms(1), of ?c pin ?s ?srp a salt v key m2 b])
       (use srp c s in \<open>simp_all del: pair_setup_dialogue.simps\<close>)
  have len: "length key = 64" using srp_session_key_length [OF assms(1) srp(2)] by simp
  show ?thesis
    by (rule that [OF allI, OF trans [OF dialogue_m1 [OF refl] d]]) (use srp(3) c ek len in simp_all)
qed

text \<open>The client's and the server's keys come from the same derivation, under the same names.\<close>

lemma client_server_keys:
  assumes "derive_session_keys_from_srp L key = Some ek"
  shows "\<exists>keys. derive_session_keys L key raw = Inr keys \<and> sk_encrypt_key keys = ek_encrypt_key ek
    \<and> sk_decrypt_key keys = ek_decrypt_key ek \<and> sk_raw_shared_secret keys = raw"
  using assms by (auto simp: derive_session_keys_from_srp_def derive_session_keys_def derive_key_def
      bind_eq_Some_conv split: if_splits)

lemma length_label_nonce: "length (label_nonce label) = 4 + length label"
  by (simp add: label_nonce_def)

lemma label_nonce_ok: "length label = 8 \<Longrightarrow> nonce_from_bytes (label_nonce label) = Inr (label_nonce label)"
  by (simp add: nonce_from_bytes_def label_nonce_def)

lemma pair_setup_m5_ok:
  assumes "crypto_correct L"
  shows "\<exists>m5. pair_setup_m5 L c key = (c\<lparr>pst_session_key := Some key, pst_state := PS_KeyExchange\<rparr>,
    Inr (Step_SendData (tlv_encode [(State, [5]), (EncryptedData, m5)])))"
proof -
  obtain k where k: "hkdf_expand L (Some (ascii ''Pair-Setup-Encrypt-Salt'')) key (ascii ''Pair-Setup-Encrypt-Info'') 32 = Inr k"
      "length k = 32"
    using hkdf_expand_ok [OF assms, of 32] by fastforce
  obtain x where x: "hkdf_expand L (Some (ascii ''Pair-Setup-Controller-Sign-Salt'')) key
      (ascii ''Pair-Setup-Controller-Sign-Info'') 32 = Inr x"
    using hkdf_expand_ok [OF assms, of 32] by fastforce
  let ?pk = "ed_public L (pst_signing_keypair c)"
  let ?tlv = "tlv_encode [(Identifier, ascii ''airplay2-rs''), (PublicKey, ?pk),
    (Signature, ed25519_sign L (pst_signing_keypair c) (x @ ascii ''airplay2-rs'' @ ?pk))]"
  have "length ?tlv \<le> 65535" using assms by (simp add: length_tlv_encode_Cons crypto_correct_def ed25519_sign_def)
  then obtain m5 where "cipher_encrypt (seal L) k (label_nonce ''PS-Msg05'') ?tlv = Inr m5"
    using cipher_roundtrip [OF assms k(2), of "label_nonce ''PS-Msg05''"] by (fastforce simp: label_nonce_def)
  then show ?thesis using k x label_nonce_ok [of "''PS-Msg05''"] by (intro exI [of _ m5]) (simp add: pair_setup_m5_def cipher_new_ok Let_def)
qed

text \<open>A pair-verify exchange on the server, from a server that is idle or has paired.\<close>

lemma verify_m1_ok:
  assumes "crypto_correct L" and "srv_state s = Srv_Idle" and "length pk = 32"
  obtains enc where
    "process_pair_verify L s kp (tlv_encode [(State, [1]), (PublicKey, pk)]) =
       Some (s\<lparr>srv_client_curve_public := Some pk, srv_verify_keypair := Some kp,
               srv_shared_secret := Some (x25519_diffie_hellman L kp pk), srv_state := Srv_VerifyWaitingForM3\<rparr>,
             \<lparr>pr_response = tlv_encode [(State, [2]), (PublicKey, x_public L kp), (EncryptedData, enc)],
              pr_new_state = Srv_VerifyWaitingForM3, pr_error = None, pr_complete = False\<rparr>)"
    "\<exists>key sub. derive_key L (Some (ascii ''Pair-Verify-Encrypt-Salt'')) (x25519_diffie_hellman L kp pk)
         (ascii ''Pair-Verify-Encrypt-Info'') 32 = Inr key \<and> seal L key (prefix_nonce (ascii ''PV-Msg02'')) [] sub = Some enc"
proof -
  obtain key where key: "derive_key L (Some (ascii ''Pair-Verify-Encrypt-Salt'')) (x25519_diffie_hellman L kp pk)
      (ascii ''Pair-Verify-Encrypt-Info'') 32 = Inr key" "length key = 32"
    using hkdf_expand_ok [OF assms(1), of 32] unfolding derive_key_def by fastforce
  let ?m = "x_public L kp @ ed_public L (srv_identity s) @ pk"
  let ?sub = "tlv_encode [(Identifier, ed_public L (srv_identity s)), (Signature, ed25519_sign L (srv_identity s) ?m)]"
  obtain enc where enc: "encrypt_with_key L ?sub key (ascii ''PV-Msg02'') = Some enc"
    using encrypt_identity_ok [OF assms(1) key(2)] by blast
  show ?thesis
  proof (rule that)
    show "\<exists>key sub. derive_key L (Some (ascii ''Pair-Verify-Encrypt-Salt'')) (x25519_diffie_hellman L kp pk)
         (ascii ''Pair-Verify-Encrypt-Info'') 32 = Inr key \<and> seal L key (prefix_nonce (ascii ''PV-Msg02'')) [] sub = Some enc"
      using enc key by (auto simp: encrypt_with_key_def bind_eq_Some_conv cipher_new_ok cipher_encrypt_def)
  qed (use key enc assms in \<open>simp add: process_pair_verify_def handle_pair_verify_m1_def tlv_eval or_error_def ok_def Let_def
      x25519_public_key_from_bytes_def\<close>)
qed

lemma verify_m3_ok:
  assumes "crypto_correct L" and "srv_state s = Srv_VerifyWaitingForM3" and "srv_shared_secret s = Some shared"
    and "srv_client_curve_public s = Some pk" and "srv_verify_keypair s = Some kp"
  obtains m3 keys r where "derive_session_keys_from_srp L shared = Some keys"
    "process_pair_verify L s kp' m3 = Some (s\<lparr>srv_client_public_key := Some (ed_public L sk),
       srv_encryption_keys := Some keys, srv_state := Srv_Complete\<rparr>, r)"
proof -
  obtain key where key: "derive_key L (Some (ascii ''Pair-Verify-Encrypt-Salt'')) shared
      (ascii ''Pair-Verify-Encrypt-Info'') 32 = Inr key" "length key = 32"
    using hkdf_expand_ok [OF assms(1), of 32] unfolding derive_key_def by fastforce
  obtain keys where keys: "derive_session_keys_from_srp L shared = Some keys" using session_keys_exist [OF assms(1)] by blast
  let ?m = "pk @ ed_public L sk @ x_public L kp"
  let ?sub = "tlv_encode [(Identifier, ed_public L sk), (Signature, ed25519_sign L sk ?m)]"
  have "length ?sub \<le> 65535" using identity_tlv_length [OF assms(1)] by simp
  from encrypt_with_key_ok [OF assms(1) key(2) this, of "ascii ''PV-Msg03''"]
  obtain enc where enc: "cipher_decrypt (open_sealed L) key (prefix_nonce (ascii ''PV-Msg03'')) enc = Inr ?sub" by blast
  have "length (ed_public L sk) = 32" using assms(1) by (simp add: crypto_correct_def)
  then have "\<exists>r. process_pair_verify L s kp' (tlv_encode [(State, [3]), (EncryptedData, enc)]) =
      Some (s\<lparr>srv_client_public_key := Some (ed_public L sk), srv_encryption_keys := Some keys, srv_state := Srv_Complete\<rparr>, r)"
    using assms key keys enc ed25519_public_key_ok [OF assms(1)] ed25519_signature_ok [OF assms(1)]
    by (simp add: process_pair_verify_def handle_pair_verify_m3_def tlv_eval or_error_def ok_def Let_def
        decrypt_with_key_def cipher_new_ok)
  then show ?thesis using that keys by blast
qed

text \<open>With the demonstration library and exponent 0, the server's public key is 1.\<close>

lemma from_zero_bytes: "from_bytes_be (replicate n 0) = 0"
  using from_bytes_be_zeros [of n "[]"] by simp

lemma demo_server_key:
  "from_bytes_be (ss_public_key (srp_server_new demo_lib v RFC5054_3072 0)) mod srp_n RFC5054_3072 \<noteq> 0"
proof -
  have "compute_k demo_lib RFC5054_3072 = 0" by (simp add: compute_k_def demo_lib_def from_zero_bytes)
  then have "from_bytes_be (ss_public_key (srp_server_new demo_lib v RFC5054_3072 0)) = 1"
    using rfc5054_coprime(1) by (simp add: srp_server_new_def modpow_def Let_def)
  then show ?thesis using rfc5054_coprime(1) by simp
qed

section \<open>Properties\<close>

text \<open>
  C2. No sequence of messages crashes the pairing server or corrupts its session: whatever bytes
  arrive on the two endpoints, in whatever order, mixed with password changes and resets, the
  server answers every message, and in each state holds what the state promises. In
  \<open>Complete\<close> the client's identity has signed the exchange, and the keys come from the shared
  secret of the two ephemeral keys; in \<open>PairSetupComplete\<close> they come from the SRP session key.
\<close>

theorem pairing_server_never_panics:
  assumes "crypto_correct L"
  shows "\<exists>s. server_run L (pairing_server_new identity salt) calls = Some s \<and> server_inv L s"
proof -
  have "server_inv L s \<Longrightarrow> \<exists>s'. server_run L s calls = Some s' \<and> server_inv L s'" for s
  proof (induction calls arbitrary: s)
    case (Cons call calls)
    then show ?case using server_do_good [OF assms, of s call] by auto
  qed simp
  moreover have "server_inv L (pairing_server_new identity salt)"
    by (simp add: server_inv_def pairing_server_new_def)
  ultimately show ?thesis by blast
qed

theorem pairing_server_never_panics_witness:
  "\<exists>s. server_run demo_lib (pairing_server_new [1] [2])
        [Call_SetPassword [49], Call_PairSetup 7 [6, 1, 1, 0, 1, 0], Call_PairVerify [3] [9]] = Some s
      \<and> server_inv demo_lib s"
  using pairing_server_never_panics [OF demo_lib_correct] by blast

text \<open>
  C3. The server reaches a paired state only on a proof: \<open>PairSetupComplete\<close> only from
  \<open>WaitingForM3\<close>, on a message whose SRP proof the server has just verified, \<open>Complete\<close> only
  from \<open>VerifyWaitingForM3\<close>, on a message that decrypts under the session key and whose
  signature by the named identity verifies over the ephemeral keys of this exchange.
\<close>

theorem pairing_requires_proof:
  assumes "process_pair_setup L s random d = Some (s1, r1)" and "process_pair_verify L s keypair d = Some (s2, r2)"
  shows "(srv_state s1 = Srv_WaitingForM3 \<or> srv_state s1 = Srv_Error
      \<or> srv_state s1 = Srv_PairSetupComplete \<and> srv_state s = Srv_WaitingForM3
        \<and> (\<exists>tlv srp a p key m2. tlv_decode d = Inr tlv \<and> srv_srp_server s = Some srp
             \<and> tlv_get tlv PublicKey = Some a \<and> tlv_get tlv Proof = Some p
             \<and> verify_client L srp (ascii ''Pair-Setup'') (srv_srp_salt s) a p = Inr (key, m2)
             \<and> srv_encryption_keys s1 = derive_session_keys_from_srp L key))
   \<and> (srv_state s2 = Srv_VerifyWaitingForM3 \<or> srv_state s2 = Srv_Error
      \<or> srv_state s2 = Srv_Complete \<and> srv_state s = Srv_VerifyWaitingForM3
        \<and> (\<exists>pk kp client_id signature. srv_client_curve_public s = Some pk \<and> srv_verify_keypair s = Some kp
             \<and> srv_client_public_key s2 = Some client_id
             \<and> ed_check L client_id (pk @ client_id @ x_public L kp) signature))"
proof
  show "srv_state s1 = Srv_WaitingForM3 \<or> srv_state s1 = Srv_Error \<or> srv_state s1 = Srv_PairSetupComplete \<and> srv_state s = Srv_WaitingForM3
        \<and> (\<exists>tlv srp a p key m2. tlv_decode d = Inr tlv \<and> srv_srp_server s = Some srp
             \<and> tlv_get tlv PublicKey = Some a \<and> tlv_get tlv Proof = Some p
             \<and> verify_client L srp (ascii ''Pair-Setup'') (srv_srp_salt s) a p = Inr (key, m2)
             \<and> srv_encryption_keys s1 = derive_session_keys_from_srp L key)"
    using assms(1) pair_setup_m1_state pair_setup_m3_state
    by (fastforce simp: process_pair_setup_def Let_def error_result_state split: sum.splits if_splits)
  show "srv_state s2 = Srv_VerifyWaitingForM3 \<or> srv_state s2 = Srv_Error
      \<or> srv_state s2 = Srv_Complete \<and> srv_state s = Srv_VerifyWaitingForM3
        \<and> (\<exists>pk kp client_id signature. srv_client_curve_public s = Some pk \<and> srv_verify_keypair s = Some kp
             \<and> srv_client_public_key s2 = Some client_id
             \<and> ed_check L client_id (pk @ client_id @ x_public L kp) signature)"
    using assms(2) pair_verify_m1_state pair_verify_m3_state
    by (fastforce simp: process_pair_verify_def Let_def error_result_state split: sum.splits if_splits)
qed

theorem pairing_requires_proof_witness:
  "\<exists>s1 r1 s2 r2. process_pair_setup demo_lib (setup_server demo_lib [1] [2] [49]) 0 [6, 1, 1, 0, 1, 0] = Some (s1, r1)
    \<and> process_pair_verify demo_lib (setup_server demo_lib [1] [2] [49]) [3] [6, 1, 1, 0, 1, 0] = Some (s2, r2)
    \<and> (srv_state s1 = Srv_WaitingForM3 \<or> srv_state s1 = Srv_Error)"
proof -
  have inv: "server_inv demo_lib (setup_server demo_lib [1] [2] [49])" and idle: "srv_state (setup_server demo_lib [1] [2] [49]) = Srv_Idle"
    by (simp_all add: server_inv_def setup_server_def pairing_server_set_password_def pairing_server_new_def)
  obtain s1 r1 s2 r2 where r: "process_pair_setup demo_lib (setup_server demo_lib [1] [2] [49]) 0 [6, 1, 1, 0, 1, 0] = Some (s1, r1)"
      "process_pair_verify demo_lib (setup_server demo_lib [1] [2] [49]) [3] [6, 1, 1, 0, 1, 0] = Some (s2, r2)"
    using process_good [OF demo_lib_correct inv] unfolding good_outcome_def by blast
  from pairing_requires_proof [OF r] r idle show ?thesis by auto
qed

text \<open>The transient dialogue runs to its end, with the same keys on both sides.\<close>

lemma transient_dialogue:
  assumes "crypto_correct L"
    and "from_bytes_be (ss_public_key (srp_server_new L
          (compute_verifier L (ascii ''Pair-Setup'') pin salt RFC5054_3072) RFC5054_3072 b)) mod srp_n RFC5054_3072 \<noteq> 0"
  shows "\<exists>c s keys key ek.
      pair_setup_dialogue 3 L a b (setup_client sk pin True) (setup_server L identity salt pin) None
        = Some (c, s, Inr (Step_Complete keys))
    \<and> pst_state c = PS_Complete \<and> srv_state s = Srv_PairSetupComplete
    \<and> pst_session_key c = Some key \<and> srv_srp_session_key s = Some key \<and> length key = 64
    \<and> srv_encryption_keys s = Some ek
    \<and> sk_encrypt_key keys = ek_encrypt_key ek \<and> sk_decrypt_key keys = ek_decrypt_key ek
    \<and> sk_raw_shared_secret keys = take 32 key"
proof -
  obtain c s v m2 enc key ek where
    d: "\<forall>n. pair_setup_dialogue (Suc (Suc n)) L a b (setup_client sk pin True) (setup_server L identity salt pin) None
         = pair_setup_dialogue n L a b c s (Some (tlv_encode [(State, [4]), (Proof, m2), (EncryptedData, enc)]))"
    and c: "pst_state c = PS_SrpExchange" "pst_srp_verifier c = Some v" "verify_server L v m2 = Inr key"
      "pst_transient c = True" "length key = 64"
    and s: "srv_state s = Srv_PairSetupComplete" "srv_srp_session_key s = Some key" "srv_encryption_keys s = Some ek"
      "derive_session_keys_from_srp L key = Some ek"
    by (rule dialogue_until_m4 [OF assms, where a = a and sk = sk and transient = True and identity = identity]) (rule that)
  obtain keys where keys: "derive_session_keys L key (raw_secret key) = Inr keys" "sk_encrypt_key keys = ek_encrypt_key ek"
      "sk_decrypt_key keys = ek_decrypt_key ek" "sk_raw_shared_secret keys = raw_secret key"
    using client_server_keys [OF s(4), of "raw_secret key"] by blast
  have "pair_setup_step L c a (Some (tlv_encode [(State, [4]), (Proof, m2), (EncryptedData, enc)])) =
      (c\<lparr>pst_session_key := Some key, pst_state := PS_Complete\<rparr>, Inr (Step_Complete keys))"
    using c keys(1) by (simp add: pair_setup_step_def need_data_def pair_setup_process_m4_def tlv_eval)
  then have "pair_setup_dialogue (Suc 0) L a b c s (Some (tlv_encode [(State, [4]), (Proof, m2), (EncryptedData, enc)]))
      = Some (c\<lparr>pst_session_key := Some key, pst_state := PS_Complete\<rparr>, s, Inr (Step_Complete keys))"
    by simp
  with d [rule_format, of "Suc 0"] show ?thesis
    using c(5) s keys by (simp add: numeral_3_eq_3 raw_secret_def del: pair_setup_dialogue.simps)
qed

text \<open>
  C1. PIN pairing without stored keys works end to end: a client with the PIN of the server runs
  the whole transient pair-setup dialogue in three rounds, for all random values of both
  sides that do not make the server's public key zero. Both then hold the same SRP session
  key and derive the same two control keys from it; the client's audio key is the first half
  of the session key. The code names the two keys alike on both sides, so that each
  side encrypts with the key the other encrypts with: see the findings.
\<close>

theorem transient_pair_setup_agrees:
  assumes "crypto_correct L"
    and "from_bytes_be (ss_public_key (srp_server_new L
          (compute_verifier L (ascii ''Pair-Setup'') pin salt RFC5054_3072) RFC5054_3072 b)) mod srp_n RFC5054_3072 \<noteq> 0"
  shows "\<exists>c s keys key ek.
      pair_setup_dialogue 3 L a b (setup_client sk pin True) (setup_server L identity salt pin) None
        = Some (c, s, Inr (Step_Complete keys))
    \<and> pst_state c = PS_Complete \<and> srv_state s = Srv_PairSetupComplete
    \<and> pst_session_key c = Some key \<and> srv_srp_session_key s = Some key \<and> length key = 64
    \<and> srv_encryption_keys s = Some ek
    \<and> sk_encrypt_key keys = ek_encrypt_key ek \<and> sk_decrypt_key keys = ek_decrypt_key ek
    \<and> sk_raw_shared_secret keys = take 32 key"
  by (rule transient_dialogue [OF assms])

theorem transient_pair_setup_agrees_witness:
  "\<exists>c s keys. pair_setup_dialogue 3 demo_lib 0 0 (setup_client [3] [49] True) (setup_server demo_lib [1] [2] [49]) None
     = Some (c, s, Inr (Step_Complete keys)) \<and> srv_state s = Srv_PairSetupComplete"
  using transient_pair_setup_agrees [OF demo_lib_correct demo_server_key, where a = 0 and sk = "[3]" and identity = "[1]" and salt = "[2]" and pin = "[49]"]
  by blast

text \<open>
  Pairing with stored keys never completes against this server: after the same dialogue the
  client sends M5, for which the server has no handler. The server falls into its error
  state, although it keeps the derived keys, and the client reports a device error.
\<close>

theorem persistent_pair_setup_fails:
  assumes "crypto_correct L"
    and "from_bytes_be (ss_public_key (srp_server_new L
          (compute_verifier L (ascii ''Pair-Setup'') pin salt RFC5054_3072) RFC5054_3072 b)) mod srp_n RFC5054_3072 \<noteq> 0"
  shows "\<exists>c s.
      pair_setup_dialogue 4 L a b (setup_client sk pin False) (setup_server L identity salt pin) None
        = Some (c, s, Inl (PE_DeviceError 1))
    \<and> pst_state c = PS_Failed \<and> srv_state s = Srv_Error \<and> srv_encryption_keys s \<noteq> None"
proof -
  obtain c s v m2 enc key ek where
    d: "\<forall>n. pair_setup_dialogue (Suc (Suc n)) L a b (setup_client sk pin False) (setup_server L identity salt pin) None
         = pair_setup_dialogue n L a b c s (Some (tlv_encode [(State, [4]), (Proof, m2), (EncryptedData, enc)]))"
    and c: "pst_state c = PS_SrpExchange" "pst_srp_verifier c = Some v" "verify_server L v m2 = Inr key"
      "pst_transient c = False" "length key = 64"
    and s: "srv_state s = Srv_PairSetupComplete" "srv_encryption_keys s = Some ek"
    by (rule dialogue_until_m4 [OF assms, where a = a and sk = sk and transient = False and identity = identity]) (rule that)
  obtain m5 where m5: "pair_setup_m5 L c key = (c\<lparr>pst_session_key := Some key, pst_state := PS_KeyExchange\<rparr>,
      Inr (Step_SendData (tlv_encode [(State, [5]), (EncryptedData, m5)])))"
    using pair_setup_m5_ok [OF assms(1)] by blast
  then have "pair_setup_step L c a (Some (tlv_encode [(State, [4]), (Proof, m2), (EncryptedData, enc)])) =
      (c\<lparr>pst_session_key := Some key, pst_state := PS_KeyExchange\<rparr>,
       Inr (Step_SendData (tlv_encode [(State, [5]), (EncryptedData, m5)])))"
    using c by (simp add: pair_setup_step_def need_data_def pair_setup_process_m4_def tlv_eval)
  then have "pair_setup_dialogue (Suc (Suc 0)) L a b c s (Some (tlv_encode [(State, [4]), (Proof, m2), (EncryptedData, enc)]))
      = Some (c\<lparr>pst_session_key := Some key, pst_state := PS_Failed\<rparr>, s\<lparr>srv_state := Srv_Error\<rparr>, Inl (PE_DeviceError 1))"
    by (simp add: process_pair_setup_def tlv_eval error_result_def pair_setup_step_def need_data_def
        pair_setup_process_m6_def)
  with d [rule_format, of "Suc (Suc 0)"] show ?thesis
    using s by (simp add: eval_nat_numeral del: pair_setup_dialogue.simps)
qed

theorem persistent_pair_setup_fails_witness:
  "\<exists>c s. pair_setup_dialogue 4 demo_lib 0 0 (setup_client [3] [49] False) (setup_server demo_lib [1] [2] [49]) None
     = Some (c, s, Inl (PE_DeviceError 1)) \<and> srv_encryption_keys s \<noteq> None"
  using persistent_pair_setup_fails [OF demo_lib_correct demo_server_key, where a = 0 and sk = "[3]" and identity = "[1]" and salt = "[2]" and pin = "[49]"]
  by blast

text \<open>
  Pair-verify does not require a pairing: a server that has never seen a pair-setup, and not
  even has a password, completes it with every client that signs with a key of its own, and
  hands out the session keys. The identity is taken from the message itself and compared
  with nothing, although the code means to admit returning clients only.
\<close>

theorem pair_verify_without_pairing:
  assumes "crypto_correct L"
  shows "\<exists>m1 m3 s keys. server_run L (pairing_server_new identity salt) [Call_PairVerify kp m1, Call_PairVerify kp' m3] = Some s
    \<and> srv_state s = Srv_Complete \<and> srv_srp_verifier s = None \<and> srv_srp_session_key s = None
    \<and> srv_client_public_key s = Some (ed_public L client_secret)
    \<and> derive_session_keys_from_srp L (x25519_diffie_hellman L client_ephemeral (x_public L kp)) = Some keys
    \<and> srv_encryption_keys s = Some keys"
proof -
  let ?s = "pairing_server_new identity salt"
  let ?pk = "x_public L client_ephemeral"
  have idle: "srv_state ?s = Srv_Idle" and pk: "length ?pk = 32"
    using assms by (simp_all add: pairing_server_new_def crypto_correct_def)
  obtain s1 r1 where m1: "process_pair_verify L ?s kp (tlv_encode [(State, [1]), (PublicKey, ?pk)]) = Some (s1, r1)"
    and s1: "s1 = ?s\<lparr>srv_client_curve_public := Some ?pk, srv_verify_keypair := Some kp,
               srv_shared_secret := Some (x25519_diffie_hellman L kp ?pk), srv_state := Srv_VerifyWaitingForM3\<rparr>"
    by (rule verify_m1_ok [OF assms idle pk, of kp]) (rule that [OF _ refl])
  have "srv_state s1 = Srv_VerifyWaitingForM3" "srv_shared_secret s1 = Some (x25519_diffie_hellman L kp ?pk)"
      "srv_client_curve_public s1 = Some ?pk" "srv_verify_keypair s1 = Some kp"
    by (simp_all add: s1)
  then obtain m3 keys r where keys: "derive_session_keys_from_srp L (x25519_diffie_hellman L kp ?pk) = Some keys"
    and m3: "process_pair_verify L s1 kp' m3 = Some (s1\<lparr>srv_client_public_key := Some (ed_public L client_secret),
       srv_encryption_keys := Some keys, srv_state := Srv_Complete\<rparr>, r)"
    by (rule verify_m3_ok [OF assms, where sk = client_secret and kp' = kp']) (rule that)
  let ?s' = "s1\<lparr>srv_client_public_key := Some (ed_public L client_secret),
       srv_encryption_keys := Some keys, srv_state := Srv_Complete\<rparr>"
  have "server_run L ?s [Call_PairVerify kp (tlv_encode [(State, [1]), (PublicKey, ?pk)]), Call_PairVerify kp' m3] = Some ?s'"
    by (simp add: m1 m3)
  moreover have "srv_srp_verifier ?s' = None" "srv_srp_session_key ?s' = None" by (simp_all add: s1 pairing_server_new_def)
  ultimately show ?thesis using keys x25519_agree [OF assms, of kp client_ephemeral]
    by (intro exI [of _ "tlv_encode [(State, [1]), (PublicKey, ?pk)]"] exI [of _ m3] exI [of _ ?s'] exI [of _ keys])
       (simp del: server_run.simps)
qed

theorem pair_verify_without_pairing_witness:
  "\<exists>m1 m3 s. server_run demo_lib (pairing_server_new [1] [2]) [Call_PairVerify [3] m1, Call_PairVerify [3] m3] = Some s
    \<and> srv_state s = Srv_Complete \<and> srv_srp_verifier s = None"
  using pair_verify_without_pairing [OF demo_lib_correct, of "[1]" "[2]" "[3]" "[3]"] by blast

text \<open>
  The client's pair-verify cannot talk to this server: the two sides place the label of a
  message at different ends of the nonce, so that the client fails to decrypt the first
  answer of the server, however the keys were stored.
\<close>

theorem pair_verify_answer_rejected:
  assumes "crypto_correct L" and "aead_rejects_other_nonce (seal L) (open_sealed L)"
    and "pair_verify_new L our_keys device_ltpk ephemeral = Inr c" and "srv_state s = Srv_Idle"
  shows "\<exists>c1 m1 s1 r1. pair_verify_step L c None = Some (c1, Inr (Step_SendData m1))
    \<and> process_pair_verify L s kp m1 = Some (s1, r1) \<and> pr_error r1 = None
    \<and> pair_verify_step L c1 (Some (pr_response r1)) = Some (c1, Inl (PE_Crypto DecryptionFailed))"
proof -
  let ?pk = "x_public L ephemeral" and ?c = "c\<lparr>pvf_state := PS_WaitingResponse\<rparr>"
  have c: "pvf_state c = PS_Init" "pvf_ephemeral_keypair c = ephemeral"
    using assms(3) by (auto simp: pair_verify_new_def)
  have pk: "length ?pk = 32" and kpk: "length (x_public L kp) = 32" using assms(1) by (simp_all add: crypto_correct_def)
  have step1: "pair_verify_step L c None = Some (?c, Inr (Step_SendData (tlv_encode [(State, [1]), (PublicKey, ?pk)])))"
    using c by (simp add: pair_verify_step_def pair_verify_start_def)
  obtain s1 r1 enc key sub where m1: "process_pair_verify L s kp (tlv_encode [(State, [1]), (PublicKey, ?pk)]) = Some (s1, r1)"
      "pr_error r1 = None" "pr_response r1 = tlv_encode [(State, [2]), (PublicKey, x_public L kp), (EncryptedData, enc)]"
    and key: "derive_key L (Some (ascii ''Pair-Verify-Encrypt-Salt'')) (x25519_diffie_hellman L kp ?pk)
      (ascii ''Pair-Verify-Encrypt-Info'') 32 = Inr key"
    and enc: "seal L key (prefix_nonce (ascii ''PV-Msg02'')) [] sub = Some enc"
    by (rule verify_m1_ok [OF assms(1, 4) pk, of kp]) auto
  have "prefix_nonce (ascii ''PV-Msg02'') \<noteq> label_nonce ''PV-Msg02''"
  proof -
    have "hd (prefix_nonce (ascii ''PV-Msg02'')) \<noteq> hd (label_nonce ''PV-Msg02'')"
      by (simp add: prefix_nonce_def label_nonce_def ascii_def hd_append)
    then show ?thesis by metis
  qed
  moreover have "length (label_nonce ''PV-Msg02'') = 12" by (simp add: length_label_nonce)
  ultimately have "open_sealed L key (label_nonce ''PV-Msg02'') [] enc = None"
    using assms(2) enc prefix_nonce_length [of "ascii ''PV-Msg02''"] unfolding aead_rejects_other_nonce_def by blast
  moreover have "length key = 32" using derive_key_length [OF assms(1) _ key] by simp
  ultimately have "pair_verify_step L ?c (Some (pr_response r1)) = Some (?c, Inl (PE_Crypto DecryptionFailed))"
    using c kpk key m1(3) x25519_agree [OF assms(1), of kp ephemeral] label_nonce_ok [of "''PV-Msg02''"]
    by (simp add: pair_verify_step_def need_data_def pair_verify_process_m2_def tlv_eval x25519_public_key_from_bytes_def
        derive_key_def cipher_new_ok cipher_decrypt_def Let_def)
  with step1 m1 show ?thesis by blast
qed

theorem pair_verify_answer_rejected_witness:
  "\<exists>c c1 m1 s1 r1. pair_verify_step demo_lib c None = Some (c1, Inr (Step_SendData m1))
    \<and> process_pair_verify demo_lib (pairing_server_new [1] [2]) [3] m1 = Some (s1, r1)
    \<and> pair_verify_step demo_lib c1 (Some (pr_response r1)) = Some (c1, Inl (PE_Crypto DecryptionFailed))"
proof -
  let ?keys = "\<lparr>pk_identifier = [], pk_secret_key = replicate 32 1, pk_public_key = [], pk_device_public_key = []\<rparr>"
  obtain c where "pair_verify_new demo_lib ?keys (replicate 32 0) [9] = Inr c"
    by (simp add: pair_verify_new_def ed25519_public_key_from_bytes_def demo_lib_def)
  moreover have "srv_state (pairing_server_new [1] [2]) = Srv_Idle" by (simp add: pairing_server_new_def)
  ultimately show ?thesis
    using pair_verify_answer_rejected [OF demo_lib_correct demo_lib_nonces] by blast
qed

end
