(* ===== verification/Rust_Net.thy ===== *)
theory Rust_Net
  imports Rust_Text
begin

text \<open>
  \<open>SocketAddr::from_str\<close> of Rust's standard library, as the program uses it on the addresses in
  SETUP requests: a recursive-descent parser over the bytes of the string. Every reader returns
  the value and the rest, or nothing, and then the position is where it was.
\<close>

definition digit_value :: "nat \<Rightarrow> u8 \<Rightarrow> nat option" where
  "digit_value radix b =
     (let d = (if 48 \<le> b \<and> b \<le> 57 then unat b - 48
               else if 97 \<le> b \<and> b \<le> 122 then unat b - 87
               else if 65 \<le> b \<and> b \<le> 90 then unat b - 55 else radix)
      in if d < radix then Some d else None)"

definition digits_of :: "nat \<Rightarrow> str \<Rightarrow> nat list" where
  "digits_of radix s = map (\<lambda>b. the (digit_value radix b)) (takeWhile (\<lambda>b. digit_value radix b \<noteq> None) s)"

text \<open>
  \<open>read_number\<close>: all digits are read; more than \<open>max_digits\<close>, a value of at least \<open>bound\<close> or,
  unless it is allowed, a leading zero reject.
\<close>

definition read_number :: "nat \<Rightarrow> nat option \<Rightarrow> bool \<Rightarrow> nat \<Rightarrow> str \<Rightarrow> (nat \<times> str) option" where
  "read_number radix max_digits allow_zero_prefix bound s =
     (let ds = digits_of radix s; v = foldl (\<lambda>acc d. acc * radix + d) 0 ds in
      if ds = [] \<or> (\<exists>m\<in>set_option max_digits. length ds > m) \<or> v \<ge> bound
         \<or> (\<not> allow_zero_prefix \<and> hd ds = 0 \<and> length ds > 1)
      then None else Some (v, drop (length ds) s))"

definition read_given_char :: "u8 \<Rightarrow> str \<Rightarrow> str option" where
  "read_given_char c s = (case s of [] \<Rightarrow> None | b # bs \<Rightarrow> if b = c then Some bs else None)"

definition read_separator :: "u8 \<Rightarrow> nat \<Rightarrow> (str \<Rightarrow> ('a \<times> str) option) \<Rightarrow> str \<Rightarrow> ('a \<times> str) option" where
  "read_separator sep i inner s = (if i > 0 then Option.bind (read_given_char sep s) inner else inner s)"

definition read_octet :: "str \<Rightarrow> (nat \<times> str) option" where
  "read_octet = read_number 10 (Some 3) False 256"

definition read_ipv4_addr :: "str \<Rightarrow> (nat list \<times> str) option" where
  "read_ipv4_addr s =
     Option.bind (read_octet s) (\<lambda>(a, s).
     Option.bind (read_separator 46 1 read_octet s) (\<lambda>(b, s).
     Option.bind (read_separator 46 2 read_octet s) (\<lambda>(c, s).
     Option.bind (read_separator 46 3 read_octet s) (\<lambda>(d, s). Some ([a, b, c, d], s)))))"

text \<open>\<open>read_groups\<close>: the groups from index \<open>i\<close> of \<open>limit\<close>, whether they end in an IPv4 address, and the rest.\<close>

function read_groups :: "nat \<Rightarrow> nat \<Rightarrow> str \<Rightarrow> nat list \<times> bool \<times> str" where
  "read_groups limit i s =
     (if i \<ge> limit then ([], False, s)
      else case (if i < limit - 1 then read_separator 58 i read_ipv4_addr s else None) of
        Some (v4, s') \<Rightarrow> ([256 * v4 ! 0 + v4 ! 1, 256 * v4 ! 2 + v4 ! 3], True, s')
      | None \<Rightarrow>
          (case read_separator 58 i (read_number 16 (Some 4) True 65536) s of
             None \<Rightarrow> ([], False, s)
           | Some (g, s') \<Rightarrow> (case read_groups limit (Suc i) s' of (gs, v4, s'') \<Rightarrow> (g # gs, v4, s''))))"
  by pat_completeness auto

termination
  by (relation "measure (\<lambda>(limit, i, s). limit - i)") auto

declare read_groups.simps [simp del]

definition read_ipv6_addr :: "str \<Rightarrow> (nat list \<times> str) option" where
  "read_ipv6_addr s =
     (case read_groups 8 0 s of (head, head_ipv4, s1) \<Rightarrow>
      if length head = 8 then Some (head, s1)
      else if head_ipv4 then None
      else Option.bind (read_given_char 58 s1) (\<lambda>s2.
           Option.bind (read_given_char 58 s2) (\<lambda>s3.
             case read_groups (8 - (length head + 1)) 0 s3 of (tail, _, s4) \<Rightarrow>
               Some (head @ replicate (8 - length head - length tail) 0 @ tail, s4))))"

definition read_port :: "str \<Rightarrow> (nat \<times> str) option" where
  "read_port s = Option.bind (read_given_char 58 s) (read_number 10 None True 65536)"

definition read_scope_id :: "str \<Rightarrow> (nat \<times> str) option" where
  "read_scope_id s = Option.bind (read_given_char 37 s) (read_number 10 None True (2 ^ 32))"

definition read_socket_addr_v4 :: "str \<Rightarrow> (socket_addr \<times> str) option" where
  "read_socket_addr_v4 s =
     Option.bind (read_ipv4_addr s) (\<lambda>(ip, s).
     Option.bind (read_port s) (\<lambda>(port, s).
       Some (SocketV4 (of_nat (foldl (\<lambda>acc d. 256 * acc + d) 0 ip)) (of_nat port), s)))"

definition read_socket_addr_v6 :: "str \<Rightarrow> (socket_addr \<times> str) option" where
  "read_socket_addr_v6 s =
     Option.bind (read_given_char 91 s) (\<lambda>s.
     Option.bind (read_ipv6_addr s) (\<lambda>(ip, s).
     (case (case read_scope_id s of Some r \<Rightarrow> r | None \<Rightarrow> (0, s)) of (scope, s) \<Rightarrow>
     Option.bind (read_given_char 93 s) (\<lambda>s.
     Option.bind (read_port s) (\<lambda>(port, s).
       Some (SocketV6 (map of_nat ip) (of_nat port) (of_nat scope), s))))))"

text \<open>The whole string must be read.\<close>

definition parse_socket_addr :: "str \<Rightarrow> socket_addr option" where
  "parse_socket_addr s =
     (case (case read_socket_addr_v4 s of Some r \<Rightarrow> Some r | None \<Rightarrow> read_socket_addr_v6 s) of
        Some (a, []) \<Rightarrow> Some a
      | _ \<Rightarrow> None)"

end
