(* ===== verification/Ap2_Request.thy ===== *)
theory Ap2_Request
  imports Ap2_Body Ap2_Session Pairing_Server Rust_Net
begin

text \<open>
  Requests at the AirPlay 2 receiver: classification (\<open>src/receiver/ap2/request_router.rs\<close>),
  the guarded dispatch to a table of handlers (\<open>request_handler.rs\<close>), the handlers for
  \<open>/command\<close> and \<open>/feedback\<close> (\<open>command_handler.rs\<close>) and for pairing (\<open>pairing_handlers.rs\<close>).

  The handlers are closures over shared state behind locks. A handler is a function from
  that state, so that dispatch passes it through; its outcome is a result, a panic, or a
  thread that waits for ever on a lock it holds itself. The \<open>error\<close> field of a result, a text
  for the log in the code, is a value here; so is the debug text of a received command.
\<close>

section \<open>Classification\<close>

datatype ap2_rtsp_method =
    R_Options | R_Setup | R_Record | R_Pause | R_Flush | R_Teardown | R_GetParameter | R_SetParameter | R_Get

datatype ap2_endpoint =
    EP_Info | EP_PairSetup | EP_PairVerify | EP_FairPlaySetup | EP_Command | EP_Feedback | EP_AudioMode
  | EP_AuthSetup | EP_Unknown str

datatype ap2_request_type = RT_Rtsp ap2_rtsp_method | RT_Endpoint ap2_endpoint | RT_Unknown

definition extract_path :: "str \<Rightarrow> str" where
  "extract_path uri =
     (case find_sub (ascii ''://'') uri of
        Some idx \<Rightarrow>
          (let after_scheme = drop (idx + 3) uri in
           case find_sub (ascii ''/'') after_scheme of
             Some path_idx \<Rightarrow> drop path_idx after_scheme
           | None \<Rightarrow> ascii ''/'')
      | None \<Rightarrow> uri)"

definition classify_get_endpoint :: "str \<Rightarrow> ap2_endpoint" where
  "classify_get_endpoint uri =
     (let path = extract_path uri in if path = ascii ''/info'' then EP_Info else EP_Unknown path)"

definition classify_post_endpoint :: "str \<Rightarrow> ap2_endpoint" where
  "classify_post_endpoint uri =
     (let path = extract_path uri in
      if path = ascii ''/pair-setup'' then EP_PairSetup
      else if path = ascii ''/pair-verify'' then EP_PairVerify
      else if path = ascii ''/fp-setup'' then EP_FairPlaySetup
      else if path = ascii ''/command'' then EP_Command
      else if path = ascii ''/feedback'' then EP_Feedback
      else if path = ascii ''/audioMode'' then EP_AudioMode
      else if path = ascii ''/auth-setup'' then EP_AuthSetup
      else EP_Unknown path)"

definition classify :: "rtsp_request \<Rightarrow> ap2_request_type" where
  "classify request =
     (case rq_method request of
        Method_Options \<Rightarrow> RT_Rtsp R_Options
      | Method_Setup \<Rightarrow> RT_Rtsp R_Setup
      | Method_Record \<Rightarrow> RT_Rtsp R_Record
      | Method_Pause \<Rightarrow> RT_Rtsp R_Pause
      | Method_Flush \<Rightarrow> RT_Rtsp R_Flush
      | Method_Teardown \<Rightarrow> RT_Rtsp R_Teardown
      | Method_GetParameter \<Rightarrow> RT_Rtsp R_GetParameter
      | Method_SetParameter \<Rightarrow> RT_Rtsp R_SetParameter
      | Method_Get \<Rightarrow> RT_Endpoint (classify_get_endpoint (rq_uri request))
      | Method_Post \<Rightarrow> RT_Endpoint (classify_post_endpoint (rq_uri request))
      | _ \<Rightarrow> RT_Unknown)"

fun requires_auth :: "ap2_endpoint \<Rightarrow> bool" where
  "requires_auth EP_Info = False"
| "requires_auth EP_PairSetup = False"
| "requires_auth EP_PairVerify = False"
| "requires_auth EP_AuthSetup = False"
| "requires_auth _ = True"

fun expects_bplist :: "ap2_endpoint \<Rightarrow> bool" where
  "expects_bplist EP_Info = False"
| "expects_bplist (EP_Unknown _) = False"
| "expects_bplist _ = True"

section \<open>Events, results, handlers\<close>

datatype stream_type = ST_Audio | ST_Control | ST_Event | ST_Timing | ST_BufferedAudio | ST_Unknown u32

fun stream_type_from :: "u32 \<Rightarrow> stream_type" where
  "stream_type_from v =
     (if v = 96 then ST_Audio else if v = 103 then ST_Control else if v = 130 then ST_Event
      else if v = 150 then ST_Timing else ST_Unknown v)"

fun stream_type_to_i64 :: "stream_type \<Rightarrow> i64" where
  "stream_type_to_i64 ST_Audio = 96"
| "stream_type_to_i64 ST_BufferedAudio = 96"
| "stream_type_to_i64 ST_Control = 103"
| "stream_type_to_i64 ST_Event = 130"
| "stream_type_to_i64 ST_Timing = 150"
| "stream_type_to_i64 (ST_Unknown t) = ucast t"

datatype timing_protocol = TP_Ntp | TP_Ptp | TP_None

definition timing_protocol_from :: "str \<Rightarrow> timing_protocol" where
  "timing_protocol_from s =
     (let u = to_uppercase s in
      if u = ascii ''PTP'' then TP_Ptp else if u = ascii ''NONE'' then TP_None else TP_Ntp)"

datatype encryption_type = Enc_None | Enc_Aes128Ctr | Enc_ChaCha20Poly1305

record timing_peer_info =
  tpi_peer_id :: u64
  tpi_addresses :: "socket_addr list"

record audio_stream_format =
  asf_codec :: u32
  asf_sample_rate :: u32
  asf_channels :: u8
  asf_bits_per_sample :: u8
  asf_frames_per_packet :: u32
  asf_compression_type :: "u32 option"
  asf_spf :: "u32 option"

datatype playback_command =
    PC_Play | PC_Pause | PC_Stop | PC_SkipNext | PC_SkipPrevious | PC_Seek u64 | PC_SetRate u32 | PC_Unknown str

text \<open>An \<open>f32\<close> is its bit pattern.\<close>

datatype ap2_event =
    EV_PairingComplete bytes
  | EV_SetupPhase1Complete u16 u16 "timing_peer_info option" timing_protocol
  | EV_SetupPhase2Complete u16 u16 "audio_stream_format option" encryption_type "bytes option"
  | EV_StreamingStarted u16 u32
  | EV_StreamingPaused
  | EV_FlushRequested "u16 option" "u32 option"
  | EV_Teardown
  | EV_VolumeChanged u32
  | EV_MetadataUpdated
  | EV_CommandReceived playback_command

datatype handle_error =
    HE_MethodNotAllowed rtsp_method ap2_session_state
  | HE_AuthenticationRequired
  | HE_UnknownRequestType
  | HE_FairPlayNotSupported
  | HE_UnknownEndpoint str
  | HE_NotImplemented
  | HE_Body body_parse_error
  | HE_MissingCommandType
  | HE_EmptyBody
  | HE_Pairing server_pairing_error
  | HE_SetupStructure string
  | HE_SetupMissingField string
  | HE_UnknownStreamTypes
  | HE_NoPortsAvailable

record ap2_handle_result =
  hr_response :: bytes
  hr_new_state :: "ap2_session_state option"
  hr_event :: "ap2_event option"
  hr_error :: "handle_error option"

record ap2_request_context =
  cx_state :: ap2_session_state
  cx_session_id :: "str option"
  cx_encrypted :: bool
  cx_decrypt :: "(bytes \<Rightarrow> (str, bytes) result) option"

datatype 'a outcome = Done 'a | Panicked | Blocked

type_synonym 's handler_fn =
  "'s \<Rightarrow> rtsp_request \<Rightarrow> u32 \<Rightarrow> ap2_request_context \<Rightarrow> ('s \<times> ap2_handle_result) outcome"

record 's ap2_handlers =
  h_info :: "'s handler_fn"
  h_pair_setup :: "'s handler_fn"
  h_pair_verify :: "'s handler_fn"
  h_auth_setup :: "'s handler_fn"
  h_setup :: "'s handler_fn"
  h_record :: "'s handler_fn"
  h_pause :: "'s handler_fn"
  h_flush :: "'s handler_fn"
  h_teardown :: "'s handler_fn"
  h_get_parameter :: "'s handler_fn"
  h_set_parameter :: "'s handler_fn"
  h_command :: "'s handler_fn"
  h_feedback :: "'s handler_fn"
  h_audio_mode :: "'s handler_fn"

text \<open>A response without a state change or an event.\<close>

definition plain_result :: "response_builder \<Rightarrow> handle_error option \<Rightarrow> ap2_handle_result" where
  "plain_result b e = \<lparr>hr_response = response_encode b, hr_new_state = None, hr_event = None, hr_error = e\<rparr>"

definition error_response :: "u16 \<Rightarrow> u32 \<Rightarrow> response_builder" where
  "error_response status cseq = response_cseq (ap2_error status) cseq"

section \<open>Dispatch\<close>

definition OPTIONS_METHODS :: str where
  "OPTIONS_METHODS = ascii ''OPTIONS, GET, POST, SETUP, RECORD, PAUSE, FLUSH, TEARDOWN, GET_PARAMETER, SET_PARAMETER''"

definition handle_options :: "u32 \<Rightarrow> ap2_handle_result" where
  "handle_options cseq =
     plain_result (ap2_server (response_header (response_cseq ap2_ok cseq) (ascii ''Public'') OPTIONS_METHODS) ''366.0'') None"

fun handle_rtsp_method ::
    "ap2_rtsp_method \<Rightarrow> 's ap2_handlers \<Rightarrow> 's \<Rightarrow> rtsp_request \<Rightarrow> u32 \<Rightarrow> ap2_request_context
     \<Rightarrow> ('s \<times> ap2_handle_result) outcome" where
  "handle_rtsp_method R_Options h s request cseq cx = Done (s, handle_options cseq)"
| "handle_rtsp_method R_Setup h s request cseq cx = h_setup h s request cseq cx"
| "handle_rtsp_method R_Record h s request cseq cx = h_record h s request cseq cx"
| "handle_rtsp_method R_Pause h s request cseq cx = h_pause h s request cseq cx"
| "handle_rtsp_method R_Flush h s request cseq cx = h_flush h s request cseq cx"
| "handle_rtsp_method R_Teardown h s request cseq cx = h_teardown h s request cseq cx"
| "handle_rtsp_method R_GetParameter h s request cseq cx = h_get_parameter h s request cseq cx"
| "handle_rtsp_method R_SetParameter h s request cseq cx = h_set_parameter h s request cseq cx"
| "handle_rtsp_method R_Get h s request cseq cx = Done (s, plain_result (error_response 404 cseq) None)"

fun handle_endpoint ::
    "ap2_endpoint \<Rightarrow> 's ap2_handlers \<Rightarrow> 's \<Rightarrow> rtsp_request \<Rightarrow> u32 \<Rightarrow> ap2_request_context
     \<Rightarrow> ('s \<times> ap2_handle_result) outcome" where
  "handle_endpoint EP_Info h s request cseq cx = h_info h s request cseq cx"
| "handle_endpoint EP_PairSetup h s request cseq cx = h_pair_setup h s request cseq cx"
| "handle_endpoint EP_PairVerify h s request cseq cx = h_pair_verify h s request cseq cx"
| "handle_endpoint EP_Command h s request cseq cx = h_command h s request cseq cx"
| "handle_endpoint EP_Feedback h s request cseq cx = h_feedback h s request cseq cx"
| "handle_endpoint EP_AudioMode h s request cseq cx = h_audio_mode h s request cseq cx"
| "handle_endpoint EP_AuthSetup h s request cseq cx = h_auth_setup h s request cseq cx"
| "handle_endpoint EP_FairPlaySetup h s request cseq cx =
     Done (s, plain_result (error_response 501 cseq) (Some HE_FairPlayNotSupported))"
| "handle_endpoint (EP_Unknown path) h s request cseq cx =
     Done (s, plain_result (error_response 404 cseq) (Some (HE_UnknownEndpoint path)))"

text \<open>The states name methods by HOL strings.\<close>

definition str_string :: "str \<Rightarrow> string" where
  "str_string s = map (\<lambda>b. char_of (unat b)) s"

definition handle_ap2_request ::
    "'s ap2_handlers \<Rightarrow> 's \<Rightarrow> rtsp_request \<Rightarrow> ap2_request_context \<Rightarrow> ('s \<times> ap2_handle_result) outcome" where
  "handle_ap2_request h s request cx =
     (let cseq = (case headers_cseq (rq_headers request) of Some n \<Rightarrow> of_nat n | None \<Rightarrow> 0);
          request_type = classify request in
      if \<not> ap2_allows_method (cx_state cx) (str_string (method_as_str (rq_method request)))
      then Done (s, plain_result (error_response 455 cseq) (Some (HE_MethodNotAllowed (rq_method request) (cx_state cx))))
      else case request_type of
        RT_Endpoint endpoint \<Rightarrow>
          if requires_auth endpoint \<and> \<not> ap2_is_authenticated (cx_state cx)
          then Done (s, plain_result (auth_required cseq) (Some HE_AuthenticationRequired))
          else handle_endpoint endpoint h s request cseq cx
      | RT_Rtsp m \<Rightarrow> handle_rtsp_method m h s request cseq cx
      | RT_Unknown \<Rightarrow> Done (s, plain_result (error_response 501 cseq) (Some HE_UnknownRequestType)))"

definition stub_handler :: "'s handler_fn" where
  "stub_handler s request cseq cx = Done (s, plain_result (error_response 501 cseq) (Some HE_NotImplemented))"

section \<open>Commands\<close>

text \<open>\<open>i as f32\<close>: the nearest value, ties to even.\<close>

definition f32_of_i64 :: "i64 \<Rightarrow> u32" where
  "f32_of_i64 i =
     (let m = nat \<bar>sint i\<bar>; e = length (takeWhile (\<lambda>k. 2 ^ k \<le> m) [1..<65]);
          sign = (if sint i < 0 then push_bit 31 1 else 0) in
      if m = 0 then 0
      else if e \<le> 23 then sign OR push_bit 23 (of_nat (e + 127)) OR of_nat (m * 2 ^ (23 - e) - 2 ^ 23)
      else let d = 2 ^ (e - 23); q = m div d; r = m mod d;
               q' = (if 2 * r > d \<or> 2 * r = d \<and> odd q then q + 1 else q)
           in sign OR (push_bit 23 (of_nat (e + 127)) + of_nat (q' - 2 ^ 23)))"

definition command_from_plist :: "plist \<Rightarrow> playback_command option" where
  "command_from_plist v =
     Option.bind (get_string v ''type'') (\<lambda>cmd_type.
       if cmd_type = ascii ''play'' then Some PC_Play
       else if cmd_type = ascii ''pause'' then Some PC_Pause
       else if cmd_type = ascii ''stop'' then Some PC_Stop
       else if cmd_type \<in> {ascii ''nextItem'', ascii ''skipNext''} then Some PC_SkipNext
       else if cmd_type \<in> {ascii ''previousItem'', ascii ''skipPrevious''} then Some PC_SkipPrevious
       else if cmd_type = ascii ''seekToPosition''
       then Option.bind (get_int v ''position'') (\<lambda>p. if 0 \<le> sint p then Some (PC_Seek p) else None)
       else if cmd_type = ascii ''setPlaybackRate''
       then Some (PC_SetRate (case get_int v ''rate'' of Some i \<Rightarrow> f32_of_i64 i | None \<Rightarrow> 0x3F800000))
       else Some (PC_Unknown cmd_type))"

definition handle_command :: "(nat \<Rightarrow> bool) \<Rightarrow> 's handler_fn" where
  "handle_command alloc s request cseq cx =
     (case parse_bplist_body alloc (rq_body request) of
        None \<Rightarrow> Panicked
      | Some (Inl e) \<Rightarrow> Done (s, plain_result (error_response 400 cseq) (Some (HE_Body e)))
      | Some (Inr v) \<Rightarrow>
          (case command_from_plist v of
             None \<Rightarrow> Done (s, plain_result (error_response 400 cseq) (Some HE_MissingCommandType))
           | Some command \<Rightarrow>
               (case encode_bplist_body (PDictionary [(ascii ''status'', PInteger 0)]) of
                  None \<Rightarrow> Panicked
                | Some (Inl e) \<Rightarrow> Done (s, plain_result (error_response 500 cseq) (Some (HE_Body e)))
                | Some (Inr body) \<Rightarrow>
                    Done (s, (plain_result (ap2_binary_body
                        (response_header (response_cseq ap2_ok cseq) (ascii ''Content-Type'') BINARY_PLIST) body) None)
                      \<lparr>hr_event := Some (EV_CommandReceived command)\<rparr>))))"

definition handle_feedback :: "(nat \<Rightarrow> bool) \<Rightarrow> 's handler_fn" where
  "handle_feedback alloc s request cseq cx =
     (if rq_body request = [] then Done (s, plain_result (response_cseq ap2_ok cseq) None)
      else case parse_bplist_body alloc (rq_body request) of
        None \<Rightarrow> Panicked
      | Some (Inl e) \<Rightarrow> Done (s, plain_result (error_response 400 cseq) (Some (HE_Body e)))
      | Some (Inr _) \<Rightarrow> Done (s, plain_result (response_cseq ap2_ok cseq) None))"

definition handlers_default :: "(nat \<Rightarrow> bool) \<Rightarrow> 's ap2_handlers" where
  "handlers_default alloc =
     \<lparr>h_info = stub_handler, h_pair_setup = stub_handler, h_pair_verify = stub_handler, h_auth_setup = stub_handler,
      h_setup = stub_handler, h_record = stub_handler, h_pause = stub_handler, h_flush = stub_handler,
      h_teardown = stub_handler, h_get_parameter = stub_handler, h_set_parameter = stub_handler,
      h_command = handle_command alloc, h_feedback = handle_feedback alloc, h_audio_mode = stub_handler\<rparr>"

section \<open>Pairing\<close>

text \<open>The text of a pairing error; the cause inside \<open>TlvDecode\<close> is left out.\<close>

fun pairing_error_text :: "server_pairing_error \<Rightarrow> string" where
  "pairing_error_text SE_TlvDecode = ''TLV decode error''"
| "pairing_error_text (SE_UnexpectedState n) = ''Unexpected pairing state: '' @ str_string (dec_string (unat n))"
| "pairing_error_text SE_InvalidState = ''Invalid state machine state''"
| "pairing_error_text (SE_UnsupportedMethod n) = ''Unsupported pairing method: '' @ str_string (dec_string (unat n))"
| "pairing_error_text SE_NoPassword = ''No password/PIN configured''"
| "pairing_error_text (SE_MissingField f) = ''Missing required field: '' @ f"
| "pairing_error_text SE_AuthenticationFailed = ''Authentication failed - wrong PIN/password''"
| "pairing_error_text SE_DecryptionFailed = ''Decryption failed''"
| "pairing_error_text SE_SignatureVerificationFailed = ''Signature verification failed''"

definition pairing_new_state :: "pairing_result \<Rightarrow> ap2_session_state option" where
  "pairing_new_state r =
     (case pr_new_state r of
        Srv_WaitingForM3 \<Rightarrow> Some (Ap2_PairingSetup 2)
      | Srv_PairSetupComplete \<Rightarrow> Some (Ap2_PairingSetup 4)
      | Srv_VerifyWaitingForM3 \<Rightarrow> Some (Ap2_PairingVerify 2)
      | Srv_Complete \<Rightarrow> Some Ap2_Paired
      | Srv_Error \<Rightarrow> Some (Ap2_Error 470 (case pr_error r of None \<Rightarrow> ''Pairing error'' | Some e \<Rightarrow> pairing_error_text e))
      | Srv_Idle \<Rightarrow> None)"

text \<open>
  \<open>pairing_result_to_handle_result\<close>. Its callers hold the lock on the server; to emit the
  completion event it takes that lock again, which the standard mutex never grants.
\<close>

definition pairing_result_to_handle_result :: "bool \<Rightarrow> pairing_result \<Rightarrow> u32 \<Rightarrow> bool \<Rightarrow> (pairing_server \<Rightarrow> ap2_handle_result) outcome" where
  "pairing_result_to_handle_result lock_held r cseq emit_complete_event =
     (if emit_complete_event \<and> pr_complete r \<and> lock_held then Blocked
      else Done (\<lambda>server.
        \<lparr>hr_response = response_encode (ap2_binary_body (response_cseq ap2_ok cseq) (pr_response r)),
         hr_new_state = pairing_new_state r,
         hr_event = (if emit_complete_event \<and> pr_complete r
                     then map_option (\<lambda>keys. EV_PairingComplete (ek_encrypt_key keys)) (srv_encryption_keys server)
                     else None),
         hr_error = map_option HE_Pairing (pr_error r)\<rparr>))"

definition finish_pairing ::
    "pairing_server \<Rightarrow> pairing_result \<Rightarrow> u32 \<Rightarrow> bool \<Rightarrow> (pairing_server \<times> ap2_handle_result) outcome" where
  "finish_pairing server r cseq emit =
     (case pairing_result_to_handle_result True r cseq emit of
        Done f \<Rightarrow> Done (server, f server) | Panicked \<Rightarrow> Panicked | Blocked \<Rightarrow> Blocked)"

definition ap2_handle_pair_setup :: "crypto_lib \<Rightarrow> nat \<Rightarrow> pairing_server handler_fn" where
  "ap2_handle_pair_setup L random server request cseq cx =
     (if rq_body request = [] then Done (server, plain_result (error_response 400 cseq) (Some HE_EmptyBody))
      else case process_pair_setup L server random (rq_body request) of
        None \<Rightarrow> Panicked
      | Some (server', r) \<Rightarrow> finish_pairing server' r cseq False)"

definition ap2_handle_pair_verify :: "crypto_lib \<Rightarrow> bytes \<Rightarrow> pairing_server handler_fn" where
  "ap2_handle_pair_verify L keypair server request cseq cx =
     (if rq_body request = [] then Done (server, plain_result (error_response 400 cseq) (Some HE_EmptyBody))
      else case process_pair_verify L server keypair (rq_body request) of
        None \<Rightarrow> Panicked
      | Some (server', r) \<Rightarrow> finish_pairing server' r cseq (pr_new_state r = Srv_Complete))"

definition create_pairing_handlers ::
    "crypto_lib \<Rightarrow> nat \<Rightarrow> bytes \<Rightarrow> pairing_server handler_fn \<times> pairing_server handler_fn" where
  "create_pairing_handlers L random keypair = (ap2_handle_pair_setup L random, ap2_handle_pair_verify L keypair)"

section \<open>Lemmas\<close>

lemma str_string_ascii [simp]: "str_string (ascii s) = s"
proof -
  have "unat (of_char c :: u8) = of_char c" for c
    using nat_of_char_less_256 [of c] unat_of_nat_small [of "of_char c :: nat", where 'a = 8] by (simp add: of_nat_of_char)
  then show ?thesis by (simp add: str_string_def ascii_def map_idI)
qed

text \<open>What holds of every result a call of the pairing server returns.\<close>

definition every_result :: "(pairing_result \<Rightarrow> bool) \<Rightarrow> server_outcome \<Rightarrow> bool" where
  "every_result P out \<longleftrightarrow> (\<forall>s r. out = Some (s, r) \<longrightarrow> P r)"

lemma every_error: "P (snd (error_result s e)) \<Longrightarrow> every_result P (Some (error_result s e))"
  by (cases "error_result s e") (simp add: every_result_def)

lemma every_or_error:
  "P (snd (error_result s e)) \<Longrightarrow> (\<And>y. every_result P (f y)) \<Longrightarrow> every_result P (or_error s e x f)"
  by (simp add: or_error_def every_error split: option.split)

lemma every_bind: "(\<And>y. every_result P (f y)) \<Longrightarrow> every_result P (Option.bind x f)"
  by (cases x) (simp_all add: every_result_def)

lemma every_case: "(\<And>a b. every_result P (f a b)) \<Longrightarrow> every_result P (case p of (a, b) \<Rightarrow> f a b)"
  by (cases p) simp

lemma every_if: "(b \<Longrightarrow> every_result P x) \<Longrightarrow> (\<not> b \<Longrightarrow> every_result P y) \<Longrightarrow> every_result P (if b then x else y)"
  by simp

lemma every_Some: "P r \<Longrightarrow> every_result P (Some (s, r))"
  by (simp add: every_result_def)

lemma every_None: "every_result P None"
  by (simp add: every_result_def)

lemmas every_rules = every_error every_or_error every_bind every_case every_if every_Some every_None

text \<open>A result that ends pair-verify is marked complete; pair-setup never ends it.\<close>

lemma process_pair_verify_completes:
  "every_result (\<lambda>r. pr_new_state r = Srv_Complete \<longrightarrow> pr_complete r) (process_pair_verify L s keypair data)"
proof -
  note rules = every_rules [where P = "\<lambda>r. pr_new_state r = Srv_Complete \<longrightarrow> pr_complete r"]
  show ?thesis
    unfolding process_pair_verify_def handle_pair_verify_m1_def handle_pair_verify_m3_def Let_def
    by (cases "tlv_decode data") (auto intro!: rules simp: error_result_def Let_def)
qed

lemma process_pair_setup_not_complete:
  "every_result (\<lambda>r. pr_new_state r \<noteq> Srv_Complete) (process_pair_setup L s random data)"
proof -
  note rules = every_rules [where P = "\<lambda>r. pr_new_state r \<noteq> Srv_Complete"]
  show ?thesis
    unfolding process_pair_setup_def handle_pair_setup_m1_def handle_pair_setup_m3_def Let_def
    by (cases "tlv_decode data") (auto intro!: rules simp: error_result_def Let_def)
qed

lemma pairing_new_state_paired: "pairing_new_state r = Some Ap2_Paired \<longleftrightarrow> pr_new_state r = Srv_Complete"
  by (simp add: pairing_new_state_def split: pairing_server_state.split)

text \<open>The methods of an unauthenticated state.\<close>

lemma unauthenticated_methods:
  assumes "\<not> ap2_is_authenticated s" and "ap2_allows_method s (str_string (method_as_str m))"
  shows "m \<in> {Method_Options, Method_Get, Method_Post}"
  using assms by (cases s; cases m) (simp_all add: str_string_ascii ap2_is_authenticated_def)

lemma pause_not_allowed: "\<not> ap2_allows_method s (str_string (method_as_str Method_Pause))"
  by (cases s) (simp_all add: str_string_ascii)

lemma find_sub_prefix_free:
  "needle \<noteq> [] \<Longrightarrow> hd needle \<notin> set a \<Longrightarrow> find_sub needle (a @ needle @ b) = Some (length a)"
proof (induction a)
  case Nil
  then show ?case by (cases needle) simp_all
next
  case (Cons x a)
  then show ?case by (cases needle) auto
qed

lemma find_sub_absent: "needle \<noteq> [] \<Longrightarrow> hd needle \<notin> set a \<Longrightarrow> find_sub needle a = None"
proof (induction a)
  case (Cons x a)
  then show ?case by (cases needle) auto
qed simp

lemma extract_path_url:
  assumes "58 \<notin> set scheme" and "47 \<notin> set host" and "path \<noteq> []" and "hd path = 47"
  shows "extract_path (scheme @ ascii ''://'' @ host @ path) = path"
proof -
  obtain rest where path: "path = ascii ''/'' @ rest" using assms(3,4) by (cases path) (auto simp: ascii_def)
  have "find_sub (ascii ''://'') (scheme @ ascii ''://'' @ host @ path) = Some (length scheme)"
    by (rule find_sub_prefix_free) (use assms(1) in \<open>simp_all add: ascii_def\<close>)
  moreover have "find_sub (ascii ''/'') (host @ path) = Some (length host)"
    unfolding path by (rule find_sub_prefix_free) (use assms(2) in \<open>simp_all add: ascii_def\<close>)
  moreover have "drop (length scheme + 3) (scheme @ ascii ''://'' @ host @ path) = host @ path"
    by (simp add: ascii_def)
  ultimately show ?thesis by (simp add: extract_path_def)
qed

text \<open>The table with the pairing handlers, and what their results never say.\<close>

definition pairing_handlers_table ::
    "(nat \<Rightarrow> bool) \<Rightarrow> crypto_lib \<Rightarrow> nat \<Rightarrow> bytes \<Rightarrow> pairing_server ap2_handlers" where
  "pairing_handlers_table alloc L random keypair =
     (handlers_default alloc)\<lparr>h_pair_setup := fst (create_pairing_handlers L random keypair),
        h_pair_verify := snd (create_pairing_handlers L random keypair)\<rparr>"

definition unpaired :: "(pairing_server \<times> ap2_handle_result) outcome \<Rightarrow> bool" where
  "unpaired out \<longleftrightarrow> (\<forall>s r. out = Done (s, r) \<longrightarrow>
     hr_new_state r \<noteq> Some Ap2_Paired \<and> (\<forall>key. hr_event r \<noteq> Some (EV_PairingComplete key)))"

lemma unpaired_simple [simp]:
  "unpaired (Done (s, plain_result b e))" "unpaired Panicked" "unpaired Blocked"
  "unpaired (Done (s, (plain_result b e)\<lparr>hr_event := Some (EV_CommandReceived c)\<rparr>))"
  by (simp_all add: unpaired_def plain_result_def)

lemma finish_pairing_unpaired:
  assumes "pr_new_state r \<noteq> Srv_Complete \<and> \<not> emit \<or> pr_complete r \<and> emit"
  shows "unpaired (finish_pairing server r cseq emit)"
  using assms pairing_new_state_paired [of r]
  by (auto simp: unpaired_def finish_pairing_def pairing_result_to_handle_result_def)

lemma pair_setup_unpaired: "unpaired (ap2_handle_pair_setup L random server request cseq cx)"
proof (cases "process_pair_setup L server random (rq_body request)")
  case (Some out)
  then obtain server' r where "process_pair_setup L server random (rq_body request) = Some (server', r)" by (cases out) simp
  moreover from this have "pr_new_state r \<noteq> Srv_Complete"
    using process_pair_setup_not_complete [of L server random "rq_body request"] by (simp add: every_result_def)
  ultimately show ?thesis by (simp add: ap2_handle_pair_setup_def finish_pairing_unpaired)
qed (simp add: ap2_handle_pair_setup_def)

lemma pair_verify_unpaired: "unpaired (ap2_handle_pair_verify L keypair server request cseq cx)"
proof (cases "process_pair_verify L server keypair (rq_body request)")
  case (Some out)
  then obtain server' r where "process_pair_verify L server keypair (rq_body request) = Some (server', r)" by (cases out) simp
  moreover from this have "pr_new_state r = Srv_Complete \<longrightarrow> pr_complete r"
    using process_pair_verify_completes [of L server keypair "rq_body request"] by (simp add: every_result_def)
  ultimately show ?thesis by (auto simp: ap2_handle_pair_verify_def intro: finish_pairing_unpaired)
qed (simp add: ap2_handle_pair_verify_def)

lemma dispatch_unpaired: "unpaired (handle_ap2_request (pairing_handlers_table alloc L random keypair) server request cx)"
proof -
  let ?h = "pairing_handlers_table alloc L random keypair"
  note defs = pairing_handlers_table_def create_pairing_handlers_def handlers_default_def stub_handler_def
  have "unpaired (handle_rtsp_method m ?h server request cseq cx)" for m cseq
    by (cases m) (simp_all add: defs handle_options_def)
  moreover have "unpaired (handle_endpoint e ?h server request cseq cx)" for e cseq
    by (cases e) (simp_all add: defs pair_setup_unpaired pair_verify_unpaired handle_command_def handle_feedback_def
        split: option.split sum.split)
  ultimately show ?thesis by (simp add: handle_ap2_request_def Let_def split: ap2_request_type.split)
qed

lemma ap2_verify_completion_blocks:
  assumes "process_pair_verify L server keypair (rq_body request) = Some (server', r)"
    and "pr_new_state r = Srv_Complete" and "rq_body request \<noteq> []"
  shows "ap2_handle_pair_verify L keypair server request cseq cx = Blocked"
proof -
  have "pr_complete r"
    using process_pair_verify_completes [of L server keypair "rq_body request"] assms(1,2) by (simp add: every_result_def)
  then show ?thesis
    using assms by (simp add: ap2_handle_pair_verify_def finish_pairing_def pairing_result_to_handle_result_def)
qed

section \<open>Properties\<close>

text \<open>
  C21. Before a sender is authenticated, only four handlers can run: two tables of handlers that
  agree on \<open>/info\<close>, \<open>/pair-setup\<close>, \<open>/pair-verify\<close> and \<open>/auth-setup\<close> treat every request alike, so
  no request reaches SETUP, RECORD, FLUSH, the parameter handlers, \<open>/command\<close>, \<open>/feedback\<close> or
  \<open>/audioMode\<close>, whatever its method, path, headers and body.
\<close>

theorem ap2_unauthenticated_confined:
  assumes "\<not> ap2_is_authenticated (cx_state cx)"
    and "h_info h = h_info h'" "h_pair_setup h = h_pair_setup h'" "h_pair_verify h = h_pair_verify h'"
      "h_auth_setup h = h_auth_setup h'"
  shows "handle_ap2_request h s request cx = handle_ap2_request h' s request cx"
proof (cases "ap2_allows_method (cx_state cx) (str_string (method_as_str (rq_method request)))")
  case True
  have "handle_endpoint e h s request cseq cx = handle_endpoint e h' s request cseq cx" if "\<not> requires_auth e" for e cseq
    using that assms(2-5) by (cases e) simp_all
  moreover have "rq_method request \<in> {Method_Options, Method_Get, Method_Post}"
    by (rule unauthenticated_methods [OF assms(1) True])
  ultimately show ?thesis
    using assms(1) by (auto simp: handle_ap2_request_def classify_def Let_def)
qed (simp add: handle_ap2_request_def Let_def)

text \<open>A POST to \<open>/command\<close> before pairing, against the default handlers and against stubs.\<close>

definition stub_handlers :: "unit ap2_handlers" where
  "stub_handlers = (handlers_default (\<lambda>n. True))\<lparr>h_command := stub_handler, h_feedback := stub_handler\<rparr>"

definition demo_context :: ap2_request_context where
  "demo_context = \<lparr>cx_state = Ap2_Connected, cx_session_id = None, cx_encrypted = False, cx_decrypt = None\<rparr>"

theorem ap2_unauthenticated_confined_witness:
  "\<not> ap2_is_authenticated (cx_state demo_context)
   \<and> handle_ap2_request (handlers_default (\<lambda>n. True)) () (request_new Method_Post (ascii ''/command'')) demo_context
     = handle_ap2_request stub_handlers () (request_new Method_Post (ascii ''/command'')) demo_context"
proof
  show a: "\<not> ap2_is_authenticated (cx_state demo_context)" by (simp add: ap2_is_authenticated_def demo_context_def)
  show "handle_ap2_request (handlers_default (\<lambda>n. True)) () (request_new Method_Post (ascii ''/command'')) demo_context
     = handle_ap2_request stub_handlers () (request_new Method_Post (ascii ''/command'')) demo_context"
    by (rule ap2_unauthenticated_confined [OF a]) (simp_all add: stub_handlers_def handlers_default_def)
qed

text \<open>
  Pairing never completes at the receiver: with the pairing handlers installed, no request is
  answered with the state \<open>Paired\<close> or with a completion event. The message that would complete
  pair-verify makes the handler lock the pairing server a second time, and the thread waits
  for ever.
\<close>

theorem ap2_pairing_never_completes:
  assumes "handle_ap2_request (pairing_handlers_table alloc L random keypair) server request cx = Done (server', result)"
  shows "hr_new_state result \<noteq> Some Ap2_Paired \<and> (\<forall>key. hr_event result \<noteq> Some (EV_PairingComplete key))"
  using dispatch_unpaired [of alloc L random keypair server request cx] assms by (simp add: unpaired_def)

theorem ap2_pairing_never_completes_witness:
  "\<exists>server' result.
     handle_ap2_request (pairing_handlers_table (\<lambda>n. True) demo_lib 5 []) (pairing_server_new [] [])
       (request_new Method_Post (ascii ''/pair-setup'')) demo_context = Done (server', result)
     \<and> hr_new_state result \<noteq> Some Ap2_Paired"
proof -
  let ?r = "plain_result (error_response 400 0) (Some HE_EmptyBody)"
  have "handle_ap2_request (pairing_handlers_table (\<lambda>n. True) demo_lib 5 []) (pairing_server_new [] [])
      (request_new Method_Post (ascii ''/pair-setup'')) demo_context = Done (pairing_server_new [] [], ?r)"
    by (simp add: handle_ap2_request_def pairing_handlers_table_def create_pairing_handlers_def ap2_handle_pair_setup_def
        request_new_def demo_context_def classify_def classify_post_endpoint_def extract_path_def
        headers_cseq_def headers_get_def Let_def) (simp add: ascii_def)
  with ap2_pairing_never_completes [OF this] show ?thesis by blast
qed

text \<open>
  Requests are routed by their path alone: a request for a full URL is classified like the same
  request for its path, for every scheme without a colon and every host without a slash.
\<close>

theorem ap2_full_url_routing:
  assumes "58 \<notin> set scheme" and "47 \<notin> set host" and "path \<noteq> []" and "hd path = 47" and "58 \<notin> set path"
  shows "classify (request\<lparr>rq_uri := scheme @ ascii ''://'' @ host @ path\<rparr>) = classify (request\<lparr>rq_uri := path\<rparr>)"
proof -
  have "extract_path path = path"
    using find_sub_absent [of "ascii ''://''" path] assms(5) by (simp add: extract_path_def ascii_def)
  then show ?thesis
    using extract_path_url [OF assms(1-4)]
    by (simp add: classify_def classify_get_endpoint_def classify_post_endpoint_def Let_def split: rtsp_method.split)
qed

theorem ap2_full_url_routing_witness:
  "classify ((request_new Method_Post [])\<lparr>rq_uri := ascii ''rtsp'' @ ascii ''://'' @ ascii ''10.0.0.2'' @ ascii ''/pair-verify''\<rparr>)
   = classify ((request_new Method_Post [])\<lparr>rq_uri := ascii ''/pair-verify''\<rparr>)"
  by (rule ap2_full_url_routing) (simp_all add: ascii_def)

text \<open>
  PAUSE is answered with 455 in every session state, and no handler runs, although the answer to
  OPTIONS lists it.
\<close>

theorem ap2_pause_always_refused:
  assumes "rq_method request = Method_Pause"
  shows "\<exists>cseq. handle_ap2_request h s request cx =
     Done (s, plain_result (error_response 455 cseq) (Some (HE_MethodNotAllowed Method_Pause (cx_state cx))))"
  using pause_not_allowed assms by (auto simp: handle_ap2_request_def Let_def)

theorem ap2_pause_always_refused_witness:
  "\<exists>cseq. handle_ap2_request (handlers_default (\<lambda>n. True)) () (request_new Method_Pause (ascii ''/'')) demo_context =
     Done ((), plain_result (error_response 455 cseq) (Some (HE_MethodNotAllowed Method_Pause (cx_state demo_context))))"
  by (rule ap2_pause_always_refused) (simp add: request_new_def)

end
