(* ===== verification/Ap2_Setup.thy ===== *)
theory Ap2_Setup
  imports Ap2_Request Plist_Roundtrip
begin

text \<open>
  The two-phase SETUP of the AirPlay 2 receiver, \<open>src/receiver/ap2/setup_handler.rs\<close>: parsing of
  the request's property list, the allocation of ports from a range, the two phases with the
  response they send, and the release of the ports at the end of a session. The locks of the
  handler are taken once each in every operation, so its state is passed explicitly. The
  search of the allocator is a loop that may not end for an arbitrary allocator; that it does
  for the allocators of the program is a theorem.
\<close>

section \<open>Requests\<close>

record stream_request =
  sr_stream_type :: stream_type
  sr_control_port :: "u16 option"
  sr_data_port :: "u16 option"
  sr_audio_format :: "audio_stream_format option"
  sr_sender_address :: "socket_addr option"

record setup_request =
  sq_streams :: "stream_request list"
  sq_timing_protocol :: timing_protocol
  sq_timing_peer_info :: "timing_peer_info option"
  sq_group_uuid :: "str option"
  sq_encryption_type :: encryption_type
  sq_shared_key :: "bytes option"

text \<open>An integer entry that fits an unsigned type: \<open>T::try_from(*i).ok()\<close>.\<close>

definition int_field :: "int \<Rightarrow> (str \<times> plist) list \<Rightarrow> string \<Rightarrow> i64 option" where
  "int_field bound d key =
     Option.bind (get_int (PDictionary d) key) (\<lambda>i. if 0 \<le> sint i \<and> sint i < bound then Some i else None)"

definition parse_audio_format :: "(str \<times> plist) list \<Rightarrow> audio_stream_format option" where
  "parse_audio_format d =
     map_option (\<lambda>codec.
       \<lparr>asf_codec = ucast codec,
        asf_sample_rate = (case int_field (2 ^ 32) d ''sr'' of Some i \<Rightarrow> ucast i | None \<Rightarrow> 44100),
        asf_channels = (case int_field (2 ^ 8) d ''ch'' of Some i \<Rightarrow> ucast i | None \<Rightarrow> 2),
        asf_bits_per_sample = (case int_field (2 ^ 8) d ''ss'' of Some i \<Rightarrow> ucast i | None \<Rightarrow> 16),
        asf_frames_per_packet = (case int_field (2 ^ 32) d ''fp'' of Some i \<Rightarrow> ucast i | None \<Rightarrow> 352),
        asf_compression_type = map_option ucast (int_field (2 ^ 32) d ''compressionType''),
        asf_spf = map_option ucast (int_field (2 ^ 32) d ''spf'')\<rparr>)
     (int_field (2 ^ 32) d ''ct'')"

definition parse_stream :: "plist \<Rightarrow> stream_request option" where
  "parse_stream v =
     map_option (\<lambda>d.
       \<lparr>sr_stream_type = (case int_field (2 ^ 32) d ''type'' of Some i \<Rightarrow> stream_type_from (ucast i) | None \<Rightarrow> ST_Unknown 0),
        sr_control_port = map_option ucast (int_field (2 ^ 16) d ''controlPort''),
        sr_data_port = map_option ucast (int_field (2 ^ 16) d ''dataPort''),
        sr_audio_format = parse_audio_format d,
        sr_sender_address = None\<rparr>)
     (as_dict v)"

definition parse_streams :: "(str \<times> plist) list \<Rightarrow> (handle_error, stream_request list) result" where
  "parse_streams d =
     (case dict_get d (ascii ''streams'') of
        None \<Rightarrow> Inl (HE_SetupMissingField ''streams'')
      | Some (PArray streams) \<Rightarrow> Inr (List.map_filter parse_stream streams)
      | Some _ \<Rightarrow> Inl (HE_SetupStructure ''streams must be array''))"

definition parse_timing_peer_info :: "(str \<times> plist) list \<Rightarrow> timing_peer_info option" where
  "parse_timing_peer_info d =
     map_option (\<lambda>info.
       \<lparr>tpi_peer_id = (case int_field (2 ^ 64) info ''ID'' of Some i \<Rightarrow> i | None \<Rightarrow> 0),
        tpi_addresses = (case get_array (PDictionary info) ''Addresses'' of
           Some arr \<Rightarrow> List.map_filter (\<lambda>a. Option.bind (as_str a) parse_socket_addr) arr
         | None \<Rightarrow> [])\<rparr>)
     (get_dict (PDictionary d) ''timingPeerInfo'')"

definition setup_from_plist :: "plist \<Rightarrow> (handle_error, setup_request) result" where
  "setup_from_plist v =
     (case v of
        PDictionary d \<Rightarrow>
          result_bind (parse_streams d) (\<lambda>streams. Inr
            \<lparr>sq_streams = streams,
             sq_timing_protocol = (case get_string v ''timingProtocol'' of Some s \<Rightarrow> timing_protocol_from s | None \<Rightarrow> TP_Ntp),
             sq_timing_peer_info = parse_timing_peer_info d,
             sq_group_uuid = get_string v ''groupUUID'',
             sq_encryption_type = (case get_int v ''et'' of
                Some i \<Rightarrow> if i = 1 then Enc_Aes128Ctr else if i = 4 then Enc_ChaCha20Poly1305 else Enc_None
              | None \<Rightarrow> Enc_None),
             sq_shared_key = get_bytes v ''shk''\<rparr>)
      | _ \<Rightarrow> Inl (HE_SetupStructure ''Expected dictionary''))"

definition setup_parse :: "(nat \<Rightarrow> bool) \<Rightarrow> bytes \<Rightarrow> (handle_error, setup_request) result option" where
  "setup_parse alloc body =
     map_option (\<lambda>r. result_bind (map_err HE_Body r) setup_from_plist) (parse_bplist_body alloc body)"

definition is_phase1 :: "setup_request \<Rightarrow> bool" where
  "is_phase1 r \<longleftrightarrow> (\<exists>s\<in>set (sq_streams r). sr_stream_type s \<in> {ST_Event, ST_Timing})"

definition is_phase2 :: "setup_request \<Rightarrow> bool" where
  "is_phase2 r \<longleftrightarrow> (\<exists>s\<in>set (sq_streams r). sr_stream_type s \<in> {ST_Audio, ST_BufferedAudio})"

section \<open>Responses\<close>

record stream_response =
  sp_stream_type :: stream_type
  sp_data_port :: "u16 option"
  sp_control_port :: "u16 option"
  sp_stream_id :: u64

record setup_response =
  sres_event_port :: "u16 option"
  sres_timing_port :: "u16 option"
  sres_data_port :: "u16 option"
  sres_control_port :: "u16 option"
  sres_audio_latency :: u32
  sres_timing_peer_info :: "timing_peer_info option"
  sres_streams :: "stream_response list"

definition setup_phase1 :: "u16 \<Rightarrow> u16 \<Rightarrow> setup_response" where
  "setup_phase1 event_port timing_port =
     \<lparr>sres_event_port = Some event_port, sres_timing_port = Some timing_port, sres_data_port = None,
      sres_control_port = None, sres_audio_latency = 0, sres_timing_peer_info = None,
      sres_streams =
        [\<lparr>sp_stream_type = ST_Event, sp_data_port = Some event_port, sp_control_port = None, sp_stream_id = 1\<rparr>,
         \<lparr>sp_stream_type = ST_Timing, sp_data_port = Some timing_port, sp_control_port = None, sp_stream_id = 2\<rparr>]\<rparr>"

definition setup_phase2 :: "u16 \<Rightarrow> u16 \<Rightarrow> u32 \<Rightarrow> setup_response" where
  "setup_phase2 data_port control_port audio_latency =
     \<lparr>sres_event_port = None, sres_timing_port = None, sres_data_port = Some data_port,
      sres_control_port = Some control_port, sres_audio_latency = audio_latency, sres_timing_peer_info = None,
      sres_streams =
        [\<lparr>sp_stream_type = ST_Audio, sp_data_port = Some data_port, sp_control_port = Some control_port, sp_stream_id = 3\<rparr>]\<rparr>"

definition insert_port :: "string \<Rightarrow> u16 option \<Rightarrow> (str \<times> plist) list \<Rightarrow> (str \<times> plist) list" where
  "insert_port key port d =
     (case port of Some p \<Rightarrow> dict_insert (ascii key) (PInteger (ucast p)) d | None \<Rightarrow> d)"

definition stream_to_plist :: "stream_response \<Rightarrow> plist" where
  "stream_to_plist s =
     PDictionary (insert_port ''controlPort'' (sp_control_port s) (insert_port ''dataPort'' (sp_data_port s)
       (dict_insert (ascii ''streamID'') (PInteger (sp_stream_id s))
         (dict_insert (ascii ''type'') (PInteger (stream_type_to_i64 (sp_stream_type s))) []))))"

definition setup_to_plist :: "setup_response \<Rightarrow> plist" where
  "setup_to_plist r =
     (let ports = insert_port ''controlPort'' (sres_control_port r) (insert_port ''dataPort'' (sres_data_port r)
            (insert_port ''timingPort'' (sres_timing_port r) (insert_port ''eventPort'' (sres_event_port r) [])));
          d = (if sres_audio_latency r > 0
               then dict_insert (ascii ''audioLatency'') (PInteger (ucast (sres_audio_latency r))) ports else ports)
      in PDictionary (dict_insert (ascii ''streams'') (PArray (map stream_to_plist (sres_streams r))) d))"

section \<open>Port allocation\<close>

record ap2_port_allocator =
  pa_next_port :: u16
  pa_allocated :: "u16 list"
  pa_range_start :: u16
  pa_range_end :: u16

definition ap2_port_allocator_new :: "u16 \<Rightarrow> u16 \<Rightarrow> ap2_port_allocator" where
  "ap2_port_allocator_new range_start range_end =
     \<lparr>pa_next_port = range_start, pa_allocated = [], pa_range_start = range_start, pa_range_end = range_end\<rparr>"

text \<open>\<open>port + 1\<close> on \<open>u16\<close>, wrapped to the start of the range; the addition panics at 65535.\<close>

definition port_after :: "ap2_port_allocator \<Rightarrow> u16 \<Rightarrow> u16 option" where
  "port_after a port =
     (if port = 0xFFFF then None
      else if port + 1 > pa_range_end a then Some (pa_range_start a) else Some (port + 1))"

text \<open>The search loop: a free port, no port, or a panic (\<open>Some None\<close>); not returning is \<open>None\<close>.\<close>

partial_function (option) port_search :: "ap2_port_allocator \<Rightarrow> u16 \<Rightarrow> u16 \<Rightarrow> (handle_error, u16) result option option" where
  "port_search a start port =
     (if port \<notin> set (pa_allocated a) then Some (Some (Inr port))
      else case port_after a port of
        None \<Rightarrow> Some None
      | Some p \<Rightarrow> if p = start then Some (Some (Inl HE_NoPortsAvailable)) else port_search a start p)"

definition allocate_port :: "ap2_port_allocator \<Rightarrow> (ap2_port_allocator \<times> (handle_error, u16) result) outcome" where
  "allocate_port a =
     (case port_search a (pa_next_port a) (pa_next_port a) of
        None \<Rightarrow> Blocked
      | Some None \<Rightarrow> Panicked
      | Some (Some (Inl e)) \<Rightarrow> Done (a, Inl e)
      | Some (Some (Inr port)) \<Rightarrow>
          (case port_after a port of
             None \<Rightarrow> Panicked
           | Some n \<Rightarrow> Done (a\<lparr>pa_allocated := pa_allocated a @ [port], pa_next_port := n\<rparr>, Inr port)))"

definition release_port :: "ap2_port_allocator \<Rightarrow> u16 \<Rightarrow> ap2_port_allocator" where
  "release_port a port = a\<lparr>pa_allocated := filter (\<lambda>p. p \<noteq> port) (pa_allocated a)\<rparr>"

definition release_all_ports :: "ap2_port_allocator \<Rightarrow> ap2_port_allocator" where
  "release_all_ports a = a\<lparr>pa_allocated := []\<rparr>"

section \<open>The handler\<close>

datatype setup_phase = Phase_None | Phase1Complete | Phase2Complete

record session_ports =
  sn_event_port :: "u16 option"
  sn_timing_port :: "u16 option"
  sn_audio_data_port :: "u16 option"
  sn_audio_control_port :: "u16 option"

record setup_handler =
  sh_port_allocator :: ap2_port_allocator
  sh_current_phase :: setup_phase
  sh_audio_latency_samples :: u32
  sh_session_ports :: session_ports

definition setup_handler_new :: "u16 \<Rightarrow> u16 \<Rightarrow> u32 \<Rightarrow> setup_handler" where
  "setup_handler_new port_range_start port_range_end audio_latency_samples =
     \<lparr>sh_port_allocator = ap2_port_allocator_new port_range_start port_range_end, sh_current_phase = Phase_None,
      sh_audio_latency_samples = audio_latency_samples,
      sh_session_ports = \<lparr>sn_event_port = None, sn_timing_port = None, sn_audio_data_port = None,
        sn_audio_control_port = None\<rparr>\<rparr>"

definition allocation_error :: "u32 \<Rightarrow> handle_error \<Rightarrow> ap2_handle_result" where
  "allocation_error cseq e = plain_result (error_response 453 cseq) (Some e)"

text \<open>The two allocations of a phase; when the second fails the first is undone.\<close>

definition allocate_pair ::
    "ap2_port_allocator \<Rightarrow> (ap2_port_allocator \<times> (handle_error, u16 \<times> u16) result) outcome" where
  "allocate_pair a =
     (case allocate_port a of
        Panicked \<Rightarrow> Panicked | Blocked \<Rightarrow> Blocked
      | Done (a1, Inl e) \<Rightarrow> Done (a1, Inl e)
      | Done (a1, Inr p) \<Rightarrow>
          (case allocate_port a1 of
             Panicked \<Rightarrow> Panicked | Blocked \<Rightarrow> Blocked
           | Done (a2, Inl e) \<Rightarrow> Done (release_port a2 p, Inl e)
           | Done (a2, Inr q) \<Rightarrow> Done (a2, Inr (p, q))))"

definition send_setup ::
    "setup_handler \<Rightarrow> u32 \<Rightarrow> setup_response \<Rightarrow> ap2_session_state \<Rightarrow> ap2_event \<Rightarrow> (setup_handler \<times> ap2_handle_result) outcome" where
  "send_setup h cseq response new_state event =
     (case encode_bplist_body (setup_to_plist response) of
        None \<Rightarrow> Panicked
      | Some (Inl e) \<Rightarrow> Done (h, plain_result (error_response 500 cseq) (Some (HE_Body e)))
      | Some (Inr body) \<Rightarrow> Done (h,
          \<lparr>hr_response = response_encode (ap2_binary_body
             (response_header (response_cseq ap2_ok cseq) (ascii ''Content-Type'') BINARY_PLIST) body),
           hr_new_state = Some new_state, hr_event = Some event, hr_error = None\<rparr>))"

definition handle_phase1 :: "setup_handler \<Rightarrow> setup_request \<Rightarrow> u32 \<Rightarrow> (setup_handler \<times> ap2_handle_result) outcome" where
  "handle_phase1 h request cseq =
     (case allocate_pair (sh_port_allocator h) of
        Panicked \<Rightarrow> Panicked | Blocked \<Rightarrow> Blocked
      | Done (a, Inl e) \<Rightarrow> Done (h\<lparr>sh_port_allocator := a\<rparr>, allocation_error cseq e)
      | Done (a, Inr (event_port, timing_port)) \<Rightarrow>
          send_setup
            (h\<lparr>sh_port_allocator := a, sh_current_phase := Phase1Complete,
               sh_session_ports := (sh_session_ports h)\<lparr>sn_event_port := Some event_port, sn_timing_port := Some timing_port\<rparr>\<rparr>)
            cseq (setup_phase1 event_port timing_port) Ap2_SetupPhase1
            (EV_SetupPhase1Complete timing_port event_port (sq_timing_peer_info request) (sq_timing_protocol request)))"

definition handle_phase2 :: "setup_handler \<Rightarrow> setup_request \<Rightarrow> u32 \<Rightarrow> (setup_handler \<times> ap2_handle_result) outcome" where
  "handle_phase2 h request cseq =
     (case allocate_pair (sh_port_allocator h) of
        Panicked \<Rightarrow> Panicked | Blocked \<Rightarrow> Blocked
      | Done (a, Inl e) \<Rightarrow> Done (h\<lparr>sh_port_allocator := a\<rparr>, allocation_error cseq e)
      | Done (a, Inr (data_port, control_port)) \<Rightarrow>
          send_setup
            (h\<lparr>sh_port_allocator := a, sh_current_phase := Phase2Complete,
               sh_session_ports := (sh_session_ports h)\<lparr>sn_audio_data_port := Some data_port,
                 sn_audio_control_port := Some control_port\<rparr>\<rparr>)
            cseq (setup_phase2 data_port control_port (sh_audio_latency_samples h)) Ap2_SetupPhase2
            (EV_SetupPhase2Complete data_port control_port
              (Option.bind (find (\<lambda>s. sr_stream_type s \<in> {ST_Audio, ST_BufferedAudio}) (sq_streams request)) sr_audio_format)
              (sq_encryption_type request) (sq_shared_key request)))"

definition setup_handle :: "(nat \<Rightarrow> bool) \<Rightarrow> setup_handler handler_fn" where
  "setup_handle alloc h request cseq cx =
     (case setup_parse alloc (rq_body request) of
        None \<Rightarrow> Panicked
      | Some (Inl e) \<Rightarrow> Done (h, plain_result (error_response 400 cseq) (Some e))
      | Some (Inr r) \<Rightarrow>
          if is_phase1 r then handle_phase1 h r cseq
          else if is_phase2 r then handle_phase2 h r cseq
          else Done (h, plain_result (error_response 400 cseq) (Some HE_UnknownStreamTypes)))"

definition release_opt :: "u16 option \<Rightarrow> ap2_port_allocator \<Rightarrow> ap2_port_allocator" where
  "release_opt port a = (case port of Some p \<Rightarrow> release_port a p | None \<Rightarrow> a)"

definition setup_cleanup :: "setup_handler \<Rightarrow> setup_handler" where
  "setup_cleanup h =
     (let sp = sh_session_ports h in
      h\<lparr>sh_port_allocator := release_opt (sn_audio_control_port sp) (release_opt (sn_audio_data_port sp)
          (release_opt (sn_timing_port sp) (release_opt (sn_event_port sp) (sh_port_allocator h)))),
        sh_current_phase := Phase_None\<rparr>)"

section \<open>The search for a port\<close>

definition port_range :: "ap2_port_allocator \<Rightarrow> u16 set" where
  "port_range a = {pa_range_start a..pa_range_end a}"

text \<open>The allocators of the program: a range below 65535, the next port and all allocated ports in it.\<close>

definition ap2_allocator_ok :: "ap2_port_allocator \<Rightarrow> bool" where
  "ap2_allocator_ok a \<longleftrightarrow> pa_range_end a \<noteq> 0xFFFF \<and> pa_next_port a \<in> port_range a
     \<and> set (pa_allocated a) \<subseteq> port_range a \<and> distinct (pa_allocated a)"

text \<open>The port that the search looks at after \<open>k\<close> steps from \<open>start\<close>, as a number.\<close>

definition port_cycle :: "ap2_port_allocator \<Rightarrow> u16 \<Rightarrow> nat \<Rightarrow> nat" where
  "port_cycle a start k =
     unat (pa_range_start a) + (unat start - unat (pa_range_start a) + k) mod (unat (pa_range_end a) + 1 - unat (pa_range_start a))"

lemma port_after_ok:
  assumes "pa_range_end a \<noteq> 0xFFFF" and "port \<in> port_range a"
  obtains p where "port_after a port = Some p" and "p \<in> port_range a"
    and "unat p = (if unat port = unat (pa_range_end a) then unat (pa_range_start a) else unat port + 1)"
proof -
  have e: "unat (pa_range_end a) < 65535"
    using assms(1) unat_less_u16 [of "pa_range_end a"] by (auto simp: word_unat_eq_iff)
  have p: "unat port \<le> unat (pa_range_end a)" "unat (pa_range_start a) \<le> unat port"
    using assms(2) by (auto simp: port_range_def word_le_nat_alt)
  then have nz: "port \<noteq> 0xFFFF" and s: "unat (port + 1) = unat port + 1"
    using e by (auto simp: word_unat_eq_iff unat_word_ariths)
  show thesis
  proof (cases "unat port = unat (pa_range_end a)")
    case True
    then show thesis using that [of "pa_range_start a"] nz s p
      by (auto simp: port_after_def word_less_nat_alt port_range_def word_le_nat_alt)
  next
    case False
    then show thesis using that [of "port + 1"] nz s p
      by (auto simp: port_after_def word_less_nat_alt port_range_def word_le_nat_alt)
  qed
qed

lemma port_cycle_range:
  assumes "start \<in> port_range a"
  shows "port_cycle a start k \<le> unat (pa_range_end a)" and "unat (pa_range_start a) \<le> port_cycle a start k"
    and "port_cycle a start 0 = unat start"
proof -
  have le: "unat (pa_range_start a) \<le> unat start" "unat start \<le> unat (pa_range_end a)"
    using assms by (auto simp: port_range_def word_le_nat_alt)
  have "(unat start - unat (pa_range_start a) + k) mod (unat (pa_range_end a) + 1 - unat (pa_range_start a))
      < unat (pa_range_end a) + 1 - unat (pa_range_start a)"
    using le by (intro mod_less_divisor) auto
  then show "port_cycle a start k \<le> unat (pa_range_end a)" unfolding port_cycle_def by linarith
  show "unat (pa_range_start a) \<le> port_cycle a start k" by (simp add: port_cycle_def)
  show "port_cycle a start 0 = unat start" using le by (simp add: port_cycle_def)
qed

lemma port_cycle_Suc:
  assumes "start \<in> port_range a"
  shows "port_cycle a start (Suc k) =
    (if port_cycle a start k = unat (pa_range_end a) then unat (pa_range_start a) else port_cycle a start k + 1)"
proof -
  let ?n = "unat (pa_range_end a) + 1 - unat (pa_range_start a)"
  let ?x = "unat start - unat (pa_range_start a) + k"
  have n: "unat (pa_range_start a) \<le> unat (pa_range_end a)" using assms by (auto simp: port_range_def word_le_nat_alt)
  have "Suc ?x mod ?n = (if Suc (?x mod ?n) = ?n then 0 else Suc (?x mod ?n))" using mod_Suc by blast
  then show ?thesis using n by (auto simp: port_cycle_def)
qed

lemma port_cycle_onto:
  assumes "start \<in> port_range a" and "p \<in> port_range a"
  obtains k where "k < unat (pa_range_end a) + 1 - unat (pa_range_start a)" and "port_cycle a start k = unat p"
proof -
  let ?n = "unat (pa_range_end a) + 1 - unat (pa_range_start a)"
  let ?s = "unat start - unat (pa_range_start a)" and ?q = "unat p - unat (pa_range_start a)"
  have le: "unat (pa_range_start a) \<le> unat start" "unat start \<le> unat (pa_range_end a)"
    "unat (pa_range_start a) \<le> unat p" "unat p \<le> unat (pa_range_end a)"
    using assms by (auto simp: port_range_def word_le_nat_alt)
  have lt: "?s < ?n" "?q < ?n" using le by auto
  define k where "k = (?n - ?s + ?q) mod ?n"
  have "(?s + k) mod ?n = (?s + (?n - ?s + ?q)) mod ?n" by (simp only: k_def mod_add_right_eq)
  also have "?s + (?n - ?s + ?q) = ?q + ?n" using lt(1) by linarith
  also have "(?q + ?n) mod ?n = ?q" by (simp only: mod_add_self2 mod_less [OF lt(2)])
  finally have "port_cycle a start k = unat p" using le by (simp add: port_cycle_def)
  moreover have "k < ?n" unfolding k_def using lt by simp
  ultimately show thesis by (rule that [rotated])
qed

lemma port_cycle_full:
  "start \<in> port_range a \<Longrightarrow> port_cycle a start (unat (pa_range_end a) + 1 - unat (pa_range_start a)) = unat start"
  using port_cycle_range(3) [of start a] by (simp only: port_cycle_def add_0_right mod_add_self2)

lemma port_cycle_start_iff:
  assumes "start \<in> port_range a" and "k < unat (pa_range_end a) + 1 - unat (pa_range_start a)"
  shows "unat start = port_cycle a start (Suc k) \<longleftrightarrow> Suc k = unat (pa_range_end a) + 1 - unat (pa_range_start a)"
proof
  let ?n = "unat (pa_range_end a) + 1 - unat (pa_range_start a)"
  let ?s = "unat start - unat (pa_range_start a)"
  have le: "unat (pa_range_start a) \<le> unat start" "unat start \<le> unat (pa_range_end a)"
    using assms by (auto simp: port_range_def word_le_nat_alt)
  assume "unat start = port_cycle a start (Suc k)"
  then have m: "?s mod ?n = (?s + Suc k) mod ?n" using le by (simp add: port_cycle_def)
  then have "?n dvd Suc k" by (metis add_diff_cancel_left' le_add1 mod_eq_dvd_iff_nat)
  then show "Suc k = ?n" using assms(2) by (meson Suc_leI dvd_imp_le le_antisym zero_less_Suc)
qed (use port_cycle_full [OF assms(1)] in simp)

text \<open>
  The search from \<open>start\<close> ends: after \<open>k\<close> ports that are taken, it finds a free one or is back
  at the start when the whole range is taken.
\<close>

lemma port_search_ends:
  assumes ok: "ap2_allocator_ok a" and start: "start \<in> port_range a"
    and k: "k < unat (pa_range_end a) + 1 - unat (pa_range_start a)"
    and taken: "\<forall>j<k. \<forall>p. unat p = port_cycle a start j \<longrightarrow> p \<in> set (pa_allocated a)"
    and port: "unat port = port_cycle a start k"
  shows "(\<exists>p. port_search a start port = Some (Some (Inr p)) \<and> p \<in> port_range a - set (pa_allocated a))
    \<or> port_search a start port = Some (Some (Inl HE_NoPortsAvailable)) \<and> port_range a \<subseteq> set (pa_allocated a)"
  using k taken port
proof (induction "unat (pa_range_end a) + 1 - unat (pa_range_start a) - k" arbitrary: k port rule: less_induct)
  case less
  have inr: "port \<in> port_range a"
    using port_cycle_range(1,2) [OF start, of k] less.prems(3) by (simp add: port_range_def word_le_nat_alt)
  show ?case
  proof (cases "port \<in> set (pa_allocated a)")
    case False
    then show ?thesis using inr by (simp add: port_search.simps)
  next
    case True
    from ok have ne: "pa_range_end a \<noteq> 0xFFFF" by (simp add: ap2_allocator_ok_def)
    obtain p where p: "port_after a port = Some p" "p \<in> port_range a" "unat p = port_cycle a start (Suc k)"
      by (rule port_after_ok [OF ne inr]) (use that in \<open>simp add: port_cycle_Suc [OF start] less.prems(3)\<close>)
    have taken': "\<forall>j<Suc k. \<forall>p. unat p = port_cycle a start j \<longrightarrow> p \<in> set (pa_allocated a)"
    proof -
      have "q = port" if "unat q = port_cycle a start k" for q using that less.prems(3) by (simp add: word_unat_eq_iff)
      then show ?thesis using less.prems(2) True by (auto simp: less_Suc_eq)
    qed
    show ?thesis
    proof (cases "p = start")
      case returned: True
      have "Suc k = unat (pa_range_end a) + 1 - unat (pa_range_start a)"
        using p(3) returned less.prems(1) start by (simp add: port_cycle_start_iff)
      then have "port_range a \<subseteq> set (pa_allocated a)"
        using taken' port_cycle_onto [OF start] by (metis subsetI)
      then show ?thesis using True p(1) returned by (simp add: port_search.simps [of a start port])
    next
      case False
      then have "Suc k < unat (pa_range_end a) + 1 - unat (pa_range_start a)"
        using p(3) less.prems(1) port_cycle_full [OF start] word_unat_eq_iff [of p start] by (metis Suc_lessI)
      then have "(\<exists>q. port_search a start p = Some (Some (Inr q)) \<and> q \<in> port_range a - set (pa_allocated a))
          \<or> port_search a start p = Some (Some (Inl HE_NoPortsAvailable)) \<and> port_range a \<subseteq> set (pa_allocated a)"
        using less.hyps [OF _ _ taken' p(3)] less.prems(1) by simp
      then show ?thesis using True p(1) False by (simp add: port_search.simps [of a start port])
    qed
  qed
qed

lemma allocate_port_cases:
  assumes "ap2_allocator_ok a"
  obtains (Found) a' p where "allocate_port a = Done (a', Inr p)" "p \<in> port_range a - set (pa_allocated a)"
      "pa_allocated a' = pa_allocated a @ [p]" "port_range a' = port_range a" "ap2_allocator_ok a'"
  | (Full) "allocate_port a = Done (a, Inl HE_NoPortsAvailable)" "port_range a \<subseteq> set (pa_allocated a)"
proof -
  let ?s = "pa_next_port a"
  have start: "?s \<in> port_range a" and ne: "pa_range_end a \<noteq> 0xFFFF" using assms by (auto simp: ap2_allocator_ok_def)
  have k: "0 < unat (pa_range_end a) + 1 - unat (pa_range_start a)"
    using start by (auto simp: port_range_def word_le_nat_alt)
  consider p where "port_search a ?s ?s = Some (Some (Inr p))" "p \<in> port_range a - set (pa_allocated a)"
    | "port_search a ?s ?s = Some (Some (Inl HE_NoPortsAvailable))" "port_range a \<subseteq> set (pa_allocated a)"
    using port_search_ends [OF assms start k, of ?s] port_cycle_range(3) [OF start] by auto
  then show thesis
  proof cases
    case (1 p)
    from 1(2) have pr: "p \<in> port_range a" by simp
    obtain n where n: "port_after a p = Some n" "n \<in> port_range a" by (rule port_after_ok [OF ne pr])
    let ?a = "a\<lparr>pa_allocated := pa_allocated a @ [p], pa_next_port := n\<rparr>"
    have "port_range ?a = port_range a" by (simp add: port_range_def)
    moreover from this have "ap2_allocator_ok ?a" using assms 1(2) n(2) by (auto simp: ap2_allocator_ok_def)
    ultimately show thesis using 1 n(1) by (intro Found [of ?a p]) (simp_all add: allocate_port_def)
  next
    case 2
    then show thesis by (intro Full) (simp_all add: allocate_port_def)
  qed
qed

lemma release_port_ok:
  "ap2_allocator_ok a \<Longrightarrow> ap2_allocator_ok (release_port a p)" "port_range (release_port a p) = port_range a"
  by (auto simp: ap2_allocator_ok_def release_port_def port_range_def)

lemma release_last: "p \<notin> set (pa_allocated a) \<Longrightarrow> pa_allocated a' = pa_allocated a @ [p] \<Longrightarrow> pa_allocated (release_port a' p) = pa_allocated a"
  by (auto simp: release_port_def filter_id_conv)

text \<open>A phase takes two new ports, or none: the first is given back when there is no second.\<close>

lemma allocate_pair_cases:
  assumes "ap2_allocator_ok a"
  obtains (Found) a' p q where "allocate_pair a = Done (a', Inr (p, q))" "pa_allocated a' = pa_allocated a @ [p, q]"
      "p \<noteq> q" "{p, q} \<subseteq> port_range a - set (pa_allocated a)" "port_range a' = port_range a" "ap2_allocator_ok a'"
  | (Full) a' where "allocate_pair a = Done (a', Inl HE_NoPortsAvailable)" "pa_allocated a' = pa_allocated a"
      "port_range a' = port_range a" "ap2_allocator_ok a'" "card (port_range a - set (pa_allocated a)) \<le> 1"
  using assms
proof (cases rule: allocate_port_cases)
  case first: (Found a1 p)
  from first(5) show thesis
  proof (cases rule: allocate_port_cases)
    case (Found a2 q)
    then show thesis using first by (intro that(1) [of a2 p q]) (auto simp: allocate_pair_def)
  next
    case Full
    then have "port_range a - set (pa_allocated a) \<subseteq> {p}" using first by auto
    then have "card (port_range a - set (pa_allocated a)) \<le> 1" using card_mono [of "{p}"] by simp
    then show thesis using first Full
      by (intro that(2) [of "release_port a1 p"]) (auto simp: allocate_pair_def release_port_ok release_last)
  qed
next
  case Full
  then have "card (port_range a - set (pa_allocated a)) \<le> 1" by (simp add: Diff_eq_empty_iff [THEN iffD2])
  then show thesis using Full assms by (intro that(2) [of a]) (auto simp: allocate_pair_def)
qed

section \<open>The response\<close>

lemma integer_size: "length (encode_integer v) \<le> 9"
  by (simp add: encode_integer_def)

text \<open>The body of a SETUP response is encoded, and decodes to the response.\<close>

lemma setup_plist_encoded:
  assumes "r = setup_phase1 p q \<or> r = setup_phase2 p q latency"
  obtains body where "encode_bplist_body (setup_to_plist r) = Some (Inr body)"
    and "(\<forall>n \<le> length body. alloc n) \<longrightarrow> plist_decode alloc body = dok (setup_to_plist r)"
proof -
  note defs = setup_to_plist_def setup_phase1_def setup_phase2_def insert_port_def stream_to_plist_def Let_def ascii_def
  have ok: "plist_ok (setup_to_plist r)" "plist_nodes (setup_to_plist r) \<le> 65535" "plist_normal (setup_to_plist r) = setup_to_plist r"
    using assms by (auto simp: defs)
  have "plist_size (setup_to_plist r) \<le> 1000"
    using assms integer_size [of "ucast p"] integer_size [of "ucast q"] integer_size [of "ucast latency"]
      integer_size [of 1] integer_size [of 2] integer_size [of 3] integer_size [of 96] integer_size [of 130] integer_size [of 150]
    by (auto simp: defs encode_string_def write_header_to_def is_ascii_def)
  then show thesis
    using plist_encode_decode [OF ok(1,2), of alloc] ok(3) that by (auto simp: encode_bplist_body_def)
qed

section \<open>Runs\<close>

datatype port_op = Op_Allocate | Op_Release u16 | Op_ReleaseAll

primrec port_run :: "port_op list \<Rightarrow> ap2_port_allocator \<Rightarrow> ap2_port_allocator outcome" where
  "port_run [] a = Done a"
| "port_run (q # qs) a =
     (case q of
        Op_Release p \<Rightarrow> port_run qs (release_port a p)
      | Op_ReleaseAll \<Rightarrow> port_run qs (release_all_ports a)
      | Op_Allocate \<Rightarrow> (case allocate_port a of Done (a', _) \<Rightarrow> port_run qs a' | Panicked \<Rightarrow> Panicked | Blocked \<Rightarrow> Blocked))"

lemma port_run_ok:
  "ap2_allocator_ok a \<Longrightarrow> \<exists>a'. port_run qs a = Done a' \<and> ap2_allocator_ok a' \<and> port_range a' = port_range a"
proof (induction qs arbitrary: a)
  case (Cons q qs)
  show ?case
  proof (cases q)
    case Op_Allocate
    from Cons.prems show ?thesis
    proof (cases rule: allocate_port_cases)
      case (Found a' p)
      then show ?thesis using Cons.IH [OF Found(5)] Op_Allocate by simp
    next
      case Full
      then show ?thesis using Cons Op_Allocate by simp
    qed
  next
    case (Op_Release p)
    then show ?thesis using Cons.IH [of "release_port a p"] Cons.prems release_port_ok [of a p] by simp
  next
    case Op_ReleaseAll
    have "ap2_allocator_ok (release_all_ports a)" "port_range (release_all_ports a) = port_range a"
      using Cons.prems by (simp_all add: release_all_ports_def ap2_allocator_ok_def port_range_def)
    then show ?thesis using Cons.IH [of "release_all_ports a"] Op_ReleaseAll by simp
  qed
qed simp

lemma allocator_new_ok: "rs \<le> re \<Longrightarrow> re \<noteq> 0xFFFF \<Longrightarrow> ap2_allocator_ok (ap2_port_allocator_new rs re)"
  by (simp add: ap2_allocator_ok_def ap2_port_allocator_new_def port_range_def)

lemma phase1_effect:
  assumes ok: "ap2_allocator_ok (sh_port_allocator h)" and run: "handle_phase1 h r c = Done (h', res)"
    and ev: "hr_event res = Some (EV_SetupPhase1Complete t e i p)"
  shows "pa_allocated (sh_port_allocator h') = pa_allocated (sh_port_allocator h) @ [e, t]
    \<and> {e, t} \<inter> set (pa_allocated (sh_port_allocator h)) = {} \<and> ap2_allocator_ok (sh_port_allocator h')
    \<and> sh_session_ports h' = (sh_session_ports h)\<lparr>sn_event_port := Some e, sn_timing_port := Some t\<rparr>"
  using ok
proof (cases rule: allocate_pair_cases)
  case (Found a' p' q')
  then show ?thesis using run ev
    by (auto simp: handle_phase1_def send_setup_def plain_result_def split: option.splits sum.splits)
next
  case (Full a')
  then show ?thesis using run ev by (auto simp: handle_phase1_def allocation_error_def plain_result_def)
qed

lemma phase1_run:
  assumes "allocate_pair (sh_port_allocator h) = Done (a, Inr (e, t))"
  shows "\<exists>h' res. handle_phase1 h r c = Done (h', res) \<and> sh_port_allocator h' = a
    \<and> hr_event res = Some (EV_SetupPhase1Complete t e (sq_timing_peer_info r) (sq_timing_protocol r))"
proof -
  obtain body where "encode_bplist_body (setup_to_plist (setup_phase1 e t)) = Some (Inr body)"
    using setup_plist_encoded [of "setup_phase1 e t" e t] by blast
  then show ?thesis using assms by (simp add: handle_phase1_def send_setup_def)
qed

section \<open>Properties\<close>

text \<open>
  C15. The search for a port always ends: after any sequence of allocations and releases from a range
  below 65535, the loop of \<open>allocate\<close> returns; it returns a port of the range that is free, or
  reports that there is none exactly when every port of the range is taken.
\<close>

theorem port_allocation_terminates:
  assumes "rs \<le> re" and "re \<noteq> 0xFFFF"
  shows "\<exists>a. port_run qs (ap2_port_allocator_new rs re) = Done a \<and> distinct (pa_allocated a)
    \<and> (if {rs..re} \<subseteq> set (pa_allocated a) then allocate_port a = Done (a, Inl HE_NoPortsAvailable)
       else \<exists>a' p. allocate_port a = Done (a', Inr p) \<and> p \<in> {rs..re} - set (pa_allocated a)
              \<and> pa_allocated a' = pa_allocated a @ [p])"
proof -
  obtain a where a: "port_run qs (ap2_port_allocator_new rs re) = Done a" "ap2_allocator_ok a" "port_range a = {rs..re}"
    using port_run_ok [OF allocator_new_ok [OF assms], of qs] by (auto simp: port_range_def ap2_port_allocator_new_def)
  from a(2) show ?thesis
  proof (cases rule: allocate_port_cases)
    case (Found a' p)
    then show ?thesis using a by (intro exI [of _ a]) (auto simp: ap2_allocator_ok_def)
  next
    case Full
    then show ?thesis using a by (intro exI [of _ a]) (auto simp: ap2_allocator_ok_def)
  qed
qed

theorem port_allocation_terminates_witness:
  "\<exists>a. port_run [Op_Allocate, Op_Release 7000, Op_Allocate] (ap2_port_allocator_new 7000 7001) = Done a
     \<and> distinct (pa_allocated a)
     \<and> (if {7000..7001} \<subseteq> set (pa_allocated a) then allocate_port a = Done (a, Inl HE_NoPortsAvailable)
        else \<exists>a' p. allocate_port a = Done (a', Inr p) \<and> p \<in> {7000..7001} - set (pa_allocated a)
               \<and> pa_allocated a' = pa_allocated a @ [p])"
  by (rule port_allocation_terminates) simp_all

text \<open>
  The first SETUP phase takes two different free ports, enters the phase, tells the audio
  pipeline about exactly these ports, and sends them: the body of the response decodes to the
  property list that names them. With fewer than two free ports the answer is 453 and no port
  stays taken.
\<close>

theorem setup_phase1_answer:
  assumes "ap2_allocator_ok (sh_port_allocator h)" and "\<forall>n. alloc n"
  shows "(\<exists>h' result event_port timing_port body.
      handle_phase1 h request cseq = Done (h', result) \<and> event_port \<noteq> timing_port
      \<and> {event_port, timing_port} \<subseteq> port_range (sh_port_allocator h) - set (pa_allocated (sh_port_allocator h))
      \<and> pa_allocated (sh_port_allocator h') = pa_allocated (sh_port_allocator h) @ [event_port, timing_port]
      \<and> hr_new_state result = Some Ap2_SetupPhase1
      \<and> hr_event result = Some (EV_SetupPhase1Complete timing_port event_port (sq_timing_peer_info request) (sq_timing_protocol request))
      \<and> hr_response result = response_encode (ap2_binary_body
           (response_header (response_cseq ap2_ok cseq) (ascii ''Content-Type'') BINARY_PLIST) body)
      \<and> plist_decode alloc body = dok (setup_to_plist (setup_phase1 event_port timing_port)))
    \<or> (\<exists>h'. card (port_range (sh_port_allocator h) - set (pa_allocated (sh_port_allocator h))) \<le> 1
      \<and> handle_phase1 h request cseq = Done (h', allocation_error cseq HE_NoPortsAvailable)
      \<and> pa_allocated (sh_port_allocator h') = pa_allocated (sh_port_allocator h))"
  using assms(1)
proof (cases rule: allocate_pair_cases)
  case (Found a' p q)
  obtain body where "encode_bplist_body (setup_to_plist (setup_phase1 p q)) = Some (Inr body)"
      "plist_decode alloc body = dok (setup_to_plist (setup_phase1 p q))"
    using setup_plist_encoded [of "setup_phase1 p q" p q _ alloc] assms(2) by blast
  then show ?thesis using Found by (intro disjI1) (auto simp: handle_phase1_def send_setup_def)
next
  case (Full a')
  then show ?thesis by (intro disjI2) (auto simp: handle_phase1_def)
qed

definition demo_setup_request :: setup_request where
  "demo_setup_request = \<lparr>sq_streams = [], sq_timing_protocol = TP_Ptp, sq_timing_peer_info = None, sq_group_uuid = None,
     sq_encryption_type = Enc_None, sq_shared_key = None\<rparr>"

lemma demo_handler_ok: "ap2_allocator_ok (sh_port_allocator (setup_handler_new 7000 7003 0))"
  using allocator_new_ok [of 7000 7003] by (simp add: setup_handler_new_def)

theorem setup_phase1_answer_witness:
  "\<exists>h' result event_port timing_port.
     handle_phase1 (setup_handler_new 7000 7003 0) demo_setup_request 3 = Done (h', result)
     \<and> event_port \<noteq> timing_port \<and> hr_new_state result = Some Ap2_SetupPhase1
     \<and> hr_event result = Some (EV_SetupPhase1Complete timing_port event_port None TP_Ptp)"
proof -
  have "{7000, 7001} \<subseteq> port_range (sh_port_allocator (setup_handler_new 7000 7003 0))"
    by (simp add: port_range_def setup_handler_new_def ap2_port_allocator_new_def)
  then have "card {7000 :: u16, 7001} \<le> card (port_range (sh_port_allocator (setup_handler_new 7000 7003 0)))"
    by (intro card_mono) simp_all
  then show ?thesis
    using setup_phase1_answer [OF demo_handler_ok, of "\<lambda>n. True" demo_setup_request 3]
    by (auto simp: demo_setup_request_def setup_handler_new_def ap2_port_allocator_new_def)
qed

text \<open>
  Ports leak: a sender that repeats the first SETUP phase makes the handler forget the ports of
  the first one, and they stay taken after the session is cleaned up.
\<close>

theorem repeated_setup_leaks_ports:
  assumes "ap2_allocator_ok (sh_port_allocator h)" and "sh_session_ports h = sh_session_ports (setup_handler_new 0 0 0)"
    and "handle_phase1 h r1 c1 = Done (h1, res1)" and "hr_event res1 = Some (EV_SetupPhase1Complete t1 e1 i1 p1)"
    and "handle_phase1 h1 r2 c2 = Done (h2, res2)" and "hr_event res2 = Some (EV_SetupPhase1Complete t2 e2 i2 p2)"
  shows "{e1, t1} \<subseteq> set (pa_allocated (sh_port_allocator (setup_cleanup h2)))"
proof -
  note first = phase1_effect [OF assms(1,3,4)]
  note second = phase1_effect [OF _ assms(5,6)]
  show ?thesis using first second assms(2)
    by (auto simp: setup_cleanup_def release_opt_def release_port_def setup_handler_new_def Let_def)
qed

theorem repeated_setup_leaks_ports_witness:
  "\<exists>h1 h2 res1 res2.
     handle_phase1 (setup_handler_new 7000 7003 0) demo_setup_request 3 = Done (h1, res1)
     \<and> handle_phase1 h1 demo_setup_request 4 = Done (h2, res2)
     \<and> {7000, 7001} \<subseteq> set (pa_allocated (sh_port_allocator (setup_cleanup h2)))"
proof -
  let ?h = "setup_handler_new 7000 7003 0"
  note eval = setup_handler_new_def ap2_port_allocator_new_def allocate_pair_def allocate_port_def port_search.simps port_after_def
  have "allocate_pair (sh_port_allocator ?h) =
      Done (\<lparr>pa_next_port = 7002, pa_allocated = [7000, 7001], pa_range_start = 7000, pa_range_end = 7003\<rparr>, Inr (7000, 7001))"
    by (simp add: eval)
  from phase1_run [OF this] obtain h1 res1 where one: "handle_phase1 ?h demo_setup_request 3 = Done (h1, res1)"
      "sh_port_allocator h1 = \<lparr>pa_next_port = 7002, pa_allocated = [7000, 7001], pa_range_start = 7000, pa_range_end = 7003\<rparr>"
      "hr_event res1 = Some (EV_SetupPhase1Complete 7001 7000 None TP_Ptp)"
    by (metis demo_setup_request_def setup_request.select_convs(2,3))
  have "allocate_pair (sh_port_allocator h1) =
      Done (\<lparr>pa_next_port = 7000, pa_allocated = [7000, 7001, 7002, 7003], pa_range_start = 7000, pa_range_end = 7003\<rparr>, Inr (7002, 7003))"
    by (simp add: eval one(2))
  from phase1_run [OF this] obtain h2 res2 where two: "handle_phase1 h1 demo_setup_request 4 = Done (h2, res2)"
      "hr_event res2 = Some (EV_SetupPhase1Complete 7003 7002 None TP_Ptp)"
    by (metis demo_setup_request_def setup_request.select_convs(2,3))
  show ?thesis
    using repeated_setup_leaks_ports [OF demo_handler_ok _ one(1,3) two] one(1) two(1) by (auto simp: setup_handler_new_def)
qed

end
