(* ===== verification/Ptp_Node.thy ===== *)
theory Ptp_Node
  imports Ptp_Clock Ptp_Message
begin

text \<open>
  The PTP node, \<open>src/protocol/ptp/node.rs\<close>: one event loop in the roles of master and slave, with
  the selection of the master from Announce messages. A step of the loop handles one event
  (a datagram on one of three sockets, a timer, a shutdown signal). What the step reads from
  outside is its environment: the readings of the system clock and of the monotonic clock, in
  the order of the calls, whether each datagram can be sent, whether the lock of the shared
  clock is free, the port of the timing socket, and the floating-point drift of the clock. A
  step returns the node, the datagrams it tried to send (the last one failed when the step
  failed) and how the loop goes on; \<open>None\<close> is a panic. The loop starts with its three timers
  made: making one panics when its configured period is zero, and that is not modelled.
\<close>

section \<open>Addresses and datagrams\<close>

datatype ip_addr = IpV4 u32 | IpV6 "u16 list"

fun socket_ip :: "socket_addr \<Rightarrow> ip_addr" where
  "socket_ip (SocketV4 ip _) = IpV4 ip"
| "socket_ip (SocketV6 ip _ _) = IpV6 ip"

fun socket_port :: "socket_addr \<Rightarrow> u16" where
  "socket_port (SocketV4 _ port) = port"
| "socket_port (SocketV6 _ port _) = port"

fun socket_new :: "ip_addr \<Rightarrow> u16 \<Rightarrow> socket_addr" where
  "socket_new (IpV4 ip) port = SocketV4 ip port"
| "socket_new (IpV6 ip) port = SocketV6 ip port 0"

definition PTP_EVENT_PORT :: u16 where "PTP_EVENT_PORT = 319"
definition PTP_GENERAL_PORT :: u16 where "PTP_GENERAL_PORT = 320"

datatype ptp_socket = EventSocket | GeneralSocket | TimingSocket

record datagram =
  dg_socket :: ptp_socket
  dg_data :: bytes
  dg_dest :: socket_addr

record ptp_env =
  env_wall :: "nat \<Rightarrow> (u64 \<times> u32) option"
  env_instant :: "nat \<Rightarrow> nat"
  env_send :: "datagram \<Rightarrow> bool"
  env_try_write :: bool
  env_timing_port :: "u16 option"
  env_drift :: "int \<Rightarrow> nat \<Rightarrow> u64"

text \<open>\<open>send_to(...).await?\<close> for each datagram in turn.\<close>

primrec transmit :: "(datagram \<Rightarrow> bool) \<Rightarrow> datagram list \<Rightarrow> datagram list \<times> bool" where
  "transmit send [] = ([], True)"
| "transmit send (d # ds) =
     (if send d then (case transmit send ds of (sent, ok) \<Rightarrow> (d # sent, ok)) else ([d], False))"

section \<open>State\<close>

record ptp_node_config =
  cfg_clock_id :: u64
  cfg_priority1 :: u8
  cfg_priority2 :: u8
  cfg_recv_buf_size :: nat
  cfg_use_airplay_format :: bool
  cfg_transport_specific :: u8
  cfg_announce_timeout :: nat

datatype effective_role = Role_Master | Role_Slave

record remote_master =
  rm_grandmaster_identity :: u64
  rm_priority1 :: u8
  rm_priority2 :: u8
  rm_event_addr :: socket_addr
  rm_general_addr :: socket_addr
  rm_last_announce :: nat

definition DELAY_REQ_TIMEOUT :: nat where "DELAY_REQ_TIMEOUT = 1000000000"

record ptp_node =
  pn_general_socket :: bool
  pn_timing_socket :: bool
  pn_clock :: ptp_clock
  pn_config :: ptp_node_config
  pn_role :: effective_role
  pn_sync_sequence :: u16
  pn_delay_req_sequence :: u16
  pn_announce_sequence :: u16
  pn_signaling_sequence :: u16
  pn_known_slaves :: "socket_addr list"
  pn_known_general_slaves :: "socket_addr list"
  pn_pending_t1 :: "ptp_timestamp option"
  pn_pending_t2 :: "ptp_timestamp option"
  pn_pending_t3 :: "ptp_timestamp option"
  pn_delay_req_sent_at :: "nat option"
  pn_delay_req_unanswered :: u32
  pn_remote_master :: "remote_master option"
  pn_announce_timeout :: nat
  pn_calibrated_epoch_offset :: "int option"

definition ptp_node_new :: "bool \<Rightarrow> ptp_clock \<Rightarrow> ptp_node_config \<Rightarrow> ptp_node" where
  "ptp_node_new general_socket clock config =
     \<lparr>pn_general_socket = general_socket, pn_timing_socket = False, pn_clock = clock, pn_config = config,
      pn_role = Role_Master, pn_sync_sequence = 0, pn_delay_req_sequence = 0, pn_announce_sequence = 0,
      pn_signaling_sequence = 0, pn_known_slaves = [], pn_known_general_slaves = [], pn_pending_t1 = None,
      pn_pending_t2 = None, pn_pending_t3 = None, pn_delay_req_sent_at = None, pn_delay_req_unanswered = 0,
      pn_remote_master = None, pn_announce_timeout = cfg_announce_timeout config, pn_calibrated_epoch_offset = None\<rparr>"

definition node_add_slave :: "ptp_node \<Rightarrow> socket_addr \<Rightarrow> ptp_node" where
  "node_add_slave n addr =
     (if addr \<in> set (pn_known_slaves n) then n else n\<lparr>pn_known_slaves := pn_known_slaves n @ [addr]\<rparr>)"

definition node_add_general_slave :: "ptp_node \<Rightarrow> socket_addr \<Rightarrow> ptp_node" where
  "node_add_general_slave n addr =
     (if addr \<in> set (pn_known_general_slaves n) then n
      else n\<lparr>pn_known_general_slaves := pn_known_general_slaves n @ [addr]\<rparr>)"

definition node_set_timing_socket :: "ptp_node \<Rightarrow> ptp_node" where
  "node_set_timing_socket n = n\<lparr>pn_timing_socket := True\<rparr>"

definition adjusted_now :: "ptp_env \<Rightarrow> nat \<Rightarrow> ptp_node \<Rightarrow> ptp_timestamp option" where
  "adjusted_now e k n =
     (case pn_calibrated_epoch_offset n of
        None \<Rightarrow> Some (ptp_ts_now (env_wall e k))
      | Some epoch_offset \<Rightarrow> ptp_from_nanos_or_zero (ptp_to_nanos (ptp_ts_now (env_wall e k)) - epoch_offset))"

section \<open>Steps\<close>

datatype loop_status = Running | Stopped | Failed

type_synonym 'n ptp_step = "('n \<times> datagram list \<times> loop_status) option"

definition quiet :: "'n \<Rightarrow> 'n ptp_step" where
  "quiet n = Some (n, [], Running)"

text \<open>Datagrams go out one after the other; the state after them is reached only when all are sent.\<close>

definition send_then :: "ptp_env \<Rightarrow> datagram list \<Rightarrow> 'n \<Rightarrow> 'n \<Rightarrow> 'n ptp_step" where
  "send_then e ds n n' =
     (case transmit (env_send e) ds of (sent, ok) \<Rightarrow> Some (if ok then n' else n, sent, if ok then Running else Failed))"

definition dgram :: "ptp_socket \<Rightarrow> bytes \<Rightarrow> socket_addr \<Rightarrow> datagram" where
  "dgram s b a = \<lparr>dg_socket = s, dg_data = b, dg_dest = a\<rparr>"

definition own_port :: "ptp_node \<Rightarrow> ptp_port_identity" where
  "own_port n = \<lparr>pi_clock_identity = cfg_clock_id (pn_config n), pi_port_number = 1\<rparr>"

definition resolve_general_addr_for_event :: "ptp_node \<Rightarrow> socket_addr \<Rightarrow> socket_addr" where
  "resolve_general_addr_for_event n event_src =
     (case find (\<lambda>(s, g). s = event_src) (zip (pn_known_slaves n) (pn_known_general_slaves n)) of
        Some (_, g) \<Rightarrow> g
      | None \<Rightarrow> socket_new (socket_ip event_src) PTP_GENERAL_PORT)"

text \<open>\<open>delay_req_unanswered += 1\<close>.\<close>

definition count_unanswered :: "ptp_node \<Rightarrow> ptp_node option" where
  "count_unanswered n =
     (if pn_delay_req_unanswered n = - 1 then None
      else Some (n\<lparr>pn_delay_req_unanswered := pn_delay_req_unanswered n + 1\<rparr>))"

section \<open>Sending\<close>

definition node_send_sync :: "ptp_env \<Rightarrow> ptp_node \<Rightarrow> ptp_node ptp_step" where
  "node_send_sync e n =
     (let t1 = ptp_ts_now (env_wall e 0);
          per_slave = (\<lambda>i slave_addr.
            if cfg_use_airplay_format (pn_config n)
            then [dgram EventSocket (airplay_timing_encode
                    \<lparr>atp_message_type = Sync_t, atp_sequence_id = pn_sync_sequence n, atp_timestamp = t1,
                     atp_clock_id = cfg_clock_id (pn_config n)\<rparr>) slave_addr]
            else let m = ptp_sync (own_port n) (pn_sync_sequence n) t1;
                     sync_msg = m\<lparr>pm_header := (pm_header m)\<lparr>ph_flags := 0x0200\<rparr>\<rparr>;
                     follow_up = ptp_message_encode
                       (ptp_follow_up (own_port n) (pn_sync_sequence n) (ptp_ts_now (env_wall e (Suc i))))
                 in dgram EventSocket (ptp_message_encode sync_msg) slave_addr
                    # (if pn_general_socket n
                       then if pn_known_general_slaves n = [] then [dgram GeneralSocket follow_up slave_addr]
                            else map (dgram GeneralSocket follow_up) (pn_known_general_slaves n)
                       else [dgram EventSocket follow_up slave_addr]))
      in send_then e (concat (map (\<lambda>(i, a). per_slave i a) (enumerate 0 (pn_known_slaves n)))) n
           (n\<lparr>pn_sync_sequence := pn_sync_sequence n + 1\<rparr>))"

definition node_send_announce :: "ptp_env \<Rightarrow> nat \<Rightarrow> ptp_node \<Rightarrow> ptp_node ptp_step" where
  "node_send_announce e k n =
     (let encoded = ptp_message_encode (ptp_announce (env_wall e k) (own_port n) (pn_announce_sequence n)
            (cfg_clock_id (pn_config n)) (cfg_priority1 (pn_config n)) (cfg_priority2 (pn_config n)))
      in send_then e (if pn_general_socket n then map (dgram GeneralSocket encoded) (pn_known_general_slaves n) else [])
           n (n\<lparr>pn_announce_sequence := pn_announce_sequence n + 1\<rparr>))"

definition delay_req_dest :: "ptp_node \<Rightarrow> socket_addr option" where
  "delay_req_dest n =
     (case pn_remote_master n of
        Some rm \<Rightarrow> Some (rm_event_addr rm)
      | None \<Rightarrow> (case pn_known_slaves n of a # _ \<Rightarrow> Some a | [] \<Rightarrow> None))"

definition node_send_delay_req :: "ptp_env \<Rightarrow> nat \<Rightarrow> ptp_node \<Rightarrow> ptp_node ptp_step" where
  "node_send_delay_req e k n =
     (case delay_req_dest n of
        None \<Rightarrow> quiet n
      | Some dest \<Rightarrow>
          Option.bind (adjusted_now e k n) (\<lambda>t3.
            let n1 = n\<lparr>pn_pending_t3 := Some t3, pn_delay_req_sent_at := Some (env_instant e k)\<rparr>;
                m = ptp_delay_req (own_port n) (pn_delay_req_sequence n) t3;
                data = (if cfg_use_airplay_format (pn_config n)
                  then airplay_timing_encode
                    \<lparr>atp_message_type = DelayReq_t, atp_sequence_id = pn_delay_req_sequence n, atp_timestamp = t3,
                     atp_clock_id = cfg_clock_id (pn_config n)\<rparr>
                  else ptp_message_encode
                    (m\<lparr>pm_header := (pm_header m)\<lparr>ph_transport_specific := cfg_transport_specific (pn_config n)\<rparr>\<rparr>))
            in send_then e [dgram (if pn_timing_socket n then TimingSocket else EventSocket) data dest] n1
                 (n1\<lparr>pn_delay_req_sequence := pn_delay_req_sequence n + 1\<rparr>)))"

definition build_apple_signaling :: "ptp_node \<Rightarrow> ptp_port_identity \<Rightarrow> u16 \<Rightarrow> u16 \<Rightarrow> bytes" where
  "build_apple_signaling n target_port sequence_id timing_port =
     (let clock_id = be_bytes 8 (cfg_clock_id (pn_config n));
          tlv_body = [0x00, 0x0D, 0x93, 0x00, 0x00, 0x01] @ clock_id @ replicate 4 0 @ be_bytes 2 timing_port @ [0, 0]
      in [0x1C, 0x02] @ be_bytes 2 (70 :: u16) @ [0, 0] @ be_bytes 2 (0 :: u16) @ be_bytes 8 (0 :: u64) @ replicate 4 0
         @ clock_id @ be_bytes 2 (1 :: u16) @ be_bytes 2 sequence_id @ [0x05, 0x7F]
         @ be_bytes 8 (pi_clock_identity target_port) @ be_bytes 2 (pi_port_number target_port)
         @ be_bytes 2 (3 :: u16) @ be_bytes 2 (22 :: u16) @ tlv_body)"

definition send_apple_signaling_response :: "ptp_env \<Rightarrow> ptp_node \<Rightarrow> ptp_port_identity \<Rightarrow> socket_addr \<Rightarrow> ptp_node ptp_step" where
  "send_apple_signaling_response e n target dest =
     (let timing_port = (if pn_timing_socket n then case env_timing_port e of Some p \<Rightarrow> p | None \<Rightarrow> 0 else 0) in
      if timing_port = 0 then quiet n
      else let n1 = n\<lparr>pn_signaling_sequence := pn_signaling_sequence n + 1\<rparr>;
               msg_bytes = build_apple_signaling n target (pn_signaling_sequence n) timing_port
           in send_then e [dgram (if pn_general_socket n then GeneralSocket else EventSocket) msg_bytes dest] n1 n1)"

section \<open>Measurements\<close>

definition node_process_delay_resp :: "ptp_env \<Rightarrow> ptp_node \<Rightarrow> ptp_timestamp \<Rightarrow> ptp_node" where
  "node_process_delay_resp e n t4 =
     (case (pn_pending_t1 n, pn_pending_t2 n, pn_pending_t3 n) of
        (Some t1, Some t2, Some t3) \<Rightarrow>
          (let clock = fst (ptp_clock_process_timing (env_drift e) (env_instant e 1) (pn_clock n) t1 t2 t3 t4);
               n1 = (if pn_calibrated_epoch_offset n = None
                 then n\<lparr>pn_clock := ptp_clock_calibrate_epoch (env_instant e 2) (env_wall e 2) clock (pc_offset_ns clock),
                        pn_calibrated_epoch_offset := Some (pc_offset_ns clock)\<rparr>
                 else n\<lparr>pn_clock := clock\<rparr>)
           in n1\<lparr>pn_pending_t1 := None, pn_pending_t2 := None, pn_pending_t3 := None,
                 pn_delay_req_sent_at := None, pn_delay_req_unanswered := 0\<rparr>)
      | _ \<Rightarrow> n)"

definition one_way_measurement :: "ptp_env \<Rightarrow> ptp_node \<Rightarrow> ptp_node" where
  "one_way_measurement e n =
     (case (pn_pending_t1 n, pn_pending_t2 n) of
        (Some t1, Some t2) \<Rightarrow>
          n\<lparr>pn_clock := ptp_clock_process_one_way (env_drift e) (env_instant e 1) (pn_clock n) t1 t2\<rparr>
      | _ \<Rightarrow> n)"

definition check_delay_req_timeout :: "ptp_env \<Rightarrow> ptp_node \<Rightarrow> ptp_node option" where
  "check_delay_req_timeout e n =
     (case pn_delay_req_sent_at n of
        None \<Rightarrow> Some n
      | Some sent_at \<Rightarrow>
          if env_instant e 0 - sent_at > DELAY_REQ_TIMEOUT
          then Option.bind (count_unanswered n) (\<lambda>n1.
            let n2 = n1\<lparr>pn_pending_t3 := None, pn_delay_req_sent_at := None\<rparr>
            in Some (if pn_delay_req_unanswered n2 \<ge> 2 then one_way_measurement e n2 else n2))
          else Some n)"

definition node_try_one_way_sync :: "ptp_env \<Rightarrow> ptp_node \<Rightarrow> ptp_node" where
  "node_try_one_way_sync e n =
     (if pn_delay_req_unanswered n \<ge> 2 \<and> pn_pending_t3 n = None \<and> pn_role n = Role_Slave
      then one_way_measurement e n else n)"

section \<open>Choice of the master\<close>

definition compare_priority :: "ptp_node_config \<Rightarrow> u8 \<Rightarrow> u8 \<Rightarrow> u64 \<Rightarrow> bool" where
  "compare_priority c remote_p1 remote_p2 remote_clock_id =
     (if remote_p1 \<noteq> cfg_priority1 c then remote_p1 < cfg_priority1 c
      else if remote_p2 \<noteq> cfg_priority2 c then remote_p2 < cfg_priority2 c
      else remote_clock_id < cfg_clock_id c)"

definition process_announce :: "ptp_env \<Rightarrow> ptp_node \<Rightarrow> u64 \<Rightarrow> u8 \<Rightarrow> u8 \<Rightarrow> socket_addr \<Rightarrow> ptp_node" where
  "process_announce e n gm p1 p2 src =
     (if gm = cfg_clock_id (pn_config n) then n
      else if compare_priority (pn_config n) p1 p2 gm
      then let event_addr = (case find (\<lambda>a. socket_ip a = socket_ip src) (pn_known_slaves n) of
                 Some a \<Rightarrow> a | None \<Rightarrow> socket_new (socket_ip src) PTP_EVENT_PORT);
               general_addr = socket_new (socket_ip src) (socket_port src)
           in n\<lparr>pn_role := Role_Slave,
                pn_remote_master := Some \<lparr>rm_grandmaster_identity = gm, rm_priority1 = p1, rm_priority2 = p2,
                  rm_event_addr = event_addr, rm_general_addr = general_addr, rm_last_announce = env_instant e 0\<rparr>,
                pn_clock := (if env_try_write e then ptp_clock_set_remote_master (pn_clock n) gm else pn_clock n)\<rparr>
      else case pn_remote_master n of
        Some rm \<Rightarrow> if rm_grandmaster_identity rm = gm
                   then n\<lparr>pn_remote_master := Some (rm\<lparr>rm_last_announce := env_instant e 0\<rparr>)\<rparr> else n
      | None \<Rightarrow> n)"

definition check_announce_timeout :: "ptp_env \<Rightarrow> ptp_node \<Rightarrow> ptp_node" where
  "check_announce_timeout e n =
     (case pn_remote_master n of
        Some rm \<Rightarrow>
          if env_instant e 0 - rm_last_announce rm > pn_announce_timeout n
          then n\<lparr>pn_role := Role_Master, pn_remote_master := None, pn_pending_t1 := None, pn_pending_t2 := None,
                 pn_pending_t3 := None, pn_delay_req_sent_at := None\<rparr>
          else n
      | None \<Rightarrow> n)"

section \<open>Receiving\<close>

definition node_airplay_delay_req :: "ptp_env \<Rightarrow> ptp_node \<Rightarrow> airplay_timing_packet \<Rightarrow> socket_addr \<Rightarrow> ptp_node ptp_step" where
  "node_airplay_delay_req e n req src =
     send_then e [dgram EventSocket (airplay_timing_encode
       \<lparr>atp_message_type = DelayResp_t, atp_sequence_id = atp_sequence_id req,
        atp_timestamp = ptp_ts_now (env_wall e 1), atp_clock_id = cfg_clock_id (pn_config n)\<rparr>) src] n n"

definition node_ieee_delay_req :: "ptp_env \<Rightarrow> ptp_node \<Rightarrow> ptp_message \<Rightarrow> socket_addr \<Rightarrow> ptp_node ptp_step" where
  "node_ieee_delay_req e n msg src =
     (let resp = ptp_message_encode (ptp_delay_resp (own_port n) (ph_sequence_id (pm_header msg))
            (ptp_ts_now (env_wall e 1)) (ph_source_port_identity (pm_header msg)))
      in send_then e [if pn_general_socket n then dgram GeneralSocket resp (resolve_general_addr_for_event n src)
                      else dgram EventSocket resp src] n n)"

definition node_airplay_packet :: "ptp_env \<Rightarrow> ptp_node \<Rightarrow> ptp_timestamp \<Rightarrow> airplay_timing_packet \<Rightarrow> socket_addr \<Rightarrow> ptp_node ptp_step" where
  "node_airplay_packet e n receive_time pkt src =
     (case atp_message_type pkt of
        Sync_t \<Rightarrow> quiet (n\<lparr>pn_pending_t1 := Some (atp_timestamp pkt), pn_pending_t2 := Some receive_time\<rparr>)
      | DelayReq_t \<Rightarrow> node_airplay_delay_req e (node_add_slave n src) pkt src
      | DelayResp_t \<Rightarrow>
          (case (pn_pending_t1 n, pn_pending_t2 n, pn_pending_t3 n) of
             (Some t1, Some t2, Some t3) \<Rightarrow>
               quiet (n\<lparr>pn_clock := fst (ptp_clock_process_timing (env_drift e) (env_instant e 1) (pn_clock n)
                                           t1 t2 t3 (atp_timestamp pkt)),
                        pn_pending_t1 := None, pn_pending_t2 := None, pn_pending_t3 := None\<rparr>)
           | _ \<Rightarrow> quiet n)
      | _ \<Rightarrow> quiet n)"

definition node_event_message :: "ptp_env \<Rightarrow> ptp_node \<Rightarrow> ptp_timestamp \<Rightarrow> ptp_message \<Rightarrow> socket_addr \<Rightarrow> ptp_node ptp_step" where
  "node_event_message e n receive_time msg src =
     (case pm_body msg of
        Sync origin_timestamp \<Rightarrow>
          Option.bind (if pn_pending_t3 n = None then Some n
                       else map_option (\<lambda>n. n\<lparr>pn_delay_req_sent_at := None\<rparr>) (count_unanswered n)) (\<lambda>n1.
            quiet (n1\<lparr>pn_pending_t1 := Some origin_timestamp, pn_pending_t2 := Some receive_time, pn_pending_t3 := None\<rparr>))
      | FollowUp precise \<Rightarrow> quiet (node_try_one_way_sync e (n\<lparr>pn_pending_t1 := Some precise\<rparr>))
      | DelayReq _ \<Rightarrow> node_ieee_delay_req e (node_add_slave n src) msg src
      | DelayResp t4 _ \<Rightarrow> quiet (node_process_delay_resp e n t4)
      | _ \<Rightarrow> quiet n)"

definition node_handle_event_packet :: "ptp_env \<Rightarrow> ptp_node \<Rightarrow> bytes \<Rightarrow> socket_addr \<Rightarrow> ptp_node ptp_step" where
  "node_handle_event_packet e n data src =
     Option.bind (adjusted_now e 0 n) (\<lambda>receive_time.
       if cfg_use_airplay_format (pn_config n)
       then case airplay_timing_decode data of
              Inl _ \<Rightarrow> quiet n | Inr pkt \<Rightarrow> node_airplay_packet e n receive_time pkt src
       else case ptp_message_decode data of
              Inl _ \<Rightarrow> quiet n | Inr msg \<Rightarrow> node_event_message e n receive_time msg src)"

text \<open>The walk over the TLVs of a Signaling message, from an offset.\<close>

function has_apple_tlv :: "bytes \<Rightarrow> nat \<Rightarrow> bool" where
  "has_apple_tlv data offset =
     (if offset + 4 \<le> length data
      then let tlv_type = from_be [data ! offset, data ! (offset + 1)] :: u16;
               tlv_len = unat (from_be [data ! (offset + 2), data ! (offset + 3)] :: u16);
               apple = (tlv_type = 3 \<and> tlv_len \<ge> 4 \<and> offset + 7 \<le> length data
                        \<and> take 3 (drop (offset + 4) data) = [0x00, 0x0D, 0x93])
           in apple \<or> (tlv_len \<noteq> 0 \<and> has_apple_tlv data (offset + 4 + tlv_len))
      else False)"
  by pat_completeness auto

termination
  by (relation "measure (\<lambda>(data, offset). Suc (length data) - offset)") auto

declare has_apple_tlv.simps [simp del]

definition corrected_t4 :: "ptp_message \<Rightarrow> ptp_timestamp \<Rightarrow> ptp_timestamp option" where
  "corrected_t4 msg t =
     (let correction_ns = sint (ph_correction_field (pm_header msg)) div 2 ^ 16
      in if correction_ns > 0 then ptp_from_nanos (max (ptp_to_nanos t + correction_ns) 0) else Some t)"

definition node_general_message :: "ptp_env \<Rightarrow> ptp_node \<Rightarrow> bytes \<Rightarrow> ptp_message \<Rightarrow> socket_addr \<Rightarrow> ptp_node ptp_step" where
  "node_general_message e n data msg src =
     (case pm_body msg of
        FollowUp precise \<Rightarrow>
          (let n1 = n\<lparr>pn_pending_t1 := Some precise\<rparr> in
           if pn_role n1 = Role_Slave \<and> pn_pending_t2 n1 \<noteq> None
           then let n2 = n1\<lparr>pn_pending_t3 := None, pn_delay_req_sent_at := None\<rparr>
                in if pn_delay_req_unanswered n2 < 2 then node_send_delay_req e 0 n2
                   else quiet (node_try_one_way_sync e n2)
           else quiet n1)
      | DelayResp t _ \<Rightarrow> Option.bind (corrected_t4 msg t) (\<lambda>t4. quiet (node_process_delay_resp e n t4))
      | Announce _ gm p1 p2 \<Rightarrow> quiet (process_announce e n gm p1 p2 src)
      | Signaling \<Rightarrow>
          (if length data > 44 \<and> has_apple_tlv data 44
           then send_apple_signaling_response e n (ph_source_port_identity (pm_header msg)) src else quiet n)
      | _ \<Rightarrow> quiet n)"

definition node_handle_general_packet :: "ptp_env \<Rightarrow> ptp_node \<Rightarrow> bytes \<Rightarrow> socket_addr \<Rightarrow> ptp_node ptp_step" where
  "node_handle_general_packet e n data src =
     (if cfg_use_airplay_format (pn_config n) then quiet n
      else case ptp_message_decode data of
        Inl _ \<Rightarrow> quiet n | Inr msg \<Rightarrow> node_general_message e n data msg src)"

section \<open>The loop\<close>

datatype ptp_node_event =
    NE_Start
  | NE_Receive ptp_socket bytes socket_addr
  | NE_ReceiveError bool
  | NE_SyncTick
  | NE_DelayReqTick
  | NE_AnnounceTick
  | NE_Shutdown bool

text \<open>
  One iteration of \<open>run\<close>; \<open>NE_Start\<close> is the Announce before the loop. A datagram is cut to the receive buffer; a receive error is transient
  or ends the loop; the general and timing sockets are only read when they are set.
\<close>

fun node_step :: "ptp_env \<Rightarrow> ptp_node \<Rightarrow> ptp_node_event \<Rightarrow> ptp_node ptp_step" where
  "node_step e n NE_Start = node_send_announce e 0 n"
| "node_step e n (NE_Receive sock data src) =
     (let buf = take (cfg_recv_buf_size (pn_config n)) data in
      case sock of
        EventSocket \<Rightarrow> node_handle_event_packet e n buf src
      | GeneralSocket \<Rightarrow> if pn_general_socket n then node_handle_general_packet e n buf src else quiet n
      | TimingSocket \<Rightarrow> if pn_timing_socket n then node_handle_event_packet e n buf src else quiet n)"
| "node_step e n (NE_ReceiveError transient) = Some (n, [], if transient then Running else Failed)"
| "node_step e n NE_SyncTick =
     (if pn_role n = Role_Master \<and> pn_known_slaves n \<noteq> [] then node_send_sync e n else quiet n)"
| "node_step e n NE_DelayReqTick =
     Option.bind (check_delay_req_timeout e n) (\<lambda>n1.
       if pn_pending_t1 n1 \<noteq> None \<and> pn_pending_t3 n1 = None \<and> \<not> pn_delay_req_unanswered n1 \<ge> 2
          \<and> (pn_role n1 = Role_Slave \<or> cfg_use_airplay_format (pn_config n1))
       then node_send_delay_req e 2 n1 else quiet n1)"
| "node_step e n NE_AnnounceTick =
     Option.bind (node_send_announce e 0 n) (\<lambda>(n1, sent, status).
       Some (if status = Running then check_announce_timeout e n1 else n1, sent, status))"
| "node_step e n (NE_Shutdown flag) = Some (n, [], if flag then Stopped else Running)"

definition create_client_node :: "bool \<Rightarrow> ptp_clock \<Rightarrow> u64 \<Rightarrow> u8 \<Rightarrow> ptp_node" where
  "create_client_node general_socket clock clock_id priority1 =
     ptp_node_new general_socket clock
       \<lparr>cfg_clock_id = clock_id, cfg_priority1 = priority1, cfg_priority2 = 128, cfg_recv_buf_size = 256,
        cfg_use_airplay_format = False, cfg_transport_specific = 0, cfg_announce_timeout = 6000000000\<rparr>"

section \<open>Invariant\<close>

text \<open>A slave has a master, and one that is better than itself.\<close>

definition bmca_ok :: "ptp_node \<Rightarrow> bool" where
  "bmca_ok n \<longleftrightarrow> (pn_role n = Role_Slave \<longleftrightarrow> pn_remote_master n \<noteq> None)
     \<and> (\<forall>rm. pn_remote_master n = Some rm \<longrightarrow> rm_grandmaster_identity rm \<noteq> cfg_clock_id (pn_config n)
          \<and> compare_priority (pn_config n) (rm_priority1 rm) (rm_priority2 rm) (rm_grandmaster_identity rm))"

text \<open>At most two requests are counted as unanswered; none is pending then.\<close>

definition counters_ok :: "ptp_node \<Rightarrow> bool" where
  "counters_ok n \<longleftrightarrow> pn_delay_req_unanswered n \<le> 2 \<and> (pn_pending_t3 n \<noteq> None \<longrightarrow> pn_delay_req_sent_at n \<noteq> None)
     \<and> (pn_delay_req_unanswered n = 2 \<longrightarrow> pn_delay_req_sent_at n = None)"

text \<open>Times below \<open>2\<^sup>7\<^sup>9\<close> nanoseconds, which is more than 48 bits of seconds.\<close>

definition small_time :: "int \<Rightarrow> bool" where
  "small_time x \<longleftrightarrow> \<bar>x\<bar> \<le> 2 ^ 79"

definition clock_small :: "ptp_clock \<Rightarrow> bool" where
  "clock_small c \<longleftrightarrow> small_time (pc_offset_ns c) \<and> (\<forall>m\<in>set (pc_measurements c). small_time (tm_offset_ns m))"

definition small_ts :: "ptp_timestamp \<Rightarrow> bool" where
  "small_ts t \<longleftrightarrow> small_time (ptp_to_nanos t)"

definition times_ok :: "ptp_node \<Rightarrow> bool" where
  "times_ok n \<longleftrightarrow>
     (case pn_calibrated_epoch_offset n of
        Some off \<Rightarrow> small_time off
      | None \<Rightarrow> clock_small (pn_clock n) \<and> pred_option small_ts (pn_pending_t1 n)
          \<and> pred_option small_ts (pn_pending_t2 n) \<and> pred_option small_ts (pn_pending_t3 n))"

definition node_ok :: "ptp_node \<Rightarrow> bool" where
  "node_ok n \<longleftrightarrow> bmca_ok n \<and> counters_ok n \<and> times_ok n"

definition env_ok :: "ptp_env \<Rightarrow> bool" where
  "env_ok e \<longleftrightarrow> (\<forall>k. ptp_ts_48 (ptp_ts_now (env_wall e k)))"

definition step_ok :: "ptp_node ptp_step \<Rightarrow> bool" where
  "step_ok out \<longleftrightarrow> (\<exists>n sent status. out = Some (n, sent, status) \<and> node_ok n)"

lemma step_ok_simps [simp]: "step_ok (quiet n) \<longleftrightarrow> node_ok n" "step_ok (Some (n, sent, status)) \<longleftrightarrow> node_ok n"
  by (simp_all add: step_ok_def quiet_def)

lemma step_ok_send: "node_ok n \<Longrightarrow> node_ok n' \<Longrightarrow> step_ok (send_then e ds n n')"
  by (simp add: step_ok_def send_then_def split: prod.split)

lemma step_ok_bind: "x = Some y \<Longrightarrow> step_ok (f y) \<Longrightarrow> step_ok (Option.bind x f)"
  by simp

subsection \<open>Times\<close>

lemma ptp_to_nanos_48: "ptp_ts_48 t \<Longrightarrow> ptp_to_nanos t \<le> 2 ^ 78 + 2 ^ 32"
proof -
  assume "ptp_ts_48 t"
  then have "unat (ts_seconds t) * NANOS_PER_SEC \<le> 2 ^ 48 * 2 ^ 30"
    by (intro mult_le_mono) (simp_all add: ptp_ts_48_def NANOS_PER_SEC_def)
  moreover have "unat (ts_nanoseconds t) < 2 ^ 32" using unat_less_u32 [of "ts_nanoseconds t"] by simp
  ultimately have "int (unat (ts_seconds t) * NANOS_PER_SEC + unat (ts_nanoseconds t)) \<le> int (2 ^ 78 + 2 ^ 32)"
    by (intro zle_int [THEN iffD2]) simp
  then show ?thesis unfolding ptp_to_nanos_nat by simp
qed

lemma ptp_to_nanos_nonneg: "0 \<le> ptp_to_nanos t"
  unfolding ptp_to_nanos_nat by (rule of_nat_0_le_iff)

lemma small_ts_48: "ptp_ts_48 t \<Longrightarrow> small_ts t"
  using ptp_to_nanos_48 [of t] ptp_to_nanos_nonneg [of t] by (simp add: small_ts_def small_time_def)

lemma small_diff: "small_ts t \<Longrightarrow> small_ts u \<Longrightarrow> small_time (ptp_diff_nanos t u)"
  using ptp_to_nanos_nonneg [of t] ptp_to_nanos_nonneg [of u]
  by (auto simp: small_ts_def small_time_def ptp_diff_nanos_def)

lemma small_half: "small_time x \<Longrightarrow> small_time y \<Longrightarrow> small_time ((x + y) sdiv 2)"
  using sdiv_2_bounds [of "x + y"] by (simp add: small_time_def)

lemma from_nanos_small: "x < 2 ^ 81 \<Longrightarrow> 0 \<le> x \<Longrightarrow> \<exists>t. ptp_from_nanos x = Some t \<and> ptp_to_nanos t = x"
  using ptp_to_from_nanos [of x] by (auto simp: ptp_from_nanos_def NANOS_PER_SEC_def)

lemma adjusted_now_ok:
  assumes "env_ok e" and "times_ok n"
  obtains t where "adjusted_now e k n = Some t" and "pn_calibrated_epoch_offset n = None \<longrightarrow> small_ts t"
proof (cases "pn_calibrated_epoch_offset n")
  case None
  then show thesis using that assms(1) by (simp add: adjusted_now_def env_ok_def small_ts_48)
next
  case (Some off)
  let ?x = "ptp_to_nanos (ptp_ts_now (env_wall e k)) - off"
  have "\<bar>off\<bar> \<le> 2 ^ 79" "\<bar>ptp_to_nanos (ptp_ts_now (env_wall e k))\<bar> \<le> 2 ^ 79"
    using assms Some small_ts_48 [of "ptp_ts_now (env_wall e k)"]
    by (simp_all add: times_ok_def env_ok_def small_time_def small_ts_def)
  then have "?x < 2 ^ 81" by simp
  then obtain t where "ptp_from_nanos_or_zero ?x = Some t"
    using from_nanos_small [of ?x] by (cases "?x < 0") (auto simp: ptp_from_nanos_or_zero_def)
  then show thesis using that Some by (simp add: adjusted_now_def)
qed

lemma corrected_t4_ok:
  assumes "ptp_ts_48 t"
  obtains t4 where "corrected_t4 msg t = Some t4" and "small_ts t4"
proof -
  let ?c = "sint (ph_correction_field (pm_header msg)) div 2 ^ 16"
  have "sint (ph_correction_field (pm_header msg)) < 2 ^ 63" using sint_lt [of "ph_correction_field (pm_header msg)"] by simp
  then have c: "?c < 2 ^ 47" by (simp add: div_less_iff_less_mult)
  show thesis
  proof (cases "?c > 0")
    case True
    let ?x = "ptp_to_nanos t + ?c"
    have "0 \<le> ?x" "?x \<le> 2 ^ 79" using True c ptp_to_nanos_48 [OF assms] ptp_to_nanos_nonneg [of t] by simp_all
    then show thesis
      using that from_nanos_small [of ?x] True by (auto simp: corrected_t4_def small_ts_def small_time_def max_def)
  next
    case False
    then show thesis using that small_ts_48 [OF assms] by (simp add: corrected_t4_def)
  qed
qed

subsection \<open>The clock\<close>

lemma clock_small_record:
  assumes "clock_small c" and "small_time (tm_offset_ns m)"
  shows "clock_small (ptp_clock_record f c m)"
proof -
  let ?ms = "pc_measurements (ptp_clock_push c m)"
  have "set ?ms \<subseteq> insert m (set (pc_measurements c))"
    by (auto simp: ptp_clock_push_def Let_def dest: in_set_dropD)
  then have all: "\<forall>x\<in>set ?ms. small_time (tm_offset_ns x)" using assms by (auto simp: clock_small_def)
  have "small_time (pc_offset_ns (ptp_clock_update_offset (ptp_clock_push c m)))"
  proof (cases "?ms = []")
    case True
    then show ?thesis using assms(1) by (simp add: ptp_clock_update_offset_def clock_small_def ptp_clock_push_def Let_def)
  next
    case False
    let ?o = "sort (map tm_offset_ns ?ms)"
    have "?o ! (length ?o div 2) \<in> set ?o" using False by (intro nth_mem) simp
    with False all show ?thesis by (auto simp: ptp_clock_update_offset_def Let_def)
  qed
  with all show ?thesis by (simp add: clock_small_def ptp_clock_record_simps ptp_clock_push_simps)
qed

lemma clock_small_timing:
  "clock_small c \<Longrightarrow> small_ts t1 \<Longrightarrow> small_ts t2 \<Longrightarrow> small_ts t3 \<Longrightarrow> small_ts t4
   \<Longrightarrow> clock_small (fst (ptp_clock_process_timing f now c t1 t2 t3 t4))"
  by (auto simp: ptp_clock_process_timing_def timing_measurement_calculate_def Let_def
      intro!: clock_small_record small_half small_diff)

lemma clock_small_one_way:
  "clock_small c \<Longrightarrow> small_ts t1 \<Longrightarrow> small_ts t2 \<Longrightarrow> clock_small (ptp_clock_process_one_way f now c t1 t2)"
  by (simp add: ptp_clock_process_one_way_def clock_small_record small_diff)

lemma clock_small_set [simp]: "clock_small (ptp_clock_set_remote_master c k) = clock_small c"
  by (simp add: clock_small_def ptp_clock_set_remote_master_def)

subsection \<open>Decoded times\<close>

definition body_48 :: "ptp_message_body \<Rightarrow> bool" where
  "body_48 b \<longleftrightarrow> (case b of Sync t \<Rightarrow> ptp_ts_48 t | FollowUp t \<Rightarrow> ptp_ts_48 t | DelayResp t _ \<Rightarrow> ptp_ts_48 t | _ \<Rightarrow> True)"

lemma ptp_body_decode_48: "ptp_body_decode ty data k = Inr b \<Longrightarrow> body_48 b"
  by (cases ty) (auto simp: ptp_body_decode_def body_48_def Let_def split: if_splits dest: ptp_encode_decode)

lemma ptp_message_decode_48: "ptp_message_decode data = Inr m \<Longrightarrow> body_48 (pm_body m)"
  by (auto simp: ptp_message_decode_def dest: ptp_body_decode_48)

lemma airplay_timing_decode_48: "airplay_timing_decode data = Inr p \<Longrightarrow> ptp_ts_48 (atp_timestamp p)"
proof -
  have "unat (drop_bit 16 v) < 2 ^ 48" for v :: u64
    using unat_less_u64 [of v] by (simp add: drop_bit_eq_div unat_div div_less_iff_less_mult)
  then show "airplay_timing_decode data = Inr p \<Longrightarrow> ptp_ts_48 (atp_timestamp p)"
    by (auto simp: airplay_timing_decode_def ptp_ts_48_def ptp_from_airplay_compact_def Let_def
        simp del: from_be.simps split: sum.splits if_splits)
qed

subsection \<open>Preservation\<close>

lemma times_ok_iff:
  "times_ok n \<longleftrightarrow> (pn_calibrated_epoch_offset n = None \<longrightarrow> clock_small (pn_clock n) \<and> pred_option small_ts (pn_pending_t1 n)
       \<and> pred_option small_ts (pn_pending_t2 n) \<and> pred_option small_ts (pn_pending_t3 n))
     \<and> pred_option small_time (pn_calibrated_epoch_offset n)"
  by (cases "pn_calibrated_epoch_offset n") (simp_all add: times_ok_def)

lemmas inv_defs = node_ok_def bmca_ok_def counters_ok_def times_ok_iff

lemma node_ok_new: "clock_small c \<Longrightarrow> node_ok (ptp_node_new g c cfg)"
  by (simp add: ptp_node_new_def inv_defs)

lemma node_ok_add_slave [simp]: "node_ok (node_add_slave n a) = node_ok n"
  by (simp add: node_add_slave_def inv_defs)

lemma node_ok_add_general_slave [simp]: "node_ok (node_add_general_slave n a) = node_ok n"
  by (simp add: node_add_general_slave_def inv_defs)

lemma node_ok_timing_socket [simp]: "node_ok (node_set_timing_socket n) = node_ok n"
  by (simp add: node_set_timing_socket_def inv_defs)

lemma node_ok_seqs [simp]:
  "node_ok (n\<lparr>pn_sync_sequence := a\<rparr>) = node_ok n" "node_ok (n\<lparr>pn_delay_req_sequence := b\<rparr>) = node_ok n"
  "node_ok (n\<lparr>pn_announce_sequence := c\<rparr>) = node_ok n" "node_ok (n\<lparr>pn_signaling_sequence := d\<rparr>) = node_ok n"
  by (simp_all add: inv_defs)

lemma node_ok_t1: "node_ok n \<Longrightarrow> ptp_ts_48 t \<Longrightarrow> node_ok (n\<lparr>pn_pending_t1 := Some t\<rparr>)"
  by (auto simp: inv_defs small_ts_48 split: option.splits)

lemma node_ok_t12:
  "node_ok n \<Longrightarrow> ptp_ts_48 t \<Longrightarrow> (pn_calibrated_epoch_offset n = None \<Longrightarrow> small_ts u)
   \<Longrightarrow> node_ok (n\<lparr>pn_pending_t1 := Some t, pn_pending_t2 := Some u\<rparr>)"
  by (auto simp: inv_defs small_ts_48 split: option.splits)

lemma node_ok_sync:
  "node_ok n \<Longrightarrow> ptp_ts_48 t \<Longrightarrow> (pn_calibrated_epoch_offset n = None \<Longrightarrow> small_ts u)
   \<Longrightarrow> node_ok (n\<lparr>pn_pending_t1 := Some t, pn_pending_t2 := Some u, pn_pending_t3 := None\<rparr>)"
  by (auto simp: inv_defs small_ts_48 split: option.splits)

lemma node_ok_no_request: "node_ok n \<Longrightarrow> node_ok (n\<lparr>pn_pending_t3 := None, pn_delay_req_sent_at := None\<rparr>)"
  by (auto simp: inv_defs split: option.splits)

lemma unanswered_cases: "node_ok n \<Longrightarrow> pn_delay_req_unanswered n = 0 \<or> pn_delay_req_unanswered n = 1 \<or> pn_delay_req_unanswered n = 2"
proof -
  assume "node_ok n"
  then have "unat (pn_delay_req_unanswered n) \<le> 2" by (simp add: inv_defs word_le_nat_alt)
  then show ?thesis by (auto simp: word_unat_eq_iff)
qed

lemma count_unanswered_ok:
  assumes "node_ok n" and "pn_delay_req_sent_at n \<noteq> None"
  obtains n' where "count_unanswered n = Some n'"
    and "n' = n\<lparr>pn_delay_req_unanswered := pn_delay_req_unanswered n + 1\<rparr>"
    and "node_ok (n'\<lparr>pn_pending_t3 := None, pn_delay_req_sent_at := None\<rparr>)"
proof -
  have u: "pn_delay_req_unanswered n = 0 \<or> pn_delay_req_unanswered n = 1"
    using assms unanswered_cases [OF assms(1)] by (auto simp: inv_defs)
  then show thesis using that assms(1) by (auto simp: count_unanswered_def inv_defs split: option.splits)
qed

lemma node_send_delay_req_ok:
  assumes "env_ok e" and "node_ok n" and "pn_delay_req_unanswered n < 2"
  shows "step_ok (node_send_delay_req e k n)"
proof (cases "delay_req_dest n")
  case None
  then show ?thesis using assms by (simp add: node_send_delay_req_def)
next
  case (Some dest)
  have "times_ok n" using assms(2) by (simp add: node_ok_def)
  from assms(1) this obtain t where t: "adjusted_now e k n = Some t" "pn_calibrated_epoch_offset n = None \<longrightarrow> small_ts t"
    by (rule adjusted_now_ok [of _ _ k])
  have "node_ok (n\<lparr>pn_pending_t3 := Some t, pn_delay_req_sent_at := Some (env_instant e k)\<rparr>)"
    using assms(2,3) t(2) by (auto simp: inv_defs split: option.splits)
  then show ?thesis using Some t(1) by (auto simp: node_send_delay_req_def Let_def intro!: step_ok_send)
qed

lemma node_process_delay_resp_ok:
  assumes "node_ok n" and "small_ts t4"
  shows "node_ok (node_process_delay_resp e n t4)"
proof (cases "pn_calibrated_epoch_offset n")
  case None
  have c: "clock_small (fst (ptp_clock_process_timing (env_drift e) (env_instant e 1) (pn_clock n) t1 t2 t3 t4))"
    if "pn_pending_t1 n = Some t1" "pn_pending_t2 n = Some t2" "pn_pending_t3 n = Some t3" for t1 t2 t3
    using that None assms by (intro clock_small_timing) (simp_all add: inv_defs)
  then show ?thesis using assms None
    by (auto simp: node_process_delay_resp_def inv_defs clock_small_def Let_def split: option.splits)
next
  case (Some off)
  then show ?thesis using assms by (auto simp: node_process_delay_resp_def inv_defs Let_def split: option.splits)
qed

lemma one_way_ok: "node_ok n \<Longrightarrow> node_ok (one_way_measurement e n)"
  by (auto simp: one_way_measurement_def inv_defs clock_small_one_way split: option.splits)

lemma try_one_way_ok: "node_ok n \<Longrightarrow> node_ok (node_try_one_way_sync e n)"
  by (simp add: node_try_one_way_sync_def one_way_ok)

lemma check_delay_req_timeout_ok:
  assumes "node_ok n"
  obtains n' where "check_delay_req_timeout e n = Some n'" and "node_ok n'"
proof (cases "pn_delay_req_sent_at n \<noteq> None")
  case True
  from assms True obtain n1 where "count_unanswered n = Some n1"
    and "node_ok (n1\<lparr>pn_pending_t3 := None, pn_delay_req_sent_at := None\<rparr>)"
    by (rule count_unanswered_ok)
  then have "\<exists>n'. check_delay_req_timeout e n = Some n' \<and> node_ok n'"
    using True assms by (auto simp: check_delay_req_timeout_def Let_def one_way_ok)
  with that show thesis by blast
next
  case False
  then show thesis using that assms by (simp add: check_delay_req_timeout_def)
qed

lemma process_announce_ok: "node_ok n \<Longrightarrow> node_ok (process_announce e n gm p1 p2 src)"
  by (auto simp: process_announce_def inv_defs Let_def split: option.splits)

lemma check_announce_timeout_ok: "node_ok n \<Longrightarrow> node_ok (check_announce_timeout e n)"
  by (auto simp: check_announce_timeout_def inv_defs split: option.splits)

lemma node_event_message_ok:
  assumes "node_ok n" and "body_48 (pm_body msg)" and "pn_calibrated_epoch_offset n = None \<Longrightarrow> small_ts t2"
  shows "step_ok (node_event_message e n t2 msg src)"
proof (cases "pm_body msg")
  case (Sync t)
  have t: "ptp_ts_48 t" using assms(2) Sync by (simp add: body_48_def)
  show ?thesis
  proof (cases "pn_pending_t3 n = None")
    case True
    then show ?thesis using node_ok_sync [OF assms(1) t assms(3)] Sync by (simp add: node_event_message_def)
  next
    case False
    then have "pn_delay_req_sent_at n \<noteq> None" using assms(1) by (simp add: inv_defs)
    from assms(1) this obtain n1 where n1: "count_unanswered n = Some n1"
      "n1 = n\<lparr>pn_delay_req_unanswered := pn_delay_req_unanswered n + 1\<rparr>"
      and ok: "node_ok (n1\<lparr>pn_pending_t3 := None, pn_delay_req_sent_at := None\<rparr>)"
      by (rule count_unanswered_ok)
    from node_ok_sync [OF ok t, of t2] assms(3) n1 show ?thesis
      by (simp add: node_event_message_def Sync False)
  qed
next
  case (FollowUp t)
  then show ?thesis using assms by (simp add: node_event_message_def body_48_def node_ok_t1 try_one_way_ok)
next
  case (DelayReq t)
  then show ?thesis using assms
    by (auto simp: node_event_message_def node_ieee_delay_req_def Let_def intro!: step_ok_send)
next
  case (DelayResp t p)
  then show ?thesis using assms
    by (simp add: node_event_message_def node_process_delay_resp_ok body_48_def small_ts_48)
qed (use assms in \<open>simp_all add: node_event_message_def\<close>)

lemma node_airplay_packet_ok:
  assumes "node_ok n" and "ptp_ts_48 (atp_timestamp p)" and "pn_calibrated_epoch_offset n = None \<Longrightarrow> small_ts t2"
  shows "step_ok (node_airplay_packet e n t2 p src)"
proof (cases "atp_message_type p")
  case Sync_t
  then show ?thesis using node_ok_t12 [OF assms] by (simp add: node_airplay_packet_def)
next
  case DelayReq_t
  then show ?thesis using assms
    by (auto simp: node_airplay_packet_def node_airplay_delay_req_def intro!: step_ok_send)
next
  case DelayResp_t
  then show ?thesis using assms
    by (auto simp: node_airplay_packet_def inv_defs clock_small_timing small_ts_48 split: option.splits)
qed (use assms in \<open>simp_all add: node_airplay_packet_def\<close>)

lemma node_handle_event_packet_ok:
  assumes "env_ok e" and "node_ok n"
  shows "step_ok (node_handle_event_packet e n data src)"
proof -
  have "times_ok n" using assms(2) by (simp add: node_ok_def)
  from assms(1) this obtain t where t: "adjusted_now e 0 n = Some t" "pn_calibrated_epoch_offset n = None \<longrightarrow> small_ts t"
    by (rule adjusted_now_ok [of _ _ 0])
  then show ?thesis using assms(2)
    by (auto simp: node_handle_event_packet_def split: sum.split
        intro!: node_airplay_packet_ok node_event_message_ok dest: airplay_timing_decode_48 ptp_message_decode_48)
qed

lemma node_general_message_ok:
  assumes "env_ok e" and "node_ok n" and "body_48 (pm_body msg)"
  shows "step_ok (node_general_message e n data msg src)"
proof (cases "pm_body msg")
  case (FollowUp t)
  have "node_ok (n\<lparr>pn_pending_t1 := Some t\<rparr>)" using assms FollowUp by (simp add: body_48_def node_ok_t1)
  from this node_ok_no_request [OF this] show ?thesis
    using assms(1) by (simp add: node_general_message_def FollowUp Let_def node_send_delay_req_ok try_one_way_ok)
next
  case (DelayResp t p)
  then have "ptp_ts_48 t" using assms(3) by (simp add: body_48_def)
  then obtain t4 where "corrected_t4 msg t = Some t4" "small_ts t4" by (rule corrected_t4_ok)
  then show ?thesis using assms(2) DelayResp by (simp add: node_general_message_def node_process_delay_resp_ok)
next
  case (Announce t gm p1 p2)
  then show ?thesis using assms(2) by (simp add: node_general_message_def process_announce_ok)
next
  case Signaling
  then show ?thesis using assms(2)
    by (auto simp: node_general_message_def send_apple_signaling_response_def Let_def intro!: step_ok_send)
qed (use assms in \<open>simp_all add: node_general_message_def\<close>)

lemma node_step_ok:
  assumes "env_ok e" and "node_ok n"
  shows "step_ok (node_step e n ev)"
proof (cases ev)
  case NE_Start
  then show ?thesis using assms by (auto simp: node_send_announce_def Let_def intro!: step_ok_send)
next
  case (NE_Receive sock data src)
  then show ?thesis using assms
    by (cases sock) (auto simp: node_handle_event_packet_ok node_handle_general_packet_def Let_def split: sum.split
        intro!: node_general_message_ok dest: ptp_message_decode_48)
next
  case NE_SyncTick
  then show ?thesis using assms by (auto simp: node_send_sync_def Let_def intro!: step_ok_send)
next
  case NE_DelayReqTick
  from assms(2) obtain n' where "check_delay_req_timeout e n = Some n'" "node_ok n'"
    by (rule check_delay_req_timeout_ok)
  then show ?thesis using NE_DelayReqTick assms(1) by (simp add: node_send_delay_req_ok not_le)
next
  case NE_AnnounceTick
  then show ?thesis using assms
    by (auto simp: node_send_announce_def send_then_def Let_def check_announce_timeout_ok split: prod.split)
qed (use assms in simp_all)

section \<open>Runs\<close>

text \<open>A run of the loop over a sequence of events; it ends early when a step stops or fails.\<close>

primrec node_run :: "ptp_node \<Rightarrow> (ptp_env \<times> ptp_node_event) list \<Rightarrow> ptp_node ptp_step" where
  "node_run n [] = quiet n"
| "node_run n (x # xs) =
     Option.bind (node_step (fst x) n (snd x)) (\<lambda>(n1, sent, status).
       if status = Running
       then map_option (\<lambda>(n2, sent2, status2). (n2, sent @ sent2, status2)) (node_run n1 xs)
       else Some (n1, sent, status))"

lemma node_run_ok: "node_ok n \<Longrightarrow> \<forall>x\<in>set xs. env_ok (fst x) \<Longrightarrow> step_ok (node_run n xs)"
proof (induction xs arbitrary: n)
  case (Cons x xs)
  obtain n1 sent status where s: "node_step (fst x) n (snd x) = Some (n1, sent, status)" and ok: "node_ok n1"
    using node_step_ok [of "fst x" n "snd x"] Cons.prems by (auto simp: step_ok_def)
  from Cons.IH [OF ok] Cons.prems(2) obtain n2 sent2 status2
    where "node_run n1 xs = Some (n2, sent2, status2)" "node_ok n2" by (auto simp: step_ok_def)
  with s ok show ?case by simp
qed simp

section \<open>The fallback to one-way measurements\<close>

text \<open>The type nibble of a Delay_Req; both packet formats have it in the first byte.\<close>

definition is_delay_req :: "bytes \<Rightarrow> bool" where
  "is_delay_req data \<longleftrightarrow> data \<noteq> [] \<and> hd data AND 0x0F = 0x01"

definition fallen_back :: "ptp_node \<Rightarrow> bool" where
  "fallen_back n \<longleftrightarrow> pn_delay_req_unanswered n = 2 \<and> pn_pending_t3 n = None \<and> pn_delay_req_sent_at n = None"

definition fallback_step :: "ptp_node ptp_step \<Rightarrow> bool" where
  "fallback_step out \<longleftrightarrow>
     (\<forall>n sent status. out = Some (n, sent, status) \<longrightarrow> fallen_back n \<and> (\<forall>d\<in>set sent. \<not> is_delay_req (dg_data d)))"

lemma is_delay_req_encode: "is_delay_req (ptp_message_encode m) \<longleftrightarrow> ph_message_type (pm_header m) = DelayReq_t"
proof -
  have "is_delay_req (ptp_message_encode m) \<longleftrightarrow> ptp_type_byte (ph_message_type (pm_header m)) AND 0x0F = 0x01"
    by (simp add: is_delay_req_def ptp_message_encode_def ptp_header_encode_def Let_def nibble_low)
  then show ?thesis by (cases "ph_message_type (pm_header m)") simp_all
qed

lemma is_delay_req_airplay: "is_delay_req (airplay_timing_encode p) \<longleftrightarrow> atp_message_type p = DelayReq_t"
  by (cases "atp_message_type p") (simp_all add: is_delay_req_def airplay_timing_encode_def)

lemma transmit_sent: "set (fst (transmit send ds)) \<subseteq> set ds"
  by (induction ds) (auto split: prod.split)

lemma fallback_quiet [simp]: "fallback_step (quiet n) \<longleftrightarrow> fallen_back n"
  by (simp add: fallback_step_def quiet_def)

lemma fallback_send:
  "fallen_back n \<Longrightarrow> fallen_back n' \<Longrightarrow> \<forall>d\<in>set ds. \<not> is_delay_req (dg_data d) \<Longrightarrow> fallback_step (send_then e ds n n')"
  using transmit_sent [of "env_send e" ds] by (auto simp: fallback_step_def send_then_def split: prod.splits if_splits)

lemma fallback_bind: "(\<And>y. x = Some y \<Longrightarrow> fallback_step (f y)) \<Longrightarrow> fallback_step (Option.bind x f)"
  by (cases x) (auto simp: fallback_step_def)

lemma one_way_fallen [simp]: "fallen_back (one_way_measurement e n) = fallen_back n"
  by (simp add: one_way_measurement_def fallen_back_def split: option.split)

lemma fallen_simps [simp]:
  "fallen_back (node_try_one_way_sync e n) = fallen_back n"
  "fallen_back (node_add_slave n a) = fallen_back n"
  "fallen_back (process_announce e n gm p1 p2 src) = fallen_back n"
  by (simp_all add: node_try_one_way_sync_def node_add_slave_def process_announce_def Let_def)
    (simp_all add: fallen_back_def split: option.split)

lemma fallback_delay_resp: "fallen_back n \<Longrightarrow> fallen_back (node_process_delay_resp e n t4)"
  by (simp add: fallen_back_def node_process_delay_resp_def split: option.split)

lemma fallback_timeout: "fallen_back n \<Longrightarrow> fallen_back (check_announce_timeout e n)"
  by (simp add: fallen_back_def check_announce_timeout_def split: option.split)

lemmas not_delay_req = is_delay_req_encode is_delay_req_airplay ptp_sync_def ptp_follow_up_def ptp_delay_resp_def
  ptp_announce_def ptp_header_new_def dgram_def

lemma fallback_sync: "fallen_back n \<Longrightarrow> fallback_step (node_send_sync e n)"
  unfolding node_send_sync_def Let_def
  by (rule fallback_send) (auto simp: fallen_back_def not_delay_req split: if_splits)

lemma fallback_airplay: "fallen_back n \<Longrightarrow> fallback_step (node_airplay_packet e n t2 p src)"
proof (cases "atp_message_type p")
  case DelayReq_t
  then show "fallen_back n \<Longrightarrow> fallback_step (node_airplay_packet e n t2 p src)"
    unfolding node_airplay_packet_def node_airplay_delay_req_def
    by (auto simp: not_delay_req intro!: fallback_send)
qed (simp_all add: node_airplay_packet_def fallen_back_def split: option.split)

lemma fallback_ieee: "fallen_back n \<Longrightarrow> fallback_step (node_event_message e n t2 msg src)"
proof (cases "pm_body msg")
  case (DelayReq t)
  then show "fallen_back n \<Longrightarrow> fallback_step (node_event_message e n t2 msg src)"
    unfolding node_event_message_def node_ieee_delay_req_def Let_def
    by (auto simp: not_delay_req intro!: fallback_send)
next
  case (FollowUp t)
  then show "fallen_back n \<Longrightarrow> fallback_step (node_event_message e n t2 msg src)"
    by (simp add: node_event_message_def) (simp add: fallen_back_def)
next
  case (DelayResp t p)
  then show "fallen_back n \<Longrightarrow> fallback_step (node_event_message e n t2 msg src)"
    by (simp add: node_event_message_def fallback_delay_resp)
qed (simp_all add: node_event_message_def fallen_back_def)

lemma fallback_event: "fallen_back n \<Longrightarrow> fallback_step (node_handle_event_packet e n data src)"
  unfolding node_handle_event_packet_def
  by (rule fallback_bind) (simp add: fallback_airplay fallback_ieee split: sum.split)

lemma fallback_signaling: "fallen_back n \<Longrightarrow> fallback_step (send_apple_signaling_response e n target dest)"
  unfolding send_apple_signaling_response_def Let_def
  by (auto intro!: fallback_send) (auto simp: fallen_back_def build_apple_signaling_def is_delay_req_def dgram_def Let_def)

lemma fallback_general: "fallen_back n \<Longrightarrow> fallback_step (node_handle_general_packet e n data src)"
  unfolding node_handle_general_packet_def
  by (auto simp: node_general_message_def fallback_delay_resp fallback_signaling Let_def
      split: sum.split ptp_message_body.split intro!: fallback_bind) (auto simp: fallen_back_def)

lemma fallback_announce: "fallen_back n \<Longrightarrow> fallback_step (node_send_announce e k n)"
  unfolding node_send_announce_def Let_def
  by (intro fallback_send) (auto simp: fallen_back_def not_delay_req split: if_splits)

lemma fallback_announce_tick: "fallen_back n \<Longrightarrow> fallback_step (node_step e n NE_AnnounceTick)"
proof -
  assume "fallen_back n"
  then have "fallback_step (node_send_announce e 0 n)" by (rule fallback_announce)
  then show ?thesis
    by (cases "node_send_announce e 0 n") (auto simp: fallback_step_def fallback_timeout)
qed

lemma fallback_step_step:
  assumes "fallen_back n"
  shows "fallback_step (node_step e n ev)"
proof (cases ev)
  case NE_Start
  then show ?thesis using assms by (simp add: fallback_announce)
next
  case (NE_Receive sock data src)
  then show ?thesis using assms by (cases sock) (simp_all add: fallback_event fallback_general Let_def)
next
  case NE_SyncTick
  then show ?thesis using assms by (simp add: fallback_sync)
next
  case NE_DelayReqTick
  have "check_delay_req_timeout e n = Some n" using assms by (simp add: check_delay_req_timeout_def fallen_back_def)
  then show ?thesis using NE_DelayReqTick assms by (simp add: fallen_back_def)
next
  case NE_AnnounceTick
  then show ?thesis using assms by (simp add: fallback_announce_tick del: node_step.simps)
qed (use assms in \<open>simp_all add: fallback_step_def\<close>)

lemma fallback_run: "fallen_back n \<Longrightarrow> fallback_step (node_run n xs)"
proof (induction xs arbitrary: n)
  case (Cons x xs)
  show ?case
  proof (cases "node_step (fst x) n (snd x)")
    case (Some out)
    obtain n1 sent status where out: "out = (n1, sent, status)" by (cases out)
    have f: "fallen_back n1" "\<forall>d\<in>set sent. \<not> is_delay_req (dg_data d)"
      using fallback_step_step [OF Cons.prems, of "fst x" "snd x"] Some out by (simp_all add: fallback_step_def)
    with Cons.IH [OF f(1)] Some out show ?thesis by (auto simp: fallback_step_def)
  qed (simp add: fallback_step_def)
qed simp

section \<open>Delivery\<close>

text \<open>A message of this module arrives whole in a buffer of 64 bytes or more.\<close>

lemma length_ptp_message_encode: "length (ptp_message_encode m) \<le> 64"
  using length_ptp_body_encode [of "pm_body m"] by (simp add: ptp_message_encode_def Let_def)

lemma ptp_delivered:
  assumes "ptp_message_ok m" and "64 \<le> k"
  shows "ptp_message_decode (take k (ptp_message_encode m)) = Inr (ptp_message_sent m)"
  using ptp_message_roundtrip [OF assms(1), of "[]"] length_ptp_message_encode [of m] assms(2) by simp

lemma ptp_message_sent_simps [simp]:
  "pm_body (ptp_message_sent m) = pm_body m"
  "ph_sequence_id (pm_header (ptp_message_sent m)) = ph_sequence_id (pm_header m)"
  "ph_source_port_identity (pm_header (ptp_message_sent m)) = ph_source_port_identity (pm_header m)"
  "ph_correction_field (pm_header (ptp_message_sent m)) = ph_correction_field (pm_header m)"
  by (simp_all add: ptp_message_sent_def)

lemma constructed_ok:
  assumes "ptp_ts_48 t"
  shows "ptp_message_ok (ptp_sync src k t)" "ptp_message_ok (ptp_follow_up src k t)" "ptp_message_ok (ptp_delay_req src k t)"
    "ptp_message_ok (ptp_delay_resp src k t port)"
    "ptp_ts_now w = t \<Longrightarrow> ptp_message_ok (ptp_announce w src k gm p1 p2)"
  using assms by (simp_all add: ptp_message_ok_def ptp_sync_def ptp_follow_up_def ptp_delay_req_def ptp_delay_resp_def
      ptp_announce_def ptp_header_ok_def ptp_header_new_def)

lemma announce_arrives:
  assumes "node_step e b NE_AnnounceTick = Some (b', sent, status)" and "d \<in> set sent" and "env_ok e"
    and "pn_general_socket a" "\<not> cfg_use_airplay_format (pn_config a)" "64 \<le> cfg_recv_buf_size (pn_config a)"
  shows "node_step ea a (NE_Receive GeneralSocket (dg_data d) src) =
    quiet (process_announce ea a (cfg_clock_id (pn_config b)) (cfg_priority1 (pn_config b)) (cfg_priority2 (pn_config b)) src)"
proof -
  define m where "m = ptp_announce (env_wall e 0) (own_port b) (pn_announce_sequence b)
    (cfg_clock_id (pn_config b)) (cfg_priority1 (pn_config b)) (cfg_priority2 (pn_config b))"
  obtain b1 status1 where "node_send_announce e 0 b = Some (b1, sent, status1)"
    using assms(1) by (cases "node_send_announce e 0 b") (auto split: prod.splits)
  then have "set sent \<subseteq> dgram GeneralSocket (ptp_message_encode m) ` set (pn_known_general_slaves b)"
    using transmit_sent [of "env_send e" "map (dgram GeneralSocket (ptp_message_encode m)) (pn_known_general_slaves b)"]
    by (auto simp: node_send_announce_def send_then_def m_def [symmetric] Let_def split: prod.splits if_splits)
  then have "dg_data d = ptp_message_encode m" using assms(2) by (auto simp: dgram_def)
  moreover have "ptp_message_ok m" unfolding m_def using assms(3) by (intro constructed_ok) (auto simp: env_ok_def)
  moreover have "pm_body m = Announce (ptp_ts_now (env_wall e 0)) (cfg_clock_id (pn_config b))
      (cfg_priority1 (pn_config b)) (cfg_priority2 (pn_config b))" by (simp add: m_def ptp_announce_def)
  ultimately show ?thesis
    using assms(4-6) ptp_delivered [of m "cfg_recv_buf_size (pn_config a)"]
    by (simp add: node_handle_general_packet_def node_general_message_def)
qed

section \<open>A delay exchange between two nodes\<close>

text \<open>A datagram arrives on the socket of the other node that corresponds to the one it was sent from.\<close>

definition deliver :: "ptp_env \<Rightarrow> ptp_node \<Rightarrow> datagram \<Rightarrow> socket_addr \<Rightarrow> ptp_node ptp_step" where
  "deliver e n d src = node_step e n (NE_Receive (dg_socket d) (dg_data d) src)"

text \<open>
  Sync and Follow_Up of the master, Delay_Req of the slave, Delay_Resp of the master; the five
  environments are those of the five steps.
\<close>

definition node_exchange :: "ptp_env list \<Rightarrow> socket_addr \<Rightarrow> socket_addr \<Rightarrow> ptp_node \<Rightarrow> ptp_node \<Rightarrow> (ptp_node \<times> ptp_node) option" where
  "node_exchange es master_addr slave_addr m s =
     Option.bind (node_step (es ! 0) m NE_SyncTick) (\<lambda>(m1, out1, _).
     if length out1 \<noteq> 2 then None else
     Option.bind (deliver (es ! 1) s (out1 ! 0) master_addr) (\<lambda>(s1, _, _).
     Option.bind (deliver (es ! 2) s1 (out1 ! 1) master_addr) (\<lambda>(s2, out2, _).
     if length out2 \<noteq> 1 then None else
     Option.bind (deliver (es ! 3) m1 (out2 ! 0) slave_addr) (\<lambda>(m2, out3, _).
     if length out3 \<noteq> 1 then None else
     Option.bind (deliver (es ! 4) s2 (out3 ! 0) master_addr) (\<lambda>(s3, _, _). Some (m2, s3))))))"

definition speaks_ieee :: "ptp_node \<Rightarrow> bool" where
  "speaks_ieee n \<longleftrightarrow> \<not> cfg_use_airplay_format (pn_config n) \<and> pn_general_socket n \<and> \<not> pn_timing_socket n
     \<and> 64 \<le> cfg_recv_buf_size (pn_config n) \<and> cfg_transport_specific (pn_config n) < 16"

lemma send_sync_ieee:
  assumes "speaks_ieee m" and "pn_role m = Role_Master" and "pn_known_slaves m = [sa]" and "pn_known_general_slaves m = [sg]"
    and "env_ok e" and "\<forall>d. env_send e d"
  obtains sync follow where "ptp_message_ok sync" and "pm_body sync = Sync (ptp_ts_now (env_wall e 0))"
    and "ptp_message_ok follow" and "pm_body follow = FollowUp (ptp_ts_now (env_wall e 1))"
    and "node_step e m NE_SyncTick = Some (m\<lparr>pn_sync_sequence := pn_sync_sequence m + 1\<rparr>,
      [dgram EventSocket (ptp_message_encode sync) sa, dgram GeneralSocket (ptp_message_encode follow) sg], Running)"
proof -
  let ?m = "ptp_sync (own_port m) (pn_sync_sequence m) (ptp_ts_now (env_wall e 0))"
  let ?s = "?m\<lparr>pm_header := (pm_header ?m)\<lparr>ph_flags := 0x0200\<rparr>\<rparr>"
  let ?f = "ptp_follow_up (own_port m) (pn_sync_sequence m) (ptp_ts_now (env_wall e 1))"
  have "ptp_message_ok ?m" using assms(5) by (simp add: constructed_ok env_ok_def)
  then have "ptp_message_ok ?s" by (simp add: ptp_message_ok_def ptp_header_ok_def)
  moreover have "ptp_message_ok ?f" using assms(5) by (simp add: constructed_ok env_ok_def)
  moreover have "pm_body ?s = Sync (ptp_ts_now (env_wall e 0))" "pm_body ?f = FollowUp (ptp_ts_now (env_wall e 1))"
    by (simp_all add: ptp_sync_def ptp_follow_up_def)
  moreover have "node_step e m NE_SyncTick = Some (m\<lparr>pn_sync_sequence := pn_sync_sequence m + 1\<rparr>,
      [dgram EventSocket (ptp_message_encode ?s) sa, dgram GeneralSocket (ptp_message_encode ?f) sg], Running)"
    using assms by (simp add: node_send_sync_def send_then_def Let_def speaks_ieee_def)
  ultimately show thesis using that by blast
qed

lemma deliver_sync:
  assumes "speaks_ieee s" and "ptp_message_ok m" and "pm_body m = Sync t" and "pn_pending_t3 s = None"
    and "pn_calibrated_epoch_offset s = None"
  shows "deliver e s (dgram EventSocket (ptp_message_encode m) a) src =
    quiet (s\<lparr>pn_pending_t1 := Some t, pn_pending_t2 := Some (ptp_ts_now (env_wall e 0)), pn_pending_t3 := None\<rparr>)"
  using assms ptp_delivered [OF assms(2), of "cfg_recv_buf_size (pn_config s)"]
  by (simp add: deliver_def dgram_def node_handle_event_packet_def node_event_message_def adjusted_now_def speaks_ieee_def)

lemma deliver_follow_up:
  assumes "speaks_ieee s" and "ptp_message_ok m" and "pm_body m = FollowUp t" and "pn_role s = Role_Slave"
    and "pn_pending_t2 s \<noteq> None" and "pn_delay_req_unanswered s < 2" and "pn_remote_master s = Some rm"
    and "pn_calibrated_epoch_offset s = None" and "env_ok e" and "\<forall>d. env_send e d"
  obtains req where "ptp_message_ok req" and "pm_body req = DelayReq (ptp_ts_now (env_wall e 0))"
    and "deliver e s (dgram GeneralSocket (ptp_message_encode m) a) src =
      Some (s\<lparr>pn_pending_t1 := Some t, pn_pending_t3 := Some (ptp_ts_now (env_wall e 0)),
              pn_delay_req_sent_at := Some (env_instant e 0), pn_delay_req_sequence := pn_delay_req_sequence s + 1\<rparr>,
            [dgram EventSocket (ptp_message_encode req) (rm_event_addr rm)], Running)"
proof -
  let ?m = "ptp_delay_req (own_port s) (pn_delay_req_sequence s) (ptp_ts_now (env_wall e 0))"
  let ?r = "?m\<lparr>pm_header := (pm_header ?m)\<lparr>ph_transport_specific := cfg_transport_specific (pn_config s)\<rparr>\<rparr>"
  have "ptp_message_ok ?m" using assms(9) by (simp add: constructed_ok env_ok_def)
  then have ok: "ptp_message_ok ?r" using assms(1) by (simp add: ptp_message_ok_def ptp_header_ok_def speaks_ieee_def)
  have body: "pm_body ?r = DelayReq (ptp_ts_now (env_wall e 0))" by (simp add: ptp_delay_req_def)
  have dest: "delay_req_dest (s\<lparr>pn_pending_t1 := Some t, pn_pending_t3 := None, pn_delay_req_sent_at := None\<rparr>) = Some (rm_event_addr rm)"
    using assms(7) by (simp add: delay_req_dest_def)
  show thesis
    by (rule that [OF ok body])
      (use assms ptp_delivered [OF assms(2), of "cfg_recv_buf_size (pn_config s)"] dest in
        \<open>simp add: deliver_def dgram_def node_handle_general_packet_def node_general_message_def adjusted_now_def
          node_send_delay_req_def send_then_def own_port_def speaks_ieee_def Let_def\<close>)
qed

lemma deliver_delay_req:
  assumes "speaks_ieee m" and "ptp_message_ok req" and "pm_body req = DelayReq t" and "pn_calibrated_epoch_offset m = None"
    and "env_ok e" and "\<forall>d. env_send e d"
  obtains resp m' dest p where "ptp_message_ok resp" and "pm_body resp = DelayResp (ptp_ts_now (env_wall e 1)) p"
    and "ph_correction_field (pm_header resp) = 0"
    and "deliver e m (dgram EventSocket (ptp_message_encode req) a) src =
      Some (m', [dgram GeneralSocket (ptp_message_encode resp) dest], Running)"
proof -
  let ?p = "ph_source_port_identity (pm_header req)"
  let ?m = "node_add_slave m src"
  let ?r = "ptp_delay_resp (own_port ?m) (ph_sequence_id (pm_header req)) (ptp_ts_now (env_wall e 1)) ?p"
  have ok: "ptp_message_ok ?r" using assms(5) by (simp add: constructed_ok env_ok_def)
  have body: "pm_body ?r = DelayResp (ptp_ts_now (env_wall e 1)) ?p" by (simp add: ptp_delay_resp_def)
  have corr: "ph_correction_field (pm_header ?r) = 0" by (simp add: ptp_delay_resp_def ptp_header_new_def)
  have g: "pn_general_socket ?m" using assms(1) by (simp add: node_add_slave_def speaks_ieee_def)
  show thesis
    by (rule that [OF ok body corr, of ?m "resolve_general_addr_for_event ?m src"])
      (use assms g ptp_delivered [OF assms(2), of "cfg_recv_buf_size (pn_config m)"] in
        \<open>simp add: deliver_def dgram_def node_handle_event_packet_def node_event_message_def adjusted_now_def
          node_ieee_delay_req_def send_then_def speaks_ieee_def Let_def\<close>)
qed

lemma deliver_delay_resp:
  assumes "speaks_ieee s" and "ptp_message_ok m" and "pm_body m = DelayResp t p" and "ph_correction_field (pm_header m) = 0"
  shows "deliver e s (dgram GeneralSocket (ptp_message_encode m) a) src = quiet (node_process_delay_resp e s t)"
  using assms ptp_delivered [OF assms(2), of "cfg_recv_buf_size (pn_config s)"]
  by (simp add: deliver_def dgram_def node_handle_general_packet_def node_general_message_def corrected_t4_def speaks_ieee_def)

text \<open>The slave after the exchange has processed exactly the four times of the exchange.\<close>

lemma node_exchange_result:
  fixes es defines "t1 \<equiv> ptp_ts_now (env_wall (es ! 0) 1)" and "t2 \<equiv> ptp_ts_now (env_wall (es ! 1) 0)"
    and "t3 \<equiv> ptp_ts_now (env_wall (es ! 2) 0)" and "t4 \<equiv> ptp_ts_now (env_wall (es ! 3) 1)"
  assumes m: "speaks_ieee m" "pn_role m = Role_Master" "pn_known_slaves m = [sa]" "pn_known_general_slaves m = [sg]"
      "pn_calibrated_epoch_offset m = None"
    and s: "speaks_ieee s" "pn_role s = Role_Slave" "pn_remote_master s = Some rm" "pn_pending_t3 s = None"
      "pn_delay_req_unanswered s < 2" "pn_calibrated_epoch_offset s = None"
    and env: "length es = 5" "\<forall>e\<in>set es. env_ok e \<and> (\<forall>d. env_send e d)"
  shows "\<exists>m'. node_exchange es master_addr slave_addr m s = Some (m', node_process_delay_resp (es ! 4)
    (s\<lparr>pn_pending_t1 := Some t1, pn_pending_t2 := Some t2, pn_pending_t3 := Some t3,
       pn_delay_req_sent_at := Some (env_instant (es ! 2) 0), pn_delay_req_sequence := pn_delay_req_sequence s + 1\<rparr>) t4)"
proof -
  have env: "env_ok (es ! i)" "\<forall>d. env_send (es ! i) d" if "i < 5" for i
    using env that by simp_all
  obtain sync follow where sync: "ptp_message_ok sync" "pm_body sync = Sync (ptp_ts_now (env_wall (es ! 0) 0))"
    and follow: "ptp_message_ok follow" "pm_body follow = FollowUp t1"
    and step1: "node_step (es ! 0) m NE_SyncTick = Some (m\<lparr>pn_sync_sequence := pn_sync_sequence m + 1\<rparr>,
      [dgram EventSocket (ptp_message_encode sync) sa, dgram GeneralSocket (ptp_message_encode follow) sg], Running)"
    unfolding t1_def by (rule send_sync_ieee [OF m(1-4) env(1,2) [of 0, simplified]])
  define m1 where "m1 = m\<lparr>pn_sync_sequence := pn_sync_sequence m + 1\<rparr>"
  define s1 where "s1 = s\<lparr>pn_pending_t1 := Some (ptp_ts_now (env_wall (es ! 0) 0)), pn_pending_t2 := Some t2, pn_pending_t3 := None\<rparr>"
  have step2: "deliver (es ! 1) s (dgram EventSocket (ptp_message_encode sync) sa) master_addr = quiet s1"
    unfolding s1_def t2_def by (rule deliver_sync [OF s(1) sync s(4,6)])
  have s1: "speaks_ieee s1" "pn_role s1 = Role_Slave" "pn_pending_t2 s1 \<noteq> None" "pn_delay_req_unanswered s1 < 2"
    "pn_remote_master s1 = Some rm" "pn_calibrated_epoch_offset s1 = None"
    using s by (simp_all add: s1_def speaks_ieee_def)
  define s2 where "s2 = s1\<lparr>pn_pending_t1 := Some t1, pn_pending_t3 := Some t3,
      pn_delay_req_sent_at := Some (env_instant (es ! 2) 0), pn_delay_req_sequence := pn_delay_req_sequence s1 + 1\<rparr>"
  obtain req where req: "ptp_message_ok req" "pm_body req = DelayReq t3"
    and step3: "deliver (es ! 2) s1 (dgram GeneralSocket (ptp_message_encode follow) sg) master_addr =
      Some (s2, [dgram EventSocket (ptp_message_encode req) (rm_event_addr rm)], Running)"
    unfolding s2_def t3_def by (rule deliver_follow_up [OF s1(1) follow s1(2-6) env(1,2) [of 2, simplified]])
  have m1: "speaks_ieee m1" "pn_calibrated_epoch_offset m1 = None" using m by (simp_all add: m1_def speaks_ieee_def)
  obtain resp m2 dest p where resp: "ptp_message_ok resp" "pm_body resp = DelayResp t4 p" "ph_correction_field (pm_header resp) = 0"
    and step4: "deliver (es ! 3) m1 (dgram EventSocket (ptp_message_encode req) (rm_event_addr rm)) slave_addr =
      Some (m2, [dgram GeneralSocket (ptp_message_encode resp) dest], Running)"
    unfolding t4_def by (rule deliver_delay_req [OF m1(1) req m1(2) env(1,2) [of 3, simplified]])
  have "speaks_ieee s2" using s1(1) by (simp add: s2_def speaks_ieee_def)
  then have step5: "deliver (es ! 4) s2 (dgram GeneralSocket (ptp_message_encode resp) dest) master_addr =
      quiet (node_process_delay_resp (es ! 4) s2 t4)"
    using resp by (rule deliver_delay_resp)
  have "s2 = s\<lparr>pn_pending_t1 := Some t1, pn_pending_t2 := Some t2, pn_pending_t3 := Some t3,
      pn_delay_req_sent_at := Some (env_instant (es ! 2) 0), pn_delay_req_sequence := pn_delay_req_sequence s + 1\<rparr>"
    by (simp add: s2_def s1_def)
  with step1 step2 step3 step4 step5 show ?thesis
    by (simp add: node_exchange_def m1_def [symmetric] quiet_def del: node_step.simps)
qed

lemma first_measurement:
  assumes "pc_measurements c = []" and "1 \<le> pc_max_measurements c" and "tm_rtt m \<le> pc_max_rtt c"
    and "m = timing_measurement_calculate t1 t2 t3 t4 now"
  shows "pc_offset_ns (fst (ptp_clock_process_timing f now c t1 t2 t3 t4)) = tm_offset_ns m"
  using assms by (simp add: ptp_clock_process_timing_def ptp_clock_record_simps ptp_clock_update_offset_def ptp_clock_push_def)

section \<open>Properties\<close>

text \<open>Concrete nodes and environments for the witnesses: the clocks read a fixed second.\<close>

definition demo_env :: "u64 \<Rightarrow> ptp_env" where
  "demo_env secs = \<lparr>env_wall = (\<lambda>_. Some (secs, 0)), env_instant = (\<lambda>_. 0), env_send = (\<lambda>_. True), env_try_write = True,
     env_timing_port = None, env_drift = (\<lambda>_ _. 0)\<rparr>"

definition demo_node :: "u64 \<Rightarrow> u8 \<Rightarrow> ptp_node" where
  "demo_node clock_id p1 =
     node_add_general_slave (node_add_slave (create_client_node True (ptp_clock_new 0 clock_id Slave) clock_id p1)
       (SocketV4 1 319)) (SocketV4 1 320)"

lemma env_ok_demo [simp]: "unat secs < 2 ^ 48 \<Longrightarrow> env_ok (demo_env secs)"
  by (simp add: env_ok_def demo_env_def ptp_ts_now_def ptp_ts_48_def)

lemmas node_demo_defs = demo_node_def create_client_node_def ptp_node_new_def node_add_slave_def node_add_general_slave_def
  ptp_clock_new_def

text \<open>
  C22. The event loop of a PTP node never panics once its timers are made. From a new node and any sequence of datagrams,
  timers and clock readings whose seconds fit 48 bits, every step returns, and afterwards the
  node is a slave exactly when it has a master that ranks before itself, at most two requests
  are counted as unanswered with none pending after the second, and all times that enter the
  arithmetic stay bounded.
\<close>

theorem ptp_node_never_panics:
  assumes "\<forall>x\<in>set xs. env_ok (fst x)"
  shows "\<exists>n sent status. node_run (ptp_node_new g (ptp_clock_new now clock_id role) cfg) xs = Some (n, sent, status)
    \<and> node_ok n"
  using node_run_ok [OF node_ok_new assms, of "ptp_clock_new now clock_id role" g cfg]
  by (simp add: step_ok_def clock_small_def small_time_def ptp_clock_new_def)

theorem ptp_node_never_panics_witness:
  "\<exists>n sent status. node_run (ptp_node_new True (ptp_clock_new 0 9 Slave) (pn_config (demo_node 9 128)))
     [(demo_env 7, NE_Receive GeneralSocket [1, 2, 3] (SocketV4 1 320)), (demo_env 8, NE_DelayReqTick)] = Some (n, sent, status)
   \<and> node_ok n"
  by (rule ptp_node_never_panics) simp

definition rank :: "ptp_node_config \<Rightarrow> nat \<times> nat \<times> nat" where
  "rank c = (unat (cfg_priority1 c), unat (cfg_priority2 c), unat (cfg_clock_id c))"

definition rank_less :: "nat \<times> nat \<times> nat \<Rightarrow> nat \<times> nat \<times> nat \<Rightarrow> bool" where
  "rank_less x y \<longleftrightarrow> (x, y) \<in> less_than <*lex*> less_than <*lex*> less_than"

lemma compare_priority_rank:
  "compare_priority c (cfg_priority1 d) (cfg_priority2 d) (cfg_clock_id d) \<longleftrightarrow> rank_less (rank d) (rank c)"
  by (auto simp: compare_priority_def rank_def rank_less_def word_less_nat_alt word_unat_eq_iff)

lemma rank_total: "cfg_clock_id c \<noteq> cfg_clock_id d \<Longrightarrow> rank_less (rank c) (rank d) \<longleftrightarrow> \<not> rank_less (rank d) (rank c)"
  by (auto simp: rank_def rank_less_def word_unat_eq_iff)

definition announce_exchange_ready :: "ptp_node \<Rightarrow> bool" where
  "announce_exchange_ready n \<longleftrightarrow> pn_role n = Role_Master \<and> pn_remote_master n = None \<and> pn_general_socket n
     \<and> \<not> cfg_use_airplay_format (pn_config n) \<and> 64 \<le> cfg_recv_buf_size (pn_config n)"

lemma announce_decides:
  assumes "announce_exchange_ready a" and "cfg_clock_id (pn_config a) \<noteq> cfg_clock_id c"
  shows "pn_role (process_announce e a (cfg_clock_id c) (cfg_priority1 c) (cfg_priority2 c) src) = Role_Slave
      \<longleftrightarrow> rank_less (rank c) (rank (pn_config a))"
    and "map_option rm_grandmaster_identity
        (pn_remote_master (process_announce e a (cfg_clock_id c) (cfg_priority1 c) (cfg_priority2 c) src)) =
      (if rank_less (rank c) (rank (pn_config a)) then Some (cfg_clock_id c) else None)"
  using assms by (auto simp: process_announce_def announce_exchange_ready_def compare_priority_rank Let_def)

text \<open>
  C32. Two masters that hear each other agree. When each receives an Announce that the other sent,
  exactly one of them becomes slave, the one that is later in the order of first priority,
  second priority and clock identity, and its master is the other.
\<close>

theorem ptp_master_election:
  assumes "announce_exchange_ready a" and "announce_exchange_ready b"
    and "cfg_clock_id (pn_config a) \<noteq> cfg_clock_id (pn_config b)"
    and "node_step ea a NE_AnnounceTick = Some (a1, sent_a, Running)" and "da \<in> set sent_a" and "env_ok ea"
    and "node_step eb b NE_AnnounceTick = Some (b1, sent_b, Running)" and "db \<in> set sent_b" and "env_ok eb"
  shows "\<exists>a2 b2. node_step ea' a1 (NE_Receive GeneralSocket (dg_data db) src_b) = quiet a2
    \<and> node_step eb' b1 (NE_Receive GeneralSocket (dg_data da) src_a) = quiet b2
    \<and> (pn_role a2 = Role_Slave \<longleftrightarrow> rank_less (rank (pn_config b)) (rank (pn_config a)))
    \<and> (pn_role a2 = Role_Slave \<longleftrightarrow> pn_role b2 \<noteq> Role_Slave)
    \<and> map_option rm_grandmaster_identity (pn_remote_master a2) =
        (if pn_role a2 = Role_Slave then Some (cfg_clock_id (pn_config b)) else None)
    \<and> map_option rm_grandmaster_identity (pn_remote_master b2) =
        (if pn_role b2 = Role_Slave then Some (cfg_clock_id (pn_config a)) else None)"
proof -
  have same: "announce_exchange_ready n1 \<and> pn_config n1 = pn_config n"
    if "node_step e n NE_AnnounceTick = Some (n1, sent, Running)" "announce_exchange_ready n" for e n n1 sent
    using that by (auto simp: node_send_announce_def send_then_def check_announce_timeout_def announce_exchange_ready_def
        Let_def split: prod.splits if_splits option.splits)
  have a1: "announce_exchange_ready a1" "pn_config a1 = pn_config a" using same [OF assms(4,1)] by simp_all
  have b1: "announce_exchange_ready b1" "pn_config b1 = pn_config b" using same [OF assms(7,2)] by simp_all
  have sa: "node_step ea' a1 (NE_Receive GeneralSocket (dg_data db) src_b) = quiet (process_announce ea' a1
      (cfg_clock_id (pn_config b)) (cfg_priority1 (pn_config b)) (cfg_priority2 (pn_config b)) src_b)"
    using a1(1) by (intro announce_arrives [OF assms(7-9)]) (simp_all add: announce_exchange_ready_def)
  have sb: "node_step eb' b1 (NE_Receive GeneralSocket (dg_data da) src_a) = quiet (process_announce eb' b1
      (cfg_clock_id (pn_config a)) (cfg_priority1 (pn_config a)) (cfg_priority2 (pn_config a)) src_a)"
    using b1(1) by (intro announce_arrives [OF assms(4-6)]) (simp_all add: announce_exchange_ready_def)
  show ?thesis
    unfolding sa sb using assms(3) announce_decides [OF a1(1), of "pn_config b" ea' src_b]
      announce_decides [OF b1(1), of "pn_config a" eb' src_a] rank_total [OF assms(3)] a1(2) b1(2)
    by (intro exI conjI) (auto simp del: node_step.simps)
qed

lemma demo_announce:
  "node_step (demo_env secs) (demo_node k p) NE_AnnounceTick =
     Some ((demo_node k p)\<lparr>pn_announce_sequence := 1\<rparr>,
       [dgram GeneralSocket (ptp_message_encode (ptp_announce (Some (secs, 0)) \<lparr>pi_clock_identity = k, pi_port_number = 1\<rparr>
          0 k p 128)) (SocketV4 1 320)], Running)"
  by (simp add: node_demo_defs demo_env_def node_send_announce_def send_then_def check_announce_timeout_def own_port_def Let_def)

theorem ptp_master_election_witness:
  "\<exists>a2 b2. node_step (demo_env 3) ((demo_node 9 128)\<lparr>pn_announce_sequence := 1\<rparr>) (NE_Receive GeneralSocket
        (ptp_message_encode (ptp_announce (Some (2, 0)) \<lparr>pi_clock_identity = 8, pi_port_number = 1\<rparr> 0 8 128 128)) (SocketV4 1 320)) = quiet a2
   \<and> node_step (demo_env 3) ((demo_node 8 128)\<lparr>pn_announce_sequence := 1\<rparr>) (NE_Receive GeneralSocket
        (ptp_message_encode (ptp_announce (Some (1, 0)) \<lparr>pi_clock_identity = 9, pi_port_number = 1\<rparr> 0 9 128 128)) (SocketV4 1 320)) = quiet b2
   \<and> pn_role a2 = Role_Slave \<and> pn_role b2 \<noteq> Role_Slave"
proof -
  have r: "announce_exchange_ready (demo_node 9 128)" "announce_exchange_ready (demo_node 8 128)"
    "cfg_clock_id (pn_config (demo_node 9 128)) \<noteq> cfg_clock_id (pn_config (demo_node 8 128))"
    "rank_less (rank (pn_config (demo_node 8 128))) (rank (pn_config (demo_node 9 128)))"
    by (simp_all add: announce_exchange_ready_def node_demo_defs rank_def rank_less_def)
  from ptp_master_election [OF r(1-3) demo_announce [of 1] list.set_intros(1) _ demo_announce [of 2] list.set_intros(1),
      of "demo_env 3" "SocketV4 1 320" "demo_env 3" "SocketV4 1 320"] r(4)
  show ?thesis by (auto simp: dgram_def simp del: node_step.simps)
qed

text \<open>
  C28. A complete exchange calibrates the slave. A master tick, the delivery of its Sync and
  Follow_Up to a slave without measurements, of the Delay_Req that this causes to the master
  and of the answer to the slave always go through; with path delays \<open>d1\<close> and \<open>d2\<close> and the
  clock of the slave \<open>theta\<close> ahead, the epoch offset it then fixes differs from \<open>theta\<close> by half
  of \<open>d1 - d2\<close> up to rounding, and no exchange is pending.
\<close>

theorem ptp_exchange_calibrates:
  assumes "speaks_ieee m" and "pn_role m = Role_Master" and "pn_known_slaves m = [sa]" and "pn_known_general_slaves m = [sg]"
    and "pn_calibrated_epoch_offset m = None"
    and "speaks_ieee s" and "pn_role s = Role_Slave" and "pn_remote_master s = Some rm" and "pn_pending_t3 s = None"
    and "pn_delay_req_unanswered s < 2" and "pn_calibrated_epoch_offset s = None"
    and "pc_measurements (pn_clock s) = []" and "1 \<le> pc_max_measurements (pn_clock s)"
    and "length es = 5" and "\<forall>e\<in>set es. env_ok e \<and> (\<forall>d. env_send e d)"
    and "ptp_to_nanos (ptp_ts_now (env_wall (es ! 1) 0)) = ptp_to_nanos (ptp_ts_now (env_wall (es ! 0) 1)) + d1 + theta"
    and "ptp_to_nanos (ptp_ts_now (env_wall (es ! 3) 1)) = ptp_to_nanos (ptp_ts_now (env_wall (es ! 2) 0)) + d2 - theta"
    and "0 \<le> d1 + d2" and "d1 + d2 < 2 ^ 64" and "d1 + d2 \<le> int (pc_max_rtt (pn_clock s))"
  shows "\<exists>m' s' off. node_exchange es master_addr slave_addr m s = Some (m', s')
    \<and> pn_calibrated_epoch_offset s' = Some off \<and> \<bar>2 * (off - theta) - (d1 - d2)\<bar> \<le> 1
    \<and> pn_pending_t1 s' = None \<and> pn_pending_t2 s' = None \<and> pn_pending_t3 s' = None
    \<and> pn_delay_req_sent_at s' = None \<and> pn_delay_req_unanswered s' = 0"
proof -
  let ?t1 = "ptp_ts_now (env_wall (es ! 0) 1)" and ?t2 = "ptp_ts_now (env_wall (es ! 1) 0)"
  let ?t3 = "ptp_ts_now (env_wall (es ! 2) 0)" and ?t4 = "ptp_ts_now (env_wall (es ! 3) 1)" and ?now = "env_instant (es ! 4) 1"
  define s2 where "s2 = s\<lparr>pn_pending_t1 := Some ?t1, pn_pending_t2 := Some ?t2, pn_pending_t3 := Some ?t3,
      pn_delay_req_sent_at := Some (env_instant (es ! 2) 0), pn_delay_req_sequence := pn_delay_req_sequence s + 1\<rparr>"
  define s3 where "s3 = node_process_delay_resp (es ! 4) s2 ?t4"
  define me where "me = timing_measurement_calculate ?t1 ?t2 ?t3 ?t4 ?now"
  have run: "\<exists>m'. node_exchange es master_addr slave_addr m s = Some (m', s3)"
    unfolding s3_def s2_def by (rule node_exchange_result [OF assms(1-11,14,15)])
  have "int (tm_rtt me) = d1 + d2" unfolding me_def by (rule measurement_rtt [OF assms(16-19)])
  then have off: "pc_offset_ns (fst (ptp_clock_process_timing (env_drift (es ! 4)) ?now (pn_clock s) ?t1 ?t2 ?t3 ?t4)) = tm_offset_ns me"
    using assms(12,13,20) by (intro first_measurement [OF _ _ _ me_def]) simp_all
  have err: "\<bar>2 * (tm_offset_ns me - theta) - (d1 - d2)\<bar> \<le> 1"
    unfolding me_def by (rule measurement_error [OF assms(16,17)])
  have "pn_calibrated_epoch_offset s3 = Some (tm_offset_ns me) \<and> pn_pending_t1 s3 = None \<and> pn_pending_t2 s3 = None
      \<and> pn_pending_t3 s3 = None \<and> pn_delay_req_sent_at s3 = None \<and> pn_delay_req_unanswered s3 = 0"
    using off assms(11) by (simp add: s3_def node_process_delay_resp_def s2_def Let_def)
  with run err show ?thesis by blast
qed

theorem ptp_exchange_calibrates_witness:
  "\<exists>m' s' off. node_exchange (map demo_env [10, 13, 13, 10, 13]) (SocketV4 2 319) (SocketV4 1 319) (demo_node 8 128)
     ((demo_node 9 128)\<lparr>pn_role := Role_Slave, pn_remote_master := Some \<lparr>rm_grandmaster_identity = 8, rm_priority1 = 128,
        rm_priority2 = 128, rm_event_addr = SocketV4 2 319, rm_general_addr = SocketV4 2 320, rm_last_announce = 0\<rparr>\<rparr>) = Some (m', s')
   \<and> pn_calibrated_epoch_offset s' = Some off \<and> \<bar>2 * (off - 3000000000) - (0 - 0)\<bar> \<le> 1 \<and> pn_pending_t3 s' = None"
proof -
  let ?rm = "\<lparr>rm_grandmaster_identity = 8, rm_priority1 = 128, rm_priority2 = 128, rm_event_addr = SocketV4 2 319,
    rm_general_addr = SocketV4 2 320, rm_last_announce = 0\<rparr>"
  let ?s = "(demo_node 9 128)\<lparr>pn_role := Role_Slave, pn_remote_master := Some ?rm\<rparr>"
  let ?es = "map demo_env [10, 13, 13, 10, 13]"
  have "\<exists>m' s' off. node_exchange ?es (SocketV4 2 319) (SocketV4 1 319) (demo_node 8 128) ?s = Some (m', s')
    \<and> pn_calibrated_epoch_offset s' = Some off \<and> \<bar>2 * (off - 3000000000) - (0 - 0)\<bar> \<le> 1
    \<and> pn_pending_t1 s' = None \<and> pn_pending_t2 s' = None \<and> pn_pending_t3 s' = None
    \<and> pn_delay_req_sent_at s' = None \<and> pn_delay_req_unanswered s' = 0"
    by (rule ptp_exchange_calibrates [where sa = "SocketV4 1 319" and sg = "SocketV4 1 320" and rm = ?rm])
      (simp_all add: node_demo_defs speaks_ieee_def, simp_all add: demo_env_def env_ok_def ptp_ts_now_def ptp_ts_48_def
        ptp_to_nanos_def NANOS_PER_SEC_def)
  then show ?thesis by blast
qed

text \<open>
  The fallback to one-way measurements is permanent: after a second unanswered Delay_Req no
  sequence of events, the arrival of a Delay_Resp or a change of the master included, makes the
  node send a Delay_Req or clears the count.
\<close>

theorem ptp_one_way_fallback_permanent:
  assumes "node_ok n" and "pn_delay_req_unanswered n = 2" and "node_run n xs = Some (n', sent, status)"
  shows "pn_delay_req_unanswered n' = 2 \<and> (\<forall>d\<in>set sent. \<not> is_delay_req (dg_data d))"
proof -
  have "fallen_back n" using assms(1,2) by (auto simp: inv_defs fallen_back_def)
  then show ?thesis using fallback_run [of n xs] assms(3) by (simp add: fallback_step_def fallen_back_def)
qed

theorem ptp_one_way_fallback_permanent_witness:
  "\<exists>n' sent status. node_run ((demo_node 9 128)\<lparr>pn_delay_req_unanswered := 2\<rparr>)
     [(demo_env 1, NE_DelayReqTick), (demo_env 2, NE_AnnounceTick)] = Some (n', sent, status)
   \<and> pn_delay_req_unanswered n' = 2 \<and> sent \<noteq> [] \<and> (\<forall>d\<in>set sent. \<not> is_delay_req (dg_data d))"
proof -
  let ?n = "(demo_node 9 128)\<lparr>pn_delay_req_unanswered := 2\<rparr>"
  let ?xs = "[(demo_env 1, NE_DelayReqTick), (demo_env 2, NE_AnnounceTick)]"
  have ok: "node_ok ?n"
    by (simp add: inv_defs node_demo_defs clock_small_def small_time_def)
  obtain n' sent status where r: "node_run ?n ?xs = Some (n', sent, status)" "sent \<noteq> []"
    by (simp add: node_demo_defs demo_env_def check_delay_req_timeout_def node_send_announce_def send_then_def quiet_def Let_def)
  from ptp_one_way_fallback_permanent [OF ok _ r(1)] r show ?thesis by (auto simp del: node_run.simps)
qed

text \<open>
  A lost Sync can shift the clock. A slave whose last Sync is older by \<open>lag\<close> than the Follow_Up
  it receives, because the Sync in between was lost, pairs the new origin time with the old
  arrival time; when \<open>lag\<close> is at least the round-trip time, the measured round-trip time is
  zero, the measurement is accepted, and the epoch offset it fixes is wrong by half of \<open>lag\<close>.
\<close>

theorem ptp_lost_sync_shifts_epoch:
  assumes "speaks_ieee s" and "pn_role s = Role_Slave" and "pn_remote_master s = Some rm" and "pn_pending_t2 s = Some t2"
    and "pn_delay_req_unanswered s < 2" and "pn_calibrated_epoch_offset s = None"
    and "pc_measurements (pn_clock s) = []" and "1 \<le> pc_max_measurements (pn_clock s)"
    and "env_ok e" and "\<forall>d. env_send e d"
    and "ptp_message_ok follow" and "pm_body follow = FollowUp t1"
    and "ptp_message_ok resp" and "pm_body resp = DelayResp t4 p" and "ph_correction_field (pm_header resp) = 0"
    and "ptp_to_nanos t2 = ptp_to_nanos t1 + (d1 - lag) + theta"
    and "ptp_to_nanos t4 = ptp_to_nanos (ptp_ts_now (env_wall e 0)) + d2 - theta" and "d1 + d2 \<le> lag"
  shows "\<exists>s1 req s2 off. deliver e s (dgram GeneralSocket (ptp_message_encode follow) a) src = Some (s1, [req], Running)
    \<and> deliver e' s1 (dgram GeneralSocket (ptp_message_encode resp) a) src = quiet s2
    \<and> pn_calibrated_epoch_offset s2 = Some off \<and> \<bar>2 * (off - theta) - (d1 - d2) + lag\<bar> \<le> 1"
proof -
  let ?t3 = "ptp_ts_now (env_wall e 0)" and ?now = "env_instant e' 1"
  define s1 where "s1 = s\<lparr>pn_pending_t1 := Some t1, pn_pending_t3 := Some ?t3,
      pn_delay_req_sent_at := Some (env_instant e 0), pn_delay_req_sequence := pn_delay_req_sequence s + 1\<rparr>"
  define me where "me = timing_measurement_calculate t1 t2 ?t3 t4 ?now"
  have t2: "pn_pending_t2 s \<noteq> None" using assms(4) by simp
  obtain req where step1: "deliver e s (dgram GeneralSocket (ptp_message_encode follow) a) src =
      Some (s1, [dgram EventSocket (ptp_message_encode req) (rm_event_addr rm)], Running)"
    unfolding s1_def by (rule deliver_follow_up [OF assms(1,11,12,2) t2 assms(5,3,6,9,10)])
  have "speaks_ieee s1" using assms(1) by (simp add: s1_def speaks_ieee_def)
  then have step2: "deliver e' s1 (dgram GeneralSocket (ptp_message_encode resp) a) src = quiet (node_process_delay_resp e' s1 t4)"
    using assms(13-15) by (rule deliver_delay_resp)
  have "ptp_diff_nanos t4 t1 - ptp_diff_nanos ?t3 t2 = d1 + d2 - lag"
    using assms(16,17) by (simp add: ptp_diff_nanos_def)
  then have "tm_rtt me = 0" using assms(18) by (simp add: me_def timing_measurement_calculate_def)
  then have "pc_offset_ns (fst (ptp_clock_process_timing (env_drift e') ?now (pn_clock s) t1 t2 ?t3 t4)) = tm_offset_ns me"
    using assms(7,8) by (intro first_measurement [OF _ _ _ me_def]) simp_all
  then have "pn_calibrated_epoch_offset (node_process_delay_resp e' s1 t4) = Some (tm_offset_ns me)"
    using assms(4,6) by (simp add: node_process_delay_resp_def s1_def Let_def)
  moreover have "\<bar>2 * (tm_offset_ns me - theta) - (d1 - lag - d2)\<bar> \<le> 1"
    unfolding me_def by (rule measurement_error [OF assms(16,17)])
  ultimately show ?thesis using step1 step2 by (auto simp: algebra_simps)
qed

theorem ptp_lost_sync_shifts_epoch_witness:
  "\<exists>s1 req s2 off. deliver (demo_env 13) ((demo_node 9 128)\<lparr>pn_role := Role_Slave, pn_remote_master := Some
       \<lparr>rm_grandmaster_identity = 8, rm_priority1 = 128, rm_priority2 = 128, rm_event_addr = SocketV4 2 319,
        rm_general_addr = SocketV4 2 320, rm_last_announce = 0\<rparr>,
       pn_pending_t2 := Some \<lparr>ts_seconds = 11, ts_nanoseconds = 0\<rparr>\<rparr>)
     (dgram GeneralSocket (ptp_message_encode (ptp_follow_up \<lparr>pi_clock_identity = 8, pi_port_number = 1\<rparr> 5
        \<lparr>ts_seconds = 13, ts_nanoseconds = 0\<rparr>)) (SocketV4 1 320)) (SocketV4 2 320) = Some (s1, [req], Running)
   \<and> deliver (demo_env 13) s1 (dgram GeneralSocket (ptp_message_encode (ptp_delay_resp \<lparr>pi_clock_identity = 8, pi_port_number = 1\<rparr> 0
        \<lparr>ts_seconds = 13, ts_nanoseconds = 0\<rparr> \<lparr>pi_clock_identity = 9, pi_port_number = 1\<rparr>)) (SocketV4 1 320)) (SocketV4 2 320) = quiet s2
   \<and> pn_calibrated_epoch_offset s2 = Some off \<and> \<bar>2 * (off - 0) - (0 - 0) + 2000000000\<bar> \<le> 1"
  by (rule ptp_lost_sync_shifts_epoch [where rm = "\<lparr>rm_grandmaster_identity = 8, rm_priority1 = 128, rm_priority2 = 128,
        rm_event_addr = SocketV4 2 319, rm_general_addr = SocketV4 2 320, rm_last_announce = 0\<rparr>"
        and ?t1.0 = "\<lparr>ts_seconds = 13, ts_nanoseconds = 0\<rparr>" and ?t2.0 = "\<lparr>ts_seconds = 11, ts_nanoseconds = 0\<rparr>"
        and ?t4.0 = "\<lparr>ts_seconds = 13, ts_nanoseconds = 0\<rparr>" and p = "\<lparr>pi_clock_identity = 9, pi_port_number = 1\<rparr>"])
    (simp_all add: node_demo_defs speaks_ieee_def ptp_ts_48_def constructed_ok, simp_all add: ptp_follow_up_def ptp_delay_resp_def
      ptp_header_new_def demo_env_def ptp_ts_now_def ptp_to_nanos_def NANOS_PER_SEC_def)

end
