(* ===== verification/Ptp_Handler.thy ===== *)
theory Ptp_Handler
  imports Ptp_Node
begin

text \<open>
  The older pair of PTP handlers, \<open>src/protocol/ptp/handler.rs\<close>: a slave that measures against
  one master, and a master that also measures its offset to the first of its slaves. A step
  handles one event of the loop in the environment of the PTP node; \<open>None\<close> is a panic.
\<close>

section \<open>The slave handler\<close>

record ptp_handler_config =
  hc_clock_id :: u64
  hc_role :: ptp_role
  hc_recv_buf_size :: nat
  hc_use_airplay_format :: bool

definition ptp_handler_config_default :: ptp_handler_config where
  "ptp_handler_config_default = \<lparr>hc_clock_id = 0, hc_role = Slave, hc_recv_buf_size = 256, hc_use_airplay_format = False\<rparr>"

record ptp_slave =
  sh_general_socket :: bool
  sh_clock :: ptp_clock
  sh_config :: ptp_handler_config
  sh_master_addr :: socket_addr
  sh_master_clock_port_addr :: "socket_addr option"
  sh_delay_req_sequence :: u16
  sh_pending_t1 :: "ptp_timestamp option"
  sh_pending_t2 :: "ptp_timestamp option"
  sh_pending_t3 :: "ptp_timestamp option"
  sh_pending_delay_resp :: "ptp_timestamp option"
  sh_delay_req_sent_at :: "nat option"
  sh_sync_count :: u64
  sh_delay_req_no_resp_count :: u32

definition ptp_slave_new :: "bool \<Rightarrow> ptp_clock \<Rightarrow> ptp_handler_config \<Rightarrow> socket_addr \<Rightarrow> ptp_slave" where
  "ptp_slave_new general_socket clock config master_addr =
     \<lparr>sh_general_socket = general_socket, sh_clock = clock, sh_config = config, sh_master_addr = master_addr,
      sh_master_clock_port_addr = None, sh_delay_req_sequence = 0, sh_pending_t1 = None, sh_pending_t2 = None,
      sh_pending_t3 = None, sh_pending_delay_resp = None, sh_delay_req_sent_at = None, sh_sync_count = 0,
      sh_delay_req_no_resp_count = 0\<rparr>"

definition slave_set_clock_port_addr :: "ptp_slave \<Rightarrow> socket_addr \<Rightarrow> ptp_slave" where
  "slave_set_clock_port_addr s addr = s\<lparr>sh_master_clock_port_addr := Some addr\<rparr>"

definition handler_port :: "ptp_handler_config \<Rightarrow> ptp_port_identity" where
  "handler_port c = \<lparr>pi_clock_identity = hc_clock_id c, pi_port_number = 1\<rparr>"

text \<open>The measurement of a complete exchange; the handler forgets its three times.\<close>

definition slave_measure :: "ptp_env \<Rightarrow> ptp_slave \<Rightarrow> ptp_timestamp \<Rightarrow> ptp_slave" where
  "slave_measure e s t4 =
     (case (sh_pending_t1 s, sh_pending_t2 s, sh_pending_t3 s) of
        (Some t1, Some t2, Some t3) \<Rightarrow>
          s\<lparr>sh_clock := fst (ptp_clock_process_timing (env_drift e) (env_instant e 1) (sh_clock s) t1 t2 t3 t4),
            sh_pending_t1 := None, sh_pending_t2 := None, sh_pending_t3 := None\<rparr>
      | _ \<Rightarrow> s)"

definition slave_handle_event_packet :: "ptp_env \<Rightarrow> ptp_slave \<Rightarrow> bytes \<Rightarrow> ptp_slave option" where
  "slave_handle_event_packet e s data =
     (let t2 = ptp_ts_now (env_wall e 0) in
      if hc_use_airplay_format (sh_config s)
      then case airplay_timing_decode data of
             Inl _ \<Rightarrow> Some s
           | Inr pkt \<Rightarrow>
               (case atp_message_type pkt of
                  Sync_t \<Rightarrow> Some (s\<lparr>sh_pending_t1 := Some (atp_timestamp pkt), sh_pending_t2 := Some t2\<rparr>)
                | DelayResp_t \<Rightarrow> Some (slave_measure e s (atp_timestamp pkt))
                | _ \<Rightarrow> Some s)
      else case ptp_message_decode data of
             Inl _ \<Rightarrow> Some s
           | Inr msg \<Rightarrow>
               (case pm_body msg of
                  Sync origin_timestamp \<Rightarrow>
                    (if sh_sync_count s = - 1 then None
                     else Some (s\<lparr>sh_sync_count := sh_sync_count s + 1, sh_pending_t1 := Some origin_timestamp,
                                  sh_pending_t2 := Some t2\<rparr>))
                | FollowUp precise \<Rightarrow> Some (s\<lparr>sh_pending_t1 := Some precise\<rparr>)
                | DelayResp t4 _ \<Rightarrow> Some (slave_measure e s t4)
                | _ \<Rightarrow> Some s))"

definition slave_handle_general_packet :: "ptp_slave \<Rightarrow> bytes \<Rightarrow> ptp_slave" where
  "slave_handle_general_packet s data =
     (if hc_use_airplay_format (sh_config s) then s
      else case ptp_message_decode data of
        Inl _ \<Rightarrow> s
      | Inr msg \<Rightarrow>
          (case pm_body msg of
             FollowUp precise \<Rightarrow> s\<lparr>sh_pending_t1 := Some precise\<rparr>
           | DelayResp t4 _ \<Rightarrow> s\<lparr>sh_pending_delay_resp := Some t4\<rparr>
           | _ \<Rightarrow> s))"

definition slave_try_complete_timing :: "ptp_env \<Rightarrow> ptp_slave \<Rightarrow> ptp_slave" where
  "slave_try_complete_timing e s =
     (let s1 = s\<lparr>sh_pending_delay_resp := None\<rparr> in
      case sh_pending_delay_resp s of Some t4 \<Rightarrow> slave_measure e s1 t4 | None \<Rightarrow> s1)"

definition slave_send_delay_req :: "ptp_env \<Rightarrow> ptp_slave \<Rightarrow> ptp_slave ptp_step" where
  "slave_send_delay_req e s =
     (let t3 = ptp_ts_now (env_wall e 1);
          s1 = s\<lparr>sh_pending_t3 := Some t3, sh_delay_req_sent_at := Some (env_instant e 1)\<rparr>;
          m = ptp_delay_req (handler_port (sh_config s)) (sh_delay_req_sequence s) t3;
          data = (if hc_use_airplay_format (sh_config s)
            then airplay_timing_encode
              \<lparr>atp_message_type = DelayReq_t, atp_sequence_id = sh_delay_req_sequence s, atp_timestamp = t3,
               atp_clock_id = hc_clock_id (sh_config s)\<rparr>
            else ptp_message_encode (m\<lparr>pm_header := (pm_header m)\<lparr>ph_transport_specific := 1, ph_flags := 0x0408\<rparr>\<rparr>));
          targets = sh_master_addr s # (case sh_master_clock_port_addr s of Some a \<Rightarrow> [a] | None \<Rightarrow> [])
      in send_then e (map (dgram EventSocket data) targets) s1
           (s1\<lparr>sh_delay_req_sequence := sh_delay_req_sequence s + 1\<rparr>))"

definition slave_try_one_way_sync :: "ptp_env \<Rightarrow> ptp_slave \<Rightarrow> ptp_slave" where
  "slave_try_one_way_sync e s =
     (case (sh_pending_t1 s, sh_pending_t2 s) of
        (Some t1, Some t2) \<Rightarrow>
          s\<lparr>sh_clock := fst (ptp_clock_process_timing (env_drift e) (env_instant e 2) (sh_clock s) t1 t2 t2 t1)\<rparr>
      | _ \<Rightarrow> s)"

text \<open>The check of the pending request on a timer tick: after two seconds it is given up.\<close>

definition slave_check_timeout :: "ptp_env \<Rightarrow> ptp_slave \<Rightarrow> ptp_slave option" where
  "slave_check_timeout e s =
     (case (sh_pending_t3 s, sh_delay_req_sent_at s) of
        (Some _, Some sent_at) \<Rightarrow>
          (if env_instant e 0 - sent_at > 2000000000
           then if sh_delay_req_no_resp_count s = - 1 then None
                else Some (s\<lparr>sh_delay_req_no_resp_count := sh_delay_req_no_resp_count s + 1, sh_pending_t3 := None,
                             sh_delay_req_sent_at := None\<rparr>)
           else Some s)
      | _ \<Rightarrow> Some s)"

definition slave_one_way_due :: "ptp_slave \<Rightarrow> bool" where
  "slave_one_way_due s \<longleftrightarrow> sh_sync_count s > 0 \<and> sh_sync_count s mod 8 = 0 \<and> sh_delay_req_no_resp_count s \<ge> 3"

datatype slave_event =
    SE_Event bytes
  | SE_General bytes
  | SE_ReceiveError
  | SE_DelayReqTick
  | SE_Shutdown bool

fun slave_step :: "ptp_env \<Rightarrow> ptp_slave \<Rightarrow> slave_event \<Rightarrow> ptp_slave ptp_step" where
  "slave_step e s (SE_Event data) =
     Option.bind (slave_handle_event_packet e s (take (hc_recv_buf_size (sh_config s)) data)) quiet"
| "slave_step e s (SE_General data) =
     quiet (if sh_general_socket s
            then slave_try_complete_timing e (slave_handle_general_packet s (take (hc_recv_buf_size (sh_config s)) data))
            else s)"
| "slave_step e s SE_ReceiveError = Some (s, [], Failed)"
| "slave_step e s SE_DelayReqTick =
     Option.bind (slave_check_timeout e s) (\<lambda>s1.
       Option.bind (if sh_pending_t1 s1 \<noteq> None \<and> sh_pending_t3 s1 = None then slave_send_delay_req e s1 else quiet s1)
         (\<lambda>(s2, sent, status).
           Some (if status = Running \<and> slave_one_way_due s2 then slave_try_one_way_sync e s2 else s2, sent, status)))"
| "slave_step e s (SE_Shutdown flag) = Some (s, [], if flag then Stopped else Running)"

section \<open>The master handler\<close>

record ptp_master =
  mh_general_socket :: bool
  mh_clock :: ptp_clock
  mh_config :: ptp_handler_config
  mh_sync_sequence :: u16
  mh_known_slaves :: "socket_addr list"
  mh_known_general_slaves :: "socket_addr list"
  mh_pending_remote_t1 :: "ptp_timestamp option"
  mh_pending_remote_t2 :: "ptp_timestamp option"
  mh_pending_remote_t3 :: "ptp_timestamp option"
  mh_delay_req_sequence :: u16
  mh_announce_sequence :: u16

definition ptp_master_new :: "bool \<Rightarrow> ptp_clock \<Rightarrow> ptp_handler_config \<Rightarrow> ptp_master" where
  "ptp_master_new general_socket clock config =
     \<lparr>mh_general_socket = general_socket, mh_clock = clock, mh_config = config, mh_sync_sequence = 0,
      mh_known_slaves = [], mh_known_general_slaves = [], mh_pending_remote_t1 = None, mh_pending_remote_t2 = None,
      mh_pending_remote_t3 = None, mh_delay_req_sequence = 0, mh_announce_sequence = 0\<rparr>"

definition master_add_slave :: "ptp_master \<Rightarrow> socket_addr \<Rightarrow> ptp_master" where
  "master_add_slave m addr =
     (if addr \<in> set (mh_known_slaves m) then m else m\<lparr>mh_known_slaves := mh_known_slaves m @ [addr]\<rparr>)"

definition master_add_general_slave :: "ptp_master \<Rightarrow> socket_addr \<Rightarrow> ptp_master" where
  "master_add_general_slave m addr =
     (if addr \<in> set (mh_known_general_slaves m) then m
      else m\<lparr>mh_known_general_slaves := mh_known_general_slaves m @ [addr]\<rparr>)"

definition master_send_announce :: "ptp_env \<Rightarrow> ptp_master \<Rightarrow> ptp_master ptp_step" where
  "master_send_announce e m =
     (let encoded = ptp_message_encode (ptp_announce (env_wall e 0) (handler_port (mh_config m)) (mh_announce_sequence m)
            (hc_clock_id (mh_config m)) 128 128)
      in send_then e (if mh_general_socket m then map (dgram GeneralSocket encoded) (mh_known_general_slaves m) else [])
           m (m\<lparr>mh_announce_sequence := mh_announce_sequence m + 1\<rparr>))"

definition master_send_sync :: "ptp_env \<Rightarrow> ptp_master \<Rightarrow> ptp_master ptp_step" where
  "master_send_sync e m =
     (let t1 = ptp_ts_now (env_wall e 0);
          source = handler_port (mh_config m);
          per_slave = (\<lambda>i slave_addr.
            if hc_use_airplay_format (mh_config m)
            then [dgram EventSocket (airplay_timing_encode
                    \<lparr>atp_message_type = Sync_t, atp_sequence_id = mh_sync_sequence m, atp_timestamp = t1,
                     atp_clock_id = hc_clock_id (mh_config m)\<rparr>) slave_addr]
            else let s = ptp_sync source (mh_sync_sequence m) t1;
                     sync_msg = s\<lparr>pm_header := (pm_header s)\<lparr>ph_flags := 0x0200\<rparr>\<rparr>;
                     follow_up = ptp_message_encode
                       (ptp_follow_up source (mh_sync_sequence m) (ptp_ts_now (env_wall e (Suc i))))
                 in dgram EventSocket (ptp_message_encode sync_msg) slave_addr
                    # (if mh_general_socket m
                       then map (dgram GeneralSocket follow_up) (mh_known_general_slaves m)
                            @ (if mh_known_general_slaves m = [] then [dgram GeneralSocket follow_up slave_addr] else [])
                       else [dgram EventSocket follow_up slave_addr]))
      in send_then e (concat (map (\<lambda>(i, a). per_slave i a) (enumerate 0 (mh_known_slaves m)))) m
           (m\<lparr>mh_sync_sequence := mh_sync_sequence m + 1\<rparr>))"

definition master_send_delay_req_to_remote :: "ptp_env \<Rightarrow> ptp_master \<Rightarrow> ptp_master ptp_step" where
  "master_send_delay_req_to_remote e m =
     (case mh_known_slaves m of
        [] \<Rightarrow> quiet m
      | slave_addr # _ \<Rightarrow>
          (let t3 = ptp_ts_now (env_wall e 0);
               req = ptp_delay_req (handler_port (mh_config m)) (mh_delay_req_sequence m) t3
           in send_then e [dgram EventSocket (ptp_message_encode req) slave_addr] m
                (m\<lparr>mh_pending_remote_t3 := Some t3, mh_delay_req_sequence := mh_delay_req_sequence m + 1\<rparr>)))"

definition master_airplay_delay_req :: "ptp_env \<Rightarrow> ptp_master \<Rightarrow> airplay_timing_packet \<Rightarrow> socket_addr \<Rightarrow> ptp_master ptp_step" where
  "master_airplay_delay_req e m req src =
     (let m1 = master_add_slave m src in
      send_then e [dgram EventSocket (airplay_timing_encode
        \<lparr>atp_message_type = DelayResp_t, atp_sequence_id = atp_sequence_id req,
         atp_timestamp = ptp_ts_now (env_wall e 1), atp_clock_id = hc_clock_id (mh_config m)\<rparr>) src] m1 m1)"

definition master_ieee_delay_req :: "ptp_env \<Rightarrow> ptp_master \<Rightarrow> ptp_message \<Rightarrow> socket_addr \<Rightarrow> ptp_master ptp_step" where
  "master_ieee_delay_req e m msg src =
     (let general_addr = socket_new (socket_ip src) PTP_GENERAL_PORT;
          m1 = master_add_general_slave (master_add_slave m src) general_addr;
          resp = ptp_message_encode (ptp_delay_resp (handler_port (mh_config m)) (ph_sequence_id (pm_header msg))
            (ptp_ts_now (env_wall e 1)) (ph_source_port_identity (pm_header msg)))
      in send_then e [if mh_general_socket m then dgram GeneralSocket resp general_addr else dgram EventSocket resp src] m1 m1)"

definition master_handle_event_message :: "ptp_env \<Rightarrow> ptp_master \<Rightarrow> bytes \<Rightarrow> socket_addr \<Rightarrow> ptp_master ptp_step" where
  "master_handle_event_message e m data src =
     (if hc_use_airplay_format (mh_config m)
      then case airplay_timing_decode data of
             Inl _ \<Rightarrow> quiet m
           | Inr req \<Rightarrow> if atp_message_type req = DelayReq_t then master_airplay_delay_req e m req src else quiet m
      else case ptp_message_decode data of
             Inl _ \<Rightarrow> quiet m
           | Inr msg \<Rightarrow>
               (case pm_body msg of
                  Sync origin_timestamp \<Rightarrow>
                    (let two_step = ph_flags (pm_header msg) AND 0x0200 \<noteq> 0;
                         m1 = m\<lparr>mh_pending_remote_t2 := Some (ptp_ts_now (env_wall e 0))\<rparr>
                     in quiet (if two_step then m1 else m1\<lparr>mh_pending_remote_t1 := Some origin_timestamp\<rparr>))
                | DelayReq _ \<Rightarrow> master_ieee_delay_req e m msg src
                | _ \<Rightarrow> quiet m))"

text \<open>The three times are taken by a Delay_Resp, also when one of them is missing.\<close>

definition master_handle_general_message :: "ptp_env \<Rightarrow> ptp_master \<Rightarrow> bytes \<Rightarrow> ptp_master" where
  "master_handle_general_message e m data =
     (case ptp_message_decode data of
        Inl _ \<Rightarrow> m
      | Inr msg \<Rightarrow>
          (case pm_body msg of
             FollowUp precise \<Rightarrow> m\<lparr>mh_pending_remote_t1 := Some precise\<rparr>
           | DelayResp t4 _ \<Rightarrow>
               (let m1 = m\<lparr>mh_pending_remote_t1 := None, mh_pending_remote_t2 := None, mh_pending_remote_t3 := None\<rparr> in
                case (mh_pending_remote_t1 m, mh_pending_remote_t2 m, mh_pending_remote_t3 m) of
                  (Some t1, Some t2, Some t3) \<Rightarrow>
                    m1\<lparr>mh_clock := fst (ptp_clock_process_timing (env_drift e) (env_instant e 1) (mh_clock m) t1 t2 t3 t4)\<rparr>
                | _ \<Rightarrow> m1)
           | _ \<Rightarrow> m))"

datatype master_event =
    ME_Start
  | ME_Event bytes socket_addr
  | ME_General bytes
  | ME_ReceiveError
  | ME_SyncTick
  | ME_AnnounceTick
  | ME_DelayReqTick
  | ME_Shutdown bool

text \<open>\<open>ME_Start\<close> is the Announce before the loop.\<close>

fun master_step :: "ptp_env \<Rightarrow> ptp_master \<Rightarrow> master_event \<Rightarrow> ptp_master ptp_step" where
  "master_step e m ME_Start = master_send_announce e m"
| "master_step e m (ME_Event data src) = master_handle_event_message e m (take (hc_recv_buf_size (mh_config m)) data) src"
| "master_step e m (ME_General data) =
     quiet (if mh_general_socket m then master_handle_general_message e m (take (hc_recv_buf_size (mh_config m)) data) else m)"
| "master_step e m ME_ReceiveError = Some (m, [], Failed)"
| "master_step e m ME_SyncTick = (if mh_known_slaves m = [] then quiet m else master_send_sync e m)"
| "master_step e m ME_AnnounceTick = master_send_announce e m"
| "master_step e m ME_DelayReqTick =
     (if mh_known_slaves m \<noteq> [] \<and> \<not> hc_use_airplay_format (mh_config m) then master_send_delay_req_to_remote e m else quiet m)"
| "master_step e m (ME_Shutdown flag) = Some (m, [], if flag then Stopped else Running)"

definition create_shared_clock :: "nat \<Rightarrow> u64 \<Rightarrow> ptp_role \<Rightarrow> ptp_clock" where
  "create_shared_clock instant_now clock_id role = ptp_clock_new instant_now clock_id role"

section \<open>Comparison with the PTP node\<close>

text \<open>The master handler that a node in the role of master corresponds to.\<close>

definition master_of :: "ptp_node \<Rightarrow> ptp_master" where
  "master_of n =
     \<lparr>mh_general_socket = pn_general_socket n, mh_clock = pn_clock n,
      mh_config = \<lparr>hc_clock_id = cfg_clock_id (pn_config n), hc_role = Master, hc_recv_buf_size = cfg_recv_buf_size (pn_config n),
        hc_use_airplay_format = cfg_use_airplay_format (pn_config n)\<rparr>,
      mh_sync_sequence = pn_sync_sequence n, mh_known_slaves = pn_known_slaves n,
      mh_known_general_slaves = pn_known_general_slaves n, mh_pending_remote_t1 = None, mh_pending_remote_t2 = None,
      mh_pending_remote_t3 = None, mh_delay_req_sequence = pn_delay_req_sequence n, mh_announce_sequence = pn_announce_sequence n\<rparr>"

definition as_master :: "ptp_node ptp_step \<Rightarrow> ptp_master ptp_step" where
  "as_master = map_option (\<lambda>(n, sent, status). (master_of n, sent, status))"

lemma as_master_send: "as_master (send_then e ds n n') = send_then e ds (master_of n) (master_of n')"
  by (simp add: as_master_def send_then_def split: prod.split)

lemma as_master_quiet: "as_master (quiet n) = quiet (master_of n)"
  by (simp add: as_master_def quiet_def)

lemma handler_port_master_of: "handler_port (mh_config (master_of n)) = own_port n"
  by (simp add: handler_port_def master_of_def own_port_def)

lemma master_of_simps [simp]:
  "mh_general_socket (master_of n) = pn_general_socket n" "mh_known_slaves (master_of n) = pn_known_slaves n"
  "mh_known_general_slaves (master_of n) = pn_known_general_slaves n" "mh_sync_sequence (master_of n) = pn_sync_sequence n"
  "mh_announce_sequence (master_of n) = pn_announce_sequence n"
  "hc_use_airplay_format (mh_config (master_of n)) = cfg_use_airplay_format (pn_config n)"
  "hc_clock_id (mh_config (master_of n)) = cfg_clock_id (pn_config n)"
  "master_of (n\<lparr>pn_sync_sequence := k\<rparr>) = (master_of n)\<lparr>mh_sync_sequence := k\<rparr>"
  "master_of (n\<lparr>pn_announce_sequence := k\<rparr>) = (master_of n)\<lparr>mh_announce_sequence := k\<rparr>"
  by (simp_all add: master_of_def)

lemma per_slave_sends:
  "(if g then if l = [] then [dgram GeneralSocket f a] else map (dgram GeneralSocket f) l else x) =
   (if g then map (dgram GeneralSocket f) l @ (if l = [] then [dgram GeneralSocket f a] else []) else x)"
  by simp

lemma as_master_announce:
  assumes "pn_remote_master n = None"
  shows "as_master (node_step e n NE_AnnounceTick) = as_master (node_send_announce e 0 n)"
  using assms by (simp add: as_master_def node_send_announce_def send_then_def check_announce_timeout_def Let_def
      split: prod.split)

lemma one_way_exchange:
  "ptp_clock_process_timing f now c t1 t2 t2 t1 = (ptp_clock_process_one_way f now c t1 t2, True)"
proof -
  have "(x + x) sdiv 2 = x" for x :: int using sdiv_2_bounds [of "x + x"] by simp
  moreover have "ptp_diff_nanos t t = 0" for t by (simp add: ptp_diff_nanos_def)
  ultimately show ?thesis
    by (simp add: ptp_clock_process_timing_def ptp_clock_process_one_way_def timing_measurement_calculate_def)
qed

section \<open>Properties\<close>

text \<open>
  The PTP node in the role of master implements the master handler: on a sync tick and, with
  the default priorities, on an announce tick it sends the same datagrams in the same order,
  fails in the same cases, and the states still correspond; a one-way measurement of the slave
  handler, which repeats the two times as an exchange, is the one of the clock.
\<close>

theorem ptp_node_refines_master:
  assumes "pn_role n = Role_Master" and "pn_remote_master n = None"
    and "cfg_priority1 (pn_config n) = 128" and "cfg_priority2 (pn_config n) = 128"
  shows "as_master (node_step e n NE_SyncTick) = master_step e (master_of n) ME_SyncTick
    \<and> as_master (node_step e n NE_AnnounceTick) = master_step e (master_of n) ME_AnnounceTick
    \<and> ptp_clock_process_timing f now c t1 t2 t2 t1 = (ptp_clock_process_one_way f now c t1 t2, True)"
proof (intro conjI)
  have "as_master (node_send_sync e n) = master_send_sync e (master_of n)"
    unfolding node_send_sync_def master_send_sync_def Let_def as_master_send handler_port_master_of
    by (simp only: master_of_simps per_slave_sends)
  then show "as_master (node_step e n NE_SyncTick) = master_step e (master_of n) ME_SyncTick"
    using assms(1) by (simp add: as_master_quiet)
  show "as_master (node_step e n NE_AnnounceTick) = master_step e (master_of n) ME_AnnounceTick"
    unfolding as_master_announce [OF assms(2)] master_step.simps node_send_announce_def master_send_announce_def Let_def
      as_master_send handler_port_master_of using assms(3,4) by simp
  show "ptp_clock_process_timing f now c t1 t2 t2 t1 = (ptp_clock_process_one_way f now c t1 t2, True)"
    by (rule one_way_exchange)
qed

theorem ptp_node_refines_master_witness:
  "as_master (node_step (demo_env 7) (demo_node 9 128) NE_SyncTick) = master_step (demo_env 7) (master_of (demo_node 9 128)) ME_SyncTick
   \<and> as_master (node_step (demo_env 7) (demo_node 9 128) NE_AnnounceTick) =
       master_step (demo_env 7) (master_of (demo_node 9 128)) ME_AnnounceTick
   \<and> ptp_clock_process_timing (\<lambda>_ _. 0) 0 (ptp_clock_new 0 1 Slave) ptp_ts_zero ptp_ts_zero ptp_ts_zero ptp_ts_zero =
       (ptp_clock_process_one_way (\<lambda>_ _. 0) 0 (ptp_clock_new 0 1 Slave) ptp_ts_zero ptp_ts_zero, True)"
  by (rule ptp_node_refines_master) (simp_all add: node_demo_defs)

end
