(* ===== verification/Rtp_Codec.thy ===== *)
theory Rtp_Codec
  imports Rtp_Packet Aes_Ctr
begin

text \<open>
  The RTP codec of the sender, \<open>src/protocol/rtp/codec.rs\<close>: numbering, the three encryption
  modes, cutting PCM audio into packets, and decoding. The block cipher and the AEAD are
  arguments, as in \<open>Aes_Ctr\<close> and \<open>Secure_Channel\<close>. A panic is \<open>None\<close>.
\<close>

section \<open>The codec\<close>

datatype rtp_codec_error =
    CodecDecode rtp_decode_error
  | EncryptionNotInitialized
  | InvalidAudioSize nat
  | CodecEncryptionFailed crypto_error
  | CodecDecryptionFailed "crypto_error option"

datatype rtp_encryption_mode = Mode_None | Mode_Aes128Ctr | Mode_ChaCha20Poly1305

record rtp_codec =
  rc_ssrc :: u32
  rc_sequence :: u16
  rc_timestamp :: u32
  rc_aes_key :: "bytes option"
  rc_aes_iv :: "bytes option"
  rc_chacha_key :: "bytes option"
  rc_encryption_mode :: rtp_encryption_mode
  rc_buffered_mode :: bool
  rc_nonce_counter :: u64
  rc_frames_per_packet :: u32

definition FRAMES_PER_PACKET :: u32 where "FRAMES_PER_PACKET = 352"
definition RTP_TAG_SIZE :: nat where "RTP_TAG_SIZE = 16"
definition RTP_NONCE_SIZE :: nat where "RTP_NONCE_SIZE = 8"

definition rtp_codec_new :: "u32 \<Rightarrow> rtp_codec" where
  "rtp_codec_new ssrc =
     \<lparr>rc_ssrc = ssrc, rc_sequence = 0, rc_timestamp = 0, rc_aes_key = None, rc_aes_iv = None, rc_chacha_key = None,
      rc_encryption_mode = Mode_None, rc_buffered_mode = False, rc_nonce_counter = 0,
      rc_frames_per_packet = FRAMES_PER_PACKET\<rparr>"

definition codec_set_frames_per_packet :: "rtp_codec \<Rightarrow> u32 \<Rightarrow> rtp_codec" where
  "codec_set_frames_per_packet c frames = c\<lparr>rc_frames_per_packet := frames\<rparr>"

definition codec_set_encryption :: "rtp_codec \<Rightarrow> bytes \<Rightarrow> bytes \<Rightarrow> rtp_codec" where
  "codec_set_encryption c key iv =
     c\<lparr>rc_aes_key := Some key, rc_aes_iv := Some iv, rc_encryption_mode := Mode_Aes128Ctr\<rparr>"

definition codec_set_chacha_encryption :: "rtp_codec \<Rightarrow> bytes \<Rightarrow> rtp_codec" where
  "codec_set_chacha_encryption c key = c\<lparr>rc_chacha_key := Some key, rc_encryption_mode := Mode_ChaCha20Poly1305\<rparr>"

definition codec_set_buffered_mode :: "rtp_codec \<Rightarrow> bool \<Rightarrow> rtp_codec" where
  "codec_set_buffered_mode c enabled = c\<lparr>rc_buffered_mode := enabled\<rparr>"

definition rtp_codec_reset :: "rtp_codec \<Rightarrow> rtp_codec" where
  "rtp_codec_reset c = c\<lparr>rc_sequence := 0, rc_timestamp := 0, rc_nonce_counter := 0\<rparr>"

text \<open>The size of a packet of stereo 16-bit audio.\<close>

definition codec_frame_size :: "rtp_codec \<Rightarrow> nat" where
  "codec_frame_size c = unat (rc_frames_per_packet c) * 4"

text \<open>The payload in AES mode, for a packet with the given sequence number; without keys it is left as it is.\<close>

definition codec_aes_payload ::
    "(bytes \<Rightarrow> bytes \<Rightarrow> bytes) \<Rightarrow> rtp_codec \<Rightarrow> u16 \<Rightarrow> bytes \<Rightarrow> (rtp_codec_error, bytes) result" where
  "codec_aes_payload aes c sequence data =
     (case (rc_aes_key c, rc_aes_iv c) of
        (Some key, Some iv) \<Rightarrow>
          result_bind (map_err (\<lambda>_. EncryptionNotInitialized) (aes_ctr_new key iv)) (\<lambda>cipher.
            Inr (snd (apply_keystream aes
              (aes_ctr_seek aes cipher (of_nat (unat sequence * codec_frame_size c))) data)))
      | _ \<Rightarrow> Inr data)"

definition codec_chacha_packet :: "aead \<Rightarrow> bytes \<Rightarrow> u64 \<Rightarrow> bytes \<Rightarrow> bytes \<Rightarrow> (rtp_codec_error, bytes) result" where
  "codec_chacha_packet aead_enc cipher nonce_counter header_bytes data =
     (let nonce_bytes = le_bytes 8 nonce_counter in
     result_bind (map_err CodecEncryptionFailed (nonce_from_bytes (replicate 4 0 @ nonce_bytes))) (\<lambda>nonce.
     let aad = take 8 (drop 4 header_bytes) in
     result_bind (map_err CodecEncryptionFailed (cipher_encrypt_with_aad aead_enc cipher nonce aad data)) (\<lambda>encrypted.
     let n = length encrypted - RTP_TAG_SIZE
     in Inr (header_bytes @ take n encrypted @ drop n encrypted @ nonce_bytes))))"

definition codec_next :: "rtp_codec \<Rightarrow> rtp_codec" where
  "codec_next c = c\<lparr>rc_sequence := rc_sequence c + 1, rc_timestamp := rc_timestamp c + rc_frames_per_packet c\<rparr>"

text \<open>What is appended to the output; a failed ChaCha encryption has used up its nonce.\<close>

definition encode_arbitrary_payload ::
    "(bytes \<Rightarrow> bytes \<Rightarrow> bytes) \<Rightarrow> aead \<Rightarrow> rtp_codec \<Rightarrow> bytes \<Rightarrow> rtp_codec \<times> (rtp_codec_error, bytes) result" where
  "encode_arbitrary_payload aes aead_enc c data =
     (let header = rtp_header_new_audio (rc_sequence c) (rc_timestamp c) (rc_ssrc c) (rc_buffered_mode c);
          packet = (\<lambda>payload. rtp_packet_encode \<lparr>rp_header = header, rp_payload = payload\<rparr>)
      in case rc_encryption_mode c of
           Mode_None \<Rightarrow> (codec_next c, Inr (packet data))
         | Mode_Aes128Ctr \<Rightarrow>
             attempt c (codec_aes_payload aes c (rc_sequence c) data) (\<lambda>payload. (codec_next c, Inr (packet payload)))
         | Mode_ChaCha20Poly1305 \<Rightarrow>
             attempt c (ok_or (rc_chacha_key c) EncryptionNotInitialized) (\<lambda>key.
             attempt c (map_err CodecEncryptionFailed (cipher_new key)) (\<lambda>cipher.
             let c1 = c\<lparr>rc_nonce_counter := rc_nonce_counter c + 1\<rparr> in
             attempt c1 (codec_chacha_packet aead_enc cipher (rc_nonce_counter c) (rtp_header_encode header) data) (\<lambda>out.
               (codec_next c1, Inr out)))))"

definition codec_encode_audio ::
    "(bytes \<Rightarrow> bytes \<Rightarrow> bytes) \<Rightarrow> aead \<Rightarrow> rtp_codec \<Rightarrow> bytes \<Rightarrow> rtp_codec \<times> (rtp_codec_error, bytes) result" where
  "codec_encode_audio aes aead_enc c pcm_data =
     (if length pcm_data \<noteq> codec_frame_size c then (c, Inl (InvalidAudioSize (length pcm_data)))
      else encode_arbitrary_payload aes aead_enc c pcm_data)"

text \<open>The loop over \<open>chunks(frame_size)\<close>, the last one filled up with silence.\<close>

function encode_pieces ::
    "(bytes \<Rightarrow> bytes \<Rightarrow> bytes) \<Rightarrow> aead \<Rightarrow> nat \<Rightarrow> rtp_codec \<Rightarrow> bytes \<Rightarrow> rtp_codec \<times> (rtp_codec_error, bytes list) result" where
  "encode_pieces aes aead_enc frame_size c data =
     (if data = [] \<or> frame_size = 0 then (c, Inr [])
      else let piece = take frame_size data;
               padded = piece @ replicate (frame_size - length piece) 0
           in case codec_encode_audio aes aead_enc c padded of
                (c1, Inl err) \<Rightarrow> (c1, Inl err)
              | (c1, Inr packet) \<Rightarrow>
                  (case encode_pieces aes aead_enc frame_size c1 (drop frame_size data) of
                     (c2, r) \<Rightarrow> (c2, result_bind r (\<lambda>packets. Inr (packet # packets)))))"
  by pat_completeness auto

termination
  by (relation "measure (\<lambda>(_, _, _, _, data). length data)") auto

declare encode_pieces.simps [simp del]

definition encode_audio_frames ::
    "(bytes \<Rightarrow> bytes \<Rightarrow> bytes) \<Rightarrow> aead \<Rightarrow> rtp_codec \<Rightarrow> bytes \<Rightarrow> (rtp_codec \<times> (rtp_codec_error, bytes list) result) option" where
  "encode_audio_frames aes aead_enc c pcm_data =
     (if codec_frame_size c = 0 then None else Some (encode_pieces aes aead_enc (codec_frame_size c) c pcm_data))"

definition codec_decode_audio ::
    "(bytes \<Rightarrow> bytes \<Rightarrow> bytes) \<Rightarrow> aead \<Rightarrow> rtp_codec \<Rightarrow> bytes \<Rightarrow> (rtp_codec_error, rtp_packet) result" where
  "codec_decode_audio aes aead_dec c data =
     (case rc_encryption_mode c of
        Mode_None \<Rightarrow> map_err CodecDecode (rtp_packet_decode data)
      | Mode_Aes128Ctr \<Rightarrow>
          result_bind (map_err CodecDecode (rtp_packet_decode data)) (\<lambda>packet.
          result_bind (codec_aes_payload aes c (rh_sequence (rp_header packet)) (rp_payload packet)) (\<lambda>payload.
            Inr (packet\<lparr>rp_payload := payload\<rparr>)))
      | Mode_ChaCha20Poly1305 \<Rightarrow>
          (if length data < RTP_HEADER_SIZE + RTP_TAG_SIZE + RTP_NONCE_SIZE then Inl (CodecDecryptionFailed None)
           else result_bind (map_err CodecDecode (rtp_header_decode data)) (\<lambda>header.
             let nonce_bytes = drop (length data - RTP_NONCE_SIZE) data in
             result_bind (map_err (CodecDecryptionFailed \<circ> Some) (nonce_from_bytes (replicate 4 0 @ nonce_bytes))) (\<lambda>nonce.
             let encrypted = drop RTP_HEADER_SIZE (take (length data - RTP_NONCE_SIZE) data);
                 aad = take 8 (drop 4 data) in
             result_bind (ok_or (rc_chacha_key c) EncryptionNotInitialized) (\<lambda>key.
             result_bind (map_err (CodecDecryptionFailed \<circ> Some) (cipher_new key)) (\<lambda>cipher.
             result_bind (map_err (CodecDecryptionFailed \<circ> Some) (cipher_decrypt_with_aad aead_dec cipher nonce aad encrypted))
               (\<lambda>payload. Inr \<lparr>rp_header = header, rp_payload = payload\<rparr>)))))))"

section \<open>Packet batches\<close>

record audio_packet_builder =
  apb_codec :: rtp_codec
  apb_packets :: "bytes list"

definition packet_builder_new :: "u32 \<Rightarrow> audio_packet_builder" where
  "packet_builder_new ssrc = \<lparr>apb_codec = rtp_codec_new ssrc, apb_packets = []\<rparr>"

definition with_encryption :: "audio_packet_builder \<Rightarrow> bytes \<Rightarrow> bytes \<Rightarrow> audio_packet_builder" where
  "with_encryption b key iv = b\<lparr>apb_codec := codec_set_encryption (apb_codec b) key iv\<rparr>"

definition with_chacha_encryption :: "audio_packet_builder \<Rightarrow> bytes \<Rightarrow> audio_packet_builder" where
  "with_chacha_encryption b key = b\<lparr>apb_codec := codec_set_chacha_encryption (apb_codec b) key\<rparr>"

text \<open>The builder is consumed: on an error it is gone.\<close>

definition add_audio ::
    "(bytes \<Rightarrow> bytes \<Rightarrow> bytes) \<Rightarrow> aead \<Rightarrow> audio_packet_builder \<Rightarrow> bytes \<Rightarrow> (rtp_codec_error, audio_packet_builder) result option" where
  "add_audio aes aead_enc b pcm_data =
     map_option (\<lambda>(c, r). result_bind r (\<lambda>packets. Inr (b\<lparr>apb_codec := c, apb_packets := apb_packets b @ packets\<rparr>)))
       (encode_audio_frames aes aead_enc (apb_codec b) pcm_data)"

definition builder_build :: "audio_packet_builder \<Rightarrow> bytes list" where
  "builder_build b = apb_packets b"

section \<open>One packet\<close>

text \<open>Keys of the right size for the mode.\<close>

definition codec_ready :: "rtp_codec \<Rightarrow> bool" where
  "codec_ready c \<longleftrightarrow>
     (case rc_encryption_mode c of
        Mode_None \<Rightarrow> True
      | Mode_Aes128Ctr \<Rightarrow> (\<exists>key iv. rc_aes_key c = Some key \<and> rc_aes_iv c = Some iv \<and> length key = 16 \<and> length iv = 16)
      | Mode_ChaCha20Poly1305 \<Rightarrow> (\<exists>key. rc_chacha_key c = Some key \<and> length key = 32))"

text \<open>A receiver that shares the keys of the sender; numbering and mode flags do not matter.\<close>

definition codec_peer :: "rtp_codec \<Rightarrow> rtp_codec \<Rightarrow> bool" where
  "codec_peer c d \<longleftrightarrow> rc_encryption_mode d = rc_encryption_mode c \<and> rc_aes_key d = rc_aes_key c \<and> rc_aes_iv d = rc_aes_iv c
     \<and> rc_chacha_key d = rc_chacha_key c \<and> rc_frames_per_packet d = rc_frames_per_packet c"

definition codec_header :: "rtp_codec \<Rightarrow> rtp_header" where
  "codec_header c = rtp_header_new_audio (rc_sequence c) (rc_timestamp c) (rc_ssrc c) (rc_buffered_mode c)"

lemma codec_header_valid: "rtp_header_valid (codec_header c)"
  by (simp add: codec_header_def rtp_header_new_audio_def rtp_header_valid_def)

lemma packet_roundtrip: "rtp_packet_decode (rtp_packet_encode \<lparr>rp_header = codec_header c, rp_payload = p\<rparr>) =
    Inr \<lparr>rp_header = codec_header c, rp_payload = p\<rparr>"
  using rtp_hdr.dec_enc [of "codec_header c" p] codec_header_valid [of c]
  by (simp add: rtp_packet_decode_def rtp_packet_encode_def)

lemma new_cipher_at:
  assumes "length iv = 16"
  shows "ctr_at aes key iv 0 (aes_ctr_new_internal key iv)"
proof -
  have "take 8 iv @ be_bytes 8 (from_be (drop 8 iv) :: u64) = iv"
    using assms be_bytes_from_be [of "drop 8 iv", where 'a = 64] by simp
  then show ?thesis by (auto simp: ctr_at_def aes_ctr_new_internal_def counter_at_def intro!: exI [of _ 0])
qed

lemma ctr_reference_involutive: "ctr_reference enc iv p (ctr_reference enc iv p data) = data"
  by (rule nth_equalityI) (simp_all add: ctr_reference_def xor.assoc)

lemma codec_aes_reference:
  assumes "\<And>k b. length (aes k b) = 16" and "rc_aes_key c = Some key" "rc_aes_iv c = Some iv" "length key = 16" "length iv = 16"
  shows "codec_aes_payload aes c sq data =
    Inr (ctr_reference (aes key) iv (unat (of_nat (unat sq * codec_frame_size c) :: u64)) data)"
proof -
  let ?pos = "of_nat (unat sq * codec_frame_size c) :: u64"
  have at: "ctr_at aes key iv (unat ?pos) (aes_ctr_seek aes (aes_ctr_new_internal key iv) ?pos)"
    using aes_ctr_seek_at [OF assms(5) new_cipher_at [OF assms(5)]] .
  obtain c' out where k: "apply_keystream aes (aes_ctr_seek aes (aes_ctr_new_internal key iv) ?pos) data = (c', out)" by force
  have "out = ctr_reference (aes key) iv (unat ?pos) data"
    using apply_keystream_at [OF _ assms(5) at k] assms(1) by blast
  with k show ?thesis using assms by (simp add: codec_aes_payload_def aes_ctr_new_def del: of_nat_mult)
qed

lemma aes_roundtrip:
  assumes "\<And>k b. length (aes k b) = 16" and "codec_ready c" and "rc_encryption_mode c = Mode_Aes128Ctr" and "codec_peer c d"
    and "codec_aes_payload aes c sq data = Inr p"
  shows "codec_aes_payload aes d sq p = Inr data"
proof -
  obtain key iv where k: "rc_aes_key c = Some key" "rc_aes_iv c = Some iv" "length key = 16" "length iv = 16"
    using assms(2,3) by (auto simp: codec_ready_def)
  have d: "rc_aes_key d = Some key" "rc_aes_iv d = Some iv" "codec_frame_size d = codec_frame_size c"
    using assms(4) k by (simp_all add: codec_peer_def codec_frame_size_def)
  show ?thesis
    using assms(5) unfolding codec_aes_reference [of aes, OF assms(1) k] codec_aes_reference [of aes, OF assms(1) d(1,2) k(3,4)] d(3)
    by (auto simp: ctr_reference_involutive)
qed

lemma header_aad: "take 8 (drop 4 (rtp_header_encode h @ rest)) = take 8 (drop 4 (rtp_header_encode h))"
  by (simp add: RTP_HEADER_SIZE_def)

lemma chacha_roundtrip:
  assumes "aead_correct aead_enc aead_dec" and "length key = 32" and "length data \<le> 65535"
    and "rc_encryption_mode d = Mode_ChaCha20Poly1305" "rc_chacha_key d = Some key"
  obtains out where "codec_chacha_packet aead_enc key k (rtp_header_encode (codec_header c)) data = Inr out"
    and "codec_decode_audio aes aead_dec d out = Inr \<lparr>rp_header = codec_header c, rp_payload = data\<rparr>"
proof -
  let ?h = "rtp_header_encode (codec_header c)" and ?n = "le_bytes 8 k"
  let ?aad = "take 8 (drop 4 ?h)"
  have "length (replicate 4 0 @ ?n) = 12" by simp
  with assms(1,2,3) obtain e where e: "aead_enc key (replicate 4 0 @ ?n) ?aad data = Some e" "length e = length data + 16"
      "aead_dec key (replicate 4 0 @ ?n) ?aad e = Some data"
    unfolding aead_correct_def by blast
  let ?out = "?h @ e @ ?n"
  have out: "codec_chacha_packet aead_enc key k ?h data = Inr ?out"
    using e(1) by (simp add: codec_chacha_packet_def nonce_from_bytes_def cipher_encrypt_with_aad_def Let_def)
  have hdr: "rtp_header_decode ?out = Inr (codec_header c)"
    using rtp_hdr.dec_enc [of "codec_header c" "e @ ?n"] codec_header_valid [of c] by simp
  have parts: "drop (length ?out - 8) ?out = ?n" "drop 12 (take (length ?out - 8) ?out) = e"
    by (simp_all add: RTP_HEADER_SIZE_def)
  have "codec_decode_audio aes aead_dec d ?out = Inr \<lparr>rp_header = codec_header c, rp_payload = data\<rparr>"
    using assms(2,4,5) e(2,3) hdr header_aad [of "codec_header c" "e @ ?n"] parts
    by (simp add: codec_decode_audio_def nonce_from_bytes_def cipher_new_def cipher_decrypt_with_aad_def
        RTP_HEADER_SIZE_def RTP_TAG_SIZE_def RTP_NONCE_SIZE_def Let_def)
  with out show thesis by (rule that)
qed

text \<open>The state after a packet has the same keys.\<close>

definition codec_after :: "rtp_codec \<Rightarrow> rtp_codec \<Rightarrow> bool" where
  "codec_after c c' \<longleftrightarrow> codec_peer c c' \<and> rc_ssrc c' = rc_ssrc c \<and> rc_buffered_mode c' = rc_buffered_mode c
     \<and> rc_sequence c' = rc_sequence c + 1 \<and> rc_timestamp c' = rc_timestamp c + rc_frames_per_packet c
     \<and> (rc_encryption_mode c = Mode_ChaCha20Poly1305 \<longrightarrow> rc_nonce_counter c' = rc_nonce_counter c + 1)"

lemma payload_roundtrip:
  assumes "aead_correct aead_enc aead_dec" and "\<And>k b. length (aes k b) = 16" and "codec_ready c" and "codec_peer c d"
    and "length data \<le> 65535"
  obtains c' out where "encode_arbitrary_payload aes aead_enc c data = (c', Inr out)" and "codec_after c c'"
    and "codec_decode_audio aes aead_dec d out = Inr \<lparr>rp_header = codec_header c, rp_payload = data\<rparr>"
proof (cases "rc_encryption_mode c")
  case Mode_None
  then show thesis using that assms(4) packet_roundtrip [of c data]
    by (simp add: encode_arbitrary_payload_def codec_decode_audio_def codec_peer_def codec_after_def codec_next_def
        codec_header_def [symmetric] Let_def)
next
  case Mode_Aes128Ctr
  then obtain key iv where "rc_aes_key c = Some key" "rc_aes_iv c = Some iv" "length key = 16" "length iv = 16"
    using assms(3) by (auto simp: codec_ready_def)
  from codec_aes_reference [of aes, OF assms(2) this] obtain p where p: "codec_aes_payload aes c (rc_sequence c) data = Inr p" by blast
  have "codec_aes_payload aes d (rc_sequence c) p = Inr data" using aes_roundtrip [of aes, OF assms(2,3) Mode_Aes128Ctr assms(4) p] .
  moreover have "rh_sequence (codec_header c) = rc_sequence c" by (simp add: codec_header_def rtp_header_new_audio_def)
  ultimately show thesis using that p assms(4) Mode_Aes128Ctr packet_roundtrip [of c p]
    by (simp add: encode_arbitrary_payload_def codec_decode_audio_def codec_peer_def codec_after_def codec_next_def
        codec_header_def [symmetric] Let_def)
next
  case Mode_ChaCha20Poly1305
  then obtain key where k: "rc_chacha_key c = Some key" "length key = 32" using assms(3) by (auto simp: codec_ready_def)
  have d: "rc_encryption_mode d = Mode_ChaCha20Poly1305" "rc_chacha_key d = Some key"
    using assms(4) Mode_ChaCha20Poly1305 k by (simp_all add: codec_peer_def)
  obtain out where out: "codec_chacha_packet aead_enc key (rc_nonce_counter c) (rtp_header_encode (codec_header c)) data = Inr out"
    and dec: "codec_decode_audio aes aead_dec d out = Inr \<lparr>rp_header = codec_header c, rp_payload = data\<rparr>"
    by (rule chacha_roundtrip [OF assms(1) k(2) assms(5) d])
  let ?c' = "codec_next (c\<lparr>rc_nonce_counter := rc_nonce_counter c + 1\<rparr>)"
  have "encode_arbitrary_payload aes aead_enc c data = (?c', Inr out)"
    using out k Mode_ChaCha20Poly1305
    by (simp add: encode_arbitrary_payload_def cipher_new_def codec_header_def [symmetric] Let_def)
  moreover have "codec_after c ?c'" by (simp add: codec_after_def codec_peer_def codec_next_def)
  ultimately show thesis using dec by (rule that)
qed

section \<open>The stream\<close>

lemma codec_after_peer: "codec_after c c' \<Longrightarrow> codec_peer c d \<Longrightarrow> codec_peer c' d"
  and codec_after_ready: "codec_after c c' \<Longrightarrow> codec_ready c \<Longrightarrow> codec_ready c'"
  and codec_after_size: "codec_after c c' \<Longrightarrow> codec_frame_size c' = codec_frame_size c"
  by (auto simp: codec_after_def codec_peer_def codec_ready_def codec_frame_size_def split: rtp_encryption_mode.splits)

text \<open>The packets of a stream: consecutive numbers, timestamps one packet apart, and the audio in order.\<close>

definition stream_packets :: "rtp_codec \<Rightarrow> bytes list \<Rightarrow> rtp_packet list" where
  "stream_packets c ps =
     map (\<lambda>i. \<lparr>rp_header = rtp_header_new_audio (rc_sequence c + of_nat i) (rc_timestamp c + of_nat i * rc_frames_per_packet c)
                 (rc_ssrc c) (rc_buffered_mode c), rp_payload = ps ! i\<rparr>) [0..<length ps]"

lemma stream_packets_Cons:
  assumes "codec_after c c'"
  shows "stream_packets c (p # ps) = \<lparr>rp_header = codec_header c, rp_payload = p\<rparr> # stream_packets c' ps"
proof (rule nth_equalityI)
  fix i assume "i < length (stream_packets c (p # ps))"
  then show "stream_packets c (p # ps) ! i = (\<lparr>rp_header = codec_header c, rp_payload = p\<rparr> # stream_packets c' ps) ! i"
    using assms by (cases i)
      (simp_all add: stream_packets_def codec_header_def codec_after_def codec_peer_def algebra_simps del: upt_Suc)
qed (simp add: stream_packets_def)

lemma encode_pieces_decode:
  assumes "aead_correct aead_enc aead_dec" and "\<And>k b. length (aes k b) = 16" and "fs \<le> 65535" and "0 < fs"
    and "codec_ready c" and "codec_peer c d" and "codec_frame_size c = fs"
  shows "\<exists>c' packets ps. encode_pieces aes aead_enc fs c data = (c', Inr packets)
    \<and> map (codec_decode_audio aes aead_dec d) packets = map Inr (stream_packets c ps)
    \<and> (\<exists>pad<fs. concat ps = data @ replicate pad 0) \<and> (\<forall>p\<in>set ps. length p = fs)"
  using assms(5-7)
proof (induction "length data" arbitrary: data c rule: less_induct)
  case less
  show ?case
  proof (cases "data = []")
    case True
    then show ?thesis using assms(4)
      by (intro exI [of _ c] exI [of _ "[]"]) (simp add: encode_pieces.simps stream_packets_def)
  next
    case False
    let ?p = "take fs data @ replicate (fs - length (take fs data)) 0"
    have lp: "length ?p = fs" by simp
    then have "length ?p \<le> 65535" using assms(3) by simp
    with payload_roundtrip [of aead_enc aead_dec aes, OF assms(1,2) less.prems(1,2)]
    obtain c1 out where e: "encode_arbitrary_payload aes aead_enc c ?p = (c1, Inr out)" and after: "codec_after c c1"
      and dec: "codec_decode_audio aes aead_dec d out = Inr \<lparr>rp_header = codec_header c, rp_payload = ?p\<rparr>" by metis
    have enc: "codec_encode_audio aes aead_enc c ?p = (c1, Inr out)"
      using e lp less.prems(3) by (simp add: codec_encode_audio_def)
    have "length (drop fs data) < length data" using False assms(4) by simp
    from less.hyps [OF this codec_after_ready [OF after less.prems(1)] codec_after_peer [OF after less.prems(2)]]
    obtain c2 packets ps pad where r: "encode_pieces aes aead_enc fs c1 (drop fs data) = (c2, Inr packets)"
      "map (codec_decode_audio aes aead_dec d) packets = map Inr (stream_packets c1 ps)" "pad < fs"
      "concat ps = drop fs data @ replicate pad 0" "\<forall>p\<in>set ps. length p = fs"
      using codec_after_size [OF after] less.prems(3) by auto
    have "encode_pieces aes aead_enc fs c data = (c2, Inr (out # packets))"
      using False assms(4) enc r(1) by (subst encode_pieces.simps) simp
    moreover have "map (codec_decode_audio aes aead_dec d) (out # packets) = map Inr (stream_packets c (?p # ps))"
      using dec r(2) by (simp add: stream_packets_Cons [OF after])
    moreover have "\<exists>pad<fs. concat (?p # ps) = data @ replicate pad 0"
    proof (cases "length data < fs")
      case True
      have "ps = []" 
      proof (rule ccontr)
        assume "ps \<noteq> []"
        then have "fs \<le> length (concat ps)" using r(5) by (cases ps) auto
        with r(3,4) True show False by simp
      qed
      with True False show ?thesis by (intro exI [of _ "fs - length data"]) simp
    next
      case False
      then have "concat (?p # ps) = data @ replicate pad 0" using r(4) by (simp flip: append_assoc)
      with r(3) show ?thesis by blast
    qed
    ultimately show ?thesis using lp r(5) by (intro exI [of _ c2] exI [of _ "out # packets"] exI [of _ "?p # ps"]) simp
  qed
qed

section \<open>Nonces\<close>

lemma nonce_counter_run:
  assumes "rc_encryption_mode c = Mode_ChaCha20Poly1305"
  shows "encode_arbitrary_payload aes aead_enc c data = (c', Inr out)
    \<Longrightarrow> rc_encryption_mode c' = Mode_ChaCha20Poly1305 \<and> rc_nonce_counter c' = rc_nonce_counter c + 1
      \<and> (\<exists>body. out = body @ le_bytes 8 (rc_nonce_counter c))"
  using assms by (auto simp: encode_arbitrary_payload_def codec_chacha_packet_def codec_next_def Let_def elim!: attempt_cases)

section \<open>Properties\<close>

text \<open>
  C19. Audio survives the codec in every encryption mode. A sender that has its keys always
  encodes PCM audio of any length; a receiver with the same keys, whatever its own numbering,
  decodes each packet, and gets consecutive sequence numbers from the sender's on, timestamps
  one packet apart, full packets, and the audio in order with less than a packet of silence
  after it.
\<close>

theorem rtp_codec_stream_roundtrip:
  assumes "aead_correct aead_enc aead_dec" and "\<And>k b. length (aes k b) = 16" and "codec_ready c" and "codec_peer c d"
    and "0 < codec_frame_size c" and "codec_frame_size c \<le> 65535"
  shows "\<exists>c' packets ps. encode_audio_frames aes aead_enc c pcm = Some (c', Inr packets)
    \<and> map (codec_decode_audio aes aead_dec d) packets = map Inr (stream_packets c ps)
    \<and> (\<exists>pad<codec_frame_size c. concat ps = pcm @ replicate pad 0) \<and> (\<forall>p\<in>set ps. length p = codec_frame_size c)"
  using encode_pieces_decode [of aead_enc aead_dec aes, OF assms(1,2,6,5,3,4) refl, of pcm] assms(5)
  by (simp add: encode_audio_frames_def)

theorem rtp_codec_stream_roundtrip_witness:
  "\<exists>c' packets ps. encode_audio_frames (\<lambda>k b. take 16 (b @ replicate 16 0)) demo_enc
       (codec_set_chacha_encryption (codec_set_frames_per_packet (rtp_codec_new 7) 1) (replicate 32 3)) [1, 2, 3, 4, 5]
     = Some (c', Inr packets)
   \<and> map (codec_decode_audio (\<lambda>k b. take 16 (b @ replicate 16 0)) demo_dec
        (codec_set_chacha_encryption (codec_set_frames_per_packet (rtp_codec_new 9) 1) (replicate 32 3))) packets
     = map Inr (stream_packets (codec_set_chacha_encryption (codec_set_frames_per_packet (rtp_codec_new 7) 1) (replicate 32 3)) ps)
   \<and> (\<exists>pad<4. concat ps = [1, 2, 3, 4, 5] @ replicate pad 0) \<and> (\<forall>p\<in>set ps. length p = 4)"
proof -
  let ?c = "\<lambda>k. codec_set_chacha_encryption (codec_set_frames_per_packet (rtp_codec_new k) 1) (replicate 32 3)"
  let ?aes = "\<lambda>k b :: bytes. take 16 (b @ replicate 16 0)"
  have fs: "codec_frame_size (?c 7) = 4"
    by (simp add: codec_frame_size_def codec_set_chacha_encryption_def codec_set_frames_per_packet_def rtp_codec_new_def)
  have "codec_ready (?c 7)" "codec_peer (?c 7) (?c 9)"
    by (simp_all add: codec_ready_def codec_peer_def codec_set_chacha_encryption_def codec_set_frames_per_packet_def rtp_codec_new_def)
  from rtp_codec_stream_roundtrip [of demo_enc demo_dec ?aes, OF demo_aead(1) _ this, of "[1, 2, 3, 4, 5]"] fs
  show ?thesis by simp
qed

end
