(* ===== verification/Ap2_Audio.thy ===== *)
theory Ap2_Audio
  imports Rtp_Codec
begin

text \<open>
  The reception of AirPlay 2 audio: the decryptor and the sample decoders of
  \<open>src/receiver/ap2/rtp_decryptor.rs\<close> and the packet receiver of
  \<open>src/receiver/ap2/rtp_receiver.rs\<close>. Samples are the 16-bit words of their bit patterns. The
  64-bit statistics counters are numbers without a bound. Whether the channel of frames has
  room and the reading of the monotonic clock are arguments.
\<close>

section \<open>The decryptor\<close>

record rtp_decryptor =
  rd_key :: bytes
  rd_aad_prefix :: "bytes option"

datatype decryption_error = PayloadTooShort | AuthenticationFailed

definition rtp_decryptor_new :: "bytes \<Rightarrow> rtp_decryptor" where
  "rtp_decryptor_new key = \<lparr>rd_key = key, rd_aad_prefix = None\<rparr>"

definition set_aad_prefix :: "rtp_decryptor \<Rightarrow> bytes \<Rightarrow> rtp_decryptor" where
  "set_aad_prefix d pre = d\<lparr>rd_aad_prefix := Some pre\<rparr>"

definition build_nonce :: "rtp_packet \<Rightarrow> bytes" where
  "build_nonce packet =
     replicate 4 0 @ be_bytes 4 (rh_ssrc (rp_header packet)) @ be_bytes 2 (rh_sequence (rp_header packet)) @ [0, 0]"

definition build_aad :: "rtp_decryptor \<Rightarrow> rtp_packet \<Rightarrow> bytes option" where
  "build_aad d packet = map_option (\<lambda>pre. pre @ rtp_header_encode (rp_header packet)) (rd_aad_prefix d)"

definition rtp_decrypt :: "aead \<Rightarrow> rtp_decryptor \<Rightarrow> rtp_packet \<Rightarrow> (decryption_error, bytes) result" where
  "rtp_decrypt aead_dec d packet =
     (if length (rp_payload packet) < 16 then Inl PayloadTooShort
      else result_bind (map_err (\<lambda>_. AuthenticationFailed) (cipher_new (rd_key d))) (\<lambda>cipher.
        result_bind (map_err (\<lambda>_. AuthenticationFailed) (nonce_from_bytes (build_nonce packet))) (\<lambda>nonce.
          map_err (\<lambda>_. AuthenticationFailed)
            (case build_aad d packet of
               Some aad \<Rightarrow> cipher_decrypt_with_aad aead_dec cipher nonce aad (rp_payload packet)
             | None \<Rightarrow> cipher_decrypt aead_dec cipher nonce (rp_payload packet)))))"

section \<open>Sample decoders\<close>

datatype audio_decode_error = InvalidData | UnsupportedFormat | DecoderError string

record pcm_decoder =
  pd_sample_rate :: u32
  pd_channels :: u8
  pd_bits_per_sample :: u8

definition pcm_decoder_new :: "u32 \<Rightarrow> u8 \<Rightarrow> u8 \<Rightarrow> pcm_decoder" where
  "pcm_decoder_new sample_rate channels bits = \<lparr>pd_sample_rate = sample_rate, pd_channels = channels, pd_bits_per_sample = bits\<rparr>"

text \<open>\<open>chunks_exact(2)\<close> and \<open>chunks_exact(3)\<close>: a short tail is dropped.\<close>

fun samples_16 :: "bytes \<Rightarrow> u16 list" where
  "samples_16 (a # b # rest) = from_le [a, b] # samples_16 rest"
| "samples_16 _ = []"

fun samples_24 :: "bytes \<Rightarrow> u16 list" where
  "samples_24 (a # b # c # rest) = ucast (signed_drop_bit 16 (from_le [0, a, b, c] :: u32)) # samples_24 rest"
| "samples_24 _ = []"

definition pcm_decode :: "pcm_decoder \<Rightarrow> bytes \<Rightarrow> (audio_decode_error, u16 list) result" where
  "pcm_decode d data =
     (if pd_bits_per_sample d = 16 then Inr (samples_16 data)
      else if pd_bits_per_sample d = 24 then Inr (samples_24 data)
      else Inl UnsupportedFormat)"

record alac_decoder =
  ad_sample_rate :: u32
  ad_channels :: u8

definition alac_decoder_new :: "u32 \<Rightarrow> u8 \<Rightarrow> bytes \<Rightarrow> (audio_decode_error, alac_decoder) result" where
  "alac_decoder_new sample_rate channels magic_cookie = Inr \<lparr>ad_sample_rate = sample_rate, ad_channels = channels\<rparr>"

definition alac_decode :: "alac_decoder \<Rightarrow> bytes \<Rightarrow> (audio_decode_error, u16 list) result" where
  "alac_decode d data = Inl (DecoderError ''ALAC decoder not implemented'')"

section \<open>The receiver\<close>

record audio_frame =
  af_sequence :: u16
  af_timestamp :: u32
  af_samples :: "u16 list"
  af_receive_time :: nat

record rtp_receiver_config =
  rrc_port :: u16
  rrc_key :: bytes
  rrc_sample_rate :: u32
  rrc_channels :: u8
  rrc_bits_per_sample :: u8
  rrc_codec_type :: u8

record receiver_stats =
  rst_packets_received :: nat
  rst_packets_decrypted :: nat
  rst_packets_failed :: nat
  rst_bytes_received :: nat
  rst_samples_decoded :: nat
  rst_last_sequence :: u16
  rst_sequence_gaps :: nat

definition receiver_stats_default :: receiver_stats where
  "receiver_stats_default =
     \<lparr>rst_packets_received = 0, rst_packets_decrypted = 0, rst_packets_failed = 0, rst_bytes_received = 0,
      rst_samples_decoded = 0, rst_last_sequence = 0, rst_sequence_gaps = 0\<rparr>"

text \<open>The only decoder that a receiver is created with is the PCM decoder.\<close>

record rtp_receiver =
  rr_config :: rtp_receiver_config
  rr_decryptor :: rtp_decryptor
  rr_decoder :: pcm_decoder
  rr_stats :: receiver_stats

datatype receiver_error =
    ReceiverParseError rtp_decode_error
  | DecryptError decryption_error
  | DecodeError audio_decode_error
  | UnsupportedCodec u8
  | ChannelFull

definition rtp_receiver_new :: "rtp_receiver_config \<Rightarrow> (receiver_error, rtp_receiver) result" where
  "rtp_receiver_new config =
     (if rrc_codec_type config = 100
      then Inr \<lparr>rr_config = config, rr_decryptor = rtp_decryptor_new (rrc_key config),
                rr_decoder = pcm_decoder_new (rrc_sample_rate config) (rrc_channels config) (rrc_bits_per_sample config),
                rr_stats = receiver_stats_default\<rparr>
      else Inl (UnsupportedCodec (rrc_codec_type config)))"

text \<open>The bookkeeping of sequence numbers.\<close>

definition note_sequence :: "receiver_stats \<Rightarrow> u16 \<Rightarrow> receiver_stats" where
  "note_sequence st seq =
     (if rst_packets_received st > 0
      then let expected = rst_last_sequence st + 1; diff = sint (seq - expected)
           in if diff > 0 then st\<lparr>rst_sequence_gaps := rst_sequence_gaps st + 1, rst_last_sequence := seq\<rparr>
              else if diff < 0 then st
              else st\<lparr>rst_last_sequence := seq\<rparr>
      else st\<lparr>rst_last_sequence := seq\<rparr>)"

definition receiver_process_packet ::
    "aead \<Rightarrow> bool \<Rightarrow> nat \<Rightarrow> rtp_receiver \<Rightarrow> bytes \<Rightarrow> rtp_receiver \<times> (receiver_error, audio_frame) result" where
  "receiver_process_packet aead_dec room now r data =
     (let st = rr_stats r;
          st1 = st\<lparr>rst_packets_received := rst_packets_received st + 1,
                   rst_bytes_received := rst_bytes_received st + length data\<rparr>;
          r1 = r\<lparr>rr_stats := st1\<rparr>
      in attempt r1 (map_err ReceiverParseError (rtp_packet_decode data)) (\<lambda>packet.
         let st2 = note_sequence st1 (rh_sequence (rp_header packet)) in
         case rtp_decrypt aead_dec (rr_decryptor r) packet of
           Inl err \<Rightarrow> (r\<lparr>rr_stats := st2\<lparr>rst_packets_failed := rst_packets_failed st2 + 1\<rparr>\<rparr>, Inl (DecryptError err))
         | Inr decrypted \<Rightarrow>
             (let st3 = st2\<lparr>rst_packets_decrypted := rst_packets_decrypted st2 + 1\<rparr> in
              attempt (r\<lparr>rr_stats := st3\<rparr>) (map_err DecodeError (pcm_decode (rr_decoder r) decrypted)) (\<lambda>samples.
                let r4 = r\<lparr>rr_stats := st3\<lparr>rst_samples_decoded := rst_samples_decoded st3 + length samples\<rparr>\<rparr>
                in if room
                   then (r4, Inr \<lparr>af_sequence = rh_sequence (rp_header packet), af_timestamp = rh_timestamp (rp_header packet),
                                  af_samples = samples, af_receive_time = now\<rparr>)
                   else (r4, Inl ChannelFull)))))"

definition receiver_reset_stats :: "rtp_receiver \<Rightarrow> rtp_receiver" where
  "receiver_reset_stats r = r\<lparr>rr_stats := receiver_stats_default\<rparr>"

text \<open>The receive loop over the datagrams of the socket, a buffer of 2048 bytes; errors are logged.\<close>

primrec run_receiver :: "aead \<Rightarrow> rtp_receiver \<Rightarrow> (bool \<times> nat \<times> bytes) list \<Rightarrow> rtp_receiver \<times> audio_frame list" where
  "run_receiver aead_dec r [] = (r, [])"
| "run_receiver aead_dec r (x # xs) =
     (case x of (room, now, data) \<Rightarrow>
      case receiver_process_packet aead_dec room now r (take 2048 data) of (r1, res) \<Rightarrow>
      case run_receiver aead_dec r1 xs of (r2, frames) \<Rightarrow>
        (r2, (case res of Inr f \<Rightarrow> f # frames | Inl _ \<Rightarrow> frames)))"

section \<open>Delivery\<close>

lemma unat_pred_u16: "1 \<le> (s :: u16) \<Longrightarrow> unat (s - 1) = unat s - 1"
  by (simp add: unat_sub word_le_nat_alt)

lemma sint_pred_u16:
  fixes s :: u16
  shows "2 \<le> s \<Longrightarrow> s \<le> 32768 \<Longrightarrow> 0 < sint (s - 1)" and "32768 < s \<Longrightarrow> sint (s - 1) < 0"
proof -
  assume "2 \<le> s" "s \<le> 32768"
  then have "2 \<le> unat s" "unat s \<le> 32768" by (simp_all add: word_le_nat_alt)
  moreover from this have "unat (s - 1) = unat s - 1" by (intro unat_pred_u16) (simp add: word_le_nat_alt)
  ultimately show "0 < sint (s - 1)" unfolding sint_u16 by (simp del: of_nat_unat)
next
  assume "32768 < s"
  then have "32768 < unat s" by (simp add: word_less_nat_alt)
  moreover from this have "unat (s - 1) = unat s - 1" by (intro unat_pred_u16) (simp add: word_le_nat_alt)
  ultimately show "sint (s - 1) < 0" unfolding sint_u16 using unat_less_u16 [of s] by (simp del: of_nat_unat)
qed

lemma samples_16_encode: "samples_16 (concat (map (le_bytes 2) xs)) = xs"
  by (induction xs) (simp_all add: le_bytes_2 from_le_2)

text \<open>A packet as this receiver expects it: the samples encrypted under the nonce of the header, no associated data.\<close>

definition sealed_packet :: "aead \<Rightarrow> bytes \<Rightarrow> rtp_header \<Rightarrow> u16 list \<Rightarrow> bytes \<Rightarrow> bool" where
  "sealed_packet aead_enc key h samples data \<longleftrightarrow>
     (\<exists>c. aead_enc key (build_nonce \<lparr>rp_header = h, rp_payload = []\<rparr>) [] (concat (map (le_bytes 2) samples)) = Some c
        \<and> data = rtp_packet_encode \<lparr>rp_header = h, rp_payload = c\<rparr>)"

lemma length_build_nonce [simp]: "length (build_nonce p) = 12"
  by (simp add: build_nonce_def)

lemma build_nonce_header: "build_nonce \<lparr>rp_header = h, rp_payload = c\<rparr> = build_nonce \<lparr>rp_header = h, rp_payload = c'\<rparr>"
  by (simp add: build_nonce_def)

definition plain_receiver :: "rtp_receiver \<Rightarrow> bytes \<Rightarrow> bool" where
  "plain_receiver r key \<longleftrightarrow> rr_decryptor r = rtp_decryptor_new key \<and> length key = 32 \<and> pd_bits_per_sample (rr_decoder r) = 16"

lemma length_samples: "length (concat (map (le_bytes 2) (xs :: u16 list))) = 2 * length xs"
  by (induction xs) simp_all

lemma receiver_sealed:
  assumes "aead_correct aead_enc aead_dec" and "plain_receiver r key" and "rtp_header_valid h" and "length samples \<le> 1000"
    and "sealed_packet aead_enc key h samples data"
  obtains r' where "receiver_process_packet aead_dec True now r (take 2048 data) =
      (r', Inr \<lparr>af_sequence = rh_sequence h, af_timestamp = rh_timestamp h, af_samples = samples, af_receive_time = now\<rparr>)"
    and "plain_receiver r' key" and "rst_packets_failed (rr_stats r') = rst_packets_failed (rr_stats r)"
proof -
  let ?n = "build_nonce \<lparr>rp_header = h, rp_payload = []\<rparr>" and ?pcm = "concat (map (le_bytes 2) samples)"
  obtain c where c: "aead_enc key ?n [] ?pcm = Some c" and data: "data = rtp_packet_encode \<lparr>rp_header = h, rp_payload = c\<rparr>"
    using assms(5) by (auto simp: sealed_packet_def)
  have "length ?pcm \<le> 65535" using assms(4) by (simp only: length_samples)
  then have dec: "length c = length ?pcm + 16" "aead_dec key ?n [] c = Some ?pcm"
    using assms(1,2) c length_build_nonce unfolding aead_correct_def plain_receiver_def by (metis option.inject)+
  have "length data \<le> 2048"
    unfolding data using dec(1) assms(4) by (simp add: rtp_packet_encode_def RTP_HEADER_SIZE_def length_samples)
  moreover have "rtp_packet_decode data = Inr \<lparr>rp_header = h, rp_payload = c\<rparr>"
    using rtp_hdr.dec_enc [OF assms(3), of c] by (simp add: data rtp_packet_decode_def rtp_packet_encode_def)
  moreover have "rtp_decrypt aead_dec (rr_decryptor r) \<lparr>rp_header = h, rp_payload = c\<rparr> = Inr ?pcm"
    using dec assms(2) by (simp add: rtp_decrypt_def plain_receiver_def cipher_new_def nonce_from_bytes_def build_aad_def
        rtp_decryptor_new_def cipher_decrypt_def build_nonce_header [of h c "[]"])
  moreover have "pcm_decode (rr_decoder r) ?pcm = Inr samples"
    using assms(2) by (simp add: pcm_decode_def plain_receiver_def samples_16_encode)
  ultimately show thesis using that assms(2)
    by (simp add: receiver_process_packet_def plain_receiver_def note_sequence_def Let_def)
qed

section \<open>Properties\<close>

text \<open>
  Sealed audio is delivered. When every datagram is an RTP packet whose 16-bit samples are
  encrypted under the nonce that its header determines, and the channel has room, the receive
  loop hands on one frame per datagram in the order of arrival, with the sequence number, the
  timestamp and exactly the samples of the packet, and counts no failure.
\<close>

theorem ap2_audio_delivered:
  assumes "aead_correct aead_enc aead_dec" and "plain_receiver r key"
    and "list_all2 (\<lambda>(h, samples) (room, now, data). room \<and> rtp_header_valid h \<and> length samples \<le> 1000
           \<and> sealed_packet aead_enc key h samples data) ps ds"
  shows "\<exists>r' frames. run_receiver aead_dec r ds = (r', frames)
    \<and> map (\<lambda>f. (af_sequence f, af_timestamp f, af_samples f)) frames = map (\<lambda>(h, samples). (rh_sequence h, rh_timestamp h, samples)) ps
    \<and> rst_packets_failed (rr_stats r') = rst_packets_failed (rr_stats r)"
  using assms(3,2)
proof (induction ps ds arbitrary: r rule: list_all2_induct)
  case (Cons p ps d ds)
  obtain h samples room now data where pd: "p = (h, samples)" "d = (room, now, data)" by (cases p, cases d)
  have ok: "room" "rtp_header_valid h" "length samples \<le> 1000" "sealed_packet aead_enc key h samples data"
    using Cons.hyps(1) pd by simp_all
  obtain r1 where r1: "receiver_process_packet aead_dec True now r (take 2048 data) =
      (r1, Inr \<lparr>af_sequence = rh_sequence h, af_timestamp = rh_timestamp h, af_samples = samples, af_receive_time = now\<rparr>)"
    "plain_receiver r1 key" "rst_packets_failed (rr_stats r1) = rst_packets_failed (rr_stats r)"
    by (rule receiver_sealed [OF assms(1) Cons.prems ok(2-4)])
  from Cons.IH [OF r1(2)] ok(1) r1 pd show ?case by auto
qed simp

theorem ap2_audio_delivered_witness:
  "\<exists>r' frames. run_receiver demo_dec \<lparr>rr_config = \<lparr>rrc_port = 6000, rrc_key = replicate 32 1, rrc_sample_rate = 44100,
        rrc_channels = 2, rrc_bits_per_sample = 16, rrc_codec_type = 100\<rparr>, rr_decryptor = rtp_decryptor_new (replicate 32 1),
        rr_decoder = pcm_decoder_new 44100 2 16, rr_stats = receiver_stats_default\<rparr>
      [(True, 5, rtp_packet_encode \<lparr>rp_header = rtp_header_new_audio 9 352 7 False,
         rp_payload = [1, 2, 3, 4] @ replicate 16 0\<rparr>)] = (r', frames)
   \<and> map (\<lambda>f. (af_sequence f, af_timestamp f, af_samples f)) frames = [(9, 352, [513, 1027])]"
proof -
  let ?h = "rtp_header_new_audio 9 352 7 False"
  let ?r = "\<lparr>rr_config = \<lparr>rrc_port = 6000, rrc_key = replicate 32 1, rrc_sample_rate = 44100,
        rrc_channels = 2, rrc_bits_per_sample = 16, rrc_codec_type = 100\<rparr>, rr_decryptor = rtp_decryptor_new (replicate 32 1),
        rr_decoder = pcm_decoder_new 44100 2 16, rr_stats = receiver_stats_default\<rparr>"
  have w: "(513 :: u8) = 1" "(1027 :: u8) = 3" by simp_all
  have r: "replicate 16 0 = (0 :: u8) # replicate 15 0" by (simp add: numeral_eq_Suc)
  have "plain_receiver ?r (replicate 32 1)" by (simp add: plain_receiver_def pcm_decoder_new_def)
  moreover have "sealed_packet demo_enc (replicate 32 1) ?h [513, 1027]
      (rtp_packet_encode \<lparr>rp_header = ?h, rp_payload = [1, 2, 3, 4] @ replicate 16 0\<rparr>)"
    unfolding sealed_packet_def demo_enc_def r by (simp add: le_bytes_2 w)
  moreover have "rtp_header_valid ?h" by (simp add: rtp_header_valid_def rtp_header_new_audio_def)
  ultimately show ?thesis
    using ap2_audio_delivered [OF demo_aead(1), of ?r "replicate 32 1" "[(?h, [513, 1027])]"
        "[(True, 5, rtp_packet_encode \<lparr>rp_header = ?h, rp_payload = [1, 2, 3, 4] @ replicate 16 0\<rparr>)]"]
    by (fastforce simp: rtp_header_new_audio_def simp del: run_receiver.simps)
qed

text \<open>
  The nonce of the receiver depends on the source and the 16-bit sequence number only: in a
  stream of one sender the packets number \<open>i\<close> and \<open>j\<close> have the same nonce exactly when \<open>i\<close> and
  \<open>j\<close> agree modulo 65536, so nonces repeat after 65536 packets under one key, also when the
  timestamps differ.
\<close>

theorem ap2_audio_nonce_period:
  assumes "i < length ps" and "j < length ps"
  shows "build_nonce (stream_packets c ps ! i) = build_nonce (stream_packets c ps ! j) \<longleftrightarrow> i mod 65536 = j mod 65536"
proof -
  have n: "build_nonce (stream_packets c ps ! k) =
      replicate 4 0 @ be_bytes 4 (rc_ssrc c) @ be_bytes 2 (rc_sequence c + of_nat k) @ [0, 0]" if "k < length ps" for k
    using that by (simp add: build_nonce_def stream_packets_def rtp_header_new_audio_def)
  have b: "be_bytes 2 x = be_bytes 2 y \<longleftrightarrow> x = y" for x y :: u16
  proof
    assume "be_bytes 2 x = be_bytes 2 y"
    then have "from_be (be_bytes 2 x) = (from_be (be_bytes 2 y) :: u16)" by (rule arg_cong)
    then show "x = y" by (subst (asm) (1 2) from_be_be_bytes_full) simp_all
  qed simp
  have w: "(of_nat i :: u16) = of_nat j \<longleftrightarrow> i mod 65536 = j mod 65536"
    unfolding word_unat_eq_iff unat_of_nat by (simp add: take_bit_eq_mod)
  have "build_nonce (stream_packets c ps ! i) = build_nonce (stream_packets c ps ! j)
      \<longleftrightarrow> be_bytes 2 (rc_sequence c + of_nat i) = be_bytes 2 (rc_sequence c + of_nat j)"
    unfolding n [OF assms(1)] n [OF assms(2)] by (simp only: same_append_eq append_same_eq)
  then show ?thesis unfolding b add_left_cancel w .
qed

theorem ap2_audio_nonce_period_witness:
  "build_nonce (stream_packets (rtp_codec_new 7) [[1], [2]] ! 0) \<noteq> build_nonce (stream_packets (rtp_codec_new 7) [[1], [2]] ! 1)"
  using ap2_audio_nonce_period [of 0 "[[1], [2]]" 1 "rtp_codec_new 7"] by simp

text \<open>
  The first packet is misjudged. A new receiver takes the packet before the first one to have
  had the number 0: a first packet from 2 to 32768 counts as a gap although nothing was lost,
  and with one from 32769 on the receiver does not even note its number, so the gaps of the
  stream go unnoticed.
\<close>

theorem ap2_receiver_first_packet:
  assumes "rtp_receiver_new config = Inr r" and "rtp_packet_decode data = Inr packet"
    and "receiver_process_packet aead_dec room now r data = (r', res)" and "s = rh_sequence (rp_header packet)"
  shows "(2 \<le> s \<and> s \<le> 32768 \<longrightarrow> rst_sequence_gaps (rr_stats r') = 1 \<and> rst_last_sequence (rr_stats r') = s)
    \<and> (32768 < s \<longrightarrow> rst_sequence_gaps (rr_stats r') = 0 \<and> rst_last_sequence (rr_stats r') = 0)"
proof -
  define st where "st = note_sequence (receiver_stats_default\<lparr>rst_packets_received := 1, rst_bytes_received := length data\<rparr>) s"
  have "rr_stats r = receiver_stats_default" using assms(1) by (auto simp: rtp_receiver_new_def split: if_splits)
  then have "rst_sequence_gaps (rr_stats r') = rst_sequence_gaps st \<and> rst_last_sequence (rr_stats r') = rst_last_sequence st"
    using assms(2-4) by (auto simp: receiver_process_packet_def receiver_stats_default_def st_def Let_def
        split: sum.splits if_splits elim!: attempt_cases)
  moreover have "st = (if sint (s - 1) > 0 then receiver_stats_default\<lparr>rst_packets_received := 1, rst_bytes_received := length data,
        rst_sequence_gaps := 1, rst_last_sequence := s\<rparr>
      else if sint (s - 1) < 0 then receiver_stats_default\<lparr>rst_packets_received := 1, rst_bytes_received := length data\<rparr>
      else receiver_stats_default\<lparr>rst_packets_received := 1, rst_bytes_received := length data, rst_last_sequence := s\<rparr>)"
    by (simp add: st_def note_sequence_def receiver_stats_default_def Let_def)
  moreover have "0 < sint (s - 1)" if "2 \<le> s" "s \<le> 32768"
    using that by (rule sint_pred_u16)
  moreover have "sint (s - 1) < 0" if "32768 < s"
    using that by (rule sint_pred_u16)
  ultimately show ?thesis by (auto simp: receiver_stats_default_def)
qed

theorem ap2_receiver_first_packet_witness:
  "\<exists>r r' res. rtp_receiver_new \<lparr>rrc_port = 6000, rrc_key = replicate 32 1, rrc_sample_rate = 44100,
        rrc_channels = 2, rrc_bits_per_sample = 16, rrc_codec_type = 100\<rparr> = Inr r
   \<and> receiver_process_packet demo_dec True 0 r (rtp_packet_encode \<lparr>rp_header = rtp_header_new_audio 40000 0 7 False, rp_payload = []\<rparr>)
       = (r', res) \<and> rst_last_sequence (rr_stats r') = 0"
proof -
  let ?p = "\<lparr>rp_header = rtp_header_new_audio 40000 0 7 False, rp_payload = []\<rparr>"
  let ?c = "\<lparr>rrc_port = 6000, rrc_key = replicate 32 1, rrc_sample_rate = 44100,
        rrc_channels = 2, rrc_bits_per_sample = 16, rrc_codec_type = 100\<rparr>"
  obtain r where r: "rtp_receiver_new ?c = Inr r" by (simp add: rtp_receiver_new_def)
  obtain r' res where p: "receiver_process_packet demo_dec True 0 r (rtp_packet_encode ?p) = (r', res)" by force
  have "rtp_header_valid (rtp_header_new_audio 40000 0 7 False)" by (simp add: rtp_header_valid_def rtp_header_new_audio_def)
  from rtp_hdr.dec_enc [OF this, of "[]"] have "rtp_packet_decode (rtp_packet_encode ?p) = Inr ?p"
    by (simp add: rtp_packet_decode_def rtp_packet_encode_def RTP_HEADER_SIZE_def)
  from ap2_receiver_first_packet [OF r this p refl] have "rst_last_sequence (rr_stats r') = 0"
    by (simp add: rtp_header_new_audio_def)
  with r p show ?thesis by blast
qed

end
