(* ===== verification/Ap2_Jitter.thy ===== *)
theory Ap2_Jitter
  imports Ap2_Audio
begin

text \<open>
  The playback buffer of AirPlay 2, \<open>src/receiver/ap2/jitter_buffer.rs\<close>. The \<open>BTreeMap\<close> from
  timestamps to frames is the list of its frames in ascending order of their timestamps, which
  are the keys. Counters of the statistics are numbers without a bound; the jitter estimate is
  never computed and left out. A division by zero and an index out of range are \<open>None\<close>.
\<close>

section \<open>Data\<close>

record ap2_jitter_config =
  ajc_min_depth_ms :: u32
  ajc_max_depth_ms :: u32
  ajc_target_depth_ms :: u32
  ajc_sample_rate :: u32
  ajc_channels :: u8

definition ap2_jitter_config_default :: ap2_jitter_config where
  "ap2_jitter_config_default =
     \<lparr>ajc_min_depth_ms = 50, ajc_max_depth_ms = 2000, ajc_target_depth_ms = 200, ajc_sample_rate = 44100, ajc_channels = 2\<rparr>"

datatype ap2_buffer_state = Ap2_Buffering | Ap2_Playing | Ap2_Underrun | Ap2_Overflow

record ap2_buffer_stats =
  abs_frames_received :: nat
  abs_frames_played :: nat
  abs_frames_dropped :: nat
  abs_frames_lost :: nat
  abs_underruns :: nat
  abs_overflows :: nat
  abs_current_depth_ms :: u32

record ap2_jitter =
  aj_config :: ap2_jitter_config
  aj_frames :: "audio_frame list"
  aj_playback_position :: u32
  aj_state :: ap2_buffer_state
  aj_stats :: ap2_buffer_stats
  aj_last_sequence :: "u16 option"
  aj_started :: bool
  aj_current_frame :: "audio_frame option"
  aj_current_frame_offset :: nat

section \<open>The ordered map\<close>

primrec frame_insert :: "audio_frame \<Rightarrow> audio_frame list \<Rightarrow> audio_frame list" where
  "frame_insert f [] = [f]"
| "frame_insert f (g # gs) =
     (if af_timestamp f < af_timestamp g then f # g # gs
      else if af_timestamp f = af_timestamp g then f # gs
      else g # frame_insert f gs)"

definition frame_at :: "u32 \<Rightarrow> audio_frame list \<Rightarrow> audio_frame option" where
  "frame_at ts fs = find (\<lambda>f. af_timestamp f = ts) fs"

definition frame_remove :: "u32 \<Rightarrow> audio_frame list \<Rightarrow> audio_frame list" where
  "frame_remove ts fs = filter (\<lambda>f. af_timestamp f \<noteq> ts) fs"

section \<open>Operations\<close>

definition ap2_jitter_new :: "ap2_jitter_config \<Rightarrow> ap2_jitter" where
  "ap2_jitter_new config =
     \<lparr>aj_config = config, aj_frames = [], aj_playback_position = 0, aj_state = Ap2_Buffering,
      aj_stats = \<lparr>abs_frames_received = 0, abs_frames_played = 0, abs_frames_dropped = 0, abs_frames_lost = 0,
        abs_underruns = 0, abs_overflows = 0, abs_current_depth_ms = 0\<rparr>,
      aj_last_sequence = None, aj_started = False, aj_current_frame = None, aj_current_frame_offset = 0\<rparr>"

definition aj_channels :: "ap2_jitter \<Rightarrow> nat" where
  "aj_channels b = unat (ajc_channels (aj_config b))"

definition frame_duration :: "nat \<Rightarrow> audio_frame \<Rightarrow> u32" where
  "frame_duration channels f = of_nat (length (af_samples f) div channels)"

definition set_depth :: "ap2_jitter \<Rightarrow> u32 \<Rightarrow> ap2_jitter" where
  "set_depth b d = b\<lparr>aj_stats := (aj_stats b)\<lparr>abs_current_depth_ms := d\<rparr>\<rparr>"

definition update_depth :: "ap2_jitter \<Rightarrow> ap2_jitter option" where
  "update_depth b =
     (case (if aj_frames b \<noteq> [] then Some (last (aj_frames b)) else aj_current_frame b) of
        None \<Rightarrow> Some (set_depth b 0)
      | Some f \<Rightarrow>
          if aj_channels b = 0 then None
          else let end_ts = af_timestamp f + frame_duration (aj_channels b) f;
                   finish = (\<lambda>current_ts.
                     if ajc_sample_rate (aj_config b) = 0 then None
                     else Some (set_depth b
                       (of_nat (unat (end_ts - current_ts) * 1000 div unat (ajc_sample_rate (aj_config b))))))
               in if aj_state b = Ap2_Buffering
                  then case aj_frames b of [] \<Rightarrow> Some (set_depth b 0) | g # _ \<Rightarrow> finish (af_timestamp g)
                  else finish (aj_playback_position b + of_nat (aj_current_frame_offset b div aj_channels b)))"

lemma update_depth_SomeD: "update_depth b = Some b' \<Longrightarrow> \<exists>d. b' = set_depth b d"
  by (auto simp: update_depth_def Let_def split: option.splits if_splits list.splits)

text \<open>The loop of \<open>handle_overflow\<close>.\<close>

function drop_to_target :: "ap2_jitter \<Rightarrow> ap2_jitter option" where
  "drop_to_target b =
     (if abs_current_depth_ms (aj_stats b) > ajc_target_depth_ms (aj_config b)
      then case aj_frames b of
             [] \<Rightarrow> Some b
           | _ # fs \<Rightarrow>
               (case update_depth (b\<lparr>aj_frames := fs,
                       aj_stats := (aj_stats b)\<lparr>abs_frames_dropped := abs_frames_dropped (aj_stats b) + 1\<rparr>\<rparr>) of
                  None \<Rightarrow> None | Some b' \<Rightarrow> drop_to_target b')
      else Some b)"
  by pat_completeness auto

termination
  by (relation "measure (\<lambda>b. length (aj_frames b))") (auto simp: set_depth_def dest!: update_depth_SomeD)

declare drop_to_target.simps [simp del]

definition handle_overflow :: "ap2_jitter \<Rightarrow> ap2_jitter option" where
  "handle_overflow b =
     map_option (\<lambda>b'. b'\<lparr>aj_state := Ap2_Playing\<rparr>)
       (drop_to_target (b\<lparr>aj_stats := (aj_stats b)\<lparr>abs_overflows := abs_overflows (aj_stats b) + 1\<rparr>\<rparr>))"

definition count_lost :: "ap2_jitter \<Rightarrow> u16 \<Rightarrow> nat" where
  "count_lost b sequence =
     (case aj_last_sequence b of
        None \<Rightarrow> 0
      | Some last_seq \<Rightarrow>
          (let expected = last_seq + 1; gap = sequence - expected
           in if sequence \<noteq> expected \<and> gap < 100 then unat gap else 0))"

definition start_playing :: "ap2_jitter \<Rightarrow> ap2_jitter" where
  "start_playing b =
     (if aj_state b = Ap2_Buffering \<and> abs_current_depth_ms (aj_stats b) \<ge> ajc_target_depth_ms (aj_config b)
      then b\<lparr>aj_state := Ap2_Playing, aj_started := True\<rparr> else b)"

definition ap2_push :: "ap2_jitter \<Rightarrow> audio_frame \<Rightarrow> ap2_jitter option" where
  "ap2_push b f =
     (let st = aj_stats b;
          b1 = b\<lparr>aj_stats := st\<lparr>abs_frames_received := abs_frames_received st + 1,
                               abs_frames_lost := abs_frames_lost st + count_lost b (af_sequence f)\<rparr>,
                 aj_last_sequence := Some (af_sequence f),
                 aj_frames := frame_insert f (aj_frames b)\<rparr>
      in Option.bind (update_depth b1) (\<lambda>b2.
           map_option start_playing
             (if abs_current_depth_ms (aj_stats b2) > ajc_max_depth_ms (aj_config b2) then handle_overflow b2 else Some b2)))"

text \<open>A frame of silence in the place of a missing one.\<close>

definition silence_frame :: "ap2_jitter \<Rightarrow> nat \<Rightarrow> audio_frame" where
  "silence_frame b now = \<lparr>af_sequence = 0, af_timestamp = aj_playback_position b,
     af_samples = replicate (352 * aj_channels b) 0, af_receive_time = now\<rparr>"

text \<open>After some samples of the current frame have been taken.\<close>

definition advance_frame :: "ap2_jitter \<Rightarrow> audio_frame \<Rightarrow> nat \<Rightarrow> ap2_jitter" where
  "advance_frame b f taken =
     (if aj_current_frame_offset b + taken \<ge> length (af_samples f)
      then b\<lparr>aj_playback_position := aj_playback_position b + frame_duration (aj_channels b) f, aj_current_frame := None,
             aj_current_frame_offset := 0,
             aj_stats := (aj_stats b)\<lparr>abs_frames_played := abs_frames_played (aj_stats b) + 1\<rparr>\<rparr>
      else b\<lparr>aj_current_frame_offset := aj_current_frame_offset b + taken\<rparr>)"

definition load_frame :: "ap2_jitter \<Rightarrow> nat \<Rightarrow> ap2_jitter" where
  "load_frame b now =
     (case frame_at (aj_playback_position b) (aj_frames b) of
        Some f \<Rightarrow> b\<lparr>aj_frames := frame_remove (aj_playback_position b) (aj_frames b), aj_current_frame := Some f,
                    aj_current_frame_offset := 0\<rparr>
      | None \<Rightarrow> b\<lparr>aj_stats := (aj_stats b)\<lparr>abs_frames_lost := abs_frames_lost (aj_stats b) + 1\<rparr>,
                  aj_current_frame := Some (silence_frame b now), aj_current_frame_offset := 0\<rparr>)"

text \<open>
  The loop of \<open>pull\<close>, by the number of samples still needed. That number is a multiple of the
  channels, so with no channels it is zero. The rank orders the states in which the loop takes
  nothing: an exhausted frame, no frame, a frame with samples left.
\<close>

definition pull_rank :: "ap2_jitter \<Rightarrow> nat" where
  "pull_rank b =
     (case aj_current_frame b of
        None \<Rightarrow> 1 | Some f \<Rightarrow> if aj_current_frame_offset b < length (af_samples f) then 0 else 2)"

lemma frame_remove_less: "frame_at ts fs = Some f \<Longrightarrow> length (frame_remove ts fs) < length fs"
proof -
  assume "frame_at ts fs = Some f"
  then have "f \<in> set fs" "af_timestamp f = ts" by (auto simp: frame_at_def find_Some_iff)
  then show ?thesis unfolding frame_remove_def by (intro length_filter_less) auto
qed

function pull_loop :: "nat \<Rightarrow> ap2_jitter \<Rightarrow> nat \<Rightarrow> (ap2_jitter \<times> u16 list) option" where
  "pull_loop now b n =
     (if n = 0 \<or> aj_channels b = 0 then Some (b, [])
      else case aj_current_frame b of
             Some f \<Rightarrow>
               (if length (af_samples f) < aj_current_frame_offset b then None
                else let available = length (af_samples f) - aj_current_frame_offset b; taken = min available n
                     in map_option (\<lambda>(b', out). (b', take taken (drop (aj_current_frame_offset b) (af_samples f)) @ out))
                          (pull_loop now (advance_frame b f taken) (n - taken)))
           | None \<Rightarrow> pull_loop now (load_frame b now) n)"
  by pat_completeness auto

termination
proof (relation "inv_image (less_than <*lex*> less_than <*lex*> less_than)
    (\<lambda>(now, b, n). (n, length (aj_frames b), pull_rank b))")
  fix now b and n :: nat and f available taken
  assume a: "\<not> (n = 0 \<or> aj_channels b = 0)" "aj_current_frame b = Some f" "\<not> length (af_samples f) < aj_current_frame_offset b"
    "available = length (af_samples f) - aj_current_frame_offset b" "taken = min available n"
  show "((now, advance_frame b f taken, n - taken), now, b, n) \<in>
    inv_image (less_than <*lex*> less_than <*lex*> less_than) (\<lambda>(now, b, n). (n, length (aj_frames b), pull_rank b))"
    using a by (cases "taken = 0") (auto simp: advance_frame_def pull_rank_def)
next
  fix now b and n :: nat
  assume a: "\<not> (n = 0 \<or> aj_channels b = 0)" "aj_current_frame b = None"
  show "((now, load_frame b now, n), now, b, n) \<in>
    inv_image (less_than <*lex*> less_than <*lex*> less_than) (\<lambda>(now, b, n). (n, length (aj_frames b), pull_rank b))"
    using a by (cases "frame_at (aj_playback_position b) (aj_frames b)")
      (auto simp: load_frame_def pull_rank_def silence_frame_def dest: frame_remove_less)
qed (intro wf_inv_image wf_lex_prod wf_less_than)

declare pull_loop.simps [simp del]

definition note_underrun :: "ap2_jitter \<Rightarrow> ap2_jitter" where
  "note_underrun b =
     (if aj_frames b = [] \<and> aj_started b
      then b\<lparr>aj_state := Ap2_Underrun, aj_stats := (aj_stats b)\<lparr>abs_underruns := abs_underruns (aj_stats b) + 1\<rparr>\<rparr> else b)"

definition ap2_pull :: "nat \<Rightarrow> ap2_jitter \<Rightarrow> nat \<Rightarrow> (ap2_jitter \<times> u16 list) option" where
  "ap2_pull now b sample_count =
     (let needed = sample_count * aj_channels b in
      if aj_state b = Ap2_Buffering then Some (b, replicate needed 0)
      else Option.bind (pull_loop now b needed) (\<lambda>(b1, output).
        Option.bind (update_depth (note_underrun b1)) (\<lambda>b2. Some (b2, output))))"

definition ap2_flush :: "ap2_jitter \<Rightarrow> ap2_jitter option" where
  "ap2_flush b =
     update_depth (b\<lparr>aj_frames := [], aj_current_frame := None, aj_current_frame_offset := 0, aj_state := Ap2_Buffering,
       aj_started := False\<rparr>)"

definition ap2_flush_to :: "ap2_jitter \<Rightarrow> u32 \<Rightarrow> ap2_jitter option" where
  "ap2_flush_to b timestamp =
     (let b1 = b\<lparr>aj_frames := filter (\<lambda>f. af_timestamp f \<ge> timestamp) (aj_frames b)\<rparr>;
          b2 = (case aj_current_frame b1 of
                  Some f \<Rightarrow> if af_timestamp f < timestamp then b1\<lparr>aj_current_frame := None, aj_current_frame_offset := 0\<rparr> else b1
                | None \<Rightarrow> b1)
      in update_depth (b2\<lparr>aj_playback_position := timestamp\<rparr>))"

definition set_playback_position :: "ap2_jitter \<Rightarrow> u32 \<Rightarrow> ap2_jitter" where
  "set_playback_position b timestamp =
     b\<lparr>aj_playback_position := timestamp, aj_current_frame := None, aj_current_frame_offset := 0\<rparr>"

section \<open>Invariant\<close>

definition offset_ok :: "ap2_jitter \<Rightarrow> bool" where
  "offset_ok b \<longleftrightarrow> aj_current_frame_offset b \<le> (case aj_current_frame b of None \<Rightarrow> 0 | Some f \<Rightarrow> length (af_samples f))"

text \<open>Frames are sorted by timestamp, the offset is inside the current frame, and the format is not degenerate.\<close>

definition aj_ok :: "ap2_jitter \<Rightarrow> bool" where
  "aj_ok b \<longleftrightarrow> offset_ok b \<and> sorted_wrt (<) (map af_timestamp (aj_frames b)) \<and> ajc_channels (aj_config b) \<noteq> 0
     \<and> ajc_sample_rate (aj_config b) \<noteq> 0"

lemma channels_pos: "aj_ok b \<Longrightarrow> 0 < aj_channels b"
  by (simp add: aj_ok_def aj_channels_def unat_gt_0)

lemma aj_ok_cong:
  "aj_frames b' = aj_frames b \<Longrightarrow> aj_config b' = aj_config b \<Longrightarrow> aj_current_frame b' = aj_current_frame b
   \<Longrightarrow> aj_current_frame_offset b' = aj_current_frame_offset b \<Longrightarrow> aj_ok b' = aj_ok b"
  by (simp add: aj_ok_def offset_ok_def)

lemma set_depth_simps [simp]:
  "aj_frames (set_depth b d) = aj_frames b" "aj_config (set_depth b d) = aj_config b"
  "aj_current_frame (set_depth b d) = aj_current_frame b" "aj_current_frame_offset (set_depth b d) = aj_current_frame_offset b"
  "aj_playback_position (set_depth b d) = aj_playback_position b" "aj_state (set_depth b d) = aj_state b"
  "aj_started (set_depth b d) = aj_started b"
  by (simp_all add: set_depth_def)

lemma aj_ok_set_depth [simp]: "aj_ok (set_depth b d) = aj_ok b"
  by (rule aj_ok_cong) simp_all

lemma update_depth_ok:
  assumes "aj_ok b"
  obtains d where "update_depth b = Some (set_depth b d)"
  using channels_pos [OF assms] assms that
  by (fastforce simp: update_depth_def aj_ok_def Let_def split: option.splits list.splits if_splits)

lemma sorted_frame_insert:
  "sorted_wrt (<) (map af_timestamp fs) \<Longrightarrow> sorted_wrt (<) (map af_timestamp (frame_insert f fs))"
proof (induction fs)
  case (Cons g gs)
  have "set (map af_timestamp (frame_insert f gs)) \<subseteq> insert (af_timestamp f) (set (map af_timestamp gs))"
    by (induction gs) auto
  with Cons show ?case by (auto simp: not_less_iff_gr_or_eq)
qed simp

lemma drop_to_target_ok: "aj_ok b \<Longrightarrow> \<exists>b'. drop_to_target b = Some b' \<and> aj_ok b'"
proof (induction b rule: drop_to_target.induct)
  case (1 b)
  show ?case
  proof (cases "abs_current_depth_ms (aj_stats b) > ajc_target_depth_ms (aj_config b) \<and> aj_frames b \<noteq> []")
    case True
    then obtain f fs where fs: "aj_frames b = f # fs" by (cases "aj_frames b") auto
    let ?b1 = "b\<lparr>aj_frames := fs, aj_stats := (aj_stats b)\<lparr>abs_frames_dropped := abs_frames_dropped (aj_stats b) + 1\<rparr>\<rparr>"
    have "aj_ok ?b1" using "1.prems" fs by (simp add: aj_ok_def offset_ok_def)
    then obtain d where d: "update_depth ?b1 = Some (set_depth ?b1 d)" by (rule update_depth_ok)
    have "\<exists>b'. drop_to_target (set_depth ?b1 d) = Some b' \<and> aj_ok b'"
      using "1.IH" [OF conjunct1 [OF True] fs] d \<open>aj_ok ?b1\<close> by simp
    then show ?thesis using True fs d by (subst drop_to_target.simps) simp
  next
    case False
    then show ?thesis using "1.prems" by (subst drop_to_target.simps) (auto split: list.split)
  qed
qed

lemma ap2_push_ok:
  assumes "aj_ok b"
  shows "\<exists>b'. ap2_push b f = Some b' \<and> aj_ok b'"
proof -
  define b1 where "b1 = b\<lparr>aj_stats := (aj_stats b)\<lparr>abs_frames_received := abs_frames_received (aj_stats b) + 1,
      abs_frames_lost := abs_frames_lost (aj_stats b) + count_lost b (af_sequence f)\<rparr>,
    aj_last_sequence := Some (af_sequence f), aj_frames := frame_insert f (aj_frames b)\<rparr>"
  have ok1: "aj_ok b1" using assms sorted_frame_insert by (simp add: b1_def aj_ok_def offset_ok_def)
  then obtain d where d: "update_depth b1 = Some (set_depth b1 d)" by (rule update_depth_ok)
  have start: "aj_ok (start_playing c) = aj_ok c" for c by (rule aj_ok_cong) (simp_all add: start_playing_def)
  have "\<exists>b'. handle_overflow (set_depth b1 d) = Some b' \<and> aj_ok b'"
  proof -
    let ?b2 = "(set_depth b1 d)\<lparr>aj_stats := (aj_stats (set_depth b1 d))\<lparr>abs_overflows := abs_overflows (aj_stats (set_depth b1 d)) + 1\<rparr>\<rparr>"
    have "aj_ok ?b2" using ok1 by (simp add: aj_ok_def offset_ok_def)
    from drop_to_target_ok [OF this] show ?thesis by (auto simp: handle_overflow_def aj_ok_def offset_ok_def)
  qed
  then show ?thesis unfolding ap2_push_def Let_def b1_def [symmetric] using d ok1 start by auto
qed

lemma advance_frame_ok:
  "aj_ok b \<Longrightarrow> aj_current_frame b = Some f \<Longrightarrow> aj_ok (advance_frame b f taken)"
  by (auto simp: aj_ok_def offset_ok_def advance_frame_def)

lemma load_frame_ok: "aj_ok b \<Longrightarrow> aj_ok (load_frame b now)"
  by (auto simp: aj_ok_def offset_ok_def load_frame_def frame_remove_def sorted_wrt_filter sorted_wrt_map split: option.splits)

lemma pull_loop_ok: "aj_ok b \<Longrightarrow> \<exists>b' out. pull_loop now b n = Some (b', out) \<and> aj_ok b' \<and> length out = n"
proof (induction now b n rule: pull_loop.induct)
  case (1 now b n)
  show ?case
  proof (cases "n = 0")
    case True
    then show ?thesis using "1.prems" by (simp add: pull_loop.simps)
  next
    case n: False
    have ch: "aj_channels b \<noteq> 0" using channels_pos [OF "1.prems"] by simp
    show ?thesis
    proof (cases "aj_current_frame b")
      case None
      then show ?thesis using "1.IH"(1) [OF _ None] load_frame_ok [OF "1.prems"] n ch by (subst pull_loop.simps) simp
    next
      case (Some f)
      let ?a = "length (af_samples f) - aj_current_frame_offset b"
      have o: "\<not> length (af_samples f) < aj_current_frame_offset b" using "1.prems" Some by (simp add: aj_ok_def offset_ok_def)
      have "\<exists>b' out. pull_loop now (advance_frame b f (min ?a n)) (n - min ?a n) = Some (b', out) \<and> aj_ok b'
          \<and> length out = n - min ?a n"
        using "1.IH"(2) [OF _ Some o refl refl] advance_frame_ok [OF "1.prems" Some] n ch by simp
      then show ?thesis using Some o n ch by (subst pull_loop.simps) (auto simp: Let_def)
    qed
  qed
qed

lemma ap2_pull_ok:
  assumes "aj_ok b"
  shows "\<exists>b' out. ap2_pull now b k = Some (b', out) \<and> aj_ok b' \<and> length out = k * aj_channels b"
proof (cases "aj_state b = Ap2_Buffering")
  case True
  then show ?thesis using assms by (simp add: ap2_pull_def)
next
  case False
  obtain b1 out where p: "pull_loop now b (k * aj_channels b) = Some (b1, out)" "aj_ok b1" "length out = k * aj_channels b"
    using pull_loop_ok [OF assms] by blast
  have "aj_ok (note_underrun b1) = aj_ok b1" by (rule aj_ok_cong) (simp_all add: note_underrun_def)
  then obtain d where "update_depth (note_underrun b1) = Some (set_depth (note_underrun b1) d)" "aj_ok (note_underrun b1)"
    using update_depth_ok p(2) by metis
  then show ?thesis using False p by (simp add: ap2_pull_def)
qed

section \<open>Pulling in pieces\<close>

lemma load_frame_channels [simp]: "aj_channels (load_frame b now) = aj_channels b"
  by (simp add: load_frame_def aj_channels_def split: option.split)

lemma advance_frame_channels [simp]: "aj_channels (advance_frame b f k) = aj_channels b"
  by (simp add: advance_frame_def aj_channels_def)

definition pull_then :: "(ap2_jitter \<times> u16 list) option \<Rightarrow> nat \<Rightarrow> nat \<Rightarrow> (ap2_jitter \<times> u16 list) option" where
  "pull_then r now n = Option.bind r (\<lambda>(b, out). map_option (\<lambda>(b', out'). (b', out @ out')) (pull_loop now b n))"

lemma pull_then_prefix:
  "pull_then (map_option (\<lambda>(b, out). (b, pre @ out)) r) now n = map_option (\<lambda>(b, out). (b, pre @ out)) (pull_then r now n)"
  by (cases r) (auto simp: pull_then_def option.map_comp comp_def split: prod.splits intro!: option.map_cong)

lemma pull_loop_add:
  assumes "aj_channels b \<noteq> 0"
  shows "pull_loop now b (m + n) = pull_then (pull_loop now b m) now n"
  using assms
proof (induction now b m rule: pull_loop.induct)
  case (1 now b m)
  show ?case
  proof (cases "m = 0 \<or> n = 0")
    case True
    then show ?thesis using "1.prems" by (auto simp: pull_then_def pull_loop.simps [of now _ 0] option.map_ident option.map_id split: prod.splits)
  next
    case mn: False
    show ?thesis
    proof (cases "aj_current_frame b")
      case None
      then show ?thesis
        using "1.IH"(1) [OF _ None] "1.prems" mn by (simp add: pull_loop.simps [of now b])
    next
      case (Some f)
      let ?o = "aj_current_frame_offset b" and ?l = "length (af_samples f)"
      show ?thesis
      proof (cases "?l < ?o")
        case True
        then show ?thesis using Some mn "1.prems" by (simp add: pull_loop.simps [of now b] pull_then_def)
      next
        case o: False
        show ?thesis
        proof (cases "?l - ?o \<le> m")
          case True
          then have "min (?l - ?o) m = ?l - ?o" "min (?l - ?o) (m + n) = ?l - ?o" "m + n - (?l - ?o) = m - (?l - ?o) + n"
            by simp_all
          then show ?thesis using "1.IH"(2) [OF _ Some o refl refl] "1.prems" mn Some o
            by (simp add: pull_loop.simps [of now b] pull_then_prefix)
        next
          case False
          let ?b1 = "advance_frame b f m"
          have nl: "\<not> ?l < m + ?o" using False by simp
          have b1: "?b1 = b\<lparr>aj_current_frame_offset := ?o + m\<rparr>" "advance_frame ?b1 f (min (?l - ?o - m) n) = advance_frame b f (min (?l - ?o) (m + n))"
            using False by (auto simp: advance_frame_def min_def aj_channels_def)
          have "min (?l - ?o) m = m" "min (?l - ?o) (m + n) = m + min (?l - ?o - m) n" "m + n - (m + min (?l - ?o - m) n) = n - min (?l - ?o - m) n"
            using False by auto
          moreover have "take (m + k) xs = take m xs @ take k (drop m xs)" for k and xs :: "u16 list" by (rule take_add)
          moreover have "pull_loop now ?b1 0 = Some (?b1, [])" by (simp add: pull_loop.simps)
          moreover have "pull_loop now ?b1 n = map_option (\<lambda>(b', out). (b', take (min (?l - ?o - m) n) (drop m (drop ?o (af_samples f))) @ out))
              (pull_loop now (advance_frame b f (min (?l - ?o) (m + n))) (n - min (?l - ?o - m) n))"
            using nl mn Some "1.prems" b1(2) unfolding pull_loop.simps [of now ?b1 n]
            by (simp add: b1(1) aj_channels_def add.commute diff_diff_add Let_def)
          ultimately show ?thesis using Some o mn "1.prems"
            by (auto simp: pull_loop.simps [of now b] pull_then_def option.map_comp comp_def split: prod.splits intro!: option.map_cong)
        qed
      qed
    qed
  qed
qed

lemma pull_loop_frameE:
  assumes "pull_loop now b n = Some (b', out)" and "\<not> (n = 0 \<or> aj_channels b = 0)" and "aj_current_frame b = Some f"
  defines "taken \<equiv> min (length (af_samples f) - aj_current_frame_offset b) n"
  obtains out' where "\<not> length (af_samples f) < aj_current_frame_offset b"
    and "pull_loop now (advance_frame b f taken) (n - taken) = Some (b', out')"
    and "out = take taken (drop (aj_current_frame_offset b) (af_samples f)) @ out'"
  using assms(1-3) unfolding taken_def pull_loop.simps [of now b n] by (auto simp: Let_def split: if_splits)

lemma pull_loop_keeps:
  "pull_loop now b n = Some (b', out) \<Longrightarrow> aj_state b' = aj_state b \<and> aj_config b' = aj_config b"
proof (induction now b n arbitrary: b' out rule: pull_loop.induct)
  case (1 now b n)
  have l: "aj_state (load_frame b now) = aj_state b" "aj_config (load_frame b now) = aj_config b"
    by (simp_all add: load_frame_def split: option.split)
  have a: "aj_state (advance_frame b f k) = aj_state b" "aj_config (advance_frame b f k) = aj_config b" for f k
    by (simp_all add: advance_frame_def)
  show ?case
  proof (cases "n = 0 \<or> aj_channels b = 0")
    case True
    then show ?thesis using "1.prems" by (auto simp: pull_loop.simps)
  next
    case False
    show ?thesis
    proof (cases "aj_current_frame b")
      case None
      then show ?thesis using "1.IH"(1) [OF False None, of b' out] "1.prems" False l by (simp add: pull_loop.simps [of now b])
    next
      case (Some f)
      from pull_loop_frameE [OF "1.prems" False Some] show ?thesis
        using "1.IH"(2) [OF False Some _ refl refl] a by metis
    qed
  qed
qed

text \<open>The loop reads neither the state nor the statistics.\<close>

definition same_playback :: "ap2_jitter \<Rightarrow> ap2_jitter \<Rightarrow> bool" where
  "same_playback b c \<longleftrightarrow> aj_frames c = aj_frames b \<and> aj_config c = aj_config b \<and> aj_playback_position c = aj_playback_position b
     \<and> aj_current_frame c = aj_current_frame b \<and> aj_current_frame_offset c = aj_current_frame_offset b"

lemma same_playback_load: "same_playback b c \<Longrightarrow> same_playback (load_frame b now) (load_frame c now)"
  by (auto simp: same_playback_def load_frame_def silence_frame_def aj_channels_def split: option.split)

lemma same_playback_advance: "same_playback b c \<Longrightarrow> same_playback (advance_frame b f k) (advance_frame c f k)"
  by (auto simp: same_playback_def advance_frame_def aj_channels_def)

lemma pull_loop_playback:
  "pull_loop now b n = Some (b', out) \<Longrightarrow> same_playback b c \<Longrightarrow> \<exists>c'. pull_loop now c n = Some (c', out)"
proof (induction now b n arbitrary: b' out c rule: pull_loop.induct)
  case (1 now b n)
  have c: "aj_channels c = aj_channels b" "aj_current_frame c = aj_current_frame b" "aj_current_frame_offset c = aj_current_frame_offset b"
    using "1.prems"(2) by (simp_all add: same_playback_def aj_channels_def)
  show ?case
  proof (cases "n = 0 \<or> aj_channels b = 0")
    case True
    then show ?thesis using "1.prems" c by (auto simp: pull_loop.simps)
  next
    case False
    show ?thesis
    proof (cases "aj_current_frame b")
      case None
      then show ?thesis
        using "1.IH"(1) [OF False None _ same_playback_load [OF "1.prems"(2)], of b' out] "1.prems"(1) False c
        by (simp add: pull_loop.simps [of now b] pull_loop.simps [of now c])
    next
      case (Some f)
      let ?t = "min (length (af_samples f) - aj_current_frame_offset b) n"
      obtain out' where o: "\<not> length (af_samples f) < aj_current_frame_offset b"
        and p: "pull_loop now (advance_frame b f ?t) (n - ?t) = Some (b', out')"
        and out: "out = take ?t (drop (aj_current_frame_offset b) (af_samples f)) @ out'"
        by (rule pull_loop_frameE [OF "1.prems"(1) False Some])
      obtain c' where "pull_loop now (advance_frame c f ?t) (n - ?t) = Some (c', out')"
        using "1.IH"(2) [OF False Some o refl refl p same_playback_advance [OF "1.prems"(2)]] by blast
      then show ?thesis using False Some o c out by (simp add: pull_loop.simps [of now c])
    qed
  qed
qed

section \<open>Playing a contiguous stretch\<close>

text \<open>Frames that follow each other without a hole from a position on.\<close>

fun contiguous :: "nat \<Rightarrow> u32 \<Rightarrow> audio_frame list \<Rightarrow> bool" where
  "contiguous channels pos [] \<longleftrightarrow> True"
| "contiguous channels pos (f # fs) \<longleftrightarrow> af_timestamp f = pos \<and> contiguous channels (pos + frame_duration channels f) fs"

lemma frame_at_remove: "ts \<noteq> ts' \<Longrightarrow> frame_at ts (frame_remove ts' fs) = frame_at ts fs"
  by (induction fs) (auto simp: frame_at_def frame_remove_def)

lemma pull_contiguous:
  assumes "contiguous (aj_channels b) (aj_playback_position b) fs" and "distinct (map af_timestamp fs)"
    and "\<forall>f\<in>set fs. frame_at (af_timestamp f) (aj_frames b) = Some f \<and> af_samples f \<noteq> []"
    and "aj_current_frame b = None" and "aj_channels b \<noteq> 0"
  shows "\<exists>b'. pull_loop now b (length (concat (map af_samples fs))) = Some (b', concat (map af_samples fs))
    \<and> abs_frames_lost (aj_stats b') = abs_frames_lost (aj_stats b)"
  using assms
proof (induction fs arbitrary: b)
  case Nil
  then show ?case by (simp add: pull_loop.simps)
next
  case (Cons f fs)
  let ?n = "length (concat (map af_samples fs))"
  define b1 where "b1 = b\<lparr>aj_frames := frame_remove (aj_playback_position b) (aj_frames b), aj_current_frame := Some f, aj_current_frame_offset := 0\<rparr>"
  define b2 where "b2 = advance_frame b1 f (length (af_samples f))"
  have f: "frame_at (aj_playback_position b) (aj_frames b) = Some f" "af_samples f \<noteq> []" using Cons.prems(1,3) by auto
  have b2: "aj_channels b2 = aj_channels b" "aj_playback_position b2 = aj_playback_position b + frame_duration (aj_channels b) f"
    "aj_current_frame b2 = None" "aj_frames b2 = frame_remove (aj_playback_position b) (aj_frames b)"
    "abs_frames_lost (aj_stats b2) = abs_frames_lost (aj_stats b)"
    by (simp_all add: b2_def b1_def advance_frame_def aj_channels_def)
  have "\<forall>g\<in>set fs. frame_at (af_timestamp g) (aj_frames b2) = Some g \<and> af_samples g \<noteq> []"
    using Cons.prems(1-3) unfolding b2 by (auto simp: frame_at_remove [of "af_timestamp _"] image_iff)
  then obtain b' where b': "pull_loop now b2 ?n = Some (b', concat (map af_samples fs))"
      "abs_frames_lost (aj_stats b') = abs_frames_lost (aj_stats b)"
    using Cons.IH [of b2] Cons.prems b2 by auto
  have "pull_loop now b (length (af_samples f) + ?n) = pull_loop now b1 (length (af_samples f) + ?n)"
    using Cons.prems(4,5) f by (subst pull_loop.simps) (simp add: load_frame_def b1_def)
  also have "\<dots> = Some (b', af_samples f @ concat (map af_samples fs))"
    using Cons.prems(5) f(2) b'(1) b2_def
    by (subst pull_loop.simps) (simp add: b1_def aj_channels_def advance_frame_def)
  finally show ?case using b'(2) by simp
qed

section \<open>A buffer that was never positioned\<close>

text \<open>Positions that are reached from 0 in steps of 352 are multiples of 32, also after a wrap-around.\<close>

definition unpositioned :: "ap2_jitter \<Rightarrow> bool" where
  "unpositioned b \<longleftrightarrow> 32 dvd unat (aj_playback_position b) \<and> (\<forall>f\<in>set (aj_frames b). \<not> 32 dvd unat (af_timestamp f))
     \<and> (\<forall>f. aj_current_frame b = Some f \<longrightarrow> af_samples f = replicate (352 * aj_channels b) 0)"

lemma frame_at_unpositioned: "unpositioned b \<Longrightarrow> frame_at (aj_playback_position b) (aj_frames b) = None"
  by (auto simp: unpositioned_def frame_at_def find_None_iff)

lemma step_352: "32 dvd unat (p :: u32) \<Longrightarrow> 32 dvd unat (p + 352)"
proof -
  assume "32 dvd unat p"
  then have "32 dvd (unat p + 352)" by simp
  moreover have "unat (p + 352) = (unat p + 352) mod 2 ^ 32" by (simp add: unat_word_ariths)
  ultimately show ?thesis by (simp add: dvd_mod)
qed

lemma unpositioned_silence:
  "unpositioned b \<Longrightarrow> aj_channels b \<noteq> 0 \<Longrightarrow> offset_ok b \<Longrightarrow>
   \<exists>b'. pull_loop now b n = Some (b', replicate n 0) \<and> unpositioned b' \<and> aj_frames b' = aj_frames b"
proof (induction now b n rule: pull_loop.induct)
  case (1 now b n)
  show ?case
  proof (cases "n = 0")
    case True
    then show ?thesis using "1.prems" by (simp add: pull_loop.simps)
  next
    case n: False
    show ?thesis
    proof (cases "aj_current_frame b")
      case None
      let ?b1 = "load_frame b now"
      have "unpositioned ?b1" "offset_ok ?b1" "aj_frames ?b1 = aj_frames b"
        using "1.prems"(1) frame_at_unpositioned [OF "1.prems"(1)]
        by (simp_all add: load_frame_def unpositioned_def silence_frame_def offset_ok_def aj_channels_def)
      then show ?thesis using "1.IH"(1) [OF _ None] n None "1.prems"(2) by (simp add: pull_loop.simps [of now b])
    next
      case (Some f)
      let ?t = "min (length (af_samples f) - aj_current_frame_offset b) n"
      let ?b1 = "advance_frame b f ?t"
      have z: "af_samples f = replicate (352 * aj_channels b) 0" using "1.prems"(1) Some by (simp add: unpositioned_def)
      have o: "\<not> length (af_samples f) < aj_current_frame_offset b" using "1.prems"(3) Some by (simp add: offset_ok_def)
      have "frame_duration (aj_channels b) f = 352" using z "1.prems"(2) by (simp add: frame_duration_def)
      then have "unpositioned ?b1" "offset_ok ?b1" "aj_frames ?b1 = aj_frames b"
        using "1.prems" Some by (auto simp: advance_frame_def unpositioned_def offset_ok_def aj_channels_def step_352)
      then obtain b' where "pull_loop now ?b1 (n - ?t) = Some (b', replicate (n - ?t) 0)" "unpositioned b'" "aj_frames b' = aj_frames b"
        using "1.IH"(2) [OF _ Some o refl refl] n "1.prems"(2) by auto
      moreover have "take ?t (drop (aj_current_frame_offset b) (af_samples f)) = replicate ?t 0" by (simp add: z)
      moreover have "replicate ?t (0 :: u16) @ replicate (n - ?t) 0 = replicate n 0" by (simp flip: replicate_add)
      ultimately show ?thesis using Some o n "1.prems"(2) by (simp add: pull_loop.simps [of now b])
    qed
  qed
qed

section \<open>Runs\<close>

datatype ap2_jitter_op =
    Op_Push audio_frame
  | Op_Pull nat nat
  | Op_Flush
  | Op_FlushTo u32
  | Op_Position u32

fun ap2_jitter_step :: "ap2_jitter \<Rightarrow> ap2_jitter_op \<Rightarrow> (ap2_jitter \<times> u16 list) option" where
  "ap2_jitter_step b (Op_Push f) = map_option (\<lambda>b'. (b', [])) (ap2_push b f)"
| "ap2_jitter_step b (Op_Pull now k) = ap2_pull now b k"
| "ap2_jitter_step b Op_Flush = map_option (\<lambda>b'. (b', [])) (ap2_flush b)"
| "ap2_jitter_step b (Op_FlushTo ts) = map_option (\<lambda>b'. (b', [])) (ap2_flush_to b ts)"
| "ap2_jitter_step b (Op_Position ts) = Some (set_playback_position b ts, [])"

lemma update_depth_aj_ok: "aj_ok b \<Longrightarrow> \<exists>b'. update_depth b = Some b' \<and> aj_ok b'"
  by (metis update_depth_ok aj_ok_set_depth)

lemma ap2_jitter_step_ok:
  assumes "aj_ok b"
  shows "\<exists>b' out. ap2_jitter_step b op = Some (b', out) \<and> aj_ok b'"
proof (cases op)
  case (Op_FlushTo ts)
  let ?b1 = "b\<lparr>aj_frames := filter (\<lambda>f. af_timestamp f \<ge> ts) (aj_frames b)\<rparr>"
  let ?b2 = "case aj_current_frame ?b1 of Some f \<Rightarrow>
      if af_timestamp f < ts then ?b1\<lparr>aj_current_frame := None, aj_current_frame_offset := 0\<rparr> else ?b1 | None \<Rightarrow> ?b1"
  have "aj_ok (?b2\<lparr>aj_playback_position := ts\<rparr>)"
    using assms by (auto simp: aj_ok_def offset_ok_def sorted_wrt_map sorted_wrt_filter split: option.split)
  from update_depth_aj_ok [OF this] show ?thesis by (auto simp: Op_FlushTo ap2_flush_to_def Let_def)
next
  case Op_Flush
  have "aj_ok (b\<lparr>aj_frames := [], aj_current_frame := None, aj_current_frame_offset := 0, aj_state := Ap2_Buffering,
       aj_started := False\<rparr>)" using assms by (simp add: aj_ok_def offset_ok_def)
  from update_depth_aj_ok [OF this] show ?thesis by (auto simp: Op_Flush ap2_flush_def)
next
  case (Op_Position ts)
  then show ?thesis using assms by (simp add: set_playback_position_def aj_ok_def offset_ok_def)
qed (use assms ap2_push_ok [of b] ap2_pull_ok [of b] in \<open>fastforce+\<close>)

primrec ap2_jitter_run :: "ap2_jitter \<Rightarrow> ap2_jitter_op list \<Rightarrow> ap2_jitter option" where
  "ap2_jitter_run b [] = Some b"
| "ap2_jitter_run b (op # ops) = Option.bind (ap2_jitter_step b op) (\<lambda>(b', _). ap2_jitter_run b' ops)"

lemma ap2_jitter_run_ok: "aj_ok b \<Longrightarrow> \<exists>b'. ap2_jitter_run b ops = Some b' \<and> aj_ok b'"
proof (induction ops arbitrary: b)
  case (Cons op ops)
  from ap2_jitter_step_ok [OF Cons.prems, of op] obtain b1 out where "ap2_jitter_step b op = Some (b1, out)" "aj_ok b1" by blast
  then show ?case using Cons.IH by auto
qed simp

section \<open>Properties\<close>

text \<open>
  The buffer always answers. With at least one channel and a positive sample rate, no sequence
  of operations on a new buffer panics or runs forever, and afterwards a request for any
  number of samples returns exactly that many for every channel.
\<close>

theorem ap2_jitter_total:
  assumes "ajc_channels cfg \<noteq> 0" and "ajc_sample_rate cfg \<noteq> 0"
  shows "\<exists>b b' out. ap2_jitter_run (ap2_jitter_new cfg) ops = Some b \<and> aj_ok b
    \<and> ap2_pull now b k = Some (b', out) \<and> aj_ok b' \<and> length out = k * aj_channels b"
proof -
  have "aj_ok (ap2_jitter_new cfg)" using assms by (simp add: ap2_jitter_new_def aj_ok_def offset_ok_def)
  from ap2_jitter_run_ok [OF this] obtain b where "ap2_jitter_run (ap2_jitter_new cfg) ops = Some b" "aj_ok b" by blast
  with ap2_pull_ok [of b now k] show ?thesis by blast
qed

theorem ap2_jitter_total_witness:
  "\<exists>b b' out. ap2_jitter_run (ap2_jitter_new ap2_jitter_config_default)
       [Op_Push \<lparr>af_sequence = 1, af_timestamp = 0, af_samples = [7, 8], af_receive_time = 0\<rparr>, Op_Flush] = Some b
   \<and> aj_ok b \<and> ap2_pull 0 b 3 = Some (b', out) \<and> aj_ok b' \<and> length out = 3 * aj_channels b"
  by (rule ap2_jitter_total) (simp_all add: ap2_jitter_config_default_def)

text \<open>
  What is played does not depend on the sizes of the requests: two requests in a row return
  together the samples that one request for the sum would have returned.
\<close>

theorem ap2_pull_in_pieces:
  assumes "aj_ok b" and "aj_state b \<noteq> Ap2_Buffering" and "ap2_pull now b m = Some (b1, out1)"
    and "ap2_pull now b1 n = Some (b2, out2)"
  shows "\<exists>b3. ap2_pull now b (m + n) = Some (b3, out1 @ out2)"
proof -
  have ch: "aj_channels b \<noteq> 0" using channels_pos [OF assms(1)] by simp
  obtain c1 where c1: "pull_loop now b (m * aj_channels b) = Some (c1, out1)" and d1: "update_depth (note_underrun c1) = Some b1"
    using assms(2,3) by (auto simp: ap2_pull_def split: bind_splits)
  have ok: "aj_ok c1" using pull_loop_ok [OF assms(1), of now "m * aj_channels b"] c1 by auto
  obtain d where d: "b1 = set_depth (note_underrun c1) d" using update_depth_SomeD [OF d1] by blast
  have state: "aj_state c1 \<noteq> Ap2_Buffering" "aj_config c1 = aj_config b" using pull_loop_keeps [OF c1] assms(2) by simp_all
  then have "aj_state b1 \<noteq> Ap2_Buffering" "aj_channels b1 = aj_channels b"
    by (simp_all add: d note_underrun_def aj_channels_def)
  then obtain c2 where c2: "pull_loop now b1 (n * aj_channels b) = Some (c2, out2)"
    using assms(4) by (auto simp: ap2_pull_def split: bind_splits)
  obtain c3 where c3: "pull_loop now c1 (n * aj_channels b) = Some (c3, out2)"
    using pull_loop_playback [OF c2, of c1] by (cases "aj_frames c1 = [] \<and> aj_started c1") (auto simp: d note_underrun_def same_playback_def)
  have "pull_loop now b ((m + n) * aj_channels b) = Some (c3, out1 @ out2)"
    using pull_loop_add [OF ch, of now "m * aj_channels b" "n * aj_channels b"] c1 c3 by (simp add: pull_then_def add_mult_distrib)
  moreover have "aj_ok (note_underrun c3)"
    using pull_loop_ok [OF ok, of now "n * aj_channels b"] c3 by (auto simp: note_underrun_def aj_ok_def offset_ok_def)
  ultimately show ?thesis using assms(2) update_depth_aj_ok by (fastforce simp: ap2_pull_def)
qed

definition demo_frame :: "u32 \<Rightarrow> u16 list \<Rightarrow> audio_frame" where
  "demo_frame ts samples = \<lparr>af_sequence = 0, af_timestamp = ts, af_samples = samples, af_receive_time = 0\<rparr>"

definition demo_jitter :: "audio_frame list \<Rightarrow> ap2_jitter" where
  "demo_jitter fs = (ap2_jitter_new ap2_jitter_config_default)\<lparr>aj_frames := fs, aj_state := Ap2_Playing, aj_started := True\<rparr>"

lemma demo_jitter_ok: "sorted_wrt (<) (map af_timestamp fs) \<Longrightarrow> aj_ok (demo_jitter fs)" "aj_channels (demo_jitter fs) = 2"
  by (simp_all add: demo_jitter_def ap2_jitter_new_def ap2_jitter_config_default_def aj_ok_def offset_ok_def aj_channels_def)

theorem ap2_pull_in_pieces_witness:
  "\<exists>b1 b2 b3 out1 out2. ap2_pull 0 (demo_jitter [demo_frame 0 [1, 2, 3, 4]]) 1 = Some (b1, out1) \<and> ap2_pull 0 b1 2 = Some (b2, out2)
   \<and> ap2_pull 0 (demo_jitter [demo_frame 0 [1, 2, 3, 4]]) (1 + 2) = Some (b3, out1 @ out2)"
proof -
  let ?b = "demo_jitter [demo_frame 0 [1, 2, 3, 4]]"
  have ok: "aj_ok ?b" by (simp add: demo_jitter_ok)
  then obtain b1 out1 where p: "ap2_pull 0 ?b 1 = Some (b1, out1)" "aj_ok b1" using ap2_pull_ok by blast
  then obtain b2 out2 where q: "ap2_pull 0 b1 2 = Some (b2, out2)" using ap2_pull_ok by blast
  have "aj_state ?b \<noteq> Ap2_Buffering" by (simp add: demo_jitter_def)
  from ap2_pull_in_pieces [OF ok this p(1) q] p(1) q show ?thesis by blast
qed

text \<open>
  A buffered stretch is played as it was received: when frames follow each other without a
  hole from the playback position on, a request for their total length returns the
  concatenation of their samples, and no frame is counted as lost.
\<close>

theorem ap2_pull_plays_stretch:
  assumes "aj_ok b" and "aj_state b \<noteq> Ap2_Buffering" and "aj_current_frame b = None"
    and "contiguous (aj_channels b) (aj_playback_position b) fs" and "distinct (map af_timestamp fs)"
    and "\<forall>f\<in>set fs. frame_at (af_timestamp f) (aj_frames b) = Some f \<and> af_samples f \<noteq> []"
    and "k * aj_channels b = length (concat (map af_samples fs))"
  shows "\<exists>b'. ap2_pull now b k = Some (b', concat (map af_samples fs))
    \<and> abs_frames_lost (aj_stats b') = abs_frames_lost (aj_stats b)"
proof -
  have ch: "aj_channels b \<noteq> 0" using channels_pos [OF assms(1)] by simp
  obtain b1 where b1: "pull_loop now b (k * aj_channels b) = Some (b1, concat (map af_samples fs))"
      "abs_frames_lost (aj_stats b1) = abs_frames_lost (aj_stats b)"
    using pull_contiguous [OF assms(4-6,3) ch, of now] unfolding assms(7) by blast
  have "aj_ok b1" using pull_loop_ok [OF assms(1), of now "k * aj_channels b"] b1(1) by auto
  then have "aj_ok (note_underrun b1)" by (simp add: note_underrun_def aj_ok_def offset_ok_def)
  then obtain d where "update_depth (note_underrun b1) = Some (set_depth (note_underrun b1) d)" by (rule update_depth_ok)
  then show ?thesis using assms(2) b1 by (auto simp: ap2_pull_def set_depth_def note_underrun_def)
qed

theorem ap2_pull_plays_stretch_witness:
  "\<exists>b'. ap2_pull 0 (demo_jitter [demo_frame 0 [1, 2], demo_frame 1 [3, 4, 5, 6]]) 3 = Some (b', [1, 2, 3, 4, 5, 6])"
proof -
  let ?fs = "[demo_frame 0 [1, 2], demo_frame 1 [3, 4, 5, 6]]"
  have ok: "aj_ok (demo_jitter ?fs)" by (intro demo_jitter_ok) (simp add: demo_frame_def)
  have "\<exists>b'. ap2_pull 0 (demo_jitter ?fs) 3 = Some (b', concat (map af_samples ?fs))
      \<and> abs_frames_lost (aj_stats b') = abs_frames_lost (aj_stats (demo_jitter ?fs))"
    by (rule ap2_pull_plays_stretch [OF ok])
      (simp_all add: demo_jitter_ok(2), simp_all add: demo_jitter_def ap2_jitter_new_def demo_frame_def frame_duration_def frame_at_def)
  then show ?thesis by (auto simp: demo_frame_def)
qed

text \<open>
  A buffer that is not positioned plays silence. A new buffer starts at position 0 and nothing
  but \<open>set_playback_position\<close> or \<open>flush_to\<close> moves it to the stream: while it holds only frames
  whose timestamps are not multiples of 32, every request is answered with silence, however
  much audio is buffered, and no frame is taken.
\<close>

theorem ap2_unpositioned_plays_silence:
  assumes "aj_ok b" and "aj_state b \<noteq> Ap2_Buffering" and "aj_current_frame b = None" and "aj_playback_position b = 0"
    and "\<forall>f\<in>set (aj_frames b). \<not> 32 dvd unat (af_timestamp f)"
  shows "\<exists>b'. ap2_pull now b k = Some (b', replicate (k * aj_channels b) 0) \<and> aj_frames b' = aj_frames b"
proof -
  have ch: "aj_channels b \<noteq> 0" using channels_pos [OF assms(1)] by simp
  have "unpositioned b" "offset_ok b" using assms by (simp_all add: unpositioned_def aj_ok_def)
  from unpositioned_silence [OF this(1) ch this(2)] obtain b1
    where b1: "pull_loop now b (k * aj_channels b) = Some (b1, replicate (k * aj_channels b) 0)" "aj_frames b1 = aj_frames b" by blast
  have "aj_ok b1" using pull_loop_ok [OF assms(1), of now "k * aj_channels b"] b1(1) by auto
  then have "aj_ok (note_underrun b1)" by (simp add: note_underrun_def aj_ok_def offset_ok_def)
  then obtain d where "update_depth (note_underrun b1) = Some (set_depth (note_underrun b1) d)" by (rule update_depth_ok)
  then show ?thesis using assms(2) b1 by (auto simp: ap2_pull_def note_underrun_def)
qed

theorem ap2_unpositioned_plays_silence_witness:
  "\<exists>b'. ap2_pull 0 (demo_jitter [demo_frame 1000 [1, 2, 3, 4]]) 400 = Some (b', replicate (400 * 2) 0)
   \<and> aj_frames b' = [demo_frame 1000 [1, 2, 3, 4]]"
proof -
  let ?b = "demo_jitter [demo_frame 1000 [1, 2, 3, 4]]"
  have "aj_ok ?b" by (simp add: demo_jitter_ok)
  then have "\<exists>b'. ap2_pull 0 ?b 400 = Some (b', replicate (400 * aj_channels ?b) 0) \<and> aj_frames b' = aj_frames ?b"
    by (rule ap2_unpositioned_plays_silence) (simp_all add: demo_jitter_def ap2_jitter_new_def demo_frame_def)
  then show ?thesis unfolding demo_jitter_ok by (simp add: demo_jitter_def)
qed

end
