(* ===== verification/Rust_Split.thy ===== *)
theory Rust_Split
  imports Rust_Text
begin

text \<open>
  The string operations of the Rust standard library that the session and SDP parsers use
  besides those of \<open>Rust_Text\<close>: \<open>split\<close> and \<open>split_once\<close> at an ASCII character, \<open>strip_prefix\<close>,
  \<open>contains\<close>, \<open>join\<close>, and the hexadecimal format of identifiers.
\<close>

fun split_byte :: "u8 \<Rightarrow> str \<Rightarrow> str list" where
  "split_byte c [] = [[]]"
| "split_byte c (b # bs) =
     (if b = c then [] # split_byte c bs
      else (case split_byte c bs of [] \<Rightarrow> [[b]] | p # ps \<Rightarrow> (b # p) # ps))"

definition split_once :: "u8 \<Rightarrow> str \<Rightarrow> (str \<times> str) option" where
  "split_once c s = map_option (\<lambda>i. (take i s, drop (Suc i) s)) (find_sub [c] s)"

definition strip_prefix :: "str \<Rightarrow> str \<Rightarrow> str option" where
  "strip_prefix p s = (if take (length p) s = p then Some (drop (length p) s) else None)"

definition str_contains :: "str \<Rightarrow> str \<Rightarrow> bool" where
  "str_contains s needle \<longleftrightarrow> find_sub needle s \<noteq> None"

fun join_by :: "str \<Rightarrow> str list \<Rightarrow> str" where
  "join_by sep [] = []"
| "join_by sep [s] = s"
| "join_by sep (s # t # ss) = s @ sep @ join_by sep (t # ss)"

text \<open>\<open>format!("{:016X}")\<close> of a 64-bit value.\<close>

definition upper_hex :: "nat \<Rightarrow> u8" where
  "upper_hex n = ascii ''0123456789ABCDEF'' ! n"

definition hex16 :: "u64 \<Rightarrow> str" where
  "hex16 r = map (\<lambda>i. upper_hex (unat (drop_bit (4 * i) r AND 0xF))) (rev [0..<16])"

section \<open>Lemmas\<close>

lemma split_byte_not_Nil [simp]: "split_byte c s \<noteq> []"
  by (induction s) (auto split: list.splits)

lemma split_byte_plain: "c \<notin> set s \<Longrightarrow> split_byte c s = [s]"
  by (induction s) auto

lemma split_byte_front: "c \<notin> set s \<Longrightarrow> split_byte c (s @ c # t) = s # split_byte c t"
  by (induction s) auto

lemma hd_split_byte: "hd (split_byte c s) = takeWhile (\<lambda>b. b \<noteq> c) s"
  by (induction s) (auto split: list.splits)

lemma split_byte_join:
  "ss \<noteq> [] \<Longrightarrow> list_all (\<lambda>s. c \<notin> set s) ss \<Longrightarrow> split_byte c (join_by [c] ss) = ss"
  by (induction "[c]" ss rule: join_by.induct) (simp_all add: split_byte_plain split_byte_front)

lemma strip_prefix_append [simp]: "strip_prefix p (p @ s) = Some s"
  by (simp add: strip_prefix_def)

lemma split_once_front: "c \<notin> set k \<Longrightarrow> split_once c (k @ c # v) = Some (k, v)"
  by (induction k) (auto simp: split_once_def)

lemma split_once_None: "c \<notin> set k \<Longrightarrow> split_once c k = None"
  by (induction k) (auto simp: split_once_def)

lemma set_join_by: "set (join_by sep ss) \<subseteq> set sep \<union> (\<Union> (set ` set ss))"
  by (induction sep ss rule: join_by.induct) auto

lemma upper_hex_cases: "n < 16 \<Longrightarrow> upper_hex n \<in> set (ascii ''0123456789ABCDEF'')"
  unfolding upper_hex_def by (rule nth_mem) (simp add: ascii_def)

lemma upper_hex_graphic: "n < 16 \<Longrightarrow> 33 \<le> upper_hex n \<and> upper_hex n \<le> 126"
  using upper_hex_cases [of n] by (auto simp: ascii_def)

lemma hex_nibble: "unat (r AND (0xF :: u64)) < 16"
proof -
  have "r AND 0xF \<le> 0xF" by (rule word_and_le1)
  then show ?thesis by (simp add: word_le_nat_alt)
qed

lemma hex16_length [simp]: "length (hex16 r) = 16"
  by (simp add: hex16_def)

lemma hex16_graphic: "graphic (hex16 r)"
  using upper_hex_graphic [OF hex_nibble] by (auto simp: graphic_def hex16_def list_all_iff)

end
