(* ===== verification/Rtsp_Session.thy ===== *)
theory Rtsp_Session
  imports Rust_Split Rtsp_Codec Plist_Roundtrip
begin

text \<open>
  The client side of an RTSP session, \<open>src/protocol/rtsp/session.rs\<close>, with the plist body of
  \<open>request.rs\<close>, and the transport header of \<open>src/protocol/rtsp/transport.rs\<close>.

  The sequence counter is a 32-bit word; its overflow, like the failure to encode a plist
  body, is a panic and gives \<open>None\<close>. The random identifiers of a new session are arguments.
\<close>

section \<open>Requests of a session\<close>

definition TRANSPORT :: str where "TRANSPORT = ascii ''Transport''"
definition ACTIVE_REMOTE :: str where "ACTIVE_REMOTE = ascii ''Active-Remote''"
definition DACP_ID :: str where "DACP_ID = ascii ''DACP-ID''"
definition CLIENT_INSTANCE :: str where "CLIENT_INSTANCE = ascii ''Client-Instance''"
definition X_APPLE_DEVICE_ID :: str where "X_APPLE_DEVICE_ID = ascii ''X-Apple-Device-ID''"
definition X_APPLE_SESSION_ID :: str where "X_APPLE_SESSION_ID = ascii ''X-Apple-Session-ID''"
definition RTP_INFO :: str where "RTP_INFO = ascii ''RTP-Info''"

definition request_body_plist :: "rtsp_request \<Rightarrow> plist \<Rightarrow> rtsp_request option" where
  "request_body_plist r p =
     (case plist_encode p of
        Some (Inr body) \<Rightarrow>
          Some (request_header ((request_header r CONTENT_LENGTH (dec_string (length body)))\<lparr>rq_body := body\<rparr>)
                  CONTENT_TYPE (ascii ''application/x-apple-binary-plist''))
      | _ \<Rightarrow> None)"

datatype client_state = SS_Init | SS_Ready | SS_Setup | SS_Playing | SS_Paused | SS_Terminated

record rtsp_session =
  ses_state :: client_state
  ses_cseq :: u32
  ses_session_id :: "str option"
  ses_device_id :: str
  ses_client_session_id :: str
  ses_base_uri :: str
  ses_user_agent :: str

definition rtsp_session_new :: "u64 \<Rightarrow> u64 \<Rightarrow> str \<Rightarrow> u16 \<Rightarrow> rtsp_session" where
  "rtsp_session_new device_id session_id device_address port =
     \<lparr>ses_state = SS_Init, ses_cseq = 0, ses_session_id = None,
      ses_device_id = hex16 device_id, ses_client_session_id = hex16 session_id,
      ses_base_uri = ascii ''rtsp://'' @ device_address @ ascii '':'' @ dec_string (unat port),
      ses_user_agent = ascii ''AirPlay/540.31''\<rparr>"

definition next_cseq :: "rtsp_session \<Rightarrow> (rtsp_session \<times> u32) option" where
  "next_cseq s =
     (if ses_cseq s = 0xFFFFFFFF then None
      else let n = ses_cseq s + 1 in Some (s\<lparr>ses_cseq := n\<rparr>, n))"

definition common_headers :: "rtsp_session \<Rightarrow> rtsp_request \<Rightarrow> u32 \<Rightarrow> rtsp_request" where
  "common_headers s r n =
     (let b = request_cseq r n;
          b = request_user_agent b (ses_user_agent s);
          b = request_header b X_APPLE_DEVICE_ID (ses_device_id s);
          b = request_header b X_APPLE_SESSION_ID (ses_client_session_id s);
          b = request_header b ACTIVE_REMOTE (ascii ''4294967295'');
          b = request_header b DACP_ID (ses_device_id s);
          b = request_header b CLIENT_INSTANCE (ses_device_id s)
      in (case ses_session_id s of None \<Rightarrow> b | Some session \<Rightarrow> request_session b session))"

definition request_builder :: "rtsp_session \<Rightarrow> rtsp_method \<Rightarrow> str \<Rightarrow> (rtsp_session \<times> rtsp_request) option" where
  "request_builder s m path =
     (case next_cseq s of
        None \<Rightarrow> None
      | Some (s', n) \<Rightarrow>
          Some (s', common_headers s (request_new m (if path = [] then ascii ''/'' else path)) n))"

definition session_path :: "rtsp_session \<Rightarrow> str" where
  "session_path s = ascii ''/'' @ ses_client_session_id s"

definition options_request :: "rtsp_session \<Rightarrow> (rtsp_session \<times> rtsp_request) option" where
  "options_request s = request_builder s Method_Options (ascii ''*'')"

definition setup_session_request ::
    "rtsp_session \<Rightarrow> plist \<Rightarrow> str option \<Rightarrow> (rtsp_session \<times> rtsp_request) option" where
  "setup_session_request s p transport =
     (case request_builder s Method_Setup (session_path s) of
        None \<Rightarrow> None
      | Some (s', b) \<Rightarrow>
          (case request_body_plist b p of
             None \<Rightarrow> None
           | Some b1 \<Rightarrow>
               Some (s', case transport of None \<Rightarrow> b1 | Some t \<Rightarrow> request_header b1 TRANSPORT t)))"

definition announce_request :: "rtsp_session \<Rightarrow> str \<Rightarrow> (rtsp_session \<times> rtsp_request) option" where
  "announce_request s sdp =
     map_option (\<lambda>(s', b). (s', request_body (request_content_type b (ascii ''application/sdp'')) sdp))
       (request_builder s Method_Announce (ascii ''/''))"

definition setup_stream_request :: "rtsp_session \<Rightarrow> str \<Rightarrow> (rtsp_session \<times> rtsp_request) option" where
  "setup_stream_request s transport_params =
     map_option (\<lambda>(s', b). (s', request_header b TRANSPORT transport_params))
       (request_builder s Method_Setup (ascii ''/rtp/audio''))"

definition record_request :: "rtsp_session \<Rightarrow> (rtsp_session \<times> rtsp_request) option" where
  "record_request s = request_builder s Method_Record (session_path s)"

definition play_request :: "rtsp_session \<Rightarrow> str \<Rightarrow> bytes \<Rightarrow> (rtsp_session \<times> rtsp_request) option" where
  "play_request s content_type body =
     map_option (\<lambda>(s', b). (s', request_body (request_content_type b content_type) body))
       (request_builder s Method_Play [])"

definition set_peers_request :: "rtsp_session \<Rightarrow> bytes \<Rightarrow> (rtsp_session \<times> rtsp_request) option" where
  "set_peers_request s body =
     map_option (\<lambda>(s', b). (s', request_body (request_content_type b (ascii ''/peer-list-changed'')) body))
       (request_builder s Method_SetPeers (session_path s))"

definition set_parameter_request :: "rtsp_session \<Rightarrow> str \<Rightarrow> bytes \<Rightarrow> (rtsp_session \<times> rtsp_request) option" where
  "set_parameter_request s content_type body =
     map_option (\<lambda>(s', b). (s', request_body (request_content_type b content_type) body))
       (request_builder s Method_SetParameter [])"

definition get_parameter_request ::
    "rtsp_session \<Rightarrow> str option \<Rightarrow> bytes option \<Rightarrow> (rtsp_session \<times> rtsp_request) option" where
  "get_parameter_request s content_type body =
     map_option (\<lambda>(s', b).
         let b1 = (case content_type of None \<Rightarrow> b | Some ct \<Rightarrow> request_content_type b ct);
             b2 = (case body of None \<Rightarrow> b1 | Some d \<Rightarrow> request_body b1 d)
         in (s', b2))
       (request_builder s Method_GetParameter [])"

definition rtp_info :: "u16 \<Rightarrow> u32 \<Rightarrow> str" where
  "rtp_info sq ts = ascii ''seq='' @ dec_string (unat sq) @ ascii '';rtptime='' @ dec_string (unat ts)"

definition flush_request :: "rtsp_session \<Rightarrow> u16 \<Rightarrow> u32 \<Rightarrow> (rtsp_session \<times> rtsp_request) option" where
  "flush_request s sq ts =
     map_option (\<lambda>(s', b). (s', request_header b RTP_INFO (rtp_info sq ts)))
       (request_builder s Method_Flush [])"

definition teardown_request :: "rtsp_session \<Rightarrow> (rtsp_session \<times> rtsp_request) option" where
  "teardown_request s = request_builder s Method_Teardown []"

definition pause_request :: "rtsp_session \<Rightarrow> (rtsp_session \<times> rtsp_request) option" where
  "pause_request s = request_builder s Method_Pause []"

definition set_rate_anchor_time_request ::
    "rtsp_session \<Rightarrow> str \<Rightarrow> bytes \<Rightarrow> (rtsp_session \<times> rtsp_request) option" where
  "set_rate_anchor_time_request s content_type body =
     map_option (\<lambda>(s', b). (s', request_body (request_content_type b content_type) body))
       (request_builder s Method_SetRateAnchorTime (session_path s))"

definition post_request :: "rtsp_session \<Rightarrow> str \<Rightarrow> str \<Rightarrow> bytes \<Rightarrow> (rtsp_session \<times> rtsp_request) option" where
  "post_request s path content_type body =
     map_option (\<lambda>(s', b). (s', request_body (request_content_type b content_type) body))
       (request_builder s Method_Post path)"

definition get_request :: "rtsp_session \<Rightarrow> str \<Rightarrow> (rtsp_session \<times> rtsp_request) option" where
  "get_request s path = request_builder s Method_Get path"

section \<open>Responses\<close>

definition failure_text :: "rtsp_method \<Rightarrow> rtsp_response \<Rightarrow> str" where
  "failure_text m r =
     method_as_str m @ ascii '' failed: '' @ dec_string (unat (rp_status r)) @ ascii '' '' @ rp_reason r"

definition server_session_id :: "str \<Rightarrow> str" where
  "server_session_id session = hd (split_byte 59 session)"

fun client_state_after :: "client_state \<Rightarrow> rtsp_method \<Rightarrow> client_state" where
  "client_state_after s Method_Options = SS_Ready"
| "client_state_after s Method_Setup = SS_Setup"
| "client_state_after s Method_Record = SS_Playing"
| "client_state_after s Method_Play = SS_Playing"
| "client_state_after s Method_Pause = SS_Paused"
| "client_state_after s Method_Teardown = SS_Terminated"
| "client_state_after s _ = s"

definition process_response ::
    "rtsp_session \<Rightarrow> rtsp_method \<Rightarrow> rtsp_response \<Rightarrow> rtsp_session \<times> (str, unit) result" where
  "process_response s m r =
     (if \<not> status_is_success (rp_status r) then (s, Inl (failure_text m r))
      else let s1 = (case headers_session (rp_headers r) of
                       None \<Rightarrow> s
                     | Some session \<Rightarrow> s\<lparr>ses_session_id := Some (server_session_id session)\<rparr>)
           in (s1\<lparr>ses_state := client_state_after (ses_state s1) m\<rparr>, Inr ()))"

definition can_send_in :: "client_state \<Rightarrow> rtsp_method \<Rightarrow> bool" where
  "can_send_in st m \<longleftrightarrow>
     (case st of
        SS_Init \<Rightarrow> m \<in> {Method_Options, Method_Post}
      | SS_Ready \<Rightarrow> m \<in> {Method_Setup, Method_Post}
      | SS_Setup \<Rightarrow> m \<in> {Method_Record, Method_Play}
      | SS_Playing \<Rightarrow> m \<in> {Method_Pause, Method_Flush, Method_SetParameter, Method_GetParameter, Method_Teardown}
      | SS_Paused \<Rightarrow> m \<in> {Method_Record, Method_Play, Method_Teardown, Method_SetParameter, Method_SetRateAnchorTime}
      | SS_Terminated \<Rightarrow> False)
     \<or> m \<in> {Method_Options, Method_Teardown, Method_Get, Method_SetRateAnchorTime, Method_SetPeers}"

definition can_send :: "rtsp_session \<Rightarrow> rtsp_method \<Rightarrow> bool" where
  "can_send s m = can_send_in (ses_state s) m"

section \<open>The transport header\<close>

datatype lower_transport = LT_Udp | LT_Tcp

datatype cast_mode = Unicast | Multicast

record transport_header =
  th_protocol :: str
  th_lower_transport :: lower_transport
  th_cast :: cast_mode
  th_mode :: "str option"
  th_control_port :: "u16 option"
  th_timing_port :: "u16 option"
  th_interleaved :: "(u8 \<times> u8) option"

datatype transport_parse_error =
    MissingProtocol | UnsupportedProtocol str | InvalidPort | InvalidInterleaved

definition parse_u16 :: "str \<Rightarrow> u16 option" where
  "parse_u16 s = map_option of_nat (parse_unsigned (2 ^ 16) s)"

definition parse_u8 :: "str \<Rightarrow> u8 option" where
  "parse_u8 s = map_option of_nat (parse_unsigned (2 ^ 8) s)"

definition parse_u32 :: "str \<Rightarrow> u32 option" where
  "parse_u32 s = map_option of_nat (parse_unsigned (2 ^ 32) s)"

definition RTP_AVP :: str where "RTP_AVP = ascii ''RTP/AVP''"

definition parse_protocol :: "str \<Rightarrow> (transport_parse_error, str \<times> lower_transport) result" where
  "parse_protocol spec =
     (let parts = split_byte 47 spec in
      if parts = [ascii ''RTP'', ascii ''AVP''] \<or> parts = [ascii ''RTP'', ascii ''AVP'', ascii ''UDP'']
      then Inr (RTP_AVP, LT_Udp)
      else if parts = [ascii ''RTP'', ascii ''AVP'', ascii ''TCP''] then Inr (RTP_AVP, LT_Tcp)
      else Inl (UnsupportedProtocol spec))"

definition parse_interleaved :: "str \<Rightarrow> (transport_parse_error, u8 \<times> u8) result" where
  "parse_interleaved v =
     (case split_byte 45 v of
        [a, b] \<Rightarrow>
          (case parse_u8 a of
             None \<Rightarrow> Inl InvalidPort
           | Some x \<Rightarrow> (case parse_u8 b of None \<Rightarrow> Inl InvalidPort | Some y \<Rightarrow> Inr (x, y)))
      | _ \<Rightarrow> Inl InvalidInterleaved)"

definition transport_part :: "transport_header \<Rightarrow> str \<Rightarrow> (transport_parse_error, transport_header) result" where
  "transport_part t raw =
     (let part = trim raw in
      if part = ascii ''unicast'' then Inr (t\<lparr>th_cast := Unicast\<rparr>)
      else if part = ascii ''multicast'' then Inr (t\<lparr>th_cast := Multicast\<rparr>)
      else case strip_prefix (ascii ''mode='') part of Some v \<Rightarrow> Inr (t\<lparr>th_mode := Some v\<rparr>)
      | None \<Rightarrow> (case strip_prefix (ascii ''control_port='') part of
          Some v \<Rightarrow> (case parse_u16 v of None \<Rightarrow> Inl InvalidPort | Some p \<Rightarrow> Inr (t\<lparr>th_control_port := Some p\<rparr>))
      | None \<Rightarrow> (case strip_prefix (ascii ''timing_port='') part of
          Some v \<Rightarrow> (case parse_u16 v of None \<Rightarrow> Inl InvalidPort | Some p \<Rightarrow> Inr (t\<lparr>th_timing_port := Some p\<rparr>))
      | None \<Rightarrow> (case strip_prefix (ascii ''interleaved='') part of
          Some v \<Rightarrow> (case parse_interleaved v of Inl e \<Rightarrow> Inl e | Inr c \<Rightarrow> Inr (t\<lparr>th_interleaved := Some c\<rparr>))
      | None \<Rightarrow> Inr t))))"

fun transport_parts ::
    "transport_header \<Rightarrow> str list \<Rightarrow> (transport_parse_error, transport_header) result" where
  "transport_parts t [] = Inr t"
| "transport_parts t (p # ps) =
     (case transport_part t p of Inl e \<Rightarrow> Inl e | Inr t' \<Rightarrow> transport_parts t' ps)"

definition transport_parse :: "str \<Rightarrow> (transport_parse_error, transport_header) result" where
  "transport_parse v =
     (case split_byte 59 v of
        [] \<Rightarrow> Inl MissingProtocol
      | proto_spec # parts \<Rightarrow>
          (case parse_protocol proto_spec of
             Inl e \<Rightarrow> Inl e
           | Inr (protocol, lower) \<Rightarrow>
               transport_parts
                 \<lparr>th_protocol = protocol, th_lower_transport = lower, th_cast = Unicast, th_mode = None,
                  th_control_port = None, th_timing_port = None, th_interleaved = None\<rparr> parts))"

fun cast_string :: "cast_mode \<Rightarrow> str" where
  "cast_string Unicast = ascii ''unicast''"
| "cast_string Multicast = ascii ''multicast''"

fun lower_string :: "lower_transport \<Rightarrow> str" where
  "lower_string LT_Udp = ascii ''UDP''"
| "lower_string LT_Tcp = ascii ''TCP''"

definition to_response_header :: "transport_header \<Rightarrow> u16 \<Rightarrow> u16 \<Rightarrow> u16 \<Rightarrow> str" where
  "to_response_header t server_port control_port timing_port =
     join_by (ascii '';'')
       ([th_protocol t @ ascii ''/'' @ lower_string (th_lower_transport t), cast_string (th_cast t)]
        @ (case th_mode t of None \<Rightarrow> [] | Some mode \<Rightarrow> [ascii ''mode='' @ mode])
        @ [ascii ''server_port='' @ dec_string (unat server_port),
           ascii ''control_port='' @ dec_string (unat control_port),
           ascii ''timing_port='' @ dec_string (unat timing_port)])"

section \<open>Requests that the server can read\<close>

lemmas header_names = CSEQ_def CONTENT_TYPE_def CONTENT_LENGTH_def SESSION_def USER_AGENT_def TRANSPORT_def
  ACTIVE_REMOTE_def DACP_ID_def CLIENT_INSTANCE_def X_APPLE_DEVICE_ID_def X_APPLE_SESSION_ID_def RTP_INFO_def

definition entries_size :: "headers \<Rightarrow> nat" where
  "entries_size h = sum_list (map (\<lambda>kv. length (header_line kv) + 2) h)"

lemma entries_size_insert: "entries_size (headers_insert h k v) \<le> entries_size h + (length k + length v + 4)"
proof -
  have "sum_list (map f (filter P h)) \<le> sum_list (map f h)" for P and f :: "str \<times> str \<Rightarrow> nat"
    by (induction h) auto
  then show ?thesis by (simp add: entries_size_def headers_insert_def header_line_def ascii_def)
qed

lemma line_block_size: "length (line_block ls) = sum_list (map (\<lambda>l. length l + 2) ls)"
  by (simp add: line_block_def length_concat comp_def crlf_def)

lemma header_size_entries:
  "header_size r + 2 = length (request_line_of r) + 2 + entries_size (sent_headers r)"
  by (simp add: header_size_def line_block_size request_lines_def entries_size_def comp_def)

lemma dec_string_length: "n < 10 ^ k \<Longrightarrow> 0 < k \<Longrightarrow> length (dec_string n) \<le> k"
proof (induction n arbitrary: k rule: dec_string.induct)
  case (1 n)
  show ?case
  proof (cases "n < 10")
    case False
    with 1 obtain j where k: "k = Suc j" and "0 < j" by (cases k; cases "k = 1") auto
    have "n div 10 < 10 ^ j" using 1(2) k by (simp add: less_mult_imp_div_less mult.commute)
    then have "length (dec_string (n div 10)) \<le> j" using 1(1) False \<open>0 < j\<close> by simp
    with False k show ?thesis by (simp add: dec_string.simps [of n])
  qed (use 1 in \<open>simp add: dec_string.simps [of n]\<close>)
qed

text \<open>
  The state of a request builder: the headers can be written and read back, a body is there
  exactly with its length, and the size of the headers is bounded.
\<close>

definition built :: "nat \<Rightarrow> nat \<Rightarrow> rtsp_request \<Rightarrow> bool" where
  "built limit cseq r \<longleftrightarrow>
     headers_ok (rq_headers r) \<and> list_all header_ok (rq_headers r)
     \<and> headers_cseq (rq_headers r) = Some cseq \<and> entries_size (rq_headers r) \<le> limit
     \<and> (rq_body r = [] \<and> headers_get (rq_headers r) CONTENT_LENGTH = None
        \<or> headers_get (rq_headers r) CONTENT_LENGTH = Some (dec_string (length (rq_body r))))"

lemma list_all_insert: "list_all header_ok h \<Longrightarrow> header_ok (k, v) \<Longrightarrow> list_all header_ok (headers_insert h k v)"
  by (auto simp: list_all_iff headers_insert_def)

lemma built_header:
  assumes "built n i r" and "header_ok (k, v)" and "\<not> eq_ignore_ascii_case k CONTENT_LENGTH"
    and "\<not> eq_ignore_ascii_case k CSEQ" and "n + (length k + length v + 4) \<le> m"
  shows "built m i (request_header r k v)"
  using assms entries_size_insert [of "rq_headers r" k v]
  by (auto simp: built_def request_header_def headers_ok_insert headers_cseq_def headers_get_insert list_all_insert)

lemma built_body:
  assumes "built n i r" and "length body < 10 ^ 8" and "n + 26 \<le> m"
  shows "built m i ((request_header r CONTENT_LENGTH (dec_string (length body)))\<lparr>rq_body := body\<rparr>)"
proof -
  have "length (dec_string (length body)) \<le> 8" using assms(2) by (intro dec_string_length) simp_all
  moreover have "\<not> eq_ignore_ascii_case CONTENT_LENGTH CSEQ" "eq_ignore_ascii_case CONTENT_LENGTH CONTENT_LENGTH"
    by (simp_all add: eq_ignore_ascii_case_def ascii_lower_def header_names ascii_def)
  moreover have "length CONTENT_LENGTH = 14" by (simp add: CONTENT_LENGTH_def ascii_def)
  ultimately show ?thesis
    using assms entries_size_insert [of "rq_headers r" CONTENT_LENGTH "dec_string (length body)"]
      content_length_header_ok [of "length body"]
    by (auto simp: built_def request_header_def headers_ok_insert headers_cseq_def headers_get_insert list_all_insert)
qed

lemma built_sent_headers: "built n i r \<Longrightarrow> sent_headers r = rq_headers r"
  by (auto simp: built_def sent_headers_def headers_contains_def)

lemma built_content_length:
  assumes "built n i r" and "length (rq_body r) < 2 ^ 64"
  shows "server_content_length (rq_headers r) = Inr (length (rq_body r))"
proof (cases "headers_get (rq_headers r) CONTENT_LENGTH")
  case None
  with assms have "rq_body r = []" by (auto simp: built_def)
  then show ?thesis
    using sent_length [of r] None built_sent_headers [OF assms(1)] by (simp add: headers_contains_def)
next
  case (Some v)
  with assms have "v = dec_string (length (rq_body r))" by (auto simp: built_def)
  with Some parse_dec_string [OF assms(2)] show ?thesis by (simp add: server_content_length_def)
qed

lemma method_length: "length (method_as_str m) \<le> 17"
  by (cases m) (simp_all add: ascii_def)

lemma built_request_ok:
  assumes "built n i r" and "rq_uri r \<noteq> []" and "no_ws (rq_uri r)" and "utf8_valid (rq_uri r)"
    and "length (rq_body r) \<le> MAX_BODY_SIZE" and "n + length (rq_uri r) + 60 \<le> MAX_HEADER_SIZE"
  shows "request_ok r"
proof -
  have "length (rq_body r) < 2 ^ 64" using assms(5) by (simp add: MAX_BODY_SIZE_def)
  moreover have "length (request_line_of r) \<le> length (rq_uri r) + 27"
    using method_length [of "rq_method r"] by (simp add: request_line_of_def ascii_def)
  ultimately show ?thesis
    using assms header_size_entries [of r] built_content_length [OF assms(1)]
    by (auto simp: request_ok_def built_sent_headers [OF assms(1)]) (simp_all add: built_def)
qed

lemma built_request_seen: "built n i r \<Longrightarrow> request_seen r = r"
  by (simp add: request_seen_def built_sent_headers)

section \<open>Sessions\<close>

text \<open>The calls of a session as data, and runs of calls and responses.\<close>

datatype session_call =
    Call_Options | Call_SetupSession plist "str option" | Call_Announce str | Call_SetupStream str | Call_Record
  | Call_Play str bytes | Call_SetPeers bytes | Call_SetParameter str bytes
  | Call_GetParameter "str option" "bytes option" | Call_Flush u16 u32 | Call_Teardown | Call_Pause
  | Call_SetRateAnchorTime str bytes | Call_Post str str bytes | Call_Get str

fun session_request :: "rtsp_session \<Rightarrow> session_call \<Rightarrow> (rtsp_session \<times> rtsp_request) option" where
  "session_request s Call_Options = options_request s"
| "session_request s (Call_SetupSession p t) = setup_session_request s p t"
| "session_request s (Call_Announce sdp) = announce_request s sdp"
| "session_request s (Call_SetupStream t) = setup_stream_request s t"
| "session_request s Call_Record = record_request s"
| "session_request s (Call_Play ct b) = play_request s ct b"
| "session_request s (Call_SetPeers b) = set_peers_request s b"
| "session_request s (Call_SetParameter ct b) = set_parameter_request s ct b"
| "session_request s (Call_GetParameter ct b) = get_parameter_request s ct b"
| "session_request s (Call_Flush sq ts) = flush_request s sq ts"
| "session_request s Call_Teardown = teardown_request s"
| "session_request s Call_Pause = pause_request s"
| "session_request s (Call_SetRateAnchorTime ct b) = set_rate_anchor_time_request s ct b"
| "session_request s (Call_Post path ct b) = post_request s path ct b"
| "session_request s (Call_Get path) = get_request s path"

fun call_method :: "session_call \<Rightarrow> rtsp_method" where
  "call_method Call_Options = Method_Options"
| "call_method (Call_SetupSession p t) = Method_Setup"
| "call_method (Call_Announce sdp) = Method_Announce"
| "call_method (Call_SetupStream t) = Method_Setup"
| "call_method Call_Record = Method_Record"
| "call_method (Call_Play ct b) = Method_Play"
| "call_method (Call_SetPeers b) = Method_SetPeers"
| "call_method (Call_SetParameter ct b) = Method_SetParameter"
| "call_method (Call_GetParameter ct b) = Method_GetParameter"
| "call_method (Call_Flush sq ts) = Method_Flush"
| "call_method Call_Teardown = Method_Teardown"
| "call_method Call_Pause = Method_Pause"
| "call_method (Call_SetRateAnchorTime ct b) = Method_SetRateAnchorTime"
| "call_method (Call_Post path ct b) = Method_Post"
| "call_method (Call_Get path) = Method_Get"

datatype client_event = Ev_Call session_call | Ev_Response rtsp_method rtsp_response

fun session_run :: "rtsp_session \<Rightarrow> client_event list \<Rightarrow> (rtsp_session \<times> rtsp_request list) option" where
  "session_run s [] = Some (s, [])"
| "session_run s (Ev_Call c # es) =
     (case session_request s c of
        None \<Rightarrow> None
      | Some (s1, r) \<Rightarrow> map_option (\<lambda>(s2, rs). (s2, r # rs)) (session_run s1 es))"
| "session_run s (Ev_Response m r # es) = session_run (fst (process_response s m r)) es"

fun calls_of :: "client_event list \<Rightarrow> session_call list" where
  "calls_of [] = []"
| "calls_of (Ev_Call c # es) = c # calls_of es"
| "calls_of (Ev_Response m r # es) = calls_of es"

text \<open>Arguments that fit into a line of a header, and bodies that a server accepts.\<close>

definition line_value :: "str \<Rightarrow> bool" where
  "line_value v \<longleftrightarrow> utf8_valid v \<and> trimmed v \<and> 13 \<notin> set v \<and> 10 \<notin> set v \<and> length v \<le> 4096"

definition path_value :: "str \<Rightarrow> bool" where
  "path_value p \<longleftrightarrow> no_ws p \<and> utf8_valid p \<and> length p \<le> 4096"

definition body_value :: "bytes \<Rightarrow> bool" where
  "body_value b \<longleftrightarrow> length b \<le> MAX_BODY_SIZE"

fun call_ok :: "session_call \<Rightarrow> bool" where
  "call_ok (Call_SetupSession p t) \<longleftrightarrow>
     (case plist_encode p of Some (Inr b) \<Rightarrow> body_value b | _ \<Rightarrow> False) \<and> pred_option line_value t"
| "call_ok (Call_Announce sdp) \<longleftrightarrow> body_value sdp"
| "call_ok (Call_SetupStream t) \<longleftrightarrow> line_value t"
| "call_ok (Call_Play ct b) \<longleftrightarrow> line_value ct \<and> body_value b"
| "call_ok (Call_SetPeers b) \<longleftrightarrow> body_value b"
| "call_ok (Call_SetParameter ct b) \<longleftrightarrow> line_value ct \<and> body_value b"
| "call_ok (Call_GetParameter ct b) \<longleftrightarrow> pred_option line_value ct \<and> pred_option body_value b"
| "call_ok (Call_SetRateAnchorTime ct b) \<longleftrightarrow> line_value ct \<and> body_value b"
| "call_ok (Call_Post path ct b) \<longleftrightarrow> path_value path \<and> line_value ct \<and> body_value b"
| "call_ok (Call_Get path) \<longleftrightarrow> path_value path"
| "call_ok _ \<longleftrightarrow> True"

fun event_ok :: "client_event \<Rightarrow> bool" where
  "event_ok (Ev_Call c) \<longleftrightarrow> call_ok c"
| "event_ok (Ev_Response m r) \<longleftrightarrow>
     pred_option (\<lambda>v. line_value (server_session_id v)) (headers_session (rp_headers r))"

definition session_ok :: "rtsp_session \<Rightarrow> bool" where
  "session_ok s \<longleftrightarrow>
     (\<exists>r. ses_device_id s = hex16 r) \<and> (\<exists>r. ses_client_session_id s = hex16 r)
     \<and> ses_user_agent s = ascii ''AirPlay/540.31'' \<and> pred_option line_value (ses_session_id s)"

lemma session_new_ok: "session_ok (rtsp_session_new d i addr port)"
  by (auto simp: session_ok_def rtsp_session_new_def)

lemma process_response_ok:
  "session_ok s \<Longrightarrow> event_ok (Ev_Response m r) \<Longrightarrow> session_ok (fst (process_response s m r))"
  by (auto simp: session_ok_def process_response_def Let_def split: option.splits)

lemma process_response_cseq: "ses_cseq (fst (process_response s m r)) = ses_cseq s"
  by (auto simp: process_response_def Let_def split: option.splits)

lemma header_ok_value:
  "line_value v \<Longrightarrow> graphic k \<Longrightarrow> 58 \<notin> set k \<Longrightarrow> header_ok (k, v)"
  using graphic_bytes [of k] by (fastforce simp: header_ok_def line_value_def graphic_utf8 graphic_trimmed)

lemma line_value_graphic: "graphic v \<Longrightarrow> length v \<le> 4096 \<Longrightarrow> line_value v"
  using graphic_bytes [of v] by (fastforce simp: line_value_def graphic_utf8 graphic_trimmed)

lemma built_named:
  assumes "built n i r" and "line_value v" and "n + (length k + length v + 4) \<le> m"
    and "k \<in> {CONTENT_TYPE, SESSION, USER_AGENT, TRANSPORT, ACTIVE_REMOTE, DACP_ID, CLIENT_INSTANCE,
                X_APPLE_DEVICE_ID, X_APPLE_SESSION_ID, RTP_INFO}"
  shows "built m i (request_header r k v)"
proof (rule built_header [OF assms(1)])
  show "header_ok (k, v)"
    by (rule header_ok_value [OF assms(2)]) (use assms(4) in \<open>auto simp: graphic_def header_names ascii_def\<close>)
  show "\<not> eq_ignore_ascii_case k CONTENT_LENGTH" "\<not> eq_ignore_ascii_case k CSEQ"
    using assms(4) by (auto simp: eq_ignore_ascii_case_def ascii_lower_def header_names ascii_def)
qed (rule assms(3))

lemma built_new: "built 18 (unat n) (request_cseq (request_new m uri) n)"
proof -
  have "unat n < 10 ^ 10" using unat_less_u32 [of n] by simp
  then have "length (dec_string (unat n)) \<le> 10" by (intro dec_string_length) simp_all
  moreover have "header_ok (CSEQ, dec_string (unat n))"
  proof (rule header_ok_value)
    show "line_value (dec_string (unat n))"
      using \<open>length (dec_string (unat n)) \<le> 10\<close> by (intro line_value_graphic dec_string_graphic) simp
  qed (simp_all add: graphic_def CSEQ_def ascii_def)
  moreover have "parse_unsigned (2 ^ 32) (dec_string (unat n)) = Some (unat n)"
    using unat_less_u32 [of n] by (intro parse_dec_string) simp
  ultimately show ?thesis
    by (simp add: built_def request_cseq_def request_header_def request_new_def headers_insert_def headers_ok_def
        headers_cseq_def headers_get_def entries_size_def header_line_def)
      (simp add: eq_ignore_ascii_case_def ascii_lower_def ascii_def CSEQ_def CONTENT_LENGTH_def)
qed

lemma common_headers_built:
  assumes "session_ok s"
  shows "built 4400 (unat n) (common_headers s (request_new m uri) n)"
proof -
  obtain d i where d: "ses_device_id s = hex16 d" and i: "ses_client_session_id s = hex16 i"
    and a: "ses_user_agent s = ascii ''AirPlay/540.31''" and opt: "pred_option line_value (ses_session_id s)"
    using assms by (auto simp: session_ok_def)
  have hex: "line_value (hex16 x)" for x by (simp add: line_value_graphic hex16_graphic)
  have lit: "line_value (ascii ''AirPlay/540.31'')" "line_value (ascii ''4294967295'')"
    by (simp_all add: line_value_graphic graphic_def ascii_def)
  define b1 where "b1 = request_user_agent (request_cseq (request_new m uri) n) (ascii ''AirPlay/540.31'')"
  have b1: "built 46 (unat n) b1" unfolding b1_def request_user_agent_def
    by (rule built_named [OF built_new lit(1)]) (simp_all add: header_names ascii_def)
  define b2 where "b2 = request_header (request_header b1 X_APPLE_DEVICE_ID (hex16 d)) X_APPLE_SESSION_ID (hex16 i)"
  have b2: "built 121 (unat n) b2" unfolding b2_def
    by (rule built_named [OF built_named [OF b1 hex, where m = 83] hex]) (simp_all add: header_names ascii_def)
  define b3 where "b3 = request_header (request_header b2 ACTIVE_REMOTE (ascii ''4294967295'')) DACP_ID (hex16 d)"
  have b3: "built 175 (unat n) b3" unfolding b3_def
    by (rule built_named [OF built_named [OF b2 lit(2), where m = 148] hex]) (simp_all add: header_names ascii_def)
  define b4 where "b4 = request_header b3 CLIENT_INSTANCE (hex16 d)"
  have b4: "built 210 (unat n) b4" unfolding b4_def
    by (rule built_named [OF b3 hex]) (simp_all add: header_names ascii_def)
  have e: "common_headers s (request_new m uri) n =
      (case ses_session_id s of None \<Rightarrow> b4 | Some session \<Rightarrow> request_session b4 session)"
    unfolding common_headers_def d i a b1_def b2_def b3_def b4_def Let_def by (rule refl)
  show ?thesis
  proof (cases "ses_session_id s")
    case None
    then show ?thesis using b4 by (auto simp: e built_def)
  next
    case (Some v)
    with opt have "line_value v" by simp
    then have "built 4400 (unat n) (request_header b4 SESSION v)"
      by (rule built_named [OF b4]) (use \<open>line_value v\<close> in \<open>simp_all add: line_value_def header_names ascii_def\<close>)
    with Some show ?thesis by (simp add: e request_session_def)
  qed
qed

lemma common_headers_simps [simp]:
  "rq_method (common_headers s r n) = rq_method r" "rq_uri (common_headers s r n) = rq_uri r"
  "rq_body (common_headers s r n) = rq_body r"
  by (simp_all add: common_headers_def request_cseq_def request_user_agent_def request_session_def request_header_def
      Let_def split: option.splits)

lemma request_header_simps [simp]:
  "rq_method (request_header r k v) = rq_method r" "rq_uri (request_header r k v) = rq_uri r"
  "rq_body (request_header r k v) = rq_body r"
  by (simp_all add: request_header_def)

lemma request_body_simps [simp]:
  "rq_method (request_body r b) = rq_method r" "rq_uri (request_body r b) = rq_uri r" "rq_body (request_body r b) = b"
  by (simp_all add: request_body_def)

text \<open>What every request of a session is, with the counter it takes.\<close>

definition issued :: "rtsp_session \<Rightarrow> rtsp_method \<Rightarrow> (rtsp_session \<times> rtsp_request) option \<Rightarrow> bool" where
  "issued s m x \<longleftrightarrow>
     (\<exists>r. x = Some (s\<lparr>ses_cseq := ses_cseq s + 1\<rparr>, r) \<and> rq_method r = m \<and> request_ok r \<and> request_seen r = r
        \<and> headers_cseq (rq_headers r) = Some (unat (ses_cseq s + 1)))"

lemma issuedI:
  assumes "x = Some (s\<lparr>ses_cseq := ses_cseq s + 1\<rparr>, r)" and "rq_method r = m"
    and "built 17000 (unat (ses_cseq s + 1)) r"
    and "rq_uri r \<noteq> []" and "path_value (rq_uri r)" and "body_value (rq_body r)"
  shows "issued s m x"
proof -
  have "request_ok r"
    by (rule built_request_ok [OF assms(3)]) (use assms(4-6) in \<open>simp_all add: path_value_def body_value_def MAX_HEADER_SIZE_def\<close>)
  with assms(1,2,3) show ?thesis by (auto simp: issued_def built_request_seen [OF assms(3)]) (simp add: built_def)
qed

lemma request_builder_Some:
  "ses_cseq s \<noteq> 0xFFFFFFFF \<Longrightarrow> request_builder s m path =
     Some (s\<lparr>ses_cseq := ses_cseq s + 1\<rparr>,
       common_headers s (request_new m (if path = [] then ascii ''/'' else path)) (ses_cseq s + 1))"
  by (simp add: request_builder_def next_cseq_def Let_def)

lemma request_new_simps [simp]:
  "rq_method (request_new m u) = m" "rq_uri (request_new m u) = u" "rq_body (request_new m u) = []"
  by (simp_all add: request_new_def)

lemma path_values [simp]:
  "path_value (ascii ''/'')" "path_value (ascii ''*'')" "path_value (ascii ''/rtp/audio'')" "path_value []"
  "path_value (ascii ''/'' @ hex16 i)"
proof -
  have "graphic (ascii ''/'' @ hex16 i)" using hex16_graphic [of i] by (simp add: graphic_def ascii_def)
  then show "path_value (ascii ''/'' @ hex16 i)" by (simp add: path_value_def graphic_no_ws graphic_utf8 ascii_def)
qed (simp_all add: path_value_def graphic_no_ws graphic_utf8 graphic_def ascii_def)

lemma built_mono: "built n i r \<Longrightarrow> n \<le> m \<Longrightarrow> built m i r"
  by (auto simp: built_def)

lemma content_types [simp]:
  "line_value (ascii ''application/sdp'')" "line_value (ascii ''/peer-list-changed'')"
  "line_value (ascii ''application/x-apple-binary-plist'')"
  by (simp_all add: line_value_graphic graphic_def ascii_def)

lemma rtp_info_value [simp]: "line_value (rtp_info sq ts)"
proof -
  have "unat sq < 10 ^ 5" "unat ts < 10 ^ 10" using unat_less_u16 [of sq] unat_less_u32 [of ts] by simp_all
  then have "length (dec_string (unat sq)) \<le> 5" "length (dec_string (unat ts)) \<le> 10"
    by (auto intro: dec_string_length)
  then have "length (rtp_info sq ts) \<le> 4096" by (simp add: rtp_info_def ascii_def)
  moreover have "graphic (rtp_info sq ts)"
    using dec_string_graphic [of "unat sq"] dec_string_graphic [of "unat ts"]
    by (simp add: rtp_info_def graphic_def ascii_def)
  ultimately show ?thesis by (rule line_value_graphic [rotated])
qed

text \<open>The two ways in which a request is completed: with a header, and with a body and its type.\<close>

lemma built_extra_header:
  assumes "built n i r" and "line_value v" and "k \<in> {CONTENT_TYPE, TRANSPORT, RTP_INFO}" and "n + 4112 \<le> m"
  shows "built m i (request_header r k v)"
proof -
  have "length k \<le> 12" using assms(3) by (auto simp: header_names ascii_def)
  moreover have "length v \<le> 4096" using assms(2) by (simp add: line_value_def)
  ultimately show ?thesis using assms by (intro built_named [OF assms(1,2)]) auto
qed

lemma built_extra_body:
  assumes "built n i r" and "body_value b" and "n + 26 \<le> m"
  shows "built m i (request_body r b)"
  unfolding request_body_def by (rule built_body [OF assms(1) _ assms(3)]) (use assms(2) in \<open>simp add: body_value_def MAX_BODY_SIZE_def\<close>)

lemma request_content_type_simps [simp]:
  "rq_method (request_content_type r ct) = rq_method r" "rq_uri (request_content_type r ct) = rq_uri r"
  "rq_body (request_content_type r ct) = rq_body r"
  by (simp_all add: request_content_type_def)

lemma built_type:
  assumes "built 4400 i r" and "line_value ct"
  shows "built 8600 i (request_content_type r ct)"
  unfolding request_content_type_def by (rule built_extra_header [OF assms]) simp_all

lemma built_typed_body:
  assumes "built 4400 i r" and "line_value ct" and "body_value b"
  shows "built 17000 i (request_body (request_content_type r ct) b)"
  by (rule built_extra_body [OF built_type [OF assms(1,2)] assms(3)]) simp

lemma request_builder_issued:
  assumes "session_ok s" and "ses_cseq s \<noteq> 0xFFFFFFFF" and "path_value path"
    and "built 4400 (unat (ses_cseq s + 1)) b0 \<Longrightarrow> built 17000 (unat (ses_cseq s + 1)) (f b0)"
    and "b0 = common_headers s (request_new m (if path = [] then ascii ''/'' else path)) (ses_cseq s + 1)"
    and "rq_method (f b0) = rq_method b0" and "rq_uri (f b0) = rq_uri b0" and "body_value (rq_body (f b0))"
  shows "issued s m (map_option (\<lambda>(s', b). (s', f b)) (request_builder s m path))"
proof (rule issuedI [where r = "f b0"])
  show "built 17000 (unat (ses_cseq s + 1)) (f b0)"
    using assms(4) common_headers_built [OF assms(1)] unfolding assms(5) by simp
qed (use assms in \<open>simp_all add: request_builder_Some\<close>)

lemma request_builder_plain:
  assumes "session_ok s" and "ses_cseq s \<noteq> 0xFFFFFFFF" and "path_value path"
  shows "issued s m (request_builder s m path)"
  using request_builder_issued [OF assms _ refl, of m "\<lambda>b. b"]
  by (simp add: built_mono body_value_def MAX_BODY_SIZE_def option.map_id0 case_prod_eta)

lemma typed_body_issued:
  assumes "session_ok s" and "ses_cseq s \<noteq> 0xFFFFFFFF" and "path_value path" and "line_value ct" and "body_value b"
  shows "issued s m (map_option (\<lambda>(s', r). (s', request_body (request_content_type r ct) b)) (request_builder s m path))"
  by (rule request_builder_issued [OF assms(1-3) _ refl])
    (use assms(4,5) in \<open>simp_all only: built_typed_body, simp_all\<close>)

lemma extra_header_issued:
  assumes "session_ok s" and "ses_cseq s \<noteq> 0xFFFFFFFF" and "path_value path" and "line_value v"
    and "k \<in> {CONTENT_TYPE, TRANSPORT, RTP_INFO}"
  shows "issued s m (map_option (\<lambda>(s', r). (s', request_header r k v)) (request_builder s m path))"
  by (rule request_builder_issued [OF assms(1-3) _ refl])
    (use assms(4,5) in \<open>auto intro: built_extra_header simp: body_value_def\<close>)

lemma get_parameter_issued:
  assumes "session_ok s" and "ses_cseq s \<noteq> 0xFFFFFFFF" and "pred_option line_value ct" and "pred_option body_value b"
  shows "issued s Method_GetParameter (get_parameter_request s ct b)"
  unfolding get_parameter_request_def Let_def
proof (rule request_builder_issued [OF assms(1,2) _ _ refl, where path = "[]"], goal_cases)
  case 2
  then show ?case
    using assms(3,4)
    by (cases ct; cases b)
      (auto intro: built_mono [of 4400] built_mono [of 8600] built_extra_body [of 4400] built_type built_typed_body)
qed (use assms(3,4) in \<open>auto simp: body_value_def split: option.splits\<close>)

lemma setup_session_issued:
  assumes "session_ok s" and "ses_cseq s \<noteq> 0xFFFFFFFF" and "call_ok (Call_SetupSession p t)"
  shows "issued s Method_Setup (setup_session_request s p t)"
proof -
  obtain body where body: "plist_encode p = Some (Inr body)" "body_value body"
    using assms(3) by (auto split: option.splits sum.splits)
  let ?f = "\<lambda>b. let b1 = request_header ((request_header b CONTENT_LENGTH (dec_string (length body)))\<lparr>rq_body := body\<rparr>)
                  CONTENT_TYPE (ascii ''application/x-apple-binary-plist'')
            in (case t of None \<Rightarrow> b1 | Some v \<Rightarrow> request_header b1 TRANSPORT v)"
  have "setup_session_request s p t = map_option (\<lambda>(s', b). (s', ?f b)) (request_builder s Method_Setup (session_path s))"
    by (auto simp: setup_session_request_def request_body_plist_def body Let_def split: option.splits)
  moreover have "issued s Method_Setup (map_option (\<lambda>(s', b). (s', ?f b)) (request_builder s Method_Setup (session_path s)))"
  proof (rule request_builder_issued [OF assms(1,2) _ _ refl], goal_cases)
    case 1
    then show ?case using assms(1) by (auto simp: session_ok_def session_path_def)
  next
    case 2
    have "built 8600 (unat (ses_cseq s + 1))
        (request_header ((request_header r CONTENT_LENGTH (dec_string (length body)))\<lparr>rq_body := body\<rparr>)
          CONTENT_TYPE (ascii ''application/x-apple-binary-plist''))"
      if "built 4400 (unat (ses_cseq s + 1)) r" for r
      using built_extra_body [OF that body(2), of 4426] unfolding request_body_def
      by (intro built_extra_header [where n = 4426]) simp_all
    with 2 assms(3) show ?case
      by (auto simp: Let_def intro: built_mono [of 8600] built_extra_header [where n = 8600] split: option.splits)
  qed (use body in \<open>auto simp: Let_def split: option.splits\<close>)
  ultimately show ?thesis by simp
qed

lemma session_request_issued:
  assumes "session_ok s" and "ses_cseq s \<noteq> 0xFFFFFFFF" and "call_ok c"
  shows "issued s (call_method c) (session_request s c)"
proof -
  have path: "path_value (session_path s)" using assms(1) by (auto simp: session_ok_def session_path_def)
  show ?thesis
  proof (cases c)
    case (Call_SetupSession p t)
    then show ?thesis using setup_session_issued [OF assms(1,2)] assms(3) by simp
  next
    case (Call_GetParameter ct b)
    then show ?thesis using get_parameter_issued [OF assms(1,2)] assms(3) by simp
  qed (use assms path in \<open>simp_all add: options_request_def announce_request_def setup_stream_request_def record_request_def
      play_request_def set_peers_request_def set_parameter_request_def flush_request_def teardown_request_def
      pause_request_def set_rate_anchor_time_request_def post_request_def get_request_def
      request_builder_plain typed_body_issued extra_header_issued\<close>)
qed

lemma session_run_issued:
  assumes "session_ok s" and "list_all event_ok es" and "unat (ses_cseq s) + length (calls_of es) < 2 ^ 32"
  shows "\<exists>s' rs. session_run s es = Some (s', rs) \<and> map rq_method rs = map call_method (calls_of es)
    \<and> map (\<lambda>r. headers_cseq (rq_headers r)) rs = map Some [unat (ses_cseq s) + 1..<unat (ses_cseq s) + 1 + length rs]
    \<and> list_all request_ok rs \<and> map request_seen rs = rs"
  using assms
proof (induction s es rule: session_run.induct)
  case (2 s c es)
  have small: "unat (ses_cseq s) + 1 < 2 ^ 32" using "2.prems"(3) by simp
  then have up: "unat (ses_cseq s + 1) = unat (ses_cseq s) + 1"
    by (simp add: unat_word_ariths)
  have "ses_cseq s \<noteq> 0xFFFFFFFF" using small by auto
  then obtain r where r: "session_request s c = Some (s\<lparr>ses_cseq := ses_cseq s + 1\<rparr>, r)" "rq_method r = call_method c"
      "request_ok r" "request_seen r = r" "headers_cseq (rq_headers r) = Some (unat (ses_cseq s) + 1)"
    using session_request_issued [OF "2.prems"(1), of c] "2.prems"(2) up by (auto simp: issued_def)
  have "session_ok (s\<lparr>ses_cseq := ses_cseq s + 1\<rparr>)" using "2.prems"(1) by (simp add: session_ok_def)
  then obtain s' rs where rs: "session_run (s\<lparr>ses_cseq := ses_cseq s + 1\<rparr>) es = Some (s', rs)"
      "map rq_method rs = map call_method (calls_of es)"
      "map (\<lambda>r. headers_cseq (rq_headers r)) rs = map Some [unat (ses_cseq s) + 2..<unat (ses_cseq s) + 2 + length rs]"
      "list_all request_ok rs" "map request_seen rs = rs"
    using "2.IH" [OF r(1) refl] "2.prems"(2,3) up by (auto simp del: upt_Suc)
  have "[unat (ses_cseq s) + 1..<unat (ses_cseq s) + 1 + length (r # rs)] =
      (unat (ses_cseq s) + 1) # [unat (ses_cseq s) + 2..<unat (ses_cseq s) + 2 + length rs]"
    by (simp add: upt_conv_Cons del: upt_Suc)
  with r rs show ?case by (simp del: upt_Suc)
next
  case (3 s m r es)
  then show ?case using process_response_ok [of s m r] by (simp add: process_response_cseq)
qed simp

section \<open>The states of a session\<close>

definition client_step :: "client_state \<Rightarrow> client_state \<Rightarrow> bool" where
  "client_step s t \<longleftrightarrow> (\<exists>m. can_send_in s m \<and> t = client_state_after s m)"

fun client_required :: "client_state \<Rightarrow> client_state list" where
  "client_required SS_Ready = [SS_Ready]"
| "client_required SS_Setup = [SS_Ready, SS_Setup]"
| "client_required SS_Playing = [SS_Ready, SS_Setup, SS_Playing]"
| "client_required SS_Paused = [SS_Ready, SS_Setup, SS_Playing, SS_Paused]"
| "client_required _ = []"

interpretation rtsp_client: staged_machine client_step SS_Init client_required
proof unfold_locales
  fix s t
  assume "client_step s t"
  then obtain m where "can_send_in s m" "t = client_state_after s m" by (auto simp: client_step_def)
  then show "Sublist.prefix (client_required t) (client_required s) \<or> client_required t = client_required s @ [t]"
    by (cases s; cases m) (auto simp: can_send_in_def)
qed simp

text \<open>Exchanges in which the client sends only what \<open>can_send\<close> allows, and the states after each.\<close>

fun allowed_run :: "rtsp_session \<Rightarrow> (rtsp_method \<times> rtsp_response) list \<Rightarrow> bool" where
  "allowed_run s [] = True"
| "allowed_run s ((m, r) # xs) = (can_send s m \<and> allowed_run (fst (process_response s m r)) xs)"

fun run_states :: "rtsp_session \<Rightarrow> (rtsp_method \<times> rtsp_response) list \<Rightarrow> client_state list" where
  "run_states s [] = []"
| "run_states s ((m, r) # xs) =
     (let s' = fst (process_response s m r) in ses_state s' # run_states s' xs)"

lemma process_response_state:
  "ses_state (fst (process_response s m r)) =
     (if status_is_success (rp_status r) then client_state_after (ses_state s) m else ses_state s)"
  by (auto simp: process_response_def Let_def split: option.splits)

lemma can_stay: "\<exists>m. can_send_in s m \<and> s = client_state_after s m"
  by (rule exI [of _ Method_Get]) (simp add: can_send_in_def)

lemma allowed_run_follows: "allowed_run s xs \<Longrightarrow> follows client_step (ses_state s) (run_states s xs)"
proof (induction s xs rule: allowed_run.induct)
  case (2 s m r xs)
  have "client_step (ses_state s) (ses_state (fst (process_response s m r)))"
    using 2(2) can_stay by (auto simp: process_response_state client_step_def can_send_def)
  with 2 show ?case by (simp add: Let_def)
qed simp

section \<open>Properties\<close>

text \<open>
  C16. A client session, whatever calls are made and whatever responses are processed between them,
  builds a request for every call, numbers the requests from 1, and the server's parser
  returns exactly these requests from their bytes in any chunks: no call can produce a request
  that the server misreads. Arguments and session identifiers must fit into a header line and
  a body into the server's limit.
\<close>

theorem rtsp_session_requests_received:
  assumes "list_all event_ok es" and "length (calls_of es) < 2 ^ 32"
  shows "\<exists>s rs. session_run (rtsp_session_new device_id session_id address port) es = Some (s, rs)
    \<and> map rq_method rs = map call_method (calls_of es)
    \<and> map (\<lambda>r. headers_cseq (rq_headers r)) rs = map Some [1..<1 + length rs]
    \<and> (\<forall>cs. concat cs = concat (map request_encode rs) \<longrightarrow>
         receive_chunks server_codec_decode (\<lambda>b c. Inr (server_codec_feed b c)) (\<lambda>b. Suc (length b)) [] cs
           = ([], Inr rs))"
proof -
  let ?s = "rtsp_session_new device_id session_id address port"
  have z: "ses_cseq ?s = 0" by (simp add: rtsp_session_new_def)
  obtain s rs where rs: "session_run ?s es = Some (s, rs)" "map rq_method rs = map call_method (calls_of es)"
      "map (\<lambda>r. headers_cseq (rq_headers r)) rs = map Some [1..<1 + length rs]"
      "list_all request_ok rs" "map request_seen rs = rs"
    using session_run_issued [OF session_new_ok [of device_id session_id address port] assms(1)] assms(2) z
    by (auto simp del: upt_Suc)
  have "request_encode r \<noteq> []" for r by (simp add: request_encode_def crlf_def)
  then have "receive_chunks server_codec_decode (\<lambda>b c. Inr (server_codec_feed b c)) (\<lambda>b. Suc (length b)) [] cs
      = ([], Inr rs)" if "concat cs = concat (map request_encode rs)" for cs
    using server.receive_all [OF rs(4), where s = "[]" and p = "[]" and cs = cs and rounds = "\<lambda>b. Suc (length b)"]
      that rs(5) by simp
  with rs show ?thesis by (auto simp del: upt_Suc)
qed

definition session_reply :: "u16 \<Rightarrow> rtsp_response" where
  "session_reply status =
     \<lparr>rp_version = ascii ''RTSP/1.0'', rp_status = status, rp_reason = ascii ''OK'',
      rp_headers = [(SESSION, ascii ''1;timeout=60'')], rp_body = []\<rparr>"

lemma session_reply_ok: "event_ok (Ev_Response m (session_reply n))"
proof -
  have "headers_session (rp_headers (session_reply n)) = Some (ascii ''1;timeout=60'')"
    by (simp add: headers_session_def headers_get_def session_reply_def eq_ignore_ascii_case_def)
  moreover have "server_session_id (ascii ''1;timeout=60'') = ascii ''1''"
    by (simp add: server_session_id_def ascii_def)
  moreover have "line_value (ascii ''1'')" by (simp add: line_value_graphic graphic_def ascii_def)
  ultimately show ?thesis by simp
qed

theorem rtsp_session_requests_received_witness:
  "\<exists>s rs. session_run (rtsp_session_new 1 2 (ascii ''10.0.0.2'') 7000)
       [Ev_Call Call_Options, Ev_Response Method_Options (session_reply 200), Ev_Call (Call_Announce (ascii ''v=0'')),
        Ev_Call (Call_Flush 7 352)] = Some (s, rs)
    \<and> map rq_method rs = [Method_Options, Method_Announce, Method_Flush]
    \<and> map (\<lambda>r. headers_cseq (rq_headers r)) rs = map Some [1..<1 + length rs]
    \<and> (\<forall>cs. concat cs = concat (map request_encode rs) \<longrightarrow>
         receive_chunks server_codec_decode (\<lambda>b c. Inr (server_codec_feed b c)) (\<lambda>b. Suc (length b)) [] cs
           = ([], Inr rs))"
proof -
  let ?es = "[Ev_Call Call_Options, Ev_Response Method_Options (session_reply 200), Ev_Call (Call_Announce (ascii ''v=0'')),
        Ev_Call (Call_Flush 7 352)]"
  have "list_all event_ok ?es"
    using session_reply_ok [of Method_Options 200] by (simp add: body_value_def MAX_BODY_SIZE_def ascii_def)
  from rtsp_session_requests_received [OF this] show ?thesis by (simp del: session_run.simps upt_Suc)
qed

text \<open>
  A client that sends only what \<open>can_send\<close> allows is in the state \<open>Playing\<close> only after
  successful \<open>OPTIONS\<close> and \<open>SETUP\<close> exchanges, in this order and whatever else was exchanged,
  failed requests and earlier teardowns included.
\<close>

theorem rtsp_session_plays_after_setup:
  assumes "allowed_run (rtsp_session_new device_id session_id address port) xs"
    and "run_states (rtsp_session_new device_id session_id address port) xs = trace @ [SS_Playing]"
  shows "subseq [SS_Ready, SS_Setup, SS_Playing] (trace @ [SS_Playing])"
proof -
  let ?s = "rtsp_session_new device_id session_id address port"
  have init: "ses_state ?s = SS_Init" by (simp add: rtsp_session_new_def)
  have "follows client_step SS_Init (trace @ [SS_Playing])"
    using allowed_run_follows [OF assms(1)] assms(2) init by simp
  from follows_steps [OF this, of "[]"]
  have "(trace_step client_step)\<^sup>*\<^sup>* ([], SS_Init) (trace @ [SS_Playing], SS_Playing)" by simp
  from rtsp_client.reachable_required [OF this] show ?thesis by simp
qed

theorem rtsp_session_plays_after_setup_witness:
  "subseq [SS_Ready, SS_Setup, SS_Playing] ([SS_Ready, SS_Setup] @ [SS_Playing])"
  by (rule rtsp_session_plays_after_setup [of 1 2 "ascii ''10.0.0.2''" 7000
        "[(Method_Options, session_reply 200), (Method_Setup, session_reply 200), (Method_Record, session_reply 200)]"])
    (simp_all add: can_send_def process_response_state can_send_in_def session_reply_def status_is_success_def
      rtsp_session_new_def Let_def)

text \<open>
  An \<open>OPTIONS\<close> exchange, which is allowed in every state and serves as a keep-alive, takes a
  playing session back to \<open>Ready\<close>, where no request that controls playback is allowed.
\<close>

theorem rtsp_options_ends_playing:
  assumes "ses_state s = SS_Playing" and "status_is_success (rp_status r)"
  shows "can_send s Method_Options \<and> ses_state (fst (process_response s Method_Options r)) = SS_Ready
    \<and> \<not> can_send (fst (process_response s Method_Options r)) Method_Pause
    \<and> \<not> can_send (fst (process_response s Method_Options r)) Method_Flush
    \<and> \<not> can_send (fst (process_response s Method_Options r)) Method_SetParameter"
  using assms by (simp add: can_send_def process_response_state can_send_in_def)

theorem rtsp_options_ends_playing_witness:
  "\<not> can_send (fst (process_response ((rtsp_session_new 1 2 [] 7000)\<lparr>ses_state := SS_Playing\<rparr>)
      Method_Options (session_reply 200))) Method_Flush"
  using rtsp_options_ends_playing [of "(rtsp_session_new 1 2 [] 7000)\<lparr>ses_state := SS_Playing\<rparr>" "session_reply 200"]
  by (simp add: session_reply_def status_is_success_def)

end
