(* ===== verification/Sdp.thy ===== *)
theory Sdp
  imports Rtsp_Session
begin

text \<open>
  Session descriptions, \<open>src/protocol/sdp\<close>: the data and its queries of \<open>mod.rs\<close>, the parser of
  \<open>parser.rs\<close>, the builder and the encoder of \<open>builder.rs\<close>.

  A hash map of attributes is the list of its entries in iteration order. A slice of a string
  that does not start at a character is a panic, and the parser then gives \<open>None\<close>.
\<close>

section \<open>Descriptions\<close>

type_synonym sdp_attributes = "(str \<times> str option) list"

record sdp_origin =
  so_username :: str
  so_session_id :: str
  so_session_version :: str
  so_net_type :: str
  so_addr_type :: str
  so_unicast_address :: str

record sdp_connection =
  sc_net_type :: str
  sc_addr_type :: str
  sc_address :: str

record media_description =
  md_media_type :: str
  md_port :: u16
  md_protocol :: str
  md_formats :: "str list"
  md_attributes :: sdp_attributes

record session_description =
  sd_version :: u8
  sd_origin :: "sdp_origin option"
  sd_session_name :: str
  sd_connection :: "sdp_connection option"
  sd_timing :: "(u64 \<times> u64) option"
  sd_media :: "media_description list"
  sd_attributes :: sdp_attributes

definition sdp_default :: session_description where
  "sdp_default = \<lparr>sd_version = 0, sd_origin = None, sd_session_name = [], sd_connection = None, sd_timing = None,
     sd_media = [], sd_attributes = []\<rparr>"

definition attributes_insert :: "sdp_attributes \<Rightarrow> str \<Rightarrow> str option \<Rightarrow> sdp_attributes" where
  "attributes_insert a name v = filter (\<lambda>(k, _). k \<noteq> name) a @ [(name, v)]"

definition get_attribute :: "session_description \<Rightarrow> str \<Rightarrow> str option" where
  "get_attribute d name = Option.bind (map_of (sd_attributes d) name) (\<lambda>v. v)"

definition media_get_attribute :: "media_description \<Rightarrow> str \<Rightarrow> str option" where
  "media_get_attribute m name = Option.bind (map_of (md_attributes m) name) (\<lambda>v. v)"

definition audio_media :: "session_description \<Rightarrow> media_description option" where
  "audio_media d = find (\<lambda>m. md_media_type m = ascii ''audio'') (sd_media d)"

definition sdp_key_attribute :: "session_description \<Rightarrow> str \<Rightarrow> str option" where
  "sdp_key_attribute d name =
     Option.bind (audio_media d) (\<lambda>m. Option.bind (map_of (md_attributes m) name)
       (\<lambda>v. case v of Some s \<Rightarrow> Some s | None \<Rightarrow> get_attribute d name))"

definition sdp_rsaaeskey :: "session_description \<Rightarrow> str option" where
  "sdp_rsaaeskey d = sdp_key_attribute d (ascii ''rsaaeskey'')"

definition sdp_aesiv :: "session_description \<Rightarrow> str option" where
  "sdp_aesiv d = sdp_key_attribute d (ascii ''aesiv'')"

definition sdp_fmtp :: "session_description \<Rightarrow> str option" where
  "sdp_fmtp d = Option.bind (audio_media d) (\<lambda>m. media_get_attribute m (ascii ''fmtp''))"

definition sdp_rtpmap :: "session_description \<Rightarrow> str option" where
  "sdp_rtpmap d = Option.bind (audio_media d) (\<lambda>m. media_get_attribute m (ascii ''rtpmap''))"

section \<open>The parser\<close>

datatype sdp_parse_error =
    InvalidVersion | InvalidOrigin str | InvalidConnection str | InvalidMedia str | InvalidAttribute str
  | MissingField str

definition parse_u64 :: "str \<Rightarrow> u64 option" where
  "parse_u64 s = map_option of_nat (parse_unsigned (2 ^ 64) s)"

definition unwrap_or :: "'a option \<Rightarrow> 'a \<Rightarrow> 'a" where
  "unwrap_or x d = (case x of None \<Rightarrow> d | Some y \<Rightarrow> y)"

definition parse_origin :: "str \<Rightarrow> (sdp_parse_error, sdp_origin) result" where
  "parse_origin v =
     (let parts = split_whitespace v in
      if length parts < 6 then Inl (InvalidOrigin v)
      else Inr \<lparr>so_username = parts ! 0, so_session_id = parts ! 1, so_session_version = parts ! 2,
                so_net_type = parts ! 3, so_addr_type = parts ! 4, so_unicast_address = parts ! 5\<rparr>)"

definition parse_connection :: "str \<Rightarrow> (sdp_parse_error, sdp_connection) result" where
  "parse_connection v =
     (let parts = split_whitespace v in
      if length parts < 3 then Inl (InvalidConnection v)
      else Inr \<lparr>sc_net_type = parts ! 0, sc_addr_type = parts ! 1, sc_address = parts ! 2\<rparr>)"

definition parse_media :: "str \<Rightarrow> (sdp_parse_error, media_description) result" where
  "parse_media v =
     (let parts = split_whitespace v in
      if length parts < 4 then Inl (InvalidMedia v)
      else Inr \<lparr>md_media_type = parts ! 0, md_port = unwrap_or (parse_u16 (parts ! 1)) 0, md_protocol = parts ! 2,
                md_formats = drop 3 parts, md_attributes = []\<rparr>)"

definition parse_attribute :: "str \<Rightarrow> str \<times> str option" where
  "parse_attribute v =
     (case find_sub (ascii '':'') v of
        Some colon_pos \<Rightarrow> (take colon_pos v, Some (drop (colon_pos + 1) v))
      | None \<Rightarrow> (v, None))"

text \<open>The second character of a string, and whether a slice may start at a byte position.\<close>

definition second_char_is :: "str \<Rightarrow> u8 \<Rightarrow> bool" where
  "second_char_is s c \<longleftrightarrow> (let n = snd (utf8_step s) in n < length s \<and> s ! n = c)"

definition is_char_boundary :: "str \<Rightarrow> nat \<Rightarrow> bool" where
  "is_char_boundary s i \<longleftrightarrow> i = length s \<or> i < length s \<and> \<not> utf8_cont s i"

type_synonym sdp_state = "session_description \<times> media_description option"

definition close_media :: "sdp_state \<Rightarrow> session_description" where
  "close_media st =
     (case st of (d, None) \<Rightarrow> d | (d, Some m) \<Rightarrow> d\<lparr>sd_media := sd_media d @ [m]\<rparr>)"

definition sdp_field :: "sdp_state \<Rightarrow> u8 \<Rightarrow> str \<Rightarrow> (sdp_parse_error, sdp_state) result" where
  "sdp_field st type_char v =
     (case st of (d, current) \<Rightarrow>
      if type_char = 118 then
        (case parse_u8 v of None \<Rightarrow> Inl InvalidVersion | Some n \<Rightarrow> Inr (d\<lparr>sd_version := n\<rparr>, current))
      else if type_char = 111 then
        (case parse_origin v of Inl e \<Rightarrow> Inl e | Inr x \<Rightarrow> Inr (d\<lparr>sd_origin := Some x\<rparr>, current))
      else if type_char = 115 then Inr (d\<lparr>sd_session_name := v\<rparr>, current)
      else if type_char = 99 then
        (case parse_connection v of
           Inl e \<Rightarrow> Inl e
         | Inr conn \<Rightarrow> Inr (if current \<noteq> None then d else d\<lparr>sd_connection := Some conn\<rparr>, current))
      else if type_char = 116 then
        (let parts = split_whitespace v in
         if 2 \<le> length parts
         then Inr (d\<lparr>sd_timing := Some (unwrap_or (parse_u64 (parts ! 0)) 0, unwrap_or (parse_u64 (parts ! 1)) 0)\<rparr>, current)
         else Inr (d, current))
      else if type_char = 109 then
        (case parse_media v of Inl e \<Rightarrow> Inl e | Inr m \<Rightarrow> Inr (close_media (d, current), Some m))
      else if type_char = 97 then
        (case parse_attribute v of (name, av) \<Rightarrow>
           (case current of
              Some m \<Rightarrow> Inr (d, Some (m\<lparr>md_attributes := attributes_insert (md_attributes m) name av\<rparr>))
            | None \<Rightarrow> Inr (d\<lparr>sd_attributes := attributes_insert (sd_attributes d) name av\<rparr>, None)))
      else Inr (d, current))"

definition sdp_line :: "sdp_state \<Rightarrow> str \<Rightarrow> (sdp_parse_error, sdp_state) result option" where
  "sdp_line st raw =
     (let line = trim raw in
      if line = [] then Some (Inr st)
      else if length line < 2 \<or> \<not> second_char_is line 61 then Some (Inr st)
      else if \<not> is_char_boundary line 2 then None
      else if snd (utf8_step line) \<noteq> 1 then Some (Inr st)
      else Some (sdp_field st (hd line) (drop 2 line)))"

fun sdp_lines :: "sdp_state \<Rightarrow> str list \<Rightarrow> (sdp_parse_error, sdp_state) result option" where
  "sdp_lines st [] = Some (Inr st)"
| "sdp_lines st (l # ls) =
     (case sdp_line st l of
        None \<Rightarrow> None
      | Some (Inl e) \<Rightarrow> Some (Inl e)
      | Some (Inr st') \<Rightarrow> sdp_lines st' ls)"

definition sdp_parse :: "str \<Rightarrow> (sdp_parse_error, session_description) result option" where
  "sdp_parse input = map_option (map_sum (\<lambda>e. e) close_media) (sdp_lines (sdp_default, None) (rust_lines input))"

section \<open>The builder\<close>

record sdp_builder =
  bd_sdp :: session_description
  bd_current_media :: "media_description option"

definition sdp_builder_new :: sdp_builder where
  "sdp_builder_new = \<lparr>bd_sdp = sdp_default, bd_current_media = None\<rparr>"

definition address_type :: "str \<Rightarrow> str" where
  "address_type addr = (if str_contains addr (ascii '':'') then ascii ''IP6'' else ascii ''IP4'')"

definition sdp_with_origin :: "sdp_builder \<Rightarrow> str \<Rightarrow> str \<Rightarrow> str \<Rightarrow> sdp_builder" where
  "sdp_with_origin b username session_id addr =
     b\<lparr>bd_sdp := (bd_sdp b)\<lparr>sd_origin := Some
        \<lparr>so_username = username, so_session_id = session_id, so_session_version = ascii ''1'',
         so_net_type = ascii ''IN'', so_addr_type = address_type addr, so_unicast_address = addr\<rparr>\<rparr>\<rparr>"

definition sdp_with_session_name :: "sdp_builder \<Rightarrow> str \<Rightarrow> sdp_builder" where
  "sdp_with_session_name b name = b\<lparr>bd_sdp := (bd_sdp b)\<lparr>sd_session_name := name\<rparr>\<rparr>"

definition sdp_with_connection :: "sdp_builder \<Rightarrow> str \<Rightarrow> sdp_builder" where
  "sdp_with_connection b addr =
     b\<lparr>bd_sdp := (bd_sdp b)\<lparr>sd_connection := Some
        \<lparr>sc_net_type = ascii ''IN'', sc_addr_type = address_type addr, sc_address = addr\<rparr>\<rparr>\<rparr>"

definition sdp_with_timing :: "sdp_builder \<Rightarrow> u64 \<Rightarrow> u64 \<Rightarrow> sdp_builder" where
  "sdp_with_timing b start stop = b\<lparr>bd_sdp := (bd_sdp b)\<lparr>sd_timing := Some (start, stop)\<rparr>\<rparr>"

definition sdp_with_attribute :: "sdp_builder \<Rightarrow> str \<Rightarrow> str option \<Rightarrow> sdp_builder" where
  "sdp_with_attribute b name v =
     b\<lparr>bd_sdp := (bd_sdp b)\<lparr>sd_attributes := attributes_insert (sd_attributes (bd_sdp b)) name v\<rparr>\<rparr>"

definition sdp_with_media :: "sdp_builder \<Rightarrow> str \<Rightarrow> u16 \<Rightarrow> str \<Rightarrow> str list \<Rightarrow> sdp_builder" where
  "sdp_with_media b media_type port protocol formats =
     \<lparr>bd_sdp = close_media (bd_sdp b, bd_current_media b),
      bd_current_media = Some \<lparr>md_media_type = media_type, md_port = port, md_protocol = protocol,
        md_formats = formats, md_attributes = []\<rparr>\<rparr>"

definition sdp_with_media_attribute :: "sdp_builder \<Rightarrow> str \<Rightarrow> str option \<Rightarrow> sdp_builder" where
  "sdp_with_media_attribute b name v =
     b\<lparr>bd_current_media := map_option
        (\<lambda>m. m\<lparr>md_attributes := attributes_insert (md_attributes m) name v\<rparr>) (bd_current_media b)\<rparr>"

definition sdp_build :: "sdp_builder \<Rightarrow> session_description" where
  "sdp_build b = close_media (bd_sdp b, bd_current_media b)"

definition attribute_line :: "str \<times> str option \<Rightarrow> str" where
  "attribute_line a =
     (case a of (name, Some v) \<Rightarrow> ascii ''a='' @ name @ ascii '':'' @ v | (name, None) \<Rightarrow> ascii ''a='' @ name)"

definition media_lines :: "media_description \<Rightarrow> str list" where
  "media_lines m =
     (ascii ''m='' @ md_media_type m @ ascii '' '' @ dec_string (unat (md_port m)) @ ascii '' '' @ md_protocol m
      @ ascii '' '' @ join_by (ascii '' '') (md_formats m)) # map attribute_line (md_attributes m)"

definition origin_line :: "sdp_origin \<Rightarrow> str" where
  "origin_line x =
     ascii ''o='' @ join_by (ascii '' '') [so_username x, so_session_id x, so_session_version x, so_net_type x,
       so_addr_type x, so_unicast_address x]"

definition connection_line :: "sdp_connection \<Rightarrow> str" where
  "connection_line c = ascii ''c='' @ join_by (ascii '' '') [sc_net_type c, sc_addr_type c, sc_address c]"

definition timing_line :: "u64 \<times> u64 \<Rightarrow> str" where
  "timing_line t = ascii ''t='' @ join_by (ascii '' '') [dec_string (unat (fst t)), dec_string (unat (snd t))]"

definition encode_sdp :: "session_description \<Rightarrow> str" where
  "encode_sdp d =
     line_block ([ascii ''v='' @ dec_string (unat (sd_version d))]
       @ (case sd_origin d of None \<Rightarrow> [] | Some x \<Rightarrow> [origin_line x])
       @ [ascii ''s='' @ sd_session_name d]
       @ (case sd_connection d of None \<Rightarrow> [] | Some c \<Rightarrow> [connection_line c])
       @ (case sd_timing d of None \<Rightarrow> [] | Some t \<Rightarrow> [timing_line t])
       @ map attribute_line (sd_attributes d)
       @ concat (map media_lines (sd_media d)))"

definition sdp_encode :: "sdp_builder \<Rightarrow> str" where
  "sdp_encode b = encode_sdp (sdp_build b)"

definition raop_announce_description :: "str \<Rightarrow> str \<Rightarrow> str \<Rightarrow> str \<Rightarrow> str \<Rightarrow> session_description" where
  "raop_announce_description session_id client_ip server_ip rsaaeskey aesiv =
     (let b = sdp_with_origin sdp_builder_new (ascii ''iTunes'') session_id client_ip;
          b = sdp_with_session_name b (ascii ''iTunes'');
          b = sdp_with_connection b server_ip;
          b = sdp_with_timing b 0 0;
          b = sdp_with_media b (ascii ''audio'') 0 (ascii ''RTP/AVP'') [ascii ''96''];
          b = sdp_with_media_attribute b (ascii ''rtpmap'') (Some (ascii ''96 AppleLossless''));
          b = sdp_with_media_attribute b (ascii ''fmtp'') (Some (ascii ''96 352 0 16 40 10 14 2 255 0 0 44100''));
          b = sdp_with_media_attribute b (ascii ''rsaaeskey'') (Some rsaaeskey);
          b = sdp_with_media_attribute b (ascii ''aesiv'') (Some aesiv);
          b = sdp_with_media_attribute b (ascii ''min-latency'') (Some (ascii ''11025''))
      in sdp_build b)"

definition create_raop_announce_sdp :: "str \<Rightarrow> str \<Rightarrow> str \<Rightarrow> str \<Rightarrow> str \<Rightarrow> str" where
  "create_raop_announce_sdp session_id client_ip server_ip rsaaeskey aesiv =
     encode_sdp (raop_announce_description session_id client_ip server_ip rsaaeskey aesiv)"

section \<open>Reading what is written\<close>

lemma ws_wide_high: "w \<in> set ws_wide2 \<Longrightarrow> b \<in> set w \<Longrightarrow> 127 < b" "w \<in> set ws_wide3 \<Longrightarrow> b \<in> set w \<Longrightarrow> 127 < b"
  by (auto simp: ws_wide2_def ws_wide3_def)

lemma rev_take_wide:
  assumes "(c :: u8) < 128" and "\<And>w. w \<in> S \<Longrightarrow> length w = n \<and> (\<forall>b\<in>set w. 127 < b)"
  shows "rev (take n (s @ c # r)) \<in> S \<longleftrightarrow> rev (take n s) \<in> S"
proof (cases "n \<le> length s")
  case False
  then have "c \<in> set (rev (take n (s @ c # r)))" and "length (rev (take n s)) \<noteq> n"
    by (auto simp: take_Cons')
  moreover have "\<not> 127 < c" using assms(1) by (simp add: word_less_nat_alt)
  ultimately show ?thesis using assms(2) by blast
qed simp

lemma ws_rev_append:
  assumes "c < 128" and "v \<noteq> []"
  shows "ws_rev_len (rev (p @ c # v)) = ws_rev_len (rev v)"
proof -
  have "rev (take 2 (rev v @ c # rev p)) \<in> set ws_wide2 \<longleftrightarrow> rev (take 2 (rev v)) \<in> set ws_wide2"
    by (rule rev_take_wide [OF assms(1)]) (auto simp: ws_wide_length ws_wide_high)
  moreover have "rev (take 3 (rev v @ c # rev p)) \<in> set ws_wide3 \<longleftrightarrow> rev (take 3 (rev v)) \<in> set ws_wide3"
    by (rule rev_take_wide [OF assms(1)]) (auto simp: ws_wide_length ws_wide_high)
  ultimately show ?thesis using assms(2) by (simp add: ws_rev_len_def hd_append)
qed

lemma ws_rev_ascii:
  assumes "c < 128" and "\<not> ws_ascii c"
  shows "ws_rev_len (rev (p @ [c])) = 0"
proof -
  have "rev (take 2 ([] @ c # rev p)) \<in> set ws_wide2 \<longleftrightarrow> rev (take 2 []) \<in> set ws_wide2"
    by (rule rev_take_wide [OF assms(1)]) (auto simp: ws_wide_length ws_wide_high)
  moreover have "rev (take 3 ([] @ c # rev p)) \<in> set ws_wide3 \<longleftrightarrow> rev (take 3 []) \<in> set ws_wide3"
    by (rule rev_take_wide [OF assms(1)]) (auto simp: ws_wide_length ws_wide_high)
  moreover have "[] \<notin> set ws_wide2" "[] \<notin> set ws_wide3" by (auto simp: ws_wide2_def ws_wide3_def)
  ultimately show ?thesis using assms(2) by (simp add: ws_rev_len_def)
qed

lemma ws_rev_prefix:
  "c < 128 \<Longrightarrow> \<not> ws_ascii c \<Longrightarrow> ws_rev_len (rev v) = 0 \<Longrightarrow> ws_rev_len (rev (p @ c # v)) = 0"
  using ws_rev_append [of c v p] ws_rev_ascii [of c p] by (cases "v = []") simp_all

lemma no_ws_tl: "no_ws (b # s) \<Longrightarrow> no_ws s"
  by (auto simp: no_ws_def split: if_splits prod.splits)

lemma no_ws_drop: "no_ws s \<Longrightarrow> no_ws (drop n s)"
  by (induction n arbitrary: s) (auto simp: drop_Suc neq_Nil_conv dest: no_ws_tl split: list.splits,
      metis drop_Nil list.collapse list.sel(2) no_ws_tl)

lemma no_ws_end:
  assumes "no_ws s"
  shows "ws_rev_len (rev s) = 0"
proof (rule ccontr)
  assume ws: "ws_rev_len (rev s) \<noteq> 0"
  then have "s \<noteq> []" by auto
  then have b: "\<not> ws_ascii (last s)" using no_ws_bytes [OF assms, of "last s"] by simp
  have suffix: "rev (take n (rev s)) = drop (length s - n) s" for n by (simp add: take_rev)
  have "w \<in> set ws_wide2 \<union> set ws_wide3 \<Longrightarrow> w \<noteq> [] \<and> ws_len w \<noteq> 0" for w
    by (auto simp: ws_wide2_def ws_wide3_def ws_len_def ws_ascii_def)
  then have "drop (length s - n) s \<notin> set ws_wide2 \<union> set ws_wide3" for n
    using no_ws_front [OF no_ws_drop [OF assms]] by blast
  then show False
    using ws b \<open>s \<noteq> []\<close> by (simp add: ws_rev_len_def suffix hd_rev split: if_splits)
qed

lemma split_whitespace_join:
  "list_all (\<lambda>w. w \<noteq> [] \<and> no_ws w) ws \<Longrightarrow> split_whitespace (join_by (ascii '' '') ws) = ws"
  by (induction "ascii '' ''" ws rule: join_by.induct)
    (simp_all add: split_whitespace_word, simp add: split_whitespace_words ascii_def)

lemma rust_lines_whole: "list_all (\<lambda>l. 10 \<notin> set l) ls \<Longrightarrow> rust_lines (line_block ls) = ls"
  by (induction ls) (simp_all add: line_block_def crlf_def rust_lines_line rust_lines.simps [of "[]"])

definition line_text :: "str \<Rightarrow> bool" where
  "line_text v \<longleftrightarrow> utf8_valid v \<and> 10 \<notin> set v \<and> ws_rev_len (rev v) = 0"

definition word_ok :: "str \<Rightarrow> bool" where
  "word_ok w \<longleftrightarrow> w \<noteq> [] \<and> no_ws w \<and> utf8_valid w"

lemma utf8_hd_boundary: "utf8_valid v \<Longrightarrow> v \<noteq> [] \<Longrightarrow> \<not> (0x80 \<le> hd v \<and> hd v \<le> 0xBF)"
  by (subst (asm) utf8_valid.simps) (auto simp: utf8_step_def Let_def word_le_nat_alt word_less_nat_alt split: if_splits)

lemma sdp_line_field:
  assumes "t < 128" and "\<not> ws_ascii t" and "line_text v"
  shows "sdp_line st (t # 61 # v) = Some (sdp_field st t v)"
proof -
  have v: "utf8_valid v" "ws_rev_len (rev v) = 0" using assms(3) by (simp_all add: line_text_def)
  have "w \<in> set ws_wide2 \<union> set ws_wide3 \<Longrightarrow> w \<noteq> [] \<and> 127 < hd w" for w
    using ws_wide_ends by (auto simp: ws_wide2_def ws_wide3_def)
  moreover have "\<not> 127 < t" using assms(1) by (simp add: word_less_nat_alt)
  ultimately have "take 2 (t # 61 # v) \<notin> set ws_wide2" and "take 3 (t # 61 # v) \<notin> set ws_wide3"
    by (force simp: numeral_3_eq_3 numeral_2_eq_2)+
  then have "ws_len (t # 61 # v) = 0" using assms(2) by (simp add: ws_len_def)
  moreover have "ws_rev_len (rev ([t] @ 61 # v)) = 0"
    by (rule ws_rev_prefix) (simp_all add: v ws_ascii_def)
  ultimately have trim: "trim (t # 61 # v) = t # 61 # v" by (simp add: trim_trimmed trimmed_def)
  have step: "snd (utf8_step (t # 61 # v)) = 1" using assms(1) by (simp add: utf8_step_def)
  have "is_char_boundary (t # 61 # v) 2"
    using utf8_hd_boundary [OF v(1)] by (cases v) (auto simp: is_char_boundary_def utf8_cont_def)
  then show ?thesis by (simp add: sdp_line_def trim step second_char_is_def Let_def)
qed

lemma line_text_words:
  assumes "ws \<noteq> []" and "list_all word_ok ws"
  shows "line_text (join_by (ascii '' '') ws)"
  using assms
proof (induction "ascii '' ''" ws rule: join_by.induct)
  case (2 w)
  then show ?case using no_ws_end [of w] no_ws_line [of w] by (simp add: line_text_def word_ok_def)
next
  case (3 w t ws)
  let ?j = "join_by (ascii '' '') (t # ws)"
  have j: "line_text ?j" using 3 by simp
  have "?j \<noteq> []" using 3 by (cases ws) (simp_all add: word_ok_def)
  then have "ws_rev_len (rev (w @ 32 # ?j)) = 0" using ws_rev_append [of 32 ?j w] j by (simp add: line_text_def)
  moreover have "utf8_valid (w @ 32 # ?j)" using 3 j by (intro utf8_valid_append) (simp_all add: word_ok_def line_text_def)
  moreover have "10 \<notin> set w" using 3 no_ws_line [of w] by (simp add: word_ok_def)
  ultimately show ?case using j by (simp add: line_text_def ascii_def del: rev_append)
qed simp

section \<open>Well-formed descriptions\<close>

fun attribute_ok :: "str \<times> str option \<Rightarrow> bool" where
  "attribute_ok (n, None) \<longleftrightarrow> line_text n \<and> 58 \<notin> set n"
| "attribute_ok (n, Some v) \<longleftrightarrow> utf8_valid n \<and> 10 \<notin> set n \<and> 58 \<notin> set n \<and> line_text v"

definition attributes_ok :: "sdp_attributes \<Rightarrow> bool" where
  "attributes_ok a \<longleftrightarrow> list_all attribute_ok a \<and> distinct (map fst a)"

definition origin_words :: "sdp_origin \<Rightarrow> str list" where
  "origin_words x = [so_username x, so_session_id x, so_session_version x, so_net_type x, so_addr_type x,
     so_unicast_address x]"

definition connection_words :: "sdp_connection \<Rightarrow> str list" where
  "connection_words c = [sc_net_type c, sc_addr_type c, sc_address c]"

definition media_ok :: "media_description \<Rightarrow> bool" where
  "media_ok m \<longleftrightarrow> word_ok (md_media_type m) \<and> word_ok (md_protocol m) \<and> md_formats m \<noteq> []
     \<and> list_all word_ok (md_formats m) \<and> attributes_ok (md_attributes m)"

definition sdp_ok :: "session_description \<Rightarrow> bool" where
  "sdp_ok d \<longleftrightarrow> pred_option (\<lambda>x. list_all word_ok (origin_words x)) (sd_origin d) \<and> line_text (sd_session_name d)
     \<and> pred_option (\<lambda>c. list_all word_ok (connection_words c)) (sd_connection d)
     \<and> attributes_ok (sd_attributes d) \<and> list_all media_ok (sd_media d)"

lemma word_split: "list_all word_ok ws \<Longrightarrow> split_whitespace (join_by (ascii '' '') ws) = ws"
  by (rule split_whitespace_join) (auto simp: list_all_iff word_ok_def)

lemma word_ok_dec: "word_ok (dec_string n)"
  using dec_string_graphic [of n] dec_string_digits [of n] by (simp add: word_ok_def graphic_no_ws graphic_utf8)

lemma line_text_dec: "line_text (dec_string n)"
  using line_text_words [of "[dec_string n]"] word_ok_dec by simp

lemma parse_dec_words:
  "parse_u8 (dec_string (unat (a :: u8))) = Some a" "parse_u16 (dec_string (unat (b :: u16))) = Some b"
  "parse_u32 (dec_string (unat (e :: u32))) = Some e" "parse_u64 (dec_string (unat (c :: u64))) = Some c"
  using unat_less_u8 [of a] unat_less_u16 [of b] unat_less_u64 [of c] unat_less_u32 [of e]
  by (simp_all add: parse_u8_def parse_u16_def parse_u32_def parse_u64_def parse_dec_string)

lemma parse_attribute_line:
  "attribute_ok (n, v) \<Longrightarrow> \<exists>t. attribute_line (n, v) = 97 # 61 # t \<and> line_text t \<and> parse_attribute t = (n, v)"
proof (cases v)
  case None
  assume "attribute_ok (n, v)"
  moreover have "58 \<notin> set n \<Longrightarrow> find_sub [58] n = None" by (induction n) auto
  ultimately show ?thesis using None by (simp add: attribute_line_def parse_attribute_def ascii_def)
next
  case (Some w)
  assume "attribute_ok (n, v)"
  with Some have a: "utf8_valid n" "10 \<notin> set n" "58 \<notin> set n" "line_text w" by simp_all
  have "ws_rev_len (rev (n @ 58 # w)) = 0"
    using a(4) by (intro ws_rev_prefix) (simp_all add: line_text_def ws_ascii_def)
  moreover have "utf8_valid (n @ 58 # w)" using a by (intro utf8_valid_append) (simp_all add: line_text_def)
  ultimately have "line_text (n @ 58 # w)" using a by (simp add: line_text_def)
  then show ?thesis using Some find_colon [OF a(3), of w]
    by (simp add: attribute_line_def parse_attribute_def ascii_def)
qed

lemma attributes_insert_new: "n \<notin> fst ` set a \<Longrightarrow> attributes_insert a n v = a @ [(n, v)]"
  by (force simp: attributes_insert_def filter_id_conv)

lemma session_attribute_lines:
  assumes "list_all attribute_ok as" and "distinct (map fst (sd_attributes d @ as))"
  shows "sdp_lines (d, None) (map attribute_line as @ ls) =
    sdp_lines (d\<lparr>sd_attributes := sd_attributes d @ as\<rparr>, None) ls"
  using assms
proof (induction "as" arbitrary: d)
  case (Cons a as)
  obtain n v where a: "a = (n, v)" by (cases a)
  then obtain t where t: "attribute_line a = 97 # 61 # t" "line_text t" "parse_attribute t = (n, v)"
    using parse_attribute_line [of n v] Cons.prems by auto
  have "n \<notin> fst ` set (sd_attributes d)" using Cons.prems(2) a by auto
  then have "sdp_line (d, None) (attribute_line a) = Some (Inr (d\<lparr>sd_attributes := sd_attributes d @ [a]\<rparr>, None))"
    using t by (simp add: sdp_line_field ws_ascii_def sdp_field_def attributes_insert_new a)
  with Cons.IH [of "d\<lparr>sd_attributes := sd_attributes d @ [a]\<rparr>"] Cons.prems show ?case by simp
qed simp

lemma media_attribute_lines:
  assumes "list_all attribute_ok as" and "distinct (map fst (md_attributes m @ as))"
  shows "sdp_lines (d, Some m) (map attribute_line as @ ls) =
    sdp_lines (d, Some (m\<lparr>md_attributes := md_attributes m @ as\<rparr>)) ls"
  using assms
proof (induction "as" arbitrary: m)
  case (Cons a as)
  obtain n v where a: "a = (n, v)" by (cases a)
  then obtain t where t: "attribute_line a = 97 # 61 # t" "line_text t" "parse_attribute t = (n, v)"
    using parse_attribute_line [of n v] Cons.prems by auto
  have "n \<notin> fst ` set (md_attributes m)" using Cons.prems(2) a by auto
  then have "sdp_line (d, Some m) (attribute_line a) = Some (Inr (d, Some (m\<lparr>md_attributes := md_attributes m @ [a]\<rparr>)))"
    using t by (simp add: sdp_line_field ws_ascii_def sdp_field_def attributes_insert_new a)
  with Cons.IH [of "m\<lparr>md_attributes := md_attributes m @ [a]\<rparr>"] Cons.prems show ?case by simp
qed simp

lemma join_by_words: "join_by sep (a # b # ws) = a @ sep @ join_by sep (b # ws)"
  by simp

lemma media_section:
  assumes "media_ok m"
  shows "sdp_lines st (media_lines m @ ls) = sdp_lines (close_media st, Some m) ls"
proof -
  let ?ws = "md_media_type m # dec_string (unat (md_port m)) # md_protocol m # md_formats m"
  let ?v = "join_by (ascii '' '') ?ws"
  have words: "list_all word_ok ?ws" using assms word_ok_dec by (simp add: media_ok_def)
  obtain f fs where fs: "md_formats m = f # fs" using assms by (cases "md_formats m") (simp_all add: media_ok_def)
  have head: "media_lines m = (109 # 61 # ?v) # map attribute_line (md_attributes m)"
    by (simp add: media_lines_def fs ascii_def)
  have "parse_media ?v = Inr (m\<lparr>md_attributes := []\<rparr>)"
    using word_split [OF words] by (simp add: parse_media_def Let_def fs parse_dec_words unwrap_or_def)
  then have "sdp_line st (109 # 61 # ?v) = Some (Inr (close_media st, Some (m\<lparr>md_attributes := []\<rparr>)))"
    using line_text_words [OF _ words] by (cases st) (simp add: sdp_line_field ws_ascii_def sdp_field_def)
  then show ?thesis
    using media_attribute_lines [of "md_attributes m" "m\<lparr>md_attributes := []\<rparr>"] assms
    by (simp add: head media_ok_def attributes_ok_def)
qed

lemma media_sections:
  assumes "list_all media_ok ms"
  shows "\<exists>st'. sdp_lines st (concat (map media_lines ms)) = Some (Inr st')
    \<and> close_media st' = (close_media st)\<lparr>sd_media := sd_media (close_media st) @ ms\<rparr>"
  using assms
proof (induction ms arbitrary: st)
  case (Cons m ms)
  obtain st' where "sdp_lines (close_media st, Some m) (concat (map media_lines ms)) = Some (Inr st')"
      "close_media st' = (close_media (close_media st, Some m))\<lparr>sd_media := sd_media (close_media (close_media st, Some m)) @ ms\<rparr>"
    using Cons.IH [of "(close_media st, Some m)"] Cons.prems by auto
  moreover have "close_media (close_media st, Some m) = (close_media st)\<lparr>sd_media := sd_media (close_media st) @ [m]\<rparr>"
    by (simp add: close_media_def)
  ultimately show ?case using Cons.prems by (simp add: media_section)
qed simp

lemma origin_read:
  assumes "pred_option (\<lambda>x. list_all word_ok (origin_words x)) x" and "sd_origin d = None"
  shows "sdp_lines (d, None) ((case x of None \<Rightarrow> [] | Some y \<Rightarrow> [origin_line y]) @ ls) = sdp_lines (d\<lparr>sd_origin := x\<rparr>, None) ls"
proof (cases x)
  case (Some y)
  let ?v = "join_by (ascii '' '') (origin_words y)"
  have words: "list_all word_ok (origin_words y)" using assms Some by simp
  have "parse_origin ?v = Inr y" using word_split [OF words] by (simp add: parse_origin_def origin_words_def)
  moreover have "line_text ?v" by (rule line_text_words [OF _ words]) (simp add: origin_words_def)
  moreover have "origin_line y = 111 # 61 # ?v" by (simp add: origin_line_def origin_words_def ascii_def)
  ultimately show ?thesis using Some by (simp add: sdp_line_field ws_ascii_def sdp_field_def)
qed (use assms(2) in \<open>cases d, simp\<close>)

lemma connection_read:
  assumes "pred_option (\<lambda>x. list_all word_ok (connection_words x)) x" and "sd_connection d = None"
  shows "sdp_lines (d, None) ((case x of None \<Rightarrow> [] | Some y \<Rightarrow> [connection_line y]) @ ls) =
    sdp_lines (d\<lparr>sd_connection := x\<rparr>, None) ls"
proof (cases x)
  case (Some y)
  let ?v = "join_by (ascii '' '') (connection_words y)"
  have words: "list_all word_ok (connection_words y)" using assms Some by simp
  have "parse_connection ?v = Inr y" using word_split [OF words] by (simp add: parse_connection_def connection_words_def)
  moreover have "line_text ?v" by (rule line_text_words [OF _ words]) (simp add: connection_words_def)
  moreover have "connection_line y = 99 # 61 # ?v" by (simp add: connection_line_def connection_words_def ascii_def)
  ultimately show ?thesis using Some by (simp add: sdp_line_field ws_ascii_def sdp_field_def)
qed (use assms(2) in \<open>cases d, simp\<close>)

lemma timing_read:
  assumes "sd_timing d = None"
  shows "sdp_lines (d, None) ((case x of None \<Rightarrow> [] | Some y \<Rightarrow> [timing_line y]) @ ls) = sdp_lines (d\<lparr>sd_timing := x\<rparr>, None) ls"
proof (cases x)
  case (Some y)
  let ?ws = "[dec_string (unat (fst y)), dec_string (unat (snd y))]"
  have words: "list_all word_ok ?ws" by (simp add: word_ok_dec)
  have split: "split_whitespace (join_by (ascii '' '') ?ws) = ?ws" by (rule word_split [OF words])
  have tx: "line_text (join_by (ascii '' '') ?ws)" by (rule line_text_words [OF _ words]) simp
  have line: "timing_line y = 116 # 61 # join_by (ascii '' '') ?ws" by (simp add: timing_line_def ascii_def)
  have "sdp_line (d, None) (timing_line y) = Some (Inr (d\<lparr>sd_timing := Some y\<rparr>, None))"
    unfolding line sdp_line_field [of 116, simplified ws_ascii_def, simplified, OF tx]
    by (simp add: sdp_field_def split Let_def unwrap_or_def parse_dec_words del: join_by.simps)
  then show ?thesis using Some by simp
qed (use assms in \<open>cases d, simp\<close>)

lemma attribute_line_plain: "attribute_ok a \<Longrightarrow> 10 \<notin> set (attribute_line a)"
  by (cases a; cases "snd a") (auto simp: attribute_line_def line_text_def ascii_def)

lemma word_plain: "word_ok w \<Longrightarrow> 10 \<notin> set w"
  using no_ws_line [of w] by (simp add: word_ok_def)

lemma words_plain: "list_all word_ok ws \<Longrightarrow> 10 \<notin> set (join_by (ascii '' '') ws)"
  by (cases "ws = []") (simp, use line_text_words [of ws] in \<open>simp add: line_text_def\<close>)

lemma media_lines_plain:
  assumes "media_ok m"
  shows "list_all (\<lambda>l. 10 \<notin> set l) (media_lines m)"
proof -
  have "10 \<notin> set (join_by (ascii '' '') (md_formats m))" "10 \<notin> set (md_media_type m)" "10 \<notin> set (md_protocol m)"
    "10 \<notin> set (dec_string (unat (md_port m)))"
    using assms by (simp_all add: media_ok_def words_plain word_plain word_ok_dec)
  moreover have "list_all (\<lambda>l. 10 \<notin> set l) (map attribute_line (md_attributes m))"
    using assms attribute_line_plain by (auto simp: media_ok_def attributes_ok_def list_all_iff)
  ultimately show ?thesis by (simp add: media_lines_def ascii_def)
qed

lemma sdp_roundtrip_aux:
  assumes "sdp_ok d"
  shows "sdp_parse (encode_sdp d) = Some (Inr d)"
proof -
  let ?v = "ascii ''v='' @ dec_string (unat (sd_version d))"
  let ?o = "case sd_origin d of None \<Rightarrow> [] | Some x \<Rightarrow> [origin_line x]"
  let ?s = "ascii ''s='' @ sd_session_name d"
  let ?c = "case sd_connection d of None \<Rightarrow> [] | Some c \<Rightarrow> [connection_line c]"
  let ?t = "case sd_timing d of None \<Rightarrow> [] | Some t \<Rightarrow> [timing_line t]"
  let ?a = "map attribute_line (sd_attributes d)"
  let ?m = "concat (map media_lines (sd_media d))"
  let ?ls = "[?v] @ ?o @ [?s] @ ?c @ ?t @ ?a @ ?m"
  have ok: "pred_option (\<lambda>x. list_all word_ok (origin_words x)) (sd_origin d)" "line_text (sd_session_name d)"
    "pred_option (\<lambda>c. list_all word_ok (connection_words c)) (sd_connection d)"
    "attributes_ok (sd_attributes d)" "list_all media_ok (sd_media d)"
    using assms by (simp_all add: sdp_ok_def)
  have dec: "10 \<notin> set (dec_string n)" for n using line_text_dec [of n] by (simp add: line_text_def)
  have "list_all (\<lambda>l. 10 \<notin> set l) ?o"
    using ok(1) by (auto dest: word_plain simp: origin_line_def origin_words_def ascii_def split: option.splits)
  moreover have "list_all (\<lambda>l. 10 \<notin> set l) ?c"
    using ok(3) by (auto dest: word_plain simp: connection_line_def connection_words_def ascii_def split: option.splits)
  moreover have "list_all (\<lambda>l. 10 \<notin> set l) ?t"
    using dec by (auto simp: timing_line_def ascii_def split: option.splits)
  moreover have "list_all (\<lambda>l. 10 \<notin> set l) ?a"
    using ok(4) attribute_line_plain by (auto simp: attributes_ok_def list_all_iff)
  moreover have "list_all (\<lambda>l. 10 \<notin> set l) ?m"
    using ok(5) media_lines_plain by (fastforce simp: list_all_iff)
  moreover have "10 \<notin> set ?v" "10 \<notin> set ?s" using dec ok(2) by (simp_all add: ascii_def line_text_def)
  ultimately have "list_all (\<lambda>l. 10 \<notin> set l) ?ls" by simp
  then have lines: "rust_lines (encode_sdp d) = ?ls" unfolding encode_sdp_def by (rule rust_lines_whole)
  define d1 where "d1 = sdp_default\<lparr>sd_version := sd_version d\<rparr>"
  have v: "sdp_line (sdp_default, None) ?v = Some (Inr (d1, None))"
    using line_text_dec by (simp add: ascii_def sdp_line_field ws_ascii_def sdp_field_def parse_dec_words d1_def)
  define d2 where "d2 = d1\<lparr>sd_origin := sd_origin d\<rparr>"
  define d3 where "d3 = d2\<lparr>sd_session_name := sd_session_name d\<rparr>"
  have s: "sdp_line (d2, None) ?s = Some (Inr (d3, None))"
    using ok(2) by (simp add: ascii_def sdp_line_field ws_ascii_def sdp_field_def d3_def)
  define d4 where "d4 = d3\<lparr>sd_connection := sd_connection d, sd_timing := sd_timing d, sd_attributes := sd_attributes d\<rparr>"
  have none: "sd_origin d1 = None" "sd_connection d3 = None" "sd_timing (d3\<lparr>sd_connection := sd_connection d\<rparr>) = None"
    by (simp_all add: d3_def d2_def d1_def sdp_default_def)
  have "sdp_lines (sdp_default, None) ?ls = sdp_lines (d1, None) (?o @ [?s] @ ?c @ ?t @ ?a @ ?m)" by (simp add: v)
  also have "\<dots> = sdp_lines (d2, None) ([?s] @ ?c @ ?t @ ?a @ ?m)" by (simp only: origin_read [OF ok(1) none(1)] d2_def)
  also have "\<dots> = sdp_lines (d3, None) (?c @ ?t @ ?a @ ?m)" by (simp add: s)
  also have "\<dots> = sdp_lines (d4, None) ?m"
    using ok(4) by (simp add: connection_read [OF ok(3) none(2)] timing_read [OF none(3)] session_attribute_lines attributes_ok_def)
      (simp add: d4_def d3_def d2_def d1_def sdp_default_def session_attribute_lines)
  finally have "sdp_lines (sdp_default, None) ?ls = sdp_lines (d4, None) ?m" .
  moreover obtain st where "sdp_lines (d4, None) ?m = Some (Inr st)" "close_media st = d4\<lparr>sd_media := sd_media d4 @ sd_media d\<rparr>"
    using media_sections [OF ok(5), of "(d4, None)"] by (auto simp: close_media_def)
  moreover have "d4\<lparr>sd_media := sd_media d4 @ sd_media d\<rparr> = d"
    by (simp add: d4_def d3_def d2_def d1_def sdp_default_def)
  ultimately show ?thesis by (simp add: sdp_parse_def lines)
qed

section \<open>Properties\<close>

text \<open>
  C23. Parsing an encoded session description returns it: version, origin, name, connection, timing,
  session attributes and every media section with its formats and attributes, in whatever
  order the hash maps iterate. Words must be free of white space, texts free of line ends and
  of white space at their end, attribute names free of colons, and every media section must have at
  least one format, since the parser refuses one without.
\<close>

theorem sdp_roundtrip:
  assumes "sdp_ok d"
  shows "sdp_parse (encode_sdp d) = Some (Inr d)"
  using sdp_roundtrip_aux [OF assms] .

lemma word_ok_graphic: "graphic w \<Longrightarrow> w \<noteq> [] \<Longrightarrow> word_ok w"
  by (simp add: word_ok_def graphic_no_ws graphic_utf8)

lemma line_text_graphic: "graphic v \<Longrightarrow> line_text v"
  using graphic_trimmed [of v] graphic_bytes [of v 10] by (auto simp: line_text_def graphic_utf8 trimmed_def)

definition demo_sdp :: session_description where
  "demo_sdp = sdp_default\<lparr>sd_version := 3, sd_session_name := ascii ''AirPlay'', sd_timing := Some (0, 7),
     sd_attributes := [(ascii ''recvonly'', None)],
     sd_media := [\<lparr>md_media_type = ascii ''audio'', md_port = 6000, md_protocol = ascii ''RTP/AVP'',
       md_formats = [ascii ''96'', ascii ''97''], md_attributes = [(ascii ''aesiv'', Some (ascii ''AA:BB''))]\<rparr>]\<rparr>"

theorem sdp_roundtrip_witness: "sdp_parse (encode_sdp demo_sdp) = Some (Inr demo_sdp)"
  by (rule sdp_roundtrip)
    (simp add: sdp_ok_def demo_sdp_def sdp_default_def attributes_ok_def media_ok_def,
     simp add: ascii_def word_ok_graphic line_text_graphic graphic_def graphic_utf8)

end
