(* ===== verification/Raop_Sdp.thy ===== *)
theory Raop_Sdp
  imports Sdp Receiver_Session
begin

text \<open>
  The stream parameters in the ANNOUNCE request of RAOP: \<open>src/protocol/sdp/raop.rs\<close> and the handler
  \<open>src/receiver/announce_handler.rs\<close>.

  Base64 decoding and RSA come from third-party crates: the record \<open>announce_lib\<close> holds the
  standard decoder, the reader of a PKCS#8 private key and decryption with PKCS#1 v1.5 padding,
  errors as the text that their \<open>Display\<close> gives. The feature \<open>raop\<close>, a default one, is enabled.
\<close>

record 'k announce_lib =
  al_base64_decode :: "str \<Rightarrow> bytes option"
  al_rsa_from_pkcs8 :: "bytes \<Rightarrow> (str, 'k) result"
  al_rsa_decrypt :: "'k \<Rightarrow> bytes \<Rightarrow> (str, bytes) result"

section \<open>Format parameters\<close>

record alac_parameters =
  alac_frames_per_packet :: u32
  alac_compatible_version :: u8
  alac_bit_depth :: u8
  alac_pb :: u8
  alac_mb :: u8
  alac_kb :: u8
  alac_channels :: u8
  alac_max_run :: u16
  alac_max_frame_bytes :: u32
  alac_avg_bit_rate :: u32
  alac_sample_rate :: u32

definition parse_part :: "(str \<Rightarrow> 'a option) \<Rightarrow> str list \<Rightarrow> nat \<Rightarrow> string \<Rightarrow> (sdp_parse_error, 'a) result" where
  "parse_part parse parts index name =
     (if index < length parts
      then (case parse (parts ! index) of
              Some x \<Rightarrow> Inr x
            | None \<Rightarrow> Inl (InvalidAttribute
                (ascii ''Invalid value for '' @ [39] @ ascii name @ [39] @ ascii '': '' @ parts ! index)))
      else Inl (InvalidAttribute
        (ascii ''Missing field '' @ [39] @ ascii name @ [39] @ ascii '' at index '' @ dec_string index)))"

definition alac_parse :: "str \<Rightarrow> (sdp_parse_error, alac_parameters) result" where
  "alac_parse fmtp =
     (let parts = split_whitespace fmtp; n = length parts in
      if n \<noteq> 12 \<and> n \<noteq> 11
      then Inl (InvalidAttribute (ascii ''ALAC fmtp needs 11 or 12 fields, got '' @ dec_string n @ ascii '': '' @ fmtp))
      else let offset = (if n = 12 then 1 else 0) in
        result_bind (parse_part parse_u32 parts offset ''frames_per_packet'') (\<lambda>frames_per_packet.
        result_bind (parse_part parse_u8 parts (offset + 1) ''compatible_version'') (\<lambda>compatible_version.
        result_bind (parse_part parse_u8 parts (offset + 2) ''bit_depth'') (\<lambda>bit_depth.
        result_bind (parse_part parse_u8 parts (offset + 3) ''pb'') (\<lambda>pb.
        result_bind (parse_part parse_u8 parts (offset + 4) ''mb'') (\<lambda>mb.
        result_bind (parse_part parse_u8 parts (offset + 5) ''kb'') (\<lambda>kb.
        result_bind (parse_part parse_u8 parts (offset + 6) ''channels'') (\<lambda>channels.
        result_bind (parse_part parse_u16 parts (offset + 7) ''max_run'') (\<lambda>max_run.
        result_bind (parse_part parse_u32 parts (offset + 8) ''max_frame_bytes'') (\<lambda>max_frame_bytes.
        result_bind (parse_part parse_u32 parts (offset + 9) ''avg_bit_rate'') (\<lambda>avg_bit_rate.
        result_bind (parse_part parse_u32 parts (offset + 10) ''sample_rate'') (\<lambda>sample_rate.
        Inr \<lparr>alac_frames_per_packet = frames_per_packet, alac_compatible_version = compatible_version,
             alac_bit_depth = bit_depth, alac_pb = pb, alac_mb = mb, alac_kb = kb, alac_channels = channels,
             alac_max_run = max_run, alac_max_frame_bytes = max_frame_bytes, alac_avg_bit_rate = avg_bit_rate,
             alac_sample_rate = sample_rate\<rparr>))))))))))))"

record encryption_params =
  ep_encrypted_aes_key :: bytes
  ep_aes_iv :: bytes

definition sdp_parse_encryption ::
    "'k announce_lib \<Rightarrow> media_description \<Rightarrow> (sdp_parse_error, encryption_params option) result" where
  "sdp_parse_encryption L media =
     (case media_get_attribute media (ascii ''rsaaeskey'') of
        None \<Rightarrow> Inr None
      | Some encrypted_key \<Rightarrow>
          (case media_get_attribute media (ascii ''aesiv'') of
             None \<Rightarrow> Inl (MissingField (ascii ''aesiv''))
           | Some iv_str \<Rightarrow>
               (case al_base64_decode L (trim encrypted_key) of
                  None \<Rightarrow> Inl (InvalidAttribute (ascii ''Invalid base64 in rsaaeskey''))
                | Some encrypted_aes_key \<Rightarrow>
                    (case al_base64_decode L (trim iv_str) of
                       None \<Rightarrow> Inl (InvalidAttribute (ascii ''Invalid base64 in aesiv''))
                     | Some iv_bytes \<Rightarrow>
                         if length iv_bytes \<noteq> 16
                         then Inl (InvalidAttribute (ascii ''AES IV must be 16 bytes, got '' @ dec_string (length iv_bytes)))
                         else Inr (Some \<lparr>ep_encrypted_aes_key = encrypted_aes_key, ep_aes_iv = iv_bytes\<rparr>)))))"

definition detect_codec :: "media_description \<Rightarrow> audio_codec option" where
  "detect_codec media =
     (case media_get_attribute media (ascii ''rtpmap'') of
        None \<Rightarrow> None
      | Some rtpmap \<Rightarrow>
          if str_contains rtpmap (ascii ''AppleLossless'') then Some Alac
          else if str_contains rtpmap (ascii ''mpeg4-generic'') \<or> str_contains rtpmap (ascii ''MP4A-LATM'')
          then (if str_contains rtpmap (ascii ''ELD'') then Some AacEld else Some AacLc)
          else if str_contains rtpmap (ascii ''L16'') then Some Pcm
          else None)"

definition decrypt_aes_key :: "'k announce_lib \<Rightarrow> bytes \<Rightarrow> bytes \<Rightarrow> (sdp_parse_error, bytes) result" where
  "decrypt_aes_key L encrypted rsa_private_key =
     (case al_rsa_from_pkcs8 L rsa_private_key of
        Inl e \<Rightarrow> Inl (InvalidAttribute (ascii ''Invalid RSA key: '' @ e))
      | Inr private_key \<Rightarrow>
          (case al_rsa_decrypt L private_key encrypted of
             Inl e \<Rightarrow> Inl (InvalidAttribute (ascii ''RSA decrypt failed: '' @ e))
           | Inr decrypted \<Rightarrow>
               if length decrypted \<noteq> 16
               then Inl (InvalidAttribute (ascii ''Decrypted AES key must be 16 bytes, got '' @ dec_string (length decrypted)))
               else Inr decrypted))"

definition stream_format ::
    "media_description \<Rightarrow> audio_codec \<Rightarrow> (sdp_parse_error, u32 \<times> u8 \<times> u8 \<times> u32) result" where
  "stream_format media codec =
     (case codec of
        Alac \<Rightarrow>
          (case media_get_attribute media (ascii ''fmtp'') of
             None \<Rightarrow> Inl (MissingField (ascii ''fmtp''))
           | Some fmtp \<Rightarrow>
               result_bind (alac_parse fmtp) (\<lambda>alac.
                 Inr (alac_sample_rate alac, alac_bit_depth alac, alac_channels alac, alac_frames_per_packet alac)))
      | _ \<Rightarrow> Inr (44100, 16, 2, 352))"

definition stream_keys ::
    "'k announce_lib \<Rightarrow> encryption_params option \<Rightarrow> bytes option \<Rightarrow> (sdp_parse_error, bytes option \<times> bytes option) result" where
  "stream_keys L encryption rsa_private_key =
     (case encryption of
        None \<Rightarrow> Inr (None, None)
      | Some enc \<Rightarrow>
          (case rsa_private_key of
             None \<Rightarrow> Inr (None, Some (ep_aes_iv enc))
           | Some rsa_key \<Rightarrow>
               result_bind (decrypt_aes_key L (ep_encrypted_aes_key enc) rsa_key) (\<lambda>key. Inr (Some key, Some (ep_aes_iv enc)))))"

definition extract_stream_parameters ::
    "'k announce_lib \<Rightarrow> session_description \<Rightarrow> bytes option \<Rightarrow> (sdp_parse_error, stream_parameters) result" where
  "extract_stream_parameters L sdp rsa_private_key =
     result_bind (ok_or (audio_media sdp) (MissingField (ascii ''audio media''))) (\<lambda>media.
     result_bind (ok_or (detect_codec media) (MissingField (ascii ''rtpmap''))) (\<lambda>codec.
     result_bind (stream_format media codec) (\<lambda>(sample_rate, bits_per_sample, channels, frames_per_packet).
     result_bind (sdp_parse_encryption L media) (\<lambda>encryption.
     result_bind (stream_keys L encryption rsa_private_key) (\<lambda>(aes_key, aes_iv).
     Inr \<lparr>sp_codec = codec, sp_sample_rate = sample_rate, sp_bits_per_sample = bits_per_sample,
          sp_channels = channels, sp_frames_per_packet = frames_per_packet, sp_aes_key = aes_key, sp_aes_iv = aes_iv,
          sp_min_latency = Option.bind (media_get_attribute media (ascii ''min-latency'')) parse_u32\<rparr>)))))"

section \<open>The ANNOUNCE handler\<close>

datatype announce_error = AE_EmptyBody | AE_InvalidUtf8 | AE_SdpParse sdp_parse_error | AE_UnsupportedCodec

definition raop_process_announce ::
    "'k announce_lib \<Rightarrow> rtsp_request \<Rightarrow> bytes option \<Rightarrow> (announce_error, stream_parameters) result option" where
  "raop_process_announce L request rsa_private_key =
     (if rq_body request = [] then Some (Inl AE_EmptyBody)
      else if \<not> utf8_valid (rq_body request) then Some (Inl AE_InvalidUtf8)
      else (case sdp_parse (rq_body request) of
              None \<Rightarrow> None
            | Some (Inl e) \<Rightarrow> Some (Inl (AE_SdpParse e))
            | Some (Inr sdp) \<Rightarrow> Some (map_err AE_SdpParse (extract_stream_parameters L sdp rsa_private_key))))"

definition apply_to_session :: "nat \<Rightarrow> receiver_session \<Rightarrow> stream_parameters \<Rightarrow> receiver_session" where
  "apply_to_session now s params = session_set_stream_params now s params"

section \<open>The announcement of the client\<close>

lemma utf8_field: "t < 0x80 \<Longrightarrow> line_text v \<Longrightarrow> utf8_valid (t # 61 # v)"
  by (simp add: line_text_def)

lemma attribute_line_utf8: "attribute_ok a \<Longrightarrow> utf8_valid (attribute_line a)"
  using parse_attribute_line [of "fst a" "snd a"] utf8_field [of 97] by (cases a) auto

lemma media_lines_utf8:
  assumes "media_ok m"
  shows "list_all utf8_valid (media_lines m)"
proof -
  let ?ws = "md_media_type m # dec_string (unat (md_port m)) # md_protocol m # md_formats m"
  obtain f fs where fs: "md_formats m = f # fs" using assms by (cases "md_formats m") (simp_all add: media_ok_def)
  have head: "media_lines m = (109 # 61 # join_by (ascii '' '') ?ws) # map attribute_line (md_attributes m)"
    by (simp add: media_lines_def fs ascii_def)
  have "list_all word_ok ?ws" using assms word_ok_dec by (simp add: media_ok_def)
  then have "utf8_valid (109 # 61 # join_by (ascii '' '') ?ws)" by (intro utf8_field line_text_words) simp_all
  moreover have "list_all utf8_valid (map attribute_line (md_attributes m))"
    using assms attribute_line_utf8 by (auto simp: media_ok_def attributes_ok_def list_all_iff)
  ultimately show ?thesis unfolding head by simp
qed

lemma encode_sdp_utf8:
  assumes "sdp_ok d"
  shows "utf8_valid (encode_sdp d)"
proof -
  have "list_all utf8_valid (case sd_origin d of None \<Rightarrow> [] | Some x \<Rightarrow> [origin_line x])"
  proof (cases "sd_origin d")
    case (Some x)
    then have "line_text (join_by (ascii '' '') (origin_words x))"
      using assms by (intro line_text_words) (simp_all add: sdp_ok_def origin_words_def)
    then show ?thesis using Some utf8_field [of 111] by (simp add: origin_line_def origin_words_def ascii_def)
  qed simp
  moreover have "list_all utf8_valid (case sd_connection d of None \<Rightarrow> [] | Some x \<Rightarrow> [connection_line x])"
  proof (cases "sd_connection d")
    case (Some x)
    then have "line_text (join_by (ascii '' '') (connection_words x))"
      using assms by (intro line_text_words) (simp_all add: sdp_ok_def connection_words_def)
    then show ?thesis using Some utf8_field [of 99] by (simp add: connection_line_def connection_words_def ascii_def)
  qed simp
  moreover have "list_all utf8_valid (case sd_timing d of None \<Rightarrow> [] | Some x \<Rightarrow> [timing_line x])"
  proof (cases "sd_timing d")
    case (Some x)
    have "line_text (join_by (ascii '' '') [dec_string (unat (fst x)), dec_string (unat (snd x))])"
      by (rule line_text_words) (simp_all add: word_ok_dec)
    then show ?thesis using Some utf8_field [of 116] by (simp add: timing_line_def ascii_def)
  qed simp
  moreover have "list_all utf8_valid (map attribute_line (sd_attributes d))"
    using assms attribute_line_utf8 by (auto simp: sdp_ok_def attributes_ok_def list_all_iff)
  moreover have "list_all utf8_valid (concat (map media_lines (sd_media d)))"
    using assms media_lines_utf8 by (fastforce simp: sdp_ok_def list_all_iff)
  moreover have "utf8_valid (118 # 61 # dec_string (unat (sd_version d)))" "utf8_valid (115 # 61 # sd_session_name d)"
    using assms line_text_dec [of "unat (sd_version d)"] by (simp_all add: line_text_def sdp_ok_def)
  ultimately show ?thesis unfolding encode_sdp_def by (intro utf8_valid_block) (simp add: ascii_def)
qed

text \<open>The attributes of the announcement, which its hash map holds in an arbitrary order.\<close>

definition announce_attributes :: "str \<Rightarrow> str \<Rightarrow> sdp_attributes" where
  "announce_attributes rsaaeskey aesiv =
     [(ascii ''rtpmap'', Some (ascii ''96 AppleLossless'')),
      (ascii ''fmtp'', Some (ascii ''96 352 0 16 40 10 14 2 255 0 0 44100'')),
      (ascii ''rsaaeskey'', Some rsaaeskey), (ascii ''aesiv'', Some aesiv),
      (ascii ''min-latency'', Some (ascii ''11025''))]"

definition announce_media :: "sdp_attributes \<Rightarrow> media_description" where
  "announce_media as = \<lparr>md_media_type = ascii ''audio'', md_port = 0, md_protocol = ascii ''RTP/AVP'',
     md_formats = [ascii ''96''], md_attributes = as\<rparr>"

definition announce_order :: "session_description \<Rightarrow> sdp_attributes \<Rightarrow> session_description" where
  "announce_order d as = d\<lparr>sd_media := [announce_media as]\<rparr>"

lemma raop_announce_media:
  "sd_media (raop_announce_description i cip sip key iv) = [announce_media (announce_attributes key iv)]"
  by (simp add: raop_announce_description_def sdp_builder_new_def sdp_with_origin_def sdp_with_session_name_def
      sdp_with_connection_def sdp_with_timing_def sdp_with_media_def sdp_with_media_attribute_def sdp_build_def
      close_media_def attributes_insert_def announce_media_def announce_attributes_def sdp_default_def Let_def ascii_def)

lemma raop_announce_fields:
  "sd_origin (raop_announce_description i cip sip key iv) =
     Some \<lparr>so_username = ascii ''iTunes'', so_session_id = i, so_session_version = ascii ''1'', so_net_type = ascii ''IN'',
       so_addr_type = address_type cip, so_unicast_address = cip\<rparr>"
  "sd_connection (raop_announce_description i cip sip key iv) =
     Some \<lparr>sc_net_type = ascii ''IN'', sc_addr_type = address_type sip, sc_address = sip\<rparr>"
  "sd_session_name (raop_announce_description i cip sip key iv) = ascii ''iTunes''"
  "sd_attributes (raop_announce_description i cip sip key iv) = []"
  by (simp_all add: raop_announce_description_def sdp_builder_new_def sdp_with_origin_def sdp_with_session_name_def
      sdp_with_connection_def sdp_with_timing_def sdp_with_media_def sdp_with_media_attribute_def sdp_build_def
      close_media_def sdp_default_def Let_def)

lemma line_text_spaced:
  assumes "list_all word_ok ws" and "ws \<noteq> []" and "v = join_by (ascii '' '') ws"
  shows "line_text v"
  using assms line_text_words by blast

lemma announce_fmtp_words:
  "ascii ''96 352 0 16 40 10 14 2 255 0 0 44100'' =
     join_by (ascii '' '') (map dec_string [96, 352, 0, 16, 40, 10, 14, 2, 255, 0, 0, 44100])"
  by (simp add: ascii_def dec_string.simps)

lemma announce_attributes_ok:
  assumes "line_text key" and "line_text iv"
  shows "attributes_ok (announce_attributes key iv)"
proof -
  have "line_text (ascii ''96 AppleLossless'')"
    by (rule line_text_spaced [where ws = "[ascii ''96'', ascii ''AppleLossless'']"])
      (simp_all add: word_ok_graphic graphic_def ascii_def)
  moreover have "line_text (ascii ''96 352 0 16 40 10 14 2 255 0 0 44100'')"
    by (rule line_text_spaced [OF _ _ announce_fmtp_words]) (simp_all add: word_ok_dec list_all_iff)
  moreover have "line_text (ascii ''11025'')" by (rule line_text_graphic) (simp add: graphic_def ascii_def)
  ultimately show ?thesis
    using assms by (simp add: attributes_ok_def announce_attributes_def graphic_utf8 graphic_def)
      (simp add: ascii_def)
qed

lemma attributes_ok_perm:
  assumes "mset as = mset bs" and "attributes_ok bs"
  shows "attributes_ok as \<and> map_of as = map_of bs"
proof -
  have set: "set as = set bs" using assms(1) by (metis set_mset_mset)
  have "distinct (map fst as)"
    using assms by (metis attributes_ok_def mset_eq_imp_distinct_iff mset_map)
  with assms set show ?thesis by (simp add: attributes_ok_def list_all_iff map_of_inject_set)
qed

lemma announce_order_ok:
  assumes "word_ok i" and "word_ok cip" and "word_ok sip" and "attributes_ok as"
  shows "sdp_ok (announce_order (raop_announce_description i cip sip key iv) as)"
proof -
  have "word_ok (address_type a)" for a by (simp add: address_type_def word_ok_graphic graphic_def ascii_def)
  moreover have "word_ok (ascii ''iTunes'')" "word_ok (ascii ''1'')" "word_ok (ascii ''IN'')" "word_ok (ascii ''audio'')"
    "word_ok (ascii ''RTP/AVP'')" "word_ok (ascii ''96'')" "line_text (ascii ''iTunes'')"
    by (simp_all add: word_ok_graphic line_text_graphic graphic_def ascii_def)
  moreover have "attributes_ok []" by (simp add: attributes_ok_def)
  ultimately show ?thesis
    using assms by (simp add: sdp_ok_def announce_order_def raop_announce_fields origin_words_def connection_words_def
        media_ok_def announce_media_def)
qed

lemma announce_alac:
  "alac_parse (ascii ''96 352 0 16 40 10 14 2 255 0 0 44100'') =
     Inr \<lparr>alac_frames_per_packet = 352, alac_compatible_version = 0, alac_bit_depth = 16, alac_pb = 40, alac_mb = 10,
        alac_kb = 14, alac_channels = 2, alac_max_run = 255, alac_max_frame_bytes = 0, alac_avg_bit_rate = 0,
        alac_sample_rate = 44100\<rparr>"
proof -
  let ?ws = "map dec_string [96, 352, 0, 16, 40, 10, 14, 2, 255, 0, 0, 44100]"
  have split: "split_whitespace (ascii ''96 352 0 16 40 10 14 2 255 0 0 44100'') = ?ws"
    unfolding announce_fmtp_words by (rule word_split) (simp add: word_ok_dec list_all_iff)
  have num: "parse_unsigned 256 (dec_string n) = Some n" if "n < 256" for n using that by (rule parse_dec_string)
  have num16: "parse_unsigned 65536 (dec_string n) = Some n" if "n < 65536" for n using that by (rule parse_dec_string)
  have num32: "parse_unsigned 4294967296 (dec_string n) = Some n" if "n < 4294967296" for n using that by (rule parse_dec_string)
  show ?thesis
    by (simp add: alac_parse_def split parse_part_def parse_u8_def parse_u16_def parse_u32_def num num16 num32 del: dec_string.simps)
qed

lemma announce_lookup:
  assumes "map_of as = map_of (announce_attributes key iv)"
  shows "media_get_attribute (announce_media as) (ascii ''rtpmap'') = Some (ascii ''96 AppleLossless'')"
    and "media_get_attribute (announce_media as) (ascii ''fmtp'') = Some (ascii ''96 352 0 16 40 10 14 2 255 0 0 44100'')"
    and "media_get_attribute (announce_media as) (ascii ''rsaaeskey'') = Some key"
    and "media_get_attribute (announce_media as) (ascii ''aesiv'') = Some iv"
    and "media_get_attribute (announce_media as) (ascii ''min-latency'') = Some (ascii ''11025'')"
  using assms by (simp_all add: media_get_attribute_def announce_media_def announce_attributes_def)
    (simp_all add: ascii_def)

text \<open>
  A description that the parser reads back and whose audio is announced as the client does, with or
  without keys: what the handler makes of it depends on the keys alone.
\<close>

lemma announced_parsed:
  assumes "sdp_ok d" and "audio_media d = Some media" and "rq_body request = encode_sdp d"
    and "media_get_attribute media (ascii ''rtpmap'') = Some (ascii ''96 AppleLossless'')"
    and "media_get_attribute media (ascii ''fmtp'') = Some (ascii ''96 352 0 16 40 10 14 2 255 0 0 44100'')"
  shows "raop_process_announce L request rk =
    Some (map_err AE_SdpParse
      (result_bind (sdp_parse_encryption L media) (\<lambda>encryption.
       result_bind (stream_keys L encryption rk) (\<lambda>(aes_key, aes_iv).
       Inr \<lparr>sp_codec = Alac, sp_sample_rate = 44100, sp_bits_per_sample = 16, sp_channels = 2,
            sp_frames_per_packet = 352, sp_aes_key = aes_key, sp_aes_iv = aes_iv,
            sp_min_latency = Option.bind (media_get_attribute media (ascii ''min-latency'')) parse_u32\<rparr>))))"
proof -
  have body: "rq_body request \<noteq> []" using assms(3) by (simp add: encode_sdp_def line_block_def ascii_def)
  have codec: "detect_codec media = Some Alac"
    by (simp add: detect_codec_def assms(4) str_contains_def) (simp add: ascii_def)
  have format: "stream_format media Alac = Inr (44100, 16, 2, 352)"
    by (simp add: stream_format_def assms(5) announce_alac)
  show ?thesis
    using body encode_sdp_utf8 [OF assms(1)] sdp_roundtrip_aux [OF assms(1)] assms(2,3)
    by (simp add: raop_process_announce_def extract_stream_parameters_def codec format)
qed

text \<open>An announcement in the client's format without keys, and what the receiver reads.\<close>

definition plain_alac :: "media_description \<Rightarrow> bool" where
  "plain_alac media \<longleftrightarrow>
     media_get_attribute media (ascii ''rtpmap'') = Some (ascii ''96 AppleLossless'')
     \<and> media_get_attribute media (ascii ''fmtp'') = Some (ascii ''96 352 0 16 40 10 14 2 255 0 0 44100'')
     \<and> media_get_attribute media (ascii ''rsaaeskey'') = None"

lemma plain_announce_accepted:
  assumes "sdp_ok d" and "audio_media d = Some media" and "plain_alac media" and "rq_body request = encode_sdp d"
  shows "\<exists>params. raop_process_announce L request rk = Some (Inr params)"
  using announced_parsed [OF assms(1,2,4), of L rk] assms(3)
  by (simp add: plain_alac_def sdp_parse_encryption_def stream_keys_def)

section \<open>A concrete announcement\<close>

definition demo_announce_lib :: "unit announce_lib" where
  "demo_announce_lib = \<lparr>al_base64_decode = (\<lambda>s. if length s mod 4 = 0 then Some (replicate 16 (of_nat (length s))) else None),
     al_rsa_from_pkcs8 = (\<lambda>k. Inr ()), al_rsa_decrypt = (\<lambda>_ b. Inr (map (\<lambda>x. x + 1) b))\<rparr>"

definition demo_plain_attributes :: sdp_attributes where
  "demo_plain_attributes = [(ascii ''fmtp'', Some (ascii ''96 352 0 16 40 10 14 2 255 0 0 44100'')),
     (ascii ''rtpmap'', Some (ascii ''96 AppleLossless''))]"

definition demo_announce_description :: session_description where
  "demo_announce_description = announce_order
     (raop_announce_description (ascii ''7'') (ascii ''10.0.0.1'') (ascii ''10.0.0.2'') [] []) demo_plain_attributes"

definition demo_announce_body :: str where
  "demo_announce_body = encode_sdp demo_announce_description"

lemma demo_announce_plain:
  "sdp_ok demo_announce_description" "audio_media demo_announce_description = Some (announce_media demo_plain_attributes)"
  "plain_alac (announce_media demo_plain_attributes)"
proof -
  have "attributes_ok (announce_attributes [] [])" by (rule announce_attributes_ok) (simp_all add: line_text_graphic graphic_def)
  then have "attributes_ok demo_plain_attributes"
    by (simp add: attributes_ok_def announce_attributes_def demo_plain_attributes_def) (simp add: ascii_def)
  then show "sdp_ok demo_announce_description" unfolding demo_announce_description_def
    by (intro announce_order_ok) (simp_all add: word_ok_graphic graphic_def ascii_def)
  show "audio_media demo_announce_description = Some (announce_media demo_plain_attributes)"
    by (simp add: audio_media_def demo_announce_description_def announce_order_def announce_media_def)
  show "plain_alac (announce_media demo_plain_attributes)"
    by (simp add: plain_alac_def media_get_attribute_def announce_media_def demo_plain_attributes_def) (simp add: ascii_def)
qed

section \<open>Properties\<close>

text \<open>
  A body of a few bytes whose line starts with a character of three bytes followed by an equals
  sign makes the ANNOUNCE handler panic, since the parser slices the line at byte 2.
\<close>

theorem announce_wide_character_panics:
  "raop_process_announce L (request_body (request_new Method_Announce uri) [0xE2, 0x82, 0xAC, 61, 120]) rk = None"
proof -
  have "rust_lines [0xE2, 0x82, 0xAC, 61, 120] = [[0xE2, 0x82, 0xAC, 61, 120]]"
    by (rule rust_lines_last) simp_all
  moreover have "trimmed [0xE2, 0x82, 0xAC, 61, 120]"
    by (simp add: trimmed_def ws_len_def ws_rev_len_def ws_ascii_def ws_wide2_def ws_wide3_def)
  then have "sdp_line (sdp_default, None) [0xE2, 0x82, 0xAC, 61, 120] = None"
    by (simp add: sdp_line_def trim_trimmed second_char_is_def is_char_boundary_def utf8_step_def utf8_second_def utf8_cont_def
        Let_def nth_Cons')
  moreover have "utf8_valid [0xE2, 0x82, 0xAC, 61, 120]"
    by (simp add: utf8_valid.simps utf8_step_def utf8_second_def utf8_cont_def Let_def nth_Cons')
  ultimately show ?thesis by (simp add: raop_process_announce_def sdp_parse_def)
qed

end
