(* ===== verification/Dmap.thy ===== *)
theory Dmap
  imports Plist_Roundtrip Rust_Split
begin

text \<open>
  Track metadata: the DMAP encoder and parser of \<open>src/protocol/daap/dmap.rs\<close>, the client's metadata of
  \<open>src/protocol/daap/metadata.rs\<close>, and the two receivers of it, \<open>src/receiver/metadata_handler.rs\<close> (RAOP) and
  \<open>src/receiver/ap2/metadata_handler.rs\<close> (AirPlay 2).

  An \<open>i64\<close> is a word read through \<open>sint\<close>. A length that does not fit in 32 bits is a panic of the
  encoder and gives \<open>None\<close>.
\<close>

section \<open>Tags and values\<close>

datatype dmap_tag =
    ItemName | SongArtist | SongAlbum | SongGenre | SongTrackNumber | SongDiscNumber | SongYear | SongTime
  | Listing | ListingItem | DatabaseSongs | UnknownTag bytes

fun tag_code :: "dmap_tag \<Rightarrow> bytes" where
  "tag_code ItemName = ascii ''minm''"
| "tag_code SongArtist = ascii ''asar''"
| "tag_code SongAlbum = ascii ''asal''"
| "tag_code SongGenre = ascii ''asgn''"
| "tag_code SongTrackNumber = ascii ''astn''"
| "tag_code SongDiscNumber = ascii ''asdn''"
| "tag_code SongYear = ascii ''asyr''"
| "tag_code SongTime = ascii ''astm''"
| "tag_code Listing = ascii ''mlcl''"
| "tag_code ListingItem = ascii ''mlit''"
| "tag_code DatabaseSongs = ascii ''adbs''"
| "tag_code (UnknownTag code) = code"

definition known_tags :: "dmap_tag list" where
  "known_tags = [ItemName, SongArtist, SongAlbum, SongGenre, SongTrackNumber, SongDiscNumber, SongYear, SongTime,
     Listing, ListingItem, DatabaseSongs]"

definition tag_from_bytes :: "bytes \<Rightarrow> dmap_tag" where
  "tag_from_bytes b = (case find (\<lambda>t. tag_code t = b) known_tags of Some t \<Rightarrow> t | None \<Rightarrow> UnknownTag b)"

definition tag_is_container :: "dmap_tag \<Rightarrow> bool" where
  "tag_is_container t \<longleftrightarrow> t \<in> {Listing, ListingItem, DatabaseSongs}"

definition tag_string :: "dmap_tag \<Rightarrow> str" where
  "tag_string t = (if utf8_valid (tag_code t) then tag_code t else ascii ''????'')"

datatype dmap_value =
    DV_String str | DV_Int i64 | DV_Container "(dmap_tag \<times> dmap_value) list" | DV_Raw bytes

section \<open>The encoder\<close>

definition dmap_item :: "dmap_tag \<Rightarrow> bytes \<Rightarrow> bytes" where
  "dmap_item t body = tag_code t @ be_bytes 4 (of_nat (length body) :: u32) @ body"

definition dmap_sized :: "dmap_tag \<Rightarrow> bytes \<Rightarrow> bytes option" where
  "dmap_sized t body = (if length body < 2 ^ 32 then Some (dmap_item t body) else None)"

definition dmap_int_bytes :: "i64 \<Rightarrow> bytes" where
  "dmap_int_bytes n =
     (if 0 \<le> sint n \<and> sint n \<le> 255 then [ucast n]
      else if - 32768 \<le> sint n \<and> sint n \<le> 32767 then be_bytes 2 (ucast n :: 16 word)
      else if - 2147483648 \<le> sint n \<and> sint n \<le> 2147483647 then be_bytes 4 (ucast n :: 32 word)
      else be_bytes 8 n)"

fun encode_tag :: "dmap_tag \<Rightarrow> dmap_value \<Rightarrow> bytes option"
and encode_tags :: "(dmap_tag \<times> dmap_value) list \<Rightarrow> bytes option" where
  "encode_tag t (DV_String s) = dmap_sized t s"
| "encode_tag t (DV_Int n) = Some (dmap_item t (dmap_int_bytes n))"
| "encode_tag t (DV_Container items) = Option.bind (encode_tags items) (dmap_sized t)"
| "encode_tag t (DV_Raw b) = dmap_sized t b"
| "encode_tags [] = Some []"
| "encode_tags ((t, v) # items) =
     Option.bind (encode_tag t v) (\<lambda>b. map_option ((@) b) (encode_tags items))"

section \<open>The parser\<close>

datatype dmap_decode_error = DD_InvalidTag | DD_UnexpectedEnd | DD_InvalidIntSize nat

definition is_control :: "nat \<Rightarrow> bool" where
  "is_control c \<longleftrightarrow> c < 0x20 \<or> 0x7F \<le> c \<and> c \<le> 0x9F"

definition plain_text :: "bytes \<Rightarrow> bool" where
  "plain_text b \<longleftrightarrow> utf8_valid b \<and> list_all (\<lambda>c. \<not> is_control c) (str_chars b)"

definition tag_is_integer :: "dmap_tag \<Rightarrow> bool" where
  "tag_is_integer t \<longleftrightarrow> t \<in> {SongTrackNumber, SongDiscNumber, SongYear, SongTime}"

definition dmap_parse_value :: "dmap_tag \<Rightarrow> bytes \<Rightarrow> (dmap_decode_error, dmap_value) result" where
  "dmap_parse_value t b =
     (if tag_is_integer t then
        (if length b = 1 then Inr (DV_Int (ucast (b ! 0)))
         else if length b = 2 then Inr (DV_Int (scast (from_be b :: 16 word)))
         else if length b = 4 then Inr (DV_Int (scast (from_be b :: 32 word)))
         else if length b = 8 then Inr (DV_Int (from_be b))
         else Inl (DD_InvalidIntSize (length b)))
      else if plain_text b then Inr (DV_String b)
      else Inr (DV_Raw b))"

function parse_container :: "bytes \<Rightarrow> (dmap_decode_error, (dmap_tag \<times> dmap_value) list) result" where
  "parse_container data =
     (if data = [] then Inr []
      else if length data < 8 then Inl DD_UnexpectedEnd
      else let len = unat (from_be (take 4 (drop 4 data)) :: u32); rest = drop 8 data in
        if len > length rest then Inl DD_UnexpectedEnd
        else let t = tag_from_bytes (take 4 data); body = take len rest in
          (case (if tag_is_container t then map_sum (\<lambda>e. e) DV_Container (parse_container body)
                 else dmap_parse_value t body) of
             Inl e \<Rightarrow> Inl e
           | Inr v \<Rightarrow> map_sum (\<lambda>e. e) ((#) (t, v)) (parse_container (drop len rest))))"
  by pat_completeness auto

termination
  by (relation "measure length") auto

declare parse_container.simps [simp del]

definition dmap_parse :: "bytes \<Rightarrow> (dmap_decode_error, dmap_value) result" where
  "dmap_parse data = map_sum (\<lambda>e. e) DV_Container (parse_container data)"

fun dmap_flatten :: "dmap_value \<Rightarrow> (str \<times> str) list"
and dmap_flatten_items :: "(dmap_tag \<times> dmap_value) list \<Rightarrow> (str \<times> str) list" where
  "dmap_flatten (DV_Container items) = dmap_flatten_items items"
| "dmap_flatten (DV_String s) = []"
| "dmap_flatten (DV_Int i) = []"
| "dmap_flatten (DV_Raw b) = []"
| "dmap_flatten_items [] = []"
| "dmap_flatten_items ((t, v) # items) =
     (case v of
        DV_String s \<Rightarrow> [(tag_string t, s)]
      | DV_Int i \<Rightarrow> [(tag_string t, (if sint i < 0 then ascii ''-'' else []) @ dec_string (nat \<bar>sint i\<bar>))]
      | DV_Container c \<Rightarrow> dmap_flatten (DV_Container c)
      | DV_Raw b \<Rightarrow> [(tag_string t, ascii ''<'' @ dec_string (length b) @ ascii '' bytes>'')])
     @ dmap_flatten_items items"

definition decode_dmap :: "bytes \<Rightarrow> (dmap_decode_error, (str \<times> str) list) result" where
  "decode_dmap data = map_sum (\<lambda>e. e) dmap_flatten (dmap_parse data)"

section \<open>Metadata of the client\<close>

record track_metadata =
  tm_title :: "str option"
  tm_artist :: "str option"
  tm_album :: "str option"
  tm_genre :: "str option"
  tm_track_number :: "u32 option"
  tm_disc_number :: "u32 option"
  tm_year :: "u32 option"
  tm_duration_ms :: "u32 option"

definition track_metadata_default :: track_metadata where
  "track_metadata_default = \<lparr>tm_title = None, tm_artist = None, tm_album = None, tm_genre = None,
     tm_track_number = None, tm_disc_number = None, tm_year = None, tm_duration_ms = None\<rparr>"

definition string_item :: "dmap_tag \<Rightarrow> str option \<Rightarrow> (dmap_tag \<times> dmap_value) list" where
  "string_item t x = (case x of None \<Rightarrow> [] | Some s \<Rightarrow> [(t, DV_String s)])"

definition int_item :: "dmap_tag \<Rightarrow> u32 option \<Rightarrow> (dmap_tag \<times> dmap_value) list" where
  "int_item t x = (case x of None \<Rightarrow> [] | Some n \<Rightarrow> [(t, DV_Int (ucast n))])"

definition metadata_items :: "track_metadata \<Rightarrow> (dmap_tag \<times> dmap_value) list" where
  "metadata_items m =
     string_item ItemName (tm_title m) @ string_item SongArtist (tm_artist m) @ string_item SongAlbum (tm_album m)
     @ string_item SongGenre (tm_genre m) @ int_item SongTrackNumber (tm_track_number m)
     @ int_item SongDiscNumber (tm_disc_number m) @ int_item SongYear (tm_year m) @ int_item SongTime (tm_duration_ms m)"

definition metadata_encode_dmap :: "track_metadata \<Rightarrow> bytes option" where
  "metadata_encode_dmap m = encode_tag ListingItem (DV_Container (metadata_items m))"

definition metadata_is_empty :: "track_metadata \<Rightarrow> bool" where
  "metadata_is_empty m \<longleftrightarrow> tm_title m = None \<and> tm_artist m = None \<and> tm_album m = None \<and> tm_genre m = None
     \<and> tm_track_number m = None \<and> tm_duration_ms m = None"

section \<open>Metadata at the RAOP receiver\<close>

record raop_metadata =
  rmd_title :: "str option"
  rmd_artist :: "str option"
  rmd_album :: "str option"
  rmd_genre :: "str option"
  rmd_track_number :: "u32 option"
  rmd_track_count :: "u32 option"
  rmd_disc_number :: "u32 option"
  rmd_disc_count :: "u32 option"
  rmd_duration_ms :: "u32 option"

datatype metadata_error = ME_InvalidFormat | ME_IncompleteData

definition raop_metadata_default :: raop_metadata where
  "raop_metadata_default = \<lparr>rmd_title = None, rmd_artist = None, rmd_album = None, rmd_genre = None,
     rmd_track_number = None, rmd_track_count = None, rmd_disc_number = None, rmd_disc_count = None,
     rmd_duration_ms = None\<rparr>"

definition raop_metadata_field :: "raop_metadata \<Rightarrow> bytes \<Rightarrow> bytes \<Rightarrow> raop_metadata" where
  "raop_metadata_field m tag v =
     (let n = Some (from_be (take 4 v)); long = 4 \<le> length v in
      if tag = ascii ''minm'' then m\<lparr>rmd_title := Some (from_utf8_lossy v)\<rparr>
      else if tag = ascii ''asar'' then m\<lparr>rmd_artist := Some (from_utf8_lossy v)\<rparr>
      else if tag = ascii ''asal'' then m\<lparr>rmd_album := Some (from_utf8_lossy v)\<rparr>
      else if tag = ascii ''asgn'' then m\<lparr>rmd_genre := Some (from_utf8_lossy v)\<rparr>
      else if tag = ascii ''astn'' \<and> long then m\<lparr>rmd_track_number := n\<rparr>
      else if tag = ascii ''astc'' \<and> long then m\<lparr>rmd_track_count := n\<rparr>
      else if tag = ascii ''asdn'' \<and> long then m\<lparr>rmd_disc_number := n\<rparr>
      else if tag = ascii ''asdc'' \<and> long then m\<lparr>rmd_disc_count := n\<rparr>
      else if tag = ascii ''astm'' \<and> long then m\<lparr>rmd_duration_ms := n\<rparr>
      else m)"

function raop_metadata_loop :: "bytes \<Rightarrow> nat \<Rightarrow> raop_metadata \<Rightarrow> (metadata_error, raop_metadata) result" where
  "raop_metadata_loop data offset m =
     (if offset + 8 \<le> length data then
        let tag = take 4 (drop offset data); len = unat (from_be (take 4 (drop (offset + 4) data)) :: u32);
            start = offset + 8; end_offset = start + len
        in if end_offset \<ge> 2 ^ 64 then Inl ME_InvalidFormat
           else if end_offset > length data then Inl ME_IncompleteData
           else raop_metadata_loop data end_offset (raop_metadata_field m tag (take len (drop start data)))
      else Inr m)"
  by pat_completeness auto

termination
  by (relation "measure (\<lambda>(data, offset, m). length data - offset)") auto

declare raop_metadata_loop.simps [simp del]

definition parse_dmap_metadata :: "bytes \<Rightarrow> (metadata_error, raop_metadata) result" where
  "parse_dmap_metadata data = raop_metadata_loop data 0 raop_metadata_default"

section \<open>Metadata at the AirPlay 2 receiver\<close>

record ap2_metadata =
  am_title :: "str option"
  am_artist :: "str option"
  am_album :: "str option"
  am_genre :: "str option"
  am_duration_ms :: "u32 option"
  am_track_number :: "u32 option"
  am_disc_number :: "u32 option"

definition ap2_metadata_default :: ap2_metadata where
  "ap2_metadata_default = \<lparr>am_title = None, am_artist = None, am_album = None, am_genre = None, am_duration_ms = None,
     am_track_number = None, am_disc_number = None\<rparr>"

fun ap2_field :: "dmap_tag \<Rightarrow> dmap_value \<Rightarrow> ap2_metadata \<Rightarrow> ap2_metadata" where
  "ap2_field ItemName (DV_String s) m = m\<lparr>am_title := Some s\<rparr>"
| "ap2_field SongArtist (DV_String s) m = m\<lparr>am_artist := Some s\<rparr>"
| "ap2_field SongAlbum (DV_String s) m = m\<lparr>am_album := Some s\<rparr>"
| "ap2_field SongGenre (DV_String s) m = m\<lparr>am_genre := Some s\<rparr>"
| "ap2_field SongTime (DV_Int i) m = m\<lparr>am_duration_ms := Some (ucast i)\<rparr>"
| "ap2_field SongTrackNumber (DV_Int i) m = m\<lparr>am_track_number := Some (ucast i)\<rparr>"
| "ap2_field SongDiscNumber (DV_Int i) m = m\<lparr>am_disc_number := Some (ucast i)\<rparr>"
| "ap2_field t v m = m"

definition tag_is_field :: "dmap_tag \<Rightarrow> bool" where
  "tag_is_field t \<longleftrightarrow> t \<in> {ItemName, SongArtist, SongAlbum, SongGenre, SongTime, SongTrackNumber, SongDiscNumber}"

fun extract_metadata :: "dmap_value \<Rightarrow> ap2_metadata \<Rightarrow> ap2_metadata"
and extract_items :: "(dmap_tag \<times> dmap_value) list \<Rightarrow> ap2_metadata \<Rightarrow> ap2_metadata" where
  "extract_metadata (DV_Container items) m = extract_items items m"
| "extract_metadata (DV_String s) m = m"
| "extract_metadata (DV_Int i) m = m"
| "extract_metadata (DV_Raw b) m = m"
| "extract_items [] m = m"
| "extract_items ((t, v) # items) m =
     extract_items items (if tag_is_field t then ap2_field t v m else extract_metadata v m)"

record ap2_artwork =
  aw_data :: bytes
  aw_mime_type :: str

record metadata_controller =
  mc_metadata :: ap2_metadata
  mc_artwork :: "ap2_artwork option"

definition metadata_controller_new :: metadata_controller where
  "metadata_controller_new = \<lparr>mc_metadata = ap2_metadata_default, mc_artwork = None\<rparr>"

definition update_metadata :: "metadata_controller \<Rightarrow> bytes \<Rightarrow> metadata_controller \<times> (dmap_decode_error, unit) result" where
  "update_metadata c dmap_data =
     (case dmap_parse dmap_data of
        Inl e \<Rightarrow> (c, Inl e)
      | Inr parsed \<Rightarrow> (c\<lparr>mc_metadata := extract_metadata parsed (mc_metadata c)\<rparr>, Inr ()))"

definition update_artwork :: "metadata_controller \<Rightarrow> bytes \<Rightarrow> str \<Rightarrow> metadata_controller" where
  "update_artwork c data mime_type = c\<lparr>mc_artwork := Some \<lparr>aw_data = data, aw_mime_type = mime_type\<rparr>\<rparr>"

definition metadata_clear :: "metadata_controller \<Rightarrow> metadata_controller" where
  "metadata_clear c = c\<lparr>mc_metadata := ap2_metadata_default, mc_artwork := None\<rparr>"

section \<open>What is encoded is parsed\<close>

definition tag_ok :: "dmap_tag \<Rightarrow> bool" where
  "tag_ok t \<longleftrightarrow> length (tag_code t) = 4 \<and> tag_from_bytes (tag_code t) = t"

fun item_ok :: "dmap_tag \<Rightarrow> dmap_value \<Rightarrow> bool"
and items_ok :: "(dmap_tag \<times> dmap_value) list \<Rightarrow> bool" where
  "item_ok t (DV_String s) \<longleftrightarrow> tag_ok t \<and> \<not> tag_is_container t \<and> \<not> tag_is_integer t \<and> plain_text s"
| "item_ok t (DV_Int n) \<longleftrightarrow> tag_ok t \<and> tag_is_integer t"
| "item_ok t (DV_Container items) \<longleftrightarrow> tag_ok t \<and> tag_is_container t \<and> items_ok items"
| "item_ok t (DV_Raw b) \<longleftrightarrow> tag_ok t \<and> \<not> tag_is_container t \<and> \<not> tag_is_integer t \<and> \<not> plain_text b"
| "items_ok [] \<longleftrightarrow> True"
| "items_ok ((t, v) # items) \<longleftrightarrow> item_ok t v \<and> items_ok items"

fun value_size :: "dmap_value \<Rightarrow> nat"
and items_size :: "(dmap_tag \<times> dmap_value) list \<Rightarrow> nat" where
  "value_size (DV_String s) = length s"
| "value_size (DV_Int n) = length (dmap_int_bytes n)"
| "value_size (DV_Container items) = items_size items"
| "value_size (DV_Raw b) = length b"
| "items_size [] = 0"
| "items_size ((t, v) # items) = 8 + value_size v + items_size items"

lemma known_tag_ok [simp]:
  "tag_ok ItemName" "tag_ok SongArtist" "tag_ok SongAlbum" "tag_ok SongGenre" "tag_ok SongTrackNumber"
  "tag_ok SongDiscNumber" "tag_ok SongYear" "tag_ok SongTime" "tag_ok Listing" "tag_ok ListingItem" "tag_ok DatabaseSongs"
  by (simp_all add: tag_ok_def tag_from_bytes_def known_tags_def ascii_def)

lemma tag_kinds: "tag_is_container t \<Longrightarrow> \<not> tag_is_integer t"
  by (auto simp: tag_is_container_def tag_is_integer_def)

lemma scast_ucast_signed:
  assumes "- (2 ^ (LENGTH('b) - 1)) \<le> sint (v :: 64 word)" and "sint v < 2 ^ (LENGTH('b) - 1)" and "LENGTH('b::len) \<le> 64"
  shows "scast (ucast v :: 'b word) = v"
proof -
  have "take_bit LENGTH('b) (uint v) = take_bit LENGTH('b) (sint v)"
    using assms(3) by (simp add: uint_sint min_def)
  then have "(word_of_int (uint v) :: 'b word) = word_of_int (sint v)" by (metis word_of_int_eq_iff)
  moreover have "sint (word_of_int (sint v) :: 'b word) = sint v"
    unfolding sint_sbintrunc' by (rule signed_take_bit_int_eq_self) (use assms(1,2) in simp_all)
  ultimately have "sint (ucast v :: 'b word) = sint v" unfolding ucast_eq by (simp only:)
  then show ?thesis unfolding scast_eq by simp
qed

lemma dmap_int_size: "length (dmap_int_bytes n) \<le> 8"
  by (simp add: dmap_int_bytes_def)

lemma dmap_int_roundtrip: "tag_is_integer t \<Longrightarrow> dmap_parse_value t (dmap_int_bytes n) = Inr (DV_Int n)"
proof -
  assume t: "tag_is_integer t"
  consider "0 \<le> sint n \<and> sint n \<le> 255" | "\<not> (0 \<le> sint n \<and> sint n \<le> 255)" "- 32768 \<le> sint n \<and> sint n \<le> 32767"
    | "\<not> (- 32768 \<le> sint n \<and> sint n \<le> 32767)" "- 2147483648 \<le> sint n \<and> sint n \<le> 2147483647"
    | "\<not> (- 2147483648 \<le> sint n \<and> sint n \<le> 2147483647)" by argo
  then show ?thesis
  proof cases
    case 1
    then have "uint n = sint n" by (simp add: uint_sint take_bit_int_eq_self)
    then have "ucast (ucast n :: u8) = n"
      using 1 by (simp add: word_uint_eq_iff unsigned_ucast_eq unsigned_take_bit_eq take_bit_int_eq_self)
    then show ?thesis using 1 t by (simp add: dmap_int_bytes_def dmap_parse_value_def)
  next
    case 2
    then have "scast (ucast n :: 16 word) = n" by (intro scast_ucast_signed) simp_all
    moreover have "from_be (be_bytes 2 (ucast n :: 16 word)) = (ucast n :: 16 word)" by (rule from_be_be_bytes_full) simp
    ultimately show ?thesis using 2 t by (auto simp: dmap_int_bytes_def dmap_parse_value_def)
  next
    case 3
    then have "scast (ucast n :: 32 word) = n" by (intro scast_ucast_signed) simp_all
    moreover have "from_be (be_bytes 4 (ucast n :: 32 word)) = (ucast n :: 32 word)" by (rule from_be_be_bytes_full) simp
    ultimately show ?thesis using 3 t by (auto simp: dmap_int_bytes_def dmap_parse_value_def)
  next
    case 4
    have "from_be (be_bytes 8 n) = n" by (rule from_be_be_bytes_full) simp
    then show ?thesis using 4 t by (auto simp: dmap_int_bytes_def dmap_parse_value_def)
  qed
qed

text \<open>One item in front of the data.\<close>

lemma parse_container_item:
  assumes "tag_ok t" and "length body < 2 ^ 32"
  shows "parse_container (dmap_item t body @ rest) =
    (case (if tag_is_container t then map_sum (\<lambda>e. e) DV_Container (parse_container body)
           else dmap_parse_value t body) of
       Inl e \<Rightarrow> Inl e | Inr v \<Rightarrow> map_sum (\<lambda>e. e) ((#) (t, v)) (parse_container rest))"
proof -
  let ?n = "of_nat (length body) :: u32"
  have n: "unat ?n = length body" using assms(2) by (simp add: unat_of_nat_small)
  have code: "length (tag_code t) = 4" "tag_from_bytes (tag_code t) = t" using assms(1) by (simp_all add: tag_ok_def)
  have be: "from_be (be_bytes 4 ?n) = ?n" by (rule from_be_be_bytes_full) simp
  have "take 4 (drop 4 (dmap_item t body @ rest)) = be_bytes 4 ?n" "drop 8 (dmap_item t body @ rest) = body @ rest"
    "take 4 (dmap_item t body @ rest) = tag_code t" "8 \<le> length (dmap_item t body @ rest)"
    using code(1) by (simp_all add: dmap_item_def)
  then show ?thesis
    by (subst parse_container.simps) (auto simp: Let_def be n code(2) dmap_item_def split: sum.splits)
qed

lemma length_dmap_item: "tag_ok t \<Longrightarrow> length (dmap_item t body) = 8 + length body"
  by (simp add: dmap_item_def tag_ok_def)

lemma parse_container_Nil [simp]: "parse_container [] = Inr []"
  by (simp add: parse_container.simps)

lemma dmap_encode_parse:
  shows "item_ok t v \<Longrightarrow> value_size v < 2 ^ 32 \<Longrightarrow> \<exists>b. encode_tag t v = Some b \<and> length b = 8 + value_size v
      \<and> (\<forall>rest. parse_container (b @ rest) = map_sum (\<lambda>e. e) ((#) (t, v)) (parse_container rest))"
    and "items_ok items \<Longrightarrow> items_size items < 2 ^ 32 \<Longrightarrow> \<exists>b. encode_tags items = Some b \<and> length b = items_size items
      \<and> parse_container b = Inr items"
proof (induction t v and items rule: encode_tag_encode_tags.induct)
  case (2 t n)
  moreover have "length (dmap_int_bytes n) < 2 ^ 32" using dmap_int_size [of n] by simp
  ultimately show ?case
    using tag_kinds [of t] by (auto simp: parse_container_item length_dmap_item dmap_int_roundtrip)
next
  case (3 t items)
  then obtain b where "encode_tags items = Some b" "length b = items_size items" "parse_container b = Inr items" by auto
  with 3 show ?case by (simp add: dmap_sized_def parse_container_item length_dmap_item)
next
  case (6 t v items)
  have size: "value_size v < 2 ^ 32" "items_size items < 2 ^ 32" using "6.prems"(2) by simp_all
  obtain b where b: "encode_tag t v = Some b" "length b = 8 + value_size v"
      "\<And>rest. parse_container (b @ rest) = map_sum (\<lambda>e. e) ((#) (t, v)) (parse_container rest)"
    using "6.IH"(1) "6.prems"(1) size(1) by auto
  moreover obtain c where "encode_tags items = Some c" "length c = items_size items" "parse_container c = Inr items"
    using "6.IH"(2) [OF b(1)] "6.prems"(1) size(2) by auto
  ultimately show ?case by simp
qed (auto simp: dmap_sized_def parse_container_item length_dmap_item dmap_parse_value_def)

definition metadata_ok :: "track_metadata \<Rightarrow> bool" where
  "metadata_ok m \<longleftrightarrow> pred_option plain_text (tm_title m) \<and> pred_option plain_text (tm_artist m)
     \<and> pred_option plain_text (tm_album m) \<and> pred_option plain_text (tm_genre m)"

lemma items_ok_append [simp]: "items_ok (xs @ ys) \<longleftrightarrow> items_ok xs \<and> items_ok ys"
  by (induction xs) auto

lemma metadata_items_ok: "metadata_ok m \<Longrightarrow> items_ok (metadata_items m)"
  by (auto simp: metadata_ok_def metadata_items_def string_item_def int_item_def tag_is_container_def tag_is_integer_def
      split: option.splits)

lemma extract_items_append: "extract_items (xs @ ys) m = extract_items ys (extract_items xs m)"
proof (induction xs arbitrary: m)
  case (Cons x xs)
  then show ?case by (cases x) simp
qed simp

lemma extract_string_item:
  "tag_is_field t \<Longrightarrow> extract_items (string_item t x) m = (case x of None \<Rightarrow> m | Some s \<Rightarrow> ap2_field t (DV_String s) m)"
  by (simp add: string_item_def split: option.splits)

lemma extract_int_item:
  "extract_items (int_item t x) m =
     (case x of None \<Rightarrow> m | Some n \<Rightarrow> if tag_is_field t then ap2_field t (DV_Int (ucast n)) m else m)"
  by (simp add: int_item_def split: option.splits)

lemma ucast_up_down: "ucast (ucast (n :: u32) :: u64) = n"
  by (rule bit_word_eqI) (auto simp: bit_simps)

text \<open>The metadata after an update: the fields that the update has, the old ones otherwise.\<close>

definition metadata_merge :: "track_metadata \<Rightarrow> ap2_metadata \<Rightarrow> ap2_metadata" where
  "metadata_merge m a =
     (let pick = (\<lambda>x y. case x of None \<Rightarrow> y | Some _ \<Rightarrow> x); pick' = (\<lambda>x y. case x of None \<Rightarrow> y | Some _ \<Rightarrow> x) in
      \<lparr>am_title = pick (tm_title m) (am_title a), am_artist = pick (tm_artist m) (am_artist a),
       am_album = pick (tm_album m) (am_album a), am_genre = pick (tm_genre m) (am_genre a),
       am_duration_ms = pick' (tm_duration_ms m) (am_duration_ms a),
       am_track_number = pick' (tm_track_number m) (am_track_number a),
       am_disc_number = pick' (tm_disc_number m) (am_disc_number a)\<rparr>)"

lemma extract_metadata_items: "extract_items (metadata_items m) a = metadata_merge m a"
  by (cases a)
    (simp add: metadata_items_def extract_items_append extract_string_item extract_int_item tag_is_field_def
      metadata_merge_def ucast_up_down Let_def split: option.splits)

section \<open>Properties\<close>

text \<open>
  C24. Parsing what the DMAP encoder writes returns the items: strings, integers of every width and
  sign, raw bytes and nested containers. Strings have no control characters, raw bytes are not text without
  control characters (the parser returns such bytes as a string), integers occur under integer tags
  and containers under container tags, as the parser assumes, and the whole fits in a 32-bit
  length; then the encoder does not panic.
\<close>

theorem dmap_roundtrip:
  assumes "items_ok items" and "items_size items < 2 ^ 32"
  shows "\<exists>b. encode_tags items = Some b \<and> length b = items_size items \<and> dmap_parse b = Inr (DV_Container items)"
  using dmap_encode_parse(2) [OF assms] by (auto simp: dmap_parse_def)

lemma plain_text_ascii: "list_all (\<lambda>b. 32 \<le> b \<and> b < 127) s \<Longrightarrow> plain_text s"
proof (induction s)
  case (Cons b s)
  then have b: "b < 0x80" by (simp add: word_less_nat_alt)
  have "str_chars (b # s) = unat b # str_chars s"
    using b by (subst str_chars.simps) (simp add: utf8_step_def utf8_char_def)
  moreover have "\<not> is_control (unat b)" using Cons.prems by (simp add: is_control_def word_less_nat_alt word_le_nat_alt)
  ultimately show ?case using Cons b by (simp add: plain_text_def)
qed (simp add: plain_text_def str_chars.simps)

theorem dmap_roundtrip_witness:
  "\<exists>b. encode_tags [(Listing, DV_Container [(ItemName, DV_String (ascii ''Song'')), (SongTime, DV_Int (- 70000))])] = Some b
     \<and> length b = 32
     \<and> dmap_parse b = Inr (DV_Container [(Listing, DV_Container [(ItemName, DV_String (ascii ''Song'')), (SongTime, DV_Int (- 70000))])])"
proof -
  let ?i = "[(Listing, DV_Container [(ItemName, DV_String (ascii ''Song'')), (SongTime, DV_Int (- 70000))])]"
  have "plain_text (ascii ''Song'')" by (rule plain_text_ascii) (simp add: ascii_def)
  then have ok: "items_ok ?i" by (simp add: tag_is_container_def tag_is_integer_def)
  have size: "items_size ?i = 32" by (simp add: dmap_int_bytes_def ascii_def)
  show ?thesis using dmap_roundtrip [OF ok] unfolding size by simp
qed

text \<open>
  The metadata of the client reaches the AirPlay 2 receiver: after an update with the client's
  encoding the receiver holds every field that the client set; a field that the client left
  out keeps the value of the previous track.
\<close>

theorem ap2_metadata_received:
  assumes "metadata_ok m" and "items_size (metadata_items m) < 2 ^ 32 - 8"
  shows "\<exists>b. metadata_encode_dmap m = Some b
    \<and> update_metadata c b = (c\<lparr>mc_metadata := metadata_merge m (mc_metadata c)\<rparr>, Inr ())"
proof -
  have "items_ok [(ListingItem, DV_Container (metadata_items m))]"
    using metadata_items_ok [OF assms(1)] by (simp add: tag_is_container_def)
  from dmap_encode_parse(2) [OF this] assms(2)
  obtain b where "metadata_encode_dmap m = Some b" "parse_container b = Inr [(ListingItem, DV_Container (metadata_items m))]"
    by (auto simp: metadata_encode_dmap_def split: Option.bind_splits)
  then show ?thesis
    by (auto simp: update_metadata_def dmap_parse_def tag_is_field_def extract_metadata_items)
qed

definition demo_track :: track_metadata where
  "demo_track = track_metadata_default\<lparr>tm_title := Some (ascii ''Song''), tm_track_number := Some 7\<rparr>"

lemma demo_track_ok: "metadata_ok demo_track" "items_size (metadata_items demo_track) < 2 ^ 32 - 8"
proof -
  have "plain_text (ascii ''Song'')" by (rule plain_text_ascii) (simp add: ascii_def)
  then show "metadata_ok demo_track" by (simp add: metadata_ok_def demo_track_def track_metadata_default_def)
  show "items_size (metadata_items demo_track) < 2 ^ 32 - 8"
    by (simp add: metadata_items_def demo_track_def track_metadata_default_def string_item_def int_item_def dmap_int_bytes_def ascii_def)
qed

theorem ap2_metadata_received_witness:
  "\<exists>b. metadata_encode_dmap demo_track = Some b
     \<and> update_metadata metadata_controller_new b =
         (metadata_controller_new\<lparr>mc_metadata := metadata_merge demo_track ap2_metadata_default\<rparr>, Inr ())"
  using ap2_metadata_received [OF demo_track_ok, of metadata_controller_new] by (simp add: metadata_controller_new_def)

text \<open>
  The metadata of the same client never reaches the RAOP receiver: the client wraps it in a
  listing item, and the receiver skips that tag with everything in it, so that every update
  is read as empty metadata.
\<close>

theorem raop_metadata_lost:
  assumes "metadata_encode_dmap m = Some b"
  shows "parse_dmap_metadata b = Inr raop_metadata_default"
proof -
  obtain body where b: "b = dmap_item ListingItem body" and size: "length body < 2 ^ 32"
    using assms by (auto simp: metadata_encode_dmap_def dmap_sized_def split: Option.bind_splits if_splits)
  let ?n = "of_nat (length body) :: u32"
  have n: "unat ?n = length body" using size by (simp add: unat_of_nat_small)
  have be: "from_be (be_bytes 4 ?n) = ?n" by (rule from_be_be_bytes_full) simp
  have code: "length (tag_code ListingItem) = 4" using known_tag_ok(10) by (simp only: tag_ok_def)
  have "take 4 (drop 4 b) = be_bytes 4 ?n" "take 4 b = tag_code ListingItem" "length b = 8 + length body"
    using code by (simp_all add: b dmap_item_def)
  then have "raop_metadata_loop b 0 raop_metadata_default =
      raop_metadata_loop b (8 + length body)
        (raop_metadata_field raop_metadata_default (tag_code ListingItem) (take (length body) (drop 8 b)))"
    using size by (subst raop_metadata_loop.simps) (simp add: Let_def be n)
  moreover have "raop_metadata_field raop_metadata_default (tag_code ListingItem) v = raop_metadata_default" for v
    by (simp add: raop_metadata_field_def ascii_def Let_def)
  ultimately show ?thesis
    using \<open>length b = 8 + length body\<close> by (simp add: parse_dmap_metadata_def raop_metadata_loop.simps [of b "8 + length body"])
qed

theorem raop_metadata_lost_witness: "\<exists>b. metadata_encode_dmap demo_track = Some b \<and> parse_dmap_metadata b = Inr raop_metadata_default"
proof -
  have "items_ok [(ListingItem, DV_Container (metadata_items demo_track))]"
    using metadata_items_ok [OF demo_track_ok(1)] by (simp add: tag_is_container_def)
  from dmap_encode_parse(2) [OF this] demo_track_ok(2) obtain b where "metadata_encode_dmap demo_track = Some b"
    by (auto simp: metadata_encode_dmap_def split: Option.bind_splits)
  with raop_metadata_lost show ?thesis by blast
qed

end
