(* ===== verification/Rust_Float.thy ===== *)
theory Rust_Float
  imports Receiver_Session Rust_Split
begin

text \<open>
  The floating-point numbers of the program as text: \<open>f32::from_str\<close>, \<open>f64::from_str\<close> and
  \<open>format!("{:.6}")\<close>. A finite float is its rational value, so that the two zeros are one. Parsing
  rounds the decimal value to the nearest float, ties to even, with gradual underflow and
  overflow to infinity; printing rounds the binary value to six decimals in the same way.
\<close>

datatype f64 = F64 rat | F64_inf bool | F64_nan

section \<open>Rounding\<close>

definition round_half_even :: "rat \<Rightarrow> int" where
  "round_half_even q =
     (let n = \<lfloor>q\<rfloor>; r = q - of_int n in
      if r < 1 / 2 then n else if r > 1 / 2 then n + 1 else if even n then n else n + 1)"

definition pow_int :: "rat \<Rightarrow> int \<Rightarrow> rat" where
  "pow_int b k = (if 0 \<le> k then b ^ nat k else 1 / b ^ nat (- k))"

fun bit_count :: "nat \<Rightarrow> nat" where
  "bit_count n = (if n = 0 then 0 else Suc (bit_count (n div 2)))"

declare bit_count.simps [simp del]

text \<open>The exponent of a positive rational: the power of two at or below it.\<close>

definition binary_exponent :: "rat \<Rightarrow> int" where
  "binary_exponent q =
     (case quotient_of q of (a, b) \<Rightarrow>
        let k = int (bit_count (nat a)) - int (bit_count (nat b)) in if pow_int 2 k \<le> q then k else k - 1)"

definition round_float :: "nat \<Rightarrow> int \<Rightarrow> int \<Rightarrow> rat \<Rightarrow> rat option" where
  "round_float precision emin emax q =
     (if q = 0 then Some 0
      else let ulp = pow_int 2 (max (binary_exponent q) emin - (int precision - 1));
               v = of_int (round_half_even (q / ulp)) * ulp
           in if v \<ge> pow_int 2 (emax + 1) then None else Some v)"

section \<open>Parsing\<close>

datatype float_text = Decimal bool nat int | Infinite bool | NotANumber

definition float_exponent :: "str \<Rightarrow> int option" where
  "float_exponent s =
     (case s of
        [] \<Rightarrow> Some 0
      | e # r \<Rightarrow>
          if e \<noteq> 101 \<and> e \<noteq> 69 then None
          else let neg = (r \<noteq> [] \<and> hd r = 45); d = (if r \<noteq> [] \<and> (hd r = 43 \<or> hd r = 45) then tl r else r)
               in if d = [] \<or> \<not> list_all is_digit d then None
                  else Some (if neg then - int (dec_value d) else int (dec_value d)))"

definition float_number :: "bool \<Rightarrow> str \<Rightarrow> float_text option" where
  "float_number neg s =
     (let whole = takeWhile is_digit s; r = dropWhile is_digit s;
          frac = (if r \<noteq> [] \<and> hd r = 46 then takeWhile is_digit (tl r) else []);
          rest = (if r \<noteq> [] \<and> hd r = 46 then dropWhile is_digit (tl r) else r)
      in if whole = [] \<and> frac = [] then None
         else map_option (\<lambda>e. Decimal neg (dec_value (whole @ frac)) (e - int (length frac))) (float_exponent rest))"

definition parse_float :: "str \<Rightarrow> float_text option" where
  "parse_float s =
     (if s = [] then None
      else let neg = (hd s = 45); r = (if hd s = 45 \<or> hd s = 43 then tl s else s); low = ascii_lower r
           in if low = ascii ''inf'' \<or> low = ascii ''infinity'' then Some (Infinite neg)
              else if low = ascii ''nan'' then Some NotANumber
              else float_number neg r)"

definition decimal_value :: "nat \<Rightarrow> int \<Rightarrow> rat" where
  "decimal_value m e = of_nat m * pow_int 10 e"

fun float_value :: "nat \<Rightarrow> int \<Rightarrow> int \<Rightarrow> (rat \<Rightarrow> 'f) \<Rightarrow> (bool \<Rightarrow> 'f) \<Rightarrow> 'f \<Rightarrow> float_text \<Rightarrow> 'f" where
  "float_value p emin emax fin big nan (Decimal neg m e) =
     (case round_float p emin emax (decimal_value m e) of
        None \<Rightarrow> big neg | Some v \<Rightarrow> fin (if neg then - v else v))"
| "float_value p emin emax fin big nan (Infinite neg) = big neg"
| "float_value p emin emax fin big nan NotANumber = nan"

definition parse_f32 :: "str \<Rightarrow> f32 option" where
  "parse_f32 s = map_option (float_value 24 (- 126) 127 F32 F32_inf F32_nan) (parse_float s)"

definition parse_f64 :: "str \<Rightarrow> f64 option" where
  "parse_f64 s = map_option (float_value 53 (- 1022) 1023 F64 F64_inf F64_nan) (parse_float s)"

section \<open>Printing\<close>

definition six_digits :: "nat \<Rightarrow> str" where
  "six_digits n = (let d = dec_string n in replicate (6 - length d) 48 @ d)"

fun f32_fixed6 :: "f32 \<Rightarrow> str" where
  "f32_fixed6 (F32 q) =
     (let n = nat (round_half_even (\<bar>q\<bar> * 1000000))
      in (if q < 0 then ascii ''-'' else []) @ dec_string (n div 1000000) @ ascii ''.'' @ six_digits (n mod 1000000))"
| "f32_fixed6 (F32_inf negative) = (if negative then ascii ''-inf'' else ascii ''inf'')"
| "f32_fixed6 F32_nan = ascii ''NaN''"

section \<open>Integers are exact\<close>

lemma round_half_even_int [simp]: "round_half_even (of_int n) = n"
  by (simp add: round_half_even_def Let_def)

lemma bit_count_bounds: "0 < n \<Longrightarrow> 2 ^ (bit_count n - 1) \<le> n \<and> n < 2 ^ bit_count n \<and> 0 < bit_count n"
proof (induction n rule: bit_count.induct)
  case (1 n)
  show ?case
  proof (cases "n = 1")
    case False
    with 1 have "0 < n div 2" by simp
    with 1 have ih: "2 ^ (bit_count (n div 2) - 1) \<le> n div 2" "n div 2 < 2 ^ bit_count (n div 2)" "0 < bit_count (n div 2)"
      by simp_all
    have "(2 :: nat) ^ bit_count (n div 2) = 2 * 2 ^ (bit_count (n div 2) - 1)"
      using ih(3) by (cases "bit_count (n div 2)") simp_all
    moreover have "n < 2 * (n div 2 + 1)" "2 * (n div 2) \<le> n" by simp_all
    ultimately have "2 ^ bit_count (n div 2) \<le> n" "n < 2 * 2 ^ bit_count (n div 2)" using ih(1,2) by linarith+
    then show ?thesis using 1 by (simp add: bit_count.simps [of n])
  qed (simp add: bit_count.simps)
qed

lemma quotient_of_nat: "quotient_of (of_nat n :: rat) = (int n, 1)"
  using quotient_of_int [of "int n"] by (simp add: Rat.of_int_def)

lemma binary_exponent_nat:
  assumes "0 < n"
  shows "binary_exponent (of_nat n) = int (bit_count n) - 1"
proof -
  have b: "2 ^ (bit_count n - 1) \<le> n" "n < 2 ^ bit_count n" "0 < bit_count n" using bit_count_bounds [OF assms] by simp_all
  have one: "bit_count (Suc 0) = 1" by (simp add: bit_count.simps)
  have "pow_int 2 (int (bit_count n) - 1) = of_nat (2 ^ (bit_count n - 1))"
    using b(3) by (simp add: pow_int_def nat_diff_distrib)
  then have "pow_int 2 (int (bit_count n) - 1) \<le> of_nat n" using b(1) by (simp only: of_nat_le_iff)
  then show ?thesis by (simp add: binary_exponent_def quotient_of_nat one Let_def)
qed

lemma round_float_nat:
  assumes "n < 2 ^ p" and "0 < p" and "emin \<le> 0" and "int p \<le> emax"
  shows "round_float p emin emax (of_nat n) = Some (of_nat n)"
proof (cases "n = 0")
  case False
  let ?k = "bit_count n"
  have b: "2 ^ (?k - 1) \<le> n" "n < 2 ^ ?k" "0 < ?k" using bit_count_bounds [of n] False by simp_all
  have "?k \<le> p"
  proof (rule ccontr)
    assume "\<not> ?k \<le> p"
    then have "(2 :: nat) ^ p \<le> 2 ^ (?k - 1)" by (intro power_increasing) simp_all
    with b(1) assms(1) show False by linarith
  qed
  then have ulp: "pow_int 2 (max (binary_exponent (of_nat n)) emin - (int p - 1)) = 1 / 2 ^ (p - ?k)"
    using False b(3) assms(3) by (auto simp: binary_exponent_nat pow_int_def nat_diff_distrib)
  have "of_nat n / (1 / 2 ^ (p - ?k) :: rat) = of_int (int n * 2 ^ (p - ?k))" by simp
  then have v: "of_int (round_half_even (of_nat n / (1 / 2 ^ (p - ?k)))) * (1 / 2 ^ (p - ?k) :: rat) = of_nat n"
    by (simp only: round_half_even_int) simp
  have "of_nat n < (2 :: rat) ^ p" using assms(1) by (metis of_nat_less_iff of_nat_numeral of_nat_power)
  also have "(2 :: rat) ^ p \<le> 2 ^ nat (emax + 1)" using assms(4) by (intro power_increasing) simp_all
  also have "\<dots> = pow_int 2 (emax + 1)" using assms(4) by (simp add: pow_int_def)
  finally show ?thesis using False v by (simp add: round_float_def ulp Let_def)
qed (simp add: round_float_def)

lemma ascii_lower_digits: "list_all is_digit s \<Longrightarrow> ascii_lower s = s"
  by (induction s) (auto simp: ascii_lower_def is_digit_def word_le_nat_alt)

lemma parse_float_nat: "parse_float (dec_string n) = Some (Decimal False n 0)"
proof -
  let ?s = "dec_string n"
  have d: "list_all is_digit ?s" "?s \<noteq> []" using dec_string_digits by simp_all
  then obtain b bs where s: "?s = b # bs" "is_digit b" by (cases ?s) auto
  have "b \<noteq> 45" "b \<noteq> 43" "b \<noteq> 105" "b \<noteq> 110" using s(2) by (auto simp: is_digit_def)
  note nb = this
  have tw: "takeWhile is_digit (b # bs) = b # bs" "dropWhile is_digit (b # bs) = []"
    using d(1) s(1) by (simp_all only: takeWhile_eq_all_conv dropWhile_eq_Nil_conv list_all_iff)
  show ?thesis
    using nb ascii_lower_digits [OF d(1)] dec_value_string [of n] unfolding s(1)
    by (simp add: tw parse_float_def float_number_def float_exponent_def ascii_def Let_def del: takeWhile.simps dropWhile.simps)
qed

lemma parse_f64_nat: "n < 2 ^ 53 \<Longrightarrow> parse_f64 (dec_string n) = Some (F64 (of_nat n))"
  using round_float_nat [of n 53 "- 1022" 1023]
  by (simp add: parse_f64_def parse_float_nat decimal_value_def pow_int_def)

end
