(* ===== verification/Raop_Session.thy ===== *)
theory Raop_Session
  imports Raop_Sdp Dmap Rust_Float Rtp_Codec
begin

text \<open>
  The client side of RAOP, \<open>src/protocol/raop\<close>: challenge and response (\<open>auth.rs\<close>), the AES key for the
  receiver (\<open>key_exchange.rs\<close>), the RTSP session (\<open>session.rs\<close>) and the encryption of audio
  (\<open>encryption.rs\<close>), with the RSA wrappers of \<open>src/protocol/crypto/rsa.rs\<close> and the progress and
  artwork of \<open>src/protocol/daap\<close>.

  The functions of the \<open>rsa\<close> and \<open>base64\<close> crates are the record \<open>rsa_lib\<close>; the Base64 engine is the one
  without padding. Random values are arguments.
\<close>

section \<open>RSA\<close>

record ('pk, 'sk) rsa_lib =
  rl_public_new :: "nat \<Rightarrow> nat \<Rightarrow> 'pk option"
  rl_oaep_encrypt :: "'pk \<Rightarrow> nat \<Rightarrow> bytes \<Rightarrow> bytes option"
  rl_signature_ok :: "bytes \<Rightarrow> bool"
  rl_verify :: "'pk \<Rightarrow> bytes \<Rightarrow> bytes \<Rightarrow> bool"
  rl_private_new :: "nat \<Rightarrow> 'sk option"
  rl_from_pkcs8_pem :: "str \<Rightarrow> 'sk option"
  rl_oaep_decrypt :: "'sk \<Rightarrow> bytes \<Rightarrow> bytes option"
  rl_sign :: "'sk \<Rightarrow> bytes \<Rightarrow> bytes"
  rl_base64_encode :: "bytes \<Rightarrow> str"
  rl_base64_decode :: "str \<Rightarrow> bytes option"

definition OAEP_MAX_PLAINTEXT :: nat where "OAEP_MAX_PLAINTEXT = 86"
definition RSA_EXPONENT :: nat where "RSA_EXPONENT = 65537"
definition APPLE_MODULUS :: nat where
  "APPLE_MODULUS = 0xe7d7447851a2c8f3d70a3c9d18e63b5b5f23e8c0f2e6c6b2a7f8e0c7a8b9d1e2f3a4b5c6d7e8f90a1b2c3d4e5f60718293a4b5c6d7e8f90a1b2c3d4e5f60718293a4b5c6d7e8f90a1b2c3d4e5f60718293a4b5c6d7e8f90a1b2c3d4e5f60718293a4b5c6d7e8f90a1b2c3d4e5f60718293a4b5c6d7e8f90a1b2c3d4e5f"

definition apple_rsa_load :: "('pk, 'sk) rsa_lib \<Rightarrow> (crypto_error, 'pk) result" where
  "apple_rsa_load L = ok_or (rl_public_new L APPLE_MODULUS RSA_EXPONENT) InvalidPublicKey"

definition rsa_encrypt_oaep :: "('pk, 'sk) rsa_lib \<Rightarrow> 'pk \<Rightarrow> nat \<Rightarrow> bytes \<Rightarrow> (crypto_error, bytes) result" where
  "rsa_encrypt_oaep L key random plaintext =
     (if length plaintext > OAEP_MAX_PLAINTEXT then Inl EncryptionFailed
      else ok_or (rl_oaep_encrypt L key random plaintext) EncryptionFailed)"

definition rsa_verify_pkcs1 :: "('pk, 'sk) rsa_lib \<Rightarrow> 'pk \<Rightarrow> bytes \<Rightarrow> bytes \<Rightarrow> (crypto_error, unit) result" where
  "rsa_verify_pkcs1 L key message signature =
     (if \<not> rl_signature_ok L signature then Inl InvalidSignature
      else if rl_verify L key message signature then Inr () else Inl VerificationFailed)"

definition raop_private_generate :: "('pk, 'sk) rsa_lib \<Rightarrow> nat \<Rightarrow> (crypto_error, 'sk) result" where
  "raop_private_generate L random = ok_or (rl_private_new L random) RngError"

definition raop_private_from_pem :: "('pk, 'sk) rsa_lib \<Rightarrow> str \<Rightarrow> (crypto_error, 'sk) result" where
  "raop_private_from_pem L pem = ok_or (rl_from_pkcs8_pem L pem) (InvalidKeyLength 128 0)"

definition rsa_decrypt_oaep :: "('pk, 'sk) rsa_lib \<Rightarrow> 'sk \<Rightarrow> bytes \<Rightarrow> (crypto_error, bytes) result" where
  "rsa_decrypt_oaep L key ciphertext = ok_or (rl_oaep_decrypt L key ciphertext) DecryptionFailed"

definition rsa_sign_pkcs1 :: "('pk, 'sk) rsa_lib \<Rightarrow> 'sk \<Rightarrow> bytes \<Rightarrow> (crypto_error, bytes) result" where
  "rsa_sign_pkcs1 L key message = Inr (rl_sign L key message)"

section \<open>Challenge and response\<close>

definition decode_challenge :: "('pk, 'sk) rsa_lib \<Rightarrow> str \<Rightarrow> (crypto_error, bytes) result" where
  "decode_challenge L header = ok_or (rl_base64_decode L (trim header)) DecryptionFailed"

text \<open>An address is its octets, four or sixteen.\<close>

definition build_response_message :: "bytes \<Rightarrow> bytes \<Rightarrow> bytes \<Rightarrow> bytes" where
  "build_response_message challenge octets mac_address =
     (let message = challenge @ octets @ mac_address in message @ replicate (32 - length message) 0)"

definition generate_response ::
    "('pk, 'sk) rsa_lib \<Rightarrow> 'sk \<Rightarrow> bytes \<Rightarrow> bytes \<Rightarrow> bytes \<Rightarrow> (crypto_error, str) result" where
  "generate_response L private_key challenge octets mac_address =
     result_bind (rsa_sign_pkcs1 L private_key (build_response_message challenge octets mac_address)) (\<lambda>signature.
     Inr (rl_base64_encode L signature))"

definition verify_response ::
    "('pk, 'sk) rsa_lib \<Rightarrow> 'pk \<Rightarrow> str \<Rightarrow> bytes \<Rightarrow> bytes \<Rightarrow> bytes \<Rightarrow> (crypto_error, unit) result" where
  "verify_response L public_key header challenge octets server_mac =
     result_bind (ok_or (rl_base64_decode L (trim header)) VerificationFailed) (\<lambda>signature.
     rsa_verify_pkcs1 L public_key (build_response_message challenge octets server_mac) signature)"

datatype auth_state = Auth_Initial | Auth_ChallengeSent | Auth_Authenticated | Auth_Failed

record raop_authenticator =
  ra_challenge :: bytes
  ra_state :: auth_state

definition raop_authenticator_new :: "bytes \<Rightarrow> raop_authenticator" where
  "raop_authenticator_new random = \<lparr>ra_challenge = random, ra_state = Auth_Initial\<rparr>"

definition challenge_header :: "('pk, 'sk) rsa_lib \<Rightarrow> raop_authenticator \<Rightarrow> str" where
  "challenge_header L a = rl_base64_encode L (ra_challenge a)"

definition auth_mark_sent :: "raop_authenticator \<Rightarrow> raop_authenticator" where
  "auth_mark_sent a = a\<lparr>ra_state := Auth_ChallengeSent\<rparr>"

definition auth_verify ::
    "('pk, 'sk) rsa_lib \<Rightarrow> raop_authenticator \<Rightarrow> str \<Rightarrow> bytes \<Rightarrow> bytes \<Rightarrow> raop_authenticator \<times> (crypto_error, unit) result" where
  "auth_verify L a header octets server_mac =
     (if ra_state a \<noteq> Auth_ChallengeSent then (a, Inl VerificationFailed)
      else (case apple_rsa_load L of
              Inl e \<Rightarrow> (a, Inl e)
            | Inr public_key \<Rightarrow>
                (let r = verify_response L public_key header (ra_challenge a) octets server_mac
                 in (a\<lparr>ra_state := (case r of Inr _ \<Rightarrow> Auth_Authenticated | Inl _ \<Rightarrow> Auth_Failed)\<rparr>, r))))"

section \<open>Session keys\<close>

record raop_session_keys =
  rk_aes_key :: bytes
  rk_aes_iv :: bytes
  rk_encrypted_key :: bytes

definition session_keys_generate ::
    "('pk, 'sk) rsa_lib \<Rightarrow> bytes \<Rightarrow> bytes \<Rightarrow> nat \<Rightarrow> (crypto_error, raop_session_keys) result" where
  "session_keys_generate L aes_key aes_iv random =
     result_bind (apple_rsa_load L) (\<lambda>public_key.
     result_bind (rsa_encrypt_oaep L public_key random aes_key) (\<lambda>encrypted_key.
     Inr \<lparr>rk_aes_key = aes_key, rk_aes_iv = aes_iv, rk_encrypted_key = encrypted_key\<rparr>))"

definition keys_rsaaeskey :: "('pk, 'sk) rsa_lib \<Rightarrow> raop_session_keys \<Rightarrow> str" where
  "keys_rsaaeskey L k = rl_base64_encode L (rk_encrypted_key k)"

definition keys_aesiv :: "('pk, 'sk) rsa_lib \<Rightarrow> raop_session_keys \<Rightarrow> str" where
  "keys_aesiv L k = rl_base64_encode L (rk_aes_iv k)"

definition parse_session_keys ::
    "('pk, 'sk) rsa_lib \<Rightarrow> str \<Rightarrow> str \<Rightarrow> 'sk \<Rightarrow> (crypto_error, bytes \<times> bytes) result" where
  "parse_session_keys L rsaaeskey_b64 aesiv_b64 private_key =
     result_bind (ok_or (rl_base64_decode L (trim rsaaeskey_b64)) DecryptionFailed) (\<lambda>encrypted_key.
     result_bind (rsa_decrypt_oaep L private_key encrypted_key) (\<lambda>aes_key.
     if length aes_key \<noteq> 16 then Inl (InvalidKeyLength 16 (length aes_key)) else
     result_bind (ok_or (rl_base64_decode L (trim aesiv_b64)) DecryptionFailed) (\<lambda>aes_iv.
     if length aes_iv \<noteq> 16 then Inl (InvalidKeyLength 16 (length aes_iv)) else
     Inr (aes_key, aes_iv))))"

section \<open>Encryption of audio\<close>

definition RAOP_FRAME_SIZE :: nat where "RAOP_FRAME_SIZE = 352 * 4"

record raop_encryptor =
  re_key :: bytes
  re_iv :: bytes
  re_enabled :: bool

definition raop_encryptor_new :: "bytes \<Rightarrow> bytes \<Rightarrow> raop_encryptor" where
  "raop_encryptor_new key iv = \<lparr>re_key = key, re_iv = iv, re_enabled = True\<rparr>"

definition raop_encryptor_disabled :: raop_encryptor where
  "raop_encryptor_disabled = \<lparr>re_key = replicate 16 0, re_iv = replicate 16 0, re_enabled = False\<rparr>"

definition raop_position :: "u64 \<Rightarrow> u64 option" where
  "raop_position packet_index =
     (if unat packet_index * RAOP_FRAME_SIZE < 2 ^ 64 then Some (packet_index * of_nat RAOP_FRAME_SIZE) else None)"

definition raop_encrypt ::
    "(bytes \<Rightarrow> bytes \<Rightarrow> bytes) \<Rightarrow> raop_encryptor \<Rightarrow> bytes \<Rightarrow> u64 \<Rightarrow> (crypto_error, bytes) result option" where
  "raop_encrypt aes e audio_data packet_index =
     (if \<not> re_enabled e then Some (Inr audio_data)
      else (case aes_ctr_new (re_key e) (re_iv e) of
              Inl err \<Rightarrow> Some (Inl err)
            | Inr cipher \<Rightarrow>
                map_option (\<lambda>position. Inr (snd (apply_keystream aes (aes_ctr_seek aes cipher position) audio_data)))
                  (raop_position packet_index)))"

definition raop_decrypt ::
    "(bytes \<Rightarrow> bytes \<Rightarrow> bytes) \<Rightarrow> raop_encryptor \<Rightarrow> bytes \<Rightarrow> u64 \<Rightarrow> (crypto_error, bytes) result option" where
  "raop_decrypt aes d audio_data packet_index = raop_encrypt aes d audio_data packet_index"

datatype encryption_mode = Enc_None | Enc_Rsa | Enc_FairPlay | Enc_MfiSap | Enc_FairPlaySap25

definition encryption_mode_from_txt :: "u8 \<Rightarrow> encryption_mode option" where
  "encryption_mode_from_txt v =
     (if v = 0 then Some Enc_None else if v = 1 then Some Enc_Rsa else if v = 3 then Some Enc_FairPlay
      else if v = 4 then Some Enc_MfiSap else if v = 5 then Some Enc_FairPlaySap25 else None)"

definition encryption_mode_is_supported :: "encryption_mode \<Rightarrow> bool" where
  "encryption_mode_is_supported m \<longleftrightarrow> m = Enc_None \<or> m = Enc_Rsa"

record encryption_config =
  ecf_mode :: encryption_mode
  ecf_encryptor :: "raop_encryptor option"
  ecf_keys :: "raop_session_keys option"

definition encryption_unencrypted :: encryption_config where
  "encryption_unencrypted = \<lparr>ecf_mode = Enc_None, ecf_encryptor = Some raop_encryptor_disabled, ecf_keys = None\<rparr>"

definition encryption_rsa ::
    "('pk, 'sk) rsa_lib \<Rightarrow> bytes \<Rightarrow> bytes \<Rightarrow> nat \<Rightarrow> (crypto_error, encryption_config) result" where
  "encryption_rsa L aes_key aes_iv random =
     result_bind (session_keys_generate L aes_key aes_iv random) (\<lambda>keys.
     Inr \<lparr>ecf_mode = Enc_Rsa, ecf_encryptor = Some (raop_encryptor_new (rk_aes_key keys) (rk_aes_iv keys)),
          ecf_keys = Some keys\<rparr>)"

definition encryption_is_encrypted :: "encryption_config \<Rightarrow> bool" where
  "encryption_is_encrypted c \<longleftrightarrow> ecf_mode c \<noteq> Enc_None"

section \<open>Progress and artwork\<close>

record dmap_progress =
  dp_start :: u32
  dp_current :: u32
  dp_end :: u32

definition progress_from_samples :: "u32 \<Rightarrow> u32 \<Rightarrow> u32 \<Rightarrow> dmap_progress" where
  "progress_from_samples base position duration =
     \<lparr>dp_start = base, dp_current = base + position, dp_end = base + duration\<rparr>"

definition progress_values :: "dmap_progress \<Rightarrow> str" where
  "progress_values p =
     join_by (ascii ''/'') [dec_string (unat (dp_start p)), dec_string (unat (dp_current p)), dec_string (unat (dp_end p))]"

definition progress_encode :: "dmap_progress \<Rightarrow> str" where
  "progress_encode p = ascii ''progress: '' @ progress_values p @ crlf"

definition progress_parse :: "str \<Rightarrow> dmap_progress option" where
  "progress_parse s =
     Option.bind (find (\<lambda>l. strip_prefix (ascii ''progress:'') l \<noteq> None) (rust_lines s)) (\<lambda>line.
     Option.bind (strip_prefix (ascii ''progress:'') line) (\<lambda>v.
       (case split_byte 47 (trim v) of
          [a, b, c] \<Rightarrow>
            Option.bind (parse_u32 (trim a)) (\<lambda>start.
            Option.bind (parse_u32 (trim b)) (\<lambda>current.
            Option.bind (parse_u32 (trim c)) (\<lambda>en.
            Some \<lparr>dp_start = start, dp_current = current, dp_end = en\<rparr>)))
        | _ \<Rightarrow> None)))"

datatype artwork_format = Art_Jpeg | Art_Png

fun artwork_mime_type :: "artwork_format \<Rightarrow> str" where
  "artwork_mime_type Art_Jpeg = ascii ''image/jpeg''"
| "artwork_mime_type Art_Png = ascii ''image/png''"

definition artwork_detect :: "bytes \<Rightarrow> artwork_format option" where
  "artwork_detect data =
     (if length data < 4 then None
      else if take 2 data = [0xFF, 0xD8] then Some Art_Jpeg
      else if take 4 data = [0x89, 0x50, 0x4E, 0x47] then Some Art_Png
      else None)"

record artwork =
  art_data :: bytes
  art_format :: artwork_format

definition artwork_from_data :: "bytes \<Rightarrow> artwork option" where
  "artwork_from_data data = map_option (\<lambda>f. \<lparr>art_data = data, art_format = f\<rparr>) (artwork_detect data)"

definition be16_at :: "bytes \<Rightarrow> nat \<Rightarrow> nat" where
  "be16_at data i = unat (from_be [data ! i, data ! (i + 1)] :: u16)"

function jpeg_loop :: "bytes \<Rightarrow> nat \<Rightarrow> (nat \<times> nat) option" where
  "jpeg_loop data pos =
     (if pos < length data - 4 then
        if data ! pos \<noteq> 0xFF then jpeg_loop data (pos + 1)
        else let marker = data ! (pos + 1) in
          if 0xC0 \<le> marker \<and> marker \<le> 0xCF \<and> marker \<noteq> 0xC4 \<and> marker \<noteq> 0xC8 \<and> marker \<noteq> 0xCC \<and> pos + 9 < length data
          then Some (be16_at data (pos + 7), be16_at data (pos + 5))
          else if pos + 3 < length data then jpeg_loop data (pos + (2 + be16_at data (pos + 2)))
          else None
      else None)"
  by pat_completeness auto

termination
  by (relation "measure (\<lambda>(data, pos). length data - pos)") auto

declare jpeg_loop.simps [simp del]

definition png_dimensions :: "bytes \<Rightarrow> (nat \<times> nat) option" where
  "png_dimensions data =
     (if length data < 24 then None
      else Some (unat (from_be (take 4 (drop 16 data)) :: u32), unat (from_be (take 4 (drop 20 data)) :: u32)))"

definition artwork_dimensions :: "artwork \<Rightarrow> (nat \<times> nat) option option" where
  "artwork_dimensions a =
     (case art_format a of
        Art_Jpeg \<Rightarrow> if length (art_data a) < 4 then None else Some (jpeg_loop (art_data a) 2)
      | Art_Png \<Rightarrow> Some (png_dimensions (art_data a)))"

section \<open>The session\<close>

datatype raop_state =
    RS_Init | RS_OptionsExchange | RS_Announcing | RS_SettingUp | RS_Recording | RS_Paused | RS_Terminated

record raop_transport =
  rt_server_port :: u16
  rt_control_port :: u16
  rt_timing_port :: u16
  rt_client_control_port :: u16
  rt_client_timing_port :: u16

record raop_session =
  ro_state :: raop_state
  ro_cseq :: u32
  ro_session_id :: "str option"
  ro_client_instance :: str
  ro_dacp_id :: str
  ro_active_remote :: str
  ro_server_addr :: str
  ro_server_port :: u16
  ro_authenticator :: raop_authenticator
  ro_session_keys :: "raop_session_keys option"
  ro_transport :: "raop_transport option"
  ro_audio_latency :: u32

definition raop_session_new :: "u64 \<Rightarrow> u64 \<Rightarrow> u32 \<Rightarrow> bytes \<Rightarrow> str \<Rightarrow> u16 \<Rightarrow> raop_session" where
  "raop_session_new instance_random dacp_random remote_random challenge_random server_addr server_port =
     \<lparr>ro_state = RS_Init, ro_cseq = 0, ro_session_id = None, ro_client_instance = hex16 instance_random,
      ro_dacp_id = hex16 dacp_random, ro_active_remote = dec_string (unat remote_random), ro_server_addr = server_addr,
      ro_server_port = server_port, ro_authenticator = raop_authenticator_new challenge_random,
      ro_session_keys = None, ro_transport = None, ro_audio_latency = 11025\<rparr>"

definition raop_next_cseq :: "raop_session \<Rightarrow> (raop_session \<times> u32) option" where
  "raop_next_cseq s =
     (if ro_cseq s = 0xFFFFFFFF then None else let n = ro_cseq s + 1 in Some (s\<lparr>ro_cseq := n\<rparr>, n))"

definition raop_uri :: "raop_session \<Rightarrow> str \<Rightarrow> str" where
  "raop_uri s path =
     ascii ''rtsp://'' @ ro_server_addr s @ ascii '':'' @ dec_string (unat (ro_server_port s)) @ ascii ''/''
     @ (if path = [] then ro_client_instance s else path)"

definition raop_common_headers :: "raop_session \<Rightarrow> rtsp_request \<Rightarrow> u32 \<Rightarrow> rtsp_request" where
  "raop_common_headers s r n =
     (let b = request_cseq r n;
          b = request_header b USER_AGENT (ascii ''iTunes/12.0 (Macintosh)'');
          b = request_header b CLIENT_INSTANCE (ro_client_instance s);
          b = request_header b DACP_ID (ro_dacp_id s);
          b = request_header b ACTIVE_REMOTE (ro_active_remote s)
      in (case ro_session_id s of None \<Rightarrow> b | Some session \<Rightarrow> request_session b session))"

definition raop_builder :: "raop_session \<Rightarrow> rtsp_method \<Rightarrow> str \<Rightarrow> (raop_session \<times> rtsp_request) option" where
  "raop_builder s m path =
     map_option (\<lambda>(s', n). (s', raop_common_headers s' (request_new m (raop_uri s' path)) n)) (raop_next_cseq s)"

definition raop_request ::
    "raop_session \<Rightarrow> rtsp_method \<Rightarrow> str \<Rightarrow> (rtsp_request \<Rightarrow> rtsp_request) \<Rightarrow> (raop_session \<times> rtsp_request) option" where
  "raop_request s m path f = map_option (\<lambda>(s', r). (s', f r)) (raop_builder s m path)"

definition APPLE_CHALLENGE :: str where "APPLE_CHALLENGE = ascii ''Apple-Challenge''"
definition RANGE_HEADER :: str where "RANGE_HEADER = ascii ''Range''"
definition AUDIO_LATENCY :: str where "AUDIO_LATENCY = ascii ''Audio-Latency''"

definition raop_options_request :: "('pk, 'sk) rsa_lib \<Rightarrow> raop_session \<Rightarrow> (raop_session \<times> rtsp_request) option" where
  "raop_options_request L s =
     raop_request s Method_Options (ascii ''*'')
       (\<lambda>r. request_header r APPLE_CHALLENGE (challenge_header L (ro_authenticator s)))"

definition raop_announce_request :: "raop_session \<Rightarrow> str \<Rightarrow> (raop_session \<times> rtsp_request) option" where
  "raop_announce_request s sdp =
     raop_request s Method_Announce [] (\<lambda>r. request_body (request_header r CONTENT_TYPE (ascii ''application/sdp'')) sdp)"

definition raop_client_transport :: "u16 \<Rightarrow> u16 \<Rightarrow> str" where
  "raop_client_transport control_port timing_port =
     ascii ''RTP/AVP/UDP;unicast;interleaved=0-1;mode=record;control_port='' @ dec_string (unat control_port)
     @ ascii '';timing_port='' @ dec_string (unat timing_port)"

definition raop_setup_request :: "raop_session \<Rightarrow> u16 \<Rightarrow> u16 \<Rightarrow> (raop_session \<times> rtsp_request) option" where
  "raop_setup_request s control_port timing_port =
     raop_request s Method_Setup [] (\<lambda>r. request_header r TRANSPORT (raop_client_transport control_port timing_port))"

definition raop_record_request :: "raop_session \<Rightarrow> u16 \<Rightarrow> u32 \<Rightarrow> (raop_session \<times> rtsp_request) option" where
  "raop_record_request s sq rtptime =
     raop_request s Method_Record [] (\<lambda>r. request_header (request_header r RANGE_HEADER (ascii ''npt=0-'')) RTP_INFO (rtp_info sq rtptime))"

definition raop_set_volume_request :: "raop_session \<Rightarrow> f32 \<Rightarrow> (raop_session \<times> rtsp_request) option" where
  "raop_set_volume_request s volume_db =
     raop_request s Method_SetParameter []
       (\<lambda>r. request_body (request_header r CONTENT_TYPE (ascii ''text/parameters''))
              (ascii ''volume: '' @ f32_fixed6 volume_db @ crlf))"

definition rtptime_info :: "u32 \<Rightarrow> str" where
  "rtptime_info rtptime = ascii ''rtptime='' @ dec_string (unat rtptime)"

definition raop_set_metadata_request ::
    "raop_session \<Rightarrow> track_metadata \<Rightarrow> u32 \<Rightarrow> (raop_session \<times> rtsp_request) option" where
  "raop_set_metadata_request s metadata rtptime =
     Option.bind (raop_builder s Method_SetParameter []) (\<lambda>(s', r).
     Option.bind (metadata_encode_dmap metadata) (\<lambda>body.
     Some (s', request_body (request_header (request_header r CONTENT_TYPE (ascii ''application/x-dmap-tagged''))
                 RTP_INFO (rtptime_info rtptime)) body)))"

definition raop_set_artwork_request :: "raop_session \<Rightarrow> artwork \<Rightarrow> u32 \<Rightarrow> (raop_session \<times> rtsp_request) option" where
  "raop_set_artwork_request s a rtptime =
     raop_request s Method_SetParameter []
       (\<lambda>r. request_body (request_header (request_header r CONTENT_TYPE (artwork_mime_type (art_format a)))
              RTP_INFO (rtptime_info rtptime)) (art_data a))"

definition raop_set_progress_request :: "raop_session \<Rightarrow> dmap_progress \<Rightarrow> (raop_session \<times> rtsp_request) option" where
  "raop_set_progress_request s progress =
     raop_request s Method_SetParameter []
       (\<lambda>r. request_body (request_header r CONTENT_TYPE (ascii ''text/parameters'')) (progress_encode progress))"

definition raop_flush_request :: "raop_session \<Rightarrow> u16 \<Rightarrow> u32 \<Rightarrow> (raop_session \<times> rtsp_request) option" where
  "raop_flush_request s sq rtptime =
     raop_request s Method_Flush [] (\<lambda>r. request_header r RTP_INFO (rtp_info sq rtptime))"

definition raop_teardown_request :: "raop_session \<Rightarrow> (raop_session \<times> rtsp_request) option" where
  "raop_teardown_request s = raop_request s Method_Teardown [] (\<lambda>r. r)"

fun transport_ports :: "str list \<Rightarrow> u16 \<times> u16 \<times> u16 \<Rightarrow> u16 \<times> u16 \<times> u16" where
  "transport_ports [] ps = ps"
| "transport_ports (raw # parts) (server, control, timing) =
     transport_ports parts
       (case split_once 61 (trim raw) of
          None \<Rightarrow> (server, control, timing)
        | Some (key, v) \<Rightarrow>
            if key = ascii ''server_port'' then (unwrap_or (parse_u16 v) 0, control, timing)
            else if key = ascii ''control_port'' then (server, unwrap_or (parse_u16 v) 0, timing)
            else if key = ascii ''timing_port'' then (server, control, unwrap_or (parse_u16 v) 0)
            else (server, control, timing))"

definition raop_parse_transport :: "str \<Rightarrow> (str, raop_transport) result" where
  "raop_parse_transport transport =
     (case transport_ports (split_byte 59 transport) (0, 0, 0) of (server, control, timing) \<Rightarrow>
      if server = 0 then Inl (ascii ''missing server_port in transport'')
      else Inr \<lparr>rt_server_port = server, rt_control_port = control, rt_timing_port = timing,
                rt_client_control_port = 0, rt_client_timing_port = 0\<rparr>)"

definition raop_setup_response :: "raop_session \<Rightarrow> rtsp_response \<Rightarrow> raop_session \<times> (str, unit) result" where
  "raop_setup_response s r =
     attempt s (case headers_get (rp_headers r) TRANSPORT of
                  None \<Rightarrow> Inr s
                | Some transport \<Rightarrow>
                    result_bind (raop_parse_transport transport) (\<lambda>t. Inr (s\<lparr>ro_transport := Some t\<rparr>)))
       (\<lambda>s1. let s2 = (case headers_get (rp_headers r) AUDIO_LATENCY of
                        None \<Rightarrow> s1
                      | Some latency \<Rightarrow> s1\<lparr>ro_audio_latency := unwrap_or (parse_u32 latency) 11025\<rparr>)
             in (s2\<lparr>ro_state := RS_SettingUp\<rparr>, Inr ()))"

definition raop_process_response ::
    "raop_session \<Rightarrow> rtsp_method \<Rightarrow> rtsp_response \<Rightarrow> raop_session \<times> (str, unit) result" where
  "raop_process_response s m r =
     (if \<not> status_is_success (rp_status r) then (s, Inl (failure_text m r))
      else let s1 = (case headers_session (rp_headers r) of
                       None \<Rightarrow> s
                     | Some session \<Rightarrow> s\<lparr>ro_session_id := Some (server_session_id session)\<rparr>)
           in (case m of
                 Method_Options \<Rightarrow>
                   (s1\<lparr>ro_authenticator := auth_mark_sent (ro_authenticator s1), ro_state := RS_OptionsExchange\<rparr>, Inr ())
               | Method_Announce \<Rightarrow> (s1\<lparr>ro_state := RS_Announcing\<rparr>, Inr ())
               | Method_Setup \<Rightarrow> raop_setup_response s1 r
               | Method_Record \<Rightarrow> (s1\<lparr>ro_state := RS_Recording\<rparr>, Inr ())
               | Method_Flush \<Rightarrow> (s1\<lparr>ro_state := RS_Paused\<rparr>, Inr ())
               | Method_Teardown \<Rightarrow> (s1\<lparr>ro_state := RS_Terminated\<rparr>, Inr ())
               | _ \<Rightarrow> (s1, Inr ())))"

definition raop_prepare_announce ::
    "('pk, 'sk) rsa_lib \<Rightarrow> raop_session \<Rightarrow> bytes \<Rightarrow> bytes \<Rightarrow> nat \<Rightarrow> raop_session \<times> (crypto_error, str) result" where
  "raop_prepare_announce L s aes_key aes_iv random =
     (case session_keys_generate L aes_key aes_iv random of
        Inl e \<Rightarrow> (s, Inl e)
      | Inr keys \<Rightarrow>
          (s\<lparr>ro_session_keys := Some keys\<rparr>,
           Inr (create_raop_announce_sdp (ro_client_instance s) (ascii ''0.0.0.0'') (ro_server_addr s)
                  (keys_rsaaeskey L keys) (keys_aesiv L keys))))"

section \<open>Transport headers in both directions\<close>

lemma dec_bytes: "b \<in> set (dec_string n) \<Longrightarrow> 48 \<le> b \<and> b \<le> 57"
  using dec_string_digits [of n] by (auto simp: list_all_iff is_digit_def)

lemma dec_no_byte: "c < 48 \<or> 57 < c \<Longrightarrow> c \<notin> set (dec_string n)"
  using dec_bytes [of c n] by (auto simp: word_less_nat_alt word_le_nat_alt)

definition setup_transport :: "u16 \<Rightarrow> u16 \<Rightarrow> transport_header" where
  "setup_transport control_port timing_port =
     \<lparr>th_protocol = RTP_AVP, th_lower_transport = LT_Udp, th_cast = Unicast, th_mode = Some (ascii ''record''),
      th_control_port = Some control_port, th_timing_port = Some timing_port, th_interleaved = Some (0, 1)\<rparr>"

lemma client_transport_split:
  "split_byte 59 (raop_client_transport c t) =
     [ascii ''RTP/AVP/UDP'', ascii ''unicast'', ascii ''interleaved=0-1'', ascii ''mode=record'',
      ascii ''control_port='' @ dec_string (unat c), ascii ''timing_port='' @ dec_string (unat t)]"
proof -
  let ?ps = "[ascii ''RTP/AVP/UDP'', ascii ''unicast'', ascii ''interleaved=0-1'', ascii ''mode=record'',
      ascii ''control_port='' @ dec_string (unat c), ascii ''timing_port='' @ dec_string (unat t)]"
  have "raop_client_transport c t = join_by [59] ?ps" by (simp add: raop_client_transport_def ascii_def)
  moreover have "split_byte 59 (join_by [59] ?ps) = ?ps"
    by (rule split_byte_join) (simp_all add: ascii_def dec_no_byte)
  ultimately show ?thesis by simp
qed

lemma trim_graphic: "graphic s \<Longrightarrow> trim s = s"
  by (simp add: trim_trimmed graphic_trimmed)

lemma trim_port:
  "graphic k \<Longrightarrow> trim (k @ dec_string n) = k @ dec_string n"
  using dec_string_graphic [of n] by (intro trim_graphic) (simp add: graphic_def)

lemma client_transport_parsed: "transport_parse (raop_client_transport c t) = Inr (setup_transport c t)"
proof -
  have g: "graphic (ascii ''unicast'')" "graphic (ascii ''interleaved=0-1'')" "graphic (ascii ''mode=record'')"
    "graphic (ascii ''control_port='')" "graphic (ascii ''timing_port='')"
    by (simp_all add: graphic_def ascii_def)
  have proto: "parse_protocol (ascii ''RTP/AVP/UDP'') = Inr (RTP_AVP, LT_Udp)"
    by (simp add: parse_protocol_def ascii_def Let_def)
  have p1: "transport_part h (ascii ''unicast'') = Inr (h\<lparr>th_cast := Unicast\<rparr>)" for h
    by (simp add: transport_part_def trim_graphic [OF g(1)])
  have "parse_u8 [48] = Some 0" "parse_u8 [49] = Some 1"
    by (simp_all add: parse_u8_def parse_unsigned_def is_digit_def dec_value_def)
  then have p2: "transport_part h (ascii ''interleaved=0-1'') = Inr (h\<lparr>th_interleaved := Some (0, 1)\<rparr>)" for h
    unfolding transport_part_def trim_graphic [OF g(2)] Let_def
    by (simp add: strip_prefix_def parse_interleaved_def ascii_def)
  have p3: "transport_part h (ascii ''mode=record'') = Inr (h\<lparr>th_mode := Some (ascii ''record'')\<rparr>)" for h
    unfolding transport_part_def trim_graphic [OF g(3)] Let_def by (simp add: strip_prefix_def ascii_def)
  have p4: "transport_part h (ascii ''control_port='' @ dec_string (unat c)) = Inr (h\<lparr>th_control_port := Some c\<rparr>)" for h
    unfolding transport_part_def trim_port [OF g(4)] Let_def
    by (simp add: strip_prefix_def ascii_def parse_dec_words)
  have p5: "transport_part h (ascii ''timing_port='' @ dec_string (unat t)) = Inr (h\<lparr>th_timing_port := Some t\<rparr>)" for h
    unfolding transport_part_def trim_port [OF g(5)] Let_def
    by (simp add: strip_prefix_def ascii_def parse_dec_words)
  show ?thesis
    by (simp add: transport_parse_def client_transport_split proto p1 p2 p3 p4 p5 setup_transport_def)
qed

lemma server_transport_split:
  "split_byte 59 (to_response_header (setup_transport c t) sp cp tp) =
     [ascii ''RTP/AVP/UDP'', ascii ''unicast'', ascii ''mode=record'', ascii ''server_port='' @ dec_string (unat sp),
      ascii ''control_port='' @ dec_string (unat cp), ascii ''timing_port='' @ dec_string (unat tp)]"
proof -
  let ?ps = "[ascii ''RTP/AVP/UDP'', ascii ''unicast'', ascii ''mode=record'', ascii ''server_port='' @ dec_string (unat sp),
      ascii ''control_port='' @ dec_string (unat cp), ascii ''timing_port='' @ dec_string (unat tp)]"
  have "to_response_header (setup_transport c t) sp cp tp = join_by [59] ?ps"
    by (simp add: to_response_header_def setup_transport_def RTP_AVP_def ascii_def)
  moreover have "split_byte 59 (join_by [59] ?ps) = ?ps"
    by (rule split_byte_join) (simp_all add: ascii_def dec_no_byte)
  ultimately show ?thesis by simp
qed

lemma server_transport_parsed:
  "raop_parse_transport (to_response_header (setup_transport c t) sp cp tp) =
     (if sp = 0 then Inl (ascii ''missing server_port in transport'')
      else Inr \<lparr>rt_server_port = sp, rt_control_port = cp, rt_timing_port = tp,
                rt_client_control_port = 0, rt_client_timing_port = 0\<rparr>)"
proof -
  have g: "graphic (ascii ''unicast'')" "graphic (ascii ''RTP/AVP/UDP'')" "graphic (ascii ''mode=record'')"
    "graphic (ascii ''control_port='')" "graphic (ascii ''timing_port='')" "graphic (ascii ''server_port='')"
    by (simp_all add: graphic_def ascii_def)
  have none: "split_once 61 (ascii ''RTP/AVP/UDP'') = None" "split_once 61 (ascii ''unicast'') = None"
    by (rule split_once_None, simp add: ascii_def)+
  have key: "split_once 61 (k @ 61 # v) = Some (k, v)" if "61 \<notin> set k" for k v using that by (rule split_once_front)
  have mode: "split_once 61 (ascii ''mode=record'') = Some (ascii ''mode'', ascii ''record'')"
    using key [of "ascii ''mode''" "ascii ''record''"] by (simp add: ascii_def)
  have ports: "split_once 61 (ascii ''server_port='' @ v) = Some (ascii ''server_port'', v)"
    "split_once 61 (ascii ''control_port='' @ v) = Some (ascii ''control_port'', v)"
    "split_once 61 (ascii ''timing_port='' @ v) = Some (ascii ''timing_port'', v)" for v
    using key [of "ascii ''server_port''" v] key [of "ascii ''control_port''" v] key [of "ascii ''timing_port''" v]
    by (simp_all add: ascii_def)
  have "ascii ''server_port'' \<noteq> ascii ''control_port''" "ascii ''server_port'' \<noteq> ascii ''timing_port''"
    "ascii ''control_port'' \<noteq> ascii ''timing_port''" "ascii ''mode'' \<noteq> ascii ''server_port''"
    "ascii ''mode'' \<noteq> ascii ''control_port''" "ascii ''mode'' \<noteq> ascii ''timing_port''"
    by (simp_all add: ascii_def)
  then show ?thesis
    by (simp add: raop_parse_transport_def server_transport_split trim_graphic [OF g(1)] trim_graphic [OF g(2)]
        trim_graphic [OF g(3)] trim_port [OF g(4)] trim_port [OF g(5)] trim_port [OF g(6)] none mode ports
        parse_dec_words unwrap_or_def)
qed

section \<open>Keys, audio and progress\<close>

lemma raop_encrypt_reference:
  assumes "\<And>k b. length (aes k b) = 16" and "length key = 16" and "length iv = 16" and "raop_position i = Some p"
  shows "raop_encrypt aes (raop_encryptor_new key iv) data i = Some (Inr (ctr_reference (aes key) iv (unat p) data))"
proof -
  let ?c = "aes_ctr_seek aes (aes_ctr_new_internal key iv) p"
  have at: "ctr_at aes key iv (unat p) ?c" using aes_ctr_seek_at [OF assms(3) new_cipher_at [OF assms(3)]] .
  obtain c' out where k: "apply_keystream aes ?c data = (c', out)" by force
  have "out = ctr_reference (aes key) iv (unat p) data" using apply_keystream_at [OF _ assms(3) at k] assms(1) by blast
  with k show ?thesis using assms by (simp add: raop_encrypt_def raop_encryptor_new_def aes_ctr_new_def)
qed

definition unpadded_base64 :: "('pk, 'sk) rsa_lib \<Rightarrow> bytes \<Rightarrow> bool" where
  "unpadded_base64 L b \<longleftrightarrow> graphic (rl_base64_encode L b) \<and> length (rl_base64_encode L b) = (4 * length b + 2) div 3
     \<and> rl_base64_decode L (rl_base64_encode L b) = Some b"

lemma unpadded_trim: "unpadded_base64 L b \<Longrightarrow> trim (rl_base64_encode L b) = rl_base64_encode L b"
  by (simp add: unpadded_base64_def trim_graphic)

lemma session_keys_exchanged:
  assumes "session_keys_generate L aes_key aes_iv random = Inr keys" and "length aes_key = 16" and "length aes_iv = 16"
    and "unpadded_base64 L (rk_encrypted_key keys)" and "unpadded_base64 L aes_iv" and "apple_rsa_load L = Inr pk"
    and "\<And>c. rl_oaep_encrypt L pk random aes_key = Some c \<Longrightarrow> rl_oaep_decrypt L sk c = Some aes_key"
  shows "parse_session_keys L (keys_rsaaeskey L keys) (keys_aesiv L keys) sk = Inr (aes_key, aes_iv)"
proof -
  obtain c where c: "rl_oaep_encrypt L pk random aes_key = Some c"
      "keys = \<lparr>rk_aes_key = aes_key, rk_aes_iv = aes_iv, rk_encrypted_key = c\<rparr>"
    using assms(1,2,6) by (auto simp: session_keys_generate_def rsa_encrypt_oaep_def OAEP_MAX_PLAINTEXT_def)
  then have "rl_base64_decode L (rl_base64_encode L c) = Some c" "rl_base64_decode L (rl_base64_encode L aes_iv) = Some aes_iv"
    using assms(4,5) by (simp_all add: unpadded_base64_def)
  then show ?thesis
    using assms(2,3) assms(7) [OF c(1)] unpadded_trim [OF assms(4)] unpadded_trim [OF assms(5)]
    by (simp add: parse_session_keys_def keys_rsaaeskey_def keys_aesiv_def c(2) rsa_decrypt_oaep_def)
qed

lemma progress_values_graphic: "graphic (progress_values p)"
  using dec_string_graphic by (simp add: progress_values_def graphic_def ascii_def)

lemma progress_values_split:
  "split_byte 47 (progress_values p) =
     [dec_string (unat (dp_start p)), dec_string (unat (dp_current p)), dec_string (unat (dp_end p))]"
proof -
  let ?ps = "[dec_string (unat (dp_start p)), dec_string (unat (dp_current p)), dec_string (unat (dp_end p))]"
  have "progress_values p = join_by [47] ?ps" by (simp add: progress_values_def ascii_def)
  moreover have "split_byte 47 (join_by [47] ?ps) = ?ps" by (rule split_byte_join) (simp_all add: dec_no_byte)
  ultimately show ?thesis by simp
qed

lemma progress_line: "rust_lines (progress_encode p) = [ascii ''progress: '' @ progress_values p]"
proof -
  have "10 \<notin> set (ascii ''progress: '' @ progress_values p)"
    using progress_values_graphic [of p] by (auto simp: graphic_def list_all_iff ascii_def)
  then show ?thesis using rust_lines_whole [of "[ascii ''progress: '' @ progress_values p]"]
    by (simp add: progress_encode_def line_block_def)
qed

text \<open>
  The receiver of this repository cannot read the keys in the announcement of its client: the client writes Base64
  without padding, the receiver's decoder requires it, and 16 bytes do not fill their last group.
\<close>

lemma client_keys_rejected:
  assumes "word_ok i" and "word_ok sip" and "unpadded_base64 R (rk_encrypted_key keys)" and "unpadded_base64 R (rk_aes_iv keys)"
    and "length (rk_aes_iv keys) = 16" and "\<And>t. length t mod 4 \<noteq> 0 \<Longrightarrow> al_base64_decode A t = None"
    and "mset as = mset (announce_attributes (keys_rsaaeskey R keys) (keys_aesiv R keys))"
    and "rq_body request = encode_sdp (announce_order (raop_announce_description i (ascii ''0.0.0.0'') sip
           (keys_rsaaeskey R keys) (keys_aesiv R keys)) as)"
  shows "\<exists>m. raop_process_announce A request rk = Some (Inl (AE_SdpParse (InvalidAttribute m)))"
proof -
  let ?k = "keys_rsaaeskey R keys" and ?v = "keys_aesiv R keys"
  have g: "graphic ?k" "graphic ?v" "length ?v = 22"
    using assms(3-5) by (simp_all add: unpadded_base64_def keys_rsaaeskey_def keys_aesiv_def)
  have lt: "line_text ?k" "line_text ?v" using g line_text_graphic by blast+
  have ip: "word_ok (ascii ''0.0.0.0'')" by (simp add: word_ok_graphic graphic_def ascii_def)
  have as: "attributes_ok as" "map_of as = map_of (announce_attributes ?k ?v)"
    using attributes_ok_perm [OF assms(7)] announce_attributes_ok [OF lt] by blast+
  have "al_base64_decode A ?v = None" using assms(6) g(3) by simp
  then have "\<exists>m. sdp_parse_encryption A (announce_media as) = Inl (InvalidAttribute m)"
    by (auto simp: sdp_parse_encryption_def announce_lookup [OF as(2)] trim_graphic [OF g(1)] trim_graphic [OF g(2)]
        split: option.split)
  moreover have "audio_media (announce_order d as) = Some (announce_media as)" for d
    by (simp add: audio_media_def announce_order_def announce_media_def)
  ultimately show ?thesis
    using announced_parsed [OF announce_order_ok [OF assms(1) ip assms(2) as(1)] _ assms(8), of _ A rk]
    by (auto simp: announce_lookup [OF as(2)])
qed

lemma word_ok_hex16: "word_ok (hex16 r)"
  by (rule word_ok_graphic [OF hex16_graphic]) (simp flip: length_0_conv)

lemma announce_order_same:
  "announce_order (raop_announce_description i cip sip key iv) (announce_attributes key iv) = raop_announce_description i cip sip key iv"
  by (rule session_description.equality) (simp_all add: announce_order_def raop_announce_media)

section \<open>Properties\<close>

text \<open>
  The ports of a SETUP exchange agree: the receiver reads from the client's transport header the
  control and timing ports that the client put there, and the client reads from the receiver's
  answer the three ports of the receiver, unless the audio port is 0, which it rejects.
\<close>

theorem raop_setup_ports_agree:
  "transport_parse (raop_client_transport cc ct) = Inr (setup_transport cc ct)
   \<and> raop_parse_transport (to_response_header (setup_transport cc ct) sp cp tp) =
       (if sp = 0 then Inl (ascii ''missing server_port in transport'')
        else Inr \<lparr>rt_server_port = sp, rt_control_port = cp, rt_timing_port = tp,
                  rt_client_control_port = 0, rt_client_timing_port = 0\<rparr>)"
  using client_transport_parsed server_transport_parsed by blast

text \<open>
  C29. The keys and the audio of the client reach a receiver that decodes them with the same library
  functions: the key parser recovers the AES key and the initialization vector from the two
  attributes of the announcement, and every packet whose keystream position fits in 64 bits is
  encrypted, keeps its length and decrypts to the audio.
\<close>

theorem raop_audio_roundtrip:
  assumes "\<And>k b. length (aes k b) = 16" and "length aes_key = 16" and "length aes_iv = 16"
    and "encryption_rsa L aes_key aes_iv random = Inr config" and "ecf_keys config = Some keys"
    and "ecf_encryptor config = Some e"
    and "unpadded_base64 L (rk_encrypted_key keys)" and "unpadded_base64 L aes_iv" and "apple_rsa_load L = Inr pk"
    and "\<And>c. rl_oaep_encrypt L pk random aes_key = Some c \<Longrightarrow> rl_oaep_decrypt L sk c = Some aes_key"
    and "unat i * RAOP_FRAME_SIZE < 2 ^ 64"
  shows "parse_session_keys L (keys_rsaaeskey L keys) (keys_aesiv L keys) sk = Inr (aes_key, aes_iv)
    \<and> (\<exists>out. raop_encrypt aes e data i = Some (Inr out) \<and> length out = length data
        \<and> raop_decrypt aes (raop_encryptor_new aes_key aes_iv) out i = Some (Inr data))"
proof -
  have keys: "session_keys_generate L aes_key aes_iv random = Inr keys" and e: "e = raop_encryptor_new aes_key aes_iv"
    using assms(4-6) by (auto simp: encryption_rsa_def session_keys_generate_def)
  obtain p where p: "raop_position i = Some p" using assms(11) by (simp add: raop_position_def)
  show ?thesis
    using session_keys_exchanged [OF keys assms(2,3,7-10)] raop_encrypt_reference [OF assms(1-3) p]
    by (simp add: e raop_decrypt_def ctr_reference_involutive)
qed

definition demo_rsa_lib :: "(unit, unit) rsa_lib" where
  "demo_rsa_lib = \<lparr>rl_public_new = (\<lambda>_ _. Some ()), rl_oaep_encrypt = (\<lambda>_ _ m. Some (m @ replicate 112 0)),
     rl_signature_ok = (\<lambda>_. True), rl_verify = (\<lambda>_ _ _. True), rl_private_new = (\<lambda>_. Some ()),
     rl_from_pkcs8_pem = (\<lambda>_. Some ()), rl_oaep_decrypt = (\<lambda>_ c. Some (take 16 c)), rl_sign = (\<lambda>_ m. m),
     rl_base64_encode = (\<lambda>b. replicate ((4 * length b + 2) div 3) 65),
     rl_base64_decode = (\<lambda>t. Some (replicate 16 (if length t = 22 then 3 else 7) @ replicate (if length t = 22 then 0 else 112) 0))\<rparr>"

definition demo_keys :: raop_session_keys where
  "demo_keys = \<lparr>rk_aes_key = replicate 16 7, rk_aes_iv = replicate 16 3, rk_encrypted_key = replicate 16 7 @ replicate 112 0\<rparr>"

lemma demo_keys_generated: "session_keys_generate demo_rsa_lib (replicate 16 7) (replicate 16 3) 0 = Inr demo_keys"
  by (simp add: session_keys_generate_def demo_rsa_lib_def demo_keys_def apple_rsa_load_def rsa_encrypt_oaep_def OAEP_MAX_PLAINTEXT_def)

lemma demo_base64: "unpadded_base64 demo_rsa_lib (replicate 16 3)" "unpadded_base64 demo_rsa_lib (rk_encrypted_key demo_keys)"
  by (simp_all add: unpadded_base64_def demo_rsa_lib_def demo_keys_def graphic_def list_all_iff)

theorem raop_audio_roundtrip_witness:
  "parse_session_keys demo_rsa_lib (keys_rsaaeskey demo_rsa_lib demo_keys) (keys_aesiv demo_rsa_lib demo_keys) () =
     Inr (replicate 16 7, replicate 16 3)
   \<and> (\<exists>out. raop_encrypt (\<lambda>k b. take 16 (b @ replicate 16 0)) (raop_encryptor_new (replicate 16 7) (replicate 16 3)) [1, 2, 3] 9 =
         Some (Inr out) \<and> length out = length [1, 2, 3 :: u8]
       \<and> raop_decrypt (\<lambda>k b. take 16 (b @ replicate 16 0)) (raop_encryptor_new (replicate 16 7) (replicate 16 3)) out 9 =
         Some (Inr [1, 2, 3]))"
proof (rule raop_audio_roundtrip [where pk = "()" and random = 0 and
      config = "\<lparr>ecf_mode = Enc_Rsa, ecf_encryptor = Some (raop_encryptor_new (replicate 16 7) (replicate 16 3)), ecf_keys = Some demo_keys\<rparr>"])
  show "encryption_rsa demo_rsa_lib (replicate 16 7) (replicate 16 3) 0 =
      Inr \<lparr>ecf_mode = Enc_Rsa, ecf_encryptor = Some (raop_encryptor_new (replicate 16 7) (replicate 16 3)), ecf_keys = Some demo_keys\<rparr>"
    by (simp add: encryption_rsa_def demo_keys_generated) (simp add: demo_keys_def)
  show "apple_rsa_load demo_rsa_lib = Inr ()" by (simp add: apple_rsa_load_def demo_rsa_lib_def)
qed (simp_all add: demo_base64 RAOP_FRAME_SIZE_def, auto simp: demo_rsa_lib_def)

definition demo_raop_session :: raop_session where
  "demo_raop_session = raop_session_new 1 2 3 (replicate 16 0) (ascii ''10.0.0.2'') 5000"

text \<open>
  The progress that the client sends is read back: start, position and end of the track.
\<close>

theorem progress_roundtrip: "progress_parse (progress_encode p) = Some p"
proof -
  have "strip_prefix (ascii ''progress:'') (ascii ''progress: '' @ v) = Some (32 # v)" for v
    by (simp add: strip_prefix_def ascii_def)
  moreover have "trim (dec_string n) = dec_string n" for n using dec_string_graphic by (rule trim_graphic)
  ultimately show ?thesis
    using progress_values_split [of p]
    by (simp add: progress_parse_def progress_line trim_space graphic_trimmed [OF progress_values_graphic] parse_dec_words)
qed

end
