(* ===== verification/Raop_Handler.thy ===== *)
theory Raop_Handler
  imports Raop_Session
begin

text \<open>
  The RTSP handlers of the RAOP receiver: \<open>src/receiver/rtsp_handler.rs\<close> with the handlers of
  SET_PARAMETER (\<open>set_parameter_handler.rs\<close>, \<open>volume_handler.rs\<close>, \<open>progress_handler.rs\<close>,
  \<open>artwork_handler.rs\<close>).

  \<open>powf\<close> and \<open>log10\<close>, whose results the standard library does not fix, are parameters; so is the random
  session identifier. \<open>None\<close> is a panic, which only the ANNOUNCE handler can have.
\<close>

section \<open>Volume\<close>

definition f32_round :: "rat \<Rightarrow> f32" where
  "f32_round q =
     (case round_float 24 (- 126) 127 \<bar>q\<bar> of
        None \<Rightarrow> F32_inf (q < 0) | Some v \<Rightarrow> F32 (if q < 0 then - v else v))"

fun f32_scale :: "rat \<Rightarrow> f32 \<Rightarrow> f32" where
  "f32_scale k (F32 q) = f32_round (k * q)"
| "f32_scale k (F32_inf negative) = F32_inf negative"
| "f32_scale k F32_nan = F32_nan"

fun f32_le :: "f32 \<Rightarrow> f32 \<Rightarrow> bool" where
  "f32_le F32_nan b = False"
| "f32_le a F32_nan = False"
| "f32_le (F32_inf negative) b = (negative \<or> b = F32_inf False)"
| "f32_le (F32 p) (F32_inf negative) = (\<not> negative)"
| "f32_le (F32 p) (F32 q) = (p \<le> q)"

definition VOLUME_MIN_DB :: f32 where "VOLUME_MIN_DB = F32 (- 144)"
definition VOLUME_MAX_DB :: f32 where "VOLUME_MAX_DB = F32 0"

definition db_to_linear :: "(f32 \<Rightarrow> f32 \<Rightarrow> f32) \<Rightarrow> f32 \<Rightarrow> f32" where
  "db_to_linear powf db =
     (if f32_le db VOLUME_MIN_DB then F32 0
      else if f32_le VOLUME_MAX_DB db then F32 1
      else powf (F32 10) (f32_scale (1 / 20) db))"

definition linear_to_db :: "(f32 \<Rightarrow> f32) \<Rightarrow> f32 \<Rightarrow> f32" where
  "linear_to_db log10 gain =
     (if f32_le gain (F32 0) then VOLUME_MIN_DB
      else if f32_le (F32 1) gain then VOLUME_MAX_DB
      else f32_scale 20 (log10 gain))"

record volume_update =
  vu_db :: f32
  vu_muted :: bool
  vu_linear :: f32

definition volume_from_db :: "(f32 \<Rightarrow> f32 \<Rightarrow> f32) \<Rightarrow> f32 \<Rightarrow> volume_update" where
  "volume_from_db powf db =
     (let db = volume_clamp db
      in \<lparr>vu_db = db, vu_muted = f32_le db VOLUME_MIN_DB, vu_linear = db_to_linear powf db\<rparr>)"

fun volume_lines :: "(f32 \<Rightarrow> f32 \<Rightarrow> f32) \<Rightarrow> str list \<Rightarrow> volume_update option" where
  "volume_lines powf [] = None"
| "volume_lines powf (line # rest) =
     (case strip_prefix (ascii ''volume:'') (trim line) of
        None \<Rightarrow> volume_lines powf rest
      | Some v \<Rightarrow>
          (case parse_f32 (trim v) of
             None \<Rightarrow> volume_lines powf rest
           | Some db \<Rightarrow> Some (volume_from_db powf db)))"

definition parse_volume_parameter :: "(f32 \<Rightarrow> f32 \<Rightarrow> f32) \<Rightarrow> str \<Rightarrow> volume_update option" where
  "parse_volume_parameter powf body = volume_lines powf (rust_lines body)"

section \<open>Progress\<close>

record playback_progress =
  ppr_start :: f64
  ppr_current :: f64
  ppr_end :: f64

definition progress_parts :: "str \<Rightarrow> str \<Rightarrow> str \<Rightarrow> playback_progress option" where
  "progress_parts a b c =
     Option.bind (parse_f64 a) (\<lambda>start.
     Option.bind (parse_f64 b) (\<lambda>current.
     Option.bind (parse_f64 c) (\<lambda>en. Some \<lparr>ppr_start = start, ppr_current = current, ppr_end = en\<rparr>)))"

fun progress_lines :: "str list \<Rightarrow> playback_progress option" where
  "progress_lines [] = None"
| "progress_lines (line # rest) =
     (case strip_prefix (ascii ''progress:'') (trim line) of
        None \<Rightarrow> progress_lines rest
      | Some v \<Rightarrow>
          (case split_byte 47 (trim v) of
             [a, b, c] \<Rightarrow> progress_parts a b c
           | _ \<Rightarrow> progress_lines rest))"

definition parse_progress :: "str \<Rightarrow> playback_progress option" where
  "parse_progress body = progress_lines (rust_lines body)"

section \<open>Artwork\<close>

record received_artwork =
  raw_data :: bytes
  raw_mime_type :: str
  raw_width :: "u32 option"
  raw_height :: "u32 option"

definition detect_image_type :: "bytes \<Rightarrow> str option" where
  "detect_image_type data =
     (if take 3 data = [0xFF, 0xD8, 0xFF] then Some (ascii ''image/jpeg'')
      else if take 4 data = [0x89, 0x50, 0x4E, 0x47] then Some (ascii ''image/png'')
      else None)"

definition received_artwork_from_data :: "bytes \<Rightarrow> received_artwork option" where
  "received_artwork_from_data data =
     map_option (\<lambda>mime_type. \<lparr>raw_data = data, raw_mime_type = mime_type, raw_width = None, raw_height = None\<rparr>)
       (detect_image_type data)"

definition parse_artwork :: "str \<Rightarrow> bytes \<Rightarrow> received_artwork option" where
  "parse_artwork content_type data =
     (if str_contains content_type (ascii ''image/jpeg'') \<or> str_contains content_type (ascii ''image/png'')
      then received_artwork_from_data data else None)"

section \<open>SET_PARAMETER\<close>

datatype parameter_update =
    PU_Volume volume_update
  | PU_Metadata raop_metadata
  | PU_Artwork received_artwork
  | PU_Progress playback_progress
  | PU_Unknown str

definition option_list :: "'a option \<Rightarrow> 'a list" where
  "option_list x = (case x of None \<Rightarrow> [] | Some y \<Rightarrow> [y])"

definition process_set_parameter :: "(f32 \<Rightarrow> f32 \<Rightarrow> f32) \<Rightarrow> rtsp_request \<Rightarrow> parameter_update list" where
  "process_set_parameter powf request =
     (let content_type = unwrap_or (headers_get (rq_headers request) CONTENT_TYPE) [];
          body = rq_body request; body_str = from_utf8_lossy body
      in if str_contains content_type (ascii ''text/parameters'')
         then option_list (map_option PU_Volume (parse_volume_parameter powf body_str))
              @ option_list (map_option PU_Progress (parse_progress body_str))
         else if str_contains content_type (ascii ''application/x-dmap-tagged'')
         then (case parse_dmap_metadata body of Inr metadata \<Rightarrow> [PU_Metadata metadata] | Inl _ \<Rightarrow> [])
         else if str_contains content_type (ascii ''image/'')
         then option_list (map_option PU_Artwork (parse_artwork content_type body))
         else if content_type \<noteq> [] then [PU_Unknown content_type] else [])"

section \<open>Handlers\<close>

record allocated_ports =
  alp_audio_port :: u16
  alp_control_port :: u16
  alp_timing_port :: u16
  alp_client_control_port :: "u16 option"
  alp_client_timing_port :: "u16 option"

record handle_result =
  hr_response :: rtsp_response
  hr_new_state :: "session_state option"
  hr_allocated_ports :: "allocated_ports option"
  hr_stream_params :: "stream_parameters option"
  hr_start_streaming :: bool
  hr_stop_streaming :: bool
  hr_parameter_updates :: "parameter_update list"

definition raop_plain_result :: "response_builder \<Rightarrow> handle_result" where
  "raop_plain_result b =
     \<lparr>hr_response = response_build b, hr_new_state = None, hr_allocated_ports = None, hr_stream_params = None,
      hr_start_streaming = False, hr_stop_streaming = False, hr_parameter_updates = []\<rparr>"

definition raop_error_result :: "u16 \<Rightarrow> u32 \<Rightarrow> handle_result" where
  "raop_error_result status cseq = raop_plain_result (response_cseq (response_builder_new status) cseq)"

definition PUBLIC_METHODS :: str where
  "PUBLIC_METHODS = join_by (ascii '', '') (map ascii [''ANNOUNCE'', ''SETUP'', ''RECORD'', ''PAUSE'', ''FLUSH'', ''TEARDOWN'',
     ''OPTIONS'', ''GET_PARAMETER'', ''SET_PARAMETER'', ''POST''])"

definition raop_handle_options :: "u32 \<Rightarrow> handle_result" where
  "raop_handle_options cseq =
     raop_plain_result (response_header (response_cseq (response_builder_new 200) cseq) (ascii ''Public'') PUBLIC_METHODS)"

definition handle_announce ::
    "'k announce_lib \<Rightarrow> rtsp_request \<Rightarrow> u32 \<Rightarrow> receiver_session \<Rightarrow> bytes option \<Rightarrow> handle_result option" where
  "handle_announce L request cseq session rsa_private_key =
     (if rs_state session \<noteq> Connected then Some (raop_error_result 455 cseq)
      else (case raop_process_announce L request rsa_private_key of
              None \<Rightarrow> None
            | Some (Inl _) \<Rightarrow> Some (raop_error_result 400 cseq)
            | Some (Inr params) \<Rightarrow>
                Some ((raop_plain_result (response_cseq (response_builder_new 200) cseq))
                        \<lparr>hr_new_state := Some Announced, hr_stream_params := Some params\<rparr>)))"

definition handle_setup :: "u64 \<Rightarrow> rtsp_request \<Rightarrow> u32 \<Rightarrow> handle_result" where
  "handle_setup random request cseq =
     (case headers_get (rq_headers request) TRANSPORT of
        None \<Rightarrow> raop_error_result 400 cseq
      | Some transport_str \<Rightarrow>
          (case transport_parse transport_str of
             Inl _ \<Rightarrow> raop_error_result 400 cseq
           | Inr client_transport \<Rightarrow>
               (let ports = \<lparr>alp_audio_port = 0, alp_control_port = 0, alp_timing_port = 0,
                             alp_client_control_port = th_control_port client_transport,
                             alp_client_timing_port = th_timing_port client_transport\<rparr>;
                    response_transport = to_response_header client_transport (alp_audio_port ports)
                      (alp_control_port ports) (alp_timing_port ports)
                in (raop_plain_result (response_header (response_session (response_cseq (response_builder_new 200) cseq)
                      (hex16 random)) TRANSPORT response_transport))
                     \<lparr>hr_new_state := Some Setup, hr_allocated_ports := Some ports\<rparr>)))"

definition handle_record :: "u32 \<Rightarrow> receiver_session \<Rightarrow> handle_result" where
  "handle_record cseq session =
     (if rs_state session \<noteq> Setup then raop_error_result 455 cseq
      else (raop_plain_result (response_audio_latency (response_cseq (response_builder_new 200) cseq) 88200))
             \<lparr>hr_new_state := Some Streaming, hr_start_streaming := True\<rparr>)"

definition handle_pause :: "u32 \<Rightarrow> receiver_session \<Rightarrow> handle_result" where
  "handle_pause cseq session =
     (if rs_state session \<noteq> Streaming then raop_error_result 455 cseq
      else (raop_plain_result (response_cseq (response_builder_new 200) cseq))\<lparr>hr_new_state := Some Paused\<rparr>)"

definition handle_flush :: "u32 \<Rightarrow> receiver_session \<Rightarrow> handle_result" where
  "handle_flush cseq session =
     (if rs_state session = Streaming \<or> rs_state session = Paused
      then raop_plain_result (response_cseq (response_builder_new 200) cseq)
      else raop_error_result 455 cseq)"

definition handle_teardown :: "u32 \<Rightarrow> handle_result" where
  "handle_teardown cseq =
     (raop_plain_result (response_cseq (response_builder_new 200) cseq))
       \<lparr>hr_new_state := Some Teardown, hr_stop_streaming := True\<rparr>"

definition handle_get_parameter :: "rtsp_request \<Rightarrow> u32 \<Rightarrow> receiver_session \<Rightarrow> handle_result" where
  "handle_get_parameter request cseq session =
     (let response_body = (if str_contains (from_utf8_lossy (rq_body request)) (ascii ''volume'')
                           then ascii ''volume: '' @ f32_fixed6 (rs_volume session) @ crlf else [])
      in raop_plain_result (if response_body = [] then response_cseq (response_builder_new 200) cseq
                       else response_text_body (response_cseq (response_builder_new 200) cseq) response_body))"

definition handle_set_parameter :: "(f32 \<Rightarrow> f32 \<Rightarrow> f32) \<Rightarrow> rtsp_request \<Rightarrow> u32 \<Rightarrow> handle_result" where
  "handle_set_parameter powf request cseq =
     (raop_plain_result (response_cseq (response_builder_new 200) cseq))
       \<lparr>hr_parameter_updates := process_set_parameter powf request\<rparr>"

definition handle_post :: "u32 \<Rightarrow> handle_result" where
  "handle_post cseq = raop_error_result 501 cseq"

definition handle_unknown :: "u32 \<Rightarrow> handle_result" where
  "handle_unknown cseq = raop_error_result 405 cseq"

definition request_cseq_value :: "rtsp_request \<Rightarrow> u32" where
  "request_cseq_value request = of_nat (unwrap_or (headers_cseq (rq_headers request)) 0)"

definition handle_request ::
    "'k announce_lib \<Rightarrow> (f32 \<Rightarrow> f32 \<Rightarrow> f32) \<Rightarrow> u64 \<Rightarrow> rtsp_request \<Rightarrow> receiver_session \<Rightarrow> bytes option \<Rightarrow> handle_result option" where
  "handle_request L powf random request session rsa_private_key =
     (let cseq = request_cseq_value request
      in (case rq_method request of
            Method_Options \<Rightarrow> Some (raop_handle_options cseq)
          | Method_Announce \<Rightarrow> handle_announce L request cseq session rsa_private_key
          | Method_Setup \<Rightarrow> Some (handle_setup random request cseq)
          | Method_Record \<Rightarrow> Some (handle_record cseq session)
          | Method_Pause \<Rightarrow> Some (handle_pause cseq session)
          | Method_Flush \<Rightarrow> Some (handle_flush cseq session)
          | Method_Teardown \<Rightarrow> Some (handle_teardown cseq)
          | Method_GetParameter \<Rightarrow> Some (handle_get_parameter request cseq session)
          | Method_SetParameter \<Rightarrow> Some (handle_set_parameter powf request cseq)
          | Method_Post \<Rightarrow> Some (handle_post cseq)
          | _ \<Rightarrow> Some (handle_unknown cseq)))"

section \<open>Whole decibels\<close>

definition volume_text :: "nat \<Rightarrow> str" where
  "volume_text n = (if n = 0 then [] else [45]) @ dec_string n @ ascii ''.000000''"

lemma f32_fixed6_nat: "f32_fixed6 (F32 (- of_nat n)) = volume_text n"
proof -
  have "(of_nat n :: rat) * 1000000 = of_int (int (n * 1000000))" by simp
  then have r: "nat (round_half_even (of_nat n * 1000000)) = n * 1000000"
    by (simp only: round_half_even_int nat_int)
  have "six_digits 0 = ascii ''000000''" by (simp add: six_digits_def dec_string.simps ascii_def numeral_eq_Suc)
  then show ?thesis by (simp add: r volume_text_def Let_def ascii_def)
qed

lemma dec_value_zeros: "dec_value (s @ [48, 48, 48, 48, 48, 48]) = dec_value s * 1000000"
  by (simp add: dec_value_def)

lemma parse_float_text: "parse_float (volume_text n) = Some (Decimal (n \<noteq> 0) (n * 1000000) (- 6))"
proof -
  let ?s = "dec_string n"
  have d: "list_all is_digit ?s" "?s \<noteq> []" using dec_string_digits by simp_all
  then obtain b bs where s: "?s = b # bs" "is_digit b" by (cases ?s) auto
  have nb: "b \<noteq> 45" "b \<noteq> 43" "b \<noteq> 105" "b \<noteq> 110" using s(2) by (auto simp: is_digit_def)
  have low: "hd (ascii_lower (?s @ t)) = b" for t using s by (auto simp: ascii_lower_def is_digit_def word_le_nat_alt)
  have tw: "takeWhile is_digit (?s @ 46 # t) = ?s" "dropWhile is_digit (?s @ 46 # t) = 46 # t" for t
    using d(1) by (simp_all add: takeWhile_append dropWhile_append list_all_iff is_digit_def)
  have num: "float_number neg (?s @ ascii ''.000000'') = Some (Decimal neg (n * 1000000) (- 6))" for neg
    using d(2) dec_value_string [of n] dec_value_zeros [of ?s]
    by (simp add: float_number_def ascii_def tw float_exponent_def is_digit_def Let_def)
  have "ascii_lower (?s @ ascii ''.000000'') \<noteq> ascii ''inf''" "ascii_lower (?s @ ascii ''.000000'') \<noteq> ascii ''infinity''"
    "ascii_lower (?s @ ascii ''.000000'') \<noteq> ascii ''nan''"
    using low [of "ascii ''.000000''"] nb by (auto simp: ascii_def)
  then show ?thesis
    using num s nb by (cases "n = 0") (simp_all add: parse_float_def volume_text_def Let_def)
qed

lemma parse_f32_text: "n < 2 ^ 24 \<Longrightarrow> parse_f32 (volume_text n) = Some (F32 (- of_nat n))"
  using round_float_nat [of n 24 "- 126" 127]
  by (simp add: parse_f32_def parse_float_text decimal_value_def pow_int_def)

lemma volume_text_graphic: "graphic (volume_text n)"
  using dec_string_graphic [of n] by (simp add: volume_text_def graphic_def ascii_def)

lemma volume_body:
  assumes "n \<le> 144"
  shows "parse_volume_parameter powf (ascii ''volume: '' @ volume_text n @ crlf) = Some (volume_from_db powf (F32 (- of_nat n)))"
    and "parse_progress (ascii ''volume: '' @ volume_text n @ crlf) = None"
proof -
  let ?l = "ascii ''volume: '' @ volume_text n"
  have g: "graphic (volume_text n)" by (rule volume_text_graphic)
  have "10 \<notin> set ?l" using graphic_bytes [OF g, of 10] by (auto simp: ascii_def)
  then have lines: "rust_lines (ascii ''volume: '' @ volume_text n @ crlf) = [?l]"
    using rust_lines_whole [of "[?l]"] by (simp add: line_block_def)
  have "\<exists>r. rev (volume_text n) = 48 # 48 # 48 # r" by (simp add: volume_text_def ascii_def)
  then have t: "trim ?l = ?l"
    by (intro trim_trimmed) (auto simp: trimmed_def ascii_def ws_len_def ws_rev_len_def ws_ascii_def ws_wide2_def ws_wide3_def)
  have "strip_prefix (ascii ''volume:'') ?l = Some (32 # volume_text n)" "strip_prefix (ascii ''progress:'') ?l = None"
    by (simp_all add: strip_prefix_def ascii_def)
  then show "parse_volume_parameter powf (ascii ''volume: '' @ volume_text n @ crlf) = Some (volume_from_db powf (F32 (- of_nat n)))"
    and "parse_progress (ascii ''volume: '' @ volume_text n @ crlf) = None"
    using assms by (simp_all add: parse_volume_parameter_def parse_progress_def lines t trim_space [OF graphic_trimmed [OF g]] parse_f32_text)
qed

end
