(* ===== verification/Raop_Server.thy ===== *)
theory Raop_Server
  imports Raop_Handler
begin

text \<open>
  The connection loop and the life cycle of the RAOP receiver, \<open>src/receiver/server.rs\<close>, with the events of
  \<open>src/receiver/events.rs\<close>.

  One request is served by \<open>serve_request\<close> on the session manager, which all connections share. It
  composes the critical sections of \<open>handle_connection\<close> with no other task in between; the code awaits
  between them, and Raop_Tasks splits them into the steps of concurrent tasks, of which
  \<open>serve_request\<close> is one schedule.
  What the system decides for a request (its clock, the random identifier, the ports that
  can be bound, whether the response can be written) is a \<open>request_env\<close>. \<open>None\<close> is a panic.
\<close>

section \<open>Events and errors\<close>

datatype receiver_event =
    RE_Started str u16
  | RE_Stopped
  | RE_ClientConnected socket_addr "str option"
  | RE_ClientDisconnected socket_addr str
  | RE_PlaybackStarted
  | RE_PlaybackPaused
  | RE_PlaybackStopped
  | RE_VolumeChanged f32 f32 bool
  | RE_MetadataUpdated raop_metadata
  | RE_ArtworkUpdated received_artwork
  | RE_ProgressUpdated playback_progress
  | RE_BufferStatus f64 bool
  | RE_Error str bool

datatype raop_receiver_error =
    RcvErr_AlreadyRunning
  | RcvErr_Advertisement str
  | RcvErr_Network
  | RcvErr_Session session_error
  | RcvErr_Audio str
  | RcvErr_Io

section \<open>One request\<close>

record request_env =
  qe_random :: u64
  qe_volume_now :: nat
  qe_sockets_now :: nat
  qe_state_now :: nat
  qe_bind :: "nat \<Rightarrow> nat \<Rightarrow> u16 \<Rightarrow> u16 option"
  qe_write_ok :: bool

record connection =
  cn_manager :: session_manager
  cn_buffer :: bytes
  cn_events :: "receiver_event list"
  cn_sent :: bytes
  cn_served :: nat

definition cn_send :: "connection \<Rightarrow> receiver_event \<Rightarrow> connection" where
  "cn_send c e = c\<lparr>cn_events := cn_events c @ [e]\<rparr>"

fun apply_update :: "request_env \<Rightarrow> connection \<Rightarrow> parameter_update \<Rightarrow> connection" where
  "apply_update env c (PU_Volume v) =
     cn_send (c\<lparr>cn_manager := manager_set_volume (qe_volume_now env) (cn_manager c) (vu_db v)\<rparr>)
       (RE_VolumeChanged (vu_db v) (vu_linear v) (vu_muted v))"
| "apply_update env c (PU_Metadata m) = cn_send c (RE_MetadataUpdated m)"
| "apply_update env c (PU_Progress p) = cn_send c (RE_ProgressUpdated p)"
| "apply_update env c (PU_Artwork a) = cn_send c (RE_ArtworkUpdated a)"
| "apply_update env c (PU_Unknown _) = c"

definition process_parameter_updates :: "request_env \<Rightarrow> connection \<Rightarrow> parameter_update list \<Rightarrow> connection" where
  "process_parameter_updates env c us = foldl (apply_update env) c us"

definition setup_sockets :: "allocated_ports \<Rightarrow> ports \<Rightarrow> socket_addr \<Rightarrow> session_sockets" where
  "setup_sockets ports_req ps addr =
     (case ps of (audio_port, control_port, timing_port) \<Rightarrow>
        \<lparr>ss_audio_port = audio_port, ss_control_port = control_port, ss_timing_port = timing_port,
         ss_client_control_port = alp_client_control_port ports_req,
         ss_client_timing_port = alp_client_timing_port ports_req, ss_client_addr = Some addr\<rparr>)"

definition transport_answer :: "rtsp_request \<Rightarrow> ports \<Rightarrow> rtsp_response \<Rightarrow> rtsp_response" where
  "transport_answer request ps response =
     (case headers_get (rq_headers request) TRANSPORT of
        None \<Rightarrow> response
      | Some transport_str \<Rightarrow>
          (case transport_parse transport_str of
             Inl _ \<Rightarrow> response
           | Inr transport \<Rightarrow>
               (case ps of (audio_port, control_port, timing_port) \<Rightarrow>
                  response\<lparr>rp_headers := headers_insert (rp_headers response) TRANSPORT
                             (to_response_header transport audio_port control_port timing_port)\<rparr>)))"

definition handle_setup_ports ::
    "request_env \<Rightarrow> socket_addr \<Rightarrow> allocated_ports \<Rightarrow> rtsp_request \<Rightarrow> rtsp_response \<Rightarrow> session_manager \<Rightarrow>
     (session_manager \<times> (raop_receiver_error, rtsp_response) result) option" where
  "handle_setup_ports env addr ports_req request response m =
     map_option (\<lambda>(m1, bound).
       (case bound of
          None \<Rightarrow> (m1, Inl RcvErr_Network)
        | Some ps \<Rightarrow>
            (fst (manager_with_session
                    (\<lambda>s. (session_set_sockets (qe_sockets_now env) s (setup_sockets ports_req ps addr), ())) m1),
             Inr (transport_answer request ps response))))
       (manager_allocate_sockets (qe_bind env) m)"

datatype conn_outcome = Conn_Continue | Conn_Break | Conn_Failed raop_receiver_error

fun state_event :: "session_state \<Rightarrow> receiver_event option" where
  "state_event Streaming = Some RE_PlaybackStarted"
| "state_event Paused = Some RE_PlaybackPaused"
| "state_event Teardown = Some RE_PlaybackStopped"
| "state_event _ = None"

definition apply_state :: "request_env \<Rightarrow> connection \<Rightarrow> session_state option \<Rightarrow> connection" where
  "apply_state env c new_state =
     (case new_state of
        None \<Rightarrow> c
      | Some st \<Rightarrow>
          (let c1 = c\<lparr>cn_manager := fst (manager_update_state (qe_state_now env) (cn_manager c) st)\<rparr>
           in (case state_event st of None \<Rightarrow> c1 | Some e \<Rightarrow> cn_send c1 e)))"

definition send_response ::
    "request_env \<Rightarrow> connection \<Rightarrow> handle_result \<Rightarrow> rtsp_response \<Rightarrow> connection \<times> conn_outcome" where
  "send_response env c result response =
     (if \<not> qe_write_ok env then (c, Conn_Break)
      else (apply_state env (c\<lparr>cn_sent := cn_sent c @ encode_response response\<rparr>) (hr_new_state result),
            if hr_stop_streaming result then Conn_Break else Conn_Continue))"

definition serve_request ::
    "'k announce_lib \<Rightarrow> (f32 \<Rightarrow> f32 \<Rightarrow> f32) \<Rightarrow> request_env \<Rightarrow> socket_addr \<Rightarrow> connection \<Rightarrow> rtsp_request \<Rightarrow>
     (connection \<times> conn_outcome) option" where
  "serve_request L powf env addr c request =
     (case manager_with_session (\<lambda>s. (s, handle_request L powf (qe_random env) request s None)) (cn_manager c) of
        (m, Inl e) \<Rightarrow> Some (c\<lparr>cn_manager := m\<rparr>, Conn_Failed (RcvErr_Session e))
      | (m, Inr None) \<Rightarrow> None
      | (m, Inr (Some result)) \<Rightarrow>
          (let c1 = process_parameter_updates env (c\<lparr>cn_manager := m\<rparr>) (hr_parameter_updates result)
           in (case hr_allocated_ports result of
                 None \<Rightarrow> Some (send_response env c1 result (hr_response result))
               | Some ports_req \<Rightarrow>
                   (case handle_setup_ports env addr ports_req request (hr_response result) (cn_manager c1) of
                      None \<Rightarrow> None
                    | Some (m2, Inl e) \<Rightarrow> Some (c1\<lparr>cn_manager := m2\<rparr>, Conn_Failed e)
                    | Some (m2, Inr response) \<Rightarrow> Some (send_response env (c1\<lparr>cn_manager := m2\<rparr>) result response)))))"

section \<open>The connection\<close>

lemma process_parameter_updates_buffer [simp]: "cn_buffer (process_parameter_updates env c us) = cn_buffer c"
proof -
  have "cn_buffer (apply_update env c u) = cn_buffer c" for c u by (cases u) (simp_all add: cn_send_def)
  then show ?thesis by (induction us arbitrary: c) (simp_all add: process_parameter_updates_def)
qed

lemma send_response_buffer: "send_response env c result response = (c', r) \<Longrightarrow> cn_buffer c' = cn_buffer c"
  by (auto simp: send_response_def apply_state_def cn_send_def Let_def split: option.splits if_splits)

lemma serve_request_buffer:
  "serve_request L powf env addr c request = Some (c', r) \<Longrightarrow> cn_buffer c' = cn_buffer c"
  by (auto simp: serve_request_def Let_def split: prod.splits sum.splits option.splits dest!: send_response_buffer)

lemma serve_decode_shrinks:
  "server_codec_decode b = (b', Inr (Some r)) \<Longrightarrow> length b' < length b"
  by (auto simp: server_codec_decode_def split: option.splits if_splits sum.splits prod.splits)

text \<open>
  The inner loop: a parse error ends it without an answer and leaves the bytes in the buffer. The \<open>k\<close>-th request
  of a connection is served in \<open>envs k\<close>.
\<close>

function serve_buffer ::
    "'k announce_lib \<Rightarrow> (f32 \<Rightarrow> f32 \<Rightarrow> f32) \<Rightarrow> (nat \<Rightarrow> request_env) \<Rightarrow> socket_addr \<Rightarrow> connection \<Rightarrow>
     (connection \<times> (raop_receiver_error, unit) result) option" where
  "serve_buffer L powf envs addr c =
     (case server_codec_decode (cn_buffer c) of
        (b, Inr (Some request)) \<Rightarrow>
          (case serve_request L powf (envs (cn_served c)) addr (c\<lparr>cn_buffer := b, cn_served := Suc (cn_served c)\<rparr>) request of
             None \<Rightarrow> None
           | Some (c', Conn_Continue) \<Rightarrow> serve_buffer L powf envs addr c'
           | Some (c', Conn_Break) \<Rightarrow> Some (c', Inr ())
           | Some (c', Conn_Failed e) \<Rightarrow> Some (c', Inl e))
      | (b, _) \<Rightarrow> Some (c\<lparr>cn_buffer := b\<rparr>, Inr ()))"
  by pat_completeness auto
termination
  by (relation "measure (\<lambda>(L, powf, envs, addr, c). length (cn_buffer c))")
    (auto dest!: serve_request_buffer serve_decode_shrinks [OF sym])

declare serve_buffer.simps [simp del]

text \<open>The outer loop over the results of \<open>read\<close>; it ends with the connection.\<close>

fun serve_reads ::
    "'k announce_lib \<Rightarrow> (f32 \<Rightarrow> f32 \<Rightarrow> f32) \<Rightarrow> (nat \<Rightarrow> request_env) \<Rightarrow> socket_addr \<Rightarrow> connection \<Rightarrow> bytes list \<Rightarrow>
     (connection \<times> (raop_receiver_error, unit) result) option" where
  "serve_reads L powf envs addr c [] = Some (c, Inr ())"
| "serve_reads L powf envs addr c (piece # reads) =
     (case serve_buffer L powf envs addr (c\<lparr>cn_buffer := server_codec_feed (cn_buffer c) piece\<rparr>) of
        None \<Rightarrow> None
      | Some (c', Inl e) \<Rightarrow> Some (c', Inl e)
      | Some (c', Inr ()) \<Rightarrow> serve_reads L powf envs addr c' reads)"

definition connection_open :: "u64 \<Rightarrow> nat \<Rightarrow> session_manager \<Rightarrow> socket_addr \<Rightarrow> connection \<times> (raop_receiver_error, unit) result" where
  "connection_open random now m addr =
     (case manager_start_session random now m addr of
        (m1, r) \<Rightarrow>
          (\<lparr>cn_manager = m1, cn_buffer = [], cn_events = [RE_ClientConnected addr None], cn_sent = [], cn_served = 0\<rparr>,
           (case r of Inl e \<Rightarrow> Inl (RcvErr_Session e) | Inr _ \<Rightarrow> Inr ())))"

definition connection_close :: "socket_addr \<Rightarrow> connection \<Rightarrow> connection" where
  "connection_close addr c =
     cn_send (c\<lparr>cn_manager := manager_end_session (cn_manager c) ''Connection closed''\<rparr>)
       (RE_ClientDisconnected addr (ascii ''Connection closed''))"

definition handle_connection ::
    "'k announce_lib \<Rightarrow> (f32 \<Rightarrow> f32 \<Rightarrow> f32) \<Rightarrow> (nat \<Rightarrow> request_env) \<Rightarrow> u64 \<Rightarrow> nat \<Rightarrow> session_manager \<Rightarrow> socket_addr \<Rightarrow>
     bytes list \<Rightarrow> (connection \<times> (raop_receiver_error, unit) result) option" where
  "handle_connection L powf envs random now m addr reads =
     (case connection_open random now m addr of
        (c, Inl e) \<Rightarrow> Some (c, Inl e)
      | (c, Inr ()) \<Rightarrow>
          (case serve_reads L powf envs addr c reads of
             None \<Rightarrow> None
           | Some (c', Inl e) \<Rightarrow> Some (c', Inl e)
           | Some (c', Inr ()) \<Rightarrow> Some (connection_close addr c', Inr ())))"

section \<open>Facts about one request\<close>

lemma setup_allocates:
  assumes "handle_request L powf random request s rk = Some result" and "hr_new_state result = Some Setup"
  shows "hr_allocated_ports result \<noteq> None"
  using assms
  by (auto simp: handle_request_def raop_handle_options_def handle_announce_def handle_setup_def handle_record_def handle_pause_def
      handle_flush_def handle_teardown_def handle_get_parameter_def handle_set_parameter_def handle_post_def handle_unknown_def
      raop_error_result_def raop_plain_result_def Let_def split: rtsp_method.splits option.splits sum.splits if_splits)

lemma with_session_same:
  assumes "sm_active_session m = Some s"
  shows "manager_with_session (\<lambda>s. (s, f s)) m = (m, Inr (f s))"
proof -
  have "m\<lparr>sm_active_session := Some s\<rparr> = m" using assms by simp
  then show ?thesis unfolding manager_with_session_def assms by simp
qed

section \<open>Starting and stopping\<close>

text \<open>
  The life cycle of a receiver. \<open>start\<close> and \<open>stop\<close> exclude each other, since both borrow the receiver mutably, but the
  accept loop runs as a task of its own: \<open>stop\<close> first sends the signal and then writes the
  state, and the task may run in between. The clean-up of the task and its write of
  \<open>Stopped\<close> with the event are one step.
\<close>

datatype receiver_state = Rcv_Stopped | Rcv_Starting | Rcv_Running | Rcv_Stopping

datatype accept_task = Task_None | Task_Accepting | Task_Cleaning

record receiver =
  rv_state :: receiver_state
  rv_shutdown_tx :: bool
  rv_signal :: bool
  rv_stopping :: bool
  rv_task :: accept_task
  rv_events :: "receiver_event list"

definition receiver_new :: receiver where
  "receiver_new = \<lparr>rv_state = Rcv_Stopped, rv_shutdown_tx = False, rv_signal = False, rv_stopping = False,
     rv_task = Task_None, rv_events = []\<rparr>"

definition receiver_start ::
    "str \<Rightarrow> (raop_receiver_error, u16) result \<Rightarrow> receiver \<Rightarrow> receiver \<times> (raop_receiver_error, unit) result" where
  "receiver_start name system v =
     (if rv_state v \<noteq> Rcv_Stopped then (v, Inl RcvErr_AlreadyRunning)
      else let v1 = v\<lparr>rv_state := Rcv_Starting, rv_shutdown_tx := True\<rparr>
           in (case system of
                 Inl e \<Rightarrow> (v1, Inl e)
               | Inr port \<Rightarrow>
                   (v1\<lparr>rv_events := rv_events v @ [RE_Started name port], rv_state := Rcv_Running, rv_signal := False,
                       rv_task := Task_Accepting\<rparr>, Inr ())))"

inductive receiver_life :: "receiver \<Rightarrow> receiver \<Rightarrow> bool" where
  life_start: "\<not> rv_stopping v \<Longrightarrow> receiver_life v (fst (receiver_start name system v))"
| life_stop: "\<not> rv_stopping v \<Longrightarrow> rv_shutdown_tx v \<Longrightarrow>
    receiver_life v (v\<lparr>rv_shutdown_tx := False, rv_signal := (rv_task v = Task_Accepting), rv_stopping := True\<rparr>)"
| life_stop_write: "rv_stopping v \<Longrightarrow> receiver_life v (v\<lparr>rv_state := Rcv_Stopping, rv_stopping := False\<rparr>)"
| life_signal: "rv_task v = Task_Accepting \<Longrightarrow> rv_signal v \<Longrightarrow> receiver_life v (v\<lparr>rv_task := Task_Cleaning\<rparr>)"
| life_stopped: "rv_task v = Task_Cleaning \<Longrightarrow>
    receiver_life v (v\<lparr>rv_task := Task_None, rv_state := Rcv_Stopped, rv_events := rv_events v @ [RE_Stopped]\<rparr>)"

definition receiver_safe :: "receiver \<Rightarrow> bool" where
  "receiver_safe v \<longleftrightarrow>
     (rv_task v = Task_Accepting \<longrightarrow> rv_state v = Rcv_Running \<or> rv_state v = Rcv_Stopping)
     \<and> (rv_task v = Task_Cleaning \<longrightarrow> \<not> rv_shutdown_tx v \<and> rv_state v \<noteq> Rcv_Stopped)
     \<and> (rv_task v = Task_Accepting \<and> rv_shutdown_tx v \<longrightarrow> \<not> rv_stopping v \<and> \<not> rv_signal v \<and> rv_state v = Rcv_Running)
     \<and> (rv_stopping v \<longrightarrow> \<not> rv_shutdown_tx v)
     \<and> (rv_task v = Task_Accepting \<and> \<not> rv_shutdown_tx v \<longrightarrow> rv_signal v)
     \<and> (rv_shutdown_tx v \<longrightarrow> rv_state v = Rcv_Running \<or> rv_state v = Rcv_Starting)"

lemma receiver_life_safe: "receiver_life v v' \<Longrightarrow> receiver_safe v \<Longrightarrow> receiver_safe v'"
  by (induction rule: receiver_life.induct)
    (auto simp: receiver_safe_def receiver_start_def Let_def split: sum.splits)

interpretation lifecycle: guarded_machine receiver_life "\<lambda>v. v = receiver_new" receiver_safe
  by unfold_locales (simp add: receiver_safe_def receiver_new_def, rule receiver_life_safe)

lemma stuck_stays:
  assumes "receiver_life\<^sup>*\<^sup>* v v'" and "rv_state v = Rcv_Stopping" "rv_task v = Task_None" "\<not> rv_shutdown_tx v" "\<not> rv_stopping v"
  shows "rv_state v' = Rcv_Stopping \<and> rv_task v' = Task_None \<and> \<not> rv_shutdown_tx v' \<and> \<not> rv_stopping v'"
  using assms
proof (induction rule: rtranclp_induct)
  case (step y z)
  from step.hyps(2) step.IH [OF step.prems] show ?case by cases (auto simp: receiver_start_def)
qed simp

lemma close_ends_session: "sm_active_session (cn_manager (connection_close addr c)) = None"
  by (simp add: connection_close_def cn_send_def manager_end_session_def end_session_take_def manager_report_end_def
      manager_cleanup_sockets_def manager_send_def split: option.split)

lemma serve_no_session:
  "sm_active_session (cn_manager c) = None \<Longrightarrow>
   serve_request L powf env addr c request = Some (c, Conn_Failed (RcvErr_Session (NotFound ''No active session'')))"
  by (simp add: serve_request_def manager_with_session_def)

lemma open_fresh:
  assumes "sm_active_session m = None \<or> smc_preemption_policy (sm_config m) = AllowPreempt" and "connection_open i t m a = (c, r)"
  shows "r = Inr ()" and "sm_active_session (cn_manager c) = Some (session_new i t a)" and "sm_config (cn_manager c) = sm_config m"
    and "sm_port_allocator (cn_manager c) = sm_port_allocator m"
  using assms
  by (auto simp: connection_open_def manager_start_session_def start_session_take_def start_session_cleanup_def
      start_session_install_def manager_report_end_def manager_cleanup_sockets_def manager_send_def Let_def split: option.splits)

section \<open>Serving a request\<close>

lemma serve_request_plain:
  assumes "sm_active_session (cn_manager c) = Some s"
    and "handle_request L powf (qe_random env) request s None = Some result"
    and "hr_parameter_updates result = []" and "hr_allocated_ports result = None" and "qe_write_ok env"
    and "\<not> hr_stop_streaming result"
  shows "serve_request L powf env addr c request =
    Some (apply_state env (c\<lparr>cn_sent := cn_sent c @ encode_response (hr_response result)\<rparr>) (hr_new_state result), Conn_Continue)"
  unfolding serve_request_def with_session_same [OF assms(1)]
  using assms by (simp add: process_parameter_updates_def send_response_def)

lemma serve_request_setup:
  assumes "sm_active_session (cn_manager c) = Some s"
    and "handle_request L powf (qe_random env) request s None = Some result"
    and "hr_parameter_updates result = []" and "hr_allocated_ports result = Some q" and "qe_write_ok env"
    and "\<not> hr_stop_streaming result"
    and "handle_setup_ports env addr q request (hr_response result) (cn_manager c) = Some (m, Inr response)"
  shows "serve_request L powf env addr c request =
    Some (apply_state env (c\<lparr>cn_manager := m, cn_sent := cn_sent c @ encode_response response\<rparr>) (hr_new_state result), Conn_Continue)"
  unfolding serve_request_def with_session_same [OF assms(1)]
  using assms by (simp add: process_parameter_updates_def send_response_def)

lemma allocate_ports_only:
  assumes "manager_allocate_sockets os_bind m = Some (m1, r)" and "sm_port_allocator m' = sm_port_allocator m"
  shows "\<exists>m2. manager_allocate_sockets os_bind m' = Some (m2, r) \<and> sm_active_session m2 = sm_active_session m'"
proof -
  obtain al ps where t: "allocate_trio (sm_port_allocator m) = Some (al, ps)"
    using assms(1) by (auto simp: manager_allocate_sockets_def split: Option.bind_splits)
  obtain al' bound where l: "allocate_loop os_bind 5 ps al = Some (al', bound)"
    using assms(1) t by (auto simp: manager_allocate_sockets_def)
  show ?thesis
    using assms t l by (cases bound) (auto simp: manager_allocate_sockets_def Let_def split: option.splits)
qed

lemma update_state_at:
  assumes "sm_active_session m = Some rs" and "can_transition_to (rs_state rs) st"
  shows "sm_active_session (fst (manager_update_state now m st)) = Some (session_touch now (rs\<lparr>rs_state := st\<rparr>))"
    and "sm_port_allocator (fst (manager_update_state now m st)) = sm_port_allocator m"
  using assms by (auto simp: manager_update_state_def session_set_state_def manager_send_def)

lemma announce_body_only: "rq_body r = rq_body r' \<Longrightarrow> raop_process_announce L r k = raop_process_announce L r' k"
  by (simp add: raop_process_announce_def)

definition demo_envs :: "nat \<Rightarrow> request_env" where
  "demo_envs k = \<lparr>qe_random = of_nat k, qe_volume_now = k, qe_sockets_now = k, qe_state_now = k,
     qe_bind = (\<lambda>_ _ p. Some p), qe_write_ok = True\<rparr>"

lemma demo_announce_accepted:
  "\<exists>params. raop_process_announce demo_announce_lib (request_body (request_new Method_Announce []) demo_announce_body) None = Some (Inr params)"
  by (rule plain_announce_accepted [OF demo_announce_plain]) (simp add: demo_announce_body_def)

lemma demo_allocate:
  "\<exists>m. manager_allocate_sockets (qe_bind (demo_envs 2)) (manager_new session_manager_config_default) = Some (m, Some (6000, 6001, 6002))"
proof -
  have trio: "\<exists>al. allocate_trio \<lparr>pal_base = 6000, pal_range = 100, pal_next = 0\<rparr> = Some (al, (6000, 6001, 6002))"
    by (simp add: allocate_trio_def u16_add_def Let_def)
  have loop: "allocate_loop (\<lambda>_ _. Some) 5 ps al = Some (al, Some ps)" for ps al
    using allocate_loop.simps(2) [of "\<lambda>_ _. Some" 4 ps al] by (cases ps) (simp add: try_bind_sockets_def)
  show ?thesis
    using trio by (auto simp: manager_allocate_sockets_def manager_new_def session_manager_config_default_def demo_envs_def loop)
qed

lemma raop_builder_ok:
  assumes "raop_builder s m path = Some (s', b)"
  shows "rq_method b = m \<and> headers_ok (rq_headers b)"
  using assms
  by (auto simp: raop_builder_def raop_next_cseq_def raop_common_headers_def request_cseq_def request_session_def
      request_header_def request_new_def headers_ok_insert Let_def split: if_splits option.splits)

lemma volume_request:
  assumes "raop_set_volume_request s (F32 (- of_nat n)) = Some (s', r)" and "n \<le> 144"
  shows "rq_method r = Method_SetParameter"
    and "process_set_parameter powf r = [PU_Volume (volume_from_db powf (F32 (- of_nat n)))]"
proof -
  let ?body = "ascii ''volume: '' @ volume_text n @ crlf"
  obtain b where r: "r = request_body (request_header b CONTENT_TYPE (ascii ''text/parameters'')) ?body"
      and b: "rq_method b = Method_SetParameter" "headers_ok (rq_headers b)"
    using assms(1) raop_builder_ok [of s Method_SetParameter "[]" s']
    unfolding raop_set_volume_request_def f32_fixed6_nat raop_request_def by auto
  have names: "\<not> eq_ignore_ascii_case CONTENT_LENGTH CONTENT_TYPE" "eq_ignore_ascii_case CONTENT_TYPE CONTENT_TYPE"
    by (simp_all add: eq_ignore_ascii_case_def ascii_lower_def header_names ascii_def)
  have ct: "headers_get (rq_headers r) CONTENT_TYPE = Some (ascii ''text/parameters'')"
    using b(2) by (simp add: r request_body_def request_header_def headers_get_insert headers_ok_insert names)
  have "utf8_valid ?body"
    using utf8_valid_append [OF graphic_utf8 [OF volume_text_graphic], of crlf n] by (simp add: ascii_def crlf_def)
  then have lossy: "from_utf8_lossy ?body = ?body" by (rule from_utf8_lossy_valid)
  have "find_sub (ascii ''text/parameters'') (ascii ''text/parameters'') \<noteq> None" by (simp add: ascii_def)
  then show "process_set_parameter powf r = [PU_Volume (volume_from_db powf (F32 (- of_nat n)))]"
    using volume_body [OF assms(2)] lossy
    by (simp add: process_set_parameter_def ct unwrap_or_def str_contains_def option_list_def Let_def) (simp add: r)
  show "rq_method r = Method_SetParameter" by (simp add: r b(1))
qed

definition demo_reject_config :: session_manager_config where
  "demo_reject_config = session_manager_config_default\<lparr>smc_preemption_policy := Reject\<rparr>"

lemma demo_setup_served:
  "\<exists>c0 c1 c2 announce set_up s. connection_open 5 0 (manager_new demo_reject_config) (SocketV4 1 1) = (c0, Inr ())
     \<and> serve_request demo_announce_lib (\<lambda>_ x. x) (demo_envs 1) (SocketV4 1 1) c0 announce = Some (c1, Conn_Continue)
     \<and> serve_request demo_announce_lib (\<lambda>_ x. x) (demo_envs 2) (SocketV4 1 1) c1 set_up = Some (c2, Conn_Continue)
     \<and> sm_active_session (cn_manager c2) = Some s \<and> rs_state s = Setup"
proof -
  let ?addr = "SocketV4 1 1" and ?m0 = "manager_new demo_reject_config"
  obtain c0 r0 where open0: "connection_open 5 0 ?m0 ?addr = (c0, r0)" by force
  have c0: "sm_active_session (cn_manager c0) = Some (session_new 5 0 ?addr)"
    by (rule open_fresh(2) [OF _ open0]) (simp add: manager_new_def)
  let ?announce = "request_body (request_new Method_Announce []) demo_announce_body"
  let ?set_up = "request_header (request_new Method_Setup []) TRANSPORT (raop_client_transport 6001 6002)"
  obtain params where params: "raop_process_announce demo_announce_lib ?announce None = Some (Inr params)"
    using demo_announce_accepted by blast
  let ?res = "(raop_plain_result (response_cseq (response_builder_new 200) (request_cseq_value ?announce)))
      \<lparr>hr_new_state := Some Announced, hr_stream_params := Some params\<rparr>"
  have res: "handle_request demo_announce_lib (\<lambda>_ x. x) (qe_random (demo_envs 1)) ?announce (session_new 5 0 ?addr) None = Some ?res"
    by (simp add: handle_request_def handle_announce_def params session_new_def Let_def)
  obtain c1 where c1: "serve_request demo_announce_lib (\<lambda>_ x. x) (demo_envs 1) ?addr c0 ?announce = Some (c1, Conn_Continue)"
      "cn_manager c1 = fst (manager_update_state 1 (cn_manager c0) Announced)"
    using serve_request_plain [OF c0 res, of ?addr]
    by (simp add: raop_plain_result_def demo_envs_def apply_state_def)
  have s1: "sm_active_session (cn_manager c1) = Some (session_touch 1 ((session_new 5 0 ?addr)\<lparr>rs_state := Announced\<rparr>))"
    unfolding c1(2) by (rule update_state_at [OF c0]) (simp add: session_new_def)
  have t: "headers_get (rq_headers ?set_up) TRANSPORT = Some (raop_client_transport 6001 6002)"
    by (simp add: request_header_def request_new_def headers_get_insert eq_ignore_ascii_case_def)
  define res2 where "res2 = handle_setup (qe_random (demo_envs 2)) ?set_up (request_cseq_value ?set_up)"
  have res2: "handle_request demo_announce_lib (\<lambda>_ x. x) (qe_random (demo_envs 2)) ?set_up s None = Some res2"
    "hr_parameter_updates res2 = []" "hr_new_state res2 = Some Setup" "\<not> hr_stop_streaming res2" for s
    by (simp_all add: handle_request_def res2_def Let_def) (simp_all add: handle_setup_def t client_transport_parsed raop_plain_result_def Let_def)
  obtain q where q: "hr_allocated_ports res2 = Some q" using setup_allocates [OF res2(1,3)] by blast
  have alloc: "sm_port_allocator (cn_manager c1) = sm_port_allocator (manager_new session_manager_config_default)"
    unfolding c1(2) using update_state_at(2) [OF c0, of Announced 1] open_fresh(4) [OF _ open0]
    by (simp add: session_new_def manager_new_def demo_reject_config_def)
  obtain m where m: "manager_allocate_sockets (qe_bind (demo_envs 2)) (manager_new session_manager_config_default) =
      Some (m, Some (6000, 6001, 6002))"
    using demo_allocate by blast
  obtain m2 where m2: "manager_allocate_sockets (qe_bind (demo_envs 2)) (cn_manager c1) = Some (m2, Some (6000, 6001, 6002))"
      "sm_active_session m2 = sm_active_session (cn_manager c1)"
    using allocate_ports_only [OF m alloc] by blast
  obtain m3 response s3 where m3: "handle_setup_ports (demo_envs 2) ?addr q ?set_up (hr_response res2) (cn_manager c1) = Some (m3, Inr response)"
      "sm_active_session m3 = Some s3" "rs_state s3 = Announced"
    by (simp add: handle_setup_ports_def m2 s1 manager_with_session_def session_set_sockets_def session_touch_def)
  obtain c2 where c2: "serve_request demo_announce_lib (\<lambda>_ x. x) (demo_envs 2) ?addr c1 ?set_up = Some (c2, Conn_Continue)"
      "cn_manager c2 = fst (manager_update_state 2 m3 Setup)"
    using serve_request_setup [OF s1 res2(1,2) q _ res2(4) m3(1)] res2(3) by (simp add: demo_envs_def apply_state_def)
  have "r0 = Inr ()" by (rule open_fresh(1) [OF _ open0]) (simp add: manager_new_def)
  with open0 have open1: "connection_open 5 0 ?m0 ?addr = (c0, Inr ())" by simp
  have "sm_active_session (cn_manager c2) = Some (session_touch 2 (s3\<lparr>rs_state := Setup\<rparr>))"
    unfolding c2(2) by (rule update_state_at(1) [OF m3(2)]) (simp add: m3(3))
  moreover have "rs_state (session_touch 2 (s3\<lparr>rs_state := Setup\<rparr>)) = Setup" by (simp add: session_touch_def)
  ultimately show ?thesis using open1 c1(1) c2(1) by blast
qed

section \<open>Properties\<close>

text \<open>
  C40. A client that was preempted ends the session of the client that replaced it: when its
  connection closes, no session is active any more, and the next request of the new client
  fails and closes that connection too.
\<close>

theorem preempted_client_ends_session:
  assumes "smc_preemption_policy config = AllowPreempt"
    and "connection_open i t (manager_new config) a = (ca, ra)" and "connection_open j u (cn_manager ca) b = (cb, rb)"
  shows "ra = Inr () \<and> rb = Inr () \<and> map_option rs_client_addr (sm_active_session (cn_manager cb)) = Some b
    \<and> sm_active_session (cn_manager (connection_close a (ca\<lparr>cn_manager := cn_manager cb\<rparr>))) = None
    \<and> (\<exists>c. serve_request L powf env b (cb\<lparr>cn_manager := cn_manager (connection_close a (ca\<lparr>cn_manager := cn_manager cb\<rparr>))\<rparr>) request =
        Some (c, Conn_Failed (RcvErr_Session (NotFound ''No active session''))))"
proof -
  have a: "ra = Inr ()" "sm_config (cn_manager ca) = config"
    using open_fresh [OF _ assms(2)] by (simp_all add: manager_new_def)
  have b: "rb = Inr ()" "sm_active_session (cn_manager cb) = Some (session_new j u b)"
    using open_fresh [OF _ assms(3)] a(2) assms(1) by blast+
  show ?thesis
    using a(1) b close_ends_session serve_no_session [where L = L and c = "cb\<lparr>cn_manager := cn_manager (connection_close a (ca\<lparr>cn_manager := cn_manager cb\<rparr>))\<rparr>"]
    by (auto simp: session_new_def)
qed

theorem preempted_client_ends_session_witness:
  "\<exists>ca cb. fst (connection_open 1 0 (manager_new session_manager_config_default) (SocketV4 1 1)) = ca
    \<and> fst (connection_open 2 5 (cn_manager ca) (SocketV4 2 2)) = cb
    \<and> map_option rs_client_addr (sm_active_session (cn_manager cb)) = Some (SocketV4 2 2)
    \<and> sm_active_session (cn_manager (connection_close (SocketV4 1 1) (ca\<lparr>cn_manager := cn_manager cb\<rparr>))) = None"
proof -
  have p: "smc_preemption_policy session_manager_config_default = AllowPreempt" by (simp add: session_manager_config_default_def)
  show ?thesis
    using preempted_client_ends_session [OF p prod.collapse [symmetric] prod.collapse [symmetric],
        of 1 0 "SocketV4 1 1" 2 5 "SocketV4 2 2" demo_announce_lib "\<lambda>_ x. x" undefined undefined] by blast
qed

text \<open>
  C33. The volume that the client sets in whole decibels is the volume of the session: the receiver reads the
  text that the client prints as the same number, stores it, reports it with its linear value and
  as muted exactly at -144 dB.
\<close>

theorem raop_volume_received:
  assumes "raop_set_volume_request s (F32 (- of_nat n)) = Some (s', r)" and "n \<le> 144"
    and "sm_active_session (cn_manager c) = Some rs" and "qe_write_ok env"
  shows "\<exists>c' rs'. serve_request L powf env addr c r = Some (c', Conn_Continue)
    \<and> sm_active_session (cn_manager c') = Some rs' \<and> rs_volume rs' = F32 (- of_nat n) \<and> rs_state rs' = rs_state rs
    \<and> cn_events c' = cn_events c @ [RE_VolumeChanged (F32 (- of_nat n)) (db_to_linear powf (F32 (- of_nat n))) (n = 144)]"
proof -
  have "(of_nat n :: rat) \<le> 144" using assms(2) by (metis of_nat_le_iff of_nat_numeral)
  moreover have "(144 :: rat) \<le> of_nat n \<longleftrightarrow> n = 144"
    using assms(2) by (metis antisym of_nat_le_iff of_nat_numeral order_refl)
  ultimately have v: "volume_clamp (F32 (- of_nat n)) = F32 (- of_nat n)" "f32_le (F32 (- of_nat n)) VOLUME_MIN_DB \<longleftrightarrow> n = 144"
    by (auto simp: VOLUME_MIN_DB_def)
  have "handle_request L powf (qe_random env) r rs None = Some (handle_set_parameter powf r (request_cseq_value r))"
    using volume_request(1) [OF assms(1,2)] by (simp add: handle_request_def Let_def)
  then show ?thesis
    unfolding serve_request_def with_session_same [OF assms(3)]
    using assms(3,4) volume_request(2) [OF assms(1,2), of powf] v
    by (simp add: handle_set_parameter_def raop_plain_result_def process_parameter_updates_def send_response_def apply_state_def
        volume_from_db_def manager_set_volume_def session_set_volume_def session_touch_def manager_send_def cn_send_def Let_def)
qed

theorem raop_volume_received_witness:
  "\<exists>s' r c' rs'. raop_set_volume_request demo_raop_session (F32 (- of_nat 15)) = Some (s', r)
    \<and> serve_request demo_announce_lib (\<lambda>_ x. x) (demo_envs 0) (SocketV4 1 1)
        (fst (connection_open 5 0 (manager_new session_manager_config_default) (SocketV4 1 1))) r = Some (c', Conn_Continue)
    \<and> sm_active_session (cn_manager c') = Some rs' \<and> rs_volume rs' = F32 (- of_nat 15)"
proof -
  let ?c = "fst (connection_open 5 0 (manager_new session_manager_config_default) (SocketV4 1 1))"
  obtain s' r where r: "raop_set_volume_request demo_raop_session (F32 (- of_nat 15)) = Some (s', r)"
    by (auto simp: raop_set_volume_request_def raop_request_def raop_builder_def raop_next_cseq_def demo_raop_session_def
        raop_session_new_def Let_def)
  have "sm_active_session (cn_manager ?c) = Some (session_new 5 0 (SocketV4 1 1))"
    by (rule open_fresh(2) [OF _ prod.collapse [symmetric]]) (simp add: manager_new_def)
  then show ?thesis
    using raop_volume_received [OF r, of ?c _ "demo_envs 0" demo_announce_lib "\<lambda>_ x. x" "SocketV4 1 1"] r
    by (auto simp: demo_envs_def)
qed

text \<open>
  C36. A receiver has at most one accept loop: in every state that starting, stopping and the tasks
  can reach, \<open>start\<close> is refused while a loop accepts connections or cleans up.
\<close>

theorem receiver_single_listener:
  assumes "receiver_life\<^sup>*\<^sup>* receiver_new v" and "rv_task v \<noteq> Task_None"
  shows "receiver_start name system v = (v, Inl RcvErr_AlreadyRunning)"
  using lifecycle.reachable_safe [OF refl assms(1)] assms(2)
  by (cases "rv_task v") (auto simp: receiver_safe_def receiver_start_def)

theorem receiver_single_listener_witness:
  "\<exists>v. rv_task v = Task_Accepting \<and> receiver_start [] (Inr 5001) v = (v, Inl RcvErr_AlreadyRunning)"
proof -
  let ?v = "fst (receiver_start [] (Inr 5000) receiver_new)"
  have "receiver_life receiver_new ?v" by (rule life_start) (simp add: receiver_new_def)
  moreover have t: "rv_task ?v = Task_Accepting" by (simp add: receiver_start_def receiver_new_def)
  ultimately have "receiver_start [] (Inr 5001) ?v = (?v, Inl RcvErr_AlreadyRunning)"
    by (intro receiver_single_listener) auto
  with t show ?thesis by blast
qed

text \<open>
  A receiver may never start again after \<open>stop\<close>: when the accept loop ends before \<open>stop\<close> writes its
  state, the receiver stays in \<open>Stopping\<close>, and no later call or task changes that.
\<close>

theorem receiver_stop_race:
  "\<exists>v. receiver_life\<^sup>*\<^sup>* receiver_new v \<and> rv_events v = [RE_Started name port, RE_Stopped]
     \<and> (\<forall>v'. receiver_life\<^sup>*\<^sup>* v v' \<longrightarrow> rv_state v' = Rcv_Stopping \<and> receiver_start name' system v' = (v', Inl RcvErr_AlreadyRunning))"
proof -
  define v1 where "v1 = fst (receiver_start name (Inr port) receiver_new)"
  define v2 where "v2 = v1\<lparr>rv_shutdown_tx := False, rv_signal := (rv_task v1 = Task_Accepting), rv_stopping := True\<rparr>"
  define v3 where "v3 = v2\<lparr>rv_task := Task_Cleaning\<rparr>"
  define v4 where "v4 = v3\<lparr>rv_task := Task_None, rv_state := Rcv_Stopped, rv_events := rv_events v3 @ [RE_Stopped]\<rparr>"
  define v5 where "v5 = v4\<lparr>rv_state := Rcv_Stopping, rv_stopping := False\<rparr>"
  have f: "rv_task v1 = Task_Accepting" "rv_shutdown_tx v1" "\<not> rv_stopping v1" "rv_events v1 = [RE_Started name port]"
    by (simp_all add: v1_def receiver_start_def receiver_new_def)
  have "receiver_life receiver_new v1" unfolding v1_def by (rule life_start) (simp add: receiver_new_def)
  moreover have "receiver_life v1 v2" unfolding v2_def using f by (intro life_stop)
  moreover have "receiver_life v2 v3" unfolding v3_def by (rule life_signal) (simp_all add: v2_def f)
  moreover have "receiver_life v3 v4" unfolding v4_def by (rule life_stopped) (simp add: v3_def)
  moreover have "receiver_life v4 v5" unfolding v5_def by (rule life_stop_write) (simp add: v4_def v3_def v2_def)
  ultimately have "receiver_life\<^sup>*\<^sup>* receiver_new v5" by (meson converse_rtranclp_into_rtranclp rtranclp.rtrancl_refl)
  moreover have "rv_events v5 = [RE_Started name port, RE_Stopped]" by (simp add: v5_def v4_def v3_def v2_def f)
  moreover have "rv_state v' = Rcv_Stopping" if "receiver_life\<^sup>*\<^sup>* v5 v'" for v'
    using stuck_stays [OF that] by (simp add: v5_def v4_def v3_def v2_def)
  ultimately show ?thesis by (auto simp: receiver_start_def)
qed

theorem receiver_stop_race_witness:
  "\<exists>v. receiver_life\<^sup>*\<^sup>* receiver_new v \<and> rv_events v = [RE_Started [65] 5000, RE_Stopped]
     \<and> rv_state v = Rcv_Stopping \<and> receiver_start [66] (Inr 5000) v = (v, Inl RcvErr_AlreadyRunning)"
  using receiver_stop_race [of "[65]" 5000 "[66]" "Inr 5000"] by blast

end
