(* ===== verification/Raop_Handshake.thy ===== *)
theory Raop_Handshake
  imports Raop_Server
begin

text \<open>
  The RAOP client of \<open>src/protocol/raop/session.rs\<close> against the receiver of \<open>src/receiver\<close>: requests and responses go
  through the two codecs, and both sides end in the states that they expect of each other.
\<close>

section \<open>Requests of the client\<close>

definition raop_client_ok :: "raop_session \<Rightarrow> bool" where
  "raop_client_ok s \<longleftrightarrow>
     (\<exists>i. ro_client_instance s = hex16 i) \<and> (\<exists>d. ro_dacp_id s = hex16 d)
     \<and> (\<exists>a :: u32. ro_active_remote s = dec_string (unat a)) \<and> pred_option line_value (ro_session_id s)
     \<and> graphic (ro_server_addr s) \<and> length (ro_server_addr s) \<le> 255"

lemma raop_session_new_ok:
  "graphic addr \<Longrightarrow> length addr \<le> 255 \<Longrightarrow> raop_client_ok (raop_session_new i d r ch addr port)"
  by (auto simp: raop_client_ok_def raop_session_new_def)

lemma dec_u32: "length (dec_string (unat (a :: u32))) \<le> 10" "line_value (dec_string (unat a))"
proof -
  have "unat a < 10 ^ 10" using unat_less_u32 [of a] by simp
  then show "length (dec_string (unat a)) \<le> 10" by (intro dec_string_length) simp_all
  then show "line_value (dec_string (unat a))" by (intro line_value_graphic dec_string_graphic) simp
qed

lemma dec_u16: "length (dec_string (unat (a :: u16))) \<le> 5"
proof -
  have "unat a < 10 ^ 5" using unat_less_u16 [of a] by simp
  then show ?thesis by (intro dec_string_length) simp_all
qed

lemma raop_common_headers_simps [simp]:
  "rq_method (raop_common_headers s r n) = rq_method r" "rq_uri (raop_common_headers s r n) = rq_uri r"
  "rq_body (raop_common_headers s r n) = rq_body r"
  by (simp_all add: raop_common_headers_def request_cseq_def request_session_def Let_def split: option.splits)

lemma raop_common_headers_built:
  assumes "raop_client_ok s"
  shows "built 4400 (unat n) (raop_common_headers s (request_new m uri) n)"
proof -
  obtain i d and a :: u32 where i: "ro_client_instance s = hex16 i" and d: "ro_dacp_id s = hex16 d"
    and a: "ro_active_remote s = dec_string (unat a)" and opt: "pred_option line_value (ro_session_id s)"
    using assms by (auto simp: raop_client_ok_def)
  have hex: "line_value (hex16 x)" for x by (simp add: line_value_graphic hex16_graphic)
  have ua: "line_value (ascii ''iTunes/12.0 (Macintosh)'')"
    by (simp add: line_value_def utf8_valid_ascii trimmed_def ws_len_def ws_rev_len_def ws_ascii_def ws_wide2_def ws_wide3_def ascii_def)
  define b1 where "b1 = request_header (request_cseq (request_new m uri) n) USER_AGENT (ascii ''iTunes/12.0 (Macintosh)'')"
  have b1: "built 60 (unat n) b1" unfolding b1_def
    by (rule built_named [OF built_new ua]) (simp_all add: header_names ascii_def)
  define b2 where "b2 = request_header (request_header b1 CLIENT_INSTANCE (hex16 i)) DACP_ID (hex16 d)"
  have b2: "built 140 (unat n) b2" unfolding b2_def
    by (rule built_named [OF built_named [OF b1 hex, where m = 100] hex]) (simp_all add: header_names ascii_def)
  define b3 where "b3 = request_header b2 ACTIVE_REMOTE (dec_string (unat a))"
  have b3: "built 180 (unat n) b3" unfolding b3_def
    by (rule built_named [OF b2 dec_u32(2)]) (use dec_u32(1) [of a] in \<open>simp_all add: header_names ascii_def\<close>)
  have e: "raop_common_headers s (request_new m uri) n =
      (case ro_session_id s of None \<Rightarrow> b3 | Some session \<Rightarrow> request_session b3 session)"
    unfolding raop_common_headers_def i d a b1_def b2_def b3_def Let_def by (rule refl)
  show ?thesis
  proof (cases "ro_session_id s")
    case None
    then show ?thesis using b3 by (auto simp: e built_def)
  next
    case (Some v)
    with opt have "line_value v" by simp
    then have "built 4400 (unat n) (request_header b3 SESSION v)"
      by (rule built_named [OF b3]) (use \<open>line_value v\<close> in \<open>simp_all add: line_value_def header_names ascii_def\<close>)
    with Some show ?thesis by (simp add: e request_session_def)
  qed
qed

lemma raop_uri_value:
  assumes "raop_client_ok s" and "graphic path" and "length path \<le> 100"
  shows "path_value (raop_uri s path) \<and> raop_uri s path \<noteq> []"
proof -
  have "graphic (raop_uri s path)"
    using assms hex16_graphic dec_string_graphic
    by (auto simp: raop_uri_def raop_client_ok_def graphic_def) (simp_all add: ascii_def)
  moreover have "length (raop_uri s path) \<le> 4096"
    using assms dec_u16 [of "ro_server_port s"] by (auto simp: raop_uri_def raop_client_ok_def ascii_def)
  ultimately show ?thesis by (simp add: path_value_def graphic_no_ws graphic_utf8 raop_uri_def)
qed

lemma raop_cseq_simps:
  "raop_uri (s\<lparr>ro_cseq := n\<rparr>) path = raop_uri s path" "raop_common_headers (s\<lparr>ro_cseq := n\<rparr>) r k = raop_common_headers s r k"
  by (simp_all add: raop_uri_def raop_common_headers_def Let_def split: option.split)

lemma raop_builder_Some:
  "ro_cseq s \<noteq> 0xFFFFFFFF \<Longrightarrow> raop_builder s m path =
     Some (s\<lparr>ro_cseq := ro_cseq s + 1\<rparr>,
       raop_common_headers s (request_new m (raop_uri s path)) (ro_cseq s + 1))"
  by (simp add: raop_builder_def raop_next_cseq_def Let_def raop_cseq_simps)

text \<open>A request of the client that the server reads back as it is.\<close>

definition raop_issued :: "raop_session \<Rightarrow> rtsp_request \<Rightarrow> bool" where
  "raop_issued s r \<longleftrightarrow> request_ok r \<and> request_seen r = r \<and> headers_cseq (rq_headers r) = Some (unat (ro_cseq s + 1))"

lemma raop_issuedI:
  assumes "raop_client_ok s" and "built 17000 (unat (ro_cseq s + 1)) r" and "rq_uri r = raop_uri s path"
    and "graphic path" and "length path \<le> 100" and "body_value (rq_body r)"
  shows "raop_issued s r"
proof -
  have "request_ok r"
    by (rule built_request_ok [OF assms(2)])
      (use raop_uri_value [OF assms(1,4,5)] assms(3,6) in \<open>simp_all add: path_value_def body_value_def MAX_HEADER_SIZE_def\<close>)
  then show ?thesis using assms(2) by (simp add: raop_issued_def built_request_seen [OF assms(2)] built_def)
qed

section \<open>One exchange\<close>

text \<open>
  The client sends a request in one piece, the receiver serves its buffer, and the client parses
  the response and applies it.
\<close>

definition raop_exchange ::
    "'k announce_lib \<Rightarrow> (f32 \<Rightarrow> f32 \<Rightarrow> f32) \<Rightarrow> (nat \<Rightarrow> request_env) \<Rightarrow> socket_addr \<Rightarrow>
     (raop_session \<Rightarrow> (raop_session \<times> rtsp_request) option) \<Rightarrow> raop_session \<times> connection \<Rightarrow> (raop_session \<times> connection) option" where
  "raop_exchange L powf envs addr call w =
     (case w of (s, c) \<Rightarrow>
        Option.bind (call s) (\<lambda>(s1, r).
        Option.bind (serve_buffer L powf envs addr
            (c\<lparr>cn_buffer := server_codec_feed (cn_buffer c) (request_encode r), cn_sent := []\<rparr>)) (\<lambda>(c1, res).
          (case (res, snd (codec_decode (codec_more codec_new (cn_sent c1)))) of
             (Inr _, Inr (Some response)) \<Rightarrow>
               (case raop_process_response s1 (rq_method r) response of
                  (s2, Inr _) \<Rightarrow> Some (s2, c1)
                | _ \<Rightarrow> None)
           | _ \<Rightarrow> None))))"

lemma raop_exchange_step:
  assumes "call s = Some (s1, r)" and "raop_issued s r" and "cn_buffer c = []"
    and "serve_request L powf (envs (cn_served c)) addr (c\<lparr>cn_sent := [], cn_served := Suc (cn_served c)\<rparr>) r =
      Some (c1, Conn_Continue)"
    and "cn_sent c1 = encode_response response" and "response_ok response"
    and "raop_process_response s1 (rq_method r) response = (s2, Inr ())"
  shows "raop_exchange L powf envs addr call (s, c) = Some (s2, c1)"
proof -
  let ?c = "c\<lparr>cn_buffer := request_encode r, cn_sent := []\<rparr>"
  have d: "server_codec_decode (request_encode r) = ([], Inr (Some r))"
    using server_decode_whole [of r "[]"] assms(2) by (simp add: raop_issued_def)
  have c: "?c\<lparr>cn_buffer := [], cn_served := Suc (cn_served c)\<rparr> = c\<lparr>cn_sent := [], cn_served := Suc (cn_served c)\<rparr>"
    using assms(3) by (cases c) simp
  have b: "cn_buffer c1 = []" using serve_request_buffer [OF assms(4)] assms(3) by simp
  have last: "serve_buffer L powf envs addr c1 = Some (c1, Inr ())"
    using b by (subst serve_buffer.simps) (cases c1, simp add: server_decode_empty)
  have "serve_buffer L powf envs addr ?c = Some (c1, Inr ())"
    by (subst serve_buffer.simps) (simp add: d c [simplified] assms(4) last)
  moreover have "snd (codec_decode (codec_more codec_new (cn_sent c1))) = Inr (Some response)"
    using codec_decode_whole [OF assms(6), of "codec_more codec_new (cn_sent c1)" "[]"] assms(5)
    by (simp add: codec_more_def codec_new_def)
  ultimately show ?thesis using assms(1,3,7) by (simp add: raop_exchange_def server_codec_feed_def)
qed

section \<open>Responses of the receiver\<close>

lemma response_builder_simps:
  "rb_status (response_header b k v) = rb_status b" "rb_body (response_header b k v) = rb_body b"
  "rb_status (response_builder_new n) = n" "rb_body (response_builder_new n) = None"
  "rb_headers (response_builder_new n) = []" "rb_headers (response_header b k v) = headers_insert (rb_headers b) k v"
  by (simp_all add: response_header_def response_builder_new_def)

text \<open>Headers of a response in progress: readable, and without a length.\<close>

definition answer_headers :: "headers \<Rightarrow> bool" where
  "answer_headers h \<longleftrightarrow> headers_ok h \<and> list_all header_ok h \<and> headers_get h CONTENT_LENGTH = None"

lemma answer_headers_Nil: "answer_headers []"
  by (simp add: answer_headers_def headers_get_def)

lemma answer_headers_insert:
  assumes "answer_headers h" and "line_value v"
    and "k \<in> {CSEQ, SESSION, TRANSPORT, ascii ''Public'', ascii ''Audio-Latency''}"
  shows "answer_headers (headers_insert h k v)"
proof -
  have "header_ok (k, v)"
    by (rule header_ok_value [OF assms(2)]) (use assms(3) in \<open>auto simp: graphic_def header_names ascii_def\<close>)
  moreover have "\<not> eq_ignore_ascii_case k CONTENT_LENGTH"
    using assms(3) by (auto simp: eq_ignore_ascii_case_def ascii_lower_def header_names ascii_def)
  ultimately show ?thesis
    using assms(1) by (simp add: answer_headers_def headers_ok_insert list_all_insert headers_get_insert)
qed

lemma answer_ok:
  assumes "answer_headers h"
  shows "response_ok \<lparr>rp_version = ascii ''RTSP/1.0'', rp_status = 200, rp_reason = status_reason 200, rp_headers = h, rp_body = []\<rparr>"
proof -
  have "graphic (ascii ''OK'')" "no_ws (ascii ''OK'')" by (simp_all add: graphic_no_ws graphic_def ascii_def)
  then have "reason_ok (status_reason 200)"
    by (simp add: status_reason_def reason_ok_def split_whitespace_word graphic_utf8, simp add: ascii_def split_whitespace_word)
  moreover have "graphic (ascii ''RTSP/1.0'')" by (simp add: graphic_def ascii_def)
  ultimately show ?thesis
    using assms by (simp add: response_ok_def answer_headers_def headers_content_length_def graphic_no_ws graphic_utf8)
qed

lemma response_200:
  "response_build \<lparr>rb_status = 200, rb_headers = h, rb_body = None\<rparr> =
     \<lparr>rp_version = ascii ''RTSP/1.0'', rp_status = 200, rp_reason = status_reason 200, rp_headers = h, rp_body = []\<rparr>"
  by (simp add: response_build_def)

definition answer :: "headers \<Rightarrow> rtsp_response" where
  "answer h = \<lparr>rp_version = ascii ''RTSP/1.0'', rp_status = 200, rp_reason = status_reason 200, rp_headers = h, rp_body = []\<rparr>"

lemma answer_build: "rb_status b = 200 \<Longrightarrow> rb_body b = None \<Longrightarrow> response_build b = answer (rb_headers b)"
  by (simp add: response_build_def answer_def)

lemma answer_simps: "rp_status (answer h) = 200" "rp_headers (answer h) = h" "status_is_success 200"
  by (simp_all add: answer_def status_is_success_def)

lemma to_response_header_value:
  "line_value (to_response_header (setup_transport c t) sp cp tp)"
proof (rule line_value_graphic)
  show "graphic (to_response_header (setup_transport c t) sp cp tp)"
    using dec_string_graphic by (simp add: to_response_header_def setup_transport_def RTP_AVP_def graphic_def) (simp add: ascii_def)
  show "length (to_response_header (setup_transport c t) sp cp tp) \<le> 4096"
    using dec_u16 [of sp] dec_u16 [of cp] dec_u16 [of tp]
    by (simp add: to_response_header_def setup_transport_def RTP_AVP_def ascii_def)
qed

section \<open>The four exchanges\<close>

text \<open>
  Where the two sides are between exchanges: the client's state and counter, the number of
  requests served, the state of the session and the ports it will be offered.
\<close>

definition handshake_at ::
    "port_allocator \<Rightarrow> nat \<Rightarrow> raop_state \<Rightarrow> session_state \<Rightarrow> raop_session \<times> connection \<Rightarrow> bool" where
  "handshake_at al n st cst w \<longleftrightarrow>
     raop_client_ok (fst w) \<and> unat (ro_cseq (fst w)) = n \<and> ro_state (fst w) = st
     \<and> cn_buffer (snd w) = [] \<and> cn_served (snd w) = n
     \<and> pred_option (\<lambda>rs. rs_state rs = cst) (sm_active_session (cn_manager (snd w)))
     \<and> sm_active_session (cn_manager (snd w)) \<noteq> None
     \<and> sm_port_allocator (cn_manager (snd w)) = al"

lemma built_challenge:
  assumes "built n i r" and "line_value v" and "k = APPLE_CHALLENGE \<or> k = RANGE_HEADER" and "n + 4120 \<le> m"
  shows "built m i (request_header r k v)"
proof (rule built_header [OF assms(1)])
  show "header_ok (k, v)"
    by (rule header_ok_value [OF assms(2)]) (use assms(3) in \<open>auto simp: graphic_def APPLE_CHALLENGE_def RANGE_HEADER_def ascii_def\<close>)
  show "\<not> eq_ignore_ascii_case k CONTENT_LENGTH" "\<not> eq_ignore_ascii_case k CSEQ"
    using assms(3)
    by (auto simp: eq_ignore_ascii_case_def ascii_lower_def header_names APPLE_CHALLENGE_def RANGE_HEADER_def ascii_def)
  have "length k \<le> 20" using assms(3) by (auto simp: APPLE_CHALLENGE_def RANGE_HEADER_def ascii_def)
  then show "n + (length k + length v + 4) \<le> m" using assms(2,4) by (simp add: line_value_def)
qed

lemma raop_request_issued:
  assumes "raop_client_ok s" and "unat (ro_cseq s) < 1000" and "graphic path" and "length path \<le> 100"
    and "\<And>b. built 4400 (unat (ro_cseq s + 1)) b \<Longrightarrow> built 17000 (unat (ro_cseq s + 1)) (f b)"
    and "\<And>b. rq_uri (f b) = rq_uri b \<and> rq_method (f b) = rq_method b" and "\<And>b. rq_body b = [] \<Longrightarrow> body_value (rq_body (f b))"
  shows "\<exists>r b. raop_request s m path f = Some (s\<lparr>ro_cseq := ro_cseq s + 1\<rparr>, r) \<and> raop_issued s r \<and> rq_method r = m
    \<and> r = f b \<and> rq_body b = [] \<and> headers_ok (rq_headers b)"
proof -
  let ?b = "raop_common_headers s (request_new m (raop_uri s path)) (ro_cseq s + 1)"
  have built: "built 4400 (unat (ro_cseq s + 1)) ?b" by (rule raop_common_headers_built [OF assms(1)])
  have "ro_cseq s \<noteq> 0xFFFFFFFF" using assms(2) by auto
  then have "raop_request s m path f = Some (s\<lparr>ro_cseq := ro_cseq s + 1\<rparr>, f ?b)"
    by (simp add: raop_request_def raop_builder_Some)
  moreover have "raop_issued s (f ?b)"
    by (rule raop_issuedI [OF assms(1) assms(5) [OF built] _ assms(3,4)]) (use assms(6,7) in simp_all)
  ultimately show ?thesis using assms(6) built by (auto simp: built_def)
qed

lemma cseq_next: "unat (n :: u32) < 1000 \<Longrightarrow> unat (n + 1) = Suc (unat n)"
  by (simp add: unat_plus_if' unat_less_u32)

lemma handle_request_cseq: "headers_cseq (rq_headers r) = Some (unat n) \<Longrightarrow> request_cseq_value r = n"
  by (simp add: request_cseq_value_def unwrap_or_def)

lemma raop_client_ok_update:
  "raop_client_ok s \<Longrightarrow> raop_client_ok (s\<lparr>ro_cseq := n\<rparr>)"
  "raop_client_ok s \<Longrightarrow> raop_client_ok (s\<lparr>ro_state := st\<rparr>)"
  "raop_client_ok s \<Longrightarrow> raop_client_ok (s\<lparr>ro_authenticator := a\<rparr>)"
  "raop_client_ok s \<Longrightarrow> raop_client_ok (s\<lparr>ro_transport := t\<rparr>)"
  by (simp_all add: raop_client_ok_def)

lemma status_headers: "answer_headers (headers_insert [] CSEQ (dec_string (unat (n :: u32))))"
  by (rule answer_headers_insert [OF answer_headers_Nil dec_u32(2)]) simp

lemma names_differ:
  "\<not> eq_ignore_ascii_case CSEQ SESSION" "\<not> eq_ignore_ascii_case (ascii ''Public'') SESSION"
  "\<not> eq_ignore_ascii_case (ascii ''Audio-Latency'') SESSION" "\<not> eq_ignore_ascii_case TRANSPORT SESSION"
  "eq_ignore_ascii_case SESSION SESSION" "eq_ignore_ascii_case TRANSPORT TRANSPORT"
  "\<not> eq_ignore_ascii_case SESSION TRANSPORT" "\<not> eq_ignore_ascii_case CSEQ AUDIO_LATENCY"
  "\<not> eq_ignore_ascii_case SESSION AUDIO_LATENCY" "\<not> eq_ignore_ascii_case TRANSPORT AUDIO_LATENCY"
  by (simp_all add: eq_ignore_ascii_case_def ascii_lower_def header_names AUDIO_LATENCY_def ascii_def)

lemma headers_get_Nil: "headers_get [] k = None"
  by (simp add: headers_get_def)

lemmas answer_lookup = headers_session_def headers_get_insert headers_ok_insert headers_get_Nil names_differ

lemma options_exchange:
  assumes "handshake_at al n st cst (s, c)" and "n < 1000" and "line_value (challenge_header R (ro_authenticator s))"
    and "qe_write_ok (envs n)"
  shows "\<exists>w. raop_exchange L powf envs addr (raop_options_request R) (s, c) = Some w
    \<and> handshake_at al (Suc n) RS_OptionsExchange cst w \<and> cn_manager (snd w) = cn_manager c"
proof -
  have ok: "raop_client_ok s" and n: "unat (ro_cseq s) = n" "cn_served c = n" and b: "cn_buffer c = []"
    using assms(1) by (simp_all add: handshake_at_def)
  obtain rs where rs: "sm_active_session (cn_manager c) = Some rs" using assms(1) by (auto simp: handshake_at_def)
  obtain r where r: "raop_options_request R s = Some (s\<lparr>ro_cseq := ro_cseq s + 1\<rparr>, r)" "raop_issued s r"
      "rq_method r = Method_Options"
    unfolding raop_options_request_def
    using raop_request_issued [OF ok, of "ascii ''*''" "\<lambda>r. request_header r APPLE_CHALLENGE (challenge_header R (ro_authenticator s))" Method_Options]
      n assms(2,3) by (auto simp: built_challenge body_value_def graphic_def ascii_def)
  let ?h = "headers_insert (headers_insert [] CSEQ (dec_string (unat (ro_cseq s + 1)))) (ascii ''Public'') PUBLIC_METHODS"
  have public: "line_value PUBLIC_METHODS"
    by (simp add: line_value_def PUBLIC_METHODS_def utf8_valid_ascii trimmed_def ws_len_def ws_rev_len_def ws_ascii_def
        ws_wide2_def ws_wide3_def ascii_def)
  have h: "answer_headers ?h" by (rule answer_headers_insert [OF status_headers public]) simp
  have res: "handle_request L powf (qe_random (envs n)) r rs None =
      Some (raop_plain_result (response_header (response_cseq (response_builder_new 200) (ro_cseq s + 1)) (ascii ''Public'') PUBLIC_METHODS))"
    using r by (simp add: handle_request_def raop_issued_def handle_request_cseq raop_handle_options_def Let_def)
  have serve: "serve_request L powf (envs (cn_served c)) addr (c\<lparr>cn_sent := [], cn_served := Suc (cn_served c)\<rparr>) r =
      Some (c\<lparr>cn_sent := encode_response (answer ?h), cn_served := Suc n\<rparr>, Conn_Continue)"
    by (subst serve_request_plain [OF _ res [folded n(2)]])
      (use rs assms(4) n in \<open>simp_all add: raop_plain_result_def apply_state_def answer_build response_cseq_def response_builder_simps\<close>)
  let ?s2 = "s\<lparr>ro_cseq := ro_cseq s + 1, ro_authenticator := auth_mark_sent (ro_authenticator s), ro_state := RS_OptionsExchange\<rparr>"
  have "raop_exchange L powf envs addr (raop_options_request R) (s, c) = Some (?s2, c\<lparr>cn_sent := encode_response (answer ?h), cn_served := Suc n\<rparr>)"
    by (rule raop_exchange_step [where call = "raop_options_request R" and envs = envs, OF r(1,2) b serve _ answer_ok [OF h, folded answer_def]])
      (simp_all add: r(3) raop_process_response_def answer_simps answer_lookup)
  moreover have "handshake_at al (Suc n) RS_OptionsExchange cst (?s2, c\<lparr>cn_sent := encode_response (answer ?h), cn_served := Suc n\<rparr>)"
    using assms(1,2) cseq_next [of "ro_cseq s"] by (simp add: handshake_at_def raop_client_ok_update)
  ultimately show ?thesis by auto
qed

lemma announce_exchange:
  assumes "handshake_at al n st Connected (s, c)" and "n < 1000" and "body_value sdp" and "qe_write_ok (envs n)"
    and "raop_process_announce L (request_body (request_new Method_Announce []) sdp) None = Some (Inr params)"
  shows "\<exists>w. raop_exchange L powf envs addr (\<lambda>s. raop_announce_request s sdp) (s, c) = Some w
    \<and> handshake_at al (Suc n) RS_Announcing Announced w"
proof -
  have ok: "raop_client_ok s" and n: "unat (ro_cseq s) = n" "cn_served c = n" and b: "cn_buffer c = []"
    using assms(1) by (simp_all add: handshake_at_def)
  obtain rs where rs: "sm_active_session (cn_manager c) = Some rs" "rs_state rs = Connected"
    using assms(1) by (auto simp: handshake_at_def)
  have f: "built 17000 i (request_body (request_header r CONTENT_TYPE (ascii ''application/sdp'')) sdp)" if "built 4400 i r" for i r
    using built_typed_body [OF that _ assms(3), of "ascii ''application/sdp''"] by (simp add: request_content_type_def)
  obtain r where r: "raop_announce_request s sdp = Some (s\<lparr>ro_cseq := ro_cseq s + 1\<rparr>, r)" "raop_issued s r"
      "rq_method r = Method_Announce" "rq_body r = sdp"
    unfolding raop_announce_request_def
    using raop_request_issued [OF ok, of "[]" "\<lambda>r. request_body (request_header r CONTENT_TYPE (ascii ''application/sdp'')) sdp" Method_Announce]
      n assms(2,3) f by (auto simp: graphic_def)
  let ?h = "headers_insert [] CSEQ (dec_string (unat (ro_cseq s + 1)))"
  have params: "raop_process_announce L r None = Some (Inr params)"
    using announce_body_only [of r "request_body (request_new Method_Announce []) sdp" L None] r(4) assms(5) by simp
  have res: "handle_request L powf (qe_random (envs n)) r rs None =
      Some ((raop_plain_result (response_cseq (response_builder_new 200) (ro_cseq s + 1)))\<lparr>hr_new_state := Some Announced, hr_stream_params := Some params\<rparr>)"
    using r rs(2) params by (simp add: handle_request_def raop_issued_def handle_request_cseq handle_announce_def Let_def)
  let ?c2 = "c\<lparr>cn_manager := fst (manager_update_state (qe_state_now (envs n)) (cn_manager c) Announced),
      cn_sent := encode_response (answer ?h), cn_served := Suc n\<rparr>"
  have serve: "serve_request L powf (envs (cn_served c)) addr (c\<lparr>cn_sent := [], cn_served := Suc (cn_served c)\<rparr>) r =
      Some (?c2, Conn_Continue)"
    by (subst serve_request_plain [OF _ res [folded n(2)]])
      (use rs assms(4) n in \<open>simp_all add: raop_plain_result_def apply_state_def answer_build response_cseq_def response_builder_simps\<close>)
  let ?s2 = "s\<lparr>ro_cseq := ro_cseq s + 1, ro_state := RS_Announcing\<rparr>"
  have "raop_exchange L powf envs addr (\<lambda>s. raop_announce_request s sdp) (s, c) = Some (?s2, ?c2)"
    by (rule raop_exchange_step [where call = "\<lambda>s. raop_announce_request s sdp" and envs = envs, OF r(1,2) b serve _
          answer_ok [OF status_headers, folded answer_def]])
      (simp_all add: r(3) raop_process_response_def answer_simps answer_lookup)
  moreover have "handshake_at al (Suc n) RS_Announcing Announced (?s2, ?c2)"
    using assms(1,2) cseq_next [of "ro_cseq s"] update_state_at [OF rs(1), of Announced "qe_state_now (envs n)"] rs(2)
    by (simp add: handshake_at_def raop_client_ok_update session_touch_def)
  ultimately show ?thesis by auto
qed

lemma client_transport_value: "line_value (raop_client_transport c t)"
proof (rule line_value_graphic)
  show "graphic (raop_client_transport c t)"
    using dec_string_graphic by (simp add: raop_client_transport_def graphic_def) (simp add: ascii_def)
  show "length (raop_client_transport c t) \<le> 4096"
    using dec_u16 [of c] dec_u16 [of t] by (simp add: raop_client_transport_def ascii_def)
qed

lemma session_id_plain: "server_session_id (hex16 r) = hex16 r"
proof -
  have "upper_hex k \<noteq> 59" if "k < 16" for k using upper_hex_cases [OF that] by (auto simp: ascii_def)
  from this [OF hex_nibble] have "59 \<notin> set (hex16 r)" by (fastforce simp: hex16_def)
  then show ?thesis by (simp add: server_session_id_def split_byte_plain)
qed

definition handshake_sockets :: "ports \<Rightarrow> u16 \<Rightarrow> u16 \<Rightarrow> socket_addr \<Rightarrow> session_sockets" where
  "handshake_sockets ps cport tport addr =
     \<lparr>ss_audio_port = fst ps, ss_control_port = fst (snd ps), ss_timing_port = snd (snd ps),
      ss_client_control_port = Some cport, ss_client_timing_port = Some tport, ss_client_addr = Some addr\<rparr>"

definition handshake_transport :: "ports \<Rightarrow> raop_transport" where
  "handshake_transport ps =
     \<lparr>rt_server_port = fst ps, rt_control_port = fst (snd ps), rt_timing_port = snd (snd ps),
      rt_client_control_port = 0, rt_client_timing_port = 0\<rparr>"

definition connected_through :: "ports \<Rightarrow> u16 \<Rightarrow> u16 \<Rightarrow> socket_addr \<Rightarrow> str \<Rightarrow> raop_session \<times> connection \<Rightarrow> bool" where
  "connected_through ps cport tport addr i w \<longleftrightarrow>
     ro_transport (fst w) = Some (handshake_transport ps) \<and> ro_session_id (fst w) = Some i
     \<and> pred_option (\<lambda>rs. rs_sockets rs = Some (handshake_sockets ps cport tport addr)) (sm_active_session (cn_manager (snd w)))"

lemma setup_exchange:
  assumes "handshake_at (sm_port_allocator m0) n st Announced (s, c)" and "n < 1000" and "qe_write_ok (envs n)"
    and "manager_allocate_sockets (qe_bind (envs n)) m0 = Some (m1, Some ps)" and "fst ps \<noteq> 0"
  shows "\<exists>w al. raop_exchange L powf envs addr (\<lambda>s. raop_setup_request s cport tport) (s, c) = Some w
    \<and> handshake_at al (Suc n) RS_SettingUp Setup w \<and> connected_through ps cport tport addr (hex16 (qe_random (envs n))) w"
proof -
  have ok: "raop_client_ok s" and n: "unat (ro_cseq s) = n" "cn_served c = n" and b: "cn_buffer c = []"
    using assms(1) by (simp_all add: handshake_at_def)
  obtain rs where rs: "sm_active_session (cn_manager c) = Some rs" "rs_state rs = Announced"
    using assms(1) by (auto simp: handshake_at_def)
  obtain ap cp tp where ps: "ps = (ap, cp, tp)" by (cases ps)
  let ?env = "envs n" and ?i = "hex16 (qe_random (envs n))"
  have f: "built 17000 k (request_header b TRANSPORT (raop_client_transport cport tport))" if "built 4400 k b" for k b
    by (rule built_extra_header [OF that client_transport_value]) simp_all
  obtain r0 r where r: "raop_setup_request s cport tport = Some (s\<lparr>ro_cseq := ro_cseq s + 1\<rparr>, r)" "raop_issued s r"
      "rq_method r = Method_Setup" "r = request_header r0 TRANSPORT (raop_client_transport cport tport)" "headers_ok (rq_headers r0)"
    unfolding raop_setup_request_def
    using raop_request_issued [OF ok, of "[]" "\<lambda>r. request_header r TRANSPORT (raop_client_transport cport tport)" Method_Setup]
      n assms(2) f by (auto simp: graphic_def body_value_def)
  have t: "headers_get (rq_headers r) TRANSPORT = Some (raop_client_transport cport tport)"
    using r(4,5) by (simp add: request_header_def headers_get_insert names_differ)
  obtain m2 where m2: "manager_allocate_sockets (qe_bind ?env) (cn_manager c) = Some (m2, Some ps)" "sm_active_session m2 = Some rs"
    using allocate_ports_only [OF assms(4), of "cn_manager c"] assms(1) rs by (auto simp: handshake_at_def)
  let ?h0 = "headers_insert (headers_insert [] CSEQ (dec_string (unat (ro_cseq s + 1)))) SESSION ?i"
  let ?t0 = "to_response_header (setup_transport cport tport) 0 0 0"
  let ?h = "headers_insert (headers_insert ?h0 TRANSPORT ?t0) TRANSPORT (to_response_header (setup_transport cport tport) ap cp tp)"
  have h: "answer_headers ?h"
    by (intro answer_headers_insert status_headers to_response_header_value line_value_graphic hex16_graphic) simp_all
  let ?q = "\<lparr>alp_audio_port = 0, alp_control_port = 0, alp_timing_port = 0, alp_client_control_port = Some cport,
      alp_client_timing_port = Some tport\<rparr>"
  let ?result = "(raop_plain_result (response_header (response_session (response_cseq (response_builder_new 200) (ro_cseq s + 1)) ?i)
      TRANSPORT ?t0))\<lparr>hr_new_state := Some Setup, hr_allocated_ports := Some ?q\<rparr>"
  have res: "handle_request L powf (qe_random ?env) r rs None = Some ?result"
    using r(2,3) by (simp add: handle_request_def raop_issued_def handle_request_cseq handle_setup_def t client_transport_parsed Let_def)
      (simp add: setup_transport_def)
  define rs3 where "rs3 = session_set_sockets (qe_sockets_now ?env) rs (handshake_sockets ps cport tport addr)"
  define m3 where "m3 = m2\<lparr>sm_active_session := Some rs3\<rparr>"
  have ports: "handle_setup_ports ?env addr ?q r (hr_response ?result) (cn_manager c) = Some (m3, Inr (answer ?h))"
    by (simp add: handle_setup_ports_def m2 ps manager_with_session_def m3_def rs3_def handshake_sockets_def setup_sockets_def
        transport_answer_def t client_transport_parsed raop_plain_result_def response_session_def response_cseq_def response_build_def
        response_builder_simps answer_def)
  let ?c2 = "c\<lparr>cn_manager := fst (manager_update_state (qe_state_now ?env) m3 Setup),
      cn_sent := encode_response (answer ?h), cn_served := Suc n\<rparr>"
  have serve: "serve_request L powf (envs (cn_served c)) addr (c\<lparr>cn_sent := [], cn_served := Suc (cn_served c)\<rparr>) r =
      Some (?c2, Conn_Continue)"
    using serve_request_setup [OF _ res, of "c\<lparr>cn_sent := [], cn_served := Suc n\<rparr>" ?q addr m3 "answer ?h"] ports rs(1) assms(3)
    by (simp add: n(2) raop_plain_result_def apply_state_def)
  let ?s2 = "s\<lparr>ro_cseq := ro_cseq s + 1, ro_session_id := Some ?i, ro_transport := Some (handshake_transport ps), ro_state := RS_SettingUp\<rparr>"
  have "raop_exchange L powf envs addr (\<lambda>s. raop_setup_request s cport tport) (s, c) = Some (?s2, ?c2)"
    by (rule raop_exchange_step [where call = "\<lambda>s. raop_setup_request s cport tport" and envs = envs, OF r(1,2) b serve _
          answer_ok [OF h, folded answer_def]])
      (use assms(5) in \<open>simp_all add: r(3) raop_process_response_def answer_simps answer_lookup session_id_plain raop_setup_response_def
        server_transport_parsed ps handshake_transport_def\<close>)
  moreover have "sm_active_session m3 = Some rs3" "rs_state rs3 = Announced"
    "rs_sockets rs3 = Some (handshake_sockets ps cport tport addr)"
    using rs(2) by (simp_all add: m3_def rs3_def session_set_sockets_def session_touch_def)
  then have "handshake_at (sm_port_allocator m3) (Suc n) RS_SettingUp Setup (?s2, ?c2) \<and> connected_through ps cport tport addr ?i (?s2, ?c2)"
    using assms(1,2) cseq_next [of "ro_cseq s"] update_state_at [of m3 rs3 Setup "qe_state_now ?env"]
    by (simp add: handshake_at_def connected_through_def session_touch_def)
      (simp add: raop_client_ok_def line_value_graphic hex16_graphic)
  ultimately show ?thesis by blast
qed

lemma record_exchange:
  assumes "handshake_at al n st Setup (s, c)" and "n < 1000" and "qe_write_ok (envs n)"
    and "connected_through ps cport tport addr i (s, c)"
  shows "\<exists>w. raop_exchange L powf envs addr (\<lambda>s. raop_record_request s sq ts) (s, c) = Some w
    \<and> handshake_at al (Suc n) RS_Recording Streaming w \<and> connected_through ps cport tport addr i w"
proof -
  have ok: "raop_client_ok s" and n: "unat (ro_cseq s) = n" "cn_served c = n" and b: "cn_buffer c = []"
    using assms(1) by (simp_all add: handshake_at_def)
  obtain rs where rs: "sm_active_session (cn_manager c) = Some rs" "rs_state rs = Setup"
    using assms(1) by (auto simp: handshake_at_def)
  have npt: "line_value (ascii ''npt=0-'')" by (simp add: line_value_graphic graphic_def ascii_def)
  let ?f = "\<lambda>r. request_header (request_header r RANGE_HEADER (ascii ''npt=0-'')) RTP_INFO (rtp_info sq ts)"
  have f: "built 17000 k (?f r)" if "built 4400 k r" for k r
    by (rule built_extra_header [OF built_challenge [OF that npt, where m = 8600]]) simp_all
  obtain r where r: "raop_record_request s sq ts = Some (s\<lparr>ro_cseq := ro_cseq s + 1\<rparr>, r)" "raop_issued s r"
      "rq_method r = Method_Record"
    unfolding raop_record_request_def
    using raop_request_issued [OF ok, of "[]" ?f Method_Record] n assms(2) f by (auto simp: graphic_def body_value_def)
  let ?h = "headers_insert (headers_insert [] CSEQ (dec_string (unat (ro_cseq s + 1)))) (ascii ''Audio-Latency'') (dec_string (unat (88200 :: u32)))"
  have h: "answer_headers ?h" by (rule answer_headers_insert [OF status_headers dec_u32(2)]) simp
  have res: "handle_request L powf (qe_random (envs n)) r rs None =
      Some ((raop_plain_result (response_audio_latency (response_cseq (response_builder_new 200) (ro_cseq s + 1)) 88200))
        \<lparr>hr_new_state := Some Streaming, hr_start_streaming := True\<rparr>)"
    using r rs(2) by (simp add: handle_request_def raop_issued_def handle_request_cseq handle_record_def Let_def)
  let ?c2 = "c\<lparr>cn_manager := fst (manager_update_state (qe_state_now (envs n)) (cn_manager c) Streaming),
      cn_events := cn_events c @ [RE_PlaybackStarted], cn_sent := encode_response (answer ?h), cn_served := Suc n\<rparr>"
  have serve: "serve_request L powf (envs (cn_served c)) addr (c\<lparr>cn_sent := [], cn_served := Suc (cn_served c)\<rparr>) r =
      Some (?c2, Conn_Continue)"
    by (subst serve_request_plain [OF _ res [folded n(2)]])
      (use rs assms(3) n in \<open>simp_all add: raop_plain_result_def apply_state_def cn_send_def answer_build response_cseq_def
        response_audio_latency_def response_builder_simps\<close>)
  let ?s2 = "s\<lparr>ro_cseq := ro_cseq s + 1, ro_state := RS_Recording\<rparr>"
  have "raop_exchange L powf envs addr (\<lambda>s. raop_record_request s sq ts) (s, c) = Some (?s2, ?c2)"
    by (rule raop_exchange_step [where call = "\<lambda>s. raop_record_request s sq ts" and envs = envs, OF r(1,2) b serve _
          answer_ok [OF h, folded answer_def]])
      (simp_all add: r(3) raop_process_response_def answer_simps answer_lookup)
  moreover have "handshake_at al (Suc n) RS_Recording Streaming (?s2, ?c2) \<and> connected_through ps cport tport addr i (?s2, ?c2)"
    using assms(1,2,4) cseq_next [of "ro_cseq s"] update_state_at [OF rs(1), of Streaming "qe_state_now (envs n)"] rs
    by (simp add: handshake_at_def connected_through_def raop_client_ok_update session_touch_def)
  ultimately show ?thesis by blast
qed

definition raop_handshake ::
    "'k announce_lib \<Rightarrow> (f32 \<Rightarrow> f32 \<Rightarrow> f32) \<Rightarrow> (nat \<Rightarrow> request_env) \<Rightarrow> socket_addr \<Rightarrow> ('pk, 'sk) rsa_lib \<Rightarrow> str \<Rightarrow>
     u16 \<Rightarrow> u16 \<Rightarrow> u16 \<Rightarrow> u32 \<Rightarrow> raop_session \<times> connection \<Rightarrow> (raop_session \<times> connection) option" where
  "raop_handshake L powf envs addr R sdp cport tport sq ts w =
     Option.bind (raop_exchange L powf envs addr (raop_options_request R) w) (\<lambda>w.
     Option.bind (raop_exchange L powf envs addr (\<lambda>s. raop_announce_request s sdp) w) (\<lambda>w.
     Option.bind (raop_exchange L powf envs addr (\<lambda>s. raop_setup_request s cport tport) w) (\<lambda>w.
     raop_exchange L powf envs addr (\<lambda>s. raop_record_request s sq ts) w)))"

lemma handshake_start:
  assumes "graphic host" and "length host \<le> 255"
  shows "handshake_at (sm_port_allocator (manager_new config)) 0 RS_Init Connected
    (raop_session_new i d r ch host port, fst (connection_open random now (manager_new config) addr))"
  using raop_session_new_ok [OF assms]
  by (simp add: handshake_at_def connection_open_def manager_start_session_def start_session_take_def start_session_cleanup_def
      start_session_install_def manager_new_def manager_send_def session_new_def Let_def)
    (simp add: raop_session_new_def)

section \<open>Properties\<close>

text \<open>
  C14. A RAOP client can play without encryption on this receiver. Take any description that the parser reads back and whose
  audio section announces Apple Lossless as the client does, but no keys, in any
  order and with any other attributes. When the receiver can bind ports and write its responses, the
  exchanges OPTIONS, ANNOUNCE, SETUP and RECORD take a new client session to recording and the
  receiver's session from its start to streaming. The client then sends to the
  ports that the receiver bound, the receiver knows the client's address and ports, and both have the session
  identifier of the SETUP response. The announcement with keys that the client prepares itself does not get
  that far: the receiver refuses it.
\<close>

theorem raop_handshake_streams:
  assumes "graphic host" and "length host \<le> 255" and "line_value (rl_base64_encode R ch)"
    and "sdp_ok sdp" and "audio_media sdp = Some media" and "plain_alac media" and "body_value (encode_sdp sdp)"
    and "manager_allocate_sockets (qe_bind (envs 2)) (manager_new config) = Some (m1, Some ps)" and "fst ps \<noteq> 0"
    and "\<And>k. qe_write_ok (envs k)"
  shows "\<exists>s c rs. raop_handshake L powf envs addr R (encode_sdp sdp) cport tport sq ts
      (raop_session_new i d r ch host port, fst (connection_open random now (manager_new config) addr)) = Some (s, c)
    \<and> ro_state s = RS_Recording \<and> ro_transport s = Some (handshake_transport ps)
    \<and> ro_session_id s = Some (hex16 (qe_random (envs 2)))
    \<and> sm_active_session (cn_manager c) = Some rs \<and> rs_state rs = Streaming
    \<and> rs_sockets rs = Some (handshake_sockets ps cport tport addr)"
proof -
  let ?s = "raop_session_new i d r ch host port" and ?c = "fst (connection_open random now (manager_new config) addr)"
  have ch: "line_value (challenge_header R (ro_authenticator ?s))"
    using assms(3) by (simp add: challenge_header_def raop_session_new_def raop_authenticator_new_def)
  have start: "handshake_at (sm_port_allocator (manager_new config)) 0 RS_Init Connected (?s, ?c)"
    by (rule handshake_start [OF assms(1,2)])
  obtain s1 c1 where w1: "raop_exchange L powf envs addr (raop_options_request R) (?s, ?c) = Some (s1, c1)"
      "handshake_at (sm_port_allocator (manager_new config)) (Suc 0) RS_OptionsExchange Connected (s1, c1)"
    using options_exchange [where envs = envs and L = L and powf = powf and addr = addr, OF start _ ch assms(10)] by auto
  obtain params where accepted:
      "raop_process_announce L (request_body (request_new Method_Announce []) (encode_sdp sdp)) None = Some (Inr params)"
    using plain_announce_accepted [OF assms(4-6), of "request_body (request_new Method_Announce []) (encode_sdp sdp)" L None] by auto
  obtain s2 c2 where w2: "raop_exchange L powf envs addr (\<lambda>s. raop_announce_request s (encode_sdp sdp)) (s1, c1) = Some (s2, c2)"
      "handshake_at (sm_port_allocator (manager_new config)) 2 RS_Announcing Announced (s2, c2)"
    using announce_exchange [where envs = envs and powf = powf and addr = addr, OF w1(2) _ assms(7,10) accepted] by (auto simp: numeral_2_eq_2)
  obtain s3 c3 al where w3: "raop_exchange L powf envs addr (\<lambda>s. raop_setup_request s cport tport) (s2, c2) = Some (s3, c3)"
      "handshake_at al 3 RS_SettingUp Setup (s3, c3)" "connected_through ps cport tport addr (hex16 (qe_random (envs 2))) (s3, c3)"
    using setup_exchange [where envs = envs and L = L and powf = powf and addr = addr and cport = cport and tport = tport,
        OF w2(2) _ assms(10,8,9)] by (auto simp: numeral_3_eq_3)
  obtain w4 where w4: "raop_exchange L powf envs addr (\<lambda>s. raop_record_request s sq ts) (s3, c3) = Some w4"
      "handshake_at al 4 RS_Recording Streaming w4" "connected_through ps cport tport addr (hex16 (qe_random (envs 2))) w4"
    using record_exchange [where envs = envs and L = L and powf = powf and sq = sq and ts = ts, OF w3(2) _ assms(10) w3(3)] by auto
  have "raop_handshake L powf envs addr R (encode_sdp sdp) cport tport sq ts (?s, ?c) = Some w4"
    by (simp add: raop_handshake_def w1(1) w2(1) w3(1) w4(1))
  then show ?thesis using w4(2,3) by (cases w4) (auto simp: handshake_at_def connected_through_def)
qed

lemma demo_announce_size: "body_value demo_announce_body"
  by (simp add: body_value_def MAX_BODY_SIZE_def demo_announce_body_def demo_announce_description_def demo_plain_attributes_def encode_sdp_def announce_order_def raop_announce_description_def
      sdp_builder_new_def sdp_with_origin_def sdp_with_session_name_def
      sdp_with_connection_def sdp_with_timing_def sdp_with_media_def sdp_with_media_attribute_def sdp_build_def
      close_media_def attributes_insert_def announce_media_def announce_attributes_def sdp_default_def Let_def ascii_def
      origin_line_def connection_line_def timing_line_def media_lines_def attribute_line_def line_block_def crlf_def address_type_def
      dec_string.simps)

theorem raop_handshake_streams_witness:
  "\<exists>s c rs. raop_handshake demo_announce_lib (\<lambda>_ x. x) demo_envs (SocketV4 0x0A000003 9) demo_rsa_lib demo_announce_body 6001 6002 1 2
      (raop_session_new 1 2 3 (replicate 16 0) (ascii ''10.0.0.2'') 5000,
       fst (connection_open 5 0 (manager_new session_manager_config_default) (SocketV4 0x0A000003 9))) = Some (s, c)
    \<and> ro_state s = RS_Recording \<and> ro_transport s = Some (handshake_transport (6000, 6001, 6002))
    \<and> ro_session_id s = Some (hex16 (qe_random (demo_envs 2)))
    \<and> sm_active_session (cn_manager c) = Some rs \<and> rs_state rs = Streaming
    \<and> rs_sockets rs = Some (handshake_sockets (6000, 6001, 6002) 6001 6002 (SocketV4 0x0A000003 9))"
proof -
  obtain m where m: "manager_allocate_sockets (qe_bind (demo_envs 2)) (manager_new session_manager_config_default) = Some (m, Some (6000, 6001, 6002))"
    using demo_allocate by blast
  show ?thesis unfolding demo_announce_body_def
  proof (rule raop_handshake_streams [where envs = demo_envs and ps = "(6000, 6001, 6002)", OF _ _ _ demo_announce_plain _ m])
    show "line_value (rl_base64_encode demo_rsa_lib (replicate 16 0))"
      by (rule line_value_graphic) (simp_all add: demo_rsa_lib_def graphic_def list_all_iff)
  qed (use demo_announce_size in \<open>simp_all add: graphic_def ascii_def demo_envs_def demo_announce_body_def\<close>)
qed

text \<open>
  C27. The receiver refuses the announcement that the client of the same library prepares. The client writes
  its encrypted key and its vector in Base64 without padding; the receiver's decoder, like any that requires padding,
  rejects texts whose length is not a multiple of four, and the vector of 16 bytes takes 22 characters. So
  for every key, vector and random source, and in whatever order the hash map lists the attributes, the
  ANNOUNCE of a client is answered with 400 Bad Request, the receiver's session stays where it was, and the
  client's session reports an error and stays where it was.
\<close>

theorem raop_client_announce_refused:
  assumes "raop_client_ok s" and "ro_server_addr s \<noteq> []"
    and "raop_prepare_announce R s aes_key aes_iv random = (s1, Inr prepared)" and "ro_session_keys s1 = Some keys"
    and "length aes_iv = 16" and "unpadded_base64 R (rk_encrypted_key keys)" and "unpadded_base64 R aes_iv"
    and "\<And>t. length t mod 4 \<noteq> 0 \<Longrightarrow> al_base64_decode L t = None"
    and "mset as = mset (announce_attributes (keys_rsaaeskey R keys) (keys_aesiv R keys))"
    and "sdp = announce_order (raop_announce_description (ro_client_instance s) (ascii ''0.0.0.0'') (ro_server_addr s)
           (keys_rsaaeskey R keys) (keys_aesiv R keys)) as"
    and "raop_announce_request s1 (encode_sdp sdp) = Some (s2, request)"
    and "sm_active_session (cn_manager c) = Some rs" and "rs_state rs = Connected" and "qe_write_ok env"
  shows "(as = announce_attributes (keys_rsaaeskey R keys) (keys_aesiv R keys) \<longrightarrow> encode_sdp sdp = prepared)
    \<and> (\<exists>response e. serve_request L powf env addr c request =
          Some (c\<lparr>cn_sent := cn_sent c @ encode_response response\<rparr>, Conn_Continue)
        \<and> rp_status response = 400 \<and> raop_process_response s2 (rq_method request) response = (s2, Inl e))
    \<and> ro_state s2 = ro_state s"
proof -
  have keys: "s1 = s\<lparr>ro_session_keys := Some keys\<rparr>" "rk_aes_iv keys = aes_iv"
      "prepared = create_raop_announce_sdp (ro_client_instance s) (ascii ''0.0.0.0'') (ro_server_addr s)
        (keys_rsaaeskey R keys) (keys_aesiv R keys)"
    using assms(3,4) by (auto simp: raop_prepare_announce_def session_keys_generate_def split: sum.splits)
  have w: "word_ok (ro_client_instance s)" "word_ok (ro_server_addr s)"
    using assms(1,2) word_ok_hex16 by (auto simp: raop_client_ok_def intro: word_ok_graphic)
  obtain b where b: "raop_builder s1 Method_Announce [] = Some (s2, b)"
      "request = request_body (request_header b CONTENT_TYPE (ascii ''application/sdp'')) (encode_sdp sdp)"
    using assms(11) by (auto simp: raop_announce_request_def raop_request_def)
  have m: "rq_method request = Method_Announce" "rq_body request = encode_sdp sdp"
    using raop_builder_ok [OF b(1)] by (simp_all add: b(2))
  obtain e where refused: "raop_process_announce L request None = Some (Inl e)"
    using client_keys_rejected [OF w assms(6) _ _ assms(8,9), of request None] assms(5,7,10) keys(2) m(2) by auto
  define result where "result = raop_error_result 400 (request_cseq_value request)"
  have res: "handle_request L powf (qe_random env) request rs None = Some result"
    using refused m(1) assms(13) by (simp add: handle_request_def handle_announce_def result_def Let_def)
  have "serve_request L powf env addr c request =
      Some (c\<lparr>cn_sent := cn_sent c @ encode_response (hr_response result)\<rparr>, Conn_Continue)"
    by (subst serve_request_plain [OF assms(12) res])
      (simp_all add: result_def raop_error_result_def raop_plain_result_def apply_state_def assms(14))
  moreover have "rp_status (hr_response result) = 400"
    by (simp add: result_def raop_error_result_def raop_plain_result_def response_cseq_def response_build_def response_builder_simps)
  moreover from this have "raop_process_response s2 (rq_method request) (hr_response result) = (s2, Inl (failure_text (rq_method request) (hr_response result)))"
    by (simp add: raop_process_response_def status_is_success_def)
  moreover have "ro_state s2 = ro_state s"
    using b(1) keys(1) by (auto simp: raop_builder_def raop_next_cseq_def Let_def split: if_splits)
  moreover have "encode_sdp sdp = prepared" if "as = announce_attributes (keys_rsaaeskey R keys) (keys_aesiv R keys)"
    by (simp add: assms(10) that announce_order_same keys(3) create_raop_announce_sdp_def)
  ultimately show ?thesis by blast
qed

theorem raop_client_announce_refused_witness:
  "\<exists>(s1 :: raop_session) prepared s2 request response e.
     raop_prepare_announce demo_rsa_lib demo_raop_session (replicate 16 7) (replicate 16 3) 0 = (s1, Inr prepared)
     \<and> raop_announce_request s1 prepared = Some (s2, request)
     \<and> map_option snd (serve_request demo_announce_lib (\<lambda>_ x. x) (demo_envs 0) (SocketV4 1 1)
         (fst (connection_open 5 0 (manager_new session_manager_config_default) (SocketV4 1 1))) request) = Some Conn_Continue
     \<and> rp_status response = 400 \<and> raop_process_response s2 (rq_method request) response = (s2, Inl e)"
proof -
  let ?c = "fst (connection_open 5 0 (manager_new session_manager_config_default) (SocketV4 1 1))"
  let ?as = "announce_attributes (keys_rsaaeskey demo_rsa_lib demo_keys) (keys_aesiv demo_rsa_lib demo_keys)"
  let ?sdp = "announce_order (raop_announce_description (ro_client_instance demo_raop_session) (ascii ''0.0.0.0'')
      (ro_server_addr demo_raop_session) (keys_rsaaeskey demo_rsa_lib demo_keys) (keys_aesiv demo_rsa_lib demo_keys)) ?as"
  let ?s1 = "demo_raop_session\<lparr>ro_session_keys := Some demo_keys\<rparr>"
  obtain prepared where p: "raop_prepare_announce demo_rsa_lib demo_raop_session (replicate 16 7) (replicate 16 3) 0 = (?s1, Inr prepared)"
    by (simp add: raop_prepare_announce_def demo_keys_generated)
  obtain s2 request where r: "raop_announce_request ?s1 (encode_sdp ?sdp) = Some (s2, request)"
    by (auto simp: raop_announce_request_def raop_request_def raop_builder_def raop_next_cseq_def demo_raop_session_def
        raop_session_new_def Let_def)
  have ok: "raop_client_ok demo_raop_session" "ro_server_addr demo_raop_session \<noteq> []" unfolding demo_raop_session_def
    by (rule raop_session_new_ok) (simp_all add: raop_session_new_def graphic_def ascii_def)
  have c: "sm_active_session (cn_manager ?c) = Some (session_new 5 0 (SocketV4 1 1))"
    by (rule open_fresh(2) [OF _ prod.collapse [symmetric]]) (simp add: manager_new_def)
  have "(?as = ?as \<longrightarrow> encode_sdp ?sdp = prepared)
    \<and> (\<exists>response e. serve_request demo_announce_lib (\<lambda>_ x. x) (demo_envs 0) (SocketV4 1 1) ?c request =
          Some (?c\<lparr>cn_sent := cn_sent ?c @ encode_response response\<rparr>, Conn_Continue)
        \<and> rp_status response = 400 \<and> raop_process_response s2 (rq_method request) response = (s2, Inl e))
    \<and> ro_state s2 = ro_state demo_raop_session"
    by (rule raop_client_announce_refused [OF ok p _ _ demo_base64(2,1) _ refl refl r c])
      (simp_all add: demo_announce_lib_def session_new_def demo_envs_def)
  then show ?thesis using p r by fastforce
qed

end
