(* ===== verification/Async_Io.thy ===== *)
theory Async_Io
  imports Rust_Text
begin

text \<open>
  Asynchronous calls and connections of the client: the outcome of an \<open>async fn\<close> (it returns, it
  still waits at an \<open>await\<close>, or it panics), the combinators for \<open>.await\<close> and \<open>.await?\<close>, and the
  stream reader and writer of \<open>src/net/traits.rs\<close> over a TCP connection. What the network does is
  part of the connection: the arrivals still to come, in the pieces in which they arrive, and the
  number of bytes that the system accepts at each write. A read with no arrival left waits; what
  a timeout then sees is the state at that point. A write does not wait: the system accepts some bytes or
  fails, and a peer that stops reading is not modelled.
\<close>

section \<open>Outcomes\<close>

datatype ('s, 'a) call_outcome = Returned 's 'a | Waiting 's | Panicked

definition await :: "('s \<Rightarrow> ('s, 'a) call_outcome) \<Rightarrow> ('a \<Rightarrow> 's \<Rightarrow> ('s, 'b) call_outcome) \<Rightarrow> 's \<Rightarrow> ('s, 'b) call_outcome" where
  "await m f s = (case m s of Returned s' a \<Rightarrow> f a s' | Waiting s' \<Rightarrow> Waiting s' | Panicked \<Rightarrow> Panicked)"

text \<open>\<open>Ok\<close>, \<open>Err\<close> and the operator \<open>?\<close>.\<close>

definition ok_val :: "'a \<Rightarrow> 's \<Rightarrow> ('s, ('e, 'a) result) call_outcome" where
  "ok_val a s = Returned s (Inr a)"

definition err_val :: "'e \<Rightarrow> 's \<Rightarrow> ('s, ('e, 'a) result) call_outcome" where
  "err_val e s = Returned s (Inl e)"

definition await_ok :: "('s \<Rightarrow> ('s, ('e, 'a) result) call_outcome) \<Rightarrow> ('a \<Rightarrow> 's \<Rightarrow> ('s, ('e, 'b) result) call_outcome)
    \<Rightarrow> 's \<Rightarrow> ('s, ('e, 'b) result) call_outcome" where
  "await_ok m f = await m (\<lambda>r. case r of Inl e \<Rightarrow> err_val e | Inr a \<Rightarrow> f a)"

definition from_result :: "('e, 'a) result \<Rightarrow> 's \<Rightarrow> ('s, ('e, 'a) result) call_outcome" where
  "from_result r s = Returned s r"

definition no_panic :: "'a option \<Rightarrow> ('a \<Rightarrow> 's \<Rightarrow> ('s, 'b) call_outcome) \<Rightarrow> 's \<Rightarrow> ('s, 'b) call_outcome" where
  "no_panic r f s = (case r of None \<Rightarrow> Panicked | Some a \<Rightarrow> f a s)"

text \<open>The state in which a call stops, and \<open>timeout\<close>, which cancels a call that waits.\<close>

fun left_in :: "('s, 'a) call_outcome \<Rightarrow> 's option" where
  "left_in (Returned s _) = Some s"
| "left_in (Waiting s) = Some s"
| "left_in Panicked = None"

definition timeout :: "('s \<Rightarrow> ('s, 'a) call_outcome) \<Rightarrow> 's \<Rightarrow> ('s, 'a option) call_outcome" where
  "timeout m s = (case m s of Returned s' a \<Rightarrow> Returned s' (Some a) | Waiting s' \<Rightarrow> Returned s' None | Panicked \<Rightarrow> Panicked)"

lemma await_simps [simp]:
  "m s = Returned s' a \<Longrightarrow> await m f s = f a s'"
  "m s = Waiting s' \<Longrightarrow> await m f s = Waiting s'"
  "m s = Panicked \<Longrightarrow> await m f s = Panicked"
  by (simp_all add: await_def)

lemma await_ok_simps [simp]:
  "m s = Returned s' (Inr a) \<Longrightarrow> await_ok m f s = f a s'"
  "m s = Returned s' (Inl e) \<Longrightarrow> await_ok m f s = Returned s' (Inl e)"
  "m s = Waiting s' \<Longrightarrow> await_ok m f s = Waiting s'"
  "m s = Panicked \<Longrightarrow> await_ok m f s = Panicked"
  by (simp_all add: await_ok_def err_val_def)

lemma await_Returned:
  assumes "await m f s = Returned s2 b"
  obtains s1 a where "m s = Returned s1 a" and "f a s1 = Returned s2 b"
  using assms by (auto simp: await_def split: call_outcome.splits)

lemma await_ok_Inr:
  assumes "await_ok m f s = Returned s2 (Inr b)"
  obtains s1 a where "m s = Returned s1 (Inr a)" and "f a s1 = Returned s2 (Inr b)"
  using assms by (auto simp: await_ok_def await_def err_val_def split: call_outcome.splits sum.splits)

text \<open>A property of the states that every step keeps holds wherever a composed call stops.\<close>

definition keeps :: "('s \<Rightarrow> bool) \<Rightarrow> ('s \<Rightarrow> ('s, 'a) call_outcome) \<Rightarrow> bool" where
  "keeps P m \<longleftrightarrow> (\<forall>s s'. P s \<longrightarrow> left_in (m s) = Some s' \<longrightarrow> P s')"

named_theorems keeps_rules

lemma keepsD: "keeps P m \<Longrightarrow> P s \<Longrightarrow> left_in (m s) = Some s' \<Longrightarrow> P s'"
  unfolding keeps_def by blast

lemma keeps_await [keeps_rules]:
  assumes "keeps P m" and "\<And>a. keeps P (f a)"
  shows "keeps P (await m f)"
  unfolding keeps_def
proof (intro allI impI)
  fix s s'
  assume s: "P s" and stop: "left_in (await m f s) = Some s'"
  show "P s'"
  proof (cases "m s")
    case (Returned s1 a)
    have "P s1" by (rule keepsD [OF assms(1) s]) (simp add: Returned)
    then show ?thesis by (rule keepsD [OF assms(2)]) (use stop Returned in \<open>simp add: await_def\<close>)
  next
    case (Waiting s1)
    have "P s1" by (rule keepsD [OF assms(1) s]) (simp add: Waiting)
    with stop Waiting show ?thesis by (simp add: await_def)
  next
    case Panicked
    with stop show ?thesis by (simp add: await_def)
  qed
qed

lemma keeps_pure [keeps_rules]:
  "keeps P (ok_val a)" "keeps P (err_val e)" "keeps P (from_result r)"
  by (simp_all add: keeps_def ok_val_def err_val_def from_result_def)

lemma keeps_await_ok [keeps_rules]:
  assumes "keeps P m" and "\<And>a. keeps P (f a)"
  shows "keeps P (await_ok m f)"
  unfolding await_ok_def
  by (rule keeps_await [OF assms(1)]) (simp split: sum.split add: assms(2) keeps_pure)

lemma keeps_no_panic [keeps_rules]:
  "(\<And>a. keeps P (f a)) \<Longrightarrow> keeps P (no_panic r f)"
  by (auto simp: keeps_def no_panic_def split: option.splits)

lemma keeps_timeout [keeps_rules]: "keeps P m \<Longrightarrow> keeps P (timeout m)"
  by (fastforce simp: keeps_def timeout_def split: call_outcome.splits)

section \<open>Connections\<close>

datatype io_error =
    Io_Other str
  | Io_UnexpectedEof
  | Io_WriteZero
  | Io_TimedOut

datatype arrival = Arrive bytes | Closed | Broken io_error

datatype acceptance = Accept nat | Refuse io_error

record tcp_stream =
  tcp_in :: "arrival list"
  tcp_accepts :: "acceptance list"
  tcp_out :: bytes
  tcp_local :: "str option"

text \<open>\<open>read\<close> with a buffer of \<open>n\<close> bytes; \<open>None\<close> when nothing has arrived.\<close>

fun take_arrival :: "nat \<Rightarrow> arrival list \<Rightarrow> (arrival list \<times> (io_error, bytes) result) option" where
  "take_arrival n [] = None"
| "take_arrival n (Arrive [] # later) = take_arrival n later"
| "take_arrival n (Arrive (b # bs) # later) =
     Some (if Suc (length bs) \<le> n then later else Arrive (drop n (b # bs)) # later, Inr (take n (b # bs)))"
| "take_arrival n (Closed # later) = Some (Closed # later, Inr [])"
| "take_arrival n (Broken e # later) = Some (later, Inl e)"

fun arrival_size :: "arrival \<Rightarrow> nat" where
  "arrival_size (Arrive bs) = Suc (length bs)"
| "arrival_size _ = 1"

definition arrivals_size :: "arrival list \<Rightarrow> nat" where
  "arrivals_size as = sum_list (map arrival_size as)"

lemma arrivals_size_simps [simp]:
  "arrivals_size [] = 0" "arrivals_size (a # as) = arrival_size a + arrivals_size as"
  by (simp_all add: arrivals_size_def)

lemma take_arrival_shrinks:
  "take_arrival n as = Some (as', Inr bs) \<Longrightarrow> bs \<noteq> [] \<Longrightarrow> arrivals_size as' < arrivals_size as"
  by (induction n as rule: take_arrival.induct) (auto split: if_splits)

text \<open>\<open>ReadExact\<close>: reads into what is left of the buffer until it is full.\<close>

function read_exact :: "nat \<Rightarrow> bytes \<Rightarrow> arrival list \<Rightarrow> arrival list \<times> (io_error, bytes) result option" where
  "read_exact n got as =
     (if n \<le> length got then (as, Some (Inr got))
      else case take_arrival (n - length got) as of
             None \<Rightarrow> ([], None)
           | Some (as', Inl e) \<Rightarrow> (as', Some (Inl e))
           | Some (as', Inr bs) \<Rightarrow>
               (if bs = [] then (as', Some (Inl Io_UnexpectedEof)) else read_exact n (got @ bs) as'))"
  by pat_completeness auto

termination
  by (relation "measure (\<lambda>(n, got, as). n - length got)") (auto simp flip: length_greater_0_conv)

declare read_exact.simps [simp del]

text \<open>\<open>WriteAll\<close>: the system takes some bytes at each poll; with no limit given it takes all.\<close>

fun poll_write :: "acceptance list \<Rightarrow> nat \<Rightarrow> acceptance list \<times> (io_error, nat) result" where
  "poll_write [] n = ([], Inr n)"
| "poll_write (Accept k # later) n = (later, Inr (min k n))"
| "poll_write (Refuse e # later) n = (later, Inl e)"

function write_loop :: "bytes \<Rightarrow> tcp_stream \<Rightarrow> tcp_stream \<times> (io_error, unit) result" where
  "write_loop data t =
     (if data = [] then (t, Inr ())
      else case poll_write (tcp_accepts t) (length data) of
             (later, Inl e) \<Rightarrow> (t\<lparr>tcp_accepts := later\<rparr>, Inl e)
           | (later, Inr n) \<Rightarrow>
               (if n = 0 then (t\<lparr>tcp_accepts := later\<rparr>, Inl Io_WriteZero)
                else write_loop (drop n data) (t\<lparr>tcp_accepts := later, tcp_out := tcp_out t @ take n data\<rparr>)))"
  by pat_completeness auto

termination
  by (relation "measure (\<lambda>(data, t). length data)") auto

declare write_loop.simps [simp del]

definition write_all :: "bytes \<Rightarrow> tcp_stream \<Rightarrow> tcp_stream \<times> (io_error, unit) result" where
  "write_all data t = write_loop data t"

text \<open>Every byte goes out in order when the system refuses nothing, however little it takes at once.\<close>

fun accepts_some :: "acceptance \<Rightarrow> bool" where
  "accepts_some (Accept k) = (k > 0)"
| "accepts_some (Refuse e) = False"

lemma poll_write_some:
  assumes "list_all accepts_some as" and "n > 0"
  shows "\<exists>later k. poll_write as n = (later, Inr k) \<and> 0 < k \<and> k \<le> n \<and> list_all accepts_some later"
  using assms by (cases "(as, n)" rule: poll_write.cases) auto

lemma write_all_delivers:
  assumes "list_all accepts_some (tcp_accepts t)"
  shows "\<exists>later. write_all data t = (t\<lparr>tcp_accepts := later, tcp_out := tcp_out t @ data\<rparr>, Inr ())
    \<and> list_all accepts_some later"
  using assms unfolding write_all_def
proof (induction data t rule: write_loop.induct)
  case (1 data t)
  show ?case
  proof (cases "data = []")
    case True
    then show ?thesis using "1.prems" by (intro exI [of _ "tcp_accepts t"]) (simp add: write_loop.simps)
  next
    case False
    obtain later k where k: "poll_write (tcp_accepts t) (length data) = (later, Inr k)" "0 < k" "list_all accepts_some later"
      using poll_write_some [OF "1.prems", of "length data"] False by auto
    let ?t = "t\<lparr>tcp_accepts := later, tcp_out := tcp_out t @ take k data\<rparr>"
    obtain l where "write_loop (drop k data) ?t = (?t\<lparr>tcp_accepts := l, tcp_out := tcp_out ?t @ drop k data\<rparr>, Inr ())"
        "list_all accepts_some l"
      using "1.IH" [OF False k(1) [symmetric] refl] k(2,3) by auto
    then show ?thesis using False k(1,2) by (intro exI [of _ l]) (simp add: write_loop.simps [of data])
  qed
qed

text \<open>A full read gives the bytes that arrive, in whatever pieces.\<close>

fun arrived :: "arrival list \<Rightarrow> bytes" where
  "arrived (Arrive bs # as) = bs @ arrived as"
| "arrived _ = []"

lemma take_arrival_next:
  assumes "arrived as \<noteq> []" and "n > 0"
  shows "\<exists>as' bs. take_arrival n as = Some (as', Inr bs) \<and> bs \<noteq> [] \<and> length bs \<le> n \<and> arrived as = bs @ arrived as'"
  using assms by (induction n as rule: take_arrival.induct) auto

lemma read_exact_arrived:
  assumes "n \<le> length got + length (arrived as)"
  shows "\<exists>as'. read_exact n got as = (as', Some (Inr (got @ take (n - length got) (arrived as))))
    \<and> arrived as' = drop (n - length got) (arrived as)"
  using assms
proof (induction n got as rule: read_exact.induct)
  case (1 n got as)
  show ?case
  proof (cases "n \<le> length got")
    case True
    then show ?thesis by (simp add: read_exact.simps)
  next
    case False
    then have "arrived as \<noteq> []" using "1.prems" by auto
    then obtain as' bs where t: "take_arrival (n - length got) as = Some (as', Inr bs)" "bs \<noteq> []"
        "length bs \<le> n - length got" "arrived as = bs @ arrived as'"
      using take_arrival_next [of as "n - length got"] False by auto
    moreover have "n \<le> length (got @ bs) + length (arrived as')" using "1.prems" t(4) by simp
    ultimately obtain as2 where "read_exact n (got @ bs) as' = (as2, Some (Inr ((got @ bs) @ take (n - length (got @ bs)) (arrived as'))))"
        "arrived as2 = drop (n - length (got @ bs)) (arrived as')"
      using "1.IH" [OF False t(1) refl refl t(2)] by blast
    then show ?thesis using False t by (simp add: read_exact.simps [of n got])
  qed
qed

end
