(* ===== verification/Client_Types.thy ===== *)
theory Client_Types
  imports Async_Io Pairing_Client Rtsp_Codec Plist Ptp_Node Rust_Float
begin

text \<open>
  The client's plain data: errors (\<open>src/error/mod.rs\<close>), configuration (\<open>src/types/config.rs\<close>),
  devices and their feature bits (\<open>src/types/device.rs\<close>), and the states, events and statistics of
  a connection (\<open>src/connection/state.rs\<close>). A message that prints another error is that error
  with the text in front of it.
\<close>

section \<open>Errors\<close>

datatype cause =
    Cause_Pairing pairing_error
  | Cause_Codec rtsp_codec_error
  | Cause_Plist plist_encode_error
  | Cause_Io io_error

datatype message = Plain str | Prefixed str cause

abbreviation msg :: "string \<Rightarrow> message" where
  "msg t \<equiv> Plain (ascii t)"

datatype raop_failure =
    RF_AuthenticationFailed
  | RF_UnsupportedEncryption str
  | RF_SdpParseError str
  | RF_KeyExchangeFailed str
  | RF_EncryptionError str
  | RF_TimingSyncFailed
  | RF_RetransmitBufferOverflow

datatype client_error =
    E_Raop raop_failure
  | E_DeviceNotFound str
  | E_DiscoveryFailed message
  | E_ConnectionFailed str message
  | E_Disconnected str
  | E_ConnectionTimeout nat
  | E_AuthenticationFailed message bool
  | E_PairingRequired str
  | E_PairingInvalid str
  | E_RtspError message "u16 option"
  | E_RtpError message
  | E_UnexpectedResponse str str
  | E_CodecError message
  | E_PlaybackError message
  | E_InvalidUrl str str
  | E_UnsupportedFormat str
  | E_QueueError message
  | E_SeekOutOfRange u64 "u64 option"
  | E_NetworkError io_error
  | E_Timeout
  | E_InvalidState message str
  | E_DeviceBusy
  | E_InternalError message
  | E_NotImplemented str
  | E_InvalidParameter str message
  | E_IoError message
  | E_GroupNotFound str

fun is_recoverable :: "client_error \<Rightarrow> bool" where
  "is_recoverable (E_ConnectionTimeout _) = True"
| "is_recoverable E_Timeout = True"
| "is_recoverable (E_NetworkError _) = True"
| "is_recoverable E_DeviceBusy = True"
| "is_recoverable (E_AuthenticationFailed _ recoverable) = recoverable"
| "is_recoverable _ = False"

fun is_connection_lost :: "client_error \<Rightarrow> bool" where
  "is_connection_lost (E_Disconnected _) = True"
| "is_connection_lost (E_ConnectionFailed _ _) = True"
| "is_connection_lost (E_ConnectionTimeout _) = True"
| "is_connection_lost _ = False"

text \<open>The errors of the HAP session carry no status and are not recoverable.\<close>

fun of_hap_error :: "airplay_error \<Rightarrow> client_error" where
  "of_hap_error (RtspError t) = E_RtspError (msg t) None"
| "of_hap_error (AuthenticationFailed t) = E_AuthenticationFailed (msg t) False"

section \<open>Configuration\<close>

datatype client_timing_protocol = TP_Ntp | TP_Ptp | TP_Auto

datatype client_audio_codec = Codec_Pcm | Codec_Alac | Codec_Aac | Codec_AacEld | Codec_Opus

text \<open>Durations are milliseconds.\<close>

record airplay_config =
  cfg_discovery_timeout :: nat
  cfg_connection_timeout :: nat
  cfg_state_poll_interval :: nat
  cfg_debug_protocol :: bool
  cfg_reconnect_attempts :: u32
  cfg_reconnect_delay :: nat
  cfg_audio_buffer_frames :: nat
  cfg_pairing_storage_path :: "str option"
  cfg_audio_codec :: client_audio_codec
  cfg_prefer_hires_audio :: bool
  cfg_pin :: "str option"
  cfg_aac_bitrate :: u32
  cfg_timing_protocol :: client_timing_protocol
  cfg_ptp_priority :: "u8 option"

definition airplay_config_default :: airplay_config where
  "airplay_config_default =
     \<lparr>cfg_discovery_timeout = 5000, cfg_connection_timeout = 10000, cfg_state_poll_interval = 500,
      cfg_debug_protocol = False, cfg_reconnect_attempts = 3, cfg_reconnect_delay = 1000,
      cfg_audio_buffer_frames = 44100, cfg_pairing_storage_path = None, cfg_audio_codec = Codec_Pcm,
      cfg_prefer_hires_audio = False, cfg_pin = None, cfg_aac_bitrate = 128000,
      cfg_timing_protocol = TP_Auto, cfg_ptp_priority = None\<rparr>"

text \<open>The builder: each call sets one field of the configuration it holds.\<close>

datatype config_call =
    Set_discovery_timeout nat
  | Set_connection_timeout nat
  | Set_state_poll_interval nat
  | Set_debug_protocol bool
  | Set_pairing_storage str
  | Set_audio_codec client_audio_codec
  | Set_prefer_hires_audio bool
  | Set_pin str
  | Set_aac_bitrate u32
  | Set_timing_protocol client_timing_protocol
  | Set_ptp_priority u8

fun config_builder_call :: "airplay_config \<Rightarrow> config_call \<Rightarrow> airplay_config" where
  "config_builder_call c (Set_discovery_timeout t) = c\<lparr>cfg_discovery_timeout := t\<rparr>"
| "config_builder_call c (Set_connection_timeout t) = c\<lparr>cfg_connection_timeout := t\<rparr>"
| "config_builder_call c (Set_state_poll_interval t) = c\<lparr>cfg_state_poll_interval := t\<rparr>"
| "config_builder_call c (Set_debug_protocol e) = c\<lparr>cfg_debug_protocol := e\<rparr>"
| "config_builder_call c (Set_pairing_storage path) = c\<lparr>cfg_pairing_storage_path := Some path\<rparr>"
| "config_builder_call c (Set_audio_codec codec) = c\<lparr>cfg_audio_codec := codec\<rparr>"
| "config_builder_call c (Set_prefer_hires_audio p) = c\<lparr>cfg_prefer_hires_audio := p\<rparr>"
| "config_builder_call c (Set_pin pin) = c\<lparr>cfg_pin := Some pin\<rparr>"
| "config_builder_call c (Set_aac_bitrate bitrate) = c\<lparr>cfg_aac_bitrate := bitrate\<rparr>"
| "config_builder_call c (Set_timing_protocol protocol) = c\<lparr>cfg_timing_protocol := protocol\<rparr>"
| "config_builder_call c (Set_ptp_priority priority) = c\<lparr>cfg_ptp_priority := Some priority\<rparr>"

definition config_build :: "config_call list \<Rightarrow> airplay_config" where
  "config_build = foldl config_builder_call airplay_config_default"

section \<open>Devices\<close>

record device_capabilities =
  cap_airplay2 :: bool
  cap_supports_grouping :: bool
  cap_supports_screen :: bool
  cap_supports_audio :: bool
  cap_supports_hires_audio :: bool
  cap_supports_buffered_audio :: bool
  cap_supports_persistent_pairing :: bool
  cap_supports_homekit_pairing :: bool
  cap_supports_transient_pairing :: bool
  cap_supports_ptp :: bool
  cap_raw_features :: u64

definition capabilities_from_features :: "u64 \<Rightarrow> device_capabilities" where
  "capabilities_from_features features =
     \<lparr>cap_airplay2 = bit features 48, cap_supports_grouping = bit features 32, cap_supports_screen = False,
      cap_supports_audio = bit features 9, cap_supports_hires_audio = bit features 48,
      cap_supports_buffered_audio = bit features 38, cap_supports_persistent_pairing = False,
      cap_supports_homekit_pairing = False, cap_supports_transient_pairing = False,
      cap_supports_ptp = bit features 40, cap_raw_features = features\<rparr>"

record airplay_device =
  dev_id :: str
  dev_name :: str
  dev_model :: "str option"
  dev_addresses :: "ip_addr list"
  dev_port :: u16
  dev_capabilities :: device_capabilities
  dev_raop_port :: "u16 option"
  dev_txt_records :: "(str \<times> str) list"

definition device_supports_airplay2 :: "airplay_device \<Rightarrow> bool" where
  "device_supports_airplay2 d = cap_airplay2 (dev_capabilities d)"

definition device_supports_raop :: "airplay_device \<Rightarrow> bool" where
  "device_supports_raop d \<longleftrightarrow> dev_raop_port d \<noteq> None"

definition device_supports_grouping :: "airplay_device \<Rightarrow> bool" where
  "device_supports_grouping d = cap_supports_grouping (dev_capabilities d)"

definition device_supports_ptp :: "airplay_device \<Rightarrow> bool" where
  "device_supports_ptp d = cap_supports_ptp (dev_capabilities d)"

definition discovered_volume :: "airplay_device \<Rightarrow> f32 option" where
  "discovered_volume d = Option.bind (map_of (dev_txt_records d) (ascii ''vv'')) parse_f32"

fun is_ipv4 :: "ip_addr \<Rightarrow> bool" where
  "is_ipv4 (IpV4 _) = True"
| "is_ipv4 (IpV6 _) = False"

fun is_routed_ipv6 :: "ip_addr \<Rightarrow> bool" where
  "is_routed_ipv6 (IpV4 _) = False"
| "is_routed_ipv6 (IpV6 segments) = (hd segments \<noteq> 0xfe80)"

definition device_address :: "airplay_device \<Rightarrow> ip_addr" where
  "device_address d =
     (case List.find is_ipv4 (dev_addresses d) of
        Some a \<Rightarrow> a
      | None \<Rightarrow>
          (case List.find is_routed_ipv6 (dev_addresses d) of
             Some a \<Rightarrow> a
           | None \<Rightarrow> (case dev_addresses d of a # _ \<Rightarrow> a | [] \<Rightarrow> IpV4 0)))"

text \<open>\<open>Display\<close> of an address.\<close>

fun hex_string :: "nat \<Rightarrow> str" where
  "hex_string n = (if n < 16 then [] else hex_string (n div 16))
     @ [if n mod 16 < 10 then of_nat (48 + n mod 16) else of_nat (87 + n mod 16)]"

declare hex_string.simps [simp del]

definition ipv4_string :: "u32 \<Rightarrow> str" where
  "ipv4_string a = join_by (ascii ''.'') (map (\<lambda>b. dec_string (unat b)) (be_bytes 4 a))"

fun zero_run :: "nat \<Rightarrow> nat \<times> nat \<Rightarrow> nat \<times> nat \<Rightarrow> u16 list \<Rightarrow> nat \<times> nat" where
  "zero_run i longest current [] = longest"
| "zero_run i longest current (s # ss) =
     (if s = 0
      then let current' = (if snd current = 0 then (i, 1) else (fst current, snd current + 1))
           in zero_run (i + 1) (if snd current' > snd longest then current' else longest) current' ss
      else zero_run (i + 1) longest (0, 0) ss)"

definition ipv6_string :: "u16 list \<Rightarrow> str" where
  "ipv6_string segments =
     (let groups = (\<lambda>ss. join_by (ascii '':'') (map (\<lambda>s. hex_string (unat s)) ss)) in
      if take 6 segments = [0, 0, 0, 0, 0, 0xffff]
      then ascii ''::ffff:'' @ join_by (ascii ''.'')
             (map (\<lambda>b. dec_string (unat b)) (concat (map (be_bytes 2) (drop 6 segments))))
      else let (start, len) = zero_run 0 (0, 0) (0, 0) segments in
        if len > 1 then groups (take start segments) @ ascii ''::'' @ groups (drop (start + len) segments)
        else groups segments)"

fun ip_string :: "ip_addr \<Rightarrow> str" where
  "ip_string (IpV4 a) = ipv4_string a"
| "ip_string (IpV6 segments) = ipv6_string segments"

definition host_port :: "ip_addr \<Rightarrow> u16 \<Rightarrow> str" where
  "host_port ip port = ip_string ip @ ascii '':'' @ dec_string (unat port)"

section \<open>States, events and statistics of a connection\<close>

datatype client_connection_state =
    CS_Disconnected | CS_Connecting | CS_Authenticating | CS_SettingUp | CS_Connected | CS_Reconnecting | CS_Failed

fun connection_state_name :: "client_connection_state \<Rightarrow> str" where
  "connection_state_name CS_Disconnected = ascii ''Disconnected''"
| "connection_state_name CS_Connecting = ascii ''Connecting''"
| "connection_state_name CS_Authenticating = ascii ''Authenticating''"
| "connection_state_name CS_SettingUp = ascii ''SettingUp''"
| "connection_state_name CS_Connected = ascii ''Connected''"
| "connection_state_name CS_Reconnecting = ascii ''Reconnecting''"
| "connection_state_name CS_Failed = ascii ''Failed''"

definition connection_is_active :: "client_connection_state \<Rightarrow> bool" where
  "connection_is_active s \<longleftrightarrow>
     s \<in> {CS_Connecting, CS_Authenticating, CS_SettingUp, CS_Connected, CS_Reconnecting}"

definition connection_is_connected :: "client_connection_state \<Rightarrow> bool" where
  "connection_is_connected s \<longleftrightarrow> s = CS_Connected"

definition connection_is_failed :: "client_connection_state \<Rightarrow> bool" where
  "connection_is_failed s \<longleftrightarrow> s \<in> {CS_Failed, CS_Disconnected}"

datatype disconnect_reason =
    DR_UserRequested
  | DR_NetworkError str
  | DR_DeviceOffline
  | DR_AuthenticationFailed
  | DR_ProtocolError str
  | DR_Timeout

datatype connection_event =
    CE_StateChanged client_connection_state client_connection_state
  | CE_Connected airplay_device
  | CE_Disconnected airplay_device disconnect_reason
  | CE_PairingRequired airplay_device
  | CE_Error client_error bool
  | CE_RetransmitRequest u16 u16

record connection_stats =
  st_connected_at :: "nat option"
  st_bytes_sent :: u64
  st_bytes_received :: u64
  st_reconnect_attempts :: u32
  st_last_error :: "str option"
  st_rtt_ms :: "u32 option"

definition connection_stats_default :: connection_stats where
  "connection_stats_default =
     \<lparr>st_connected_at = None, st_bytes_sent = 0, st_bytes_received = 0, st_reconnect_attempts = 0,
      st_last_error = None, st_rtt_ms = None\<rparr>"

definition connection_uptime :: "connection_stats \<Rightarrow> nat \<Rightarrow> nat option" where
  "connection_uptime s now = map_option (\<lambda>t. now - t) (st_connected_at s)"

definition add_bytes :: "u64 \<Rightarrow> nat \<Rightarrow> u64 option" where
  "add_bytes old n = (if unat old + n < 2 ^ 64 then Some (old + of_nat n) else None)"

definition record_sent :: "connection_stats \<Rightarrow> nat \<Rightarrow> connection_stats option" where
  "record_sent s n = map_option (\<lambda>t. s\<lparr>st_bytes_sent := t\<rparr>) (add_bytes (st_bytes_sent s) n)"

definition record_received :: "connection_stats \<Rightarrow> nat \<Rightarrow> connection_stats option" where
  "record_received s n = map_option (\<lambda>t. s\<lparr>st_bytes_received := t\<rparr>) (add_bytes (st_bytes_received s) n)"

end
