(* ===== verification/Ntp_Client.thy ===== *)
theory Ntp_Client
  imports Client_Types Rtp_Timing
begin

text \<open>
  The NTP client, \<open>src/protocol/rtp/ntp_client.rs\<close>: one exchange with a time server, whose offset the
  connection manager uses when it has no PTP clock.
\<close>

section \<open>Definitions\<close>

text \<open>
  What the system gives to one exchange: the local socket, the resolved addresses, the outcome of
  sending, what is received before the deadline, and the two clock readings.
\<close>

datatype ntp_receipt = Ntp_Datagram socket_addr bytes | Ntp_SocketError

record ntp_env =
  ne_bind :: "(io_error, unit) result"
  ne_addrs :: "socket_addr list option"
  ne_t1 :: ntp_timestamp
  ne_send :: "(io_error, unit) result option"
  ne_receipts :: "ntp_receipt list"
  ne_t4 :: ntp_timestamp

definition NTP_PACKET_SIZE :: nat where "NTP_PACKET_SIZE = 48"

definition ntp_request :: "ntp_timestamp \<Rightarrow> bytes" where
  "ntp_request t1 = 0x23 # replicate 39 0 @ ntp_encode t1"

fun ntp_answer :: "socket_addr \<Rightarrow> ntp_timestamp \<Rightarrow> ntp_receipt list \<Rightarrow> bytes option" where
  "ntp_answer target t1 [] = None"
| "ntp_answer target t1 (Ntp_SocketError # later) = ntp_answer target t1 later"
| "ntp_answer target t1 (Ntp_Datagram peer datagram # later) =
     (let buf = take NTP_PACKET_SIZE datagram in
      if peer \<noteq> target \<or> length buf < NTP_PACKET_SIZE \<or> take 8 (drop 24 buf) \<noteq> ntp_encode t1
      then ntp_answer target t1 later else Some buf)"

text \<open>The microseconds are below \<open>2 ^ 53\<close>, so the 64-bit differences do not overflow.\<close>

definition ntp_offset :: "ntp_timestamp \<Rightarrow> ntp_timestamp \<Rightarrow> ntp_timestamp \<Rightarrow> ntp_timestamp \<Rightarrow> int" where
  "ntp_offset t1 t2 t3 t4 =
     ((sint (ntp_to_micros t2) - sint (ntp_to_micros t1)) + (sint (ntp_to_micros t3) - sint (ntp_to_micros t4))) sdiv 2"

definition ntp_get_offset :: "ntp_env \<Rightarrow> (client_error, int) result" where
  "ntp_get_offset e =
     result_bind (map_err E_NetworkError (ne_bind e)) (\<lambda>_.
     result_bind (ok_or (ne_addrs e) (E_NetworkError (Io_Other (ascii ''Failed to resolve NTP server address'')))) (\<lambda>addrs.
     case addrs of
       [] \<Rightarrow> Inl (E_NetworkError (Io_Other (ascii ''No addresses found for NTP server'')))
     | target # _ \<Rightarrow>
         result_bind (ok_or (ne_send e) E_Timeout) (\<lambda>sent.
         result_bind (map_err E_NetworkError sent) (\<lambda>_.
         result_bind (ok_or (ntp_answer target (ne_t1 e) (ne_receipts e)) E_Timeout) (\<lambda>buf.
           Inr (ntp_offset (ne_t1 e) (ntp_decode (take 8 (drop 32 buf))) (ntp_decode (take 8 (drop 40 buf))) (ne_t4 e)))))))"

end
