(* ===== verification/Client_Connection.thy ===== *)
theory Client_Connection
  imports Ntp_Client Rtsp_Session Ptp_Handler Rtp_Control Crypto_Lib
begin

text \<open>
  The client's connection manager, \<open>src/connection/manager.rs\<close>: its state and the operations on
  an open connection. Requests are written to the TCP connection, encrypted when the session is,
  and answers are read until the one with the request's sequence number comes. Calls are made one
  at a time, as the locks that a request holds enforce; a call that waits for the device is
  \<open>Waiting\<close>, with the state in which a timeout would cancel it. Third-party code and the system
  are in the environment record: cryptography, allocation, the outcomes of connecting and binding
  sockets, random numbers and clocks.
\<close>

section \<open>State\<close>

record udp_socket =
  us_local :: "(io_error, u16) result"
  us_peer :: "(ip_addr \<times> u16) option"
  us_faults :: "io_error option list"
  us_sent :: "((ip_addr \<times> u16) option \<times> bytes) list"

record udp_sockets =
  uds_audio :: udp_socket
  uds_control :: udp_socket
  uds_timing :: udp_socket
  uds_server_audio_port :: u16
  uds_server_control_port :: u16
  uds_server_timing_port :: u16

datatype client_task = Task_Ptp ptp_slave | Task_Control

record client =
  cm_config :: airplay_config
  cm_state :: client_connection_state
  cm_device :: "airplay_device option"
  cm_stream :: "tcp_stream option"
  cm_sockets :: "udp_sockets option"
  cm_rtsp_session :: "rtsp_session option"
  cm_rtsp_codec :: rtsp_codec
  cm_session_keys :: "session_keys option"
  cm_secure_session :: "hap_session option"
  cm_decrypted_buffer :: bytes
  cm_stats :: connection_stats
  cm_events :: "connection_event list"
  cm_pairing_storage :: "memory_storage option"
  cm_ptp_clock :: "ptp_clock option"
  cm_ptp_shutdown_tx :: "nat option"
  cm_channels :: nat
  cm_tasks :: "(nat \<times> client_task) list"
  cm_ptp_active :: bool
  cm_device_clock_id :: "u64 option"
  cm_ntp_offset :: int
  cm_pending_record_response :: bool
  cm_time_announce_count :: u64
  cm_drop_packets_for_test :: "u16 list"
  cm_event_task :: bool
  cm_audio_tcp_stream :: "tcp_stream option"

text \<open>
  A shutdown channel is its number; a background task is listed with the channel that it
  watches. \<open>cm_channels\<close> counts the channels made so far.
\<close>

definition connection_manager_new :: "airplay_config \<Rightarrow> client" where
  "connection_manager_new config =
     \<lparr>cm_config = config, cm_state = CS_Disconnected, cm_device = None, cm_stream = None, cm_sockets = None,
      cm_rtsp_session = None, cm_rtsp_codec = codec_new, cm_session_keys = None, cm_secure_session = None,
      cm_decrypted_buffer = [], cm_stats = connection_stats_default, cm_events = [], cm_pairing_storage = None,
      cm_ptp_clock = None, cm_ptp_shutdown_tx = None, cm_channels = 0, cm_tasks = [], cm_ptp_active = False,
      cm_device_clock_id = None, cm_ntp_offset = 0, cm_pending_record_response = False,
      cm_time_announce_count = 0, cm_drop_packets_for_test = [], cm_event_task = False,
      cm_audio_tcp_stream = None\<rparr>"

definition with_pairing_storage :: "client \<Rightarrow> memory_storage \<Rightarrow> client" where
  "with_pairing_storage c storage = c\<lparr>cm_pairing_storage := Some storage\<rparr>"

definition encryption_key :: "client \<Rightarrow> bytes option" where
  "encryption_key c = map_option sk_raw_shared_secret (cm_session_keys c)"

text \<open>The environment of a call.\<close>

record client_env =
  ce_lib :: crypto_lib
  ce_alloc :: "nat \<Rightarrow> bool"
  ce_tcp :: "ip_addr \<Rightarrow> u16 \<Rightarrow> (io_error, tcp_stream) result option"
  ce_bind :: "nat \<Rightarrow> str \<Rightarrow> (io_error, udp_socket) result"
  ce_bind_ptp :: "u16 \<Rightarrow> (io_error, udp_socket) result"
  ce_udp_connect :: "ip_addr \<Rightarrow> u16 \<Rightarrow> (io_error, unit) result"
  ce_session_ids :: "u64 \<times> u64"
  ce_auth_keypair :: bytes
  ce_pair_secrets :: "nat \<Rightarrow> bytes \<times> nat"
  ce_verify_keypair :: bytes
  ce_ptp_clock_id :: u64
  ce_eiv :: bytes
  ce_system_clock :: "(u64 \<times> u32) option"
  ce_instant :: nat
  ce_aac_eld :: "(str, bytes option \<times> u32 option) result"
  ce_ntp :: ntp_env
  ce_map_order :: "(str \<times> plist) list \<Rightarrow> (str \<times> plist) list"

section \<open>Events and states\<close>

definition send_event :: "connection_event \<Rightarrow> client \<Rightarrow> client" where
  "send_event e c = c\<lparr>cm_events := cm_events c @ [e]\<rparr>"

definition set_state :: "client_connection_state \<Rightarrow> client \<Rightarrow> client" where
  "set_state new_state c =
     (let old = cm_state c; c' = c\<lparr>cm_state := new_state\<rparr>
      in if old \<noteq> new_state then send_event (CE_StateChanged old new_state) c' else c')"

section \<open>Sockets\<close>

fun udp_outcome :: "io_error option list \<Rightarrow> io_error option list \<times> (io_error, unit) result" where
  "udp_outcome (Some e # later) = (later, Inl e)"
| "udp_outcome (None # later) = (later, Inr ())"
| "udp_outcome [] = ([], Inr ())"

definition udp_send_to :: "(ip_addr \<times> u16) option \<Rightarrow> bytes \<Rightarrow> udp_socket \<Rightarrow> udp_socket \<times> (io_error, unit) result" where
  "udp_send_to dest data u =
     (case udp_outcome (us_faults u) of
        (later, Inl e) \<Rightarrow> (u\<lparr>us_faults := later\<rparr>, Inl e)
      | (later, Inr _) \<Rightarrow> (u\<lparr>us_faults := later, us_sent := us_sent u @ [(dest, data)]\<rparr>, Inr ()))"

definition udp_send :: "bytes \<Rightarrow> udp_socket \<Rightarrow> udp_socket \<times> (io_error, unit) result" where
  "udp_send data u = udp_send_to (us_peer u) data u"

definition tcp_write :: "bytes \<Rightarrow> client \<Rightarrow> (client, (client_error, unit) result) call_outcome" where
  "tcp_write data c =
     (case cm_stream c of
        None \<Rightarrow> Returned c (Inl (E_Disconnected (ascii ''unknown'')))
      | Some t \<Rightarrow> (case write_all data t of (t', r) \<Rightarrow>
          Returned (c\<lparr>cm_stream := Some t'\<rparr>) (map_err E_NetworkError r)))"

section \<open>Requests and responses\<close>

text \<open>
  The reader of \<open>send_rtsp_request\<close>: what is local to the call and what it uses of the manager.
  \<open>rx_pending\<close> is \<open>encrypted_buf\<close>.
\<close>

record response_reader =
  rx_in :: "arrival list"
  rx_codec :: rtsp_codec
  rx_secure :: "hap_session option"
  rx_stats :: connection_stats
  rx_pending :: bytes

definition codec_err :: "rtsp_codec_error \<Rightarrow> client_error" where
  "codec_err e = E_RtspError (Prefixed [] (Cause_Codec e)) None"

function open_blocks :: "aead \<Rightarrow> hap_session \<Rightarrow> rtsp_codec \<Rightarrow> bytes \<Rightarrow>
    (hap_session \<times> rtsp_codec \<times> bytes \<times> (client_error, unit) result) option" where
  "open_blocks dec h codec pending =
     (if length pending < 2 then Some (h, codec, pending, Inr ())
      else let block_len = unat (from_le (take 2 pending) :: u16);
               total_len = 2 + block_len + 16 in
        if length pending < total_len then Some (h, codec, pending, Inr ())
        else case hap_decrypt_block dec h (take total_len pending) of
               None \<Rightarrow> None
             | Some (h', Inl e) \<Rightarrow> Some (h', codec, drop total_len pending, Inl (of_hap_error e))
             | Some (h', Inr (decrypted, _)) \<Rightarrow>
                 (case codec_feed codec decrypted of
                    Inl e \<Rightarrow> Some (h', codec, drop total_len pending, Inl (codec_err e))
                  | Inr codec' \<Rightarrow> open_blocks dec h' codec' (drop total_len pending)))"
  by pat_completeness auto

termination by (relation "measure (\<lambda>(dec, h, codec, pending). length pending)") auto

declare open_blocks.simps [simp del]

definition accept_bytes :: "aead \<Rightarrow> bytes \<Rightarrow> rtsp_codec \<Rightarrow> hap_session option \<Rightarrow> bytes \<Rightarrow>
    (rtsp_codec \<times> hap_session option \<times> bytes \<times> (client_error, unit) result) option" where
  "accept_bytes dec data codec secure pending =
     (case secure of
        Some h \<Rightarrow>
          map_option (\<lambda>(h', codec', pending', r). (codec', Some h', pending', r))
            (open_blocks dec h codec (pending @ data))
      | None \<Rightarrow>
          (case codec_feed codec data of
             Inl e \<Rightarrow> Some (codec, None, pending, Inl (codec_err e))
           | Inr codec' \<Rightarrow> Some (codec', None, pending, Inr ())))"

text \<open>A response for another request, which is dropped.\<close>

definition deferred :: "nat option \<Rightarrow> rtsp_response \<Rightarrow> bool" where
  "deferred expected r \<longleftrightarrow>
     (case (expected, headers_cseq (rp_headers r)) of
        (Some n, Some m) \<Rightarrow> m \<noteq> n
      | _ \<Rightarrow> False)"

function receive_response :: "aead \<Rightarrow> nat option \<Rightarrow> response_reader \<Rightarrow>
    (response_reader, (client_error, rtsp_response) result) call_outcome" where
  "receive_response dec expected x =
     (case codec_decode (rx_codec x) of
        (codec, Inl e) \<Rightarrow> Returned (x\<lparr>rx_codec := codec\<rparr>) (Inl (codec_err e))
      | (codec, Inr (Some r)) \<Rightarrow>
          (if deferred expected r then receive_response dec expected (x\<lparr>rx_codec := codec\<rparr>)
           else Returned (x\<lparr>rx_codec := codec\<rparr>) (Inr r))
      | (codec, Inr None) \<Rightarrow>
          (case take_arrival 4096 (rx_in x) of
             None \<Rightarrow> Waiting (x\<lparr>rx_codec := codec, rx_in := []\<rparr>)
           | Some (later, Inl e) \<Rightarrow> Returned (x\<lparr>rx_codec := codec, rx_in := later\<rparr>) (Inl (E_NetworkError e))
           | Some (later, Inr data) \<Rightarrow>
               (if data = []
                then Returned (x\<lparr>rx_codec := codec, rx_in := later\<rparr>) (Inl (E_Disconnected (ascii ''unknown'')))
                else case accept_bytes dec data codec (rx_secure x) (rx_pending x) of
                       None \<Rightarrow> Panicked
                     | Some (codec', secure', pending', Inl e) \<Rightarrow>
                         Returned (x\<lparr>rx_codec := codec', rx_in := later, rx_secure := secure', rx_pending := pending'\<rparr>)
                           (Inl e)
                     | Some (codec', secure', pending', Inr _) \<Rightarrow>
                         (case record_received (rx_stats x) (length data) of
                            None \<Rightarrow> Panicked
                          | Some stats \<Rightarrow>
                              receive_response dec expected
                                (x\<lparr>rx_codec := codec', rx_in := later, rx_secure := secure', rx_stats := stats,
                                   rx_pending := pending'\<rparr>)))))"
  by pat_completeness auto

termination
  by (relation "measures [\<lambda>(dec, expected, x). arrivals_size (rx_in x), \<lambda>(dec, expected, x). codec_size (rx_codec x)]")
    (auto dest: take_arrival_shrinks codec_decode_shrinks [OF sym])

declare receive_response.simps [simp del]

definition with_reader :: "tcp_stream \<Rightarrow> client \<Rightarrow> response_reader \<Rightarrow> client" where
  "with_reader t c x =
     c\<lparr>cm_stream := Some (t\<lparr>tcp_in := rx_in x\<rparr>), cm_rtsp_codec := rx_codec x, cm_secure_session := rx_secure x,
       cm_stats := rx_stats x\<rparr>"

definition read_response :: "client_env \<Rightarrow> nat option \<Rightarrow> client \<Rightarrow>
    (client, (client_error, rtsp_response) result) call_outcome" where
  "read_response env expected c =
     (case cm_stream c of
        None \<Rightarrow> Returned c (Inl (E_Disconnected (ascii ''unknown'')))
      | Some t \<Rightarrow>
          (case receive_response (open_sealed (ce_lib env)) expected
                  \<lparr>rx_in = tcp_in t, rx_codec = cm_rtsp_codec c, rx_secure = cm_secure_session c,
                   rx_stats = cm_stats c, rx_pending = []\<rparr> of
             Returned x r \<Rightarrow> Returned (with_reader t c x) r
           | Waiting x \<Rightarrow> Waiting (with_reader t c x)
           | Panicked \<Rightarrow> Panicked))"

text \<open>What goes on the wire: the request, or its encryption.\<close>

definition seal_request :: "client_env \<Rightarrow> bytes \<Rightarrow> client \<Rightarrow> (client, (client_error, bytes) result) call_outcome" where
  "seal_request env encoded c =
     (case cm_secure_session c of
        None \<Rightarrow> Returned c (Inr encoded)
      | Some h \<Rightarrow>
          (case hap_encrypt (seal (ce_lib env)) h encoded of
             None \<Rightarrow> Panicked
           | Some (h', r) \<Rightarrow> Returned (c\<lparr>cm_secure_session := Some h'\<rparr>) (map_err of_hap_error r)))"

definition send_rtsp_request :: "client_env \<Rightarrow> rtsp_request \<Rightarrow> client \<Rightarrow>
    (client, (client_error, rtsp_response) result) call_outcome" where
  "send_rtsp_request env request c =
     (let encoded = request_encode request in
      if cm_stream c = None then Returned c (Inl (E_Disconnected (ascii ''unknown'')))
      else await_ok (seal_request env encoded) (\<lambda>wire.
           await_ok (tcp_write wire) (\<lambda>_ c.
           no_panic (record_sent (cm_stats c) (length encoded)) (\<lambda>stats c.
             read_response env (headers_cseq (rq_headers request)) (c\<lparr>cm_stats := stats\<rparr>)) c)) c)"

section \<open>Commands\<close>

definition no_session :: client_error where
  "no_session = E_InvalidState (msg ''No RTSP session'') (ascii ''None'')"

text \<open>The request that the session builds; the session counts it.\<close>

definition build_request :: "(rtsp_session \<Rightarrow> (rtsp_session \<times> rtsp_request) option) \<Rightarrow> client \<Rightarrow>
    (client, (client_error, rtsp_request) result) call_outcome" where
  "build_request mk c =
     (case cm_rtsp_session c of
        None \<Rightarrow> Returned c (Inl no_session)
      | Some s \<Rightarrow>
          (case mk s of
             None \<Rightarrow> Panicked
           | Some (s', r) \<Rightarrow> Returned (c\<lparr>cm_rtsp_session := Some s'\<rparr>) (Inr r)))"

definition status_error :: "rtsp_response \<Rightarrow> str \<Rightarrow> client_error" where
  "status_error response e = E_RtspError (Plain e) (Some (rp_status response))"

definition send_options :: "client_env \<Rightarrow> client \<Rightarrow> (client, (client_error, unit) result) call_outcome" where
  "send_options env =
     await_ok (build_request options_request) (\<lambda>request.
     await_ok (send_rtsp_request env request) (\<lambda>response c.
       case cm_rtsp_session c of
         None \<Rightarrow> Returned c (Inl (E_InvalidState (msg ''RTSP session closed during OPTIONS request'')
                                 (ascii ''Disconnected'')))
       | Some s \<Rightarrow> (case process_response s Method_Options response of (s', r) \<Rightarrow>
           Returned (c\<lparr>cm_rtsp_session := Some s'\<rparr>) (map_err (status_error response) r))))"

text \<open>The session is told of the response, where there still is one.\<close>

definition update_session :: "rtsp_method \<Rightarrow> rtsp_response \<Rightarrow> client \<Rightarrow> (client, (client_error, unit) result) call_outcome" where
  "update_session m response c =
     (case cm_rtsp_session c of
        None \<Rightarrow> Returned c (Inr ())
      | Some s \<Rightarrow> (case process_response s m response of (s', r) \<Rightarrow>
          Returned (c\<lparr>cm_rtsp_session := Some s'\<rparr>) (map_err (status_error response) r)))"

definition binary_plist_type :: str where
  "binary_plist_type = ascii ''application/x-apple-binary-plist''"

definition or_else :: "'a option \<Rightarrow> 'a \<Rightarrow> 'a" where
  "or_else x d = (case x of None \<Rightarrow> d | Some v \<Rightarrow> v)"

definition command_request :: "rtsp_method \<Rightarrow> bytes option \<Rightarrow> str option \<Rightarrow>
    (rtsp_session \<Rightarrow> (rtsp_session \<times> rtsp_request) option) option" where
  "command_request m body content_type =
     (let b = or_else body []; ct = or_else content_type binary_plist_type in
      case m of
        Method_Play \<Rightarrow> Some (\<lambda>s. play_request s ct b)
      | Method_SetParameter \<Rightarrow> Some (\<lambda>s. set_parameter_request s ct b)
      | Method_GetParameter \<Rightarrow> Some (\<lambda>s. get_parameter_request s content_type body)
      | Method_Flush \<Rightarrow> Some (\<lambda>s. flush_request s 0 0)
      | Method_Teardown \<Rightarrow> Some teardown_request
      | Method_Pause \<Rightarrow> Some pause_request
      | Method_SetRateAnchorTime \<Rightarrow> Some (\<lambda>s. set_rate_anchor_time_request s ct b)
      | _ \<Rightarrow> None)"

text \<open>Logging an error body decodes it as a property list, which can panic.\<close>

definition log_error_body :: "client_env \<Rightarrow> rtsp_response \<Rightarrow> client \<Rightarrow> (client, (client_error, unit) result) call_outcome" where
  "log_error_body env response c =
     (if \<not> status_is_success (rp_status response) \<and> rp_body response \<noteq> []
         \<and> plist_decode (ce_alloc env) (rp_body response) = None
      then Panicked else Returned c (Inr ()))"

fun method_debug :: "rtsp_method \<Rightarrow> str" where
  "method_debug Method_Options = ascii ''Options''"
| "method_debug Method_Announce = ascii ''Announce''"
| "method_debug Method_Setup = ascii ''Setup''"
| "method_debug Method_Record = ascii ''Record''"
| "method_debug Method_Play = ascii ''Play''"
| "method_debug Method_Pause = ascii ''Pause''"
| "method_debug Method_Flush = ascii ''Flush''"
| "method_debug Method_Teardown = ascii ''Teardown''"
| "method_debug Method_SetParameter = ascii ''SetParameter''"
| "method_debug Method_GetParameter = ascii ''GetParameter''"
| "method_debug Method_Post = ascii ''Post''"
| "method_debug Method_Get = ascii ''Get''"
| "method_debug Method_SetRateAnchorTime = ascii ''SetRateAnchorTime''"
| "method_debug Method_SetPeers = ascii ''SetPeers''"

definition send_command :: "client_env \<Rightarrow> rtsp_method \<Rightarrow> bytes option \<Rightarrow> str option \<Rightarrow> client \<Rightarrow>
    (client, (client_error, bytes) result) call_outcome" where
  "send_command env m body content_type c =
     (if cm_rtsp_session c = None then Returned c (Inl no_session)
      else case command_request m body content_type of
             None \<Rightarrow> Returned c (Inl (E_InvalidParameter (ascii ''method'')
                       (Plain (ascii ''Unsupported method for send_command: '' @ method_debug m))))
           | Some mk \<Rightarrow>
               await_ok (build_request mk) (\<lambda>request.
               await_ok (send_rtsp_request env request) (\<lambda>response.
               await_ok (log_error_body env response) (\<lambda>_.
               await_ok (update_session m response) (\<lambda>_. ok_val (rp_body response))))) c)"

definition send_post_command :: "client_env \<Rightarrow> str \<Rightarrow> bytes option \<Rightarrow> str option \<Rightarrow> client \<Rightarrow>
    (client, (client_error, bytes) result) call_outcome" where
  "send_post_command env path body content_type =
     await_ok (build_request (\<lambda>s. post_request s path (or_else content_type binary_plist_type) (or_else body []))) (\<lambda>request.
     await_ok (send_rtsp_request env request) (\<lambda>response.
     await_ok (update_session Method_Post response) (\<lambda>_. ok_val (rp_body response))))"

definition send_get_command :: "client_env \<Rightarrow> str \<Rightarrow> client \<Rightarrow> (client, (client_error, bytes) result) call_outcome" where
  "send_get_command env path =
     await_ok (build_request (\<lambda>s. get_request s path)) (\<lambda>request.
     await_ok (send_rtsp_request env request) (\<lambda>response. ok_val (rp_body response)))"

definition send_set_peers :: "client_env \<Rightarrow> ip_addr \<Rightarrow> client \<Rightarrow> (client, (client_error, unit) result) call_outcome" where
  "send_set_peers env device_ip c =
     (let local_ip = or_else (Option.bind (cm_stream c) tcp_local) (ascii ''0.0.0.0'');
          peer_list = PArray [PString local_ip, PString (ip_string device_ip)] in
      no_panic (plist_encode peer_list) (\<lambda>r.
        await_ok (from_result (map_err (\<lambda>e. E_RtspError (Prefixed (ascii ''Failed to encode SETPEERS plist: '') (Cause_Plist e)) None) r)) (\<lambda>body.
        await_ok (build_request (\<lambda>s. set_peers_request s body)) (\<lambda>request.
        await_ok (send_rtsp_request env request) (log_error_body env)))) c)"

definition record_failed :: "rtsp_response \<Rightarrow> client_error" where
  "record_failed response =
     status_error response
       (ascii ''RECORD failed with status '' @ dec_string (unat (rp_status response)) @ ascii '': '' @ rp_reason response)"

definition client_record :: "client_env \<Rightarrow> client \<Rightarrow> (client, (client_error, unit) result) call_outcome" where
  "client_record env =
     await_ok (build_request record_request) (\<lambda>request.
     await_ok (send_rtsp_request env request) (\<lambda>response.
     await_ok (log_error_body env response) (\<lambda>_.
       if status_is_success (rp_status response) then ok_val () else err_val (record_failed response))))"

definition send_flush :: "client_env \<Rightarrow> u16 \<Rightarrow> u32 \<Rightarrow> client \<Rightarrow> (client, (client_error, unit) result) call_outcome" where
  "send_flush env sq timestamp =
     await_ok (build_request (\<lambda>s. flush_request s sq timestamp)) (\<lambda>request.
     await_ok (send_rtsp_request env request) (\<lambda>_. ok_val ()))"

section \<open>Pairing messages\<close>

text \<open>A pairing message is an HTTP request on the same connection, never encrypted.\<close>

definition pairing_request :: "client \<Rightarrow> str \<Rightarrow> nat \<Rightarrow> bytes" where
  "pairing_request c path len =
     (let (device_id, session_id, user_agent) =
            (case cm_rtsp_session c of
               Some s \<Rightarrow> (ses_device_id s, ses_client_session_id s, ses_user_agent s)
             | None \<Rightarrow> ([], [], ascii ''AirPlay/540.31''));
          host = (case cm_device c of Some d \<Rightarrow> host_port (device_address d) (dev_port d) | None \<Rightarrow> ascii ''127.0.0.1:7000'')
      in ascii ''POST '' @ path @ ascii '' HTTP/1.1'' @ crlf @ ascii ''Host: '' @ host @ crlf
         @ ascii ''Content-Type: application/octet-stream'' @ crlf
         @ ascii ''Content-Length: '' @ dec_string len @ crlf
         @ ascii ''User-Agent: '' @ user_agent @ crlf @ ascii ''Active-Remote: 4294967295'' @ crlf
         @ ascii ''X-Apple-Client-Name: airplay2-rs'' @ crlf
         @ (if device_id = [] then []
            else ascii ''DACP-ID: '' @ device_id @ crlf @ ascii ''X-Apple-Device-ID: '' @ device_id @ crlf)
         @ (if session_id = [] then [] else ascii ''X-Apple-Session-ID: '' @ session_id @ crlf)
         @ (if strip_prefix (ascii ''/pair-setup'') path \<noteq> None \<or> strip_prefix (ascii ''/pair-verify'') path \<noteq> None
            then ascii ''X-Apple-HKP: 4'' @ crlf else [])
         @ crlf)"

text \<open>The header section: pieces of at most 1024 bytes until an empty line has come.\<close>

function read_header :: "bytes \<Rightarrow> arrival list \<Rightarrow> arrival list \<times> (client_error, bytes \<times> nat) result option" where
  "read_header buf as =
     (case take_arrival 1024 as of
        None \<Rightarrow> ([], None)
      | Some (as', Inl e) \<Rightarrow> (as', Some (Inl (E_NetworkError e)))
      | Some (as', Inr chunk) \<Rightarrow>
          (if chunk = []
           then (as', Some (Inl (E_RtspError (msg ''Connection closed while reading headers'') None)))
           else let start_search = length buf - 3; buf' = buf @ chunk in
             case find_sub (crlf @ crlf) (drop start_search buf') of
               Some pos \<Rightarrow> (as', Some (Inr (buf', start_search + pos + 4)))
             | None \<Rightarrow>
                 (if length buf' > 4096 then (as', Some (Inl (E_RtspError (msg ''Headers too large'') None)))
                  else read_header buf' as')))"
  by pat_completeness auto

termination
  by (relation "measure (\<lambda>(buf, as). arrivals_size as)") (auto dest: take_arrival_shrinks)

declare read_header.simps [simp del]

definition http_content_length :: "str \<Rightarrow> nat" where
  "http_content_length headers =
     foldl (\<lambda>n line.
       case strip_prefix (ascii ''Content-Length:'') line of
         Some rest \<Rightarrow> or_else (parse_unsigned (2 ^ 64) (trim rest)) 0
       | None \<Rightarrow>
           (case strip_prefix (ascii ''content-length:'') line of
              Some rest \<Rightarrow> or_else (parse_unsigned (2 ^ 64) (trim rest)) 0
            | None \<Rightarrow> n)) 0 (rust_lines headers)"

text \<open>
  The body. A length that no allocation can hold panics; bytes after the body are dropped with
  the buffer.
\<close>

definition read_pairing_body :: "client_env \<Rightarrow> bytes \<Rightarrow> nat \<Rightarrow> tcp_stream \<Rightarrow>
    (tcp_stream, (client_error, bytes) result) call_outcome" where
  "read_pairing_body env buf body_start t =
     (if \<not> utf8_valid (take body_start buf)
      then Returned t (Inl (E_RtspError (msg ''Invalid UTF-8 in headers'') None))
      else let content_length = http_content_length (take body_start buf);
               body = take content_length (drop body_start buf) in
        if content_length \<ge> 2 ^ 63 \<or> \<not> ce_alloc env content_length then Panicked
        else if length body < content_length
        then (case read_exact (content_length - length body) [] (tcp_in t) of
                (as, None) \<Rightarrow> Waiting (t\<lparr>tcp_in := as\<rparr>)
              | (as, Some (Inl e)) \<Rightarrow> Returned (t\<lparr>tcp_in := as\<rparr>) (Inl (E_NetworkError e))
              | (as, Some (Inr remaining)) \<Rightarrow> Returned (t\<lparr>tcp_in := as\<rparr>) (Inr (body @ remaining)))
        else Returned t (Inr body))"

definition read_pairing_response :: "client_env \<Rightarrow> tcp_stream \<Rightarrow> (tcp_stream, (client_error, bytes) result) call_outcome" where
  "read_pairing_response env t =
     (case read_header [] (tcp_in t) of
        (as, None) \<Rightarrow> Waiting (t\<lparr>tcp_in := as\<rparr>)
      | (as, Some (Inl e)) \<Rightarrow> Returned (t\<lparr>tcp_in := as\<rparr>) (Inl e)
      | (as, Some (Inr (buf, body_start))) \<Rightarrow> read_pairing_body env buf body_start (t\<lparr>tcp_in := as\<rparr>))"

text \<open>An operation on the open stream, as one of the manager.\<close>

definition on_stream :: "(tcp_stream \<Rightarrow> (tcp_stream, (client_error, 'a) result) call_outcome) \<Rightarrow> client \<Rightarrow>
    (client, (client_error, 'a) result) call_outcome" where
  "on_stream f c =
     (case cm_stream c of
        None \<Rightarrow> Returned c (Inl (E_Disconnected (ascii ''unknown'')))
      | Some t \<Rightarrow>
          (case f t of
             Returned t' r \<Rightarrow> Returned (c\<lparr>cm_stream := Some t'\<rparr>) r
           | Waiting t' \<Rightarrow> Waiting (c\<lparr>cm_stream := Some t'\<rparr>)
           | Panicked \<Rightarrow> Panicked))"

definition send_pairing_data :: "client_env \<Rightarrow> bytes \<Rightarrow> str \<Rightarrow> client \<Rightarrow> (client, (client_error, bytes) result) call_outcome" where
  "send_pairing_data env data path c =
     await_ok (tcp_write (pairing_request c path (length data))) (\<lambda>_.
     await_ok (tcp_write data) (\<lambda>_. on_stream (read_pairing_response env))) c"

section \<open>Audio and control packets\<close>

definition drop_for_test :: "bytes \<Rightarrow> client \<Rightarrow> client option" where
  "drop_for_test packet c =
     (if length packet < 4 then None
      else let sq = from_be [packet ! 2, packet ! 3] :: u16 in
        if sq \<in> set (cm_drop_packets_for_test c)
        then Some (c\<lparr>cm_drop_packets_for_test := remove1 sq (cm_drop_packets_for_test c)\<rparr>)
        else None)"

text \<open>Buffered audio goes over TCP, each packet after the length of itself and the length field.\<close>

definition audio_frame_length :: "bytes \<Rightarrow> bytes" where
  "audio_frame_length packet = be_bytes 2 (of_nat (length packet + 2) :: u16)"

definition io_failed :: "string \<Rightarrow> io_error \<Rightarrow> client_error" where
  "io_failed t e = E_RtspError (Prefixed (ascii t) (Cause_Io e)) None"

definition send_buffered :: "bytes \<Rightarrow> tcp_stream \<Rightarrow> tcp_stream \<times> (client_error, unit) result" where
  "send_buffered packet t =
     (case write_all (audio_frame_length packet) t of
        (t1, Inl e) \<Rightarrow> (t1, Inl (io_failed ''Failed to send buffered audio length: '' e))
      | (t1, Inr _) \<Rightarrow>
          (case write_all packet t1 of (t2, r) \<Rightarrow>
             (t2, map_err (io_failed ''Failed to send buffered audio data: '') r)))"

definition send_rtp_audio :: "bytes \<Rightarrow> client \<Rightarrow> client \<times> (client_error, unit) result" where
  "send_rtp_audio packet c =
     (case drop_for_test packet c of
        Some c' \<Rightarrow> (c', Inr ())
      | None \<Rightarrow>
          (case cm_audio_tcp_stream c of
             Some t \<Rightarrow> (case send_buffered packet t of (t', r) \<Rightarrow> (c\<lparr>cm_audio_tcp_stream := Some t'\<rparr>, r))
           | None \<Rightarrow>
               (case cm_sockets c of
                  Some socks \<Rightarrow>
                    (case udp_send packet (uds_audio socks) of (u, r) \<Rightarrow>
                       (c\<lparr>cm_sockets := Some (socks\<lparr>uds_audio := u\<rparr>)\<rparr>,
                        map_err (io_failed ''Failed to send RTP audio: '') r))
                | None \<Rightarrow> (c, Inl (E_InvalidState (msg ''RTP sockets not connected'') (ascii ''Disconnected''))))))"

definition send_rtcp_control :: "bytes \<Rightarrow> client \<Rightarrow> client \<times> (client_error, unit) result" where
  "send_rtcp_control packet c =
     (case cm_sockets c of
        None \<Rightarrow> (c, Inl (E_Disconnected (ascii ''none'')))
      | Some socks \<Rightarrow>
          (case cm_device c of
             None \<Rightarrow> (c, Inl (E_Disconnected (ascii ''none'')))
           | Some d \<Rightarrow>
               (case udp_send_to (Some (device_address d, uds_server_control_port socks)) packet (uds_control socks) of (u, r) \<Rightarrow>
                  (c\<lparr>cm_sockets := Some (socks\<lparr>uds_control := u\<rparr>)\<rparr>,
                   map_err (\<lambda>e. E_IoError (Prefixed (ascii ''Failed to send RTCP control packet: '') (Cause_Io e))) r))))"

text \<open>The task that listens on the control socket, on one datagram; it reads at most 1024 bytes.\<close>

definition control_listener :: "bytes \<Rightarrow> client \<Rightarrow> client" where
  "control_listener datagram c =
     (let data = take 1024 datagram in
      if length data \<ge> 8 \<and> data ! 0 = 0x80 \<and> data ! 1 = 0xD5
      then send_event (CE_RetransmitRequest (from_be [data ! 4, data ! 5]) (from_be [data ! 6, data ! 7])) c
      else c)"

section \<open>Network time\<close>

text \<open>Nanoseconds as a 64-bit binary fraction of a second.\<close>

definition network_fraction :: "u32 \<Rightarrow> u64" where
  "network_fraction nanoseconds = of_nat (unat nanoseconds * 2 ^ 64 div 1000000000)"

definition anchor_time :: "client_env \<Rightarrow> client \<Rightarrow> ptp_timestamp option" where
  "anchor_time env c =
     (let now = ptp_ts_now (ce_system_clock env) in
      case cm_ptp_clock c of
        Some clock \<Rightarrow> ptp_from_nanos_or_zero (ptp_to_nanos now - pc_offset_ns clock)
      | None \<Rightarrow> Some now)"

definition anchor_plist :: "u64 \<Rightarrow> u64 \<Rightarrow> ptp_timestamp \<Rightarrow> plist" where
  "anchor_plist rate device_clock_id remote =
     (let body = dict_insert (ascii ''rtpTime'') (PInteger 0) (dict_insert (ascii ''rate'') (PReal rate) []) in
      PDictionary
        (if device_clock_id = 0 then body
         else dict_insert (ascii ''networkTimeTimelineID'') (PInteger device_clock_id)
               (dict_insert (ascii ''networkTimeFrac'') (PInteger (network_fraction (ts_nanoseconds remote)))
                 (dict_insert (ascii ''networkTimeSecs'') (PInteger (ts_seconds remote)) body))))"

definition send_set_rate_anchor_time :: "client_env \<Rightarrow> u64 \<Rightarrow> client \<Rightarrow> (client, (client_error, unit) result) call_outcome" where
  "send_set_rate_anchor_time env rate c =
     no_panic (anchor_time env c) (\<lambda>remote.
     no_panic (plist_encode (anchor_plist rate (or_else (cm_device_clock_id c) 0) remote)) (\<lambda>r.
       await_ok (from_result (map_err (\<lambda>e. E_RtspError (Prefixed (ascii ''Failed to encode SETRATEANCHORTIME plist: '') (Cause_Plist e)) None) r)) (\<lambda>encoded.
       await_ok (send_command env Method_SetRateAnchorTime (Some encoded) (Some binary_plist_type)) (\<lambda>_. ok_val ())))) c"

text \<open>\<open>get_ptp_network_time\<close>: \<open>None\<close> is a panic, \<open>Some None\<close> that there is no time yet.\<close>

definition get_ptp_network_time :: "client_env \<Rightarrow> client \<Rightarrow> (u64 \<times> u64 \<times> u64) option option" where
  "get_ptp_network_time env c =
     (case cm_ptp_clock c of
        None \<Rightarrow> Some None
      | Some clock \<Rightarrow>
          (if \<not> pc_synchronized clock then Some None
           else case ptp_clock_remote_to_local clock (ptp_ts_now (ce_system_clock env)) of
                  None \<Rightarrow> None
                | Some master_time \<Rightarrow>
                    (if unat (ts_nanoseconds master_time) * 2 ^ 64 div 1000000000 < 2 ^ 64
                     then Some (Some (ts_seconds master_time, network_fraction (ts_nanoseconds master_time),
                                      or_else (pc_remote_master_clock_id clock) (pc_clock_id clock)))
                     else None)))"

text \<open>The NTP time of an announcement, moved by the measured offset in microseconds.\<close>

definition shifted_ntp :: "int \<Rightarrow> ntp_timestamp \<Rightarrow> ntp_timestamp option" where
  "shifted_ntp offset t =
     (if offset = 0 then Some t
      else let now = ntp_to_micros t in
        if offset > 0 \<and> \<not> uint now + offset < 2 ^ 64 then None
        else let micros = (if offset > 0 then now + of_int offset
                           else if uint now < - offset then 0 else now - of_int (- offset))
             in Some \<lparr>ntp_seconds = ucast (micros div 1000000),
                      ntp_fraction = ucast (push_bit 32 (micros mod 1000000) div 1000000)\<rparr>)"

definition send_control :: "string \<Rightarrow> control_packet \<Rightarrow> client \<Rightarrow> client \<times> (client_error, unit) result" where
  "send_control t packet c =
     (case cm_sockets c of
        None \<Rightarrow> (c, Inr ())
      | Some socks \<Rightarrow>
          (case udp_send (control_packet_encode packet) (uds_control socks) of (u, r) \<Rightarrow>
             (c\<lparr>cm_sockets := Some (socks\<lparr>uds_control := u\<rparr>)\<rparr>, map_err (io_failed t) r)))"

definition count_announce :: "client \<Rightarrow> client" where
  "count_announce c = c\<lparr>cm_time_announce_count := cm_time_announce_count c + 1\<rparr>"

definition announce_ntp :: "client_env \<Rightarrow> u32 \<Rightarrow> u32 \<Rightarrow> client \<Rightarrow> (client \<times> (client_error, unit) result) option" where
  "announce_ntp env rtp_timestamp sample_rate c =
     map_option (\<lambda>t.
       send_control ''Failed to send NTP TimeAnnounce: ''
         (TimeAnnounceNtp rtp_timestamp (push_bit 32 (ucast (ntp_seconds t)) OR ucast (ntp_fraction t))
            (rtp_timestamp + sample_rate)) (count_announce c))
       (shifted_ntp (cm_ntp_offset c) (ntp_now (ce_system_clock env)))"

definition send_time_announce :: "client_env \<Rightarrow> u32 \<Rightarrow> u32 \<Rightarrow> client \<Rightarrow> (client \<times> (client_error, unit) result) option" where
  "send_time_announce env rtp_timestamp sample_rate c =
     (case cm_ptp_clock c of
        None \<Rightarrow> announce_ntp env rtp_timestamp sample_rate c
      | Some clock \<Rightarrow>
          (case ptp_clock_master_now (ce_instant env) clock of
             None \<Rightarrow> None
           | Some None \<Rightarrow> Some (c, Inr ())
           | Some (Some master_time) \<Rightarrow>
               (let n = ptp_to_nanos master_time;
                    ptp_nanos = (if n < 2 ^ 64 then of_int n else 0);
                    clock_id = or_else (pc_remote_master_clock_id clock) (pc_clock_id clock)
                in Some (send_control ''Failed to send TimeAnnounce: ''
                     (TimeAnnouncePtp rtp_timestamp ptp_nanos (rtp_timestamp + sample_rate) clock_id)
                     (count_announce c)))))"

section \<open>Disconnecting\<close>

text \<open>The shutdown signal stops the tasks that watch the channel.\<close>

definition stop_ptp :: "client \<Rightarrow> client" where
  "stop_ptp c =
     c\<lparr>cm_tasks := (case cm_ptp_shutdown_tx c of
                      None \<Rightarrow> cm_tasks c
                    | Some k \<Rightarrow> filter (\<lambda>(k', _). k' \<noteq> k) (cm_tasks c)),
       cm_ptp_shutdown_tx := None, cm_ptp_clock := None, cm_ptp_active := False\<rparr>"

definition close_connection :: "disconnect_reason \<Rightarrow> airplay_device option \<Rightarrow> client \<Rightarrow> client" where
  "close_connection reason device c =
     (let c1 = (stop_ptp c)\<lparr>cm_event_task := False, cm_stream := None, cm_sockets := None,
                 cm_audio_tcp_stream := None, cm_rtsp_session := None, cm_session_keys := None\<rparr>;
          c2 = set_state CS_Disconnected c1
      in case device of None \<Rightarrow> c2 | Some d \<Rightarrow> send_event (CE_Disconnected d reason) c2)"

definition disconnect_with_reason :: "client_env \<Rightarrow> disconnect_reason \<Rightarrow> client \<Rightarrow>
    (client, (client_error, unit) result) call_outcome" where
  "disconnect_with_reason env reason c =
     (let device = cm_device c in
      if cm_state c = CS_Connected \<and> cm_rtsp_session c \<noteq> None
      then await (await_ok (build_request teardown_request) (send_rtsp_request env))
             (\<lambda>_ c. Returned (close_connection reason device c) (Inr ())) c
      else Returned (close_connection reason device c) (Inr ()))"

definition disconnect :: "client_env \<Rightarrow> client \<Rightarrow> (client, (client_error, unit) result) call_outcome" where
  "disconnect env = disconnect_with_reason env DR_UserRequested"

definition is_ptp_synchronized :: "client \<Rightarrow> bool" where
  "is_ptp_synchronized c = (case cm_ptp_clock c of None \<Rightarrow> False | Some clock \<Rightarrow> pc_synchronized clock)"

definition remove_pairing :: "str \<Rightarrow> client \<Rightarrow> client" where
  "remove_pairing device_id c =
     (case cm_pairing_storage c of
        None \<Rightarrow> c
      | Some storage \<Rightarrow> c\<lparr>cm_pairing_storage := Some (storage_remove storage device_id)\<rparr>)"

end
