(* ===== verification/Client_Pairing.thy ===== *)
theory Client_Pairing
  imports Client_Connection Pairing_Server
begin

text \<open>
  How the connection manager authenticates, \<open>src/connection/manager.rs\<close>: the pairing dialogues over
  the connection, the stored keys, the configured PIN, transient pairing and the list of guessed
  credentials. The secrets of the \<open>k\<close>-th pair-setup of a call are \<open>ce_pair_secrets env k\<close>. The pause
  of half a second between two guesses is left out: nothing of the manager changes in it.
\<close>

section \<open>Dialogues\<close>

definition pairing_failed :: "pairing_error \<Rightarrow> client_error" where
  "pairing_failed e = E_AuthenticationFailed (Prefixed [] (Cause_Pairing e)) False"

definition auth_failed :: "string \<Rightarrow> client_error" where
  "auth_failed t = E_AuthenticationFailed (msg t) False"

text \<open>One step of a dialogue: the session after it and \<open>?\<close> on its result.\<close>

definition pairing_step :: "'p \<times> (pairing_error, 'a) result \<Rightarrow>
    ('p \<Rightarrow> 'a \<Rightarrow> client \<Rightarrow> (client, (client_error, 'b) result) call_outcome) \<Rightarrow>
    client \<Rightarrow> (client, (client_error, 'b) result) call_outcome" where
  "pairing_step pr f = (case pr of (p, r) \<Rightarrow> await_ok (from_result (map_err pairing_failed r)) (f p))"

definition PAIR_SETUP :: str where "PAIR_SETUP = ascii ''/pair-setup''"
definition PAIR_VERIFY :: str where "PAIR_VERIFY = ascii ''/pair-verify''"

definition stored_pairing_keys :: "crypto_lib \<Rightarrow> pair_setup \<Rightarrow> pairing_keys option" where
  "stored_pairing_keys L p =
     (case pst_device_ltpk p of
        None \<Rightarrow> None
      | Some device_pk \<Rightarrow>
          (if length device_pk = 32
           then Some \<lparr>pk_identifier = ascii ''airplay2-rs'', pk_secret_key = pst_signing_keypair p,
                      pk_public_key = ed_public L (pst_signing_keypair p), pk_device_public_key = device_pk\<rparr>
           else None))"

definition pair_setup_m6 :: "client_env \<Rightarrow> pair_setup \<Rightarrow> bytes \<Rightarrow> client \<Rightarrow>
    (client, (client_error, session_keys \<times> pairing_keys option) result) call_outcome" where
  "pair_setup_m6 env p m6 =
     pairing_step (pair_setup_process_m6 (ce_lib env) p m6) (\<lambda>p result.
       case result of
         Step_Complete keys \<Rightarrow> ok_val (keys, stored_pairing_keys (ce_lib env) p)
       | _ \<Rightarrow> err_val (auth_failed ''Pairing did not complete''))"

definition client_pair_setup :: "client_env \<Rightarrow> nat \<Rightarrow> str \<Rightarrow> str \<Rightarrow> client \<Rightarrow>
    (client, (client_error, session_keys \<times> pairing_keys option) result) call_outcome" where
  "client_pair_setup env k username pin =
     (case ce_pair_secrets env k of (signing_keypair, random) \<Rightarrow>
      let L = ce_lib env;
          pairing = pair_setup_set_pin (pair_setup_set_username (pair_setup_new signing_keypair) username) pin in
      pairing_step (pair_setup_start pairing) (\<lambda>p m1.
      await_ok (send_pairing_data env m1 PAIR_SETUP) (\<lambda>m2.
      pairing_step (pair_setup_process_m2 L p random m2) (\<lambda>p result.
      case result of
        Step_SendData m3 \<Rightarrow>
          await_ok (send_pairing_data env m3 PAIR_SETUP) (\<lambda>m4.
          pairing_step (pair_setup_process_m4 L p m4) (\<lambda>p result.
          case result of
            Step_Complete keys \<Rightarrow> ok_val (keys, None)
          | Step_SendData m5 \<Rightarrow> await_ok (send_pairing_data env m5 PAIR_SETUP) (pair_setup_m6 env p)
          | _ \<Rightarrow> err_val (auth_failed ''Unexpected pairing state after M4'')))
      | _ \<Rightarrow> err_val (auth_failed ''Unexpected pairing state after M2'')))))"

definition transient_pair :: "client_env \<Rightarrow> nat \<Rightarrow> client \<Rightarrow> (client, (client_error, session_keys) result) call_outcome" where
  "transient_pair env k =
     (case ce_pair_secrets env k of (signing_keypair, random) \<Rightarrow>
      let L = ce_lib env;
          pairing = pair_setup_set_username
            (pair_setup_set_pin (pair_setup_set_transient (pair_setup_new signing_keypair) True) (ascii ''3939''))
            (ascii ''Pair-Setup'') in
      pairing_step (pair_setup_start pairing) (\<lambda>p m1.
      await_ok (send_pairing_data env m1 PAIR_SETUP) (\<lambda>m2.
      pairing_step (pair_setup_process_m2 L p random m2) (\<lambda>p result.
      case result of
        Step_SendData m3 \<Rightarrow>
          await_ok (send_pairing_data env m3 PAIR_SETUP) (\<lambda>m4.
          pairing_step (pair_setup_process_m4 L p m4) (\<lambda>p result.
          case result of
            Step_Complete keys \<Rightarrow> ok_val keys
          | Step_SendData _ \<Rightarrow> err_val (auth_failed ''Unexpected continuation after M4 in transient mode'')
          | _ \<Rightarrow> err_val (auth_failed ''Pairing did not complete'')))
      | _ \<Rightarrow> err_val (auth_failed ''Unexpected pairing state after M2'')))))"

definition client_pair_verify :: "client_env \<Rightarrow> pairing_keys \<Rightarrow> client \<Rightarrow>
    (client, (client_error, session_keys) result) call_outcome" where
  "client_pair_verify env keys =
     (let L = ce_lib env in
      await_ok (from_result (map_err pairing_failed
        (pair_verify_new L keys (pk_device_public_key keys) (ce_verify_keypair env)))) (\<lambda>pairing.
      pairing_step (pair_verify_start L pairing) (\<lambda>p m1.
      await_ok (send_pairing_data env m1 PAIR_VERIFY) (\<lambda>m2.
      pairing_step (pair_verify_process_m2 L p m2) (\<lambda>p result.
      case result of
        Step_SendData m3 \<Rightarrow>
          await_ok (send_pairing_data env m3 PAIR_VERIFY) (\<lambda>m4.
          pairing_step (pair_verify_process_m4 L p m4) (\<lambda>p result.
          case result of
            Step_Complete keys \<Rightarrow> ok_val keys
          | _ \<Rightarrow> err_val (auth_failed ''Verification did not complete'')))
      | _ \<Rightarrow> err_val (auth_failed ''Unexpected pairing state''))))))"

section \<open>Authentication\<close>

definition secure_with :: "session_keys \<Rightarrow> client \<Rightarrow> client" where
  "secure_with keys c =
     c\<lparr>cm_secure_session := Some (hap_new (sk_encrypt_key keys) (sk_decrypt_key keys)), cm_session_keys := Some keys\<rparr>"

text \<open>The attempts give their result without the error, which is only logged.\<close>

definition try_transient_pairing :: "client_env \<Rightarrow> nat \<Rightarrow> client \<Rightarrow> (client, bool) call_outcome" where
  "try_transient_pairing env k =
     await (transient_pair env k) (\<lambda>r c.
       case r of Inr keys \<Rightarrow> Returned (secure_with keys c) True | Inl _ \<Rightarrow> Returned c False)"

definition try_stored_keys :: "client_env \<Rightarrow> airplay_device \<Rightarrow> client \<Rightarrow> (client, bool) call_outcome" where
  "try_stored_keys env device c =
     (case Option.bind (cm_pairing_storage c) (\<lambda>storage. storage_load storage (dev_id device)) of
        None \<Rightarrow> Returned c False
      | Some keys \<Rightarrow>
          await (client_pair_verify env keys) (\<lambda>r c.
            case r of
              Inr session_keys \<Rightarrow> Returned (c\<lparr>cm_session_keys := Some session_keys\<rparr>) True
            | Inl _ \<Rightarrow> Returned c False) c)"

definition handle_pairing_success :: "airplay_device \<Rightarrow> session_keys \<Rightarrow> pairing_keys option \<Rightarrow> client \<Rightarrow> client" where
  "handle_pairing_success device session_keys pairing_keys c =
     (let c' = secure_with session_keys c in
      case (cm_pairing_storage c', pairing_keys) of
        (Some storage, Some keys) \<Rightarrow> c'\<lparr>cm_pairing_storage := Some (storage_save storage (dev_id device) keys)\<rparr>
      | _ \<Rightarrow> c')"

text \<open>The loops over credentials: the first pair-setup that succeeds wins.\<close>

fun try_credentials :: "client_env \<Rightarrow> airplay_device \<Rightarrow> client_error \<Rightarrow> nat \<Rightarrow> (str \<times> str) list \<Rightarrow> client \<Rightarrow>
    (client, (client_error, unit) result) call_outcome" where
  "try_credentials env device failed k [] = err_val failed"
| "try_credentials env device failed k ((user, pin) # rest) =
     await (client_pair_setup env k user pin) (\<lambda>r c.
       case r of
         Inr (session_keys, pairing_keys) \<Rightarrow> Returned (handle_pairing_success device session_keys pairing_keys c) (Inr ())
       | Inl _ \<Rightarrow> try_credentials env device failed (k + 1) rest c)"

definition try_configured_pin :: "client_env \<Rightarrow> airplay_device \<Rightarrow> str \<Rightarrow> client \<Rightarrow> (client, (client_error, unit) result) call_outcome" where
  "try_configured_pin env device pin =
     try_credentials env device (auth_failed ''Authentication failed with configured PIN'') 0
       (map (\<lambda>user. (ascii user, pin)) [''Pair-Setup'', ''AirPlay'', ''admin''])"

definition guessed_credentials :: "(str \<times> str) list" where
  "guessed_credentials =
     map (map_prod ascii ascii)
       [(''Pair-Setup'', ''3939''), (''Pair-Setup'', ''0000''), (''Pair-Setup'', ''1111''), (''Pair-Setup'', ''1234''),
        (''3939'', ''3939''), (''admin'', ''3939''), (''AirPlay'', ''3939''), (''Pair-Setup'', '''')]"

definition try_brute_force_pairing :: "client_env \<Rightarrow> airplay_device \<Rightarrow> client \<Rightarrow> (client, (client_error, unit) result) call_outcome" where
  "try_brute_force_pairing env device =
     try_credentials env device (auth_failed ''All pairing methods failed'') 1 guessed_credentials"

definition authenticate :: "client_env \<Rightarrow> airplay_device \<Rightarrow> client \<Rightarrow> (client, (client_error, unit) result) call_outcome" where
  "authenticate env device =
     await (try_stored_keys env device) (\<lambda>stored c.
       if stored then Returned c (Inr ())
       else case cfg_pin (cm_config c) of
              Some pin \<Rightarrow> try_configured_pin env device pin c
            | None \<Rightarrow>
                await (try_transient_pairing env 0) (\<lambda>paired.
                  if paired then ok_val () else try_brute_force_pairing env device) c)"

definition auth_setup :: "client_env \<Rightarrow> client \<Rightarrow> (client, (client_error, unit) result) call_outcome" where
  "auth_setup env =
     await_ok (send_post_command env (ascii ''/auth-setup'')
       (Some (auth_setup_start (ce_lib env) (ce_auth_keypair env))) (Some (ascii ''application/octet-stream''))) (\<lambda>response.
     from_result (map_err (\<lambda>e. E_AuthenticationFailed (Prefixed (ascii ''Auth-Setup response invalid: '') (Cause_Pairing e)) False)
       (auth_setup_process_response response)))"

end
