(* ===== verification/Client_Exchange.thy ===== *)
theory Client_Exchange
  imports Client_Connection
begin

text \<open>
  Requests and their answers on the client's connection, in the clear and encrypted: however the
  device's bytes arrive, a request gets the answer that carries its sequence number.
\<close>

section \<open>Encrypted blocks that arrive in pieces\<close>

lemma hap_block_shape:
  assumes "aead_correct enc dec" and "length k = 32" and "length m \<le> 65535"
  shows "length (hap_block enc k n m) = length m + 18"
    and "unat (from_le (take 2 (hap_block enc k n m)) :: u16) = length m"
proof -
  let ?w = "of_nat (length m) :: u16"
  obtain ct where ct: "enc k (nonce_from_counter n) (le_bytes 2 ?w) m = Some ct" "length ct = length m + 16"
    using aead_correctD [OF assms(1,2) length_nonce assms(3)] by metis
  then show "length (hap_block enc k n m) = length m + 18" by (simp add: hap_block_def)
  have "take 2 (hap_block enc k n m) = le_bytes 2 ?w" by (simp add: hap_block_def ct(1))
  then show "unat (from_le (take 2 (hap_block enc k n m)) :: u16) = length m"
    using assms(3) by (simp add: le_bytes_2 from_le_2 unat_of_nat take_bit_nat_eq_self)
qed

lemma open_blocks_wire:
  assumes "aead_correct enc dec"
  shows "length (hap_decrypt_key h) = 32 \<Longrightarrow> \<forall>m\<in>set ms. length m \<le> 65535 \<Longrightarrow>
    unat (hap_decrypt_count h) + length ms < 2 ^ 64 \<Longrightarrow>
    pending @ rest = hap_wire enc (hap_decrypt_key h) (hap_decrypt_count h) ms \<Longrightarrow>
    codec_holds b codec p \<Longrightarrow> length p + length (concat ms) \<le> b \<Longrightarrow>
    \<exists>ms1 ms2 codec' pending'.
      open_blocks dec h codec pending =
        Some (h\<lparr>hap_decrypt_count := hap_decrypt_count h + of_nat (length ms1)\<rparr>, codec', pending', Inr ())
      \<and> ms = ms1 @ ms2 \<and> codec_holds b codec' (p @ concat ms1)
      \<and> pending' @ rest = hap_wire enc (hap_decrypt_key h) (hap_decrypt_count h + of_nat (length ms1)) ms2
      \<and> (rest = [] \<longrightarrow> ms2 = [])"
proof (induction ms arbitrary: h codec pending p)
  case Nil
  then show ?case by (intro exI [of _ "[]"] exI [of _ codec] exI [of _ pending]) (simp add: open_blocks.simps)
next
  case (Cons m ms)
  let ?k = "hap_decrypt_key h" and ?n = "hap_decrypt_count h"
  let ?blk = "hap_block enc ?k ?n m"
  have n: "unat ?n + 1 < 2 ^ 64" and m: "length m \<le> 65535" using Cons.prems by simp_all
  note shape = hap_block_shape [OF assms Cons.prems(1) m, of ?n]
  show ?case
  proof (cases "length ?blk \<le> length pending")
    case True
    then obtain q where q: "pending = ?blk @ q" "q @ rest = hap_wire enc ?k (?n + 1) ms"
      using Cons.prems(4) append_prefix_split [of ?blk "hap_wire enc ?k (?n + 1) ms" pending rest] by auto
    let ?h = "h\<lparr>hap_decrypt_count := ?n + 1\<rparr>"
    obtain codec1 where feed: "codec_feed codec m = Inr codec1" "codec_holds b codec1 (p @ m)"
      using client.feed_holds [OF Cons.prems(5), of m] Cons.prems(6) by auto
    have "take 2 pending = take 2 ?blk" using q(1) shape(1) by simp
    moreover have "hap_decrypt_block dec h ?blk = Some (?h, Inr (m, []))"
      using hap_decrypt_block_ok [OF assms Cons.prems(1) m n, of "[]"] by simp
    moreover have "take (length m + 18) pending = ?blk" "drop (length m + 18) pending = q"
      using q(1) shape(1) by simp_all
    ultimately have "open_blocks dec h codec pending = open_blocks dec ?h codec1 q"
      using q(1) shape feed(1) by (subst open_blocks.simps) (simp add: Let_def add.commute)
    moreover obtain ms1 ms2 codec' pending' where
      "open_blocks dec ?h codec1 q =
        Some (?h\<lparr>hap_decrypt_count := hap_decrypt_count ?h + of_nat (length ms1)\<rparr>, codec', pending', Inr ())"
      "ms = ms1 @ ms2" "codec_holds b codec' ((p @ m) @ concat ms1)"
      "pending' @ rest = hap_wire enc ?k (?n + 1 + of_nat (length ms1)) ms2" "rest = [] \<longrightarrow> ms2 = []"
      using Cons.IH [of ?h q codec1 "p @ m"] Cons.prems q(2) feed(2) counter_succ_below [OF n] by auto
    ultimately show ?thesis
      by (intro exI [of _ "m # ms1"] exI [of _ ms2] exI [of _ codec'] exI [of _ pending']) (simp add: add.assoc)
  next
    case False
    then have rest: "rest \<noteq> []" using Cons.prems(4) by auto
    have "open_blocks dec h codec pending = Some (h, codec, pending, Inr ())"
    proof (cases "length pending < 2")
      case True
      then show ?thesis by (simp add: open_blocks.simps)
    next
      case two: False
      have "take 2 pending = take 2 (pending @ rest)" using two by simp
      also have "\<dots> = take 2 ?blk" unfolding Cons.prems(4) using shape(1) by simp
      finally show ?thesis using two False shape by (subst open_blocks.simps) (simp add: Let_def)
    qed
    then show ?thesis
      using Cons.prems rest
      by (intro exI [of _ "[]"] exI [of _ "m # ms"] exI [of _ codec] exI [of _ pending]) simp
  qed
qed

section \<open>The answer to a request\<close>

text \<open>
  What is still to come of the device's plain bytes, after those that the codec holds. On an
  encrypted connection it is the contents of whole blocks, of which a part may be pending.
\<close>

definition to_come :: "aead \<Rightarrow> response_reader \<Rightarrow> bytes \<Rightarrow> bool" where
  "to_come enc x plain \<longleftrightarrow>
     (case rx_secure x of
        None \<Rightarrow> rx_pending x = [] \<and> arrived (rx_in x) = plain
      | Some h \<Rightarrow>
          length (hap_decrypt_key h) = 32
          \<and> (\<exists>ms. rx_pending x @ arrived (rx_in x) = hap_wire enc (hap_decrypt_key h) (hap_decrypt_count h) ms
               \<and> concat ms = plain \<and> (\<forall>m\<in>set ms. m \<noteq> [] \<and> length m \<le> 65535)
               \<and> unat (hap_decrypt_count h) + length ms < 2 ^ 64 \<and> (arrived (rx_in x) = [] \<longrightarrow> ms = [])))"

lemma to_come_arrived: "to_come enc x plain \<Longrightarrow> plain \<noteq> [] \<Longrightarrow> arrived (rx_in x) \<noteq> []"
  by (auto simp: to_come_def split: option.splits)

lemma accept_step:
  assumes "aead_correct enc dec" and "codec_holds b codec p" and "to_come enc x plain"
    and "arrived (rx_in x) = data @ arrived later" and "length p + length plain \<le> b"
  obtains codec' secure' pending' p1 plain' where
    "accept_bytes dec data codec (rx_secure x) (rx_pending x) = Some (codec', secure', pending', Inr ())"
    "codec_holds b codec' (p @ p1)" "plain = p1 @ plain'"
    "to_come enc (x\<lparr>rx_codec := codec', rx_in := later, rx_secure := secure', rx_stats := stats, rx_pending := pending'\<rparr>) plain'"
    "rx_secure x = None \<longleftrightarrow> secure' = None"
proof (cases "rx_secure x")
  case None
  then have plain: "plain = data @ arrived later" "rx_pending x = []" using assms(3,4) by (simp_all add: to_come_def)
  then obtain codec' where "codec_feed codec data = Inr codec'" "codec_holds b codec' (p @ data)"
    using client.feed_holds [OF assms(2), of data] assms(5) by auto
  then show thesis using None plain by (intro that [of codec' None "[]" data "arrived later"]) (simp_all add: accept_bytes_def to_come_def)
next
  case (Some h)
  then obtain ms where ms: "rx_pending x @ arrived (rx_in x) = hap_wire enc (hap_decrypt_key h) (hap_decrypt_count h) ms"
      "concat ms = plain" "\<forall>m\<in>set ms. m \<noteq> [] \<and> length m \<le> 65535" "unat (hap_decrypt_count h) + length ms < 2 ^ 64"
    and key: "length (hap_decrypt_key h) = 32"
    using assms(3) by (auto simp: to_come_def)
  obtain ms1 ms2 codec' pending' where o:
      "open_blocks dec h codec (rx_pending x @ data) =
        Some (h\<lparr>hap_decrypt_count := hap_decrypt_count h + of_nat (length ms1)\<rparr>, codec', pending', Inr ())"
      "ms = ms1 @ ms2" "codec_holds b codec' (p @ concat ms1)"
      "pending' @ arrived later = hap_wire enc (hap_decrypt_key h) (hap_decrypt_count h + of_nat (length ms1)) ms2"
      "arrived later = [] \<longrightarrow> ms2 = []"
    using open_blocks_wire [OF assms(1) key _ ms(4), of "rx_pending x @ data" "arrived later" b codec p] assms(2,4,5) ms(1,2,3) by auto
  have "unat (hap_decrypt_count h + of_nat (length ms1)) + length ms2 < 2 ^ 64"
    using ms(4) o(2) unat_add_of_nat_le [of "hap_decrypt_count h" "length ms1"] by simp
  then show thesis
    using Some key ms o
    by (intro that [of codec' "Some (h\<lparr>hap_decrypt_count := hap_decrypt_count h + of_nat (length ms1)\<rparr>)" pending' "concat ms1" "concat ms2"])
      (auto simp: accept_bytes_def to_come_def intro!: exI [of _ ms2])
qed

lemma record_received_below:
  "unat (st_bytes_received s) + n < 2 ^ 64 \<Longrightarrow>
   \<exists>s'. record_received s n = Some s' \<and> unat (st_bytes_received s') = unat (st_bytes_received s) + n
     \<and> st_bytes_sent s' = st_bytes_sent s"
  using unat_add_of_nat_le [of "st_bytes_received s" n] unat_of_nat_small [of n, where 'a = 64]
  by (auto simp: record_received_def add_bytes_def unat_word_ariths)

lemma receive_answer:
  assumes "response_ok r"
  shows "codec_holds b (rx_codec x) p \<Longrightarrow> to_come enc x plain \<Longrightarrow>
    p @ plain = concat (map encode_response rs) @ encode_response r @ rest \<Longrightarrow>
    list_all response_ok rs \<Longrightarrow> list_all (deferred expected) rs \<Longrightarrow> length p + length plain \<le> b \<Longrightarrow>
    unat (st_bytes_received (rx_stats x)) + length (arrived (rx_in x)) < 2 ^ 64 \<Longrightarrow>
    aead_correct enc dec \<Longrightarrow> \<not> deferred expected r \<Longrightarrow>
    \<exists>x' p' plain'. receive_response dec expected x = Returned x' (Inr r)
      \<and> codec_holds b (rx_codec x') p' \<and> to_come enc x' plain' \<and> p' @ plain' = rest
      \<and> (rx_secure x' = None \<longleftrightarrow> rx_secure x = None) \<and> st_bytes_sent (rx_stats x') = st_bytes_sent (rx_stats x)"
proof (induction dec expected x arbitrary: rs p plain rule: receive_response.induct)
  case (1 dec expected x)
  define q where "q = hd (rs @ [r])"
  have q: "response_ok q" using "1.prems"(4) assms by (cases rs) (simp_all add: q_def)
  obtain qs where frames: "p @ plain = encode_response q @ qs"
    using "1.prems"(3) by (cases rs) (simp_all add: q_def)
  show ?case
  proof (cases "length (encode_response q) \<le> length p")
    case True
    then obtain p1 where p1: "p = encode_response q @ p1" "qs = p1 @ plain"
      using append_prefix_split [of "encode_response q" qs p plain] frames by auto
    then obtain codec where dec: "codec_decode (rx_codec x) = (codec, Inr (Some q))" "codec_holds b codec p1"
      using client.dec_whole [OF q] "1.prems"(1) by blast
    let ?x = "x\<lparr>rx_codec := codec\<rparr>"
    have come: "to_come enc ?x plain" using "1.prems"(2) by (simp add: to_come_def split: option.splits)
    show ?thesis
    proof (cases rs)
      case Nil
      then have "q = r" and "p1 @ plain = rest" using "1.prems"(3) p1 by (simp_all add: q_def)
      then show ?thesis
        using dec come "1.prems"(9) by (intro exI [of _ ?x] exI [of _ p1] exI [of _ plain]) (simp add: receive_response.simps)
    next
      case (Cons q' rs')
      then have rs: "q' = q" "deferred expected q" "list_all response_ok rs'" "list_all (deferred expected) rs'"
          "p1 @ plain = concat (map encode_response rs') @ encode_response r @ rest"
        using "1.prems"(3,4,5) p1(1) by (simp_all add: q_def)
      have "receive_response dec expected x = receive_response dec expected ?x"
        using dec(1) rs(2) by (simp add: receive_response.simps [of dec expected x])
      then show ?thesis
        using "1.IH"(2) [OF dec(1) [symmetric] refl refl rs(2), of p1 plain rs'] dec(2) come rs(3-5) "1.prems"(6-9) p1(1) by simp
    qed
  next
    case False
    then obtain s where s: "encode_response q = p @ s" "s \<noteq> []" "plain = s @ qs"
      using append_prefix_split [of p plain "encode_response q" qs] frames by auto
    then obtain codec where dec: "codec_decode (rx_codec x) = (codec, Inr None)" "codec_holds b codec p"
      using client.dec_part [OF q "1.prems"(1)] by blast
    have "arrived (rx_in x) \<noteq> []" using to_come_arrived [OF "1.prems"(2)] s by simp
    then obtain later data where t: "take_arrival 4096 (rx_in x) = Some (later, Inr data)" "data \<noteq> []"
        "arrived (rx_in x) = data @ arrived later"
      using take_arrival_next [of "rx_in x" 4096] by auto
    have received: "unat (st_bytes_received (rx_stats x)) + length data < 2 ^ 64" using "1.prems"(7) t(3) by simp
    then obtain stats where stats: "record_received (rx_stats x) (length data) = Some stats"
        "unat (st_bytes_received stats) = unat (st_bytes_received (rx_stats x)) + length data"
        "st_bytes_sent stats = st_bytes_sent (rx_stats x)"
      using record_received_below by blast
    obtain codec' secure' pending' p1 plain' where a:
        "accept_bytes dec data codec (rx_secure x) (rx_pending x) = Some (codec', secure', pending', Inr ())"
        "codec_holds b codec' (p @ p1)" "plain = p1 @ plain'"
        "to_come enc (x\<lparr>rx_codec := codec', rx_in := later, rx_secure := secure', rx_stats := stats, rx_pending := pending'\<rparr>) plain'"
        "rx_secure x = None \<longleftrightarrow> secure' = None"
      using accept_step [OF "1.prems"(8) dec(2) "1.prems"(2) t(3) "1.prems"(6), of stats] by blast
    let ?x = "x\<lparr>rx_codec := codec', rx_in := later, rx_secure := secure', rx_stats := stats, rx_pending := pending'\<rparr>"
    have step: "receive_response dec expected x = receive_response dec expected ?x"
      using dec(1) t a(1) stats(1) by (simp add: receive_response.simps [of dec expected x])
    have "\<exists>x' p' plain'. receive_response dec expected ?x = Returned x' (Inr r)
      \<and> codec_holds b (rx_codec x') p' \<and> to_come enc x' plain' \<and> p' @ plain' = rest
      \<and> (rx_secure x' = None \<longleftrightarrow> rx_secure ?x = None) \<and> st_bytes_sent (rx_stats x') = st_bytes_sent (rx_stats ?x)"
      by (rule "1.IH"(1) [OF dec(1) [symmetric] refl refl t(1) refl refl t(2) a(1) refl refl refl refl stats(1), of "p @ p1" plain' rs])
        (use a "1.prems" t(3) stats(2) in simp_all)
    then show ?thesis using step a(5) stats(3) by simp
  qed
qed

text \<open>The same for the manager: what the device has still to say, and how it sees what was written.\<close>

definition device_says :: "client_env \<Rightarrow> client \<Rightarrow> bytes \<Rightarrow> bool" where
  "device_says env c plain \<longleftrightarrow>
     (\<exists>t. cm_stream c = Some t
       \<and> to_come (seal (ce_lib env))
           \<lparr>rx_in = tcp_in t, rx_codec = cm_rtsp_codec c, rx_secure = cm_secure_session c, rx_stats = cm_stats c,
            rx_pending = []\<rparr> plain)"

definition device_sees :: "client_env \<Rightarrow> hap_session option \<Rightarrow> bytes \<Rightarrow> bytes" where
  "device_sees env secure data =
     (case secure of
        None \<Rightarrow> data
      | Some h \<Rightarrow> hap_wire (seal (ce_lib env)) (hap_encrypt_key h) (hap_encrypt_count h) (chunks 1024 data))"

definition can_seal :: "hap_session option \<Rightarrow> bytes \<Rightarrow> bool" where
  "can_seal secure data \<longleftrightarrow>
     (case secure of
        None \<Rightarrow> True
      | Some h \<Rightarrow> length (hap_encrypt_key h) = 32 \<and> unat (hap_encrypt_count h) + length (chunks 1024 data) < 2 ^ 64)"

lemma to_come_codec:
  assumes "to_come enc x plain" and "rx_in y = rx_in x" and "rx_pending y = rx_pending x"
    and "map_option (\<lambda>h. (hap_decrypt_key h, hap_decrypt_count h)) (rx_secure y)
      = map_option (\<lambda>h. (hap_decrypt_key h, hap_decrypt_count h)) (rx_secure x)"
  shows "to_come enc y plain"
  using assms by (cases "rx_secure x"; cases "rx_secure y") (simp_all add: to_come_def)

lemma to_come_none: "to_come enc x [] \<Longrightarrow> rx_pending x = [] \<and> arrived (rx_in x) = []"
  by (auto simp: to_come_def split: option.splits)

lemma seal_request_ok:
  assumes "crypto_correct (ce_lib env)" and "can_seal (cm_secure_session c) data"
  obtains secure where "seal_request env data c = Returned (c\<lparr>cm_secure_session := secure\<rparr>) (Inr (device_sees env (cm_secure_session c) data))"
    "map_option (\<lambda>h. (hap_decrypt_key h, hap_decrypt_count h)) secure
      = map_option (\<lambda>h. (hap_decrypt_key h, hap_decrypt_count h)) (cm_secure_session c)"
proof (cases "cm_secure_session c")
  case None
  then show thesis by (intro that [of None]) (simp_all add: seal_request_def device_sees_def)
next
  case (Some h)
  have aead: "aead_correct (seal (ce_lib env)) (open_sealed (ce_lib env))" using assms(1) by (simp add: crypto_correct_def)
  have "\<forall>m\<in>set (chunks 1024 data). length m \<le> 65535" using chunks_bounds [of _ 1024 data] by force
  then show thesis
    using hap_encrypt_chunks_ok [OF aead, of h "chunks 1024 data"] Some assms(2)
    by (intro that [of "Some (h\<lparr>hap_encrypt_count := hap_encrypt_count h + of_nat (length (chunks 1024 data))\<rparr>)"])
      (simp_all add: seal_request_def device_sees_def can_seal_def hap_encrypt_def)
qed

lemma read_answer:
  assumes "crypto_correct (ce_lib env)" and "device_says env c (concat (map encode_response rs) @ encode_response r)"
    and "codec_holds b (cm_rtsp_codec c) []" and "response_ok r" and "list_all response_ok rs"
    and "list_all (deferred expected) rs" and "\<not> deferred expected r"
    and "length (concat (map encode_response rs) @ encode_response r) \<le> b"
    and "cm_stream c = Some t" and "unat (st_bytes_received (cm_stats c)) + length (arrived (tcp_in t)) < 2 ^ 64"
  obtains c' t' where "read_response env expected c = Returned c' (Inr r)" "device_says env c' []"
    "codec_holds b (cm_rtsp_codec c') []" "cm_stream c' = Some t'" "tcp_out t' = tcp_out t" "arrived (tcp_in t') = []"
    "cm_secure_session c' = None \<longleftrightarrow> cm_secure_session c = None" "cm_rtsp_session c' = cm_rtsp_session c"
proof -
  let ?x = "\<lparr>rx_in = tcp_in t, rx_codec = cm_rtsp_codec c, rx_secure = cm_secure_session c, rx_stats = cm_stats c, rx_pending = []\<rparr>"
  let ?L = "ce_lib env"
  have aead: "aead_correct (seal ?L) (open_sealed ?L)" using assms(1) by (simp add: crypto_correct_def)
  have come: "to_come (seal ?L) ?x (concat (map encode_response rs) @ encode_response r)"
    using assms(2,9) by (simp add: device_says_def)
  obtain x' p' plain' where x: "receive_response (open_sealed ?L) expected ?x = Returned x' (Inr r)"
      "codec_holds b (rx_codec x') p'" "to_come (seal ?L) x' plain'" "p' @ plain' = []"
      "rx_secure x' = None \<longleftrightarrow> rx_secure ?x = None"
    using receive_answer [OF assms(4) _ come, of b "[]" rs "[]" expected "open_sealed ?L"] assms(3,5-8,10) aead by auto
  have none: "rx_pending x' = []" "arrived (rx_in x') = []" using to_come_none [of "seal ?L" x'] x(3,4) by simp_all
  show thesis
  proof (rule that [of "with_reader t c x'" "t\<lparr>tcp_in := rx_in x'\<rparr>"])
    show "device_says env (with_reader t c x') []"
      using to_come_codec [OF x(3)] x(4) none(1) by (simp add: device_says_def with_reader_def)
  qed (use x none assms(9) in \<open>simp_all add: read_response_def with_reader_def\<close>)
qed

section \<open>Properties\<close>

text \<open>
  C11. A request gets its own answer. Whatever late answers to earlier requests come first,
  however the device's bytes are cut on the way, and however little the system takes at each
  write, \<open>send_rtsp_request\<close> writes exactly the encoded request, encrypted when the session is, and
  returns the response that carries the request's sequence number; nothing is left over, so the
  connection is ready for the next request.
\<close>

theorem client_request_answered:
  assumes "crypto_correct (ce_lib env)" and "headers_cseq (rq_headers request) = Some n"
    and "cm_stream c = Some t" and "list_all accepts_some (tcp_accepts t)" and "codec_holds b (cm_rtsp_codec c) []"
    and "can_seal (cm_secure_session c) (request_encode request)"
    and "device_says env c (concat (map encode_response late) @ encode_response r)"
    and "list_all response_ok (late @ [r])" and "headers_cseq (rp_headers r) = Some n"
    and "list_all (\<lambda>l. \<exists>m. headers_cseq (rp_headers l) = Some m \<and> m \<noteq> n) late"
    and "length (concat (map encode_response late) @ encode_response r) \<le> b"
    and "unat (st_bytes_received (cm_stats c)) + length (arrived (tcp_in t)) < 2 ^ 64"
    and "unat (st_bytes_sent (cm_stats c)) + length (request_encode request) < 2 ^ 64"
  shows "\<exists>c' t'. send_rtsp_request env request c = Returned c' (Inr r)
    \<and> cm_stream c' = Some t'
    \<and> tcp_out t' = tcp_out t @ device_sees env (cm_secure_session c) (request_encode request)
    \<and> device_says env c' [] \<and> codec_holds b (cm_rtsp_codec c') []"
proof -
  let ?data = "request_encode request"
  obtain secure where seal: "seal_request env ?data c = Returned (c\<lparr>cm_secure_session := secure\<rparr>)
        (Inr (device_sees env (cm_secure_session c) ?data))"
      "map_option (\<lambda>h. (hap_decrypt_key h, hap_decrypt_count h)) secure
        = map_option (\<lambda>h. (hap_decrypt_key h, hap_decrypt_count h)) (cm_secure_session c)"
    by (rule seal_request_ok [OF assms(1,6)])
  obtain accepts where w: "write_all (device_sees env (cm_secure_session c) ?data) t =
      (t\<lparr>tcp_accepts := accepts, tcp_out := tcp_out t @ device_sees env (cm_secure_session c) ?data\<rparr>, Inr ())"
    using write_all_delivers [OF assms(4)] by blast
  let ?t = "t\<lparr>tcp_accepts := accepts, tcp_out := tcp_out t @ device_sees env (cm_secure_session c) ?data\<rparr>"
  obtain stats where stats: "record_sent (cm_stats c) (length ?data) = Some stats" "st_bytes_received stats = st_bytes_received (cm_stats c)"
    using assms(13) by (auto simp: record_sent_def add_bytes_def)
  let ?c = "c\<lparr>cm_secure_session := secure, cm_stream := Some ?t, cm_stats := stats\<rparr>"
  have says: "device_says env ?c (concat (map encode_response late) @ encode_response r)"
    using assms(3,7) seal(2) by (auto simp: device_says_def intro: to_come_codec)
  have late: "list_all (deferred (Some n)) late" "\<not> deferred (Some n) r"
    using assms(9,10) by (auto simp: list_all_iff deferred_def)
  obtain c' t' where "read_response env (Some n) ?c = Returned c' (Inr r)" "device_says env c' []"
      "codec_holds b (cm_rtsp_codec c') []" "cm_stream c' = Some t'" "tcp_out t' = tcp_out ?t"
    by (rule read_answer [OF assms(1) says _ _ _ late, of b ?t]) (use assms(5,8,11,12) stats(2) in auto)
  moreover have "send_rtsp_request env request c = read_response env (Some n) ?c"
    using assms(2,3) seal(1) w stats(1) by (simp add: send_rtsp_request_def tcp_write_def no_panic_def)
  ultimately show ?thesis by auto
qed

text \<open>An answer without a body, and an environment with nothing but its cryptography, for the examples.\<close>

definition plain_answer :: "u16 \<Rightarrow> nat \<Rightarrow> rtsp_response" where
  "plain_answer status n =
     \<lparr>rp_version = ascii ''RTSP/1.0'', rp_status = status, rp_reason = ascii ''OK'',
      rp_headers = [(CSEQ, dec_string n)], rp_body = []\<rparr>"

lemma plain_answer_ok: "response_ok (plain_answer status n)"
proof -
  have "header_ok (CSEQ, dec_string n)"
    using dec_string_graphic [of n] no_ws_line [OF graphic_no_ws [OF dec_string_graphic [of n]]]
    by (simp add: header_ok_def graphic_utf8 graphic_trimmed CSEQ_def) (simp add: graphic_utf8 graphic_trimmed graphic_def ascii_def)
  moreover have "reason_ok (ascii ''OK'')"
    by (simp add: reason_ok_def split_whitespace_word graphic_no_ws graphic_utf8 graphic_def ascii_def)
  moreover have "headers_content_length [(CSEQ, dec_string n)] = None"
    by (simp add: headers_content_length_def headers_get_def eq_ignore_ascii_case_def ascii_lower_def ascii_def CSEQ_def CONTENT_LENGTH_def)
  ultimately show ?thesis
    by (simp add: response_ok_def plain_answer_def headers_ok_def graphic_no_ws graphic_utf8 graphic_def ascii_def)
qed

lemma plain_answer_cseq: "n < 2 ^ 32 \<Longrightarrow> headers_cseq (rp_headers (plain_answer status n)) = Some n"
  by (simp add: headers_cseq_def headers_get_def plain_answer_def eq_ignore_ascii_case_def parse_dec_string)

lemma plain_answer_length: "length (encode_response (plain_answer status n)) = 24 + length (dec_string (unat status)) + length (dec_string n)"
  by (simp add: encode_response_def plain_answer_def header_line_def ascii_def crlf_def CSEQ_def)

definition demo_client_env :: client_env where
  "demo_client_env =
     \<lparr>ce_lib = demo_lib, ce_alloc = (\<lambda>_. True), ce_tcp = (\<lambda>_ _. None), ce_bind = (\<lambda>_ _. Inl Io_TimedOut),
      ce_bind_ptp = (\<lambda>_. Inl Io_TimedOut), ce_udp_connect = (\<lambda>_ _. Inr ()), ce_session_ids = (1, 2), ce_auth_keypair = [],
      ce_pair_secrets = (\<lambda>_. ([3], 0)), ce_verify_keypair = [], ce_ptp_clock_id = 7, ce_eiv = replicate 16 0,
      ce_system_clock = Some (1000, 5), ce_instant = 0, ce_aac_eld = Inr (None, None),
      ce_ntp = \<lparr>ne_bind = Inr (), ne_addrs = None, ne_t1 = ntp_now None, ne_send = None, ne_receipts = [], ne_t4 = ntp_now None\<rparr>,
      ce_map_order = (\<lambda>d. d)\<rparr>"

definition demo_secured :: "bytes list \<Rightarrow> client" where
  "demo_secured pieces =
     (connection_manager_new airplay_config_default)
       \<lparr>cm_stream := Some \<lparr>tcp_in = map Arrive pieces, tcp_accepts = [Accept 5], tcp_out = [], tcp_local = None\<rparr>,
        cm_secure_session := Some (hap_new (replicate 32 7) (replicate 32 9))\<rparr>"

lemma demo_secured_simps:
  "cm_stream (demo_secured pieces) =
     Some \<lparr>tcp_in = map Arrive pieces, tcp_accepts = [Accept 5], tcp_out = [], tcp_local = None\<rparr>"
  "cm_secure_session (demo_secured pieces) = Some (hap_new (replicate 32 7) (replicate 32 9))"
  "cm_stats (demo_secured pieces) = connection_stats_default" "cm_rtsp_codec (demo_secured pieces) = codec_new"
  by (simp_all add: demo_secured_def connection_manager_new_def)

lemma codec_new_holds: "codec_holds (1024 * 1024) codec_new []"
  using codec_holds_fresh [of "1024 * 1024" "[]"] by (simp add: codec_new_def)

lemma arrived_pieces: "arrived (map Arrive pieces) = concat pieces"
  by (induction pieces) simp_all

definition demo_call :: rtsp_request where
  "demo_call = \<lparr>rq_method = Method_Options, rq_uri = ascii ''*'', rq_headers = [(CSEQ, dec_string 3)], rq_body = []\<rparr>"

lemma demo_call_facts:
  "headers_cseq (rq_headers demo_call) = Some 3" "length (request_encode demo_call) = 31"
  by (simp add: headers_cseq_def headers_get_def demo_call_def eq_ignore_ascii_case_def parse_dec_string,
      simp add: demo_call_def request_encode_def header_line_def ascii_def crlf_def CSEQ_def dec_string.simps)

theorem client_request_answered_witness:
  "let r = plain_answer 200 3; w = hap_wire (seal demo_lib) (replicate 32 9) 0 [encode_response (plain_answer 200 2) @ encode_response r]
   in \<exists>c'. send_rtsp_request demo_client_env demo_call (demo_secured [take 7 w, drop 7 w]) = Returned c' (Inr r)
        \<and> device_says demo_client_env c' []"
proof -
  let ?late = "plain_answer 200 2" and ?r = "plain_answer 200 3"
  let ?m = "encode_response ?late @ encode_response ?r"
  let ?w = "hap_wire (seal demo_lib) (replicate 32 9) 0 [?m]"
  let ?c = "demo_secured [take 7 ?w, drop 7 ?w]"
  have m: "length ?m = 56" by (simp add: plain_answer_length dec_string.simps)
  then have m': "?m \<noteq> []" by auto
  have aead: "aead_correct (seal demo_lib) (open_sealed demo_lib)" using demo_lib_correct by (simp add: crypto_correct_def)
  have w: "length ?w = 74" using hap_block_shape(1) [OF aead, of "replicate 32 9" ?m 0] m by simp
  have says: "device_says demo_client_env ?c (concat (map encode_response [?late]) @ encode_response ?r)"
    using m m' w
    by (auto simp: device_says_def to_come_def demo_secured_def demo_client_env_def hap_new_def intro!: exI [of _ "[?m]"])
  have "length (chunks 1024 (request_encode demo_call)) \<le> 31"
    using length_chunks_le [of 1024 "request_encode demo_call"] demo_call_facts(2) by simp
  then have "\<exists>c' t'. send_rtsp_request demo_client_env demo_call ?c = Returned c' (Inr ?r)
    \<and> cm_stream c' = Some t' \<and> tcp_out t' = tcp_out (the (cm_stream ?c))
        @ device_sees demo_client_env (cm_secure_session ?c) (request_encode demo_call)
    \<and> device_says demo_client_env c' [] \<and> codec_holds (1024 * 1024) (cm_rtsp_codec c') []"
    by (intro client_request_answered [OF _ demo_call_facts(1) _ _ _ _ says])
      (use w m in \<open>simp_all add: demo_secured_simps codec_new_holds [simplified] can_seal_def hap_new_def plain_answer_ok plain_answer_cseq
         demo_client_env_def demo_lib_correct connection_stats_default_def demo_call_facts arrived_pieces\<close>)
  then show ?thesis by (auto simp: Let_def)
qed

lemma open_blocks_short: "length q < 18 \<Longrightarrow> open_blocks dec h codec q = Some (h, codec, q, Inr ())"
  by (simp add: open_blocks.simps Let_def)

lemma open_one_block:
  assumes "aead_correct enc dec" and "length (hap_decrypt_key h) = 32" and "length m \<le> 65535"
    and "unat (hap_decrypt_count h) + 1 < 2 ^ 64" and "codec_feed codec m = Inr codec'" and "length q < 18"
  shows "open_blocks dec h codec (hap_block enc (hap_decrypt_key h) (hap_decrypt_count h) m @ q) =
    Some (h\<lparr>hap_decrypt_count := hap_decrypt_count h + 1\<rparr>, codec', q, Inr ())"
proof -
  let ?blk = "hap_block enc (hap_decrypt_key h) (hap_decrypt_count h) m"
  note shape = hap_block_shape [OF assms(1-3), of "hap_decrypt_count h"]
  have "take 2 (?blk @ q) = take 2 ?blk" "take (length m + 18) (?blk @ q) = ?blk" "drop (length m + 18) (?blk @ q) = q"
    using shape(1) by simp_all
  moreover have "hap_decrypt_block dec h ?blk = Some (h\<lparr>hap_decrypt_count := hap_decrypt_count h + 1\<rparr>, Inr (m, []))"
    using hap_decrypt_block_ok [OF assms(1-4), of "[]"] by simp
  ultimately show ?thesis
    using shape assms(5,6) by (subst open_blocks.simps) (simp add: Let_def add.commute open_blocks_short)
qed

text \<open>
  C39. On an encrypted connection the reader can lose bytes. The bytes of a block that has begun to
  arrive with an answer are in a buffer that is local to the call: when the answer is complete,
  the call returns it, and the beginning of the next block is neither in the connection nor in
  the codec. The next request then reads from the middle of that block.
\<close>

theorem client_partial_block_lost:
  assumes "crypto_correct (ce_lib env)" and "cm_secure_session c = Some h" and "length (hap_decrypt_key h) = 32"
    and "unat (hap_decrypt_count h) + 1 < 2 ^ 64" and "response_ok r" and "\<not> deferred expected r"
    and "codec_holds b (cm_rtsp_codec c) []" and "length (encode_response r) \<le> min b 4000"
    and "cm_stream c = Some t" and "length begun < 18"
    and "tcp_in t = Arrive (hap_wire (seal (ce_lib env)) (hap_decrypt_key h) (hap_decrypt_count h) [encode_response r] @ begun) # later"
    and "unat (st_bytes_received (cm_stats c)) < 2 ^ 63"
  shows "\<exists>c' t'. read_response env expected c = Returned c' (Inr r) \<and> cm_stream c' = Some t'
    \<and> tcp_in t' = later \<and> codec_holds b (cm_rtsp_codec c') []"
proof -
  let ?L = "ce_lib env" and ?m = "encode_response r"
  let ?blk = "hap_block (seal ?L) (hap_decrypt_key h) (hap_decrypt_count h) ?m"
  have aead: "aead_correct (seal ?L) (open_sealed ?L)" using assms(1) by (simp add: crypto_correct_def)
  have len: "length ?blk = length ?m + 18" using hap_block_shape(1) [OF aead assms(3)] assms(8) by simp
  obtain codec where codec: "codec_decode (cm_rtsp_codec c) = (codec, Inr None)" "codec_holds b codec []"
    using client.dec_none [OF assms(7)] by blast
  obtain fed where fed: "codec_feed codec ?m = Inr fed" "codec_holds b fed ?m"
    using client.feed_holds [OF codec(2), of ?m] assms(8) by auto
  obtain last where last: "codec_decode fed = (last, Inr (Some r))" "codec_holds b last []"
    using client.dec_whole [OF assms(5), of b fed "[]"] fed(2) by auto
  have "length (?blk @ begun) \<le> 4096" using assms(8,10) len by simp
  then have "take_arrival 4096 (tcp_in t) = Some (later, Inr (?blk @ begun))"
    using assms(11) len by (cases "?blk @ begun") auto
  moreover have "?blk @ begun \<noteq> []" using len by auto
  moreover obtain stats where "record_received (cm_stats c) (length (?blk @ begun)) = Some stats"
    using record_received_below [of "cm_stats c" "length (?blk @ begun)"] assms(8,10,12) len by auto
  ultimately have "\<exists>x'. receive_response (open_sealed ?L) expected
      \<lparr>rx_in = tcp_in t, rx_codec = cm_rtsp_codec c, rx_secure = cm_secure_session c, rx_stats = cm_stats c, rx_pending = []\<rparr>
      = Returned x' (Inr r) \<and> rx_in x' = later \<and> rx_codec x' = last"
    using codec(1) assms(2,6) last(1) open_one_block [OF aead assms(3) _ assms(4) fed(1) assms(10)] assms(8)
    by (subst receive_response.simps) (simp add: accept_bytes_def receive_response.simps)
  then show ?thesis using assms(9) last(2) by (auto simp: read_response_def with_reader_def)
qed

theorem client_partial_block_lost_witness:
  "let w = hap_wire (seal demo_lib) (replicate 32 9) 0 [encode_response (plain_answer 200 3)]
   in \<exists>c' t'. read_response demo_client_env (Some 3) (demo_secured [w @ [5, 0], [1, 2, 3, 4, 5]]) = Returned c' (Inr (plain_answer 200 3))
        \<and> cm_stream c' = Some t' \<and> tcp_in t' = [Arrive [1, 2, 3, 4, 5]]"
  unfolding Let_def
  using client_partial_block_lost [of demo_client_env
      "demo_secured [hap_wire (seal demo_lib) (replicate 32 9) 0 [encode_response (plain_answer 200 3)] @ [5, 0], [1, 2, 3, 4, 5]]"
      "hap_new (replicate 32 7) (replicate 32 9)" "plain_answer 200 3" "Some 3" "1024 * 1024" _ "[5, 0]" "[Arrive [1, 2, 3, 4, 5]]"]
    codec_new_holds plain_answer_ok [of 200 3] plain_answer_cseq [of 3 200] plain_answer_length [of 200 3]
  by (auto simp: demo_secured_simps demo_client_env_def demo_lib_correct hap_new_def deferred_def connection_stats_default_def
      dec_string.simps)

end
