(* ===== verification/Client_Dialogue.thy ===== *)
theory Client_Dialogue
  imports Client_Pairing Client_Exchange Sdp
begin

text \<open>
  Pairing over the client's connection: the HTTP answers of the device, which arrive in any
  pieces, and the whole transient pairing of the manager with the receiver's pairing server.
\<close>

section \<open>Answers that arrive in pieces\<close>

lemma take_piece:
  assumes "concat ps \<noteq> []" and "n > 0"
  shows "\<exists>ps' bs. take_arrival n (map Arrive ps @ later) = Some (map Arrive ps' @ later, Inr bs)
    \<and> bs \<noteq> [] \<and> length bs \<le> n \<and> concat ps = bs @ concat ps'"
  using assms(1)
proof (induction ps)
  case (Cons p ps)
  show ?case
  proof (cases p)
    case Nil
    then show ?thesis using Cons by simp
  next
    case (Cons b bs)
    show ?thesis
    proof (cases "length p \<le> n")
      case True
      then show ?thesis using Cons by (intro exI [of _ ps] exI [of _ p]) auto
    next
      case False
      then show ?thesis using Cons assms(2) by (intro exI [of _ "drop n p # ps"] exI [of _ "take n p"]) (auto simp: Cons simp del: take_Suc_Cons drop_Suc_Cons)
    qed
  qed
qed simp

lemma read_exact_pieces:
  "n \<le> length got + length (concat ps) \<Longrightarrow>
   \<exists>ps'. read_exact n got (map Arrive ps @ later)
      = (map Arrive ps' @ later, Some (Inr (got @ take (n - length got) (concat ps))))
     \<and> concat ps' = drop (n - length got) (concat ps)"
proof (induction "length (concat ps)" arbitrary: got ps rule: less_induct)
  case less
  show ?case
  proof (cases "n \<le> length got")
    case True
    then show ?thesis by (intro exI [of _ ps]) (simp add: read_exact.simps)
  next
    case False
    then have "concat ps \<noteq> []" using less.prems by (metis add.right_neutral list.size(3))
    then obtain ps' bs where t: "take_arrival (n - length got) (map Arrive ps @ later) = Some (map Arrive ps' @ later, Inr bs)"
        "bs \<noteq> []" "length bs \<le> n - length got" "concat ps = bs @ concat ps'"
      using take_piece [of ps "n - length got" later] False by auto
    have "length (concat ps') < length (concat ps)" using t(2,4) by simp
    then obtain ps2 where "read_exact n (got @ bs) (map Arrive ps' @ later) =
        (map Arrive ps2 @ later, Some (Inr ((got @ bs) @ take (n - length (got @ bs)) (concat ps'))))"
        "concat ps2 = drop (n - length (got @ bs)) (concat ps')"
      using less.hyps [of ps' "got @ bs"] less.prems t(4) by auto
    then show ?thesis using False t by (intro exI [of _ ps2]) (simp add: read_exact.simps [of n got])
  qed
qed

lemma find_sub_drop: "find_sub needle s = Some i \<Longrightarrow> k \<le> i \<Longrightarrow> find_sub needle (drop k s) = Some (i - k)"
proof (induction s arbitrary: i k)
  case (Cons b s)
  then show ?case by (cases k) (auto split: if_splits)
qed simp

lemma find_sub_front:
  assumes "find_sub needle (s @ q) = Some i" and "needle \<noteq> []"
  shows "find_sub needle s = (if i + length needle \<le> length s then Some i else None)"
proof (cases "find_sub needle s")
  case None
  have "\<not> i + length needle \<le> length s"
    using assms(1) None
  proof (induction s arbitrary: i)
    case Nil
    then show ?case using assms(2) by simp
  next
    case (Cons b s)
    show ?case
    proof (cases "take (length needle) (b # s @ q) = needle")
      case True
      have "take (length needle) (b # s) \<noteq> needle" using Cons.prems(2) by (auto split: if_splits)
      then have "length (b # s) < length needle" using True by (metis append_Cons append_take_drop_id le_less_linear take_append take_all diff_is_0_eq' take0 append_Nil2)
      then show ?thesis by simp
    next
      case False
      then obtain j where "i = Suc j" "find_sub needle (s @ q) = Some j" using Cons.prems(1) by auto
      moreover have "find_sub needle s = None" using Cons.prems(2) by (auto split: if_splits)
      ultimately show ?thesis using Cons.IH by auto
    qed
  qed
  with None show ?thesis by simp
next
  case (Some j)
  then have "j = i" using find_sub_mono [OF Some, of q] assms by simp
  with Some find_sub_bound [OF Some] show ?thesis by simp
qed

text \<open>The header section is found wherever it is cut.\<close>

lemma read_header_found:
  "find_sub (crlf @ crlf) (buf @ concat ps) = Some i \<Longrightarrow> length buf < i + 4 \<Longrightarrow> i + 4 \<le> 4097 \<Longrightarrow>
   \<exists>ps' got. read_header buf (map Arrive ps @ later) = (map Arrive ps' @ later, Some (Inr (buf @ got, i + 4)))
     \<and> concat ps = got @ concat ps' \<and> i + 4 \<le> length (buf @ got)"
proof (induction "length (concat ps)" arbitrary: buf ps rule: less_induct)
  case less
  have four: "length (crlf @ crlf) = 4" by (simp add: crlf_def)
  have "i + 4 \<le> length (buf @ concat ps)" using find_sub_bound [OF less.prems(1)] four by simp
  then have "concat ps \<noteq> []" using less.prems(2) by (metis append_Nil2 not_le)
  then obtain ps' bs where t: "take_arrival 1024 (map Arrive ps @ later) = Some (map Arrive ps' @ later, Inr bs)"
      "bs \<noteq> []" "concat ps = bs @ concat ps'"
    using take_piece [of ps 1024 later] by auto
  let ?k = "length buf - 3"
  have k: "?k \<le> i" using less.prems(2) by simp
  have "find_sub (crlf @ crlf) (drop ?k (buf @ bs) @ concat ps') = Some (i - ?k)"
    using find_sub_drop [OF less.prems(1) k] t(3) by simp
  from find_sub_front [OF this]
  have found: "find_sub (crlf @ crlf) (drop ?k (buf @ bs)) = (if i + 4 \<le> length (buf @ bs) then Some (i - ?k) else None)"
    using k four by (auto simp: crlf_def)
  show ?case
  proof (cases "i + 4 \<le> length (buf @ bs)")
    case True
    then have "read_header buf (map Arrive ps @ later) = (map Arrive ps' @ later, Some (Inr (buf @ bs, i + 4)))"
      using t(1,2) found k by (subst read_header.simps) (simp add: Let_def)
    with t(3) True show ?thesis by (intro exI [of _ ps'] exI [of _ bs]) simp
  next
    case False
    then have "read_header buf (map Arrive ps @ later) = read_header (buf @ bs) (map Arrive ps' @ later)"
      using t(1,2) found less.prems(3) by (subst read_header.simps) (simp add: Let_def)
    moreover have "length (concat ps') < length (concat ps)" using t(2,3) by simp
    then obtain ps2 got where "read_header (buf @ bs) (map Arrive ps' @ later) = (map Arrive ps2 @ later, Some (Inr ((buf @ bs) @ got, i + 4)))"
        "concat ps' = got @ concat ps2" "i + 4 \<le> length ((buf @ bs) @ got)"
      using less.hyps [of ps' "buf @ bs"] less.prems False t(3) by auto
    ultimately show ?thesis using t(3) by (intro exI [of _ ps2] exI [of _ "bs @ got"]) simp
  qed
qed

section \<open>The HTTP answers\<close>

definition http_lines :: "bytes \<Rightarrow> str list" where
  "http_lines body =
     [ascii ''HTTP/1.1 200 OK'', ascii ''Content-Type: application/octet-stream'',
      ascii ''Content-Length: '' @ dec_string (length body)]"

definition http_answer :: "bytes \<Rightarrow> bytes" where
  "http_answer body = line_block (http_lines body) @ crlf @ body"

lemma http_lines_plain: "list_all plain_line (http_lines body)" "list_all utf8_valid (http_lines body)"
proof -
  have d: "graphic (dec_string (length body))" by (rule dec_string_graphic)
  show "list_all plain_line (http_lines body)"
    using no_ws_line [OF graphic_no_ws [OF d]] by (simp add: http_lines_def plain_line_def ascii_def)
  show "list_all utf8_valid (http_lines body)"
    using graphic_utf8 [OF d] by (simp add: http_lines_def ascii_def)
qed

lemma http_content_length_read:
  assumes "length body < 2 ^ 64"
  shows "http_content_length (line_block (http_lines body) @ crlf) = length body"
proof -
  let ?d = "dec_string (length body)"
  have "line_block (http_lines body) @ crlf = line_block (http_lines body @ [[]])" by (simp add: line_block_def)
  moreover have "list_all (\<lambda>l. 10 \<notin> set l) (http_lines body @ [[]])"
    using http_lines_plain(1) [of body] by (auto simp: list_all_iff plain_line_def)
  ultimately have "rust_lines (line_block (http_lines body) @ crlf) = http_lines body @ [[]]" by (simp add: rust_lines_whole)
  moreover have "trim (32 # ?d) = ?d"
    by (rule trim_space [OF graphic_trimmed]) (simp_all add: dec_string_graphic)
  moreover have "parse_unsigned (2 ^ 64) ?d = Some (length body)" by (rule parse_dec_string [OF assms])
  ultimately show ?thesis
    by (simp add: http_content_length_def http_lines_def strip_prefix_def ascii_def or_else_def)
qed

lemma pairing_response_read:
  assumes "length body < 2 ^ 63" and "ce_alloc env (length body)" and "concat ps = http_answer body"
    and "tcp_in t = map Arrive ps @ later"
  shows "\<exists>ps'. read_pairing_response env t = Returned (t\<lparr>tcp_in := map Arrive ps' @ later\<rparr>) (Inr body) \<and> concat ps' = []"
proof -
  let ?h = "line_block (http_lines body) @ crlf"
  have "length (dec_string (length body)) \<le> 20" using assms(1) by (intro dec_string_length) simp_all
  then have len: "4 \<le> length ?h" "length ?h \<le> 4097" by (simp_all add: line_block_def http_lines_def ascii_def crlf_def)
  have i: "find_sub (crlf @ crlf) ([] @ concat ps) = Some (length ?h - 4)"
    using find_sub_block [OF _ http_lines_plain(1), of body body] assms(3) by (simp add: http_answer_def http_lines_def crlf_def)
  obtain ps1 got where g: "read_header [] (map Arrive ps @ later) = (map Arrive ps1 @ later, Some (Inr (got, length ?h)))"
      "concat ps = got @ concat ps1" "length ?h \<le> length got"
    using read_header_found [OF i, of later] len by (auto simp: le_diff_conv)
  then obtain b1 where got: "got = ?h @ b1" "body = b1 @ concat ps1"
    using append_prefix_split [of ?h body got "concat ps1"] assms(3) by (auto simp: http_answer_def)
  have utf8: "utf8_valid ?h" using http_lines_plain(2) by (simp add: utf8_valid_append utf8_valid_block crlf_def)
  have cl: "http_content_length ?h = length body" using http_content_length_read assms(1) by simp
  obtain ps2 where r: "read_exact (length body - length b1) [] (map Arrive ps1 @ later) =
      (map Arrive ps2 @ later, Some (Inr (take (length body - length b1) (concat ps1))))"
      "concat ps2 = drop (length body - length b1) (concat ps1)"
    using read_exact_pieces [of "length body - length b1" "[]" ps1 later] got(2) by auto
  show ?thesis
    using g r got utf8 cl assms(1,2,4)
    by (cases "length b1 < length body") (auto simp: read_pairing_response_def read_pairing_body_def Let_def)
qed

section \<open>The transient dialogue\<close>

lemma process_m2_sends:
  assumes "pair_setup_process_m2 L s a d = (s', Inr st)"
  shows "\<exists>m3. st = Step_SendData m3 \<and> pst_state s' = PS_SrpExchange"
  using assms by (auto simp: pair_setup_process_m2_def Let_def attempt_Inr_iff split: option.splits if_splits)

lemma dialogue_steps:
  assumes "pair_setup_dialogue 3 L a b (setup_client sk pin True) s None = Some (c, s', Inr (Step_Complete keys))"
  obtains m1 c1 s1 r2 m3 c2 r4 where
    "pair_setup_start (setup_client sk pin True) = (c1, Inr m1)" "process_pair_setup L s b m1 = Some (s1, r2)"
    "pair_setup_process_m2 L c1 a (pr_response r2) = (c2, Inr (Step_SendData m3))"
    "process_pair_setup L s1 b m3 = Some (s', r4)"
    "pair_setup_process_m4 L c2 (pr_response r4) = (c, Inr (Step_Complete keys))"
proof -
  let ?c0 = "setup_client sk pin True"
  obtain m1 c1 where m1: "pair_setup_start ?c0 = (c1, Inr m1)" "pst_state ?c0 = PS_Init" "pst_state c1 = PS_WaitingResponse"
    by (simp add: pair_setup_start_def setup_client_def pair_setup_set_transient_def pair_setup_set_pin_def pair_setup_new_def)
  then have "pair_setup_step L ?c0 a None = (c1, Inr (Step_SendData m1))" by (simp add: pair_setup_step_def)
  then obtain s1 r2 where r2: "process_pair_setup L s b m1 = Some (s1, r2)"
      "pair_setup_dialogue (Suc (Suc 0)) L a b c1 s1 (Some (pr_response r2)) = Some (c, s', Inr (Step_Complete keys))"
    using assms by (auto simp: numeral_3_eq_3 bind_eq_Some_conv)
  obtain c2 out where m2: "pair_setup_process_m2 L c1 a (pr_response r2) = (c2, out)" by force
  then have step2: "pair_setup_step L c1 a (Some (pr_response r2)) = (c2, out)"
    using m1(3) by (simp add: pair_setup_step_def need_data_def)
  then obtain m3 where m3: "out = Inr (Step_SendData m3)" "pst_state c2 = PS_SrpExchange"
    using r2(2) process_m2_sends [of L c1 a "pr_response r2" c2] m2
    by (cases out) (auto split: pairing_step_result.splits)
  with step2 r2(2) obtain s2 r4 where s2: "process_pair_setup L s1 b m3 = Some (s2, r4)"
      "pair_setup_dialogue (Suc 0) L a b c2 s2 (Some (pr_response r4)) = Some (c, s', Inr (Step_Complete keys))"
    by (auto simp: bind_eq_Some_conv simp del: pair_setup_dialogue.simps(1))
  then have r4: "process_pair_setup L s1 b m3 = Some (s', r4)"
      "pair_setup_step L c2 a (Some (pr_response r4)) = (c, Inr (Step_Complete keys))"
    by (cases "pair_setup_step L c2 a (Some (pr_response r4))", cases "snd (pair_setup_step L c2 a (Some (pr_response r4)))",
        auto split: pairing_step_result.splits simp: bind_eq_Some_conv)+
  then have "pair_setup_process_m4 L c2 (pr_response r4) = (c, Inr (Step_Complete keys))"
    using m3(2) by (simp add: pair_setup_step_def need_data_def)
  with m1 m2 m3 r2 r4 show thesis using that by blast
qed

lemma await_ok_result:
  "await_ok (from_result (Inr x)) f = f x" "await_ok (from_result (Inl e)) f = err_val e"
  by (simp_all add: fun_eq_iff await_ok_def await_def from_result_def)

lemma pairing_step_simps:
  "pairing_step (p, Inr x) f = f p x" "pairing_step (p, Inl e) f = err_val (pairing_failed e)"
  by (simp_all add: pairing_step_def await_ok_result)

lemma tcp_write_ok:
  assumes "cm_stream c = Some t" and "list_all accepts_some (tcp_accepts t)"
  obtains accepts where "tcp_write data c = Returned (c\<lparr>cm_stream := Some (t\<lparr>tcp_accepts := accepts, tcp_out := tcp_out t @ data\<rparr>)\<rparr>) (Inr ())"
    "list_all accepts_some accepts"
  using write_all_delivers [OF assms(2), of data] assms(1) that by (auto simp: tcp_write_def)

lemma send_pairing_answered:
  assumes "cm_stream c = Some t" and "list_all accepts_some (tcp_accepts t)" and "tcp_in t = map Arrive ps @ later"
    and "concat ps = http_answer body" and "length body < 2 ^ 63" and "ce_alloc env (length body)"
  obtains t' ps' where "send_pairing_data env data path c = Returned (c\<lparr>cm_stream := Some t'\<rparr>) (Inr body)"
    "list_all accepts_some (tcp_accepts t')" "tcp_out t' = tcp_out t @ pairing_request c path (length data) @ data"
    "tcp_in t' = map Arrive ps' @ later" "concat ps' = []"
proof -
  let ?req = "pairing_request c path (length data)"
  obtain a1 where w1: "tcp_write ?req c = Returned (c\<lparr>cm_stream := Some (t\<lparr>tcp_accepts := a1, tcp_out := tcp_out t @ ?req\<rparr>)\<rparr>) (Inr ())"
      "list_all accepts_some a1"
    by (rule tcp_write_ok [OF assms(1,2)])
  let ?t1 = "t\<lparr>tcp_accepts := a1, tcp_out := tcp_out t @ ?req\<rparr>"
  obtain a2 where w2: "tcp_write data (c\<lparr>cm_stream := Some ?t1\<rparr>) =
        Returned (c\<lparr>cm_stream := Some (?t1\<lparr>tcp_accepts := a2, tcp_out := tcp_out ?t1 @ data\<rparr>)\<rparr>) (Inr ())"
      "list_all accepts_some a2"
    using tcp_write_ok [of "c\<lparr>cm_stream := Some ?t1\<rparr>" ?t1 data] w1(2) by auto
  let ?t2 = "?t1\<lparr>tcp_accepts := a2, tcp_out := tcp_out ?t1 @ data\<rparr>"
  obtain ps' where r: "read_pairing_response env ?t2 = Returned (?t2\<lparr>tcp_in := map Arrive ps' @ later\<rparr>) (Inr body)" "concat ps' = []"
    using pairing_response_read [OF assms(5,6,4), of ?t2 later] assms(3) by auto
  show thesis
    by (rule that [of "?t2\<lparr>tcp_in := map Arrive ps' @ later\<rparr>" ps'])
      (use w1 w2 r in \<open>simp_all add: send_pairing_data_def on_stream_def\<close>)
qed

text \<open>Two messages in a row: the second answer may have come with the first.\<close>

lemma two_messages_answered:
  assumes "cm_stream c = Some t" "list_all accepts_some (tcp_accepts t)" "tcp_in t = map Arrive ps2 @ map Arrive ps4"
    and "concat ps2 = http_answer r2" and "concat ps4 = http_answer r4"
    and "length r2 < 2 ^ 63" and "length r4 < 2 ^ 63" and "\<forall>n. ce_alloc env n"
  obtains t1 t2 where "send_pairing_data env m1 path c = Returned (c\<lparr>cm_stream := Some t1\<rparr>) (Inr r2)"
    "send_pairing_data env m3 path (c\<lparr>cm_stream := Some t1\<rparr>) = Returned (c\<lparr>cm_stream := Some t2\<rparr>) (Inr r4)"
    "tcp_out t2 = tcp_out t @ pairing_request c path (length m1) @ m1 @ pairing_request c path (length m3) @ m3"
proof -
  obtain t1 ps' where one: "send_pairing_data env m1 path c = Returned (c\<lparr>cm_stream := Some t1\<rparr>) (Inr r2)"
      "list_all accepts_some (tcp_accepts t1)" "tcp_out t1 = tcp_out t @ pairing_request c path (length m1) @ m1"
      "tcp_in t1 = map Arrive ps' @ map Arrive ps4" "concat ps' = []"
    using send_pairing_answered [OF assms(1-4,6)] assms(8) by metis
  let ?c1 = "c\<lparr>cm_stream := Some t1\<rparr>"
  have two: "tcp_in t1 = map Arrive (ps' @ ps4) @ []" "concat (ps' @ ps4) = http_answer r4"
    using one(4,5) assms(5) by (simp_all del: concat_eq_Nil_conv)
  obtain t2 ps'' where "send_pairing_data env m3 path ?c1 = Returned (?c1\<lparr>cm_stream := Some t2\<rparr>) (Inr r4)"
      "list_all accepts_some (tcp_accepts t2)" "tcp_out t2 = tcp_out t1 @ pairing_request ?c1 path (length m3) @ m3"
      "tcp_in t2 = map Arrive ps'' @ []" "concat ps'' = []"
    by (rule send_pairing_answered [OF _ one(2) two assms(7), of ?c1 env m3 path]) (use assms(8) in simp_all)
  moreover have "pairing_request ?c1 path n = pairing_request c path n" for n by (simp add: pairing_request_def)
  ultimately show thesis using one by (intro that) simp_all
qed

section \<open>The size of the answers\<close>

lemma tlv_encode_length: "length (tlv_encode items) \<le> (\<Sum>(t, v)\<leftarrow>items. 3 * length v + 2)"
proof (induction items)
  case Nil
  show ?case by (simp add: tlv_encode_def)
next
  case (Cons item items)
  obtain t v where item: "item = (t, v)" by force
  have "length (concat (map (tlv_fragment t) cs)) = length (concat cs) + 2 * length cs" for cs
    by (induction cs) (simp_all add: tlv_fragment_def)
  moreover have "length (chunks 255 v) \<le> length v" by (rule length_chunks_le) simp
  ultimately have "length (tlv_encoder_add [] t v) \<le> 3 * length v + 2" using concat_chunks [of 255 v] by (cases "v = []") (simp_all add: tlv_encoder_add_def chunks.simps [of _ "[]"])
  with Cons.IH show ?case by (simp add: item tlv_encode_Cons)
qed

lemma digits_be_length: "n < 256 ^ k \<Longrightarrow> length (digits_be n) \<le> k"
proof (induction k arbitrary: n)
  case (Suc k)
  then show ?case by (cases "n = 0") (auto simp: digits_be.simps [of n] digits_be.simps [of 0] less_mult_imp_div_less mult.commute)
qed (simp add: digits_be.simps)

lemma server_key_length: "length (ss_public_key (srp_server_new L v RFC5054_3072 b)) \<le> 384"
proof -
  let ?n = "srp_n RFC5054_3072"
  have size: "?n < 256 ^ 384" "srp_size RFC5054_3072 = 384" unfolding RFC5054_3072_def by simp_all
  have "length (to_bytes_be x) \<le> 384" if "x < ?n" for x
    using digits_be_length [of x 384] that size(1) by (simp add: to_bytes_be_def)
  moreover have "x mod ?n < ?n" for x using rfc5054_coprime(1) by simp
  ultimately show ?thesis by (simp add: srp_server_new_def Let_def pad_to_size_def size(2))
qed

lemma accessory_data_length:
  assumes "crypto_correct L" and "encrypt_accessory_data L identity info key = Some d"
  shows "length d \<le> 400"
proof -
  let ?sub = "tlv_encode [(Identifier, ed_public L identity), (Signature, ed25519_sign L identity info)]"
  have "length (ed_public L identity) = 32" "length (ed25519_sign L identity info) = 64"
    using assms(1) by (simp_all add: crypto_correct_def ed25519_sign_def)
  then have sub: "length ?sub \<le> 292" using tlv_encode_length [of "[(Identifier, ed_public L identity), (Signature, ed25519_sign L identity info)]"] by simp
  have aead: "aead_correct (seal L) (open_sealed L)" using assms(1) by (simp add: crypto_correct_def)
  obtain k n where e: "cipher_encrypt (seal L) k n ?sub = Inr d" "length k = 32" "length n = 12"
    using assms(2)
    by (auto simp: encrypt_accessory_data_def encrypt_with_key_def ok_def cipher_new_def nonce_from_bytes_def bind_eq_Some_conv Let_def
        split: sum.splits if_splits)
  obtain c where "cipher_encrypt (seal L) k n ?sub = Inr c" "length c = length ?sub + 16"
    using cipher_roundtrip [OF assms(1) e(2,3), of ?sub] sub by auto
  with e(1) sub show ?thesis by simp
qed

definition short_answer :: "bytes \<Rightarrow> server_outcome \<Rightarrow> bool" where
  "short_answer salt out \<longleftrightarrow> (\<forall>s r. out = Some (s, r) \<longrightarrow> length (pr_response r) < 2 ^ 63 \<and> srv_srp_salt s = salt)"

lemma short_answers:
  "srv_srp_salt s = salt \<Longrightarrow> short_answer salt (Some (error_result s e))"
  "srv_srp_salt s = salt \<Longrightarrow> (\<And>y. x = Some y \<Longrightarrow> short_answer salt (f y)) \<Longrightarrow> short_answer salt (or_error s e x f)"
  "(\<And>y. x = Some y \<Longrightarrow> short_answer salt (g y)) \<Longrightarrow> short_answer salt (Option.bind x g)"
  "short_answer salt None"
  "(c \<Longrightarrow> short_answer salt a) \<Longrightarrow> (\<not> c \<Longrightarrow> short_answer salt d) \<Longrightarrow> short_answer salt (if c then a else d)"
proof -
  show err: "short_answer salt (Some (error_result s e))" if "srv_srp_salt s = salt" for s e
    using tlv_encode_length [of "[(State, [0]), (ErrorT, [case e of SE_AuthenticationFailed \<Rightarrow> 2 | SE_InvalidState \<Rightarrow> 6 | _ \<Rightarrow> 1])]"] that
    by (simp add: short_answer_def error_result_def Let_def)
  show "srv_srp_salt s = salt \<Longrightarrow> (\<And>y. x = Some y \<Longrightarrow> short_answer salt (f y)) \<Longrightarrow> short_answer salt (or_error s e x f)"
    using err by (auto simp: or_error_def split: option.splits)
qed (auto simp: short_answer_def bind_eq_Some_conv)

lemma short_items:
  assumes "srv_srp_salt s = salt" and "(\<Sum>(t, v)\<leftarrow>items. 3 * length v + 2) < 2 ^ 63" and "pr_response r = tlv_encode items"
  shows "short_answer salt (Some (s, r))"
  using assms tlv_encode_length [of items] by (simp add: short_answer_def)

lemma m1_short_answer:
  assumes "length (srv_srp_salt s) \<le> 2 ^ 32"
  shows "short_answer (srv_srp_salt s) (handle_pair_setup_m1 L s b tlv)"
proof -
  have key: "3 * length (srv_srp_salt s) + 3 * length (ss_public_key (srp_server_new L v RFC5054_3072 b)) < 9223372036854775799" for v
    using server_key_length [of L v b] assms by simp
  show ?thesis
    unfolding handle_pair_setup_m1_def Let_def
    by (intro short_answers short_items [OF _ _ pairing_result.select_convs(1)])
      (auto simp: pairing_server_reset_def key)
qed

lemma m3_short_answer:
  assumes "crypto_correct L"
  shows "short_answer (srv_srp_salt s) (handle_pair_setup_m3 L s tlv)"
proof -
  have server_proof: "length p = 64" if "verify_client L srv u sa cp cf = Inr (k, p)" for srv u sa cp cf k p
    using that assms by (auto simp: verify_client_def Let_def crypto_correct_def split: sum.splits if_splits)
  show ?thesis
    unfolding handle_pair_setup_m3_def Let_def case_prod_beta
    by (intro short_answers short_items [OF _ _ pairing_result.select_convs(1)])
      (auto dest!: accessory_data_length [OF assms] server_proof simp: ok_def split: sum.splits)
qed

lemma pair_setup_response_length:
  assumes "crypto_correct L" and "process_pair_setup L s b d = Some (s', r)" and "length (srv_srp_salt s) \<le> 2 ^ 32"
  shows "length (pr_response r) < 2 ^ 63" "srv_srp_salt s' = srv_srp_salt s"
proof -
  have "short_answer (srv_srp_salt s) (process_pair_setup L s b d)"
    unfolding process_pair_setup_def Let_def
    by (cases "tlv_decode d") (simp_all add: short_answers m1_short_answer [OF assms(3)] m3_short_answer [OF assms(1)])
  then show "length (pr_response r) < 2 ^ 63" "srv_srp_salt s' = srv_srp_salt s" using assms(2) by (simp_all add: short_answer_def)
qed

section \<open>Properties\<close>

text \<open>
  C8. The manager's transient pairing works over the connection. With a device that runs the
  receiver's pairing server and answers over HTTP, in whatever pieces the answers arrive, the
  client sends M1 and M3 in its two requests and ends with an encrypted session whose keys are
  those that the server derived, for all secrets that do not make the server's public key zero.
\<close>

theorem client_transient_pairing:
  assumes "crypto_correct (ce_lib env)" and "ce_pair_secrets env 0 = (sk, a)" and "\<forall>n. ce_alloc env n"
    and "from_bytes_be (ss_public_key (srp_server_new (ce_lib env)
          (compute_verifier (ce_lib env) (ascii ''Pair-Setup'') (ascii ''3939'') salt RFC5054_3072) RFC5054_3072 b))
          mod srp_n RFC5054_3072 \<noteq> 0"
    and "length salt \<le> 2 ^ 32"
  shows "\<exists>m1 s1 r2 m3 s2 r4 ek.
      process_pair_setup (ce_lib env) (setup_server (ce_lib env) identity salt (ascii ''3939'')) b m1 = Some (s1, r2)
    \<and> process_pair_setup (ce_lib env) s1 b m3 = Some (s2, r4)
    \<and> srv_state s2 = Srv_PairSetupComplete \<and> srv_encryption_keys s2 = Some ek
    \<and> (\<forall>c t ps2 ps4. cm_stream c = Some t \<longrightarrow> list_all accepts_some (tcp_accepts t) \<longrightarrow>
         tcp_in t = map Arrive ps2 @ map Arrive ps4 \<longrightarrow>
         concat ps2 = http_answer (pr_response r2) \<longrightarrow> concat ps4 = http_answer (pr_response r4) \<longrightarrow>
         (\<exists>c' t'. try_transient_pairing env 0 c = Returned c' True \<and> cm_stream c' = Some t'
            \<and> tcp_out t' = tcp_out t @ pairing_request c PAIR_SETUP (length m1) @ m1 @ pairing_request c PAIR_SETUP (length m3) @ m3
            \<and> cm_secure_session c' = Some (hap_new (ek_encrypt_key ek) (ek_decrypt_key ek))
            \<and> encryption_key c' \<noteq> None))"
proof -
  let ?L = "ce_lib env" and ?pin = "ascii ''3939''"
  obtain c3 s2 keys ek where d: "pair_setup_dialogue 3 ?L a b (setup_client sk ?pin True) (setup_server ?L identity salt ?pin) None
        = Some (c3, s2, Inr (Step_Complete keys))"
      and s2: "srv_state s2 = Srv_PairSetupComplete" "srv_encryption_keys s2 = Some ek"
        "sk_encrypt_key keys = ek_encrypt_key ek" "sk_decrypt_key keys = ek_decrypt_key ek"
    using transient_dialogue [OF assms(1,4), where a = a and sk = sk and identity = identity] by blast
  obtain m1 c1 s1 r2 m3 c2 r4 where steps: "pair_setup_start (setup_client sk ?pin True) = (c1, Inr m1)"
      "process_pair_setup ?L (setup_server ?L identity salt ?pin) b m1 = Some (s1, r2)"
      "pair_setup_process_m2 ?L c1 a (pr_response r2) = (c2, Inr (Step_SendData m3))"
      "process_pair_setup ?L s1 b m3 = Some (s2, r4)"
      "pair_setup_process_m4 ?L c2 (pr_response r4) = (c3, Inr (Step_Complete keys))"
    by (rule dialogue_steps [OF d])
  have client: "pair_setup_set_username (pair_setup_set_pin (pair_setup_set_transient (pair_setup_new sk) True) ?pin)
      (ascii ''Pair-Setup'') = setup_client sk ?pin True"
    by (simp add: setup_client_def pair_setup_set_username_def pair_setup_set_pin_def pair_setup_set_transient_def pair_setup_new_def)
  have "srv_srp_salt (setup_server ?L identity salt ?pin) = salt"
    by (simp add: setup_server_def pairing_server_set_password_def pairing_server_new_def)
  then have len: "length (pr_response r2) < 2 ^ 63" "length (pr_response r4) < 2 ^ 63"
    using pair_setup_response_length [OF assms(1) steps(2)] pair_setup_response_length [OF assms(1) steps(4)] assms(5) by simp_all
  have "\<exists>c' t'. try_transient_pairing env 0 c = Returned c' True \<and> cm_stream c' = Some t'
      \<and> tcp_out t' = tcp_out t @ pairing_request c PAIR_SETUP (length m1) @ m1 @ pairing_request c PAIR_SETUP (length m3) @ m3
      \<and> cm_secure_session c' = Some (hap_new (ek_encrypt_key ek) (ek_decrypt_key ek)) \<and> encryption_key c' \<noteq> None"
    if stream: "cm_stream c = Some t" "list_all accepts_some (tcp_accepts t)"
      and arrive: "tcp_in t = map Arrive ps2 @ map Arrive ps4" "concat ps2 = http_answer (pr_response r2)"
      "concat ps4 = http_answer (pr_response r4)" for c t ps2 ps4
  proof -
    obtain t1 t2 where "send_pairing_data env m1 PAIR_SETUP c = Returned (c\<lparr>cm_stream := Some t1\<rparr>) (Inr (pr_response r2))"
        "send_pairing_data env m3 PAIR_SETUP (c\<lparr>cm_stream := Some t1\<rparr>) = Returned (c\<lparr>cm_stream := Some t2\<rparr>) (Inr (pr_response r4))"
        "tcp_out t2 = tcp_out t @ pairing_request c PAIR_SETUP (length m1) @ m1 @ pairing_request c PAIR_SETUP (length m3) @ m3"
      by (rule two_messages_answered [OF stream arrive len assms(3)])
    then show ?thesis
      using steps assms(2) client s2(3,4)
      by (simp add: try_transient_pairing_def transient_pair_def pairing_step_simps ok_val_def secure_with_def encryption_key_def
          Let_def)
  qed
  with steps(2,4) s2(1,2) show ?thesis by blast
qed

theorem client_transient_pairing_witness:
  "\<exists>(c :: client) c'. cm_secure_session c = None \<and> try_transient_pairing demo_client_env 0 c = Returned c' True \<and> cm_secure_session c' \<noteq> None"
proof -
  let ?e = demo_client_env
  let ?answers = "\<lambda>r. [take 10 (http_answer r), drop 10 (http_answer r)]"
  have key: "from_bytes_be (ss_public_key (srp_server_new (ce_lib ?e)
          (compute_verifier (ce_lib ?e) (ascii ''Pair-Setup'') (ascii ''3939'') [2] RFC5054_3072) RFC5054_3072 0))
          mod srp_n RFC5054_3072 \<noteq> 0"
    using demo_server_key by (simp add: demo_client_env_def)
  have env: "crypto_correct (ce_lib ?e)" "ce_pair_secrets ?e 0 = ([3], 0)" "\<forall>n. ce_alloc ?e n"
    by (simp_all add: demo_client_env_def demo_lib_correct)
  have salt: "length [2 :: u8] \<le> 2 ^ 32" by simp
  from client_transient_pairing [OF env key salt, of "[1]"]
  obtain m1 m3 and r2 r4 :: pairing_result and ek :: encryption_keys where dialogue: "\<forall>c t ps2 ps4. cm_stream c = Some t \<longrightarrow> list_all accepts_some (tcp_accepts t) \<longrightarrow>
         tcp_in t = map Arrive ps2 @ map Arrive ps4 \<longrightarrow>
         concat ps2 = http_answer (pr_response r2) \<longrightarrow> concat ps4 = http_answer (pr_response r4) \<longrightarrow>
         (\<exists>c' t'. try_transient_pairing ?e 0 c = Returned c' True \<and> cm_stream c' = Some t'
            \<and> tcp_out t' = tcp_out t @ pairing_request c PAIR_SETUP (length m1) @ m1 @ pairing_request c PAIR_SETUP (length m3) @ m3
            \<and> cm_secure_session c' = Some (hap_new (ek_encrypt_key ek) (ek_decrypt_key ek))
            \<and> encryption_key c' \<noteq> None)"
    by (elim exE conjE) (rule that, assumption)
  let ?t = "\<lparr>tcp_in = map Arrive (?answers (pr_response r2)) @ map Arrive (?answers (pr_response r4)), tcp_accepts = [Accept 5], tcp_out = [], tcp_local = None\<rparr>"
  let ?c = "(connection_manager_new airplay_config_default)\<lparr>cm_stream := Some ?t\<rparr>"
  have "\<exists>c' t'. try_transient_pairing ?e 0 ?c = Returned c' True \<and> cm_stream c' = Some t'
            \<and> tcp_out t' = tcp_out ?t @ pairing_request ?c PAIR_SETUP (length m1) @ m1 @ pairing_request ?c PAIR_SETUP (length m3) @ m3
            \<and> cm_secure_session c' = Some (hap_new (ek_encrypt_key ek) (ek_decrypt_key ek)) \<and> encryption_key c' \<noteq> None"
    by (rule dialogue [rule_format, of _ ?t "?answers (pr_response r2)" "?answers (pr_response r4)"]) simp_all
  moreover have "cm_secure_session ?c = None" by (simp add: connection_manager_new_def)
  ultimately show ?thesis by (metis option.distinct(1))
qed

end
