(* ===== verification/Client_Setup.thy ===== *)
theory Client_Setup
  imports Client_Pairing
begin

text \<open>
  Connecting, \<open>src/connection/manager.rs\<close>: the two-step SETUP with its property lists, the ports in the
  answers, the sockets, the PTP handler or the NTP client, the event
  channel, and \<open>connect\<close> with its states, events and timeout. Sockets are bound in the order of the
  calls; the \<open>k\<close>-th call's call_outcome is \<open>ce_bind env k\<close>.
\<close>

section \<open>Choices\<close>

definition should_use_hires :: "client \<Rightarrow> bool" where
  "should_use_hires c \<longleftrightarrow> cfg_prefer_hires_audio (cm_config c)
     \<and> (case cm_device c of None \<Rightarrow> False | Some d \<Rightarrow> cap_supports_hires_audio (dev_capabilities d))"

definition should_use_ptp :: "client \<Rightarrow> bool" where
  "should_use_ptp c =
     (case cfg_timing_protocol (cm_config c) of
        TP_Ptp \<Rightarrow> True
      | TP_Ntp \<Rightarrow> False
      | TP_Auto \<Rightarrow> (case cm_device c of None \<Rightarrow> False | Some d \<Rightarrow> device_supports_ptp d \<or> device_supports_airplay2 d))"

definition bind_ephemeral_socket :: "client_env \<Rightarrow> nat \<Rightarrow> (io_error, udp_socket) result" where
  "bind_ephemeral_socket env k =
     (case ce_bind env k (ascii ''0.0.0.0:0'') of
        Inr s \<Rightarrow> Inr s
      | Inl _ \<Rightarrow>
          (case ce_bind env k (ascii ''127.0.0.1:0'') of
             Inr s \<Rightarrow> Inr s
           | Inl _ \<Rightarrow> ce_bind env k (ascii ''[::]:0'')))"

definition GROUP_UUID :: str where "GROUP_UUID = ascii ''D67B1696-8D3A-A6CF-9ACF-03C837DC68FD''"
definition MAC_ADDRESS :: str where "MAC_ADDRESS = ascii ''AC:07:75:12:4A:1F''"

definition text_entry :: "string \<Rightarrow> str \<Rightarrow> (str \<times> plist) list \<Rightarrow> (str \<times> plist) list" where
  "text_entry key v = dict_insert (ascii key) (PString v)"

section \<open>ANNOUNCE\<close>

definition sdp_prefix :: str where
  "sdp_prefix =
     ascii ''v=0'' @ crlf @ ascii ''o=- 0 0 IN IP4 0.0.0.0'' @ crlf @ ascii ''s=airplay2-rs'' @ crlf
     @ ascii ''c=IN IP4 0.0.0.0'' @ crlf @ ascii ''t=0 0'' @ crlf @ ascii ''m=audio 0 RTP/AVP 96'' @ crlf
     @ ascii ''a=rtpmap:96 ''"

definition format_of :: "bool \<Rightarrow> str \<times> str" where
  "format_of use_hires = (if use_hires then (ascii ''48000'', ascii ''24'') else (ascii ''44100'', ascii ''16''))"

definition alac_fmtp :: "str \<Rightarrow> str \<Rightarrow> str" where
  "alac_fmtp bit_depth sr = ascii ''a=fmtp:96 352 0 '' @ bit_depth @ ascii '' 40 10 14 2 255 0 0 '' @ sr @ crlf"

definition aac_fmtp :: str where
  "aac_fmtp = ascii ''mpeg4-generic/44100/2'' @ crlf
     @ ascii ''a=fmtp:96 mode=AAC-hbr;sizelength=13;indexlength=3;indexdeltalength=3;''"

definition lower_hex :: "u8 \<Rightarrow> str" where
  "lower_hex b = (let d = (\<lambda>n. if n < 10 then of_nat (48 + n) else of_nat (87 + n)) in [d (unat b div 16), d (unat b mod 16)])"

definition eld_config :: "client_env \<Rightarrow> (client_error, str \<times> str) result" where
  "eld_config env =
     (case ce_aac_eld env of
        Inl e \<Rightarrow> Inl (E_InternalError (Plain (ascii ''Failed to initialize AAC-ELD encoder for ASC: '' @ e)))
      | Inr (None, _) \<Rightarrow> Inl (E_InternalError (msg ''Failed to get ASC from AAC-ELD encoder''))
      | Inr (Some asc, frame_length) \<Rightarrow> Inr (concat (map lower_hex asc), dec_string (unat (or_else frame_length 512))))"

definition announce_sdp :: "client_env \<Rightarrow> client_audio_codec \<Rightarrow> bool \<Rightarrow> (client_error, str) result" where
  "announce_sdp env codec use_hires =
     (case format_of use_hires of (sr, bit_depth) \<Rightarrow>
      case codec of
        Codec_Alac \<Rightarrow> Inr (sdp_prefix @ ascii ''AppleLossless'' @ crlf @ alac_fmtp bit_depth sr)
      | Codec_Pcm \<Rightarrow> Inr (sdp_prefix @ ascii ''L'' @ bit_depth @ ascii ''/'' @ sr @ ascii ''/2'' @ crlf @ alac_fmtp bit_depth sr)
      | Codec_Aac \<Rightarrow> Inr (sdp_prefix @ aac_fmtp @ ascii ''constantDuration=1024'' @ crlf)
      | Codec_Opus \<Rightarrow> Inl (E_InvalidParameter (ascii ''audio_codec'') (msg ''Opus codec not yet supported for SDP generation''))
      | Codec_AacEld \<Rightarrow>
          result_bind (eld_config env) (\<lambda>(config_hex, frame_len).
            Inr (sdp_prefix @ aac_fmtp @ ascii ''config='' @ config_hex @ ascii '';constantDuration='' @ frame_len @ crlf)))"

definition announce_step :: "client_env \<Rightarrow> bool \<Rightarrow> client \<Rightarrow> (client, (client_error, unit) result) call_outcome" where
  "announce_step env use_ptp c =
     (if use_ptp \<and> cfg_audio_codec (cm_config c) \<noteq> Codec_AacEld then Returned c (Inr ())
      else await_ok (from_result (announce_sdp env (cfg_audio_codec (cm_config c)) (should_use_hires c))) (\<lambda>sdp.
           await_ok (build_request (\<lambda>s. announce_request s sdp)) (\<lambda>request.
           await_ok (send_rtsp_request env request) (\<lambda>_. ok_val ()))) c)"

section \<open>SETUP, first step\<close>

definition session_setup_plist :: plist where
  "session_setup_plist =
     PDictionary (dict_insert (ascii ''isAudioReceiver'') (PBoolean False) (text_entry ''macAddress'' MAC_ADDRESS
       (text_entry ''groupUUID'' GROUP_UUID (text_entry ''timingProtocol'' (ascii ''NTP'') []))))"

definition keys_entries :: "bytes \<Rightarrow> bytes \<Rightarrow> (str \<times> plist) list \<Rightarrow> (str \<times> plist) list" where
  "keys_entries ek eiv d =
     dict_insert (ascii ''et'') (PInteger 4) (dict_insert (ascii ''eiv'') (PData eiv) (dict_insert (ascii ''ekey'') (PData ek) d))"

definition client_timing_peer_info :: "str \<Rightarrow> str \<Rightarrow> u64 \<Rightarrow> u16 \<Rightarrow> plist" where
  "client_timing_peer_info local_ip session_id clock_id time_port =
     PDictionary
       (dict_insert (ascii ''ClockPorts'') (PDictionary (dict_insert (hex16 clock_id) (PInteger (ucast time_port)) []))
       (dict_insert (ascii ''SupportsClockPortMatchingOverride'') (PBoolean True)
       (dict_insert (ascii ''ClockID'') (PUnsignedInteger clock_id)
       (text_entry ''ID'' session_id
       (dict_insert (ascii ''Addresses'') (PArray [PString local_ip]) [])))))"

definition setup_plist_step1 :: "bool \<Rightarrow> plist \<Rightarrow> bytes \<Rightarrow> bytes \<Rightarrow> plist" where
  "setup_plist_step1 use_ptp peer_info ek eiv =
     (if use_ptp
      then PDictionary (keys_entries ek eiv
             (dict_insert (ascii ''isAudioReceiver'') (PBoolean False) (text_entry ''macAddress'' MAC_ADDRESS
             (text_entry ''groupUUID'' GROUP_UUID (dict_insert (ascii ''timingPeerInfo'') peer_info
             (text_entry ''timingProtocol'' (ascii ''PTP'') []))))))
      else PDictionary (keys_entries ek eiv (text_entry ''timingProtocol'' (ascii ''NTP'') [])))"

text \<open>The answer: event and timing port, the device's clock and the last of its clock ports.\<close>

definition port_of :: "(str \<times> plist) list \<Rightarrow> string \<Rightarrow> u16 option" where
  "port_of d key = map_option ucast (Option.bind (dict_get d (ascii key)) as_i64)"

definition last_clock_port :: "(str \<times> plist) list \<Rightarrow> u16 option" where
  "last_clock_port entries =
     foldl (\<lambda>port (_, v). case as_i64 v of Some p \<Rightarrow> Some (ucast p) | None \<Rightarrow> port) None entries"

record step1_answer =
  s1_event_port :: "u16 option"
  s1_timing_port :: "u16 option"
  s1_clock_port :: "u16 option"
  s1_clock_id :: "u64 option"

definition no_step1 :: step1_answer where
  "no_step1 = \<lparr>s1_event_port = None, s1_timing_port = None, s1_clock_port = None, s1_clock_id = None\<rparr>"

definition read_step1 :: "((str \<times> plist) list \<Rightarrow> (str \<times> plist) list) \<Rightarrow> plist \<Rightarrow> step1_answer" where
  "read_step1 map_order p =
     (case as_dict p of
        None \<Rightarrow> no_step1
      | Some d \<Rightarrow>
          (let tpi = Option.bind (dict_get d (ascii ''timingPeerInfo'')) as_dict;
               ports = Option.bind (Option.bind tpi (\<lambda>t. dict_get t (ascii ''ClockPorts''))) as_dict
           in \<lparr>s1_event_port = port_of d ''eventPort'', s1_timing_port = port_of d ''timingPort'',
               s1_clock_port = Option.bind ports (\<lambda>e. last_clock_port (map_order e)),
               s1_clock_id = Option.bind (Option.bind tpi (\<lambda>t. dict_get t (ascii ''ClockID''))) as_u64\<rparr>))"

section \<open>SETUP, second step\<close>

definition client_transport :: "u16 \<Rightarrow> u16 \<Rightarrow> u16 \<Rightarrow> str" where
  "client_transport audio_port ctrl_port time_port =
     ascii ''RTP/AVP/UDP;unicast;mode=record;client_port='' @ dec_string (unat audio_port)
     @ ascii '';control_port='' @ dec_string (unat ctrl_port) @ ascii '';timing_port='' @ dec_string (unat time_port)"

definition client_stream_format :: "client_env \<Rightarrow> client_audio_codec \<Rightarrow> bool \<Rightarrow> i64 \<times> u32 \<times> i64" where
  "client_stream_format env codec use_hires =
     (case codec of
        Codec_Pcm \<Rightarrow> (1, 352, if use_hires then push_bit 16 1 else push_bit 11 1)
      | Codec_Alac \<Rightarrow> (2, 352, if use_hires then push_bit 16 1 else 0x40000)
      | Codec_Aac \<Rightarrow> (4, 1024, push_bit 22 1)
      | Codec_AacEld \<Rightarrow> (8, (case ce_aac_eld env of Inr (_, Some n) \<Rightarrow> n | _ \<Rightarrow> 512), push_bit 24 1)
      | Codec_Opus \<Rightarrow> (0, 480, 0))"

definition stream_entry :: "u64 \<Rightarrow> i64 \<times> u32 \<times> i64 \<Rightarrow> bytes \<Rightarrow> bytes \<Rightarrow> u16 \<Rightarrow> u16 \<Rightarrow> bool \<Rightarrow> plist" where
  "stream_entry stream_type fmt ek eiv ctrl_port time_port use_hires =
     (case fmt of (ct, spf, audio_format) \<Rightarrow>
      let base = dict_insert (ascii ''latencyMax'') (PInteger 88200)
           (dict_insert (ascii ''latencyMin'') (PInteger 11025)
           (dict_insert (ascii ''timingPort'') (PUnsignedInteger (ucast time_port))
           (dict_insert (ascii ''controlPort'') (PUnsignedInteger (ucast ctrl_port))
           (dict_insert (ascii ''shiv'') (PData eiv)
           (dict_insert (ascii ''shk'') (PData ek)
           (text_entry ''audioType'' (ascii ''default'')
           (dict_insert (ascii ''spf'') (PUnsignedInteger (ucast spf))
           (dict_insert (ascii ''audioFormat'') (PInteger audio_format)
           (dict_insert (ascii ''ct'') (PInteger ct)
           (dict_insert (ascii ''type'') (PUnsignedInteger stream_type) []))))))))))
      in PDictionary
           (if use_hires
            then dict_insert (ascii ''ch'') (PUnsignedInteger 2)
                  (dict_insert (ascii ''ss'') (PUnsignedInteger 24) (dict_insert (ascii ''sr'') (PUnsignedInteger 48000) base))
            else base))"

definition setup_plist_step2 :: "plist \<Rightarrow> plist" where
  "setup_plist_step2 entry = PDictionary (dict_insert (ascii ''streams'') (PArray [entry]) [])"

text \<open>The ports of the answer: at the top level, in the first stream, or in the transport header.\<close>

definition read_step2 :: "plist \<Rightarrow> (u16 \<times> u16) option" where
  "read_step2 p =
     (case as_dict p of
        None \<Rightarrow> None
      | Some d \<Rightarrow>
          (let stream = Option.bind (Option.bind (dict_get d (ascii ''streams'')) as_array)
                          (\<lambda>ss. case ss of s # _ \<Rightarrow> as_dict s | [] \<Rightarrow> None);
               pair = (case (port_of d ''dataPort'', port_of d ''controlPort'') of
                         (Some dp, Some cp) \<Rightarrow> (Some dp, Some cp)
                       | _ \<Rightarrow> (case stream of
                                 Some s \<Rightarrow> (port_of s ''dataPort'', port_of s ''controlPort'')
                               | None \<Rightarrow> (None, None)))
           in case pair of (Some dp, Some cp) \<Rightarrow> Some (dp, cp) | _ \<Rightarrow> None))"

definition transport_part_ports :: "u16 \<times> u16 \<times> u16 \<Rightarrow> str \<Rightarrow> u16 \<times> u16 \<times> u16" where
  "transport_part_ports ports part =
     (case ports of (audio, ctrl, timing) \<Rightarrow>
      case split_once 61 (trim part) of
        None \<Rightarrow> ports
      | Some (key, v) \<Rightarrow>
          (case parse_u16 v of
             None \<Rightarrow> ports
           | Some port \<Rightarrow>
               (if key = ascii ''server_port'' then (port, ctrl, timing)
                else if key = ascii ''control_port'' then (audio, port, timing)
                else if key = ascii ''timing_port'' then (audio, ctrl, port)
                else ports)))"

definition parse_transport_ports :: "str \<Rightarrow> (client_error, u16 \<times> u16 \<times> u16) result" where
  "parse_transport_ports header =
     (case foldl transport_part_ports (0, 0, 0) (split_byte 59 header) of (audio, ctrl, timing) \<Rightarrow>
      if audio = 0 then Inl (E_RtspError (msg ''Could not determine server audio port'') None)
      else Inr (audio, ctrl, timing))"

record server_ports =
  sp_audio :: u16
  sp_control :: u16
  sp_event :: u16
  sp_timing :: u16

definition find_server_ports :: "step1_answer \<Rightarrow> plist option \<Rightarrow> rtsp_response \<Rightarrow> server_ports option" where
  "find_server_ports s1 p response =
     (case Option.bind p read_step2 of
        Some (dp, cp) \<Rightarrow>
          Some \<lparr>sp_audio = dp, sp_control = cp, sp_event = or_else (s1_event_port s1) 0,
                sp_timing = or_else (s1_timing_port s1) 0\<rparr>
      | None \<Rightarrow>
          (case headers_get (rp_headers response) (ascii ''Transport'') of
             None \<Rightarrow> None
           | Some header \<Rightarrow>
               (case parse_transport_ports header of
                  Inl _ \<Rightarrow> None
                | Inr (audio, ctrl, timing) \<Rightarrow>
                    Some \<lparr>sp_audio = audio, sp_control = ctrl, sp_event = or_else (s1_event_port s1) 0,
                          sp_timing = timing\<rparr>)))"

section \<open>Sockets, clocks and tasks\<close>

definition bind_ptp_or_ephemeral :: "client_env \<Rightarrow> u16 \<Rightarrow> nat \<Rightarrow> (io_error, udp_socket) result" where
  "bind_ptp_or_ephemeral env port k =
     (case ce_bind_ptp env port of Inr s \<Rightarrow> Inr s | Inl _ \<Rightarrow> bind_ephemeral_socket env k)"

definition start_ptp_master :: "client_env \<Rightarrow> ip_addr \<Rightarrow> u64 \<Rightarrow> u16 option \<Rightarrow> client \<Rightarrow> client" where
  "start_ptp_master env device_ip clock_id device_clock_port c =
     (case (bind_ptp_or_ephemeral env PTP_EVENT_PORT 4, bind_ptp_or_ephemeral env PTP_GENERAL_PORT 5) of
        (Inr _, Inr _) \<Rightarrow>
          (let clock = create_shared_clock (ce_instant env) clock_id Slave;
               config = \<lparr>hc_clock_id = clock_id, hc_role = Slave, hc_recv_buf_size = 512, hc_use_airplay_format = False\<rparr>;
               handler = ptp_slave_new True clock config (socket_new device_ip PTP_EVENT_PORT);
               handler = (case device_clock_port of
                            None \<Rightarrow> handler
                          | Some cp \<Rightarrow> slave_set_clock_port_addr handler (socket_new device_ip cp));
               k = cm_channels c
           in c\<lparr>cm_tasks := cm_tasks c @ [(k, Task_Ptp handler)], cm_channels := k + 1, cm_ptp_clock := Some clock,
                cm_ptp_shutdown_tx := Some k, cm_ptp_active := True\<rparr>)
      | _ \<Rightarrow> c)"

text \<open>The control listener watches the channel of the PTP handler, or one made for it.\<close>

definition start_control_listener :: "client \<Rightarrow> client" where
  "start_control_listener c =
     (let k = cm_channels c; watched = or_else (cm_ptp_shutdown_tx c) k
      in c\<lparr>cm_tasks := cm_tasks c @ [(watched, Task_Control)], cm_channels := k + 1, cm_ptp_shutdown_tx := Some watched\<rparr>)"

definition connect_event_channel :: "client_env \<Rightarrow> ip_addr \<Rightarrow> u16 \<Rightarrow> client \<Rightarrow> client" where
  "connect_event_channel env device_ip port c =
     (if port = 0 then c
      else case ce_tcp env device_ip port of Some (Inr _) \<Rightarrow> c\<lparr>cm_event_task := True\<rparr> | _ \<Rightarrow> c)"

definition connect_audio_tcp :: "client_env \<Rightarrow> u64 \<Rightarrow> ip_addr \<Rightarrow> u16 \<Rightarrow> client \<Rightarrow> (client, (client_error, unit) result) call_outcome" where
  "connect_audio_tcp env stream_type device_ip port c =
     (if stream_type \<noteq> 103 then Returned c (Inr ())
      else case ce_tcp env device_ip port of
             None \<Rightarrow> Waiting c
           | Some (Inr t) \<Rightarrow> Returned (c\<lparr>cm_audio_tcp_stream := Some t\<rparr>) (Inr ())
           | Some (Inl _) \<Rightarrow> Returned c (Inr ()))"

definition udp_connect :: "client_env \<Rightarrow> ip_addr \<Rightarrow> u16 \<Rightarrow> udp_socket \<Rightarrow> (client_error, udp_socket) result" where
  "udp_connect env ip port u =
     result_bind (map_err E_NetworkError (ce_udp_connect env ip port)) (\<lambda>_. Inr (u\<lparr>us_peer := Some (ip, port)\<rparr>))"

definition start_timing :: "client_env \<Rightarrow> bool \<Rightarrow> ip_addr \<Rightarrow> u64 \<Rightarrow> u16 option \<Rightarrow> client \<Rightarrow>
    (client, (client_error, unit) result) call_outcome" where
  "start_timing env use_ptp device_ip clock_id device_clock_port =
     (if use_ptp
      then await (send_set_peers env device_ip) (\<lambda>_ c.
             Returned (start_ptp_master env device_ip clock_id device_clock_port c) (Inr ()))
      else (\<lambda>c. Returned (case ntp_get_offset (ce_ntp env) of
                            Inr offset \<Rightarrow> c\<lparr>cm_ntp_offset := offset\<rparr>
                          | Inl _ \<Rightarrow> c) (Inr ())))"

definition install_sockets :: "udp_socket \<Rightarrow> udp_socket \<Rightarrow> udp_socket \<Rightarrow> server_ports \<Rightarrow> client \<Rightarrow> client" where
  "install_sockets audio ctrl timing ports c =
     c\<lparr>cm_sockets := Some \<lparr>uds_audio = audio, uds_control = ctrl, uds_timing = timing,
         uds_server_audio_port = sp_audio ports, uds_server_control_port = sp_control ports,
         uds_server_timing_port = sp_timing ports\<rparr>\<rparr>"

definition connect_streams :: "client_env \<Rightarrow> bool \<Rightarrow> u64 \<Rightarrow> u16 option \<Rightarrow> udp_socket \<Rightarrow> udp_socket \<Rightarrow> udp_socket \<Rightarrow>
    server_ports \<Rightarrow> client \<Rightarrow> (client, (client_error, unit) result) call_outcome" where
  "connect_streams env use_ptp clock_id device_clock_port audio ctrl timing ports c =
     (case cm_device c of
        None \<Rightarrow> Returned c (Inl (E_InvalidState (msg ''Device information is missing.'') (connection_state_name (cm_state c))))
      | Some d \<Rightarrow>
          (let ip = device_address d in
           await_ok (from_result (udp_connect env ip (sp_audio ports) audio)) (\<lambda>audio.
           await_ok (from_result (udp_connect env ip (sp_control ports) ctrl)) (\<lambda>ctrl.
           await_ok (connect_audio_tcp env (if use_ptp then 103 else 96) ip (sp_audio ports)) (\<lambda>_.
           await_ok (from_result (if sp_timing ports > 0 then udp_connect env ip (sp_timing ports) timing else Inr timing)) (\<lambda>timing.
           await_ok (start_timing env use_ptp ip clock_id device_clock_port) (\<lambda>_ c.
             Returned (start_control_listener (install_sockets audio ctrl timing ports
               (connect_event_channel env ip (sp_event ports) c))) (Inr ())))))) c))"

section \<open>The set-up sequence\<close>

definition send_setup_request :: "client_env \<Rightarrow> plist \<Rightarrow> str option \<Rightarrow> client \<Rightarrow> (client, (client_error, rtsp_response) result) call_outcome" where
  "send_setup_request env p transport =
     await_ok (build_request (\<lambda>s. setup_session_request s p transport)) (send_rtsp_request env)"

text \<open>A body that is not a property list is ignored; the decoder can panic.\<close>

definition decode_body :: "client_env \<Rightarrow> rtsp_response \<Rightarrow> (plist option \<Rightarrow> client \<Rightarrow> (client, 'a) call_outcome) \<Rightarrow> client \<Rightarrow> (client, 'a) call_outcome" where
  "decode_body env response f =
     no_panic (plist_decode (ce_alloc env) (rp_body response)) (\<lambda>r. f (case r of Inl _ \<Rightarrow> None | Inr p \<Rightarrow> Some p))"

definition early_time_socket :: "client_env \<Rightarrow> bool \<Rightarrow> udp_socket option" where
  "early_time_socket env use_ptp =
     (if use_ptp then (case bind_ephemeral_socket env 0 of Inr s \<Rightarrow> Some s | Inl _ \<Rightarrow> None) else None)"

definition early_time_port :: "udp_socket option \<Rightarrow> u16" where
  "early_time_port s = (case s of Some u \<Rightarrow> (case us_local u of Inr p \<Rightarrow> p | Inl _ \<Rightarrow> 0) | None \<Rightarrow> 0)"

definition setup_step1 :: "client_env \<Rightarrow> bool \<Rightarrow> u64 \<Rightarrow> bytes \<Rightarrow> u16 \<Rightarrow> client \<Rightarrow>
    (client, (client_error, step1_answer) result) call_outcome" where
  "setup_step1 env use_ptp clock_id ek time_port c =
     (let local_ip = or_else (Option.bind (cm_stream c) tcp_local) (ascii ''0.0.0.0'');
          session_id = (case cm_rtsp_session c of Some s \<Rightarrow> ses_client_session_id s | None \<Rightarrow> []);
          p = setup_plist_step1 use_ptp (client_timing_peer_info local_ip session_id clock_id time_port) ek (ce_eiv env)
      in await_ok (send_setup_request env p None) (\<lambda>response.
         decode_body env response (\<lambda>p c.
           let s1 = (case p of None \<Rightarrow> no_step1 | Some v \<Rightarrow> read_step1 (ce_map_order env) v)
           in Returned (case s1_clock_id s1 of None \<Rightarrow> c | Some k \<Rightarrow> c\<lparr>cm_device_clock_id := Some k\<rparr>) (Inr s1))) c)"

definition io_try :: "(io_error, 'a) result \<Rightarrow> ('a \<Rightarrow> client \<Rightarrow> (client, (client_error, 'b) result) call_outcome) \<Rightarrow>
    client \<Rightarrow> (client, (client_error, 'b) result) call_outcome" where
  "io_try r = await_ok (from_result (map_err E_NetworkError r))"

definition setup_step2 :: "client_env \<Rightarrow> bool \<Rightarrow> u64 \<Rightarrow> bytes \<Rightarrow> udp_socket option \<Rightarrow> step1_answer \<Rightarrow> client \<Rightarrow>
    (client, (client_error, unit) result) call_outcome" where
  "setup_step2 env use_ptp clock_id ek time_sock s1 =
     io_try (bind_ephemeral_socket env 1) (\<lambda>audio.
     io_try (bind_ephemeral_socket env 2) (\<lambda>ctrl.
     io_try (case time_sock of Some s \<Rightarrow> Inr s | None \<Rightarrow> bind_ephemeral_socket env 3) (\<lambda>timing.
     io_try (us_local audio) (\<lambda>audio_port.
     io_try (us_local ctrl) (\<lambda>ctrl_port.
     io_try (us_local timing) (\<lambda>time_port c.
       let use_hires = should_use_hires c;
           entry = stream_entry (if use_ptp then 103 else 96) (client_stream_format env (cfg_audio_codec (cm_config c)) use_hires)
                     ek (ce_eiv env) ctrl_port time_port use_hires
       in await_ok (send_setup_request env (setup_plist_step2 entry) (Some (client_transport audio_port ctrl_port time_port))) (\<lambda>response.
          decode_body env response (\<lambda>p.
            case find_server_ports s1 p response of
              None \<Rightarrow> ok_val ()
            | Some ports \<Rightarrow> connect_streams env use_ptp clock_id (s1_clock_port s1) audio ctrl timing ports)) c))))))"

definition setup_session :: "client_env \<Rightarrow> client \<Rightarrow> (client, (client_error, unit) result) call_outcome" where
  "setup_session env =
     await_ok (send_get_command env (ascii ''/info'')) (\<lambda>_ c.
       let use_ptp = should_use_ptp c;
           clock_id = (if use_ptp then ce_ptp_clock_id env else 0);
           time_sock = early_time_socket env use_ptp
       in await_ok (if use_ptp then ok_val () else await_ok (send_setup_request env session_setup_plist None) (\<lambda>_. ok_val ())) (\<lambda>_.
          await_ok (announce_step env use_ptp) (\<lambda>_ c.
            let ek = or_else (encryption_key c) (replicate 32 0)
            in await_ok (setup_step1 env use_ptp clock_id ek (early_time_port time_sock))
                 (setup_step2 env use_ptp clock_id ek time_sock) c)) c)"

section \<open>Connecting\<close>

definition manufacturer_of :: "plist option \<Rightarrow> str" where
  "manufacturer_of p =
     or_else (Option.bind (Option.bind (Option.bind p as_dict) (\<lambda>d. dict_get d (ascii ''manufacturer''))) as_str) []"

definition probe_info :: "client_env \<Rightarrow> client \<Rightarrow> (client, str) call_outcome" where
  "probe_info env =
     await (send_get_command env (ascii ''/info'')) (\<lambda>r.
       case r of
         Inl _ \<Rightarrow> (\<lambda>c. Returned c [])
       | Inr body \<Rightarrow>
           no_panic (plist_decode (ce_alloc env) body) (\<lambda>p c.
             Returned c (manufacturer_of (case p of Inl _ \<Rightarrow> None | Inr v \<Rightarrow> Some v))))"

definition in_state :: "client_connection_state \<Rightarrow> (client \<Rightarrow> (client, 'a) call_outcome) \<Rightarrow> client \<Rightarrow> (client, 'a) call_outcome" where
  "in_state s f c = f (set_state s c)"

definition open_stream :: "client_env \<Rightarrow> airplay_device \<Rightarrow> client \<Rightarrow> (client, (client_error, unit) result) call_outcome" where
  "open_stream env device c =
     (case ce_tcp env (device_address device) (dev_port device) of
        None \<Rightarrow> Waiting c
      | Some (Inl e) \<Rightarrow> Returned c (Inl (E_ConnectionFailed (dev_name device) (Prefixed [] (Cause_Io e))))
      | Some (Inr t) \<Rightarrow>
          Returned (c\<lparr>cm_stream := Some t, cm_secure_session := None, cm_session_keys := None,
                      cm_rtsp_session := Some (rtsp_session_new (fst (ce_session_ids env)) (snd (ce_session_ids env))
                        (ip_string (device_address device)) (dev_port device))\<rparr>) (Inr ()))"

definition connect_internal :: "client_env \<Rightarrow> airplay_device \<Rightarrow> client \<Rightarrow> (client, (client_error, unit) result) call_outcome" where
  "connect_internal env device =
     await_ok (open_stream env device) (\<lambda>_.
     await_ok (in_state CS_SettingUp (send_options env)) (\<lambda>_.
     await (probe_info env) (\<lambda>manufacturer.
     await (in_state CS_Authenticating
              (if manufacturer = ascii ''OpenAirplay'' then ok_val () else auth_setup env)) (\<lambda>_.
     await_ok (authenticate env device) (\<lambda>_.
     in_state CS_SettingUp (setup_session env))))))"

definition client_connect :: "client_env \<Rightarrow> airplay_device \<Rightarrow> client \<Rightarrow> (client, (client_error, unit) result) call_outcome" where
  "client_connect env device c =
     (if connection_is_active (cm_state c)
      then Returned c (Inl (E_InvalidState (msg ''Already connected or connecting'') (connection_state_name (cm_state c))))
      else await (timeout (connect_internal env device)) (\<lambda>result c.
             case result of
               Some (Inr _) \<Rightarrow> Returned (send_event (CE_Connected device) (set_state CS_Connected c)) (Inr ())
             | Some (Inl e) \<Rightarrow>
                 Returned (send_event (CE_Error e (is_recoverable e)) (set_state CS_Failed c)) (Inl e)
             | None \<Rightarrow>
                 Returned (set_state CS_Failed c) (Inl (E_ConnectionTimeout (cfg_connection_timeout (cm_config c)))))
             ((set_state CS_Connecting c)\<lparr>cm_device := Some device\<rparr>))"

end
