(* ===== verification/Client_Lifecycle.thy ===== *)
theory Client_Lifecycle
  imports Client_Setup Client_Exchange
begin

text \<open>
  The life of a connection: the states that \<open>connect\<close> and \<open>disconnect\<close> leave the manager in, and the
  state changes that a subscriber of its events sees. The operations between \<open>set_state\<close> calls are
  \<open>calm\<close>: they change neither the state nor the events, and lose neither stream nor session.
\<close>

section \<open>Calm operations\<close>

definition calm :: "client \<Rightarrow> client \<Rightarrow> bool" where
  "calm c c' \<longleftrightarrow> cm_events c' = cm_events c \<and> cm_state c' = cm_state c \<and> cm_device c' = cm_device c
     \<and> cm_config c' = cm_config c
     \<and> (cm_stream c \<noteq> None \<longrightarrow> cm_stream c' \<noteq> None) \<and> (cm_rtsp_session c \<noteq> None \<longrightarrow> cm_rtsp_session c' \<noteq> None)"

text \<open>What every part of a request keeps, the request keeps.\<close>

lemma keeps_send_request:
  assumes "\<And>data. keeps P (seal_request env data)" and "\<And>data. keeps P (tcp_write data)"
    and "\<And>expected. keeps P (read_response env expected)" and "\<And>c stats. P c \<Longrightarrow> P (c\<lparr>cm_stats := stats\<rparr>)"
  shows "keeps P (send_rtsp_request env request)"
proof -
  have stats: "keeps P (\<lambda>c. no_panic (record_sent (cm_stats c) n) (\<lambda>stats c. read_response env expected (c\<lparr>cm_stats := stats\<rparr>)) c)" for n expected
    using assms(3) [of expected] assms(4) by (auto simp: keeps_def no_panic_def split: option.splits)
  have "keeps P (await_ok (seal_request env data) (\<lambda>wire. await_ok (tcp_write wire) (\<lambda>_ c.
      no_panic (record_sent (cm_stats c) n) (\<lambda>stats c. read_response env expected (c\<lparr>cm_stats := stats\<rparr>)) c)))" for data n expected
    by (intro keeps_rules assms stats)
  then show ?thesis unfolding send_rtsp_request_def Let_def keeps_def by (simp split: if_split)
qed

locale calm_property =
  fixes P :: "client \<Rightarrow> bool"
  assumes calm_closed: "calm c c' \<Longrightarrow> P c \<Longrightarrow> P c'"
begin

lemma keeps_calm: "(\<And>c c'. left_in (m c) = Some c' \<Longrightarrow> calm c c') \<Longrightarrow> keeps P m"
  using calm_closed by (auto simp: keeps_def)

lemma keeps_basic:
  "keeps P (seal_request env data)" "keeps P (tcp_write data)" "keeps P (read_response env expected)"
  "keeps P (build_request mk)" "keeps P (update_session m response)" "keeps P (log_error_body env response)"
  "keeps P (on_stream g)"
  by (rule keeps_calm, auto simp: calm_def seal_request_def tcp_write_def read_response_def with_reader_def build_request_def
      update_session_def log_error_body_def on_stream_def split: option.splits prod.splits call_outcome.splits if_splits)+

lemma keeps_cond [keeps_rules]:
  "(b \<Longrightarrow> keeps P m) \<Longrightarrow> (\<not> b \<Longrightarrow> keeps P n) \<Longrightarrow> keeps P (if b then m else n)"
  by (auto simp: keeps_def)

lemma keeps_at: "(\<And>c. keeps P (g c)) \<Longrightarrow> keeps P (\<lambda>c. g c c)"
  by (auto simp: keeps_def)

lemma keeps_after: "(\<And>c. calm c (u c)) \<Longrightarrow> keeps P m \<Longrightarrow> keeps P (\<lambda>c. m (u c))"
  using calm_closed by (auto simp: keeps_def)

lemma keeps_update: "(\<And>c. calm c (u c)) \<Longrightarrow> keeps P (\<lambda>c. Returned (u c) a)"
  using calm_closed by (auto simp: keeps_def)

lemma keeps_request: "keeps P (send_rtsp_request env request)"
  by (rule keeps_send_request [OF keeps_basic(1-3)]) (rule calm_closed, simp_all add: calm_def)

lemma keeps_pick: "(\<And>c. \<exists>g. f c = g c \<and> keeps P g) \<Longrightarrow> keeps P f"
  unfolding keeps_def by metis

lemma keeps_commands:
  "keeps P (send_get_command env path)" "keeps P (send_post_command env path body ct)" "keeps P (send_flush env sq ts)"
  "keeps P (client_record env)"
  unfolding send_get_command_def send_post_command_def send_flush_def client_record_def
  by (intro keeps_rules keeps_basic keeps_request)+

lemma keeps_set_peers: "keeps P (send_set_peers env ip)"
proof (rule keeps_pick)
  fix c
  show "\<exists>g. send_set_peers env ip c = g c \<and> keeps P g"
    unfolding send_set_peers_def Let_def by (intro exI conjI, rule refl) (intro keeps_rules keeps_basic keeps_request)
qed

lemma keeps_options: "keeps P (send_options env)"
proof -
  have "keeps P (\<lambda>c. case cm_rtsp_session c of
         None \<Rightarrow> Returned c (Inl (E_InvalidState (msg ''RTSP session closed during OPTIONS request'') (ascii ''Disconnected'')))
       | Some s \<Rightarrow> (case process_response s Method_Options response of (s', r) \<Rightarrow>
           Returned (c\<lparr>cm_rtsp_session := Some s'\<rparr>) (map_err (status_error response) r)))" for response
    by (rule keeps_calm) (auto simp: calm_def split: option.splits prod.splits)
  then show ?thesis unfolding send_options_def by (intro keeps_rules keeps_basic keeps_request)
qed

lemma keeps_pairing_data: "keeps P (send_pairing_data env data path)"
proof (rule keeps_pick)
  fix c
  show "\<exists>g. send_pairing_data env data path c = g c \<and> keeps P g"
    unfolding send_pairing_data_def by (intro exI conjI, rule refl) (intro keeps_rules keeps_basic)
qed

lemma keeps_pairing_step [keeps_rules]: "(\<And>p a. keeps P (f p a)) \<Longrightarrow> keeps P (pairing_step pr f)"
  unfolding pairing_step_def by (cases pr) (auto intro!: keeps_rules)

lemma keeps_step_result [keeps_rules]:
  "(\<And>d. keeps P (f d)) \<Longrightarrow> keeps P m \<Longrightarrow> (\<And>k. keeps P (h k)) \<Longrightarrow> (\<And>e. keeps P (i e)) \<Longrightarrow>
   keeps P (case r of Step_SendData d \<Rightarrow> f d | Step_NeedData \<Rightarrow> m | Step_Complete k \<Rightarrow> h k | Step_Failed e \<Rightarrow> i e)"
  by (cases r) simp_all

lemma keeps_dialogues:
  "keeps P (client_pair_setup env k user pin)" "keeps P (transient_pair env k)" "keeps P (client_pair_verify env keys)"
  unfolding client_pair_setup_def pair_setup_m6_def transient_pair_def client_pair_verify_def Let_def case_prod_beta
  by (intro keeps_rules keeps_pairing_data)+

lemma keeps_result:
  "(\<And>a c. calm c (u a c)) \<Longrightarrow> keeps P (\<lambda>c. case r of Inl e \<Rightarrow> Returned c x | Inr a \<Rightarrow> Returned (u a c) y)"
  by (cases r) (auto simp: keeps_def intro: calm_closed)

lemma keeps_attempts: "keeps P (try_transient_pairing env k)" "keeps P (try_stored_keys env device)"
proof -
  show "keeps P (try_transient_pairing env k)"
    unfolding try_transient_pairing_def
    by (intro keeps_rules keeps_dialogues keeps_result) (simp add: calm_def secure_with_def)
  show "keeps P (try_stored_keys env device)"
  proof (rule keeps_pick)
    fix c
    have "keeps P (await (client_pair_verify env keys) (\<lambda>r c.
        case r of Inl _ \<Rightarrow> Returned c False | Inr session_keys \<Rightarrow> Returned (c\<lparr>cm_session_keys := Some session_keys\<rparr>) True))" for keys
      by (intro keeps_rules keeps_dialogues keeps_result) (simp add: calm_def)
    moreover have "keeps P (\<lambda>c. Returned c False)" by (simp add: keeps_def)
    ultimately show "\<exists>g. try_stored_keys env device c = g c \<and> keeps P g"
      by (cases "Option.bind (cm_pairing_storage c) (\<lambda>storage. storage_load storage (dev_id device))")
        (auto simp: try_stored_keys_def)
  qed
qed

lemma keeps_credentials: "keeps P (try_credentials env device failed k creds)"
proof (induction creds arbitrary: k)
  case (Cons uc rest)
  obtain user pin where uc: "uc = (user, pin)" by force
  have save: "keeps P (\<lambda>c. Returned (handle_pairing_success device sk pk c) (Inr ()))" for sk pk
    by (rule keeps_update) (auto simp: calm_def handle_pairing_success_def secure_with_def Let_def split: option.splits)
  have "keeps P (\<lambda>c. case r of Inl _ \<Rightarrow> try_credentials env device failed (k + 1) rest c
      | Inr (sk, pk) \<Rightarrow> Returned (handle_pairing_success device sk pk c) (Inr ()))" for r
    using Cons.IH save by (cases r) auto
  then show ?case unfolding uc try_credentials.simps by (intro keeps_rules keeps_dialogues)
qed (simp add: keeps_rules)

lemma keeps_authenticate: "keeps P (authenticate env device)"
proof -
  have "keeps P (\<lambda>c. case cfg_pin (cm_config c) of
              Some pin \<Rightarrow> try_configured_pin env device pin c
            | None \<Rightarrow> await (try_transient_pairing env 0) (\<lambda>paired.
                  if paired then ok_val () else try_brute_force_pairing env device) c)"
  proof (rule keeps_pick)
    fix c
    have "keeps P (try_configured_pin env device pin)" for pin
      unfolding try_configured_pin_def by (rule keeps_credentials)
    moreover have "keeps P (await (try_transient_pairing env 0) (\<lambda>paired. if paired then ok_val () else try_brute_force_pairing env device))"
      unfolding try_brute_force_pairing_def by (intro keeps_rules keeps_attempts keeps_credentials)
    ultimately show "\<exists>g. (case cfg_pin (cm_config c) of Some pin \<Rightarrow> try_configured_pin env device pin c
            | None \<Rightarrow> await (try_transient_pairing env 0) (\<lambda>paired. if paired then ok_val () else try_brute_force_pairing env device) c) = g c \<and> keeps P g"
      by (cases "cfg_pin (cm_config c)") auto
  qed
  moreover have "keeps P (\<lambda>c. Returned c (Inr ()))" by (simp add: keeps_def)
  ultimately have "keeps P (\<lambda>c. if stored then Returned c (Inr ()) else case cfg_pin (cm_config c) of
              Some pin \<Rightarrow> try_configured_pin env device pin c
            | None \<Rightarrow> await (try_transient_pairing env 0) (\<lambda>paired.
                  if paired then ok_val () else try_brute_force_pairing env device) c)" for stored
    by (cases stored) simp_all
  then show ?thesis unfolding authenticate_def by (intro keeps_rules keeps_attempts)
qed

lemma keeps_setup_request: "keeps P (send_setup_request env p transport)"
  unfolding send_setup_request_def by (intro keeps_rules keeps_basic keeps_request)

lemma keeps_auth_setup: "keeps P (auth_setup env)"
  unfolding auth_setup_def by (intro keeps_rules keeps_commands)

lemma keeps_probe: "keeps P (probe_info env)"
proof -
  have "keeps P (case r of Inl _ \<Rightarrow> (\<lambda>c. Returned c []) | Inr body \<Rightarrow>
           no_panic (plist_decode (ce_alloc env) body) (\<lambda>p c.
             Returned c (manufacturer_of (case p of Inl _ \<Rightarrow> None | Inr v \<Rightarrow> Some v))))" for r :: "(client_error, bytes) result"
    by (cases r) (auto simp: keeps_def no_panic_def split: option.splits)
  then show ?thesis unfolding probe_info_def by (intro keeps_rules keeps_commands)
qed

lemma keeps_announce: "keeps P (announce_step env use_ptp)"
proof (rule keeps_pick)
  fix c
  have "keeps P (await_ok (from_result r) (\<lambda>sdp. await_ok (build_request (\<lambda>s. announce_request s sdp)) (\<lambda>request.
       await_ok (send_rtsp_request env request) (\<lambda>_. ok_val ()))))" for r
    by (intro keeps_rules keeps_basic keeps_request)
  moreover have "keeps P (\<lambda>c. Returned c (Inr ()))" by (simp add: keeps_def)
  ultimately show "\<exists>g. announce_step env use_ptp c = g c \<and> keeps P g"
    unfolding announce_step_def by (metis (lifting))
qed

lemma keeps_step1: "keeps P (setup_step1 env use_ptp clock_id ek time_port)"
proof (rule keeps_pick)
  fix c
  have clock: "keeps P (\<lambda>c. Returned (case s1_clock_id s1 of None \<Rightarrow> c | Some k \<Rightarrow> c\<lparr>cm_device_clock_id := Some k\<rparr>) (Inr s1))" for s1
    by (rule keeps_calm) (auto simp: calm_def split: option.splits)
  show "\<exists>g. setup_step1 env use_ptp clock_id ek time_port c = g c \<and> keeps P g"
    unfolding setup_step1_def Let_def decode_body_def
    by (intro exI conjI, rule refl) (intro keeps_rules keeps_setup_request clock)
qed

lemma keeps_timing: "keeps P (start_timing env use_ptp ip clock_id port)"
proof -
  have "keeps P (\<lambda>c. Returned (start_ptp_master env ip clock_id port c) (Inr ()))"
    by (rule keeps_update) (simp add: calm_def start_ptp_master_def Let_def split: sum.splits)
  moreover have "keeps P (\<lambda>c. Returned (case ntp_get_offset (ce_ntp env) of Inr offset \<Rightarrow> c\<lparr>cm_ntp_offset := offset\<rparr> | Inl _ \<Rightarrow> c) (Inr ()))"
    by (rule keeps_update) (simp add: calm_def split: sum.splits)
  ultimately show ?thesis unfolding start_timing_def by (intro keeps_rules keeps_set_peers)
qed

lemma keeps_streams: "keeps P (connect_streams env use_ptp clock_id port audio ctrl timing ports)"
proof (rule keeps_pick)
  fix c
  have tcp: "keeps P (connect_audio_tcp env ty ip p)" for ty ip p
    by (rule keeps_calm) (auto simp: calm_def connect_audio_tcp_def split: option.splits sum.splits if_splits)
  have last: "keeps P (\<lambda>c. Returned (start_control_listener (install_sockets a u t ports (connect_event_channel env ip e c))) (Inr ()))" for a u t ip e
    by (rule keeps_update)
      (auto simp: calm_def start_control_listener_def install_sockets_def connect_event_channel_def Let_def split: option.splits sum.splits)
  have "keeps P (\<lambda>c. Returned c (Inl e))" for e by (simp add: keeps_def)
  then show "\<exists>g. connect_streams env use_ptp clock_id port audio ctrl timing ports c = g c \<and> keeps P g"
  proof (cases "cm_device c")
    case None
    with \<open>\<And>e. keeps P (\<lambda>c. Returned c (Inl e))\<close> show ?thesis unfolding connect_streams_def by fastforce
  next
    case (Some d)
    then show ?thesis
      unfolding connect_streams_def Let_def
      by (simp only: option.case) (intro exI conjI, rule refl, intro keeps_rules tcp keeps_timing last)
  qed
qed

lemma keeps_io_try: "(\<And>a. keeps P (f a)) \<Longrightarrow> keeps P (io_try r f)"
  unfolding io_try_def by (intro keeps_rules)

lemma keeps_step2: "keeps P (setup_step2 env use_ptp clock_id ek time_sock s1)"
proof -
  have ports: "keeps P (case find_server_ports s1 p response of None \<Rightarrow> ok_val () | Some ports \<Rightarrow>
      connect_streams env use_ptp clock_id (s1_clock_port s1) audio ctrl timing ports)" for p response audio ctrl timing
    by (simp add: keeps_pure keeps_streams split: option.split)
  have "keeps P (\<lambda>c. let use_hires = should_use_hires c;
           entry = stream_entry (if use_ptp then 103 else 96) (client_stream_format env (cfg_audio_codec (cm_config c)) use_hires)
                     ek (ce_eiv env) ctrl_port time_port use_hires
       in await_ok (send_setup_request env (setup_plist_step2 entry) (Some (client_transport audio_port ctrl_port time_port))) (\<lambda>response.
          decode_body env response (\<lambda>p. case find_server_ports s1 p response of None \<Rightarrow> ok_val ()
            | Some ports \<Rightarrow> connect_streams env use_ptp clock_id (s1_clock_port s1) audio ctrl timing ports)) c)"
    for audio ctrl timing audio_port ctrl_port time_port
  proof (rule keeps_pick)
    fix c
    show "\<exists>g. (let use_hires = should_use_hires c;
           entry = stream_entry (if use_ptp then 103 else 96) (client_stream_format env (cfg_audio_codec (cm_config c)) use_hires)
                     ek (ce_eiv env) ctrl_port time_port use_hires
       in await_ok (send_setup_request env (setup_plist_step2 entry) (Some (client_transport audio_port ctrl_port time_port))) (\<lambda>response.
          decode_body env response (\<lambda>p. case find_server_ports s1 p response of None \<Rightarrow> ok_val ()
            | Some ports \<Rightarrow> connect_streams env use_ptp clock_id (s1_clock_port s1) audio ctrl timing ports)) c) = g c \<and> keeps P g"
      unfolding Let_def decode_body_def
      by (intro exI conjI, rule refl) (intro keeps_rules keeps_setup_request ports)
  qed
  then show ?thesis unfolding setup_step2_def by (intro keeps_io_try)
qed

lemma keeps_setup_session: "keeps P (setup_session env)"
proof -
  have steps: "keeps P (\<lambda>c. await_ok (setup_step1 env use_ptp clock_id (or_else (encryption_key c) (replicate 32 0)) port)
                 (setup_step2 env use_ptp clock_id (or_else (encryption_key c) (replicate 32 0)) time_sock) c)"
    for use_ptp clock_id port time_sock
  proof (rule keeps_pick)
    fix c
    show "\<exists>g. await_ok (setup_step1 env use_ptp clock_id (or_else (encryption_key c) (replicate 32 0)) port)
                 (setup_step2 env use_ptp clock_id (or_else (encryption_key c) (replicate 32 0)) time_sock) c = g c \<and> keeps P g"
      by (intro exI conjI, rule refl) (intro keeps_rules keeps_step1 keeps_step2)
  qed
  let ?rest = "\<lambda>use_ptp. await_ok (if use_ptp then ok_val () else await_ok (send_setup_request env session_setup_plist None) (\<lambda>_. ok_val ())) (\<lambda>_.
          await_ok (announce_step env use_ptp) (\<lambda>_ c.
            await_ok (setup_step1 env use_ptp (if use_ptp then ce_ptp_clock_id env else 0)
                (or_else (encryption_key c) (replicate 32 0)) (early_time_port (early_time_socket env use_ptp)))
              (setup_step2 env use_ptp (if use_ptp then ce_ptp_clock_id env else 0)
                (or_else (encryption_key c) (replicate 32 0)) (early_time_socket env use_ptp)) c))"
  have "keeps P (?rest use_ptp)" for use_ptp by (intro keeps_rules keeps_setup_request keeps_announce steps)
  note rest = keeps_at [of "\<lambda>c. ?rest (should_use_ptp c)", OF this]
  show ?thesis unfolding setup_session_def Let_def by (intro keeps_rules keeps_commands rest)
qed

end

section \<open>What a subscriber sees\<close>

text \<open>The state that the events tell of; \<open>None\<close> when an event does not fit the ones before it.\<close>

fun watch_states :: "client_connection_state \<Rightarrow> connection_event list \<Rightarrow> client_connection_state option" where
  "watch_states s [] = Some s"
| "watch_states s (CE_StateChanged old new # es) = (if old = s \<and> new \<noteq> s then watch_states new es else None)"
| "watch_states s (_ # es) = watch_states s es"

definition told :: "client \<Rightarrow> client \<Rightarrow> bool" where
  "told c0 c \<longleftrightarrow> (\<exists>es. cm_events c = cm_events c0 @ es \<and> watch_states (cm_state c0) es = Some (cm_state c))"

lemma watch_states_append:
  "watch_states s (es @ later) = Option.bind (watch_states s es) (\<lambda>s'. watch_states s' later)"
  by (induction s es rule: watch_states.induct) simp_all

lemma told_refl: "told c c"
  by (simp add: told_def)

lemma told_set_state: "told c0 c \<Longrightarrow> told c0 (set_state s c)"
  by (auto simp: told_def set_state_def send_event_def Let_def watch_states_append intro!: exI)

lemma told_send_event: "told c0 c \<Longrightarrow> watch_states (cm_state c) [e] = Some (cm_state c) \<Longrightarrow> told c0 (send_event e c)"
  by (auto simp: told_def send_event_def watch_states_append)

definition linked :: "airplay_device \<Rightarrow> client \<Rightarrow> bool" where
  "linked device c \<longleftrightarrow> cm_device c = Some device \<and> cm_stream c \<noteq> None \<and> cm_rtsp_session c \<noteq> None"

interpretation calmly: calm_property "calm c0" for c0
  by unfold_locales (auto simp: calm_def)

interpretation teller: calm_property "told c0" for c0
  by unfold_locales (auto simp: calm_def told_def)

interpretation link: calm_property "linked device" for device
  by unfold_locales (auto simp: calm_def linked_def)

lemma keeps_in_state: "keeps P m \<Longrightarrow> (\<And>c. P c \<Longrightarrow> P (set_state s c)) \<Longrightarrow> keeps P (in_state s m)"
  by (auto simp: keeps_def in_state_def)

lemma linked_set_state: "linked device c \<Longrightarrow> linked device (set_state s c)"
  by (simp add: linked_def set_state_def send_event_def Let_def)

lemma connect_internal_told: "keeps (told c0) (connect_internal env device)"
proof -
  have "keeps (told c0) (open_stream env device)"
    by (auto simp: keeps_def told_def open_stream_def split: option.splits sum.splits)
  then show ?thesis
    unfolding connect_internal_def
    by (intro keeps_await keeps_await_ok keeps_in_state teller.keeps_options teller.keeps_probe teller.keeps_cond keeps_pure
        teller.keeps_auth_setup teller.keeps_authenticate teller.keeps_setup_session told_set_state)
qed

lemma connect_internal_linked:
  assumes "connect_internal env device c = Returned c' (Inr ())" and "cm_device c = Some device"
  shows "linked device c'"
proof -
  let ?rest = "await_ok (in_state CS_SettingUp (send_options env)) (\<lambda>_.
       await (probe_info env) (\<lambda>manufacturer.
       await (in_state CS_Authenticating
                (if manufacturer = ascii ''OpenAirplay'' then ok_val () else auth_setup env)) (\<lambda>_.
       await_ok (authenticate env device) (\<lambda>_.
       in_state CS_SettingUp (setup_session env)))))"
  obtain c1 where opened: "open_stream env device c = Returned c1 (Inr ())" and rest: "?rest c1 = Returned c' (Inr ())"
    using assms(1) unfolding connect_internal_def by (auto elim: await_ok_Inr)
  have "linked device c1" using opened assms(2) by (auto simp: open_stream_def linked_def split: option.splits sum.splits)
  moreover have "keeps (linked device) ?rest"
    by (intro keeps_await keeps_await_ok keeps_in_state link.keeps_options link.keeps_probe link.keeps_cond keeps_pure
        link.keeps_auth_setup link.keeps_authenticate link.keeps_setup_session linked_set_state)
  ultimately show ?thesis using rest by (auto dest: keepsD)
qed

section \<open>The keys of the encrypted session\<close>

definition hap_keys :: "hap_session option \<Rightarrow> (bytes \<times> bytes) option" where
  "hap_keys = map_option (\<lambda>h. (hap_encrypt_key h, hap_decrypt_key h))"

lemma hap_encrypt_chunks_keys: "hap_encrypt_chunks enc h cs = Some (h', r) \<Longrightarrow> hap_keys (Some h') = hap_keys (Some h)"
  by (induction cs arbitrary: h r) (fastforce simp: hap_keys_def Let_def split: if_splits option.splits Option.bind_splits)+

lemma hap_decrypt_block_keys: "hap_decrypt_block dec h data = Some (h', r) \<Longrightarrow> hap_keys (Some h') = hap_keys (Some h)"
  by (auto simp: hap_decrypt_block_def hap_keys_def Let_def split: if_splits option.splits Option.bind_splits)

lemma open_blocks_keys: "open_blocks dec h codec pending = Some (h', rest) \<Longrightarrow> hap_keys (Some h') = hap_keys (Some h)"
proof (induction dec h codec pending rule: open_blocks.induct)
  case (1 dec h codec pending)
  note IH = 1(1) [OF _ refl refl _ _ refl refl refl]
  show ?case
    using 1(2) IH
    by (subst (asm) open_blocks.simps)
      (fastforce simp: Let_def split: if_splits option.splits sum.splits prod.splits dest: hap_decrypt_block_keys)
qed

lemma accept_bytes_keys: "accept_bytes dec data codec secure pending = Some (codec', secure', rest) \<Longrightarrow> hap_keys secure' = hap_keys secure"
  by (auto simp: accept_bytes_def split: option.splits sum.splits dest!: open_blocks_keys)

lemma receive_response_keys:
  "left_in (receive_response dec expected x) = Some x' \<Longrightarrow> hap_keys (rx_secure x') = hap_keys (rx_secure x)"
proof (induction dec expected x rule: receive_response.induct)
  case (1 dec expected x)
  note more = 1(1) [OF sym refl refl _ refl refl _ _ refl refl refl refl] and late = 1(2) [OF sym refl refl]
  show ?case
    using 1(3) more late
    by (subst (asm) receive_response.simps)
      (fastforce split: prod.splits sum.splits option.splits if_splits dest: accept_bytes_keys)
qed

lemma receive_stops_keys:
  "receive_response dec expected x = Returned x' r \<Longrightarrow> hap_keys (rx_secure x') = hap_keys (rx_secure x)"
  "receive_response dec expected x = Waiting x' \<Longrightarrow> hap_keys (rx_secure x') = hap_keys (rx_secure x)"
  using receive_response_keys [of dec expected x x'] by simp_all

lemma keeps_hap_keys: "keeps (\<lambda>c. hap_keys (cm_secure_session c) = ks) (send_rtsp_request env request)"
proof (rule keeps_send_request)
  show "keeps (\<lambda>c. hap_keys (cm_secure_session c) = ks) (seal_request env data)" for data
    by (auto simp: keeps_def seal_request_def hap_encrypt_def split: option.splits dest: hap_encrypt_chunks_keys)
  show "keeps (\<lambda>c. hap_keys (cm_secure_session c) = ks) (tcp_write data)" for data
    by (auto simp: keeps_def tcp_write_def split: option.splits prod.splits)
  show "keeps (\<lambda>c. hap_keys (cm_secure_session c) = ks) (read_response env expected)" for expected
    by (auto simp: keeps_def read_response_def with_reader_def split: option.splits call_outcome.splits
        dest!: receive_stops_keys)
qed simp

lemma keeps_teardown:
  "keeps (calm c0) (await_ok (build_request teardown_request) (send_rtsp_request env))"
  "keeps (\<lambda>c. hap_keys (cm_secure_session c) = ks) (await_ok (build_request teardown_request) (send_rtsp_request env))"
proof -
  show "keeps (calm c0) (await_ok (build_request teardown_request) (send_rtsp_request env))"
    by (intro keeps_await_ok calmly.keeps_basic calmly.keeps_request)
  have "keeps (\<lambda>c. hap_keys (cm_secure_session c) = ks) (build_request teardown_request)"
    by (auto simp: keeps_def build_request_def split: option.splits prod.splits)
  then show "keeps (\<lambda>c. hap_keys (cm_secure_session c) = ks) (await_ok (build_request teardown_request) (send_rtsp_request env))"
    by (rule keeps_await_ok) (rule keeps_hap_keys)
qed

lemma close_connection_released:
  assumes "calm c c1" and "hap_keys (cm_secure_session c1) = hap_keys (cm_secure_session c)"
    and "c' = close_connection reason (cm_device c) c1"
  shows "cm_state c' = CS_Disconnected
       \<and> cm_stream c' = None \<and> cm_sockets c' = None \<and> cm_audio_tcp_stream c' = None \<and> cm_rtsp_session c' = None
       \<and> encryption_key c' = None \<and> cm_ptp_clock c' = None \<and> \<not> cm_ptp_active c' \<and> \<not> cm_event_task c'
       \<and> (\<exists>es. cm_events c' = cm_events c @ es \<and> watch_states (cm_state c) es = Some CS_Disconnected
            \<and> (case cm_device c of None \<Rightarrow> True | Some d \<Rightarrow> CE_Disconnected d reason \<in> set es))
       \<and> hap_keys (cm_secure_session c') = hap_keys (cm_secure_session c)"
  using assms
  by (cases "cm_device c"; cases "cm_state c = CS_Disconnected")
    (simp_all add: calm_def close_connection_def stop_ptp_def set_state_def send_event_def encryption_key_def Let_def)

section \<open>Properties\<close>

text \<open>
  C18. Connecting always ends, and the events tell how. \<open>connect\<close> is refused while a connection
  is active; otherwise it never stays waiting, and it leaves the manager connected, with the
  device, an open stream and an RTSP session, or failed. The state changes among the events that
  it sent follow each other without a gap from the state before to the state after the call, so
  that a subscriber always knows the state. (A panic of the property list decoder is the third end.)
\<close>

theorem client_connect_ends:
  "if connection_is_active (cm_state c)
   then client_connect env device c =
     Returned c (Inl (E_InvalidState (msg ''Already connected or connecting'') (connection_state_name (cm_state c))))
   else (case client_connect env device c of
           Panicked \<Rightarrow> True
         | Waiting _ \<Rightarrow> False
         | Returned c' r \<Rightarrow>
             (\<exists>es. cm_events c' = cm_events c @ es \<and> watch_states (cm_state c) es = Some (cm_state c'))
             \<and> (case r of
                   Inr _ \<Rightarrow> cm_state c' = CS_Connected \<and> last (cm_events c') = CE_Connected device
                     \<and> cm_device c' = Some device \<and> cm_stream c' \<noteq> None \<and> cm_rtsp_session c' \<noteq> None
                 | Inl _ \<Rightarrow> cm_state c' = CS_Failed))"
proof (cases "connection_is_active (cm_state c)")
  case True
  then show ?thesis by (simp add: client_connect_def)
next
  case False
  let ?c = "(set_state CS_Connecting c)\<lparr>cm_device := Some device\<rparr>"
  have start: "told c ?c" using told_set_state [OF told_refl, of c CS_Connecting] by (simp add: told_def)
  have stops: "told c c1" if "left_in (connect_internal env device ?c) = Some c1" for c1
    by (rule keepsD [OF connect_internal_told start that])
  have failed: "told c (set_state CS_Failed c1)" "cm_state (set_state CS_Failed c1) = CS_Failed" if "told c c1" for c1
    using told_set_state [OF that, of CS_Failed] by (simp_all add: set_state_def send_event_def Let_def)
  show ?thesis
  proof (cases "connect_internal env device ?c")
    case (Returned c1 r)
    then have c1: "told c c1" using stops by simp
    show ?thesis
    proof (cases r)
      case (Inl e)
      have "told c (send_event (CE_Error e (is_recoverable e)) (set_state CS_Failed c1))"
        by (rule told_send_event [OF failed(1) [OF c1]]) simp
      with False Returned Inl failed(2) [OF c1] show ?thesis
        by (simp add: client_connect_def timeout_def told_def) (simp add: send_event_def)
    next
      case (Inr u)
      have "told c (send_event (CE_Connected device) (set_state CS_Connected c1))"
        by (rule told_send_event [OF told_set_state [OF c1]]) simp
      moreover have "linked device c1" using connect_internal_linked [of env device ?c c1] Returned Inr by simp
      ultimately show ?thesis using False Returned Inr
        by (simp add: client_connect_def timeout_def told_def)
          (simp add: linked_def send_event_def set_state_def Let_def split: if_splits)
    qed
  next
    case (Waiting c1)
    then show ?thesis using False stops failed by (simp add: client_connect_def timeout_def told_def)
  next
    case Panicked
    with False show ?thesis by (simp add: client_connect_def timeout_def)
  qed
qed

text \<open>
  C37. What disconnecting leaves. When \<open>disconnect\<close> returns, it returns \<open>Ok\<close> whatever became of TEARDOWN, where its
  documentation promises an error if TEARDOWN fails. The manager is then disconnected; stream, sockets, RTSP
  session, stored session keys and clock are gone, and the events tell of it. The
  encrypted session is not among them: the manager still holds it with the keys it had. The call can stay
  waiting for the answer to TEARDOWN only, and then nothing has changed for the user.
\<close>

theorem client_disconnect_releases:
  "case disconnect_with_reason env reason c of
     Panicked \<Rightarrow> True
   | Waiting c' \<Rightarrow> cm_state c = CS_Connected \<and> calm c c'
   | Returned c' r \<Rightarrow>
       r = Inr () \<and> cm_state c' = CS_Disconnected
       \<and> cm_stream c' = None \<and> cm_sockets c' = None \<and> cm_audio_tcp_stream c' = None \<and> cm_rtsp_session c' = None
       \<and> encryption_key c' = None \<and> cm_ptp_clock c' = None \<and> \<not> cm_ptp_active c' \<and> \<not> cm_event_task c'
       \<and> (\<exists>es. cm_events c' = cm_events c @ es \<and> watch_states (cm_state c) es = Some CS_Disconnected
            \<and> (case cm_device c of None \<Rightarrow> True | Some d \<Rightarrow> CE_Disconnected d reason \<in> set es))
       \<and> hap_keys (cm_secure_session c') = hap_keys (cm_secure_session c)"
proof -
  let ?call = "await_ok (build_request teardown_request) (send_rtsp_request env)"
  let ?quiet = "\<lambda>c1. calm c c1 \<and> hap_keys (cm_secure_session c1) = hap_keys (cm_secure_session c)"
  have now: "calm c c" by (simp add: calm_def)
  have quiet: "?quiet c1" if "left_in (?call c) = Some c1" for c1
    using keepsD [OF keeps_teardown(1), of c c env c1] keepsD [OF keeps_teardown(2), of c _ env c1] that now by blast
  show ?thesis
  proof (cases "cm_state c = CS_Connected \<and> cm_rtsp_session c \<noteq> None")
    case True
    show ?thesis
    proof (cases "?call c")
      case (Returned c1 r)
      with True quiet close_connection_released [OF _ _ refl, of c c1] show ?thesis by (simp add: disconnect_with_reason_def)
    next
      case (Waiting c1)
      with True quiet show ?thesis by (simp add: disconnect_with_reason_def)
    next
      case Panicked
      with True show ?thesis by (simp add: disconnect_with_reason_def)
    qed
  next
    case False
    then have "disconnect_with_reason env reason c = Returned (close_connection reason (cm_device c) c) (Inr ())"
      by (auto simp: disconnect_with_reason_def)
    with close_connection_released [OF now refl refl] show ?thesis by simp
  qed
qed

text \<open>
  A silent device keeps the connection. \<open>disconnect\<close> waits for the answer to TEARDOWN without a
  timeout: while a connected device sends nothing, the call stays waiting, and the manager stays
  connected.
\<close>

theorem client_silent_device_holds:
  assumes "crypto_correct (ce_lib env)" and "cm_state c = CS_Connected" and "cm_rtsp_session c = Some s"
    and "teardown_request s = Some (s', request)" and "cm_stream c = Some t" and "list_all accepts_some (tcp_accepts t)"
    and "tcp_in t = []" and "codec_holds b (cm_rtsp_codec c) []" and "can_seal (cm_secure_session c) (request_encode request)"
    and "unat (st_bytes_sent (cm_stats c)) + length (request_encode request) < 2 ^ 64"
  shows "\<exists>c'. disconnect_with_reason env reason c = Waiting c' \<and> cm_state c' = CS_Connected \<and> cm_stream c' \<noteq> None"
proof -
  let ?data = "request_encode request" and ?c = "c\<lparr>cm_rtsp_session := Some s'\<rparr>"
  let ?wire = "device_sees env (cm_secure_session c) ?data"
  have can: "can_seal (cm_secure_session ?c) ?data" using assms(9) by simp
  obtain secure where seal: "seal_request env ?data ?c = Returned (?c\<lparr>cm_secure_session := secure\<rparr>) (Inr (device_sees env (cm_secure_session ?c) ?data))"
    using seal_request_ok [OF assms(1) can] by metis
  obtain accepts where w: "write_all ?wire t = (t\<lparr>tcp_accepts := accepts, tcp_out := tcp_out t @ ?wire\<rparr>, Inr ())"
    using write_all_delivers [OF assms(6)] by blast
  obtain stats where stats: "record_sent (cm_stats c) (length ?data) = Some stats"
    using assms(10) by (auto simp: record_sent_def add_bytes_def)
  obtain codec where "codec_decode (cm_rtsp_codec c) = (codec, Inr None)"
    using client.dec_none [OF assms(8)] by blast
  then have "\<exists>c'. send_rtsp_request env request ?c = Waiting c' \<and> cm_state c' = CS_Connected \<and> cm_stream c' \<noteq> None"
    using assms(2,5,7) seal w stats
    by (simp add: send_rtsp_request_def tcp_write_def no_panic_def read_response_def receive_response.simps with_reader_def)
  then show ?thesis using assms(2-4) by (auto simp: disconnect_with_reason_def build_request_def)
qed

theorem client_silent_device_holds_witness:
  "\<exists>(c :: client) c'. cm_state c = CS_Connected \<and> disconnect demo_client_env c = Waiting c' \<and> cm_state c' = CS_Connected"
proof -
  let ?s = "rtsp_session_new 1 2 (ascii ''10.0.0.2'') 7000"
  let ?c = "(demo_secured [])\<lparr>cm_state := CS_Connected, cm_rtsp_session := Some ?s, cm_secure_session := None\<rparr>"
  obtain s' request where r: "teardown_request ?s = Some (s', request)" "length (request_encode request) < 2 ^ 64"
    by (simp add: teardown_request_def request_builder_def next_cseq_def rtsp_session_new_def Let_def common_headers_def
        request_header_def request_cseq_def request_user_agent_def request_new_def headers_insert_def eq_ignore_ascii_case_def
        ascii_lower_def request_encode_def header_line_def hex16_def dec_string.simps ascii_def crlf_def
        CSEQ_def USER_AGENT_def X_APPLE_DEVICE_ID_def X_APPLE_SESSION_ID_def ACTIVE_REMOTE_def DACP_ID_def CLIENT_INSTANCE_def)
  have "\<exists>c'. disconnect_with_reason demo_client_env DR_UserRequested ?c = Waiting c' \<and> cm_state c' = CS_Connected \<and> cm_stream c' \<noteq> None"
    by (intro client_silent_device_holds [OF _ _ _ r(1), where b = "1024 * 1024" and t = "\<lparr>tcp_in = [], tcp_accepts = [Accept 5], tcp_out = [], tcp_local = None\<rparr>"])
      (use r(2) in \<open>simp_all add: demo_secured_simps demo_client_env_def demo_lib_correct codec_new_holds [simplified] can_seal_def connection_stats_default_def\<close>)
  moreover have "cm_state ?c = CS_Connected" by simp
  ultimately show ?thesis unfolding disconnect_def by metis
qed

end
