(* ===== verification/Raop_Tasks.thy ===== *)
theory Raop_Tasks
  imports Raop_Server "HOL-Library.Multiset"
begin

text \<open>
  The connections of the RAOP receiver as concurrent tasks, \<open>src/receiver/server.rs\<close>. Every
  accepted connection runs \<open>handle_connection\<close> in a task of its own; all of them share the
  session manager. A task gives up the processor wherever it awaits, so other tasks run
  between any two of its critical sections: between the two halves of \<open>start_session\<close>, after
  the handler of a request, after each parameter update, inside \<open>allocate_sockets\<close>, before the
  ports are stored, before and after the response is written, before the new state is set, and
  inside \<open>end_session\<close>. \<open>conn_task\<close> is where a task stands, with the locals it still needs, and
  \<open>task_step\<close> runs one critical section of one task. The server never starts the
  timeout monitor of the manager.
\<close>

section \<open>Tasks\<close>

datatype conn_task =
    CT_Preempting socket_addr receiver_session
  | CT_Preempt_Reporting socket_addr receiver_session
  | CT_Installing socket_addr
  | CT_Serving socket_addr
  | CT_Updating socket_addr rtsp_request handle_result "parameter_update list"
  | CT_Choosing socket_addr rtsp_request handle_result allocated_ports
  | CT_Binding socket_addr rtsp_request handle_result allocated_ports ports nat
  | CT_Falling_Back socket_addr rtsp_request handle_result allocated_ports
  | CT_Storing socket_addr rtsp_request handle_result allocated_ports ports
  | CT_Writing socket_addr handle_result rtsp_response
  | CT_Settling socket_addr session_state
  | CT_Cleaning socket_addr receiver_session
  | CT_Reporting socket_addr receiver_session

type_synonym server_world = "session_manager \<times> conn_task multiset"

text \<open>
  The steps, in the order of the code. A task that returns an error or panics is gone, and
  leaves the session as it is. \<open>CT_Binding\<close> carries the attempts that are left: the loop of
  \<open>allocate_sockets\<close> binds the same ports again, and ends early when the allocator has wrapped.
\<close>

inductive task_step :: "'k announce_lib \<Rightarrow> (f32 \<Rightarrow> f32 \<Rightarrow> f32) \<Rightarrow> server_world \<Rightarrow> server_world \<Rightarrow> bool" for L powf where
  task_busy: "start_session_take m = (m', Inl e) \<Longrightarrow> task_step L powf (m, ts) (m', ts)"
| task_preempt: "start_session_take m = (m', Inr (Some old)) \<Longrightarrow>
    task_step L powf (m, ts) (m', add_mset (CT_Preempting a old) ts)"
| task_accept: "start_session_take m = (m', Inr None) \<Longrightarrow>
    task_step L powf (m, ts) (m', add_mset (CT_Installing a) ts)"
| task_preempt_cleanup: "task_step L powf (m, add_mset (CT_Preempting a old) ts)
    (manager_cleanup_sockets m, add_mset (CT_Preempt_Reporting a old) ts)"
| task_preempt_report: "task_step L powf (m, add_mset (CT_Preempt_Reporting a old) ts)
    (manager_report_end m old ''Preempted by new connection'', add_mset (CT_Installing a) ts)"
| task_install: "start_session_install random now m a = (m', Inr i) \<Longrightarrow>
    task_step L powf (m, add_mset (CT_Installing a) ts) (m', add_mset (CT_Serving a) ts)"
| task_install_busy: "start_session_install random now m a = (m', Inl e) \<Longrightarrow>
    task_step L powf (m, add_mset (CT_Installing a) ts) (m', ts)"
| task_handle: "manager_with_session (\<lambda>s. (s, handle_request L powf random request s None)) m = (m', Inr (Some result)) \<Longrightarrow>
    task_step L powf (m, add_mset (CT_Serving a) ts)
      (m', add_mset (CT_Updating a request result (hr_parameter_updates result)) ts)"
| task_handle_panics: "manager_with_session (\<lambda>s. (s, handle_request L powf random request s None)) m = (m', Inr None) \<Longrightarrow>
    task_step L powf (m, add_mset (CT_Serving a) ts) (m', ts)"
| task_handle_fails: "manager_with_session (\<lambda>s. (s, handle_request L powf random request s None)) m = (m', Inl e) \<Longrightarrow>
    task_step L powf (m, add_mset (CT_Serving a) ts) (m', ts)"
| task_update: "cn_manager c = m \<Longrightarrow> task_step L powf (m, add_mset (CT_Updating a request result (u # us)) ts)
    (cn_manager (apply_update env c u), add_mset (CT_Updating a request result us) ts)"
| task_updated: "hr_allocated_ports result = None \<Longrightarrow> task_step L powf (m, add_mset (CT_Updating a request result []) ts)
    (m, add_mset (CT_Writing a result (hr_response result)) ts)"
| task_updated_setup: "hr_allocated_ports result = Some q \<Longrightarrow>
    task_step L powf (m, add_mset (CT_Updating a request result []) ts) (m, add_mset (CT_Choosing a request result q) ts)"
| task_choose: "allocate_trio (sm_port_allocator m) = Some (al, ps) \<Longrightarrow>
    task_step L powf (m, add_mset (CT_Choosing a request result q) ts)
      (m\<lparr>sm_port_allocator := al\<rparr>, add_mset (CT_Binding a request result q ps 5) ts)"
| task_choose_panics: "allocate_trio (sm_port_allocator m) = None \<Longrightarrow>
    task_step L powf (m, add_mset (CT_Choosing a request result q) ts) (m, ts)"
| task_bind: "try_bind_sockets os_bind ps = Some bound \<Longrightarrow>
    task_step L powf (m, add_mset (CT_Binding a request result q ps (Suc n)) ts)
      (m\<lparr>sm_sockets := Some bound\<rparr>, add_mset (CT_Storing a request result q bound) ts)"
| task_rebind: "try_bind_sockets os_bind ps = None \<Longrightarrow> allocate_trio (sm_port_allocator m) = Some (al, nps) \<Longrightarrow>
    task_step L powf (m, add_mset (CT_Binding a request result q ps (Suc n)) ts)
      (m\<lparr>sm_port_allocator := al\<rparr>,
       add_mset (if fst nps = fst ps then CT_Falling_Back a request result q else CT_Binding a request result q ps n) ts)"
| task_rebind_panics: "try_bind_sockets os_bind ps = None \<Longrightarrow> allocate_trio (sm_port_allocator m) = None \<Longrightarrow>
    task_step L powf (m, add_mset (CT_Binding a request result q ps (Suc n)) ts) (m, ts)"
| task_give_up: "task_step L powf (m, add_mset (CT_Binding a request result q ps 0) ts)
    (m, add_mset (CT_Falling_Back a request result q) ts)"
| task_fall_back: "try_bind_sockets os_bind (0, 0, 0) = Some bound \<Longrightarrow>
    task_step L powf (m, add_mset (CT_Falling_Back a request result q) ts)
      (m\<lparr>sm_sockets := Some bound\<rparr>, add_mset (CT_Storing a request result q bound) ts)"
| task_fall_back_fails: "try_bind_sockets os_bind (0, 0, 0) = None \<Longrightarrow>
    task_step L powf (m, add_mset (CT_Falling_Back a request result q) ts) (m, ts)"
| task_store: "task_step L powf (m, add_mset (CT_Storing a request result q ps) ts)
    (fst (manager_with_session (\<lambda>s. (session_set_sockets now s (setup_sockets q ps a), ())) m),
     add_mset (CT_Writing a result (transport_answer request ps (hr_response result))) ts)"
| task_write_fails: "task_step L powf (m, add_mset (CT_Writing a result response) ts) (m, add_mset (CT_Serving a) ts)"
| task_write: "task_step L powf (m, add_mset (CT_Writing a result response) ts)
    (m, add_mset (case hr_new_state result of None \<Rightarrow> CT_Serving a | Some st \<Rightarrow> CT_Settling a st) ts)"
| task_settle: "task_step L powf (m, add_mset (CT_Settling a st) ts)
    (fst (manager_update_state now m st), add_mset (CT_Serving a) ts)"
| task_close: "end_session_take m = (m', Some session) \<Longrightarrow>
    task_step L powf (m, add_mset (CT_Serving a) ts) (m', add_mset (CT_Cleaning a session) ts)"
| task_close_none: "end_session_take m = (m', None) \<Longrightarrow> task_step L powf (m, add_mset (CT_Serving a) ts) (m', ts)"
| task_cleanup: "task_step L powf (m, add_mset (CT_Cleaning a session) ts)
    (manager_cleanup_sockets m, add_mset (CT_Reporting a session) ts)"
| task_report: "task_step L powf (m, add_mset (CT_Reporting a session) ts)
    (manager_report_end m session ''Connection closed'', ts)"

section \<open>Whose session it is\<close>

text \<open>The client that a task serves, from the moment its session is installed to the end of its loop.\<close>

fun task_client :: "conn_task \<Rightarrow> socket_addr option" where
  "task_client (CT_Serving a) = Some a"
| "task_client (CT_Updating a _ _ _) = Some a"
| "task_client (CT_Choosing a _ _ _) = Some a"
| "task_client (CT_Binding a _ _ _ _ _) = Some a"
| "task_client (CT_Falling_Back a _ _ _) = Some a"
| "task_client (CT_Storing a _ _ _ _) = Some a"
| "task_client (CT_Writing a _ _) = Some a"
| "task_client (CT_Settling a _) = Some a"
| "task_client _ = None"

fun task_preempts :: "conn_task \<Rightarrow> bool" where
  "task_preempts (CT_Preempting _ _) \<longleftrightarrow> True"
| "task_preempts (CT_Preempt_Reporting _ _) \<longleftrightarrow> True"
| "task_preempts _ \<longleftrightarrow> False"

text \<open>What a task still has to do before a session may be set up: it holds ports, or will get some.\<close>

fun task_prepared :: "receiver_session \<Rightarrow> conn_task \<Rightarrow> bool" where
  "task_prepared s (CT_Updating _ _ result _) \<longleftrightarrow> (hr_new_state result = Some Setup \<longrightarrow> hr_allocated_ports result \<noteq> None)"
| "task_prepared s (CT_Writing _ result _) \<longleftrightarrow> (hr_new_state result = Some Setup \<longrightarrow> rs_sockets s \<noteq> None)"
| "task_prepared s (CT_Settling _ st) \<longleftrightarrow> (st = Setup \<longrightarrow> rs_sockets s \<noteq> None)"
| "task_prepared s _ \<longleftrightarrow> True"

definition session_isolated :: "receiver_session \<Rightarrow> bool" where
  "session_isolated s \<longleftrightarrow>
     (rs_state s \<in> {Setup, Streaming, Paused} \<longrightarrow> rs_sockets s \<noteq> None)
     \<and> pred_option (\<lambda>so. ss_client_addr so = Some (rs_client_addr s)) (rs_sockets s)"

definition task_owns :: "session_manager \<Rightarrow> conn_task \<Rightarrow> bool" where
  "task_owns m t \<longleftrightarrow> (\<forall>a. task_client t = Some a \<longrightarrow>
     (\<exists>s. sm_active_session m = Some s \<and> rs_client_addr s = a \<and> task_prepared s t))"

definition world_isolated :: "server_world \<Rightarrow> bool" where
  "world_isolated w \<longleftrightarrow> (case w of (m, ts) \<Rightarrow>
     smc_preemption_policy (sm_config m) \<noteq> AllowPreempt
     \<and> pred_option session_isolated (sm_active_session m)
     \<and> size (filter_mset (\<lambda>t. task_client t \<noteq> None) ts) \<le> 1
     \<and> (\<forall>t\<in>#ts. task_owns m t \<and> \<not> task_preempts t))"

text \<open>A task that serves a client is alone in that, and acts on the session of its client.\<close>

lemma isolated_serving:
  assumes "world_isolated (m, add_mset t ts)" and "task_client t = Some a"
  obtains s where "sm_active_session m = Some s" "rs_client_addr s = a" "task_prepared s t" "session_isolated s"
    "\<forall>t\<in>#ts. task_client t = None"
proof -
  have "size (filter_mset (\<lambda>t. task_client t \<noteq> None) ts) = 0" and "task_owns m t"
    and "pred_option session_isolated (sm_active_session m)"
    using assms by (auto simp: world_isolated_def)
  moreover from this have "\<forall>t\<in>#ts. task_client t = None" by (simp add:)
  ultimately show thesis using that assms(2) by (auto simp: task_owns_def)
qed

lemma nobody_served [simp]: "\<forall>t\<in>#ts. task_client t = None \<Longrightarrow> {#t \<in># ts. \<exists>a. task_client t = Some a#} = {#}"
  by simp

lemma isolated_goes_on:
  assumes "world_isolated (m, add_mset t ts)" and "task_client t = Some a" and "task_client t' = Some a"
    and "sm_config m' = sm_config m" and "sm_active_session m' = Some s" and "rs_client_addr s = a"
    and "session_isolated s" and "task_prepared s t'"
  shows "world_isolated (m', add_mset t' ts)"
proof -
  obtain "\<forall>t\<in>#ts. task_client t = None" using isolated_serving [OF assms(1,2)] by blast
  then show ?thesis
    using assms by (cases t') (auto simp: world_isolated_def task_owns_def)
qed

lemma isolated_leaves:
  assumes "world_isolated (m, add_mset t ts)" and "task_client t = Some a"
    and "sm_config m' = sm_config m" and "pred_option session_isolated (sm_active_session m')"
  shows "world_isolated (m', ts)" and "world_isolated (m', add_mset (CT_Cleaning b old) ts)"
proof -
  obtain "\<forall>t\<in>#ts. task_client t = None" using isolated_serving [OF assms(1,2)] by blast
  then show "world_isolated (m', ts)" "world_isolated (m', add_mset (CT_Cleaning b old) ts)"
    using assms by (auto simp: world_isolated_def task_owns_def)
qed

lemma isolated_aside:
  assumes "world_isolated (m, ts)" and "sm_config m' = sm_config m" and "sm_active_session m' = sm_active_session m"
  shows "world_isolated (m', ts)"
  using assms by (simp add: world_isolated_def task_owns_def)

lemma isolated_idle:
  assumes "task_client t = None" and "\<not> task_preempts t"
  shows "world_isolated (m, add_mset t ts) \<longleftrightarrow> world_isolated (m, ts)"
  using assms by (auto simp: world_isolated_def task_owns_def)

lemma not_preempting:
  "\<not> world_isolated (m, add_mset (CT_Preempting a old) ts)" "\<not> world_isolated (m, add_mset (CT_Preempt_Reporting a old) ts)"
  by (simp_all add: world_isolated_def)

lemma isolated_install:
  assumes "world_isolated (m, ts)" and "start_session_install random now m a = (m', r)"
  shows "world_isolated (m', case r of Inl _ \<Rightarrow> ts | Inr _ \<Rightarrow> add_mset (CT_Serving a) ts)"
proof (cases "sm_active_session m")
  case None
  then have "\<forall>t\<in>#ts. task_client t = None" using assms(1) by (auto simp: world_isolated_def task_owns_def)
  moreover have "session_isolated (session_new random now a)" by (simp add: session_isolated_def session_new_def)
  ultimately show ?thesis
    using assms None
    by (auto simp: start_session_install_def world_isolated_def task_owns_def manager_send_def session_new_def)
next
  case (Some s)
  then show ?thesis using assms by (auto simp: start_session_install_def world_isolated_def)
qed

lemma isolated_update_state:
  assumes "session_isolated s" and "st = Setup \<longrightarrow> rs_sockets s \<noteq> None" and "sm_active_session m = Some s"
  obtains s' where "sm_active_session (fst (manager_update_state now m st)) = Some s'" "rs_client_addr s' = rs_client_addr s"
    "session_isolated s'"
proof -
  have "rs_state s \<in> {Setup, Streaming, Paused}" if "can_transition_to (rs_state s) st" "st = Streaming \<or> st = Paused"
    using that by (cases "rs_state s") auto
  then show thesis
    using that assms
    by (cases "can_transition_to (rs_state s) st")
      (auto simp: manager_update_state_def session_set_state_def session_touch_def manager_send_def session_isolated_def)
qed

lemma apply_update_session:
  assumes "sm_active_session (cn_manager c) = Some s" and "session_isolated s"
  obtains s' where "sm_active_session (cn_manager (apply_update env c u)) = Some s'" "rs_client_addr s' = rs_client_addr s"
    "session_isolated s'" "sm_config (cn_manager (apply_update env c u)) = sm_config (cn_manager c)"
  using that assms
  by (cases u) (auto simp: cn_send_def manager_set_volume_def session_set_volume_def session_touch_def manager_send_def
      session_isolated_def Let_def)

lemma with_session_result:
  assumes "manager_with_session (\<lambda>s. (s, f s)) m = (m', r)"
  shows "m' = m" and "r = Inr x \<Longrightarrow> \<exists>s. sm_active_session m = Some s \<and> f s = x"
  using assms with_session_same [of m _ f] by (cases "sm_active_session m"; auto simp: manager_with_session_def)+

lemma update_state_config: "sm_config (fst (manager_update_state now m st)) = sm_config m"
  by (simp add: manager_update_state_def manager_send_def split: option.split sum.split)

lemma isolated_same:
  assumes "world_isolated (m, add_mset t ts)" and "task_client t = Some a" and "task_client t' = Some a"
    and "sm_config m' = sm_config m" and "sm_active_session m' = sm_active_session m"
    and "\<And>s. task_prepared s t \<Longrightarrow> task_prepared s t'"
  shows "world_isolated (m', add_mset t' ts)"
proof -
  obtain s where "sm_active_session m = Some s" "rs_client_addr s = a" "task_prepared s t" "session_isolated s"
    using isolated_serving [OF assms(1,2)] by blast
  with assms show ?thesis by (intro isolated_goes_on [OF assms(1,2,3,4)]) simp_all
qed

lemma isolated_fails:
  assumes "world_isolated (m, add_mset t ts)" and "task_client t = Some a"
  shows "world_isolated (m, ts)"
  using assms(1) by (intro isolated_leaves(1) [OF assms refl]) (simp add: world_isolated_def)

lemma isolated_handle:
  assumes "world_isolated (m, add_mset (CT_Serving a) ts)"
    and "manager_with_session (\<lambda>s. (s, handle_request L powf random request s None)) m = (m', Inr (Some result))"
  shows "world_isolated (m', add_mset (CT_Updating a request result (hr_parameter_updates result)) ts)"
proof -
  obtain s where s: "sm_active_session m = Some s" "rs_client_addr s = a" "session_isolated s"
    using isolated_serving [OF assms(1)] by auto
  have r: "handle_request L powf random request s None = Some result" and m: "m' = m"
    using with_session_result [OF assms(2)] s(1) by auto
  show ?thesis unfolding m
    by (rule isolated_goes_on [OF assms(1) _ _ _ s(1)]) (use s setup_allocates [OF r] in auto)
qed

lemma isolated_update:
  assumes "world_isolated (cn_manager c, add_mset (CT_Updating a request result (u # us)) ts)"
  shows "world_isolated (cn_manager (apply_update env c u), add_mset (CT_Updating a request result us) ts)"
proof -
  obtain s where s: "sm_active_session (cn_manager c) = Some s" "rs_client_addr s = a" "session_isolated s"
      "task_prepared s (CT_Updating a request result (u # us))"
    by (rule isolated_serving [OF assms, where a = a]) auto
  obtain s' where "sm_active_session (cn_manager (apply_update env c u)) = Some s'" "rs_client_addr s' = rs_client_addr s"
      "session_isolated s'" "sm_config (cn_manager (apply_update env c u)) = sm_config (cn_manager c)"
    by (rule apply_update_session [OF s(1,3)])
  then show ?thesis using isolated_goes_on [OF assms] s(2,4) by simp
qed

lemma isolated_store:
  assumes "world_isolated (m, add_mset (CT_Storing a request result q ps) ts)"
  shows "world_isolated (fst (manager_with_session (\<lambda>s. (session_set_sockets now s (setup_sockets q ps a), ())) m),
    add_mset (CT_Writing a result response) ts)"
proof -
  obtain s where s: "sm_active_session m = Some s" "rs_client_addr s = a" "session_isolated s"
    using isolated_serving [OF assms] by auto
  let ?s = "session_set_sockets now s (setup_sockets q ps a)"
  have "session_isolated ?s" "rs_client_addr ?s = a" "rs_sockets ?s \<noteq> None"
    using s by (auto simp: session_isolated_def session_set_sockets_def session_touch_def setup_sockets_def split: prod.split)
  then show ?thesis
    using s by (intro isolated_goes_on [OF assms]) (auto simp: manager_with_session_def)
qed

lemma isolated_settle:
  assumes "world_isolated (m, add_mset (CT_Settling a st) ts)"
  shows "world_isolated (fst (manager_update_state now m st), add_mset (CT_Serving a) ts)"
proof -
  obtain s where s: "sm_active_session m = Some s" "rs_client_addr s = a" "session_isolated s" "st = Setup \<longrightarrow> rs_sockets s \<noteq> None"
    by (rule isolated_serving [OF assms, where a = a]) auto
  obtain s' where "sm_active_session (fst (manager_update_state now m st)) = Some s'" "rs_client_addr s' = rs_client_addr s"
      "session_isolated s'"
    by (rule isolated_update_state [OF s(3,4,1)])
  then show ?thesis using s(2) by (intro isolated_goes_on [OF assms]) (simp_all add: update_state_config)
qed

lemma isolated_close:
  assumes "world_isolated (m, add_mset (CT_Serving a) ts)" and "end_session_take m = (m', r)"
  shows "world_isolated (m', ts)" and "world_isolated (m', add_mset (CT_Cleaning b old) ts)"
  using isolated_leaves [OF assms(1)] assms(2) by (auto simp: end_session_take_def)

lemma task_step_isolated: "task_step L powf w w' \<Longrightarrow> world_isolated w \<Longrightarrow> world_isolated w'"
proof (induction rule: task_step.induct)
  case (task_preempt m m' old ts a)
  then show ?case by (auto simp: start_session_take_def world_isolated_def split: option.splits if_splits)
next
  case (task_accept m m' ts a)
  then show ?case by (auto simp: start_session_take_def isolated_idle split: option.splits if_splits)
next
  case (task_install random now m a m' i ts)
  then show ?case using isolated_install [OF _ task_install(1)] by (simp add: isolated_idle)
next
  case (task_install_busy random now m a m' e ts)
  then show ?case using isolated_install [OF _ task_install_busy(1)] by (simp add: isolated_idle)
next
  case (task_update c m a request result u us ts env)
  then show ?case using isolated_update by blast
next
  case (task_handle_panics random request m m' a ts)
  then show ?case using with_session_result(1) [OF task_handle_panics(1)] isolated_fails by fastforce
next
  case (task_handle_fails random request m m' e a ts)
  then show ?case using with_session_result(1) [OF task_handle_fails(1)] isolated_fails by fastforce
next
  case (task_write m a result response ts)
  then show ?case by (rule isolated_same) (auto split: option.split)
next
  case (task_rebind os_bind ps m al nps a request result q n ts)
  from task_rebind(3) show ?case by (rule isolated_same) auto
next
  case (task_cleanup m a session ts)
  then show ?case using isolated_aside [of m ts "manager_cleanup_sockets m"] by (simp add: isolated_idle manager_cleanup_sockets_def)
next
  case (task_report m a session ts)
  then show ?case using isolated_aside [of m ts "manager_report_end m session ''Connection closed''"]
    by (simp add: isolated_idle manager_report_end_def manager_send_def)
next
  case (task_handle random request m m' result a ts)
  then show ?case by (intro isolated_handle)
next
  case (task_store m a request result q ps ts now)
  then show ?case by (rule isolated_store)
next
  case (task_settle m a st ts now)
  then show ?case by (rule isolated_settle)
next
  case (task_choose_panics m a request result q ts)
  from task_choose_panics(2) show ?case by (rule isolated_fails) simp
next
  case (task_rebind_panics os_bind ps m a request result q n ts)
  from task_rebind_panics(3) show ?case by (rule isolated_fails) simp
next
  case (task_fall_back_fails os_bind m a request result q ts)
  from task_fall_back_fails(2) show ?case by (rule isolated_fails) simp
next
  case (task_close m m' session a ts)
  then show ?case using isolated_close(2) by blast
next
  case (task_close_none m m' a ts)
  then show ?case using isolated_close(1) by blast
qed (auto simp: start_session_take_def not_preempting elim!: isolated_same split: option.splits if_splits)

interpretation server_tasks: guarded_machine "task_step L powf"
  "\<lambda>w. \<exists>config. smc_preemption_policy config \<noteq> AllowPreempt \<and> w = (manager_new config, {#})" world_isolated for L powf
  by unfold_locales (auto simp: world_isolated_def manager_new_def dest: task_step_isolated)

section \<open>A request served without interruption\<close>

text \<open>
  \<open>connection_open\<close>, \<open>serve_request\<close> and \<open>connection_close\<close> of Raop_Server are the schedules in which no other
  task runs between the steps of one connection.
\<close>

abbreviation task_steps :: "'k announce_lib \<Rightarrow> (f32 \<Rightarrow> f32 \<Rightarrow> f32) \<Rightarrow> server_world \<Rightarrow> server_world \<Rightarrow> bool" where
  "task_steps L powf \<equiv> (task_step L powf)\<^sup>*\<^sup>*"

lemma task_once: "task_step L powf w w' \<Longrightarrow> task_steps L powf w w'"
  by (rule r_into_rtranclp)

lemma updates_run:
  "task_steps L powf (cn_manager c, add_mset (CT_Updating a request result us) ts)
     (cn_manager (process_parameter_updates env c us), add_mset (CT_Updating a request result []) ts)"
proof (induction us arbitrary: c)
  case (Cons u us)
  have "task_step L powf (cn_manager c, add_mset (CT_Updating a request result (u # us)) ts)
      (cn_manager (apply_update env c u), add_mset (CT_Updating a request result us) ts)" by (rule task_update [OF refl])
  from converse_rtranclp_into_rtranclp [OF this Cons.IH] show ?case by (simp add: process_parameter_updates_def)
qed (simp add: process_parameter_updates_def)

lemma bind_run:
  assumes "allocate_loop os_bind n ps (sm_port_allocator m) = Some (al, bound)"
  shows "task_steps L powf (m, add_mset (CT_Binding a request result q ps n) ts)
    (case bound of
       None \<Rightarrow> (m\<lparr>sm_port_allocator := al\<rparr>, add_mset (CT_Falling_Back a request result q) ts)
     | Some b \<Rightarrow> (m\<lparr>sm_port_allocator := al, sm_sockets := Some b\<rparr>, add_mset (CT_Storing a request result q b) ts))"
  using assms
proof (induction n arbitrary: m)
  case 0
  then show ?case using task_once [OF task_give_up [of L powf m a request result q ps ts]] by auto
next
  case (Suc n)
  show ?case
  proof (cases "try_bind_sockets (os_bind (5 - Suc n)) ps")
    case (Some b)
    have "bound = Some b" "al = sm_port_allocator m" using Suc.prems Some by simp_all
    then show ?thesis using task_once [OF task_bind [OF Some, of L powf m a request result q n ts]] by simp
  next
    case None
    obtain al1 nps where t: "allocate_trio (sm_port_allocator m) = Some (al1, nps)"
      using Suc.prems None by (auto split: Option.bind_splits)
    note step = task_rebind [OF None t, of L powf a request result q n ts]
    show ?thesis
    proof (cases "fst nps = fst ps")
      case True
      then show ?thesis using Suc.prems None t task_once [OF step] by (auto split: prod.splits)
    next
      case False
      then have "allocate_loop os_bind n ps (sm_port_allocator (m\<lparr>sm_port_allocator := al1\<rparr>)) = Some (al, bound)"
        using Suc.prems None t by (auto split: prod.splits)
      from converse_rtranclp_into_rtranclp [OF _ Suc.IH [OF this]] step False
      show ?thesis by (cases bound) simp_all
    qed
  qed
qed

lemma allocate_run:
  assumes "manager_allocate_sockets os_bind m = Some (m', r)"
  shows "task_steps L powf (m, add_mset (CT_Choosing a request result q) ts)
    (m', case r of None \<Rightarrow> ts | Some b \<Rightarrow> add_mset (CT_Storing a request result q b) ts)"
proof -
  obtain al ps where t: "allocate_trio (sm_port_allocator m) = Some (al, ps)"
    using assms by (auto simp: manager_allocate_sockets_def split: Option.bind_splits)
  obtain al' bound where l: "allocate_loop os_bind 5 ps al = Some (al', bound)"
    using assms t by (auto simp: manager_allocate_sockets_def)
  let ?m = "m\<lparr>sm_port_allocator := al\<rparr>"
  have "allocate_loop os_bind 5 ps (sm_port_allocator ?m) = Some (al', bound)" using l by simp
  note run = converse_rtranclp_into_rtranclp [OF task_choose [OF t] bind_run [OF this], of L powf a request result q ts]
  show ?thesis
  proof (cases bound)
    case (Some b)
    then show ?thesis using assms t l run by (auto simp: manager_allocate_sockets_def Let_def)
  next
    case None
    let ?n = "m\<lparr>sm_port_allocator := al'\<rparr>"
    have r: "task_steps L powf (m, add_mset (CT_Choosing a request result q) ts) (?n, add_mset (CT_Falling_Back a request result q) ts)"
      using run None by simp
    show ?thesis
    proof (cases "try_bind_sockets (os_bind 5) (0, 0, 0)")
      case fails: None
      then show ?thesis
        using rtranclp.rtrancl_into_rtrancl [OF r task_fall_back_fails [OF fails]] assms t l None
        by (auto simp: manager_allocate_sockets_def Let_def)
    next
      case (Some b)
      then show ?thesis
        using rtranclp.rtrancl_into_rtrancl [OF r task_fall_back [OF Some]] assms t l None
        by (auto simp: manager_allocate_sockets_def Let_def Some)
    qed
  qed
qed

lemma write_run:
  assumes "send_response env c result response = (c', r)"
  shows "task_steps L powf (cn_manager c, add_mset (CT_Writing a result response) ts) (cn_manager c', add_mset (CT_Serving a) ts)"
proof (cases "qe_write_ok env")
  case False
  then show ?thesis using assms task_once [OF task_write_fails] by (auto simp: send_response_def)
next
  case True
  note step = task_write [of L powf "cn_manager c" a result response ts]
  show ?thesis
  proof (cases "hr_new_state result")
    case None
    then show ?thesis using assms True task_once [OF step] by (auto simp: send_response_def apply_state_def)
  next
    case (Some st)
    have "cn_manager c' = fst (manager_update_state (qe_state_now env) (cn_manager c) st)"
      using assms True Some by (auto simp: send_response_def apply_state_def cn_send_def Let_def split: option.splits)
    moreover have "task_steps L powf (cn_manager c, add_mset (CT_Writing a result response) ts)
        (cn_manager c, add_mset (CT_Settling a st) ts)" using task_once [OF step] Some by simp
    ultimately show ?thesis
      using task_settle [of L powf "cn_manager c" a st ts "qe_state_now env"] by (simp add: rtranclp.rtrancl_into_rtrancl)
  qed
qed

lemma setup_run:
  assumes "handle_setup_ports env a q request (hr_response result) m = Some (m', r)"
  shows "task_steps L powf (m, add_mset (CT_Choosing a request result q) ts)
    (m', case r of Inl _ \<Rightarrow> ts | Inr response \<Rightarrow> add_mset (CT_Writing a result response) ts)"
proof -
  obtain m1 bound where al: "manager_allocate_sockets (qe_bind env) m = Some (m1, bound)"
    using assms by (auto simp: handle_setup_ports_def)
  note run = allocate_run [OF al, of L powf a request result q ts]
  show ?thesis
  proof (cases bound)
    case None
    then show ?thesis using run assms al by (auto simp: handle_setup_ports_def)
  next
    case (Some ps)
    have "task_steps L powf (m, add_mset (CT_Choosing a request result q) ts) (m1, add_mset (CT_Storing a request result q ps) ts)"
      using run Some by simp
    from rtranclp.rtrancl_into_rtrancl [OF this task_store [of L powf m1 a request result q ps ts "qe_sockets_now env"]]
    show ?thesis using assms al Some by (auto simp: handle_setup_ports_def)
  qed
qed

lemma serve_request_run:
  assumes "serve_request L powf env a c request = Some (c', r)"
  shows "task_steps L powf (cn_manager c, add_mset (CT_Serving a) ts)
    (cn_manager c', case r of Conn_Failed _ \<Rightarrow> ts | _ \<Rightarrow> add_mset (CT_Serving a) ts)"
proof -
  let ?f = "\<lambda>s. handle_request L powf (qe_random env) request s None"
  obtain m x where w: "manager_with_session (\<lambda>s. (s, ?f s)) (cn_manager c) = (m, x)" by (rule prod.exhaust)
  then have m: "m = cn_manager c" by (rule with_session_result)
  show ?thesis
  proof (cases x)
    case (Inl e)
    then show ?thesis
      using assms w m task_once [OF task_handle_fails [of L powf "qe_random env" request "cn_manager c" m e a ts]]
      by (auto simp: serve_request_def)
  next
    case (Inr y)
    then obtain result where y: "y = Some result" using assms w by (cases y) (auto simp: serve_request_def)
    let ?c1 = "process_parameter_updates env c (hr_parameter_updates result)"
    have up: "task_steps L powf (cn_manager c, add_mset (CT_Serving a) ts)
        (cn_manager ?c1, add_mset (CT_Updating a request result []) ts)"
      using task_handle [of L powf "qe_random env" request "cn_manager c" m result a ts] w m Inr y
        updates_run [of L powf c a request result "hr_parameter_updates result" ts env]
      by (simp add: converse_rtranclp_into_rtranclp)
    show ?thesis
    proof (cases "hr_allocated_ports result")
      case None
      have "send_response env ?c1 result (hr_response result) = (c', r)"
        using assms w m Inr y None by (simp add: serve_request_def Let_def)
      from rtranclp_trans [OF up converse_rtranclp_into_rtranclp [OF task_updated [OF None] write_run [OF this]]]
      show ?thesis using \<open>send_response _ _ _ _ = _\<close> by (auto simp: send_response_def split: if_splits)
    next
      case (Some q)
      obtain m2 z where p: "handle_setup_ports env a q request (hr_response result) (cn_manager ?c1) = Some (m2, z)"
        using assms w m Inr y Some by (auto simp: serve_request_def Let_def split: option.splits)
      note run = rtranclp_trans [OF up converse_rtranclp_into_rtranclp [OF task_updated_setup [OF Some] setup_run [OF p]]]
      show ?thesis
      proof (cases z)
        case (Inl e)
        then show ?thesis using run assms w m Inr y Some p by (auto simp: serve_request_def Let_def)
      next
        case resp: (Inr response)
        have send: "send_response env (?c1\<lparr>cn_manager := m2\<rparr>) result response = (c', r)"
          using assms w m Inr y Some p resp by (simp add: serve_request_def Let_def)
        from rtranclp_trans [OF _ write_run [OF this, of L powf a ts]] run resp
        show ?thesis using send by (auto simp: send_response_def split: if_splits)
      qed
    qed
  qed
qed

lemma connection_open_run:
  assumes "connection_open random now m a = (c, Inr ())" and "sm_active_session m = None"
  shows "task_steps L powf (m, ts) (cn_manager c, add_mset (CT_Serving a) ts)"
proof -
  obtain m1 i where inst: "start_session_install random now m a = (m1, Inr i)" and c: "cn_manager c = m1"
    using assms by (auto simp: connection_open_def manager_start_session_def start_session_take_def start_session_cleanup_def
        split: prod.splits sum.splits)
  have "task_step L powf (m, ts) (m, add_mset (CT_Installing a) ts)"
    by (rule task_accept) (simp add: start_session_take_def assms(2))
  moreover have "task_step L powf (m, add_mset (CT_Installing a) ts) (m1, add_mset (CT_Serving a) ts)"
    by (rule task_install [OF inst])
  ultimately show ?thesis by (simp add: c)
qed

section \<open>No announcement is kept\<close>

definition parameters_absent :: "server_world \<Rightarrow> bool" where
  "parameters_absent w \<longleftrightarrow> pred_option (\<lambda>s. rs_stream_params s = None) (sm_active_session (fst w))"

lemma task_step_parameters: "task_step L powf w w' \<Longrightarrow> parameters_absent w \<Longrightarrow> parameters_absent w'"
proof (induction rule: task_step.induct)
  case (task_install random now m a m' i ts)
  then show ?case
    by (auto simp: parameters_absent_def start_session_install_def session_new_def split: option.splits if_splits)
next
  case (task_update c m a request result u us ts env)
  then show ?case
    by (cases u) (auto simp: parameters_absent_def cn_send_def manager_set_volume_def session_set_volume_def session_touch_def
        manager_send_def Let_def split: option.splits)
next
  case (task_settle m a st ts now)
  then show ?case
    by (auto simp: parameters_absent_def manager_update_state_def session_set_state_def session_touch_def manager_send_def
        split: option.splits)
next
  case (task_store m a request result q ps ts now)
  then show ?case
    by (auto simp: parameters_absent_def manager_with_session_def session_set_sockets_def session_touch_def split: option.splits)
qed (auto simp: parameters_absent_def start_session_take_def start_session_install_def manager_cleanup_sockets_def
    manager_report_end_def manager_send_def end_session_take_def Let_def dest!: with_session_result(1)
    split: option.splits if_splits)

interpretation announced: guarded_machine "task_step L powf" "\<lambda>w. \<exists>config. w = (manager_new config, {#})" parameters_absent for L powf
  by unfold_locales (auto simp: parameters_absent_def manager_new_def dest: task_step_parameters)

lemma demo_setup_reachable:
  "\<exists>m s. task_steps demo_announce_lib (\<lambda>_ x. x) (manager_new demo_reject_config, {#}) (m, {#CT_Serving (SocketV4 1 1)#})
     \<and> sm_active_session m = Some s \<and> rs_state s = Setup"
proof -
  let ?run = "task_steps demo_announce_lib (\<lambda>_ x. x)" and ?a = "SocketV4 1 1"
  obtain c0 c1 c2 announce set_up s where
      c0: "connection_open 5 0 (manager_new demo_reject_config) ?a = (c0, Inr ())"
    and c1: "serve_request demo_announce_lib (\<lambda>_ x. x) (demo_envs 1) ?a c0 announce = Some (c1, Conn_Continue)"
    and c2: "serve_request demo_announce_lib (\<lambda>_ x. x) (demo_envs 2) ?a c1 set_up = Some (c2, Conn_Continue)"
    and s: "sm_active_session (cn_manager c2) = Some s" "rs_state s = Setup"
    using demo_setup_served by blast
  have "?run (manager_new demo_reject_config, {#}) (cn_manager c0, {#CT_Serving ?a#})"
    by (rule connection_open_run [OF c0]) (simp add: manager_new_def)
  also have "?run \<dots> (cn_manager c1, {#CT_Serving ?a#})" using serve_request_run [OF c1, of "{#}"] by simp
  also have "?run \<dots> (cn_manager c2, {#CT_Serving ?a#})" using serve_request_run [OF c2, of "{#}"] by simp
  finally show ?thesis using s by blast
qed

section \<open>Properties\<close>

text \<open>
  C31. Connections do not meddle with each other's session, however their tasks interleave. When
  the receiver does not allow preemption, then in every state that the tasks of the connections reach at most one
  of them serves a client; the active session is the session of that client; and a session that is set up,
  streaming or paused has its ports, which were stored by its own connection for its own
  address. The sockets behind the ports are shared by all sessions and are not covered: the
  clean-up of a connection that has just ended may drop them.
\<close>

theorem raop_sessions_isolated:
  assumes "(task_step L powf)\<^sup>*\<^sup>* (manager_new config, {#}) (m, ts)" and "smc_preemption_policy config \<noteq> AllowPreempt"
  shows "size (filter_mset (\<lambda>t. task_client t \<noteq> None) ts) \<le> 1
    \<and> (\<forall>t a. t \<in># ts \<longrightarrow> task_client t = Some a \<longrightarrow> (\<exists>s. sm_active_session m = Some s \<and> rs_client_addr s = a))
    \<and> (\<forall>s. sm_active_session m = Some s \<longrightarrow> rs_state s \<in> {Setup, Streaming, Paused} \<longrightarrow>
         (\<exists>so. rs_sockets s = Some so \<and> ss_client_addr so = Some (rs_client_addr s)))"
proof -
  have "world_isolated (m, ts)" using server_tasks.reachable_safe [OF _ assms(1)] assms(2) by blast
  then show ?thesis by (auto simp: world_isolated_def task_owns_def session_isolated_def)
qed

theorem raop_sessions_isolated_witness:
  "\<exists>(m :: session_manager) (s :: receiver_session) (so :: session_sockets).
     task_steps demo_announce_lib (\<lambda>_ x. x) (manager_new demo_reject_config, {#}) (m, {#CT_Serving (SocketV4 1 1)#})
     \<and> sm_active_session m = Some s \<and> rs_state s = Setup \<and> rs_client_addr s = SocketV4 1 1
     \<and> rs_sockets s = Some so \<and> ss_client_addr so = Some (SocketV4 1 1)"
proof -
  obtain m s where r: "task_steps demo_announce_lib (\<lambda>_ x. x) (manager_new demo_reject_config, {#}) (m, {#CT_Serving (SocketV4 1 1)#})"
      "sm_active_session m = Some s" "rs_state s = Setup"
    using demo_setup_reachable by blast
  have "smc_preemption_policy demo_reject_config \<noteq> AllowPreempt" by (simp add: demo_reject_config_def)
  from raop_sessions_isolated [OF r(1) this] r show ?thesis by auto
qed

text \<open>
  The receiver forgets what was announced: in no reachable state does the session have stream
  parameters, so the codec, the format and the keys of the announcement are not there when audio arrives.
\<close>

theorem raop_stream_parameters_lost:
  assumes "(task_step L powf)\<^sup>*\<^sup>* (manager_new config, {#}) (m, ts)" and "sm_active_session m = Some s"
  shows "rs_stream_params s = None"
  using announced.reachable_safe [OF _ assms(1)] assms(2) by (auto simp: parameters_absent_def)

theorem raop_stream_parameters_lost_witness:
  "\<exists>(m :: session_manager) (s :: receiver_session). sm_active_session m = Some s \<and> rs_state s = Setup \<and> rs_stream_params s = None"
proof -
  obtain m s where r: "task_steps demo_announce_lib (\<lambda>_ x. x) (manager_new demo_reject_config, {#}) (m, {#CT_Serving (SocketV4 1 1)#})"
      "sm_active_session m = Some s" "rs_state s = Setup"
    using demo_setup_reachable by blast
  show ?thesis using raop_stream_parameters_lost [OF r(1,2)] r(2,3) by blast
qed

end
