(* ===== verification/Spec2Isabelle.thy ===== *)
theory Spec2Isabelle
  imports Rtp_Packet Rtp_Control Rtp_Timing Packet_Buffer Sequence_Tracker Tlv8 Ring_Buffer
    Playback_Queue Ap2_Session Secure_Channel Ptp_Timestamp Ptp_Message Ptp_Clock Jitter_Buffer
    Receiver_Session Encrypted_Rtsp Aes_Ctr Plist_Safety Ap2_Setup Ptp_Handler Ap2_Jitter
    Raop_Handshake
Client_Dialogue
Client_Lifecycle
Raop_Tasks
begin

text \<open>
  Verification of \<open>airplay2-rs\<close>, an AirPlay audio client and receiver in Rust. File names below
  are those of the repository, \<open>src/...\<close>.

  \<^bold>\<open>The program.\<close> A client discovers a device, pairs with it, opens an RTSP control connection,
  negotiates a stream and sends audio as RTP packets, with control, timing and retransmission
  channels beside it. A receiver plays the other part in two generations: the RAOP receiver
  (\<open>src/receiver\<close>, with SDP and transport headers) and the AirPlay 2 receiver
  (\<open>src/receiver/ap2\<close>, with property lists, HomeKit pairing, encrypted channels and PTP). Both sides
  are built from sans-I/O components: state is a value, bytes go in, results and bytes come out.
  The development models these components and composes them as the code does; sockets, tasks and
  locks around them are not modelled, but their interleavings are, where the code depends on them
  (\<open>Receiver_Session\<close>, \<open>Raop_Tasks\<close>, \<open>Ptp_Node\<close>).

  \<^bold>\<open>Conventions.\<close> Integers are words of their width; \<open>+\<close> wraps where Rust uses wrapping arithmetic
  or release-mode casts, and an overflow that panics in Rust is \<open>None\<close>. A \<open>Result\<close> is a sum with
  the error on the left, a panic is \<open>None\<close> around it, so that theorems say separately that an
  operation does not panic and what it returns. Strings are their UTF-8 bytes. A hash map is the
  list of its entries in iteration order, and the theorems hold for every order. Random numbers,
  clock readings and operating-system answers are arguments.

  \<^bold>\<open>Foundations.\<close> \<open>Prelude\<close>: machine integers, byte orders, result combinators, the named
  collection \<open>wire\<close>. \<open>Rust_Text\<close>, \<open>Rust_Split\<close>, \<open>Rust_Net\<close>, \<open>Unicode\<close>: the string, number and address
  functions of the standard library that the protocols use (UTF-8 validation and lossy decoding,
  trimming, lines, splitting, decimal numbers, UTF-16). \<open>Interfaces\<close>: the contracts of components as locales,
  with the clients' lemmas proved once: \<open>wire_codec\<close> and \<open>exact_codec\<close> (encoders and decoders),
  \<open>recent_window\<close> (bounded histories), \<open>byte_fifo\<close> (bounded byte queues), \<open>framed_receiver\<close> and
  \<open>chunk_receiver\<close> (parsers of a stream cut into arbitrary chunks), \<open>guarded_machine\<close> and
  \<open>staged_machine\<close> (invariants and required stages of transition systems). Each is interpreted
  on the model's own operations in the theory of the component that provides them.

  \<^bold>\<open>RTP and timing.\<close>
  \<^item> \<open>Rtp_Packet\<close>: \<open>src/protocol/rtp/packet.rs\<close>. \<open>Rtp_Control\<close>: \<open>control.rs\<close>, \<open>raop.rs\<close> and the receiver's
    \<open>control_receiver.rs\<close>. The decoder accepts exactly the encoder's outputs.
  \<^item> \<open>Rtp_Timing\<close>: \<open>timing.rs\<close> and \<open>raop_timing.rs\<close>, the four-timestamp exchange with its
    rounding error over the reals.
  \<^item> \<open>Packet_Buffer\<close>: \<open>packet_buffer.rs\<close>, retransmission by sequence range across wrap-around.
  \<^item> \<open>Sequence_Tracker\<close>: \<open>src/receiver/sequence_tracker.rs\<close>.
  \<^item> \<open>Rtp_Codec\<close>: \<open>src/protocol/rtp/codec.rs\<close>, the sender's packets in three encryption modes; the
    receiver's audio is the sender's. \<open>Aes_Ctr\<close>: \<open>src/protocol/crypto/aes.rs\<close>, refining counter mode.
  \<^item> \<open>Jitter_Buffer\<close>: \<open>src/audio/jitter.rs\<close>, with packets inserted between the calls of \<open>pop\<close>. \<open>Ring_Buffer\<close>: \<open>src/audio/buffer.rs\<close>, refining a byte
    queue. \<open>Ap2_Audio\<close>, \<open>Ap2_Jitter\<close>: \<open>src/receiver/ap2/rtp_decryptor.rs\<close>, \<open>rtp_receiver.rs\<close>,
    \<open>jitter_buffer.rs\<close>.
  \<^item> \<open>Ptp_Timestamp\<close>, \<open>Ptp_Message\<close>, \<open>Ptp_Clock\<close>, \<open>Ptp_Node\<close>, \<open>Ptp_Handler\<close>: \<open>src/protocol/ptp\<close>, from the
    wire formats to the event loop in both roles. The node never panics, two masters elect one,
    a complete exchange calibrates the slave, and the node refines the older master handler.

  \<^bold>\<open>Control connection.\<close>
  \<^item> \<open>Rtsp_Message\<close>, \<open>Rtsp_Codec\<close>, \<open>Rtsp_Session\<close>: \<open>src/protocol/rtsp\<close>. Both parsers are interpreted as
    \<open>chunk_receiver\<close>; every request that a client session can build is read by the server as it
    was built, in any chunks.
  \<^item> \<open>Sdp\<close>: \<open>src/protocol/sdp\<close>, descriptions, parser and builder with their round trip.
  \<^item> \<open>Plist\<close>, \<open>Plist_Roundtrip\<close>, \<open>Plist_Safety\<close>: \<open>src/protocol/plist\<close>, binary property lists.
  \<^item> \<open>Secure_Channel\<close>, \<open>Encrypted_Rtsp\<close>: the ChaCha20-Poly1305 channels of both sides and their
    composition with the RTSP parser (\<open>src/receiver/ap2/encrypted_rtsp.rs\<close>).
  \<^item> \<open>Ap2_Session\<close>, \<open>Ap2_Body\<close>, \<open>Ap2_Request\<close>, \<open>Ap2_Setup\<close>: states, bodies, routing and the handlers of
    \<open>src/receiver/ap2\<close>, the two-phase SETUP with its port allocation.
  \<^item> \<open>Receiver_Session\<close>: \<open>src/receiver/session.rs\<close> and \<open>session_manager.rs\<close>, with the lock-free
    windows of its calls as separate steps of an interleaving.

  \<^bold>\<open>Pairing.\<close> \<open>Tlv8\<close>, \<open>Crypto_Lib\<close>, \<open>Srp\<close>, \<open>Pairing_Client\<close>, \<open>Pairing_Server\<close>: the TLV format, the wrappers of
  \<open>src/protocol/crypto\<close>, SRP-6a over integers, the client's transient, PIN and verify exchanges and
  the receiver's server, composed in a dialogue.

  \<^bold>\<open>RAOP.\<close> \<open>Raop_Sdp\<close>: the session descriptions of \<open>src/protocol/raop\<close> and the receiver's \<open>announce_handler.rs\<close>.
  \<open>Dmap\<close>: \<open>src/protocol/daap\<close> and the metadata handlers. \<open>Rust_Float\<close>: the formatting and parsing of floating-point
  values that volumes need. \<open>Raop_Session\<close>: the client's session, its keys and audio packets. \<open>Raop_Handler\<close>: \<open>src/receiver/rtsp_handler.rs\<close>
  and the parameter handlers. \<open>Raop_Server\<close>: \<open>src/receiver/server.rs\<close>, the connection loop on the shared session manager with
  a request served without interruption, and starting and stopping as a step relation. \<open>Raop_Tasks\<close>: the connections as concurrent
  tasks with one step per critical section, of which an uninterrupted request is one schedule; without
  preemption no connection acts on the session of another. \<open>Raop_Handshake\<close> runs client and server against
  each other: with an announcement without keys OPTIONS, ANNOUNCE, SETUP and RECORD take both sides to
  streaming, and the announcement with keys that the client prepares is refused.

  \<^bold>\<open>Client connection.\<close> \<open>Async_Io\<close>: asynchronous calls as functions that return, wait or panic, and
  \<open>src/net/traits.rs\<close> over a stream given by what arrives and what the system accepts. \<open>Client_Types\<close>:
  \<open>src/error\<close>, \<open>src/types\<close> and \<open>src/connection/state.rs\<close>. \<open>Ntp_Client\<close>: \<open>src/protocol/rtp/ntp_client.rs\<close>. \<open>src/connection/manager.rs\<close> is in
  three theories: \<open>Client_Connection\<close> (the manager's state, requests, commands, packets, disconnecting),
  \<open>Client_Pairing\<close> (pairing over HTTP) and \<open>Client_Setup\<close> (the SETUP sequence and \<open>connect\<close>). \<open>Client_Exchange\<close> shows that
  each request gets its own answer over any segmentation, \<open>Client_Dialogue\<close> that transient pairing with the receiver's
  pairing server installs the server's keys, and \<open>Client_Lifecycle\<close> what \<open>connect\<close> and \<open>disconnect\<close> leave behind and
  tell subscribers; there the locale \<open>calm_property\<close> carries a property through all operations between two states.

  \<^bold>\<open>Playback.\<close> \<open>Playback_Queue\<close>: \<open>src/control/queue.rs\<close>, the queue with shuffle, repeat and history.

  \<^bold>\<open>Parameters.\<close> Third-party code is a parameter: the AEAD, the AES block cipher, hashes, signatures
  and key agreement (record \<open>crypto_lib\<close>), the random source, the operating system's answers when a
  port is bound, the allocator of the property-list decoder, the clock and sockets of a PTP
  node (\<open>ptp_env\<close>), the libraries of RAOP (\<open>announce_lib\<close>, \<open>rsa_lib\<close>), powers and logarithms of floating-point
  numbers, the iteration order of hash maps, and the environment of a client call (\<open>client_env\<close>). What the theorems need of
  them is a hypothesis (\<open>aead_correct\<close>, \<open>env_ok\<close> and the like), and the witnesses instantiate it.

  \<^bold>\<open>Fuel and bounds.\<close> Loops are total functions. A receive loop takes a number of rounds that
  exceeds the bytes held, which is enough because every parsed message shortens the buffer
  (\<open>framed_receiver\<close>); HAP decryption takes the length of its input as fuel; the pairing dialogue
  runs the rounds of the protocol. Port search and playback are \<open>function\<close>s with termination proofs.

  \<^bold>\<open>Not modelled.\<close> Discovery (mDNS through a third-party daemon), the client facade, groups and players
  (forwarding to the modelled components), the streaming sources, sample conversion, resampling, codecs
  and audio output (floating point and bindings to third-party libraries), the tokio implementation of the
  network traits (I/O only), the observable state container, test doubles and examples. In the connection
  manager the background tasks are recorded when they start and stop, and their loops are the modelled
  handlers; calls are made one at a time, as its locks order them; the pairing storage is the one in memory.
\<close>

end
